(* ===== verification/Gateway_Prelude.thy ===== *)
theory Gateway_Prelude
  imports Main "HOL-Library.AList"
begin

text \<open>
  What every component of the gateway shares: Go's 64-bit integers, \<^verbatim>\<open>time.Time\<close> and
  \<^verbatim>\<open>time.Duration\<close>, Go maps, the functions of package \<^verbatim>\<open>strings\<close> the code calls, the
  least-recently-used scan that four components repeat, and the interface of a store whose
  size is bounded, which those components implement.

  \<^item> A \<^verbatim>\<open>time.Time\<close> is the number of nanoseconds since the zero time (1 January of year 1),
    so \<^verbatim>\<open>time.Time{}\<close> is 0 and \<^verbatim>\<open>IsZero\<close> is equality with 0. \<^verbatim>\<open>Sub\<close> saturates at the
    limits of an \<^verbatim>\<open>int64\<close>, as package \<^verbatim>\<open>time\<close> does. A function that reads the clock takes the
    reading as an argument.
  \<^item> A Go map is an association list with distinct keys. The order of the list stands for
    the iteration order, which Go leaves unspecified: nothing is assumed of it.
  \<^item> A Go string is a list of bytes; case folding is that of ASCII.
\<close>

section \<open>Collections of rewrite rules\<close>

named_theorems gomap_simps \<open>lookup, size and key set of Go maps after an update\<close>
named_theorems time_simps \<open>arithmetic of clock readings\<close>
named_theorems string_simps \<open>functions of package strings\<close>

section \<open>64-bit integers\<close>

definition wrap64 :: "int \<Rightarrow> int" where
  "wrap64 x = (x + 2 ^ 63) mod 2 ^ 64 - 2 ^ 63"

definition max_int64 :: int where
  "max_int64 = 2 ^ 63 - 1"

definition min_int64 :: int where
  "min_int64 = - (2 ^ 63)"

definition in_int64 :: "int \<Rightarrow> bool" where
  "in_int64 x \<longleftrightarrow> min_int64 \<le> x \<and> x \<le> max_int64"

text \<open>Division and remainder of Go's integers truncate towards zero.\<close>

definition quot_int :: "int \<Rightarrow> int \<Rightarrow> int" where
  "quot_int a b = sgn a * sgn b * (\<bar>a\<bar> div \<bar>b\<bar>)"

definition rem_int :: "int \<Rightarrow> int \<Rightarrow> int" where
  "rem_int a b = a - quot_int a b * b"

lemma wrap64_id [simp]: "in_int64 x \<Longrightarrow> wrap64 x = x"
  by (simp add: wrap64_def in_int64_def min_int64_def max_int64_def)

lemma wrap64_in_int64: "in_int64 (wrap64 x)"
proof -
  have "0 \<le> (x + 2 ^ 63) mod 2 ^ 64" and "(x + 2 ^ 63) mod 2 ^ 64 < (2 ^ 64 :: int)"
    by simp_all
  then show ?thesis
    by (simp add: wrap64_def in_int64_def min_int64_def max_int64_def)
qed

lemma quot_int_nonneg: "0 \<le> a \<Longrightarrow> 0 < b \<Longrightarrow> quot_int a b = a div b"
  by (cases "a = 0") (simp_all add: quot_int_def)

lemma rem_int_nonneg: "0 \<le> a \<Longrightarrow> 0 < b \<Longrightarrow> rem_int a b = a mod b"
  by (simp add: rem_int_def quot_int_nonneg minus_div_mult_eq_mod)

section \<open>Times and durations\<close>

type_synonym gotime = int
type_synonym duration = int

definition time_zero :: gotime where
  "time_zero = 0"

definition nanos_per_second :: duration where
  "nanos_per_second = 1000000000"

definition time_Second :: duration where
  "time_Second = nanos_per_second"

definition time_Millisecond :: duration where
  "time_Millisecond = 1000000"

definition time_Minute :: duration where
  "time_Minute = 60 * time_Second"

definition time_Hour :: duration where
  "time_Hour = 60 * time_Minute"

lemmas duration_defs =
  time_Second_def time_Millisecond_def time_Minute_def time_Hour_def nanos_per_second_def

definition time_IsZero :: "gotime \<Rightarrow> bool" where
  "time_IsZero t \<longleftrightarrow> t = time_zero"

definition time_Sub :: "gotime \<Rightarrow> gotime \<Rightarrow> duration" where
  "time_Sub t u = max min_int64 (min max_int64 (t - u))"

definition time_Add :: "gotime \<Rightarrow> duration \<Rightarrow> gotime" where
  "time_Add t d = t + d"

definition time_After :: "gotime \<Rightarrow> gotime \<Rightarrow> bool" where
  "time_After t u \<longleftrightarrow> u < t"

definition time_Before :: "gotime \<Rightarrow> gotime \<Rightarrow> bool" where
  "time_Before t u \<longleftrightarrow> t < u"

text \<open>Seconds from the zero time to the Unix epoch, and the two conversions.\<close>

definition unix_epoch :: int where
  "unix_epoch = 62135596800"

definition time_Unix :: "gotime \<Rightarrow> int" where
  "time_Unix t = t div nanos_per_second - unix_epoch"

definition unix_time :: "int \<Rightarrow> gotime" where
  "unix_time s = (s + unix_epoch) * nanos_per_second"

lemmas time_defs [time_simps] =
  time_zero_def time_IsZero_def time_Add_def time_After_def time_Before_def

lemma time_Sub_exact: "in_int64 (t - u) \<Longrightarrow> time_Sub t u = t - u"
  by (simp add: time_Sub_def in_int64_def)

lemma time_Sub_less [time_simps]: "in_int64 d \<Longrightarrow> d < time_Sub t u \<longleftrightarrow> d < t - u \<and> d < max_int64"
  by (auto simp: time_Sub_def in_int64_def)

lemma time_Sub_ge [time_simps]:
  "in_int64 d \<Longrightarrow> d \<le> time_Sub t u \<longleftrightarrow> d \<le> t - u \<or> d = min_int64"
  by (auto simp: time_Sub_def in_int64_def)

lemma time_Sub_mono: "t \<le> t' \<Longrightarrow> time_Sub t u \<le> time_Sub t' u"
  by (simp add: time_Sub_def)

lemma unix_round_trip: "unix_time (time_Unix t) \<le> t \<and> t < unix_time (time_Unix t) + time_Second"
  unfolding unix_time_def time_Unix_def time_Second_def
  by (simp add: nanos_per_second_def) presburger

lemma time_Unix_unix_time [simp]: "time_Unix (unix_time s) = s"
  by (simp add: time_Unix_def unix_time_def nanos_per_second_def)

section \<open>Go maps\<close>

type_synonym ('k, 'v) gomap = "('k \<times> 'v) list"

abbreviation gm_keys :: "('k, 'v) gomap \<Rightarrow> 'k set" where
  "gm_keys m \<equiv> fst ` set m"

definition gm_ok :: "('k, 'v) gomap \<Rightarrow> bool" where
  "gm_ok m \<longleftrightarrow> distinct (map fst m)"

definition gm_get :: "('k, 'v) gomap \<Rightarrow> 'k \<Rightarrow> 'v option" where
  "gm_get m k = map_of m k"

definition gm_set :: "'k \<Rightarrow> 'v \<Rightarrow> ('k, 'v) gomap \<Rightarrow> ('k, 'v) gomap" where
  "gm_set k v m = AList.update k v m"

definition gm_delete :: "'k \<Rightarrow> ('k, 'v) gomap \<Rightarrow> ('k, 'v) gomap" where
  "gm_delete k m = AList.delete k m"

definition gm_len :: "('k, 'v) gomap \<Rightarrow> nat" where
  "gm_len m = length m"

lemma gm_ok_Nil [simp]: "gm_ok []"
  by (simp add: gm_ok_def)

lemma gm_get_Nil [simp]: "gm_get [] k = None"
  by (simp add: gm_get_def)

lemma gm_len_Nil [simp]: "gm_len [] = 0"
  by (simp add: gm_len_def)

lemma gm_get_set [gomap_simps]: "gm_get (gm_set k v m) k' = (if k' = k then Some v else gm_get m k')"
  by (simp add: gm_get_def gm_set_def update_conv')

lemma gm_get_delete [gomap_simps]: "gm_get (gm_delete k m) k' = (if k' = k then None else gm_get m k')"
  by (simp add: gm_get_def gm_delete_def delete_conv')

lemma gm_ok_set [simp, intro]: "gm_ok m \<Longrightarrow> gm_ok (gm_set k v m)"
  by (simp add: gm_ok_def gm_set_def distinct_update)

lemma gm_ok_delete [simp, intro]: "gm_ok m \<Longrightarrow> gm_ok (gm_delete k m)"
  by (simp add: gm_ok_def gm_delete_def distinct_delete)

lemma gm_keys_set [gomap_simps]: "gm_keys (gm_set k v m) = insert k (gm_keys m)"
  unfolding gm_set_def by (induction m) auto

lemma gm_keys_delete [gomap_simps]: "gm_keys (gm_delete k m) = gm_keys m - {k}"
  unfolding gm_delete_def by (induction m) auto

lemma gm_get_None_iff: "gm_get m k = None \<longleftrightarrow> k \<notin> gm_keys m"
  by (simp add: gm_get_def map_of_eq_None_iff)

lemma gm_get_SomeD: "gm_get m k = Some v \<Longrightarrow> (k, v) \<in> set m"
  by (simp add: gm_get_def map_of_SomeD)

lemma gm_get_key: "gm_get m k = Some v \<Longrightarrow> k \<in> gm_keys m"
  by (drule gm_get_SomeD) force

lemma gm_get_mem: "gm_ok m \<Longrightarrow> gm_get m k = Some v \<longleftrightarrow> (k, v) \<in> set m"
  by (simp add: gm_get_def gm_ok_def)

lemma gm_len_set: "gm_len (gm_set k v m) = (if k \<in> gm_keys m then gm_len m else Suc (gm_len m))"
  unfolding gm_set_def gm_len_def by (induction m) auto

lemma gm_len_delete:
  "gm_ok m \<Longrightarrow> gm_len (gm_delete k m) = (if k \<in> gm_keys m then gm_len m - 1 else gm_len m)"
proof (induction m)
  case Nil
  then show ?case by (simp add: gm_delete_def gm_len_def)
next
  case (Cons p m)
  obtain a v where p: "p = (a, v)" by force
  from Cons.prems p have ok: "gm_ok m" and a: "a \<notin> gm_keys m" by (auto simp: gm_ok_def)
  show ?case
  proof (cases "a = k")
    case True
    from a have "AList.delete a m = m" by (rule delete_id)
    with True p a show ?thesis by (simp add: gm_delete_def gm_len_def)
  next
    case False
    have "k \<in> gm_keys m \<Longrightarrow> Suc (length m - 1) = length m" by (cases m) auto
    with False p Cons.IH [OF ok] show ?thesis
      by (simp add: gm_delete_def gm_len_def)
  qed
qed

lemma gm_len_delete_le: "gm_len (gm_delete k m) \<le> gm_len m"
  by (simp add: gm_delete_def gm_len_def length_delete_le)

text \<open>Deleting during a \<^verbatim>\<open>range\<close> loop every entry that satisfies a condition.\<close>

definition gm_prune :: "('v \<Rightarrow> bool) \<Rightarrow> ('k, 'v) gomap \<Rightarrow> ('k, 'v) gomap" where
  "gm_prune p m = filter (\<lambda>(k, v). \<not> p v) m"

lemma gm_ok_prune [simp, intro]: "gm_ok m \<Longrightarrow> gm_ok (gm_prune p m)"
  by (simp add: gm_ok_def gm_prune_def distinct_map_filter)

lemma gm_get_prune [gomap_simps]:
  "gm_ok m \<Longrightarrow> gm_get (gm_prune p m) k =
     (case gm_get m k of None \<Rightarrow> None | Some v \<Rightarrow> if p v then None else Some v)"
proof (induction m)
  case Nil
  then show ?case by (simp add: gm_prune_def)
next
  case (Cons x m)
  obtain a v where x: "x = (a, v)" by force
  from Cons.prems x have ok: "gm_ok m" and a: "a \<notin> gm_keys m" by (auto simp: gm_ok_def)
  from a have "gm_get m a = None" by (simp add: gm_get_None_iff)
  with Cons.IH [OF ok] x show ?case
    by (auto simp: gm_prune_def gm_get_def)
qed

lemma gm_len_prune: "gm_len (gm_prune p m) \<le> gm_len m"
  by (simp add: gm_prune_def gm_len_def)

lemma gm_keys_prune: "gm_keys (gm_prune p m) \<subseteq> gm_keys m"
  by (auto simp: gm_prune_def)

section \<open>Searching\<close>

lemma find_SomeD: "find P xs = Some x \<Longrightarrow> x \<in> set xs \<and> P x"
  by (induction xs) (auto split: if_splits)

lemma find_append: "find P (xs @ ys) = (case find P xs of None \<Rightarrow> find P ys | Some x \<Rightarrow> Some x)"
  by (induction xs) simp_all

section \<open>The least recently used entry\<close>

text \<open>
  The loop that \<^verbatim>\<open>Limiter.evictOldest\<close>, \<^verbatim>\<open>KeyCache.Set\<close> and \<^verbatim>\<open>Handler.getBreaker\<close> share, with
  its variables \<^verbatim>\<open>first\<close>, \<^verbatim>\<open>oldestKey\<close> and \<^verbatim>\<open>oldestTime\<close>: it walks over the map and keeps the key
  whose entry was accessed first. The entry is deleted unless its key is the empty string.
\<close>

fun scan_oldest ::
  "('v \<Rightarrow> gotime) \<Rightarrow> (string, 'v) gomap \<Rightarrow> bool \<Rightarrow> string \<Rightarrow> gotime \<Rightarrow> string" where
  "scan_oldest acc [] first oldestKey oldestTime = oldestKey"
| "scan_oldest acc ((k, e) # m) first oldestKey oldestTime =
     (if first \<or> time_Before (acc e) oldestTime
      then scan_oldest acc m False k (acc e)
      else scan_oldest acc m first oldestKey oldestTime)"

definition delete_oldest :: "('v \<Rightarrow> gotime) \<Rightarrow> (string, 'v) gomap \<Rightarrow> (string, 'v) gomap" where
  "delete_oldest acc m =
     (let oldestKey = scan_oldest acc m True '''' time_zero
      in if oldestKey \<noteq> '''' then gm_delete oldestKey m else m)"

lemma scan_oldest_started:
  "acc ein = t \<Longrightarrow>
     \<exists>e. (scan_oldest acc m False k t, e) \<in> insert (k, ein) (set m) \<and> acc e \<le> t
        \<and> (\<forall>(k', e') \<in> set m. acc e \<le> acc e')"
proof (induction m arbitrary: k t ein)
  case Nil
  then show ?case by auto
next
  case (Cons x m)
  obtain a v where x: "x = (a, v)" by force
  show ?case
  proof (cases "acc v < t")
    case True
    from Cons.IH [of v "acc v" a] obtain e
      where "(scan_oldest acc m False a (acc v), e) \<in> insert (a, v) (set m)"
        and "acc e \<le> acc v" and "\<forall>(k', e') \<in> set m. acc e \<le> acc e'" by auto
    with True x show ?thesis by (intro exI [of _ e]) (auto simp: time_Before_def)
  next
    case False
    from Cons.IH [OF Cons.prems, of k] obtain e
      where "(scan_oldest acc m False k t, e) \<in> insert (k, ein) (set m)"
        and "acc e \<le> t" and "\<forall>(k', e') \<in> set m. acc e \<le> acc e'" by auto
    with False x show ?thesis by (intro exI [of _ e]) (auto simp: time_Before_def)
  qed
qed

lemma scan_oldest_least:
  assumes "m \<noteq> []"
  obtains e where "(scan_oldest acc m True k t, e) \<in> set m" and "\<forall>(k', e') \<in> set m. acc e \<le> acc e'"
proof -
  from assms obtain a v m' where m: "m = (a, v) # m'" by (cases m) auto
  from scan_oldest_started [where acc = acc and m = m' and k = a and t = "acc v" and ein = v]
  obtain e where "(scan_oldest acc m' False a (acc v), e) \<in> insert (a, v) (set m')"
    and "acc e \<le> acc v" and "\<forall>(k', e') \<in> set m'. acc e \<le> acc e'" by auto
  with m that [of e] show thesis by auto
qed

lemma gm_ok_delete_oldest [simp, intro]: "gm_ok m \<Longrightarrow> gm_ok (delete_oldest acc m)"
  by (simp add: delete_oldest_def Let_def)

lemma gm_keys_delete_oldest: "gm_keys (delete_oldest acc m) \<subseteq> gm_keys m"
  by (auto simp: delete_oldest_def Let_def gomap_simps)

lemma delete_oldest_get:
  "gm_get (delete_oldest acc m) k = gm_get m k \<or> gm_get (delete_oldest acc m) k = None"
  by (auto simp: delete_oldest_def Let_def gomap_simps)

lemma delete_oldest_len:
  assumes "gm_ok m" and "m \<noteq> []" and "'''' \<notin> gm_keys m"
  shows "Suc (gm_len (delete_oldest acc m)) = gm_len m"
proof -
  obtain e where e: "(scan_oldest acc m True '''' time_zero, e) \<in> set m"
    using scan_oldest_least [OF assms(2)] by metis
  then have "scan_oldest acc m True '''' time_zero \<in> gm_keys m" by force
  moreover from this assms(3) have "scan_oldest acc m True '''' time_zero \<noteq> ''''" by metis
  moreover from assms(2) have "0 < gm_len m" by (simp add: gm_len_def)
  ultimately show ?thesis
    using assms(1) by (simp add: delete_oldest_def Let_def gm_len_delete)
qed

lemma delete_oldest_survivors:
  assumes "gm_ok m" and "(k, e) \<in> set m" and "gm_get (delete_oldest acc m) k = None"
  shows "\<forall>(k', e') \<in> set m. acc e \<le> acc e'"
proof -
  from assms(2) have "m \<noteq> []" by auto
  then obtain v where v: "(scan_oldest acc m True '''' time_zero, v) \<in> set m"
    and least: "\<forall>(k', e') \<in> set m. acc v \<le> acc e'"
    by (rule scan_oldest_least)
  from assms(1,2) have "gm_get m k = Some e" by (simp add: gm_get_mem)
  with assms(3) have k: "k = scan_oldest acc m True '''' time_zero"
    by (auto simp: delete_oldest_def Let_def gomap_simps split: if_splits)
  with v assms(1,2) have "v = e" using gm_get_mem [OF assms(1)] by (metis option.inject)
  with least show ?thesis by simp
qed

section \<open>Strings\<close>

definition lower_char :: "char \<Rightarrow> char" where
  "lower_char c =
     (let n = of_char c :: nat in if 65 \<le> n \<and> n \<le> 90 then char_of (n + 32) else c)"

definition strings_ToLower :: "string \<Rightarrow> string" where
  "strings_ToLower s = map lower_char s"

definition strings_EqualFold :: "string \<Rightarrow> string \<Rightarrow> bool" where
  "strings_EqualFold s t \<longleftrightarrow> strings_ToLower s = strings_ToLower t"

definition strings_HasPrefix :: "string \<Rightarrow> string \<Rightarrow> bool" where
  "strings_HasPrefix s p \<longleftrightarrow> take (length p) s = p"

definition strings_TrimPrefix :: "string \<Rightarrow> string \<Rightarrow> string" where
  "strings_TrimPrefix s p = (if strings_HasPrefix s p then drop (length p) s else s)"

text \<open>\<^verbatim>\<open>strings.Index\<close>: the first position of the substring, \<^term>\<open>None\<close> for the code's -1.\<close>

fun strings_Index :: "string \<Rightarrow> string \<Rightarrow> nat option" where
  "strings_Index [] p = (if p = [] then Some 0 else None)"
| "strings_Index (c # s) p =
     (if strings_HasPrefix (c # s) p then Some 0 else map_option Suc (strings_Index s p))"

definition strings_Contains :: "string \<Rightarrow> string \<Rightarrow> bool" where
  "strings_Contains s p \<longleftrightarrow> strings_Index s p \<noteq> None"

definition is_space :: "char \<Rightarrow> bool" where
  "is_space c \<longleftrightarrow> (of_char c :: nat) \<in> {9, 10, 11, 12, 13, 32}"

definition strings_TrimSpace :: "string \<Rightarrow> string" where
  "strings_TrimSpace s = rev (dropWhile is_space (rev (dropWhile is_space s)))"

definition strings_TrimRight :: "string \<Rightarrow> char \<Rightarrow> string" where
  "strings_TrimRight s c = rev (dropWhile (\<lambda>d. d = c) (rev s))"

text \<open>\<^verbatim>\<open>%d\<close>: the decimal digits of an integer.\<close>

function digits :: "int \<Rightarrow> string" where
  "digits n =
     (if n < 10 then [char_of (48 + nat n)] else digits (n div 10) @ [char_of (48 + nat (n mod 10))])"
  by pat_completeness auto
termination
  by (relation "measure nat") auto

declare digits.simps [simp del]

definition itoa :: "int \<Rightarrow> string" where
  "itoa n = (if n < 0 then CHR ''-'' # digits (- n) else digits n)"

lemma lower_char_idem [simp]: "lower_char (lower_char c) = lower_char c"
proof -
  have "of_char (char_of (of_char c + 32 :: nat)) = of_char c + (32 :: nat)"
    if "of_char c \<le> (90 :: nat)"
    using that by (simp add: of_char_of)
  then show ?thesis by (auto simp: lower_char_def Let_def)
qed

lemma ToLower_idem [string_simps]: "strings_ToLower (strings_ToLower s) = strings_ToLower s"
  by (simp add: strings_ToLower_def)

lemma EqualFold_refl [string_simps]: "strings_EqualFold s s"
  by (simp add: strings_EqualFold_def)

lemma EqualFold_sym: "strings_EqualFold s t \<longleftrightarrow> strings_EqualFold t s"
  by (auto simp: strings_EqualFold_def)

lemma EqualFold_trans:
  "strings_EqualFold s t \<Longrightarrow> strings_EqualFold t u \<Longrightarrow> strings_EqualFold s u"
  by (simp add: strings_EqualFold_def)

lemma HasPrefix_iff: "strings_HasPrefix s p \<longleftrightarrow> (\<exists>t. s = p @ t)"
  unfolding strings_HasPrefix_def by (metis append_eq_conv_conj append_take_drop_id)

lemma Contains_iff: "strings_Contains s p \<longleftrightarrow> (\<exists>a b. s = a @ p @ b)"
proof (induction s)
  case Nil
  then show ?case by (simp add: strings_Contains_def)
next
  case (Cons c s)
  have "(\<exists>a b. c # s = a @ p @ b) \<longleftrightarrow> strings_HasPrefix (c # s) p \<or> (\<exists>a b. s = a @ p @ b)"
    unfolding HasPrefix_iff by (metis append_Cons append_Nil neq_Nil_conv list.inject)
  with Cons.IH show ?case by (auto simp: strings_Contains_def)
qed

lemma Index_SomeD: "strings_Index s p = Some i \<Longrightarrow> take (length p) (drop i s) = p \<and> i + length p \<le> length s"
proof (induction s arbitrary: i)
  case Nil
  then show ?case by (simp split: if_splits)
next
  case (Cons c s)
  show ?case
  proof (cases "strings_HasPrefix (c # s) p")
    case True
    with Cons.prems have "i = 0" by simp
    moreover from True obtain t where "c # s = p @ t" by (auto simp: HasPrefix_iff)
    then have "length (c # s) = length p + length t" by (metis length_append)
    ultimately show ?thesis using True by (simp add: strings_HasPrefix_def)
  next
    case False
    with Cons.prems obtain j where "i = Suc j" and "strings_Index s p = Some j" by auto
    with Cons.IH show ?thesis by simp
  qed
qed

section \<open>Stores of bounded size\<close>

text \<open>
  The interface of a store that never holds more than its capacity: the exact cache, the key
  cache, the limiter's buckets and the handler's breakers all promise it. A \<open>put\<close> is one
  operation that may add an entry.
\<close>

locale bounded_store =
  fixes size_of :: "'s \<Rightarrow> nat"
    and cap_of :: "'s \<Rightarrow> nat"
    and inv :: "'s \<Rightarrow> bool"
    and put :: "'op \<Rightarrow> 's \<Rightarrow> 's"
  assumes put_inv: "inv s \<Longrightarrow> inv (put x s)"
    and put_cap: "inv s \<Longrightarrow> cap_of (put x s) = cap_of s"
    and put_size: "inv s \<Longrightarrow> size_of s \<le> cap_of s \<Longrightarrow> size_of (put x s) \<le> cap_of s"
begin

lemma run_inv: "inv s \<Longrightarrow> inv (fold put xs s)"
  by (induction xs arbitrary: s) (simp_all add: put_inv)

lemma run_cap: "inv s \<Longrightarrow> cap_of (fold put xs s) = cap_of s"
  by (induction xs arbitrary: s) (simp_all add: put_inv put_cap)

lemma run_bounded: "inv s \<Longrightarrow> size_of s \<le> cap_of s \<Longrightarrow> size_of (fold put xs s) \<le> cap_of s"
proof (induction xs arbitrary: s)
  case Nil
  then show ?case by simp
next
  case (Cons x xs)
  from Cons.IH [of "put x s"] Cons.prems show ?case
    by (simp add: put_inv put_cap put_size)
qed

end

text \<open>A bounded store that answers, for the key just written, what was written.\<close>

locale keyed_store = bounded_store size_of cap_of inv put
  for size_of :: "'s \<Rightarrow> nat" and cap_of :: "'s \<Rightarrow> nat" and inv :: "'s \<Rightarrow> bool"
    and put :: "'op \<Rightarrow> 's \<Rightarrow> 's" +
  fixes key_of :: "'op \<Rightarrow> 'k" and val_of :: "'op \<Rightarrow> 'v" and find :: "'s \<Rightarrow> 'k \<Rightarrow> 'v option"
  assumes find_put: "inv s \<Longrightarrow> 0 < cap_of s \<Longrightarrow> find (put x s) (key_of x) = Some (val_of x)"
begin

lemma find_last:
  "inv s \<Longrightarrow> 0 < cap_of s \<Longrightarrow> find (fold put (xs @ [x]) s) (key_of x) = Some (val_of x)"
  by (simp add: run_inv run_cap find_put)

end

end
