(* ===== verification/Lru_Spec.thy ===== *)
theory Lru_Spec
  imports Gateway_Prelude
begin

text \<open>
  What a least-recently-used cache promises, as a list of keys and entries with the most recently
  used one first, and the interface \<open>lru_cache\<close> of a cache that implements it. Two caches of the
  gateway do, each with its own data structure: \<^verbatim>\<open>ExactLRU\<close> (a map into a \<^verbatim>\<open>container/list\<close>) and
  \<^verbatim>\<open>EmbeddingCache\<close> (a map into a doubly linked list of its own). What follows from the promise is
  proved once, inside the locale.
\<close>

section \<open>The specification\<close>

definition lru_drop :: "'k \<Rightarrow> ('k \<times> 'e) list \<Rightarrow> ('k \<times> 'e) list" where
  "lru_drop k l = filter (\<lambda>p. fst p \<noteq> k) l"

definition lru_touch :: "'k \<Rightarrow> ('k \<times> 'e) list \<Rightarrow> ('k \<times> 'e) list" where
  "lru_touch k l = (case map_of l k of None \<Rightarrow> l | Some e \<Rightarrow> (k, e) # lru_drop k l)"

definition lru_get :: "('e \<Rightarrow> bool) \<Rightarrow> 'k \<Rightarrow> ('k \<times> 'e) list \<Rightarrow> ('k \<times> 'e) list" where
  "lru_get fresh k l =
     (case map_of l k of None \<Rightarrow> l | Some e \<Rightarrow> if fresh e then lru_touch k l else lru_drop k l)"

definition lru_put :: "nat \<Rightarrow> 'k \<Rightarrow> 'e \<Rightarrow> ('k \<times> 'e) list \<Rightarrow> ('k \<times> 'e) list" where
  "lru_put n k e l =
     (if map_of l k \<noteq> None then (k, e) # lru_drop k l else take n ((k, e) # l))"

lemma lru_drop_simps [simp]:
  "lru_drop k [] = []"
  "lru_drop k (p # l) = (if fst p = k then lru_drop k l else p # lru_drop k l)"
  by (simp_all add: lru_drop_def)

lemma lru_drop_append [simp]: "lru_drop k (l @ l') = lru_drop k l @ lru_drop k l'"
  by (simp add: lru_drop_def)

lemma lru_drop_id: "k \<notin> fst ` set l \<Longrightarrow> lru_drop k l = l"
  by (induction l) auto

lemma map_of_lru_drop: "map_of (lru_drop k l) k' = (if k' = k then None else map_of l k')"
  by (induction l) auto

lemma keys_lru_drop: "fst ` set (lru_drop k l) = fst ` set l - {k}"
  by (auto simp: lru_drop_def)

lemma distinct_lru_drop: "distinct (map fst l) \<Longrightarrow> distinct (map fst (lru_drop k l))"
  by (simp add: lru_drop_def distinct_map_filter)

lemma length_lru_drop: "length (lru_drop k l) \<le> length l"
  by (simp add: lru_drop_def)

lemma length_lru_drop_present:
  "distinct (map fst l) \<Longrightarrow> map_of l k \<noteq> None \<Longrightarrow> Suc (length (lru_drop k l)) = length l"
proof (induction l)
  case (Cons p l)
  show ?case
  proof (cases "fst p = k")
    case True
    with Cons.prems(1) have "lru_drop k l = l" by (intro lru_drop_id) auto
    with True show ?thesis by simp
  next
    case False
    with Cons show ?thesis by (cases p) auto
  qed
qed simp

lemma length_lru_put:
  "distinct (map fst l) \<Longrightarrow> length l \<le> n \<Longrightarrow> length (lru_put n k e l) \<le> n"
  using length_lru_drop_present [of l k] by (auto simp: lru_put_def)

lemma length_lru_get: "distinct (map fst l) \<Longrightarrow> length (lru_get f k l) \<le> length l"
  using length_lru_drop_present [of l k] length_lru_drop [of k l]
  by (cases "map_of l k") (simp_all add: lru_get_def lru_touch_def)

lemma map_of_lru_get: "map_of (lru_get f k l) k' = Some e \<Longrightarrow> map_of l k' = Some e"
  by (auto simp: lru_get_def lru_touch_def map_of_lru_drop split: option.splits if_splits)

lemma map_of_take: "distinct (map fst l) \<Longrightarrow> map_of (take n l) k = Some e \<Longrightarrow> map_of l k = Some e"
  by (metis distinct_take in_set_takeD map_of_SomeD map_of_is_SomeI take_map)

lemma map_of_lru_put:
  assumes "distinct (map fst l)" and "map_of (lru_put n k e l) k' = Some e'"
  shows "map_of ((k, e) # l) k' = Some e'"
proof (cases "map_of l k = None")
  case True
  then have "k \<notin> fst ` set l" by (simp add: map_of_eq_None_iff)
  with assms(1) have "distinct (map fst ((k, e) # l))" by simp
  with assms(2) True show ?thesis using map_of_take [of "(k, e) # l" n k'] by (simp add: lru_put_def)
next
  case False
  with assms(2) show ?thesis by (auto simp: lru_put_def map_of_lru_drop split: if_splits)
qed

lemma lru_put_find: "0 < n \<Longrightarrow> map_of (lru_put n k e l) k = Some e"
  by (cases n) (auto simp: lru_put_def)

text \<open>A new key evicts at most the entry that was used least recently.\<close>

lemma lru_put_keeps:
  "map_of l k' = Some e' \<Longrightarrow> k' \<noteq> k \<Longrightarrow> length l < n \<Longrightarrow> map_of (lru_put n k e l) k' = Some e'"
  by (cases n) (auto simp: lru_put_def map_of_lru_drop)

section \<open>A map into a list\<close>

text \<open>
  Both caches keep a Go map from keys to elements and a list of elements, each element with its
  identity (its address) and its entry. \<open>indexed\<close> says that the map is the index of the list.
\<close>

definition lru_view :: "('e \<Rightarrow> 'k) \<Rightarrow> ('e \<Rightarrow> 'v) \<Rightarrow> ('i \<times> 'e) list \<Rightarrow> ('k \<times> 'v) list" where
  "lru_view key val l = map (\<lambda>p. (key (snd p), val (snd p))) l"

definition lru_index :: "('e \<Rightarrow> 'k) \<Rightarrow> ('i \<times> 'e) list \<Rightarrow> ('k \<times> 'i) list" where
  "lru_index key l = map (\<lambda>p. (key (snd p), fst p)) l"

definition indexed :: "('e \<Rightarrow> 'k) \<Rightarrow> ('k, 'i) gomap \<Rightarrow> ('i \<times> 'e) list \<Rightarrow> bool" where
  "indexed key items l \<longleftrightarrow> distinct (map fst l) \<and> distinct (map (key \<circ> snd) l) \<and> gm_ok items
     \<and> (\<forall>k. gm_get items k = map_of (lru_index key l) k)"

lemma view_keys: "map fst (lru_view key val l) = map (key \<circ> snd) l"
  by (simp add: lru_view_def)

lemma index_keys: "map fst (lru_index key l) = map (key \<circ> snd) l"
  by (simp add: lru_index_def)

lemma indexed_distinct: "indexed key items l \<Longrightarrow> distinct (map fst (lru_view key val l))"
  by (simp add: indexed_def view_keys)

lemma indexed_Nil [simp]: "indexed key [] []"
  by (simp add: indexed_def lru_index_def)

lemma indexed_None:
  assumes "indexed key items l"
  shows "gm_get items k = None \<longleftrightarrow> map_of (lru_view key val l) k = None"
proof -
  have "fst ` set (lru_index key l) = fst ` set (lru_view key val l)"
    by (auto simp: lru_index_def lru_view_def image_def)
  with assms show ?thesis by (simp add: indexed_def map_of_eq_None_iff)
qed

lemma indexed_Some:
  assumes "indexed key items l" and "gm_get items k = Some i"
  shows "\<exists>e. map_of l i = Some e \<and> key e = k \<and> map_of (lru_view key val l) k = Some (val e)"
proof -
  from assms have "(k, i) \<in> set (lru_index key l)" by (auto simp: indexed_def dest: map_of_SomeD)
  then obtain e where e: "(i, e) \<in> set l" "key e = k" by (auto simp: lru_index_def)
  from assms(1) have "distinct (map fst l)" "distinct (map fst (lru_view key val l))"
    by (auto simp: indexed_def view_keys)
  moreover from e have "(k, val e) \<in> set (lru_view key val l)" by (force simp: lru_view_def)
  ultimately show ?thesis using e by (intro exI [of _ e]) (simp add: map_of_eq_Some_iff)
qed

lemma indexed_same:
  assumes "indexed key items l" and "gm_get items k = Some i" and "p \<in> set l"
  shows "fst p = i \<longleftrightarrow> key (snd p) = k"
proof -
  from indexed_Some [OF assms(1,2)] obtain e where e: "map_of l i = Some e" "key e = k" by blast
  then have m: "(i, e) \<in> set l" by (simp add: map_of_SomeD)
  from assms(1) have d: "inj_on fst (set l)" "inj_on (key \<circ> snd) (set l)"
    by (simp_all add: indexed_def distinct_map)
  from inj_onD [OF d(1) _ assms(3) m] inj_onD [OF d(2) _ assms(3) m] e show ?thesis
    by (metis comp_apply fst_conv snd_conv)
qed

lemma indexed_len: "indexed key items l \<Longrightarrow> gm_len items = length l"
proof -
  assume i: "indexed key items l"
  then have "map_of items = map_of (lru_index key l)" by (auto simp: indexed_def gm_get_def)
  then have "dom (map_of items) = dom (map_of (lru_index key l))" by simp
  then have "set (map fst items) = set (map fst (lru_index key l))" by (simp add: dom_map_of_conv_image_fst)
  moreover from i have "distinct (map fst items)" "distinct (map fst (lru_index key l))"
    by (simp_all add: indexed_def gm_ok_def index_keys)
  ultimately have "length (map fst items) = length (map fst (lru_index key l))"
    by (metis distinct_card)
  then show ?thesis by (simp add: gm_len_def lru_index_def)
qed

lemma indexed_drop:
  assumes "indexed key items l" and "gm_get items k = Some i"
  shows "lru_view key val (lru_drop i l) = lru_drop k (lru_view key val l)"
    and "indexed key (gm_delete k items) (lru_drop i l)"
proof -
  have f: "lru_drop i l = filter (\<lambda>p. key (snd p) \<noteq> k) l"
    unfolding lru_drop_def by (rule filter_cong) (simp_all add: indexed_same [OF assms])
  then show "lru_view key val (lru_drop i l) = lru_drop k (lru_view key val l)"
    by (simp add: lru_view_def lru_drop_def filter_map comp_def)
  have g: "lru_index key (lru_drop i l) = lru_drop k (lru_index key l)"
    unfolding f by (simp add: lru_index_def lru_drop_def filter_map comp_def)
  from assms(1) show "indexed key (gm_delete k items) (lru_drop i l)"
    unfolding indexed_def g map_of_lru_drop
    by (simp add: gomap_simps distinct_lru_drop) (simp add: lru_drop_def distinct_map_filter comp_def)
qed

lemma indexed_push:
  assumes "indexed key items l" and "gm_get items (key e) = None" and "i \<notin> fst ` set l"
  shows "indexed key (gm_set (key e) i items) ((i, e) # l)"
proof -
  from assms(1,2) have "key e \<notin> fst ` set (lru_index key l)" by (simp add: indexed_def map_of_eq_None_iff)
  then have "key e \<notin> (key \<circ> snd) ` set l" by (force simp: lru_index_def)
  with assms show ?thesis by (auto simp: indexed_def gomap_simps lru_index_def)
qed

lemma indexed_replace:
  assumes "indexed key items l" and "gm_get items (key e) = Some i"
  shows "indexed key items ((i, e) # lru_drop i l)"
proof -
  have "gm_get (gm_delete (key e) items) (key e) = None" by (simp add: gomap_simps)
  moreover have "i \<notin> fst ` set (lru_drop i l)" by (simp add: keys_lru_drop)
  ultimately have "indexed key (gm_set (key e) i (gm_delete (key e) items)) ((i, e) # lru_drop i l)"
    by (intro indexed_push indexed_drop(2) [OF assms])
  with assms show ?thesis by (auto simp: indexed_def gomap_simps split: if_splits)
qed

lemma indexed_butlast:
  assumes "indexed key items l" and "l \<noteq> []"
  shows "indexed key (gm_delete (key (snd (last l))) items) (butlast l)"
proof -
  from assms(2) have l: "l = butlast l @ [last l]" by simp
  have m: "last l \<in> set l" using assms(2) by simp
  from assms(1) have d: "distinct (map fst (lru_index key l))" by (simp add: indexed_def index_keys)
  from m have "(key (snd (last l)), fst (last l)) \<in> set (lru_index key l)" by (force simp: lru_index_def)
  with d assms(1) have g: "gm_get items (key (snd (last l))) = Some (fst (last l))"
    by (simp add: indexed_def map_of_eq_Some_iff)
  from assms(1) have "distinct (map fst (butlast l @ [last l]))" using l by (simp add: indexed_def)
  then have "fst (last l) \<notin> fst ` set (butlast l)" by simp
  then have "lru_drop (fst (last l)) (butlast l @ [last l]) = butlast l" by (simp add: lru_drop_id)
  with l indexed_drop(2) [OF assms(1) g] show ?thesis by simp
qed

section \<open>The interface\<close>

datatype 'p lru_op = LGet gotime string | LPut gotime string 'p

primrec lru_step ::
  "(gotime \<Rightarrow> string \<Rightarrow> 's \<Rightarrow> 'v option \<times> 's) \<Rightarrow> (gotime \<Rightarrow> string \<Rightarrow> 'p \<Rightarrow> 's \<Rightarrow> 's) \<Rightarrow>
   'p lru_op \<Rightarrow> 's \<Rightarrow> 's" where
  "lru_step get put (LGet now k) s = snd (get now k s)"
| "lru_step get put (LPut now k p) s = put now k p s"

text \<open>The last value put under a key.\<close>

fun last_put :: "string \<Rightarrow> 'p lru_op list \<Rightarrow> (gotime \<times> 'p) option \<Rightarrow> (gotime \<times> 'p) option" where
  "last_put k [] acc = acc"
| "last_put k (LGet now j # ops) acc = last_put k ops acc"
| "last_put k (LPut now j p # ops) acc = last_put k ops (if j = k then Some (now, p) else acc)"

locale lru_cache =
  fixes inv :: "'s \<Rightarrow> bool"
    and abs :: "'s \<Rightarrow> (string \<times> 'e) list"
    and conf :: "'s \<Rightarrow> 'c"
    and cap :: "'c \<Rightarrow> nat"
    and fresh :: "'c \<Rightarrow> gotime \<Rightarrow> 'e \<Rightarrow> bool"
    and view :: "'e \<Rightarrow> 'v"
    and mk :: "'c \<Rightarrow> gotime \<Rightarrow> 'p \<Rightarrow> 'e"
    and get :: "gotime \<Rightarrow> string \<Rightarrow> 's \<Rightarrow> 'v option \<times> 's"
    and put :: "gotime \<Rightarrow> string \<Rightarrow> 'p \<Rightarrow> 's \<Rightarrow> 's"
  assumes inv_distinct: "inv s \<Longrightarrow> distinct (map fst (abs s))"
    and cap_pos: "inv s \<Longrightarrow> 0 < cap (conf s)"
    and get_inv: "inv s \<Longrightarrow> inv (snd (get now k s))"
    and put_inv: "inv s \<Longrightarrow> inv (put now k p s)"
    and get_conf: "inv s \<Longrightarrow> conf (snd (get now k s)) = conf s"
    and put_conf: "inv s \<Longrightarrow> conf (put now k p s) = conf s"
    and get_abs: "inv s \<Longrightarrow> abs (snd (get now k s)) = lru_get (fresh (conf s) now) k (abs s)"
    and put_abs: "inv s \<Longrightarrow> abs (put now k p s) = lru_put (cap (conf s)) k (mk (conf s) now p) (abs s)"
    and get_result: "inv s \<Longrightarrow> fst (get now k s) =
      (case map_of (abs s) k of None \<Rightarrow> None
       | Some e \<Rightarrow> if fresh (conf s) now e then Some (view e) else None)"
begin

abbreviation step :: "'p lru_op \<Rightarrow> 's \<Rightarrow> 's" where
  "step \<equiv> lru_step get put"

lemma step_inv: "inv s \<Longrightarrow> inv (step x s) \<and> conf (step x s) = conf s"
  by (cases x) (simp_all add: get_inv put_inv get_conf put_conf)

lemma run_inv: "inv s \<Longrightarrow> inv (fold step xs s) \<and> conf (fold step xs s) = conf s"
  by (induction xs arbitrary: s) (simp_all add: step_inv)

lemma step_bounded: "inv s \<Longrightarrow> length (abs s) \<le> cap (conf s) \<Longrightarrow> length (abs (step x s)) \<le> cap (conf s)"
proof (cases x)
  case (LGet now k)
  assume "inv s" and "length (abs s) \<le> cap (conf s)"
  with LGet show ?thesis
    using length_lru_get [OF inv_distinct, of s "fresh (conf s) now" k] by (simp add: get_abs)
next
  case (LPut now k p)
  assume "inv s" and "length (abs s) \<le> cap (conf s)"
  with LPut show ?thesis by (simp add: put_abs length_lru_put inv_distinct)
qed

lemma run_bounded: "inv s \<Longrightarrow> length (abs s) \<le> cap (conf s) \<Longrightarrow> length (abs (fold step xs s)) \<le> cap (conf s)"
proof (induction xs arbitrary: s)
  case (Cons x xs)
  from Cons.IH [of "step x s"] Cons.prems show ?case
    by (simp add: step_inv step_bounded)
qed simp

definition tracks :: "'c \<Rightarrow> string \<Rightarrow> (gotime \<times> 'p) option \<Rightarrow> 's \<Rightarrow> bool" where
  "tracks c k acc s \<longleftrightarrow> (\<forall>e. map_of (abs s) k = Some e \<longrightarrow> (\<exists>now p. acc = Some (now, p) \<and> e = mk c now p))"

lemma run_tracks:
  "inv s \<Longrightarrow> tracks (conf s) k acc s \<Longrightarrow> tracks (conf s) k (last_put k xs acc) (fold step xs s)"
proof (induction xs arbitrary: s acc)
  case Nil
  then show ?case by simp
next
  case (Cons x xs)
  show ?case
  proof (cases x)
    case (LGet now j)
    with Cons.prems have "tracks (conf s) k acc (step x s)"
      by (auto simp: tracks_def get_abs dest: map_of_lru_get)
    with Cons.IH [of "step x s" acc] Cons.prems(1) LGet show ?thesis by (simp add: get_inv get_conf)
  next
    case (LPut now j p)
    with Cons.prems have "tracks (conf s) k (if j = k then Some (now, p) else acc) (step x s)"
      using map_of_lru_put [OF inv_distinct, OF Cons.prems(1), of "cap (conf s)" j "mk (conf s) now p" k]
      by (cases "j = k") (auto simp: tracks_def put_abs)
    with Cons.IH [of "step x s" "if j = k then Some (now, p) else acc"] Cons.prems(1) LPut
    show ?thesis by (simp add: put_inv put_conf)
  qed
qed

text \<open>A hit returns what was last put under the key, and that is still fresh.\<close>

lemma hit_last:
  assumes "inv s" and "abs s = []" and "fst (get now k (fold step xs s)) = Some v"
  shows "\<exists>t p. last_put k xs None = Some (t, p) \<and> v = view (mk (conf s) t p) \<and> fresh (conf s) now (mk (conf s) t p)"
proof -
  from assms(1,2) have t: "tracks (conf s) k (last_put k xs None) (fold step xs s)"
    by (intro run_tracks) (simp_all add: tracks_def)
  from run_inv [OF assms(1), of xs] have "inv (fold step xs s)" "conf (fold step xs s) = conf s" by simp_all
  with assms(3) obtain e where "map_of (abs (fold step xs s)) k = Some e" "fresh (conf s) now e" "v = view e"
    by (auto simp: get_result split: option.splits if_splits)
  with t show ?thesis by (auto simp: tracks_def)
qed

text \<open>What was just put is found, until it is no longer fresh.\<close>

lemma put_then_get:
  assumes "inv s"
  shows "fst (get now k (put t k p s)) =
    (if fresh (conf s) now (mk (conf s) t p) then Some (view (mk (conf s) t p)) else None)"
  using assms cap_pos [OF assms] by (simp add: get_result put_inv put_conf put_abs lru_put_find)

end

end
