(* ===== verification/Float64.thy ===== *)
theory Float64
  imports Complex_Main Gateway_Prelude
begin

text \<open>
  Go's \<^verbatim>\<open>float64\<close>. A finite value is a rational number and every operation rounds its exact
  result to the nearest number with a 53-bit significand, ties to even, as IEEE 754 binary64
  does. Overflow to an infinity, subnormal numbers and NaN are outside the model: prices,
  budgets and times of the gateway are far from those limits. The lemmas are the ones the
  components need: rounding is monotone, keeps the integers below \<open>2\<^sup>5\<^sup>3\<close> and has a relative error
  of at most \<open>2\<^sup>-\<^sup>5\<^sup>3\<close>.
\<close>

section \<open>Definitions\<close>

type_synonym f64 = rat

definition exp2 :: "int \<Rightarrow> rat" where
  "exp2 k = (if 0 \<le> k then 2 ^ nat k else inverse (2 ^ nat (- k)))"

function bit_length :: "int \<Rightarrow> nat" where
  "bit_length n = (if n \<le> 0 then 0 else Suc (bit_length (n div 2)))"
  by pat_completeness auto
termination
  by (relation "measure nat") auto

declare bit_length.simps [simp del]

text \<open>The exponent of a positive number: \<open>exp2 e \<le> x < exp2 (e + 1)\<close>.\<close>

definition rat_exponent :: "rat \<Rightarrow> int" where
  "rat_exponent x =
     (let pq = quotient_of x;
          k = int (bit_length (fst pq)) - int (bit_length (snd pq))
      in if exp2 k \<le> x then k else k - 1)"

definition round_even :: "rat \<Rightarrow> int" where
  "round_even x =
     (let n = \<lfloor>x\<rfloor>; d = x - of_int n
      in if d < 1 / 2 then n else if 1 / 2 < d then n + 1 else if even n then n else n + 1)"

definition round_pos :: "rat \<Rightarrow> rat" where
  "round_pos x = (let u = exp2 (rat_exponent x - 52) in of_int (round_even (x / u)) * u)"

definition float64 :: "rat \<Rightarrow> f64" where
  "float64 x = (if x = 0 then 0 else if x < 0 then - round_pos (- x) else round_pos x)"

definition fadd :: "f64 \<Rightarrow> f64 \<Rightarrow> f64" where
  "fadd a b = float64 (a + b)"

definition fsub :: "f64 \<Rightarrow> f64 \<Rightarrow> f64" where
  "fsub a b = float64 (a - b)"

definition fmul :: "f64 \<Rightarrow> f64 \<Rightarrow> f64" where
  "fmul a b = float64 (a * b)"

text \<open>Division; the code never divides by zero, where the result would be infinite or NaN.\<close>

definition fdiv :: "f64 \<Rightarrow> f64 \<Rightarrow> f64" where
  "fdiv a b = float64 (a / b)"

definition float_of_int :: "int \<Rightarrow> f64" where
  "float_of_int n = float64 (of_int n)"

text \<open>The conversion \<^verbatim>\<open>int(f)\<close> truncates towards zero.\<close>

definition int_of_float :: "f64 \<Rightarrow> int" where
  "int_of_float x = (if 0 \<le> x then \<lfloor>x\<rfloor> else - \<lfloor>- x\<rfloor>)"

text \<open>\<^verbatim>\<open>Duration.Seconds\<close>: whole seconds plus the nanoseconds divided by 1e9.\<close>

definition duration_Seconds :: "duration \<Rightarrow> f64" where
  "duration_Seconds d =
     fadd (float_of_int (quot_int d nanos_per_second))
          (fdiv (float_of_int (rem_int d nanos_per_second)) 1000000000)"

text \<open>\<^verbatim>\<open>%.nf\<close>: the value rounded to \<open>n\<close> decimals.\<close>

definition pad_left :: "nat \<Rightarrow> string \<Rightarrow> string" where
  "pad_left n s = replicate (n - length s) (CHR ''0'') @ s"

definition fmt_fixed :: "nat \<Rightarrow> f64 \<Rightarrow> string" where
  "fmt_fixed n x =
     (let m = round_even (\<bar>x\<bar> * 10 ^ n)
      in (if x < 0 then ''-'' else '''') @ digits (m div 10 ^ n) @ ''.''
         @ pad_left n (digits (m mod 10 ^ n)))"

section \<open>Powers of two and the exponent\<close>

lemma exp2_pos [simp]: "0 < exp2 k"
  by (simp add: exp2_def)

lemma exp2_nonzero [simp]: "exp2 k \<noteq> 0"
  by (simp add: exp2_def)

lemma exp2_Suc: "exp2 (k + 1) = 2 * exp2 k"
proof (cases "0 \<le> k")
  case True
  then have "nat (k + 1) = Suc (nat k)" by simp
  with True show ?thesis by (simp add: exp2_def)
next
  case False
  show ?thesis
  proof (cases "k = - 1")
    case True
    then show ?thesis by (simp add: exp2_def)
  next
    case neq: False
    with False have "nat (- k) = Suc (nat (- (k + 1)))" by linarith
    with False neq show ?thesis by (simp add: exp2_def)
  qed
qed

lemma exp2_add_nat: "exp2 (k + int n) = exp2 k * 2 ^ n"
proof (induction n)
  case 0
  then show ?case by simp
next
  case (Suc n)
  have "exp2 (k + int (Suc n)) = exp2 ((k + int n) + 1)" by (simp add: ac_simps)
  also have "\<dots> = 2 * exp2 (k + int n)" by (rule exp2_Suc)
  finally show ?case using Suc.IH by simp
qed

lemma exp2_int: "exp2 (int n) = 2 ^ n"
  by (simp add: exp2_def)

lemma exp2_diff_nat: "exp2 (int a - int b) * 2 ^ b = 2 ^ a"
proof -
  have "exp2 (int a - int b + int b) = exp2 (int a - int b) * 2 ^ b" by (rule exp2_add_nat)
  then show ?thesis by (simp add: exp2_int)
qed

lemma exp2_mono: "j \<le> k \<Longrightarrow> exp2 j \<le> exp2 k"
proof -
  assume "j \<le> k"
  then have "exp2 k = exp2 j * 2 ^ nat (k - j)" using exp2_add_nat [of j "nat (k - j)"] by simp
  moreover have "(1 :: rat) \<le> 2 ^ nat (k - j)" by simp
  ultimately show ?thesis
    by (metis exp2_pos less_imp_le mult.right_neutral mult_left_mono)
qed

lemma bit_length_bounds: "0 < n \<Longrightarrow> 2 ^ bit_length n \<le> 2 * n \<and> n < 2 ^ bit_length n"
proof (induction n rule: bit_length.induct)
  case (1 n)
  show ?case
  proof (cases "n = 1")
    case True
    then show ?thesis by (simp add: bit_length.simps)
  next
    case False
    with "1.prems" have "0 < n div 2" by linarith
    with "1.IH" "1.prems" have "2 ^ bit_length (n div 2) \<le> 2 * (n div 2)"
      and "n div 2 < 2 ^ bit_length (n div 2)" by auto
    then have "2 * 2 ^ bit_length (n div 2) \<le> 2 * n" and "n < 2 * 2 ^ bit_length (n div 2)"
      by linarith+
    then show ?thesis using "1.prems" by (simp add: bit_length.simps [of n])
  qed
qed

lemma rat_exponent_bounds:
  assumes "0 < x"
  shows "exp2 (rat_exponent x) \<le> x \<and> x < exp2 (rat_exponent x + 1)"
proof -
  obtain p q where pq: "quotient_of x = (p, q)" by force
  have q: "0 < q" by (rule quotient_of_denom_pos [OF pq])
  have x: "x = of_int p / of_int q" by (rule quotient_of_div [OF pq])
  with q assms have p: "0 < p" by (simp add: zero_less_divide_iff)
  define a b where "a = bit_length p" and "b = bit_length q"
  define k where "k = int a - int b"
  have cast: "of_int (2 ^ n) = (2 ^ n :: rat)" "of_int (2 * i) = (2 * of_int i :: rat)" for n i
    by simp_all
  from bit_length_bounds [OF p] have "of_int p < (of_int (2 ^ a) :: rat)"
    and "(of_int (2 ^ a) :: rat) \<le> of_int (2 * p)"
    by (simp_all only: of_int_less_iff of_int_le_iff a_def)
  then have pu: "of_int p < (2 ^ a :: rat)" and pl: "(2 ^ a :: rat) \<le> 2 * of_int p"
    by (simp_all only: cast)
  from bit_length_bounds [OF q] have "of_int q < (of_int (2 ^ b) :: rat)"
    and "(of_int (2 ^ b) :: rat) \<le> of_int (2 * q)"
    by (simp_all only: of_int_less_iff of_int_le_iff b_def)
  then have qu: "of_int q < (2 ^ b :: rat)" and ql: "(2 ^ b :: rat) \<le> 2 * of_int q"
    by (simp_all only: cast)
  have qpos: "(0 :: rat) < of_int q" using q by simp
  have ek: "exp2 k * 2 ^ b = 2 ^ a" unfolding k_def by (rule exp2_diff_nat)
  have upper: "x < exp2 (k + 1)"
  proof -
    have "exp2 k * 2 ^ b \<le> exp2 k * (2 * of_int q)"
      by (rule mult_left_mono [OF ql]) (simp add: less_imp_le)
    then have "2 ^ a \<le> exp2 (k + 1) * of_int q" by (simp add: exp2_Suc ek)
    with pu have "of_int p < exp2 (k + 1) * of_int q" by (rule less_le_trans)
    with qpos show ?thesis by (simp add: x pos_divide_less_eq)
  qed
  have lower: "exp2 (k - 1) \<le> x"
  proof -
    have e: "exp2 k = 2 * exp2 (k - 1)" using exp2_Suc [of "k - 1"] by simp
    have "exp2 k * of_int q \<le> exp2 k * 2 ^ b"
      by (rule mult_left_mono [OF less_imp_le [OF qu]]) (simp add: less_imp_le)
    with pl ek e have "exp2 (k - 1) * of_int q \<le> of_int p" by simp
    with qpos show ?thesis by (simp add: x pos_le_divide_eq)
  qed
  have "rat_exponent x = (if exp2 k \<le> x then k else k - 1)"
    by (simp add: rat_exponent_def pq k_def a_def b_def Let_def)
  with upper lower show ?thesis by auto
qed

lemma rat_exponent_mono: "0 < x \<Longrightarrow> x \<le> y \<Longrightarrow> rat_exponent x \<le> rat_exponent y"
proof (rule ccontr)
  assume x: "0 < x" and le: "x \<le> y" and "\<not> rat_exponent x \<le> rat_exponent y"
  then have "rat_exponent y + 1 \<le> rat_exponent x" by simp
  then have "exp2 (rat_exponent y + 1) \<le> exp2 (rat_exponent x)" by (rule exp2_mono)
  moreover have "exp2 (rat_exponent x) \<le> x" using rat_exponent_bounds [OF x] by simp
  moreover have "y < exp2 (rat_exponent y + 1)" using rat_exponent_bounds [of y] x le by simp
  ultimately show False using le by simp
qed

section \<open>Rounding\<close>

lemma round_even_int [simp]: "round_even (of_int n) = n"
  by (simp add: round_even_def)

lemma round_even_err: "\<bar>of_int (round_even x) - x\<bar> \<le> 1 / 2"
proof -
  have "of_int \<lfloor>x\<rfloor> \<le> x" and "x < of_int \<lfloor>x\<rfloor> + 1" by linarith+
  then show ?thesis by (auto simp: round_even_def Let_def abs_le_iff)
qed

lemma round_even_range: "round_even x = \<lfloor>x\<rfloor> \<or> round_even x = \<lfloor>x\<rfloor> + 1"
  by (auto simp: round_even_def Let_def)

lemma round_even_mono:
  assumes "x \<le> y"
  shows "round_even x \<le> round_even y"
proof (cases "\<lfloor>x\<rfloor> = \<lfloor>y\<rfloor>")
  case True
  with assms show ?thesis by (auto simp: round_even_def Let_def)
next
  case False
  with floor_mono [OF assms] have "\<lfloor>x\<rfloor> + 1 \<le> \<lfloor>y\<rfloor>" by simp
  with round_even_range [of x] round_even_range [of y] show ?thesis by linarith
qed

lemma round_even_ge: "of_int n \<le> x \<Longrightarrow> n \<le> round_even x"
  using round_even_mono [of "of_int n" x] by simp

lemma round_even_le: "x \<le> of_int n \<Longrightarrow> round_even x \<le> n"
  using round_even_mono [of x "of_int n"] by simp

lemma round_pos_bounds:
  assumes "0 < x"
  shows "exp2 (rat_exponent x) \<le> round_pos x \<and> round_pos x \<le> exp2 (rat_exponent x + 1)"
proof -
  define e where "e = rat_exponent x"
  define u where "u = exp2 (e - 52)"
  have u: "0 < u" by (simp add: u_def)
  have eu: "exp2 e = of_int (2 ^ 52) * u" using exp2_add_nat [of "e - 52" 52] by (simp add: u_def)
  have lo: "exp2 e \<le> x" and hi: "x < 2 * exp2 e"
    using rat_exponent_bounds [OF assms] by (auto simp: e_def exp2_Suc)
  from lo u have "of_int (2 ^ 52) \<le> x / u" by (simp add: eu pos_le_divide_eq)
  then have l: "2 ^ 52 \<le> round_even (x / u)" by (rule round_even_ge)
  from hi u have "x / u \<le> of_int (2 ^ 53)" by (simp add: eu pos_divide_le_eq)
  then have h: "round_even (x / u) \<le> 2 ^ 53" by (rule round_even_le)
  have "of_int (2 ^ 52) * u \<le> of_int (round_even (x / u)) * u"
    using l u by (intro mult_right_mono) (simp_all only: of_int_le_iff less_imp_le)
  moreover have "of_int (round_even (x / u)) * u \<le> of_int (2 ^ 53) * u"
    using h u by (intro mult_right_mono) (simp_all only: of_int_le_iff less_imp_le)
  moreover have "exp2 (e + 1) = of_int (2 ^ 53) * u" by (simp add: exp2_Suc eu)
  ultimately show ?thesis by (simp add: round_pos_def Let_def eu u_def [symmetric] e_def [symmetric])
qed

lemma round_pos_mono:
  assumes "0 < x" and "x \<le> y"
  shows "round_pos x \<le> round_pos y"
proof (cases "rat_exponent x = rat_exponent y")
  case True
  define u where "u = exp2 (rat_exponent y - 52)"
  have u: "0 < u" by (simp add: u_def)
  with assms(2) have "round_even (x / u) \<le> round_even (y / u)"
    by (intro round_even_mono divide_right_mono) simp_all
  with u True show ?thesis
    by (simp add: round_pos_def Let_def u_def [symmetric])
next
  case False
  with rat_exponent_mono [OF assms] have "rat_exponent x + 1 \<le> rat_exponent y" by simp
  then have "exp2 (rat_exponent x + 1) \<le> exp2 (rat_exponent y)" by (rule exp2_mono)
  with round_pos_bounds [OF assms(1)] round_pos_bounds [of y] assms show ?thesis by linarith
qed

lemma round_pos_pos: "0 < x \<Longrightarrow> 0 < round_pos x"
  using round_pos_bounds [of x] exp2_pos [of "rat_exponent x"] by linarith

definition unit_roundoff :: rat where
  "unit_roundoff = 1 / 2 ^ 53"

lemma round_pos_err:
  assumes "0 < x"
  shows "\<bar>round_pos x - x\<bar> \<le> unit_roundoff * x"
proof -
  define e where "e = rat_exponent x"
  define u where "u = exp2 (e - 52)"
  have u: "0 < u" by (simp add: u_def)
  have eu: "exp2 e = 2 ^ 52 * u" using exp2_add_nat [of "e - 52" 52] by (simp add: u_def)
  have "round_pos x - x = (of_int (round_even (x / u)) - x / u) * u"
    using u by (simp add: round_pos_def Let_def u_def [symmetric] e_def [symmetric] left_diff_distrib)
  then have "\<bar>round_pos x - x\<bar> = \<bar>of_int (round_even (x / u)) - x / u\<bar> * u"
    using u by (simp add: abs_mult)
  also have "\<dots> \<le> 1 / 2 * u"
    using round_even_err u by (intro mult_right_mono) simp_all
  also have "\<dots> = unit_roundoff * exp2 e" by (simp add: eu unit_roundoff_def)
  also have "\<dots> \<le> unit_roundoff * x"
    using rat_exponent_bounds [OF assms] by (simp add: unit_roundoff_def e_def)
  finally show ?thesis .
qed

lemma float64_0 [simp]: "float64 0 = 0"
  by (simp add: float64_def)

lemma float64_nonneg: "0 \<le> x \<Longrightarrow> 0 \<le> float64 x"
  using round_pos_pos [of x] by (auto simp: float64_def)

lemma float64_mono: "x \<le> y \<Longrightarrow> float64 x \<le> float64 y"
proof -
  assume xy: "x \<le> y"
  consider "0 \<le> x" | "x < 0" "0 \<le> y" | "y < 0" by linarith
  then show ?thesis
  proof cases
    case 1
    with xy show ?thesis
      using round_pos_mono [of x y] round_pos_pos [of y] by (auto simp: float64_def)
  next
    case 2
    with round_pos_pos [of "- x"] float64_nonneg [of y] show ?thesis by (simp add: float64_def)
  next
    case 3
    with xy round_pos_mono [of "- y" "- x"] show ?thesis by (simp add: float64_def)
  qed
qed

lemma float64_err: "0 \<le> x \<Longrightarrow> \<bar>float64 x - x\<bar> \<le> unit_roundoff * x"
  using round_pos_err [of x] by (cases "x = 0") (simp_all add: float64_def)

lemma float64_upper: "0 \<le> x \<Longrightarrow> float64 x \<le> (1 + unit_roundoff) * x"
  using float64_err [of x] by (simp add: algebra_simps abs_le_iff)

lemma float64_lower: "0 \<le> x \<Longrightarrow> (1 - unit_roundoff) * x \<le> float64 x"
  using float64_err [of x] by (simp add: algebra_simps abs_le_iff)

lemma float64_of_nat:
  assumes "n < 2 ^ 53"
  shows "float64 (of_nat n) = of_nat n"
proof (cases "n = 0")
  case True
  then show ?thesis by simp
next
  case False
  then have pos: "(0 :: rat) < of_nat n" by simp
  define e where "e = rat_exponent (of_nat n)"
  note b = rat_exponent_bounds [OF pos, folded e_def]
  from assms have "(of_nat n :: rat) < of_nat (2 ^ 53)" by (simp only: of_nat_less_iff)
  then have n: "of_nat n < exp2 53" using exp2_int [of 53] by simp
  have "e \<le> 52"
  proof (rule ccontr)
    assume "\<not> e \<le> 52"
    then have "exp2 53 \<le> exp2 e" by (intro exp2_mono) simp
    with b n show False by simp
  qed
  then have m: "exp2 (e - 52) * 2 ^ nat (52 - e) = 1"
    using exp2_add_nat [of "e - 52" "nat (52 - e)"] by (simp add: exp2_def)
  have "of_nat n / exp2 (e - 52) = of_int (int n * 2 ^ nat (52 - e))"
    using m exp2_pos [of "e - 52"]
    by (simp add: nonzero_divide_eq_eq mult.assoc mult.commute [of "2 ^ _" "exp2 _"])
  then have "round_even (of_nat n / exp2 (e - 52)) = int n * 2 ^ nat (52 - e)"
    by (simp only: round_even_int)
  with pos m show ?thesis
    by (simp add: float64_def round_pos_def e_def [symmetric] mult.assoc mult.commute [of _ "exp2 _"])
qed

lemma float64_1 [simp]: "float64 1 = 1"
  using float64_of_nat [of 1] by simp

lemma float64_le_nat: "x \<le> of_nat n \<Longrightarrow> n < 2 ^ 53 \<Longrightarrow> float64 x \<le> of_nat n"
  using float64_mono [of x "of_nat n"] float64_of_nat [of n] by simp

lemma float64_le_1: "x \<le> 1 \<Longrightarrow> float64 x \<le> 1"
  using float64_le_nat [of x 1] by simp

lemma float_of_int_nonneg: "0 \<le> n \<Longrightarrow> 0 \<le> float_of_int n"
  by (simp add: float_of_int_def float64_nonneg)

lemma fadd_nonneg: "0 \<le> a \<Longrightarrow> 0 \<le> b \<Longrightarrow> 0 \<le> fadd a b"
  by (simp add: fadd_def float64_nonneg)

lemma fmul_nonneg: "0 \<le> a \<Longrightarrow> 0 \<le> b \<Longrightarrow> 0 \<le> fmul a b"
  by (simp add: fmul_def float64_nonneg)

lemma fdiv_nonneg: "0 \<le> a \<Longrightarrow> 0 \<le> b \<Longrightarrow> 0 \<le> fdiv a b"
  by (simp add: fdiv_def float64_nonneg)

lemmas float_nonneg = float64_nonneg float_of_int_nonneg fadd_nonneg fmul_nonneg fdiv_nonneg

lemma int_of_float_nonneg: "0 \<le> x \<Longrightarrow> 0 \<le> int_of_float x"
  by (simp add: int_of_float_def)

lemma int_of_float_le: "0 \<le> x \<Longrightarrow> of_int (int_of_float x) \<le> x"
  by (simp add: int_of_float_def)

section \<open>Seconds\<close>

lemma duration_Seconds_nonneg: "0 \<le> d \<Longrightarrow> 0 \<le> duration_Seconds d"
  unfolding duration_Seconds_def
  by (intro float_nonneg)
    (simp_all add: quot_int_nonneg rem_int_nonneg nanos_per_second_def pos_imp_zdiv_nonneg_iff)

text \<open>
  The exact number of seconds is off by at most three roundings, in either direction.
\<close>

lemma exact_seconds:
  "(of_int (d div nanos_per_second) + of_int (d mod nanos_per_second) / 1000000000 :: rat)
     = of_int d / 1000000000"
proof -
  have "d = 1000000000 * (d div nanos_per_second) + d mod nanos_per_second"
    by (simp add: nanos_per_second_def)
  then have "(of_int d :: rat) =
      of_int (1000000000 * (d div nanos_per_second) + d mod nanos_per_second)" by simp
  then show ?thesis by (simp add: field_simps)
qed

lemma unit_roundoff_bounds: "0 < unit_roundoff" "unit_roundoff < 1"
  by (simp_all add: unit_roundoff_def)

lemma duration_Seconds_upper:
  assumes "0 \<le> d"
  shows "duration_Seconds d \<le> (1 + unit_roundoff) ^ 3 * (of_int d / 1000000000)"
proof -
  define u where "u = (1 + unit_roundoff :: rat)"
  have u: "1 \<le> u" by (simp add: u_def unit_roundoff_def)
  define s n :: rat where "s = of_int (d div nanos_per_second)"
    and "n = of_int (d mod nanos_per_second)"
  have s: "0 \<le> s" and n: "0 \<le> n"
    using assms by (simp_all add: s_def n_def nanos_per_second_def pos_imp_zdiv_nonneg_iff)
  have fs: "float64 s \<le> u * s" using float64_upper [OF s] by (simp add: u_def)
  have fn: "float64 n \<le> u * n" using float64_upper [OF n] by (simp add: u_def)
  have "float64 (float64 n / 1000000000) \<le> u * (float64 n / 1000000000)"
    using float64_upper [of "float64 n / 1000000000"] float64_nonneg [OF n] by (simp add: u_def)
  also have "\<dots> \<le> u * (u * n / 1000000000)"
    using fn u by (intro mult_left_mono divide_right_mono) simp_all
  finally have fn2: "float64 (float64 n / 1000000000) \<le> u ^ 2 * (n / 1000000000)"
    by (simp add: power2_eq_square)
  have "u * s \<le> u ^ 2 * s" using u s by (intro mult_right_mono self_le_power) simp_all
  with fs fn2 have sum: "float64 s + float64 (float64 n / 1000000000) \<le> u ^ 2 * (of_int d / 1000000000)"
    by (simp add: exact_seconds [symmetric] s_def [symmetric] n_def [symmetric] distrib_left)
  have "duration_Seconds d = float64 (float64 s + float64 (float64 n / 1000000000))"
    using assms by (simp add: duration_Seconds_def fadd_def fdiv_def float_of_int_def s_def n_def
        quot_int_nonneg rem_int_nonneg nanos_per_second_def)
  also have "\<dots> \<le> u * (float64 s + float64 (float64 n / 1000000000))"
    unfolding u_def using s n by (intro float64_upper add_nonneg_nonneg float64_nonneg divide_nonneg_nonneg) simp_all
  also have "\<dots> \<le> u * (u ^ 2 * (of_int d / 1000000000))"
    using sum u by (intro mult_left_mono) simp_all
  finally show ?thesis by (simp add: u_def power3_eq_cube power2_eq_square mult.assoc)
qed

lemma duration_Seconds_lower:
  assumes "0 \<le> d"
  shows "(1 - unit_roundoff) ^ 3 * (of_int d / 1000000000) \<le> duration_Seconds d"
proof -
  define u where "u = (1 - unit_roundoff :: rat)"
  have u: "0 \<le> u" "u \<le> 1" by (simp_all add: u_def unit_roundoff_def)
  define s n :: rat where "s = of_int (d div nanos_per_second)"
    and "n = of_int (d mod nanos_per_second)"
  have s: "0 \<le> s" and n: "0 \<le> n"
    using assms by (simp_all add: s_def n_def nanos_per_second_def pos_imp_zdiv_nonneg_iff)
  have fs: "u * s \<le> float64 s" using float64_lower [OF s] by (simp add: u_def)
  have fn: "u * n \<le> float64 n" using float64_lower [OF n] by (simp add: u_def)
  have "u * (u * n / 1000000000) \<le> u * (float64 n / 1000000000)"
    using fn u by (intro mult_left_mono divide_right_mono) simp_all
  also have "\<dots> \<le> float64 (float64 n / 1000000000)"
    using float64_lower [of "float64 n / 1000000000"] float64_nonneg [OF n] by (simp add: u_def)
  finally have fn2: "u ^ 2 * (n / 1000000000) \<le> float64 (float64 n / 1000000000)"
    by (simp add: power2_eq_square)
  have "u ^ 2 * s \<le> u * s" using u s by (intro mult_right_mono power_le_one [of u 1, simplified]) (simp_all add: power2_eq_square mult_left_le)
  with fs fn2 have sum: "u ^ 2 * (of_int d / 1000000000) \<le> float64 s + float64 (float64 n / 1000000000)"
    by (simp add: exact_seconds [symmetric] s_def [symmetric] n_def [symmetric] distrib_left)
  have "u * (u ^ 2 * (of_int d / 1000000000)) \<le> u * (float64 s + float64 (float64 n / 1000000000))"
    using sum u by (intro mult_left_mono) simp_all
  also have "\<dots> \<le> float64 (float64 s + float64 (float64 n / 1000000000))"
    unfolding u_def using s n by (intro float64_lower add_nonneg_nonneg float64_nonneg divide_nonneg_nonneg) simp_all
  also have "\<dots> = duration_Seconds d"
    using assms by (simp add: duration_Seconds_def fadd_def fdiv_def float_of_int_def s_def n_def
        quot_int_nonneg rem_int_nonneg nanos_per_second_def)
  finally show ?thesis by (simp add: u_def power3_eq_cube power2_eq_square mult.assoc)
qed

end
