(* ===== verification/Embedding_Cache.thy ===== *)
theory Embedding_Cache
  imports Lru_Spec Float64 "HOL-Library.Monad_Syntax"
begin

text \<open>
  The cache of embeddings, \<^verbatim>\<open>internal/cache/semantic/embed_cache.go\<close>, with its hand-written doubly
  linked list. The nodes live in a memory \<open>ec_heap\<close>, a function from addresses to nodes; a pointer
  is an option of an address and \<open>ec_next\<close> is an address not allocated yet. An operation yields
  \<^term>\<open>None\<close> where Go would follow a nil pointer, or where the eviction loop of \<^verbatim>\<open>Set\<close> would not end.

  The lemmas show that the four pointer operations implement list operations, that on a
  well-formed cache nothing panics and every loop ends, and that the cache implements the
  specification of \<^verbatim>\<open>Lru_Spec\<close>.
\<close>

section \<open>Nodes and the linked list\<close>

type_synonym f32 = rat

record cacheEntry =
  ce_key :: string
  ce_embedding :: "f32 list"
  ce_createdAt :: gotime

record lruNode =
  nd_entry :: cacheEntry
  nd_prev :: "nat option"
  nd_next :: "nat option"

record EmbeddingCache =
  ec_items :: "(string, nat) gomap"
  ec_heap :: "nat \<Rightarrow> lruNode"
  ec_next :: nat
  ec_head :: "nat option"
  ec_tail :: "nat option"
  ec_max :: int
  ec_ttl :: duration

definition zero_node :: lruNode where
  "zero_node = \<lparr>nd_entry = \<lparr>ce_key = '''', ce_embedding = [], ce_createdAt = time_zero\<rparr>,
                nd_prev = None, nd_next = None\<rparr>"

definition NewEmbeddingCache :: "int \<Rightarrow> duration \<Rightarrow> EmbeddingCache" where
  "NewEmbeddingCache maxEntries ttl =
     \<lparr>ec_items = [], ec_heap = (\<lambda>_. zero_node), ec_next = 0, ec_head = None, ec_tail = None,
      ec_max = (if maxEntries \<le> 0 then 5000 else maxEntries),
      ec_ttl = (if ttl \<le> 0 then time_Hour else ttl)\<rparr>"

definition set_prev :: "nat \<Rightarrow> nat option \<Rightarrow> EmbeddingCache \<Rightarrow> EmbeddingCache" where
  "set_prev n p c = c\<lparr>ec_heap := (ec_heap c)(n := (ec_heap c n)\<lparr>nd_prev := p\<rparr>)\<rparr>"

definition set_next :: "nat \<Rightarrow> nat option \<Rightarrow> EmbeddingCache \<Rightarrow> EmbeddingCache" where
  "set_next n p c = c\<lparr>ec_heap := (ec_heap c)(n := (ec_heap c n)\<lparr>nd_next := p\<rparr>)\<rparr>"

definition removeNode :: "nat \<Rightarrow> EmbeddingCache \<Rightarrow> EmbeddingCache" where
  "removeNode node c =
     (let c = (case nd_prev (ec_heap c node) of
                 Some p \<Rightarrow> set_next p (nd_next (ec_heap c node)) c
               | None \<Rightarrow> c\<lparr>ec_head := nd_next (ec_heap c node)\<rparr>)
      in case nd_next (ec_heap c node) of
           Some n \<Rightarrow> set_prev n (nd_prev (ec_heap c node)) c
         | None \<Rightarrow> c\<lparr>ec_tail := nd_prev (ec_heap c node)\<rparr>)"

definition pushFront :: "cacheEntry \<Rightarrow> EmbeddingCache \<Rightarrow> nat \<times> EmbeddingCache" where
  "pushFront entry c =
     (let node = ec_next c;
          c = c\<lparr>ec_heap := (ec_heap c)(node := \<lparr>nd_entry = entry, nd_prev = None, nd_next = None\<rparr>),
                ec_next := Suc node\<rparr>
      in case ec_head c of
           None \<Rightarrow> (node, c\<lparr>ec_head := Some node, ec_tail := Some node\<rparr>)
         | Some h \<Rightarrow>
             let c = set_next node (Some h) c;
                 c = set_prev h (Some node) c
             in (node, c\<lparr>ec_head := Some node\<rparr>))"

definition moveToFront :: "nat \<Rightarrow> EmbeddingCache \<Rightarrow> EmbeddingCache option" where
  "moveToFront node c =
     (if Some node = ec_head c then Some c
      else
        let c = (case nd_prev (ec_heap c node) of
                   Some p \<Rightarrow> set_next p (nd_next (ec_heap c node)) c | None \<Rightarrow> c);
            c = (case nd_next (ec_heap c node) of
                   Some n \<Rightarrow> set_prev n (nd_prev (ec_heap c node)) c | None \<Rightarrow> c);
            c = (if Some node = ec_tail c then c\<lparr>ec_tail := nd_prev (ec_heap c node)\<rparr> else c);
            c = set_prev node None c;
            c = set_next node (ec_head c) c
        in case ec_head c of
             None \<Rightarrow> None
           | Some h \<Rightarrow>
               let c = set_prev h (Some node) c
               in Some (c\<lparr>ec_head := Some node\<rparr>))"

definition removeTail :: "EmbeddingCache \<Rightarrow> cacheEntry option \<times> EmbeddingCache" where
  "removeTail c =
     (case ec_tail c of
        None \<Rightarrow> (None, c)
      | Some t \<Rightarrow>
          let entry = nd_entry (ec_heap c t);
              c = (case nd_prev (ec_heap c t) of
                     Some p \<Rightarrow> set_next p None c
                   | None \<Rightarrow> c\<lparr>ec_head := None\<rparr>)
          in (Some entry, c\<lparr>ec_tail := nd_prev (ec_heap c t)\<rparr>))"

section \<open>Get and Set\<close>

definition EC_GetKey :: "gotime \<Rightarrow> string \<Rightarrow> EmbeddingCache \<Rightarrow> (f32 list option \<times> EmbeddingCache) option" where
  "EC_GetKey now key c =
     (case gm_get (ec_items c) key of
        None \<Rightarrow> Some (None, c)
      | Some node \<Rightarrow>
          if ec_ttl c < time_Sub now (ce_createdAt (nd_entry (ec_heap c node)))
          then let c = removeNode node c
               in Some (None, c\<lparr>ec_items := gm_delete key (ec_items c)\<rparr>)
          else do {
            c \<leftarrow> moveToFront node c;
            Some (Some (ce_embedding (nd_entry (ec_heap c node))), c)
          })"

partial_function (option) evictTails :: "EmbeddingCache \<Rightarrow> EmbeddingCache option" where
  "evictTails c =
     (if int (gm_len (ec_items c)) \<ge> ec_max c
      then case removeTail c of
             (Some e, c) \<Rightarrow> evictTails (c\<lparr>ec_items := gm_delete (ce_key e) (ec_items c)\<rparr>)
           | (None, c) \<Rightarrow> evictTails c
      else Some c)"

definition EC_SetKey :: "gotime \<Rightarrow> string \<Rightarrow> f32 list \<Rightarrow> EmbeddingCache \<Rightarrow> EmbeddingCache option" where
  "EC_SetKey now key embedding c =
     (case gm_get (ec_items c) key of
        Some node \<Rightarrow>
          let n = ec_heap c node;
              e = (nd_entry n)\<lparr>ce_embedding := embedding, ce_createdAt := now\<rparr>
          in moveToFront node (c\<lparr>ec_heap := (ec_heap c)(node := n\<lparr>nd_entry := e\<rparr>)\<rparr>)
      | None \<Rightarrow> do {
          c \<leftarrow> evictTails c;
          (case pushFront \<lparr>ce_key = key, ce_embedding = embedding, ce_createdAt = now\<rparr> c of
             (node, c) \<Rightarrow> Some (c\<lparr>ec_items := gm_set key node (ec_items c)\<rparr>))
        })"

text \<open>The operations on texts; \<open>hashText\<close> is SHA-256 in hexadecimal, a parameter.\<close>

definition EmbeddingCache_Get ::
  "(string \<Rightarrow> string) \<Rightarrow> gotime \<Rightarrow> string \<Rightarrow> EmbeddingCache \<Rightarrow> (f32 list option \<times> EmbeddingCache) option" where
  "EmbeddingCache_Get hashText now text c = EC_GetKey now (hashText text) c"

definition EmbeddingCache_Set ::
  "(string \<Rightarrow> string) \<Rightarrow> gotime \<Rightarrow> string \<Rightarrow> f32 list \<Rightarrow> EmbeddingCache \<Rightarrow> EmbeddingCache option" where
  "EmbeddingCache_Set hashText now text embedding c = EC_SetKey now (hashText text) embedding c"

section \<open>Linked segments\<close>

definition first_of :: "'a list \<Rightarrow> 'a option \<Rightarrow> 'a option" where
  "first_of ns q = (case ns of [] \<Rightarrow> q | n # _ \<Rightarrow> Some n)"

definition last_of :: "'a list \<Rightarrow> 'a option \<Rightarrow> 'a option" where
  "last_of ns p = (if ns = [] then p else Some (last ns))"

fun dseg :: "(nat \<Rightarrow> lruNode) \<Rightarrow> nat option \<Rightarrow> nat list \<Rightarrow> nat option \<Rightarrow> bool" where
  "dseg h p [] q = True"
| "dseg h p (n # ns) q = (nd_prev (h n) = p \<and> nd_next (h n) = first_of ns q \<and> dseg h (Some n) ns q)"

lemma first_of_simps [simp]: "first_of [] q = q" "first_of (n # ns) q = Some n"
  by (simp_all add: first_of_def)

lemma last_of_simps [simp]: "last_of [] p = p" "last_of (n # ns) p = Some (last (n # ns))"
  by (simp_all add: last_of_def)

lemma last_of_snoc [simp]: "last_of (ns @ [n]) p = Some n"
  by (simp add: last_of_def)

lemma last_of_append: "last_of (xs @ ys) p = last_of ys (last_of xs p)"
  by (simp add: last_of_def)

lemma first_of_append: "first_of (xs @ ys) q = first_of xs (first_of ys q)"
  by (cases xs) simp_all

lemma dseg_append:
  "dseg h p (xs @ ys) q \<longleftrightarrow> dseg h p xs (first_of ys q) \<and> dseg h (last_of xs p) ys q"
proof (induction xs arbitrary: p)
  case (Cons x xs)
  have "last_of xs (Some x) = last_of (x # xs) p" by (simp add: last_of_def)
  with Cons show ?case by (simp add: first_of_append conj_assoc)
qed simp

lemma dseg_frame: "a \<notin> set ns \<Longrightarrow> dseg (h(a := x)) p ns q = dseg h p ns q"
  by (induction ns arbitrary: p) auto

lemma dseg_set_first:
  "dseg h p (n # ns) q \<Longrightarrow> n \<notin> set ns \<Longrightarrow> dseg (h(n := (h n)\<lparr>nd_prev := p'\<rparr>)) p' (n # ns) q"
  by (simp add: dseg_frame)

lemma dseg_set_last:
  "dseg h p (ns @ [n]) q \<Longrightarrow> n \<notin> set ns \<Longrightarrow> dseg (h(n := (h n)\<lparr>nd_next := q'\<rparr>)) p (ns @ [n]) q'"
  by (simp add: dseg_append dseg_frame)

text \<open>Following the next pointers.\<close>

fun chain :: "(nat \<Rightarrow> lruNode) \<Rightarrow> nat \<Rightarrow> nat option \<Rightarrow> nat list" where
  "chain h (Suc f) (Some n) = n # chain h f (nd_next (h n))"
| "chain h f p = []"

lemma chain_dseg: "dseg h p ns None \<Longrightarrow> chain h (length ns) (first_of ns None) = ns"
  by (induction ns arbitrary: p) auto

section \<open>The pointer operations implement list operations\<close>

definition linked :: "EmbeddingCache \<Rightarrow> nat list \<Rightarrow> bool" where
  "linked c ns \<longleftrightarrow> dseg (ec_heap c) None ns None \<and> distinct ns \<and> ec_head c = first_of ns None
     \<and> ec_tail c = last_of ns None \<and> (\<forall>n \<in> set ns. n < ec_next c)"

text \<open>An operation of the list leaves the entries, the map and the configuration alone.\<close>

definition same_entries :: "EmbeddingCache \<Rightarrow> EmbeddingCache \<Rightarrow> bool" where
  "same_entries c c' \<longleftrightarrow> (\<forall>a. nd_entry (ec_heap c' a) = nd_entry (ec_heap c a)) \<and> ec_items c' = ec_items c
     \<and> ec_max c' = ec_max c \<and> ec_ttl c' = ec_ttl c \<and> ec_next c' = ec_next c"

lemmas pointer_defs = linked_def same_entries_def set_prev_def set_next_def Let_def

lemma removeNode_linked:
  assumes "linked c (xs @ n # ys)"
  shows "linked (removeNode n c) (xs @ ys) \<and> same_entries c (removeNode n c)"
proof (cases xs rule: rev_cases)
  case Nil
  with assms show ?thesis
    by (cases ys) (auto simp: removeNode_def pointer_defs dseg_frame last_of_def)
next
  case (snoc as p)
  with assms show ?thesis
    by (cases ys) (auto simp: removeNode_def pointer_defs dseg_append dseg_frame last_of_append first_of_append)
qed

text \<open>Moving a node to the front is removing it and linking it before the head.\<close>

definition link_front :: "nat \<Rightarrow> nat \<Rightarrow> EmbeddingCache \<Rightarrow> EmbeddingCache" where
  "link_front n h c = (set_prev h (Some n) (set_next n (Some h) (set_prev n None c)))\<lparr>ec_head := Some n\<rparr>"

lemma moveToFront_eq:
  assumes "linked c (xs @ n # ys)" and "xs \<noteq> []"
  shows "moveToFront n c = Some (link_front n (hd xs) (removeNode n c))"
proof -
  from assms(2) obtain as p where xs: "xs = as @ [p]" by (cases xs rule: rev_cases) auto
  from assms(1) xs have *: "nd_prev (ec_heap c n) = Some p" "nd_next (ec_heap c n) = first_of ys None"
    "ec_tail c = last_of ys (Some n)" "n \<noteq> p" "n \<notin> set ys" "n \<notin> set xs"
    by (auto simp: linked_def dseg_append last_of_def)
  moreover from assms have "ec_head c = Some (hd xs)" by (cases xs) (simp_all add: linked_def)
  moreover from * assms(2) have "n \<noteq> hd xs" by (cases xs) auto
  ultimately have *: "nd_prev (ec_heap c n) = Some p" "nd_next (ec_heap c n) = first_of ys None"
    "ec_head c = Some (hd xs)" "ec_tail c = last_of ys (Some n)" "n \<noteq> hd xs" "n \<noteq> p" "n \<notin> set ys" by simp_all
  then have "ec_tail c = Some n \<longleftrightarrow> ys = []" by (cases ys rule: rev_cases) auto
  with * show ?thesis
    by (cases ys) (simp_all add: moveToFront_def removeNode_def link_front_def set_prev_def set_next_def Let_def)
qed

lemma link_front_linked:
  assumes "linked c (h # ns)" and "n \<notin> set (h # ns)" and "n < ec_next c"
  shows "linked (link_front n h c) (n # h # ns) \<and> same_entries c (link_front n h c)"
  using assms by (simp add: link_front_def pointer_defs dseg_frame)

lemma moveToFront_linked:
  assumes "linked c (xs @ n # ys)"
  shows "\<exists>c'. moveToFront n c = Some c' \<and> linked c' (n # xs @ ys) \<and> same_entries c c'"
proof (cases xs)
  case Nil
  with assms show ?thesis by (auto simp: moveToFront_def pointer_defs)
next
  case (Cons h hs)
  from removeNode_linked [OF assms]
  have r: "linked (removeNode n c) (xs @ ys)" "same_entries c (removeNode n c)" by simp_all
  moreover from assms r(2) have "n \<notin> set (xs @ ys)" "n < ec_next (removeNode n c)"
    by (simp_all add: linked_def same_entries_def)
  ultimately have "linked (link_front n h (removeNode n c)) (n # xs @ ys)"
    "same_entries (removeNode n c) (link_front n h (removeNode n c))"
    using link_front_linked [of "removeNode n c" h "hs @ ys" n] Cons by simp_all
  with r(2) moveToFront_eq [OF assms] Cons show ?thesis by (simp add: same_entries_def)
qed

lemma removeTail_linked:
  assumes "linked c (xs @ [n])"
  shows "\<exists>c'. removeTail c = (Some (nd_entry (ec_heap c n)), c') \<and> linked c' xs \<and> same_entries c c'"
proof (cases xs rule: rev_cases)
  case Nil
  with assms show ?thesis by (auto simp: removeTail_def pointer_defs)
next
  case (snoc as p)
  with assms show ?thesis
    by (auto simp: removeTail_def pointer_defs dseg_append dseg_frame first_of_append last_of_def)
qed

lemma pushFront_linked:
  assumes "linked c ns"
  shows "\<exists>c'. pushFront e c = (ec_next c, c') \<and> linked c' (ec_next c # ns)
    \<and> nd_entry (ec_heap c' (ec_next c)) = e \<and> (\<forall>a. a \<noteq> ec_next c \<longrightarrow> nd_entry (ec_heap c' a) = nd_entry (ec_heap c a))
    \<and> ec_items c' = ec_items c \<and> ec_max c' = ec_max c \<and> ec_ttl c' = ec_ttl c \<and> ec_next c' = Suc (ec_next c)"
proof (cases ns)
  case Nil
  with assms show ?thesis by (auto simp: pushFront_def pointer_defs)
next
  case (Cons a as)
  with assms have "ec_next c \<notin> set ns" by (auto simp: linked_def)
  with assms Cons show ?thesis by (auto simp: pushFront_def pointer_defs dseg_frame)
qed

section \<open>The cache implements the specification\<close>

definition nodes :: "EmbeddingCache \<Rightarrow> nat list" where
  "nodes c = chain (ec_heap c) (gm_len (ec_items c)) (ec_head c)"

definition ents :: "EmbeddingCache \<Rightarrow> nat list \<Rightarrow> (nat \<times> cacheEntry) list" where
  "ents c ns = map (\<lambda>n. (n, nd_entry (ec_heap c n))) ns"

definition ce_val :: "cacheEntry \<Rightarrow> f32 list \<times> gotime" where
  "ce_val e = (ce_embedding e, ce_createdAt e)"

definition ec_ok :: "EmbeddingCache \<Rightarrow> nat list \<Rightarrow> bool" where
  "ec_ok c ns \<longleftrightarrow> 0 < ec_max c \<and> linked c ns \<and> indexed ce_key (ec_items c) (ents c ns)"

definition ec_inv :: "EmbeddingCache \<Rightarrow> bool" where
  "ec_inv c \<longleftrightarrow> ec_ok c (nodes c)"

definition ec_abs :: "EmbeddingCache \<Rightarrow> (string \<times> f32 list \<times> gotime) list" where
  "ec_abs c = lru_view ce_key ce_val (ents c (nodes c))"

lemma ok_nodes: "ec_ok c ns \<Longrightarrow> nodes c = ns"
  using chain_dseg [of "ec_heap c" None ns]
  by (auto simp: ec_ok_def linked_def nodes_def ents_def dest: indexed_len)

lemma ec_okD: "ec_ok c ns \<Longrightarrow> ec_inv c \<and> ec_abs c = lru_view ce_key ce_val (ents c ns)"
  using ok_nodes [of c ns] by (simp add: ec_inv_def ec_abs_def)

lemma ents_fst: "fst ` set (ents c ns) = set ns"
  by (force simp: ents_def)

lemma ents_drop: "n \<notin> set xs \<Longrightarrow> n \<notin> set ys \<Longrightarrow> lru_drop n (ents c (xs @ n # ys)) = ents c (xs @ ys)"
  using lru_drop_id [of n "ents c xs"] lru_drop_id [of n "ents c ys"] by (simp add: ents_fst) (simp add: ents_def)

lemma ents_cong: "(\<And>a. a \<in> set ns \<Longrightarrow> nd_entry (ec_heap c' a) = nd_entry (ec_heap c a)) \<Longrightarrow> ents c' ns = ents c ns"
  by (simp add: ents_def)

lemma ents_same: "same_entries c c' \<Longrightarrow> ents c' ns = ents c ns"
  by (simp add: same_entries_def ents_def)

text \<open>The node of a key that the map holds splits the list.\<close>

lemma ok_find:
  assumes "ec_ok c ns" and "gm_get (ec_items c) key = Some n"
  obtains xs ys where "ns = xs @ n # ys" and "n \<notin> set xs" and "n \<notin> set ys"
    and "ce_key (nd_entry (ec_heap c n)) = key"
    and "map_of (lru_view ce_key ce_val (ents c ns)) key = Some (ce_val (nd_entry (ec_heap c n)))"
    and "lru_drop n (ents c ns) = ents c (xs @ ys)"
proof -
  from assms have ix: "indexed ce_key (ec_items c) (ents c ns)" and d: "distinct ns"
    by (auto simp: ec_ok_def linked_def)
  from indexed_Some [OF ix assms(2), of ce_val] obtain e where e: "map_of (ents c ns) n = Some e"
    "ce_key e = key" "map_of (lru_view ce_key ce_val (ents c ns)) key = Some (ce_val e)" by blast
  from map_of_SomeD [OF e(1)] have n: "n \<in> set ns" and e': "e = nd_entry (ec_heap c n)"
    by (auto simp: ents_def)
  from n obtain xs ys where ns: "ns = xs @ n # ys" by (auto dest: split_list)
  with d have "n \<notin> set xs" "n \<notin> set ys" by auto
  with that ns e e' ents_drop [of n xs ys c] show thesis by simp
qed

lemma ok_entry:
  assumes "ec_ok c ns" and "gm_get (ec_items c) key = Some n"
  shows "ce_key (nd_entry (ec_heap c n)) = key"
    and "map_of (ec_abs c) key = Some (ce_val (nd_entry (ec_heap c n)))"
    and "ec_items (removeNode n c) = ec_items c"
proof -
  from ok_find [OF assms] obtain xs ys where s: "ns = xs @ n # ys" "ce_key (nd_entry (ec_heap c n)) = key"
    "map_of (lru_view ce_key ce_val (ents c ns)) key = Some (ce_val (nd_entry (ec_heap c n)))" by metis
  with ec_okD [OF assms(1)] show "ce_key (nd_entry (ec_heap c n)) = key"
    and "map_of (ec_abs c) key = Some (ce_val (nd_entry (ec_heap c n)))" by simp_all
  from assms(1) s(1) removeNode_linked [of c xs n ys] show "ec_items (removeNode n c) = ec_items c"
    by (simp add: ec_ok_def same_entries_def)
qed

lemma removeNode_ok:
  assumes "ec_ok c ns" and "gm_get (ec_items c) key = Some n"
  defines "c' \<equiv> (removeNode n c)\<lparr>ec_items := gm_delete key (ec_items c)\<rparr>"
  shows "ec_inv c' \<and> ec_abs c' = lru_drop key (ec_abs c) \<and> ec_max c' = ec_max c \<and> ec_ttl c' = ec_ttl c"
proof -
  from assms(1) have ix: "indexed ce_key (ec_items c) (ents c ns)" and l: "linked c ns" by (auto simp: ec_ok_def)
  from ok_find [OF assms(1,2)] obtain xs ys where s: "ns = xs @ n # ys" "lru_drop n (ents c ns) = ents c (xs @ ys)"
    by metis
  from removeNode_linked [of c xs n ys] l s
  have r: "linked (removeNode n c) (xs @ ys)" "same_entries c (removeNode n c)" by simp_all
  have e: "ents c' (xs @ ys) = lru_drop n (ents c ns)"
    using r(2) s(2) by (simp add: c'_def ents_def same_entries_def)
  have "ec_ok c' (xs @ ys)"
    using assms(1) r e indexed_drop(2) [OF ix assms(2)]
    by (simp add: ec_ok_def linked_def c'_def same_entries_def)
  with ec_okD [OF this] ec_okD [OF assms(1)] e indexed_drop(1) [OF ix assms(2), of ce_val] r(2)
  show ?thesis by (simp add: c'_def same_entries_def)
qed

lemma moveToFront_ok:
  assumes "ec_ok c ns" and "gm_get (ec_items c) key = Some n"
    and "ce_key e = key"
  shows "\<exists>c'. moveToFront n (c\<lparr>ec_heap := (ec_heap c)(n := (ec_heap c n)\<lparr>nd_entry := e\<rparr>)\<rparr>) = Some c'
    \<and> nd_entry (ec_heap c' n) = e
    \<and> ec_inv c' \<and> ec_abs c' = (key, ce_val e) # lru_drop key (ec_abs c)
    \<and> ec_max c' = ec_max c \<and> ec_ttl c' = ec_ttl c"
proof -
  let ?c = "c\<lparr>ec_heap := (ec_heap c)(n := (ec_heap c n)\<lparr>nd_entry := e\<rparr>)\<rparr>"
  from assms(1) have ix: "indexed ce_key (ec_items c) (ents c ns)" and l: "linked c ns" by (auto simp: ec_ok_def)
  from ok_find [OF assms(1,2)] obtain xs ys where s: "ns = xs @ n # ys" "n \<notin> set xs" "n \<notin> set ys"
    "lru_drop n (ents c ns) = ents c (xs @ ys)" by metis
  from l s have "linked ?c (xs @ n # ys)" by (auto simp: linked_def dseg_append dseg_frame)
  from moveToFront_linked [OF this] obtain c'
    where m: "moveToFront n ?c = Some c'" "linked c' (n # xs @ ys)" "same_entries ?c c'" by blast
  have e: "ents c' (n # xs @ ys) = (n, e) # lru_drop n (ents c ns)"
    using m(3) s(2-4) by (auto simp: ents_def same_entries_def)
  have ok: "ec_ok c' (n # xs @ ys)"
    unfolding ec_ok_def e using assms m(2,3) indexed_replace [OF ix, of e n]
    by (simp add: ec_ok_def same_entries_def)
  from indexed_drop(1) [OF ix assms(2), of ce_val] ec_okD [OF assms(1)]
  have "lru_view ce_key ce_val ((n, e) # lru_drop n (ents c ns)) = (key, ce_val e) # lru_drop key (ec_abs c)"
    using assms(3) by (simp add: lru_view_def)
  with ec_okD [OF ok] e m(1,3) show ?thesis by (simp add: same_entries_def)
qed

lemma removeTail_ok:
  assumes "ec_ok c (xs @ [n])"
  shows "\<exists>c'. removeTail c = (Some (nd_entry (ec_heap c n)), c') \<and> same_entries c c'
    \<and> ec_ok (c'\<lparr>ec_items := gm_delete (ce_key (nd_entry (ec_heap c n))) (ec_items c')\<rparr>) xs"
proof -
  from assms have ix: "indexed ce_key (ec_items c) (ents c (xs @ [n]))" and l: "linked c (xs @ [n])"
    by (auto simp: ec_ok_def)
  from removeTail_linked [OF l] obtain c'
    where r: "removeTail c = (Some (nd_entry (ec_heap c n)), c')" "linked c' xs" "same_entries c c'" by blast
  have "indexed ce_key (gm_delete (ce_key (nd_entry (ec_heap c n))) (ec_items c)) (ents c xs)"
    using indexed_butlast [OF ix] by (simp add: ents_def)
  with assms r ents_same [OF r(3), of xs] show ?thesis
    by (auto simp: ec_ok_def linked_def same_entries_def ents_def)
qed

lemma evictTails_ok:
  "ec_ok c ns \<Longrightarrow> \<exists>c'. evictTails c = Some c' \<and> ec_ok c' (take (nat (ec_max c - 1)) ns)
     \<and> (\<forall>a. nd_entry (ec_heap c' a) = nd_entry (ec_heap c a)) \<and> ec_max c' = ec_max c \<and> ec_ttl c' = ec_ttl c
     \<and> ec_next c' = ec_next c
     \<and> (\<forall>k. gm_get (ec_items c) k = None \<longrightarrow> gm_get (ec_items c') k = None)"
proof (induction ns arbitrary: c rule: rev_induct)
  case Nil
  then have "gm_len (ec_items c) = 0" and "0 < ec_max c"
    by (auto simp: ec_ok_def ents_def dest: indexed_len)
  then have "evictTails c = Some c" by (simp add: evictTails.simps [of c])
  with Nil show ?case by simp
next
  case (snoc n xs)
  from snoc.prems have len: "gm_len (ec_items c) = Suc (length xs)" and pos: "0 < ec_max c"
    by (auto simp: ec_ok_def ents_def dest: indexed_len)
  show ?case
  proof (cases "ec_max c \<le> int (gm_len (ec_items c))")
    case False
    then have "evictTails c = Some c" by (simp add: evictTails.simps [of c])
    moreover from False len have "take (nat (ec_max c - 1)) (xs @ [n]) = xs @ [n]" by simp
    ultimately show ?thesis using snoc.prems by simp
  next
    case True
    from removeTail_ok [OF snoc.prems] obtain c' where r: "removeTail c = (Some (nd_entry (ec_heap c n)), c')"
      "same_entries c c'" and ok: "ec_ok (c'\<lparr>ec_items := gm_delete (ce_key (nd_entry (ec_heap c n))) (ec_items c')\<rparr>) xs"
      by blast
    let ?c = "c'\<lparr>ec_items := gm_delete (ce_key (nd_entry (ec_heap c n))) (ec_items c')\<rparr>"
    from True r have step: "evictTails c = evictTails ?c" by (simp add: evictTails.simps [of c])
    from True len have t: "take (nat (ec_max c - 1)) (xs @ [n]) = take (nat (ec_max c - 1)) xs" by simp
    from snoc.IH [OF ok] r(2) show ?thesis
      unfolding step t by (auto simp: same_entries_def gomap_simps)
  qed
qed

lemma EC_SetKey_new_ok:
  assumes ok: "ec_ok c ns" and "gm_get (ec_items c) key = None"
  shows "\<exists>c'. EC_SetKey now key emb c = Some c' \<and> ec_inv c'
    \<and> ec_abs c' = take (nat (ec_max c)) ((key, emb, now) # ec_abs c)
    \<and> ec_max c' = ec_max c \<and> ec_ttl c' = ec_ttl c"
proof -
  let ?e = "\<lparr>ce_key = key, ce_embedding = emb, ce_createdAt = now\<rparr>"
  let ?ns = "take (nat (ec_max c - 1)) ns"
  from evictTails_ok [OF ok] assms(2) obtain c1 where c1: "evictTails c = Some c1" "ec_ok c1 ?ns"
    "\<forall>a. nd_entry (ec_heap c1 a) = nd_entry (ec_heap c a)" "ec_max c1 = ec_max c" "ec_ttl c1 = ec_ttl c"
    "gm_get (ec_items c1) key = None" by blast
  from c1(2) have l: "linked c1 ?ns" and ix: "indexed ce_key (ec_items c1) (ents c1 ?ns)" by (auto simp: ec_ok_def)
  from pushFront_linked [OF l, of ?e] obtain c2 where c2: "pushFront ?e c1 = (ec_next c1, c2)"
    "linked c2 (ec_next c1 # ?ns)" "nd_entry (ec_heap c2 (ec_next c1)) = ?e"
    "\<forall>a. a \<noteq> ec_next c1 \<longrightarrow> nd_entry (ec_heap c2 a) = nd_entry (ec_heap c1 a)"
    "ec_items c2 = ec_items c1" "ec_max c2 = ec_max c1" "ec_ttl c2 = ec_ttl c1" by blast
  let ?c = "c2\<lparr>ec_items := gm_set key (ec_next c1) (ec_items c2)\<rparr>"
  from l have fresh: "ec_next c1 \<notin> set ?ns" by (auto simp: linked_def)
  then have e: "ents ?c (ec_next c1 # ?ns) = (ec_next c1, ?e) # ents c1 ?ns"
    using c2(3,4) by (auto simp: ents_def) (metis)
  have ok2: "ec_ok ?c (ec_next c1 # ?ns)"
    unfolding ec_ok_def e using c2 c1(2,6) indexed_push [OF ix, of ?e "ec_next c1"] fresh ents_fst [of c1 ?ns]
    by (simp add: ec_ok_def linked_def)
  have "lru_view ce_key ce_val (ents c1 ?ns) = take (nat (ec_max c - 1)) (ec_abs c)"
    using ec_okD [OF ok] c1(3) by (simp add: lru_view_def ents_def take_map)
  moreover have "nat (ec_max c) = Suc (nat (ec_max c - 1))" using ok unfolding ec_ok_def by linarith
  ultimately have "ec_abs ?c = take (nat (ec_max c)) ((key, emb, now) # ec_abs c)"
    using ec_okD [OF ok2] e by (simp add: lru_view_def ce_val_def)
  with ec_okD [OF ok2] c1 c2 assms(2) show ?thesis by (simp add: EC_SetKey_def)
qed

definition ec_conf :: "EmbeddingCache \<Rightarrow> int \<times> duration" where
  "ec_conf c = (ec_max c, ec_ttl c)"

definition ec_cap :: "int \<times> duration \<Rightarrow> nat" where
  "ec_cap cf = nat (fst cf)"

definition ec_fresh :: "int \<times> duration \<Rightarrow> gotime \<Rightarrow> f32 list \<times> gotime \<Rightarrow> bool" where
  "ec_fresh cf now e \<longleftrightarrow> \<not> snd cf < time_Sub now (snd e)"

definition ec_mk :: "int \<times> duration \<Rightarrow> gotime \<Rightarrow> f32 list \<Rightarrow> f32 list \<times> gotime" where
  "ec_mk cf now emb = (emb, now)"

text \<open>The operations where they return.\<close>

definition ec_get :: "gotime \<Rightarrow> string \<Rightarrow> EmbeddingCache \<Rightarrow> f32 list option \<times> EmbeddingCache" where
  "ec_get now key c = (case EC_GetKey now key c of None \<Rightarrow> (None, c) | Some r \<Rightarrow> r)"

definition ec_put :: "gotime \<Rightarrow> string \<Rightarrow> f32 list \<Rightarrow> EmbeddingCache \<Rightarrow> EmbeddingCache" where
  "ec_put now key emb c = (case EC_SetKey now key emb c of None \<Rightarrow> c | Some c' \<Rightarrow> c')"

lemma EC_GetKey_refines:
  assumes "ec_inv c"
  shows "\<exists>r c'. EC_GetKey now key c = Some (r, c') \<and> ec_inv c' \<and> ec_conf c' = ec_conf c
    \<and> ec_abs c' = lru_get (ec_fresh (ec_conf c) now) key (ec_abs c)
    \<and> r = (case map_of (ec_abs c) key of None \<Rightarrow> None
           | Some e \<Rightarrow> if ec_fresh (ec_conf c) now e then Some (fst e) else None)"
proof (cases "gm_get (ec_items c) key")
  case None
  from assms have "indexed ce_key (ec_items c) (ents c (nodes c))" by (simp add: ec_inv_def ec_ok_def)
  from indexed_None [OF this, of key ce_val] None have "map_of (ec_abs c) key = None" by (simp add: ec_abs_def)
  with None assms show ?thesis by (simp add: EC_GetKey_def lru_get_def)
next
  case (Some n)
  from assms have ok: "ec_ok c (nodes c)" by (simp add: ec_inv_def)
  note k = ok_entry(1) [OF ok Some] and m = ok_entry(2) [OF ok Some]
  have fr: "ec_fresh (ec_conf c) now (ce_val (nd_entry (ec_heap c n))) \<longleftrightarrow>
      \<not> ec_ttl c < time_Sub now (ce_createdAt (nd_entry (ec_heap c n)))"
    by (simp add: ec_fresh_def ec_conf_def ce_val_def)
  show ?thesis
  proof (cases "ec_fresh (ec_conf c) now (ce_val (nd_entry (ec_heap c n)))")
    case True
    from moveToFront_ok [OF ok Some k] obtain c' where c': "moveToFront n c = Some c'"
      "nd_entry (ec_heap c' n) = nd_entry (ec_heap c n)" "ec_inv c'"
      "ec_abs c' = (key, ce_val (nd_entry (ec_heap c n))) # lru_drop key (ec_abs c)"
      "ec_conf c' = ec_conf c" by (auto simp: ec_conf_def)
    with True Some fr m show ?thesis
      by (simp add: EC_GetKey_def lru_get_def lru_touch_def) (simp add: ce_val_def)
  next
    case False
    have "ec_items (removeNode n c) = ec_items c" by (rule ok_entry(3) [OF ok Some])
    with False Some fr m removeNode_ok [OF ok Some] show ?thesis
      by (simp add: EC_GetKey_def lru_get_def Let_def ec_conf_def)
  qed
qed

lemma EC_SetKey_refines:
  assumes "ec_inv c"
  shows "\<exists>c'. EC_SetKey now key emb c = Some c' \<and> ec_inv c' \<and> ec_conf c' = ec_conf c
    \<and> ec_abs c' = lru_put (ec_cap (ec_conf c)) key (ec_mk (ec_conf c) now emb) (ec_abs c)"
proof (cases "gm_get (ec_items c) key")
  case None
  from assms have ok: "ec_ok c (nodes c)" by (simp add: ec_inv_def)
  then have "indexed ce_key (ec_items c) (ents c (nodes c))" by (simp add: ec_ok_def)
  from indexed_None [OF this, of key ce_val] None have "map_of (ec_abs c) key = None" by (simp add: ec_abs_def)
  with EC_SetKey_new_ok [OF ok None, of now emb] show ?thesis
    by (auto simp: ec_conf_def lru_put_def ec_mk_def ec_cap_def)
next
  case (Some n)
  from assms have ok: "ec_ok c (nodes c)" by (simp add: ec_inv_def)
  let ?e = "(nd_entry (ec_heap c n))\<lparr>ce_embedding := emb, ce_createdAt := now\<rparr>"
  note k = ok_entry(1) [OF ok Some] and m = ok_entry(2) [OF ok Some]
  from moveToFront_ok [OF ok Some, of ?e] k m Some show ?thesis
    by (auto simp: EC_SetKey_def Let_def lru_put_def ec_conf_def ec_mk_def ce_val_def)
qed

interpretation embed: lru_cache ec_inv ec_abs ec_conf ec_cap ec_fresh fst ec_mk ec_get ec_put
proof (unfold_locales)
  fix c now key emb assume inv: "ec_inv c"
  then have ok: "ec_ok c (nodes c)" by (simp add: ec_inv_def)
  then show "distinct (map fst (ec_abs c))" by (auto simp: ec_abs_def ec_ok_def intro: indexed_distinct)
  from ok show "0 < ec_cap (ec_conf c)" by (simp add: ec_ok_def ec_cap_def ec_conf_def)
  from EC_SetKey_refines [OF inv, of now key emb]
  show "ec_inv (ec_put now key emb c)" and "ec_conf (ec_put now key emb c) = ec_conf c"
    and "ec_abs (ec_put now key emb c) = lru_put (ec_cap (ec_conf c)) key (ec_mk (ec_conf c) now emb) (ec_abs c)"
    by (auto simp: ec_put_def)
  from EC_GetKey_refines [OF inv, of now key]
  show "ec_inv (snd (ec_get now key c))" and "ec_conf (snd (ec_get now key c)) = ec_conf c"
    and "ec_abs (snd (ec_get now key c)) = lru_get (ec_fresh (ec_conf c) now) key (ec_abs c)"
    and "fst (ec_get now key c) = (case map_of (ec_abs c) key of None \<Rightarrow> None
      | Some e \<Rightarrow> if ec_fresh (ec_conf c) now e then Some (fst e) else None)"
    by (auto simp: ec_get_def)
qed

lemma NewEmbeddingCache_ok: "ec_ok (NewEmbeddingCache n ttl) []"
  by (simp add: ec_ok_def NewEmbeddingCache_def linked_def ents_def)

lemmas NewEmbeddingCache_inv = ec_okD [OF NewEmbeddingCache_ok]

fun embed_run :: "(string \<Rightarrow> string) \<Rightarrow> f32 list lru_op list \<Rightarrow> EmbeddingCache \<Rightarrow> EmbeddingCache option" where
  "embed_run hashText [] c = Some c"
| "embed_run hashText (LGet now text # ops) c =
     EmbeddingCache_Get hashText now text c \<bind> (\<lambda>(r, c). embed_run hashText ops c)"
| "embed_run hashText (LPut now text emb # ops) c =
     EmbeddingCache_Set hashText now text emb c \<bind> embed_run hashText ops"

lemma embed_run_returns:
  "ec_inv c \<Longrightarrow> length (ec_abs c) \<le> ec_cap (ec_conf c) \<Longrightarrow>
   \<exists>c'. embed_run h ops c = Some c' \<and> ec_inv c' \<and> ec_conf c' = ec_conf c
      \<and> length (ec_abs c') \<le> ec_cap (ec_conf c)"
proof (induction h ops c rule: embed_run.induct)
  case (2 h now tx ops c)
  from EC_GetKey_refines [OF "2.prems"(1), of now "h tx"] obtain r c1
    where c1: "EC_GetKey now (h tx) c = Some (r, c1)" "ec_inv c1" "ec_conf c1 = ec_conf c" by blast
  moreover from embed.step_bounded [OF "2.prems", of "LGet now (h tx)"] c1(1)
  have "length (ec_abs c1) \<le> ec_cap (ec_conf c)" by (simp add: ec_get_def)
  ultimately show ?case using "2.IH" [of "(r, c1)" r c1] by (simp add: EmbeddingCache_Get_def)
next
  case (3 h now tx emb ops c)
  from EC_SetKey_refines [OF "3.prems"(1), of now "h tx" emb] obtain c1
    where c1: "EC_SetKey now (h tx) emb c = Some c1" "ec_inv c1" "ec_conf c1 = ec_conf c" by blast
  moreover from embed.step_bounded [OF "3.prems", of "LPut now (h tx) emb"] c1(1)
  have "length (ec_abs c1) \<le> ec_cap (ec_conf c)" by (simp add: ec_put_def)
  ultimately show ?case using "3.IH" [of c1] by (simp add: EmbeddingCache_Set_def)
qed simp

text \<open>The hand-written linked list of the embedding cache is safe: any sequence of lookups and
  stores on a new cache runs to its end, with no nil pointer followed and every eviction loop
  finished, and leaves at most the configured number of entries, the map and the list in step.\<close>

theorem embedding_cache_runs:
  "\<exists>c. embed_run hashText ops (NewEmbeddingCache n ttl) = Some c \<and> linked c (nodes c)
     \<and> gm_len (ec_items c) = length (nodes c) \<and> gm_len (ec_items c) \<le> nat (if n \<le> 0 then 5000 else n)"
proof -
  let ?c = "NewEmbeddingCache n ttl"
  have "ec_inv ?c" "ec_abs ?c = []" using NewEmbeddingCache_inv by (simp_all add: ents_def lru_view_def)
  with embed_run_returns [of ?c hashText ops] obtain c
    where c: "embed_run hashText ops ?c = Some c" "ec_inv c" "length (ec_abs c) \<le> ec_cap (ec_conf ?c)" by auto
  then have "linked c (nodes c)" "gm_len (ec_items c) = length (nodes c)"
    by (auto simp: ec_inv_def ec_ok_def ents_def dest: indexed_len)
  moreover from c(3) have "length (nodes c) \<le> nat (if n \<le> 0 then 5000 else n)"
    by (simp add: ec_abs_def lru_view_def ents_def ec_cap_def ec_conf_def NewEmbeddingCache_def split: if_splits)
  ultimately show ?thesis using c(1) by (intro exI [of _ c]) simp
qed

text \<open>C32. The embedding cache refines a least-recently-used list: on every well-formed cache a
  lookup and a store return, and on the list of entries in the order of the pointers they do what
  the specification does: a fresh entry is returned and moved to the front, an expired one is
  removed, a new one is put in front after the last one was evicted when the cache is full.\<close>

theorem embedding_cache_refines_lru:
  assumes "ec_inv c"
  shows "(\<exists>r c'. EC_GetKey now key c = Some (r, c') \<and> ec_inv c'
      \<and> ec_abs c' = lru_get (ec_fresh (ec_conf c) now) key (ec_abs c)
      \<and> r = (case map_of (ec_abs c) key of None \<Rightarrow> None
             | Some e \<Rightarrow> if ec_fresh (ec_conf c) now e then Some (fst e) else None))
    \<and> (\<exists>c'. EC_SetKey now key emb c = Some c' \<and> ec_inv c'
      \<and> ec_abs c' = lru_put (nat (ec_max c)) key (emb, now) (ec_abs c))"
  using EC_GetKey_refines [OF assms, of now key] EC_SetKey_refines [OF assms, of now key emb]
  by (auto simp: ec_cap_def ec_conf_def ec_mk_def)

theorem embedding_cache_refines_lru_witness:
  "\<exists>c'. EC_SetKey 7 ''k'' [1, 2] (NewEmbeddingCache 3 0) = Some c' \<and> ec_inv c'
     \<and> ec_abs c' = [(''k'', [1, 2], 7)]"
  using embedding_cache_refines_lru [OF conjunct1 [OF NewEmbeddingCache_inv], of 7 "''k''" 3 0 "[1, 2]"]
    NewEmbeddingCache_inv [of 3 0]
  by (auto simp: lru_put_def ents_def lru_view_def) (simp add: NewEmbeddingCache_def)

end
