(* ===== verification/Json.thy ===== *)
theory Json
  imports Gateway_Prelude Float64 "HOL-Library.Monad_Syntax"
begin

text \<open>
  What the code uses of package \<^verbatim>\<open>encoding/json\<close>. A JSON text is modelled by its syntax tree, so
  white space and the spelling of escapes are not kept; a number without fraction and exponent is
  a \<open>JInt\<close>, any other a \<open>JDec\<close>. A \<^verbatim>\<open>json.RawMessage\<close> is the tree of its text, \<^term>\<open>None\<close> when it is
  empty. \<^verbatim>\<open>Marshal\<close> of a struct is \<open>encode_object\<close>, with \<^verbatim>\<open>omitempty\<close> written at each field;
  \<^verbatim>\<open>Unmarshal\<close> into a struct is \<open>decode_struct\<close>: it walks over the members in order, finds the
  field of each by exact name or else by case folding, ignores unknown members, keeps the old
  value for a \<^verbatim>\<open>null\<close> where Go does, and yields \<^term>\<open>None\<close> for a type error.
\<close>

section \<open>Trees\<close>

datatype json =
    JNull
  | JBool bool
  | JInt int
  | JDec rat
  | JStr string
  | JArr "json list"
  | JObj "(string \<times> json) list"

type_synonym raw = "json option"

section \<open>Marshal\<close>

definition json_float :: "f64 \<Rightarrow> json" where
  "json_float x = (if of_int \<lfloor>x\<rfloor> = x \<and> \<bar>x\<bar> < 10 ^ 21 then JInt \<lfloor>x\<rfloor> else JDec x)"

definition json_raw :: "raw \<Rightarrow> json" where
  "json_raw r = (case r of None \<Rightarrow> JNull | Some j \<Rightarrow> j)"

definition omit_string :: "string \<Rightarrow> json option" where
  "omit_string s = (if s = '''' then None else Some (JStr s))"

definition omit_bool :: "bool \<Rightarrow> json option" where
  "omit_bool b = (if b then Some (JBool True) else None)"

fun present :: "(string \<times> json option) list \<Rightarrow> (string \<times> json) list" where
  "present [] = []"
| "present ((k, None) # xs) = present xs"
| "present ((k, Some j) # xs) = (k, j) # present xs"

definition encode_object :: "(string \<times> json option) list \<Rightarrow> json" where
  "encode_object xs = JObj (present xs)"

section \<open>Unmarshal\<close>

type_synonym 'a decoder = "json \<Rightarrow> 'a \<Rightarrow> 'a option"

fun decode_string :: "string decoder" where
  "decode_string (JStr s) old = Some s"
| "decode_string JNull old = Some old"
| "decode_string _ old = None"

fun decode_bool :: "bool decoder" where
  "decode_bool (JBool b) old = Some b"
| "decode_bool JNull old = Some old"
| "decode_bool _ old = None"

fun decode_int :: "int decoder" where
  "decode_int (JInt n) old = (if in_int64 n then Some n else None)"
| "decode_int JNull old = Some old"
| "decode_int _ old = None"

fun decode_float :: "f64 decoder" where
  "decode_float (JInt n) old = Some (float64 (of_int n))"
| "decode_float (JDec x) old = Some (float64 x)"
| "decode_float JNull old = Some old"
| "decode_float _ old = None"

definition decode_raw :: "raw decoder" where
  "decode_raw j old = Some (Some j)"

fun decode_pointer :: "'a decoder \<Rightarrow> 'a \<Rightarrow> 'a option decoder" where
  "decode_pointer d z JNull old = Some None"
| "decode_pointer d z j old = map_option Some (d j (case old of None \<Rightarrow> z | Some v \<Rightarrow> v))"

fun decode_slice :: "'a decoder \<Rightarrow> 'a \<Rightarrow> 'a list decoder" where
  "decode_slice d z (JArr js) old = those (map (\<lambda>j. d j z) js)"
| "decode_slice d z JNull old = Some []"
| "decode_slice d z _ old = None"

definition find_field :: "(string \<times> 'a decoder) list \<Rightarrow> string \<Rightarrow> 'a decoder" where
  "find_field fs k =
     (case map_of fs k of
        Some d \<Rightarrow> d
      | None \<Rightarrow> (case filter (\<lambda>(n, d). strings_EqualFold n k) fs of
                   [] \<Rightarrow> (\<lambda>j v. Some v)
                 | (n, d) # _ \<Rightarrow> d))"

primrec decode_members :: "(string \<times> 'a decoder) list \<Rightarrow> (string \<times> json) list \<Rightarrow> 'a \<Rightarrow> 'a option" where
  "decode_members fs [] v = Some v"
| "decode_members fs (m # ms) v = find_field fs (fst m) (snd m) v \<bind> decode_members fs ms"

fun decode_struct :: "(string \<times> 'a decoder) list \<Rightarrow> 'a decoder" where
  "decode_struct fs (JObj ms) v = decode_members fs ms v"
| "decode_struct fs JNull v = Some v"
| "decode_struct fs _ v = None"

section \<open>Values of type any\<close>

text \<open>Decoding into an \<^verbatim>\<open>any\<close> makes every number a float and every object a map, in which the last of several equal keys counts;
  encoding that value again writes the keys in the order of their bytes. \<open>any_json\<close> is a text after both.\<close>

fun bytes_le :: "string \<Rightarrow> string \<Rightarrow> bool" where
  "bytes_le [] t = True"
| "bytes_le (c # s) [] = False"
| "bytes_le (c # s) (d # t) = (if c = d then bytes_le s t else (of_char c :: nat) < of_char d)"

fun insert_member :: "string \<times> 'a \<Rightarrow> (string \<times> 'a) list \<Rightarrow> (string \<times> 'a) list" where
  "insert_member m [] = [m]"
| "insert_member m (n # ns) = (if bytes_le (fst m) (fst n) then m # n # ns else n # insert_member m ns)"

definition map_members :: "(string \<times> 'a) list \<Rightarrow> (string, 'a) gomap" where
  "map_members ms = fold insert_member (fold (\<lambda>(k, v). gm_set k v) ms []) []"

primrec any_json :: "json \<Rightarrow> json" where
  "any_json JNull = JNull"
| "any_json (JBool b) = JBool b"
| "any_json (JInt n) = json_float (float_of_int n)"
| "any_json (JDec x) = json_float (float64 x)"
| "any_json (JStr s) = JStr s"
| "any_json (JArr js) = JArr (map any_json js)"
| "any_json (JObj ms) = JObj (map_members (map (map_prod (\<lambda>k. k) any_json) ms))"

text \<open>Decoding into a \<^verbatim>\<open>map[string]any\<close>.\<close>

fun decode_any_map :: "json \<Rightarrow> (string, json) gomap option" where
  "decode_any_map (JObj ms) = Some (map_members (map (map_prod (\<lambda>k. k) any_json) ms))"
| "decode_any_map _ = None"

section \<open>Decoding what was encoded\<close>

text \<open>One member of an encoded object, present or omitted.\<close>

definition decode_member :: "(string \<times> 'a decoder) list \<Rightarrow> string \<Rightarrow> json option \<Rightarrow> 'a \<Rightarrow> 'a option" where
  "decode_member fs k oj v = (case oj of None \<Rightarrow> Some v | Some j \<Rightarrow> find_field fs k j v)"

lemma decode_present_Cons:
  "decode_members fs (present ((k, oj) # xs)) v
     = decode_member fs k oj v \<bind> decode_members fs (present xs)"
  by (cases oj) (simp_all add: decode_member_def)

lemma decode_encode_object:
  "decode_struct fs (encode_object xs) v = decode_members fs (present xs) v"
  by (simp add: encode_object_def)

lemma decode_float_json_float:
  "float64 x = x \<Longrightarrow> decode_float (json_float x) old = Some x"
  by (auto simp: json_float_def)

lemma decode_int_JInt: "in_int64 n \<Longrightarrow> decode_int (JInt n) old = Some n"
  by simp

lemma decode_pointer_enc:
  "(\<And>v. j \<noteq> JNull \<and> d j v = Some x) \<Longrightarrow> decode_pointer d z j old = Some (Some x)"
  by (cases j) auto

lemma those_map_Some: "(\<And>x. x \<in> set xs \<Longrightarrow> f x = Some (g x)) \<Longrightarrow> those (map f xs) = Some (map g xs)"
  by (induction xs) auto

lemma decode_slice_enc:
  "(\<And>x. x \<in> set xs \<Longrightarrow> d (enc x) z = Some x) \<Longrightarrow> decode_slice d z (JArr (map enc xs)) old = Some xs"
  using those_map_Some [of xs "\<lambda>x. d (enc x) z" "\<lambda>x. x"] by (simp add: comp_def)

lemma json_float_not_null [simp]: "json_float x \<noteq> JNull"
  by (simp add: json_float_def)

lemma encode_object_not_null [simp]: "encode_object xs \<noteq> JNull"
  by (simp add: encode_object_def)

end
