(* ===== verification/Chat_Schema.thy ===== *)
theory Chat_Schema
  imports Json
begin

text \<open>
  The messages of the chat API, \<^verbatim>\<open>internal/schema/openai/chat.go\<close>: one record per struct, and what
  \<^verbatim>\<open>json.Marshal\<close> and \<^verbatim>\<open>json.Unmarshal\<close> do with them according to their tags. A pointer is an
  option, a nil slice is the empty list. The lemmas show that decoding inverts encoding, hence that
  different requests and responses have different JSON.
\<close>

section \<open>Requests\<close>

record ChatMessage =
  msg_Role :: string
  msg_Content :: raw
  msg_Name :: string
  msg_ToolCalls :: raw
  msg_ToolCallID :: string

record ChatCompletionRequest =
  req_Model :: string
  req_Messages :: "ChatMessage list"
  req_Temperature :: "f64 option"
  req_TopP :: "f64 option"
  req_N :: "int option"
  req_Stream :: bool
  req_Stop :: raw
  req_MaxTokens :: "int option"
  req_MaxCompletionTokens :: "int option"
  req_PresencePenalty :: "f64 option"
  req_FrequencyPenalty :: "f64 option"
  req_User :: string
  req_Tools :: raw
  req_ToolChoice :: raw
  req_ResponseFormat :: raw

section \<open>Responses\<close>

record Usage =
  us_PromptTokens :: int
  us_CompletionTokens :: int
  us_TotalTokens :: int

record Choice =
  ch_Index :: int
  ch_Message :: ChatMessage
  ch_FinishReason :: string

record ChatCompletionResponse =
  resp_ID :: string
  resp_Object :: string
  resp_Created :: int
  resp_Model :: string
  resp_Choices :: "Choice list"
  resp_Usage :: "Usage option"
  resp_SystemFingerprint :: string

record StreamDelta =
  sd_Role :: string
  sd_Content :: raw
  sd_ToolCalls :: raw

record StreamChoice =
  sc_Index :: int
  sc_Delta :: StreamDelta
  sc_FinishReason :: "string option"

record ChatCompletionStreamChunk =
  chunk_ID :: string
  chunk_Object :: string
  chunk_Created :: int
  chunk_Model :: string
  chunk_Choices :: "StreamChoice list"
  chunk_Usage :: "Usage option"
  chunk_SystemFingerprint :: string

record ErrorBody =
  err_Message :: string
  err_Type :: string
  err_Code :: string
  err_Details :: "(string, json) gomap"
  err_Stage :: string
  err_RequestID :: string
  err_AvailableModels :: "string list"

section \<open>Zero values\<close>

definition zero_ChatMessage :: ChatMessage where
  "zero_ChatMessage = \<lparr>msg_Role = '''', msg_Content = None, msg_Name = '''', msg_ToolCalls = None,
     msg_ToolCallID = ''''\<rparr>"

definition zero_Request :: ChatCompletionRequest where
  "zero_Request = \<lparr>req_Model = '''', req_Messages = [], req_Temperature = None, req_TopP = None,
     req_N = None, req_Stream = False, req_Stop = None, req_MaxTokens = None,
     req_MaxCompletionTokens = None, req_PresencePenalty = None, req_FrequencyPenalty = None,
     req_User = '''', req_Tools = None, req_ToolChoice = None, req_ResponseFormat = None\<rparr>"

definition zero_Usage :: Usage where
  "zero_Usage = \<lparr>us_PromptTokens = 0, us_CompletionTokens = 0, us_TotalTokens = 0\<rparr>"

definition zero_Choice :: Choice where
  "zero_Choice = \<lparr>ch_Index = 0, ch_Message = zero_ChatMessage, ch_FinishReason = ''''\<rparr>"

definition zero_Response :: ChatCompletionResponse where
  "zero_Response = \<lparr>resp_ID = '''', resp_Object = '''', resp_Created = 0, resp_Model = '''',
     resp_Choices = [], resp_Usage = None, resp_SystemFingerprint = ''''\<rparr>"

definition zero_StreamDelta :: StreamDelta where
  "zero_StreamDelta = \<lparr>sd_Role = '''', sd_Content = None, sd_ToolCalls = None\<rparr>"

lemmas zero_defs = zero_ChatMessage_def zero_Request_def zero_Usage_def zero_Choice_def zero_Response_def

section \<open>Marshal\<close>

definition marshal_ChatMessage :: "ChatMessage \<Rightarrow> json" where
  "marshal_ChatMessage m = encode_object
     [(''role'', Some (JStr (msg_Role m))), (''content'', msg_Content m),
      (''name'', omit_string (msg_Name m)), (''tool_calls'', msg_ToolCalls m),
      (''tool_call_id'', omit_string (msg_ToolCallID m))]"

definition marshal_Request :: "ChatCompletionRequest \<Rightarrow> json" where
  "marshal_Request r = encode_object
     [(''model'', Some (JStr (req_Model r))),
      (''messages'', Some (JArr (map marshal_ChatMessage (req_Messages r)))),
      (''temperature'', map_option json_float (req_Temperature r)),
      (''top_p'', map_option json_float (req_TopP r)),
      (''n'', map_option JInt (req_N r)),
      (''stream'', omit_bool (req_Stream r)),
      (''stop'', req_Stop r),
      (''max_tokens'', map_option JInt (req_MaxTokens r)),
      (''max_completion_tokens'', map_option JInt (req_MaxCompletionTokens r)),
      (''presence_penalty'', map_option json_float (req_PresencePenalty r)),
      (''frequency_penalty'', map_option json_float (req_FrequencyPenalty r)),
      (''user'', omit_string (req_User r)),
      (''tools'', req_Tools r),
      (''tool_choice'', req_ToolChoice r),
      (''response_format'', req_ResponseFormat r)]"

definition marshal_Usage :: "Usage \<Rightarrow> json" where
  "marshal_Usage u = encode_object
     [(''prompt_tokens'', Some (JInt (us_PromptTokens u))),
      (''completion_tokens'', Some (JInt (us_CompletionTokens u))),
      (''total_tokens'', Some (JInt (us_TotalTokens u)))]"

definition marshal_Choice :: "Choice \<Rightarrow> json" where
  "marshal_Choice c = encode_object
     [(''index'', Some (JInt (ch_Index c))), (''message'', Some (marshal_ChatMessage (ch_Message c))),
      (''finish_reason'', omit_string (ch_FinishReason c))]"

definition marshal_Response :: "ChatCompletionResponse \<Rightarrow> json" where
  "marshal_Response r = encode_object
     [(''id'', Some (JStr (resp_ID r))), (''object'', Some (JStr (resp_Object r))),
      (''created'', Some (JInt (resp_Created r))), (''model'', Some (JStr (resp_Model r))),
      (''choices'', Some (JArr (map marshal_Choice (resp_Choices r)))),
      (''usage'', map_option marshal_Usage (resp_Usage r)),
      (''system_fingerprint'', omit_string (resp_SystemFingerprint r))]"

section \<open>Unmarshal\<close>

definition fields_ChatMessage :: "(string \<times> ChatMessage decoder) list" where
  "fields_ChatMessage =
     [(''role'', \<lambda>j v. map_option (\<lambda>x. v\<lparr>msg_Role := x\<rparr>) (decode_string j (msg_Role v))),
      (''content'', \<lambda>j v. map_option (\<lambda>x. v\<lparr>msg_Content := x\<rparr>) (decode_raw j (msg_Content v))),
      (''name'', \<lambda>j v. map_option (\<lambda>x. v\<lparr>msg_Name := x\<rparr>) (decode_string j (msg_Name v))),
      (''tool_calls'', \<lambda>j v. map_option (\<lambda>x. v\<lparr>msg_ToolCalls := x\<rparr>) (decode_raw j (msg_ToolCalls v))),
      (''tool_call_id'', \<lambda>j v. map_option (\<lambda>x. v\<lparr>msg_ToolCallID := x\<rparr>) (decode_string j (msg_ToolCallID v)))]"

definition unmarshal_ChatMessage :: "ChatMessage decoder" where
  "unmarshal_ChatMessage = decode_struct fields_ChatMessage"

definition fields_Request :: "(string \<times> ChatCompletionRequest decoder) list" where
  "fields_Request =
     [(''model'', \<lambda>j v. map_option (\<lambda>x. v\<lparr>req_Model := x\<rparr>) (decode_string j (req_Model v))),
      (''messages'', \<lambda>j v. map_option (\<lambda>x. v\<lparr>req_Messages := x\<rparr>)
         (decode_slice unmarshal_ChatMessage zero_ChatMessage j (req_Messages v))),
      (''temperature'', \<lambda>j v. map_option (\<lambda>x. v\<lparr>req_Temperature := x\<rparr>) (decode_pointer decode_float 0 j (req_Temperature v))),
      (''top_p'', \<lambda>j v. map_option (\<lambda>x. v\<lparr>req_TopP := x\<rparr>) (decode_pointer decode_float 0 j (req_TopP v))),
      (''n'', \<lambda>j v. map_option (\<lambda>x. v\<lparr>req_N := x\<rparr>) (decode_pointer decode_int 0 j (req_N v))),
      (''stream'', \<lambda>j v. map_option (\<lambda>x. v\<lparr>req_Stream := x\<rparr>) (decode_bool j (req_Stream v))),
      (''stop'', \<lambda>j v. map_option (\<lambda>x. v\<lparr>req_Stop := x\<rparr>) (decode_raw j (req_Stop v))),
      (''max_tokens'', \<lambda>j v. map_option (\<lambda>x. v\<lparr>req_MaxTokens := x\<rparr>) (decode_pointer decode_int 0 j (req_MaxTokens v))),
      (''max_completion_tokens'', \<lambda>j v. map_option (\<lambda>x. v\<lparr>req_MaxCompletionTokens := x\<rparr>)
         (decode_pointer decode_int 0 j (req_MaxCompletionTokens v))),
      (''presence_penalty'', \<lambda>j v. map_option (\<lambda>x. v\<lparr>req_PresencePenalty := x\<rparr>)
         (decode_pointer decode_float 0 j (req_PresencePenalty v))),
      (''frequency_penalty'', \<lambda>j v. map_option (\<lambda>x. v\<lparr>req_FrequencyPenalty := x\<rparr>)
         (decode_pointer decode_float 0 j (req_FrequencyPenalty v))),
      (''user'', \<lambda>j v. map_option (\<lambda>x. v\<lparr>req_User := x\<rparr>) (decode_string j (req_User v))),
      (''tools'', \<lambda>j v. map_option (\<lambda>x. v\<lparr>req_Tools := x\<rparr>) (decode_raw j (req_Tools v))),
      (''tool_choice'', \<lambda>j v. map_option (\<lambda>x. v\<lparr>req_ToolChoice := x\<rparr>) (decode_raw j (req_ToolChoice v))),
      (''response_format'', \<lambda>j v. map_option (\<lambda>x. v\<lparr>req_ResponseFormat := x\<rparr>) (decode_raw j (req_ResponseFormat v)))]"

definition unmarshal_Request :: "ChatCompletionRequest decoder" where
  "unmarshal_Request = decode_struct fields_Request"

definition fields_Usage :: "(string \<times> Usage decoder) list" where
  "fields_Usage =
     [(''prompt_tokens'', \<lambda>j v. map_option (\<lambda>x. v\<lparr>us_PromptTokens := x\<rparr>) (decode_int j (us_PromptTokens v))),
      (''completion_tokens'', \<lambda>j v. map_option (\<lambda>x. v\<lparr>us_CompletionTokens := x\<rparr>) (decode_int j (us_CompletionTokens v))),
      (''total_tokens'', \<lambda>j v. map_option (\<lambda>x. v\<lparr>us_TotalTokens := x\<rparr>) (decode_int j (us_TotalTokens v)))]"

definition unmarshal_Usage :: "Usage decoder" where
  "unmarshal_Usage = decode_struct fields_Usage"

definition fields_Choice :: "(string \<times> Choice decoder) list" where
  "fields_Choice =
     [(''index'', \<lambda>j v. map_option (\<lambda>x. v\<lparr>ch_Index := x\<rparr>) (decode_int j (ch_Index v))),
      (''message'', \<lambda>j v. map_option (\<lambda>x. v\<lparr>ch_Message := x\<rparr>) (unmarshal_ChatMessage j (ch_Message v))),
      (''finish_reason'', \<lambda>j v. map_option (\<lambda>x. v\<lparr>ch_FinishReason := x\<rparr>) (decode_string j (ch_FinishReason v)))]"

definition unmarshal_Choice :: "Choice decoder" where
  "unmarshal_Choice = decode_struct fields_Choice"

definition fields_Response :: "(string \<times> ChatCompletionResponse decoder) list" where
  "fields_Response =
     [(''id'', \<lambda>j v. map_option (\<lambda>x. v\<lparr>resp_ID := x\<rparr>) (decode_string j (resp_ID v))),
      (''object'', \<lambda>j v. map_option (\<lambda>x. v\<lparr>resp_Object := x\<rparr>) (decode_string j (resp_Object v))),
      (''created'', \<lambda>j v. map_option (\<lambda>x. v\<lparr>resp_Created := x\<rparr>) (decode_int j (resp_Created v))),
      (''model'', \<lambda>j v. map_option (\<lambda>x. v\<lparr>resp_Model := x\<rparr>) (decode_string j (resp_Model v))),
      (''choices'', \<lambda>j v. map_option (\<lambda>x. v\<lparr>resp_Choices := x\<rparr>)
         (decode_slice unmarshal_Choice zero_Choice j (resp_Choices v))),
      (''usage'', \<lambda>j v. map_option (\<lambda>x. v\<lparr>resp_Usage := x\<rparr>)
         (decode_pointer unmarshal_Usage zero_Usage j (resp_Usage v))),
      (''system_fingerprint'', \<lambda>j v. map_option (\<lambda>x. v\<lparr>resp_SystemFingerprint := x\<rparr>)
         (decode_string j (resp_SystemFingerprint v)))]"

definition unmarshal_Response :: "ChatCompletionResponse decoder" where
  "unmarshal_Response = decode_struct fields_Response"

section \<open>Round trips\<close>

text \<open>What a Go value of these types always satisfies: integers have 64 bits and a \<^verbatim>\<open>float64\<close> is one.\<close>

definition is_f64 :: "f64 option \<Rightarrow> bool" where
  "is_f64 x = (case x of None \<Rightarrow> True | Some v \<Rightarrow> float64 v = v)"

definition is_int :: "int option \<Rightarrow> bool" where
  "is_int x = (case x of None \<Rightarrow> True | Some v \<Rightarrow> in_int64 v)"

definition Request_ok :: "ChatCompletionRequest \<Rightarrow> bool" where
  "Request_ok r \<longleftrightarrow> is_f64 (req_Temperature r) \<and> is_f64 (req_TopP r) \<and> is_int (req_N r)
     \<and> is_int (req_MaxTokens r) \<and> is_int (req_MaxCompletionTokens r)
     \<and> is_f64 (req_PresencePenalty r) \<and> is_f64 (req_FrequencyPenalty r)"

definition Usage_ok :: "Usage \<Rightarrow> bool" where
  "Usage_ok u \<longleftrightarrow> in_int64 (us_PromptTokens u) \<and> in_int64 (us_CompletionTokens u) \<and> in_int64 (us_TotalTokens u)"

definition Response_ok :: "ChatCompletionResponse \<Rightarrow> bool" where
  "Response_ok r \<longleftrightarrow> in_int64 (resp_Created r) \<and> list_all (\<lambda>c. in_int64 (ch_Index c)) (resp_Choices r)
     \<and> (case resp_Usage r of None \<Rightarrow> True | Some u \<Rightarrow> Usage_ok u)"

text \<open>Each kind of member puts back the value it was encoded from, when the field held its zero.\<close>

lemma member_string: "find_field fs k = (\<lambda>j v. map_option (\<lambda>x. up x v) (decode_string j (sel v))) \<Longrightarrow>
  up (sel v) v = v \<Longrightarrow> sel v = '''' \<Longrightarrow> decode_member fs k (omit_string s) v = Some (up s v)"
  by (cases "s = ''''") (auto simp: decode_member_def omit_string_def)

lemma member_raw: "find_field fs k = (\<lambda>j v. map_option (\<lambda>x. up x v) (decode_raw j (sel v))) \<Longrightarrow>
  up (sel v) v = v \<Longrightarrow> sel v = None \<Longrightarrow> decode_member fs k r v = Some (up r v)"
  by (cases r) (auto simp: decode_member_def decode_raw_def)

lemma member_float: "find_field fs k = (\<lambda>j v. map_option (\<lambda>x. up x v) (decode_pointer decode_float 0 j (sel v))) \<Longrightarrow>
  up (sel v) v = v \<Longrightarrow> sel v = None \<Longrightarrow> is_f64 x \<Longrightarrow>
  decode_member fs k (map_option json_float x) v = Some (up x v)"
  by (cases x) (auto simp: decode_member_def is_f64_def decode_float_json_float decode_pointer_enc)

lemma member_int: "find_field fs k = (\<lambda>j v. map_option (\<lambda>x. up x v) (decode_pointer decode_int 0 j (sel v))) \<Longrightarrow>
  up (sel v) v = v \<Longrightarrow> sel v = None \<Longrightarrow> is_int x \<Longrightarrow>
  decode_member fs k (map_option JInt x) v = Some (up x v)"
  by (cases x) (auto simp: decode_member_def is_int_def)

lemma member_bool: "find_field fs k = (\<lambda>j v. map_option (\<lambda>x. up x v) (decode_bool j (sel v))) \<Longrightarrow>
  up (sel v) v = v \<Longrightarrow> \<not> sel v \<Longrightarrow> decode_member fs k (omit_bool b) v = Some (up b v)"
  by (cases b) (auto simp: decode_member_def omit_bool_def)

lemma unmarshal_marshal_ChatMessage:
  "unmarshal_ChatMessage (marshal_ChatMessage m) zero_ChatMessage = Some m"
proof -
  have 1: "decode_member fields_ChatMessage ''role'' (Some (JStr x)) v = Some (v\<lparr>msg_Role := x\<rparr>)" for x v
    by (simp add: decode_member_def find_field_def fields_ChatMessage_def)
  have 2: "msg_Content v = None \<Longrightarrow> decode_member fields_ChatMessage ''content'' x v = Some (v\<lparr>msg_Content := x\<rparr>)" for x v
    by (rule member_raw [where sel = msg_Content]) (simp_all add: find_field_def fields_ChatMessage_def)
  have 3: "msg_Name v = '''' \<Longrightarrow> decode_member fields_ChatMessage ''name'' (omit_string x) v = Some (v\<lparr>msg_Name := x\<rparr>)" for x v
    by (rule member_string [where sel = msg_Name]) (simp_all add: find_field_def fields_ChatMessage_def)
  have 4: "msg_ToolCalls v = None \<Longrightarrow> decode_member fields_ChatMessage ''tool_calls'' x v = Some (v\<lparr>msg_ToolCalls := x\<rparr>)" for x v
    by (rule member_raw [where sel = msg_ToolCalls]) (simp_all add: find_field_def fields_ChatMessage_def)
  have 5: "msg_ToolCallID v = '''' \<Longrightarrow> decode_member fields_ChatMessage ''tool_call_id'' (omit_string x) v = Some (v\<lparr>msg_ToolCallID := x\<rparr>)" for x v
    by (rule member_string [where sel = msg_ToolCallID]) (simp_all add: find_field_def fields_ChatMessage_def)
  show ?thesis
    unfolding unmarshal_ChatMessage_def marshal_ChatMessage_def decode_encode_object decode_present_Cons
    by (simp add: 1 2 3 4 5 zero_ChatMessage_def)
qed

lemma decode_ChatMessages:
  "decode_slice unmarshal_ChatMessage zero_ChatMessage (JArr (map marshal_ChatMessage ms)) old = Some ms"
  by (rule decode_slice_enc) (simp add: unmarshal_marshal_ChatMessage)

lemma find_Request:
  "find_field fields_Request ''model'' = (\<lambda>j v. map_option (\<lambda>x. v\<lparr>req_Model := x\<rparr>) (decode_string j (req_Model v)))"
  "find_field fields_Request ''messages'' = (\<lambda>j v. map_option (\<lambda>x. v\<lparr>req_Messages := x\<rparr>)
     (decode_slice unmarshal_ChatMessage zero_ChatMessage j (req_Messages v)))"
  "find_field fields_Request ''temperature'' = (\<lambda>j v. map_option (\<lambda>x. v\<lparr>req_Temperature := x\<rparr>) (decode_pointer decode_float 0 j (req_Temperature v)))"
  "find_field fields_Request ''top_p'' = (\<lambda>j v. map_option (\<lambda>x. v\<lparr>req_TopP := x\<rparr>) (decode_pointer decode_float 0 j (req_TopP v)))"
  "find_field fields_Request ''n'' = (\<lambda>j v. map_option (\<lambda>x. v\<lparr>req_N := x\<rparr>) (decode_pointer decode_int 0 j (req_N v)))"
  "find_field fields_Request ''stream'' = (\<lambda>j v. map_option (\<lambda>x. v\<lparr>req_Stream := x\<rparr>) (decode_bool j (req_Stream v)))"
  "find_field fields_Request ''stop'' = (\<lambda>j v. map_option (\<lambda>x. v\<lparr>req_Stop := x\<rparr>) (decode_raw j (req_Stop v)))"
  "find_field fields_Request ''max_tokens'' = (\<lambda>j v. map_option (\<lambda>x. v\<lparr>req_MaxTokens := x\<rparr>) (decode_pointer decode_int 0 j (req_MaxTokens v)))"
  by (simp_all add: find_field_def fields_Request_def)

lemma find_Request_rest:
  "find_field fields_Request ''max_completion_tokens'' = (\<lambda>j v. map_option (\<lambda>x. v\<lparr>req_MaxCompletionTokens := x\<rparr>)
     (decode_pointer decode_int 0 j (req_MaxCompletionTokens v)))"
  "find_field fields_Request ''presence_penalty'' = (\<lambda>j v. map_option (\<lambda>x. v\<lparr>req_PresencePenalty := x\<rparr>)
     (decode_pointer decode_float 0 j (req_PresencePenalty v)))"
  "find_field fields_Request ''frequency_penalty'' = (\<lambda>j v. map_option (\<lambda>x. v\<lparr>req_FrequencyPenalty := x\<rparr>)
     (decode_pointer decode_float 0 j (req_FrequencyPenalty v)))"
  "find_field fields_Request ''user'' = (\<lambda>j v. map_option (\<lambda>x. v\<lparr>req_User := x\<rparr>) (decode_string j (req_User v)))"
  "find_field fields_Request ''tools'' = (\<lambda>j v. map_option (\<lambda>x. v\<lparr>req_Tools := x\<rparr>) (decode_raw j (req_Tools v)))"
  "find_field fields_Request ''tool_choice'' = (\<lambda>j v. map_option (\<lambda>x. v\<lparr>req_ToolChoice := x\<rparr>) (decode_raw j (req_ToolChoice v)))"
  "find_field fields_Request ''response_format'' = (\<lambda>j v. map_option (\<lambda>x. v\<lparr>req_ResponseFormat := x\<rparr>) (decode_raw j (req_ResponseFormat v)))"
  by (simp_all add: find_field_def fields_Request_def)

lemma members_Request:
  "decode_member fields_Request ''model'' (Some (JStr s)) v = Some (v\<lparr>req_Model := s\<rparr>)"
  "decode_member fields_Request ''messages'' (Some (JArr (map marshal_ChatMessage ms))) v = Some (v\<lparr>req_Messages := ms\<rparr>)"
  by (simp_all only: decode_member_def option.case find_Request decode_string.simps decode_ChatMessages option.map)

lemmas request_members =
  member_float [OF find_Request(3)] member_float [OF find_Request(4)] member_int [OF find_Request(5)]
  member_bool [OF find_Request(6)] member_raw [OF find_Request(7)] member_int [OF find_Request(8)]
  member_int [OF find_Request_rest(1)] member_float [OF find_Request_rest(2)]
  member_float [OF find_Request_rest(3)] member_string [OF find_Request_rest(4)]
  member_raw [OF find_Request_rest(5)] member_raw [OF find_Request_rest(6)]
  member_raw [OF find_Request_rest(7)]

lemma request_decodes:
  assumes "Request_ok r"
  shows "unmarshal_Request (marshal_Request r) zero_Request = Some r"
proof -
  from assms have ok: "is_f64 (req_Temperature r)" "is_f64 (req_TopP r)" "is_int (req_N r)"
    "is_int (req_MaxTokens r)" "is_int (req_MaxCompletionTokens r)"
    "is_f64 (req_PresencePenalty r)" "is_f64 (req_FrequencyPenalty r)" by (simp_all add: Request_ok_def)
  show ?thesis
    unfolding unmarshal_Request_def marshal_Request_def decode_encode_object decode_present_Cons zero_Request_def
    by (simp add: members_Request request_members ok)
qed

lemma unmarshal_marshal_Usage: "Usage_ok u \<Longrightarrow> unmarshal_Usage (marshal_Usage u) v = Some u"
  unfolding unmarshal_Usage_def marshal_Usage_def decode_encode_object decode_present_Cons
  by (simp add: decode_member_def find_field_def fields_Usage_def Usage_ok_def)

lemma marshal_Usage_not_null [simp]: "marshal_Usage u \<noteq> JNull"
  by (simp add: marshal_Usage_def)

lemma unmarshal_marshal_Choice:
  assumes "in_int64 (ch_Index c)"
  shows "unmarshal_Choice (marshal_Choice c) zero_Choice = Some c"
proof -
  have 1: "decode_member fields_Choice ''index'' (Some (JInt (ch_Index c))) v = Some (v\<lparr>ch_Index := ch_Index c\<rparr>)" for v
    using assms by (simp add: decode_member_def find_field_def fields_Choice_def)
  have 2: "ch_Message v = zero_ChatMessage \<Longrightarrow>
    decode_member fields_Choice ''message'' (Some (marshal_ChatMessage m)) v = Some (v\<lparr>ch_Message := m\<rparr>)" for m v
    by (simp add: decode_member_def find_field_def fields_Choice_def unmarshal_marshal_ChatMessage)
  have 3: "ch_FinishReason v = '''' \<Longrightarrow>
    decode_member fields_Choice ''finish_reason'' (omit_string x) v = Some (v\<lparr>ch_FinishReason := x\<rparr>)" for x v
    by (rule member_string [where sel = ch_FinishReason]) (simp_all add: find_field_def fields_Choice_def)
  show ?thesis
    unfolding unmarshal_Choice_def marshal_Choice_def decode_encode_object decode_present_Cons
    by (simp add: 1 2 3 zero_Choice_def)
qed

lemma decode_Choices:
  "list_all (\<lambda>c. in_int64 (ch_Index c)) cs \<Longrightarrow>
   decode_slice unmarshal_Choice zero_Choice (JArr (map marshal_Choice cs)) old = Some cs"
  by (rule decode_slice_enc) (simp add: unmarshal_marshal_Choice list_all_iff)

lemma find_Response:
  "find_field fields_Response ''choices'' = (\<lambda>j v. map_option (\<lambda>x. v\<lparr>resp_Choices := x\<rparr>)
     (decode_slice unmarshal_Choice zero_Choice j (resp_Choices v)))"
  "find_field fields_Response ''usage'' = (\<lambda>j v. map_option (\<lambda>x. v\<lparr>resp_Usage := x\<rparr>)
     (decode_pointer unmarshal_Usage zero_Usage j (resp_Usage v)))"
  "find_field fields_Response ''system_fingerprint'' = (\<lambda>j v. map_option (\<lambda>x. v\<lparr>resp_SystemFingerprint := x\<rparr>)
     (decode_string j (resp_SystemFingerprint v)))"
  by (simp_all add: find_field_def fields_Response_def)

lemma members_Response:
  "decode_member fields_Response ''id'' (Some (JStr s)) v = Some (v\<lparr>resp_ID := s\<rparr>)"
  "decode_member fields_Response ''object'' (Some (JStr s)) v = Some (v\<lparr>resp_Object := s\<rparr>)"
  "in_int64 n \<Longrightarrow> decode_member fields_Response ''created'' (Some (JInt n)) v = Some (v\<lparr>resp_Created := n\<rparr>)"
  "decode_member fields_Response ''model'' (Some (JStr s)) v = Some (v\<lparr>resp_Model := s\<rparr>)"
  by (simp_all add: decode_member_def find_field_def fields_Response_def)

lemma member_choices:
  "list_all (\<lambda>c. in_int64 (ch_Index c)) cs \<Longrightarrow>
     decode_member fields_Response ''choices'' (Some (JArr (map marshal_Choice cs))) v = Some (v\<lparr>resp_Choices := cs\<rparr>)"
  by (simp only: decode_member_def option.case find_Response decode_Choices option.map)

lemma member_usage:
  assumes "resp_Usage v = None" and "case u of None \<Rightarrow> True | Some u \<Rightarrow> Usage_ok u"
  shows "decode_member fields_Response ''usage'' (map_option marshal_Usage u) v = Some (v\<lparr>resp_Usage := u\<rparr>)"
proof (cases u)
  case None
  with assms(1) show ?thesis by (simp add: decode_member_def)
next
  case (Some u')
  with assms(2) have "decode_pointer unmarshal_Usage zero_Usage (marshal_Usage u') old = Some (Some u')" for old
    by (intro decode_pointer_enc) (simp add: unmarshal_marshal_Usage)
  with Some show ?thesis by (simp add: decode_member_def find_Response)
qed

lemma response_round_trip:
  assumes "Response_ok r"
  shows "unmarshal_Response (marshal_Response r) zero_Response = Some r"
  using assms unfolding unmarshal_Response_def marshal_Response_def decode_encode_object
    decode_present_Cons zero_Response_def Response_ok_def
  by (simp add: members_Response member_choices member_usage member_string [OF find_Response(3)])

text \<open>C30. The JSON of the API loses nothing: decoding what \<^verbatim>\<open>json.Marshal\<close> wrote for a chat request, or
  for a chat response, gives it back with every field, omitted ones included.\<close>

theorem schema_round_trip:
  assumes "Request_ok r" and "Response_ok s"
  shows "unmarshal_Request (marshal_Request r) zero_Request = Some r
    \<and> unmarshal_Response (marshal_Response s) zero_Response = Some s"
  using assms by (simp add: request_decodes response_round_trip)

theorem schema_round_trip_witness:
  "let r = zero_Request\<lparr>req_Model := ''gpt-4o'', req_Temperature := Some (1 / 2), req_N := Some 1,
         req_Messages := [zero_ChatMessage\<lparr>msg_Role := ''user'', msg_Content := Some (JStr ''hi'')\<rparr>]\<rparr>
   in Request_ok r \<and> unmarshal_Request (marshal_Request r) zero_Request = Some r"
proof -
  have "float64 (1 / 2) = 1 / 2" by code_simp
  moreover have "Response_ok zero_Response"
    by (simp add: Response_ok_def zero_Response_def in_int64_def min_int64_def max_int64_def)
  ultimately show ?thesis
    using schema_round_trip [of "zero_Request\<lparr>req_Model := ''gpt-4o'', req_Temperature := Some (1 / 2),
        req_N := Some 1, req_Messages := [zero_ChatMessage\<lparr>msg_Role := ''user'', msg_Content := Some (JStr ''hi'')\<rparr>]\<rparr>"
        zero_Response]
    by (simp add: Request_ok_def zero_Request_def is_f64_def is_int_def in_int64_def min_int64_def max_int64_def)
qed

end
