(* ===== verification/Response_Cache.thy ===== *)
theory Response_Cache
  imports Chat_Schema Lru_Spec
begin

text \<open>
  The cache of exact requests, \<^verbatim>\<open>internal/cache/exact.go\<close>, and the one kept in Redis,
  \<^verbatim>\<open>internal/cache/redis.go\<close>. An element of a \<^verbatim>\<open>container/list\<close> is a number, its address;
  \<open>lru_next\<close> is an address not used yet. SHA-256 followed by the hexadecimal encoding is an
  argument \<open>sha\<close>, applied to the tree of the JSON text. A clock reading is an argument.

  The lemmas show that \<^verbatim>\<open>ExactLRU\<close> implements the specification of \<^verbatim>\<open>Lru_Spec\<close>, and that a cache key
  identifies the request up to \<^verbatim>\<open>stream\<close>.
\<close>

section \<open>Keys and values\<close>

definition HashRequest :: "(json \<Rightarrow> string) \<Rightarrow> ChatCompletionRequest \<Rightarrow> string" where
  "HashRequest sha req = sha (marshal_Request (req\<lparr>req_Stream := False\<rparr>))"

definition cloneResponse :: "ChatCompletionResponse option \<Rightarrow> ChatCompletionResponse option" where
  "cloneResponse resp =
     (case resp of
        None \<Rightarrow> None
      | Some r \<Rightarrow> (case unmarshal_Response (marshal_Response r) zero_Response of
                    None \<Rightarrow> Some r
                  | Some cloned \<Rightarrow> Some cloned))"

section \<open>The exact cache\<close>

record entry =
  en_key :: string
  en_value :: "ChatCompletionResponse option"
  en_expiresAt :: gotime

record ExactLRU =
  lru_maxEntries :: int
  lru_items :: "(string, nat) gomap"
  lru_order :: "(nat \<times> entry) list"
  lru_next :: nat

definition NewExactLRU :: "int \<Rightarrow> ExactLRU" where
  "NewExactLRU maxEntries =
     \<lparr>lru_maxEntries = (if maxEntries \<le> 0 then 10000 else maxEntries),
      lru_items = [], lru_order = [], lru_next = 0\<rparr>"

text \<open>The value and whether the key was found; the error is always nil.\<close>

definition ExactLRU_Get ::
  "gotime \<Rightarrow> string \<Rightarrow> ExactLRU \<Rightarrow> ChatCompletionResponse option option \<times> ExactLRU" where
  "ExactLRU_Get now key c =
     (case gm_get (lru_items c) key of
        None \<Rightarrow> (None, c)
      | Some element \<Rightarrow>
          (case map_of (lru_order c) element of
             None \<Rightarrow> (None, c)
           | Some item \<Rightarrow>
               if \<not> time_IsZero (en_expiresAt item) \<and> time_After now (en_expiresAt item)
               then (None, c\<lparr>lru_order := lru_drop element (lru_order c),
                             lru_items := gm_delete key (lru_items c)\<rparr>)
               else (Some (cloneResponse (en_value item)),
                     c\<lparr>lru_order := lru_touch element (lru_order c)\<rparr>)))"

function evictBack :: "ExactLRU \<Rightarrow> ExactLRU" where
  "evictBack c =
     (if lru_maxEntries c < int (gm_len (lru_items c))
      then if lru_order c = [] then c
           else evictBack (c\<lparr>lru_items := gm_delete (en_key (snd (last (lru_order c)))) (lru_items c),
                             lru_order := butlast (lru_order c)\<rparr>)
      else c)"
  by pat_completeness auto
termination
  by (relation "measure (\<lambda>c. length (lru_order c))") auto

declare evictBack.simps [simp del]

definition expiry :: "gotime \<Rightarrow> duration \<Rightarrow> gotime" where
  "expiry now ttl = (if 0 < ttl then time_Add now ttl else time_zero)"

definition ExactLRU_Set ::
  "gotime \<Rightarrow> string \<Rightarrow> ChatCompletionResponse option \<times> duration \<Rightarrow> ExactLRU \<Rightarrow> ExactLRU" where
  "ExactLRU_Set now key = (\<lambda>(value, ttl) c.
     let expiresAt = expiry now ttl
     in case gm_get (lru_items c) key of
          Some element \<Rightarrow>
            (case map_of (lru_order c) element of
               None \<Rightarrow> c
             | Some item \<Rightarrow>
                 c\<lparr>lru_order := (element, item\<lparr>en_value := cloneResponse value, en_expiresAt := expiresAt\<rparr>)
                     # lru_drop element (lru_order c)\<rparr>)
        | None \<Rightarrow>
            evictBack
              (c\<lparr>lru_order := (lru_next c, \<lparr>en_key = key, en_value = cloneResponse value,
                                            en_expiresAt = expiresAt\<rparr>) # lru_order c,
                 lru_items := gm_set key (lru_next c) (lru_items c),
                 lru_next := Suc (lru_next c)\<rparr>))"

section \<open>Refinement of the specification\<close>

definition exact_inv :: "ExactLRU \<Rightarrow> bool" where
  "exact_inv c \<longleftrightarrow> 0 < lru_maxEntries c \<and> indexed en_key (lru_items c) (lru_order c)
     \<and> (\<forall>p \<in> set (lru_order c). fst p < lru_next c)"

definition exact_abs :: "ExactLRU \<Rightarrow> (string \<times> ChatCompletionResponse option \<times> gotime) list" where
  "exact_abs c = lru_view en_key (\<lambda>e. (en_value e, en_expiresAt e)) (lru_order c)"

definition exact_fresh :: "int \<Rightarrow> gotime \<Rightarrow> ChatCompletionResponse option \<times> gotime \<Rightarrow> bool" where
  "exact_fresh n now e \<longleftrightarrow> snd e = time_zero \<or> now \<le> snd e"

definition exact_view :: "ChatCompletionResponse option \<times> gotime \<Rightarrow> ChatCompletionResponse option" where
  "exact_view e = cloneResponse (fst e)"

definition exact_mk ::
  "int \<Rightarrow> gotime \<Rightarrow> ChatCompletionResponse option \<times> duration \<Rightarrow> ChatCompletionResponse option \<times> gotime" where
  "exact_mk n now p = (cloneResponse (fst p), expiry now (snd p))"

lemma evictBack_spec:
  assumes "indexed en_key (lru_items c) (lru_order c)" and "0 < lru_maxEntries c"
  shows "lru_order (evictBack c) = take (nat (lru_maxEntries c)) (lru_order c)
    \<and> indexed en_key (lru_items (evictBack c)) (take (nat (lru_maxEntries c)) (lru_order c))
    \<and> lru_maxEntries (evictBack c) = lru_maxEntries c \<and> lru_next (evictBack c) = lru_next c"
  using assms
proof (induction c rule: evictBack.induct)
  case (1 c)
  note len = indexed_len [OF "1.prems"(1)]
  show ?case
  proof (cases "lru_maxEntries c < int (gm_len (lru_items c)) \<and> lru_order c \<noteq> []")
    case True
    let ?c = "c\<lparr>lru_items := gm_delete (en_key (snd (last (lru_order c)))) (lru_items c),
                lru_order := butlast (lru_order c)\<rparr>"
    have "evictBack c = evictBack ?c" using True by (simp add: evictBack.simps [of c])
    moreover have "take (nat (lru_maxEntries c)) (butlast (lru_order c)) = take (nat (lru_maxEntries c)) (lru_order c)"
    proof -
      from True len have "nat (lru_maxEntries c) \<le> length (lru_order c) - 1" by linarith
      then show ?thesis by (simp add: butlast_conv_take min_absorb1)
    qed
    ultimately show ?thesis
      using "1.IH" "1.prems" True indexed_butlast [OF "1.prems"(1)] by simp
  next
    case False
    then have "evictBack c = c" by (auto simp: evictBack.simps [of c])
    moreover from False len "1.prems"(2) have "take (nat (lru_maxEntries c)) (lru_order c) = lru_order c" by auto
    ultimately show ?thesis using "1.prems" by simp
  qed
qed

lemma exact_Get_hit:
  assumes "exact_inv c" and "gm_get (lru_items c) key = Some i"
  shows "\<exists>e. map_of (lru_order c) i = Some e \<and> en_key e = key
    \<and> map_of (exact_abs c) key = Some (en_value e, en_expiresAt e)"
  using assms indexed_Some [of en_key "lru_items c" "lru_order c" key i "\<lambda>e. (en_value e, en_expiresAt e)"]
  by (simp add: exact_inv_def exact_abs_def)

lemma exact_abs_touch:
  assumes "exact_inv c" and "gm_get (lru_items c) key = Some i" and "map_of (lru_order c) i = Some e"
    and "en_key e' = key"
  shows "exact_abs (c\<lparr>lru_order := (i, e') # lru_drop i (lru_order c)\<rparr>)
      = (key, en_value e', en_expiresAt e') # lru_drop key (exact_abs c)"
    and "exact_inv (c\<lparr>lru_order := (i, e') # lru_drop i (lru_order c)\<rparr>)"
proof -
  from assms(1) have ix: "indexed en_key (lru_items c) (lru_order c)" by (simp add: exact_inv_def)
  show "exact_abs (c\<lparr>lru_order := (i, e') # lru_drop i (lru_order c)\<rparr>)
      = (key, en_value e', en_expiresAt e') # lru_drop key (exact_abs c)"
    using indexed_drop(1) [OF ix assms(2), of "\<lambda>e. (en_value e, en_expiresAt e)"] assms(4)
    by (simp add: exact_abs_def lru_view_def)
  have "\<forall>p \<in> set ((i, e') # lru_drop i (lru_order c)). fst p < lru_next c"
    using assms(1) map_of_SomeD [OF assms(3)] by (auto simp: exact_inv_def lru_drop_def)
  with indexed_replace [OF ix, of e' i] assms(1,2,4)
  show "exact_inv (c\<lparr>lru_order := (i, e') # lru_drop i (lru_order c)\<rparr>)"
    by (simp add: exact_inv_def)
qed

lemma exact_abs_drop:
  assumes "exact_inv c" and "gm_get (lru_items c) key = Some i"
  shows "exact_abs (c\<lparr>lru_order := lru_drop i (lru_order c), lru_items := gm_delete key (lru_items c)\<rparr>)
      = lru_drop key (exact_abs c)"
    and "exact_inv (c\<lparr>lru_order := lru_drop i (lru_order c), lru_items := gm_delete key (lru_items c)\<rparr>)"
  using assms indexed_drop [of en_key "lru_items c" "lru_order c" key i]
  by (auto simp: exact_abs_def exact_inv_def lru_drop_def)

lemma exact_Get_refines:
  assumes "exact_inv c"
  shows "fst (ExactLRU_Get now key c) = (case map_of (exact_abs c) key of None \<Rightarrow> None
      | Some e \<Rightarrow> if exact_fresh (lru_maxEntries c) now e then Some (exact_view e) else None)
    \<and> exact_abs (snd (ExactLRU_Get now key c))
        = lru_get (exact_fresh (lru_maxEntries c) now) key (exact_abs c)
    \<and> exact_inv (snd (ExactLRU_Get now key c))
    \<and> lru_maxEntries (snd (ExactLRU_Get now key c)) = lru_maxEntries c"
proof (cases "gm_get (lru_items c) key")
  case None
  with assms indexed_None [of en_key "lru_items c" "lru_order c" key "\<lambda>e. (en_value e, en_expiresAt e)"]
  have "map_of (exact_abs c) key = None" by (simp add: exact_inv_def exact_abs_def)
  with None assms show ?thesis by (simp add: ExactLRU_Get_def lru_get_def)
next
  case (Some i)
  from exact_Get_hit [OF assms Some] obtain e where e: "map_of (lru_order c) i = Some e" "en_key e = key"
    "map_of (exact_abs c) key = Some (en_value e, en_expiresAt e)" by blast
  have fr: "exact_fresh (lru_maxEntries c) now (en_value e, en_expiresAt e) \<longleftrightarrow>
      \<not> (\<not> time_IsZero (en_expiresAt e) \<and> time_After now (en_expiresAt e))"
    by (auto simp: exact_fresh_def time_defs)
  show ?thesis
  proof (cases "exact_fresh (lru_maxEntries c) now (en_value e, en_expiresAt e)")
    case True
    then have "ExactLRU_Get now key c = (Some (cloneResponse (en_value e)),
        c\<lparr>lru_order := (i, e) # lru_drop i (lru_order c)\<rparr>)"
      using Some e fr by (simp add: ExactLRU_Get_def lru_touch_def)
    with True exact_abs_touch [OF assms Some e(1,2)] e show ?thesis
      by (simp add: lru_get_def lru_touch_def exact_view_def)
  next
    case False
    with Some e fr exact_abs_drop [OF assms Some] show ?thesis
      by (simp add: ExactLRU_Get_def lru_get_def)
  qed
qed

lemma exact_Set_refines:
  assumes "exact_inv c"
  shows "exact_abs (ExactLRU_Set now key p c)
      = lru_put (nat (lru_maxEntries c)) key (exact_mk (lru_maxEntries c) now p) (exact_abs c)
    \<and> exact_inv (ExactLRU_Set now key p c)
    \<and> lru_maxEntries (ExactLRU_Set now key p c) = lru_maxEntries c"
proof (cases "gm_get (lru_items c) key")
  case (Some i)
  obtain v ttl where p: "p = (v, ttl)" by force
  from exact_Get_hit [OF assms Some] obtain e where e: "map_of (lru_order c) i = Some e" "en_key e = key"
    "map_of (exact_abs c) key = Some (en_value e, en_expiresAt e)" by blast
  let ?e = "e\<lparr>en_value := cloneResponse v, en_expiresAt := expiry now ttl\<rparr>"
  have "ExactLRU_Set now key p c = c\<lparr>lru_order := (i, ?e) # lru_drop i (lru_order c)\<rparr>"
    using Some e p by (simp add: ExactLRU_Set_def Let_def)
  with exact_abs_touch [OF assms Some e(1), of ?e] e p show ?thesis
    by (simp add: lru_put_def exact_mk_def)
next
  case None
  obtain v ttl where p: "p = (v, ttl)" by force
  from assms have ix: "indexed en_key (lru_items c) (lru_order c)" and pos: "0 < lru_maxEntries c"
    and below: "\<forall>p \<in> set (lru_order c). fst p < lru_next c" by (simp_all add: exact_inv_def)
  let ?e = "\<lparr>en_key = key, en_value = cloneResponse v, en_expiresAt = expiry now ttl\<rparr>"
  let ?c = "c\<lparr>lru_order := (lru_next c, ?e) # lru_order c,
      lru_items := gm_set key (lru_next c) (lru_items c), lru_next := Suc (lru_next c)\<rparr>"
  from below have "lru_next c \<notin> fst ` set (lru_order c)" by auto
  then have "indexed en_key (lru_items ?c) (lru_order ?c)"
    using indexed_push [OF ix, of ?e "lru_next c"] None by simp
  note ev = evictBack_spec [OF this]
  have set: "ExactLRU_Set now key p c = evictBack ?c" using None p by (simp add: ExactLRU_Set_def Let_def)
  have "map_of (exact_abs c) key = None"
    using None indexed_None [OF ix, of key "\<lambda>e. (en_value e, en_expiresAt e)"] by (simp add: exact_abs_def)
  moreover have "exact_abs (evictBack ?c) = take (nat (lru_maxEntries c)) ((key, exact_mk (lru_maxEntries c) now p) # exact_abs c)"
    using ev pos p by (simp add: exact_abs_def lru_view_def take_map [symmetric] exact_mk_def)
  moreover have "exact_inv (evictBack ?c)"
  proof -
    have "\<forall>p \<in> set (take (nat (lru_maxEntries c)) ((lru_next c, ?e) # lru_order c)). fst p < Suc (lru_next c)"
      using below by (auto dest!: in_set_takeD intro: less_SucI)
    with ev pos show ?thesis by (simp add: exact_inv_def)
  qed
  ultimately show ?thesis using set ev pos by (simp add: lru_put_def)
qed

interpretation exact: lru_cache exact_inv exact_abs lru_maxEntries nat exact_fresh exact_view exact_mk
  ExactLRU_Get ExactLRU_Set
proof (unfold_locales)
  fix c :: ExactLRU assume "exact_inv c"
  then show "distinct (map fst (exact_abs c))" and "0 < nat (lru_maxEntries c)"
    by (auto simp: exact_inv_def exact_abs_def intro: indexed_distinct)
qed (simp_all add: exact_Get_refines exact_Set_refines)

lemma cloneResponse_id: "(\<And>r. x = Some r \<Longrightarrow> Response_ok r) \<Longrightarrow> cloneResponse x = x"
  by (cases x) (simp_all add: cloneResponse_def response_round_trip)

lemma cloneResponse_ok [simp]: "Response_ok r \<Longrightarrow> cloneResponse (Some r) = Some r" "cloneResponse None = None"
  by (simp_all add: cloneResponse_def response_round_trip)

lemma NewExactLRU_inv: "exact_inv (NewExactLRU n)" "exact_abs (NewExactLRU n) = []"
  by (simp_all add: exact_inv_def exact_abs_def NewExactLRU_def lru_view_def)

text \<open>A response found in the exact cache is the one last stored under its key, and its time to
  live has not passed: after any sequence of lookups and stores, whatever was evicted or expired
  in between, a hit returns an equal copy of the response of the last \<^verbatim>\<open>Set\<close> of that key.\<close>

theorem exact_hit_is_last_set:
  assumes "fst (ExactLRU_Get now key (fold (lru_step ExactLRU_Get ExactLRU_Set) ops (NewExactLRU n))) = Some v"
  shows "\<exists>t r ttl. last_put key ops None = Some (t, (r, ttl))
    \<and> (0 < ttl \<and> 0 < t \<longrightarrow> now \<le> t + ttl) \<and> ((\<forall>x. r = Some x \<longrightarrow> Response_ok x) \<longrightarrow> v = r)"
proof -
  from exact.hit_last [OF NewExactLRU_inv assms] obtain t p
    where l: "last_put key ops None = Some (t, p)"
      and v: "v = cloneResponse (cloneResponse (fst p))"
      and f: "expiry t (snd p) = time_zero \<or> now \<le> expiry t (snd p)"
    by (auto simp: exact_view_def exact_mk_def exact_fresh_def)
  obtain r ttl where p: "p = (r, ttl)" by force
  have "0 < ttl \<and> 0 < t \<longrightarrow> now \<le> t + ttl" using f p by (auto simp: expiry_def time_defs)
  moreover have "(\<forall>x. r = Some x \<longrightarrow> Response_ok x) \<longrightarrow> v = r" using v p by (simp add: cloneResponse_id)
  ultimately show ?thesis using l p by blast
qed

theorem exact_hit_is_last_set_witness:
  "\<exists>t r ttl. last_put ''k'' [LPut 5 ''k'' (Some zero_Response, 100), LGet 6 ''j''] None = Some (t, (r, ttl))
     \<and> (0 < ttl \<and> 0 < t \<longrightarrow> 50 \<le> t + ttl) \<and> ((\<forall>x. r = Some x \<longrightarrow> Response_ok x) \<longrightarrow> Some zero_Response = r)"
proof (rule exact_hit_is_last_set)
  have "Response_ok zero_Response"
    by (simp add: Response_ok_def zero_Response_def in_int64_def min_int64_def max_int64_def)
  then have "cloneResponse (Some zero_Response) = Some zero_Response" by simp
  then show "fst (ExactLRU_Get 50 ''k'' (fold (lru_step ExactLRU_Get ExactLRU_Set)
      [LPut 5 ''k'' (Some zero_Response, 100), LGet 6 ''j''] (NewExactLRU 1))) = Some (Some zero_Response)"
    by (simp add: ExactLRU_Get_def ExactLRU_Set_def NewExactLRU_def expiry_def time_defs evictBack.simps
        Let_def gm_set_def gm_get_def gm_len_def)
qed

text \<open>A response stored with a time to live is found until it has passed and not afterwards,
  however full the cache was.\<close>

theorem exact_set_then_get:
  assumes "exact_inv c" and "Response_ok r" and "0 < t" and "0 < ttl"
  shows "fst (ExactLRU_Get now key (ExactLRU_Set t key (Some r, ttl) c)) =
    (if now \<le> t + ttl then Some (Some r) else None)"
  using exact.put_then_get [OF assms(1), of now key t "(Some r, ttl)"] assms(2-4)
  by (simp add: exact_fresh_def exact_mk_def exact_view_def expiry_def time_defs)

theorem exact_set_then_get_witness:
  "exact_inv (NewExactLRU 1) \<and> Response_ok zero_Response \<and>
   fst (ExactLRU_Get 150 ''k'' (ExactLRU_Set 5 ''k'' (Some zero_Response, 100) (NewExactLRU 1))) = None"
  using exact_set_then_get [of "NewExactLRU 1" zero_Response 5 100 150 "''k''"]
  by (simp add: NewExactLRU_inv Response_ok_def zero_Response_def in_int64_def min_int64_def max_int64_def)

text \<open>The exact cache never holds more entries than configured: after any sequence of lookups
  and stores, the map and the list have the same entries, at most \<open>maxEntries\<close> of them
  (10000 when the configured number is not positive).\<close>

theorem exact_cache_bounded:
  "gm_len (lru_items (fold (lru_step ExactLRU_Get ExactLRU_Set) ops (NewExactLRU n)))
     \<le> nat (if n \<le> 0 then 10000 else n)
   \<and> gm_len (lru_items (fold (lru_step ExactLRU_Get ExactLRU_Set) ops (NewExactLRU n)))
     = length (lru_order (fold (lru_step ExactLRU_Get ExactLRU_Set) ops (NewExactLRU n)))"
proof -
  let ?c = "fold (lru_step ExactLRU_Get ExactLRU_Set) ops (NewExactLRU n)"
  have "exact_inv ?c" using exact.run_inv NewExactLRU_inv(1) by blast
  then have len: "gm_len (lru_items ?c) = length (lru_order ?c)"
    by (auto simp: exact_inv_def dest: indexed_len)
  have "length (exact_abs ?c) \<le> nat (lru_maxEntries (NewExactLRU n))"
    by (rule exact.run_bounded) (simp_all add: NewExactLRU_inv)
  with len show ?thesis by (simp add: exact_abs_def lru_view_def NewExactLRU_def split: if_splits)
qed

text \<open>C31. A cache key identifies the request: when SHA-256 does not collide on the two JSON texts,
  two requests have the same key exactly when they agree in everything but \<^verbatim>\<open>stream\<close>.\<close>

theorem cache_key_identifies_request:
  assumes "Request_ok r1" and "Request_ok r2"
    and "sha (marshal_Request (r1\<lparr>req_Stream := False\<rparr>)) = sha (marshal_Request (r2\<lparr>req_Stream := False\<rparr>)) \<Longrightarrow>
      marshal_Request (r1\<lparr>req_Stream := False\<rparr>) = marshal_Request (r2\<lparr>req_Stream := False\<rparr>)"
  shows "HashRequest sha r1 = HashRequest sha r2 \<longleftrightarrow> r1\<lparr>req_Stream := False\<rparr> = r2\<lparr>req_Stream := False\<rparr>"
proof
  have ok: "Request_ok (r1\<lparr>req_Stream := False\<rparr>)" "Request_ok (r2\<lparr>req_Stream := False\<rparr>)"
    using assms(1,2) by (simp_all add: Request_ok_def)
  assume "HashRequest sha r1 = HashRequest sha r2"
  then have "marshal_Request (r1\<lparr>req_Stream := False\<rparr>) = marshal_Request (r2\<lparr>req_Stream := False\<rparr>)"
    unfolding HashRequest_def by (rule assms(3))
  with Chat_Schema.request_decodes [OF ok(1)] Chat_Schema.request_decodes [OF ok(2)]
  show "r1\<lparr>req_Stream := False\<rparr> = r2\<lparr>req_Stream := False\<rparr>" by (metis option.inject)
qed (simp add: HashRequest_def)

text \<open>A digest that keeps the model only, which does not collide on the requests below.\<close>

definition toy_sha :: "json \<Rightarrow> string" where
  "toy_sha j = (case unmarshal_Request j zero_Request of None \<Rightarrow> '''' | Some r \<Rightarrow> req_Model r)"

theorem cache_key_identifies_request_witness:
  "HashRequest toy_sha (zero_Request\<lparr>req_Model := ''a''\<rparr>) \<noteq> HashRequest toy_sha (zero_Request\<lparr>req_Model := ''b''\<rparr>)"
proof -
  have "Request_ok (zero_Request\<lparr>req_Model := x\<rparr>)" for x
    by (simp add: Request_ok_def zero_Request_def is_f64_def is_int_def)
  moreover from this have "toy_sha (marshal_Request (zero_Request\<lparr>req_Model := x, req_Stream := False\<rparr>)) = x" for x
    using Chat_Schema.request_decodes [of "zero_Request\<lparr>req_Model := x, req_Stream := False\<rparr>"]
    by (simp add: toy_sha_def Request_ok_def)
  ultimately show ?thesis
    using cache_key_identifies_request [of "zero_Request\<lparr>req_Model := ''a''\<rparr>" "zero_Request\<lparr>req_Model := ''b''\<rparr>" toy_sha]
    by (simp add: zero_Request_def)
qed

section \<open>The cache in Redis\<close>

text \<open>
  The commands \<^verbatim>\<open>GET\<close> and \<^verbatim>\<open>SET\<close> of the client are a parameter. \<^verbatim>\<open>GET\<close> yields \<^term>\<open>None\<close> for an error or a
  missing key and \<^term>\<open>Some None\<close> for a text that is not JSON.
\<close>

record 'r redis_kv =
  kv_Get :: "gotime \<Rightarrow> string \<Rightarrow> 'r \<Rightarrow> json option option"
  kv_Set :: "gotime \<Rightarrow> string \<Rightarrow> json \<Rightarrow> duration \<Rightarrow> 'r \<Rightarrow> string option \<times> 'r"

definition NewRedisCache :: "duration \<Rightarrow> duration" where
  "NewRedisCache ttl = (if ttl \<le> 0 then 5 * time_Minute else ttl)"

definition redisKey :: "string \<Rightarrow> string" where
  "redisKey key = ''cache:'' @ key"

definition RedisCache_Get ::
  "'r redis_kv \<Rightarrow> gotime \<Rightarrow> string \<Rightarrow> 'r \<Rightarrow> ChatCompletionResponse option option" where
  "RedisCache_Get R now key r =
     (case kv_Get R now (redisKey key) r of
        None \<Rightarrow> None
      | Some None \<Rightarrow> None
      | Some (Some data) \<Rightarrow>
          (case unmarshal_Response data zero_Response of
             None \<Rightarrow> None
           | Some resp \<Rightarrow> Some (Some resp)))"

definition RedisCache_Set ::
  "'r redis_kv \<Rightarrow> duration \<Rightarrow> gotime \<Rightarrow> string \<Rightarrow> ChatCompletionResponse option \<times> duration \<Rightarrow> 'r
     \<Rightarrow> string option \<times> 'r" where
  "RedisCache_Set R cttl now key = (\<lambda>(value, ttl) r.
     kv_Set R now (redisKey key) (case value of None \<Rightarrow> JNull | Some v \<Rightarrow> marshal_Response v)
       (if ttl \<le> 0 then cttl else ttl) r)"

text \<open>On a server that accepts the command and keeps the value for its time to live.\<close>

definition kv_laws :: "'r redis_kv \<Rightarrow> bool" where
  "kv_laws R \<longleftrightarrow> (\<forall>t k j d r. 0 < d \<longrightarrow> fst (kv_Set R t k j d r) = None \<and>
      (\<forall>now. t \<le> now \<and> now < t + d \<longrightarrow> kv_Get R now k (snd (kv_Set R t k j d r)) = Some (Some j)))"

lemma redis_cache_set_then_get:
  assumes "kv_laws R" and "Response_ok v" and "0 < cttl" and "t \<le> now"
    and "now < t + (if ttl \<le> 0 then cttl else ttl)"
  shows "RedisCache_Get R now key (snd (RedisCache_Set R cttl t key (Some v, ttl) r)) = Some (Some v)"
proof -
  let ?d = "if ttl \<le> 0 then cttl else ttl"
  have "kv_Get R now (redisKey key) (snd (kv_Set R t (redisKey key) (marshal_Response v) ?d r))
      = Some (Some (marshal_Response v))"
    using assms(1,3-5) unfolding kv_laws_def by (simp split: if_splits)
  then show ?thesis
    using assms(2) by (simp add: RedisCache_Get_def RedisCache_Set_def response_round_trip)
qed

end
