(* ===== verification/Circuit_Breaker.thy ===== *)
theory Circuit_Breaker
  imports Gateway_Prelude
begin

text \<open>
  The circuit breaker of a provider, \<^verbatim>\<open>internal/circuit/breaker.go\<close>. Without a healthy Redis the
  breaker keeps its state in the record \<open>Breaker\<close>; with one it keeps a Redis hash, and the
  commands of the Redis server are a parameter, the record \<open>redis_hash\<close> of functions on a server
  state. What is used of the documented behaviour of the commands is \<open>hash_laws\<close>.

  The lemmas show when the local breaker opens and closes, that its diagnostics agree with what
  it lets through, and that the Redis breaker counts failures without any window.
\<close>

section \<open>Numbers in Redis\<close>

definition is_digit :: "char \<Rightarrow> bool" where
  "is_digit c \<longleftrightarrow> 48 \<le> (of_char c :: nat) \<and> (of_char c :: nat) \<le> 57"

definition digits_value :: "string \<Rightarrow> int" where
  "digits_value s = foldl (\<lambda>a c. 10 * a + (int (of_char c) - 48)) 0 s"

text \<open>\<^verbatim>\<open>strconv.ParseInt\<close> with its error dropped: 0 for a syntax error, the nearest limit for a
  number out of range.\<close>

definition atoi64 :: "string \<Rightarrow> int" where
  "atoi64 s =
     (let neg = (case s of c # _ \<Rightarrow> c = CHR ''-'' | [] \<Rightarrow> False);
          ds = (case s of c # r \<Rightarrow> if c = CHR ''-'' \<or> c = CHR ''+'' then r else s | [] \<Rightarrow> [])
      in if ds = [] \<or> \<not> list_all is_digit ds then 0
         else max min_int64 (min max_int64 (if neg then - digits_value ds else digits_value ds)))"

section \<open>State and operations\<close>

datatype State = Closed | Open | HalfOpen

record Breaker =
  br_key :: string
  br_threshold :: int
  br_window :: duration
  br_cooldown :: duration
  br_failures :: int
  br_lastFail :: gotime
  br_openedAt :: gotime

definition WithThreshold :: "int \<Rightarrow> Breaker \<Rightarrow> Breaker" where
  "WithThreshold n b = b\<lparr>br_threshold := n\<rparr>"

definition WithWindow :: "duration \<Rightarrow> Breaker \<Rightarrow> Breaker" where
  "WithWindow d b = b\<lparr>br_window := d\<rparr>"

definition WithCooldown :: "duration \<Rightarrow> Breaker \<Rightarrow> Breaker" where
  "WithCooldown d b = b\<lparr>br_cooldown := d\<rparr>"

definition NewBreaker :: "string \<Rightarrow> string \<Rightarrow> (Breaker \<Rightarrow> Breaker) list \<Rightarrow> Breaker" where
  "NewBreaker provider model opts =
     fold (\<lambda>opt b. opt b) opts
       \<lparr>br_key = ''circuit:'' @ provider @ '':'' @ model, br_threshold = 5,
        br_window = 30 * time_Second, br_cooldown = 60 * time_Second,
        br_failures = 0, br_lastFail = time_zero, br_openedAt = time_zero\<rparr>"

definition localAllow :: "gotime \<Rightarrow> Breaker \<Rightarrow> bool \<times> Breaker" where
  "localAllow now b =
     (if br_failures b < br_threshold b then (True, b)
      else if br_cooldown b < time_Sub now (br_openedAt b) then (True, b\<lparr>br_failures := 0\<rparr>)
      else (False, b))"

definition localRecordSuccess :: "Breaker \<Rightarrow> Breaker" where
  "localRecordSuccess b = b\<lparr>br_failures := 0\<rparr>"

definition localRecordFailure :: "gotime \<Rightarrow> Breaker \<Rightarrow> Breaker" where
  "localRecordFailure now b =
     (let b = b\<lparr>br_failures := if br_window b < time_Sub now (br_lastFail b) then 1
                              else wrap64 (br_failures b + 1),
               br_lastFail := now\<rparr>
      in if br_threshold b \<le> br_failures b then b\<lparr>br_openedAt := now\<rparr> else b)"

definition localState :: "gotime \<Rightarrow> Breaker \<Rightarrow> State" where
  "localState now b =
     (if br_failures b < br_threshold b then Closed
      else if br_cooldown b < time_Sub now (br_openedAt b) then HalfOpen
      else Open)"

text \<open>The commands of the Redis server; \<^term>\<open>None\<close> is an error of the client or the server.\<close>

record 'r redis_hash =
  rh_HGetAll :: "string \<Rightarrow> 'r \<Rightarrow> (string, string) gomap option"
  rh_HIncrBy :: "string \<Rightarrow> string \<Rightarrow> int \<Rightarrow> 'r \<Rightarrow> int option \<times> 'r"
  rh_HSet :: "string \<Rightarrow> (string \<times> string) list \<Rightarrow> 'r \<Rightarrow> 'r"
  rh_Set :: "string \<Rightarrow> string \<Rightarrow> duration \<Rightarrow> 'r \<Rightarrow> 'r"

text \<open>A missing field of a Go map of strings reads as the empty string.\<close>

definition field :: "(string, string) gomap \<Rightarrow> string \<Rightarrow> string" where
  "field m f = (case gm_get m f of None \<Rightarrow> '''' | Some s \<Rightarrow> s)"

definition redisAllow :: "'r redis_hash \<Rightarrow> gotime \<Rightarrow> Breaker \<Rightarrow> 'r \<Rightarrow> bool" where
  "redisAllow R now b r =
     (case rh_HGetAll R (br_key b) r of
        None \<Rightarrow> True
      | Some m \<Rightarrow>
          let failures = atoi64 (field m ''failures'')
          in if failures < br_threshold b then True
             else let openedAt = atoi64 (field m ''opened_at'')
                  in if 0 < openedAt \<and> br_cooldown b < time_Sub now (unix_time openedAt) then True
                     else False)"

definition redisRecordSuccess :: "'r redis_hash \<Rightarrow> Breaker \<Rightarrow> 'r \<Rightarrow> 'r" where
  "redisRecordSuccess R b r =
     rh_Set R (br_key b @ '':ttl'') ''1'' (wrap64 (2 * br_window b))
       (rh_HSet R (br_key b) [(''failures'', ''0'')] r)"

definition redisRecordFailure :: "'r redis_hash \<Rightarrow> gotime \<Rightarrow> Breaker \<Rightarrow> 'r \<Rightarrow> 'r" where
  "redisRecordFailure R now b r =
     (case rh_HIncrBy R (br_key b) ''failures'' 1 r of
        (None, r) \<Rightarrow> r
      | (Some newCount, r) \<Rightarrow>
          let fields = (''last_fail'', itoa (time_Unix now)) #
                (if br_threshold b \<le> newCount then [(''opened_at'', itoa (time_Unix now))] else [])
          in rh_Set R (br_key b @ '':ttl'') ''1'' (wrap64 (2 * br_window b))
               (rh_HSet R (br_key b) fields r))"

definition redisState :: "'r redis_hash \<Rightarrow> gotime \<Rightarrow> Breaker \<Rightarrow> 'r \<Rightarrow> State" where
  "redisState R now b r =
     (case rh_HGetAll R (br_key b) r of
        None \<Rightarrow> Closed
      | Some m \<Rightarrow>
          let failures = atoi64 (field m ''failures'')
          in if failures < br_threshold b then Closed
             else let openedAt = atoi64 (field m ''opened_at'')
                  in if 0 < openedAt \<and> br_cooldown b < time_Sub now (unix_time openedAt) then HalfOpen
                     else Open)"

text \<open>The exported operations; \<open>healthy\<close> is \<^verbatim>\<open>b.rc != nil && b.rc.Healthy()\<close>.\<close>

definition Breaker_Allow ::
  "'r redis_hash \<Rightarrow> bool \<Rightarrow> gotime \<Rightarrow> Breaker \<Rightarrow> 'r \<Rightarrow> bool \<times> Breaker" where
  "Breaker_Allow R healthy now b r =
     (if \<not> healthy then localAllow now b else (redisAllow R now b r, b))"

definition Breaker_RecordSuccess ::
  "'r redis_hash \<Rightarrow> bool \<Rightarrow> Breaker \<Rightarrow> 'r \<Rightarrow> Breaker \<times> 'r" where
  "Breaker_RecordSuccess R healthy b r =
     (if \<not> healthy then (localRecordSuccess b, r) else (b, redisRecordSuccess R b r))"

definition Breaker_RecordFailure ::
  "'r redis_hash \<Rightarrow> bool \<Rightarrow> gotime \<Rightarrow> Breaker \<Rightarrow> 'r \<Rightarrow> Breaker \<times> 'r" where
  "Breaker_RecordFailure R healthy now b r =
     (if \<not> healthy then (localRecordFailure now b, r) else (b, redisRecordFailure R now b r))"

definition Breaker_State :: "'r redis_hash \<Rightarrow> bool \<Rightarrow> gotime \<Rightarrow> Breaker \<Rightarrow> 'r \<Rightarrow> State" where
  "Breaker_State R healthy now b r =
     (if \<not> healthy then localState now b else redisState R now b r)"

section \<open>The local breaker as a state machine\<close>

datatype event = AllowAt gotime | Success | FailureAt gotime

fun local_step :: "event \<Rightarrow> Breaker \<Rightarrow> Breaker" where
  "local_step (AllowAt now) b = snd (localAllow now b)"
| "local_step Success b = localRecordSuccess b"
| "local_step (FailureAt now) b = localRecordFailure now b"

inductive local_reaches :: "Breaker \<Rightarrow> Breaker \<Rightarrow> bool" where
  start: "local_reaches b b"
| step: "local_reaches b b' \<Longrightarrow> local_reaches b (local_step e b')"

lemma local_step_config [simp]:
  "br_key (local_step e b) = br_key b" "br_threshold (local_step e b) = br_threshold b"
  "br_window (local_step e b) = br_window b" "br_cooldown (local_step e b) = br_cooldown b"
  by (cases e; simp add: localAllow_def localRecordSuccess_def localRecordFailure_def Let_def)+

text \<open>While the breaker has counted enough failures to be open, it was opened by the last one.\<close>

definition breaker_inv :: "Breaker \<Rightarrow> bool" where
  "breaker_inv b \<longleftrightarrow> 0 < br_threshold b
     \<and> (br_threshold b \<le> br_failures b \<longrightarrow> br_openedAt b = br_lastFail b)"

lemma local_step_inv: "breaker_inv b \<Longrightarrow> breaker_inv (local_step e b)"
  by (cases e) (auto simp: breaker_inv_def localAllow_def localRecordSuccess_def
      localRecordFailure_def Let_def)

lemma local_reaches_inv:
  "local_reaches b b' \<Longrightarrow> breaker_inv b \<Longrightarrow> breaker_inv b' \<and> br_cooldown b' = br_cooldown b"
  by (induction rule: local_reaches.induct) (simp_all add: local_step_inv)

text \<open>C29. The local breaker always recovers: whatever history of checks, successes and failures
  a breaker with no failures has gone through, a request more than the cooldown after the last
  recorded failure is let through.\<close>

theorem local_breaker_recovers:
  assumes "local_reaches b b'" and "br_failures b = 0" and "0 < br_threshold b"
    and "in_int64 (br_cooldown b)" and "br_cooldown b < max_int64"
    and "br_cooldown b < now - br_lastFail b'"
  shows "fst (localAllow now b') \<and> localState now b' \<noteq> Open"
proof -
  from assms(2,3) have "breaker_inv b" by (simp add: breaker_inv_def)
  with local_reaches_inv [OF assms(1)] assms(4-6) show ?thesis
    by (auto simp: breaker_inv_def localAllow_def localState_def time_Sub_less)
qed

text \<open>Counting failures one by one, the counter cannot reach the limit of 64 bits; the bound on
  the number of failures is explicit where a statement needs it.\<close>

lemma localRecordFailure_count:
  assumes "0 \<le> br_failures b" and "br_failures b < max_int64"
  shows "br_failures (localRecordFailure now b) =
    (if br_window b < time_Sub now (br_lastFail b) then 1 else br_failures b + 1)"
  using assms by (simp add: localRecordFailure_def Let_def in_int64_def min_int64_def max_int64_def)

lemma localRecordFailure_times:
  "br_lastFail (localRecordFailure now b) = now"
  "br_threshold b \<le> br_failures (localRecordFailure now b) \<Longrightarrow> br_openedAt (localRecordFailure now b) = now"
  by (auto simp: localRecordFailure_def Let_def)

lemma local_step_failures:
  "br_failures b \<le> int n \<Longrightarrow> 0 \<le> br_failures b \<Longrightarrow> br_failures b < max_int64 \<Longrightarrow>
   0 \<le> br_failures (local_step e b)
   \<and> br_failures (local_step e b) \<le> (case e of AllowAt _ \<Rightarrow> int n | Success \<Rightarrow> 0 | FailureAt _ \<Rightarrow> int n + 1)"
proof (cases e)
  case (FailureAt now)
  assume "br_failures b \<le> int n" and "0 \<le> br_failures b" and "br_failures b < max_int64"
  with FailureAt show ?thesis by (simp add: localRecordFailure_count)
qed (auto simp: localAllow_def localRecordSuccess_def)

text \<open>The failures recorded since the last success.\<close>

fun recent_failures :: "nat \<Rightarrow> event list \<Rightarrow> nat" where
  "recent_failures n [] = n"
| "recent_failures n (AllowAt t # es) = recent_failures n es"
| "recent_failures n (Success # es) = recent_failures 0 es"
| "recent_failures n (FailureAt t # es) = recent_failures (Suc n) es"

lemma run_failures:
  "br_failures b \<le> int n \<Longrightarrow> 0 \<le> br_failures b \<Longrightarrow> int (n + length es) < max_int64 \<Longrightarrow>
   0 \<le> br_failures (fold local_step es b) \<and>
   br_failures (fold local_step es b) \<le> int (recent_failures n es)"
proof (induction es arbitrary: b n)
  case Nil
  then show ?case by simp
next
  case (Cons e es)
  from Cons.prems have lt: "br_failures b < max_int64" by simp
  note s = local_step_failures [OF Cons.prems(1,2) lt, of e]
  show ?case
  proof (cases e)
    case (AllowAt t)
    with Cons.IH [of "local_step e b" n] Cons.prems s show ?thesis by simp
  next
    case Success
    with Cons.IH [of "local_step e b" 0] Cons.prems s show ?thesis by simp
  next
    case (FailureAt t)
    with Cons.IH [of "local_step e b" "Suc n"] Cons.prems s show ?thesis by (simp add: ac_simps)
  qed
qed

lemma run_config [simp]: "br_threshold (fold local_step es b) = br_threshold b"
  "br_window (fold local_step es b) = br_window b" "br_cooldown (fold local_step es b) = br_cooldown b"
  by (induction es arbitrary: b; simp)+

text \<open>The local breaker never opens early: after any history of checks, successes and
  failures in which fewer than \<open>threshold\<close> failures follow the last success, a request is
  allowed and the reported state is closed.\<close>

theorem local_breaker_not_early:
  assumes "br_failures b = 0" and "int (length es) < max_int64"
    and "int (recent_failures 0 es) < br_threshold b"
  shows "fst (localAllow now (fold local_step es b)) \<and> localState now (fold local_step es b) = Closed"
  using run_failures [of b 0 es] assms by (simp add: localAllow_def localState_def)

definition breaker_example :: Breaker where
  "breaker_example = NewBreaker ''openai'' ''gpt-4o'' [WithThreshold 2]"

theorem local_breaker_not_early_witness:
  "fst (localAllow 9 (fold local_step [FailureAt 1, FailureAt 2, Success, FailureAt 3] breaker_example))"
  using local_breaker_not_early [of breaker_example "[FailureAt 1, FailureAt 2, Success, FailureAt 3]" 9]
  by (simp add: breaker_example_def NewBreaker_def WithThreshold_def max_int64_def)

theorem local_breaker_recovers_witness:
  "fst (localAllow (5062 * time_Second)
     (local_step (FailureAt (5001 * time_Second)) (local_step (FailureAt (5000 * time_Second)) breaker_example)))"
proof -
  let ?b = "local_step (FailureAt (5001 * time_Second)) (local_step (FailureAt (5000 * time_Second)) breaker_example)"
  have "local_reaches breaker_example ?b" by (intro local_reaches.intros)
  moreover have "br_lastFail ?b = 5001 * time_Second" by (simp add: localRecordFailure_def Let_def)
  ultimately show ?thesis
    using local_breaker_recovers [of breaker_example ?b "5062 * time_Second"]
    by (simp add: breaker_example_def NewBreaker_def WithThreshold_def duration_defs in_int64_def
        min_int64_def max_int64_def)
qed

text \<open>A burst of failures, each within the window of the one before.\<close>

fun burst :: "duration \<Rightarrow> gotime \<Rightarrow> gotime list \<Rightarrow> bool" where
  "burst w t [] = True"
| "burst w t (u # us) = (\<not> w < time_Sub u t \<and> burst w u us)"

lemma burst_failures:
  "burst (br_window b) (br_lastFail b) ts \<Longrightarrow> 0 \<le> br_failures b \<Longrightarrow>
   br_failures b + int (length ts) < max_int64 \<Longrightarrow>
   br_failures (fold localRecordFailure ts b) = br_failures b + int (length ts)
   \<and> (ts \<noteq> [] \<longrightarrow> br_threshold b \<le> br_failures b + int (length ts) \<longrightarrow>
        br_openedAt (fold localRecordFailure ts b) = last ts)"
proof (induction ts arbitrary: b)
  case Nil
  then show ?case by simp
next
  case (Cons t ts)
  define b' where "b' = localRecordFailure t b"
  have f: "br_failures b' = br_failures b + 1"
    using Cons.prems by (simp add: b'_def localRecordFailure_count)
  have cfg: "br_window b' = br_window b" "br_threshold b' = br_threshold b" "br_lastFail b' = t"
    using local_step_config [of "FailureAt t" b] localRecordFailure_times(1) [of t b]
    by (simp_all add: b'_def)
  from Cons.IH [of b'] Cons.prems f cfg
  have IH: "br_failures (fold localRecordFailure ts b') = br_failures b' + int (length ts)"
    "ts \<noteq> [] \<longrightarrow> br_threshold b' \<le> br_failures b' + int (length ts) \<longrightarrow>
       br_openedAt (fold localRecordFailure ts b') = last ts" by simp_all
  show ?case
  proof (cases "ts = []")
    case True
    with f show ?thesis using localRecordFailure_times(2) [of b t] by (simp add: b'_def)
  next
    case False
    with IH f cfg show ?thesis by (simp add: b'_def ac_simps)
  qed
qed

lemma run_failures_config [simp]:
  "br_threshold (fold localRecordFailure ts b) = br_threshold b"
  "br_cooldown (fold localRecordFailure ts b) = br_cooldown b"
proof (induction ts arbitrary: b)
  case (Cons t ts)
  {
    case 1
    with Cons(1) local_step_config(2) [of "FailureAt t" b] show ?case by simp
  next
    case 2
    with Cons(2) local_step_config(4) [of "FailureAt t" b] show ?case by simp
  }
qed simp_all

text \<open>C28. The local breaker opens in time and stays open: a burst of \<open>threshold\<close> or more failures,
  each within the window of the one before, blocks every request until the cooldown after the
  last of them has passed; then the next request is let through and the counter is reset.\<close>

theorem local_breaker_trips:
  assumes "0 \<le> br_failures b" and "in_int64 (br_cooldown b)"
    and "br_threshold b \<le> int (length (t # ts))" and "br_failures b + int (length (t # ts)) < max_int64"
    and "burst (br_window b) t ts"
  shows "(now - last (t # ts) \<le> br_cooldown b \<longrightarrow>
      \<not> fst (localAllow now (fold localRecordFailure (t # ts) b))
      \<and> localState now (fold localRecordFailure (t # ts) b) = Open)
    \<and> (br_cooldown b < now - last (t # ts) \<and> br_cooldown b < max_int64 \<longrightarrow>
      fst (localAllow now (fold localRecordFailure (t # ts) b))
      \<and> localState now (fold localRecordFailure (t # ts) b) = HalfOpen
      \<and> br_failures (snd (localAllow now (fold localRecordFailure (t # ts) b))) = 0)"
proof -
  define b' where "b' = localRecordFailure t b"
  have b': "1 \<le> br_failures b'" "br_failures b' \<le> br_failures b + 1"
    using assms(1,4) by (simp_all add: b'_def localRecordFailure_count)
  have cfg: "br_window b' = br_window b" "br_threshold b' = br_threshold b" "br_lastFail b' = t"
      "br_cooldown b' = br_cooldown b"
    using local_step_config [of "FailureAt t" b] localRecordFailure_times(1) [of t b]
    by (simp_all add: b'_def)
  let ?b = "fold localRecordFailure ts b'"
  from burst_failures [of b' ts] b' cfg assms(4,5)
  have f: "br_failures ?b = br_failures b' + int (length ts)"
    and o: "ts \<noteq> [] \<longrightarrow> br_threshold b \<le> br_failures b' + int (length ts) \<longrightarrow> br_openedAt ?b = last ts"
    by simp_all
  from f b' assms(3) have thr: "br_threshold b \<le> br_failures ?b" by simp
  have o': "br_openedAt ?b = last (t # ts)"
  proof (cases "ts = []")
    case True
    with thr localRecordFailure_times(2) [of b t] show ?thesis by (simp add: b'_def)
  next
    case False
    with o f thr show ?thesis by simp
  qed
  have "fold localRecordFailure (t # ts) b = ?b" by (simp add: b'_def)
  with thr o' cfg assms(2) show ?thesis
    by (simp add: localAllow_def localState_def time_Sub_less)
qed

theorem local_breaker_trips_witness:
  "let b = fold localRecordFailure [5000 * time_Second, 5001 * time_Second] breaker_example
   in \<not> fst (localAllow (5061 * time_Second) b) \<and> fst (localAllow (5062 * time_Second) b)"
  using local_breaker_trips [of breaker_example "5000 * time_Second" "[5001 * time_Second]" "5061 * time_Second"]
    local_breaker_trips [of breaker_example "5000 * time_Second" "[5001 * time_Second]" "5062 * time_Second"]
  by (simp add: breaker_example_def NewBreaker_def WithThreshold_def duration_defs in_int64_def
      time_Sub_def min_int64_def max_int64_def Let_def)

text \<open>What the diagnostics report is what requests meet: in both modes a request is let
  through exactly when the reported state is not \<open>Open\<close>.\<close>

theorem breaker_allow_iff_not_open:
  "fst (Breaker_Allow R healthy now b r) \<longleftrightarrow> Breaker_State R healthy now b r \<noteq> Open"
  by (auto simp: Breaker_Allow_def Breaker_State_def localAllow_def localState_def redisAllow_def
      redisState_def Let_def split: option.splits)

section \<open>The Redis breaker\<close>

lemma foldl_digits:
  "foldl (\<lambda>a c. 10 * a + (int (of_char c) - 48)) 0 (xs @ [c])
     = 10 * foldl (\<lambda>a c. 10 * a + (int (of_char c) - 48)) 0 xs + (int (of_char c) - 48)"
  by simp

lemma digit_char: "0 \<le> n \<Longrightarrow> n < 10 \<Longrightarrow>
  int (of_char (char_of (48 + nat n) :: char)) = 48 + n \<and> is_digit (char_of (48 + nat n))"
  by (auto simp: is_digit_def of_char_of)

lemma digits_round_trip: "0 \<le> n \<Longrightarrow> digits_value (digits n) = n \<and> list_all is_digit (digits n) \<and> digits n \<noteq> []"
proof (induction n rule: digits.induct)
  case (1 n)
  show ?case
  proof (cases "n < 10")
    case True
    with digit_char [OF "1.prems" True] show ?thesis
      by (simp add: digits.simps [of n] digits_value_def)
  next
    case False
    with "1.IH" have IH: "digits_value (digits (n div 10)) = n div 10"
      "list_all is_digit (digits (n div 10))" by simp_all
    have d: "digits n = digits (n div 10) @ [char_of (48 + nat (n mod 10))]"
      using False by (simp add: digits.simps [of n])
    note c = digit_char [of "n mod 10"]
    have "digits_value (digits n) = 10 * digits_value (digits (n div 10)) + (48 + n mod 10 - 48)"
      unfolding d digits_value_def foldl_digits using c by simp
    with IH have "digits_value (digits n) = n" by simp
    moreover have "list_all is_digit (digits n)" unfolding d using IH(2) c by simp
    ultimately show ?thesis by (simp add: d)
  qed
qed

lemma atoi64_itoa:
  assumes "0 \<le> n" and "n \<le> max_int64"
  shows "atoi64 (itoa n) = n"
proof -
  note d = digits_round_trip [OF assms(1)]
  then obtain c ds where cd: "digits n = c # ds" by (cases "digits n") auto
  with d have "is_digit c" by simp
  then have "c \<noteq> CHR ''-''" and "c \<noteq> CHR ''+''" by (auto simp: is_digit_def)
  with d cd assms show ?thesis by (simp add: atoi64_def itoa_def min_int64_def)
qed

text \<open>
  The documented behaviour of the commands for one hash key, on a server that answers:
  \<^verbatim>\<open>HSET\<close> sets the listed fields and no other, \<^verbatim>\<open>HINCRBY\<close> adds to the number a field holds (0 when
  it is missing) and returns the sum, \<^verbatim>\<open>SET\<close> of another key leaves the hash alone.
\<close>

definition holds_int :: "(string, string) gomap \<Rightarrow> string \<Rightarrow> int \<Rightarrow> bool" where
  "holds_int m f n \<longleftrightarrow> gm_get m f = Some (itoa n) \<or> gm_get m f = None \<and> n = 0"

definition hash_laws :: "'r redis_hash \<Rightarrow> string \<Rightarrow> bool" where
  "hash_laws R k \<longleftrightarrow>
     (\<forall>r. \<exists>m. rh_HGetAll R k r = Some m)
   \<and> (\<forall>r m fs. rh_HGetAll R k r = Some m \<longrightarrow>
        (\<exists>m'. rh_HGetAll R k (rh_HSet R k fs r) = Some m'
           \<and> gm_get m' = fold (\<lambda>(f, v) g. g(f \<mapsto> v)) fs (gm_get m)))
   \<and> (\<forall>r m f n. rh_HGetAll R k r = Some m \<longrightarrow> holds_int m f n \<longrightarrow> 0 \<le> n \<longrightarrow> n < max_int64 \<longrightarrow>
        (\<exists>m' r'. rh_HIncrBy R k f 1 r = (Some (n + 1), r')
           \<and> rh_HGetAll R k r' = Some m' \<and> gm_get m' = (gm_get m)(f \<mapsto> itoa (n + 1))))
   \<and> (\<forall>r j v d. j \<noteq> k \<longrightarrow> rh_HGetAll R k (rh_Set R j v d r) = rh_HGetAll R k r)"

definition redis_counts :: "'r redis_hash \<Rightarrow> Breaker \<Rightarrow> 'r \<Rightarrow> int \<Rightarrow> bool" where
  "redis_counts R b r n =
     (case rh_HGetAll R (br_key b) r of None \<Rightarrow> False | Some m \<Rightarrow> holds_int m ''failures'' n)"

definition redis_opened :: "'r redis_hash \<Rightarrow> Breaker \<Rightarrow> 'r \<Rightarrow> int \<Rightarrow> bool" where
  "redis_opened R b r s =
     (case rh_HGetAll R (br_key b) r of None \<Rightarrow> False | Some m \<Rightarrow> field m ''opened_at'' = itoa s)"

lemma atoi64_holds: "holds_int m f n \<Longrightarrow> 0 \<le> n \<Longrightarrow> n \<le> max_int64 \<Longrightarrow> atoi64 (field m f) = n"
  by (auto simp: holds_int_def field_def atoi64_itoa) (simp add: atoi64_def)

lemma redis_failure_step:
  assumes laws: "hash_laws R (br_key b)" and n: "redis_counts R b r n" and "0 \<le> n" and "n < max_int64"
  shows "redis_counts R b (redisRecordFailure R now b r) (n + 1)
    \<and> (br_threshold b \<le> n + 1 \<longrightarrow> redis_opened R b (redisRecordFailure R now b r) (time_Unix now))"
proof -
  from n obtain m where m: "rh_HGetAll R (br_key b) r = Some m" and h: "holds_int m ''failures'' n"
    by (auto simp: redis_counts_def split: option.splits)
  from laws m h assms(3,4) obtain m1 r1
    where i: "rh_HIncrBy R (br_key b) ''failures'' 1 r = (Some (n + 1), r1)"
      and m1: "rh_HGetAll R (br_key b) r1 = Some m1"
      and g1: "gm_get m1 = (gm_get m)(''failures'' \<mapsto> itoa (n + 1))"
    unfolding hash_laws_def by blast
  define fs where "fs = (''last_fail'', itoa (time_Unix now)) #
    (if br_threshold b \<le> n + 1 then [(''opened_at'', itoa (time_Unix now))] else [])"
  from laws m1 obtain m2 where m2: "rh_HGetAll R (br_key b) (rh_HSet R (br_key b) fs r1) = Some m2"
      and g2: "gm_get m2 = fold (\<lambda>(f, v) g. g(f \<mapsto> v)) fs (gm_get m1)"
    unfolding hash_laws_def by blast
  have "rh_HGetAll R (br_key b) (redisRecordFailure R now b r) = Some m2"
    using laws m2 i by (simp add: redisRecordFailure_def fs_def [symmetric] hash_laws_def)
  moreover have "gm_get m2 ''failures'' = Some (itoa (n + 1))"
    by (simp add: g2 g1 fs_def)
  moreover have "br_threshold b \<le> n + 1 \<Longrightarrow> gm_get m2 ''opened_at'' = Some (itoa (time_Unix now))"
    by (simp add: g2 fs_def)
  ultimately show ?thesis
    by (simp add: redis_counts_def redis_opened_def field_def holds_int_def)
qed

lemma redis_failures_count:
  assumes laws: "hash_laws R (br_key b)"
  shows "redis_counts R b r n \<Longrightarrow> 0 \<le> n \<Longrightarrow> n + int (length ts) \<le> max_int64 \<Longrightarrow>
    redis_counts R b (fold (\<lambda>t r. redisRecordFailure R t b r) ts r) (n + int (length ts))"
proof (induction ts arbitrary: r n)
  case Nil
  then show ?case by simp
next
  case (Cons t ts)
  from redis_failure_step [OF laws Cons.prems(1,2), of t] Cons.prems(3)
  have "redis_counts R b (redisRecordFailure R t b r) (n + 1)" by simp
  from Cons.IH [OF this] Cons.prems(2,3) show ?case by (simp add: ac_simps)
qed

lemma redisAllow_counts:
  assumes "redis_counts R b r n" and "redis_opened R b r s"
    and "0 \<le> n" and "n \<le> max_int64" and "0 \<le> s" and "s \<le> max_int64"
  shows "redisAllow R now b r \<longleftrightarrow>
    n < br_threshold b \<or> 0 < s \<and> br_cooldown b < time_Sub now (unix_time s)"
  using assms atoi64_holds atoi64_itoa
  by (auto simp: redisAllow_def redis_counts_def redis_opened_def Let_def split: option.splits)

text \<open>The breaker kept in Redis has no failure window: \<open>threshold\<close> failures since the last
  success open it however far apart in time they are, although \<^verbatim>\<open>WithWindow\<close> is documented to set
  the window in which failures are counted.\<close>

theorem redis_breaker_no_window:
  assumes "hash_laws R (br_key b)" and "redis_counts R b r 0"
    and "br_threshold b = int (length (ts @ [t]))" and "int (length (ts @ [t])) < max_int64"
    and "0 \<le> time_Unix t" and "time_Unix t \<le> max_int64" and "in_int64 (br_cooldown b)"
    and "now - t \<le> br_cooldown b - time_Second"
  shows "\<not> redisAllow R now b (fold (\<lambda>t r. redisRecordFailure R t b r) (ts @ [t]) r)"
proof -
  define r' where "r' = fold (\<lambda>t r. redisRecordFailure R t b r) ts r"
  have "redis_counts R b r' (int (length ts))"
    using redis_failures_count [OF assms(1,2), of ts] assms(4) by (simp add: r'_def)
  from redis_failure_step [OF assms(1) this, of t] assms(3,4)
  have f: "redis_counts R b (redisRecordFailure R t b r') (br_threshold b)"
    "redis_opened R b (redisRecordFailure R t b r') (time_Unix t)" by (simp_all add: add.commute)
  have "\<not> br_cooldown b < time_Sub now (unix_time (time_Unix t))"
    using unix_round_trip [of t] assms(7,8) by (auto simp: time_Sub_less)
  with redisAllow_counts [OF f, of now] assms(3-6) show ?thesis by (simp add: r'_def)
qed

text \<open>A server that holds one hash.\<close>

definition one_hash :: "string \<Rightarrow> (string, string) gomap redis_hash" where
  "one_hash k =
     \<lparr>rh_HGetAll = (\<lambda>j r. Some (if j = k then r else [])),
      rh_HIncrBy = (\<lambda>j f n r.
        let v = atoi64 (field r f) + n
        in if j = k then (Some v, gm_set f (itoa v) r) else (None, r)),
      rh_HSet = (\<lambda>j fs r. if j = k then fold (\<lambda>(f, v). gm_set f v) fs r else r),
      rh_Set = (\<lambda>j v d r. if j = k then [] else r)\<rparr>"

lemma gm_get_fold_set:
  "gm_get (fold (\<lambda>(f, v). gm_set f v) fs m) = fold (\<lambda>(f, v) g. g(f \<mapsto> v)) fs (gm_get m)"
proof (induction fs arbitrary: m)
  case (Cons p fs)
  obtain f v where p: "p = (f, v)" by force
  have "gm_get (gm_set f v m) = (gm_get m)(f \<mapsto> v)" by (auto simp: gomap_simps)
  with Cons p show ?case by simp
qed simp

lemma one_hash_laws: "hash_laws (one_hash k) k"
  by (auto simp: hash_laws_def one_hash_def gm_get_fold_set atoi64_holds Let_def gomap_simps)

lemma breaker_example_fields:
  "br_threshold breaker_example = 2" "br_cooldown breaker_example = 60 * time_Second"
  by (simp_all add: breaker_example_def NewBreaker_def WithThreshold_def)

lemma one_hash_empty: "redis_counts (one_hash (br_key b)) b [] 0"
  by (simp add: redis_counts_def holds_int_def one_hash_def)

theorem redis_breaker_no_window_witness:
  "\<not> redisAllow (one_hash (br_key breaker_example)) (unix_time 100000) breaker_example
     (redisRecordFailure (one_hash (br_key breaker_example)) (unix_time 99990) breaker_example
       (redisRecordFailure (one_hash (br_key breaker_example)) (unix_time 5) breaker_example []))"
proof -
  have "unix_time 100000 - unix_time 99990 \<le> br_cooldown breaker_example - time_Second"
    by (simp add: breaker_example_fields unix_time_def duration_defs)
  from redis_breaker_no_window [OF one_hash_laws one_hash_empty, of breaker_example "[unix_time 5]",
      OF _ _ _ _ _ this]
  show ?thesis
    by (simp add: breaker_example_fields max_int64_def min_int64_def in_int64_def duration_defs)
qed

end
