(* ===== verification/Gateway_Config.thy ===== *)
theory Gateway_Config
  imports Json
begin

text \<open>
  The configuration, \<^verbatim>\<open>internal/config/config.go\<close>, and its validation, \<^verbatim>\<open>internal/config/validate.go\<close>.
  One record per struct; a value of type \<^verbatim>\<open>any\<close> is a \<open>json\<close> tree. Maps are visited in the order of
  their list. \<open>Validate\<close> returns the error messages it collected (none is success) together with the
  configuration whose map of providers it filled with defaults, which in Go is the caller's map.

  The lemmas say what an accepted configuration guarantees to the router, and which configurations
  other components support are rejected.
\<close>

section \<open>Structs\<close>

record DatabaseConfig =
  db_URL :: string
  db_MaxOpenConns :: int
  db_MaxIdleConns :: int

record RedisConfig =
  rd_Enabled :: bool
  rd_Addr :: string
  rd_Password :: string
  rd_DB :: int
  rd_MaxRetries :: int
  rd_PoolSize :: int
  rd_HealthCheckIntervalSec :: int
  rd_Cluster :: bool

record VaultKMSConfig =
  vk_Addr :: string
  vk_Token :: string
  vk_Namespace :: string
  vk_TLSSkipVerify :: bool

record KMSConfig =
  kms_Enabled :: bool
  kms_Type :: string
  kms_KeyID :: string
  kms_Vault :: VaultKMSConfig

record AuthConfig =
  ac_Enabled :: bool
  ac_KeyCacheSize :: int
  ac_KeyCacheTTLSec :: int

record OIDCProviderConfig =
  op_Issuer :: string
  op_Audience :: string
  op_DefaultRole :: string
  op_JWKSCacheTTL :: int

record OIDCConfig =
  oidc_Enabled :: bool
  oidc_Issuer :: string
  oidc_Audience :: string
  oidc_DefaultRole :: string
  oidc_JWKSCacheTTL :: int
  oidc_Providers :: "OIDCProviderConfig list"

record AdminConfig =
  ad_Enabled :: bool
  ad_BearerToken :: string
  ad_RBACEnabled :: bool
  ad_OIDC :: OIDCConfig

record PriceEntry =
  pe_Provider :: string
  pe_Model :: string
  pe_PromptPer1M :: f64
  pe_CompletionPer1M :: f64

record BillingConfig =
  bc_Prices :: "PriceEntry list"
  bc_FailClosed :: bool

record TracingConfig =
  tr_Enabled :: bool
  tr_Endpoint :: string
  tr_ServiceName :: string
  tr_SampleRate :: f64

record TelemetryConfig =
  tel_MetricsEnabled :: bool
  tel_Tracing :: TracingConfig

record ServerConfig =
  srv_Host :: string
  srv_Port :: int
  srv_ReadTimeoutMS :: int
  srv_WriteTimeoutMS :: int
  srv_IdleTimeoutMS :: int
  srv_ShutdownTimeout :: int
  srv_MaxBodySizeKB :: int

record LoggingConfig =
  log_Level :: string
  log_Format :: string
  log_AddSource :: bool
  log_RedactPrompts :: bool
  log_LogBodies :: bool

record GuardrailStageConfig =
  gs_Type :: string
  gs_Config :: "(string, json) gomap"

record GuardrailModelConfig =
  gmc_Input :: bool
  gmc_Output :: bool

record GuardrailsConfig =
  gc_Enabled :: bool
  gc_Input :: "GuardrailStageConfig list"
  gc_Output :: "GuardrailStageConfig list"
  gc_Models :: "(string, GuardrailModelConfig) gomap"

record ExactCacheConfig =
  xc_Enabled :: bool
  xc_MaxEntries :: int
  xc_TTLSeconds :: int

record EmbedderConfig =
  em_Type :: string
  em_BaseURL :: string
  em_Model :: string
  em_APIKey :: string
  em_Dimensions :: int

record EmbeddingCacheConfig =
  emc_MaxEntries :: int
  emc_TTLSeconds :: int

record SemanticCacheConfig =
  sc_Enabled :: bool
  sc_Embedder :: EmbedderConfig
  sc_SimilarityThreshold :: f64
  sc_MaxEntries :: int
  sc_TTLSeconds :: int
  sc_EmbeddingCache :: EmbeddingCacheConfig

record CacheConfig =
  cc_Exact :: ExactCacheConfig
  cc_Semantic :: SemanticCacheConfig

record CostWeights =
  cw_Cost :: f64
  cw_Latency :: f64
  cw_Health :: f64

record RetryConfig =
  rt_Attempts :: int
  rt_Backoff :: string
  rt_InitialMS :: int
  rt_MaxMS :: int
  rt_RetryOn :: "string list"

record RouteDefaults =
  rdf_TimeoutMS :: int
  rdf_Retry :: RetryConfig

record RoutingConfig =
  rc_Defaults :: RouteDefaults
  rc_Region :: string
  rc_RegionStrategy :: string
  rc_CostWeights :: CostWeights

record RegionConfig =
  rg_Name :: string
  rg_BaseURL :: string
  rg_Priority :: int
  rg_DataResidency :: string

record ProviderKeyConfig =
  pk_ID :: string
  pk_Env :: string
  pk_Value :: string
  pk_EncryptedValue :: string
  pk_Weight :: int

record ProviderConfig =
  pc_Type :: string
  pc_BaseURL :: string
  pc_Keys :: "ProviderKeyConfig list"
  pc_Regions :: "RegionConfig list"
  pc_GeminiModelMap :: "(string, string) gomap"
  pc_AzureResource :: string
  pc_AzureAPIVersion :: string
  pc_Region :: string
  pc_Project :: string
  pc_Publisher :: string

record ModelRoute =
  mr_Provider :: string
  mr_Model :: string
  mr_Weight :: int

record ModelConfig =
  mc_Routes :: "ModelRoute list"
  mc_Fallbacks :: "ModelRoute list"

record MCPServerConfig =
  ms_Name :: string
  ms_URL :: string
  ms_Headers :: "(string, string) gomap"
  ms_TimeoutMS :: int
  ms_ToolPrefix :: string

record MCPConfig =
  mcp_Enabled :: bool
  mcp_MaxToolRounds :: int
  mcp_ToolTimeoutMS :: int
  mcp_MaxTotalDurationSec :: int
  mcp_MaxResultBytes :: int
  mcp_AutoInjectTools :: bool
  mcp_ToolConflictStrategy :: string
  mcp_Servers :: "MCPServerConfig list"

record MCPAuthConfig =
  ma_Mode :: string
  ma_BearerToken :: string

record MCPServerModeConfig =
  msm_Enabled :: bool
  msm_Endpoint :: string
  msm_Auth :: MCPAuthConfig
  msm_SessionTTLSec :: int

record ReplayRoute =
  rr_Model :: string
  rr_ShadowProvider :: string
  rr_ShadowModel :: string
  rr_SampleRate :: f64

record ReplayConfig =
  rpc_Enabled :: bool
  rpc_Routes :: "ReplayRoute list"

record AgentCardConfig =
  agc_Name :: string
  agc_Version :: string
  agc_Description :: string

record A2AConfig =
  a2a_Enabled :: bool
  a2a_Endpoint :: string
  a2a_URL :: string
  a2a_Authentication :: MCPAuthConfig
  a2a_DefaultModel :: string
  a2a_TaskTTLSec :: int
  a2a_MaxTasks :: int
  a2a_MaxWorkers :: int
  a2a_BlockingMode :: bool
  a2a_AgentCard :: AgentCardConfig

record PluginConfig =
  pl_Name :: string
  pl_Type :: string
  pl_Config :: "(string, json) gomap"

record Config =
  cfg_Server :: ServerConfig
  cfg_Database :: DatabaseConfig
  cfg_Redis :: RedisConfig
  cfg_KMS :: KMSConfig
  cfg_Auth :: AuthConfig
  cfg_Admin :: AdminConfig
  cfg_Billing :: BillingConfig
  cfg_Telemetry :: TelemetryConfig
  cfg_Logging :: LoggingConfig
  cfg_Cache :: CacheConfig
  cfg_Guardrails :: GuardrailsConfig
  cfg_MCP :: MCPConfig
  cfg_MCPServer :: MCPServerModeConfig
  cfg_A2A :: A2AConfig
  cfg_Replay :: ReplayConfig
  cfg_Routing :: RoutingConfig
  cfg_Providers :: "(string, ProviderConfig) gomap"
  cfg_Models :: "(string, ModelConfig) gomap"
  cfg_Plugins :: "PluginConfig list"

section \<open>Endpoints of the server modes\<close>

definition IsSeparatePort :: "MCPServerModeConfig \<Rightarrow> bool" where
  "IsSeparatePort c \<longleftrightarrow> msm_Enabled c \<and> msm_Endpoint c \<noteq> [] \<and> hd (msm_Endpoint c) = CHR '':''"

definition Path :: "MCPServerModeConfig \<Rightarrow> string" where
  "Path c =
     (if IsSeparatePort c then ''/mcp''
      else if msm_Endpoint c \<noteq> '''' then msm_Endpoint c
      else ''/mcp'')"

definition ListenAddr :: "MCPServerModeConfig \<Rightarrow> string" where
  "ListenAddr c = (if IsSeparatePort c then msm_Endpoint c else '''')"

definition A2AIsSeparatePort :: "A2AConfig \<Rightarrow> bool" where
  "A2AIsSeparatePort c \<longleftrightarrow> a2a_Enabled c \<and> a2a_Endpoint c \<noteq> [] \<and> hd (a2a_Endpoint c) = CHR '':''"

definition A2APath :: "A2AConfig \<Rightarrow> string" where
  "A2APath c =
     (if A2AIsSeparatePort c then ''/a2a''
      else if a2a_Endpoint c \<noteq> '''' then a2a_Endpoint c
      else ''/a2a'')"

definition A2AListenAddr :: "A2AConfig \<Rightarrow> string" where
  "A2AListenAddr c = (if A2AIsSeparatePort c then a2a_Endpoint c else '''')"

section \<open>Default configuration\<close>

definition zero_MCPAuth :: MCPAuthConfig where
  "zero_MCPAuth = \<lparr>ma_Mode = '''', ma_BearerToken = ''''\<rparr>"

definition DefaultRetry :: RetryConfig where
  "DefaultRetry = \<lparr>rt_Attempts = 3, rt_Backoff = ''exponential'', rt_InitialMS = 250, rt_MaxMS = 4000,
     rt_RetryOn = [''rate_limit'', ''timeout'', ''server_error'']\<rparr>"

definition Default :: Config where
  "Default =
     \<lparr>cfg_Server = \<lparr>srv_Host = ''0.0.0.0'', srv_Port = 8080, srv_ReadTimeoutMS = 15000,
        srv_WriteTimeoutMS = 15000, srv_IdleTimeoutMS = 60000, srv_ShutdownTimeout = 0, srv_MaxBodySizeKB = 0\<rparr>,
      cfg_Database = \<lparr>db_URL = '''', db_MaxOpenConns = 25, db_MaxIdleConns = 5\<rparr>,
      cfg_Redis = \<lparr>rd_Enabled = False, rd_Addr = ''localhost:6379'', rd_Password = '''', rd_DB = 0,
        rd_MaxRetries = 3, rd_PoolSize = 20, rd_HealthCheckIntervalSec = 10, rd_Cluster = False\<rparr>,
      cfg_KMS = \<lparr>kms_Enabled = False, kms_Type = ''static'', kms_KeyID = '''',
        kms_Vault = \<lparr>vk_Addr = '''', vk_Token = '''', vk_Namespace = '''', vk_TLSSkipVerify = False\<rparr>\<rparr>,
      cfg_Auth = \<lparr>ac_Enabled = False, ac_KeyCacheSize = 10000, ac_KeyCacheTTLSec = 60\<rparr>,
      cfg_Admin = \<lparr>ad_Enabled = False, ad_BearerToken = '''', ad_RBACEnabled = False,
        ad_OIDC = \<lparr>oidc_Enabled = False, oidc_Issuer = '''', oidc_Audience = '''', oidc_DefaultRole = '''',
          oidc_JWKSCacheTTL = 0, oidc_Providers = []\<rparr>\<rparr>,
      cfg_Billing = \<lparr>bc_Prices = [], bc_FailClosed = False\<rparr>,
      cfg_Telemetry = \<lparr>tel_MetricsEnabled = False,
        tel_Tracing = \<lparr>tr_Enabled = False, tr_Endpoint = '''', tr_ServiceName = '''', tr_SampleRate = 0\<rparr>\<rparr>,
      cfg_Logging = \<lparr>log_Level = ''info'', log_Format = ''json'', log_AddSource = False,
        log_RedactPrompts = True, log_LogBodies = False\<rparr>,
      cfg_Cache = \<lparr>cc_Exact = \<lparr>xc_Enabled = True, xc_MaxEntries = 10000, xc_TTLSeconds = 3600\<rparr>,
        cc_Semantic = \<lparr>sc_Enabled = False,
          sc_Embedder = \<lparr>em_Type = '''', em_BaseURL = '''', em_Model = '''', em_APIKey = '''', em_Dimensions = 0\<rparr>,
          sc_SimilarityThreshold = 0, sc_MaxEntries = 0, sc_TTLSeconds = 0,
          sc_EmbeddingCache = \<lparr>emc_MaxEntries = 0, emc_TTLSeconds = 0\<rparr>\<rparr>\<rparr>,
      cfg_Guardrails = \<lparr>gc_Enabled = False, gc_Input = [], gc_Output = [], gc_Models = []\<rparr>,
      cfg_MCP = \<lparr>mcp_Enabled = False, mcp_MaxToolRounds = 0, mcp_ToolTimeoutMS = 0, mcp_MaxTotalDurationSec = 0,
        mcp_MaxResultBytes = 0, mcp_AutoInjectTools = False, mcp_ToolConflictStrategy = '''', mcp_Servers = []\<rparr>,
      cfg_MCPServer = \<lparr>msm_Enabled = False, msm_Endpoint = '''', msm_Auth = zero_MCPAuth, msm_SessionTTLSec = 0\<rparr>,
      cfg_A2A = \<lparr>a2a_Enabled = False, a2a_Endpoint = '''', a2a_URL = '''', a2a_Authentication = zero_MCPAuth,
        a2a_DefaultModel = '''', a2a_TaskTTLSec = 0, a2a_MaxTasks = 0, a2a_MaxWorkers = 0,
        a2a_BlockingMode = False, a2a_AgentCard = \<lparr>agc_Name = '''', agc_Version = '''', agc_Description = ''''\<rparr>\<rparr>,
      cfg_Replay = \<lparr>rpc_Enabled = False, rpc_Routes = []\<rparr>,
      cfg_Routing = \<lparr>rc_Defaults = \<lparr>rdf_TimeoutMS = 60000, rdf_Retry = DefaultRetry\<rparr>, rc_Region = '''',
        rc_RegionStrategy = '''', rc_CostWeights = \<lparr>cw_Cost = 0, cw_Latency = 0, cw_Health = 0\<rparr>\<rparr>,
      cfg_Providers = [], cfg_Models = [], cfg_Plugins = []\<rparr>"

section \<open>Validation\<close>

definition hex_digit :: "nat \<Rightarrow> char" where
  "hex_digit n = (if n < 10 then char_of (48 + n) else char_of (87 + n))"

definition quote_char :: "char \<Rightarrow> string" where
  "quote_char c =
     (let n = of_char c :: nat
      in if n = 34 then [char_of (92::nat), c]
         else if n = 92 then [c, c]
         else if n = 10 then [char_of (92::nat), CHR ''n'']
         else if n = 9 then [char_of (92::nat), CHR ''t'']
         else if n = 13 then [char_of (92::nat), CHR ''r'']
         else if n < 32 \<or> n = 127 then [char_of (92::nat), CHR ''x'', hex_digit (n div 16), hex_digit (n mod 16)]
         else [c])"

text \<open>\<^verbatim>\<open>%q\<close>: the string in double quotes, with escapes.\<close>

definition go_quote :: "string \<Rightarrow> string" where
  "go_quote s = CHR 0x22 # concat (map quote_char s) @ [CHR 0x22]"

definition blank :: "string \<Rightarrow> bool" where
  "blank s \<longleftrightarrow> strings_TrimSpace s = ''''"

definition supportedProviderTypes :: "string list" where
  "supportedProviderTypes = ['''', ''openai'', ''openai-compatible'', ''anthropic'', ''gemini'', ''azure-openai'',
     ''bedrock'', ''vertex'', ''groq'', ''cohere'', ''mistral'']"

text \<open>A check appends its message when its condition holds.\<close>

definition err_if :: "bool \<Rightarrow> string \<Rightarrow> string list" where
  "err_if b msg = (if b then [msg] else [])"

fun validateRegions_from :: "string \<Rightarrow> int \<Rightarrow> string list \<Rightarrow> RegionConfig list \<Rightarrow> string list" where
  "validateRegions_from name i seen [] = []"
| "validateRegions_from name i seen (region # regions) =
     err_if (blank (rg_Name region)) (''provider '' @ go_quote name @ '' region '' @ itoa i @ '' requires name'')
   @ err_if (strings_EqualFold (rg_Name region) ''default'')
       (''provider '' @ go_quote name @ '' region '' @ itoa i @ '': name '' @ go_quote (rg_Name region) @ '' is reserved'')
   @ err_if (blank (rg_BaseURL region)) (''provider '' @ go_quote name @ '' region '' @ itoa i @ '' requires base_url'')
   @ err_if (strings_ToLower (rg_Name region) \<in> set seen)
       (''provider '' @ go_quote name @ '' has duplicate region name '' @ go_quote (rg_Name region))
   @ validateRegions_from name (i + 1) (strings_ToLower (rg_Name region) # seen) regions"

definition validateRegions :: "string \<Rightarrow> RegionConfig list \<Rightarrow> string list" where
  "validateRegions name regions = validateRegions_from name 0 [] regions"

fun validateKeys_from :: "string \<Rightarrow> int \<Rightarrow> ProviderKeyConfig list \<Rightarrow> string list" where
  "validateKeys_from name i [] = []"
| "validateKeys_from name i (key # keys) =
     err_if (blank (pk_ID key)) (''provider '' @ go_quote name @ '' key '' @ itoa i @ '' requires id'')
   @ err_if (blank (pk_Env key) \<and> blank (pk_Value key))
       (''provider '' @ go_quote name @ '' key '' @ go_quote (pk_ID key) @ '' requires env or value'')
   @ validateKeys_from name (i + 1) keys"

text \<open>The defaults that the loop over the providers writes back into the map.\<close>

definition provider_defaults :: "ProviderConfig \<Rightarrow> ProviderConfig" where
  "provider_defaults p =
     (if pc_Type p = ''azure-openai'' \<and> blank (pc_AzureAPIVersion p)
      then p\<lparr>pc_AzureAPIVersion := ''2025-06-01''\<rparr>
      else if pc_Type p \<in> {''groq'', ''cohere'', ''mistral''} \<and> blank (pc_BaseURL p)
      then p\<lparr>pc_BaseURL :=
               if pc_Type p = ''groq'' then ''https://api.groq.com/openai/v1''
               else if pc_Type p = ''cohere'' then ''https://api.cohere.com/v2''
               else ''https://api.mistral.ai/v1''\<rparr>
      else p)"

definition validateProvider :: "string \<Rightarrow> ProviderConfig \<Rightarrow> string list" where
  "validateProvider name p =
     err_if (pc_Type p \<notin> set supportedProviderTypes)
       (''provider '' @ go_quote name @ '' has unsupported type '' @ go_quote (pc_Type p))
   @ err_if (pc_Type p = ''openai-compatible'' \<and> blank (pc_BaseURL p))
       (''provider '' @ go_quote name @ '' type openai-compatible requires base_url'')
   @ err_if (pc_Type p = ''gemini'' \<and> gm_len (pc_GeminiModelMap p) = 0)
       (''provider '' @ go_quote name @ '': gemini_model_map is required for gemini provider type'')
   @ err_if (pc_Type p = ''azure-openai'' \<and> blank (pc_AzureResource p))
       (''provider '' @ go_quote name @ '': azure_resource is required for azure-openai provider type'')
   @ err_if (pc_Type p = ''vertex'' \<and> blank (pc_Project p))
       (''provider '' @ go_quote name @ '': project is required for vertex provider type'')
   @ err_if (pc_Type p = ''vertex'' \<and> blank (pc_Region p))
       (''provider '' @ go_quote name @ '': region is required for vertex provider type'')
   @ validateKeys_from name 0 (pc_Keys p)
   @ validateRegions name (pc_Regions p)"

definition validateProviders :: "(string, ProviderConfig) gomap \<Rightarrow> string list" where
  "validateProviders ps =
     concat (map (\<lambda>(name, p). if blank name then [''provider name cannot be empty''] else validateProvider name p) ps)"

definition fillProviders :: "(string, ProviderConfig) gomap \<Rightarrow> (string, ProviderConfig) gomap" where
  "fillProviders ps = map (\<lambda>(name, p). (name, if blank name then p else provider_defaults p)) ps"

fun validateRoutes_from ::
  "(string, ProviderConfig) gomap \<Rightarrow> string \<Rightarrow> string \<Rightarrow> int \<Rightarrow> ModelRoute list \<Rightarrow> string list" where
  "validateRoutes_from ps modelName label i [] = []"
| "validateRoutes_from ps modelName label i (route # routes) =
     (let pre = ''model '' @ go_quote modelName @ '' '' @ label @ '' '' @ itoa i
      in if blank (mr_Provider route) then [pre @ '' requires provider'']
         else err_if (gm_get ps (mr_Provider route) = None)
                (pre @ '' references unknown provider '' @ go_quote (mr_Provider route))
            @ err_if (blank (mr_Model route)) (pre @ '' requires model'')
            @ err_if (mr_Weight route < 0) (pre @ '' weight cannot be negative''))
   @ validateRoutes_from ps modelName label (i + 1) routes"

definition validateRoutes ::
  "(string, ProviderConfig) gomap \<Rightarrow> string \<Rightarrow> string \<Rightarrow> ModelRoute list \<Rightarrow> string list" where
  "validateRoutes ps modelName label routes = validateRoutes_from ps modelName label 0 routes"

definition validateModels :: "(string, ProviderConfig) gomap \<Rightarrow> (string, ModelConfig) gomap \<Rightarrow> string list" where
  "validateModels ps ms =
     concat (map (\<lambda>(name, m).
       if blank name then [''model name cannot be empty'']
       else err_if (mc_Routes m = []) (''model '' @ go_quote name @ '' requires at least one route'')
          @ validateRoutes ps name ''route'' (mc_Routes m)
          @ validateRoutes ps name ''fallback'' (mc_Fallbacks m)) ms)"

fun validateServers_from :: "int \<Rightarrow> string list \<Rightarrow> MCPServerConfig list \<Rightarrow> string list" where
  "validateServers_from i names [] = []"
| "validateServers_from i names (server # servers) =
     err_if (blank (ms_Name server)) (''mcp.servers['' @ itoa i @ ''] requires name'')
   @ err_if (blank (ms_URL server)) (''mcp.servers['' @ itoa i @ ''] requires url'')
   @ err_if (\<not> strings_HasPrefix (ms_URL server) ''http://'' \<and> \<not> strings_HasPrefix (ms_URL server) ''https://'')
       (''mcp.servers['' @ itoa i @ ''].url must be a valid HTTP(S) URL'')
   @ err_if (blank (ms_ToolPrefix server)) (''mcp.servers['' @ itoa i @ ''] requires tool_prefix'')
   @ err_if (ms_Name server \<in> set names)
       (''mcp.servers['' @ itoa i @ ''] has duplicate name '' @ go_quote (ms_Name server))
   @ validateServers_from (i + 1) (ms_Name server # names) servers"

definition validateMCP :: "MCPConfig \<Rightarrow> string list" where
  "validateMCP c =
     (if \<not> mcp_Enabled c then []
      else err_if (mcp_MaxToolRounds c < 0 \<or> 20 < mcp_MaxToolRounds c) ''mcp.max_tool_rounds must be between 1 and 20''
         @ err_if (mcp_ToolTimeoutMS c < 0) ''mcp.tool_timeout_ms cannot be negative''
         @ err_if (mcp_MaxTotalDurationSec c < 0) ''mcp.max_total_duration_seconds cannot be negative''
         @ err_if (mcp_MaxResultBytes c < 0) ''mcp.max_result_bytes cannot be negative''
         @ err_if (mcp_ToolConflictStrategy c \<noteq> '''' \<and> mcp_ToolConflictStrategy c \<noteq> ''skip''
                   \<and> mcp_ToolConflictStrategy c \<noteq> ''error'')
             (''mcp.tool_conflict_strategy must be '' @ go_quote ''skip'' @ '' or '' @ go_quote ''error'')
         @ validateServers_from 0 [] (mcp_Servers c))"

fun validateStages_from :: "string \<Rightarrow> int \<Rightarrow> GuardrailStageConfig list \<Rightarrow> string list" where
  "validateStages_from phase i [] = []"
| "validateStages_from phase i (stage # stages) =
     err_if (gs_Type stage \<notin> {''pii'', ''regex'', ''keyword'', ''length'', ''webhook'', ''json_schema''})
       (''guardrails.'' @ phase @ ''['' @ itoa i @ ''] has unknown type '' @ go_quote (gs_Type stage))
   @ validateStages_from phase (i + 1) stages"

definition validateRouting :: "RoutingConfig \<Rightarrow> string list" where
  "validateRouting r =
     err_if (rt_Attempts (rdf_Retry (rc_Defaults r)) < 0) ''routing.defaults.retry.attempts cannot be negative''
   @ (let rs = strings_ToLower (rc_RegionStrategy r)
      in err_if (rs \<noteq> '''' \<and> rs \<noteq> ''priority'' \<and> rs \<noteq> ''latency'')
           (''routing.region_strategy must be '' @ go_quote ''priority'' @ '' or '' @ go_quote ''latency''))"

definition validateAccess :: "Config \<Rightarrow> string list" where
  "validateAccess c =
     err_if (ac_Enabled (cfg_Auth c) \<and> blank (db_URL (cfg_Database c)))
       ''auth is enabled but database.url is not configured''
   @ err_if (ad_Enabled (cfg_Admin c) \<and> blank (db_URL (cfg_Database c)))
       ''admin is enabled but database.url is not configured''
   @ err_if (ad_Enabled (cfg_Admin c) \<and> ad_BearerToken (cfg_Admin c) = ''''
             \<and> \<not> oidc_Enabled (ad_OIDC (cfg_Admin c)))
       ''admin is enabled but no authentication method is configured (set admin_token or enable OIDC)''
   @ err_if (tr_Enabled (tel_Tracing (cfg_Telemetry c)) \<and>
             (tr_SampleRate (tel_Tracing (cfg_Telemetry c)) \<le> 0 \<or> 1 < tr_SampleRate (tel_Tracing (cfg_Telemetry c))))
       ''telemetry.tracing.sample_rate must be between 0 and 1''
   @ err_if (xc_MaxEntries (cc_Exact (cfg_Cache c)) < 0) ''cache.exact.max_entries cannot be negative''
   @ err_if (xc_TTLSeconds (cc_Exact (cfg_Cache c)) < 0) ''cache.exact.ttl_seconds cannot be negative''"

definition validateGuardrails :: "GuardrailsConfig \<Rightarrow> string list" where
  "validateGuardrails g =
     (if gc_Enabled g
      then validateStages_from ''input'' 0 (gc_Input g) @ validateStages_from ''output'' 0 (gc_Output g)
      else [])"

definition validateSemantic :: "string \<Rightarrow> SemanticCacheConfig \<Rightarrow> string list" where
  "validateSemantic url s =
     (if \<not> sc_Enabled s then []
      else err_if (blank url) ''cache.semantic is enabled but database.url is not configured''
         @ (let etype = strings_ToLower (em_Type (sc_Embedder s))
            in err_if (etype \<noteq> ''openai'' \<and> etype \<noteq> ''ollama'')
                 (''cache.semantic.embedder.type must be '' @ go_quote ''openai'' @ '' or '' @ go_quote ''ollama''))
         @ err_if (blank (em_BaseURL (sc_Embedder s))) ''cache.semantic.embedder.base_url is required''
         @ err_if (sc_SimilarityThreshold s < 0 \<or> 1 < sc_SimilarityThreshold s)
             ''cache.semantic.similarity_threshold must be between 0 and 1'')"

definition validateRedis :: "RedisConfig \<Rightarrow> string list" where
  "validateRedis r =
     (if \<not> rd_Enabled r then []
      else err_if (blank (rd_Addr r)) ''redis.addr is required when redis is enabled''
         @ err_if (rd_PoolSize r < 0) ''redis.pool_size cannot be negative''
         @ err_if (rd_HealthCheckIntervalSec r < 0) ''redis.health_check_interval_seconds cannot be negative'')"

definition validateKMS :: "KMSConfig \<Rightarrow> string list" where
  "validateKMS k =
     (if \<not> kms_Enabled k then []
      else err_if (kms_Type k \<notin> {''static'', ''aws-kms'', ''vault''})
             (''kms.type must be '' @ [CHR 0x27] @ ''static'' @ [CHR 0x27] @ '', '' @ [CHR 0x27] @ ''aws-kms''
              @ [CHR 0x27] @ '', or '' @ [CHR 0x27] @ ''vault'' @ [CHR 0x27])
         @ err_if (kms_Type k = ''aws-kms'' \<and> blank (kms_KeyID k)) ''kms.key_id is required when kms.type is aws-kms''
         @ err_if (kms_Type k = ''vault'' \<and> blank (vk_Addr (kms_Vault k)))
             ''kms.vault.addr is required when kms.type is vault'')"

definition validateA2A :: "A2AConfig \<Rightarrow> string list" where
  "validateA2A a =
     (if \<not> a2a_Enabled a then []
      else err_if (blank (a2a_DefaultModel a)) ''a2a.default_model is required when a2a is enabled''
         @ err_if (ma_Mode (a2a_Authentication a) = ''bearer_token'' \<and> blank (ma_BearerToken (a2a_Authentication a)))
             ''a2a.authentication.bearer_token is required when mode=bearer_token'')"

definition Validate :: "Config \<Rightarrow> string list \<times> Config" where
  "Validate c =
     (let errs =
          err_if (srv_Port (cfg_Server c) \<le> 0 \<or> 65535 < srv_Port (cfg_Server c))
            ''server.port must be between 1 and 65535''
        @ validateProviders (cfg_Providers c)
        @ validateModels (cfg_Providers c) (cfg_Models c)
        @ validateRouting (cfg_Routing c)
        @ validateAccess c
        @ validateGuardrails (cfg_Guardrails c)
        @ validateSemantic (db_URL (cfg_Database c)) (cc_Semantic (cfg_Cache c))
        @ validateMCP (cfg_MCP c)
        @ validateRedis (cfg_Redis c)
        @ validateKMS (cfg_KMS c)
        @ validateA2A (cfg_A2A c)
      in (errs, c\<lparr>cfg_Providers := fillProviders (cfg_Providers c)\<rparr>))"

fun numbered :: "int \<Rightarrow> string list \<Rightarrow> string" where
  "numbered i [] = ''''"
| "numbered i (e # es) = [CHR 0x0A] @ ''  '' @ itoa i @ ''. '' @ e @ numbered (i + 1) es"

definition Validate_error :: "string list \<Rightarrow> string option" where
  "Validate_error errs =
     (case errs of
        [] \<Rightarrow> None
      | [e] \<Rightarrow> Some (''invalid config: '' @ e)
      | _ \<Rightarrow> Some (''invalid config:'' @ numbered 1 errs))"

section \<open>Loading\<close>

definition normalize_config :: "Config \<Rightarrow> Config" where
  "normalize_config c =
     (let srv = cfg_Server c; lg = cfg_Logging c; db = cfg_Database c; au = cfg_Auth c;
          ex = cc_Exact (cfg_Cache c); rt = cfg_Routing c; df = rc_Defaults rt; re = rdf_Retry df;
          re = re\<lparr>rt_Attempts := if rt_Attempts re \<le> 0 then 1 else rt_Attempts re,
                  rt_InitialMS := if rt_InitialMS re \<le> 0 then 250 else rt_InitialMS re,
                  rt_MaxMS := if rt_MaxMS re \<le> 0 then 4000 else rt_MaxMS re\<rparr>;
          df = df\<lparr>rdf_TimeoutMS := if rdf_TimeoutMS df \<le> 0 then 60000 else rdf_TimeoutMS df, rdf_Retry := re\<rparr>
      in c\<lparr>cfg_Server := srv\<lparr>srv_Host := if srv_Host srv = '''' then ''0.0.0.0'' else srv_Host srv,
                               srv_MaxBodySizeKB := if srv_MaxBodySizeKB srv \<le> 0 then 10240 else srv_MaxBodySizeKB srv\<rparr>,
           cfg_Logging := lg\<lparr>log_Level := if log_Level lg = '''' then ''info'' else log_Level lg,
                               log_Format := if log_Format lg = '''' then ''json'' else log_Format lg\<rparr>,
           cfg_Database := db\<lparr>db_MaxOpenConns := if db_MaxOpenConns db \<le> 0 then 25 else db_MaxOpenConns db,
                               db_MaxIdleConns := if db_MaxIdleConns db \<le> 0 then 5 else db_MaxIdleConns db\<rparr>,
           cfg_Auth := au\<lparr>ac_KeyCacheSize := if ac_KeyCacheSize au \<le> 0 then 10000 else ac_KeyCacheSize au,
                          ac_KeyCacheTTLSec := if ac_KeyCacheTTLSec au \<le> 0 then 60 else ac_KeyCacheTTLSec au\<rparr>,
           cfg_Cache := (cfg_Cache c)\<lparr>cc_Exact :=
             ex\<lparr>xc_MaxEntries := if xc_MaxEntries ex \<le> 0 then 10000 else xc_MaxEntries ex,
                xc_TTLSeconds := if xc_TTLSeconds ex \<le> 0 then 3600 else xc_TTLSeconds ex\<rparr>\<rparr>,
           cfg_Routing := rt\<lparr>rc_Defaults := df\<rparr>\<rparr>)"

datatype load_error = ReadError | ParseError | InvalidConfig "string list"

text \<open>
  What the file system gives for the path, what \<^verbatim>\<open>yaml.Unmarshal\<close> makes of the text on top of the
  default configuration, and the environment are arguments.
\<close>

datatype file_read = NotExist | ReadFailed | Contents string

definition Load ::
  "(string \<Rightarrow> Config \<Rightarrow> Config option) \<Rightarrow> (string \<Rightarrow> string) \<Rightarrow> file_read \<Rightarrow> load_error + Config" where
  "Load yaml env file =
     (case file of
        NotExist \<Rightarrow>
          (case Validate (normalize_config Default) of
             ([], c) \<Rightarrow> Inr c
           | (errs, c) \<Rightarrow> Inl (InvalidConfig errs))
      | ReadFailed \<Rightarrow> Inl ReadError
      | Contents data \<Rightarrow>
          (case yaml data Default of
             None \<Rightarrow> Inl ParseError
           | Some c \<Rightarrow>
               let c = normalize_config c;
                   c = (if db_URL (cfg_Database c) = ''''
                        then c\<lparr>cfg_Database := (cfg_Database c)\<lparr>db_URL := env ''DATABASE_URL''\<rparr>\<rparr> else c);
                   c = (if ad_BearerToken (cfg_Admin c) = ''''
                        then c\<lparr>cfg_Admin := (cfg_Admin c)\<lparr>ad_BearerToken := env ''ADMIN_TOKEN''\<rparr>\<rparr> else c)
               in case Validate c of
                    ([], c) \<Rightarrow> Inr c
                  | (errs, c) \<Rightarrow> Inl (InvalidConfig errs)))"

section \<open>What an accepted configuration guarantees\<close>

lemma err_if_Nil [simp]: "err_if b m = [] \<longleftrightarrow> \<not> b"
  by (simp add: err_if_def)

definition route_ok :: "(string, ProviderConfig) gomap \<Rightarrow> ModelRoute \<Rightarrow> bool" where
  "route_ok ps r \<longleftrightarrow> gm_get ps (mr_Provider r) \<noteq> None \<and> \<not> blank (mr_Model r) \<and> 0 \<le> mr_Weight r"

definition model_ok :: "(string, ProviderConfig) gomap \<Rightarrow> ModelConfig \<Rightarrow> bool" where
  "model_ok ps m \<longleftrightarrow> mc_Routes m \<noteq> [] \<and> list_all (route_ok ps) (mc_Routes m) \<and> list_all (route_ok ps) (mc_Fallbacks m)"

definition regions_ok :: "RegionConfig list \<Rightarrow> bool" where
  "regions_ok rs \<longleftrightarrow> distinct (map (\<lambda>r. strings_ToLower (rg_Name r)) rs)
     \<and> list_all (\<lambda>r. \<not> blank (rg_Name r) \<and> \<not> strings_EqualFold (rg_Name r) ''default'' \<and> \<not> blank (rg_BaseURL r)) rs"

lemma validateRoutes_Nil: "validateRoutes_from ps n l i rs = [] \<Longrightarrow> list_all (route_ok ps) rs"
  by (induction rs arbitrary: i) (auto simp: route_ok_def Let_def split: if_splits)

lemma validateRegions_Nil:
  "validateRegions_from n i seen rs = [] \<Longrightarrow>
   regions_ok rs \<and> (\<forall>r \<in> set rs. strings_ToLower (rg_Name r) \<notin> set seen)"
  by (induction rs arbitrary: i seen) (fastforce simp: regions_ok_def)+

lemma validateProviders_Nil:
  assumes "validateProviders ps = []" and "(name, p) \<in> set ps"
  shows "regions_ok (pc_Regions p) \<and> pc_Type p \<in> set supportedProviderTypes \<and> \<not> blank name"
proof -
  from assms have "(if blank name then [''provider name cannot be empty''] else validateProvider name p) = []"
    unfolding validateProviders_def by (auto simp: concat_eq_Nil_conv)
  then have v: "validateProvider name p = []" and b: "\<not> blank name" by (auto split: if_splits)
  then have "validateRegions_from name 0 [] (pc_Regions p) = []"
    by (simp add: validateProvider_def validateRegions_def)
  with validateRegions_Nil v b show ?thesis by (auto simp: validateProvider_def)
qed

lemma validateModels_Nil:
  assumes "validateModels ps ms = []" and "(name, m) \<in> set ms"
  shows "model_ok ps m"
proof -
  from assms have "(if blank name then [''model name cannot be empty'']
       else err_if (mc_Routes m = []) (''model '' @ go_quote name @ '' requires at least one route'')
          @ validateRoutes ps name ''route'' (mc_Routes m)
          @ validateRoutes ps name ''fallback'' (mc_Fallbacks m)) = []"
    unfolding validateModels_def by (auto simp: concat_eq_Nil_conv)
  then show ?thesis
    by (auto simp: model_ok_def validateRoutes_def dest: validateRoutes_Nil split: if_splits)
qed

lemma fillProviders_get:
  "gm_get (fillProviders ps) k = map_option (\<lambda>p. if blank k then p else provider_defaults p) (gm_get ps k)"
  by (induction ps) (auto simp: fillProviders_def gm_get_def)

lemma provider_defaults_regions [simp]: "pc_Regions (provider_defaults p) = pc_Regions p"
  "pc_Type (provider_defaults p) = pc_Type p"
  by (simp_all add: provider_defaults_def)

lemma model_ok_fill: "model_ok (fillProviders ps) m \<longleftrightarrow> model_ok ps m"
proof -
  have "route_ok (fillProviders ps) = route_ok ps"
    by (simp add: fun_eq_iff route_ok_def fillProviders_get)
  then show ?thesis by (simp add: model_ok_def)
qed

definition config_ok :: "Config \<Rightarrow> bool" where
  "config_ok c \<longleftrightarrow>
     list_all (\<lambda>(name, m). model_ok (cfg_Providers c) m) (cfg_Models c)
   \<and> list_all (\<lambda>(name, p). regions_ok (pc_Regions p) \<and> pc_Type p \<in> set supportedProviderTypes) (cfg_Providers c)
   \<and> 0 < srv_Port (cfg_Server c) \<and> srv_Port (cfg_Server c) \<le> 65535"

lemma Validate_ok:
  assumes "Validate c = ([], c')"
  shows "config_ok c' \<and> cfg_Routing c' = cfg_Routing c \<and> cfg_Models c' = cfg_Models c"
proof -
  from assms have p: "validateProviders (cfg_Providers c) = []"
    and m: "validateModels (cfg_Providers c) (cfg_Models c) = []"
    and s: "0 < srv_Port (cfg_Server c)" "srv_Port (cfg_Server c) \<le> 65535"
    and c': "c' = c\<lparr>cfg_Providers := fillProviders (cfg_Providers c)\<rparr>"
    by (auto simp: Validate_def Let_def)
  from m have "list_all (\<lambda>(name, m). model_ok (cfg_Providers c') m) (cfg_Models c')"
    using c' by (auto simp: list_all_iff model_ok_fill dest: validateModels_Nil)
  moreover have "list_all (\<lambda>(name, p). regions_ok (pc_Regions p) \<and> pc_Type p \<in> set supportedProviderTypes) (cfg_Providers c')"
    using c' validateProviders_Nil [OF p] by (auto simp: list_all_iff fillProviders_def)
  ultimately show ?thesis using c' s by (simp add: config_ok_def)
qed

definition retry_ready :: "RetryConfig \<Rightarrow> bool" where
  "retry_ready r \<longleftrightarrow> 1 \<le> rt_Attempts r \<and> 1 \<le> rt_InitialMS r \<and> 1 \<le> rt_MaxMS r"

lemma normalize_retry: "retry_ready (rdf_Retry (rc_Defaults (cfg_Routing (normalize_config c))))"
  by (simp add: normalize_config_def retry_ready_def Let_def)

text \<open>C33. A configuration that loads is fit to route: every model has at least one route, every
  route and fallback names a configured provider and a model with a weight that is not negative,
  the regions of a provider have distinct names that are not reserved, and the retry settings
  are positive, whatever the file, the environment and the YAML package deliver.\<close>

theorem loaded_config_ready:
  assumes "Load yaml env src = Inr c"
  shows "config_ok c \<and> retry_ready (rdf_Retry (rc_Defaults (cfg_Routing c)))"
proof -
  have v: "config_ok c \<and> retry_ready (rdf_Retry (rc_Defaults (cfg_Routing c)))"
    if "Validate c0 = ([], c)" "cfg_Routing c0 = cfg_Routing (normalize_config c1)" for c0 c1
    using Validate_ok [OF that(1)] that(2) normalize_retry [of c1] by simp
  show ?thesis
  proof (cases src)
    case NotExist
    with assms v [of "normalize_config Default" Default] show ?thesis
      by (auto simp: Load_def split: prod.splits list.splits)
  next
    case ReadFailed
    with assms show ?thesis by (simp add: Load_def)
  next
    case (Contents data)
    with assms show ?thesis
      by (auto simp: Load_def Let_def split: option.splits prod.splits list.splits if_splits intro!: v)
  qed
qed

theorem loaded_config_ready_witness:
  "Load (\<lambda>_ _. None) (\<lambda>_. '''') NotExist = Inr (normalize_config Default) \<and> config_ok (normalize_config Default)"
proof -
  have "Load (\<lambda>_ _. None) (\<lambda>_. '''') NotExist = Inr (normalize_config Default)"
    by (simp add: Load_def Validate_def normalize_config_def Default_def Let_def err_if_def
        validateProviders_def validateModels_def validateRouting_def validateAccess_def validateGuardrails_def
        validateSemantic_def validateMCP_def validateRedis_def validateKMS_def validateA2A_def
        fillProviders_def strings_ToLower_def DefaultRetry_def)
  with loaded_config_ready [OF this] show ?thesis by simp
qed

text \<open>The validation rejects region strategies that the router implements: a configuration with
  \<^verbatim>\<open>region_strategy\<close> \<^verbatim>\<open>cost\<close> or \<^verbatim>\<open>smart\<close>, in any case, never loads, so \<^verbatim>\<open>selectByCost\<close> and \<^verbatim>\<open>selectSmart\<close> cannot be
  reached from a configuration file.\<close>

theorem validate_rejects_cost_and_smart:
  assumes "strings_ToLower (rc_RegionStrategy (cfg_Routing c)) \<in> {''cost'', ''smart''}"
  shows "fst (Validate c) \<noteq> []"
  using assms by (auto simp: Validate_def validateRouting_def Let_def)

theorem validate_rejects_cost_and_smart_witness:
  "fst (Validate (Default\<lparr>cfg_Routing := (cfg_Routing Default)\<lparr>rc_RegionStrategy := ''Smart''\<rparr>\<rparr>)) \<noteq> []"
  by (rule validate_rejects_cost_and_smart) code_simp

text \<open>A provider key that has only an \<^verbatim>\<open>encrypted_value\<close>, the form the key management service
  decrypts, is rejected: the validation asks for \<^verbatim>\<open>env\<close> or \<^verbatim>\<open>value\<close>.\<close>

theorem validate_rejects_encrypted_key:
  assumes "(name, p) \<in> set (cfg_Providers c)" and "key \<in> set (pc_Keys p)"
    and "pk_Env key = ''''" and "pk_Value key = ''''"
  shows "fst (Validate c) \<noteq> []"
proof
  have keys: "validateKeys_from name i ks = [] \<Longrightarrow> key \<in> set ks \<Longrightarrow> False" for i ks
    using assms(3,4) by (induction ks arbitrary: i) (auto simp: blank_def strings_TrimSpace_def)
  assume "fst (Validate c) = []"
  then have "validateProviders (cfg_Providers c) = []" by (simp add: Validate_def Let_def)
  then have "(if blank name then [''provider name cannot be empty''] else validateProvider name p) = []"
    using assms(1) unfolding validateProviders_def by (auto simp: concat_eq_Nil_conv)
  with keys [of 0 "pc_Keys p"] assms(2) show False by (auto simp: validateProvider_def split: if_splits)
qed

definition encrypted_key :: ProviderKeyConfig where
  "encrypted_key = \<lparr>pk_ID = ''k'', pk_Env = '''', pk_Value = '''', pk_EncryptedValue = ''enc:abc'', pk_Weight = 1\<rparr>"

definition encrypted_provider :: ProviderConfig where
  "encrypted_provider = \<lparr>pc_Type = ''openai'', pc_BaseURL = '''', pc_Keys = [encrypted_key], pc_Regions = [],
     pc_GeminiModelMap = [], pc_AzureResource = '''', pc_AzureAPIVersion = '''', pc_Region = '''',
     pc_Project = '''', pc_Publisher = ''''\<rparr>"

theorem validate_rejects_encrypted_key_witness:
  "fst (Validate (Default\<lparr>cfg_Providers := [(''openai'', encrypted_provider)]\<rparr>)) \<noteq> []"
  by (rule validate_rejects_encrypted_key [where name = "''openai''" and p = encrypted_provider and key = encrypted_key])
    (simp_all add: encrypted_provider_def encrypted_key_def)

end
