(* ===== verification/Semantic_Cache.thy ===== *)
theory Semantic_Cache
  imports Embedding_Cache Response_Cache Circuit_Breaker Gateway_Config
begin

text \<open>
  The semantic cache, \<^verbatim>\<open>internal/cache/semantic/cache.go\<close> and \<^verbatim>\<open>circuit.go\<close>, and the cache of two tiers,
  \<^verbatim>\<open>internal/cache/tiered.go\<close>. The embedding service and the database with its vector search are
  parameters, the record \<open>sem_env\<close> of functions on a state \<open>'w\<close> of the outside world. The clock is a
  function: an operation that reads it more than once reads \<open>clk 0\<close>, \<open>clk 1\<close>, and so on. The outer
  option of a result is \<^term>\<open>None\<close> where the embedding cache would panic or not return.

  The lemmas show that the breaker of the embedder behaves as the one of the providers, that an open
  breaker and a cached text keep the embedder from being called, and that a hit in the first tier
  leaves the second alone.
\<close>

section \<open>The breaker of the embedder\<close>

record CircuitBreaker =
  cb_failures :: int
  cb_lastFail :: gotime
  cb_threshold :: int
  cb_window :: duration
  cb_cooldown :: duration
  cb_openedAt :: gotime

definition NewCircuitBreaker :: CircuitBreaker where
  "NewCircuitBreaker = \<lparr>cb_failures = 0, cb_lastFail = time_zero, cb_threshold = 3,
     cb_window = 30 * time_Second, cb_cooldown = 60 * time_Second, cb_openedAt = time_zero\<rparr>"

definition cb_Allow :: "gotime \<Rightarrow> CircuitBreaker \<Rightarrow> bool \<times> CircuitBreaker" where
  "cb_Allow now cb =
     (if cb_failures cb < cb_threshold cb then (True, cb)
      else if cb_cooldown cb < time_Sub now (cb_openedAt cb) then (True, cb\<lparr>cb_failures := 0\<rparr>)
      else (False, cb))"

definition cb_RecordSuccess :: "CircuitBreaker \<Rightarrow> CircuitBreaker" where
  "cb_RecordSuccess cb = cb\<lparr>cb_failures := 0\<rparr>"

definition cb_RecordFailure :: "gotime \<Rightarrow> CircuitBreaker \<Rightarrow> CircuitBreaker" where
  "cb_RecordFailure now cb =
     (let cb = (if cb_window cb < time_Sub now (cb_lastFail cb) then cb\<lparr>cb_failures := 1\<rparr>
                else cb\<lparr>cb_failures := wrap64 (cb_failures cb + 1)\<rparr>);
          cb = cb\<lparr>cb_lastFail := now\<rparr>
      in if cb_threshold cb \<le> cb_failures cb then cb\<lparr>cb_openedAt := now\<rparr> else cb)"

definition cb_State :: "gotime \<Rightarrow> CircuitBreaker \<Rightarrow> string" where
  "cb_State now cb =
     (if cb_failures cb < cb_threshold cb then ''closed''
      else if cb_cooldown cb < time_Sub now (cb_openedAt cb) then ''half-open''
      else ''open'')"

text \<open>The embedder's breaker seen as a breaker of a provider.\<close>

definition as_breaker :: "CircuitBreaker \<Rightarrow> Breaker" where
  "as_breaker cb = \<lparr>br_key = '''', br_threshold = cb_threshold cb, br_window = cb_window cb,
     br_cooldown = cb_cooldown cb, br_failures = cb_failures cb, br_lastFail = cb_lastFail cb,
     br_openedAt = cb_openedAt cb\<rparr>"

lemma cb_refines_breaker:
  "fst (cb_Allow now cb) = fst (localAllow now (as_breaker cb))
   \<and> as_breaker (snd (cb_Allow now cb)) = snd (localAllow now (as_breaker cb))
   \<and> as_breaker (cb_RecordSuccess cb) = localRecordSuccess (as_breaker cb)
   \<and> as_breaker (cb_RecordFailure now cb) = localRecordFailure now (as_breaker cb)"
  by (simp add: cb_Allow_def localAllow_def cb_RecordSuccess_def localRecordSuccess_def
      cb_RecordFailure_def localRecordFailure_def as_breaker_def Let_def)

section \<open>The cache\<close>

record 'w sem_env =
  se_hashText :: "string \<Rightarrow> string"
  se_Embed :: "string \<Rightarrow> 'w \<Rightarrow> f32 list option \<times> 'w"
  se_select :: "gotime \<Rightarrow> string \<Rightarrow> string \<Rightarrow> f64 \<Rightarrow> 'w \<Rightarrow> json option option"
  se_insert :: "string \<Rightarrow> string \<Rightarrow> string \<Rightarrow> json \<Rightarrow> gotime \<Rightarrow> 'w \<Rightarrow> 'w"
  se_prune :: "gotime \<Rightarrow> 'w \<Rightarrow> 'w"

record Cache =
  sm_embedCache :: EmbeddingCache
  sm_circuit :: CircuitBreaker
  sm_threshold :: f64
  sm_maxEntries :: int
  sm_ttl :: duration

text \<open>The part of \<^verbatim>\<open>NewCache\<close> after the embedder was created and the extension was found.\<close>

definition NewCache :: "SemanticCacheConfig \<Rightarrow> Cache" where
  "NewCache cfg =
     (let threshold = sc_SimilarityThreshold cfg;
          threshold = (if threshold \<le> 0 \<or> 1 < threshold then float64 (92 / 100) else threshold);
          maxEntries = (if sc_MaxEntries cfg \<le> 0 then 10000 else sc_MaxEntries cfg);
          ttl = wrap64 (sc_TTLSeconds cfg * time_Second);
          ttl = (if ttl \<le> 0 then time_Hour else ttl);
          embedCacheMax = (if emc_MaxEntries (sc_EmbeddingCache cfg) \<le> 0 then 5000 else emc_MaxEntries (sc_EmbeddingCache cfg));
          embedCacheTTL = wrap64 (emc_TTLSeconds (sc_EmbeddingCache cfg) * time_Second);
          embedCacheTTL = (if embedCacheTTL \<le> 0 then time_Hour else embedCacheTTL)
      in \<lparr>sm_embedCache = NewEmbeddingCache embedCacheMax embedCacheTTL, sm_circuit = NewCircuitBreaker,
          sm_threshold = threshold, sm_maxEntries = maxEntries, sm_ttl = ttl\<rparr>)"

fun vector_tail :: "f32 list \<Rightarrow> string" where
  "vector_tail [] = '']''"
| "vector_tail (f # fs) = '','' @ fmt_fixed 6 f @ vector_tail fs"

definition vectorString :: "f32 list \<Rightarrow> string" where
  "vectorString v = (case v of [] \<Rightarrow> ''[]'' | f # fs \<Rightarrow> ''['' @ fmt_fixed 6 f @ vector_tail fs)"

definition getEmbedding ::
  "'w sem_env \<Rightarrow> (nat \<Rightarrow> gotime) \<Rightarrow> string \<Rightarrow> Cache \<Rightarrow> 'w \<Rightarrow> (f32 list option \<times> Cache \<times> 'w) option" where
  "getEmbedding E clk txt c w =
     (case cb_Allow (clk 0) (sm_circuit c) of
        (False, cb) \<Rightarrow> Some (None, c\<lparr>sm_circuit := cb\<rparr>, w)
      | (True, cb) \<Rightarrow> do {
          let c = c\<lparr>sm_circuit := cb\<rparr>;
          (cached, ec) \<leftarrow> EmbeddingCache_Get (se_hashText E) (clk 1) txt (sm_embedCache c);
          let c = c\<lparr>sm_embedCache := ec\<rparr>;
          (case cached of
             Some e \<Rightarrow> Some (Some e, c, w)
           | None \<Rightarrow>
               (case se_Embed E txt w of
                  (None, w) \<Rightarrow> Some (None, c\<lparr>sm_circuit := cb_RecordFailure (clk 2) (sm_circuit c)\<rparr>, w)
                | (Some e, w) \<Rightarrow> do {
                    let c = c\<lparr>sm_circuit := cb_RecordSuccess (sm_circuit c)\<rparr>;
                    ec \<leftarrow> EmbeddingCache_Set (se_hashText E) (clk 2) txt e (sm_embedCache c);
                    Some (Some e, c\<lparr>sm_embedCache := ec\<rparr>, w)
                  }))
        })"

text \<open>The value of a hit; a miss and every error are \<^term>\<open>None\<close>, the error result is always nil.\<close>

definition Cache_Get ::
  "'w sem_env \<Rightarrow> (nat \<Rightarrow> gotime) \<Rightarrow> string \<Rightarrow> string \<Rightarrow> Cache \<Rightarrow> 'w
     \<Rightarrow> (ChatCompletionResponse option \<times> Cache \<times> 'w) option" where
  "Cache_Get E clk model queryText c w =
     getEmbedding E clk queryText c w \<bind>
       (\<lambda>(embedding, c, w).
          case embedding of
            None \<Rightarrow> Some (None, c, w)
          | Some e \<Rightarrow>
              let maxDistance = fsub 1 (sm_threshold c)
              in case se_select E (clk 3) model (vectorString e) maxDistance w of
                   None \<Rightarrow> Some (None, c, w)
                 | Some None \<Rightarrow> Some (None, c, w)
                 | Some (Some respJSON) \<Rightarrow> Some (unmarshal_Response respJSON zero_Response, c, w))"

definition Cache_Set ::
  "'w sem_env \<Rightarrow> (nat \<Rightarrow> gotime) \<Rightarrow> string \<Rightarrow> string \<Rightarrow> ChatCompletionResponse \<Rightarrow> Cache \<Rightarrow> 'w
     \<Rightarrow> (Cache \<times> 'w) option" where
  "Cache_Set E clk model queryText resp c w =
     getEmbedding E clk queryText c w \<bind>
       (\<lambda>(embedding, c, w).
          case embedding of
            None \<Rightarrow> Some (c, w)
          | Some e \<Rightarrow> Some (c, se_insert E model (vectorString e) (se_hashText E queryText)
              (marshal_Response resp) (time_Add (clk 3) (sm_ttl c)) w))"

definition prune :: "'w sem_env \<Rightarrow> gotime \<Rightarrow> 'w \<Rightarrow> 'w" where
  "prune E now w = se_prune E now w"

section \<open>The embedder is spared\<close>

definition sem_inv :: "Cache \<Rightarrow> bool" where
  "sem_inv c \<longleftrightarrow> ec_inv (sm_embedCache c) \<and> 0 < cb_threshold (sm_circuit c)"

lemma cb_threshold_const [simp]:
  "cb_threshold (snd (cb_Allow now cb)) = cb_threshold cb"
  "cb_threshold (cb_RecordSuccess cb) = cb_threshold cb"
  "cb_threshold (cb_RecordFailure now cb) = cb_threshold cb"
  by (simp_all add: cb_Allow_def cb_RecordSuccess_def cb_RecordFailure_def Let_def)

lemma getEmbedding_hit:
  assumes "cb_Allow (clk 0) (sm_circuit c) = (True, cb)"
    and "EmbeddingCache_Get (se_hashText E) (clk 1) t (sm_embedCache c) = Some (Some e, ec)"
  shows "getEmbedding E clk t c w = Some (Some e, c\<lparr>sm_circuit := cb, sm_embedCache := ec\<rparr>, w)"
  using assms by (simp add: getEmbedding_def Let_def)

lemma getEmbedding_miss:
  assumes "cb_Allow (clk 0) (sm_circuit c) = (True, cb)"
    and "EmbeddingCache_Get (se_hashText E) (clk 1) t (sm_embedCache c) = Some (None, ec)"
    and "se_Embed E t w = (Some e, w')"
    and "EmbeddingCache_Set (se_hashText E) (clk 2) t e ec = Some ec'"
  shows "getEmbedding E clk t c w =
    Some (Some e, c\<lparr>sm_circuit := cb_RecordSuccess cb, sm_embedCache := ec'\<rparr>, w')"
  using assms by (simp add: getEmbedding_def Let_def)

lemma getEmbedding_total:
  assumes "sem_inv c"
  shows "\<exists>r c' w'. getEmbedding E clk t c w = Some (r, c', w') \<and> sem_inv c' \<and> sm_ttl c' = sm_ttl c
    \<and> sm_threshold c' = sm_threshold c"
proof (cases "cb_Allow (clk 0) (sm_circuit c)")
  case (Pair b cb)
  from assms have thr: "0 < cb_threshold cb" and inv: "ec_inv (sm_embedCache c)"
    using cb_threshold_const(1) [of "clk 0" "sm_circuit c"] Pair by (simp_all add: sem_inv_def)
  from EC_GetKey_refines [OF inv, of "clk 1" "se_hashText E t"] obtain r ec
    where g: "EmbeddingCache_Get (se_hashText E) (clk 1) t (sm_embedCache c) = Some (r, ec)" "ec_inv ec"
    by (auto simp: EmbeddingCache_Get_def)
  show ?thesis
  proof (cases b)
    case False
    with Pair inv thr show ?thesis by (simp add: getEmbedding_def sem_inv_def)
  next
    case True
    show ?thesis
    proof (cases r)
      case (Some e)
      with True Pair g thr show ?thesis by (simp add: getEmbedding_hit sem_inv_def)
    next
      case None
      obtain res w' where em: "se_Embed E t w = (res, w')" by force
      show ?thesis
      proof (cases res)
        case None': None
        with None True Pair g em thr show ?thesis by (simp add: getEmbedding_def Let_def sem_inv_def)
      next
        case (Some e)
        from EC_SetKey_refines [OF g(2), of "clk 2" "se_hashText E t" e] obtain ec'
          where "EmbeddingCache_Set (se_hashText E) (clk 2) t e ec = Some ec'" "ec_inv ec'"
          by (auto simp: EmbeddingCache_Set_def)
        with Some None True Pair g em thr show ?thesis by (simp add: getEmbedding_miss sem_inv_def)
      qed
    qed
  qed
qed

text \<open>The embedding service is called once per text: after an embedding was computed for a text,
  asking for the same text again within the time to live of the embedding cache gives the same
  vector without calling the service (whose state \<open>w2\<close> is left as it is), and the success closed
  the breaker.\<close>

theorem embedding_reused:
  assumes "sem_inv c" and "fst (cb_Allow (clk 0) (sm_circuit c))"
    and "map_of (ec_abs (sm_embedCache c)) (se_hashText E t) = None"
    and "se_Embed E t w = (Some e, w1)"
    and "\<not> ec_ttl (sm_embedCache c) < time_Sub (clk' 1) (clk 2)"
  shows "\<exists>c1 c2. getEmbedding E clk t c w = Some (Some e, c1, w1)
    \<and> getEmbedding E clk' t c1 w2 = Some (Some e, c2, w2)"
proof -
  let ?k = "se_hashText E t"
  obtain cb where cb: "cb_Allow (clk 0) (sm_circuit c) = (True, cb)" using assms(2) by (metis prod.collapse)
  from cb cb_threshold_const(1) [of "clk 0" "sm_circuit c"] assms(1) have thr: "0 < cb_threshold cb"
    by (simp add: sem_inv_def)
  from assms(1) have inv: "ec_inv (sm_embedCache c)" by (simp add: sem_inv_def)
  from EC_GetKey_refines [OF inv, of "clk 1" ?k] assms(3) obtain ec
    where g: "EC_GetKey (clk 1) ?k (sm_embedCache c) = Some (None, ec)" "ec_inv ec"
      "ec_conf ec = ec_conf (sm_embedCache c)" by auto
  from EC_SetKey_refines [OF g(2), of "clk 2" ?k e] obtain ec'
    where s: "EC_SetKey (clk 2) ?k e ec = Some ec'" "ec_inv ec'" "ec_conf ec' = ec_conf ec" by blast
  have "ec_put (clk 2) ?k e ec = ec'" using s(1) by (simp add: ec_put_def)
  with embed.put_then_get [OF g(2), of "clk' 1" ?k "clk 2" e] g(3) assms(5)
  have "fst (ec_get (clk' 1) ?k ec') = Some e" by (simp add: ec_fresh_def ec_mk_def ec_conf_def)
  with EC_GetKey_refines [OF s(2), of "clk' 1" ?k] obtain ec2
    where g2: "EC_GetKey (clk' 1) ?k ec' = Some (Some e, ec2)" by (auto simp: ec_get_def)
  let ?c1 = "c\<lparr>sm_circuit := cb_RecordSuccess cb, sm_embedCache := ec'\<rparr>"
  have 1: "getEmbedding E clk t c w = Some (Some e, ?c1, w1)"
    using cb g s assms(4)
    by (intro getEmbedding_miss [where clk = clk]) (simp_all add: EmbeddingCache_Get_def EmbeddingCache_Set_def)
  have "cb_Allow (clk' 0) (sm_circuit ?c1) = (True, cb_RecordSuccess cb)"
    using thr by (simp add: cb_Allow_def cb_RecordSuccess_def)
  from getEmbedding_hit [where clk = clk' and E = E, OF this] g2 have "\<exists>c2. getEmbedding E clk' t ?c1 w2 = Some (Some e, c2, w2)"
    by (auto simp: EmbeddingCache_Get_def)
  with 1 show ?thesis by blast
qed

text \<open>A service that counts its calls.\<close>

definition counting_env :: "nat sem_env" where
  "counting_env = \<lparr>se_hashText = (\<lambda>t. t), se_Embed = (\<lambda>t w. (Some [1, 2], Suc w)),
     se_select = (\<lambda>now m v d w. None), se_insert = (\<lambda>m v h j x w. w), se_prune = (\<lambda>now w. w)\<rparr>"

definition sem_example :: Cache where
  "sem_example = NewCache (cc_Semantic (cfg_Cache Default)\<lparr>sc_EmbeddingCache := \<lparr>emc_MaxEntries = 0, emc_TTLSeconds = 60\<rparr>\<rparr>)"

theorem embedding_reused_witness:
  "\<exists>c1 c2. getEmbedding counting_env (\<lambda>_. 100) ''hello'' sem_example 0 = Some (Some [1, 2], c1, 1)
     \<and> getEmbedding counting_env (\<lambda>_. 200) ''hello'' c1 1 = Some (Some [1, 2], c2, 1)"
proof -
  have e: "sm_embedCache sem_example = NewEmbeddingCache 5000 (60 * time_Second)"
    "sm_circuit sem_example = NewCircuitBreaker"
    by (simp_all add: sem_example_def NewCache_def Default_def Let_def wrap64_def duration_defs)
  have "ec_abs (sm_embedCache sem_example) = []" "ec_inv (sm_embedCache sem_example)"
    using NewEmbeddingCache_inv by (simp_all add: e ents_def lru_view_def)
  then show ?thesis
    using embedding_reused [of sem_example "\<lambda>_. 100" counting_env "''hello''" 0 "[1, 2]" 1 "\<lambda>_. 200" 1]
    by (simp add: e sem_inv_def counting_env_def cb_Allow_def NewCircuitBreaker_def NewEmbeddingCache_def
        time_Sub_def duration_defs min_int64_def max_int64_def)
qed

section \<open>Two tiers\<close>

text \<open>
  \<^verbatim>\<open>TieredCache\<close>: either tier may be nil. The exact tier is the interface \<^verbatim>\<open>Cache\<close>; it is given by its two
  operations \<open>xGet\<close> and \<open>xSet\<close> on a state \<open>'x\<close>, whose error results are always nil for the two
  implementations.
\<close>

record 'x TieredCache =
  tc_exact :: "'x option"
  tc_semantic :: "Cache option"

record TieredResult =
  tr_Response :: "ChatCompletionResponse option"
  tr_Hit :: bool
  tr_Tier :: string

type_synonym 'x cache_get = "gotime \<Rightarrow> string \<Rightarrow> 'x \<Rightarrow> ChatCompletionResponse option option \<times> 'x"
type_synonym 'x cache_set = "gotime \<Rightarrow> string \<Rightarrow> ChatCompletionResponse option \<times> duration \<Rightarrow> 'x \<Rightarrow> 'x"

definition NewTieredCache :: "'x option \<Rightarrow> Cache option \<Rightarrow> 'x TieredCache" where
  "NewTieredCache exact sem = \<lparr>tc_exact = exact, tc_semantic = sem\<rparr>"

definition semantic_tier ::
  "'w sem_env \<Rightarrow> (nat \<Rightarrow> gotime) \<Rightarrow> string \<Rightarrow> string \<Rightarrow> 'x TieredCache \<Rightarrow> 'w
     \<Rightarrow> (TieredResult \<times> 'x TieredCache \<times> 'w) option" where
  "semantic_tier E clk model queryText tc w =
     (case tc_semantic tc of
        None \<Rightarrow> Some (\<lparr>tr_Response = None, tr_Hit = False, tr_Tier = ''''\<rparr>, tc, w)
      | Some sem \<Rightarrow>
          Cache_Get E clk model queryText sem w \<bind>
            (\<lambda>(r, sem, w). Some
               (case r of
                  Some resp \<Rightarrow> \<lparr>tr_Response = Some resp, tr_Hit = True, tr_Tier = ''semantic''\<rparr>
                | None \<Rightarrow> \<lparr>tr_Response = None, tr_Hit = False, tr_Tier = ''''\<rparr>,
                tc\<lparr>tc_semantic := Some sem\<rparr>, w)))"

definition GetTiered ::
  "'x cache_get \<Rightarrow> 'w sem_env \<Rightarrow> gotime \<Rightarrow> (nat \<Rightarrow> gotime) \<Rightarrow> string \<Rightarrow> string \<Rightarrow> string \<Rightarrow> 'x TieredCache \<Rightarrow> 'w
     \<Rightarrow> (TieredResult \<times> 'x TieredCache \<times> 'w) option" where
  "GetTiered xGet E now clk exactKey model queryText tc w =
     (case tc_exact tc of
        Some x \<Rightarrow>
          (case xGet now exactKey x of
             (Some cached, x) \<Rightarrow>
               Some (\<lparr>tr_Response = cached, tr_Hit = True, tr_Tier = ''exact''\<rparr>, tc\<lparr>tc_exact := Some x\<rparr>, w)
           | (None, x) \<Rightarrow> semantic_tier E clk model queryText (tc\<lparr>tc_exact := Some x\<rparr>) w)
      | None \<Rightarrow> semantic_tier E clk model queryText tc w)"

definition TieredCache_Get ::
  "'x cache_get \<Rightarrow> gotime \<Rightarrow> string \<Rightarrow> 'x TieredCache \<Rightarrow> ChatCompletionResponse option option \<times> 'x TieredCache" where
  "TieredCache_Get xGet now key tc =
     (case tc_exact tc of
        Some x \<Rightarrow> (case xGet now key x of (r, x) \<Rightarrow> (r, tc\<lparr>tc_exact := Some x\<rparr>))
      | None \<Rightarrow> (None, tc))"

definition TieredCache_Set ::
  "'x cache_set \<Rightarrow> gotime \<Rightarrow> string \<Rightarrow> ChatCompletionResponse option \<times> duration \<Rightarrow> 'x TieredCache \<Rightarrow> 'x TieredCache" where
  "TieredCache_Set xSet now key p tc =
     (case tc_exact tc of Some x \<Rightarrow> tc\<lparr>tc_exact := Some (xSet now key p x)\<rparr> | None \<Rightarrow> tc)"

definition SetBoth ::
  "'x cache_set \<Rightarrow> 'w sem_env \<Rightarrow> gotime \<Rightarrow> (nat \<Rightarrow> gotime) \<Rightarrow> string \<Rightarrow> string \<Rightarrow> string
     \<Rightarrow> ChatCompletionResponse \<Rightarrow> duration \<Rightarrow> 'x TieredCache \<Rightarrow> 'w \<Rightarrow> ('x TieredCache \<times> 'w) option" where
  "SetBoth xSet E now clk exactKey model queryText value ttl tc w =
     (let tc = TieredCache_Set xSet now exactKey (Some value, ttl) tc
      in case tc_semantic tc of
           None \<Rightarrow> Some (tc, w)
         | Some sem \<Rightarrow> map_option (\<lambda>(sem, w). (tc\<lparr>tc_semantic := Some sem\<rparr>, w))
                         (Cache_Set E clk model queryText value sem w))"

lemma Cache_Get_total:
  assumes "sem_inv c"
  shows "\<exists>r c' w'. Cache_Get E clk model q c w = Some (r, c', w') \<and> sem_inv c'"
proof -
  from getEmbedding_total [OF assms, of E clk q w] obtain e c' w'
    where "getEmbedding E clk q c w = Some (e, c', w')" "sem_inv c'" by blast
  then show ?thesis by (auto simp: Cache_Get_def Let_def split: option.splits)
qed

lemma Cache_Set_total:
  assumes "sem_inv c"
  shows "\<exists>c' w'. Cache_Set E clk model q r c w = Some (c', w') \<and> sem_inv c'"
proof -
  from getEmbedding_total [OF assms, of E clk q w] obtain e c' w'
    where "getEmbedding E clk q c w = Some (e, c', w')" "sem_inv c'" by blast
  then show ?thesis by (auto simp: Cache_Set_def split: option.splits)
qed

text \<open>A response stored in both tiers is served by the first: within its time to live the tiered
  cache answers the same request from the exact tier with that response, without asking the
  embedding service or the database and leaving the semantic tier as it was.\<close>

theorem tiered_exact_first:
  assumes "exact_inv x" and "sem_inv sem" and "Response_ok r" and "0 < t" and "0 < ttl" and "now \<le> t + ttl"
  shows "\<exists>x1 x2 sem1 w1.
    SetBoth ExactLRU_Set E t clk key model q r ttl (NewTieredCache (Some x) (Some sem)) w
      = Some (NewTieredCache (Some x1) (Some sem1), w1)
    \<and> GetTiered ExactLRU_Get E now clk' key model q (NewTieredCache (Some x1) (Some sem1)) w1
      = Some (\<lparr>tr_Response = Some r, tr_Hit = True, tr_Tier = ''exact''\<rparr>, NewTieredCache (Some x2) (Some sem1), w1)"
proof -
  let ?x = "ExactLRU_Set t key (Some r, ttl) x"
  from Cache_Set_total [OF assms(2), of E clk model q r w] obtain sem1 w1
    where s: "Cache_Set E clk model q r sem w = Some (sem1, w1)" by blast
  have "fst (ExactLRU_Get now key ?x) = Some (Some r)"
    using exact.put_then_get [OF assms(1), of now key t "(Some r, ttl)"] assms(3-6)
    by (simp add: exact_fresh_def exact_mk_def exact_view_def expiry_def time_defs)
  then obtain x2 where "ExactLRU_Get now key ?x = (Some (Some r), x2)" by (metis prod.collapse)
  with s show ?thesis
    by (auto simp: SetBoth_def GetTiered_def TieredCache_Set_def NewTieredCache_def Let_def)
qed

theorem tiered_exact_first_witness:
  "\<exists>x1 x2 sem1 w1.
    SetBoth ExactLRU_Set counting_env 5 (\<lambda>_. 5) ''k'' ''m'' ''q'' zero_Response 100
        (NewTieredCache (Some (NewExactLRU 1)) (Some sem_example)) 0
      = Some (NewTieredCache (Some x1) (Some sem1), w1)
    \<and> GetTiered ExactLRU_Get counting_env 50 (\<lambda>_. 50) ''k'' ''m'' ''q'' (NewTieredCache (Some x1) (Some sem1)) w1
      = Some (\<lparr>tr_Response = Some zero_Response, tr_Hit = True, tr_Tier = ''exact''\<rparr>,
              NewTieredCache (Some x2) (Some sem1), w1)"
proof (rule tiered_exact_first)
  have "sm_embedCache sem_example = NewEmbeddingCache 5000 (60 * time_Second)"
    by (simp add: sem_example_def NewCache_def Default_def Let_def wrap64_def duration_defs)
  then show "sem_inv sem_example"
    using NewEmbeddingCache_inv by (simp add: sem_inv_def sem_example_def NewCache_def NewCircuitBreaker_def Let_def)
qed (simp_all add: NewExactLRU_inv Response_ok_def zero_Response_def in_int64_def min_int64_def max_int64_def)

end
