(* ===== verification/Config_Watcher.thy ===== *)
theory Config_Watcher
  imports Gateway_Config
begin

text \<open>
  Reloading the configuration, \<^verbatim>\<open>internal/config/watcher.go\<close>. The loop of \<^verbatim>\<open>Start\<close> is a sequence of events:
  a tick polls the modification time of the file, a \<^verbatim>\<open>SIGHUP\<close> asks for a reload. What the file
  system answers at each event is part of the event. The callback is not modelled; the record
  keeps the configurations that were handed to it.
\<close>

section \<open>State and operations\<close>

record Watcher =
  w_current :: Config
  w_lastReload :: gotime
  w_lastMod :: gotime
  w_published :: "Config list"

definition w_debounce :: duration where
  "w_debounce = 1 * time_Second"

definition NewWatcher :: "Config \<Rightarrow> gotime option \<Rightarrow> Watcher" where
  "NewWatcher initial stat =
     \<lparr>w_current = initial, w_lastReload = time_zero,
      w_lastMod = (case stat of None \<Rightarrow> time_zero | Some m \<Rightarrow> m), w_published = []\<rparr>"

definition tryReload :: "(load_error + Config) \<Rightarrow> gotime \<Rightarrow> gotime \<Rightarrow> Watcher \<Rightarrow> Watcher" where
  "tryReload loaded now now' w =
     (if time_Sub now (w_lastReload w) < w_debounce then w
      else case loaded of
             Inl err \<Rightarrow> w
           | Inr newCfg \<Rightarrow> w\<lparr>w_current := newCfg, w_lastReload := now', w_published := newCfg # w_published w\<rparr>)"

definition poll :: "gotime option \<Rightarrow> (load_error + Config) \<Rightarrow> gotime \<Rightarrow> gotime \<Rightarrow> Watcher \<Rightarrow> Watcher" where
  "poll stat loaded now now' w =
     (case stat of
        None \<Rightarrow> w
      | Some m \<Rightarrow> if time_After m (w_lastMod w) then tryReload loaded now now' (w\<lparr>w_lastMod := m\<rparr>) else w)"

datatype watch_event =
    Tick "gotime option" "load_error + Config" gotime gotime
  | Hup "load_error + Config" gotime gotime

fun watch_step :: "watch_event \<Rightarrow> Watcher \<Rightarrow> Watcher" where
  "watch_step (Tick stat loaded now now') w = poll stat loaded now now' w"
| "watch_step (Hup loaded now now') w = tryReload loaded now now' w"

record ReloadableConfig =
  rl_Logging :: LoggingConfig
  rl_Guardrails :: GuardrailsConfig
  rl_Routing :: RoutingConfig
  rl_Providers :: "(string, ProviderConfig) gomap"
  rl_Models :: "(string, ModelConfig) gomap"
  rl_Billing :: BillingConfig

definition ReloadableFields :: "Config \<Rightarrow> ReloadableConfig" where
  "ReloadableFields c = \<lparr>rl_Logging = cfg_Logging c, rl_Guardrails = cfg_Guardrails c,
     rl_Routing = cfg_Routing c, rl_Providers = cfg_Providers c, rl_Models = cfg_Models c,
     rl_Billing = cfg_Billing c\<rparr>"

definition MergeReloadable :: "Config \<Rightarrow> Config \<Rightarrow> Config" where
  "MergeReloadable dst src = dst\<lparr>cfg_Logging := cfg_Logging src, cfg_Guardrails := cfg_Guardrails src,
     cfg_Routing := cfg_Routing src, cfg_Providers := cfg_Providers src, cfg_Models := cfg_Models src,
     cfg_Billing := cfg_Billing src\<rparr>"

section \<open>Properties\<close>

lemma ReloadableFields_Merge: "ReloadableFields (MergeReloadable dst src) = ReloadableFields src"
  by (simp add: ReloadableFields_def MergeReloadable_def)

lemma Merge_keeps_restart_fields:
  "cfg_Server (MergeReloadable dst src) = cfg_Server dst" "cfg_Database (MergeReloadable dst src) = cfg_Database dst"
  "cfg_Redis (MergeReloadable dst src) = cfg_Redis dst" "cfg_KMS (MergeReloadable dst src) = cfg_KMS dst"
  "cfg_Auth (MergeReloadable dst src) = cfg_Auth dst" "cfg_Admin (MergeReloadable dst src) = cfg_Admin dst"
  by (simp_all add: MergeReloadable_def)

text \<open>An event loads the file, if at all, through \<^verbatim>\<open>Load\<close>.\<close>

definition event_loads :: "watch_event \<Rightarrow> bool" where
  "event_loads e \<longleftrightarrow> (\<exists>yaml env src. (case e of Tick s l n n' \<Rightarrow> l | Hup l n n' \<Rightarrow> l) = Load yaml env src)"

lemma tryReload_cases:
  "tryReload l now now' w = w \<or>
   (\<exists>c. l = Inr c \<and> tryReload l now now' w = w\<lparr>w_current := c, w_lastReload := now', w_published := c # w_published w\<rparr>)"
  by (cases l) (simp_all add: tryReload_def)

definition watcher_ok :: "Watcher \<Rightarrow> bool" where
  "watcher_ok w \<longleftrightarrow> config_ok (w_current w) \<and> list_all config_ok (w_published w)"

lemma Load_config_ok: "Load yaml env src = Inr c \<Longrightarrow> config_ok c"
  using Validate_ok by (auto simp: Load_def Let_def split: file_read.splits option.splits prod.splits list.splits if_splits)

lemma tryReload_ok: "watcher_ok w \<Longrightarrow> watcher_ok (tryReload (Load yaml env src) now now' w)"
proof -
  assume ok: "watcher_ok w"
  from tryReload_cases [of "Load yaml env src" now now' w] show ?thesis
  proof
    assume "\<exists>c. Load yaml env src = Inr c \<and> tryReload (Load yaml env src) now now' w
      = w\<lparr>w_current := c, w_lastReload := now', w_published := c # w_published w\<rparr>"
    then obtain c where "Load yaml env src = Inr c" and "tryReload (Load yaml env src) now now' w
      = w\<lparr>w_current := c, w_lastReload := now', w_published := c # w_published w\<rparr>" by blast
    with ok Load_config_ok show ?thesis by (simp add: watcher_ok_def)
  qed (simp add: ok)
qed

lemma watch_step_ok:
  assumes "watcher_ok w" and "event_loads e"
  shows "watcher_ok (watch_step e w)"
proof (cases e)
  case (Tick s l n n')
  with assms(2) obtain yaml env src where l: "l = Load yaml env src" by (auto simp: event_loads_def)
  have "watcher_ok (w\<lparr>w_lastMod := m\<rparr>)" for m using assms(1) by (simp add: watcher_ok_def)
  with Tick l assms(1) tryReload_ok show ?thesis by (cases s) (simp_all add: poll_def)
next
  case (Hup l n n')
  with assms(2) obtain yaml env src where "l = Load yaml env src" by (auto simp: event_loads_def)
  with Hup assms(1) tryReload_ok show ?thesis by simp
qed

text \<open>The gateway never runs on a broken configuration: starting from a valid one, after any
  sequence of file changes and signals the current configuration and every one handed to the
  callback satisfy what \<^verbatim>\<open>Validate\<close> checks, because a file that fails to load changes nothing.\<close>

theorem watcher_keeps_valid:
  assumes "config_ok c" and "\<forall>e \<in> set es. event_loads e"
  shows "config_ok (w_current (fold watch_step es (NewWatcher c stat)))
    \<and> list_all config_ok (w_published (fold watch_step es (NewWatcher c stat)))"
proof -
  have "watcher_ok w \<Longrightarrow> \<forall>e \<in> set es. event_loads e \<Longrightarrow> watcher_ok (fold watch_step es w)" for w
    by (induction es arbitrary: w) (simp_all add: watch_step_ok)
  with assms show ?thesis by (simp add: watcher_ok_def NewWatcher_def)
qed

theorem watcher_keeps_valid_witness:
  "config_ok (w_current (fold watch_step [Hup (Inl ReadError) 5 5] (NewWatcher Default None)))"
proof -
  have "event_loads (Hup (Inl ReadError) 5 5)"
    unfolding event_loads_def by (rule exI, rule exI, rule exI [of _ ReadFailed]) (simp add: Load_def)
  then show ?thesis
    using watcher_keeps_valid [of Default "[Hup (Inl ReadError) 5 5]" None]
    by (simp add: config_ok_def Default_def)
qed

text \<open>A change of the file can be lost: when a poll sees a new modification time less than a
  second after a reload, the poll remembers the time and skips the reload, and every later poll
  that still sees that time keeps the old configuration, for ever.\<close>

theorem watcher_loses_change:
  assumes "time_After m (w_lastMod w)" and "time_Sub now (w_lastReload w) < w_debounce"
    and "\<forall>e \<in> set es. \<exists>l t t'. e = Tick (Some m) l t t'"
  shows "w_current (fold watch_step es (poll (Some m) loaded now now' w)) = w_current w"
proof -
  have p: "poll (Some m) loaded now now' w = w\<lparr>w_lastMod := m\<rparr>"
    using assms(1,2) by (simp add: poll_def tryReload_def)
  have "w_lastMod v = m \<Longrightarrow> \<forall>e \<in> set es. \<exists>l t t'. e = Tick (Some m) l t t' \<Longrightarrow> fold watch_step es v = v" for v
    by (induction es) (auto simp: poll_def time_After_def)
  from this [of "w\<lparr>w_lastMod := m\<rparr>"] assms(3) show ?thesis unfolding p by simp
qed

theorem watcher_loses_change_witness:
  "w_current (fold watch_step [Tick (Some 7) (Inr (normalize_config Default)) (100 * time_Second) 0]
     (poll (Some 7) (Inr (normalize_config Default)) 5 5 (NewWatcher Default None\<lparr>w_lastReload := 4\<rparr>))) = Default"
  using watcher_loses_change [of 7 "NewWatcher Default None\<lparr>w_lastReload := 4\<rparr>" 5
      "[Tick (Some 7) (Inr (normalize_config Default)) (100 * time_Second) 0]" "Inr (normalize_config Default)" 5]
  by (simp add: NewWatcher_def time_defs time_Sub_def w_debounce_def duration_defs min_int64_def max_int64_def)

end
