(* ===== verification/Kms.thy ===== *)
theory Kms
  imports Gateway_Prelude "HOL-Library.Monad_Syntax"
begin

text \<open>
  Encryption of provider keys, \<^verbatim>\<open>internal/kms/kms.go\<close>, \<^verbatim>\<open>crypto.go\<close>, \<^verbatim>\<open>factory.go\<close> and \<^verbatim>\<open>aws.go\<close>. Base64 is modelled;
  AES-GCM is a parameter, the record \<open>aead\<close>, with the laws \<open>aead_laws\<close>. The nonce is an argument. A
  fetcher of data keys is a function on a state \<open>'w\<close> of the key service. An error is \<^term>\<open>None\<close> or a
  message on the left.

  The lemmas show that Base64 and the whole encryption round-trip, and that the fetcher for AWS,
  which asks for a new data key at every call, can decrypt nothing.
\<close>

section \<open>Base64\<close>

type_synonym bytes = string

definition b64_enc6 :: "nat \<Rightarrow> char" where
  "b64_enc6 n =
     (if n < 26 then char_of (65 + n)
      else if n < 52 then char_of (71 + n)
      else if n < 62 then char_of (n - 4)
      else if n = 62 then CHR ''+'' else CHR ''/'')"

definition b64_dec6 :: "char \<Rightarrow> nat option" where
  "b64_dec6 c =
     (let n = of_char c :: nat
      in if 65 \<le> n \<and> n \<le> 90 then Some (n - 65)
         else if 97 \<le> n \<and> n \<le> 122 then Some (n - 71)
         else if 48 \<le> n \<and> n \<le> 57 then Some (n + 4)
         else if c = CHR ''+'' then Some 62
         else if c = CHR ''/'' then Some 63
         else None)"

fun b64_encode :: "nat list \<Rightarrow> string" where
  "b64_encode [] = []"
| "b64_encode [a] = [b64_enc6 (a div 4), b64_enc6 ((a mod 4) * 16), CHR ''='', CHR ''='']"
| "b64_encode [a, b] = [b64_enc6 (a div 4), b64_enc6 ((a mod 4) * 16 + b div 16),
     b64_enc6 ((b mod 16) * 4), CHR ''='']"
| "b64_encode (a # b # c # r) = b64_enc6 (a div 4) # b64_enc6 ((a mod 4) * 16 + b div 16)
     # b64_enc6 ((b mod 16) * 4 + c div 64) # b64_enc6 (c mod 64) # b64_encode r"

fun b64_decode :: "string \<Rightarrow> nat list option" where
  "b64_decode [] = Some []"
| "b64_decode (w # x # y # z # r) =
     (if r = [] \<and> y = CHR ''='' \<and> z = CHR ''='' then do {
        i \<leftarrow> b64_dec6 w; j \<leftarrow> b64_dec6 x;
        Some [i * 4 + j div 16]
      } else if r = [] \<and> z = CHR ''='' then do {
        i \<leftarrow> b64_dec6 w; j \<leftarrow> b64_dec6 x; k \<leftarrow> b64_dec6 y;
        Some [i * 4 + j div 16, (j mod 16) * 16 + k div 4]
      } else do {
        i \<leftarrow> b64_dec6 w; j \<leftarrow> b64_dec6 x; k \<leftarrow> b64_dec6 y; l \<leftarrow> b64_dec6 z;
        rest \<leftarrow> b64_decode r;
        Some ((i * 4 + j div 16) # ((j mod 16) * 16 + k div 4) # ((k mod 4) * 64 + l) # rest)
      })"
| "b64_decode _ = None"

definition EncodeToString :: "bytes \<Rightarrow> string" where
  "EncodeToString bs = b64_encode (map of_char bs)"

text \<open>\<^verbatim>\<open>DecodeString\<close> skips line ends.\<close>

definition DecodeString :: "string \<Rightarrow> bytes option" where
  "DecodeString s = map_option (map char_of) (b64_decode (filter (\<lambda>c. c \<noteq> CHR 0x0D \<and> c \<noteq> CHR 0x0A) s))"

section \<open>Encryption\<close>

record aead =
  ae_Seal :: "bytes \<Rightarrow> bytes \<Rightarrow> bytes \<Rightarrow> bytes"
  ae_Open :: "bytes \<Rightarrow> bytes \<Rightarrow> bytes \<Rightarrow> bytes option"

definition newGCM :: "bytes \<Rightarrow> bool" where
  "newGCM key \<longleftrightarrow> length key = 32"

definition nonceSize :: nat where
  "nonceSize = 12"

definition Encrypt :: "aead \<Rightarrow> bytes \<Rightarrow> string \<Rightarrow> bytes \<Rightarrow> string \<Rightarrow> string option" where
  "Encrypt A nonce plaintext dek keyID =
     (if \<not> newGCM dek then None
      else let ciphertext = ae_Seal A dek nonce plaintext;
               combined = nonce @ ciphertext
           in Some (''dek-v1:'' @ EncodeToString keyID @ '':'' @ EncodeToString combined))"

fun indexOfColon :: "string \<Rightarrow> nat option" where
  "indexOfColon [] = None"
| "indexOfColon (c # s) = (if c = CHR '':'' then Some 0 else map_option Suc (indexOfColon s))"

definition Decrypt :: "aead \<Rightarrow> (string \<Rightarrow> 'w \<Rightarrow> bytes option \<times> 'w) \<Rightarrow> string \<Rightarrow> 'w \<Rightarrow> string option \<times> 'w" where
  "Decrypt A dekByKID ciphertext w =
     (if ciphertext = '''' then (None, w)
      else if length ciphertext < 7 \<or> take 7 ciphertext \<noteq> ''dek-v1:'' then (None, w)
      else let rest = drop 7 ciphertext
           in case indexOfColon rest of
                None \<Rightarrow> (None, w)
              | Some idx \<Rightarrow>
                  (case DecodeString (take idx rest) of
                     None \<Rightarrow> (None, w)
                   | Some keyID \<Rightarrow>
                       (case DecodeString (drop (idx + 1) rest) of
                          None \<Rightarrow> (None, w)
                        | Some combined \<Rightarrow>
                            if length combined < nonceSize + 1 then (None, w)
                            else (case dekByKID keyID w of
                                    (None, w) \<Rightarrow> (None, w)
                                  | (Some dek, w) \<Rightarrow>
                                      if \<not> newGCM dek then (None, w)
                                      else (ae_Open A dek (take nonceSize combined) (drop nonceSize combined), w)))))"

section \<open>Fetchers\<close>

type_synonym 'w fetcher = "'w \<Rightarrow> (bytes \<times> string) option \<times> 'w"

definition NewStaticKeyFetcher :: "string \<Rightarrow> string \<Rightarrow> string + (bytes \<times> string)" where
  "NewStaticKeyFetcher encodedKey keyID =
     (if encodedKey = '''' then Inl ''kms: static key is empty''
      else case DecodeString encodedKey of
             None \<Rightarrow> Inl ''kms: static key is not valid base64''
           | Some dek \<Rightarrow> if length dek \<noteq> 32 then Inl ''kms: static key must be 32 bytes (base64-encoded)''
                         else Inr (dek, keyID))"

definition StaticFetch :: "bytes \<times> string \<Rightarrow> 'w fetcher" where
  "StaticFetch f w = (Some f, w)"

text \<open>\<^verbatim>\<open>GenerateDataKey\<close> of the AWS client is the argument \<open>generate\<close>.\<close>

definition AWSFetch :: "('w \<Rightarrow> bytes option \<times> 'w) \<Rightarrow> string \<Rightarrow> 'w fetcher" where
  "AWSFetch generate keyID w =
     (case generate w of
        (None, w) \<Rightarrow> (None, w)
      | (Some dek, w) \<Rightarrow> if length dek \<noteq> 32 then (None, w) else (Some (dek, keyID), w))"

definition DecryptProviderKey :: "aead \<Rightarrow> 'w fetcher \<Rightarrow> string \<Rightarrow> 'w \<Rightarrow> string option \<times> 'w" where
  "DecryptProviderKey A fetch encryptedValue w =
     (case fetch w of
        (None, w) \<Rightarrow> (None, w)
      | (Some (dek, keyID), w) \<Rightarrow>
          Decrypt A (\<lambda>kid w. if kid = keyID then (Some dek, w)
                             else (case fetch w of (r, w) \<Rightarrow> (map_option fst r, w))) encryptedValue w)"

section \<open>Base64 round trip\<close>

lemma of_char_of_small: "n < 256 \<Longrightarrow> of_char (char_of n :: char) = (n :: nat)"
  by (simp add: of_char_of)

lemma of_char_byte: "of_char (c :: char) < (256 :: nat)"
  using of_char_of [of "of_char c :: nat"] by (simp add: char_of_char)

lemma dec6_enc6: "n < 64 \<Longrightarrow> b64_dec6 (b64_enc6 n) = Some n"
  by (auto simp: b64_enc6_def b64_dec6_def Let_def of_char_of_small)

lemma enc6_code: "n < 64 \<Longrightarrow> of_char (b64_enc6 n) \<in> {43, 47 :: nat} \<union> {48..57} \<union> {65..90} \<union> {97..122}"
  by (auto simp: b64_enc6_def of_char_of_small)

lemma enc6_clean:
  assumes "n < 64"
  shows "b64_enc6 n \<noteq> CHR ''=''" "b64_enc6 n \<noteq> CHR '':''" "b64_enc6 n \<noteq> CHR 0x0D" "b64_enc6 n \<noteq> CHR 0x0A"
  using enc6_code [OF assms] by auto

lemma digit_split: "y < k \<Longrightarrow> (x * k + y) div k = x \<and> (x * k + y) mod k = (y :: nat)"
  by simp

lemma byte_splits:
  fixes a b c :: nat
  assumes "a < 256" "b < 256" "c < 256"
  shows "a div 4 < 64" "(a mod 4) * 16 + b div 16 < 64" "(b mod 16) * 4 + c div 64 < 64" "c mod 64 < 64"
    "(a mod 4) * 16 < 64" "(b mod 16) * 4 < 64"
    "a div 4 * 4 + ((a mod 4) * 16 + b div 16) div 16 = a"
    "(((a mod 4) * 16 + b div 16) mod 16) * 16 + ((b mod 16) * 4 + c div 64) div 4 = b"
    "(((b mod 16) * 4 + c div 64) mod 4) * 64 + c mod 64 = c"
    "a div 4 * 4 + ((a mod 4) * 16) div 16 = a"
    "(((a mod 4) * 16 + b div 16) mod 16) * 16 + ((b mod 16) * 4) div 4 = b"
proof -
  have lt: "b div 16 < 16" "c div 64 < 4" "a mod 4 < 4" "b mod 16 < 16"
    using assms by (simp_all add: less_mult_imp_div_less)
  show "a div 4 < 64" "c mod 64 < 64" using assms(1) by (simp_all add: less_mult_imp_div_less)
  show "(a mod 4) * 16 + b div 16 < 64" "(b mod 16) * 4 + c div 64 < 64" "(a mod 4) * 16 < 64" "(b mod 16) * 4 < 64"
    using lt by linarith+
  note d = digit_split [OF lt(1), of "a mod 4"] digit_split [OF lt(2), of "b mod 16"]
  show "a div 4 * 4 + ((a mod 4) * 16 + b div 16) div 16 = a"
    "(((b mod 16) * 4 + c div 64) mod 4) * 64 + c mod 64 = c"
    "(((a mod 4) * 16 + b div 16) mod 16) * 16 + ((b mod 16) * 4 + c div 64) div 4 = b"
    using d by simp_all
  show "a div 4 * 4 + ((a mod 4) * 16) div 16 = a"
    "(((a mod 4) * 16 + b div 16) mod 16) * 16 + ((b mod 16) * 4) div 4 = b"
    using d by simp_all
qed

lemma b64_round_trip: "list_all (\<lambda>n. n < 256) xs \<Longrightarrow> b64_decode (b64_encode xs) = Some xs"
proof (induction xs rule: b64_encode.induct)
  case (2 a)
  then show ?case using byte_splits [of a 0 0] by (simp add: dec6_enc6)
next
  case (3 a b)
  then show ?case using byte_splits [of a b 0] by (simp add: dec6_enc6 enc6_clean)
next
  case (4 a b c r)
  then show ?case using byte_splits [of a b c] by (simp add: dec6_enc6 enc6_clean)
qed simp

lemma b64_encode_clean:
  "list_all (\<lambda>n. n < 256) xs \<Longrightarrow>
   list_all (\<lambda>c. c \<noteq> CHR '':'' \<and> c \<noteq> CHR 0x0D \<and> c \<noteq> CHR 0x0A) (b64_encode xs)"
proof (induction xs rule: b64_encode.induct)
  case (2 a)
  then show ?case using byte_splits [of a 0 0] by (simp add: enc6_clean)
next
  case (3 a b)
  then show ?case using byte_splits [of a b 0] by (simp add: enc6_clean)
next
  case (4 a b c r)
  then show ?case using byte_splits [of a b c] by (simp add: enc6_clean)
qed simp

lemma bytes_256: "list_all (\<lambda>n. n < (256 :: nat)) (map of_char (bs :: bytes))"
  by (simp add: list_all_iff of_char_byte)

lemma Encode_clean: "list_all (\<lambda>c. c \<noteq> CHR '':'' \<and> c \<noteq> CHR 0x0D \<and> c \<noteq> CHR 0x0A) (EncodeToString bs)"
  unfolding EncodeToString_def by (rule b64_encode_clean [OF bytes_256])

lemma Decode_Encode: "DecodeString (EncodeToString bs) = Some bs"
proof -
  have "filter (\<lambda>c. c \<noteq> CHR 0x0D \<and> c \<noteq> CHR 0x0A) (EncodeToString bs) = EncodeToString bs"
    using Encode_clean [of bs] by (auto simp: list_all_iff filter_id_conv)
  then show ?thesis
    using b64_round_trip [OF bytes_256, of bs] by (simp add: DecodeString_def EncodeToString_def comp_def)
qed

section \<open>Properties\<close>

text \<open>What AES-GCM promises: opening what was sealed under the same key and nonce gives the text, opening
  it under another key fails, and a sealed text is not empty.\<close>

definition aead_laws :: "aead \<Rightarrow> bool" where
  "aead_laws A \<longleftrightarrow>
     (\<forall>d n p. ae_Open A d n (ae_Seal A d n p) = Some p)
   \<and> (\<forall>d d' n p. d' \<noteq> d \<longrightarrow> ae_Open A d' n (ae_Seal A d n p) = None)
   \<and> (\<forall>d n p. ae_Seal A d n p \<noteq> [])"

lemma indexOfColon_append:
  "list_all (\<lambda>c. c \<noteq> CHR '':'' \<and> P c) s \<Longrightarrow> indexOfColon (s @ '':'' @ t) = Some (length s)"
  by (induction s) auto

lemma Decrypt_Encrypt:
  assumes "aead_laws A" and "length nonce = nonceSize" and "Encrypt A nonce p dek kid = Some c"
  shows "Decrypt A f c w =
    (case f kid w of
       (None, w) \<Rightarrow> (None, w)
     | (Some d, w) \<Rightarrow> (if newGCM d then ae_Open A d nonce (ae_Seal A dek nonce p) else None, w))"
proof -
  from assms(3) have c: "c = ''dek-v1:'' @ EncodeToString kid @ '':'' @ EncodeToString (nonce @ ae_Seal A dek nonce p)"
    by (auto simp: Encrypt_def Let_def split: if_splits)
  let ?s = "EncodeToString kid"
  have "indexOfColon (?s @ '':'' @ EncodeToString (nonce @ ae_Seal A dek nonce p)) = Some (length ?s)"
    using Encode_clean [of kid] by (rule indexOfColon_append)
  moreover from assms(1) have "ae_Seal A dek nonce p \<noteq> []" by (simp add: aead_laws_def)
  then have "\<not> length (nonce @ ae_Seal A dek nonce p) < nonceSize + 1"
    using assms(2) by (cases "ae_Seal A dek nonce p") auto
  ultimately show ?thesis
    using assms(2) by (auto simp: Decrypt_def c Decode_Encode Let_def split: prod.splits option.splits)
qed

text \<open>Encrypting a provider key and decrypting it again gives the key back, with the static
  fetcher that holds the data key it was encrypted with, for any text, any nonce and any key
  identifier, also one that contains a colon.\<close>

theorem kms_round_trip:
  assumes "aead_laws A" and "length nonce = nonceSize" and "length dek = 32"
    and "Encrypt A nonce plaintext dek keyID = Some c"
  shows "DecryptProviderKey A (StaticFetch (dek, keyID)) c w = (Some plaintext, w)"
  using Decrypt_Encrypt [where w = w, OF assms(1,2,4)] assms(1,3)
  by (simp add: DecryptProviderKey_def StaticFetch_def newGCM_def aead_laws_def)

text \<open>A cipher that writes the key in front of the text.\<close>

definition short_key_aead :: aead where
  "short_key_aead = \<lparr>ae_Seal = (\<lambda>d n p. replicate (length d) CHR ''k'' @ CHR ''.'' # d @ p),
     ae_Open = (\<lambda>d n c. if c = replicate (length d) CHR ''k'' @ CHR ''.'' # d @ drop (2 * length d + 1) c
                        then Some (drop (2 * length d + 1) c) else None)\<rparr>"

lemma replicate_split:
  "replicate a x @ y # u = replicate b x @ y # v \<Longrightarrow> x \<noteq> y \<Longrightarrow> a = b \<and> u = v"
proof (induction a arbitrary: b)
  case 0
  then show ?case by (cases b) auto
next
  case (Suc a)
  then show ?case by (cases b) auto
qed

lemma short_key_laws: "aead_laws short_key_aead"
proof -
  have wrong: "ae_Open short_key_aead d' n (ae_Seal short_key_aead d n p) = None" if "d' \<noteq> d" for d d' n p
  proof -
    have False if eq: "replicate (length d) CHR ''k'' @ CHR ''.'' # d @ p
        = replicate (length d') CHR ''k'' @ CHR ''.'' # d' @ x" for x
    proof -
      from replicate_split [OF eq] have "length d = length d'" and "d @ p = d' @ x" by simp_all
      with \<open>d' \<noteq> d\<close> show False by simp
    qed
    then show ?thesis by (auto simp: short_key_aead_def)
  qed
  have "ae_Open short_key_aead d n (ae_Seal short_key_aead d n p) = Some p" for d n p
    by (simp add: short_key_aead_def)
  with wrong show ?thesis by (simp add: aead_laws_def short_key_aead_def)
qed

theorem kms_round_trip_witness:
  "\<exists>c. Encrypt short_key_aead (replicate 12 CHR ''n'') ''sk-secret'' (replicate 32 CHR ''d'') ''v:1'' = Some c
     \<and> DecryptProviderKey short_key_aead (StaticFetch (replicate 32 CHR ''d'', ''v:1'')) c () = (Some ''sk-secret'', ())"
proof -
  let ?E = "Encrypt short_key_aead (replicate 12 CHR ''n'') ''sk-secret'' (replicate 32 CHR ''d'') ''v:1''"
  obtain c where c: "?E = Some c" by (simp add: Encrypt_def newGCM_def Let_def)
  with kms_round_trip [OF short_key_laws, of "replicate 12 CHR ''n''" "replicate 32 CHR ''d''" "''sk-secret''" "''v:1''" c "()"]
  show ?thesis by (simp add: nonceSize_def)
qed

text \<open>With the AWS fetcher nothing can be decrypted: it asks the service for a new data key at
  every call, so the key that \<^verbatim>\<open>DecryptProviderKey\<close> fetches is not the key the value was encrypted
  with, and the decryption fails whenever the service generates a fresh key.\<close>

theorem aws_fetcher_cannot_decrypt:
  assumes "aead_laws A" and "length nonce = nonceSize"
    and "Encrypt A nonce plaintext dek keyID = Some c"
    and "\<forall>w. fst (generate w) \<noteq> Some dek"
  shows "fst (DecryptProviderKey A (AWSFetch generate keyID) c w) = None"
proof -
  have *: "fst (AWSFetch generate keyID v) = Some (d, k) \<Longrightarrow> d \<noteq> dek \<and> k = keyID" for v d k
    using assms(4) [rule_format, of v] by (auto simp: AWSFetch_def split: prod.splits option.splits if_splits)
  have wrong: "d \<noteq> dek \<Longrightarrow> ae_Open A d nonce (ae_Seal A dek nonce plaintext) = None" for d
    using assms(1) by (simp add: aead_laws_def)
  obtain r w1 where r: "AWSFetch generate keyID w = (r, w1)" by force
  show ?thesis
  proof (cases r)
    case None
    with r show ?thesis by (simp add: DecryptProviderKey_def)
  next
    case (Some dk)
    with * [of w] r have "fst dk \<noteq> dek" "snd dk = keyID" by (auto simp: prod_eq_iff intro: prod.collapse)
    with Some r Decrypt_Encrypt [where w = w1, OF assms(1-3)] wrong show ?thesis
      by (cases dk) (simp add: DecryptProviderKey_def)
  qed
qed

theorem aws_fetcher_cannot_decrypt_witness:
  "\<exists>c. Encrypt short_key_aead (replicate 12 CHR ''n'') ''sk-secret'' (replicate 32 CHR ''d'') ''arn'' = Some c
     \<and> fst (DecryptProviderKey short_key_aead (AWSFetch (\<lambda>w. (Some (replicate 32 CHR ''e''), w)) ''arn'') c ()) = None"
proof -
  obtain c where c: "Encrypt short_key_aead (replicate 12 CHR ''n'') ''sk-secret'' (replicate 32 CHR ''d'') ''arn'' = Some c"
    by (simp add: Encrypt_def newGCM_def Let_def)
  from aws_fetcher_cannot_decrypt [OF short_key_laws _ this, of "\<lambda>w. (Some (replicate 32 CHR ''e''), w)" "()"] c
  show ?thesis by (simp add: nonceSize_def)
qed

end
