(* ===== verification/Rate_Limit.thy ===== *)
theory Rate_Limit
  imports Float64
begin

text \<open>
  The in-process rate limiter, \<^verbatim>\<open>internal/ratelimit/bucket.go\<close> and \<^verbatim>\<open>limiter.go\<close>: the token
  bucket with its partial refill, the map of buckets with its two evictions, and the request
  and token checks. A nil \<^verbatim>\<open>*Bucket\<close> is \<^term>\<open>None\<close>. An operation is one step: the mutex of the
  limiter and that of the bucket are not interleaved with another operation on the same key.
  Every reading of the clock is an argument.

  The lemmas bound what a bucket admits over any stretch of time, show that evicting a stale
  bucket cannot be observed, that the map stays within its capacity and that a check of one
  key leaves every other key's bucket alone.
\<close>

section \<open>The token bucket\<close>

record Bucket =
  b_limit :: int
  b_window :: duration
  b_tokens :: int
  b_lastRefill :: gotime

text \<open>What a check answers: allowed, limit, remaining, resetAt.\<close>

type_synonym verdict = "bool \<times> int \<times> int \<times> gotime"

definition unlimited :: verdict where
  "unlimited = (True, 0, 0, time_zero)"

definition NewBucket :: "int \<Rightarrow> duration \<Rightarrow> gotime \<Rightarrow> Bucket option" where
  "NewBucket limit window now =
     (if limit \<le> 0 then None
      else Some \<lparr>b_limit = limit, b_window = window, b_tokens = limit, b_lastRefill = now\<rparr>)"

text \<open>The tokens recovered by a part of the window.\<close>

definition partial_refill :: "duration \<Rightarrow> int \<Rightarrow> duration \<Rightarrow> int" where
  "partial_refill elapsed limit window =
     int_of_float (fdiv (fmul (duration_Seconds elapsed) (float_of_int limit)) (duration_Seconds window))"

definition Bucket_refill :: "gotime \<Rightarrow> Bucket \<Rightarrow> Bucket" where
  "Bucket_refill now b =
     (let elapsed = time_Sub now (b_lastRefill b)
      in if b_window b \<le> elapsed
         then b\<lparr>b_tokens := b_limit b, b_lastRefill := now\<rparr>
         else let refill = partial_refill elapsed (b_limit b) (b_window b)
              in if 0 < refill
                 then let tokens = wrap64 (b_tokens b + refill)
                      in b\<lparr>b_tokens := if b_limit b < tokens then b_limit b else tokens,
                           b_lastRefill := now\<rparr>
                 else b)"

definition Bucket_Allow :: "gotime \<Rightarrow> Bucket option \<Rightarrow> verdict \<times> Bucket option" where
  "Bucket_Allow now bo =
     (case bo of
        None \<Rightarrow> (unlimited, None)
      | Some b \<Rightarrow>
          let b = Bucket_refill now b;
              resetAt = time_Add (b_lastRefill b) (b_window b)
          in if 0 < b_tokens b
             then ((True, b_limit b, b_tokens b - 1, resetAt), Some (b\<lparr>b_tokens := b_tokens b - 1\<rparr>))
             else ((False, b_limit b, 0, resetAt), Some b))"

text \<open>The body of \<^verbatim>\<open>CheckTPM\<close> after it has found its bucket: a full refill only, and the
  whole token count is taken or none of it.\<close>

definition Bucket_take :: "gotime \<Rightarrow> int \<Rightarrow> Bucket \<Rightarrow> verdict \<times> Bucket" where
  "Bucket_take now tokenCount b =
     (let b = (if b_window b \<le> time_Sub now (b_lastRefill b)
               then b\<lparr>b_tokens := b_limit b, b_lastRefill := now\<rparr> else b);
          resetAt = time_Add (b_lastRefill b) (b_window b)
      in if tokenCount \<le> b_tokens b
         then ((True, b_limit b, b_tokens b - tokenCount, resetAt),
               b\<lparr>b_tokens := b_tokens b - tokenCount\<rparr>)
         else ((False, b_limit b, b_tokens b, resetAt), b))"

section \<open>The limiter\<close>

record bucketEntry =
  be_bucket :: "Bucket option"
  be_lastAccess :: gotime

record Limiter =
  l_buckets :: "(string, bucketEntry) gomap"
  l_rpm :: int
  l_tpm :: int
  l_maxEntries :: nat
  l_stopped :: bool

definition NewLimiter :: "int \<Rightarrow> int \<Rightarrow> Limiter" where
  "NewLimiter rpm tpm =
     \<lparr>l_buckets = [], l_rpm = rpm, l_tpm = tpm, l_maxEntries = 10000, l_stopped = False\<rparr>"

text \<open>Closing the stop channel; closing it twice panics (\<^term>\<open>None\<close>).\<close>

definition Limiter_Close :: "Limiter \<Rightarrow> Limiter option" where
  "Limiter_Close l = (if l_stopped l then None else Some (l\<lparr>l_stopped := True\<rparr>))"

definition evictStale :: "gotime \<Rightarrow> Limiter \<Rightarrow> Limiter" where
  "evictStale now l =
     l\<lparr>l_buckets := gm_prune (\<lambda>e. 10 * time_Minute < time_Sub now (be_lastAccess e)) (l_buckets l)\<rparr>"

definition evictOldest :: "Limiter \<Rightarrow> Limiter" where
  "evictOldest l = l\<lparr>l_buckets := delete_oldest be_lastAccess (l_buckets l)\<rparr>"

text \<open>What the background goroutine receives: a tick of its ticker or the stop signal.\<close>

datatype evict_event = Tick gotime | Stop

fun evictLoop :: "evict_event list \<Rightarrow> Limiter \<Rightarrow> Limiter" where
  "evictLoop [] l = l"
| "evictLoop (Stop # es) l = l"
| "evictLoop (Tick now # es) l = evictLoop es (evictStale now l)"

definition bucket_key :: "string \<Rightarrow> string \<Rightarrow> string" where
  "bucket_key keyID limitType = keyID @ '':'' @ limitType"

text \<open>\<open>tb\<close> is the reading \<^verbatim>\<open>NewBucket\<close> takes, \<open>ta\<close> that of \<^verbatim>\<open>lastAccess\<close>.\<close>

definition getBucket ::
  "string \<Rightarrow> string \<Rightarrow> int \<Rightarrow> duration \<Rightarrow> gotime \<Rightarrow> gotime \<Rightarrow> Limiter \<Rightarrow> bucketEntry \<times> Limiter" where
  "getBucket keyID limitType limit window tb ta l =
     (let k = bucket_key keyID limitType
      in case gm_get (l_buckets l) k of
           None \<Rightarrow>
             let l = (if l_maxEntries l \<le> gm_len (l_buckets l) then evictOldest l else l);
                 entry = \<lparr>be_bucket = NewBucket limit window tb, be_lastAccess = ta\<rparr>
             in (entry, l\<lparr>l_buckets := gm_set k entry (l_buckets l)\<rparr>)
         | Some entry \<Rightarrow>
             let entry = entry\<lparr>be_lastAccess := ta\<rparr>
             in (entry, l\<lparr>l_buckets := gm_set k entry (l_buckets l)\<rparr>))"

definition CheckRPM ::
  "string \<Rightarrow> gotime \<Rightarrow> gotime \<Rightarrow> gotime \<Rightarrow> Limiter \<Rightarrow> verdict \<times> Limiter" where
  "CheckRPM keyID tb ta now l =
     (if l_rpm l \<le> 0 then (unlimited, l)
      else let (entry, l) = getBucket keyID ''rpm'' (l_rpm l) time_Minute tb ta l;
               (v, b) = Bucket_Allow now (be_bucket entry)
           in (v, l\<lparr>l_buckets :=
                    gm_set (bucket_key keyID ''rpm'') (entry\<lparr>be_bucket := b\<rparr>) (l_buckets l)\<rparr>))"

definition CheckTPM ::
  "string \<Rightarrow> int \<Rightarrow> gotime \<Rightarrow> gotime \<Rightarrow> gotime \<Rightarrow> Limiter \<Rightarrow> verdict \<times> Limiter" where
  "CheckTPM keyID tokenCount tb ta now l =
     (if l_tpm l \<le> 0 then (unlimited, l)
      else let (entry, l) = getBucket keyID ''tpm'' (l_tpm l) time_Minute tb ta l
           in case be_bucket entry of
                None \<Rightarrow> (unlimited, l)
              | Some b \<Rightarrow>
                  let (v, b) = Bucket_take now tokenCount b
                  in (v, l\<lparr>l_buckets :=
                           gm_set (bucket_key keyID ''tpm'') (entry\<lparr>be_bucket := Some b\<rparr>) (l_buckets l)\<rparr>))"

section \<open>Refilling\<close>

text \<open>
  A bucket is well formed when it holds between 0 and \<open>limit\<close> tokens; the limit leaves room for
  the addition of the refill in 64 bits.
\<close>

definition bucket_ok :: "Bucket \<Rightarrow> bool" where
  "bucket_ok b \<longleftrightarrow> 0 < b_limit b \<and> b_limit b \<le> 2 ^ 60 \<and> 0 < b_window b \<and> b_window b \<le> max_int64
     \<and> 0 \<le> b_tokens b \<and> b_tokens b \<le> b_limit b"

text \<open>The rounding of six operations in the numerator and three in the denominator.\<close>

definition refill_slack :: rat where
  "refill_slack = (1 + unit_roundoff) ^ 6 / (1 - unit_roundoff) ^ 3"

lemma refill_slack_ge_1: "1 \<le> refill_slack"
  by code_simp

lemma refill_slack_small: "refill_slack \<le> 1 + 1 / 2 ^ 49"
  by code_simp

lemma partial_refill_bound:
  assumes e: "0 \<le> elapsed" and l: "0 \<le> limit" and w: "0 < window"
  shows "of_int (partial_refill elapsed limit window)
           \<le> refill_slack * (of_int limit * of_int elapsed / of_int window)"
proof -
  define p m where "p = (1 + unit_roundoff :: rat)" and "m = (1 - unit_roundoff :: rat)"
  have p: "0 < p" and m: "0 < m" by (simp_all add: p_def m_def unit_roundoff_def)
  define E W L :: rat where "E = of_int elapsed" and "W = of_int window" and "L = of_int limit"
  have E: "0 \<le> E" and W: "0 < W" and L: "0 \<le> L" using e l w by (simp_all add: E_def W_def L_def)
  define s t where "s = duration_Seconds elapsed" and "t = duration_Seconds window"
  have s: "0 \<le> s" "s \<le> p ^ 3 * (E / 1000000000)"
    using duration_Seconds_nonneg [OF e] duration_Seconds_upper [OF e]
    by (simp_all add: s_def p_def E_def)
  have t: "m ^ 3 * (W / 1000000000) \<le> t"
    using duration_Seconds_lower [of window] w by (simp add: t_def m_def W_def)
  have "0 < m ^ 3 * (W / 1000000000)" using m W by simp
  with t have t0: "0 < t" by (rule less_le_trans [rotated])
  define f where "f = float64 L"
  have f: "0 \<le> f" "f \<le> p * L" using float64_nonneg [OF L] float64_upper [OF L] by (simp_all add: f_def p_def)
  have sf: "float64 (s * f) \<le> p ^ 5 * (E / 1000000000) * L"
  proof -
    have "float64 (s * f) \<le> p * (s * f)" using float64_upper [of "s * f"] s f by (simp add: p_def)
    also have "\<dots> \<le> p * ((p ^ 3 * (E / 1000000000)) * (p * L))"
      using s f p by (intro mult_left_mono mult_mono) simp_all
    also have "\<dots> = p ^ 5 * (E / 1000000000) * L" by (simp add: eval_nat_numeral)
    finally show ?thesis .
  qed
  have nn: "0 \<le> float64 (s * f)" using s f by (simp add: float64_nonneg)
  have "float64 (s * f) / t \<le> (p ^ 5 * (E / 1000000000) * L) / (m ^ 3 * (W / 1000000000))"
    using sf nn t m W by (intro frac_le) simp_all
  also have "\<dots> = p ^ 5 / m ^ 3 * (L * E / W)" using W m by (simp add: field_simps)
  finally have q: "float64 (s * f) / t \<le> p ^ 5 / m ^ 3 * (L * E / W)" .
  have q0: "0 \<le> float64 (s * f) / t" using nn t0 by simp
  have pr: "partial_refill elapsed limit window = int_of_float (float64 (float64 (s * f) / t))"
    by (simp add: partial_refill_def fdiv_def fmul_def float_of_int_def s_def t_def f_def L_def)
  have "of_int (partial_refill elapsed limit window) \<le> float64 (float64 (s * f) / t)"
    unfolding pr by (rule int_of_float_le) (simp add: float64_nonneg q0)
  also have "\<dots> \<le> p * (float64 (s * f) / t)" using float64_upper [OF q0] by (simp add: p_def)
  also have "\<dots> \<le> p * (p ^ 5 / m ^ 3 * (L * E / W))" using q p by (intro mult_left_mono) simp_all
  also have "\<dots> = refill_slack * (L * E / W)"
    by (simp add: refill_slack_def p_def m_def eval_nat_numeral)
  finally show ?thesis by (simp add: E_def W_def L_def)
qed

lemma partial_refill_le_twice:
  assumes "0 \<le> elapsed" and "elapsed \<le> window" and "0 \<le> limit" and "0 < window"
  shows "partial_refill elapsed limit window \<le> 2 * limit"
proof -
  have "(of_int limit * of_int elapsed / of_int window :: rat) \<le> of_int limit"
    using assms by (simp add: divide_le_eq mult_left_mono)
  then have "refill_slack * (of_int limit * of_int elapsed / of_int window) \<le> 2 * of_int limit"
    using refill_slack_ge_1 refill_slack_small assms by (intro mult_mono) simp_all
  with partial_refill_bound [OF assms(1,3,4)]
  have "(of_int (partial_refill elapsed limit window) :: rat) \<le> of_int (2 * limit)" by simp
  then show ?thesis by (simp only: of_int_le_iff)
qed

lemma quot_rem_nonpos:
  assumes "d \<le> 0" and "0 < b"
  shows "quot_int d b \<le> 0" and "rem_int d b \<le> 0"
proof -
  have q: "quot_int d b = - ((- d) div b)"
    using assms by (cases "d = 0") (simp_all add: quot_int_def)
  then show "quot_int d b \<le> 0" using assms by (simp add: pos_imp_zdiv_nonneg_iff)
  have "rem_int d b = - ((- d) mod b)"
    by (simp add: rem_int_def q minus_div_mult_eq_mod [symmetric])
  then show "rem_int d b \<le> 0" using assms by simp
qed

lemma float64_nonpos: "x \<le> 0 \<Longrightarrow> float64 x \<le> 0"
  using float64_mono [of x 0] by simp

lemma partial_refill_nonpos:
  assumes "elapsed \<le> 0" and "0 \<le> limit" and "0 \<le> window"
  shows "partial_refill elapsed limit window \<le> 0"
proof -
  have "duration_Seconds elapsed \<le> 0"
    unfolding duration_Seconds_def fadd_def fdiv_def float_of_int_def
    using quot_rem_nonpos [OF assms(1), of nanos_per_second]
    by (intro float64_nonpos add_nonpos_nonpos divide_nonpos_nonneg) (simp_all add: nanos_per_second_def)
  then have "fmul (duration_Seconds elapsed) (float_of_int limit) \<le> 0"
    unfolding fmul_def using assms(2)
    by (intro float64_nonpos mult_nonpos_nonneg) (simp_all add: float_of_int_nonneg)
  then have "fdiv (fmul (duration_Seconds elapsed) (float_of_int limit)) (duration_Seconds window) \<le> 0"
    unfolding fdiv_def using assms(3)
    by (intro float64_nonpos divide_nonpos_nonneg) (simp_all add: duration_Seconds_nonneg)
  then show ?thesis by (auto simp: partial_refill_def int_of_float_def)
qed

lemma partial_refill_0 [simp]: "partial_refill 0 limit window = 0"
  by (simp add: partial_refill_def duration_Seconds_def quot_int_def rem_int_def fadd_def fdiv_def
      fmul_def float_of_int_def int_of_float_def)

lemma Bucket_refill_frame [simp]:
  "b_limit (Bucket_refill now b) = b_limit b" "b_window (Bucket_refill now b) = b_window b"
  by (simp_all add: Bucket_refill_def Let_def)

text \<open>With a positive refill the clock has advanced and the sum fits into 64 bits.\<close>

lemma partial_refill_sum:
  assumes ok: "bucket_ok b" and lt: "elapsed < b_window b"
    and pos: "0 < partial_refill elapsed (b_limit b) (b_window b)"
  shows "0 < elapsed"
    and "wrap64 (b_tokens b + partial_refill elapsed (b_limit b) (b_window b))
           = b_tokens b + partial_refill elapsed (b_limit b) (b_window b)"
proof -
  show e: "0 < elapsed"
    using pos partial_refill_nonpos [of elapsed "b_limit b" "b_window b"] ok
    by (force simp: bucket_ok_def)
  have "partial_refill elapsed (b_limit b) (b_window b) \<le> 2 * b_limit b"
    using e lt ok by (intro partial_refill_le_twice) (simp_all add: bucket_ok_def)
  with ok pos show "wrap64 (b_tokens b + partial_refill elapsed (b_limit b) (b_window b))
      = b_tokens b + partial_refill elapsed (b_limit b) (b_window b)"
    by (intro wrap64_id) (simp add: in_int64_def min_int64_def max_int64_def bucket_ok_def)
qed

lemma Bucket_refill_cases:
  assumes ok: "bucket_ok b"
  obtains (full) "b_window b \<le> now - b_lastRefill b"
      "Bucket_refill now b = b\<lparr>b_tokens := b_limit b, b_lastRefill := now\<rparr>"
  | (partial) r where "0 < now - b_lastRefill b" "0 < r"
      "r = partial_refill (now - b_lastRefill b) (b_limit b) (b_window b)"
      "Bucket_refill now b = b\<lparr>b_tokens := min (b_limit b) (b_tokens b + r), b_lastRefill := now\<rparr>"
  | (none) "Bucket_refill now b = b"
proof (cases "b_window b \<le> time_Sub now (b_lastRefill b)")
  case True
  with ok have "b_window b \<le> now - b_lastRefill b"
    by (auto simp: time_Sub_def bucket_ok_def min_int64_def max_int64_def)
  with True full show thesis by (simp add: Bucket_refill_def)
next
  case False
  let ?e = "time_Sub now (b_lastRefill b)"
  let ?r = "partial_refill ?e (b_limit b) (b_window b)"
  show thesis
  proof (cases "0 < ?r")
    case True
    from False have lt: "?e < b_window b" by simp
    note sum = partial_refill_sum [OF ok lt True]
    have "?e = now - b_lastRefill b"
      using sum(1) lt ok by (auto simp: time_Sub_def bucket_ok_def min_int64_def max_int64_def)
    moreover have "Bucket_refill now b
        = b\<lparr>b_tokens := min (b_limit b) (b_tokens b + ?r), b_lastRefill := now\<rparr>"
      using False True sum(2) by (simp add: Bucket_refill_def Let_def min_def)
    ultimately show thesis using partial [of ?r] sum(1) True by simp
  next
    case nr: False
    with False none show thesis by (simp add: Bucket_refill_def Let_def)
  qed
qed

lemma Bucket_refill_ok: "bucket_ok b \<Longrightarrow> bucket_ok (Bucket_refill now b)"
proof -
  assume ok: "bucket_ok b"
  then show ?thesis
    by (cases rule: Bucket_refill_cases [OF ok, where now = now]) (auto simp: bucket_ok_def)
qed

text \<open>What a refill adds is paid for by the time it takes from the clock of the bucket.\<close>

definition bucket_rate :: "Bucket \<Rightarrow> rat" where
  "bucket_rate b = refill_slack * of_int (b_limit b) / of_int (b_window b)"

lemma bucket_rate_nonneg: "bucket_ok b \<Longrightarrow> 0 \<le> bucket_rate b"
  using refill_slack_ge_1 by (simp add: bucket_rate_def bucket_ok_def)

lemma Bucket_refill_paid:
  assumes ok: "bucket_ok b" and clock: "b_lastRefill b \<le> now"
  shows "of_int (b_tokens (Bucket_refill now b))
      \<le> of_int (b_tokens b) + bucket_rate b * of_int (b_lastRefill (Bucket_refill now b) - b_lastRefill b)"
    and "b_lastRefill b \<le> b_lastRefill (Bucket_refill now b)"
    and "b_lastRefill (Bucket_refill now b) \<le> now"
proof -
  define d where "d = now - b_lastRefill b"
  have L: "0 < (of_int (b_limit b) :: rat)" and W: "0 < (of_int (b_window b) :: rat)"
    using ok by (simp_all add: bucket_ok_def)
  have full_le: "of_int (b_limit b) \<le> bucket_rate b * of_int d" if "b_window b \<le> d"
  proof -
    have "of_int (b_limit b) \<le> refill_slack * of_int (b_limit b)"
      using refill_slack_ge_1 L by simp
    also have "\<dots> \<le> bucket_rate b * of_int d"
      using that W L refill_slack_ge_1
      by (simp add: bucket_rate_def le_divide_eq mult_left_mono)
    finally show ?thesis .
  qed
  show "of_int (b_tokens (Bucket_refill now b))
      \<le> of_int (b_tokens b) + bucket_rate b * of_int (b_lastRefill (Bucket_refill now b) - b_lastRefill b)"
  proof (cases rule: Bucket_refill_cases [OF ok, where now = now, case_names full partial none])
    case full
    with full_le ok show ?thesis by (simp add: d_def bucket_ok_def add_increasing)
  next
    case (partial r)
    with partial_refill_bound [of d "b_limit b" "b_window b"] ok
    have "of_int r \<le> bucket_rate b * of_int d"
      by (simp add: d_def bucket_ok_def bucket_rate_def)
    moreover have "of_int (min (b_limit b) (b_tokens b + r)) \<le> (of_int (b_tokens b + r) :: rat)"
      by (simp only: of_int_le_iff min.cobounded2)
    ultimately show ?thesis using partial by (simp add: d_def)
  next
    case none
    then show ?thesis by simp
  qed
  show "b_lastRefill b \<le> b_lastRefill (Bucket_refill now b)"
    and "b_lastRefill (Bucket_refill now b) \<le> now"
    using clock by (cases rule: Bucket_refill_cases [OF ok, where now = now], simp_all)+
qed

section \<open>What a limiter admits over time\<close>

text \<open>
  The contract of a limiter that pays for what it admits: it holds a non-negative credit, its
  clock follows the readings, and an admitted request lowers the credit by its cost, up to what
  the elapsed time has earned at a fixed rate. The requests check and the tokens check both
  meet it.
\<close>

fun run_check ::
  "(gotime \<Rightarrow> 'q \<Rightarrow> 's \<Rightarrow> bool \<times> 's) \<Rightarrow> ('q \<Rightarrow> nat) \<Rightarrow> (gotime \<times> 'q) list \<Rightarrow> 's \<Rightarrow> nat" where
  "run_check chk cost [] s = 0"
| "run_check chk cost ((now, q) # qs) s =
     (let (a, s') = chk now q s in (if a then cost q else 0) + run_check chk cost qs s')"

locale paying_limiter =
  fixes chk :: "gotime \<Rightarrow> 'q \<Rightarrow> 's \<Rightarrow> bool \<times> 's"
    and cost :: "'q \<Rightarrow> nat"
    and ok :: "'s \<Rightarrow> bool"
    and clock :: "'s \<Rightarrow> gotime"
    and credit :: "'s \<Rightarrow> rat"
    and rate :: "'s \<Rightarrow> rat"
  assumes chk_ok: "ok s \<Longrightarrow> ok (snd (chk now q s))"
    and chk_rate: "ok s \<Longrightarrow> rate (snd (chk now q s)) = rate s"
    and rate_nonneg: "ok s \<Longrightarrow> 0 \<le> rate s"
    and credit_nonneg: "ok s \<Longrightarrow> 0 \<le> credit s"
    and chk_clock: "ok s \<Longrightarrow> clock s \<le> now \<Longrightarrow> clock s \<le> clock (snd (chk now q s)) \<and> clock (snd (chk now q s)) \<le> now"
    and chk_pays: "ok s \<Longrightarrow> clock s \<le> now \<Longrightarrow>
        credit (snd (chk now q s)) + (if fst (chk now q s) then of_nat (cost q) else 0)
          \<le> credit s + rate s * of_int (clock (snd (chk now q s)) - clock s)"
begin

lemma run_paid:
  assumes "ok s" and "sorted (clock s # map fst qs)" and "\<forall>q \<in> set qs. fst q \<le> T" and "clock s \<le> T"
  shows "of_nat (run_check chk cost qs s) \<le> credit s + rate s * of_int (T - clock s)"
  using assms
proof (induction qs arbitrary: s)
  case Nil
  then show ?case using credit_nonneg [of s] rate_nonneg [of s] by simp
next
  case (Cons p qs)
  obtain now q where p: "p = (now, q)" by force
  define s' where "s' = snd (chk now q s)"
  from Cons.prems p have now: "clock s \<le> now" and "now \<le> T" by simp_all
  note c = chk_clock [OF Cons.prems(1) now, where q = q, folded s'_def]
  have ok': "ok s'" using Cons.prems(1) by (simp add: s'_def chk_ok)
  have "sorted (clock s' # map fst qs)" using Cons.prems(2) p c by auto
  from Cons.IH [OF ok' this] Cons.prems(3) c \<open>now \<le> T\<close>
  have "of_nat (run_check chk cost qs s') \<le> credit s' + rate s' * of_int (T - clock s')" by simp
  moreover have "rate s' = rate s" using Cons.prems(1) by (simp add: s'_def chk_rate)
  moreover note chk_pays [OF Cons.prems(1) now, where q = q, folded s'_def]
  moreover have "of_nat (run_check chk cost (p # qs) s)
      = (if fst (chk now q s) then of_nat (cost q) else 0) + (of_nat (run_check chk cost qs s') :: rat)"
    by (simp add: p s'_def split_beta Let_def)
  ultimately show ?case by (simp add: right_diff_distrib)
qed

end

definition allow_step :: "gotime \<Rightarrow> unit \<Rightarrow> Bucket \<Rightarrow> bool \<times> Bucket" where
  "allow_step now q b = (let (v, b') = Bucket_Allow now (Some b) in (fst v, the b'))"

definition take_step :: "gotime \<Rightarrow> nat \<Rightarrow> Bucket \<Rightarrow> bool \<times> Bucket" where
  "take_step now n b = (let (v, b') = Bucket_take now (int n) b in (fst v, b'))"

lemma allow_step_eq:
  "allow_step now q b =
     (let b' = Bucket_refill now b
      in if 0 < b_tokens b' then (True, b'\<lparr>b_tokens := b_tokens b' - 1\<rparr>) else (False, b'))"
  by (simp add: allow_step_def Bucket_Allow_def Let_def)

lemma bucket_rate_cong: "b_limit b' = b_limit b \<Longrightarrow> b_window b' = b_window b \<Longrightarrow> bucket_rate b' = bucket_rate b"
  by (simp add: bucket_rate_def)

interpretation requests: paying_limiter allow_step "\<lambda>_. 1" bucket_ok b_lastRefill
  "\<lambda>b. of_int (b_tokens b)" bucket_rate
proof
  fix b :: Bucket and now :: gotime and q :: unit
  assume ok: "bucket_ok b"
  have ok': "bucket_ok (Bucket_refill now b)" by (rule Bucket_refill_ok [OF ok])
  then show "bucket_ok (snd (allow_step now q b))"
    by (simp add: allow_step_eq Let_def bucket_ok_def)
  show "bucket_rate (snd (allow_step now q b)) = bucket_rate b"
    by (rule bucket_rate_cong) (simp_all add: allow_step_eq Let_def)
  show "0 \<le> bucket_rate b" by (rule bucket_rate_nonneg [OF ok])
  show "0 \<le> (of_int (b_tokens b) :: rat)" using ok by (simp add: bucket_ok_def)
  assume now: "b_lastRefill b \<le> now"
  note paid = Bucket_refill_paid [OF ok now]
  show "b_lastRefill b \<le> b_lastRefill (snd (allow_step now q b))
      \<and> b_lastRefill (snd (allow_step now q b)) \<le> now"
    using paid(2,3) by (simp add: allow_step_eq Let_def)
  show "of_int (b_tokens (snd (allow_step now q b))) + (if fst (allow_step now q b) then of_nat 1 else 0)
      \<le> of_int (b_tokens b) + bucket_rate b * of_int (b_lastRefill (snd (allow_step now q b)) - b_lastRefill b)"
    using paid(1) by (simp add: allow_step_eq Let_def)
qed

lemma take_step_eq:
  "bucket_ok b \<Longrightarrow> take_step now n b =
     (let b' = (if b_window b \<le> now - b_lastRefill b then b\<lparr>b_tokens := b_limit b, b_lastRefill := now\<rparr> else b)
      in if int n \<le> b_tokens b' then (True, b'\<lparr>b_tokens := b_tokens b' - int n\<rparr>) else (False, b'))"
proof -
  assume "bucket_ok b"
  then have "b_window b \<le> time_Sub now (b_lastRefill b) \<longleftrightarrow> b_window b \<le> now - b_lastRefill b"
    by (auto simp: time_Sub_def bucket_ok_def min_int64_def max_int64_def)
  then show ?thesis by (simp add: take_step_def Bucket_take_def Let_def)
qed

lemma take_step_paid:
  assumes ok: "bucket_ok b" and "b_window b \<le> now - b_lastRefill b"
  shows "of_int (b_limit b) \<le> of_int (b_tokens b) + bucket_rate b * of_int (now - b_lastRefill b)"
proof -
  have L: "0 < (of_int (b_limit b) :: rat)" and W: "0 < (of_int (b_window b) :: rat)"
    using ok by (simp_all add: bucket_ok_def)
  have "(of_int (b_window b) :: rat) \<le> of_int (now - b_lastRefill b)" using assms(2) by (simp only: of_int_le_iff)
  then have "of_int (b_limit b) * of_int (b_window b) \<le> refill_slack * of_int (b_limit b) * of_int (now - b_lastRefill b)"
    using L W refill_slack_ge_1 by (intro mult_mono) simp_all
  then have "of_int (b_limit b) \<le> bucket_rate b * of_int (now - b_lastRefill b)"
    using W by (simp add: bucket_rate_def le_divide_eq)
  then show ?thesis using ok by (simp add: bucket_ok_def add_increasing)
qed

interpretation tokens: paying_limiter take_step "\<lambda>n. n" bucket_ok b_lastRefill
  "\<lambda>b. of_int (b_tokens b)" bucket_rate
proof
  fix b :: Bucket and now :: gotime and q :: nat
  assume ok: "bucket_ok b"
  then show "bucket_ok (snd (take_step now q b))"
    by (auto simp: take_step_eq Let_def bucket_ok_def)
  show "bucket_rate (snd (take_step now q b)) = bucket_rate b"
    by (rule bucket_rate_cong) (simp_all add: take_step_eq [OF ok] Let_def)
  show "0 \<le> bucket_rate b" by (rule bucket_rate_nonneg [OF ok])
  show "0 \<le> (of_int (b_tokens b) :: rat)" using ok by (simp add: bucket_ok_def)
  assume now: "b_lastRefill b \<le> now"
  then show "b_lastRefill b \<le> b_lastRefill (snd (take_step now q b))
      \<and> b_lastRefill (snd (take_step now q b)) \<le> now"
    by (simp add: take_step_eq [OF ok] Let_def)
  show "of_int (b_tokens (snd (take_step now q b))) + (if fst (take_step now q b) then of_nat q else 0)
      \<le> of_int (b_tokens b) + bucket_rate b * of_int (b_lastRefill (snd (take_step now q b)) - b_lastRefill b)"
    using take_step_paid [OF ok] by (simp add: take_step_eq [OF ok] Let_def)
qed

section \<open>Properties of the bucket\<close>

text \<open>How many of the requests at the given times a bucket admits.\<close>

fun Bucket_admits :: "gotime list \<Rightarrow> Bucket option \<Rightarrow> nat" where
  "Bucket_admits [] b = 0"
| "Bucket_admits (now # ts) b =
     (let (v, b') = Bucket_Allow now b in (if fst v then 1 else 0) + Bucket_admits ts b')"

lemma Bucket_Allow_Some: "\<exists>v b'. Bucket_Allow now (Some b) = (v, Some b')"
  by (auto simp: Bucket_Allow_def Let_def)

lemma Bucket_admits_run:
  "Bucket_admits ts (Some b) = run_check allow_step (\<lambda>_. 1) (map (\<lambda>t. (t, ())) ts) b"
proof (induction ts arbitrary: b)
  case Nil
  then show ?case by simp
next
  case (Cons t ts)
  obtain v b' where "Bucket_Allow t (Some b) = (v, Some b')" using Bucket_Allow_Some by blast
  with Cons.IH show ?case by (simp add: allow_step_def)
qed

lemma requests_paid:
  assumes "bucket_ok b" and "sorted (b_lastRefill b # ts)" and "\<forall>t \<in> set ts. t \<le> T"
    and "b_lastRefill b \<le> T"
  shows "of_nat (Bucket_admits ts (Some b))
    \<le> of_int (b_tokens b) + bucket_rate b * of_int (T - b_lastRefill b)"
  unfolding Bucket_admits_run
  by (rule requests.run_paid) (use assms in \<open>simp_all add: o_def\<close>)

text \<open>C27. Soundness of the token bucket. Whatever the requests and their spacing, between the
  last refill of a well-formed bucket and a later time \<open>T\<close> the bucket admits at most the tokens
  it holds plus what \<open>limit\<close> per \<open>window\<close> earns in that time, up to the factor
  \<open>refill_slack\<close> (at most \<open>1 + 2\<^sup>-\<^sup>4\<^sup>9\<close>) that the floating-point computation of the refill can add.\<close>

theorem bucket_admission_bound:
  assumes "bucket_ok b" and "sorted (b_lastRefill b # ts)" and "\<forall>t \<in> set ts. t \<le> T"
    and "b_lastRefill b \<le> T"
  shows "of_nat (Bucket_admits ts (Some b))
    \<le> of_int (b_tokens b)
       + refill_slack * of_int (b_limit b) / of_int (b_window b) * of_int (T - b_lastRefill b)"
  using requests_paid [OF assms] by (simp only: bucket_rate_def)

definition bucket_example :: Bucket where
  "bucket_example =
     \<lparr>b_limit = 2, b_window = time_Minute, b_tokens = 2, b_lastRefill = 5000\<rparr>"

theorem bucket_admission_bound_witness:
  "of_nat (Bucket_admits [5000, 6000, 7000, 5000 + 30 * time_Second] (Some bucket_example))
    \<le> of_int 2 + refill_slack * of_int 2 / of_int 60000000000 * of_int (30 * time_Second)"
proof -
  have ok: "bucket_ok bucket_example" by code_simp
  have "of_nat (Bucket_admits [5000, 6000, 7000, 5000 + 30 * time_Second] (Some bucket_example))
    \<le> of_int (b_tokens bucket_example)
       + refill_slack * of_int (b_limit bucket_example) / of_int (b_window bucket_example)
         * of_int (5000 + 30 * time_Second - b_lastRefill bucket_example)"
    by (rule bucket_admission_bound [OF ok]) (simp_all add: bucket_example_def duration_defs)
  then show ?thesis by (simp add: bucket_example_def duration_defs)
qed

lemma NewBucket_ok:
  "NewBucket limit window now = Some b \<Longrightarrow> limit \<le> 2 ^ 60 \<Longrightarrow> 0 < window \<Longrightarrow> window \<le> max_int64 \<Longrightarrow>
     bucket_ok b \<and> b_limit b = limit \<and> b_window b = window \<and> b_tokens b = limit \<and> b_lastRefill b = now"
  by (auto simp: NewBucket_def bucket_ok_def split: if_splits)

text \<open>A new bucket admits at most twice its limit during its first window: the burst it
  starts with and one window's worth of refill.\<close>

theorem new_bucket_twice_limit:
  assumes "NewBucket limit window t0 = Some b" and "limit \<le> 2 ^ 48" and "0 < window"
    and "window \<le> max_int64" and "sorted (t0 # ts)" and "\<forall>t \<in> set ts. t \<le> t0 + window"
  shows "int (Bucket_admits ts (Some b)) \<le> 2 * limit"
proof -
  from assms(2) have "limit \<le> 2 ^ 60" by simp
  from NewBucket_ok [OF assms(1) this assms(3,4)]
  have ok: "bucket_ok b" and b: "b_limit b = limit" "b_window b = window" "b_tokens b = limit"
    "b_lastRefill b = t0" by simp_all
  have l: "0 \<le> (of_int limit :: rat)" using ok b by (simp add: bucket_ok_def)
  have "of_nat (Bucket_admits ts (Some b)) \<le> of_int limit + bucket_rate b * of_int window"
    using requests_paid [OF ok, of ts "t0 + window"] assms b by simp
  also have "bucket_rate b * of_int window = refill_slack * of_int limit"
    using assms(3) b by (simp add: bucket_rate_def)
  also have "of_int limit + refill_slack * of_int limit \<le> of_int limit + (1 + 1 / 2 ^ 49) * of_int limit"
    using refill_slack_small l by (intro add_left_mono mult_right_mono)
  also have "\<dots> < 2 * of_int limit + 1"
  proof -
    have "(of_int limit :: rat) \<le> of_int (2 ^ 48)" using assms(2) by (simp only: of_int_le_iff)
    then show ?thesis by (simp add: algebra_simps)
  qed
  finally have "of_int (int (Bucket_admits ts (Some b))) < (of_int (2 * limit + 1) :: rat)" by simp
  then show ?thesis by (simp only: of_int_less_iff)
qed

theorem new_bucket_twice_limit_witness:
  "int (Bucket_admits [5000, 6000, 7000, 5000 + 30 * time_Second]
     (NewBucket 2 time_Minute 5000)) \<le> 2 * 2"
proof -
  have n: "NewBucket 2 time_Minute 5000 = Some bucket_example"
    by (simp add: NewBucket_def bucket_example_def)
  show ?thesis unfolding n
    by (rule new_bucket_twice_limit [OF n, of "[5000, 6000, 7000, 5000 + 30 * time_Second]"])
      (simp_all add: duration_defs max_int64_def)
qed

text \<open>The comment on \<^verbatim>\<open>Bucket\<close> says that it allows up to \<open>limit\<close> requests per \<open>window\<close>; with a
  limit of 2 per minute it admits three requests within 31 seconds.\<close>

theorem bucket_exceeds_limit_in_window:
  "Bucket_admits [5000, 6000, 5000 + 31 * time_Second] (NewBucket 2 time_Minute 5000) = 3"
  by code_simp

text \<open>Evicting a bucket that has not been used for ten minutes cannot be observed: at the
  time of the eviction or later, the old bucket and a new one give the same verdict and become
  the same bucket.\<close>

theorem stale_bucket_like_new:
  assumes "bucket_ok b" and "b_window b = time_Minute" and "b_lastRefill b \<le> lastAccess"
    and "10 * time_Minute < time_Sub te lastAccess" and "te \<le> now"
  shows "Bucket_Allow now (Some b) = Bucket_Allow now (NewBucket (b_limit b) time_Minute now)"
proof -
  have "time_Minute \<le> time_Sub now (b_lastRefill b)"
    using assms(3-5) by (auto simp: time_Sub_def duration_defs min_int64_def max_int64_def)
  then have old: "Bucket_refill now b = b\<lparr>b_tokens := b_limit b, b_lastRefill := now\<rparr>"
    using assms(2) by (simp add: Bucket_refill_def)
  let ?n = "\<lparr>b_limit = b_limit b, b_window = time_Minute, b_tokens = b_limit b, b_lastRefill = now\<rparr>"
  have new: "NewBucket (b_limit b) time_Minute now = Some ?n"
    using assms(1) by (simp add: NewBucket_def bucket_ok_def)
  have "Bucket_refill now ?n = ?n"
    by (simp add: Bucket_refill_def time_Sub_def duration_defs min_int64_def max_int64_def)
  moreover have "b\<lparr>b_tokens := b_limit b, b_lastRefill := now\<rparr> = ?n" using assms(2) by simp
  ultimately show ?thesis using old new by (simp add: Bucket_Allow_def)
qed

theorem stale_bucket_like_new_witness:
  "Bucket_Allow (5000 + 20 * time_Minute) (Some bucket_example)
     = Bucket_Allow (5000 + 20 * time_Minute) (NewBucket 2 time_Minute (5000 + 20 * time_Minute))"
proof -
  have "bucket_ok bucket_example" by code_simp
  from stale_bucket_like_new [OF this, of 6000 "5000 + 20 * time_Minute" "5000 + 20 * time_Minute"]
  show ?thesis
    by (simp add: bucket_example_def duration_defs time_Sub_def min_int64_def max_int64_def)
qed

section \<open>Properties of the limiter\<close>

definition entry_ok :: "bucketEntry \<Rightarrow> bool" where
  "entry_ok e \<longleftrightarrow> (case be_bucket e of None \<Rightarrow> True | Some b \<Rightarrow> bucket_ok b)"

definition limiter_ok :: "Limiter \<Rightarrow> bool" where
  "limiter_ok l \<longleftrightarrow> gm_ok (l_buckets l) \<and> '''' \<notin> gm_keys (l_buckets l)
     \<and> (\<forall>(k, e) \<in> set (l_buckets l). entry_ok e)
     \<and> l_rpm l \<le> 2 ^ 60 \<and> l_tpm l \<le> 2 ^ 60 \<and> 0 < l_maxEntries l"

lemma gm_all_iff: "gm_ok m \<Longrightarrow> (\<forall>(k, e) \<in> set m. P e) \<longleftrightarrow> (\<forall>k e. gm_get m k = Some e \<longrightarrow> P e)"
  by (auto simp: gm_get_mem)

lemma limiter_ok_alt:
  "limiter_ok l \<longleftrightarrow> gm_ok (l_buckets l) \<and> '''' \<notin> gm_keys (l_buckets l)
     \<and> (\<forall>k e. gm_get (l_buckets l) k = Some e \<longrightarrow> entry_ok e)
     \<and> l_rpm l \<le> 2 ^ 60 \<and> l_tpm l \<le> 2 ^ 60 \<and> 0 < l_maxEntries l"
  unfolding limiter_ok_def using gm_all_iff [of "l_buckets l" entry_ok] by blast

lemma bucket_key_nonempty [simp]: "bucket_key keyID limitType \<noteq> ''''"
  by (simp add: bucket_key_def)

lemma bucket_key_inject: "bucket_key a ''rpm'' = bucket_key b ''rpm'' \<longleftrightarrow> a = b"
  by (simp add: bucket_key_def)

lemma limiter_ok_set:
  "limiter_ok l \<Longrightarrow> k \<noteq> '''' \<Longrightarrow> entry_ok e \<Longrightarrow> limiter_ok (l\<lparr>l_buckets := gm_set k e (l_buckets l)\<rparr>)"
  by (auto simp: limiter_ok_alt gomap_simps)

lemma limiter_ok_evictOldest: "limiter_ok l \<Longrightarrow> limiter_ok (evictOldest l)"
  unfolding limiter_ok_alt evictOldest_def
  using gm_keys_delete_oldest [of be_lastAccess "l_buckets l"] delete_oldest_get [of be_lastAccess "l_buckets l"]
  by (simp add: subset_iff) (metis option.distinct(1))

lemma limiter_ok_evictStale: "limiter_ok l \<Longrightarrow> limiter_ok (evictStale now l)"
  unfolding limiter_ok_def evictStale_def by (auto simp: gm_prune_def gm_ok_def distinct_map_filter)

lemma entry_ok_new: "limit \<le> 2 ^ 60 \<Longrightarrow> entry_ok \<lparr>be_bucket = NewBucket limit time_Minute tb, be_lastAccess = ta\<rparr>"
  using NewBucket_ok [of limit time_Minute tb]
  by (auto simp: entry_ok_def duration_defs max_int64_def split: option.splits)

lemma getBucket_ok:
  assumes "limiter_ok l" and "limit \<le> 2 ^ 60" and "getBucket keyID t limit time_Minute tb ta l = (e, l')"
  shows "limiter_ok l' \<and> entry_ok e \<and> l_rpm l' = l_rpm l \<and> l_tpm l' = l_tpm l \<and> l_maxEntries l' = l_maxEntries l
    \<and> gm_get (l_buckets l') (bucket_key keyID t) = Some e"
proof (cases "gm_get (l_buckets l) (bucket_key keyID t)")
  case None
  define l1 where "l1 = (if l_maxEntries l \<le> gm_len (l_buckets l) then evictOldest l else l)"
  have l1: "limiter_ok l1" "l_rpm l1 = l_rpm l" "l_tpm l1 = l_tpm l" "l_maxEntries l1 = l_maxEntries l"
    using assms(1) limiter_ok_evictOldest [of l] by (auto simp: l1_def) (simp_all add: evictOldest_def)
  from None assms(3) have e: "e = \<lparr>be_bucket = NewBucket limit time_Minute tb, be_lastAccess = ta\<rparr>"
    and l': "l' = l1\<lparr>l_buckets := gm_set (bucket_key keyID t) e (l_buckets l1)\<rparr>"
    by (auto simp: getBucket_def Let_def l1_def)
  have "entry_ok e" unfolding e by (rule entry_ok_new [OF assms(2)])
  with l1 l' show ?thesis by (simp add: limiter_ok_set gomap_simps)
next
  case (Some e0)
  with assms(1) have "entry_ok e0" by (auto simp: limiter_ok_alt)
  then have "entry_ok (e0\<lparr>be_lastAccess := ta\<rparr>)" by (simp add: entry_ok_def)
  with Some assms(1,3) show ?thesis
    by (auto simp: getBucket_def Let_def limiter_ok_set gomap_simps)
qed

lemma getBucket_size:
  assumes "limiter_ok l" and "gm_len (l_buckets l) \<le> l_maxEntries l"
    and "getBucket keyID t limit window tb ta l = (e, l')"
  shows "gm_len (l_buckets l') \<le> l_maxEntries l"
proof (cases "gm_get (l_buckets l) (bucket_key keyID t)")
  case None
  show ?thesis
  proof (cases "l_maxEntries l \<le> gm_len (l_buckets l)")
    case True
    with assms(1) have ne: "l_buckets l \<noteq> []" by (auto simp: limiter_ok_def)
    from assms(1) delete_oldest_len [OF _ ne, of be_lastAccess]
    have "Suc (gm_len (delete_oldest be_lastAccess (l_buckets l))) = gm_len (l_buckets l)"
      by (simp add: limiter_ok_def)
    with True None assms(2,3) show ?thesis
      by (auto simp: getBucket_def Let_def evictOldest_def gm_len_set)
  next
    case False
    with None assms(3) show ?thesis by (auto simp: getBucket_def Let_def gm_len_set)
  qed
next
  case (Some e0)
  then have "bucket_key keyID t \<in> gm_keys (l_buckets l)" by (rule gm_get_key)
  moreover from Some assms(3) have "l_buckets l' = gm_set (bucket_key keyID t) e (l_buckets l)"
    by (auto simp: getBucket_def Let_def)
  ultimately show ?thesis using assms(2) by (simp add: gm_len_set)
qed

lemma CheckRPM_eq:
  "0 < l_rpm l \<Longrightarrow> getBucket keyID ''rpm'' (l_rpm l) time_Minute tb ta l = (e, l1) \<Longrightarrow>
   Bucket_Allow now (be_bucket e) = (v, b) \<Longrightarrow>
   CheckRPM keyID tb ta now l =
     (v, l1\<lparr>l_buckets := gm_set (bucket_key keyID ''rpm'') (e\<lparr>be_bucket := b\<rparr>) (l_buckets l1)\<rparr>)"
  by (simp add: CheckRPM_def)

lemma Bucket_Allow_ok: "entry_ok e \<Longrightarrow> Bucket_Allow now (be_bucket e) = (v, b) \<Longrightarrow> entry_ok (e\<lparr>be_bucket := b\<rparr>)"
  using Bucket_refill_ok [of "the (be_bucket e)" now]
  by (auto simp: entry_ok_def Bucket_Allow_def Let_def bucket_ok_def split: option.splits if_splits)

lemma CheckRPM_ok:
  assumes "limiter_ok l"
  shows "limiter_ok (snd (CheckRPM keyID tb ta now l))
    \<and> l_maxEntries (snd (CheckRPM keyID tb ta now l)) = l_maxEntries l
    \<and> (gm_len (l_buckets l) \<le> l_maxEntries l \<longrightarrow>
        gm_len (l_buckets (snd (CheckRPM keyID tb ta now l))) \<le> l_maxEntries l)"
proof (cases "l_rpm l \<le> 0")
  case True
  with assms show ?thesis by (simp add: CheckRPM_def)
next
  case False
  obtain e l1 where g: "getBucket keyID ''rpm'' (l_rpm l) time_Minute tb ta l = (e, l1)" by force
  obtain v b where a: "Bucket_Allow now (be_bucket e) = (v, b)" by (metis surj_pair)
  from assms have lim: "l_rpm l \<le> 2 ^ 60" by (simp add: limiter_ok_def)
  note gb = getBucket_ok [OF assms lim g]
  have "entry_ok (e\<lparr>be_bucket := b\<rparr>)" using gb a by (blast intro: Bucket_Allow_ok)
  moreover have "bucket_key keyID ''rpm'' \<in> gm_keys (l_buckets l1)"
    using gb by (blast intro: gm_get_key)
  ultimately show ?thesis
    using False gb getBucket_size [OF assms _ g] CheckRPM_eq [OF _ g a]
    by (simp add: limiter_ok_set gm_len_set)
qed

interpretation rpm_store: bounded_store "\<lambda>l. gm_len (l_buckets l)" l_maxEntries limiter_ok
  "\<lambda>(keyID, tb, ta, now) l. snd (CheckRPM keyID tb ta now l)"
  by unfold_locales (auto simp: CheckRPM_ok)

text \<open>The map of buckets never outgrows its capacity: after any sequence of request checks
  on a new limiter, for any keys at any times, it holds at most 10000 buckets, and it is still
  well formed (every bucket holds between 0 and \<open>limit\<close> tokens).\<close>

theorem limiter_bounded:
  assumes "rpm \<le> 2 ^ 60" and "tpm \<le> 2 ^ 60"
  shows "let l = fold (\<lambda>(keyID, tb, ta, now) l. snd (CheckRPM keyID tb ta now l)) ops (NewLimiter rpm tpm)
         in gm_len (l_buckets l) \<le> 10000 \<and> limiter_ok l"
proof -
  have ok: "limiter_ok (NewLimiter rpm tpm)" using assms by (simp add: limiter_ok_def NewLimiter_def)
  have "gm_len (l_buckets (NewLimiter rpm tpm)) \<le> l_maxEntries (NewLimiter rpm tpm)"
    by (simp add: NewLimiter_def)
  from rpm_store.run_bounded [OF ok this, of ops] rpm_store.run_inv [OF ok, of ops] show ?thesis
    by (simp add: Let_def NewLimiter_def)
qed

theorem limiter_bounded_witness:
  "let l = fold (\<lambda>(keyID, tb, ta, now) l. snd (CheckRPM keyID tb ta now l))
             [(''vk-1'', 1, 2, 3), (''vk-2'', 4, 5, 6)] (NewLimiter 60 0)
   in gm_len (l_buckets l) \<le> 10000 \<and> limiter_ok l"
  by (rule limiter_bounded) simp_all

text \<open>Keys are isolated: a check of one key leaves the bucket of every other key and of
  every other kind of limit as it was, or evicts it when a new key arrives at a full map; below
  capacity nothing else changes.\<close>

theorem check_isolated:
  assumes "k \<noteq> bucket_key keyID ''rpm''"
  shows "gm_get (l_buckets (snd (CheckRPM keyID tb ta now l))) k \<in> {gm_get (l_buckets l) k, None}
    \<and> (gm_len (l_buckets l) < l_maxEntries l \<longrightarrow>
        gm_get (l_buckets (snd (CheckRPM keyID tb ta now l))) k = gm_get (l_buckets l) k)"
proof (cases "l_rpm l \<le> 0")
  case True
  then show ?thesis by (simp add: CheckRPM_def)
next
  case False
  obtain e l1 where g: "getBucket keyID ''rpm'' (l_rpm l) time_Minute tb ta l = (e, l1)" by force
  obtain v b where a: "Bucket_Allow now (be_bucket e) = (v, b)" by (metis surj_pair)
  have "gm_get (l_buckets l1) k \<in> {gm_get (l_buckets l) k, None}
    \<and> (gm_len (l_buckets l) < l_maxEntries l \<longrightarrow> gm_get (l_buckets l1) k = gm_get (l_buckets l) k)"
    using g assms delete_oldest_get [of be_lastAccess "l_buckets l" k]
    by (auto simp: getBucket_def Let_def evictOldest_def gomap_simps split: option.splits if_splits)
  with False CheckRPM_eq [OF _ g a] assms show ?thesis by (simp add: gomap_simps)
qed

theorem check_isolated_witness:
  "let l = snd (CheckRPM ''vk-1'' 1 2 3 (NewLimiter 60 0))
   in gm_get (l_buckets (snd (CheckRPM ''vk-2'' 4 5 6 l))) (bucket_key ''vk-1'' ''rpm'')
        \<in> {gm_get (l_buckets l) (bucket_key ''vk-1'' ''rpm''), None}"
  using check_isolated [of "bucket_key ''vk-1'' ''rpm''" "''vk-2''" 4 5 6
      "snd (CheckRPM ''vk-1'' 1 2 3 (NewLimiter 60 0))"]
  by (simp add: bucket_key_inject Let_def)

end
