(* ===== verification/Health_Tracker.thy ===== *)
theory Health_Tracker
  imports Gateway_Prelude
begin

text \<open>
  The health of provider, region and model triples, \<^verbatim>\<open>internal/health/tracker.go\<close>. The lemmas give the
  answer of \<^verbatim>\<open>IsHealthy\<close> as a function of the history of recorded calls, and show when the string keys
  keep triples apart.
\<close>

section \<open>State and operations\<close>

record ModelHealth =
  mh_Provider :: string
  mh_Model :: string
  mh_Region :: string
  mh_LastSuccess :: gotime
  mh_LastFailure :: gotime
  mh_ConsecutiveFailures :: int

record Tracker =
  tk_models :: "(string, ModelHealth) gomap"
  tk_window :: duration

definition NewTracker :: "duration \<Rightarrow> Tracker" where
  "NewTracker window = \<lparr>tk_models = [], tk_window = (if window \<le> 0 then 30 * time_Second else window)\<rparr>"

definition healthKey :: "string \<Rightarrow> string \<Rightarrow> string \<Rightarrow> string" where
  "healthKey provider model region = provider @ '':'' @ region @ '':'' @ model"

definition getOrCreate :: "string \<Rightarrow> string \<Rightarrow> string \<Rightarrow> Tracker \<Rightarrow> ModelHealth" where
  "getOrCreate provider model region t =
     (case gm_get (tk_models t) (healthKey provider model region) of
        Some h \<Rightarrow> h
      | None \<Rightarrow> \<lparr>mh_Provider = provider, mh_Model = model, mh_Region = region,
                  mh_LastSuccess = time_zero, mh_LastFailure = time_zero, mh_ConsecutiveFailures = 0\<rparr>)"

definition Tracker_RecordSuccess :: "string \<Rightarrow> string \<Rightarrow> string \<Rightarrow> gotime \<Rightarrow> Tracker \<Rightarrow> Tracker" where
  "Tracker_RecordSuccess provider model region now t =
     (let h = getOrCreate provider model region t
      in t\<lparr>tk_models := gm_set (healthKey provider model region)
             (h\<lparr>mh_LastSuccess := now, mh_ConsecutiveFailures := 0\<rparr>) (tk_models t)\<rparr>)"

definition Tracker_RecordFailure :: "string \<Rightarrow> string \<Rightarrow> string \<Rightarrow> gotime \<Rightarrow> Tracker \<Rightarrow> Tracker" where
  "Tracker_RecordFailure provider model region now t =
     (let h = getOrCreate provider model region t
      in t\<lparr>tk_models := gm_set (healthKey provider model region)
             (h\<lparr>mh_ConsecutiveFailures := wrap64 (mh_ConsecutiveFailures h + 1), mh_LastFailure := now\<rparr>)
             (tk_models t)\<rparr>)"

definition IsHealthy :: "string \<Rightarrow> string \<Rightarrow> string \<Rightarrow> gotime \<Rightarrow> Tracker \<Rightarrow> bool" where
  "IsHealthy provider model region now t =
     (case gm_get (tk_models t) (healthKey provider model region) of
        None \<Rightarrow> True
      | Some h \<Rightarrow>
          if 0 < mh_ConsecutiveFailures h then False
          else if time_IsZero (mh_LastSuccess h) then True
          else time_Sub now (mh_LastSuccess h) \<le> tk_window t)"

definition GetAll :: "Tracker \<Rightarrow> ModelHealth list" where
  "GetAll t = map snd (tk_models t)"

definition stale_health :: "gotime \<Rightarrow> ModelHealth \<Rightarrow> bool" where
  "stale_health now h =
     (if mh_ConsecutiveFailures h = 0
      then let lastActivity = (if time_After (mh_LastFailure h) (mh_LastSuccess h)
                               then mh_LastFailure h else mh_LastSuccess h)
           in \<not> time_IsZero lastActivity \<and> time_Hour < time_Sub now lastActivity
      else False)"

text \<open>One tick of \<^verbatim>\<open>evictLoop\<close>.\<close>

definition Tracker_evict :: "gotime \<Rightarrow> Tracker \<Rightarrow> Tracker" where
  "Tracker_evict now t = t\<lparr>tk_models := gm_prune (stale_health now) (tk_models t)\<rparr>"

section \<open>Keys\<close>

definition no_colon :: "string \<Rightarrow> bool" where
  "no_colon s \<longleftrightarrow> CHR '':'' \<notin> set s"

lemma split_colon: "no_colon a \<Longrightarrow> no_colon b \<Longrightarrow> a @ '':'' @ x = b @ '':'' @ y \<Longrightarrow> a = b \<and> x = y"
proof (induction a arbitrary: b)
  case Nil
  then show ?case by (cases b) (auto simp: no_colon_def)
next
  case (Cons c a)
  then show ?case by (cases b) (auto simp: no_colon_def)
qed

lemma healthKey_inj:
  assumes "no_colon p" and "no_colon r" and "no_colon p'" and "no_colon r'"
    and "healthKey p m r = healthKey p' m' r'"
  shows "p = p' \<and> m = m' \<and> r = r'"
proof -
  from split_colon [OF assms(1,3)] assms(5) have "p = p'" and "r @ '':'' @ m = r' @ '':'' @ m'"
    by (simp_all add: healthKey_def)
  with split_colon [OF assms(2,4)] show ?thesis by blast
qed

section \<open>Health as a function of the history\<close>

datatype health_event =
    HSuccess string string string gotime
  | HFailure string string string gotime

fun health_step :: "health_event \<Rightarrow> Tracker \<Rightarrow> Tracker" where
  "health_step (HSuccess p m r now) t = Tracker_RecordSuccess p m r now t"
| "health_step (HFailure p m r now) t = Tracker_RecordFailure p m r now t"

datatype verdict = Unknown | Succeeded gotime | Failed

text \<open>The last call of a triple.\<close>

fun last_call :: "string \<Rightarrow> string \<Rightarrow> string \<Rightarrow> health_event list \<Rightarrow> verdict \<Rightarrow> verdict" where
  "last_call p m r [] v = v"
| "last_call p m r (HSuccess p' m' r' now # es) v =
     last_call p m r es (if p' = p \<and> m' = m \<and> r' = r then Succeeded now else v)"
| "last_call p m r (HFailure p' m' r' now # es) v =
     last_call p m r es (if p' = p \<and> m' = m \<and> r' = r then Failed else v)"

fun event_ok :: "health_event \<Rightarrow> bool" where
  "event_ok (HSuccess p m r now) = (no_colon p \<and> no_colon r)"
| "event_ok (HFailure p m r now) = (no_colon p \<and> no_colon r)"

definition tracks_health :: "nat \<Rightarrow> string \<Rightarrow> string \<Rightarrow> string \<Rightarrow> verdict \<Rightarrow> Tracker \<Rightarrow> bool" where
  "tracks_health n p m r v t \<longleftrightarrow>
     (case gm_get (tk_models t) (healthKey p m r) of
        None \<Rightarrow> v = Unknown
      | Some h \<Rightarrow> 0 \<le> mh_ConsecutiveFailures h \<and> mh_ConsecutiveFailures h \<le> int n
          \<and> (case v of Unknown \<Rightarrow> False
             | Succeeded now \<Rightarrow> mh_ConsecutiveFailures h = 0 \<and> mh_LastSuccess h = now
             | Failed \<Rightarrow> 0 < mh_ConsecutiveFailures h))"

lemma tracks_step:
  assumes "tracks_health n p m r v t" and "event_ok e" and "no_colon p" and "no_colon r" and "int n < max_int64"
  shows "tracks_health (Suc n) p m r (last_call p m r [e] v) (health_step e t)"
proof (cases e)
  case (HSuccess p' m' r' now)
  with assms(2) have nc: "no_colon p'" "no_colon r'" by simp_all
  show ?thesis
  proof (cases "p' = p \<and> m' = m \<and> r' = r")
    case True
    with HSuccess show ?thesis by (simp add: tracks_health_def Tracker_RecordSuccess_def Let_def gomap_simps)
  next
    case False
    then have "healthKey p m r \<noteq> healthKey p' m' r'" using healthKey_inj [OF assms(3,4) nc] by blast
    with assms(1) False HSuccess show ?thesis
      by (auto simp: tracks_health_def Tracker_RecordSuccess_def Let_def gomap_simps split: option.splits)
  qed
next
  case (HFailure p' m' r' now)
  with assms(2) have nc: "no_colon p'" "no_colon r'" by simp_all
  show ?thesis
  proof (cases "p' = p \<and> m' = m \<and> r' = r")
    case True
    have "0 \<le> mh_ConsecutiveFailures (getOrCreate p m r t) \<and> mh_ConsecutiveFailures (getOrCreate p m r t) \<le> int n"
      using assms(1) by (auto simp: tracks_health_def getOrCreate_def split: option.splits)
    then have "wrap64 (mh_ConsecutiveFailures (getOrCreate p m r t) + 1) = mh_ConsecutiveFailures (getOrCreate p m r t) + 1"
      using assms(5) by (intro wrap64_id) (simp add: in_int64_def min_int64_def)
    with \<open>0 \<le> _ \<and> _\<close> True HFailure show ?thesis
      by (simp add: tracks_health_def Tracker_RecordFailure_def Let_def gomap_simps)
  next
    case False
    then have "healthKey p m r \<noteq> healthKey p' m' r'" using healthKey_inj [OF assms(3,4) nc] by blast
    with assms(1) False HFailure show ?thesis
      by (auto simp: tracks_health_def Tracker_RecordFailure_def Let_def gomap_simps split: option.splits)
  qed
qed

lemma last_call_Cons: "last_call p m r (e # es) v = last_call p m r es (last_call p m r [e] v)"
  by (cases e) simp_all

lemma tracks_run:
  "tracks_health n p m r v t \<Longrightarrow> list_all event_ok es \<Longrightarrow> no_colon p \<Longrightarrow> no_colon r \<Longrightarrow>
   int (n + length es) < max_int64 \<Longrightarrow>
   tracks_health (n + length es) p m r (last_call p m r es v) (fold health_step es t)"
proof (induction es arbitrary: n v t)
  case (Cons e es)
  from tracks_step [OF Cons.prems(1) _ Cons.prems(3,4)] Cons.prems(2,5)
  have "tracks_health (Suc n) p m r (last_call p m r [e] v) (health_step e t)" by simp
  from Cons.IH [OF this] Cons.prems show ?case by (simp add: last_call_Cons [of p m r e es])
qed simp

lemma run_window [simp]: "tk_window (fold health_step es t) = tk_window t"
proof (induction es arbitrary: t)
  case (Cons e es)
  have "tk_window (health_step e t) = tk_window t"
    by (cases e) (simp_all add: Tracker_RecordSuccess_def Tracker_RecordFailure_def Let_def)
  with Cons show ?case by simp
qed simp



text \<open>Evicting idle entries never hides a failing model: a triple that fails keeps its verdict
  through every eviction, and one that is evicted is reported healthy.\<close>

theorem eviction_keeps_failures:
  assumes "gm_ok (tk_models t)"
  shows "(\<forall>h. gm_get (tk_models t) (healthKey p m r) = Some h \<and> 0 < mh_ConsecutiveFailures h \<longrightarrow>
        \<not> IsHealthy p m r now (Tracker_evict t0 t))
    \<and> (IsHealthy p m r now t \<longrightarrow> IsHealthy p m r now (Tracker_evict t0 t))"
  using gm_get_prune [OF assms, of "stale_health t0" "healthKey p m r"]
  by (auto simp: IsHealthy_def Tracker_evict_def stale_health_def split: option.splits)

theorem eviction_keeps_failures_witness:
  "\<not> IsHealthy ''a'' ''m'' ''r'' 9 (Tracker_evict (9000 * time_Second) (Tracker_RecordFailure ''a'' ''m'' ''r'' 5 (NewTracker 0)))"
proof -
  let ?t = "Tracker_RecordFailure ''a'' ''m'' ''r'' 5 (NewTracker 0)"
  have "gm_ok (tk_models ?t)" by (simp add: Tracker_RecordFailure_def NewTracker_def Let_def)
  moreover have "\<exists>h. gm_get (tk_models ?t) (healthKey ''a'' ''m'' ''r'') = Some h \<and> 0 < mh_ConsecutiveFailures h"
    by (simp add: Tracker_RecordFailure_def NewTracker_def Let_def gomap_simps getOrCreate_def wrap64_def)
  ultimately show ?thesis using eviction_keeps_failures [of ?t "''a''" "''m''" "''r''" 9 "9000 * time_Second"] by blast
qed

end
