(* ===== verification/Providers.thy ===== *)
theory Providers
  imports Gateway_Config Kms "HOL-Library.Multiset"
begin

text \<open>
  What the gateway knows of its providers: targets, keys and errors (\<^verbatim>\<open>internal/providers/provider.go\<close>) and the
  defaults of known providers (\<^verbatim>\<open>registry.go\<close>). The adapters talk to services and are parameters of the
  components that use them. The lemmas show that the keys of a provider are used in turn and
  that the configuration of the user takes precedence over the registry.
\<close>

section \<open>Targets, keys and errors\<close>

record Target =
  tg_Provider :: string
  tg_Model :: string
  tg_Region :: string
  tg_BaseURL :: string
  tg_DataResidency :: string

definition zero_Target :: Target where
  "zero_Target = \<lparr>tg_Provider = '''', tg_Model = '''', tg_Region = '''', tg_BaseURL = '''', tg_DataResidency = ''''\<rparr>"

record ProviderKey =
  key_ID :: string
  key_Value :: string

record MissingEnvKey =
  mk_KeyID :: string
  mk_Env :: string

record KeyRing =
  kr_next :: nat
  kr_keys :: "ProviderKey list"
  kr_configured :: int
  kr_missingEnv :: "MissingEnvKey list"

text \<open>
  The errors of a provider call: one that wraps \<^verbatim>\<open>ErrRetryable\<close>, an \<^verbatim>\<open>HTTPError\<close>, or any other.
\<close>

datatype provider_error =
    RetryableError string
  | HTTPError int string
  | OtherError string

fun IsRetryable :: "provider_error \<Rightarrow> bool" where
  "IsRetryable (RetryableError msg) = True"
| "IsRetryable (HTTPError status body) = (status = 429 \<or> 500 \<le> status)"
| "IsRetryable (OtherError msg) = False"

text \<open>
  \<^verbatim>\<open>NewKeyRing\<close>: the environment is a function, the fetcher of data keys is optional and acts on the
  state of its service.
\<close>

fun collect_keys ::
  "(string \<Rightarrow> string) \<Rightarrow> (string \<Rightarrow> 'w \<Rightarrow> string option \<times> 'w) option \<Rightarrow> ProviderKeyConfig list \<Rightarrow> 'w
     \<Rightarrow> (ProviderKey list \<times> MissingEnvKey list) \<times> 'w" where
  "collect_keys env decrypt [] w = (([], []), w)"
| "collect_keys env decrypt (item # items) w =
     (let encrypted = pk_Value item = '''' \<and> pk_EncryptedValue item \<noteq> '''';
          (r, w) = (if \<not> encrypted then (Inr (pk_Value item), w)
                    else case decrypt of
                           None \<Rightarrow> (Inl ''encrypted_value (no KMS configured)'', w)
                         | Some d \<Rightarrow> (case d (pk_EncryptedValue item) w of
                                       (None, w) \<Rightarrow> (Inl ''encrypted_value (decryption failed)'', w)
                                     | (Some v, w) \<Rightarrow> (Inr v, w)))
      in case r of
           Inl reason \<Rightarrow>
             (case collect_keys env decrypt items w of
                ((keys, missing), w) \<Rightarrow>
                  ((keys, \<lparr>mk_KeyID = pk_ID item, mk_Env = reason\<rparr> # missing), w))
         | Inr value \<Rightarrow>
             let fromEnv = value = '''' \<and> pk_Env item \<noteq> '''';
                 value = (if fromEnv then env (pk_Env item) else value);
                 miss = (if fromEnv \<and> value = '''' then [\<lparr>mk_KeyID = pk_ID item, mk_Env = pk_Env item\<rparr>] else [])
             in (case collect_keys env decrypt items w of
                   ((keys, missing), w) \<Rightarrow>
                     ((if value = '''' then keys else \<lparr>key_ID = pk_ID item, key_Value = value\<rparr> # keys,
                       miss @ missing), w)))"

definition NewKeyRing ::
  "(string \<Rightarrow> string) \<Rightarrow> (string \<Rightarrow> 'w \<Rightarrow> string option \<times> 'w) option \<Rightarrow> ProviderConfig \<Rightarrow> 'w \<Rightarrow> KeyRing \<times> 'w" where
  "NewKeyRing env decrypt cfg w =
     (case collect_keys env decrypt (pc_Keys cfg) w of
        ((keys, missing), w) \<Rightarrow>
          (\<lparr>kr_next = 0, kr_keys = keys, kr_configured = int (length (pc_Keys cfg)), kr_missingEnv = missing\<rparr>, w))"

text \<open>The counter is a \<^verbatim>\<open>uint64\<close>.\<close>

definition KeyRing_Next :: "KeyRing \<Rightarrow> ProviderKey option \<times> KeyRing" where
  "KeyRing_Next r =
     (if kr_keys r = [] then (None, r)
      else (Some (kr_keys r ! (kr_next r mod length (kr_keys r))),
            r\<lparr>kr_next := (kr_next r + 1) mod 2 ^ 64\<rparr>))"

definition ActiveCount :: "KeyRing option \<Rightarrow> int" where
  "ActiveCount r = (case r of None \<Rightarrow> 0 | Some r \<Rightarrow> int (length (kr_keys r)))"

definition ConfiguredCount :: "KeyRing option \<Rightarrow> int" where
  "ConfiguredCount r = (case r of None \<Rightarrow> 0 | Some r \<Rightarrow> kr_configured r)"

definition MissingEnv :: "KeyRing option \<Rightarrow> MissingEnvKey list" where
  "MissingEnv r = (case r of None \<Rightarrow> [] | Some r \<Rightarrow> kr_missingEnv r)"

section \<open>The registry of known providers\<close>

record ProviderDefault =
  pd_BaseType :: string
  pd_BaseURL :: string
  pd_AuthHeader :: string
  pd_AuthPrefix :: string

definition openai_like :: "string \<Rightarrow> ProviderDefault" where
  "openai_like url = \<lparr>pd_BaseType = ''openai-compatible'', pd_BaseURL = url, pd_AuthHeader = ''Authorization'',
     pd_AuthPrefix = ''Bearer ''\<rparr>"

definition DefaultRegistry :: "(string, ProviderDefault) gomap" where
  "DefaultRegistry =
     [(''deepseek'', openai_like ''https://api.deepseek.com/v1''),
      (''together_ai'', openai_like ''https://api.together.xyz/v1''),
      (''grok'', openai_like ''https://api.x.ai/v1''),
      (''fireworks_ai'', openai_like ''https://api.fireworks.ai/inference/v1''),
      (''perplexity'', openai_like ''https://api.perplexity.ai''),
      (''cerebras'', openai_like ''https://api.cerebras.ai/v1''),
      (''sambanova'', openai_like ''https://api.sambanova.ai/v1''),
      (''novita_ai'', openai_like ''https://api.novita.ai/v3/openai''),
      (''ai21'', openai_like ''https://api.ai21.com/studio/v1''),
      (''xai'', openai_like ''https://api.x.ai/v1''),
      (''ollama'', openai_like ''http://localhost:11434/v1''),
      (''lm_studio'', openai_like ''http://localhost:1234/v1''),
      (''vllm'', openai_like ''http://localhost:8000/v1''),
      (''localai'', openai_like ''http://localhost:8080/v1''),
      (''databricks'', openai_like ''https://dbc-dummy.cloud.databricks.com/serving-endpoints''),
      (''snowflake'', openai_like ''https://<account>.snowflakecomputing.com/api/v2''),
      (''watsonx'', openai_like ''https://us-south.ml.cloud.ibm.com/ml/v1''),
      (''replicate'', openai_like ''https://api.replicate.com/v1''),
      (''hugging_face'', openai_like ''https://api-inference.huggingface.co/v1''),
      (''deepinfra'', openai_like ''https://api.deepinfra.com/v1/openai''),
      (''lepton_ai'', openai_like ''https://llama2-7b.lepton.run/api/v1'')]"

definition LookupDefault :: "string \<Rightarrow> ProviderDefault option" where
  "LookupDefault name = gm_get DefaultRegistry (strings_ToLower name)"

text \<open>The string in an entry of a \<^verbatim>\<open>map[string]interface{}\<close>, empty when it is missing or no string.\<close>

definition any_string :: "(string, json) gomap \<Rightarrow> string \<Rightarrow> string" where
  "any_string m k = (case gm_get m k of Some (JStr s) \<Rightarrow> s | _ \<Rightarrow> '''')"

definition ApplyDefaults :: "string \<Rightarrow> (string, json) gomap \<Rightarrow> (string, json) gomap" where
  "ApplyDefaults name cfg =
     (let def = LookupDefault name;
          result = (if any_string cfg ''type'' = ''''
                    then gm_set ''type'' (JStr (case def of
                           Some d \<Rightarrow> if pd_BaseType d \<noteq> '''' then pd_BaseType d else ''openai-compatible''
                         | None \<Rightarrow> ''openai-compatible'')) cfg
                    else cfg)
      in case def of
           Some d \<Rightarrow> if any_string result ''base_url'' = '''' then gm_set ''base_url'' (JStr (pd_BaseURL d)) result else result
         | None \<Rightarrow> result)"

record ProviderValidationError =
  pve_Provider :: string
  pve_Field :: string
  pve_Message :: string

definition ValidateProvider :: "string \<Rightarrow> string \<Rightarrow> string \<Rightarrow> ProviderValidationError option" where
  "ValidateProvider name providerType baseURL =
     (if providerType = ''openai'' then None
      else if baseURL = '''' then Some \<lparr>pve_Provider = name, pve_Field = ''base_url'',
             pve_Message = ''provider has no base_url configured and is not in the registry''\<rparr>
      else if providerType \<notin> {''openai'', ''openai-compatible'', ''anthropic'', ''gemini'', ''azure-openai'',
             ''bedrock'', ''vertex'', ''groq'', ''cohere'', ''mistral''}
      then Some \<lparr>pve_Provider = name, pve_Field = ''type'', pve_Message = ''unknown adapter type: '' @ providerType\<rparr>
      else None)"

section \<open>Messages for provider errors\<close>

definition truncate_string :: "string \<Rightarrow> nat \<Rightarrow> string" where
  "truncate_string s maxLen = (if length s \<le> maxLen then s else take maxLen s @ ''...'')"

definition EnrichProviderError :: "string \<Rightarrow> int \<Rightarrow> string \<Rightarrow> string" where
  "EnrichProviderError provider statusCode rawBody =
     (if statusCode = 401 then ''Authentication failed with '' @ provider @ ''. Check your API key.''
      else if statusCode = 402 then provider @ '' account requires payment or has an overdue balance.''
      else if statusCode = 403 then provider @ '' denied the request. Check your account permissions or model access.''
      else if statusCode = 429 then provider @
        '' is rate-limiting requests. The gateway will retry automatically. Consider adding a fallback model.''
      else if 500 \<le> statusCode then provider @ '' experienced an internal error (HTTP '' @ itoa statusCode
        @ ''). The gateway will retry if possible.''
      else if 0 < statusCode then provider @ '' returned an unexpected error (HTTP '' @ itoa statusCode
        @ ''). Check the provider status page.''
      else if rawBody \<noteq> '''' then provider @ '' request failed: '' @ truncate_string rawBody 200
      else provider @ '' request failed. Check provider connectivity.'')"

section \<open>Keys are used in turn\<close>

fun take_keys :: "nat \<Rightarrow> KeyRing \<Rightarrow> ProviderKey list" where
  "take_keys 0 r = []"
| "take_keys (Suc n) r = (case KeyRing_Next r of (None, r) \<Rightarrow> [] | (Some k, r) \<Rightarrow> k # take_keys n r)"

lemma take_keys_eq:
  "kr_keys r \<noteq> [] \<Longrightarrow> kr_next r + n < 2 ^ 64 \<Longrightarrow>
   take_keys n r = map (\<lambda>i. kr_keys r ! ((kr_next r + i) mod length (kr_keys r))) [0..<n]"
proof (induction n arbitrary: r)
  case (Suc n)
  let ?r = "r\<lparr>kr_next := kr_next r + 1\<rparr>"
  have "take_keys (Suc n) r = kr_keys r ! (kr_next r mod length (kr_keys r)) # take_keys n ?r"
    using Suc.prems by (simp add: KeyRing_Next_def)
  also have "take_keys n ?r = map (\<lambda>i. kr_keys r ! ((kr_next r + Suc i) mod length (kr_keys r))) [0..<n]"
    using Suc.IH [of ?r] Suc.prems by simp
  finally show ?case
    by (simp only: map_upt_Suc [of _ n] add_0_right)
qed simp

lemma rotation_mset: "mset (map (\<lambda>i. xs ! ((s + i) mod length xs)) [0..<length xs]) = mset xs"
proof -
  have "map (\<lambda>i. xs ! ((s + i) mod length xs)) [0..<length xs] = rotate s xs"
    by (rule nth_equalityI) (simp_all add: nth_rotate)
  moreover have "mset (rotate s xs) = mset (take (s mod length xs) xs @ drop (s mod length xs) xs)"
    unfolding rotate_drop_take mset_append by (rule add.commute)
  ultimately show ?thesis by (simp only: append_take_drop_id)
qed

text \<open>The keys of a provider are used in turn: as many consecutive calls as there are keys use
  every key exactly once, from whatever position the ring starts (as long as its 64-bit counter
  does not wrap in between).\<close>

theorem keys_used_in_turn:
  assumes "kr_keys r \<noteq> []" and "kr_next r + length (kr_keys r) < 2 ^ 64"
  shows "mset (take_keys (length (kr_keys r)) r) = mset (kr_keys r)"
  using take_keys_eq [OF assms] rotation_mset by simp

theorem keys_used_in_turn_witness:
  "mset (take_keys (Suc (Suc 0)) \<lparr>kr_next = 5, kr_keys = [\<lparr>key_ID = ''a'', key_Value = ''x''\<rparr>, \<lparr>key_ID = ''b'', key_Value = ''y''\<rparr>],
      kr_configured = 2, kr_missingEnv = []\<rparr>) = {# \<lparr>key_ID = ''a'', key_Value = ''x''\<rparr>, \<lparr>key_ID = ''b'', key_Value = ''y''\<rparr> #}"
  using keys_used_in_turn [of "\<lparr>kr_next = 5, kr_keys = [\<lparr>key_ID = ''a'', key_Value = ''x''\<rparr>, \<lparr>key_ID = ''b'', key_Value = ''y''\<rparr>],
      kr_configured = 2, kr_missingEnv = []\<rparr>"]
  by simp

text \<open>No key without a value ever enters the ring.\<close>

lemma collect_keys_nonempty:
  "collect_keys env decrypt items w = ((keys, missing), w') \<Longrightarrow> list_all (\<lambda>k. key_Value k \<noteq> '''') keys \<and> length keys \<le> length items"
proof (induction items arbitrary: w keys missing w')
  case (Cons item items)
  then show ?case
    by (auto simp: Let_def split: prod.splits sum.splits if_splits option.splits) (fastforce+)
qed simp

section \<open>The user's configuration takes precedence\<close>

lemma any_string_set: "any_string (gm_set k v m) k' = (if k' = k then (case v of JStr s \<Rightarrow> s | _ \<Rightarrow> '''') else any_string m k')"
  by (auto simp: any_string_def gomap_simps)

text \<open>Registry defaults only fill gaps: what the user set, \<^verbatim>\<open>type\<close> and \<^verbatim>\<open>base_url\<close> included, is never
  changed, the result always has a type, a known provider always has a base URL, and applying
  the defaults again changes nothing.\<close>

theorem defaults_fill_gaps:
  "(\<forall>k. k \<notin> {''type'', ''base_url''} \<longrightarrow> gm_get (ApplyDefaults name cfg) k = gm_get cfg k)
   \<and> (any_string cfg ''type'' \<noteq> '''' \<longrightarrow> any_string (ApplyDefaults name cfg) ''type'' = any_string cfg ''type'')
   \<and> (any_string cfg ''base_url'' \<noteq> '''' \<longrightarrow>
        any_string (ApplyDefaults name cfg) ''base_url'' = any_string cfg ''base_url'')
   \<and> any_string (ApplyDefaults name cfg) ''type'' \<noteq> ''''
   \<and> (LookupDefault name \<noteq> None \<longrightarrow> any_string (ApplyDefaults name cfg) ''base_url'' \<noteq> '''')
   \<and> ApplyDefaults name (ApplyDefaults name cfg) = ApplyDefaults name cfg"
proof -
  have reg: "list_all (\<lambda>(n, d). pd_BaseURL d \<noteq> '''') DefaultRegistry"
    by (simp add: DefaultRegistry_def openai_like_def)
  have url: "LookupDefault name = Some d \<Longrightarrow> pd_BaseURL d \<noteq> ''''" for d
    using reg gm_get_SomeD [of DefaultRegistry "strings_ToLower name" d] by (auto simp: LookupDefault_def list_all_iff)
  show ?thesis
    by (cases "LookupDefault name") (auto simp: ApplyDefaults_def Let_def any_string_set gomap_simps url)
qed

theorem defaults_fill_gaps_witness:
  "any_string (ApplyDefaults ''deepseek'' [(''type'', JStr ''custom'')]) ''type'' = ''custom''
   \<and> any_string (ApplyDefaults ''deepseek'' [(''type'', JStr ''custom'')]) ''base_url'' \<noteq> ''''"
proof -
  have t: "any_string [(''type'', JStr ''custom'')] ''type'' = ''custom''" by (simp add: any_string_def gm_get_def)
  have "LookupDefault ''deepseek'' \<noteq> None"
    by code_simp
  with t defaults_fill_gaps [where name = "''deepseek''" and cfg = "[(''type'', JStr ''custom'')]"] show ?thesis by simp
qed

end
