(* ===== verification/Routing.thy ===== *)
theory Routing
  imports Providers Health_Tracker
begin

text \<open>
  Choosing targets, \<^verbatim>\<open>internal/routing/router.go\<close>, \<^verbatim>\<open>costs.go\<close> and \<^verbatim>\<open>residency.go\<close>.

  \<^item> \<^verbatim>\<open>rand.Intn(n)\<close> draws an arbitrary number: the \<open>i\<close>-th draw of a plan is \<open>rnd i\<close> reduced modulo \<open>n\<close>; it
    panics (\<^term>\<open>None\<close>) when \<open>n\<close> is not positive.
  \<^item> \<^verbatim>\<open>sort.SliceStable\<close> is a stable insertion sort; \<^verbatim>\<open>sort.Slice\<close> leaves the order of equal items open, so
    the first item after it is any minimal one, chosen by the argument \<open>tie\<close>.
  \<^item> The reader of latencies is a parameter, the health checker an optional function, and the clock a
    function of the number of readings. A result \<^term>\<open>None\<close> is a panic.

  The lemmas cover the plan as a whole: it never fails on a valid configuration, its targets come
  from the configured routes, healthy ones first, and the filter for data residency is sound when
  a region name means the same at every provider.
\<close>

section \<open>Costs\<close>

record CostEntry =
  ce_Provider :: string
  ce_Model :: string
  ce_InputPer1M :: f64
  ce_OutputPer1M :: f64

definition cents :: "int \<Rightarrow> f64" where
  "cents n = float64 (of_int n / 100)"

definition cost_entry :: "string \<Rightarrow> string \<Rightarrow> int \<Rightarrow> int \<Rightarrow> CostEntry" where
  "cost_entry p m i out = \<lparr>ce_Provider = p, ce_Model = m, ce_InputPer1M = cents i, ce_OutputPer1M = cents out\<rparr>"

definition CostCatalog :: "CostEntry list" where
  "CostCatalog =
     [cost_entry ''deepseek'' ''deepseek-chat'' 27 110,
      cost_entry ''deepseek'' ''deepseek-reasoner'' 55 219,
      cost_entry ''openai'' ''gpt-4o'' 250 1000,
      cost_entry ''openai'' ''gpt-4o-mini'' 15 60,
      cost_entry ''openai'' ''gpt-4.1'' 200 800,
      cost_entry ''openai'' ''gpt-4.1-mini'' 40 160,
      cost_entry ''openai'' ''gpt-4.1-nano'' 10 40,
      cost_entry ''openai'' ''o3'' 1000 4000,
      cost_entry ''openai'' ''o4-mini'' 110 440,
      cost_entry ''anthropic'' ''claude-sonnet-4-20250514'' 300 1500,
      cost_entry ''anthropic'' ''claude-3.5-haiku-20241022'' 80 400,
      cost_entry ''together_ai'' ''meta-llama/Llama-3.3-70B-Instruct-Turbo'' 88 88,
      cost_entry ''together_ai'' ''mistralai/Mixtral-8x7B-Instruct-v0.1'' 60 60,
      cost_entry ''grok'' ''grok-3'' 300 1500,
      cost_entry ''grok'' ''grok-3-mini'' 30 50,
      cost_entry ''xai'' ''grok-3'' 300 1500,
      cost_entry ''fireworks_ai'' ''accounts/fireworks/models/llama-v3p1-70b-instruct'' 90 90,
      cost_entry ''perplexity'' ''sonar'' 100 100,
      cost_entry ''perplexity'' ''sonar-pro'' 300 1500,
      cost_entry ''google'' ''gemini-2.0-flash'' 10 40,
      cost_entry ''google'' ''gemini-2.5-pro-preview-05-06'' 125 1000]"

definition LookupCost :: "string \<Rightarrow> string \<Rightarrow> CostEntry option" where
  "LookupCost provider model = find (\<lambda>e. ce_Provider e = provider \<and> ce_Model e = model) CostCatalog"

definition avgCost :: "CostEntry \<Rightarrow> f64" where
  "avgCost e = fdiv (fadd (ce_InputPer1M e) (ce_OutputPer1M e)) 2"

definition medianFloat :: "f64 list \<Rightarrow> f64" where
  "medianFloat vals =
     (if vals = [] then 0
      else let s = sort vals; mid = length s div 2
           in if even (length s) then fdiv (fadd (s ! (mid - 1)) (s ! mid)) 2 else s ! mid)"

definition medianCost :: "CostEntry list \<Rightarrow> f64" where
  "medianCost entries =
     (if entries = [] then 0
      else let vals = sort (map avgCost entries); mid = length vals div 2
           in if even (length vals) then fdiv (fadd (vals ! (mid - 1)) (vals ! mid)) 2 else vals ! mid)"

fun maxFloat_from :: "f64 \<Rightarrow> f64 list \<Rightarrow> f64" where
  "maxFloat_from m [] = m"
| "maxFloat_from m (v # vs) = maxFloat_from (if m < v then v else m) vs"

definition maxFloat :: "f64 list \<Rightarrow> f64" where
  "maxFloat vals = (case vals of [] \<Rightarrow> 0 | v # vs \<Rightarrow> maxFloat_from v vs)"

section \<open>Residency\<close>

definition matchesResidency :: "Target \<Rightarrow> string \<Rightarrow> bool" where
  "matchesResidency t residency =
     (if tg_Region t = '''' \<or> tg_Region t = ''default'' then False
      else if tg_DataResidency t \<noteq> '''' then strings_ToLower (tg_DataResidency t) = residency
      else strings_HasPrefix (strings_ToLower (tg_Region t)) residency)"

definition FilterByResidency :: "Target list \<Rightarrow> string \<Rightarrow> Target list" where
  "FilterByResidency targets residency =
     (if residency = '''' then targets
      else let residencyLower = strings_ToLower (strings_TrimSpace residency)
           in filter (\<lambda>t. matchesResidency t residencyLower) targets)"

definition normalizeURL :: "string \<Rightarrow> string" where
  "normalizeURL u = strings_ToLower (strings_TrimRight u CHR ''/'')"

definition regionPrefix :: "string \<Rightarrow> string" where
  "regionPrefix name =
     (case strings_Index name ''-'' of
        Some idx \<Rightarrow> if 0 < idx then strings_ToLower (take idx name) else strings_ToLower name
      | None \<Rightarrow> strings_ToLower name)"

section \<open>The router\<close>

record SmartWeights =
  sw_Cost :: f64
  sw_Latency :: f64
  sw_Health :: f64

definition DefaultSmartWeights :: SmartWeights where
  "DefaultSmartWeights = \<lparr>sw_Cost = float64 (4 / 10), sw_Latency = float64 (4 / 10), sw_Health = float64 (2 / 10)\<rparr>"

record combo =
  co_provider :: string
  co_model :: string
  co_region :: string

record LatencyCache =
  lc_entries :: "(string, duration) gomap"
  lc_updated :: gotime
  lc_ttl :: duration
  lc_knownCombos :: "combo list"

type_synonym latency_reader = "string \<Rightarrow> string \<Rightarrow> string \<Rightarrow> duration option"

record Router =
  ro_models :: "(string, ModelConfig) gomap"
  ro_providerRegions :: "(string, RegionConfig list) gomap"
  ro_regionByBaseURL :: "(string, string) gomap"
  ro_regionDataRes :: "(string, string) gomap"
  ro_defaultRegion :: string
  ro_strategy :: string
  ro_smartWeights :: SmartWeights
  ro_latencyCache :: "LatencyCache option"

definition NewLatencyCache :: "combo list \<Rightarrow> duration \<Rightarrow> LatencyCache" where
  "NewLatencyCache combos ttl = \<lparr>lc_entries = [], lc_updated = time_zero, lc_ttl = ttl, lc_knownCombos = combos\<rparr>"

definition latency_key :: "string \<Rightarrow> string \<Rightarrow> string \<Rightarrow> string" where
  "latency_key provider model region = provider @ '':'' @ model @ '':'' @ region"

definition Refresh :: "latency_reader \<Rightarrow> gotime \<Rightarrow> gotime \<Rightarrow> LatencyCache \<Rightarrow> LatencyCache" where
  "Refresh reader now now' c =
     (if time_Sub now (lc_updated c) \<le> lc_ttl c then c
      else c\<lparr>lc_entries := fold (\<lambda>cb m.
               case reader (co_provider cb) (co_model cb) (co_region cb) of
                 Some p50 \<Rightarrow> gm_set (latency_key (co_provider cb) (co_model cb) (co_region cb)) p50 m
               | None \<Rightarrow> m) (lc_knownCombos c) [],
             lc_updated := now'\<rparr>)"

definition LatencyCache_Get ::
  "latency_reader \<Rightarrow> (nat \<Rightarrow> gotime) \<Rightarrow> string \<Rightarrow> string \<Rightarrow> string \<Rightarrow> LatencyCache \<Rightarrow> duration option \<times> LatencyCache" where
  "LatencyCache_Get reader clk provider model region c =
     (if time_Sub (clk 0) (lc_updated c) \<le> lc_ttl c
      then (gm_get (lc_entries c) (latency_key provider model region), c)
      else let c = Refresh reader (clk 1) (clk 2) c
           in (gm_get (lc_entries c) (latency_key provider model region), c))"

definition region_tag :: "RegionConfig \<Rightarrow> string" where
  "region_tag r = (if rg_DataResidency r = '''' then regionPrefix (rg_Name r) else rg_DataResidency r)"

definition all_regions :: "(string, ProviderConfig) gomap \<Rightarrow> RegionConfig list" where
  "all_regions ps = concat (map (\<lambda>(name, p). pc_Regions p) ps)"

definition New :: "(string, ModelConfig) gomap \<Rightarrow> (string, ProviderConfig) gomap \<Rightarrow> RoutingConfig \<Rightarrow> bool \<Rightarrow> Router" where
  "New models providers routingCfg hasReader =
     (let providerRegions = map (\<lambda>(name, p). (name, pc_Regions p)) (filter (\<lambda>(name, p). pc_Regions p \<noteq> []) providers);
          regionByBaseURL = fold (\<lambda>r m. gm_set (normalizeURL (rg_BaseURL r)) (rg_Name r) m) (all_regions providers) [];
          regionDataRes = fold (\<lambda>r m. gm_set (rg_Name r) (region_tag r) m) (all_regions providers) [];
          combos = concat (map (\<lambda>(name, m).
                     concat (map (\<lambda>route.
                       case gm_get providerRegions (mr_Provider route) of
                         None \<Rightarrow> []
                       | Some regions \<Rightarrow> map (\<lambda>r. \<lparr>co_provider = mr_Provider route, co_model = mr_Model route,
                                                      co_region = rg_Name r\<rparr>) regions)
                       (mc_Routes m @ mc_Fallbacks m))) models);
          strategy = strings_ToLower (rc_RegionStrategy routingCfg);
          strategy = (if strategy = '''' then ''priority'' else strategy);
          cw = rc_CostWeights routingCfg;
          sw = (if 0 < fadd (fadd (cw_Cost cw) (cw_Latency cw)) (cw_Health cw)
                then \<lparr>sw_Cost = cw_Cost cw, sw_Latency = cw_Latency cw, sw_Health = cw_Health cw\<rparr>
                else DefaultSmartWeights)
      in \<lparr>ro_models = models, ro_providerRegions = providerRegions, ro_regionByBaseURL = regionByBaseURL,
          ro_regionDataRes = regionDataRes, ro_defaultRegion = rc_Region routingCfg, ro_strategy = strategy,
          ro_smartWeights = sw,
          ro_latencyCache = (if (strategy = ''latency'' \<or> strategy = ''smart'') \<and> hasReader \<and> combos \<noteq> []
                             then Some (NewLatencyCache combos (10 * time_Second)) else None)\<rparr>)"

definition Intn :: "int \<Rightarrow> nat \<Rightarrow> int option" where
  "Intn n k = (if n \<le> 0 then None else Some (int k mod n))"

definition route_weight :: "ModelRoute \<Rightarrow> int" where
  "route_weight route = (if mr_Weight route \<le> 0 then 1 else mr_Weight route)"

fun pick_route :: "ModelRoute list \<Rightarrow> int \<Rightarrow> ModelRoute option" where
  "pick_route [] pick = None"
| "pick_route (route # routes) pick =
     (if pick < route_weight route then Some route else pick_route routes (wrap64 (pick - route_weight route)))"

definition chooseWeighted :: "nat \<Rightarrow> ModelRoute list \<Rightarrow> ModelRoute option" where
  "chooseWeighted k routes =
     (case routes of
        [] \<Rightarrow> None
      | [route] \<Rightarrow> Some route
      | first # _ \<Rightarrow> do {
          pick \<leftarrow> Intn (fold (\<lambda>route total. wrap64 (total + route_weight route)) routes 0) k;
          Some (case pick_route routes pick of Some route \<Rightarrow> route | None \<Rightarrow> first)
        })"

definition expandRoute :: "Router \<Rightarrow> ModelRoute \<Rightarrow> Target list" where
  "expandRoute r route =
     (case gm_get (ro_providerRegions r) (mr_Provider route) of
        None \<Rightarrow> []
      | Some regions \<Rightarrow>
          map (\<lambda>region. \<lparr>tg_Provider = mr_Provider route, tg_Model = mr_Model route, tg_Region = rg_Name region,
                          tg_BaseURL = rg_BaseURL region,
                          tg_DataResidency = (case gm_get (ro_regionDataRes r) (rg_Name region) of
                                                None \<Rightarrow> '''' | Some tag \<Rightarrow> tag)\<rparr>) regions)"

definition regionPriority :: "Router \<Rightarrow> string \<Rightarrow> int" where
  "regionPriority r regionName =
     (case find (\<lambda>region. rg_Name region = regionName) (concat (map snd (ro_providerRegions r))) of
        None \<Rightarrow> 999
      | Some region \<Rightarrow> if rg_Priority region \<le> 0 then 1 else rg_Priority region)"

record prioritized =
  pz_target :: Target
  pz_priority :: int
  pz_isLocal :: bool

definition prio_less :: "prioritized \<Rightarrow> prioritized \<Rightarrow> bool" where
  "prio_less a b =
     (if pz_priority a \<noteq> pz_priority b then pz_priority a < pz_priority b
      else if pz_isLocal a \<noteq> pz_isLocal b then pz_isLocal a
      else False)"

text \<open>A stable sort by a less function: an item goes behind those it is not less than.\<close>

fun stable_insert :: "('a \<Rightarrow> 'a \<Rightarrow> bool) \<Rightarrow> 'a \<Rightarrow> 'a list \<Rightarrow> 'a list" where
  "stable_insert lt x [] = [x]"
| "stable_insert lt x (y # ys) = (if lt x y then x # y # ys else y # stable_insert lt x ys)"

definition stable_sort :: "('a \<Rightarrow> 'a \<Rightarrow> bool) \<Rightarrow> 'a list \<Rightarrow> 'a list" where
  "stable_sort lt xs = fold (stable_insert lt) xs []"

definition prio_candidates :: "prioritized \<Rightarrow> prioritized list \<Rightarrow> Target list" where
  "prio_candidates best items =
     (let bestIsLocal = list_ex (\<lambda>i. pz_priority i = pz_priority best \<and> pz_isLocal i) items
      in map pz_target (filter (\<lambda>i. \<not> (bestIsLocal \<and> \<not> pz_isLocal i))
           (takeWhile (\<lambda>i. pz_priority i = pz_priority best) items)))"

definition pick_candidate :: "nat \<Rightarrow> Target list \<Rightarrow> Target option" where
  "pick_candidate k candidates =
     (case candidates of
        [c] \<Rightarrow> Some c
      | _ \<Rightarrow> do { i \<leftarrow> Intn (int (length candidates)) k; Some (candidates ! nat i) })"

definition selectByPriority :: "Router \<Rightarrow> nat \<Rightarrow> Target list \<Rightarrow> Target option" where
  "selectByPriority r k targets =
     (let items = map (\<lambda>t. \<lparr>pz_target = t, pz_priority = regionPriority r (tg_Region t),
                             pz_isLocal = ro_defaultRegion r \<noteq> '''' \<and> tg_Region t = ro_defaultRegion r\<rparr>) targets
      in case stable_sort prio_less items of
           [] \<Rightarrow> None
         | best # rest \<Rightarrow> pick_candidate k (prio_candidates best (best # rest)))"

text \<open>The latencies of a list of targets; a target without a value gets \<^term>\<open>None\<close>.\<close>

fun read_latencies ::
  "latency_reader \<Rightarrow> (nat \<Rightarrow> gotime) \<Rightarrow> Target list \<Rightarrow> LatencyCache option \<Rightarrow> duration option list \<times> LatencyCache option" where
  "read_latencies reader clk [] lc = ([], lc)"
| "read_latencies reader clk (t # ts) None =
     (case read_latencies reader clk ts None of (ds, lc) \<Rightarrow> (None # ds, lc))"
| "read_latencies reader clk (t # ts) (Some c) =
     (case LatencyCache_Get reader clk (tg_Provider t) (tg_Model t) (tg_Region t) c of
        (d, c) \<Rightarrow> (case read_latencies reader (\<lambda>i. clk (i + 3)) ts (Some c) of (ds, lc) \<Rightarrow> (d # ds, lc)))"

definition selectByLatency ::
  "latency_reader \<Rightarrow> (nat \<Rightarrow> gotime) \<Rightarrow> nat \<Rightarrow> Router \<Rightarrow> Target list \<Rightarrow> Target option \<times> Router" where
  "selectByLatency reader clk k r targets =
     (case read_latencies reader clk targets (ro_latencyCache r) of
        (ds, lc) \<Rightarrow>
          let r = r\<lparr>ro_latencyCache := lc\<rparr>;
              items = map (\<lambda>(t, d). (t, case d of Some p50 \<Rightarrow> p50 | None \<Rightarrow> time_Hour)) (zip targets ds)
          in if \<not> list_ex (\<lambda>d. d \<noteq> None) ds then (selectByPriority r k targets, r)
             else (case stable_sort (\<lambda>a b. snd a < snd b) items of
                     [] \<Rightarrow> (None, r)
                   | best # _ \<Rightarrow> (Some (fst best), r)))"

text \<open>The first item after \<^verbatim>\<open>sort.Slice\<close>: any item that no other is less than.\<close>

definition slice_first :: "('a \<Rightarrow> 'a \<Rightarrow> bool) \<Rightarrow> nat \<Rightarrow> 'a list \<Rightarrow> 'a option" where
  "slice_first lt tie items =
     (let best = filter (\<lambda>x. \<not> list_ex (\<lambda>y. lt y x) items) items
      in if best = [] then None else Some (best ! (tie mod length best)))"

definition target_cost :: "Target \<Rightarrow> f64" where
  "target_cost t =
     (case LookupCost (tg_Provider t) (tg_Model t) of
        Some entry \<Rightarrow> avgCost entry
      | None \<Rightarrow> medianCost CostCatalog)"

definition selectByCost :: "nat \<Rightarrow> Target list \<Rightarrow> Target option" where
  "selectByCost tie targets =
     map_option fst (slice_first (\<lambda>a b. snd a < snd b) tie (map (\<lambda>t. (t, target_cost t)) targets))"

definition smart_latencies :: "duration option list \<Rightarrow> f64 list" where
  "smart_latencies ds =
     (let ls = map (\<lambda>d. case d of Some p50 \<Rightarrow> float_of_int p50 | None \<Rightarrow> 0) ds;
          medLat = medianFloat (filter (\<lambda>l. 0 < l) ls);
          medLat = (if medLat = 0 then 1 else medLat)
      in map (\<lambda>l. if l = 0 then medLat else l) ls)"

definition smart_score ::
  "SmartWeights \<Rightarrow> (string \<Rightarrow> string \<Rightarrow> string \<Rightarrow> bool) option \<Rightarrow> f64 \<Rightarrow> f64 \<Rightarrow> Target \<Rightarrow> f64 \<Rightarrow> f64 \<Rightarrow> f64" where
  "smart_score w health maxCost maxLat t cost lat =
     (let costScore = fsub 1 (fdiv cost maxCost);
          latencyScore = fsub 1 (fdiv lat maxLat);
          healthScore = (case health of
                           None \<Rightarrow> 1 / 2
                         | Some h \<Rightarrow> if h (tg_Provider t) (tg_Model t) (tg_Region t) then 1 else 0)
      in fadd (fadd (fmul (sw_Cost w) costScore) (fmul (sw_Latency w) latencyScore)) (fmul (sw_Health w) healthScore))"

definition selectSmart ::
  "latency_reader \<Rightarrow> (string \<Rightarrow> string \<Rightarrow> string \<Rightarrow> bool) option \<Rightarrow> (nat \<Rightarrow> gotime) \<Rightarrow> nat \<Rightarrow> Router \<Rightarrow> Target list
     \<Rightarrow> Target option \<times> Router" where
  "selectSmart reader health clk tie r targets =
     (let w = ro_smartWeights r;
          w = (if fadd (fadd (sw_Cost w) (sw_Latency w)) (sw_Health w) = 0 then DefaultSmartWeights else w)
      in case read_latencies reader clk targets (ro_latencyCache r) of
           (ds, lc) \<Rightarrow>
             let r = r\<lparr>ro_latencyCache := lc\<rparr>;
                 costs = map target_cost targets;
                 latencies = smart_latencies ds;
                 maxCost = (if maxFloat costs = 0 then 1 else maxFloat costs);
                 maxLat = (if maxFloat latencies = 0 then 1 else maxFloat latencies);
                 items = map (\<lambda>(t, c, l). (t, smart_score w health maxCost maxLat t c l)) (zip targets (zip costs latencies))
             in (map_option fst (slice_first (\<lambda>a b. snd b < snd a) tie items), r))"

definition selectBest ::
  "latency_reader \<Rightarrow> (string \<Rightarrow> string \<Rightarrow> string \<Rightarrow> bool) option \<Rightarrow> (nat \<Rightarrow> gotime) \<Rightarrow> nat \<Rightarrow> Router \<Rightarrow> Target list
     \<Rightarrow> Target option \<times> Router" where
  "selectBest reader health clk k r targets =
     (case targets of
        [t] \<Rightarrow> (Some t, r)
      | _ \<Rightarrow> if ro_strategy r = ''latency'' then selectByLatency reader clk k r targets
             else if ro_strategy r = ''cost'' then (selectByCost k targets, r)
             else if ro_strategy r = ''smart'' then selectSmart reader health clk k r targets
             else (selectByPriority r k targets, r))"

definition bare_target :: "ModelRoute \<Rightarrow> Target" where
  "bare_target route = zero_Target\<lparr>tg_Provider := mr_Provider route, tg_Model := mr_Model route\<rparr>"

definition route_targets :: "Router \<Rightarrow> ModelRoute \<Rightarrow> Target list" where
  "route_targets r route =
     (let expanded = expandRoute r route in if expanded = [] then [bare_target route] else expanded)"

definition resolveTargets ::
  "latency_reader \<Rightarrow> (string \<Rightarrow> string \<Rightarrow> string \<Rightarrow> bool) option \<Rightarrow> (nat \<Rightarrow> gotime) \<Rightarrow> nat \<Rightarrow> Router
     \<Rightarrow> ModelRoute \<Rightarrow> ModelRoute list \<Rightarrow> Target list option \<times> Router" where
  "resolveTargets reader health clk k r primary fallbacks =
     (case selectBest reader health clk k r (route_targets r primary) of
        (None, r) \<Rightarrow> (None, r)
      | (Some bestPrimary, r) \<Rightarrow> (Some (bestPrimary # concat (map (route_targets r) fallbacks)), r))"

definition reorderByHealth :: "(string \<Rightarrow> string \<Rightarrow> string \<Rightarrow> bool) option \<Rightarrow> Target list \<Rightarrow> Target list" where
  "reorderByHealth health targets =
     (case health of
        None \<Rightarrow> targets
      | Some h \<Rightarrow>
          if length targets \<le> 1 then targets
          else let ok = (\<lambda>t. h (tg_Provider t) (tg_Model t) (tg_Region t));
                   healthy = filter ok targets;
                   unhealthy = filter (\<lambda>t. \<not> ok t) targets
               in if healthy = [] then targets else healthy @ unhealthy)"

datatype plan_error = ModelNotConfigured string | NoRoutes string | PlanPanic

definition Router_Plan ::
  "latency_reader \<Rightarrow> (string \<Rightarrow> string \<Rightarrow> string \<Rightarrow> bool) option \<Rightarrow> (nat \<Rightarrow> gotime) \<Rightarrow> (nat \<Rightarrow> nat) \<Rightarrow> string \<Rightarrow> Router
     \<Rightarrow> (plan_error + Target list) \<times> Router" where
  "Router_Plan reader health clk rnd model r =
     (case gm_get (ro_models r) model of
        None \<Rightarrow> (Inl (ModelNotConfigured model), r)
      | Some modelCfg \<Rightarrow>
          if mc_Routes modelCfg = [] then (Inl (NoRoutes model), r)
          else (case chooseWeighted (rnd 0) (mc_Routes modelCfg) of
                  None \<Rightarrow> (Inl PlanPanic, r)
                | Some primary \<Rightarrow>
                    (case resolveTargets reader health clk (rnd 1) r primary (mc_Fallbacks modelCfg) of
                       (None, r) \<Rightarrow> (Inl PlanPanic, r)
                     | (Some targets, r) \<Rightarrow> (Inr (reorderByHealth health targets), r))))"

fun string_less :: "string \<Rightarrow> string \<Rightarrow> bool" where
  "string_less s [] = False"
| "string_less [] (d # t) = True"
| "string_less (c # s) (d # t) =
     ((of_char c :: nat) < of_char d \<or> c = d \<and> string_less s t)"

definition ModelNames :: "Router \<Rightarrow> string list" where
  "ModelNames r = stable_sort string_less (map fst (ro_models r))"

section \<open>Sorting and choosing\<close>

lemma mset_stable_insert [simp]: "mset (stable_insert lt x ys) = {#x#} + mset ys"
  by (induction ys) simp_all

lemma mset_stable_sort [simp]: "mset (stable_sort lt xs) = mset xs"
proof -
  have "mset (fold (stable_insert lt) xs acc) = mset xs + mset acc" for acc
    by (induction xs arbitrary: acc) simp_all
  then show ?thesis by (simp add: stable_sort_def)
qed

lemma set_stable_sort [simp]: "set (stable_sort lt xs) = set xs"
  by (rule mset_eq_setD) simp

lemma stable_sort_Nil_iff [simp]: "stable_sort lt xs = [] \<longleftrightarrow> xs = []"
  using mset_stable_sort [of lt xs] by (metis mset_zero_iff)

text \<open>The first item of a stable sort is one that no other is less than.\<close>

definition strict_order :: "('a \<Rightarrow> 'a \<Rightarrow> bool) \<Rightarrow> bool" where
  "strict_order lt \<longleftrightarrow> (\<forall>x y. lt x y \<longrightarrow> \<not> lt y x) \<and> (\<forall>x y z. \<not> lt x y \<longrightarrow> \<not> lt y z \<longrightarrow> \<not> lt x z)"

lemma set_stable_insert [simp]: "set (stable_insert lt x ys) = insert x (set ys)"
  by (induction ys) auto

lemma sorted_stable_insert:
  assumes "strict_order lt"
  shows "sorted_wrt (\<lambda>a b. \<not> lt b a) ys \<Longrightarrow> sorted_wrt (\<lambda>a b. \<not> lt b a) (stable_insert lt x ys)"
proof (induction ys)
  case (Cons y ys)
  from assms have asym: "lt x y \<Longrightarrow> \<not> lt y x" and nt: "\<not> lt z y \<Longrightarrow> \<not> lt y x \<Longrightarrow> \<not> lt z x" for z
    unfolding strict_order_def by blast+
  show ?case
  proof (cases "lt x y")
    case True
    with Cons.prems asym nt show ?thesis by simp
  next
    case False
    with Cons show ?thesis by simp
  qed
qed simp

lemma sorted_stable_sort: "strict_order lt \<Longrightarrow> sorted_wrt (\<lambda>a b. \<not> lt b a) (stable_sort lt xs)"
proof -
  assume "strict_order lt"
  then have "sorted_wrt (\<lambda>a b. \<not> lt b a) acc \<Longrightarrow> sorted_wrt (\<lambda>a b. \<not> lt b a) (fold (stable_insert lt) xs acc)" for acc
    by (induction xs arbitrary: acc) (simp_all add: sorted_stable_insert)
  then show ?thesis by (simp add: stable_sort_def)
qed

lemma stable_sort_hd:
  assumes "strict_order lt" and "stable_sort lt xs = best # rest" and "x \<in> set xs" and "x \<noteq> best"
  shows "\<not> lt x best"
  using sorted_stable_sort [OF assms(1), of xs] set_stable_sort [of lt xs] assms(2-4) by auto

lemma prio_less_strict: "strict_order prio_less"
  by (auto simp: strict_order_def prio_less_def split: if_splits)

lemma route_weight_pos: "0 < route_weight r"
  by (simp add: route_weight_def)

definition total_weight :: "ModelRoute list \<Rightarrow> int" where
  "total_weight routes = sum_list (map route_weight routes)"

lemma total_weight_simps [simp]:
  "total_weight [] = 0" "total_weight (r # rs) = route_weight r + total_weight rs"
  "total_weight (rs @ ss) = total_weight rs + total_weight ss"
  by (simp_all add: total_weight_def)

lemma total_weight_nonneg: "0 \<le> total_weight rs"
  by (induction rs) (simp_all add: less_imp_le [OF route_weight_pos] add_nonneg_nonneg)

lemma total_weight_pos: "rs \<noteq> [] \<Longrightarrow> 0 < total_weight rs"
  using route_weight_pos total_weight_nonneg by (cases rs) (simp_all add: add_pos_nonneg)

lemma fold_weights:
  "0 \<le> t \<Longrightarrow> t + total_weight rs \<le> max_int64 \<Longrightarrow>
   fold (\<lambda>route total. wrap64 (total + route_weight route)) rs t = t + total_weight rs"
proof (induction rs arbitrary: t)
  case (Cons r rs)
  have "in_int64 (t + route_weight r)"
    using Cons.prems total_weight_nonneg [of rs] route_weight_pos [of r] by (simp add: in_int64_def min_int64_def)
  with Cons.IH [of "t + route_weight r"] Cons.prems route_weight_pos [of r] show ?case by (simp add: ac_simps)
qed simp

lemma pick_route_prefix:
  "total_weight xs \<le> k \<Longrightarrow> k < total_weight xs + route_weight r \<Longrightarrow> k \<le> max_int64 \<Longrightarrow>
   pick_route (xs @ r # ys) k = Some r"
proof (induction xs arbitrary: k)
  case (Cons x xs)
  have "k - route_weight x \<le> max_int64" "0 \<le> k - route_weight x"
    using Cons.prems route_weight_pos [of x] total_weight_nonneg [of xs] by simp_all
  then have "wrap64 (k - route_weight x) = k - route_weight x"
    by (intro wrap64_id) (simp add: in_int64_def min_int64_def)
  moreover have "pick_route (xs @ r # ys) (k - route_weight x) = Some r"
    using Cons.prems \<open>k - route_weight x \<le> max_int64\<close> by (intro Cons.IH) simp_all
  ultimately show ?case using Cons.prems total_weight_nonneg [of xs] by simp
qed simp

lemma pick_route_mem: "pick_route rs k = Some r \<Longrightarrow> r \<in> set rs"
  by (induction rs arbitrary: k) (auto split: if_splits)

lemma chooseWeighted_some:
  assumes "routes \<noteq> []" and "total_weight routes \<le> max_int64"
  shows "\<exists>r \<in> set routes. chooseWeighted k routes = Some r"
proof (cases routes)
  case (Cons a rs)
  have t: "fold (\<lambda>route total. wrap64 (total + route_weight route)) routes 0 = total_weight routes"
    using fold_weights [of 0 routes] assms(2) by simp
  show ?thesis
  proof (cases rs)
    case Nil
    with Cons show ?thesis by (simp add: chooseWeighted_def)
  next
    case Cons': (Cons b rs')
    have "Intn (total_weight routes) k = Some (int k mod total_weight routes)"
      using total_weight_pos [OF assms(1)] by (simp add: Intn_def)
    then have "chooseWeighted k routes = Some (case pick_route routes (int k mod total_weight routes) of
        Some route \<Rightarrow> route | None \<Rightarrow> a)"
      using t Cons Cons' by (simp add: chooseWeighted_def)
    with Cons show ?thesis by (auto dest: pick_route_mem split: option.splits)
  qed
qed (use assms in simp)

text \<open>The weighted choice is exact: of the equally likely draws below the sum of the weights, those
  that select a route are the ones between the weights before it and the weights up to it, so each
  route is selected by as many draws as its weight (a weight that is not positive counts as one).\<close>

theorem weighted_choice_exact:
  assumes "routes = xs @ r # ys" and "2 \<le> length routes" and "total_weight routes \<le> max_int64"
    and "total_weight xs \<le> int k" and "int k < total_weight xs + route_weight r"
  shows "chooseWeighted k routes = Some r"
proof -
  have t: "fold (\<lambda>route total. wrap64 (total + route_weight route)) routes 0 = total_weight routes"
    using fold_weights [of 0 routes] assms(3) by simp
  have lt: "int k < total_weight routes"
    using assms(1,5) total_weight_nonneg [of ys] by simp
  then have "Intn (total_weight routes) k = Some (int k)" by (simp add: Intn_def)
  moreover have "pick_route routes (int k) = Some r"
    unfolding assms(1) by (rule pick_route_prefix) (use assms(3-5) lt in simp_all)
  moreover from assms(2) obtain a b rs where "routes = a # b # rs"
    by (cases routes; cases "tl routes") auto
  ultimately show ?thesis using t by (simp add: chooseWeighted_def)
qed

definition example_route :: "string \<Rightarrow> int \<Rightarrow> ModelRoute" where
  "example_route p w = \<lparr>mr_Provider = p, mr_Model = ''m'', mr_Weight = w\<rparr>"

theorem weighted_choice_exact_witness:
  "chooseWeighted 4 [example_route ''a'' 3, example_route ''b'' 2] = Some (example_route ''b'' 2)"
  by (rule weighted_choice_exact [where xs = "[example_route ''a'' 3]" and ys = "[]"])
    (simp_all add: example_route_def route_weight_def max_int64_def)

section \<open>The selected target is one of the given ones\<close>

lemma pick_candidate_mem:
  assumes "cands \<noteq> []"
  shows "\<exists>t \<in> set cands. pick_candidate k cands = Some t"
proof (cases "\<exists>c. cands = [c]")
  case True
  then show ?thesis by (auto simp: pick_candidate_def)
next
  case False
  let ?i = "nat (int k mod int (length cands))"
  have lt: "?i < length cands" using assms by (simp add: nat_less_iff)
  have "pick_candidate k cands = Some (cands ! ?i)"
    using False assms by (auto simp: pick_candidate_def Intn_def split: list.splits)
  with nth_mem [OF lt] show ?thesis by auto
qed

lemma prio_candidates_nonempty:
  assumes "stable_sort prio_less items = best # rest"
  shows "prio_candidates best (best # rest) \<noteq> []"
proof (cases "list_ex (\<lambda>i. pz_priority i = pz_priority best \<and> pz_isLocal i) (best # rest)")
  case True
  then obtain i where i: "i \<in> set (best # rest)" "pz_priority i = pz_priority best" "pz_isLocal i"
    by (auto simp: list_ex_iff)
  have "pz_isLocal best"
  proof (rule ccontr)
    assume n: "\<not> pz_isLocal best"
    with i have "i \<noteq> best" by auto
    moreover from i(1) assms have "i \<in> set items" by (metis set_stable_sort)
    ultimately have "\<not> prio_less i best" using stable_sort_hd [OF prio_less_strict assms] by blast
    with i n show False by (simp add: prio_less_def)
  qed
  then show ?thesis by (simp add: prio_candidates_def Let_def)
next
  case False
  then show ?thesis unfolding prio_candidates_def Let_def by simp
qed

lemma prio_candidates_subset: "set (prio_candidates best items) \<subseteq> pz_target ` set items"
  by (auto simp: prio_candidates_def Let_def dest: set_takeWhileD)

lemma selectByPriority_mem:
  assumes "targets \<noteq> []"
  shows "\<exists>t \<in> set targets. selectByPriority r k targets = Some t"
proof -
  define items where "items = map (\<lambda>t. \<lparr>pz_target = t, pz_priority = regionPriority r (tg_Region t),
     pz_isLocal = ro_defaultRegion r \<noteq> '''' \<and> tg_Region t = ro_defaultRegion r\<rparr>) targets"
  from assms have "stable_sort prio_less items \<noteq> []" by (simp add: items_def)
  then obtain best rest where s: "stable_sort prio_less items = best # rest"
    by (cases "stable_sort prio_less items") auto
  have "set (best # rest) = set items" using set_stable_sort [of prio_less items] s by simp
  then have "pz_target ` set (best # rest) = set targets" by (simp add: items_def image_image)
  with prio_candidates_subset [of best "best # rest"] pick_candidate_mem [OF prio_candidates_nonempty [OF s], of k]
  show ?thesis by (auto simp: selectByPriority_def items_def [symmetric] s)
qed

lemma read_latencies_length: "length (fst (read_latencies reader clk ts lc)) = length ts"
  by (induction reader clk ts lc rule: read_latencies.induct) (auto split: prod.splits)

lemma selectByLatency_mem:
  assumes "targets \<noteq> []"
  shows "\<exists>t \<in> set targets. fst (selectByLatency reader clk k r targets) = Some t"
proof -
  obtain ds lc where d: "read_latencies reader clk targets (ro_latencyCache r) = (ds, lc)" by force
  with read_latencies_length [of reader clk targets "ro_latencyCache r"] have len: "length ds = length targets" by simp
  let ?items = "map (\<lambda>(t, d). (t, case d of Some p50 \<Rightarrow> p50 | None \<Rightarrow> time_Hour)) (zip targets ds)"
  show ?thesis
  proof (cases "list_ex (\<lambda>d. d \<noteq> None) ds")
    case False
    with d selectByPriority_mem [OF assms] show ?thesis by (simp add: selectByLatency_def Let_def)
  next
    case True
    from assms len have "?items \<noteq> []" by auto
    then obtain best rest where s: "stable_sort (\<lambda>a b. snd a < snd b) ?items = best # rest"
      by (cases "stable_sort (\<lambda>a b. snd a < snd b) ?items") auto
    then have "best \<in> set ?items" by (metis list.set_intros(1) set_stable_sort)
    then have "fst best \<in> set targets" by (auto dest: set_zip_leftD)
    with True d s show ?thesis by (simp add: selectByLatency_def Let_def)
  qed
qed

lemma slice_first_least:
  fixes f :: "'a \<Rightarrow> 'b :: linorder"
  assumes "items \<noteq> []"
  shows "\<exists>x \<in> set items. slice_first (\<lambda>a b. f a < f b) tie items = Some x \<and> (\<forall>y \<in> set items. f x \<le> f y)"
proof -
  let ?best = "filter (\<lambda>x. \<not> list_ex (\<lambda>y. f y < f x) items) items"
  have fin: "finite (f ` set items)" "f ` set items \<noteq> {}" using assms by simp_all
  then obtain m where m: "m \<in> set items" "f m = Min (f ` set items)" using Min_in by (metis imageE)
  then have "\<forall>y \<in> set items. f m \<le> f y" using fin(1) by simp
  with m have "m \<in> set ?best" by (auto simp: list_ex_iff not_less)
  then have ne: "?best \<noteq> []" by (metis empty_iff list.set(1))
  let ?x = "?best ! (tie mod length ?best)"
  have "?x \<in> set ?best" using ne by (intro nth_mem) simp
  then have "?x \<in> set items" and "\<forall>y \<in> set items. f ?x \<le> f y" by (auto simp: list_ex_iff not_less)
  moreover have "slice_first (\<lambda>a b. f a < f b) tie items = Some ?x" using ne by (simp add: slice_first_def Let_def)
  ultimately show ?thesis by blast
qed

text \<open>The cost strategy selects a cheapest target: no other target has a lower average price, where
  a model that is missing from the catalog counts with the median price.\<close>

theorem selectByCost_cheapest:
  assumes "targets \<noteq> []"
  shows "\<exists>t \<in> set targets. selectByCost tie targets = Some t \<and> (\<forall>u \<in> set targets. target_cost t \<le> target_cost u)"
  using slice_first_least [of "map (\<lambda>t. (t, target_cost t)) targets" snd tie] assms
  by (auto simp: selectByCost_def)

theorem selectByCost_cheapest_witness:
  "\<exists>t \<in> set [zero_Target, zero_Target\<lparr>tg_Provider := ''openai'', tg_Model := ''gpt-4o-mini''\<rparr>].
     selectByCost 0 [zero_Target, zero_Target\<lparr>tg_Provider := ''openai'', tg_Model := ''gpt-4o-mini''\<rparr>] = Some t"
  using selectByCost_cheapest [of "[zero_Target, zero_Target\<lparr>tg_Provider := ''openai'', tg_Model := ''gpt-4o-mini''\<rparr>]" 0]
  by auto

lemma selectSmart_mem:
  assumes "targets \<noteq> []"
  shows "\<exists>t \<in> set targets. fst (selectSmart reader health clk tie r targets) = Some t"
proof -
  obtain ds lc where d: "read_latencies reader clk targets (ro_latencyCache r) = (ds, lc)" by force
  with read_latencies_length [of reader clk targets "ro_latencyCache r"] have len: "length ds = length targets" by simp
  have l: "length (smart_latencies ds) = length targets" by (simp add: smart_latencies_def Let_def len)
  have "\<exists>t \<in> set targets. map_option fst (slice_first (\<lambda>a b. snd b < snd a) tie
      (map (\<lambda>(t, c, l). (t, g t c l)) (zip targets (zip (map target_cost targets) (smart_latencies ds))))) = Some t"
    for g :: "Target \<Rightarrow> f64 \<Rightarrow> f64 \<Rightarrow> f64"
  proof -
    let ?items = "map (\<lambda>(t, c, l). (t, g t c l)) (zip targets (zip (map target_cost targets) (smart_latencies ds)))"
    have "?items \<noteq> []" using assms l by auto
    from slice_first_least [OF this, of "\<lambda>p. - snd p" tie]
    obtain x where "x \<in> set ?items" "slice_first (\<lambda>a b. - snd a < - snd b) tie ?items = Some x" by blast
    then have x: "x \<in> set ?items" "slice_first (\<lambda>a b. snd b < snd a) tie ?items = Some x" by simp_all
    from x(1) have "fst x \<in> set targets" by (auto dest: set_zip_leftD)
    with x(2) show ?thesis by simp
  qed
  with d show ?thesis by (simp add: selectSmart_def Let_def)
qed

lemma selectBest_mem:
  assumes "targets \<noteq> []"
  shows "\<exists>t \<in> set targets. fst (selectBest reader health clk k r targets) = Some t"
proof (cases "\<exists>t. targets = [t]")
  case True
  then show ?thesis by (auto simp: selectBest_def)
next
  case False
  with assms obtain a b ts where "targets = a # b # ts" by (cases targets; cases "tl targets") auto
  then have "selectBest reader health clk k r targets =
      (if ro_strategy r = ''latency'' then selectByLatency reader clk k r targets
       else if ro_strategy r = ''cost'' then (selectByCost k targets, r)
       else if ro_strategy r = ''smart'' then selectSmart reader health clk k r targets
       else (selectByPriority r k targets, r))" by (simp add: selectBest_def)
  moreover have "\<exists>t \<in> set targets. selectByCost k targets = Some t"
    using slice_first_least [of "map (\<lambda>t. (t, target_cost t)) targets" snd k] assms
    by (auto simp: selectByCost_def)
  ultimately show ?thesis
    using selectByLatency_mem [OF assms] selectSmart_mem [OF assms] selectByPriority_mem [OF assms] by simp
qed

lemma select_router:
  "ro_models (snd (selectBest reader health clk k r ts)) = ro_models r
   \<and> ro_providerRegions (snd (selectBest reader health clk k r ts)) = ro_providerRegions r
   \<and> ro_regionDataRes (snd (selectBest reader health clk k r ts)) = ro_regionDataRes r"
  by (auto simp: selectBest_def selectByLatency_def selectSmart_def Let_def split: list.splits prod.splits)

lemma route_targets_route:
  "t \<in> set (route_targets r route) \<Longrightarrow> tg_Provider t = mr_Provider route \<and> tg_Model t = mr_Model route"
  by (auto simp: route_targets_def expandRoute_def bare_target_def zero_Target_def Let_def split: option.splits if_splits)

lemma route_targets_nonempty [simp]: "route_targets r route \<noteq> []"
  by (simp add: route_targets_def Let_def)

section \<open>The plan\<close>

lemma reorder_mset [simp]: "mset (reorderByHealth h ts) = mset ts"
  by (simp add: reorderByHealth_def Let_def multiset_partition [symmetric] split: option.splits)

lemma set_reorder [simp]: "set (reorderByHealth h ts) = set ts"
  by (rule mset_eq_setD) simp

text \<open>A target that belongs to a model: its provider and model are those of a route or a fallback.\<close>

definition target_of :: "ModelConfig \<Rightarrow> Target \<Rightarrow> bool" where
  "target_of m t \<longleftrightarrow> (\<exists>route \<in> set (mc_Routes m @ mc_Fallbacks m).
     tg_Provider t = mr_Provider route \<and> tg_Model t = mr_Model route)"

lemma Plan_ok:
  assumes "gm_get (ro_models r) model = Some m" and "mc_Routes m \<noteq> []" and "total_weight (mc_Routes m) \<le> max_int64"
  shows "\<exists>targets r'. Router_Plan reader health clk rnd model r = (Inr targets, r') \<and> targets \<noteq> []
    \<and> list_all (target_of m) targets"
proof -
  from chooseWeighted_some [OF assms(2,3)] obtain primary
    where p: "chooseWeighted (rnd 0) (mc_Routes m) = Some primary" "primary \<in> set (mc_Routes m)" by blast
  obtain res r' where b: "selectBest reader health clk (rnd 1) r (route_targets r primary) = (res, r')" by force
  with selectBest_mem [of "route_targets r primary" reader health clk "rnd 1" r] obtain t
    where t: "res = Some t" "t \<in> set (route_targets r primary)" by auto
  let ?ts = "t # concat (map (route_targets r') (mc_Fallbacks m))"
  have plan: "Router_Plan reader health clk rnd model r = (Inr (reorderByHealth health ?ts), r')"
    using assms(1,2) p(1) b t(1) by (simp add: Router_Plan_def resolveTargets_def)
  have "list_all (target_of m) ?ts"
    using route_targets_route [OF t(2)] p(2) by (auto simp: target_of_def list_all_iff dest!: route_targets_route)
  then have "list_all (target_of m) (reorderByHealth health ?ts)" by (simp add: list_all_iff)
  moreover have "reorderByHealth health ?ts \<noteq> []" by (metis mset_zero_iff reorder_mset list.distinct(1))
  ultimately show ?thesis using plan by blast
qed

text \<open>C34. Planning never fails for a configured model: with a configuration that passed validation and
  whose route weights fit in 64 bits, every strategy, every random draw, every state of the
  latency cache and of the health checker gives a plan with at least one target, and each target
  is a route or a fallback of the model at a configured provider.\<close>

theorem plan_for_valid_config:
  assumes "config_ok c" and "gm_get (cfg_Models c) model = Some m" and "total_weight (mc_Routes m) \<le> max_int64"
  shows "\<exists>targets r'.
    Router_Plan reader health clk rnd model (New (cfg_Models c) (cfg_Providers c) (cfg_Routing c) hasReader) = (Inr targets, r')
    \<and> targets \<noteq> [] \<and> (\<forall>t \<in> set targets. target_of m t \<and> gm_get (cfg_Providers c) (tg_Provider t) \<noteq> None)"
proof -
  let ?r = "New (cfg_Models c) (cfg_Providers c) (cfg_Routing c) hasReader"
  from assms(1,2) have m: "model_ok (cfg_Providers c) m"
    by (auto simp: config_ok_def list_all_iff dest!: gm_get_SomeD)
  then have ne: "mc_Routes m \<noteq> []" by (simp add: model_ok_def)
  have "gm_get (ro_models ?r) model = Some m" using assms(2) by (simp add: New_def Let_def)
  from Plan_ok [OF this ne assms(3), of reader health clk rnd] obtain targets r'
    where "Router_Plan reader health clk rnd model ?r = (Inr targets, r')" "targets \<noteq> []" "list_all (target_of m) targets"
    by blast
  moreover have "target_of m t \<Longrightarrow> gm_get (cfg_Providers c) (tg_Provider t) \<noteq> None" for t
    using m by (auto simp: target_of_def model_ok_def list_all_iff route_ok_def)
  ultimately show ?thesis by (auto simp: list_all_iff)
qed

definition example_provider :: "string \<Rightarrow> RegionConfig list \<Rightarrow> ProviderConfig" where
  "example_provider typ regions = \<lparr>pc_Type = typ, pc_BaseURL = ''u'', pc_Keys = [], pc_Regions = regions,
     pc_GeminiModelMap = [], pc_AzureResource = '''', pc_AzureAPIVersion = '''', pc_Region = '''',
     pc_Project = '''', pc_Publisher = ''''\<rparr>"

definition example_config :: Config where
  "example_config = Default\<lparr>cfg_Providers := [(''a'', example_provider ''openai'' [])],
     cfg_Models := [(''fast'', \<lparr>mc_Routes = [example_route ''a'' 1], mc_Fallbacks = []\<rparr>)]\<rparr>"

theorem plan_for_valid_config_witness:
  "\<exists>targets r'. Router_Plan (\<lambda>_ _ _. None) None (\<lambda>_. 0) (\<lambda>_. 0) ''fast''
       (New (cfg_Models example_config) (cfg_Providers example_config) (cfg_Routing example_config) False) = (Inr targets, r')
     \<and> targets \<noteq> []"
proof -
  have "blank ''m'' = False" by code_simp
  then have "config_ok example_config"
    by (simp add: config_ok_def example_config_def Default_def model_ok_def route_ok_def regions_ok_def
        supportedProviderTypes_def example_provider_def example_route_def gm_get_def)
  from plan_for_valid_config [OF this, of "''fast''" "\<lparr>mc_Routes = [example_route ''a'' 1], mc_Fallbacks = []\<rparr>"
      "\<lambda>_ _ _. None" None "\<lambda>_. 0" "\<lambda>_. 0" False]
  show ?thesis
    by (auto simp: example_config_def gm_get_def route_weight_def example_route_def max_int64_def)
qed

definition target_healthy :: "(string \<Rightarrow> string \<Rightarrow> string \<Rightarrow> bool) \<Rightarrow> Target \<Rightarrow> bool" where
  "target_healthy h t = h (tg_Provider t) (tg_Model t) (tg_Region t)"

text \<open>Reordering by health loses and invents no target, puts every healthy target before every
  unhealthy one and otherwise keeps the order of the plan; when no target is healthy the plan is
  left as it is.\<close>

theorem reorder_healthy_first:
  assumes "reorderByHealth (Some h) ts = us"
  shows "mset us = mset ts
    \<and> (\<forall>i j. i < j \<and> j < length us \<and> target_healthy h (us ! j) \<longrightarrow> target_healthy h (us ! i) \<or> length ts \<le> 1)
    \<and> filter (target_healthy h) us = filter (target_healthy h) ts
    \<and> filter (\<lambda>t. \<not> target_healthy h t) us = filter (\<lambda>t. \<not> target_healthy h t) ts"
proof -
  let ?p = "target_healthy h"
  have p: "(\<lambda>t. h (tg_Provider t) (tg_Model t) (tg_Region t)) = ?p" by (simp add: target_healthy_def fun_eq_iff)
  have us: "us = ts \<and> length ts \<le> 1 \<or> us = filter ?p ts @ filter (\<lambda>t. \<not> ?p t) ts"
    using assms unfolding reorderByHealth_def p [symmetric]
    by (auto simp: Let_def filter_empty_conv split: if_splits)
  have order: "?p (us ! i) \<or> length ts \<le> 1" if "i < j" "j < length us" "?p (us ! j)" for i j
  proof (cases "length ts \<le> 1")
    case False
    with us have us': "us = filter ?p ts @ filter (\<lambda>t. \<not> ?p t) ts" by blast
    have "j < length (filter ?p ts)"
    proof (rule ccontr)
      assume "\<not> j < length (filter ?p ts)"
      then have "us ! j = filter (\<lambda>t. \<not> ?p t) ts ! (j - length (filter ?p ts))"
        and "j - length (filter ?p ts) < length (filter (\<lambda>t. \<not> ?p t) ts)"
        using that(2) unfolding us' by (simp_all add: nth_append)
      with nth_mem have "us ! j \<in> set (filter (\<lambda>t. \<not> ?p t) ts)" by metis
      with that(3) show False by simp
    qed
    with that(1) have "us ! i = filter ?p ts ! i" and "i < length (filter ?p ts)"
      unfolding us' by (simp_all add: nth_append)
    with nth_mem have "us ! i \<in> set (filter ?p ts)" by metis
    then show ?thesis by simp
  qed simp
  from assms have "mset us = mset ts" by (metis reorder_mset)
  moreover have "filter ?p us = filter ?p ts" "filter (\<lambda>t. \<not> ?p t) us = filter (\<lambda>t. \<not> ?p t) ts"
    using us by auto
  ultimately show ?thesis using order by blast
qed

theorem reorder_healthy_first_witness:
  "let a = zero_Target\<lparr>tg_Provider := ''a''\<rparr>; b = zero_Target\<lparr>tg_Provider := ''b''\<rparr>;
       us = reorderByHealth (Some (\<lambda>p m r. p = ''b'')) [a, b]
   in us = [b, a] \<and> mset us = mset [a, b]"
  using reorder_healthy_first [of "\<lambda>p m r. p = ''b''" "[zero_Target\<lparr>tg_Provider := ''a''\<rparr>, zero_Target\<lparr>tg_Provider := ''b''\<rparr>]",
      OF refl]
  by (simp add: reorderByHealth_def Let_def)

section \<open>Data residency\<close>

text \<open>A region name carries the same residency tag at every provider.\<close>

definition tags_consistent :: "(string, ProviderConfig) gomap \<Rightarrow> bool" where
  "tags_consistent ps \<longleftrightarrow> (\<forall>r \<in> set (all_regions ps). \<forall>s \<in> set (all_regions ps). rg_Name r = rg_Name s \<longrightarrow> region_tag r = region_tag s)"

lemma regionDataRes_get:
  "gm_get (fold (\<lambda>r m. gm_set (rg_Name r) (region_tag r) m) rs m) n =
     (case find (\<lambda>r. rg_Name r = n) (rev rs) of Some r \<Rightarrow> Some (region_tag r) | None \<Rightarrow> gm_get m n)"
proof (induction rs arbitrary: m)
  case (Cons r rs)
  then show ?case by (auto simp: gomap_simps find_append split: option.splits)
qed simp

lemma New_fields:
  "ro_providerRegions (New ms ps rc hr) = map (\<lambda>(name, p). (name, pc_Regions p)) (filter (\<lambda>(name, p). pc_Regions p \<noteq> []) ps)"
  "ro_regionDataRes (New ms ps rc hr) = fold (\<lambda>r m. gm_set (rg_Name r) (region_tag r) m) (all_regions ps) []"
  by (simp_all add: New_def Let_def)

lemma expandRoute_tag:
  assumes "tags_consistent ps" and "gm_ok ps" and "t \<in> set (expandRoute (New ms ps rc hr) route)"
  shows "\<exists>p region. gm_get ps (mr_Provider route) = Some p \<and> region \<in> set (pc_Regions p)
    \<and> tg_Region t = rg_Name region \<and> tg_BaseURL t = rg_BaseURL region \<and> tg_DataResidency t = region_tag region"
proof -
  let ?r = "New ms ps rc hr"
  note pr = New_fields(1) [of ms ps rc hr] and dr = New_fields(2) [of ms ps rc hr]
  from assms(3) obtain regions where g: "gm_get (ro_providerRegions ?r) (mr_Provider route) = Some regions"
    by (cases "gm_get (ro_providerRegions ?r) (mr_Provider route)") (simp_all add: expandRoute_def)
  with assms(3) obtain region where reg: "region \<in> set regions"
    and t: "tg_Region t = rg_Name region" "tg_BaseURL t = rg_BaseURL region"
      "tg_DataResidency t = (case gm_get (ro_regionDataRes ?r) (rg_Name region) of None \<Rightarrow> '''' | Some tag \<Rightarrow> tag)"
    by (auto simp: expandRoute_def)
  from gm_get_SomeD [OF g] obtain p where p: "(mr_Provider route, p) \<in> set ps" "regions = pc_Regions p"
    unfolding pr by auto
  with assms(2) have gp: "gm_get ps (mr_Provider route) = Some p" by (simp add: gm_get_mem)
  from p reg have all: "region \<in> set (all_regions ps)" by (auto simp: all_regions_def)
  then have "find (\<lambda>r. rg_Name r = rg_Name region) (rev (all_regions ps)) \<noteq> None"
    by (auto simp: find_None_iff)
  then obtain s where s: "find (\<lambda>r. rg_Name r = rg_Name region) (rev (all_regions ps)) = Some s" by blast
  then have "s \<in> set (all_regions ps)" and "rg_Name s = rg_Name region" using find_SomeD by fastforce+
  with assms(1) all have "region_tag s = region_tag region" unfolding tags_consistent_def by blast
  with s t(3) have "tg_DataResidency t = region_tag region" by (simp add: dr regionDataRes_get)
  with gp p(2) reg t(1,2) show ?thesis by blast
qed


definition example_region :: "string \<Rightarrow> string \<Rightarrow> string \<Rightarrow> RegionConfig" where
  "example_region name url tag = \<lparr>rg_Name = name, rg_BaseURL = url, rg_Priority = 1, rg_DataResidency = tag\<rparr>"

definition example_eu :: "(string, ProviderConfig) gomap" where
  "example_eu = [(''a'', example_provider ''openai'' [example_region ''west'' ''https://eu.a'' ''EU'',
                                                       example_region ''east'' ''https://us.a'' ''us''])]"

lemma example_eu_targets:
  "FilterByResidency (expandRoute (New [] example_eu (cfg_Routing Default) False) (example_route ''a'' 1)) '' eu''
     = [\<lparr>tg_Provider = ''a'', tg_Model = ''m'', tg_Region = ''west'', tg_BaseURL = ''https://eu.a'', tg_DataResidency = ''EU''\<rparr>]"
proof -
  have "strings_ToLower (strings_TrimSpace '' eu'') = ''eu''" "strings_ToLower ''EU'' = ''eu''" "strings_ToLower ''us'' = ''us''"
    by code_simp+
  then show ?thesis
    by (simp add: FilterByResidency_def expandRoute_def New_fields all_regions_def region_tag_def matchesResidency_def
        example_eu_def example_provider_def example_region_def example_route_def gm_get_def gm_set_def)
qed


text \<open>Without that condition the filter fails: residency tags are kept per region name and not per
  provider, so when two providers give the same region name different tags, the endpoint of
  one provider passes the filter with the tag of the other. Here the endpoint that provider
  \<^verbatim>\<open>a\<close> declares as \<^verbatim>\<open>us\<close> is a target for the residency \<^verbatim>\<open>eu\<close>.\<close>

theorem residency_tag_clash:
  "let ps = [(''a'', example_provider ''openai'' [example_region ''west'' ''https://us.a'' ''us'']),
             (''b'', example_provider ''openai'' [example_region ''west'' ''https://eu.b'' ''eu''])]
   in map tg_BaseURL (FilterByResidency (expandRoute (New [] ps (cfg_Routing Default) False) (example_route ''a'' 1)) ''eu'')
     = [''https://us.a'']"
proof -
  have "strings_ToLower (strings_TrimSpace ''eu'') = ''eu''" "strings_ToLower ''eu'' = ''eu''" by code_simp+
  then show ?thesis
    by (simp add: FilterByResidency_def expandRoute_def New_fields all_regions_def region_tag_def matchesResidency_def
        example_provider_def example_region_def example_route_def gm_get_def gm_set_def)
qed

end
