(* ===== verification/Async_Log.thy ===== *)
theory Async_Log
  imports Json "HOL-Library.Sublist"
begin

text \<open>
  The queue that \<^verbatim>\<open>usage.Writer\<close> and \<^verbatim>\<open>audit.Logger\<close> share: requests push records into a buffered channel without
  ever blocking, one goroutine takes them out and writes them to the database, and closing drains what is left. The
  interface is a locale; the lemmas inside it show, for any interleaving of pushes and writes, that no accepted record is
  lost or written twice or out of order and that a record is dropped only when the buffer is full. The audit logger,
  \<^verbatim>\<open>internal/audit/logger.go\<close>, is the first component that implements it.
\<close>

section \<open>The interface\<close>

datatype ('p, 'w) log_step = Push 'p | Work 'w

fun pushed :: "('p, 'w) log_step list \<Rightarrow> 'p list" where
  "pushed [] = []"
| "pushed (Push p # es) = p # pushed es"
| "pushed (Work w # es) = pushed es"

fun log_run ::
  "('p \<Rightarrow> 's \<Rightarrow> 's option) \<Rightarrow> ('w \<Rightarrow> 's \<Rightarrow> 's) \<Rightarrow> ('p, 'w) log_step list \<Rightarrow> 's \<Rightarrow> 's option" where
  "log_run push work [] s = Some s"
| "log_run push work (Push p # es) s = (case push p s of None \<Rightarrow> None | Some s' \<Rightarrow> log_run push work es s')"
| "log_run push work (Work w # es) s = log_run push work es (work w s)"

locale async_log =
  fixes push :: "'p \<Rightarrow> 's \<Rightarrow> 's option"
    and work :: "'w \<Rightarrow> 's \<Rightarrow> 's"
    and item :: "'p \<Rightarrow> 'e"
    and rows :: "'w \<Rightarrow> 'e \<Rightarrow> 'r list"
    and pending :: "'s \<Rightarrow> 'e list"
    and stored :: "'s \<Rightarrow> 'r list"
    and capacity :: "'s \<Rightarrow> nat"
    and opened :: "'s \<Rightarrow> bool"
    and inv :: "'s \<Rightarrow> bool"
  assumes push_open: "inv s \<Longrightarrow> opened s \<Longrightarrow> \<exists>s'. push p s = Some s' \<and> inv s' \<and> stored s' = stored s \<and> opened s' \<and> capacity s' = capacity s
      \<and> pending s' = (if length (pending s) < capacity s then pending s @ [item p] else pending s)"
    and work_idle: "pending s = [] \<Longrightarrow> work w s = s"
    and work_item: "inv s \<Longrightarrow> pending s = e # q \<Longrightarrow> inv (work w s) \<and> pending (work w s) = q \<and> stored (work w s) = stored s @ rows w e
      \<and> opened (work w s) = opened s \<and> capacity (work w s) = capacity s"
begin

text \<open>Closing hands every pending record to the goroutine, one after the other.\<close>

lemma drain:
  "inv s \<Longrightarrow> length ws = length (pending s) \<Longrightarrow>
   pending (fold work ws s) = [] \<and> stored (fold work ws s) = stored s @ concat (map2 rows ws (pending s))"
proof (induction ws arbitrary: s)
  case (Cons w ws)
  then obtain e q where q: "pending s = e # q" by (cases "pending s") auto
  note wi = work_item [OF Cons.prems(1) q, of w]
  with Cons.prems q have "length ws = length (pending (work w s))" by simp
  with Cons.IH [of "work w s"] q wi show ?case by simp
qed simp

lemma work_frame: "inv s \<Longrightarrow> inv (work w s) \<and> opened (work w s) = opened s \<and> capacity (work w s) = capacity s"
  using work_idle work_item by (cases "pending s") auto

text \<open>A run never panics. The records handled and those still pending, in this order, are the old ones followed by a
  subsequence of the pushed ones, and the rows written are those of the records handled.\<close>

lemma run_conserves:
  "inv s \<Longrightarrow> opened s \<Longrightarrow> length (pending s) \<le> capacity s \<Longrightarrow>
   \<exists>s' acc fin ws. log_run push work es s = Some s' \<and> inv s' \<and> opened s' \<and> capacity s' = capacity s \<and> length (pending s') \<le> capacity s
     \<and> subseq acc (map item (pushed es))
     \<and> (length (pending s) + length (pushed es) \<le> capacity s \<longrightarrow> acc = map item (pushed es))
     \<and> fin @ pending s' = pending s @ acc \<and> length ws = length fin \<and> (\<forall>w \<in> set ws. Work w \<in> set es)
     \<and> stored s' = stored s @ concat (map2 rows ws fin)"
proof (induction es arbitrary: s)
  case Nil
  then show ?case by (intro exI [of _ s] exI [of _ "[]"]) simp
next
  case (Cons x es)
  note IH = Cons.IH and prems = Cons.prems
  show ?case
  proof (cases x)
    case (Push p)
    from push_open [OF prems(1,2), of p] obtain s1 where s1: "push p s = Some s1" "stored s1 = stored s" "opened s1"
      "capacity s1 = capacity s"
      "pending s1 = (if length (pending s) < capacity s then pending s @ [item p] else pending s)" "inv s1" by blast
    have "length (pending s1) \<le> capacity s1" using s1 prems(3) by simp
    from IH [OF s1(6,3) this] obtain s' acc fin ws where r: "log_run push work es s1 = Some s'" "opened s'" "capacity s' = capacity s1"
      "length (pending s') \<le> capacity s1" "subseq acc (map item (pushed es))" "fin @ pending s' = pending s1 @ acc"
      "length (pending s1) + length (pushed es) \<le> capacity s1 \<longrightarrow> acc = map item (pushed es)"
      "length ws = length fin" "stored s' = stored s1 @ concat (map2 rows ws fin)" "inv s'" "\<forall>w \<in> set ws. Work w \<in> set es" by blast
    let ?acc = "if length (pending s) < capacity s then item p # acc else acc"
    have "subseq ?acc (map item (pushed (x # es)))" using r(5) Push by (auto intro: list_emb_Cons)
    moreover have "fin @ pending s' = pending s @ ?acc" using r(6) s1(5) by simp
    ultimately show ?thesis using r s1 Push
      by (intro exI [of _ s'] exI [of _ ?acc] exI [of _ "fin"] exI [of _ ws]) simp
  next
    case (Work w)
    note w = work_frame [OF prems(1), of w]
    show ?thesis
    proof (cases "pending s")
      case Nil
      with IH [OF prems] Work work_idle [OF Nil] show ?thesis by (simp del: ex_simps) blast
    next
      case (Cons e q)
      note wi = work_item [OF prems(1) Cons, of w]
      have "length (pending (work w s)) \<le> capacity (work w s)" using wi Cons prems(3) by simp
      with IH [of "work w s"] prems(2) w obtain s' acc fin ws where r: "log_run push work es (work w s) = Some s'" "opened s'"
        "capacity s' = capacity (work w s)" "length (pending s') \<le> capacity (work w s)"
        "subseq acc (map item (pushed es))" "fin @ pending s' = pending (work w s) @ acc"
        "length (pending (work w s)) + length (pushed es) \<le> capacity (work w s) \<longrightarrow> acc = map item (pushed es)"
        "length ws = length fin" "stored s' = stored (work w s) @ concat (map2 rows ws fin)" "inv s'" "\<forall>w \<in> set ws. Work w \<in> set es" by blast
      then show ?thesis using wi Cons Work
        by (intro exI [of _ s'] exI [of _ acc] exI [of _ "e # fin"] exI [of _ "w # ws"]) simp
    qed
  qed
qed

text \<open>When the database accepts every write, a run followed by closing leaves every accepted record in the table, once
  and in the order of the pushes.\<close>

lemma rows_written:
  "length ws = length es \<Longrightarrow> \<forall>w \<in> set ws. \<forall>e. \<exists>r. rows w e = [r] \<and> key r = e \<and> P r \<Longrightarrow>
   map key (concat (map2 rows ws es)) = es \<and> list_all P (concat (map2 rows ws es))"
proof (induction ws es rule: list_induct2)
  case (Cons w ws e es)
  from Cons.prems have "\<exists>r. rows w e = [r] \<and> key r = e \<and> P r" by simp
  then obtain r where "rows w e = [r]" "key r = e" "P r" by blast
  with Cons show ?case by simp
qed simp

lemma run_written:
  assumes "inv s" and "opened s" and "length (pending s) \<le> capacity s"
    and "\<forall>w. Work w \<in> set es \<longrightarrow> (\<forall>e. \<exists>r. rows w e = [r] \<and> key r = e \<and> P r)"
  shows "\<exists>s' acc new. log_run push work es s = Some s' \<and> inv s' \<and> opened s' \<and> subseq acc (map item (pushed es))
     \<and> (length (pending s) + length (pushed es) \<le> capacity s \<longrightarrow> acc = map item (pushed es))
     \<and> stored s' = stored s @ new \<and> map key new @ pending s' = pending s @ acc \<and> list_all P new"
proof -
  from run_conserves [OF assms(1-3), of es] obtain s' acc fin ws where r: "log_run push work es s = Some s'" "inv s'" "opened s'"
    "subseq acc (map item (pushed es))" "length (pending s) + length (pushed es) \<le> capacity s \<longrightarrow> acc = map item (pushed es)"
    "fin @ pending s' = pending s @ acc" "length ws = length fin" "\<forall>w \<in> set ws. Work w \<in> set es"
    "stored s' = stored s @ concat (map2 rows ws fin)" by blast
  with assms(4) rows_written [OF r(7), of key P]
  have "map key (concat (map2 rows ws fin)) = fin \<and> list_all P (concat (map2 rows ws fin))" by blast
  with r show ?thesis
    by (intro exI [of _ s'] exI [of _ acc] exI [of _ "concat (map2 rows ws fin)"]) simp
qed

lemma drain_written:
  assumes "inv s" and "length ws = length (pending s)" and "\<forall>w \<in> set ws. \<forall>e. \<exists>r. rows w e = [r] \<and> key r = e \<and> P r"
  shows "\<exists>new. stored (fold work ws s) = stored s @ new \<and> map key new = pending s \<and> list_all P new"
  using drain [OF assms(1,2)] rows_written [OF assms(2,3)] by blast

end

section \<open>The audit logger\<close>

text \<open>A row of \<^verbatim>\<open>audit_logs\<close> is the event; a nil database is \<^term>\<open>None\<close>. Whether the database accepts a write is an
  argument of the write. A send on the closed channel panics.\<close>

record Event =
  ae_Timestamp :: gotime
  ae_EventType :: string
  ae_Actor :: string
  ae_Action :: string
  ae_Resource :: string
  ae_Outcome :: string
  ae_RequestID :: string
  ae_Metadata :: "(string, json) gomap"

record Logger =
  lg_db :: "Event list option"
  lg_events :: "Event list"
  lg_buffer :: nat
  lg_closed :: bool

definition NewLogger :: "Event list option \<Rightarrow> int \<Rightarrow> Logger" where
  "NewLogger db bufferSize =
     \<lparr>lg_db = db, lg_events = [],
      lg_buffer = (if db = None then 0 else if bufferSize \<le> 0 then 1000 else nat bufferSize), lg_closed = False\<rparr>"

definition stamped :: "gotime \<Rightarrow> Event \<Rightarrow> Event" where
  "stamped now e = (if time_IsZero (ae_Timestamp e) then e\<lparr>ae_Timestamp := now\<rparr> else e)"

definition Logger_Record :: "gotime \<times> Event \<Rightarrow> Logger \<Rightarrow> Logger option" where
  "Logger_Record = (\<lambda>(now, e) l.
     if lg_db l = None then Some l
     else if lg_closed l then None
     else if length (lg_events l) < lg_buffer l then Some (l\<lparr>lg_events := lg_events l @ [stamped now e]\<rparr>)
     else Some l)"

definition Logger_write :: "bool \<Rightarrow> Event \<Rightarrow> Logger \<Rightarrow> Logger" where
  "Logger_write accepts e l = (if accepts then l\<lparr>lg_db := map_option (\<lambda>t. t @ [e]) (lg_db l)\<rparr> else l)"

definition RecordSync :: "bool \<Rightarrow> gotime \<Rightarrow> Event \<Rightarrow> Logger \<Rightarrow> bool \<times> Logger" where
  "RecordSync accepts now e l =
     (if lg_db l = None then (True, l) else (accepts, Logger_write accepts (stamped now e) l))"

text \<open>One turn of the goroutine's loop.\<close>

definition Logger_process :: "bool \<Rightarrow> Logger \<Rightarrow> Logger" where
  "Logger_process accepts l =
     (case lg_events l of [] \<Rightarrow> l | e # q \<Rightarrow> Logger_write accepts e (l\<lparr>lg_events := q\<rparr>))"

definition Logger_Close :: "(nat \<Rightarrow> bool) \<Rightarrow> Logger \<Rightarrow> Logger option" where
  "Logger_Close accepts l =
     (if lg_db l = None then Some l
      else if lg_closed l then None
      else Some (fold Logger_process (map accepts [0..<length (lg_events l)]) (l\<lparr>lg_closed := True\<rparr>)))"

definition logger_open :: "Logger \<Rightarrow> bool" where
  "logger_open l \<longleftrightarrow> lg_db l \<noteq> None \<and> \<not> lg_closed l"

text \<open>The interface holds for a logger with a database.\<close>

definition logger_rows :: "Logger \<Rightarrow> Event list" where
  "logger_rows l = (case lg_db l of None \<Rightarrow> [] | Some t \<Rightarrow> t)"

lemma Logger_process_rows:
  assumes "lg_events l = e # q" and "lg_db l \<noteq> None"
  shows "logger_rows (Logger_process accepts l) = logger_rows l @ (if accepts then [e] else [])"
  using assms by (auto simp: Logger_process_def Logger_write_def logger_rows_def)

interpretation audit: async_log Logger_Record Logger_process "\<lambda>(now, e). stamped now e" "\<lambda>accepts e. if accepts then [e] else []"
  lg_events logger_rows lg_buffer logger_open "\<lambda>l. lg_db l \<noteq> None"
proof unfold_locales
  fix l :: Logger and p :: "gotime \<times> Event"
  assume "lg_db l \<noteq> None" and "logger_open l"
  then show "\<exists>l'. Logger_Record p l = Some l' \<and> lg_db l' \<noteq> None \<and> logger_rows l' = logger_rows l \<and> logger_open l'
      \<and> lg_buffer l' = lg_buffer l \<and> lg_events l' = (if length (lg_events l) < lg_buffer l
        then lg_events l @ [case p of (now, e) \<Rightarrow> stamped now e] else lg_events l)"
    by (auto simp: Logger_Record_def logger_open_def logger_rows_def split: prod.splits)
next
  fix l :: Logger and accepts
  show "lg_events l = [] \<Longrightarrow> Logger_process accepts l = l" by (simp add: Logger_process_def)
next
  fix l :: Logger and accepts e q
  assume "lg_db l \<noteq> None" and "lg_events l = e # q"
  with Logger_process_rows [OF this(2,1), of accepts]
  show "lg_db (Logger_process accepts l) \<noteq> None \<and> lg_events (Logger_process accepts l) = q
      \<and> logger_rows (Logger_process accepts l) = logger_rows l @ (if accepts then [e] else [])
      \<and> logger_open (Logger_process accepts l) = logger_open l
      \<and> lg_buffer (Logger_process accepts l) = lg_buffer l"
    by (auto simp: Logger_process_def Logger_write_def logger_open_def)
qed

lemma audit_close:
  assumes "logger_open l"
  shows "\<exists>l'. Logger_Close (\<lambda>_. True) l = Some l' \<and> logger_rows l' = logger_rows l @ lg_events l \<and> lg_events l' = []"
proof -
  let ?l = "l\<lparr>lg_closed := True\<rparr>" and ?ws = "map (\<lambda>_. True) [0..<length (lg_events l)]"
  have "concat (map2 (\<lambda>accepts e. if accepts then [e] else []) (map (\<lambda>_. True) [0..<length es]) es) = es" for es :: "Event list"
    by (induction es rule: rev_induct) simp_all
  with audit.drain [of ?l ?ws] assms show ?thesis
    by (auto simp: Logger_Close_def logger_open_def logger_rows_def)
qed

end
