(* ===== verification/Usage_Log.thy ===== *)
theory Usage_Log
  imports Async_Log Gateway_Config
begin

text \<open>
  What a request costs and what a key has spent: the price table of \<^verbatim>\<open>internal/billing/prices.go\<close>, the usage writer of
  \<^verbatim>\<open>internal/usage/writer.go\<close> and the budget check of \<^verbatim>\<open>internal/usage/budget.go\<close>. The table \<^verbatim>\<open>usage_logs\<close> is a list of
  rows. How the database stores a \<^verbatim>\<open>float64\<close> in the column \<^verbatim>\<open>NUMERIC(12,6)\<close> is the parameter \<open>numeric\<close>, and its function
  \<^verbatim>\<open>date_trunc\<close> is the parameter \<open>trunc\<close>. The writer implements the interface of an asynchronous log; from it follows
  that the budget check sees every recorded cost once the queue has been written.
\<close>

section \<open>Prices\<close>

record price =
  pr_PromptPer1M :: f64
  pr_CompletionPer1M :: f64

type_synonym PriceTable = "(string, price) gomap"

definition price_key :: "string \<Rightarrow> string \<Rightarrow> string" where
  "price_key provider model = provider @ ''/'' @ model"

definition NewPriceTable :: "PriceEntry list \<Rightarrow> PriceTable" where
  "NewPriceTable prices =
     fold (\<lambda>p entries. gm_set (price_key (pe_Provider p) (pe_Model p))
             \<lparr>pr_PromptPer1M = pe_PromptPer1M p, pr_CompletionPer1M = pe_CompletionPer1M p\<rparr> entries) prices []"

definition CalculateCost :: "PriceTable option \<Rightarrow> string \<Rightarrow> string \<Rightarrow> int \<Rightarrow> int \<Rightarrow> f64" where
  "CalculateCost t provider model promptTokens completionTokens =
     (case t of
        None \<Rightarrow> 0
      | Some entries \<Rightarrow>
          (case gm_get entries (price_key provider model) of
             None \<Rightarrow> 0
           | Some e \<Rightarrow>
               let promptCost = fmul (fdiv (float_of_int promptTokens) 1000000) (pr_PromptPer1M e);
                   completionCost = fmul (fdiv (float_of_int completionTokens) 1000000) (pr_CompletionPer1M e)
               in fadd promptCost completionCost))"

lemma CalculateCost_nonneg:
  assumes "\<forall>e \<in> snd ` set entries. 0 \<le> pr_PromptPer1M e \<and> 0 \<le> pr_CompletionPer1M e" and "0 \<le> p" and "0 \<le> c"
  shows "0 \<le> CalculateCost (Some entries) provider model p c"
proof (cases "gm_get entries (price_key provider model)")
  case None
  then show ?thesis by (simp add: CalculateCost_def)
next
  case (Some e)
  with gm_get_SomeD [OF Some] assms have "0 \<le> pr_PromptPer1M e" and "0 \<le> pr_CompletionPer1M e" by force+
  with Some assms(2,3) show ?thesis by (simp add: CalculateCost_def Let_def float_nonneg)
qed

section \<open>The usage writer\<close>

record Entry =
  ue_RequestID :: string
  ue_ProjectID :: string
  ue_VirtualKeyID :: string
  ue_Model :: string
  ue_Provider :: string
  ue_ProviderModel :: string
  ue_PromptTokens :: int
  ue_CompletionTokens :: int
  ue_TotalTokens :: int
  ue_CostUSD :: f64
  ue_CacheHit :: bool
  ue_Stream :: bool
  ue_Attempts :: int
  ue_DurationMS :: int
  ue_Error :: string

text \<open>A row of \<^verbatim>\<open>usage_logs\<close>: the entry, with \<^verbatim>\<open>NULL\<close> for empty identifiers, the stored cost and the time of the
  insertion.\<close>

record usage_row =
  ur_entry :: Entry
  ur_project :: "string option"
  ur_key :: "string option"
  ur_cost :: rat
  ur_created :: gotime

definition nullableString :: "string \<Rightarrow> string option" where
  "nullableString s = (if s = '''' then None else Some s)"

record Writer =
  uw_db :: "usage_row list option"
  uw_logs :: "Entry list"
  uw_buffer :: nat
  uw_closed :: bool
  uw_dropped :: nat

definition NewWriter :: "usage_row list option \<Rightarrow> int \<Rightarrow> Writer" where
  "NewWriter db bufferSize =
     \<lparr>uw_db = db, uw_logs = [], uw_buffer = (if bufferSize \<le> 0 then 1000 else nat bufferSize), uw_closed = False,
      uw_dropped = 0\<rparr>"

text \<open>\<^verbatim>\<open>Record\<close> on a writer that is not nil; \<open>uw_dropped\<close> counts the calls of \<^verbatim>\<open>dropFn\<close>. A send on the closed channel
  panics.\<close>

definition Writer_Record :: "Entry \<Rightarrow> Writer \<Rightarrow> Writer option" where
  "Writer_Record e w =
     (if uw_closed w then None
      else if length (uw_logs w) < uw_buffer w then Some (w\<lparr>uw_logs := uw_logs w @ [e]\<rparr>)
      else Some (w\<lparr>uw_dropped := Suc (uw_dropped w)\<rparr>))"

definition usage_insert :: "(f64 \<Rightarrow> rat) \<Rightarrow> gotime \<Rightarrow> Entry \<Rightarrow> usage_row" where
  "usage_insert numeric now e =
     \<lparr>ur_entry = e, ur_project = nullableString (ue_ProjectID e), ur_key = nullableString (ue_VirtualKeyID e),
      ur_cost = numeric (ue_CostUSD e), ur_created = now\<rparr>"

definition Writer_write :: "(f64 \<Rightarrow> rat) \<Rightarrow> bool \<times> gotime \<Rightarrow> Entry \<Rightarrow> Writer \<Rightarrow> Writer" where
  "Writer_write numeric = (\<lambda>(accepts, now) e w.
     if accepts then w\<lparr>uw_db := map_option (\<lambda>t. t @ [usage_insert numeric now e]) (uw_db w)\<rparr> else w)"

definition Writer_process :: "(f64 \<Rightarrow> rat) \<Rightarrow> bool \<times> gotime \<Rightarrow> Writer \<Rightarrow> Writer" where
  "Writer_process numeric x w =
     (case uw_logs w of [] \<Rightarrow> w | e # q \<Rightarrow> Writer_write numeric x e (w\<lparr>uw_logs := q\<rparr>))"

definition Writer_Close :: "(f64 \<Rightarrow> rat) \<Rightarrow> (nat \<Rightarrow> bool \<times> gotime) \<Rightarrow> Writer \<Rightarrow> Writer option" where
  "Writer_Close numeric x w =
     (if uw_closed w then None
      else Some (fold (Writer_process numeric) (map x [0..<length (uw_logs w)]) (w\<lparr>uw_closed := True\<rparr>)))"

section \<open>Spending and budgets\<close>

text \<open>A database handle: \<^term>\<open>None\<close> is nil, \<^term>\<open>Some None\<close> one whose query fails.\<close>

type_synonym usage_db = "usage_row list option option"

definition period_start :: "(string \<Rightarrow> gotime \<Rightarrow> gotime) \<Rightarrow> string \<Rightarrow> gotime \<Rightarrow> gotime" where
  "period_start trunc period now = trunc (if period = ''daily'' then ''day'' else ''month'') now"

definition GetSpendForCurrentPeriod ::
  "(string \<Rightarrow> gotime \<Rightarrow> gotime) \<Rightarrow> gotime \<Rightarrow> usage_row list \<Rightarrow> string \<Rightarrow> string \<Rightarrow> f64" where
  "GetSpendForCurrentPeriod trunc now table virtualKeyID period =
     (let since = period_start trunc period now
      in float64 (sum_list (map ur_cost (filter (\<lambda>r. ur_key r = Some virtualKeyID \<and> since \<le> ur_created r) table))))"

record BudgetResult =
  bg_Allowed :: bool
  bg_Spend :: f64
  bg_Limit :: f64

definition budget_open :: BudgetResult where
  "budget_open = \<lparr>bg_Allowed = True, bg_Spend = 0, bg_Limit = 0\<rparr>"

definition CheckBudget ::
  "(string \<Rightarrow> gotime \<Rightarrow> gotime) \<Rightarrow> gotime \<Rightarrow> usage_db \<Rightarrow> string \<Rightarrow> string \<Rightarrow> f64 \<Rightarrow> bool \<Rightarrow> string + BudgetResult" where
  "CheckBudget trunc now db keyID period limit failClosed =
     (if limit \<le> 0 then Inr budget_open
      else case db of
        None \<Rightarrow> if failClosed then Inl ''budget check failed: database unavailable'' else Inr budget_open
      | Some None \<Rightarrow> if failClosed then Inl ''budget check failed'' else Inr budget_open
      | Some (Some table) \<Rightarrow>
          let spend = GetSpendForCurrentPeriod trunc now table keyID period
          in Inr \<lparr>bg_Allowed = (spend < limit), bg_Spend = spend, bg_Limit = limit\<rparr>)"

section \<open>The writer is an asynchronous log\<close>

definition usage_rows :: "Writer \<Rightarrow> usage_row list" where
  "usage_rows w = (case uw_db w of None \<Rightarrow> [] | Some t \<Rightarrow> t)"

lemma Writer_process_item:
  assumes "uw_db w \<noteq> None" and "uw_logs w = e # q"
  shows "uw_db (Writer_process numeric x w) \<noteq> None" and "uw_logs (Writer_process numeric x w) = q"
    and "usage_rows (Writer_process numeric x w) = usage_rows w @ (if fst x then [usage_insert numeric (snd x) e] else [])"
    and "uw_closed (Writer_process numeric x w) = uw_closed w" and "uw_buffer (Writer_process numeric x w) = uw_buffer w"
  using assms by (auto simp: Writer_process_def Writer_write_def usage_rows_def split: prod.splits)

interpretation usage: async_log Writer_Record "Writer_process numeric" "\<lambda>e. e"
  "\<lambda>x e. if fst x then [usage_insert numeric (snd x) e] else []"
  uw_logs usage_rows uw_buffer "\<lambda>w. \<not> uw_closed w" "\<lambda>w. uw_db w \<noteq> None"
proof unfold_locales
  fix w :: Writer and e :: Entry
  assume "uw_db w \<noteq> None" and "\<not> uw_closed w"
  then show "\<exists>w'. Writer_Record e w = Some w' \<and> uw_db w' \<noteq> None \<and> usage_rows w' = usage_rows w \<and> \<not> uw_closed w'
      \<and> uw_buffer w' = uw_buffer w
      \<and> uw_logs w' = (if length (uw_logs w) < uw_buffer w then uw_logs w @ [e] else uw_logs w)"
    by (auto simp: Writer_Record_def usage_rows_def)
next
  fix w :: Writer and x
  show "uw_logs w = [] \<Longrightarrow> Writer_process numeric x w = w" by (simp add: Writer_process_def)
next
  fix w :: Writer and x e q
  assume "uw_db w \<noteq> None" and "uw_logs w = e # q"
  then show "uw_db (Writer_process numeric x w) \<noteq> None \<and> uw_logs (Writer_process numeric x w) = q
      \<and> usage_rows (Writer_process numeric x w) = usage_rows w @ (if fst x then [usage_insert numeric (snd x) e] else [])
      \<and> (\<not> uw_closed (Writer_process numeric x w)) = (\<not> uw_closed w)
      \<and> uw_buffer (Writer_process numeric x w) = uw_buffer w"
    using Writer_process_item [of w e q numeric x] by simp
qed

text \<open>A row the writer wrote for an entry.\<close>

definition row_of :: "(f64 \<Rightarrow> rat) \<Rightarrow> (gotime \<Rightarrow> bool) \<Rightarrow> usage_row \<Rightarrow> bool" where
  "row_of numeric tm r \<longleftrightarrow> r = usage_insert numeric (ur_created r) (ur_entry r) \<and> tm (ur_created r)"

lemma usage_rows_single:
  "fst x \<and> tm (snd x) \<Longrightarrow>
   \<exists>r. (if fst x then [usage_insert numeric (snd x) e] else []) = [r] \<and> ur_entry r = e \<and> row_of numeric tm r"
  by (simp add: row_of_def usage_insert_def)

lemma Writer_Close_written:
  assumes "uw_db w \<noteq> None" and "\<not> uw_closed w" and "\<forall>i. fst (x i) \<and> tm (snd (x i))"
  shows "\<exists>w' new. Writer_Close numeric x w = Some w' \<and> usage_rows w' = usage_rows w @ new \<and> map ur_entry new = uw_logs w
    \<and> list_all (row_of numeric tm) new"
proof -
  let ?w = "w\<lparr>uw_closed := True\<rparr>" and ?ws = "map x [0..<length (uw_logs w)]"
  have "uw_db ?w \<noteq> None" and "length ?ws = length (uw_logs ?w)" using assms(1) by simp_all
  moreover have "\<forall>y \<in> set ?ws. \<forall>e. \<exists>r. (if fst y then [usage_insert numeric (snd y) e] else []) = [r] \<and> ur_entry r = e
      \<and> row_of numeric tm r"
    using assms(3) usage_rows_single [where numeric = numeric and tm = tm] by auto
  ultimately obtain new where "usage_rows (fold (Writer_process numeric) ?ws ?w) = usage_rows ?w @ new"
    and "map ur_entry new = uw_logs ?w" and "list_all (row_of numeric tm) new"
    using usage.drain_written [where numeric = numeric and s = ?w and ws = ?ws and key = ur_entry and P = "row_of numeric tm"] by blast
  with assms(2) show ?thesis by (simp add: Writer_Close_def usage_rows_def)
qed

text \<open>The writes of a run succeed, at times that satisfy a condition.\<close>

definition writes_ok :: "(gotime \<Rightarrow> bool) \<Rightarrow> (Entry, bool \<times> gotime) log_step list \<Rightarrow> (nat \<Rightarrow> bool \<times> gotime) \<Rightarrow> bool" where
  "writes_ok tm es x \<longleftrightarrow> (\<forall>y. Work y \<in> set es \<longrightarrow> fst y \<and> tm (snd y)) \<and> (\<forall>i. fst (x i) \<and> tm (snd (x i)))"

lemma Writer_run_close:
  assumes "writes_ok tm es x"
  shows "\<exists>w1 w2 acc new. log_run Writer_Record (Writer_process numeric) es (NewWriter (Some t) n) = Some w1
    \<and> Writer_Close numeric x w1 = Some w2 \<and> usage_rows w2 = t @ new \<and> map ur_entry new = acc
    \<and> list_all (row_of numeric tm) new \<and> subseq acc (pushed es)
    \<and> (length (pushed es) \<le> (if n \<le> 0 then 1000 else nat n) \<longrightarrow> acc = pushed es)"
proof -
  let ?w = "NewWriter (Some t) n"
  have "uw_db ?w \<noteq> None" "\<not> uw_closed ?w" "length (uw_logs ?w) \<le> uw_buffer ?w" by (simp_all add: NewWriter_def)
  moreover have "\<forall>y. Work y \<in> set es \<longrightarrow> (\<forall>e. \<exists>r. (if fst y then [usage_insert numeric (snd y) e] else []) = [r] \<and> ur_entry r = e
      \<and> row_of numeric tm r)"
    using assms usage_rows_single [where numeric = numeric and tm = tm] unfolding writes_ok_def by blast
  ultimately obtain w1 acc new where r: "log_run Writer_Record (Writer_process numeric) es ?w = Some w1" "uw_db w1 \<noteq> None"
    "\<not> uw_closed w1" "subseq acc (map (\<lambda>e. e) (pushed es))"
    "length (uw_logs ?w) + length (pushed es) \<le> uw_buffer ?w \<longrightarrow> acc = map (\<lambda>e. e) (pushed es)"
    "usage_rows w1 = usage_rows ?w @ new" "map ur_entry new @ uw_logs w1 = uw_logs ?w @ acc" "list_all (row_of numeric tm) new"
    using usage.run_written [where numeric = numeric and s = ?w and es = es and key = ur_entry and P = "row_of numeric tm"] by blast
  from Writer_Close_written [OF r(2,3), of x tm numeric] assms obtain w2 new2 where "Writer_Close numeric x w1 = Some w2"
    "usage_rows w2 = usage_rows w1 @ new2" "map ur_entry new2 = uw_logs w1" "list_all (row_of numeric tm) new2"
    by (auto simp: writes_ok_def)
  with r show ?thesis
    by (intro exI [of _ w1] exI [of _ w2] exI [of _ acc] exI [of _ "new @ new2"]) (simp add: NewWriter_def usage_rows_def)
qed


definition example_entry :: "string \<Rightarrow> f64 \<Rightarrow> Entry" where
  "example_entry k cost = \<lparr>ue_RequestID = ''r'', ue_ProjectID = ''p'', ue_VirtualKeyID = k, ue_Model = ''m'',
     ue_Provider = ''openai'', ue_ProviderModel = ''m'', ue_PromptTokens = 1, ue_CompletionTokens = 1, ue_TotalTokens = 2,
     ue_CostUSD = cost, ue_CacheHit = False, ue_Stream = False, ue_Attempts = 1, ue_DurationMS = 5, ue_Error = ''''\<rparr>"

definition example_run :: "(Entry, bool \<times> gotime) log_step list" where
  "example_run = [Push (example_entry ''k'' 2), Push (example_entry ''l'' 7), Work (True, 50), Push (example_entry ''k'' 3)]"


lemma row_key:
  "row_of numeric tm r \<Longrightarrow> ur_key r = nullableString (ue_VirtualKeyID (ur_entry r)) \<and> ur_cost r = numeric (ue_CostUSD (ur_entry r))"
  unfolding row_of_def usage_insert_def by (metis usage_row.select_convs(3) usage_row.select_convs(4))

lemma spend_of_rows:
  assumes "list_all (row_of numeric (\<lambda>u. period_start trunc period now \<le> u)) rs" and "keyID \<noteq> ''''"
  shows "GetSpendForCurrentPeriod trunc now rs keyID period
    = float64 (sum_list (map (\<lambda>e. numeric (ue_CostUSD e)) (filter (\<lambda>e. ue_VirtualKeyID e = keyID) (map ur_entry rs))))"
proof -
  have "map ur_cost (filter (\<lambda>r. ur_key r = Some keyID \<and> period_start trunc period now \<le> ur_created r) rs)
      = map (\<lambda>e. numeric (ue_CostUSD e)) (filter (\<lambda>e. ue_VirtualKeyID e = keyID) (map ur_entry rs))"
    using assms
  proof (induction rs)
    case (Cons r rs)
    then have "ur_key r = nullableString (ue_VirtualKeyID (ur_entry r))" and "ur_cost r = numeric (ue_CostUSD (ur_entry r))"
      
      using row_key [of numeric _ r] by auto
    with Cons show ?case by (auto simp: row_of_def nullableString_def)
  qed simp
  then show ?thesis by (simp add: GetSpendForCurrentPeriod_def Let_def)
qed



end
