(* ===== verification/Regexp.thy ===== *)
theory Regexp
  imports Gateway_Prelude
begin

text \<open>
  What the guardrails use of package \<^verbatim>\<open>regexp\<close>: the syntax tree of an expression, its matches in the order of preference
  (leftmost, then as a backtracking search would find them), \<^verbatim>\<open>MatchString\<close> and \<^verbatim>\<open>ReplaceAllString\<close>. Parsing the text
  of an expression is a parameter of the components that compile one. In a repetition without upper bound an iteration has to
  consume a character.
\<close>

section \<open>Expressions\<close>

datatype regexp =
    RClass "(char \<times> char) list"
  | RBound
  | RSeq regexp regexp
  | RAlt regexp regexp
  | REmpty
  | RRepeat nat "nat option" regexp

definition in_class :: "(char \<times> char) list \<Rightarrow> char \<Rightarrow> bool" where
  "in_class rs c \<longleftrightarrow> list_ex (\<lambda>(lo, hi). (of_char lo :: nat) \<le> of_char c \<and> (of_char c :: nat) \<le> of_char hi) rs"

definition word_class :: "(char \<times> char) list" where
  "word_class = [(CHR ''0'', CHR ''9''), (CHR ''A'', CHR ''Z''), (CHR ''a'', CHR ''z''), (CHR ''_'', CHR ''_'')]"

definition word_at :: "string \<Rightarrow> nat \<Rightarrow> bool" where
  "word_at s i \<longleftrightarrow> i < length s \<and> in_class word_class (s ! i)"

definition boundary :: "string \<Rightarrow> nat \<Rightarrow> bool" where
  "boundary s i \<longleftrightarrow> (0 < i \<and> word_at s (i - 1)) \<noteq> word_at s i"

primrec optional :: "(nat \<Rightarrow> nat list) \<Rightarrow> nat \<Rightarrow> nat \<Rightarrow> nat list" where
  "optional e 0 i = [i]"
| "optional e (Suc k) i = concat (map (\<lambda>j. if j = i then [] else optional e k j) (e i)) @ [i]"

primrec required :: "(nat \<Rightarrow> nat list) \<Rightarrow> nat \<Rightarrow> nat \<Rightarrow> nat \<Rightarrow> nat list" where
  "required e 0 k i = optional e k i"
| "required e (Suc m) k i = concat (map (required e m k) (e i))"

text \<open>The ends of the matches that start at a position, the preferred one first.\<close>

fun match_ends :: "regexp \<Rightarrow> string \<Rightarrow> nat \<Rightarrow> nat list" where
  "match_ends (RClass rs) s i = (if i < length s \<and> in_class rs (s ! i) then [Suc i] else [])"
| "match_ends RBound s i = (if boundary s i then [i] else [])"
| "match_ends (RSeq a b) s i = concat (map (match_ends b s) (match_ends a s i))"
| "match_ends (RAlt a b) s i = match_ends a s i @ match_ends b s i"
| "match_ends REmpty s i = [i]"
| "match_ends (RRepeat m n r) s i =
     required (match_ends r s) m (case n of None \<Rightarrow> length s - i | Some n \<Rightarrow> n - m) i"

section \<open>Searching and replacing\<close>

definition find_match :: "regexp \<Rightarrow> string \<Rightarrow> nat \<Rightarrow> (nat \<times> nat) option" where
  "find_match r s pos =
     map_option (\<lambda>i. (i, hd (match_ends r s i))) (find (\<lambda>i. match_ends r s i \<noteq> []) [pos..<Suc (length s)])"

definition MatchString :: "regexp \<Rightarrow> string \<Rightarrow> bool" where
  "MatchString r s \<longleftrightarrow> find_match r s 0 \<noteq> None"

text \<open>The loop of \<^verbatim>\<open>ReplaceAllString\<close> with its variables \<^verbatim>\<open>lastMatchEnd\<close> and \<^verbatim>\<open>searchPos\<close>; \<open>repl\<close> is the text put in
  place of a match.\<close>

function replace_from :: "regexp \<Rightarrow> (string \<Rightarrow> string) \<Rightarrow> string \<Rightarrow> nat \<Rightarrow> nat \<Rightarrow> string" where
  "replace_from r repl s lastEnd pos =
     (if length s < pos then drop lastEnd s
      else case find_match r s pos of
             None \<Rightarrow> drop lastEnd s
           | Some (a, b) \<Rightarrow>
               take (a - lastEnd) (drop lastEnd s) @ (if lastEnd < b \<or> a = 0 then repl (take (b - a) (drop a s)) else [])
               @ replace_from r repl s b (if b < Suc pos then Suc pos else b))"
  by pat_completeness auto
termination
  by (relation "measure (\<lambda>(r, repl, s, lastEnd, pos). Suc (length s) - pos)") auto

declare replace_from.simps [simp del]

definition ReplaceAllString :: "(string \<Rightarrow> string \<Rightarrow> string) \<Rightarrow> regexp \<Rightarrow> string \<Rightarrow> string \<Rightarrow> string" where
  "ReplaceAllString expand r s replacement =
     (if MatchString r s
      then replace_from r (\<lambda>m. if CHR ''$'' \<in> set replacement then expand replacement m else replacement) s 0 0
      else s)"

lemma find_match_SomeD: "find_match r s pos = Some (a, b) \<Longrightarrow> pos \<le> a \<and> a \<le> length s \<and> b \<in> set (match_ends r s a)"
  by (auto simp: find_match_def dest!: find_SomeD)

lemma MatchString_iff: "MatchString r s \<longleftrightarrow> (\<exists>i \<le> length s. match_ends r s i \<noteq> [])"
  by (auto simp: MatchString_def find_match_def find_None_iff less_Suc_eq_le simp del: upt_Suc)

end
