(* ===== verification/Guardrails.thy ===== *)
theory Guardrails
  imports Regexp Gateway_Config Async_Log
begin

text \<open>
  The guardrail pipeline of \<^verbatim>\<open>internal/guardrails\<close>: the stages of \<^verbatim>\<open>stages.go\<close>, \<^verbatim>\<open>jsonschema.go\<close>, \<^verbatim>\<open>webhook.go\<close> and
  the plugin adapter, the pipeline of \<^verbatim>\<open>pipeline.go\<close> and the construction from a configuration of \<^verbatim>\<open>factory.go\<close>. A
  stage is a value of one datatype, since the set of stages is closed. Outside the repository are the HTTP service
  of a webhook, the JSON schema package, the plugins and the parser of regular expressions; they are the fields of an environment.

  The lemmas show that the pipeline lets a request pass only if every stage passed what it was shown, that what is forwarded
  after a keyword stage holds no blocked keyword, and where a redaction is lost.
\<close>

section \<open>Messages and results\<close>

record Message =
  gm_Role :: string
  gm_Content :: string

datatype ResultAction = Pass | Block | Redact

record Result =
  rs_Action :: ResultAction
  rs_Message :: string
  rs_StageName :: string
  rs_RedactedMessages :: "Message list"

definition result_pass :: Result where
  "result_pass = \<lparr>rs_Action = Pass, rs_Message = '''', rs_StageName = '''', rs_RedactedMessages = []\<rparr>"

definition result_block :: "string \<Rightarrow> string \<Rightarrow> Result" where
  "result_block stage msg = \<lparr>rs_Action = Block, rs_Message = msg, rs_StageName = stage, rs_RedactedMessages = []\<rparr>"

definition redact_input :: "string \<Rightarrow> Message list \<Rightarrow> Result" where
  "redact_input stage msgs = \<lparr>rs_Action = Redact, rs_Message = '''', rs_StageName = stage, rs_RedactedMessages = msgs\<rparr>"

definition redact_output :: "string \<Rightarrow> string \<Rightarrow> Result" where
  "redact_output stage content = \<lparr>rs_Action = Redact, rs_Message = content, rs_StageName = stage, rs_RedactedMessages = []\<rparr>"

lemmas result_defs = result_pass_def result_block_def redact_input_def redact_output_def

section \<open>Personal data\<close>

record PIIPattern =
  pii_Name :: string
  pii_Pattern :: regexp
  pii_Replacement :: string

definition digits_n :: "nat \<Rightarrow> regexp" where
  "digits_n n = RRepeat n (Some n) (RClass [(CHR ''0'', CHR ''9'')])"

definition space_class :: "(char \<times> char) list" where
  "space_class = [(CHR 0x09, CHR 0x0A), (CHR 0x0C, CHR 0x0D), (CHR '' '', CHR '' '')]"

definition rchar :: "char \<Rightarrow> regexp" where
  "rchar c = RClass [(c, c)]"

definition ropt :: "regexp \<Rightarrow> regexp" where
  "ropt r = RRepeat 0 (Some 1) r"

fun rseq :: "regexp list \<Rightarrow> regexp" where
  "rseq [] = REmpty"
| "rseq (r # rs) = RSeq r (rseq rs)"

definition dash_space :: regexp where
  "dash_space = ropt (RClass ((CHR ''-'', CHR ''-'') # space_class))"

definition dash_dot_space :: regexp where
  "dash_dot_space = ropt (RClass ((CHR ''-'', CHR ''-'') # (CHR ''.'', CHR ''.'') # space_class))"

definition alnum_class :: "(char \<times> char) list" where
  "alnum_class = [(CHR ''A'', CHR ''Z''), (CHR ''a'', CHR ''z''), (CHR ''0'', CHR ''9'')]"

definition single :: "string \<Rightarrow> (char \<times> char) list" where
  "single cs = map (\<lambda>c. (c, c)) cs"

definition octet :: regexp where
  "octet = RRepeat 1 (Some 3) (RClass [(CHR ''0'', CHR ''9'')])"

definition builtinPII :: "PIIPattern list" where
  "builtinPII =
     [\<lparr>pii_Name = ''credit_card'',
       pii_Pattern = rseq [RBound, digits_n 4, dash_space, digits_n 4, dash_space, digits_n 4, dash_space, digits_n 4, RBound],
       pii_Replacement = ''[REDACTED_CC]''\<rparr>,
      \<lparr>pii_Name = ''ssn'',
       pii_Pattern = rseq [RBound, digits_n 3, rchar (CHR ''-''), digits_n 2, rchar (CHR ''-''), digits_n 4, RBound],
       pii_Replacement = ''[REDACTED_SSN]''\<rparr>,
      \<lparr>pii_Name = ''email'',
       pii_Pattern = rseq [RBound, RRepeat 1 None (RClass (alnum_class @ single ''._%+-'')), rchar (CHR ''@''),
          RRepeat 1 None (RClass (alnum_class @ single ''.-'')), rchar (CHR ''.''),
          RRepeat 2 None (RClass [(CHR ''A'', CHR ''Z''), (CHR ''a'', CHR ''z'')]), RBound],
       pii_Replacement = ''[REDACTED_EMAIL]''\<rparr>,
      \<lparr>pii_Name = ''phone'',
       pii_Pattern = rseq [RBound, ropt (rseq [ropt (rchar (CHR ''+'')), rchar (CHR ''1''), dash_dot_space]),
          ropt (rchar (CHR ''('')), digits_n 3, ropt (rchar (CHR '')'')), dash_dot_space, digits_n 3, dash_dot_space,
          digits_n 4, RBound],
       pii_Replacement = ''[REDACTED_PHONE]''\<rparr>,
      \<lparr>pii_Name = ''ip_address'',
       pii_Pattern = rseq [RBound, octet, rchar (CHR ''.''), octet, rchar (CHR ''.''), octet, rchar (CHR ''.''), octet, RBound],
       pii_Replacement = ''[REDACTED_IP]''\<rparr>]"

record PIIStage =
  ps_types :: "string list"
  ps_action :: ResultAction
  ps_patterns :: "PIIPattern list"

definition filterPIIPatterns :: "string list \<Rightarrow> PIIPattern list" where
  "filterPIIPatterns types =
     (if types = [] then builtinPII
      else filter (\<lambda>p. list_ex (\<lambda>t. strings_ToLower t = pii_Name p) types) builtinPII)"

definition NewPIIStage :: "string list \<Rightarrow> string \<Rightarrow> PIIStage" where
  "NewPIIStage types action =
     (let patterns = filterPIIPatterns types
      in \<lparr>ps_types = types, ps_action = (if strings_EqualFold action ''block'' then Block else Redact),
          ps_patterns = (if patterns = [] then builtinPII else patterns)\<rparr>)"

text \<open>The inner loop over the patterns: whether one was found, and the content.\<close>

fun pii_scan :: "(string \<Rightarrow> string \<Rightarrow> string) \<Rightarrow> ResultAction \<Rightarrow> PIIPattern list \<Rightarrow> string \<Rightarrow> bool \<times> string" where
  "pii_scan expand action [] content = (False, content)"
| "pii_scan expand action (p # ps) content =
     (if MatchString (pii_Pattern p) content
      then let content = (if action = Redact then ReplaceAllString expand (pii_Pattern p) content (pii_Replacement p) else content)
           in (True, snd (pii_scan expand action ps content))
      else pii_scan expand action ps content)"

definition PII_CheckInput :: "(string \<Rightarrow> string \<Rightarrow> string) \<Rightarrow> PIIStage \<Rightarrow> Message list \<Rightarrow> Result" where
  "PII_CheckInput expand s messages =
     (let scanned = map (\<lambda>m. (pii_scan expand (ps_action s) (ps_patterns s) (gm_Content m))) messages
      in if \<not> list_ex fst scanned then result_pass
         else if ps_action s = Block then result_block ''pii'' ''PII detected in request''
         else redact_input ''pii'' (map2 (\<lambda>m x. \<lparr>gm_Role = gm_Role m, gm_Content = snd x\<rparr>) messages scanned))"

definition PII_CheckOutput :: "(string \<Rightarrow> string \<Rightarrow> string) \<Rightarrow> PIIStage \<Rightarrow> string \<Rightarrow> Result" where
  "PII_CheckOutput expand s content =
     (case pii_scan expand (ps_action s) (ps_patterns s) content of
        (found, result) \<Rightarrow>
          if \<not> found then result_pass
          else if ps_action s = Block then result_block ''pii'' ''PII detected in response''
          else redact_output ''pii'' result)"

section \<open>Regular expressions\<close>

record RegexRule =
  rr_Name :: string
  rr_Pattern :: string
  rr_Action :: string
  rr_Replacement :: string

record RegexStage =
  rx_rules :: "(RegexRule \<times> regexp) list"
  rx_blockMsg :: string

fun compile_rules :: "(string \<Rightarrow> regexp option) \<Rightarrow> RegexRule list \<Rightarrow> string + (RegexRule \<times> regexp) list" where
  "compile_rules compile [] = Inr []"
| "compile_rules compile (r # rs) =
     (case compile (rr_Pattern r) of
        None \<Rightarrow> Inl (''invalid regex '' @ rr_Name r)
      | Some re \<Rightarrow> (case compile_rules compile rs of Inl err \<Rightarrow> Inl err | Inr cs \<Rightarrow> Inr ((r, re) # cs)))"

definition NewRegexStage :: "(string \<Rightarrow> regexp option) \<Rightarrow> RegexRule list \<Rightarrow> string \<Rightarrow> string + RegexStage" where
  "NewRegexStage compile rules blockMsg =
     (case compile_rules compile rules of
        Inl err \<Rightarrow> Inl err
      | Inr compiled \<Rightarrow> Inr \<lparr>rx_rules = compiled,
            rx_blockMsg = (if blockMsg = '''' then ''request contains prohibited content'' else blockMsg)\<rparr>)"

definition rule_block :: "RegexStage \<Rightarrow> RegexRule \<Rightarrow> Result" where
  "rule_block s rule =
     result_block ''regex'' (if rr_Name rule \<noteq> '''' then rx_blockMsg s @ '': '' @ rr_Name rule else rx_blockMsg s)"

definition rule_content :: "(string \<Rightarrow> string \<Rightarrow> string) \<Rightarrow> RegexRule \<times> regexp \<Rightarrow> string \<Rightarrow> string" where
  "rule_content expand = (\<lambda>(rule, re) content.
     if MatchString re content \<and> strings_ToLower (rr_Action rule) = ''redact''
     then ReplaceAllString expand re content (if rr_Replacement rule = '''' then ''[REDACTED]'' else rr_Replacement rule)
     else content)"

definition rule_blocks :: "RegexRule \<times> regexp \<Rightarrow> string \<Rightarrow> bool" where
  "rule_blocks = (\<lambda>(rule, re) content. MatchString re content \<and> strings_ToLower (rr_Action rule) = ''block'')"

text \<open>The loop over the rules; a rule is applied to every message before the next rule.\<close>

fun regex_input ::
  "(string \<Rightarrow> string \<Rightarrow> string) \<Rightarrow> RegexStage \<Rightarrow> (RegexRule \<times> regexp) list \<Rightarrow> bool \<Rightarrow> Message list \<Rightarrow> Result" where
  "regex_input expand s [] anyMatch msgs = (if \<not> anyMatch then result_pass else redact_input ''regex'' msgs)"
| "regex_input expand s (r # rs) anyMatch msgs =
     (if list_ex (\<lambda>m. rule_blocks r (gm_Content m)) msgs then rule_block s (fst r)
      else regex_input expand s rs (anyMatch \<or> list_ex (\<lambda>m. MatchString (snd r) (gm_Content m)) msgs)
             (map (\<lambda>m. m\<lparr>gm_Content := rule_content expand r (gm_Content m)\<rparr>) msgs))"

fun regex_output ::
  "(string \<Rightarrow> string \<Rightarrow> string) \<Rightarrow> RegexStage \<Rightarrow> (RegexRule \<times> regexp) list \<Rightarrow> bool \<Rightarrow> string \<Rightarrow> Result" where
  "regex_output expand s [] anyMatch content = (if \<not> anyMatch then result_pass else redact_output ''regex'' content)"
| "regex_output expand s (r # rs) anyMatch content =
     (if rule_blocks r content then rule_block s (fst r)
      else regex_output expand s rs (anyMatch \<or> MatchString (snd r) content) (rule_content expand r content))"

section \<open>Keywords and lengths\<close>

record KeywordStage =
  kw_blocklist :: "string list"
  kw_action :: ResultAction
  kw_blockMsg :: string

definition NewKeywordStage :: "string list \<Rightarrow> string \<Rightarrow> string \<Rightarrow> KeywordStage" where
  "NewKeywordStage blocklist action blockMsg =
     \<lparr>kw_blocklist = blocklist, kw_action = (if strings_EqualFold action ''log'' then Pass else Block),
      kw_blockMsg = (if blockMsg = '''' then ''request contains blocked content'' else blockMsg)\<rparr>"

definition has_keyword :: "KeywordStage \<Rightarrow> string \<Rightarrow> bool" where
  "has_keyword s content \<longleftrightarrow>
     list_ex (\<lambda>kw. strings_Contains (strings_ToLower content) (strings_ToLower kw)) (kw_blocklist s)"

definition keyword_result :: "KeywordStage \<Rightarrow> Result" where
  "keyword_result s = \<lparr>rs_Action = kw_action s, rs_Message = kw_blockMsg s, rs_StageName = ''keyword'', rs_RedactedMessages = []\<rparr>"

definition Keyword_CheckInput :: "KeywordStage \<Rightarrow> Message list \<Rightarrow> Result" where
  "Keyword_CheckInput s messages =
     (if list_ex (\<lambda>m. has_keyword s (gm_Content m)) messages then keyword_result s else result_pass)"

definition Keyword_CheckOutput :: "KeywordStage \<Rightarrow> string \<Rightarrow> Result" where
  "Keyword_CheckOutput s content = (if has_keyword s content then keyword_result s else result_pass)"

record LengthStage =
  ln_maxChars :: int
  ln_minChars :: int
  ln_direction :: string

definition NewLengthStage :: "int \<Rightarrow> int \<Rightarrow> string \<Rightarrow> LengthStage" where
  "NewLengthStage minChars maxChars direction = \<lparr>ln_maxChars = maxChars, ln_minChars = minChars, ln_direction = direction\<rparr>"

definition check_length :: "string \<Rightarrow> LengthStage \<Rightarrow> int \<Rightarrow> Result" where
  "check_length what s n =
     (if 0 < ln_minChars s \<and> n < ln_minChars s
      then result_block ''length'' (what @ '' too short: '' @ itoa n @ '' chars (minimum '' @ itoa (ln_minChars s) @ '')'')
      else if 0 < ln_maxChars s \<and> ln_maxChars s < n
      then result_block ''length'' (what @ '' too long: '' @ itoa n @ '' chars (maximum '' @ itoa (ln_maxChars s) @ '')'')
      else result_pass)"

definition Length_CheckInput :: "LengthStage \<Rightarrow> Message list \<Rightarrow> Result" where
  "Length_CheckInput s messages = check_length ''input'' s (sum_list (map (\<lambda>m. int (length (gm_Content m))) messages))"

definition Length_CheckOutput :: "LengthStage \<Rightarrow> string \<Rightarrow> Result" where
  "Length_CheckOutput s content = check_length ''output'' s (int (length content))"

section \<open>Webhooks, schemas and plugins\<close>

text \<open>How a call of the webhook ends: the request cannot be built, the transport fails (with the request's own deadline
  exceeded or not), a status other than 200, a body that cannot be read, or a body, \<^term>\<open>None\<close> when it is not JSON.\<close>

datatype webhook_reply =
    RequestError
  | DoError bool string
  | BadStatus int
  | ReadError
  | Body "json option"

record WebhookStage =
  wh_url :: string
  wh_timeout :: duration
  wh_blockOnError :: bool
  wh_blockOnTimeout :: bool

record webhookResponse =
  wr_Action :: string
  wr_Message :: string
  wr_Redacted :: string

record JSONSchemaStage =
  js_schema :: string
  js_strict :: bool

record plugin =
  pl_Name :: string
  pl_ProcessInput :: "string \<Rightarrow> string + string option"
  pl_ProcessOutput :: "string \<Rightarrow> string + string option"

record 'w gr_env =
  ge_expand :: "string \<Rightarrow> string \<Rightarrow> string"
  ge_post :: "string \<Rightarrow> string \<Rightarrow> string \<Rightarrow> 'w \<Rightarrow> webhook_reply \<times> 'w"
  ge_validate :: "string \<Rightarrow> string \<Rightarrow> string list option"

definition NewWebhookStage :: "string \<Rightarrow> int \<Rightarrow> bool \<Rightarrow> bool \<Rightarrow> WebhookStage" where
  "NewWebhookStage url timeoutMS blockOnError blockOnTimeout =
     \<lparr>wh_url = url, wh_timeout = (if 0 < timeoutMS then wrap64 (timeoutMS * time_Millisecond) else 250 * time_Millisecond),
      wh_blockOnError = blockOnError, wh_blockOnTimeout = blockOnTimeout\<rparr>"

definition zero_webhookResponse :: webhookResponse where
  "zero_webhookResponse = \<lparr>wr_Action = '''', wr_Message = '''', wr_Redacted = ''''\<rparr>"

definition unmarshal_webhookResponse :: "webhookResponse decoder" where
  "unmarshal_webhookResponse = decode_struct
     [(''action'', \<lambda>j v. map_option (\<lambda>x. v\<lparr>wr_Action := x\<rparr>) (decode_string j (wr_Action v))),
      (''message'', \<lambda>j v. map_option (\<lambda>x. v\<lparr>wr_Message := x\<rparr>) (decode_string j (wr_Message v))),
      (''redacted'', \<lambda>j v. map_option (\<lambda>x. v\<lparr>wr_Redacted := x\<rparr>) (decode_string j (wr_Redacted v)))]"

definition webhook_fail :: "bool \<Rightarrow> string \<Rightarrow> Result" where
  "webhook_fail blocks msg = (if blocks then result_block ''webhook'' msg else result_pass)"

definition webhook_answer :: "webhookResponse \<Rightarrow> Result" where
  "webhook_answer wr =
     (if wr_Action wr = ''block''
      then result_block ''webhook'' (if wr_Message wr = '''' then ''blocked by webhook'' else wr_Message wr)
      else if wr_Action wr = ''redact''
      then if wr_Redacted wr \<noteq> '''' then redact_output ''webhook'' (wr_Redacted wr) else result_pass
      else result_pass)"

definition webhook_call :: "'w gr_env \<Rightarrow> WebhookStage \<Rightarrow> string \<Rightarrow> string \<Rightarrow> 'w \<Rightarrow> Result \<times> 'w" where
  "webhook_call E s direction content w =
     (case ge_post E (wh_url s) direction content w of
        (reply, w') \<Rightarrow>
          ((case reply of
              RequestError \<Rightarrow> webhook_fail (wh_blockOnError s) ''webhook request error''
            | DoError deadline msg \<Rightarrow>
                if deadline then webhook_fail (wh_blockOnTimeout s) ''webhook timeout''
                else webhook_fail (wh_blockOnError s) (''webhook error: '' @ msg)
            | BadStatus n \<Rightarrow> webhook_fail (wh_blockOnError s) (''webhook returned '' @ itoa n)
            | ReadError \<Rightarrow> webhook_fail (wh_blockOnError s) ''webhook response read error''
            | Body body \<Rightarrow>
                (case Option.bind body (\<lambda>j. unmarshal_webhookResponse j zero_webhookResponse) of
                   None \<Rightarrow> webhook_fail (wh_blockOnError s) ''webhook invalid response''
                 | Some wr \<Rightarrow> webhook_answer wr)), w'))"

fun join_lines :: "string list \<Rightarrow> string" where
  "join_lines [] = ''''"
| "join_lines [x] = x"
| "join_lines (x # xs) = x @ CHR 0x0A # join_lines xs"

fun join_with :: "string \<Rightarrow> string list \<Rightarrow> string" where
  "join_with sep [] = ''''"
| "join_with sep [x] = x"
| "join_with sep (x # xs) = x @ sep @ join_with sep xs"

definition Schema_CheckOutput :: "'w gr_env \<Rightarrow> JSONSchemaStage \<Rightarrow> string \<Rightarrow> Result" where
  "Schema_CheckOutput E s content =
     (let trimmed = strings_TrimSpace content
      in if \<not> strings_HasPrefix trimmed ''{'' \<and> \<not> strings_HasPrefix trimmed ''['' then result_pass
         else case ge_validate E (js_schema s) content of
                None \<Rightarrow> result_pass
              | Some errs \<Rightarrow>
                  if errs = [] then result_pass
                  else if js_strict s
                  then result_block ''json_schema'' (''JSON schema validation failed: '' @ join_with ''; '' errs)
                  else result_pass)"

definition plugin_result :: "plugin \<Rightarrow> string + string option \<Rightarrow> Result" where
  "plugin_result p r =
     (case r of
        Inl err \<Rightarrow> result_block (pl_Name p) err
      | Inr (Some reason) \<Rightarrow> result_block (pl_Name p) reason
      | Inr None \<Rightarrow> result_pass\<lparr>rs_StageName := pl_Name p\<rparr>)"

section \<open>Stages\<close>

datatype Stage =
    SPII PIIStage
  | SRegex RegexStage
  | SKeyword KeywordStage
  | SLength LengthStage
  | SWebhook WebhookStage
  | SSchema JSONSchemaStage
  | SPlugin plugin

fun Stage_Name :: "Stage \<Rightarrow> string" where
  "Stage_Name (SPII s) = ''pii''"
| "Stage_Name (SRegex s) = ''regex''"
| "Stage_Name (SKeyword s) = ''keyword''"
| "Stage_Name (SLength s) = ''length''"
| "Stage_Name (SWebhook s) = ''webhook''"
| "Stage_Name (SSchema s) = ''json_schema''"
| "Stage_Name (SPlugin p) = pl_Name p"

fun Stage_CheckInput :: "'w gr_env \<Rightarrow> Stage \<Rightarrow> Message list \<Rightarrow> 'w \<Rightarrow> (string + Result) \<times> 'w" where
  "Stage_CheckInput E (SPII s) msgs w = (Inr (PII_CheckInput (ge_expand E) s msgs), w)"
| "Stage_CheckInput E (SRegex s) msgs w = (Inr (regex_input (ge_expand E) s (rx_rules s) False msgs), w)"
| "Stage_CheckInput E (SKeyword s) msgs w = (Inr (Keyword_CheckInput s msgs), w)"
| "Stage_CheckInput E (SLength s) msgs w = (Inr (Length_CheckInput s msgs), w)"
| "Stage_CheckInput E (SWebhook s) msgs w = apfst Inr (webhook_call E s ''input'' (join_lines (map gm_Content msgs)) w)"
| "Stage_CheckInput E (SSchema s) msgs w = (Inr result_pass, w)"
| "Stage_CheckInput E (SPlugin p) msgs w = (Inr (plugin_result p (pl_ProcessInput p (concat (map gm_Content msgs)))), w)"

fun Stage_CheckOutput :: "'w gr_env \<Rightarrow> Stage \<Rightarrow> string \<Rightarrow> 'w \<Rightarrow> (string + Result) \<times> 'w" where
  "Stage_CheckOutput E (SPII s) content w = (Inr (PII_CheckOutput (ge_expand E) s content), w)"
| "Stage_CheckOutput E (SRegex s) content w = (Inr (regex_output (ge_expand E) s (rx_rules s) False content), w)"
| "Stage_CheckOutput E (SKeyword s) content w = (Inr (Keyword_CheckOutput s content), w)"
| "Stage_CheckOutput E (SLength s) content w = (Inr (Length_CheckOutput s content), w)"
| "Stage_CheckOutput E (SWebhook s) content w = apfst Inr (webhook_call E s ''output'' content w)"
| "Stage_CheckOutput E (SSchema s) content w = (Inr (Schema_CheckOutput E s content), w)"
| "Stage_CheckOutput E (SPlugin p) content w = (Inr (plugin_result p (pl_ProcessOutput p content)), w)"

section \<open>The pipeline\<close>

record Pipeline =
  pp_inputStages :: "Stage list"
  pp_outputStages :: "Stage list"

definition NewPipeline :: "Stage list \<Rightarrow> Stage list \<Rightarrow> Pipeline" where
  "NewPipeline inputStages outputStages = \<lparr>pp_inputStages = inputStages, pp_outputStages = outputStages\<rparr>"

definition messagesDiffer :: "Message list \<Rightarrow> Message list \<Rightarrow> bool" where
  "messagesDiffer a b \<longleftrightarrow> length a \<noteq> length b
     \<or> list_ex (\<lambda>(x, y). gm_Role x \<noteq> gm_Role y \<or> gm_Content x \<noteq> gm_Content y) (zip a b)"

text \<open>The event a block hands to the audit logger.\<close>

definition block_event :: "string \<Rightarrow> Result \<Rightarrow> Event" where
  "block_event direction result =
     \<lparr>ae_Timestamp = time_zero, ae_EventType = ''guardrail.block'', ae_Actor = ''system'', ae_Action = ''block'',
      ae_Resource = rs_StageName result, ae_Outcome = ''blocked'', ae_RequestID = '''',
      ae_Metadata = [(''direction'', JStr direction), (''reason'', JStr (rs_Message result))]\<rparr>"

fun input_loop ::
  "'w gr_env \<Rightarrow> Stage list \<Rightarrow> Message list \<Rightarrow> Message list \<Rightarrow> 'w \<Rightarrow> (string + Result) \<times> Event list \<times> 'w" where
  "input_loop E [] messages current w =
     (Inr (if current \<noteq> [] \<and> messagesDiffer messages current then redact_input ''pipeline'' current else result_pass), [], w)"
| "input_loop E (stage # stages) messages current w =
     (case Stage_CheckInput E stage current w of
        (Inl err, w') \<Rightarrow> (Inl (''guardrail stage '' @ Stage_Name stage @ '' failed: '' @ err), [], w')
      | (Inr result, w') \<Rightarrow>
          let result = result\<lparr>rs_StageName := Stage_Name stage\<rparr>
          in (case rs_Action result of
                Block \<Rightarrow> (Inr result, [block_event ''input'' result], w')
              | Redact \<Rightarrow> input_loop E stages messages (rs_RedactedMessages result) w'
              | Pass \<Rightarrow> input_loop E stages messages current w'))"

definition CheckInput :: "'w gr_env \<Rightarrow> Pipeline \<Rightarrow> Message list \<Rightarrow> 'w \<Rightarrow> (string + Result) \<times> Event list \<times> 'w" where
  "CheckInput E p messages w =
     (if pp_inputStages p = [] then (Inr result_pass, [], w) else input_loop E (pp_inputStages p) messages messages w)"

fun output_loop :: "'w gr_env \<Rightarrow> Stage list \<Rightarrow> string \<Rightarrow> string \<Rightarrow> 'w \<Rightarrow> (string + Result) \<times> Event list \<times> 'w" where
  "output_loop E [] content current w =
     (Inr (if current \<noteq> content then redact_output ''pipeline'' current else result_pass), [], w)"
| "output_loop E (stage # stages) content current w =
     (case Stage_CheckOutput E stage current w of
        (Inl err, w') \<Rightarrow> (Inl (''guardrail stage '' @ Stage_Name stage @ '' failed: '' @ err), [], w')
      | (Inr result, w') \<Rightarrow>
          let result = result\<lparr>rs_StageName := Stage_Name stage\<rparr>
          in (case rs_Action result of
                Block \<Rightarrow> (Inr result, [block_event ''output'' result], w')
              | Redact \<Rightarrow> output_loop E stages content (rs_Message result) w'
              | Pass \<Rightarrow> output_loop E stages content current w'))"

definition CheckOutput :: "'w gr_env \<Rightarrow> Pipeline \<Rightarrow> string \<Rightarrow> 'w \<Rightarrow> (string + Result) \<times> Event list \<times> 'w" where
  "CheckOutput E p content w =
     (if pp_outputStages p = [] then (Inr result_pass, [], w) else output_loop E (pp_outputStages p) content content w)"

definition HasInputStages :: "Pipeline \<Rightarrow> bool" where
  "HasInputStages p \<longleftrightarrow> pp_inputStages p \<noteq> []"

definition HasOutputStages :: "Pipeline \<Rightarrow> bool" where
  "HasOutputStages p \<longleftrightarrow> pp_outputStages p \<noteq> []"

definition InputStages :: "Pipeline \<Rightarrow> string list" where
  "InputStages p = map Stage_Name (pp_inputStages p)"

definition OutputStages :: "Pipeline \<Rightarrow> string list" where
  "OutputStages p = map Stage_Name (pp_outputStages p)"

section \<open>Construction\<close>

definition getString :: "(string, json) gomap \<Rightarrow> string \<Rightarrow> string" where
  "getString m key = (case gm_get m key of Some (JStr s) \<Rightarrow> s | _ \<Rightarrow> '''')"

definition getStringDefault :: "(string, json) gomap \<Rightarrow> string \<Rightarrow> string \<Rightarrow> string" where
  "getStringDefault m key dflt = (let s = getString m key in if s = '''' then dflt else s)"

definition getIntDefault :: "(string, json) gomap \<Rightarrow> string \<Rightarrow> int \<Rightarrow> int" where
  "getIntDefault m key dflt = (case gm_get m key of Some (JInt n) \<Rightarrow> n | Some (JDec x) \<Rightarrow> int_of_float x | _ \<Rightarrow> dflt)"

definition getBoolDefault :: "(string, json) gomap \<Rightarrow> string \<Rightarrow> bool \<Rightarrow> bool" where
  "getBoolDefault m key dflt = (case gm_get m key of Some (JBool b) \<Rightarrow> b | _ \<Rightarrow> dflt)"

definition get_strings :: "(string, json) gomap \<Rightarrow> string \<Rightarrow> string list" where
  "get_strings m key =
     (case gm_get m key of
        Some (JArr arr) \<Rightarrow> List.map_filter (\<lambda>a. case a of JStr s \<Rightarrow> Some s | _ \<Rightarrow> None) arr
      | _ \<Rightarrow> [])"

definition buildPIIStage :: "(string, json) gomap \<Rightarrow> Stage" where
  "buildPIIStage cfg = SPII (NewPIIStage (get_strings cfg ''types'') (getStringDefault cfg ''action'' ''redact''))"

definition regex_rules :: "(string, json) gomap \<Rightarrow> RegexRule list" where
  "regex_rules cfg =
     (case gm_get cfg ''patterns'' of
        Some (JArr arr) \<Rightarrow>
          List.map_filter (\<lambda>a. case a of
              JObj m \<Rightarrow> Some \<lparr>rr_Name = getString m ''name'', rr_Pattern = getString m ''pattern'',
                 rr_Action = getStringDefault m ''action'' ''block'',
                 rr_Replacement = getStringDefault m ''replacement'' ''[REDACTED]''\<rparr>
            | _ \<Rightarrow> None) arr
      | _ \<Rightarrow> [])"

definition buildRegexStage :: "(string \<Rightarrow> regexp option) \<Rightarrow> (string, json) gomap \<Rightarrow> string + Stage" where
  "buildRegexStage compile cfg =
     map_sum id SRegex (NewRegexStage compile (regex_rules cfg) (getStringDefault cfg ''block_message'' ''''))"

definition buildKeywordStage :: "(string, json) gomap \<Rightarrow> Stage" where
  "buildKeywordStage cfg = SKeyword (NewKeywordStage (get_strings cfg ''blocklist'') (getStringDefault cfg ''action'' ''block'')
     (getStringDefault cfg ''block_message'' ''''))"

definition buildLengthStage :: "(string, json) gomap \<Rightarrow> string \<Rightarrow> Stage" where
  "buildLengthStage cfg direction =
     SLength (NewLengthStage (getIntDefault cfg ''min_chars'' 0) (getIntDefault cfg ''max_chars'' 0) direction)"

definition buildWebhookStage :: "(string, json) gomap \<Rightarrow> string + Stage" where
  "buildWebhookStage cfg =
     (let url = getString cfg ''url''
      in if url = '''' then Inl ''webhook requires url''
         else Inr (SWebhook (NewWebhookStage url (getIntDefault cfg ''timeout_ms'' 250)
                (getBoolDefault cfg ''block_on_error'' True) (getBoolDefault cfg ''block_on_timeout'' True))))"

text \<open>What the factory takes from elsewhere: the parser of expressions, whether a schema is valid, and the registry of plugins.\<close>

record gr_builder =
  gb_compile :: "string \<Rightarrow> regexp option"
  gb_schema_ok :: "string \<Rightarrow> bool"
  gb_plugin :: "string \<Rightarrow> plugin option"

definition buildJSONSchemaStage :: "gr_builder \<Rightarrow> (string, json) gomap \<Rightarrow> string + Stage" where
  "buildJSONSchemaStage B cfg =
     (let schema = getString cfg ''schema''
      in if schema = '''' then Inl ''json_schema requires schema''
         else if gb_schema_ok B schema then Inr (SSchema \<lparr>js_schema = schema, js_strict = getBoolDefault cfg ''strict'' True\<rparr>)
         else Inl ''invalid JSON schema'')"

definition buildPluginStage :: "gr_builder \<Rightarrow> (string, json) gomap \<Rightarrow> string + Stage" where
  "buildPluginStage B cfg =
     (let name = getString cfg ''name''
      in if name = '''' then Inl ''plugin guardrail requires name in config''
         else case gb_plugin B name of
                None \<Rightarrow> Inl (''guardrail plugin '' @ name @ '' not found in registry'')
              | Some gp \<Rightarrow> Inr (SPlugin gp))"

definition buildStage :: "gr_builder \<Rightarrow> GuardrailStageConfig \<Rightarrow> string \<Rightarrow> string + Stage" where
  "buildStage B sc direction =
     (let t = strings_ToLower (gs_Type sc); cfg = gs_Config sc
      in if t = ''pii'' then Inr (buildPIIStage cfg)
         else if t = ''regex'' then buildRegexStage (gb_compile B) cfg
         else if t = ''keyword'' then Inr (buildKeywordStage cfg)
         else if t = ''length'' then Inr (buildLengthStage cfg direction)
         else if t = ''webhook'' then buildWebhookStage cfg
         else if t = ''json_schema'' then buildJSONSchemaStage B cfg
         else if t = ''plugin'' then buildPluginStage B cfg
         else Inl (''unknown guardrail type '' @ gs_Type sc))"

fun buildStages :: "gr_builder \<Rightarrow> GuardrailStageConfig list \<Rightarrow> string \<Rightarrow> string + Stage list" where
  "buildStages B [] direction = Inr []"
| "buildStages B (sc # scs) direction =
     (case buildStage B sc direction of
        Inl err \<Rightarrow> Inl (gs_Type sc @ '': '' @ err)
      | Inr stage \<Rightarrow> map_sum id (\<lambda>stages. stage # stages) (buildStages B scs direction))"

definition BuildPipeline :: "gr_builder \<Rightarrow> GuardrailsConfig \<Rightarrow> string + Pipeline" where
  "BuildPipeline B cfg =
     (if \<not> gc_Enabled cfg then Inr (NewPipeline [] [])
      else case buildStages B (gc_Input cfg) ''input'' of
             Inl err \<Rightarrow> Inl (''input guardrails: '' @ err)
           | Inr inputStages \<Rightarrow>
               (case buildStages B (gc_Output cfg) ''output'' of
                  Inl err \<Rightarrow> Inl (''output guardrails: '' @ err)
                | Inr outputStages \<Rightarrow> Inr (NewPipeline inputStages outputStages)))"

section \<open>What the pipeline forwards\<close>

text \<open>The specification: the messages flow through the stages, each sees what the previous ones made of them, and a
  block stops them.\<close>

fun flow :: "'w gr_env \<Rightarrow> Stage list \<Rightarrow> Message list \<Rightarrow> 'w \<Rightarrow> Message list option" where
  "flow E [] current w = Some current"
| "flow E (stage # stages) current w =
     (case Stage_CheckInput E stage current w of
        (Inl err, w') \<Rightarrow> None
      | (Inr r, w') \<Rightarrow>
          (case rs_Action r of
             Block \<Rightarrow> None
           | Redact \<Rightarrow> flow E stages (rs_RedactedMessages r) w'
           | Pass \<Rightarrow> flow E stages current w'))"

text \<open>The messages the handler sends on after the check.\<close>

definition forwarded :: "Message list \<Rightarrow> Result \<Rightarrow> Message list" where
  "forwarded messages r = (if rs_Action r = Redact then rs_RedactedMessages r else messages)"

definition keeps_messages :: "Stage \<Rightarrow> bool" where
  "keeps_messages st = (case st of SWebhook s \<Rightarrow> False | SKeyword s \<Rightarrow> kw_action s \<noteq> Redact | _ \<Rightarrow> True)"

lemma messagesDiffer_iff: "messagesDiffer a b \<longleftrightarrow> a \<noteq> b"
proof -
  have "length a = length b \<Longrightarrow> (\<forall>(x, y) \<in> set (zip a b). gm_Role x = gm_Role y \<and> gm_Content x = gm_Content y) \<longleftrightarrow> a = b"
    by (induction a b rule: list_induct2) auto
  then show ?thesis by (auto simp: messagesDiffer_def list_ex_iff)
qed

lemma regex_input_length:
  "rs_Action (regex_input expand s rules m msgs) = Redact \<Longrightarrow>
   length (rs_RedactedMessages (regex_input expand s rules m msgs)) = length msgs"
  by (induction rules arbitrary: m msgs) (auto simp: result_defs rule_block_def split: if_splits)

lemma Stage_CheckInput_total:
  obtains r w' where "Stage_CheckInput E st msgs w = (Inr r, w')"
proof (cases st)
  case (SWebhook s)
  then show thesis using that by (cases "webhook_call E s ''input'' (join_lines (map gm_Content msgs)) w") simp
qed (use that in auto)

lemma plugin_not_redact: "rs_Action (plugin_result p r) \<noteq> Redact"
  by (auto simp: plugin_result_def result_defs split: sum.splits option.splits)

lemma Stage_CheckInput_length:
  assumes "keeps_messages st" and "Stage_CheckInput E st msgs w = (Inr r, w')" and "rs_Action r = Redact"
  shows "length (rs_RedactedMessages r) = length msgs"
proof (cases st)
  case (SPII s)
  with assms show ?thesis by (auto simp: PII_CheckInput_def Let_def result_defs split: if_splits)
next
  case (SRegex s)
  with assms regex_input_length [of "ge_expand E" s "rx_rules s" False msgs] show ?thesis by auto
next
  case (SKeyword s)
  with assms show ?thesis by (auto simp: keeps_messages_def Keyword_CheckInput_def keyword_result_def result_defs split: if_splits)
next
  case (SLength s)
  with assms show ?thesis by (auto simp: Length_CheckInput_def check_length_def result_defs split: if_splits)
next
  case (SPlugin p)
  with assms plugin_not_redact show ?thesis by auto
qed (use assms in \<open>auto simp: keeps_messages_def result_defs\<close>)

lemma input_loop_flow:
  "list_all keeps_messages stages \<Longrightarrow> length current = length messages \<Longrightarrow>
   (case flow E stages current w of
      None \<Rightarrow> \<exists>r e w'. input_loop E stages messages current w = (Inr r, [e], w') \<and> rs_Action r = Block
    | Some final \<Rightarrow> \<exists>r w'. input_loop E stages messages current w = (Inr r, [], w') \<and> rs_Action r \<noteq> Block
        \<and> forwarded messages r = final \<and> length final = length messages)"
proof (induction stages arbitrary: current w)
  case Nil
  then show ?case by (auto simp: messagesDiffer_iff forwarded_def result_defs)
next
  case (Cons st stages)
  obtain r w' where c: "Stage_CheckInput E st current w = (Inr r, w')" by (rule Stage_CheckInput_total)
  show ?case
  proof (cases "rs_Action r")
    case Block
    with c show ?thesis by (simp add: Let_def)
  next
    case Pass
    with c have "input_loop E (st # stages) messages current w = input_loop E stages messages current w'"
      and "flow E (st # stages) current w = flow E stages current w'" by (simp_all add: Let_def)
    with Cons.IH [of current w'] Cons.prems show ?thesis by (simp only: list.pred_inject simp_thms)
  next
    case Redact
    with Stage_CheckInput_length [OF _ c] Cons.prems have "length (rs_RedactedMessages r) = length messages" by simp
    moreover from Redact c have "input_loop E (st # stages) messages current w = input_loop E stages messages (rs_RedactedMessages r) w'"
      and "flow E (st # stages) current w = flow E stages (rs_RedactedMessages r) w'" by (simp_all add: Let_def)
    ultimately show ?thesis using Cons.IH [of "rs_RedactedMessages r" w'] Cons.prems by (simp only: list.pred_inject simp_thms)
  qed
qed

lemma map_sum_InrD: "map_sum f g x = Inr y \<Longrightarrow> \<exists>z. x = Inr z \<and> y = g z"
  by (cases x) auto

lemma buildStage_keeps:
  assumes "buildStage B sc direction = Inr st" and "strings_ToLower (gs_Type sc) \<noteq> ''webhook''"
  shows "keeps_messages st"
  using assms
  by (auto simp: buildStage_def Let_def buildPIIStage_def buildRegexStage_def buildKeywordStage_def buildLengthStage_def
      buildJSONSchemaStage_def buildPluginStage_def keeps_messages_def NewKeywordStage_def
      split: if_splits sum.splits option.splits dest!: map_sum_InrD)

lemma buildStages_keeps:
  "buildStages B scs direction = Inr sts \<Longrightarrow> \<forall>sc \<in> set scs. strings_ToLower (gs_Type sc) \<noteq> ''webhook'' \<Longrightarrow> list_all keeps_messages sts"
proof (induction scs arbitrary: sts)
  case (Cons sc scs)
  then show ?case by (auto split: sum.splits simp: buildStage_keeps dest!: map_sum_InrD)
qed simp

lemma BuildPipeline_keeps:
  assumes "BuildPipeline B cfg = Inr p" and "\<forall>sc \<in> set (gc_Input cfg). strings_ToLower (gs_Type sc) \<noteq> ''webhook''"
  shows "list_all keeps_messages (pp_inputStages p)"
  using assms buildStages_keeps [of B "gc_Input cfg" "''input''"]
  by (auto simp: BuildPipeline_def NewPipeline_def split: if_splits sum.splits)

lemma CheckInput_flow:
  assumes "list_all keeps_messages (pp_inputStages p)"
  shows "\<exists>r. fst (CheckInput E p messages w) = Inr r
    \<and> (case flow E (pp_inputStages p) messages w of
         None \<Rightarrow> rs_Action r = Block
       | Some final \<Rightarrow> rs_Action r \<noteq> Block \<and> forwarded messages r = final)"
proof (cases "pp_inputStages p = []")
  case True
  then show ?thesis by (simp add: CheckInput_def forwarded_def result_pass_def)
next
  case False
  then have "CheckInput E p messages w = input_loop E (pp_inputStages p) messages messages w" by (simp add: CheckInput_def)
  with input_loop_flow [OF assms, of messages messages E w] show ?thesis by (auto split: option.splits)
qed


text \<open>Stages that only look.\<close>

definition only_looks :: "Stage \<Rightarrow> bool" where
  "only_looks st = (case st of SKeyword s \<Rightarrow> kw_action s \<noteq> Redact | SLength s \<Rightarrow> True | SSchema s \<Rightarrow> True | SPlugin p \<Rightarrow> True | _ \<Rightarrow> False)"

lemma only_looks_action:
  assumes "only_looks st" and "Stage_CheckInput E st msgs w = (Inr r, w')"
  shows "rs_Action r \<noteq> Redact"
  using assms plugin_not_redact
  by (cases st) (auto simp: only_looks_def Keyword_CheckInput_def keyword_result_def Length_CheckInput_def check_length_def
      result_defs split: if_splits)

lemma flow_only_looks: "list_all only_looks stages \<Longrightarrow> flow E stages current w = Some final \<Longrightarrow> final = current"
proof (induction stages arbitrary: w)
  case (Cons st stages)
  obtain r w' where c: "Stage_CheckInput E st current w = (Inr r, w')" by (rule Stage_CheckInput_total)
  with Cons only_looks_action [OF _ c] show ?case by (auto split: ResultAction.splits)
qed simp

lemma flow_keyword:
  assumes "kw_action ks = Block" and "list_all only_looks post"
  shows "flow E (pre @ SKeyword ks # post) current w = Some final \<Longrightarrow> \<forall>m \<in> set final. \<not> has_keyword ks (gm_Content m)"
proof (induction pre arbitrary: current w)
  case Nil
  then show ?case using flow_only_looks [OF assms(2), of E] assms(1)
    by (auto simp: Keyword_CheckInput_def keyword_result_def result_defs list_ex_iff split: if_splits)
next
  case (Cons st pre)
  obtain r w' where c: "Stage_CheckInput E st current w = (Inr r, w')" by (rule Stage_CheckInput_total)
  with Cons show ?case by (auto split: ResultAction.splits)
qed

lemma buildStages_append:
  "buildStages B (xs @ ys) d = Inr sts \<Longrightarrow> \<exists>a b. buildStages B xs d = Inr a \<and> buildStages B ys d = Inr b \<and> sts = a @ b"
proof (induction xs arbitrary: sts)
  case (Cons x xs)
  then show ?case by (fastforce split: sum.splits dest!: map_sum_InrD)
qed simp

definition looking_types :: "string list" where
  "looking_types = [''keyword'', ''length'', ''json_schema'', ''plugin'']"

lemma buildStages_only_looks:
  "buildStages B scs d = Inr sts \<Longrightarrow> \<forall>sc \<in> set scs. strings_ToLower (gs_Type sc) \<in> set looking_types \<Longrightarrow> list_all only_looks sts"
proof (induction scs arbitrary: sts)
  case (Cons sc scs)
  have "only_looks st" if "buildStage B sc d = Inr st" for st
    using Cons.prems(2) that
    by (auto simp: looking_types_def buildStage_def Let_def buildKeywordStage_def buildLengthStage_def buildJSONSchemaStage_def
        buildPluginStage_def only_looks_def NewKeywordStage_def split: if_splits option.splits)
  with Cons show ?case by (auto split: sum.splits dest!: map_sum_InrD)
qed simp

text \<open>A blocked keyword does not get through: when a keyword stage that blocks is configured, followed only by stages that look
  but do not rewrite, and no webhook is, then the messages a passing check sends on contain none of its keywords in
  any spelling of upper and lower case, whatever the earlier stages did.\<close>

theorem keyword_guard:
  assumes "BuildPipeline B cfg = Inr p" and "gc_Enabled cfg"
    and "\<forall>sc \<in> set (gc_Input cfg). strings_ToLower (gs_Type sc) \<noteq> ''webhook''"
    and "gc_Input cfg = pre @ sc # post" and "strings_ToLower (gs_Type sc) = ''keyword''"
    and "\<not> strings_EqualFold (getStringDefault (gs_Config sc) ''action'' ''block'') ''log''"
    and "\<forall>sc \<in> set post. strings_ToLower (gs_Type sc) \<in> set looking_types"
    and "fst (CheckInput E p messages w) = Inr r" and "rs_Action r \<noteq> Block"
  shows "\<forall>m \<in> set (forwarded messages r). \<forall>kw \<in> set (get_strings (gs_Config sc) ''blocklist'').
           \<not> strings_Contains (strings_ToLower (gm_Content m)) (strings_ToLower kw)"
proof -
  let ?ks = "NewKeywordStage (get_strings (gs_Config sc) ''blocklist'') (getStringDefault (gs_Config sc) ''action'' ''block'')
     (getStringDefault (gs_Config sc) ''block_message'' '''')"
  from assms(1,2,4) have "buildStages B (pre @ sc # post) ''input'' = Inr (pp_inputStages p)"
    by (auto simp: BuildPipeline_def NewPipeline_def split: sum.splits)
  from buildStages_append [OF this] obtain a b where a: "pp_inputStages p = a @ b" "buildStages B (sc # post) ''input'' = Inr b" by blast
  then obtain b' where b: "b = SKeyword ?ks # b'" "buildStages B post ''input'' = Inr b'"
    using assms(5) by (auto simp: buildStage_def Let_def buildKeywordStage_def dest!: map_sum_InrD)
  from CheckInput_flow [OF BuildPipeline_keeps [OF assms(1,3)], of E messages w] assms(8,9)
  obtain final where f: "flow E (pp_inputStages p) messages w = Some final" "forwarded messages r = final"
    by (auto split: option.splits)
  have "kw_action ?ks = Block" using assms(6) by (simp add: NewKeywordStage_def)
  from flow_keyword [OF this buildStages_only_looks [OF b(2) assms(7)], of E a messages w final] f a(1) b(1)
  have "\<forall>m \<in> set final. \<not> has_keyword ?ks (gm_Content m)" by simp
  with f(2) show ?thesis by (auto simp: has_keyword_def list_ex_iff NewKeywordStage_def)
qed

definition example_env :: "unit gr_env" where
  "example_env = \<lparr>ge_expand = (\<lambda>t m. t),
     ge_post = (\<lambda>url direction content w. (Body (Some (JObj [(''action'', JStr ''redact''), (''redacted'', JStr ''clean'')])), w)),
     ge_validate = (\<lambda>schema content. None)\<rparr>"

definition example_builder :: gr_builder where
  "example_builder = \<lparr>gb_compile = (\<lambda>s. None), gb_schema_ok = (\<lambda>s. True), gb_plugin = (\<lambda>n. None)\<rparr>"

definition keyword_config :: GuardrailStageConfig where
  "keyword_config = \<lparr>gs_Type = ''Keyword'', gs_Config = [(''blocklist'', JArr [JStr ''Secret''])]\<rparr>"

definition pii_config :: GuardrailStageConfig where
  "pii_config = \<lparr>gs_Type = ''pii'', gs_Config = [(''types'', JArr [JStr ''ssn''])]\<rparr>"

definition example_guardrails :: GuardrailsConfig where
  "example_guardrails = \<lparr>gc_Enabled = True, gc_Input = [pii_config, keyword_config], gc_Output = [], gc_Models = []\<rparr>"

definition example_pipeline :: Pipeline where
  "example_pipeline = NewPipeline [buildPIIStage (gs_Config pii_config), buildKeywordStage (gs_Config keyword_config)] []"

definition user_message :: "string \<Rightarrow> Message" where
  "user_message s = \<lparr>gm_Role = ''user'', gm_Content = s\<rparr>"

lemma example_types:
  "strings_ToLower ''pii'' = ''pii''" "strings_ToLower ''Keyword'' = ''keyword''"
  by code_simp+

lemma example_pipeline_built: "BuildPipeline example_builder example_guardrails = Inr example_pipeline"
  by (simp add: BuildPipeline_def example_guardrails_def buildStage_def pii_config_def keyword_config_def example_types
      example_pipeline_def NewPipeline_def)

lemma example_check:
  "fst (CheckInput example_env example_pipeline [user_message ''my ssn is 123-45-6789.''] ())
   = Inr (redact_input ''pipeline'' [user_message ''my ssn is [REDACTED_SSN].''])"
  by code_simp


theorem keyword_guard_witness:
  "list_all (\<lambda>m. list_all (\<lambda>kw. \<not> strings_Contains (strings_ToLower (gm_Content m)) (strings_ToLower kw))
     (get_strings (gs_Config keyword_config) ''blocklist'')) [user_message ''my ssn is [REDACTED_SSN].'']"
proof -
  let ?msgs = "[user_message ''my ssn is 123-45-6789.'']" and ?r = "redact_input ''pipeline'' [user_message ''my ssn is [REDACTED_SSN].'']"
  have "\<not> strings_EqualFold (getStringDefault (gs_Config keyword_config) ''action'' ''block'') ''log''" by code_simp
  from keyword_guard [OF example_pipeline_built _ _ _ _ this _ example_check, of "[pii_config]" "[]"]
  have "\<forall>m \<in> set (forwarded ?msgs ?r). \<forall>kw \<in> set (get_strings (gs_Config keyword_config) ''blocklist'').
     \<not> strings_Contains (strings_ToLower (gm_Content m)) (strings_ToLower kw)"
    by (simp add: example_guardrails_def pii_config_def keyword_config_def example_types redact_input_def)
  then show ?thesis by (simp add: forwarded_def redact_input_def list_all_iff)
qed

text \<open>A webhook's redaction of a request is lost: it comes back in the field for texts, so the pipeline continues with an empty
  list of messages. The stages after the webhook see nothing, and in the end the original messages pass.\<close>

theorem webhook_redaction_lost:
  "CheckInput example_env (NewPipeline [SWebhook (NewWebhookStage ''http://guard'' 0 True True), buildKeywordStage (gs_Config keyword_config)] [])
     [user_message ''a secret''] () = (Inr result_pass, [], ())"
  by code_simp

end
