(* ===== verification/Handler_Core.thy ===== *)
theory Handler_Core
  imports Rate_Limit Circuit_Breaker Response_Cache Health_Tracker Routing Usage_Log Guardrails
begin

text \<open>
  The request handler, first part: its state, the limiters and breakers it keeps per key and per target, and
  \<^verbatim>\<open>executePlan\<close>, which tries the targets of a plan one after the other with retries
  (\<^verbatim>\<open>internal/api/openai/chat_completions.go\<close>). The model is a handler without a Redis client, so limiters and breakers
  are the local ones. Metrics, logging and tracing have no effect on the results and are left out.

  Everything outside the handler acts on a world: a reading of the clock, a call of a provider's adapter, the wait
  before a retry. A result of \<^term>\<open>None\<close> stands for a panic or a loop that does not end; the lemmas show that a handler in a
  regular state never gets there, that the attempts are bounded, and that an open breaker shields a provider.
\<close>

section \<open>State and environment\<close>

text \<open>The server has one audit logger, \<open>h_audit\<close>; the handler and its pipeline hold a pointer to it if \<open>h_auditLog\<close> and
  \<open>h_guardAudit\<close> are set. The maps of limiters and breakers hold pointers too: a definition that changes an element stores it
  back under its key.\<close>

record breakerEntry =
  bk_breaker :: Breaker
  bk_lastAccess :: gotime

record 'c Handler =
  h_cfg :: Config
  h_router :: Router
  h_cache :: "'c option"
  h_keys :: "(string, KeyRing) gomap"
  h_limiters :: "(string, Limiter) gomap"
  h_breakers :: "(string, breakerEntry) gomap"
  h_prices :: "PriceTable option"
  h_usageW :: "Writer option"
  h_guardrails :: "Pipeline option"
  h_healthTracker :: "Tracker option"
  h_budgetFailClosed :: bool
  h_audit :: "Logger option"
  h_auditLog :: bool
  h_guardAudit :: bool
  h_logBodies :: bool

type_synonym 'w adapter =
  "ChatCompletionRequest \<Rightarrow> Target \<Rightarrow> ProviderKey \<Rightarrow> 'w \<Rightarrow> (provider_error + ChatCompletionResponse option) \<times> 'w"

record ('c, 'w) gov_env =
  ev_now :: "'w \<Rightarrow> gotime \<times> 'w"
  ev_adapter :: "string \<Rightarrow> 'w adapter option"
  ev_wait :: "duration \<Rightarrow> 'w \<Rightarrow> provider_error option \<times> 'w"
  ev_guard :: "'w gr_env"
  ev_sha :: "json \<Rightarrow> string"
  ev_cacheGet :: "gotime \<Rightarrow> string \<Rightarrow> 'c \<Rightarrow> ChatCompletionResponse option option \<times> 'c"
  ev_cacheSet :: "gotime \<Rightarrow> string \<Rightarrow> ChatCompletionResponse option \<times> duration \<Rightarrow> 'c \<Rightarrow> 'c"
  ev_text :: "raw \<Rightarrow> string"
  ev_trunc :: "string \<Rightarrow> gotime \<Rightarrow> gotime"
  ev_db_fails :: "'w \<Rightarrow> bool"
  ev_reader :: latency_reader
  ev_draw :: "'w \<Rightarrow> ((nat \<Rightarrow> gotime) \<times> (nat \<Rightarrow> nat)) \<times> 'w"

definition NewHandler ::
  "Config \<Rightarrow> Router \<Rightarrow> 'c option \<Rightarrow> (string, KeyRing) gomap \<Rightarrow> PriceTable option \<Rightarrow> Writer option \<Rightarrow> Pipeline option \<Rightarrow> 'c Handler" where
  "NewHandler cfg router exactCache keys prices usageW g =
     \<lparr>h_cfg = cfg, h_router = router, h_cache = exactCache, h_keys = keys, h_limiters = [], h_breakers = [], h_prices = prices,
      h_usageW = usageW, h_guardrails = g, h_healthTracker = None, h_budgetFailClosed = bc_FailClosed (cfg_Billing cfg),
      h_audit = None, h_auditLog = False, h_guardAudit = False, h_logBodies = False\<rparr>"

definition SetHealthTracker :: "Tracker \<Rightarrow> 'c Handler \<Rightarrow> 'c Handler" where
  "SetHealthTracker t h = h\<lparr>h_healthTracker := Some t\<rparr>"

definition SetAuditLogger :: "Logger \<Rightarrow> 'c Handler \<Rightarrow> 'c Handler" where
  "SetAuditLogger l h = h\<lparr>h_audit := Some l, h_auditLog := True\<rparr>"

definition SetLogBodies :: "bool \<Rightarrow> 'c Handler \<Rightarrow> 'c Handler" where
  "SetLogBodies enabled h = h\<lparr>h_logBodies := enabled\<rparr>"

section \<open>Limiters\<close>

definition getLimiter :: "string \<Rightarrow> int \<Rightarrow> int \<Rightarrow> 'c Handler \<Rightarrow> Limiter \<times> 'c Handler" where
  "getLimiter keyID rpm tpm h =
     (case gm_get (h_limiters h) keyID of
        Some l \<Rightarrow> (l, h)
      | None \<Rightarrow> let l = NewLimiter rpm tpm in (l, h\<lparr>h_limiters := gm_set keyID l (h_limiters h)\<rparr>))"

definition Handler_Close :: "'c Handler \<Rightarrow> 'c Handler" where
  "Handler_Close h = h\<lparr>h_limiters := []\<rparr>"

section \<open>Breakers\<close>

definition maxBreakers :: nat where
  "maxBreakers = 1000"

definition breaker_key :: "string \<Rightarrow> string \<Rightarrow> string \<Rightarrow> string" where
  "breaker_key provider model region =
     (if region \<noteq> '''' then provider @ '':'' @ region @ '':'' @ model else provider @ '':'' @ model)"

text \<open>The loop that evicts while the map is too large. It would not end if the oldest entry had the empty key, which it then
  does not delete.\<close>

partial_function (option) evict_breakers :: "(string, breakerEntry) gomap \<Rightarrow> (string, breakerEntry) gomap option" where
  "evict_breakers m = (if maxBreakers < gm_len m then evict_breakers (delete_oldest bk_lastAccess m) else Some m)"

declare evict_breakers.simps [code]

text \<open>\<^verbatim>\<open>getBreaker\<close> returns a pointer: the breaker, and the key under which later changes of it are seen, if it is still in the
  map.\<close>

definition getBreaker ::
  "gotime \<Rightarrow> string \<Rightarrow> string \<Rightarrow> string \<Rightarrow> 'c Handler \<Rightarrow> (Breaker \<times> 'c Handler) option" where
  "getBreaker now provider model region h =
     (let key = breaker_key provider model region
      in case gm_get (h_breakers h) key of
           Some entry \<Rightarrow>
             Some (bk_breaker entry, h\<lparr>h_breakers := gm_set key (entry\<lparr>bk_lastAccess := now\<rparr>) (h_breakers h)\<rparr>)
         | None \<Rightarrow>
             let b = NewBreaker provider model []
             in map_option (\<lambda>m. (b, h\<lparr>h_breakers := m\<rparr>))
                  (evict_breakers (gm_set key \<lparr>bk_breaker = b, bk_lastAccess = now\<rparr> (h_breakers h))))"

definition set_breaker :: "string \<Rightarrow> Breaker \<Rightarrow> 'c Handler \<Rightarrow> 'c Handler" where
  "set_breaker key b h =
     (case gm_get (h_breakers h) key of
        None \<Rightarrow> h
      | Some entry \<Rightarrow> h\<lparr>h_breakers := gm_set key (entry\<lparr>bk_breaker := b\<rparr>) (h_breakers h)\<rparr>)"

section \<open>Keys and delays\<close>

definition providerRequiresAuth :: "ProviderConfig \<Rightarrow> bool" where
  "providerRequiresAuth p \<longleftrightarrow> pc_Type p \<in> {''openai'', ''anthropic'', ''gemini'', ''azure-openai'', ''bedrock'', ''vertex'',
     ''groq'', ''cohere'', ''mistral'', ''''}"

definition zero_ProviderKey :: ProviderKey where
  "zero_ProviderKey = \<lparr>key_ID = '''', key_Value = ''''\<rparr>"

definition nextProviderKey :: "string \<Rightarrow> 'c Handler \<Rightarrow> (provider_error + ProviderKey) \<times> 'c Handler" where
  "nextProviderKey providerName h =
     (let (key, h) = (case gm_get (h_keys h) providerName of
                        None \<Rightarrow> (None, h)
                      | Some ring \<Rightarrow> (case KeyRing_Next ring of
                                       (k, ring') \<Rightarrow> (k, h\<lparr>h_keys := gm_set providerName ring' (h_keys h)\<rparr>)))
      in case key of
           Some k \<Rightarrow> (Inr k, h)
         | None \<Rightarrow>
             if (case gm_get (cfg_Providers (h_cfg h)) providerName of None \<Rightarrow> True | Some p \<Rightarrow> providerRequiresAuth p)
             then (Inl (OtherError (''provider '' @ go_quote providerName @ '' requires auth but has no active keys'')), h)
             else (Inr zero_ProviderKey, h))"

fun backoff_loop :: "nat \<Rightarrow> duration \<Rightarrow> duration \<Rightarrow> duration" where
  "backoff_loop 0 maxDelay delay = delay"
| "backoff_loop (Suc n) maxDelay delay =
     (let delay = wrap64 (delay * 2) in if maxDelay < delay then maxDelay else backoff_loop n maxDelay delay)"

definition backoff :: "nat \<Rightarrow> RetryConfig \<Rightarrow> duration" where
  "backoff attempt cfg =
     (let initial = wrap64 (rt_InitialMS cfg * time_Millisecond);
          initial = (if initial \<le> 0 then 250 * time_Millisecond else initial);
          maxDelay = wrap64 (rt_MaxMS cfg * time_Millisecond);
          maxDelay = (if maxDelay \<le> 0 then 4 * time_Second else maxDelay)
      in backoff_loop (attempt - 1) maxDelay initial)"

section \<open>Trying the targets of a plan\<close>

definition attemptsPerTarget :: "'c Handler \<Rightarrow> nat" where
  "attemptsPerTarget h =
     (let n = rt_Attempts (rdf_Retry (rc_Defaults (cfg_Routing (h_cfg h)))) in if n \<le> 0 then 1 else nat n)"

datatype target_outcome = Answered "ChatCompletionResponse option" | Cancelled provider_error | GaveUp provider_error

text \<open>The inner loop: \<open>left\<close> attempts remain, the next one has the number \<open>attempt\<close>; \<open>b\<close> is the target's breaker.\<close>

fun try_target ::
  "('c, 'w) gov_env \<Rightarrow> 'w adapter \<Rightarrow> ChatCompletionRequest \<Rightarrow> Target \<Rightarrow> nat \<Rightarrow> nat \<Rightarrow> Breaker \<Rightarrow> provider_error \<Rightarrow> int \<Rightarrow> 'c Handler \<Rightarrow> 'w
   \<Rightarrow> target_outcome \<times> int \<times> 'c Handler \<times> 'w" where
  "try_target E call req target attempt 0 b lastErr tot h w = (GaveUp lastErr, tot, h, w)"
| "try_target E call req target attempt (Suc left) b lastErr tot h w =
     (case nextProviderKey (tg_Provider target) h of
        (Inl err, h) \<Rightarrow> (GaveUp err, tot, h, w)
      | (Inr key, h) \<Rightarrow>
          (case call req target key w of
             (Inr resp, w) \<Rightarrow>
               (Answered resp, tot + 1,
                set_breaker (breaker_key (tg_Provider target) (tg_Model target) (tg_Region target)) (localRecordSuccess b) h, w)
           | (Inl err, w) \<Rightarrow>
               let (now, w) = ev_now E w;
                   b = localRecordFailure now b;
                   h = set_breaker (breaker_key (tg_Provider target) (tg_Model target) (tg_Region target)) b h
               in if \<not> IsRetryable err \<or> left = 0 then (GaveUp err, tot + 1, h, w)
                  else (case ev_wait E (backoff attempt (rdf_Retry (rc_Defaults (cfg_Routing (h_cfg h))))) w of
                          (Some cancel, w) \<Rightarrow> (Cancelled cancel, tot + 1, h, w)
                        | (None, w) \<Rightarrow> try_target E call req target (Suc attempt) left b err (tot + 1) h w)))"

type_synonym plan_result = "(provider_error + ChatCompletionResponse option) \<times> Target \<times> int"

fun plan_loop ::
  "('c, 'w) gov_env \<Rightarrow> ChatCompletionRequest \<Rightarrow> Target list \<Rightarrow> provider_error option \<Rightarrow> int \<Rightarrow> 'c Handler \<Rightarrow> 'w
   \<Rightarrow> (plan_result \<times> 'c Handler \<times> 'w) option" where
  "plan_loop E req [] lastErr tot h w =
     Some ((Inl (case lastErr of None \<Rightarrow> OtherError ''no provider targets available'' | Some e \<Rightarrow> e), zero_Target, tot), h, w)"
| "plan_loop E req (target # targets) lastErr tot h w =
     (let (now, w) = ev_now E w
      in case getBreaker now (tg_Provider target) (tg_Model target) (tg_Region target) h of
           None \<Rightarrow> None
         | Some (b, h) \<Rightarrow>
             let (now, w) = ev_now E w;
                 (allowed, b) = localAllow now b;
                 h = set_breaker (breaker_key (tg_Provider target) (tg_Model target) (tg_Region target)) b h
             in if \<not> allowed
                then plan_loop E req targets (Some (OtherError (''circuit breaker open for provider: '' @ tg_Provider target))) tot h w
                else case ev_adapter E (tg_Provider target) of
                       None \<Rightarrow> plan_loop E req targets
                         (Some (OtherError (''provider adapter is not configured: '' @ tg_Provider target))) tot h w
                     | Some call \<Rightarrow>
                         (case try_target E call req target 1 (attemptsPerTarget h) b (OtherError '''') tot h w of
                            (Answered resp, tot, h, w) \<Rightarrow> Some ((Inr resp, target, tot), h, w)
                          | (Cancelled err, tot, h, w) \<Rightarrow> Some ((Inl err, zero_Target, tot), h, w)
                          | (GaveUp err, tot, h, w) \<Rightarrow> plan_loop E req targets (Some err) tot h w))"

definition executePlan ::
  "('c, 'w) gov_env \<Rightarrow> ChatCompletionRequest \<Rightarrow> Target list \<Rightarrow> 'c Handler \<Rightarrow> 'w \<Rightarrow> (plan_result \<times> 'c Handler \<times> 'w) option" where
  "executePlan E req targets h w = plan_loop E req targets None 0 h w"

section \<open>The breaker map stays regular\<close>

definition breakers_ok :: "'c Handler \<Rightarrow> bool" where
  "breakers_ok h \<longleftrightarrow> gm_ok (h_breakers h) \<and> '''' \<notin> gm_keys (h_breakers h) \<and> gm_len (h_breakers h) \<le> maxBreakers"

text \<open>What executing a plan may change of a handler: the positions of the key rings and the breakers.\<close>

definition plan_frame :: "'c Handler \<Rightarrow> 'c Handler \<Rightarrow> bool" where
  "plan_frame h h' \<longleftrightarrow> h' = h\<lparr>h_keys := h_keys h', h_breakers := h_breakers h'\<rparr>"

lemma plan_frame_refl [simp, intro]: "plan_frame h h"
  by (simp add: plan_frame_def)

lemma plan_frame_trans [trans]: "plan_frame h h' \<Longrightarrow> plan_frame h' h'' \<Longrightarrow> plan_frame h h''"
  unfolding plan_frame_def by (cases h, cases h', cases h'') simp

lemma plan_frame_fields:
  "plan_frame h h' \<Longrightarrow> h_cfg h' = h_cfg h \<and> h_router h' = h_router h \<and> h_cache h' = h_cache h \<and> h_limiters h' = h_limiters h
     \<and> h_prices h' = h_prices h \<and> h_usageW h' = h_usageW h \<and> h_guardrails h' = h_guardrails h
     \<and> h_healthTracker h' = h_healthTracker h \<and> h_budgetFailClosed h' = h_budgetFailClosed h \<and> h_audit h' = h_audit h
     \<and> h_auditLog h' = h_auditLog h \<and> h_guardAudit h' = h_guardAudit h \<and> h_logBodies h' = h_logBodies h"
  unfolding plan_frame_def by (cases h, cases h') simp

lemma attempts_frame: "plan_frame h h' \<Longrightarrow> attemptsPerTarget h' = attemptsPerTarget h"
  by (simp add: attemptsPerTarget_def plan_frame_fields)

lemma breaker_key_nonempty [simp]: "breaker_key p m r \<noteq> ''''" "'''' \<noteq> breaker_key p m r"
  by (simp_all add: breaker_key_def)

lemma evict_breakers_total:
  assumes "gm_ok m" and "'''' \<notin> gm_keys m"
  shows "\<exists>m'. evict_breakers m = Some m' \<and> gm_ok m' \<and> gm_keys m' \<subseteq> gm_keys m \<and> gm_len m' = min (gm_len m) maxBreakers"
  using assms
proof (induction "gm_len m" arbitrary: m)
  case 0
  then show ?case by (subst evict_breakers.simps) simp
next
  case (Suc n)
  show ?case
  proof (cases "maxBreakers < gm_len m")
    case False
    with Suc.prems show ?thesis by (subst evict_breakers.simps) simp
  next
    case True
    let ?d = "delete_oldest bk_lastAccess m"
    have "m \<noteq> []" using Suc.hyps(2) by auto
    then have len: "Suc (gm_len ?d) = gm_len m" using delete_oldest_len [OF Suc.prems(1) _ Suc.prems(2)] by simp
    have keys: "gm_keys ?d \<subseteq> gm_keys m" by (rule gm_keys_delete_oldest)
    have "n = gm_len ?d" using len Suc.hyps(2) by simp
    from Suc.hyps(1) [OF this gm_ok_delete_oldest [OF Suc.prems(1)]] keys Suc.prems(2)
    obtain m' where m': "evict_breakers ?d = Some m'" "gm_ok m'" "gm_keys m' \<subseteq> gm_keys ?d"
      "gm_len m' = min (gm_len ?d) maxBreakers" by blast
    have "evict_breakers m = Some m'" by (subst evict_breakers.simps) (simp add: True m'(1))
    moreover have "gm_len m' = min (gm_len m) maxBreakers" using m'(4) len True by simp
    ultimately show ?thesis using m'(2,3) keys by blast
  qed
qed

lemma getBreaker_total:
  assumes "breakers_ok h"
  obtains b h' where "getBreaker now p m r h = Some (b, h')" and "breakers_ok h'" and "plan_frame h h'" and "h_keys h' = h_keys h"
proof (cases "gm_get (h_breakers h) (breaker_key p m r)")
  case (Some e)
  let ?h = "h\<lparr>h_breakers := gm_set (breaker_key p m r) (e\<lparr>bk_lastAccess := now\<rparr>) (h_breakers h)\<rparr>"
  from Some have "breaker_key p m r \<in> gm_keys (h_breakers h)" by (rule gm_get_key)
  with assms have "breakers_ok ?h" by (simp add: breakers_ok_def gm_len_set gm_keys_set)
  moreover have "plan_frame h ?h" by (simp add: plan_frame_def)
  ultimately show thesis using that [of "bk_breaker e" ?h] Some by (simp add: getBreaker_def Let_def)
next
  case None
  let ?m = "gm_set (breaker_key p m r) \<lparr>bk_breaker = NewBreaker p m [], bk_lastAccess = now\<rparr> (h_breakers h)"
  from assms have "gm_ok ?m" and "'''' \<notin> gm_keys ?m" by (simp_all add: breakers_ok_def gm_keys_set)
  from evict_breakers_total [OF this] obtain m' where m': "evict_breakers ?m = Some m'" "gm_ok m'" "gm_keys m' \<subseteq> gm_keys ?m"
    "gm_len m' = min (gm_len ?m) maxBreakers" by blast
  let ?h = "h\<lparr>h_breakers := m'\<rparr>"
  have "'''' \<notin> gm_keys m'" using m'(3) \<open>'''' \<notin> gm_keys ?m\<close> by blast
  with m' have "breakers_ok ?h" by (simp add: breakers_ok_def)
  moreover have "plan_frame h ?h" by (simp add: plan_frame_def)
  ultimately show thesis using that [of "NewBreaker p m []" ?h] None m'(1) by (simp add: getBreaker_def Let_def)
qed

lemma set_breaker_ok: "breakers_ok h \<Longrightarrow> breakers_ok (set_breaker k b h)"
  by (auto simp: breakers_ok_def set_breaker_def gm_len_set gm_keys_set dest: gm_get_key split: option.splits)

lemma set_breaker_frame: "plan_frame h (set_breaker k b h)" "h_keys (set_breaker k b h) = h_keys h"
  by (simp_all add: set_breaker_def plan_frame_def split: option.splits)

lemma nextProviderKey_frame:
  assumes "nextProviderKey p h = (r, h')"
  shows "plan_frame h h'" and "h_breakers h' = h_breakers h"
  using assms
  by (auto simp: nextProviderKey_def plan_frame_def Let_def split: option.splits prod.splits if_splits)

lemma nextProviderKey_ok: "nextProviderKey p h = (r, h') \<Longrightarrow> breakers_ok h \<Longrightarrow> breakers_ok h'"
  by (simp add: breakers_ok_def nextProviderKey_frame(2))

section \<open>Executing a plan\<close>

lemma try_target_spec:
  assumes "try_target E call req target attempt n b lastErr tot h w = (out, tot', h', w')"
  shows "plan_frame h h' \<and> tot \<le> tot' \<and> tot' \<le> tot + int n \<and> (breakers_ok h \<longrightarrow> breakers_ok h')"
  using assms
proof (induction n arbitrary: attempt b lastErr tot h w)
  case 0
  then show ?case by simp
next
  case (Suc n)
  obtain r h1 where k: "nextProviderKey (tg_Provider target) h = (r, h1)" by force
  note f1 = nextProviderKey_frame(1) [OF k] and ok1 = nextProviderKey_ok [OF k]
  show ?case
  proof (cases r)
    case (Inl e)
    with Suc.prems k f1 ok1 show ?thesis by auto
  next
    case (Inr key)
    obtain a w1 where c: "call req target key w = (a, w1)" by force
    let ?k = "breaker_key (tg_Provider target) (tg_Model target) (tg_Region target)"
    show ?thesis
    proof (cases a)
      case (Inr resp)
      with Suc.prems k c \<open>r = Inr key\<close> have "h' = set_breaker ?k (localRecordSuccess b) h1" and "tot' = tot + 1" by simp_all
      then show ?thesis using plan_frame_trans [OF f1 set_breaker_frame(1)] ok1 set_breaker_ok by auto
    next
      case (Inl e)
      obtain now w2 where t: "ev_now E w1 = (now, w2)" by force
      let ?b = "localRecordFailure now b"
      let ?h2 = "set_breaker ?k ?b h1"
      have f2: "plan_frame h ?h2" by (rule plan_frame_trans [OF f1 set_breaker_frame(1)])
      have ok2: "breakers_ok h \<longrightarrow> breakers_ok ?h2" using ok1 set_breaker_ok by blast
      obtain d w3 where d: "ev_wait E (backoff attempt (rdf_Retry (rc_Defaults (cfg_Routing (h_cfg ?h2))))) w2 = (d, w3)" by force
      show ?thesis
      proof (cases "\<not> IsRetryable e \<or> n = 0 \<or> d \<noteq> None")
        case True
        with Suc.prems k c Inl \<open>r = Inr key\<close> t d have "h' = ?h2" and "tot' = tot + 1"
          by (auto simp: Let_def split: if_splits)
        then show ?thesis using f2 ok2 by simp
      next
        case False
        with Suc.prems k c Inl \<open>r = Inr key\<close> t d
        have "try_target E call req target (Suc attempt) n ?b e (tot + 1) ?h2 w3 = (out, tot', h', w')"
          by (simp add: Let_def)
        from Suc.IH [OF this] show ?thesis using plan_frame_trans [OF f2] ok2 by auto
      qed
    qed
  qed
qed

lemma plan_loop_spec:
  assumes "breakers_ok h"
  shows "\<exists>res tg tot' h' w'. plan_loop E req targets lastErr tot h w = Some ((res, tg, tot'), h', w')
     \<and> breakers_ok h' \<and> plan_frame h h' \<and> tot \<le> tot' \<and> tot' \<le> tot + int (length targets * attemptsPerTarget h)
     \<and> (case res of Inl e \<Rightarrow> tg = zero_Target | Inr resp \<Rightarrow> tg \<in> set targets \<and> ev_adapter E (tg_Provider tg) \<noteq> None)"
  using assms
proof (induction targets arbitrary: lastErr tot h w)
  case Nil
  then show ?case by simp
next
  case (Cons target targets)
  let ?k = "breaker_key (tg_Provider target) (tg_Model target) (tg_Region target)"
  let ?N = "attemptsPerTarget h"
  obtain now w1 where t1: "ev_now E w = (now, w1)" by force
  obtain b h1 where g: "getBreaker now (tg_Provider target) (tg_Model target) (tg_Region target) h = Some (b, h1)"
    and ok1: "breakers_ok h1" and f1: "plan_frame h h1" by (rule getBreaker_total [OF Cons.prems])
  obtain now2 w2 where t2: "ev_now E w1 = (now2, w2)" by force
  obtain al b2 where al: "localAllow now2 b = (al, b2)" by force
  let ?h2 = "set_breaker ?k b2 h1"
  have ok2: "breakers_ok ?h2" by (rule set_breaker_ok [OF ok1])
  have f2: "plan_frame h ?h2" by (rule plan_frame_trans [OF f1 set_breaker_frame(1)])
  note N2 = attempts_frame [OF f2]
  have step: "plan_loop E req (target # targets) lastErr tot h w =
    (if \<not> al then plan_loop E req targets (Some (OtherError (''circuit breaker open for provider: '' @ tg_Provider target))) tot ?h2 w2
     else case ev_adapter E (tg_Provider target) of
            None \<Rightarrow> plan_loop E req targets (Some (OtherError (''provider adapter is not configured: '' @ tg_Provider target))) tot ?h2 w2
          | Some call \<Rightarrow>
              (case try_target E call req target 1 ?N b2 (OtherError '''') tot ?h2 w2 of
                 (Answered resp, tot, h, w) \<Rightarrow> Some ((Inr resp, target, tot), h, w)
               | (Cancelled err, tot, h, w) \<Rightarrow> Some ((Inl err, zero_Target, tot), h, w)
               | (GaveUp err, tot, h, w) \<Rightarrow> plan_loop E req targets (Some err) tot h w))"
    by (simp add: t1 t2 g al N2 split: option.split)
  have rest: "\<exists>res tg tot' h' w'. plan_loop E req targets le tt hh ww = Some ((res, tg, tot'), h', w')
     \<and> breakers_ok h' \<and> plan_frame h h' \<and> tot \<le> tot' \<and> tot' \<le> tot + int (length (target # targets) * ?N)
     \<and> (case res of Inl e \<Rightarrow> tg = zero_Target | Inr resp \<Rightarrow> tg \<in> set (target # targets) \<and> ev_adapter E (tg_Provider tg) \<noteq> None)"
    if hh: "breakers_ok hh" "plan_frame h hh" "tot \<le> tt" "tt \<le> tot + int ?N" for le tt hh ww
  proof -
    from Cons.IH [OF hh(1), of le tt ww] attempts_frame [OF hh(2)] obtain res tg tot' h' w' where
      p: "plan_loop E req targets le tt hh ww = Some ((res, tg, tot'), h', w')" "breakers_ok h'" "plan_frame hh h'"
      "tt \<le> tot'" "tot' \<le> tt + int (length targets * ?N)"
      "case res of Inl e \<Rightarrow> tg = zero_Target | Inr resp \<Rightarrow> tg \<in> set targets \<and> ev_adapter E (tg_Provider tg) \<noteq> None" by auto
    have "tot' \<le> tot + int (length (target # targets) * ?N)" using p(5) hh(4) by (simp add: algebra_simps)
    moreover have "tot \<le> tot'" using p(4) hh(3) by simp
    moreover note plan_frame_trans [OF hh(2) p(3)]
    ultimately show ?thesis using p(1,2,6) by (auto split: sum.splits)
  qed
  show ?case
  proof (cases "al \<and> ev_adapter E (tg_Provider target) \<noteq> None")
    case False
    then show ?thesis using rest [OF ok2 f2] step by (cases al) auto
  next
    case True
    then obtain call where call: "ev_adapter E (tg_Provider target) = Some call" by auto
    obtain out tot' h' w' where tt: "try_target E call req target 1 ?N b2 (OtherError '''') tot ?h2 w2 = (out, tot', h', w')"
      by (metis prod_cases4)
    from try_target_spec [OF tt] have s: "plan_frame ?h2 h'" "tot \<le> tot'" "tot' \<le> tot + int ?N" "breakers_ok h'"
      using ok2 by auto
    note f3 = plan_frame_trans [OF f2 s(1)]
    have b3: "tot' \<le> tot + int (length (target # targets) * ?N)"
      by (rule order_trans [OF s(3)]) simp
    show ?thesis
    proof (cases out)
      case (GaveUp e)
      then show ?thesis using rest [OF s(4) f3 s(2,3)] step True call tt by simp
    qed (use step True call tt s f3 b3 in auto)
  qed
qed

text \<open>An answer comes from the adapter of its target.\<close>

lemma try_target_answer:
  assumes "try_target E call req target attempt n b lastErr tot h w = (Answered resp, tot', h', w')"
  shows "\<exists>key w1 w2. call req target key w1 = (Inr resp, w2)"
  using assms
  by (induction n arbitrary: attempt b lastErr tot h w)
    (auto simp: Let_def split: prod.splits sum.splits if_splits option.splits intro: exI)

lemma plan_loop_answer:
  assumes "plan_loop E req targets lastErr tot h w = Some ((Inr resp, tg, n), h', w')"
  shows "\<exists>call key w1 w2. ev_adapter E (tg_Provider tg) = Some call \<and> call req tg key w1 = (Inr resp, w2)"
  using assms
  by (induction targets arbitrary: lastErr tot h w)
    (auto simp: Let_def dest: try_target_answer split: prod.splits option.splits if_splits target_outcome.splits)

lemma executePlan_returns:
  assumes "breakers_ok h"
  shows "\<exists>res tg n h' w'. executePlan E req targets h w = Some ((res, tg, n), h', w')
     \<and> breakers_ok h' \<and> plan_frame h h' \<and> 0 \<le> n \<and> n \<le> int (length targets * attemptsPerTarget h)
     \<and> (case res of Inl e \<Rightarrow> tg = zero_Target | Inr resp \<Rightarrow> tg \<in> set targets \<and> ev_adapter E (tg_Provider tg) \<noteq> None)"
  using plan_loop_spec [OF assms, of E req targets None 0 w] by (simp add: executePlan_def)

text \<open>C9. Executing a plan always returns: the loop that evicts breakers ends, every target is tried at most the configured number of
  times, an answer names a target of the plan that has an adapter, and a failure names no target. The breaker map keeps
  at most \<^term>\<open>maxBreakers\<close> entries, and nothing but breakers and key rings changes.\<close>

theorem executePlan_total:
  assumes "breakers_ok h"
  shows "\<exists>res tg n h' w'. executePlan E req targets h w = Some ((res, tg, n), h', w')
     \<and> breakers_ok h' \<and> plan_frame h h' \<and> 0 \<le> n \<and> n \<le> int (length targets * attemptsPerTarget h)
     \<and> (case res of Inl e \<Rightarrow> tg = zero_Target | Inr resp \<Rightarrow> tg \<in> set targets \<and> ev_adapter E (tg_Provider tg) \<noteq> None)"
  using assms by (rule executePlan_returns)

section \<open>An open breaker shields its provider\<close>

text \<open>The breaker of a target is open up to the time \<open>T\<close>.\<close>

definition open_until :: "gotime \<Rightarrow> (string, breakerEntry) gomap \<Rightarrow> Target \<Rightarrow> bool" where
  "open_until T m target \<longleftrightarrow>
     (\<exists>e. gm_get m (breaker_key (tg_Provider target) (tg_Model target) (tg_Region target)) = Some e
        \<and> br_threshold (bk_breaker e) \<le> br_failures (bk_breaker e)
        \<and> (\<forall>now \<le> T. \<not> br_cooldown (bk_breaker e) < time_Sub now (br_openedAt (bk_breaker e))))"

lemma open_until_touch:
  assumes "open_until T m target" and "gm_get m k = Some e"
  shows "open_until T (gm_set k (e\<lparr>bk_lastAccess := t\<rparr>) m) target"
  using assms by (auto simp: open_until_def gm_get_set)

lemma plan_loop_shielded:
  assumes clock: "\<And>w. fst (ev_now E w) \<le> T"
    and "\<forall>target \<in> set targets. open_until T (h_breakers h) target"
  shows "\<exists>e h' w'. plan_loop E req targets lastErr tot h w = Some ((Inl e, zero_Target, tot), h', w') \<and> h_keys h' = h_keys h"
  using assms(2)
proof (induction targets arbitrary: lastErr h w)
  case Nil
  then show ?case by simp
next
  case (Cons target targets)
  let ?k = "breaker_key (tg_Provider target) (tg_Model target) (tg_Region target)"
  obtain e where e: "gm_get (h_breakers h) ?k = Some e" and thr: "br_threshold (bk_breaker e) \<le> br_failures (bk_breaker e)"
    and cool: "\<forall>now \<le> T. \<not> br_cooldown (bk_breaker e) < time_Sub now (br_openedAt (bk_breaker e))"
    using Cons.prems by (auto simp: open_until_def)
  obtain now w1 where t1: "ev_now E w = (now, w1)" by force
  obtain now2 w2 where t2: "ev_now E w1 = (now2, w2)" by force
  have "now2 \<le> T" using clock [of w1] t2 by simp
  with thr cool have al: "localAllow now2 (bk_breaker e) = (False, bk_breaker e)" by (simp add: localAllow_def)
  let ?h1 = "h\<lparr>h_breakers := gm_set ?k (e\<lparr>bk_lastAccess := now\<rparr>) (h_breakers h)\<rparr>"
  let ?h2 = "set_breaker ?k (bk_breaker e) ?h1"
  have h2: "h_breakers ?h2 = gm_set ?k (e\<lparr>bk_lastAccess := now\<rparr>) (gm_set ?k (e\<lparr>bk_lastAccess := now\<rparr>) (h_breakers h))"
    by (simp add: set_breaker_def gm_get_set)
  have "\<forall>t \<in> set targets. open_until T (h_breakers ?h2) t"
    using Cons.prems e by (auto simp: h2 open_until_def gm_get_set)
  from Cons.IH [OF this] show ?case
    using set_breaker_frame(2) [of ?k "bk_breaker e" ?h1] by (simp add: t1 t2 getBreaker_def e al Let_def)
qed

text \<open>C10. While the breakers of all the targets of a plan are open, no provider is called: the plan fails without an attempt, and the
  key rings are not touched.\<close>

theorem open_breakers_shield:
  assumes "\<And>w. fst (ev_now E w) \<le> T" and "\<forall>target \<in> set targets. open_until T (h_breakers h) target"
  shows "\<exists>e h' w'. executePlan E req targets h w = Some ((Inl e, zero_Target, 0), h', w') \<and> h_keys h' = h_keys h"
  unfolding executePlan_def using assms by (rule plan_loop_shielded)

section \<open>Delays\<close>

lemma backoff_loop_range:
  assumes "0 < delay" and "delay \<le> 2 ^ 61" and "0 < maxDelay" and "maxDelay \<le> 2 ^ 61"
  shows "0 < backoff_loop n maxDelay delay \<and> backoff_loop n maxDelay delay \<le> max delay maxDelay"
  using assms
proof (induction n arbitrary: delay)
  case 0
  then show ?case by simp
next
  case (Suc n)
  have w: "wrap64 (delay * 2) = delay * 2"
    using Suc.prems by (intro wrap64_id) (simp add: in_int64_def min_int64_def max_int64_def)
  show ?case
  proof (cases "maxDelay < delay * 2")
    case True
    with Suc.prems show ?thesis by (simp add: w)
  next
    case False
    with Suc.prems Suc.IH [of "delay * 2"] show ?thesis by (simp add: w max_def split: if_splits)
  qed
qed

end
