(* ===== verification/Key_Store.thy ===== *)
theory Key_Store
  imports Json
begin

text \<open>
  Virtual keys in the database, \<^verbatim>\<open>internal/store/keys.go\<close>. The table \<^verbatim>\<open>virtual_keys\<close> is a list of rows and a query
  does what its SQL text says; \<^verbatim>\<open>now()\<close> of the database is an argument, and so is
  \<^verbatim>\<open>bcrypt.CompareHashAndPassword\<close>. A table that cannot be reached is \<^term>\<open>None\<close>.

  The lemmas show which keys a token finds, that rotation replaces a token, and when a list of names
  survives its encoding as a text array.
\<close>

section \<open>Rows\<close>

record VirtualKey =
  vk_ID :: string
  vk_ProjectID :: string
  vk_KeyPrefix :: string
  vk_KeyHash :: string
  vk_Name :: string
  vk_AllowedModels :: "string list"
  vk_AllowedProviders :: "string list"
  vk_AllowedTools :: "string list"
  vk_RPMLimit :: int
  vk_TPMLimit :: int
  vk_BudgetLimitUSD :: f64
  vk_BudgetPeriod :: string
  vk_ExpiresAt :: "gotime option"
  vk_RevokedAt :: "gotime option"
  vk_CreatedAt :: gotime
  vk_AllowMCPServer :: bool
  vk_MCPToolName :: string

section \<open>Lists of names as text arrays\<close>

definition needs_quotes :: "string \<Rightarrow> bool" where
  "needs_quotes item \<longleftrightarrow> list_ex (\<lambda>c. c \<in> {CHR ''{'', CHR ''}'', CHR '','', CHR 0x22}) item"

definition escape_item :: "string \<Rightarrow> string" where
  "escape_item item =
     (if needs_quotes item
      then CHR 0x22 # concat (map (\<lambda>c. if c = CHR 0x22 then [CHR 0x5C, CHR 0x22] else [c]) item) @ [CHR 0x22]
      else item)"

fun join_commas :: "string list \<Rightarrow> string" where
  "join_commas [] = ''''"
| "join_commas [x] = x"
| "join_commas (x # xs) = x @ '','' @ join_commas xs"

definition arrayString :: "string list \<Rightarrow> string" where
  "arrayString items = (if items = [] then ''{}'' else ''{'' @ join_commas (map escape_item items) @ ''}'')"

definition trim_braces :: "string \<Rightarrow> string" where
  "trim_braces s =
     (let b = (\<lambda>c. c = CHR ''{'' \<or> c = CHR ''}'') in rev (dropWhile b (rev (dropWhile b s))))"

text \<open>The loop of \<^verbatim>\<open>parseArrayString\<close> with its variables \<^verbatim>\<open>inQuotes\<close>, \<^verbatim>\<open>buf\<close> and \<^verbatim>\<open>result\<close>.\<close>

fun parse_items :: "bool \<Rightarrow> string \<Rightarrow> string list \<Rightarrow> string \<Rightarrow> string list" where
  "parse_items q buf result [] = (if buf \<noteq> '''' then result @ [buf] else result)"
| "parse_items True buf result (ch # s) =
     (if ch = CHR 0x22
      then (case s of
              d # s' \<Rightarrow> if d = CHR 0x22 then parse_items True (buf @ [CHR 0x22]) result s'
                        else parse_items False buf result s
            | [] \<Rightarrow> parse_items False buf result s)
      else if ch = CHR 0x5C
      then (case s of
              d # s' \<Rightarrow> if d = CHR 0x22 then parse_items True (buf @ [CHR 0x22]) result s'
                        else parse_items True (buf @ [ch]) result s
            | [] \<Rightarrow> parse_items True (buf @ [ch]) result s)
      else parse_items True (buf @ [ch]) result s)"
| "parse_items False buf result (ch # s) =
     (if ch = CHR 0x22 then parse_items True buf result s
      else if ch = CHR '','' then parse_items False '''' (if buf \<noteq> '''' then result @ [buf] else result) s
      else parse_items False (buf @ [ch]) result s)"

definition parseArrayString :: "string \<Rightarrow> string list" where
  "parseArrayString s = (let s = trim_braces s in if s = '''' then [] else parse_items False '''' [] s)"

section \<open>Queries\<close>

datatype store_error = DBError string | NoMatch | ErrNotFound | KeyRevoked | NegativeBudget

definition active_at :: "gotime \<Rightarrow> VirtualKey \<Rightarrow> bool" where
  "active_at now k \<longleftrightarrow> vk_RevokedAt k = None \<and> (case vk_ExpiresAt k of None \<Rightarrow> True | Some t \<Rightarrow> now < t)"

text \<open>\<^verbatim>\<open>ORDER BY created_at DESC\<close>.\<close>

fun insert_newest :: "VirtualKey \<Rightarrow> VirtualKey list \<Rightarrow> VirtualKey list" where
  "insert_newest k [] = [k]"
| "insert_newest k (l # ls) = (if vk_CreatedAt l < vk_CreatedAt k then k # l # ls else l # insert_newest k ls)"

definition newest_first :: "VirtualKey list \<Rightarrow> VirtualKey list" where
  "newest_first ks = fold insert_newest ks []"

definition key_prefix_of :: "string \<Rightarrow> string" where
  "key_prefix_of token = take 8 token"

definition LookupVirtualKeyByToken ::
  "(string \<Rightarrow> string \<Rightarrow> bool) \<Rightarrow> gotime \<Rightarrow> VirtualKey list option \<Rightarrow> string \<Rightarrow> store_error + VirtualKey" where
  "LookupVirtualKeyByToken compare now db token =
     (case db of
        None \<Rightarrow> Inl (DBError ''connection'')
      | Some table \<Rightarrow>
          (case find (\<lambda>k. compare (vk_KeyHash k) token)
                  (newest_first (filter (\<lambda>k. active_at now k \<and> vk_KeyPrefix k = key_prefix_of token) table)) of
             Some k \<Rightarrow> Inr k
           | None \<Rightarrow> Inl NoMatch))"

definition ListVirtualKeysForMCP :: "gotime \<Rightarrow> VirtualKey list option \<Rightarrow> string \<Rightarrow> store_error + VirtualKey list" where
  "ListVirtualKeysForMCP now db toolName =
     (case db of
        None \<Rightarrow> Inl (DBError ''connection'')
      | Some table \<Rightarrow> Inr (newest_first (filter (\<lambda>k. vk_AllowMCPServer k \<and> active_at now k
            \<and> (toolName = '''' \<or> vk_MCPToolName k = toolName)) table)))"

definition GetVirtualKeyByID :: "VirtualKey list \<Rightarrow> string \<Rightarrow> VirtualKey option" where
  "GetVirtualKeyByID table i = find (\<lambda>k. vk_ID k = i) table"

text \<open>
  The columns of names have the type \<^verbatim>\<open>TEXT[]\<close>: the database reads the literal it is sent and prints an array back.
  What it prints for a literal is the parameter \<open>pg\<close>.
\<close>

definition stored_names :: "(string \<Rightarrow> string) \<Rightarrow> string list \<Rightarrow> string list" where
  "stored_names pg items = parseArrayString (pg (arrayString items))"

definition CreateVirtualKey ::
  "(string \<Rightarrow> string) \<Rightarrow> string \<Rightarrow> gotime \<Rightarrow> VirtualKey \<Rightarrow> VirtualKey list \<Rightarrow> VirtualKey list" where
  "CreateVirtualKey pg newID now key table =
     table @ [key\<lparr>vk_ID := newID, vk_CreatedAt := now, vk_RevokedAt := None,
                  vk_AllowedModels := stored_names pg (vk_AllowedModels key),
                  vk_AllowedProviders := stored_names pg (vk_AllowedProviders key),
                  vk_AllowedTools := stored_names pg (vk_AllowedTools key)\<rparr>]"

definition ListVirtualKeys :: "VirtualKey list option \<Rightarrow> string \<Rightarrow> int \<Rightarrow> int \<Rightarrow> store_error + VirtualKey list" where
  "ListVirtualKeys db projectID offset limit =
     (case db of
        None \<Rightarrow> Inl (DBError ''connection'')
      | Some table \<Rightarrow>
          let ks = map (\<lambda>k. k\<lparr>vk_KeyHash := ''''\<rparr>)
                     (newest_first (filter (\<lambda>k. projectID = '''' \<or> vk_ProjectID k = projectID) table))
          in if 0 < limit
             then if offset < 0 then Inl (DBError ''OFFSET must not be negative'')
                  else Inr (take (nat limit) (drop (nat offset) ks))
             else Inr ks)"

definition CountVirtualKeys :: "VirtualKey list option \<Rightarrow> string \<Rightarrow> store_error + nat" where
  "CountVirtualKeys db projectID =
     (case db of
        None \<Rightarrow> Inl (DBError ''connection'')
      | Some table \<Rightarrow> Inr (length (filter (\<lambda>k. projectID = '''' \<or> vk_ProjectID k = projectID) table)))"

definition LookupVirtualKeyByHash :: "VirtualKey list option \<Rightarrow> string \<Rightarrow> store_error + VirtualKey" where
  "LookupVirtualKeyByHash db keyHash =
     (case db of
        None \<Rightarrow> Inl (DBError ''connection'')
      | Some table \<Rightarrow>
          (case find (\<lambda>k. vk_KeyHash k = keyHash \<and> vk_RevokedAt k = None) table of
             Some k \<Rightarrow> Inr (k\<lparr>vk_KeyHash := ''''\<rparr>)
           | None \<Rightarrow> Inl (DBError ''no rows'')))"

text \<open>
  \<^verbatim>\<open>UpdateVirtualKey\<close> gets decoded JSON values by column name. How the database turns a value into a column, and
  whether it accepts it, is the parameter \<open>set_column\<close>; \<open>fmt_v\<close> is the format \<^verbatim>\<open>%v\<close>.
\<close>

definition UpdatableVirtualKeyFields :: "string list" where
  "UpdatableVirtualKeyFields =
     [''name'', ''rpm_limit'', ''tpm_limit'', ''budget_limit_usd'', ''budget_period'', ''allowed_models'',
      ''allowed_providers'', ''expires_at'']"

definition column_value :: "(json \<Rightarrow> string) \<Rightarrow> string \<Rightarrow> json \<Rightarrow> json" where
  "column_value fmt_v field val =
     (if field = ''allowed_models'' \<or> field = ''allowed_providers''
      then (case val of JArr slice \<Rightarrow> JStr (arrayString (map fmt_v slice)) | _ \<Rightarrow> val)
      else val)"

definition set_clauses :: "(json \<Rightarrow> string) \<Rightarrow> (string, json) gomap \<Rightarrow> (string \<times> json) list" where
  "set_clauses fmt_v updates =
     List.map_filter (\<lambda>field. map_option (\<lambda>val. (field, column_value fmt_v field val)) (gm_get updates field))
       UpdatableVirtualKeyFields"

fun set_columns ::
  "(string \<Rightarrow> json \<Rightarrow> VirtualKey \<Rightarrow> VirtualKey option) \<Rightarrow> (string \<times> json) list \<Rightarrow> VirtualKey \<Rightarrow> VirtualKey option" where
  "set_columns set_column [] k = Some k"
| "set_columns set_column ((field, val) # sets) k =
     (case set_column field val k of None \<Rightarrow> None | Some k' \<Rightarrow> set_columns set_column sets k')"

definition negative_budget :: "(string, json) gomap \<Rightarrow> bool" where
  "negative_budget updates =
     (case gm_get updates ''budget_limit_usd'' of Some (JInt n) \<Rightarrow> n < 0 | Some (JDec f) \<Rightarrow> f < 0 | _ \<Rightarrow> False)"

definition UpdateVirtualKey ::
  "(json \<Rightarrow> string) \<Rightarrow> (string \<Rightarrow> json \<Rightarrow> VirtualKey \<Rightarrow> VirtualKey option) \<Rightarrow> string \<Rightarrow> (string, json) gomap
   \<Rightarrow> VirtualKey list \<Rightarrow> (store_error + unit) \<times> VirtualKey list" where
  "UpdateVirtualKey fmt_v set_column i updates table =
     (if negative_budget updates then (Inl NegativeBudget, table)
      else let sets = set_clauses fmt_v updates;
               rows = filter (\<lambda>k. vk_ID k = i) table
           in if sets = [] then (if rows = [] then Inl ErrNotFound else Inr (), table)
              else if list_ex (\<lambda>k. set_columns set_column sets k = None) rows
              then (Inl (DBError ''rejected value''), table)
              else (if rows = [] then Inl ErrNotFound else Inr (),
                    map (\<lambda>k. if vk_ID k = i then the (set_columns set_column sets k) else k) table))"

definition RevokeVirtualKey :: "gotime \<Rightarrow> string \<Rightarrow> VirtualKey list \<Rightarrow> bool \<times> VirtualKey list" where
  "RevokeVirtualKey now i table =
     (list_ex (\<lambda>k. vk_ID k = i \<and> vk_RevokedAt k = None) table,
      map (\<lambda>k. if vk_ID k = i \<and> vk_RevokedAt k = None then k\<lparr>vk_RevokedAt := Some now\<rparr> else k) table)"

definition RotateVirtualKey ::
  "string \<Rightarrow> string \<Rightarrow> string \<Rightarrow> VirtualKey list \<Rightarrow> (store_error + VirtualKey) \<times> VirtualKey list" where
  "RotateVirtualKey i rawKey hash table =
     (case GetVirtualKeyByID table i of
        None \<Rightarrow> (Inl ErrNotFound, table)
      | Some existing \<Rightarrow>
          if vk_RevokedAt existing \<noteq> None then (Inl KeyRevoked, table)
          else let table' = map (\<lambda>k. if vk_ID k = i \<and> vk_RevokedAt k = None
                                     then k\<lparr>vk_KeyHash := hash, vk_KeyPrefix := key_prefix_of rawKey\<rparr> else k) table
               in (case GetVirtualKeyByID table' i of
                     None \<Rightarrow> (Inl (DBError ''no rows''), table')
                   | Some updated \<Rightarrow> (Inr updated, table')))"

section \<open>What a token finds\<close>

lemma set_insert_newest [simp]: "set (insert_newest k ls) = insert k (set ls)"
  by (induction ls) auto

lemma set_newest_first [simp]: "set (newest_first ks) = set ks"
proof -
  have "set (fold insert_newest ks acc) = set ks \<union> set acc" for acc
    by (induction ks arbitrary: acc) auto
  then show ?thesis by (simp add: newest_first_def)
qed

definition key_matches :: "(string \<Rightarrow> string \<Rightarrow> bool) \<Rightarrow> gotime \<Rightarrow> string \<Rightarrow> VirtualKey \<Rightarrow> bool" where
  "key_matches compare now token k \<longleftrightarrow>
     active_at now k \<and> vk_KeyPrefix k = key_prefix_of token \<and> compare (vk_KeyHash k) token"

lemma Lookup_sound:
  assumes "LookupVirtualKeyByToken cmp now (Some table) token = Inr k"
  shows "k \<in> set table \<and> key_matches cmp now token k"
proof -
  from assms have "find (\<lambda>k. cmp (vk_KeyHash k) token)
      (newest_first (filter (\<lambda>k. active_at now k \<and> vk_KeyPrefix k = key_prefix_of token) table)) = Some k"
    by (auto simp: LookupVirtualKeyByToken_def split: option.splits)
  from find_SomeD [OF this] show ?thesis by (simp add: key_matches_def)
qed

lemma Lookup_complete:
  assumes "k \<in> set table" and "key_matches cmp now token k"
  shows "\<exists>k'. LookupVirtualKeyByToken cmp now (Some table) token = Inr k'"
proof (cases "find (\<lambda>k. cmp (vk_KeyHash k) token)
    (newest_first (filter (\<lambda>k. active_at now k \<and> vk_KeyPrefix k = key_prefix_of token) table))")
  case None
  with assms show ?thesis by (auto simp: find_None_iff key_matches_def)
next
  case (Some k')
  then show ?thesis by (simp add: LookupVirtualKeyByToken_def)
qed

text \<open>A token finds a key exactly when the table holds a key that is not revoked, has not expired, has
  the prefix of the token and a hash that bcrypt accepts for it; the key that is returned is one
  of those.\<close>

theorem token_lookup_exact:
  "((\<exists>k. LookupVirtualKeyByToken cmp now (Some table) token = Inr k) \<longleftrightarrow> (\<exists>k \<in> set table. key_matches cmp now token k))
   \<and> (\<forall>k. LookupVirtualKeyByToken cmp now (Some table) token = Inr k \<longrightarrow> k \<in> set table \<and> key_matches cmp now token k)"
  using Lookup_sound Lookup_complete by meson

theorem token_lookup_exact_witness:
  "\<not> (\<exists>k. LookupVirtualKeyByToken (\<lambda>h t. h = t) 5 (Some []) ''gw-12345678'' = Inr k)"
  using token_lookup_exact [of "\<lambda>h t. h = t" 5 "[]" "''gw-12345678''"] by simp

text \<open>A revoked key is dead in the database: after \<^verbatim>\<open>RevokeVirtualKey\<close> no token finds a key with that
  identifier any more, at any time.\<close>

theorem revoked_key_not_found:
  assumes "LookupVirtualKeyByToken cmp now (Some (snd (RevokeVirtualKey t i table))) token = Inr k"
  shows "vk_ID k \<noteq> i \<and> k \<in> set table"
  using Lookup_sound [OF assms] by (auto simp: RevokeVirtualKey_def key_matches_def active_at_def split: if_splits)

definition example_key :: VirtualKey where
  "example_key = \<lparr>vk_ID = ''k1'', vk_ProjectID = ''p'', vk_KeyPrefix = ''gw-12345'', vk_KeyHash = ''gw-12345678'',
     vk_Name = ''n'', vk_AllowedModels = [], vk_AllowedProviders = [], vk_AllowedTools = [], vk_RPMLimit = 0,
     vk_TPMLimit = 0, vk_BudgetLimitUSD = 0, vk_BudgetPeriod = '''', vk_ExpiresAt = None, vk_RevokedAt = None,
     vk_CreatedAt = 1, vk_AllowMCPServer = False, vk_MCPToolName = ''''\<rparr>"

definition example_table :: "VirtualKey list" where
  "example_table = [example_key, example_key\<lparr>vk_ID := ''k2'', vk_CreatedAt := 2\<rparr>]"

theorem revoked_key_not_found_witness:
  "\<exists>k. LookupVirtualKeyByToken (\<lambda>h t. h = t) 9 (Some (snd (RevokeVirtualKey 5 ''k2'' example_table))) ''gw-12345678'' = Inr k
     \<and> vk_ID k \<noteq> ''k2''"
proof -
  have "LookupVirtualKeyByToken (\<lambda>h t. h = t) 9 (Some (snd (RevokeVirtualKey 5 ''k2'' example_table))) ''gw-12345678'' = Inr example_key"
    by (simp add: LookupVirtualKeyByToken_def RevokeVirtualKey_def example_table_def example_key_def active_at_def
        key_prefix_of_def newest_first_def)
  with revoked_key_not_found [OF this] show ?thesis by blast
qed

lemma Rotate_table:
  assumes "RotateVirtualKey i rawKey hash table = (Inr k, table')"
  shows "table' = map (\<lambda>k. if vk_ID k = i \<and> vk_RevokedAt k = None
      then k\<lparr>vk_KeyHash := hash, vk_KeyPrefix := key_prefix_of rawKey\<rparr> else k) table"
    and "\<exists>old \<in> set table. vk_ID old = i \<and> vk_RevokedAt old = None"
proof -
  from assms obtain old where old: "GetVirtualKeyByID table i = Some old" "vk_RevokedAt old = None"
    by (auto simp: RotateVirtualKey_def split: option.splits if_splits)
  with assms show "table' = map (\<lambda>k. if vk_ID k = i \<and> vk_RevokedAt k = None
      then k\<lparr>vk_KeyHash := hash, vk_KeyPrefix := key_prefix_of rawKey\<rparr> else k) table"
    by (auto simp: RotateVirtualKey_def Let_def split: option.splits)
  from old show "\<exists>old \<in> set table. vk_ID old = i \<and> vk_RevokedAt old = None"
    unfolding GetVirtualKeyByID_def using find_SomeD by fastforce
qed

text \<open>Rotating a key replaces its token: after a rotation the new raw key finds a key (unless it has
  expired), and a token that bcrypt rejects for the new hash finds no key with that identifier.\<close>

theorem rotation_replaces_token:
  assumes "RotateVirtualKey i rawKey hash table = (Inr k, table')" and "cmp hash rawKey"
    and "\<forall>old \<in> set table. vk_ID old = i \<longrightarrow> vk_ExpiresAt old = None"
  shows "(\<exists>k'. LookupVirtualKeyByToken cmp now (Some table') rawKey = Inr k')
    \<and> (\<forall>token k'. \<not> cmp hash token \<and> LookupVirtualKeyByToken cmp now (Some table') token = Inr k' \<longrightarrow> vk_ID k' \<noteq> i)"
proof -
  let ?up = "\<lambda>k. if vk_ID k = i \<and> vk_RevokedAt k = None
      then k\<lparr>vk_KeyHash := hash, vk_KeyPrefix := key_prefix_of rawKey\<rparr> else k"
  from Rotate_table [OF assms(1)] obtain old where t: "table' = map ?up table"
    and old: "old \<in> set table" "vk_ID old = i" "vk_RevokedAt old = None" by blast
  have "?up old \<in> set table'" using t old(1) by simp
  moreover have "key_matches cmp now rawKey (?up old)"
    using old assms(2,3) by (simp add: key_matches_def active_at_def)
  ultimately have "\<exists>k'. LookupVirtualKeyByToken cmp now (Some table') rawKey = Inr k'" by (rule Lookup_complete)
  moreover have "vk_ID k' \<noteq> i" if "\<not> cmp hash token" "LookupVirtualKeyByToken cmp now (Some table') token = Inr k'" for token k'
  proof
    assume i: "vk_ID k' = i"
    note found = Lookup_sound [OF that(2)]
    obtain k0 where "k0 \<in> set table" and k': "k' = ?up k0" and m: "key_matches cmp now token k'"
      using found t by auto
    have "vk_RevokedAt k' = None" using m by (simp add: key_matches_def active_at_def)
    with k' i have "vk_KeyHash k' = hash" by (simp split: if_split_asm)
    with m that(1) show False by (simp add: key_matches_def)
  qed
  ultimately show ?thesis by blast
qed

theorem rotation_replaces_token_witness:
  "\<exists>k'. LookupVirtualKeyByToken (\<lambda>h t. h = t) 9 (Some (snd (RotateVirtualKey ''k1'' ''gw-abcdefgh'' ''gw-abcdefgh'' [example_key])))
     ''gw-abcdefgh'' = Inr k'"
proof -
  obtain k table' where r: "RotateVirtualKey ''k1'' ''gw-abcdefgh'' ''gw-abcdefgh'' [example_key] = (Inr k, table')"
    by (simp add: RotateVirtualKey_def GetVirtualKeyByID_def example_key_def Let_def)
  with rotation_replaces_token [OF r, of "\<lambda>h t. h = t" 9] show ?thesis
    by (simp add: example_key_def)
qed

section \<open>Updates\<close>

lemma set_columns_frame:
  assumes "\<And>field val k k'. field \<in> set UpdatableVirtualKeyFields \<Longrightarrow> set_column field val k = Some k' \<Longrightarrow> view k' = view k"
  shows "fst ` set sets \<subseteq> set UpdatableVirtualKeyFields \<Longrightarrow> set_columns set_column sets k = Some k' \<Longrightarrow> view k' = view k"
proof (induction sets arbitrary: k)
  case (Cons s sets)
  obtain field val where s: "s = (field, val)" by force
  with Cons.prems obtain k1 where k1: "set_column field val k = Some k1" and "set_columns set_column sets k1 = Some k'"
    by (auto split: option.splits)
  with Cons have "view k' = view k1" by auto
  also have "\<dots> = view k" using assms [OF _ k1] Cons.prems(1) s by simp
  finally show ?case .
qed simp

lemma set_clauses_updatable: "fst ` set (set_clauses fmt_v updates) \<subseteq> set UpdatableVirtualKeyFields"
  unfolding set_clauses_def List.map_filter_def by auto

text \<open>The database's assignment to one column changes no other: the law of an \<^verbatim>\<open>UPDATE\<close>, for the columns that carry
  a key's credentials and its life cycle.\<close>

definition credentials :: "VirtualKey \<Rightarrow> string \<times> string \<times> string \<times> string \<times> gotime option" where
  "credentials k = (vk_ID k, vk_ProjectID k, vk_KeyPrefix k, vk_KeyHash k, vk_RevokedAt k)"

definition column_law :: "(string \<Rightarrow> json \<Rightarrow> VirtualKey \<Rightarrow> VirtualKey option) \<Rightarrow> bool" where
  "column_law set_column \<longleftrightarrow> (\<forall>field val k k'. set_column field val k = Some k' \<longrightarrow>
      field \<notin> {''id'', ''project_id'', ''key_prefix'', ''key_hash'', ''revoked_at''} \<longrightarrow> credentials k' = credentials k)"

text \<open>An update through the admin API cannot touch a key's credentials: whatever fields the request names, no row
  of the table changes its identifier, project, prefix, hash or revocation.\<close>

theorem update_keeps_credentials:
  assumes "column_law set_column"
  shows "map credentials (snd (UpdateVirtualKey fmt_v set_column i updates table)) = map credentials table"
proof -
  have step: "credentials k' = credentials k" if "set_columns set_column (set_clauses fmt_v updates) k = Some k'" for k k'
  proof (rule set_columns_frame [OF _ set_clauses_updatable that])
    fix field val k k'
    assume "field \<in> set UpdatableVirtualKeyFields" and "set_column field val k = Some k'"
    with assms show "credentials k' = credentials k"
      unfolding column_law_def UpdatableVirtualKeyFields_def by fastforce
  qed
  have "credentials (if vk_ID k = i then the (set_columns set_column (set_clauses fmt_v updates) k) else k) = credentials k"
    if "\<not> list_ex (\<lambda>k. set_columns set_column (set_clauses fmt_v updates) k = None) (filter (\<lambda>k. vk_ID k = i) table)"
      and "k \<in> set table" for k
    using that step by (auto simp: list_ex_iff)
  then show ?thesis by (simp add: UpdateVirtualKey_def Let_def)
qed

definition example_set_column :: "string \<Rightarrow> json \<Rightarrow> VirtualKey \<Rightarrow> VirtualKey option" where
  "example_set_column field val k =
     (case val of
        JStr s \<Rightarrow> if field = ''name'' then Some (k\<lparr>vk_Name := s\<rparr>)
                  else if field = ''key_hash'' then Some (k\<lparr>vk_KeyHash := s\<rparr>) else None
      | _ \<Rightarrow> None)"

theorem update_keeps_credentials_witness:
  "map credentials (snd (UpdateVirtualKey (\<lambda>_. '''') example_set_column ''k1''
      [(''name'', JStr ''renamed''), (''key_hash'', JStr ''stolen'')] [example_key])) = map credentials [example_key]"
proof -
  have "column_law example_set_column"
    by (auto simp: column_law_def example_set_column_def credentials_def split: json.splits if_splits)
  then show ?thesis by (rule update_keeps_credentials)
qed

section \<open>Round trip of lists of names\<close>

definition no_backslash :: "string \<Rightarrow> bool" where
  "no_backslash s \<longleftrightarrow> CHR 0x5C \<notin> set s"

lemma parse_plain:
  "\<not> needs_quotes x \<Longrightarrow> parse_items False buf res (x @ s) = parse_items False (buf @ x) res s"
  by (induction x arbitrary: buf) (auto simp: needs_quotes_def)

lemma parse_quoted:
  "no_backslash x \<Longrightarrow> s = [] \<or> hd s \<noteq> CHR 0x22 \<Longrightarrow>
   parse_items True buf res (concat (map (\<lambda>c. if c = CHR 0x22 then [CHR 0x5C, CHR 0x22] else [c]) x) @ CHR 0x22 # s)
     = parse_items False (buf @ x) res s"
proof (induction x arbitrary: buf)
  case Nil
  then show ?case by (cases s) auto
next
  case (Cons c x)
  then show ?case by (auto simp: no_backslash_def)
qed

lemma parse_escaped:
  assumes "no_backslash x" and "s = [] \<or> hd s \<noteq> CHR 0x22"
  shows "parse_items False '''' res (escape_item x @ s) = parse_items False x res s"
  using parse_plain [of x "''''" res s] parse_quoted [OF assms, of "''''" res] by (simp add: escape_item_def)

lemma parse_joined:
  "list_all (\<lambda>x. x \<noteq> '''' \<and> no_backslash x) xs \<Longrightarrow> xs \<noteq> [] \<Longrightarrow>
   parse_items False '''' res (join_commas (map escape_item xs)) = res @ xs"
proof (induction xs arbitrary: res rule: join_commas.induct)
  case (2 x)
  then show ?case using parse_escaped [of x "[]" res] by simp
next
  case (3 x y ys)
  then show ?case using parse_escaped [of x "CHR '','' # join_commas (map escape_item (y # ys))" res] by simp
qed simp

lemma escape_item_ends:
  assumes "x \<noteq> ''''"
  shows "escape_item x \<noteq> '''' \<and> hd (escape_item x) \<notin> {CHR ''{'', CHR ''}''} \<and> last (escape_item x) \<notin> {CHR ''{'', CHR ''}''}"
proof (cases "needs_quotes x")
  case False
  then have "\<forall>c \<in> set x. c \<notin> {CHR ''{'', CHR ''}''}" by (auto simp: needs_quotes_def list_ex_iff)
  with assms False show ?thesis using hd_in_set [OF assms] last_in_set [OF assms] by (simp add: escape_item_def)
next
  case True
  then show ?thesis by (simp add: escape_item_def)
qed

lemma joined_ends:
  "list_all (\<lambda>x. x \<noteq> '''') xs \<Longrightarrow> xs \<noteq> [] \<Longrightarrow>
   join_commas (map escape_item xs) \<noteq> '''' \<and> hd (join_commas (map escape_item xs)) \<notin> {CHR ''{'', CHR ''}''}
   \<and> last (join_commas (map escape_item xs)) \<notin> {CHR ''{'', CHR ''}''}"
proof (induction xs rule: join_commas.induct)
  case (2 x)
  then show ?case using escape_item_ends [of x] by simp
next
  case (3 x y ys)
  then show ?case using escape_item_ends [of x] by (simp add: last_append)
qed simp

lemma trim_braces_inner:
  assumes "s \<noteq> ''''" and "hd s \<notin> {CHR ''{'', CHR ''}''}" and "last s \<notin> {CHR ''{'', CHR ''}''}"
  shows "trim_braces (''{'' @ s @ ''}'') = s"
proof -
  obtain c r where c: "s = c # r" using assms(1) by (cases s) auto
  obtain b l where l: "s = b @ [l]" using assms(1) by (cases s rule: rev_cases) auto
  have "dropWhile (\<lambda>c. c = CHR ''{'' \<or> c = CHR ''}'') (''{'' @ s @ ''}'') = s @ ''}''"
    using assms(2) c by simp
  moreover have "dropWhile (\<lambda>c. c = CHR ''{'' \<or> c = CHR ''}'') (rev (s @ ''}'')) = rev s"
    using assms(3) l by simp
  ultimately show ?thesis by (simp add: trim_braces_def Let_def)
qed

text \<open>Lists of model, provider and tool names survive the database encoding: parsing the text array
  of a list gives the list back, whatever commas, braces and quotes the names contain, as long
  as no name is empty or contains a backslash.\<close>

theorem names_round_trip:
  assumes "list_all (\<lambda>x. x \<noteq> '''' \<and> no_backslash x) items"
  shows "parseArrayString (arrayString items) = items"
proof (cases "items = []")
  case True
  then show ?thesis by (simp add: arrayString_def parseArrayString_def trim_braces_def)
next
  case False
  let ?s = "join_commas (map escape_item items)"
  from assms have "list_all (\<lambda>x. x \<noteq> '''') items" by (simp add: list_all_iff)
  from joined_ends [OF this False] have "trim_braces (''{'' @ ?s @ ''}'') = ?s" and "?s \<noteq> ''''"
    using trim_braces_inner [of ?s] by auto
  with parse_joined [OF assms False, of "[]"] False show ?thesis
    by (simp add: arrayString_def parseArrayString_def)
qed

theorem names_round_trip_witness:
  "parseArrayString (arrayString [''gpt-4o'', ''a,b'', ''{x}'']) = [''gpt-4o'', ''a,b'', ''{x}'']"
  by (rule names_round_trip) (simp add: no_backslash_def)

text \<open>An allow-list whose only name is empty becomes an unrestricted key: its text array is that of
  the empty list, and an empty list of names means that everything is allowed.\<close>

theorem empty_name_unrestricts: "parseArrayString (arrayString ['''']) = []"
  by (simp add: arrayString_def parseArrayString_def trim_braces_def escape_item_def needs_quotes_def)

end
