(* ===== verification/Path_Match.thy ===== *)
theory Path_Match
  imports Gateway_Prelude
begin

text \<open>
  \<^verbatim>\<open>path.Match\<close> of the Go library, which decides the tools a virtual key may call: the algorithm as the library has it, for
  strings of single-byte characters, and its equivalence with the recursive definition of a glob on patterns without
  character classes and escapes.
\<close>

section \<open>The algorithm\<close>

text \<open>\<^verbatim>\<open>path.Match\<close>: \<open>scanChunk\<close> cuts a pattern at its next star, \<open>matchChunk\<close> matches a piece without stars. A malformed
  pattern is \<^term>\<open>None\<close>; a chunk that does not match is \<^term>\<open>Some None\<close>.\<close>

fun scan_body :: "bool \<Rightarrow> string \<Rightarrow> string \<times> string" where
  "scan_body inrange [] = ([], [])"
| "scan_body inrange (c # p) =
     (if c = CHR 0x5C
      then (case p of [] \<Rightarrow> ([c], []) | d # p' \<Rightarrow> apfst (\<lambda>chunk. c # d # chunk) (scan_body inrange p'))
      else if c = CHR ''['' then apfst ((#) c) (scan_body True p)
      else if c = CHR '']'' then apfst ((#) c) (scan_body False p)
      else if c = CHR ''*'' \<and> \<not> inrange then ([], c # p)
      else apfst ((#) c) (scan_body inrange p))"

definition scanChunk :: "string \<Rightarrow> bool \<times> string \<times> string" where
  "scanChunk pattern =
     (let p = dropWhile (\<lambda>c. c = CHR ''*'') pattern in (pattern \<noteq> p, scan_body False p))"

definition getEsc :: "string \<Rightarrow> (char \<times> string) option" where
  "getEsc chunk =
     (case chunk of
        [] \<Rightarrow> None
      | c # cs \<Rightarrow>
          if c = CHR ''-'' \<or> c = CHR '']'' then None
          else let chunk = (if c = CHR 0x5C then cs else chunk)
               in case chunk of [] \<Rightarrow> None | r # nchunk \<Rightarrow> if nchunk = [] then None else Some (r, nchunk))"

lemma getEsc_shorter: "getEsc chunk = Some (r, rest) \<Longrightarrow> length rest < length chunk"
  by (auto simp: getEsc_def Let_def split: list.splits if_splits)

function match_ranges :: "nat \<Rightarrow> nat \<Rightarrow> bool \<Rightarrow> string \<Rightarrow> (bool \<times> string) option" where
  "match_ranges r nrange found chunk =
     (if chunk \<noteq> [] \<and> hd chunk = CHR '']'' \<and> 0 < nrange then Some (found, tl chunk)
      else case getEsc chunk of
             None \<Rightarrow> None
           | Some (lo, chunk') \<Rightarrow>
               (if hd chunk' = CHR ''-''
                then case getEsc (tl chunk') of
                       None \<Rightarrow> None
                     | Some (hi, chunk'') \<Rightarrow> match_ranges r (Suc nrange) (found \<or> of_char lo \<le> r \<and> r \<le> of_char hi) chunk''
                else match_ranges r (Suc nrange) (found \<or> of_char lo \<le> r \<and> r \<le> of_char lo) chunk'))"
  by pat_completeness auto
termination
proof (relation "measure (\<lambda>(r, n, m, chunk). length chunk)", goal_cases)
  case (2 r n m chunk x lo chunk' y hi chunk'')
  then have "length chunk' < length chunk" "length chunk'' < length (tl chunk')" by (auto dest: getEsc_shorter)
  then show ?case by auto
qed (auto dest: getEsc_shorter)

declare match_ranges.simps [simp del]

lemma match_ranges_shorter: "match_ranges r n m chunk = Some (b, rest) \<Longrightarrow> length rest < length chunk"
proof (induction r n m chunk rule: match_ranges.induct)
  case (1 r n m chunk)
  show ?case
  proof (cases "chunk \<noteq> [] \<and> hd chunk = CHR '']'' \<and> 0 < n")
    case True
    with 1(3) show ?thesis by (subst (asm) match_ranges.simps) auto
  next
    case False
    with 1(3) obtain lo c1 where g: "getEsc chunk = Some (lo, c1)"
      by (subst (asm) match_ranges.simps) (auto split: option.splits)
    note s = getEsc_shorter [OF g]
    show ?thesis
    proof (cases "hd c1 = CHR ''-''")
      case True
      with 1(3) False g obtain hi c2 where g2: "getEsc (tl c1) = Some (hi, c2)"
        by (subst (asm) match_ranges.simps) (auto split: option.splits)
      with 1(1) [OF False g refl True g2 refl] 1(3) True False g have "length rest < length c2"
        by (subst (asm) (2) match_ranges.simps) auto
      with getEsc_shorter [OF g2] s show ?thesis by simp
    next
      case False2: False
      with 1(2) [OF False g refl False2] 1(3) False g have "length rest < length c1"
        by (subst (asm) (2) match_ranges.simps) auto
      with s show ?thesis by simp
    qed
  qed
qed

function matchChunk :: "bool \<Rightarrow> string \<Rightarrow> string \<Rightarrow> string option option" where
  "matchChunk failed [] s = Some (if failed then None else Some s)"
| "matchChunk failed (c # chunk) s =
     (let failed = (failed \<or> s = []); s' = (if failed then s else tl s)
      in if c = CHR ''[''
         then (let r = (if failed then 0 else of_char (hd s));
                   (negated, body) = (case chunk of
                       d # ds \<Rightarrow> if d = CHR ''^'' then (True, ds) else (False, chunk) | [] \<Rightarrow> (False, chunk))
               in case match_ranges r 0 False body of
                    None \<Rightarrow> None
                  | Some (found, rest) \<Rightarrow> matchChunk (failed \<or> found = negated) rest s')
         else if c = CHR ''?'' then matchChunk (failed \<or> hd s = CHR ''/'') chunk s'
         else if c = CHR 0x5C
         then (case chunk of [] \<Rightarrow> None | d # ds \<Rightarrow> matchChunk (failed \<or> d \<noteq> hd s) ds s')
         else matchChunk (failed \<or> c \<noteq> hd s) chunk s')"
  by pat_completeness auto
termination
  by (relation "measure (\<lambda>(failed, chunk, s). length chunk)")
    (auto dest!: match_ranges_shorter split: list.splits if_splits)

fun star_search :: "bool \<Rightarrow> string \<Rightarrow> string \<Rightarrow> string option option" where
  "star_search final chunk [] = Some None"
| "star_search final chunk (c # name) =
     (if c = CHR ''/'' then Some None
      else case matchChunk False chunk name of
             None \<Rightarrow> None
           | Some None \<Rightarrow> star_search final chunk name
           | Some (Some t) \<Rightarrow> if final \<and> t \<noteq> [] then star_search final chunk name else Some (Some t))"

lemma scan_body_length: "length (fst (scan_body r p)) + length (snd (scan_body r p)) = length p"
  by (induction r p rule: scan_body.induct) (simp_all split: list.splits)

lemma scan_body_proper: "c \<noteq> CHR ''*'' \<Longrightarrow> fst (scan_body False (c # p)) \<noteq> []"
  by (simp split: list.splits)

lemma dropWhile_same_or_shorter: "dropWhile P xs = xs \<or> length (dropWhile P xs) < length xs"
  by (induction xs) (auto simp: le_imp_less_Suc length_dropWhile_le)

lemma dropWhile_self:
  assumes "dropWhile P (c # q) = c # q"
  shows "\<not> P c"
proof
  assume "P c"
  with assms have "dropWhile P q = c # q" by simp
  with length_dropWhile_le [of P q] show False by simp
qed

lemma scanChunk_shorter:
  assumes "scanChunk pattern = (star, chunk, rest)" and "pattern \<noteq> []"
  shows "length rest < length pattern"
proof -
  let ?p = "dropWhile (\<lambda>c. c = CHR ''*'') pattern"
  from assms(1) have b: "scan_body False ?p = (chunk, rest)" by (simp add: scanChunk_def Let_def)
  have len: "length chunk + length rest = length ?p" using scan_body_length [of False ?p] b by simp
  show ?thesis
  proof (cases "?p = pattern")
    case True
    obtain c q where p: "pattern = c # q" using assms(2) by (cases pattern) auto
    from dropWhile_self [of "\<lambda>c. c = CHR ''*''" c q] True p have "c \<noteq> CHR ''*''" by simp
    from scan_body_proper [OF this, of q] b True p have "chunk \<noteq> []" by simp
    with len True show ?thesis by (cases chunk) simp_all
  next
    case False
    with dropWhile_same_or_shorter [of "\<lambda>c. c = CHR ''*''" pattern] len show ?thesis by simp
  qed
qed

function check_rest :: "string \<Rightarrow> bool option" where
  "check_rest pattern =
     (if pattern = [] then Some False
      else case scanChunk pattern of
             (star, chunk, rest) \<Rightarrow> (case matchChunk False chunk [] of None \<Rightarrow> None | Some _ \<Rightarrow> check_rest rest))"
  by pat_completeness auto
termination
  by (relation "measure length") (auto dest: scanChunk_shorter [OF sym])

declare check_rest.simps [simp del]

function Match :: "string \<Rightarrow> string \<Rightarrow> bool option" where
  "Match pattern name =
     (if pattern = [] then Some (name = [])
      else case scanChunk pattern of
        (star, chunk, rest) \<Rightarrow>
          if star \<and> chunk = [] then Some (CHR ''/'' \<notin> set name)
          else case matchChunk False chunk name of
            None \<Rightarrow> None
          | Some m \<Rightarrow>
              if m \<noteq> None \<and> (m = Some [] \<or> rest \<noteq> []) then Match rest (the m)
              else if star
              then (case star_search (rest = []) chunk name of
                      None \<Rightarrow> None
                    | Some (Some t) \<Rightarrow> Match rest t
                    | Some None \<Rightarrow> check_rest rest)
              else check_rest rest)"
  by pat_completeness auto
termination
  by (relation "measure (length \<circ> fst)") (auto dest: scanChunk_shorter [OF sym])

declare Match.simps [simp del]

section \<open>Globs\<close>

text \<open>What a pattern means: a star stands for any text without a slash, a question mark for one character other than the
  slash, and every other character for itself.\<close>

definition char_fits :: "char \<Rightarrow> char \<Rightarrow> bool" where
  "char_fits c d \<longleftrightarrow> (if c = CHR ''?'' then d \<noteq> CHR ''/'' else c = d)"

fun glob :: "string \<Rightarrow> string \<Rightarrow> bool" where
  "glob [] s \<longleftrightarrow> s = []"
| "glob (c # p) [] \<longleftrightarrow> c = CHR ''*'' \<and> glob p []"
| "glob (c # p) (d # s) \<longleftrightarrow>
     (if c = CHR ''*'' then glob p (d # s) \<or> d \<noteq> CHR ''/'' \<and> glob (c # p) s else char_fits c d \<and> glob p s)"

declare glob.simps [simp del]

definition simple_pattern :: "string \<Rightarrow> bool" where
  "simple_pattern p \<longleftrightarrow> CHR ''['' \<notin> set p \<and> CHR 0x5C \<notin> set p"

definition fits :: "string \<Rightarrow> string \<Rightarrow> bool" where
  "fits chunk s \<longleftrightarrow> length chunk \<le> length s \<and> (\<forall>i < length chunk. char_fits (chunk ! i) (s ! i))"

definition no_slash :: "string \<Rightarrow> bool" where
  "no_slash s \<longleftrightarrow> CHR ''/'' \<notin> set s"

lemma fits_Nil [simp]: "fits [] s"
  by (simp add: fits_def)

lemma fits_Cons: "fits (c # chunk) s \<longleftrightarrow> s \<noteq> [] \<and> char_fits c (hd s) \<and> fits chunk (tl s)"
proof (cases s)
  case (Cons d s')
  have "(\<forall>i < Suc n. P i) \<longleftrightarrow> P 0 \<and> (\<forall>i < n. P (Suc i))" for n and P :: "nat \<Rightarrow> bool"
    using less_Suc_eq_0_disj by auto
  from this [of "length chunk" "\<lambda>i. char_fits ((c # chunk) ! i) (s ! i)"] Cons show ?thesis by (auto simp: fits_def)
qed (simp add: fits_def)

lemma glob_Nil [simp]: "glob [] s \<longleftrightarrow> s = []"
  by (simp add: glob.simps)

lemma glob_literal: "c \<noteq> CHR ''*'' \<Longrightarrow> glob (c # p) s \<longleftrightarrow> s \<noteq> [] \<and> char_fits c (hd s) \<and> glob p (tl s)"
  by (cases s) (simp_all add: glob.simps)

lemma glob_chunk: "CHR ''*'' \<notin> set chunk \<Longrightarrow> glob (chunk @ p) s \<longleftrightarrow> fits chunk s \<and> glob p (drop (length chunk) s)"
proof (induction chunk arbitrary: s)
  case (Cons c chunk)
  then have "c \<noteq> CHR ''*''" and n: "CHR ''*'' \<notin> set chunk" by auto
  from glob_literal [OF this(1)] Cons.IH [OF n, of "tl s"] show ?case by (simp add: fits_Cons drop_Suc conj_assoc)
qed simp

lemma glob_star: "glob (CHR ''*'' # p) s \<longleftrightarrow> (\<exists>i \<le> length s. no_slash (take i s) \<and> glob p (drop i s))"
proof (induction s)
  case Nil
  show ?case by (simp add: glob.simps no_slash_def)
next
  case (Cons c s)
  have "(\<exists>i \<le> length (c # s). no_slash (take i (c # s)) \<and> glob p (drop i (c # s)))
      \<longleftrightarrow> glob p (c # s) \<or> c \<noteq> CHR ''/'' \<and> (\<exists>i \<le> length s. no_slash (take i s) \<and> glob p (drop i s))"
    (is "?l \<longleftrightarrow> ?r")
  proof
    assume ?l
    then obtain i where i: "i \<le> length (c # s)" "no_slash (take i (c # s))" "glob p (drop i (c # s))" by blast
    then show ?r by (cases i) (auto simp: no_slash_def)
  next
    assume ?r
    then show ?l
    proof
      assume "glob p (c # s)"
      then show ?l by (intro exI [of _ 0]) (simp add: no_slash_def)
    next
      assume "c \<noteq> CHR ''/'' \<and> (\<exists>i \<le> length s. no_slash (take i s) \<and> glob p (drop i s))"
      then obtain i where "c \<noteq> CHR ''/''" "i \<le> length s" "no_slash (take i s)" "glob p (drop i s)" by blast
      then show ?l by (intro exI [of _ "Suc i"]) (simp add: no_slash_def)
    qed
  qed
  moreover have "glob (CHR ''*'' # p) (c # s) \<longleftrightarrow> glob p (c # s) \<or> c \<noteq> CHR ''/'' \<and> glob (CHR ''*'' # p) s"
    by (simp add: glob.simps)
  ultimately show ?case using Cons.IH by simp
qed

lemma no_slash_append [simp]: "no_slash (a @ b) \<longleftrightarrow> no_slash a \<and> no_slash b"
  by (auto simp: no_slash_def)

lemma glob_star_star: "glob (CHR ''*'' # CHR ''*'' # p) s \<longleftrightarrow> glob (CHR ''*'' # p) s"
proof
  assume "glob (CHR ''*'' # CHR ''*'' # p) s"
  then obtain i j where "i \<le> length s" "no_slash (take i s)" "j \<le> length (drop i s)" "no_slash (take j (drop i s))"
    "glob p (drop j (drop i s))" unfolding glob_star by blast
  then show "glob (CHR ''*'' # p) s"
    unfolding glob_star by (intro exI [of _ "i + j"]) (simp add: take_add add.commute)
next
  assume "glob (CHR ''*'' # p) s"
  then show "glob (CHR ''*'' # CHR ''*'' # p) s" by (cases s) (simp_all add: glob.simps)
qed

lemma glob_star_skip:
  assumes "no_slash (take i s)" and "glob (CHR ''*'' # p) (drop i s)"
  shows "glob (CHR ''*'' # p) s"
proof (cases "i \<le> length s")
  case True
  from assms(2) obtain j where "j \<le> length (drop i s)" "no_slash (take j (drop i s))" "glob p (drop j (drop i s))"
    unfolding glob_star by blast
  with assms(1) True show ?thesis
    unfolding glob_star by (intro exI [of _ "i + j"]) (simp add: take_add add.commute)
next
  case False
  with assms have "no_slash s" and "glob p []" by (simp_all add: glob.simps)
  then show ?thesis unfolding glob_star by (intro exI [of _ "length s"]) simp
qed

section \<open>The algorithm on simple patterns\<close>

lemma simple_Cons [simp]: "simple_pattern (c # p) \<longleftrightarrow> c \<noteq> CHR ''['' \<and> c \<noteq> CHR 0x5C \<and> simple_pattern p"
  by (auto simp: simple_pattern_def)

lemma simple_Nil [simp]: "simple_pattern []"
  by (simp add: simple_pattern_def)

lemma matchChunk_step:
  "c \<noteq> CHR ''['' \<Longrightarrow> c \<noteq> CHR 0x5C \<Longrightarrow> matchChunk failed (c # chunk) s
   = (if failed \<or> s = [] then matchChunk True chunk s else matchChunk (\<not> char_fits c (hd s)) chunk (tl s))"
  by (auto simp: char_fits_def Let_def)

declare matchChunk.simps(2) [simp del]

lemma matchChunk_failed: "simple_pattern chunk \<Longrightarrow> matchChunk True chunk s = Some None"
  by (induction chunk arbitrary: s) (simp_all add: matchChunk_step)

lemma matchChunk_simple:
  "simple_pattern chunk \<Longrightarrow> matchChunk False chunk s = Some (if fits chunk s then Some (drop (length chunk) s) else None)"
proof (induction chunk arbitrary: s)
  case (Cons c chunk)
  then show ?case
    by (cases s; cases "char_fits c (hd s)") (simp_all add: matchChunk_step matchChunk_failed fits_Cons)
qed simp

lemma scan_body_simple:
  "simple_pattern p \<Longrightarrow> scan_body False p = (takeWhile (\<lambda>c. c \<noteq> CHR ''*'') p, dropWhile (\<lambda>c. c \<noteq> CHR ''*'') p)"
  by (induction p) simp_all

text \<open>A place where the chunk after a star fits; the last chunk has to reach the end.\<close>

definition place :: "bool \<Rightarrow> string \<Rightarrow> nat \<Rightarrow> string \<Rightarrow> bool" where
  "place final chunk i s \<longleftrightarrow> i \<le> length s \<and> no_slash (take i s) \<and> fits chunk (drop i s)
     \<and> (final \<longrightarrow> length s = i + length chunk)"

lemma place_Suc: "place final chunk (Suc i) (c # s) \<longleftrightarrow> c \<noteq> CHR ''/'' \<and> place final chunk i s"
  by (auto simp: place_def no_slash_def)

lemma star_search_simple:
  assumes "simple_pattern chunk"
  shows "case star_search final chunk s of
      None \<Rightarrow> False
    | Some None \<Rightarrow> \<forall>i. \<not> place final chunk (Suc i) s
    | Some (Some t) \<Rightarrow> \<exists>i. place final chunk (Suc i) s \<and> t = drop (Suc i + length chunk) s \<and> (\<forall>j < i. \<not> place final chunk (Suc j) s)"
proof (induction s)
  case Nil
  then show ?case by (simp add: place_def)
next
  case (Cons c s)
  let ?hit = "place final chunk 0 s"
  have hit: "?hit \<longleftrightarrow> fits chunk s \<and> (final \<longrightarrow> drop (length chunk) s = [])"
    by (auto simp: place_def no_slash_def fits_def)
  have all: "(\<forall>i. \<not> place final chunk i s) \<longleftrightarrow> \<not> ?hit \<and> (\<forall>i. \<not> place final chunk (Suc i) s)"
    by (metis not0_implies_Suc)
  show ?case
  proof (cases "c = CHR ''/''")
    case True
    then show ?thesis by (simp add: place_Suc)
  next
    case c: False
    show ?thesis
    proof (cases ?hit)
      case True
      with hit c show ?thesis by (auto simp: matchChunk_simple [OF assms] place_Suc intro!: exI [of _ 0])
    next
      case False
      with hit c have "star_search final chunk (c # s) = star_search final chunk s"
        by (auto simp: matchChunk_simple [OF assms])
      moreover have "\<exists>i. place final chunk i s \<and> t = drop (i + length chunk) s \<and> (\<forall>j < i. \<not> place final chunk j s)"
        if "place final chunk (Suc i) s" "t = drop (Suc i + length chunk) s" "\<forall>j < i. \<not> place final chunk (Suc j) s" for i t
      proof (intro exI [of _ "Suc i"] conjI allI impI that(1,2))
        fix j
        assume "j < Suc i"
        with False that(3) show "\<not> place final chunk j s" by (cases j) simp_all
      qed
      ultimately show ?thesis
        using Cons.IH c False all by (auto simp: place_Suc split: option.splits)
    qed
  qed
qed

text \<open>Between two places of the same chunk lies no slash, so the next star can bridge them: taking the first place is
  enough.\<close>

lemma place_no_slash:
  assumes "fits chunk (drop i s)" and "place False chunk j s" and "i < j"
  shows "k < length chunk \<Longrightarrow> s ! (j + k) \<noteq> CHR ''/''"
proof (induction k rule: less_induct)
  case (less k)
  have len: "j + length chunk \<le> length s" and before: "\<And>l. l < j \<Longrightarrow> s ! l \<noteq> CHR ''/''"
    using assms(2) by (auto simp: place_def fits_def no_slash_def in_set_conv_nth)
  have fj: "char_fits (chunk ! k) (s ! (j + k))" using assms(2) less.prems len by (auto simp: place_def fits_def)
  have fi: "char_fits (chunk ! k) (s ! (i + k))" using assms(1,3) less.prems len by (auto simp: fits_def)
  have "s ! (i + k) \<noteq> CHR ''/''"
  proof (cases "i + k < j")
    case True
    then show ?thesis by (rule before)
  next
    case False
    with less.IH [of "i + k - j"] assms(3) less.prems show ?thesis by simp
  qed
  with fi fj show ?case by (auto simp: char_fits_def split: if_splits)
qed

lemma place_earlier:
  assumes "fits chunk (drop i s)" and "place False chunk j s" and "i \<le> j"
    and "glob (CHR ''*'' # p) (drop (j + length chunk) s)"
  shows "glob (CHR ''*'' # p) (drop (i + length chunk) s)"
proof (cases "i = j")
  case True
  with assms(4) show ?thesis by simp
next
  case False
  let ?n = "length chunk"
  have len: "j + ?n \<le> length s" and before: "\<And>l. l < j \<Longrightarrow> s ! l \<noteq> CHR ''/''"
    using assms(2) by (auto simp: place_def fits_def no_slash_def in_set_conv_nth)
  have "s ! l \<noteq> CHR ''/''" if "l < j + ?n" for l
    using place_no_slash [OF assms(1,2), of "l - j"] before [of l] that False assms(3) by (cases "l < j") simp_all
  then have "no_slash (take (j - i) (drop (i + ?n) s))"
    using len assms(3) by (auto simp: no_slash_def in_set_conv_nth)
  moreover have "drop (j - i) (drop (i + ?n) s) = drop (j + ?n) s" using assms(3) by simp
  ultimately show ?thesis using glob_star_skip [of "j - i" "drop (i + ?n) s" p] assms(4) by simp
qed

lemma glob_stars: "p \<noteq> dropWhile (\<lambda>c. c = CHR ''*'') p \<Longrightarrow> glob p s \<longleftrightarrow> glob (CHR ''*'' # dropWhile (\<lambda>c. c = CHR ''*'') p) s"
proof (induction p)
  case (Cons c p)
  then have c: "c = CHR ''*''" by (simp split: if_splits)
  show ?case
  proof (cases "p = dropWhile (\<lambda>c. c = CHR ''*'') p")
    case True
    with c show ?thesis by simp
  next
    case False
    then obtain q where q: "p = CHR ''*'' # q" by (cases p) (auto split: if_splits)
    with Cons.IH [OF False] c glob_star_star [of q s] show ?thesis by simp
  qed
qed simp

lemma dropWhile_cases: "dropWhile P xs = [] \<or> (\<exists>x r. dropWhile P xs = x # r \<and> \<not> P x)"
  by (induction xs) auto

lemma scan_simple:
  assumes "simple_pattern p" and "p \<noteq> []"
  obtains star chunk rest where "scanChunk p = (star, chunk, rest)" and "simple_pattern chunk" and "simple_pattern rest"
    and "CHR ''*'' \<notin> set chunk" and "rest = [] \<or> (\<exists>r. rest = CHR ''*'' # r)" and "chunk = [] \<Longrightarrow> star \<and> rest = []"
    and "\<And>s. glob p s \<longleftrightarrow> glob ((if star then [CHR ''*''] else []) @ chunk @ rest) s"
proof -
  let ?q = "dropWhile (\<lambda>c. c = CHR ''*'') p"
  let ?chunk = "takeWhile (\<lambda>c. c \<noteq> CHR ''*'') ?q" and ?rest = "dropWhile (\<lambda>c. c \<noteq> CHR ''*'') ?q"
  have q: "simple_pattern ?q" using assms(1) set_dropWhileD by (fastforce simp: simple_pattern_def)
  have "scanChunk p = (p \<noteq> ?q, ?chunk, ?rest)" by (simp add: scanChunk_def Let_def scan_body_simple [OF q])
  moreover have "simple_pattern ?chunk" "simple_pattern ?rest" "CHR ''*'' \<notin> set ?chunk"
    using q set_dropWhileD set_takeWhileD by (fastforce simp: simple_pattern_def)+
  moreover have "?rest = [] \<or> (\<exists>r. ?rest = CHR ''*'' # r)" using dropWhile_cases [of "\<lambda>c. c \<noteq> CHR ''*''" ?q] by blast
  moreover have "p \<noteq> ?q \<and> ?rest = []" if "?chunk = []"
  proof -
    consider "?q = []" | x r where "?q = x # r" "x \<noteq> CHR ''*''" using dropWhile_cases [of "\<lambda>c. c = CHR ''*''" p] by blast
    then have "?q = []" using that by cases simp_all
    then show ?thesis using assms(2) by (metis dropWhile.simps(1))
  qed
  moreover have "glob p s \<longleftrightarrow> glob ((if p \<noteq> ?q then [CHR ''*''] else []) @ ?chunk @ ?rest) s" for s
  proof -
    define q where "q = ?q"
    have "glob p s \<longleftrightarrow> glob ((if p \<noteq> q then [CHR ''*''] else []) @ q) s"
      using glob_stars [of p s] unfolding q_def [symmetric] by (cases "p = q") simp_all
    then show ?thesis unfolding q_def takeWhile_dropWhile_id .
  qed
  ultimately show thesis by (rule that)
qed

lemma check_rest_simple: "simple_pattern p \<Longrightarrow> check_rest p = Some False"
proof (induction p rule: check_rest.induct)
  case (1 p)
  show ?case
  proof (cases "p = []")
    case True
    then show ?thesis by (simp add: check_rest.simps)
  next
    case False
    from 1(2) False obtain star chunk rest where s: "scanChunk p = (star, chunk, rest)" and "simple_pattern chunk" "simple_pattern rest"
      by (rule scan_simple)
    with 1(1) [OF False s [symmetric] refl] matchChunk_simple [of chunk "[]"] False s show ?thesis
      by (subst check_rest.simps) simp
  qed
qed

lemma glob_places:
  assumes "CHR ''*'' \<notin> set chunk"
  shows "glob (CHR ''*'' # chunk @ rest) s \<longleftrightarrow> (\<exists>i. place False chunk i s \<and> glob rest (drop (i + length chunk) s))"
  unfolding glob_star by (auto simp: place_def glob_chunk [OF assms] add.commute)

lemma place_final: "place False chunk i s \<and> glob [] (drop (i + length chunk) s) \<longleftrightarrow> place True chunk i s"
  by (auto simp: place_def fits_def)

lemma first_place:
  assumes "rest = [] \<or> (\<exists>r. rest = CHR ''*'' # r)" and "CHR ''*'' \<notin> set chunk"
    and "place (rest = []) chunk i s" and "\<forall>j < i. \<not> place (rest = []) chunk j s"
  shows "glob (CHR ''*'' # chunk @ rest) s \<longleftrightarrow> glob rest (drop (i + length chunk) s)"
proof (cases "rest = []")
  case True
  with assms(3) have "place False chunk i s \<and> glob rest (drop (i + length chunk) s)" using place_final [of chunk i s] by metis
  then show ?thesis using glob_places [OF assms(2), of rest s] by blast
next
  case False
  with assms(1) obtain r where r: "rest = CHR ''*'' # r" by blast
  have fi: "fits chunk (drop i s)" and pi: "place False chunk i s" using assms(3) False by (simp_all add: place_def)
  show ?thesis unfolding glob_places [OF assms(2)]
  proof
    assume "\<exists>j. place False chunk j s \<and> glob rest (drop (j + length chunk) s)"
    then obtain j where j: "place False chunk j s" "glob rest (drop (j + length chunk) s)" by blast
    with assms(4) False have "i \<le> j" using not_le by auto
    from place_earlier [OF fi j(1) this] j(2) r show "glob rest (drop (i + length chunk) s)" by simp
  qed (use pi in blast)
qed

lemma Match_glob: "simple_pattern p \<Longrightarrow> Match p s = Some (glob p s)"
proof (induction p arbitrary: s rule: measure_induct_rule [of length])
  case (less p)
  show ?case
  proof (cases "p = []")
    case True
    then show ?thesis by (simp add: Match.simps)
  next
    case False
    from less.prems False obtain star chunk rest where s: "scanChunk p = (star, chunk, rest)" and c: "simple_pattern chunk"
      and r: "simple_pattern rest" and ns: "CHR ''*'' \<notin> set chunk" and rest: "rest = [] \<or> (\<exists>r. rest = CHR ''*'' # r)"
      and empty: "chunk = [] \<Longrightarrow> star \<and> rest = []"
      and g: "\<And>s. glob p s \<longleftrightarrow> glob ((if star then [CHR ''*''] else []) @ chunk @ rest) s"
      by (rule scan_simple) blast
    have IH: "Match rest t = Some (glob rest t)" for t using less.IH [of rest t] scanChunk_shorter [OF s False] r by blast
    note M = Match.simps [of p s] s False matchChunk_simple [OF c] IH check_rest_simple [OF r] g [of s]
    let ?final = "rest = []"
    show ?thesis
    proof (cases "chunk = []")
      case True
      with empty have "star" "rest = []" by simp_all
      with M True show ?thesis by (auto simp: glob_star no_slash_def intro: exI [of _ "length s"])
    next
      case ne: False
      show ?thesis
      proof (cases "place ?final chunk 0 s")
        case True
        then have "fits chunk s" and "drop (length chunk) s = [] \<or> rest \<noteq> []" by (auto simp: place_def)
        moreover from first_place [OF rest ns True] have "star \<Longrightarrow> glob p s \<longleftrightarrow> glob rest (drop (length chunk) s)" using g by simp
        moreover have "\<not> star \<Longrightarrow> glob p s \<longleftrightarrow> fits chunk s \<and> glob rest (drop (length chunk) s)" using g glob_chunk [OF ns] by simp
        ultimately show ?thesis using M ne by (cases star) auto
      next
        case no0: False
        then have skip: "\<not> (fits chunk s \<and> (drop (length chunk) s = [] \<or> rest \<noteq> []))"
          by (auto simp: place_def no_slash_def fits_def)
        show ?thesis
        proof (cases star)
          case False
          with skip g glob_chunk [OF ns, of rest s] have "\<not> glob p s" by auto
          with M ne skip False show ?thesis by auto
        next
          case True
          note search = star_search_simple [OF c, of ?final s]
          then consider (none) "star_search ?final chunk s = Some None" "\<forall>i. \<not> place ?final chunk (Suc i) s"
            | (some) t i where "star_search ?final chunk s = Some (Some t)" "place ?final chunk (Suc i) s"
                "t = drop (Suc i + length chunk) s" "\<forall>j < i. \<not> place ?final chunk (Suc j) s"
            by (auto split: option.splits)
          then show ?thesis
          proof cases
            case none
            with no0 have "\<not> place ?final chunk i s" for i by (cases i) simp_all
            then have "\<not> glob (CHR ''*'' # chunk @ rest) s"
              using glob_places [OF ns, of rest s] place_final [of chunk _ s] by (cases "rest = []") auto
            with M ne skip True none show ?thesis by auto
          next
            case (some t i)
            with no0 have "\<forall>j < Suc i. \<not> place ?final chunk j s" by (metis less_Suc_eq_0_disj)
            from first_place [OF rest ns some(2) this] some(3) have "glob (CHR ''*'' # chunk @ rest) s \<longleftrightarrow> glob rest t" by simp
            with M ne skip True some(1) show ?thesis by auto
          qed
        qed
      qed
    qed
  qed
qed

end
