(* ===== verification/Auth.thy ===== *)
theory Auth
  imports Key_Store Usage_Log Path_Match
begin

text \<open>
  Authentication by virtual keys: the request identity of \<^verbatim>\<open>internal/auth/context.go\<close>, the cache of
  \<^verbatim>\<open>internal/auth/keycache.go\<close> and the middleware of \<^verbatim>\<open>internal/auth/middleware.go\<close>. Each reading of the clock is an
  argument; \<^verbatim>\<open>authenticate\<close> gets them as a function that numbers them in program order. Tool names are matched by
  \<^verbatim>\<open>path.Match\<close>, whose algorithm is written out for strings of single-byte characters.

  The lemmas show that the cache stays within its size, that an expired key is never accepted, that a key the database no
  longer knows is rejected once its cached copy and the grace period have run out, and what the tool patterns allow.
\<close>

section \<open>Identities\<close>

record Context =
  ctx_ProjectID :: string
  ctx_VirtualKeyID :: string
  ctx_KeyPrefix :: string
  ctx_Name :: string
  ctx_AllowedModels :: "string list"
  ctx_AllowedProviders :: "string list"
  ctx_AllowedTools :: "string list"
  ctx_RPMLimit :: int
  ctx_TPMLimit :: int
  ctx_BudgetLimitUSD :: f64
  ctx_BudgetPeriod :: string
  ctx_ExpiresAt :: "gotime option"

definition ModelAllowed :: "Context \<Rightarrow> string \<Rightarrow> bool" where
  "ModelAllowed ac model \<longleftrightarrow>
     ctx_AllowedModels ac = [] \<or> list_ex (\<lambda>m. strings_EqualFold m model) (ctx_AllowedModels ac)"

definition ProviderAllowed :: "Context \<Rightarrow> string \<Rightarrow> bool" where
  "ProviderAllowed ac provider \<longleftrightarrow>
     ctx_AllowedProviders ac = [] \<or> list_ex (\<lambda>p. strings_EqualFold p provider) (ctx_AllowedProviders ac)"

definition IsExpired :: "gotime \<Rightarrow> Context \<Rightarrow> bool" where
  "IsExpired now ac = (case ctx_ExpiresAt ac of None \<Rightarrow> False | Some t \<Rightarrow> time_After now t)"

definition FromVirtualKey :: "VirtualKey \<Rightarrow> Context" where
  "FromVirtualKey vk =
     \<lparr>ctx_ProjectID = vk_ProjectID vk, ctx_VirtualKeyID = vk_ID vk, ctx_KeyPrefix = vk_KeyPrefix vk, ctx_Name = vk_Name vk,
      ctx_AllowedModels = vk_AllowedModels vk, ctx_AllowedProviders = vk_AllowedProviders vk,
      ctx_AllowedTools = vk_AllowedTools vk, ctx_RPMLimit = vk_RPMLimit vk, ctx_TPMLimit = vk_TPMLimit vk,
      ctx_BudgetLimitUSD = vk_BudgetLimitUSD vk, ctx_BudgetPeriod = vk_BudgetPeriod vk, ctx_ExpiresAt = vk_ExpiresAt vk\<rparr>"

section \<open>The key cache\<close>

record KeyCacheEntry =
  ke_authCtx :: Context
  ke_expiresAt :: gotime
  ke_lastAccess :: gotime

record KeyCache =
  kc_entries :: "(string, KeyCacheEntry) gomap"
  kc_maxSize :: int
  kc_ttl :: duration

definition NewKeyCache :: "int \<Rightarrow> duration \<Rightarrow> KeyCache" where
  "NewKeyCache maxSize ttl = \<lparr>kc_entries = [], kc_maxSize = maxSize, kc_ttl = ttl\<rparr>"

definition KeyCache_Get :: "gotime \<Rightarrow> gotime \<Rightarrow> string \<Rightarrow> KeyCache \<Rightarrow> Context option \<times> KeyCache" where
  "KeyCache_Get now now' keyHash c =
     (case gm_get (kc_entries c) keyHash of
        None \<Rightarrow> (None, c)
      | Some e \<Rightarrow>
          if time_After now (ke_expiresAt e) then (None, c)
          else (Some (ke_authCtx e), c\<lparr>kc_entries := gm_set keyHash (e\<lparr>ke_lastAccess := now'\<rparr>) (kc_entries c)\<rparr>))"

definition make_room :: "gotime \<Rightarrow> KeyCache \<Rightarrow> (string, KeyCacheEntry) gomap" where
  "make_room now c =
     (if kc_maxSize c \<le> int (gm_len (kc_entries c))
      then let m = gm_prune (\<lambda>e. time_After now (ke_expiresAt e)) (kc_entries c)
           in if kc_maxSize c \<le> int (gm_len m) then delete_oldest ke_lastAccess m else m
      else kc_entries c)"

definition KeyCache_Set :: "gotime \<Rightarrow> gotime \<Rightarrow> string \<Rightarrow> Context \<Rightarrow> KeyCache \<Rightarrow> KeyCache" where
  "KeyCache_Set now now' keyHash authCtx c =
     c\<lparr>kc_entries := gm_set keyHash
          \<lparr>ke_authCtx = authCtx, ke_expiresAt = time_Add now' (kc_ttl c), ke_lastAccess = now'\<rparr> (make_room now c)\<rparr>"

definition Invalidate :: "string \<Rightarrow> KeyCache \<Rightarrow> KeyCache" where
  "Invalidate keyHash c = c\<lparr>kc_entries := gm_delete keyHash (kc_entries c)\<rparr>"

definition GetWithGrace :: "gotime \<Rightarrow> string \<Rightarrow> duration \<Rightarrow> KeyCache \<Rightarrow> Context option" where
  "GetWithGrace now keyHash grace c =
     (case gm_get (kc_entries c) keyHash of
        None \<Rightarrow> None
      | Some e \<Rightarrow> if time_After now (time_Add (ke_expiresAt e) grace) then None else Some (ke_authCtx e))"

definition Clear :: "KeyCache \<Rightarrow> KeyCache" where
  "Clear c = c\<lparr>kc_entries := []\<rparr>"

section \<open>The middleware\<close>

record Middleware =
  mw_cfg :: AuthConfig
  mw_hasDB :: bool
  mw_cache :: "KeyCache option"
  mw_budgetFailClosed :: bool

definition ttlFromSec :: "int \<Rightarrow> duration" where
  "ttlFromSec sec = (if sec \<le> 0 then 60 * time_Second else wrap64 (sec * time_Second))"

definition NewMiddleware :: "AuthConfig \<Rightarrow> bool \<Rightarrow> Middleware" where
  "NewMiddleware cfg hasDB =
     \<lparr>mw_cfg = cfg, mw_hasDB = hasDB,
      mw_cache = (if ac_Enabled cfg \<and> hasDB then Some (NewKeyCache (ac_KeyCacheSize cfg) (ttlFromSec (ac_KeyCacheTTLSec cfg)))
                  else None),
      mw_budgetFailClosed = False\<rparr>"

text \<open>An error is a database error unless its text is that of a failed lookup.\<close>

definition isDBError :: "store_error \<Rightarrow> bool" where
  "isDBError err \<longleftrightarrow> err \<noteq> NoMatch"

text \<open>The database as one request sees it: the clock of the server, the keys (\<^term>\<open>None\<close> when the query fails) and
  the usage table.\<close>

record auth_db =
  db_now :: gotime
  db_keys :: "VirtualKey list option"
  db_usage :: "usage_row list option"

datatype auth_error = KeyExpired | Unavailable | InvalidKey | BudgetFailed string | BudgetExceeded f64 string

definition budget_gate :: "(string \<Rightarrow> gotime \<Rightarrow> gotime) \<Rightarrow> auth_db \<Rightarrow> bool \<Rightarrow> Context \<Rightarrow> auth_error option" where
  "budget_gate trunc db failClosed ac =
     (if 0 < ctx_BudgetLimitUSD ac
      then case CheckBudget trunc (db_now db) (Some (db_usage db)) (ctx_VirtualKeyID ac) (ctx_BudgetPeriod ac)
                  (ctx_BudgetLimitUSD ac) failClosed of
             Inl err \<Rightarrow> Some (BudgetFailed err)
           | Inr result \<Rightarrow> if bg_Allowed result then None
                           else Some (BudgetExceeded (ctx_BudgetLimitUSD ac) (ctx_BudgetPeriod ac))
      else None)"

text \<open>What \<^verbatim>\<open>authenticate\<close> does after the cache has missed; \<open>cache\<close> is \<^verbatim>\<open>m.cache\<close>.\<close>

definition authenticate_db ::
  "(string \<Rightarrow> string \<Rightarrow> bool) \<Rightarrow> (string \<Rightarrow> gotime \<Rightarrow> gotime) \<Rightarrow> (nat \<Rightarrow> gotime) \<Rightarrow> auth_db \<Rightarrow> bool \<Rightarrow> string \<Rightarrow> KeyCache option
   \<Rightarrow> (auth_error + Context) \<times> KeyCache option" where
  "authenticate_db compare trunc clk db failClosed token cache =
     (case LookupVirtualKeyByToken compare (db_now db) (db_keys db) token of
        Inl err \<Rightarrow>
          (case cache of
             Some c \<Rightarrow>
               if isDBError err
               then (case GetWithGrace (clk 3) token (5 * time_Minute) c of
                       Some ac \<Rightarrow> if \<not> IsExpired (clk 4) ac then (Inr ac, cache) else (Inl Unavailable, cache)
                     | None \<Rightarrow> (Inl Unavailable, cache))
               else (Inl InvalidKey, cache)
           | None \<Rightarrow> (Inl InvalidKey, cache))
      | Inr vk \<Rightarrow>
          let ac = FromVirtualKey vk
          in if IsExpired (clk 5) ac then (Inl KeyExpired, cache)
             else case budget_gate trunc db failClosed ac of
                    Some err \<Rightarrow> (Inl err, cache)
                  | None \<Rightarrow> (Inr ac, map_option (KeyCache_Set (clk 6) (clk 7) token ac) cache))"

definition authenticate ::
  "(string \<Rightarrow> string \<Rightarrow> bool) \<Rightarrow> (string \<Rightarrow> gotime \<Rightarrow> gotime) \<Rightarrow> (nat \<Rightarrow> gotime) \<Rightarrow> auth_db \<Rightarrow> string \<Rightarrow> Middleware
   \<Rightarrow> (auth_error + Context) \<times> Middleware" where
  "authenticate compare trunc clk db token m =
     (let miss = (\<lambda>cache. let (r, cache') = authenticate_db compare trunc clk db (mw_budgetFailClosed m) token cache
                          in (r, m\<lparr>mw_cache := cache'\<rparr>))
      in case mw_cache m of
           None \<Rightarrow> miss None
         | Some c \<Rightarrow>
             (case KeyCache_Get (clk 0) (clk 1) token c of
                (Some ac, c') \<Rightarrow>
                  if IsExpired (clk 2) ac then (Inl KeyExpired, m\<lparr>mw_cache := Some (Invalidate token c')\<rparr>)
                  else (Inr ac, m\<lparr>mw_cache := Some c'\<rparr>)
              | (None, c') \<Rightarrow> miss (Some c')))"

definition InvalidateCache :: "string \<Rightarrow> Middleware \<Rightarrow> Middleware" where
  "InvalidateCache token m = m\<lparr>mw_cache := map_option (Invalidate token) (mw_cache m)\<rparr>"

definition SetBudgetFailClosed :: "bool \<Rightarrow> Middleware \<Rightarrow> Middleware" where
  "SetBudgetFailClosed failClosed m = m\<lparr>mw_budgetFailClosed := failClosed\<rparr>"

definition extractBearerToken :: "string \<Rightarrow> string" where
  "extractBearerToken auth =
     (if \<not> strings_HasPrefix auth ''Bearer '' then ''''
      else let token = strings_TrimSpace (strings_TrimPrefix auth ''Bearer '')
           in if \<not> strings_HasPrefix token ''gw-'' then '''' else if length token < 11 then '''' else token)"

text \<open>What \<^verbatim>\<open>Wrap\<close> does with a request: reject it, or pass it on with the identity it found (none when
  authentication is off).\<close>

datatype wrap_result = Unauthorized string | Rejected auth_error | Forbidden string | Next "Context option"

definition Wrap ::
  "(string \<Rightarrow> string \<Rightarrow> bool) \<Rightarrow> (string \<Rightarrow> gotime \<Rightarrow> gotime) \<Rightarrow> (nat \<Rightarrow> gotime) \<Rightarrow> auth_db \<Rightarrow> string \<Rightarrow> string \<Rightarrow> Middleware
   \<Rightarrow> wrap_result \<times> Middleware" where
  "Wrap compare trunc clk db auth_header model_query m =
     (if \<not> ac_Enabled (mw_cfg m) then (Next None, m)
      else if \<not> mw_hasDB m then (Unauthorized ''authentication is enabled but database is not configured'', m)
      else let token = extractBearerToken auth_header
           in if token = '''' then (Unauthorized ''missing or invalid authorization header'', m)
              else case authenticate compare trunc clk db token m of
                     (Inl err, m') \<Rightarrow> (Rejected err, m')
                   | (Inr ac, m') \<Rightarrow>
                       if model_query \<noteq> '''' \<and> \<not> ModelAllowed ac model_query then (Forbidden ''model not allowed for this key'', m')
                       else (Next (Some ac), m'))"

section \<open>The cache stays within its size\<close>

definition kc_ok :: "KeyCache \<Rightarrow> bool" where
  "kc_ok c \<longleftrightarrow> gm_ok (kc_entries c) \<and> '''' \<notin> gm_keys (kc_entries c)"

definition kc_cap :: "KeyCache \<Rightarrow> nat" where
  "kc_cap c = max 1 (nat (kc_maxSize c))"

lemma make_room_ok:
  assumes "kc_ok c"
  shows "gm_ok (make_room now c)" and "'''' \<notin> gm_keys (make_room now c)"
    and "gm_len (kc_entries c) \<le> kc_cap c \<Longrightarrow> gm_len (make_room now c) < kc_cap c"
proof -
  let ?m = "gm_prune (\<lambda>e. time_After now (ke_expiresAt e)) (kc_entries c)"
  have ok: "gm_ok ?m" and ne: "'''' \<notin> gm_keys ?m"
    using assms gm_keys_prune [of "\<lambda>e. time_After now (ke_expiresAt e)" "kc_entries c"] by (auto simp: kc_ok_def)
  then show "gm_ok (make_room now c)" and "'''' \<notin> gm_keys (make_room now c)"
    using assms gm_keys_delete_oldest [of ke_lastAccess ?m] by (auto simp: make_room_def kc_ok_def Let_def)
  assume le: "gm_len (kc_entries c) \<le> kc_cap c"
  show "gm_len (make_room now c) < kc_cap c"
  proof (cases "?m = []")
    case True
    then show ?thesis by (auto simp: make_room_def Let_def kc_cap_def delete_oldest_def gm_len_def gm_delete_def)
  next
    case False
    with delete_oldest_len [OF ok False ne, of ke_lastAccess] gm_len_prune [of "\<lambda>e. time_After now (ke_expiresAt e)" "kc_entries c"] le
    show ?thesis by (auto simp: make_room_def Let_def kc_cap_def)
  qed
qed

lemma KeyCache_Set_ok:
  assumes "kc_ok c" and "k \<noteq> ''''"
  shows "kc_ok (KeyCache_Set now now' k ac c)"
    and "gm_len (kc_entries c) \<le> kc_cap c \<Longrightarrow> gm_len (kc_entries (KeyCache_Set now now' k ac c)) \<le> kc_cap c"
  using make_room_ok [OF assms(1), of now] assms(2)
  by (auto simp: KeyCache_Set_def kc_ok_def gomap_simps gm_len_set)

lemma KeyCache_Get_ok:
  assumes "kc_ok c" and "KeyCache_Get now now' k c = (r, c')"
  shows "kc_ok c'" and "gm_len (kc_entries c') = gm_len (kc_entries c)" and "kc_cap c' = kc_cap c"
proof -
  have "kc_ok c' \<and> gm_len (kc_entries c') = gm_len (kc_entries c) \<and> kc_cap c' = kc_cap c"
  proof (cases "gm_get (kc_entries c) k")
    case None
    with assms show ?thesis by (simp add: KeyCache_Get_def)
  next
    case (Some e)
    from gm_get_key [OF Some] have k: "k \<in> gm_keys (kc_entries c)" .
    with assms(1) have "'''' \<notin> gm_keys (gm_set k v (kc_entries c))" for v by (metis gm_keys_set insert_absorb kc_ok_def)
    moreover from assms(2) Some have "c' = c \<or> c' = c\<lparr>kc_entries := gm_set k (e\<lparr>ke_lastAccess := now'\<rparr>) (kc_entries c)\<rparr>"
      by (auto simp: KeyCache_Get_def split: if_splits)
    ultimately show ?thesis using k assms(1) by (elim disjE) (simp_all add: kc_ok_def kc_cap_def gm_len_set)
  qed
  then show "kc_ok c'" and "gm_len (kc_entries c') = gm_len (kc_entries c)" and "kc_cap c' = kc_cap c" by simp_all
qed

lemma Invalidate_ok:
  assumes "kc_ok c"
  shows "kc_ok (Invalidate k c)" and "gm_len (kc_entries (Invalidate k c)) \<le> gm_len (kc_entries c)"
  using assms by (auto simp: Invalidate_def kc_ok_def gomap_simps gm_len_delete_le)

lemma kc_cap_const [simp]: "kc_cap (KeyCache_Set now now' k ac c) = kc_cap c" "kc_cap (Invalidate k c) = kc_cap c"
  by (simp_all add: kc_cap_def KeyCache_Set_def Invalidate_def)

lemma authenticate_cases:
  obtains (off) r where "mw_cache m = None" "authenticate compare trunc clk db token m = (r, m)"
    and "r = fst (authenticate_db compare trunc clk db (mw_budgetFailClosed m) token None)"
  | (hit) c ac c' where "mw_cache m = Some c" "KeyCache_Get (clk 0) (clk 1) token c = (Some ac, c')"
      "\<not> IsExpired (clk 2) ac" "authenticate compare trunc clk db token m = (Inr ac, m\<lparr>mw_cache := Some c'\<rparr>)"
  | (stale) c ac c' where "mw_cache m = Some c" "KeyCache_Get (clk 0) (clk 1) token c = (Some ac, c')"
      "authenticate compare trunc clk db token m = (Inl KeyExpired, m\<lparr>mw_cache := Some (Invalidate token c')\<rparr>)"
  | (found) c c' vk where "mw_cache m = Some c" "KeyCache_Get (clk 0) (clk 1) token c = (None, c')"
      "LookupVirtualKeyByToken compare (db_now db) (db_keys db) token = Inr vk" "\<not> IsExpired (clk 5) (FromVirtualKey vk)"
      "authenticate compare trunc clk db token m
         = (Inr (FromVirtualKey vk), m\<lparr>mw_cache := Some (KeyCache_Set (clk 6) (clk 7) token (FromVirtualKey vk) c')\<rparr>)"
  | (grace) c c' err ac where "mw_cache m = Some c" "KeyCache_Get (clk 0) (clk 1) token c = (None, c')"
      "LookupVirtualKeyByToken compare (db_now db) (db_keys db) token = Inl err"
      "GetWithGrace (clk 3) token (5 * time_Minute) c' = Some ac" "\<not> IsExpired (clk 4) ac"
      "authenticate compare trunc clk db token m = (Inr ac, m\<lparr>mw_cache := Some c'\<rparr>)"
  | (rejected) c c' err where "mw_cache m = Some c" "KeyCache_Get (clk 0) (clk 1) token c = (None, c')"
      "authenticate compare trunc clk db token m = (Inl err, m\<lparr>mw_cache := Some c'\<rparr>)"
proof (cases "mw_cache m")
  case None
  have "snd (authenticate_db compare trunc clk db (mw_budgetFailClosed m) token None) = None"
    by (auto simp: authenticate_db_def Let_def split: sum.splits option.splits)
  moreover from None have "m\<lparr>mw_cache := None\<rparr> = m" by simp
  ultimately show thesis using None off by (simp add: authenticate_def case_prod_beta)
next
  case (Some c)
  obtain r c' where g: "KeyCache_Get (clk 0) (clk 1) token c = (r, c')" by force
  show thesis
  proof (cases r)
    case ac: (Some ac)
    with Some g hit stale show thesis by (cases "IsExpired (clk 2) ac") (simp_all add: authenticate_def)
  next
    case None
    with Some g have a: "authenticate compare trunc clk db token m
        = (let (r, cache) = authenticate_db compare trunc clk db (mw_budgetFailClosed m) token (Some c') in (r, m\<lparr>mw_cache := cache\<rparr>))"
      by (simp add: authenticate_def)
    from None Some g a show thesis
      by (cases "LookupVirtualKeyByToken compare (db_now db) (db_keys db) token")
        (auto simp: authenticate_db_def Let_def split: option.splits if_splits intro: found grace rejected)
  qed
qed

lemma Wrap_cases:
  obtains (same) "snd (Wrap compare trunc clk db h q m) = m" "\<not> (\<exists>ac. fst (Wrap compare trunc clk db h q m) = Next (Some ac))"
  | (auth) token r where "token = extractBearerToken h" "token \<noteq> ''''" "mw_hasDB m"
      "authenticate compare trunc clk db token m = (r, snd (Wrap compare trunc clk db h q m))"
      "\<And>ac. fst (Wrap compare trunc clk db h q m) = Next (Some ac) \<Longrightarrow> r = Inr ac"
proof (cases "\<not> ac_Enabled (mw_cfg m) \<or> \<not> mw_hasDB m \<or> extractBearerToken h = ''''")
  case True
  then show thesis by (intro same) (auto simp: Wrap_def Let_def)
next
  case False
  obtain r m' where "authenticate compare trunc clk db (extractBearerToken h) m = (r, m')" by force
  with False show thesis
    by (intro auth [of "extractBearerToken h" r]) (auto simp: Wrap_def Let_def split: sum.splits if_splits)
qed

definition mw_ok :: "Middleware \<Rightarrow> bool" where
  "mw_ok m = (case mw_cache m of None \<Rightarrow> True | Some c \<Rightarrow> kc_ok c)"

definition mw_size :: "Middleware \<Rightarrow> nat" where
  "mw_size m = (case mw_cache m of None \<Rightarrow> 0 | Some c \<Rightarrow> gm_len (kc_entries c))"

definition mw_cap :: "Middleware \<Rightarrow> nat" where
  "mw_cap m = (case mw_cache m of None \<Rightarrow> 0 | Some c \<Rightarrow> kc_cap c)"

lemmas mw_defs = mw_ok_def mw_size_def mw_cap_def

lemma authenticate_ok:
  assumes "mw_ok m" and "token \<noteq> ''''" and "authenticate compare trunc clk db token m = (r, m')"
  shows "mw_ok m' \<and> mw_cap m' = mw_cap m \<and> (mw_size m \<le> mw_cap m \<longrightarrow> mw_size m' \<le> mw_cap m)"
proof (cases rule: authenticate_cases [of m compare trunc clk db token])
  case (found c c' vk)
  with assms(1) have "kc_ok c" by (simp add: mw_ok_def)
  note g = KeyCache_Get_ok [OF this found(2)]
  with KeyCache_Set_ok [OF g(1) assms(2), of "clk 6" "clk 7" "FromVirtualKey vk"] found assms(3) show ?thesis
    by (simp add: mw_defs)
next
  case (stale c ac c')
  with assms(1) have "kc_ok c" by (simp add: mw_ok_def)
  note g = KeyCache_Get_ok [OF this stale(2)]
  with Invalidate_ok [OF g(1), of token] stale assms(3) show ?thesis by (auto simp: mw_defs)
qed (use assms in \<open>auto simp: mw_defs dest: KeyCache_Get_ok\<close>)

lemma Wrap_ok:
  assumes "mw_ok m"
  shows "mw_ok (snd (Wrap compare trunc clk db h q m)) \<and> mw_cap (snd (Wrap compare trunc clk db h q m)) = mw_cap m
    \<and> (mw_size m \<le> mw_cap m \<longrightarrow> mw_size (snd (Wrap compare trunc clk db h q m)) \<le> mw_cap m)"
proof (cases rule: Wrap_cases [of compare trunc clk db h q m])
  case same
  with assms show ?thesis by simp
next
  case (auth token r)
  from authenticate_ok [OF assms auth(2,4)] show ?thesis .
qed

type_synonym auth_request = "(nat \<Rightarrow> gotime) \<times> auth_db \<times> string \<times> string"

text \<open>One request after the other.\<close>

definition serve :: "(string \<Rightarrow> string \<Rightarrow> bool) \<Rightarrow> (string \<Rightarrow> gotime \<Rightarrow> gotime) \<Rightarrow> auth_request \<Rightarrow> Middleware \<Rightarrow> Middleware" where
  "serve compare trunc = (\<lambda>(clk, db, h, q) m. snd (Wrap compare trunc clk db h q m))"

interpretation key_store: bounded_store mw_size mw_cap mw_ok "serve compare trunc"
  by unfold_locales (auto simp: serve_def Wrap_ok split: prod.splits)

text \<open>The cache of keys is bounded: after any sequence of requests, whatever their tokens, it holds at most the configured
  number of entries (at least one).\<close>

theorem key_cache_bounded:
  "mw_size (fold (serve compare trunc) reqs (NewMiddleware cfg hasDB)) \<le> max 1 (nat (ac_KeyCacheSize cfg))"
proof -
  let ?m = "NewMiddleware cfg hasDB"
  have "mw_ok ?m" "mw_size ?m \<le> mw_cap ?m" "mw_cap ?m \<le> max 1 (nat (ac_KeyCacheSize cfg))"
    by (simp_all add: mw_defs NewMiddleware_def NewKeyCache_def kc_ok_def kc_cap_def)
  with key_store.run_bounded [of ?m compare trunc reqs] show ?thesis by simp
qed

section \<open>Expiry\<close>

lemma unexpired: "\<not> IsExpired u ac \<Longrightarrow> ctx_ExpiresAt ac = Some t \<Longrightarrow> u \<le> t"
  by (simp add: IsExpired_def time_After_def)

lemma authenticate_unexpired:
  assumes "authenticate compare trunc clk db token m = (Inr ac, m')"
  shows "\<exists>i. \<not> IsExpired (clk i) ac"
  by (cases rule: authenticate_cases [of m compare trunc clk db token])
    (use assms in \<open>auto simp: authenticate_db_def Let_def split: sum.splits if_splits option.splits\<close>)

text \<open>C24. An expired key is never accepted, neither from the database nor from the cache nor in the grace period: when a
  request gets through with a key that has an expiry time, that time had not passed when its authentication began.\<close>

theorem expired_key_rejected:
  assumes "fst (Wrap compare trunc clk db h q m) = Next (Some ac)" and "ctx_ExpiresAt ac = Some t" and "\<forall>i. clk 0 \<le> clk i"
  shows "clk 0 \<le> t"
proof (cases rule: Wrap_cases [of compare trunc clk db h q m])
  case same
  with assms(1) show ?thesis by simp
next
  case (auth token r)
  with assms(1) have "authenticate compare trunc clk db token m = (Inr ac, snd (Wrap compare trunc clk db h q m))" by blast
  from authenticate_unexpired [OF this] obtain i where "\<not> IsExpired (clk i) ac" by blast
  from unexpired [OF this assms(2)] assms(3) show ?thesis using order_trans by blast
qed

definition example_auth_cfg :: AuthConfig where
  "example_auth_cfg = \<lparr>ac_Enabled = True, ac_KeyCacheSize = 2, ac_KeyCacheTTLSec = 60\<rparr>"

definition example_db :: "VirtualKey list option \<Rightarrow> auth_db" where
  "example_db keys = \<lparr>db_now = 10, db_keys = keys, db_usage = Some []\<rparr>"

definition expiring_key :: VirtualKey where
  "expiring_key = example_key\<lparr>vk_ExpiresAt := Some 50\<rparr>"

lemma example_token: "extractBearerToken ''Bearer gw-12345678'' = ''gw-12345678''"
  by code_simp

lemma example_Wrap:
  "fst (Wrap (\<lambda>h t. h = t) (\<lambda>_ _. 0) (\<lambda>i. 20) (example_db (Some [expiring_key])) ''Bearer gw-12345678'' '''' (NewMiddleware example_auth_cfg True))
   = Next (Some (FromVirtualKey expiring_key))"
  by code_simp

theorem expired_key_rejected_witness:
  "fst (Wrap (\<lambda>h t. h = t) (\<lambda>_ _. 0) (\<lambda>i. 20) (example_db (Some [expiring_key])) ''Bearer gw-12345678'' '''' (NewMiddleware example_auth_cfg True))
     = Next (Some (FromVirtualKey expiring_key)) \<and> (20 :: gotime) \<le> 50"
proof -
  have "ctx_ExpiresAt (FromVirtualKey expiring_key) = Some 50" by (simp add: FromVirtualKey_def expiring_key_def)
  from expired_key_rejected [OF example_Wrap this] show ?thesis using example_Wrap by blast
qed

section \<open>Revocation\<close>

text \<open>The cached copy of a token expires by a time.\<close>

definition cached_until :: "string \<Rightarrow> gotime \<Rightarrow> Middleware \<Rightarrow> bool" where
  "cached_until token b m =
     (case mw_cache m of
        None \<Rightarrow> True
      | Some c \<Rightarrow> (case gm_get (kc_entries c) token of None \<Rightarrow> True | Some e \<Rightarrow> ke_expiresAt e \<le> b))"

definition mw_ttl :: "Middleware \<Rightarrow> duration" where
  "mw_ttl m = (case mw_cache m of None \<Rightarrow> 0 | Some c \<Rightarrow> kc_ttl c)"

lemma make_room_get: "kc_ok c \<Longrightarrow> gm_get (make_room now c) k \<in> {gm_get (kc_entries c) k, None}"
  using delete_oldest_get [of ke_lastAccess "gm_prune (\<lambda>e. time_After now (ke_expiresAt e)) (kc_entries c)" k]
  by (auto simp: make_room_def Let_def kc_ok_def gomap_simps split: option.splits if_splits)

lemma Get_cached_until:
  assumes "KeyCache_Get now now' k c = (r, c')"
  shows "kc_ttl c' = kc_ttl c"
    and "(case gm_get (kc_entries c) token of None \<Rightarrow> True | Some e \<Rightarrow> ke_expiresAt e \<le> b) \<Longrightarrow>
         (case gm_get (kc_entries c') token of None \<Rightarrow> True | Some e \<Rightarrow> ke_expiresAt e \<le> b)"
  using assms by (auto simp: KeyCache_Get_def gomap_simps split: option.splits if_splits)

lemma Set_cached_until:
  assumes "kc_ok c" and "token = k \<Longrightarrow> now' + kc_ttl c \<le> b"
    and "case gm_get (kc_entries c) token of None \<Rightarrow> True | Some e \<Rightarrow> ke_expiresAt e \<le> b"
  shows "case gm_get (kc_entries (KeyCache_Set now now' k ac c)) token of None \<Rightarrow> True | Some e \<Rightarrow> ke_expiresAt e \<le> b"
  using assms make_room_get [OF assms(1), of now token]
  by (auto simp: KeyCache_Set_def gomap_simps time_Add_def split: option.splits)

lemma authenticate_cached_until:
  assumes "mw_ok m" and "cached_until token b m" and "authenticate compare trunc clk db k m = (r, m')"
    and "token = k \<Longrightarrow> clk 7 + mw_ttl m \<le> b \<or> (\<exists>err. LookupVirtualKeyByToken compare (db_now db) (db_keys db) token = Inl err)"
  shows "cached_until token b m' \<and> mw_ttl m' = mw_ttl m"
proof (cases rule: authenticate_cases [of m compare trunc clk db k])
  case (found c c' vk)
  from assms(1) found(1) have "kc_ok c" by (simp add: mw_ok_def)
  note g = KeyCache_Get_ok(1) [OF this found(2)] and t = Get_cached_until(1) [OF found(2)] and u = Get_cached_until(2) [OF found(2), where token = token and b = b]
  have "token = k \<Longrightarrow> clk 7 + kc_ttl c' \<le> b" using assms(4) found(1,3) t by (auto simp: mw_ttl_def)
  with Set_cached_until [OF g this] t u assms(2,3) found show ?thesis
    by (auto simp: cached_until_def mw_ttl_def KeyCache_Set_def)
next
  case (stale c ac c')
  with assms(2,3) Get_cached_until(1) [OF stale(2)] Get_cached_until(2) [OF stale(2), where token = token and b = b] show ?thesis
    by (auto simp: cached_until_def mw_ttl_def Invalidate_def gomap_simps split: option.splits if_splits)
qed (use assms(2,3) in \<open>auto simp: cached_until_def mw_ttl_def dest: Get_cached_until(1) Get_cached_until(2) [where token = token and b = b]\<close>)

lemma serve_cached_until:
  assumes "mw_ok m" and "cached_until token b m"
    and "(\<forall>i. clk i + mw_ttl m \<le> b) \<or> (\<exists>err. LookupVirtualKeyByToken compare (db_now db) (db_keys db) token = Inl err)"
  shows "cached_until token b (serve compare trunc (clk, db, h, q) m) \<and> mw_ttl (serve compare trunc (clk, db, h, q) m) = mw_ttl m
    \<and> mw_ok (serve compare trunc (clk, db, h, q) m)"
proof -
  have "cached_until token b (snd (Wrap compare trunc clk db h q m)) \<and> mw_ttl (snd (Wrap compare trunc clk db h q m)) = mw_ttl m"
  proof (cases rule: Wrap_cases [of compare trunc clk db h q m])
    case same
    with assms(2) show ?thesis by simp
  next
    case (auth k r)
    from authenticate_cached_until [OF assms(1,2) auth(4)] assms(3) show ?thesis by blast
  qed
  with Wrap_ok [OF assms(1)] show ?thesis by (simp add: serve_def)
qed

lemma serve_all_cached_until:
  assumes "mw_ok m" and "cached_until token b m"
    and "\<forall>(clk, db, h, q) \<in> set reqs. (\<forall>i. clk i + mw_ttl m \<le> b)
          \<or> (\<exists>err. LookupVirtualKeyByToken compare (db_now db) (db_keys db) token = Inl err)"
  shows "cached_until token b (fold (serve compare trunc) reqs m)"
  using assms
proof (induction reqs arbitrary: m)
  case (Cons x reqs)
  obtain clk db h q where x: "x = (clk, db, h, q)" by (cases x)
  with Cons.prems have "(\<forall>i. clk i + mw_ttl m \<le> b) \<or> (\<exists>err. LookupVirtualKeyByToken compare (db_now db) (db_keys db) token = Inl err)"
    by simp
  from serve_cached_until [OF Cons.prems(1,2) this, of trunc h q] Cons x show ?case by simp
qed simp

text \<open>C25. A key that has left the database is locked out for good: if every request up to time \<open>t\<close> may have used a token, and from
  then on no lookup finds a key for it (because it was revoked, or because the database cannot be reached), then a request
  with that token more than the cache's time to live and the five minutes of grace after \<open>t\<close> is rejected.\<close>

theorem revoked_token_rejected:
  assumes "\<forall>(clk, db, h, q) \<in> set before. \<forall>i. clk i \<le> t"
    and "\<forall>(clk, db, h, q) \<in> set after. \<exists>err. LookupVirtualKeyByToken compare (db_now db) (db_keys db) token = Inl err"
    and "LookupVirtualKeyByToken compare (db_now db) (db_keys db) token = Inl err"
    and "\<forall>i. t + ttlFromSec (ac_KeyCacheTTLSec cfg) + 5 * time_Minute < clk i" and "extractBearerToken h = token"
    and "0 \<le> ttlFromSec (ac_KeyCacheTTLSec cfg)"
  shows "fst (Wrap compare trunc clk db h q (fold (serve compare trunc) (before @ after) (NewMiddleware cfg True))) \<noteq> Next (Some ac)"
proof
  let ?start = "NewMiddleware cfg True" and ?b = "t + ttlFromSec (ac_KeyCacheTTLSec cfg)"
  let ?m = "fold (serve compare trunc) (before @ after) ?start"
  assume got: "fst (Wrap compare trunc clk db h q ?m) = Next (Some ac)"
  have m0: "mw_ok ?start" "cached_until token ?b ?start" "mw_ttl ?start \<le> ttlFromSec (ac_KeyCacheTTLSec cfg)"
    using assms(6) by (simp_all add: NewMiddleware_def NewKeyCache_def mw_ok_def cached_until_def mw_ttl_def kc_ok_def)
  have "\<forall>(clk, db, h, q) \<in> set (before @ after). (\<forall>i. clk i + mw_ttl ?start \<le> ?b)
      \<or> (\<exists>err. LookupVirtualKeyByToken compare (db_now db) (db_keys db) token = Inl err)"
    using assms(1,2) m0(3) by (fastforce intro: add_mono)
  from serve_all_cached_until [OF m0(1,2) this] have c: "cached_until token ?b ?m" .
  have late: "?b < clk i" for i using assms(4) by (simp add: time_Minute_def time_Second_def nanos_per_second_def) (smt (verit))
  from got show False
  proof (cases rule: Wrap_cases [of compare trunc clk db h q ?m])
    case (auth k r)
    then have a: "authenticate compare trunc clk db token ?m = (Inr ac, snd (Wrap compare trunc clk db h q ?m))"
      using got assms(5) by blast
    show False
    proof (cases rule: authenticate_cases [of ?m compare trunc clk db token])
      case off
      with a assms(3) show False by (auto simp: authenticate_db_def)
    next
      case (hit d ac' d')
      with c late [of 0] show False
        by (auto simp: cached_until_def KeyCache_Get_def time_After_def split: option.splits if_splits)
    next
      case (grace d d' e ac')
      with c Get_cached_until(2) [OF grace(2), where token = token and b = "?b"] spec [OF assms(4), of 3] show False
        by (auto simp: cached_until_def GetWithGrace_def time_After_def time_Add_def not_less split: option.splits if_splits)
    qed (use a assms(3) in auto)
  qed simp
qed

theorem revoked_token_rejected_witness:
  "fst (Wrap (\<lambda>h t. h = t) (\<lambda>_ _. 0) (\<lambda>i. 400000000000) (example_db None) ''Bearer gw-12345678'' ''''
     (fold (serve (\<lambda>h t. h = t) (\<lambda>_ _. 0)) ([(\<lambda>i. 20, example_db (Some [example_key]), ''Bearer gw-12345678'', '''')] @ [])
        (NewMiddleware example_auth_cfg True))) \<noteq> Next (Some (FromVirtualKey example_key))"
proof (rule revoked_token_rejected [where t = 20 and err = "DBError ''connection''"])
  have "ttlFromSec (ac_KeyCacheTTLSec example_auth_cfg) = 60000000000" by code_simp
  then show "\<forall>i :: nat. 20 + ttlFromSec (ac_KeyCacheTTLSec example_auth_cfg) + 5 * time_Minute < 400000000000"
    and "0 \<le> ttlFromSec (ac_KeyCacheTTLSec example_auth_cfg)" by (simp_all add: duration_defs)
qed (simp_all add: example_db_def LookupVirtualKeyByToken_def example_token)

section \<open>Tools\<close>

definition ToolAllowed :: "Context \<Rightarrow> string \<Rightarrow> bool" where
  "ToolAllowed ac toolName \<longleftrightarrow>
     ctx_AllowedTools ac = [] \<or> list_ex (\<lambda>pattern. Match pattern toolName = Some True) (ctx_AllowedTools ac)"

text \<open>The tool patterns mean what globs mean: a key with patterns (without classes and escapes) may call exactly the
  tools whose name one of them matches, by the recursive definition of a glob, and a key without patterns may call any
  tool.\<close>

theorem tools_by_glob:
  assumes "list_all simple_pattern (ctx_AllowedTools ac)"
  shows "ToolAllowed ac toolName \<longleftrightarrow> ctx_AllowedTools ac = [] \<or> (\<exists>p \<in> set (ctx_AllowedTools ac). glob p toolName)"
  using assms by (auto simp: ToolAllowed_def list_all_iff list_ex_iff Match_glob)

theorem tools_by_glob_witness:
  "ToolAllowed (FromVirtualKey (example_key\<lparr>vk_AllowedTools := [''fs_*_?'', ''web'']\<rparr>)) ''fs_read_x''
   \<and> \<not> ToolAllowed (FromVirtualKey (example_key\<lparr>vk_AllowedTools := [''fs_*_?'', ''web'']\<rparr>)) ''fs_a/b_x''"
proof -
  let ?ac = "FromVirtualKey (example_key\<lparr>vk_AllowedTools := [''fs_*_?'', ''web'']\<rparr>)"
  have t: "ctx_AllowedTools ?ac = [''fs_*_?'', ''web'']" by (simp add: FromVirtualKey_def)
  then have "list_all simple_pattern (ctx_AllowedTools ?ac)" by (simp add: simple_pattern_def)
  note by_glob = tools_by_glob [OF this]
  have "glob ''fs_*_?'' ''fs_read_x''" and "\<not> glob ''fs_*_?'' ''fs_a/b_x''" and "\<not> glob ''web'' ''fs_a/b_x''"
    by (simp_all add: glob.simps char_fits_def)
  with by_glob [of "''fs_read_x''"] by_glob [of "''fs_a/b_x''"] t show ?thesis by simp
qed

end
