(* ===== verification/Governed.thy ===== *)
theory Governed
  imports Handler_Core Auth
begin

text \<open>
  The governance pipeline of \<^verbatim>\<open>internal/api/openai/governed.go\<close>: every request passes the checks of model, rate, budget and
  input guardrails, then the cache, the providers, the output guardrails, the cache again, and the logs. Provider error
  messages are those of \<^verbatim>\<open>internal/errtypes/provider_errors.go\<close>.

  A definition returns the error or the result, the handler and the world; \<^term>\<open>None\<close> is a panic. Metrics, logging and tracing
  are left out. A step that the code writes inside \<^verbatim>\<open>ExecuteGoverned\<close> is a definition of its own here. The lemmas
  show that a request that is rejected reaches no provider and no log, that an answered request is billed
  once, and that an equal request is answered from the cache.
\<close>

section \<open>Identities, errors and results\<close>

record GovernanceIdentity =
  gi_ProjectID :: string
  gi_VirtualKeyID :: string
  gi_KeyPrefix :: string
  gi_Name :: string
  gi_AllowedModels :: "string list"
  gi_AllowedProviders :: "string list"
  gi_RPMLimit :: int
  gi_TPMLimit :: int
  gi_BudgetLimitUSD :: f64
  gi_BudgetPeriod :: string
  gi_Source :: string
  gi_SkipRateLimit :: bool
  gi_SkipBudget :: bool
  gi_SkipUsageLog :: bool

type_synonym headers = "(string, string) gomap"

record GovernanceError =
  gv_StatusCode :: int
  gv_Type :: string
  gv_Message :: string
  gv_Stage :: string
  gv_Headers :: headers
  gv_AvailableModels :: "string list"

definition GovernanceError_Error :: "GovernanceError \<Rightarrow> string" where
  "GovernanceError_Error e =
     (if gv_Stage e \<noteq> '''' then ''governance error: '' @ gv_Type e @ '': '' @ gv_Message e @ '' (stage='' @ gv_Stage e @ '')''
      else ''governance error: '' @ gv_Type e @ '': '' @ gv_Message e)"

definition governance_error :: "int \<Rightarrow> string \<Rightarrow> string \<Rightarrow> string \<Rightarrow> GovernanceError" where
  "governance_error status typ msg stage =
     \<lparr>gv_StatusCode = status, gv_Type = typ, gv_Message = msg, gv_Stage = stage, gv_Headers = [], gv_AvailableModels = []\<rparr>"

record GovernedResult =
  gd_Response :: "ChatCompletionResponse option"
  gd_Target :: Target
  gd_Attempts :: int
  gd_CacheHit :: bool
  gd_DurationMS :: int
  gd_CostUSD :: f64
  gd_Headers :: headers

definition governanceIdentityFromAuth :: "Context option \<Rightarrow> GovernanceIdentity option" where
  "governanceIdentityFromAuth = map_option (\<lambda>ac.
     \<lparr>gi_ProjectID = ctx_ProjectID ac, gi_VirtualKeyID = ctx_VirtualKeyID ac, gi_KeyPrefix = ctx_KeyPrefix ac,
      gi_Name = ctx_Name ac, gi_AllowedModels = ctx_AllowedModels ac, gi_AllowedProviders = ctx_AllowedProviders ac,
      gi_RPMLimit = ctx_RPMLimit ac, gi_TPMLimit = ctx_TPMLimit ac, gi_BudgetLimitUSD = ctx_BudgetLimitUSD ac,
      gi_BudgetPeriod = ctx_BudgetPeriod ac, gi_Source = ''virtual_key'', gi_SkipRateLimit = False, gi_SkipBudget = False,
      gi_SkipUsageLog = False\<rparr>)"

record ResolvedKey =
  rk_KeyID :: string
  rk_KeyPrefix :: string
  rk_KeyHash :: string
  rk_ProjectID :: string
  rk_KeyName :: string
  rk_AllowedModels :: "string list"
  rk_AllowedProviders :: "string list"
  rk_RPMLimit :: int
  rk_TPMLimit :: int
  rk_BudgetLimitUSD :: f64
  rk_BudgetPeriod :: string

definition governanceIdentityFromResolvedKey :: "ResolvedKey option \<Rightarrow> GovernanceIdentity option" where
  "governanceIdentityFromResolvedKey = map_option (\<lambda>key.
     \<lparr>gi_ProjectID = rk_ProjectID key, gi_VirtualKeyID = rk_KeyID key, gi_KeyPrefix = rk_KeyPrefix key,
      gi_Name = rk_KeyName key, gi_AllowedModels = rk_AllowedModels key, gi_AllowedProviders = rk_AllowedProviders key,
      gi_RPMLimit = rk_RPMLimit key, gi_TPMLimit = rk_TPMLimit key, gi_BudgetLimitUSD = rk_BudgetLimitUSD key,
      gi_BudgetPeriod = rk_BudgetPeriod key, gi_Source = ''mcp_tool'', gi_SkipRateLimit = False, gi_SkipBudget = False,
      gi_SkipUsageLog = False\<rparr>)"

text \<open>What a request carries in its context.\<close>

record request_ctx =
  cx_auth :: "Context option"
  cx_plan :: "Target list option"
  cx_requestID :: string

definition planWithContext :: "request_ctx \<Rightarrow> Target list \<Rightarrow> request_ctx" where
  "planWithContext cx plan = cx\<lparr>cx_plan := Some plan\<rparr>"

section \<open>Provider errors\<close>

definition truncate_msg :: "string \<Rightarrow> nat \<Rightarrow> string" where
  "truncate_msg s maxLen = (if length s \<le> maxLen then s else take maxLen s @ ''...'')"

definition EnrichProviderError :: "string \<Rightarrow> int \<Rightarrow> string \<Rightarrow> string" where
  "EnrichProviderError provider statusCode rawBody =
     (if statusCode = 401 then ''Authentication failed with '' @ provider @ ''. Check your API key.''
      else if statusCode = 402 then provider @ '' account requires payment or has an overdue balance.''
      else if statusCode = 403 then provider @ '' denied the request. Check your account permissions or model access.''
      else if statusCode = 429
      then provider @ '' is rate-limiting requests. The gateway will retry automatically. Consider adding a fallback model.''
      else if 500 \<le> statusCode
      then provider @ '' experienced an internal error (HTTP '' @ itoa statusCode @ ''). The gateway will retry if possible.''
      else if 0 < statusCode
      then provider @ '' returned an unexpected error (HTTP '' @ itoa statusCode @ ''). Check the provider status page.''
      else if rawBody \<noteq> '''' then provider @ '' request failed: '' @ truncate_msg rawBody 200
      else provider @ '' request failed. Check provider connectivity.'')"

fun extractHTTPStatus :: "provider_error \<Rightarrow> int" where
  "extractHTTPStatus (HTTPError status body) = status"
| "extractHTTPStatus _ = 0"

fun http_body :: "provider_error \<Rightarrow> string" where
  "http_body (HTTPError status body) = body"
| "http_body _ = ''''"

section \<open>Model, rate and budget\<close>

definition modelAllowed :: "string \<Rightarrow> string list \<Rightarrow> bool" where
  "modelAllowed model allowed \<longleftrightarrow> allowed = [] \<or> list_ex (\<lambda>m. strings_EqualFold m model) allowed"

definition show_list :: "string list \<Rightarrow> string" where
  "show_list xs = ''['' @ join_with '' '' xs @ '']''"

definition buildModelNotAllowedError :: "string \<Rightarrow> string list \<Rightarrow> GovernanceError" where
  "buildModelNotAllowedError model allowedModels =
     (governance_error 403 ''model_not_allowed''
        (''model '' @ go_quote model @ '' is not allowed for this key. Allowed: '' @ show_list allowedModels) ''model_validation'')
     \<lparr>gv_AvailableModels := allowedModels\<rparr>"

definition checkRateLimit ::
  "('c, 'w) gov_env \<Rightarrow> GovernanceIdentity option \<Rightarrow> 'c Handler \<Rightarrow> 'w \<Rightarrow> (GovernanceError + headers) \<times> 'c Handler \<times> 'w" where
  "checkRateLimit E identity h w =
     (case identity of
        None \<Rightarrow> (Inr [], h, w)
      | Some i \<Rightarrow>
          if gi_SkipRateLimit i \<or> gi_RPMLimit i \<le> 0 then (Inr [], h, w)
          else let (limiter, h) = getLimiter (gi_VirtualKeyID i) (gi_RPMLimit i) (gi_TPMLimit i) h;
                   (tb, w) = ev_now E w; (ta, w) = ev_now E w; (now, w) = ev_now E w;
                   ((allowed, limit, remaining, resetAt), limiter) = CheckRPM (gi_VirtualKeyID i) tb ta now limiter;
                   h = h\<lparr>h_limiters := gm_set (gi_VirtualKeyID i) limiter (h_limiters h)\<rparr>;
                   headers = [(''X-RateLimit-Limit'', itoa limit), (''X-RateLimit-Remaining'', itoa remaining),
                              (''X-RateLimit-Reset'', itoa (time_Unix resetAt))]
               in if allowed then (Inr headers, h, w)
                  else let (now, w) = ev_now E w;
                           retry = int_of_float (duration_Seconds (time_Sub resetAt now)) + 1
                       in (Inl ((governance_error 429 ''rate_limit_exceeded''
                                   (''rate limit exceeded: '' @ itoa (gi_RPMLimit i) @ '' RPM limit'') ''rate_limit'')
                                \<lparr>gv_Headers := headers @ [(''Retry-After'', itoa retry)]\<rparr>), h, w))"

definition usage_handle :: "bool \<Rightarrow> Writer \<Rightarrow> usage_db" where
  "usage_handle fails uw = map_option (\<lambda>t. if fails then None else Some t) (uw_db uw)"

definition checkBudget ::
  "('c, 'w) gov_env \<Rightarrow> GovernanceIdentity option \<Rightarrow> 'c Handler \<Rightarrow> 'w \<Rightarrow> GovernanceError option \<times> 'w" where
  "checkBudget E identity h w =
     (case (identity, h_usageW h) of
        (Some i, Some uw) \<Rightarrow>
          if gi_SkipBudget i \<or> gi_BudgetLimitUSD i \<le> 0 then (None, w)
          else let (now, w') = ev_now E w
               in (case CheckBudget (ev_trunc E) now (usage_handle (ev_db_fails E w) uw) (gi_VirtualKeyID i) (gi_BudgetPeriod i)
                          (gi_BudgetLimitUSD i) (h_budgetFailClosed h) of
                     Inl err \<Rightarrow> (Some (governance_error 503 ''budget_check_failed'' err ''budget''), w')
                   | Inr result \<Rightarrow>
                       if bg_Allowed result then (None, w')
                       else (Some (governance_error 403 ''budget_exceeded''
                               (''budget exceeded: $'' @ fmt_fixed 2 (bg_Spend result) @ '' of $'' @ fmt_fixed 2 (gi_BudgetLimitUSD i))
                               ''budget''), w'))
      | _ \<Rightarrow> (None, w))"

section \<open>Guardrails\<close>

definition shouldRunInputGuardrails :: "'c Handler \<Rightarrow> string \<Rightarrow> bool" where
  "shouldRunInputGuardrails h model \<longleftrightarrow>
     (case h_guardrails h of
        None \<Rightarrow> False
      | Some g \<Rightarrow> HasInputStages g \<and> gc_Enabled (cfg_Guardrails (h_cfg h))
          \<and> (case gm_get (gc_Models (cfg_Guardrails (h_cfg h))) model of None \<Rightarrow> True | Some mc \<Rightarrow> gmc_Input mc))"

definition shouldRunOutputGuardrails :: "'c Handler \<Rightarrow> string \<Rightarrow> bool" where
  "shouldRunOutputGuardrails h model \<longleftrightarrow>
     (case h_guardrails h of
        None \<Rightarrow> False
      | Some g \<Rightarrow> HasOutputStages g \<and> gc_Enabled (cfg_Guardrails (h_cfg h))
          \<and> (case gm_get (gc_Models (cfg_Guardrails (h_cfg h))) model of None \<Rightarrow> True | Some mc \<Rightarrow> gmc_Output mc))"

definition strip_quotes :: "string \<Rightarrow> string" where
  "strip_quotes s = (if 2 \<le> length s \<and> hd s = CHR 0x22 \<and> last s = CHR 0x22 then butlast (tl s) else s)"

definition toGuardrailMessages :: "(raw \<Rightarrow> string) \<Rightarrow> ChatMessage list \<Rightarrow> Message list" where
  "toGuardrailMessages txt msgs =
     map (\<lambda>m. \<lparr>gm_Role = msg_Role m, gm_Content = strip_quotes (txt (msg_Content m))\<rparr>) msgs"

definition extractChoiceContent :: "(raw \<Rightarrow> string) \<Rightarrow> ChatCompletionResponse option \<Rightarrow> string" where
  "extractChoiceContent txt resp =
     (case resp of
        None \<Rightarrow> ''''
      | Some r \<Rightarrow> (case resp_Choices r of [] \<Rightarrow> '''' | c # cs \<Rightarrow> strip_quotes (txt (msg_Content (ch_Message c)))))"

fun redact_contents :: "Message list \<Rightarrow> ChatMessage list \<Rightarrow> ChatMessage list" where
  "redact_contents (g # gs) (m # ms) = m\<lparr>msg_Content := Some (JStr (gm_Content g))\<rparr> # redact_contents gs ms"
| "redact_contents gs ms = ms"

text \<open>The events of the pipeline go to its audit logger, if it has one.\<close>

fun emit_events :: "('c, 'w) gov_env \<Rightarrow> Event list \<Rightarrow> 'c Handler \<Rightarrow> 'w \<Rightarrow> ('c Handler \<times> 'w) option" where
  "emit_events E [] h w = Some (h, w)"
| "emit_events E (e # es) h w =
     (case (h_guardAudit h, h_audit h) of
        (True, Some l) \<Rightarrow>
          let (now, w) = ev_now E w
          in (case Logger_Record (now, e) l of None \<Rightarrow> None | Some l \<Rightarrow> emit_events E es (h\<lparr>h_audit := Some l\<rparr>) w)
      | _ \<Rightarrow> Some (h, w))"

text \<open>The redaction of a request changes the messages of the caller: the result holds the request as it is afterwards.\<close>

definition checkInputGuardrails ::
  "('c, 'w) gov_env \<Rightarrow> ChatCompletionRequest \<Rightarrow> 'c Handler \<Rightarrow> 'w
   \<Rightarrow> ((GovernanceError + ChatCompletionRequest) \<times> 'c Handler \<times> 'w) option" where
  "checkInputGuardrails E req h w =
     (case (shouldRunInputGuardrails h (req_Model req), h_guardrails h) of
        (True, Some g) \<Rightarrow>
          (case CheckInput (ev_guard E) g (toGuardrailMessages (ev_text E) (req_Messages req)) w of
             (result, events, w) \<Rightarrow>
               (case emit_events E events h w of
                  None \<Rightarrow> None
                | Some (h, w) \<Rightarrow> Some
                    (case result of
                       Inl err \<Rightarrow> Inl (governance_error 500 ''guardrail_error'' ''guardrail check failed'' ''input'')
                     | Inr r \<Rightarrow>
                         (case rs_Action r of
                            Block \<Rightarrow> Inl (governance_error 400 ''guardrail_block'' (rs_Message r) ''input'')
                          | Redact \<Rightarrow> Inr (req\<lparr>req_Messages := redact_contents (rs_RedactedMessages r) (req_Messages req)\<rparr>)
                          | Pass \<Rightarrow> Inr req), h, w)))
      | _ \<Rightarrow> Some (Inr req, h, w))"

text \<open>Steps 1 to 4; the streaming path runs them as \<^verbatim>\<open>preStreamGovernance\<close>, \<^verbatim>\<open>ExecuteGoverned\<close> has the same statements.\<close>

definition preStreamGovernance ::
  "('c, 'w) gov_env \<Rightarrow> ChatCompletionRequest \<Rightarrow> GovernanceIdentity option \<Rightarrow> 'c Handler \<Rightarrow> 'w
   \<Rightarrow> ((GovernanceError + headers \<times> ChatCompletionRequest) \<times> 'c Handler \<times> 'w) option" where
  "preStreamGovernance E req identity h w =
     (if (case identity of None \<Rightarrow> False | Some i \<Rightarrow> \<not> modelAllowed (req_Model req) (gi_AllowedModels i))
      then Some (Inl (buildModelNotAllowedError (req_Model req) (gi_AllowedModels (the identity))), h, w)
      else case checkRateLimit E identity h w of
             (Inl err, h, w) \<Rightarrow> Some (Inl err, h, w)
           | (Inr rateLimitHeaders, h, w) \<Rightarrow>
               (case checkBudget E identity h w of
                  (Some err, w) \<Rightarrow> Some (Inl err, h, w)
                | (None, w) \<Rightarrow>
                    (case checkInputGuardrails E req h w of
                       None \<Rightarrow> None
                     | Some (Inl err, h, w) \<Rightarrow> Some (Inl err, h, w)
                     | Some (Inr req, h, w) \<Rightarrow> Some (Inr (rateLimitHeaders, req), h, w))))"

section \<open>Cache, plan and health\<close>

definition cache_lookup ::
  "('c, 'w) gov_env \<Rightarrow> ChatCompletionRequest \<Rightarrow> 'c Handler \<Rightarrow> 'w
   \<Rightarrow> ChatCompletionResponse option option \<times> string \<times> 'c Handler \<times> 'w" where
  "cache_lookup E req h w =
     (case h_cache h of
        None \<Rightarrow> (None, '''', h, w)
      | Some c \<Rightarrow>
          if \<not> xc_Enabled (cc_Exact (cfg_Cache (h_cfg h))) then (None, '''', h, w)
          else let key = HashRequest (ev_sha E) req;
                   (now, w) = ev_now E w;
                   (cached, c) = ev_cacheGet E now key c
               in (cached, key, h\<lparr>h_cache := Some c\<rparr>, w))"

definition cache_store ::
  "('c, 'w) gov_env \<Rightarrow> string \<Rightarrow> ChatCompletionResponse option \<Rightarrow> 'c Handler \<Rightarrow> 'w \<Rightarrow> 'c Handler \<times> 'w" where
  "cache_store E cacheKey resp h w =
     (case h_cache h of
        None \<Rightarrow> (h, w)
      | Some c \<Rightarrow>
          if cacheKey = '''' \<or> \<not> xc_Enabled (cc_Exact (cfg_Cache (h_cfg h))) then (h, w)
          else let ttl = wrap64 (xc_TTLSeconds (cc_Exact (cfg_Cache (h_cfg h))) * time_Second);
                   (now, w) = ev_now E w
               in (h\<lparr>h_cache := Some (ev_cacheSet E now cacheKey (resp, ttl) c)\<rparr>, w))"

fun plan_error_text :: "plan_error \<Rightarrow> string" where
  "plan_error_text (ModelNotConfigured m) = ''model '' @ go_quote m @ '' is not configured''"
| "plan_error_text (NoRoutes m) = ''model '' @ go_quote m @ '' has no routes''"
| "plan_error_text PlanPanic = ''''"

text \<open>A plan of the router, which shares the handler's health tracker.\<close>

definition handler_plan ::
  "('c, 'w) gov_env \<Rightarrow> string \<Rightarrow> 'c Handler \<Rightarrow> 'w \<Rightarrow> ((plan_error + Target list) \<times> 'c Handler \<times> 'w) option" where
  "handler_plan E model h w =
     (let (now, w) = ev_now E w;
          ((clk, rnd), w) = ev_draw E w;
          health = map_option (\<lambda>t p m r. IsHealthy p m r now t) (h_healthTracker h);
          (r, router) = Router_Plan (ev_reader E) health clk rnd model (h_router h)
      in if r = Inl PlanPanic then None else Some (r, h\<lparr>h_router := router\<rparr>, w))"

definition plan_for ::
  "('c, 'w) gov_env \<Rightarrow> request_ctx \<Rightarrow> string \<Rightarrow> 'c Handler \<Rightarrow> 'w
   \<Rightarrow> ((GovernanceError + Target list) \<times> 'c Handler \<times> 'w) option" where
  "plan_for E cx model h w =
     (case cx_plan cx of
        Some targets \<Rightarrow> Some (Inr targets, h, w)
      | None \<Rightarrow>
          (case handler_plan E model h w of
             None \<Rightarrow> None
           | Some (Inl err, h, w) \<Rightarrow> Some (Inl (governance_error 400 ''model_not_found'' (plan_error_text err) ''routing''), h, w)
           | Some (Inr targets, h, w) \<Rightarrow> Some (Inr targets, h, w)))"

definition record_health ::
  "('c, 'w) gov_env \<Rightarrow> bool \<Rightarrow> Target \<Rightarrow> 'c Handler \<Rightarrow> 'w \<Rightarrow> 'c Handler \<times> 'w" where
  "record_health E ok target h w =
     (case h_healthTracker h of
        None \<Rightarrow> (h, w)
      | Some t \<Rightarrow>
          let (now, w) = ev_now E w;
              record = (if ok then Tracker_RecordSuccess else Tracker_RecordFailure)
          in (h\<lparr>h_healthTracker := Some (record (tg_Provider target) (tg_Model target) (tg_Region target) now t)\<rparr>, w))"

definition provider_failure :: "provider_error \<Rightarrow> Target \<Rightarrow> GovernanceError" where
  "provider_failure err target =
     governance_error 502 ''provider_error'' (EnrichProviderError (tg_Provider target) (extractHTTPStatus err) (http_body err))
       ''provider''"

section \<open>Output guardrails\<close>

fun redact_choice :: "string \<Rightarrow> Choice list \<Rightarrow> Choice list" where
  "redact_choice msg [] = []"
| "redact_choice msg (c # cs) = c\<lparr>ch_Message := (ch_Message c)\<lparr>msg_Content := Some (JStr msg)\<rparr>\<rparr> # cs"

definition check_output ::
  "('c, 'w) gov_env \<Rightarrow> string \<Rightarrow> ChatCompletionResponse option \<Rightarrow> 'c Handler \<Rightarrow> 'w
   \<Rightarrow> ((GovernanceError + ChatCompletionResponse option) \<times> 'c Handler \<times> 'w) option" where
  "check_output E model resp h w =
     (case (shouldRunOutputGuardrails h model, h_guardrails h, resp) of
        (True, Some g, Some r) \<Rightarrow>
          if resp_Choices r = [] then Some (Inr resp, h, w)
          else (case CheckOutput (ev_guard E) g (extractChoiceContent (ev_text E) resp) w of
             (result, events, w) \<Rightarrow>
               (case emit_events E events h w of
                  None \<Rightarrow> None
                | Some (h, w) \<Rightarrow> Some
                    (case result of
                       Inl err \<Rightarrow> Inl (governance_error 500 ''guardrail_error'' ''guardrail check failed'' ''output'')
                     | Inr g \<Rightarrow>
                         (case rs_Action g of
                            Block \<Rightarrow> Inl (governance_error 400 ''guardrail_block'' (rs_Message g) ''output'')
                          | Redact \<Rightarrow> Inr (Some (r\<lparr>resp_Choices := redact_choice (rs_Message g) (resp_Choices r)\<rparr>))
                          | Pass \<Rightarrow> Inr resp), h, w)))
      | _ \<Rightarrow> Some (Inr resp, h, w))"

section \<open>Costs and logs\<close>

definition calculateCost :: "'c Handler \<Rightarrow> Target \<Rightarrow> Usage option \<Rightarrow> f64" where
  "calculateCost h target usage =
     (case (h_prices h, usage) of
        (Some p, Some u) \<Rightarrow>
          CalculateCost (h_prices h) (tg_Provider target) (tg_Model target) (us_PromptTokens u) (us_CompletionTokens u)
      | _ \<Rightarrow> 0)"

definition usageValue :: "ChatCompletionResponse option \<Rightarrow> string \<Rightarrow> int" where
  "usageValue resp fld =
     (case resp of
        None \<Rightarrow> 0
      | Some r \<Rightarrow>
          (case resp_Usage r of
             None \<Rightarrow> 0
           | Some u \<Rightarrow> if fld = ''prompt'' then us_PromptTokens u
                       else if fld = ''completion'' then us_CompletionTokens u
                       else if fld = ''total'' then us_TotalTokens u else 0))"

definition elapsed_ms :: "gotime \<Rightarrow> gotime \<Rightarrow> int" where
  "elapsed_ms start now = quot_int (time_Sub now start) time_Millisecond"

definition usage_entry ::
  "GovernanceIdentity \<Rightarrow> string \<Rightarrow> Target \<Rightarrow> ChatCompletionResponse \<Rightarrow> f64 \<Rightarrow> int \<Rightarrow> int \<Rightarrow> Entry" where
  "usage_entry i model target r cost attempts ms =
     \<lparr>ue_RequestID = '''', ue_ProjectID = gi_ProjectID i, ue_VirtualKeyID = gi_VirtualKeyID i, ue_Model = model,
      ue_Provider = tg_Provider target, ue_ProviderModel = tg_Model target, ue_PromptTokens = usageValue (Some r) ''prompt'',
      ue_CompletionTokens = usageValue (Some r) ''completion'', ue_TotalTokens = usageValue (Some r) ''total'',
      ue_CostUSD = cost, ue_CacheHit = False, ue_Stream = False, ue_Attempts = attempts, ue_DurationMS = ms, ue_Error = ''''\<rparr>"

definition log_usage ::
  "('c, 'w) gov_env \<Rightarrow> GovernanceIdentity option \<Rightarrow> string \<Rightarrow> Target \<Rightarrow> ChatCompletionResponse \<Rightarrow> f64 \<Rightarrow> int \<Rightarrow> gotime \<Rightarrow> 'c Handler
   \<Rightarrow> 'w \<Rightarrow> ('c Handler \<times> 'w) option" where
  "log_usage E identity model target r cost attempts start h w =
     (case (identity, h_usageW h) of
        (Some i, Some uw) \<Rightarrow>
          if gi_SkipUsageLog i then Some (h, w)
          else let (now, w) = ev_now E w
               in (case Writer_Record (usage_entry i model target r cost attempts (elapsed_ms start now)) uw of
                     None \<Rightarrow> None
                   | Some uw \<Rightarrow> Some (h\<lparr>h_usageW := Some uw\<rparr>, w))
      | _ \<Rightarrow> Some (h, w))"

definition message_json :: "(raw \<Rightarrow> string) \<Rightarrow> ChatMessage \<Rightarrow> json" where
  "message_json txt m = JObj [(''role'', JStr (msg_Role m)), (''content'', JStr (txt (msg_Content m)))]"

definition body_event ::
  "('c, 'w) gov_env \<Rightarrow> request_ctx \<Rightarrow> ChatCompletionRequest \<Rightarrow> Target \<Rightarrow> ChatCompletionResponse \<Rightarrow> f64 \<Rightarrow> int \<Rightarrow> int \<Rightarrow> Event" where
  "body_event E cx req target r cost attempts ms =
     \<lparr>ae_Timestamp = time_zero, ae_EventType = ''chat.completion'',
      ae_Actor = (case cx_auth cx of None \<Rightarrow> ''anonymous'' | Some a \<Rightarrow> ctx_VirtualKeyID a),
      ae_Action = ''complete'',
      ae_Resource = (case cx_auth cx of None \<Rightarrow> req_Model req | Some a \<Rightarrow> ctx_ProjectID a @ ''/'' @ req_Model req),
      ae_Outcome = ''success'', ae_RequestID = cx_requestID cx,
      ae_Metadata =
        [(''model'', JStr (req_Model req)), (''provider'', JStr (tg_Provider target)), (''stream'', JBool False),
         (''attempts'', JInt attempts)]
        @ (case resp_Usage r of
             None \<Rightarrow> []
           | Some u \<Rightarrow> [(''prompt_tokens'', JInt (us_PromptTokens u)), (''completion_tokens'', JInt (us_CompletionTokens u))])
        @ [(''cost_usd'', json_float cost), (''duration_ms'', JInt ms)]
        @ (case cx_auth cx of
             None \<Rightarrow> []
           | Some a \<Rightarrow> [(''virtual_key_id'', JStr (ctx_VirtualKeyID a)), (''project_id'', JStr (ctx_ProjectID a))])
        @ [(''request_messages'', JArr (map (message_json (ev_text E)) (req_Messages req)))]
        @ (case resp_Choices r of
             [] \<Rightarrow> []
           | c # cs \<Rightarrow> [(''response_content'', JStr (ev_text E (msg_Content (ch_Message c)))),
                        (''finish_reason'', JStr (ch_FinishReason c))])\<rparr>"

definition log_body ::
  "('c, 'w) gov_env \<Rightarrow> request_ctx \<Rightarrow> ChatCompletionRequest \<Rightarrow> Target \<Rightarrow> ChatCompletionResponse \<Rightarrow> f64 \<Rightarrow> int \<Rightarrow> gotime \<Rightarrow> 'c Handler \<Rightarrow> 'w
   \<Rightarrow> ('c Handler \<times> 'w) option" where
  "log_body E cx req target r cost attempts start h w =
     (case (h_logBodies h \<and> h_auditLog h, h_audit h) of
        (True, Some l) \<Rightarrow>
          let (now, w) = ev_now E w; (t, w) = ev_now E w
          in (case Logger_Record (t, body_event E cx req target r cost attempts (elapsed_ms start now)) l of
                None \<Rightarrow> None
              | Some l \<Rightarrow> Some (h\<lparr>h_audit := Some l\<rparr>, w))
      | _ \<Rightarrow> Some (h, w))"

section \<open>The pipeline\<close>

definition result_headers :: "GovernanceIdentity option \<Rightarrow> Target \<Rightarrow> f64 \<Rightarrow> headers \<Rightarrow> headers" where
  "result_headers identity target cost rateLimitHeaders =
     fold (\<lambda>(k, v). gm_set k v) rateLimitHeaders
       ([(''X-Provider'', tg_Provider target), (''X-Cache'', ''MISS'')]
        @ (if identity = None then [] else [(''X-Cost-USD'', fmt_fixed 6 cost)]))"

text \<open>Steps 9 to 11, once the output has passed. A nil response is dereferenced at its usage.\<close>

definition finish_call ::
  "('c, 'w) gov_env \<Rightarrow> request_ctx \<Rightarrow> ChatCompletionRequest \<Rightarrow> GovernanceIdentity option \<Rightarrow> headers \<Rightarrow> gotime \<Rightarrow> string
   \<Rightarrow> ChatCompletionResponse option \<Rightarrow> Target \<Rightarrow> int \<Rightarrow> 'c Handler \<Rightarrow> 'w \<Rightarrow> ((GovernanceError + GovernedResult) \<times> 'c Handler \<times> 'w) option" where
  "finish_call E cx req identity headers start cacheKey resp target attempts h w =
     (let (h, w) = cache_store E cacheKey resp h w
      in case resp of
           None \<Rightarrow> None
         | Some r \<Rightarrow>
             let cost = calculateCost h target (resp_Usage r)
             in do {
               (h, w) \<leftarrow> log_usage E identity (req_Model req) target r cost attempts start h w;
               (h, w) \<leftarrow> log_body E cx req target r cost attempts start h w;
               let (now, w) = ev_now E w;
               Some (Inr \<lparr>gd_Response = resp, gd_Target = target, gd_Attempts = attempts, gd_CacheHit = False,
                          gd_DurationMS = elapsed_ms start now, gd_CostUSD = cost,
                          gd_Headers = result_headers identity target cost headers\<rparr>, h, w)
             })"

definition provider_step ::
  "('c, 'w) gov_env \<Rightarrow> request_ctx \<Rightarrow> ChatCompletionRequest \<Rightarrow> GovernanceIdentity option \<Rightarrow> headers \<Rightarrow> gotime \<Rightarrow> string \<Rightarrow> Target list
   \<Rightarrow> 'c Handler \<Rightarrow> 'w \<Rightarrow> ((GovernanceError + GovernedResult) \<times> 'c Handler \<times> 'w) option" where
  "provider_step E cx req identity headers start cacheKey targets h w = do {
     ((res, target, attempts), h, w) \<leftarrow> executePlan E req targets h w;
     let (h, w) = record_health E (case res of Inl err \<Rightarrow> False | Inr resp \<Rightarrow> True) target h w;
     (case res of
        Inl err \<Rightarrow> Some (Inl (provider_failure err target), h, w)
      | Inr resp \<Rightarrow> do {
          (r, h, w) \<leftarrow> check_output E (req_Model req) resp h w;
          (case r of
             Inl err \<Rightarrow> Some (Inl err, h, w)
           | Inr resp \<Rightarrow> finish_call E cx req identity headers start cacheKey resp target attempts h w)
        })
   }"

definition cache_hit :: "ChatCompletionResponse option \<Rightarrow> int \<Rightarrow> GovernedResult" where
  "cache_hit cached ms =
     \<lparr>gd_Response = cached, gd_Target = zero_Target, gd_Attempts = 0, gd_CacheHit = True, gd_DurationMS = ms, gd_CostUSD = 0,
      gd_Headers = [(''X-Cache'', ''HIT'')]\<rparr>"

definition ExecuteGoverned ::
  "('c, 'w) gov_env \<Rightarrow> request_ctx \<Rightarrow> ChatCompletionRequest \<Rightarrow> GovernanceIdentity option \<Rightarrow> 'c Handler \<Rightarrow> 'w
   \<Rightarrow> ((GovernanceError + GovernedResult) \<times> 'c Handler \<times> 'w) option" where
  "ExecuteGoverned E cx req identity h w =
     (let (start, w) = ev_now E w
      in do {
        (r, h, w) \<leftarrow> preStreamGovernance E req identity h w;
        (case r of
           Inl err \<Rightarrow> Some (Inl err, h, w)
         | Inr (headers, req) \<Rightarrow>
             (case cache_lookup E req h w of
                (Some cached, key, h, w) \<Rightarrow>
                  let (now, w) = ev_now E w in Some (Inr (cache_hit cached (elapsed_ms start now)), h, w)
              | (None, cacheKey, h, w) \<Rightarrow> do {
                  (p, h, w) \<leftarrow> plan_for E cx (req_Model req) h w;
                  (case p of
                     Inl err \<Rightarrow> Some (Inl err, h, w)
                   | Inr targets \<Rightarrow> provider_step E cx req identity headers start cacheKey targets h w)
                }))
      })"

text \<open>\<^verbatim>\<open>ExecuteForMCP\<close>: the conversion of the identity is done by the caller.\<close>

definition ExecuteForMCP ::
  "('c, 'w) gov_env \<Rightarrow> request_ctx \<Rightarrow> ChatCompletionRequest \<Rightarrow> GovernanceIdentity option \<Rightarrow> 'c Handler \<Rightarrow> 'w
   \<Rightarrow> ((GovernanceError + ChatCompletionResponse option) \<times> 'c Handler \<times> 'w) option" where
  "ExecuteForMCP E cx req identity h w = do {
     (r, h, w) \<leftarrow> ExecuteGoverned E cx req identity h w;
     Some (case r of Inl err \<Rightarrow> Inl err | Inr result \<Rightarrow> Inr (gd_Response result), h, w)
   }"

definition ExecuteForReplay ::
  "('c, 'w) gov_env \<Rightarrow> ChatCompletionRequest \<Rightarrow> Target \<Rightarrow> ProviderKey \<Rightarrow> 'w \<Rightarrow> (provider_error + ChatCompletionResponse option) \<times> 'w" where
  "ExecuteForReplay E req target key w =
     (case ev_adapter E (tg_Provider target) of
        None \<Rightarrow> (Inl (OtherError (''provider adapter not found: '' @ tg_Provider target)), w)
      | Some call \<Rightarrow> call req target key w)"

section \<open>What each step may change\<close>

definition check_frame :: "'c Handler \<Rightarrow> 'c Handler \<Rightarrow> bool" where
  "check_frame h h' \<longleftrightarrow> h' = h\<lparr>h_limiters := h_limiters h', h_audit := h_audit h'\<rparr>"

lemma check_frame_refl [simp, intro]: "check_frame h h"
  by (simp add: check_frame_def)

lemma check_frame_trans [trans]: "check_frame h h' \<Longrightarrow> check_frame h' h'' \<Longrightarrow> check_frame h h''"
  unfolding check_frame_def by (cases h, cases h', cases h'') simp

lemma check_frame_fields:
  "check_frame h h' \<Longrightarrow> h_cfg h' = h_cfg h \<and> h_router h' = h_router h \<and> h_cache h' = h_cache h \<and> h_keys h' = h_keys h
     \<and> h_breakers h' = h_breakers h \<and> h_prices h' = h_prices h \<and> h_usageW h' = h_usageW h \<and> h_guardrails h' = h_guardrails h
     \<and> h_healthTracker h' = h_healthTracker h \<and> h_logBodies h' = h_logBodies h \<and> h_auditLog h' = h_auditLog h
     \<and> h_guardAudit h' = h_guardAudit h \<and> h_budgetFailClosed h' = h_budgetFailClosed h"
  unfolding check_frame_def by (cases h, cases h') simp

lemma emit_events_frame: "emit_events E es h w = Some (h', w') \<Longrightarrow> check_frame h h' \<and> h_limiters h' = h_limiters h"
proof (induction E es h w rule: emit_events.induct)
  case (1 E h w)
  then show ?case by simp
next
  case (2 E e es h w)
  show ?case
  proof (cases "h_guardAudit h \<and> h_audit h \<noteq> None")
    case False
    with 2 show ?thesis by (auto split: option.splits bool.splits)
  next
    case True
    then obtain l where l: "h_guardAudit h" "h_audit h = Some l" by auto
    obtain now w1 where t: "ev_now E w = (now, w1)" by force
    from 2(2) l t obtain l' where r: "Logger_Record (now, e) l = Some l'"
      "emit_events E es (h\<lparr>h_audit := Some l'\<rparr>) w1 = Some (h', w')" by (auto split: option.splits)
    have IH: "check_frame (h\<lparr>h_audit := Some l'\<rparr>) h' \<and> h_limiters h' = h_limiters (h\<lparr>h_audit := Some l'\<rparr>)"
      using 2(1) [of True "Some l"] l t r by simp
    moreover have "check_frame h (h\<lparr>h_audit := Some l'\<rparr>)" by (simp add: check_frame_def)
    ultimately show ?thesis using check_frame_trans by auto
  qed
qed

lemma checkRateLimit_frame: "checkRateLimit E identity h w = (r, h', w') \<Longrightarrow> check_frame h h' \<and> h_audit h' = h_audit h"
  by (auto simp: checkRateLimit_def getLimiter_def check_frame_def Let_def split: option.splits if_splits prod.splits)

lemma checkInputGuardrails_frame:
  assumes "checkInputGuardrails E req h w = Some (r, h', w')"
  shows "check_frame h h'"
proof (cases "shouldRunInputGuardrails h (req_Model req)")
  case False
  with assms show ?thesis by (simp add: checkInputGuardrails_def)
next
  case True
  then obtain g where g: "h_guardrails h = Some g" by (auto simp: shouldRunInputGuardrails_def split: option.splits)
  obtain res evs w1 where c: "CheckInput (ev_guard E) g (toGuardrailMessages (ev_text E) (req_Messages req)) w = (res, evs, w1)"
    by (metis prod_cases3)
  from assms True g c obtain w2 where "emit_events E evs h w1 = Some (h', w2)"
    by (auto simp: checkInputGuardrails_def split: option.splits)
  then show ?thesis by (rule emit_events_frame [THEN conjunct1])
qed

lemma preStream_frame:
  assumes "preStreamGovernance E req identity h w = Some (r, h', w')"
  shows "check_frame h h'"
proof -
  obtain rl h1 w1 where rl: "checkRateLimit E identity h w = (rl, h1, w1)" by (metis prod_cases3)
  obtain be w2 where be: "checkBudget E identity h1 w1 = (be, w2)" by force
  have f1: "check_frame h h1" using checkRateLimit_frame [OF rl] by blast
  show ?thesis
  proof (cases "checkInputGuardrails E req h1 w2")
    case None
    with assms rl be f1 show ?thesis by (auto simp: preStreamGovernance_def split: if_splits sum.splits option.splits)
  next
    case (Some x)
    obtain ig h2 w3 where x: "x = (ig, h2, w3)" by (metis prod_cases3)
    note f2 = check_frame_trans [OF f1 checkInputGuardrails_frame [OF Some [unfolded x]]]
    from assms rl be f1 f2 Some x show ?thesis
      by (auto simp: preStreamGovernance_def split: if_splits sum.splits option.splits)
  qed
qed

lemma check_output_frame:
  assumes "check_output E model resp h w = Some (r, h', w')"
  shows "check_frame h h' \<and> h_limiters h' = h_limiters h"
proof (cases "shouldRunOutputGuardrails h model \<and> resp \<noteq> None \<and> resp_Choices (the resp) \<noteq> []")
  case False
  with assms show ?thesis by (auto simp: check_output_def split: bool.splits option.splits)
next
  case True
  then obtain g rr where g: "h_guardrails h = Some g" "resp = Some rr" "resp_Choices rr \<noteq> []"
    by (auto simp: shouldRunOutputGuardrails_def split: option.splits)
  obtain res evs w1 where c: "CheckOutput (ev_guard E) g (extractChoiceContent (ev_text E) resp) w = (res, evs, w1)"
    by (metis prod_cases3)
  from assms True g c obtain w2 where "emit_events E evs h w1 = Some (h', w2)"
    by (auto simp: check_output_def split: option.splits)
  then show ?thesis by (rule emit_events_frame)
qed

lemma plan_for_frame: "plan_for E cx model h w = Some (p, h', w') \<Longrightarrow> \<exists>x. h' = h\<lparr>h_router := x\<rparr>"
  by (intro exI [of _ "h_router h'"]) (auto simp: plan_for_def handler_plan_def Let_def split: option.splits prod.splits if_splits sum.splits)

lemma cache_lookup_frame: "cache_lookup E req h w = (c, k, h', w') \<Longrightarrow> \<exists>x. h' = h\<lparr>h_cache := x\<rparr>"
  by (intro exI [of _ "h_cache h'"]) (auto simp: cache_lookup_def Let_def split: option.splits prod.splits if_splits)

lemma cache_store_frame: "cache_store E k resp h w = (h', w') \<Longrightarrow> \<exists>x. h' = h\<lparr>h_cache := x\<rparr>"
  by (intro exI [of _ "h_cache h'"]) (auto simp: cache_store_def Let_def split: option.splits prod.splits if_splits)

lemma record_health_frame: "record_health E ok tg h w = (h', w') \<Longrightarrow> \<exists>x. h' = h\<lparr>h_healthTracker := x\<rparr>"
  by (intro exI [of _ "h_healthTracker h'"]) (auto simp: record_health_def Let_def split: option.splits prod.splits if_splits)

lemma log_body_frame: "log_body E cx req tg r cost n start h w = Some (h', w') \<Longrightarrow> \<exists>x. h' = h\<lparr>h_audit := x\<rparr>"
  by (intro exI [of _ "h_audit h'"]) (auto simp: log_body_def Let_def split: option.splits prod.splits if_splits bool.splits)

lemma checkInput_model: "checkInputGuardrails E req h w = Some (Inr req', h', w') \<Longrightarrow> req_Model req' = req_Model req"
  by (auto simp: checkInputGuardrails_def split: bool.splits option.splits prod.splits sum.splits ResultAction.splits)

lemma preStream_model:
  assumes "preStreamGovernance E req identity h w = Some (Inr (hs, req'), h', w')"
  shows "req_Model req' = req_Model req"
proof -
  obtain h1 w2 h2 w3 where "checkInputGuardrails E req h1 w2 = Some (Inr req', h2, w3)"
    using assms by (auto simp: preStreamGovernance_def split: if_splits sum.splits option.splits prod.splits)
  then show ?thesis by (rule checkInput_model)
qed

lemma governed_cases:
  assumes "ExecuteGoverned E cx req identity h w = Some (r, h', w')"
  obtains (rejected) e where "preStreamGovernance E req identity h (snd (ev_now E w)) = Some (Inl e, h', w')" and "r = Inl e"
  | (hit) hs req' h1 w1 cached key w2 ms where
      "preStreamGovernance E req identity h (snd (ev_now E w)) = Some (Inr (hs, req'), h1, w1)"
      "cache_lookup E req' h1 w1 = (Some cached, key, h', w2)" "r = Inr (cache_hit cached ms)"
  | (unrouted) hs req' h1 w1 key h2 w2 e where
      "preStreamGovernance E req identity h (snd (ev_now E w)) = Some (Inr (hs, req'), h1, w1)"
      "cache_lookup E req' h1 w1 = (None, key, h2, w2)" "plan_for E cx (req_Model req') h2 w2 = Some (Inl e, h', w')" "r = Inl e"
  | (called) hs req' h1 w1 key h2 w2 targets h3 w3 where
      "preStreamGovernance E req identity h (snd (ev_now E w)) = Some (Inr (hs, req'), h1, w1)"
      "cache_lookup E req' h1 w1 = (None, key, h2, w2)" "plan_for E cx (req_Model req') h2 w2 = Some (Inr targets, h3, w3)"
      "provider_step E cx req' identity hs (fst (ev_now E w)) key targets h3 w3 = Some (r, h', w')"
proof -
  let ?s = "fst (ev_now E w)" and ?w0 = "snd (ev_now E w)"
  from assms obtain p h1 w1 where pre: "preStreamGovernance E req identity h ?w0 = Some (p, h1, w1)"
    by (cases "preStreamGovernance E req identity h ?w0") (auto simp: ExecuteGoverned_def split_beta)
  show thesis
  proof (cases p)
    case (Inl e)
    with assms pre rejected show thesis by (simp add: ExecuteGoverned_def split_beta)
  next
    case (Inr x)
    obtain hs req' where x: "x = (hs, req')" by force
    note pre' = pre [unfolded Inr x]
    obtain c key h2 w2 where look: "cache_lookup E req' h1 w1 = (c, key, h2, w2)" by (metis prod_cases4)
    show thesis
    proof (cases c)
      case (Some cached)
      with assms pre' look have "h2 = h'" and "r = Inr (cache_hit cached (elapsed_ms ?s (fst (ev_now E w2))))"
        by (simp_all add: ExecuteGoverned_def split_beta)
      with look Some show thesis by (intro hit [OF pre']) simp_all
    next
      case None
      from assms pre' look None obtain q h3 w3 where plan: "plan_for E cx (req_Model req') h2 w2 = Some (q, h3, w3)"
        by (cases "plan_for E cx (req_Model req') h2 w2") (auto simp: ExecuteGoverned_def split_beta)
      show thesis
      proof (cases q)
        case (Inl e)
        with assms pre' look None plan unrouted show thesis by (simp add: ExecuteGoverned_def split_beta)
      next
        case (Inr targets)
        with assms pre' look None plan called show thesis by (simp add: ExecuteGoverned_def split_beta)
      qed
    qed
  qed
qed

section \<open>Rejected requests\<close>

lemma governed_reject:
  assumes "preStreamGovernance E req identity h (snd (ev_now E w)) = Some (Inl e, h', w')"
  shows "ExecuteGoverned E cx req identity h w = Some (Inl e, h', w')"
  using assms by (simp add: ExecuteGoverned_def split_beta)

lemma rate_limit_status: "checkRateLimit E identity h w = (Inl e, h', w') \<Longrightarrow> gv_StatusCode e = 429"
  by (auto simp: checkRateLimit_def governance_error_def Let_def split: option.splits if_splits prod.splits)

text \<open>C7. A key whose spending has reached its limit gets no answer: the request is rejected with status 403, or with 429 when
  the rate limit stops it first, before the cache is asked or a provider is called: routes, key rings, breakers, cache, health
  records and usage log stay as they are.\<close>

theorem over_budget_rejected:
  assumes "\<not> gi_SkipBudget i" and "0 < gi_BudgetLimitUSD i" and "h_usageW h = Some uw" and "uw_db uw = Some table"
    and "\<And>w. \<not> ev_db_fails E w"
    and "\<And>w. gi_BudgetLimitUSD i \<le>
           GetSpendForCurrentPeriod (ev_trunc E) (fst (ev_now E w)) table (gi_VirtualKeyID i) (gi_BudgetPeriod i)"
  shows "\<exists>e h' w'. ExecuteGoverned E cx req (Some i) h w = Some (Inl e, h', w') \<and> gv_StatusCode e \<in> {403, 429} \<and> check_frame h h'"
proof -
  let ?w0 = "snd (ev_now E w)"
  have "\<exists>e h' w'. preStreamGovernance E req (Some i) h ?w0 = Some (Inl e, h', w') \<and> gv_StatusCode e \<in> {403, 429}"
  proof (cases "modelAllowed (req_Model req) (gi_AllowedModels i)")
    case False
    then show ?thesis by (simp add: preStreamGovernance_def buildModelNotAllowedError_def governance_error_def)
  next
    case True
    obtain rl h1 w1 where rl: "checkRateLimit E (Some i) h ?w0 = (rl, h1, w1)" by (metis prod_cases3)
    show ?thesis
    proof (cases rl)
      case (Inl e)
      with rl True show ?thesis using rate_limit_status [OF rl [unfolded Inl]] by (simp add: preStreamGovernance_def)
    next
      case (Inr hs)
      have "h_usageW h1 = Some uw" using checkRateLimit_frame [OF rl] check_frame_fields assms(3) by metis
      moreover have "\<not> GetSpendForCurrentPeriod (ev_trunc E) (fst (ev_now E w1)) table (gi_VirtualKeyID i) (gi_BudgetPeriod i)
        < gi_BudgetLimitUSD i" using assms(6) [of w1] by simp
      ultimately obtain e w2 where "checkBudget E (Some i) h1 w1 = (Some e, w2)" and "gv_StatusCode e = 403"
        using assms(1,2,4,5)
        by (simp add: checkBudget_def CheckBudget_def usage_handle_def governance_error_def Let_def split_beta)
      with rl Inr True show ?thesis by (simp add: preStreamGovernance_def)
    qed
  qed
  then obtain e h' w' where p: "preStreamGovernance E req (Some i) h ?w0 = Some (Inl e, h', w')" "gv_StatusCode e \<in> {403, 429}"
    by blast
  from governed_reject [OF p(1)] p(2) preStream_frame [OF p(1)] show ?thesis by blast
qed

section \<open>Billing\<close>

lemma log_usage_result:
  assumes "log_usage E identity model tg r cost n start h w = Some (h', w')" and "h_usageW h = Some uw"
  shows "case identity of
      None \<Rightarrow> h' = h
    | Some i \<Rightarrow> if gi_SkipUsageLog i then h' = h
                else \<exists>ms uw'. Writer_Record (usage_entry i model tg r cost n ms) uw = Some uw' \<and> h' = h\<lparr>h_usageW := Some uw'\<rparr>"
  using assms by (auto simp: log_usage_def split_beta split: option.splits if_splits)

lemma finish_call_cases:
  assumes "finish_call E cx req identity hs start key resp tg n h w = Some (r, h', w')"
  obtains rr h1 w1 h2 w2 res where "resp = Some rr" "cache_store E key resp h w = (h1, w1)"
    "log_usage E identity (req_Model req) tg rr (calculateCost h tg (resp_Usage rr)) n start h1 w1 = Some (h2, w2)"
    "\<exists>x. h' = h2\<lparr>h_audit := x\<rparr>" "r = Inr res" "gd_Response res = resp" "gd_Target res = tg" "gd_Attempts res = n" "\<not> gd_CacheHit res"
    "gd_CostUSD res = calculateCost h tg (resp_Usage rr)"
proof -
  obtain h1 w1 where st: "cache_store E key resp h w = (h1, w1)" by force
  have p1: "h_prices h1 = h_prices h" using cache_store_frame [OF st] by auto
  from assms(1) st obtain rr where rr: "resp = Some rr" by (auto simp: finish_call_def split: option.splits)
  let ?cost = "calculateCost h tg (resp_Usage rr)"
  have cost: "calculateCost h1 tg (resp_Usage rr) = ?cost" by (simp add: calculateCost_def p1 split: option.split)
  from assms(1) st rr cost obtain h2 w2 where lu: "log_usage E identity (req_Model req) tg rr ?cost n start h1 w1 = Some (h2, w2)"
    by (cases "log_usage E identity (req_Model req) tg rr ?cost n start h1 w1") (auto simp: finish_call_def Let_def)
  from assms(1) st rr cost lu obtain h3 w3 where lb: "log_body E cx req tg rr ?cost n start h2 w2 = Some (h3, w3)"
    by (cases "log_body E cx req tg rr ?cost n start h2 w2") (auto simp: finish_call_def Let_def)
  define res where "res = \<lparr>gd_Response = resp, gd_Target = tg, gd_Attempts = n, gd_CacheHit = False,
    gd_DurationMS = elapsed_ms start (fst (ev_now E w3)), gd_CostUSD = ?cost, gd_Headers = result_headers identity tg ?cost hs\<rparr>"
  from assms(1) st rr cost lu lb have "h' = h3" and "r = Inr res"
    by (simp_all add: finish_call_def res_def Let_def split_beta)
  with log_body_frame [OF lb] show thesis by (intro that [OF rr st lu _ \<open>r = Inr res\<close>]) (auto simp: res_def)
qed

lemma finish_call_result:
  assumes "finish_call E cx req identity hs start key resp tg n h w = Some (r, h', w')" and "h_usageW h = Some uw"
  shows "\<exists>rr res. resp = Some rr \<and> r = Inr res \<and> gd_Response res = resp \<and> gd_Target res = tg \<and> gd_Attempts res = n
    \<and> \<not> gd_CacheHit res \<and> gd_CostUSD res = calculateCost h tg (resp_Usage rr)
    \<and> (case identity of
         None \<Rightarrow> h_usageW h' = Some uw
       | Some i \<Rightarrow> if gi_SkipUsageLog i then h_usageW h' = Some uw
                   else \<exists>ms. h_usageW h' = Writer_Record (usage_entry i (req_Model req) tg rr (gd_CostUSD res) n ms) uw)"
  using assms(1)
proof (cases rule: finish_call_cases)
  case (1 rr h1 w1 h2 w2 res)
  have u1: "h_usageW h1 = Some uw" using cache_store_frame [OF 1(2)] assms(2) by auto
  have "h_usageW h' = h_usageW h2" using 1(4) by auto
  with log_usage_result [OF 1(3) u1] 1 u1 show ?thesis by (auto split: option.splits if_splits) metis
qed

lemma provider_step_cases:
  assumes "provider_step E cx req identity hs start key targets h w = Some (r, h', w')" and "breakers_ok h"
  obtains (failed) err h1 w1 n where "executePlan E req targets h w = Some ((Inl err, zero_Target, n), h1, w1)"
      "plan_frame h h1" "breakers_ok h1" "r = Inl (provider_failure err zero_Target)"
      "record_health E False zero_Target h1 w1 = (h', w')"
  | (answered) resp tg n h1 w1 h2 w2 q h3 w3 where "executePlan E req targets h w = Some ((Inr resp, tg, n), h1, w1)"
      "plan_frame h h1" "breakers_ok h1" "tg \<in> set targets" "n \<le> int (length targets * attemptsPerTarget h)"
      "record_health E True tg h1 w1 = (h2, w2)" "check_output E (req_Model req) resp h2 w2 = Some (q, h3, w3)"
      "case q of Inl e \<Rightarrow> r = Inl e \<and> h' = h3 \<and> w' = w3
       | Inr resp' \<Rightarrow> finish_call E cx req identity hs start key resp' tg n h3 w3 = Some (r, h', w')"
proof -
  from executePlan_returns [OF assms(2), of E req targets w] obtain res tg n h1 w1
    where ex: "executePlan E req targets h w = Some ((res, tg, n), h1, w1)" "breakers_ok h1" "plan_frame h h1"
      "n \<le> int (length targets * attemptsPerTarget h)"
      "case res of Inl e \<Rightarrow> tg = zero_Target | Inr resp \<Rightarrow> tg \<in> set targets \<and> ev_adapter E (tg_Provider tg) \<noteq> None"
    by auto
  show thesis
  proof (cases res)
    case (Inl e)
    with ex(5) have [simp]: "tg = zero_Target" by simp
    from assms(1) ex(1) Inl show thesis
      by (intro failed [OF ex(1) [unfolded Inl, simplified] ex(3,2)]) (auto simp: provider_step_def split_beta)
  next
    case (Inr resp)
    obtain h2 w2 where rh: "record_health E True tg h1 w1 = (h2, w2)" by force
    from assms(1) ex(1) rh Inr obtain q h3 w3 where co: "check_output E (req_Model req) resp h2 w2 = Some (q, h3, w3)"
      by (cases "check_output E (req_Model req) resp h2 w2") (auto simp: provider_step_def)
    from assms(1) ex(1,5) rh Inr co show thesis
      by (intro answered [OF ex(1) [unfolded Inr] ex(3,2) _ ex(4) rh co]) (auto simp: provider_step_def split: sum.splits)
  qed
qed

lemma provider_step_result:
  assumes "provider_step E cx req identity hs start key targets h w = Some (r, h', w')"
    and "breakers_ok h" and "h_usageW h = Some uw"
  shows "case r of
      Inl e \<Rightarrow> h_usageW h' = Some uw
    | Inr res \<Rightarrow> \<exists>rr. gd_Response res = Some rr \<and> gd_Target res \<in> set targets \<and> \<not> gd_CacheHit res
        \<and> gd_Attempts res \<le> int (length targets * attemptsPerTarget h) \<and> gd_CostUSD res = calculateCost h (gd_Target res) (resp_Usage rr)
        \<and> (case identity of
             None \<Rightarrow> h_usageW h' = Some uw
           | Some i \<Rightarrow> if gi_SkipUsageLog i then h_usageW h' = Some uw
               else \<exists>ms. h_usageW h' = Writer_Record
                      (usage_entry i (req_Model req) (gd_Target res) rr (gd_CostUSD res) (gd_Attempts res) ms) uw)"
  using assms(1,2)
proof (cases rule: provider_step_cases)
  case (failed err h1 w1 n)
  with record_health_frame [OF failed(5)] plan_frame_fields [OF failed(2)] assms(3) show ?thesis by auto
next
  case (answered resp tg n h1 w1 h2 w2 q h3 w3)
  have "h_usageW h2 = Some uw \<and> h_prices h2 = h_prices h"
    using record_health_frame [OF answered(6)] plan_frame_fields [OF answered(2)] assms(3) by auto
  then have f3: "h_usageW h3 = Some uw" "h_prices h3 = h_prices h"
    using check_output_frame [OF answered(7)] check_frame_fields [of h2 h3] by simp_all
  show ?thesis
  proof (cases q)
    case (Inl e)
    with answered(8) f3 show ?thesis by simp
  next
    case (Inr resp')
    with answered(8) have fc: "finish_call E cx req identity hs start key resp' tg n h3 w3 = Some (r, h', w')" by simp
    have "calculateCost h3 tg u = calculateCost h tg u" for u using f3 by (simp add: calculateCost_def split: option.split)
    with finish_call_result [OF fc f3(1)] answered(4,5) show ?thesis by fastforce
  qed
qed

lemma governed_billing:
  assumes "ExecuteGoverned E cx req (Some i) h w = Some (r, h', w')" and "breakers_ok h" and "h_usageW h = Some uw"
    and "\<not> gi_SkipUsageLog i"
  shows "case r of
      Inl e \<Rightarrow> h_usageW h' = Some uw
    | Inr res \<Rightarrow>
        if gd_CacheHit res then h_usageW h' = Some uw
        else \<exists>rr ms. gd_Response res = Some rr \<and> gd_CostUSD res = calculateCost h (gd_Target res) (resp_Usage rr)
               \<and> h_usageW h' = Writer_Record
                   (usage_entry i (req_Model req) (gd_Target res) rr (gd_CostUSD res) (gd_Attempts res) ms) uw"
  using assms(1)
proof (cases rule: governed_cases)
  case (rejected e)
  then show ?thesis using preStream_frame [OF rejected(1)] check_frame_fields assms(3) by fastforce
next
  case (hit hs req' h1 w1 cached key w2 ms)
  have "h_usageW h1 = Some uw" using preStream_frame [OF hit(1)] check_frame_fields assms(3) by fastforce
  then have "h_usageW h' = Some uw" using cache_lookup_frame [OF hit(2)] by auto
  with hit(3) show ?thesis by (simp add: cache_hit_def)
next
  case (unrouted hs req' h1 w1 key h2 w2 e)
  have "h_usageW h1 = Some uw" using preStream_frame [OF unrouted(1)] check_frame_fields assms(3) by fastforce
  then have "h_usageW h2 = Some uw" using cache_lookup_frame [OF unrouted(2)] by auto
  then have "h_usageW h' = Some uw" using plan_for_frame [OF unrouted(3)] by auto
  with unrouted(4) show ?thesis by simp
next
  case (called hs req' h1 w1 key h2 w2 targets h3 w3)
  note f1 = check_frame_fields [OF preStream_frame [OF called(1)]]
  have f3: "h_usageW h3 = Some uw" "h_breakers h3 = h_breakers h" "h_prices h3 = h_prices h"
    using f1 cache_lookup_frame [OF called(2)] plan_for_frame [OF called(3)] assms(3) by auto
  have "breakers_ok h3" using assms(2) by (simp add: breakers_ok_def f3)
  moreover have "calculateCost h3 tg u = calculateCost h tg u" for tg u by (simp add: calculateCost_def f3 split: option.split)
  ultimately show ?thesis
    using provider_step_result [OF called(4) _ f3(1)] preStream_model [OF called(1)] assms(4)
    by (cases r) (auto split: if_splits)
qed

text \<open>C6. Every answer of a provider is billed once, and nothing else is: an error or an answer from the cache leaves the usage log
  as it is; an answer of a provider adds one entry (or is counted as dropped when the buffer is full), with the
  identity's key, the target that answered, the tokens of the response, the cost of that target's price and the number of attempts.\<close>

theorem governed_bills_once:
  assumes "ExecuteGoverned E cx req (Some i) h w = Some (r, h', w')" and "breakers_ok h" and "h_usageW h = Some uw"
    and "\<not> gi_SkipUsageLog i"
  shows "case r of
      Inl e \<Rightarrow> h_usageW h' = Some uw
    | Inr res \<Rightarrow>
        if gd_CacheHit res then h_usageW h' = Some uw
        else \<exists>rr ms. gd_Response res = Some rr \<and> gd_CostUSD res = calculateCost h (gd_Target res) (resp_Usage rr)
               \<and> h_usageW h' = Writer_Record
                   (usage_entry i (req_Model req) (gd_Target res) rr (gd_CostUSD res) (gd_Attempts res) ms) uw"
  by (rule governed_billing [OF assms])

section \<open>Repeated requests\<close>

lemma finish_call_cache:
  assumes "finish_call E cx req identity hs start key resp tg n h w = Some (Inr res, h', w')"
    and "h_cache h = Some c" and "key \<noteq> ''''" and "xc_Enabled (cc_Exact (cfg_Cache (h_cfg h)))"
  shows "\<exists>t. h_cache h' = Some (ev_cacheSet E (fst (ev_now E t)) key
    (gd_Response res, wrap64 (xc_TTLSeconds (cc_Exact (cfg_Cache (h_cfg h))) * time_Second)) c) \<and> h_cfg h' = h_cfg h
    \<and> h_guardrails h' = h_guardrails h"
  using assms(1)
proof (cases rule: finish_call_cases)
  case (1 rr h1 w1 h2 w2 res')
  have c1: "h_cache h1 = Some (ev_cacheSet E (fst (ev_now E w)) key
      (resp, wrap64 (xc_TTLSeconds (cc_Exact (cfg_Cache (h_cfg h))) * time_Second)) c)" and g1: "h_cfg h1 = h_cfg h" "h_guardrails h1 = h_guardrails h"
    using 1(2) assms(2-4) by (auto simp: cache_store_def split_beta)
  have "h_cache h2 = h_cache h1" and "h_cfg h2 = h_cfg h1" and "h_guardrails h2 = h_guardrails h1" using 1(3)
    by (auto simp: log_usage_def split_beta split: option.splits if_splits)
  moreover have "h_cache h' = h_cache h2" and "h_cfg h' = h_cfg h2" and "h_guardrails h' = h_guardrails h2" using 1(4) by auto
  ultimately show ?thesis using c1 g1 1(5,6) by auto
qed

lemma shouldRunInput_cong:
  "h_cfg h' = h_cfg h \<Longrightarrow> h_guardrails h' = h_guardrails h \<Longrightarrow> shouldRunInputGuardrails h' m = shouldRunInputGuardrails h m"
  by (simp only: shouldRunInputGuardrails_def)

lemma no_guardrails_same_request:
  assumes "preStreamGovernance E req identity h w = Some (Inr (hs, req'), h', w')"
    and "\<not> shouldRunInputGuardrails h (req_Model req)"
  shows "req' = req"
proof -
  obtain rl h1 w1 where rl: "checkRateLimit E identity h w = (rl, h1, w1)" by (metis prod_cases3)
  have "\<not> shouldRunInputGuardrails h1 (req_Model req)"
    using assms(2) checkRateLimit_frame [OF rl] check_frame_fields [of h h1] shouldRunInput_cong [of h1 h] by simp
  with assms(1) rl show ?thesis
    by (auto simp: preStreamGovernance_def checkInputGuardrails_def split: if_splits sum.splits option.splits prod.splits)
qed

lemma called_cache:
  assumes "provider_step E cx req identity hs start key targets h w = Some (Inr res, h', w')" and "breakers_ok h"
    and "h_cache h = Some c" and "key \<noteq> ''''" and "xc_Enabled (cc_Exact (cfg_Cache (h_cfg h)))"
  shows "\<exists>t. h_cache h' = Some (ev_cacheSet E (fst (ev_now E t)) key
    (gd_Response res, wrap64 (xc_TTLSeconds (cc_Exact (cfg_Cache (h_cfg h))) * time_Second)) c) \<and> h_cfg h' = h_cfg h
    \<and> h_guardrails h' = h_guardrails h"
  using assms(1,2)
proof (cases rule: provider_step_cases)
  case (answered resp tg n h1 w1 h2 w2 q h3 w3)
  have "h_cache h2 = Some c \<and> h_cfg h2 = h_cfg h \<and> h_guardrails h2 = h_guardrails h"
    using record_health_frame [OF answered(6)] plan_frame_fields [OF answered(2)] assms(3) by auto
  then have f3: "h_cache h3 = Some c" "h_cfg h3 = h_cfg h" "h_guardrails h3 = h_guardrails h"
    using check_output_frame [OF answered(7)] check_frame_fields [of h2 h3] by simp_all
  from answered(8) obtain resp' where
    fc: "finish_call E cx req identity hs start key resp' tg n h3 w3 = Some (Inr res, h', w')" by (cases q) auto
  from finish_call_cache [OF fc f3(1) assms(4)] f3(2,3) assms(5) show ?thesis by simp
qed simp


section \<open>The pipeline always answers\<close>

text \<open>An adapter returns a response or an error, never a nil response without an error.\<close>

definition adapters_answer :: "('c, 'w) gov_env \<Rightarrow> bool" where
  "adapters_answer E \<longleftrightarrow> (\<forall>p call req tg key w. ev_adapter E p = Some call \<longrightarrow> fst (call req tg key w) \<noteq> Inr None)"

definition logs_open :: "'c Handler \<Rightarrow> bool" where
  "logs_open h \<longleftrightarrow> (case h_audit h of None \<Rightarrow> True | Some l \<Rightarrow> \<not> lg_closed l)
     \<and> (case h_usageW h of None \<Rightarrow> True | Some uw \<Rightarrow> \<not> uw_closed uw)"

lemma Logger_Record_open: "\<not> lg_closed l \<Longrightarrow> \<exists>l'. Logger_Record x l = Some l' \<and> \<not> lg_closed l'"
  by (cases x) (simp add: Logger_Record_def)

lemma Writer_Record_open: "\<not> uw_closed u \<Longrightarrow> \<exists>u'. Writer_Record e u = Some u' \<and> \<not> uw_closed u'"
  by (simp add: Writer_Record_def)

lemma emit_events_total: "logs_open h \<Longrightarrow> \<exists>h' w'. emit_events E es h w = Some (h', w') \<and> logs_open h'"
proof (induction es arbitrary: h w)
  case Nil
  then show ?case by simp
next
  case (Cons e es)
  show ?case
  proof (cases "h_guardAudit h \<and> h_audit h \<noteq> None")
    case False
    with Cons.prems show ?thesis by (cases "h_guardAudit h"; cases "h_audit h") simp_all
  next
    case True
    then obtain l where l: "h_guardAudit h" "h_audit h = Some l" by auto
    obtain now w1 where t: "ev_now E w = (now, w1)" by force
    from l Cons.prems have "\<not> lg_closed l" by (simp add: logs_open_def)
    from Logger_Record_open [OF this, of "(now, e)"] obtain l' where r: "Logger_Record (now, e) l = Some l'" "\<not> lg_closed l'" by blast
    have "logs_open (h\<lparr>h_audit := Some l'\<rparr>)" using Cons.prems r(2) by (simp add: logs_open_def)
    from Cons.IH [OF this, of w1] l t r(1) show ?thesis by simp
  qed
qed

lemma checkInput_total:
  assumes "logs_open h"
  shows "\<exists>r h' w'. checkInputGuardrails E req h w = Some (r, h', w') \<and> logs_open h'"
proof (cases "shouldRunInputGuardrails h (req_Model req)")
  case False
  with assms show ?thesis by (simp add: checkInputGuardrails_def)
next
  case True
  then obtain g where g: "h_guardrails h = Some g" by (auto simp: shouldRunInputGuardrails_def split: option.splits)
  obtain res evs w1 where c: "CheckInput (ev_guard E) g (toGuardrailMessages (ev_text E) (req_Messages req)) w = (res, evs, w1)"
    by (metis prod_cases3)
  from emit_events_total [OF assms, of E evs w1] obtain h' w' where "emit_events E evs h w1 = Some (h', w')" "logs_open h'" by blast
  with True g c show ?thesis by (simp add: checkInputGuardrails_def)
qed

lemma check_output_total:
  assumes "logs_open h"
  shows "\<exists>r h' w'. check_output E model resp h w = Some (r, h', w') \<and> logs_open h'"
proof (cases "shouldRunOutputGuardrails h model \<and> resp \<noteq> None \<and> resp_Choices (the resp) \<noteq> []")
  case False
  with assms show ?thesis by (auto simp: check_output_def split: bool.splits option.splits)
next
  case True
  then obtain g rr where g: "h_guardrails h = Some g" "resp = Some rr" "resp_Choices rr \<noteq> []"
    by (auto simp: shouldRunOutputGuardrails_def split: option.splits)
  obtain res evs w1 where c: "CheckOutput (ev_guard E) g (extractChoiceContent (ev_text E) resp) w = (res, evs, w1)"
    by (metis prod_cases3)
  from emit_events_total [OF assms, of E evs w1] obtain h' w' where "emit_events E evs h w1 = Some (h', w')" "logs_open h'" by blast
  with True g c show ?thesis by (simp add: check_output_def)
qed

lemma check_output_some:
  "check_output E model (Some rr) h w = Some (Inr resp', h', w') \<Longrightarrow> resp' \<noteq> None"
  by (auto simp: check_output_def split: bool.splits option.splits if_splits prod.splits sum.splits ResultAction.splits)

lemma preStream_total:
  assumes "logs_open h"
  shows "\<exists>r h' w'. preStreamGovernance E req identity h w = Some (r, h', w') \<and> logs_open h'"
proof -
  obtain rl h1 w1 where rl: "checkRateLimit E identity h w = (rl, h1, w1)" by (metis prod_cases3)
  obtain be w2 where be: "checkBudget E identity h1 w1 = (be, w2)" by force
  have "h_audit h1 = h_audit h" "h_usageW h1 = h_usageW h"
    using checkRateLimit_frame [OF rl] check_frame_fields [of h h1] by simp_all
  then have o1: "logs_open h1" using assms by (simp only: logs_open_def)
  from checkInput_total [OF this, of E req w2] obtain ig h2 w3 where
    "checkInputGuardrails E req h1 w2 = Some (ig, h2, w3)" "logs_open h2" by blast
  with rl be o1 assms show ?thesis
    by (cases rl; cases be; cases ig) (auto simp: preStreamGovernance_def)
qed

lemma finish_call_total:
  assumes "logs_open h" and "resp \<noteq> None"
  shows "\<exists>r h' w'. finish_call E cx req identity hs start key resp tg n h w = Some (r, h', w')"
proof -
  from assms(2) obtain rr where rr: "resp = Some rr" by auto
  obtain h1 w1 where st: "cache_store E key resp h w = (h1, w1)" by force
  have "h_audit h1 = h_audit h \<and> h_usageW h1 = h_usageW h" using cache_store_frame [OF st] by auto
  then have o1: "logs_open h1" using assms(1) by (simp only: logs_open_def)
  let ?cost = "calculateCost h1 tg (resp_Usage rr)"
  have "\<exists>h2 w2. log_usage E identity (req_Model req) tg rr ?cost n start h1 w1 = Some (h2, w2) \<and> h_audit h2 = h_audit h1"
  proof (cases "identity = None \<or> h_usageW h1 = None \<or> gi_SkipUsageLog (the identity)")
    case True
    then show ?thesis by (cases identity; cases "h_usageW h1") (auto simp: log_usage_def)
  next
    case False
    then obtain i u where iu: "identity = Some i" "h_usageW h1 = Some u" "\<not> gi_SkipUsageLog i" by auto
    with o1 have "\<not> uw_closed u" by (simp add: logs_open_def)
    from Writer_Record_open [OF this] obtain u' where
      "Writer_Record (usage_entry i (req_Model req) tg rr ?cost n (elapsed_ms start (fst (ev_now E w1)))) u = Some u'" by blast
    with iu show ?thesis by (simp add: log_usage_def split_beta)
  qed
  then obtain h2 w2 where lu: "log_usage E identity (req_Model req) tg rr ?cost n start h1 w1 = Some (h2, w2)"
    and a2: "h_audit h2 = h_audit h1" by blast
  have "\<exists>h3 w3. log_body E cx req tg rr ?cost n start h2 w2 = Some (h3, w3)"
  proof (cases "h_logBodies h2 \<and> h_auditLog h2 \<and> h_audit h2 \<noteq> None")
    case False
    then show ?thesis by (cases "h_audit h2") (auto simp: log_body_def split: bool.splits)
  next
    case True
    then obtain l where l: "h_audit h2 = Some l" by auto
    with a2 have "h_audit h1 = Some l" by simp
    with o1 have "\<not> lg_closed l" by (simp add: logs_open_def)
    let ?w = "snd (ev_now E w2)"
    from Logger_Record_open [OF \<open>\<not> lg_closed l\<close>] obtain l' where "Logger_Record (fst (ev_now E ?w),
      body_event E cx req tg rr ?cost n (elapsed_ms start (fst (ev_now E w2)))) l = Some l'" by blast
    with True l show ?thesis by (simp add: log_body_def split_beta)
  qed
  with st rr lu show ?thesis by (auto simp: finish_call_def Let_def split_beta)
qed

lemma provider_step_total:
  assumes "logs_open h" and "breakers_ok h" and "adapters_answer E"
  shows "\<exists>r h' w'. provider_step E cx req identity hs start key targets h w = Some (r, h', w')"
proof -
  from executePlan_returns [OF assms(2), of E req targets w] obtain res tg n h1 w1
    where ex: "executePlan E req targets h w = Some ((res, tg, n), h1, w1)" and fr: "plan_frame h h1" by blast
  show ?thesis
  proof (cases res)
    case (Inl e)
    with ex show ?thesis by (auto simp: provider_step_def split_beta)
  next
    case (Inr resp)
    from plan_loop_answer [OF ex [unfolded executePlan_def Inr]] obtain call k wa wb
      where "ev_adapter E (tg_Provider tg) = Some call" "call req tg k wa = (Inr resp, wb)" by blast
    then have "Inr resp \<noteq> (Inr None :: provider_error + ChatCompletionResponse option)"
      using assms(3) unfolding adapters_answer_def by (metis fst_conv)
    then obtain rr where rr: "resp = Some rr" by auto
    obtain h2 w2 where rh: "record_health E True tg h1 w1 = (h2, w2)" by force
    have "h_audit h2 = h_audit h \<and> h_usageW h2 = h_usageW h"
      using record_health_frame [OF rh] plan_frame_fields [OF fr] by auto
    then have "logs_open h2" using assms(1) by (simp only: logs_open_def)
    from check_output_total [OF this, of E "req_Model req" resp w2] obtain q h3 w3
      where co: "check_output E (req_Model req) resp h2 w2 = Some (q, h3, w3)" and o3: "logs_open h3" by blast
    show ?thesis
    proof (cases q)
      case (Inl e)
      with ex Inr rh co show ?thesis by (simp add: provider_step_def)
    next
      case (Inr resp')
      with co rr have "resp' \<noteq> None" by (simp add: check_output_some)
      from finish_call_total [OF o3 this] ex \<open>res = Inr resp\<close> rh co Inr show ?thesis by (simp add: provider_step_def)
    qed
  qed
qed

lemma governed_returns:
  assumes "logs_open h" and "breakers_ok h" and "cx_plan cx \<noteq> None" and "adapters_answer E"
  shows "\<exists>r h' w'. ExecuteGoverned E cx req identity h w = Some (r, h', w')"
proof -
  let ?w0 = "snd (ev_now E w)"
  from preStream_total [OF assms(1), of E req identity ?w0] obtain p h1 w1 where
    pre: "preStreamGovernance E req identity h ?w0 = Some (p, h1, w1)" and o1: "logs_open h1" by blast
  show ?thesis
  proof (cases p)
    case (Inl e)
    with pre show ?thesis by (simp add: ExecuteGoverned_def split_beta)
  next
    case (Inr x)
    obtain hs req' where x: "x = (hs, req')" by force
    obtain c key h2 w2 where look: "cache_lookup E req' h1 w1 = (c, key, h2, w2)" by (metis prod_cases4)
    obtain targets where plan: "plan_for E cx (req_Model req') h2 w2 = Some (Inr targets, h2, w2)"
      using assms(3) by (auto simp: plan_for_def)
    have "h_breakers h1 = h_breakers h" using check_frame_fields [OF preStream_frame [OF pre]] by simp
    then have "logs_open h2" and "breakers_ok h2"
      using cache_lookup_frame [OF look] o1 assms(2) by (auto simp: logs_open_def breakers_ok_def)
    then have "\<exists>r h' w'. provider_step E cx req' identity hs (fst (ev_now E w)) key targets h2 w2 = Some (r, h', w')"
      using assms(4) by (rule provider_step_total)
    then show ?thesis using pre Inr x look plan by (cases c) (auto simp: ExecuteGoverned_def split_beta)
  qed
qed

text \<open>With open logs and adapters that return a response or an error, the pipeline answers every request whose plan is known: no
  step panics and no loop runs on, whatever the providers, guardrails and databases reply.\<close>

theorem governed_total:
  assumes "logs_open h" and "breakers_ok h" and "cx_plan cx \<noteq> None" and "adapters_answer E"
  shows "\<exists>r h' w'. ExecuteGoverned E cx req identity h w = Some (r, h', w')"
  using assms by (rule governed_returns)

section \<open>Failures and the health tracker\<close>

lemma checkInput_status: "checkInputGuardrails E req h w = Some (Inl e, h', w') \<Longrightarrow> gv_StatusCode e \<in> {400, 500}"
  by (auto simp: checkInputGuardrails_def governance_error_def
      split: bool.splits option.splits prod.splits sum.splits ResultAction.splits)

lemma checkBudget_status: "checkBudget E identity h w = (Some e, w') \<Longrightarrow> gv_StatusCode e \<in> {403, 503}"
  by (auto simp: checkBudget_def governance_error_def Let_def split: option.splits prod.splits sum.splits if_splits)

lemma preStream_status:
  assumes "preStreamGovernance E req identity h w = Some (Inl e, h', w')"
  shows "gv_StatusCode e \<in> {400, 403, 429, 500, 503}"
proof (cases "case identity of None \<Rightarrow> False | Some i \<Rightarrow> \<not> modelAllowed (req_Model req) (gi_AllowedModels i)")
  case True
  with assms show ?thesis by (auto simp: preStreamGovernance_def buildModelNotAllowedError_def governance_error_def)
next
  case False
  with assms consider h1 w1 where "checkRateLimit E identity h w = (Inl e, h1, w1)"
    | h1 w1 w2 where "checkBudget E identity h1 w1 = (Some e, w2)"
    | h1 w1 h2 w2 where "checkInputGuardrails E req h1 w1 = Some (Inl e, h2, w2)"
    by (auto simp: preStreamGovernance_def split: if_splits sum.splits option.splits prod.splits)
  then show ?thesis using rate_limit_status checkBudget_status checkInput_status by cases fastforce+
qed

lemma check_output_status: "check_output E model resp h w = Some (Inl e, h', w') \<Longrightarrow> gv_StatusCode e \<in> {400, 500}"
  by (auto simp: check_output_def governance_error_def
      split: bool.splits option.splits prod.splits sum.splits if_splits ResultAction.splits)

lemma plan_for_status: "plan_for E cx model h w = Some (Inl e, h', w') \<Longrightarrow> gv_StatusCode e = 400"
  by (auto simp: plan_for_def governance_error_def split: option.splits prod.splits sum.splits)

lemma zero_target_health:
  assumes "record_health E False zero_Target h w = (h', w')" and "h_healthTracker h = Some t" and "p \<noteq> ''''"
  shows "\<exists>t'. h_healthTracker h' = Some t' \<and> IsHealthy p m region now t' = IsHealthy p m region now t"
proof -
  let ?t = "Tracker_RecordFailure '''' '''' '''' (fst (ev_now E w)) t"
  have "healthKey p m region \<noteq> healthKey '''' '''' ''''" using assms(3) by (cases p) (auto simp: healthKey_def)
  then have "gm_get (tk_models ?t) (healthKey p m region) = gm_get (tk_models t) (healthKey p m region)" and "tk_window ?t = tk_window t"
    by (simp_all add: Tracker_RecordFailure_def gm_get_set Let_def)
  then have "IsHealthy p m region now ?t = IsHealthy p m region now t" by (simp only: IsHealthy_def)
  moreover have "h_healthTracker h' = Some ?t" using assms(1,2) by (auto simp: record_health_def zero_Target_def split_beta)
  ultimately show ?thesis by blast
qed

text \<open>A plan that fails returns the zero target, so the failure is recorded for a model that does not exist: when all providers of a
  request have failed (status 502), every model of a named provider is as healthy as before, and no plan will avoid it.\<close>

theorem failure_blames_no_target:
  assumes "ExecuteGoverned E cx req identity h w = Some (Inl e, h', w')" and "gv_StatusCode e = 502"
    and "breakers_ok h" and "h_healthTracker h = Some t" and "p \<noteq> ''''"
  shows "\<exists>t'. h_healthTracker h' = Some t' \<and> IsHealthy p m region now t' = IsHealthy p m region now t"
  using assms(1)
proof (cases rule: governed_cases)
  case (rejected e')
  with preStream_status [OF rejected(1)] assms(2) show ?thesis by simp
next
  case (unrouted hs req' h1 w1 key h2 w2 e')
  with plan_for_status [OF unrouted(3)] assms(2) show ?thesis by simp
next
  case (called hs req' h1 w1 key h2 w2 targets h3 w3)
  have "h_breakers h1 = h_breakers h \<and> h_healthTracker h1 = Some t"
    using check_frame_fields [OF preStream_frame [OF called(1)]] assms(4) by simp
  then have f3: "h_healthTracker h3 = Some t" "h_breakers h3 = h_breakers h"
    using cache_lookup_frame [OF called(2)] plan_for_frame [OF called(3)] by auto
  then have ok3: "breakers_ok h3" using assms(3) by (simp add: breakers_ok_def)
  from called(4) ok3 show ?thesis
  proof (cases rule: provider_step_cases)
    case (failed err ha wa n)
    with plan_frame_fields [OF failed(2)] f3(1) have "h_healthTracker ha = Some t" by simp
    from zero_target_health [OF failed(5) this assms(5)] show ?thesis .
  next
    case (answered resp tg n ha wa hb wb q hc wc)
    then show ?thesis
    proof (cases q)
      case (Inl e')
      with answered(7,8) check_output_status assms(2) show ?thesis by fastforce
    next
      case (Inr resp')
      with answered(8) have "finish_call E cx req' identity hs (fst (ev_now E w)) key resp' tg n hc wc = Some (Inl e, h', w')" by simp
      then show ?thesis by (cases rule: finish_call_cases) simp
    qed
  qed
qed simp

section \<open>An example\<close>

text \<open>A gateway with one provider that always answers and one key; the clock stands still.\<close>

definition example_answer :: ChatCompletionResponse where
  "example_answer = zero_Response\<lparr>resp_Choices := [\<lparr>ch_Index = 0, ch_Message = \<lparr>msg_Role = ''assistant'', msg_Content = Some (JStr ''hi''),
     msg_Name = '''', msg_ToolCalls = None, msg_ToolCallID = ''''\<rparr>, ch_FinishReason = ''stop''\<rparr>],
     resp_Usage := Some \<lparr>us_PromptTokens = 3, us_CompletionTokens = 1, us_TotalTokens = 4\<rparr>\<rparr>"

definition example_target :: Target where
  "example_target = zero_Target\<lparr>tg_Provider := ''a'', tg_Model := ''m''\<rparr>"

definition example_gov :: "(ExactLRU, unit) gov_env" where
  "example_gov =
     \<lparr>ev_now = (\<lambda>w. (5000 * time_Second, w)),
      ev_adapter = (\<lambda>p. if p = ''a'' then Some (\<lambda>req tg key w. (Inr (Some example_answer), w)) else None),
      ev_wait = (\<lambda>d w. (None, w)), ev_guard = example_env, ev_sha = (\<lambda>j. ''sha''), ev_cacheGet = ExactLRU_Get, ev_cacheSet = ExactLRU_Set,
      ev_text = (\<lambda>r. ''''), ev_trunc = (\<lambda>u t. 0), ev_db_fails = (\<lambda>w. False), ev_reader = (\<lambda>p m r. None),
      ev_draw = (\<lambda>w. ((\<lambda>n. 0, \<lambda>n. 0), w))\<rparr>"

definition example_handler :: "Writer \<Rightarrow> ExactLRU Handler" where
  "example_handler uw =
     (NewHandler (Default\<lparr>cfg_Providers := [(''a'', example_provider ''ollama'' [])]\<rparr>) (New [] [] (cfg_Routing Default) False)
       (Some (NewExactLRU 5)) [] None (Some uw) None)"

definition example_identity :: GovernanceIdentity where
  "example_identity =
     \<lparr>gi_ProjectID = ''p'', gi_VirtualKeyID = ''vk'', gi_KeyPrefix = '''', gi_Name = '''', gi_AllowedModels = [], gi_AllowedProviders = [],
      gi_RPMLimit = 0, gi_TPMLimit = 0, gi_BudgetLimitUSD = 1, gi_BudgetPeriod = ''daily'', gi_Source = ''virtual_key'',
      gi_SkipRateLimit = False, gi_SkipBudget = False, gi_SkipUsageLog = False\<rparr>"

definition example_ctx :: request_ctx where
  "example_ctx = \<lparr>cx_auth = None, cx_plan = Some [example_target], cx_requestID = ''''\<rparr>"

definition example_request :: ChatCompletionRequest where
  "example_request =
     \<lparr>req_Model = ''fast'', req_Messages = [\<lparr>msg_Role = ''user'', msg_Content = Some (JStr ''hello''), msg_Name = '''', msg_ToolCalls = None,
        msg_ToolCallID = ''''\<rparr>], req_Temperature = None, req_TopP = None, req_N = None, req_Stream = False, req_Stop = None,
      req_MaxTokens = None, req_MaxCompletionTokens = None, req_PresencePenalty = None, req_FrequencyPenalty = None, req_User = '''',
      req_Tools = None, req_ToolChoice = None, req_ResponseFormat = None\<rparr>"

lemma example_run:
  "map_option (\<lambda>(r, h, w). r) (ExecuteGoverned example_gov example_ctx example_request (Some example_identity)
     (example_handler (NewWriter (Some []) 5)) ()) =
   Some (Inr \<lparr>gd_Response = Some example_answer, gd_Target = example_target, gd_Attempts = 1, gd_CacheHit = False, gd_DurationMS = 0,
      gd_CostUSD = 0, gd_Headers = [(''X-Provider'', ''a''), (''X-Cache'', ''MISS''), (''X-Cost-USD'', ''0.000000'')]\<rparr>)"
  by code_simp

lemma example_handler_fields:
  "h_usageW (example_handler uw) = Some uw" "h_cache (example_handler uw) = Some (NewExactLRU 5)" "h_healthTracker (example_handler uw) = None"
  "h_guardrails (example_handler uw) = None" "h_audit (example_handler uw) = None" "h_breakers (example_handler uw) = []"
  "h_cfg (example_handler uw) = Default\<lparr>cfg_Providers := [(''a'', example_provider ''ollama'' [])]\<rparr>"
  by (simp_all add: example_handler_def NewHandler_def)

lemma example_ready:
  "breakers_ok (example_handler uw)" "adapters_answer example_gov" "logs_open (example_handler (NewWriter db n))"
  "\<not> shouldRunInputGuardrails (example_handler uw) m"
  by (auto simp: breakers_ok_def example_handler_fields maxBreakers_def adapters_answer_def example_gov_def logs_open_def NewWriter_def
      shouldRunInputGuardrails_def split: if_splits)

theorem executePlan_total_witness:
  "\<exists>res tg n h' w'. executePlan example_gov example_request [example_target, example_target] (example_handler (NewWriter None 5)) () = Some ((res, tg, n), h', w')
     \<and> breakers_ok h' \<and> plan_frame (example_handler (NewWriter None 5)) h' \<and> 0 \<le> n \<and> n \<le> int (length [example_target, example_target] * attemptsPerTarget (example_handler (NewWriter None 5)))
     \<and> (case res of Inl e \<Rightarrow> tg = zero_Target
        | Inr resp \<Rightarrow> tg \<in> set [example_target, example_target] \<and> ev_adapter example_gov (tg_Provider tg) \<noteq> None)"
  by (rule executePlan_total [OF example_ready(1)])

theorem governed_total_witness:
  "\<exists>r h' w'. ExecuteGoverned example_gov example_ctx example_request None (example_handler (NewWriter None 5)) () = Some (r, h', w')"
  by (rule governed_total) (simp_all add: example_ready example_ctx_def)

theorem over_budget_rejected_witness:
  "\<exists>e h' w'. ExecuteGoverned example_gov example_ctx example_request (Some (example_identity\<lparr>gi_BudgetLimitUSD := 1\<rparr>))
       (example_handler (NewWriter (Some [usage_insert (\<lambda>x. x) 7 (usage_entry example_identity ''fast'' example_target example_answer 2 1 0)]) 5)) ()
     = Some (Inl e, h', w') \<and> gv_StatusCode e \<in> {403, 429}
     \<and> check_frame (example_handler (NewWriter (Some [usage_insert (\<lambda>x. x) 7 (usage_entry example_identity ''fast'' example_target example_answer 2 1 0)]) 5)) h'"
proof (rule over_budget_rejected [OF _ _ example_handler_fields(1)])
  show "uw_db (NewWriter (Some [usage_insert (\<lambda>x. x) 7 (usage_entry example_identity ''fast'' example_target example_answer 2 1 0)]) 5)
    = Some [usage_insert (\<lambda>x. x) 7 (usage_entry example_identity ''fast'' example_target example_answer 2 1 0)]"
    by (simp add: NewWriter_def)
next
  fix w :: unit
  have "GetSpendForCurrentPeriod (\<lambda>u t. 0) (5000 * time_Second)
      [usage_insert (\<lambda>x. x) 7 (usage_entry example_identity ''fast'' example_target example_answer 2 1 0)] ''vk'' ''daily'' = 2"
    by code_simp
  then show "gi_BudgetLimitUSD (example_identity\<lparr>gi_BudgetLimitUSD := 1\<rparr>) \<le>
    GetSpendForCurrentPeriod (ev_trunc example_gov) (fst (ev_now example_gov w))
      [usage_insert (\<lambda>x. x) 7 (usage_entry example_identity ''fast'' example_target example_answer 2 1 0)]
      (gi_VirtualKeyID (example_identity\<lparr>gi_BudgetLimitUSD := 1\<rparr>)) (gi_BudgetPeriod (example_identity\<lparr>gi_BudgetLimitUSD := 1\<rparr>))"
    by (simp add: example_gov_def example_identity_def)
qed (simp_all add: example_identity_def example_gov_def)

theorem governed_bills_once_witness:
  "\<exists>r h' w'. ExecuteGoverned example_gov example_ctx example_request (Some example_identity) (example_handler (NewWriter (Some []) 5)) () = Some (r, h', w')
    \<and> (case r of
      Inl e \<Rightarrow> h_usageW h' = Some (NewWriter (Some []) 5)
    | Inr res \<Rightarrow>
        if gd_CacheHit res then h_usageW h' = Some (NewWriter (Some []) 5)
        else \<exists>rr ms. gd_Response res = Some rr \<and> gd_CostUSD res = calculateCost (example_handler (NewWriter (Some []) 5)) (gd_Target res) (resp_Usage rr)
               \<and> h_usageW h' = Writer_Record
                   (usage_entry example_identity (req_Model example_request) (gd_Target res) rr (gd_CostUSD res) (gd_Attempts res) ms) (NewWriter (Some []) 5))"
proof -
  let ?h = "example_handler (NewWriter (Some []) 5)"
  obtain r h' w' where run: "ExecuteGoverned example_gov example_ctx example_request (Some example_identity) ?h () = Some (r, h', w')"
    using governed_returns [OF example_ready(3,1) _ example_ready(2)] by (metis example_ctx_def option.distinct(1) request_ctx.select_convs(2))
  have "\<not> gi_SkipUsageLog example_identity" by (simp add: example_identity_def)
  from governed_bills_once [OF run example_ready(1) example_handler_fields(1) this] run show ?thesis by blast
qed

lemma example_repeat:
  "map_option (\<lambda>(r, h, w). map_option (\<lambda>(r, h, w). isl r) (preStreamGovernance example_gov example_request None h ()))
     (ExecuteGoverned example_gov example_ctx example_request (Some example_identity) (example_handler (NewWriter (Some []) 5)) ())
   = Some (Some False)"
  by code_simp


definition example_down :: "ExactLRU Handler" where
  "example_down = SetHealthTracker \<lparr>tk_models = [], tk_window = 30 * time_Second\<rparr> (example_handler (NewWriter None 5))"

lemma example_down_run:
  "map_option (\<lambda>(r, h, w). case r of Inl e \<Rightarrow> gv_StatusCode e | Inr x \<Rightarrow> 0)
     (ExecuteGoverned example_gov (planWithContext example_ctx [example_target\<lparr>tg_Provider := ''b''\<rparr>]) example_request None example_down ())
   = Some 502"
  by code_simp

theorem failure_blames_no_target_witness:
  "\<exists>e h' w' t'. ExecuteGoverned example_gov (planWithContext example_ctx [example_target\<lparr>tg_Provider := ''b''\<rparr>]) example_request None example_down ()
      = Some (Inl e, h', w')
    \<and> h_healthTracker h' = Some t' \<and> IsHealthy ''b'' ''m'' '''' 9 t' = IsHealthy ''b'' ''m'' '''' 9 \<lparr>tk_models = [], tk_window = 30 * time_Second\<rparr>"
proof -
  from example_down_run obtain r h' w' where
    r: "ExecuteGoverned example_gov (planWithContext example_ctx [example_target\<lparr>tg_Provider := ''b''\<rparr>]) example_request None example_down ()
      = Some (r, h', w')" "(case r of Inl e \<Rightarrow> gv_StatusCode e | Inr x \<Rightarrow> 0) = 502" by auto
  then obtain e where run: "ExecuteGoverned example_gov (planWithContext example_ctx [example_target\<lparr>tg_Provider := ''b''\<rparr>]) example_request
      None example_down () = Some (Inl e, h', w')" and "gv_StatusCode e = 502" by (cases r) auto
  moreover have "breakers_ok example_down" and "h_healthTracker example_down = Some \<lparr>tk_models = [], tk_window = 30 * time_Second\<rparr>"
    using example_ready(1) [of "NewWriter None 5"] by (simp_all add: breakers_ok_def example_down_def SetHealthTracker_def)
  ultimately show ?thesis using failure_blames_no_target [OF run, of _ "''b''" "''m''" "''''" 9] by blast
qed

definition example_tripped :: "ExactLRU Handler" where
  "example_tripped = (example_handler (NewWriter None 5))\<lparr>h_breakers := [(''a:m'', \<lparr>bk_breaker =
     (NewBreaker ''a'' ''m'' [])\<lparr>br_failures := 5, br_openedAt := 4990 * time_Second\<rparr>, bk_lastAccess = 0\<rparr>)]\<rparr>"

theorem open_breakers_shield_witness:
  "\<exists>e h' w'. executePlan example_gov example_request [example_target] example_tripped () = Some ((Inl e, zero_Target, 0), h', w')
    \<and> h_keys h' = h_keys example_tripped"
proof (rule open_breakers_shield [where T = "5000 * time_Second"])
  fix w show "fst (ev_now example_gov w) \<le> 5000 * time_Second" by (simp add: example_gov_def)
next
  have "time_Sub now (4990 * time_Second) \<le> 60 * time_Second" if "now \<le> 5000 * time_Second" for now
    using that by (simp add: time_Sub_def duration_defs min_int64_def max_int64_def)
  then show "\<forall>target \<in> set [example_target]. open_until (5000 * time_Second) (h_breakers example_tripped) target"
    by (auto simp: open_until_def example_tripped_def example_target_def zero_Target_def breaker_key_def gm_get_def NewBreaker_def not_less)
qed

end
