(* ===== verification/Mcp_Tools.thy ===== *)
theory Mcp_Tools
  imports Chat_Schema Auth
begin

text \<open>
  Tools of MCP servers: the registry (\<^verbatim>\<open>internal/mcp/registry.go\<close>), the merging of tools into a request
  (\<^verbatim>\<open>internal/mcp/merge.go\<close>) and the loop that runs the tool calls of a response and asks the model again
  (\<^verbatim>\<open>internal/mcp/executor.go\<close>).

  The state that tool calls and provider calls act on is a parameter; the order of a \<^verbatim>\<open>gomap\<close> is the order in which the code
  iterates. The goroutines of \<^verbatim>\<open>executeToolCalls\<close> write their results at their own index and are all awaited, so the
  model runs them in the order of the calls. The lemmas describe a registry after a refresh, show that no tool of a
  server hides one of the caller, and that the loop ends with a well-formed conversation.
\<close>

section \<open>The registry\<close>

record Tool =
  tl_Name :: string
  tl_Title :: string
  tl_Description :: string
  tl_InputSchema :: "(string \<times> json) list option"
  tl_OutputSchema :: "(string \<times> json) list option"
  tl_ServerName :: string
  tl_RawName :: string

type_synonym Registry = "(string, Tool) gomap"

definition NewRegistry :: Registry where
  "NewRegistry = []"

definition AllTools :: "Registry \<Rightarrow> Tool list" where
  "AllTools r = map snd r"

definition ToolsByServer :: "string \<Rightarrow> Registry \<Rightarrow> Tool list" where
  "ToolsByServer serverName r = filter (\<lambda>t. tl_ServerName t = serverName) (map snd r)"

definition ToolByName :: "string \<Rightarrow> Registry \<Rightarrow> Tool option" where
  "ToolByName name r = gm_get r name"

definition RemoveServerTools :: "string \<Rightarrow> Registry \<Rightarrow> Registry" where
  "RemoveServerTools serverName r = gm_prune (\<lambda>t. tl_ServerName t = serverName) r"

definition ReplaceServerTools :: "string \<Rightarrow> Tool list \<Rightarrow> Registry \<Rightarrow> Registry" where
  "ReplaceServerTools serverName tools r =
     fold (\<lambda>t. gm_set (tl_Name t) t) tools (gm_prune (\<lambda>t. tl_ServerName t = serverName) r)"

definition ToolCount :: "Registry \<Rightarrow> nat" where
  "ToolCount r = gm_len r"

section \<open>Merging tools into a request\<close>

record MergeConfig =
  mg_AutoInjectTools :: bool
  mg_ToolConflictStrategy :: string

record MergeResult =
  mr_Tools :: "json list option"
  mr_MCPToolNames :: Registry
  mr_Warnings :: "string list"

definition tool_choice_is :: "string \<Rightarrow> raw \<Rightarrow> bool" where
  "tool_choice_is s toolChoice \<longleftrightarrow> (case toolChoice of None \<Rightarrow> False | Some j \<Rightarrow> decode_string j '''' = Some s)"

definition isToolChoiceNone :: "raw \<Rightarrow> bool" where
  "isToolChoiceNone = tool_choice_is ''none''"

definition IsToolChoiceRequired :: "raw \<Rightarrow> bool" where
  "IsToolChoiceRequired = tool_choice_is ''required''"

text \<open>The name in a tool definition of the caller: the struct has the fields \<^verbatim>\<open>type\<close> and \<^verbatim>\<open>function.name\<close>.\<close>

definition decode_function_name :: "string decoder" where
  "decode_function_name = decode_struct [(''name'', decode_string)]"

definition decode_tool_def :: "(string \<times> string) decoder" where
  "decode_tool_def = decode_struct
     [(''type'', \<lambda>j (t, n). map_option (\<lambda>t. (t, n)) (decode_string j t)),
      (''function'', \<lambda>j (t, n). map_option (\<lambda>n. (t, n)) (decode_function_name j n))]"

definition caller_name :: "json \<Rightarrow> string option" where
  "caller_name j = (case decode_tool_def j ('''', '''') of Some (t, n) \<Rightarrow> if n = '''' then None else Some n | None \<Rightarrow> None)"

definition openai_tool :: "Tool \<Rightarrow> json" where
  "openai_tool tool = JObj
     [(''function'', JObj [(''description'', JStr (tl_Description tool)), (''name'', JStr (tl_Name tool)),
         (''parameters'', case tl_InputSchema tool of None \<Rightarrow> JNull | Some ms \<Rightarrow> JObj ms)]),
      (''type'', JStr ''function'')]"

text \<open>The loop over the tools of the servers; a collision is an error, drops the tool, or (with an unknown strategy) is ignored.\<close>

fun merge_loop :: "string \<Rightarrow> string list \<Rightarrow> Tool list \<Rightarrow> json list \<Rightarrow> Registry \<Rightarrow> string list \<Rightarrow> string + json list \<times> Registry \<times> string list" where
  "merge_loop strategy callerNames [] js names warnings = Inr (js, names, warnings)"
| "merge_loop strategy callerNames (tool # tools) js names warnings =
     (if tl_Name tool \<in> set callerNames \<and> strategy = ''error''
      then Inl (''tool name collision: '' @ go_quote (tl_Name tool) @ '' is defined by both caller and MCP server ''
             @ go_quote (tl_ServerName tool))
      else if tl_Name tool \<in> set callerNames \<and> (strategy = ''skip'' \<or> strategy = '''')
      then merge_loop strategy callerNames tools js names
             (warnings @ [''MCP tool '' @ go_quote (tl_Name tool) @ '' dropped due to name collision with caller tool (server: ''
                @ tl_ServerName tool @ '')''])
      else merge_loop strategy callerNames tools (js @ [openai_tool tool]) (gm_set (tl_Name tool) tool names) warnings)"

definition parse_caller_tools :: "raw \<Rightarrow> json list option" where
  "parse_caller_tools callerTools =
     (case callerTools of None \<Rightarrow> Some [] | Some JNull \<Rightarrow> Some [] | Some (JArr js) \<Rightarrow> Some js | Some _ \<Rightarrow> None)"

definition MergeTools :: "raw \<Rightarrow> raw \<Rightarrow> Tool list \<Rightarrow> MergeConfig \<Rightarrow> string + MergeResult" where
  "MergeTools callerTools toolChoice mcpTools cfg =
     (if isToolChoiceNone toolChoice then Inr \<lparr>mr_Tools = None, mr_MCPToolNames = [], mr_Warnings = []\<rparr>
      else case parse_caller_tools callerTools of
             None \<Rightarrow> Inl ''parse caller tools''
           | Some parsed \<Rightarrow>
               (case merge_loop (mg_ToolConflictStrategy cfg) (List.map_filter caller_name parsed) mcpTools [] [] [] of
                  Inl err \<Rightarrow> Inl err
                | Inr (js, names, warnings) \<Rightarrow>
                    if parsed = [] \<and> \<not> mg_AutoInjectTools cfg \<and> js \<noteq> []
                    then Inr \<lparr>mr_Tools = None, mr_MCPToolNames = [], mr_Warnings = warnings\<rparr>
                    else Inr \<lparr>mr_Tools = Some (parsed @ js), mr_MCPToolNames = names, mr_Warnings = warnings\<rparr>))"

section \<open>Tool calls of a response\<close>

record ToolCallInfo =
  tc_ID :: string
  tc_Name :: string
  tc_Arguments :: raw

definition zero_ToolCall :: ToolCallInfo where
  "zero_ToolCall = \<lparr>tc_ID = '''', tc_Name = '''', tc_Arguments = None\<rparr>"

definition decode_call_function :: "ToolCallInfo decoder" where
  "decode_call_function = decode_struct
     [(''name'', \<lambda>j c. map_option (\<lambda>x. c\<lparr>tc_Name := x\<rparr>) (decode_string j (tc_Name c))),
      (''arguments'', \<lambda>j c. map_option (\<lambda>x. c\<lparr>tc_Arguments := x\<rparr>) (decode_raw j (tc_Arguments c)))]"

definition decode_call :: "ToolCallInfo decoder" where
  "decode_call = decode_struct
     [(''id'', \<lambda>j c. map_option (\<lambda>x. c\<lparr>tc_ID := x\<rparr>) (decode_string j (tc_ID c))),
      (''type'', \<lambda>j c. map_option (\<lambda>x. c) (decode_string j '''')),
      (''function'', decode_call_function)]"

definition split_calls :: "Registry \<Rightarrow> raw \<Rightarrow> ToolCallInfo list \<times> ToolCallInfo list" where
  "split_calls reg toolCalls =
     (case toolCalls of
        None \<Rightarrow> ([], [])
      | Some j \<Rightarrow>
          (case decode_slice decode_call zero_ToolCall j [] of
             None \<Rightarrow> ([], [])
           | Some calls \<Rightarrow> List.partition (\<lambda>c. ToolByName (tc_Name c) reg \<noteq> None) calls))"

definition partitionToolCalls :: "Registry \<Rightarrow> ChatCompletionResponse option \<Rightarrow> ToolCallInfo list \<times> ToolCallInfo list" where
  "partitionToolCalls reg resp =
     (case resp of
        None \<Rightarrow> ([], [])
      | Some r \<Rightarrow>
          (case resp_Choices r of
             [] \<Rightarrow> ([], [])
           | c # cs \<Rightarrow> split_calls reg (msg_ToolCalls (ch_Message c))))"

definition hasToolCalls :: "ChatCompletionResponse option \<Rightarrow> bool" where
  "hasToolCalls resp =
     (case resp of
        None \<Rightarrow> False
      | Some r \<Rightarrow> (case resp_Choices r of [] \<Rightarrow> False | c # cs \<Rightarrow> msg_ToolCalls (ch_Message c) \<notin> {None, Some JNull}))"

definition buildAssistantMessage :: "ChatCompletionResponse option \<Rightarrow> ChatMessage option" where
  "buildAssistantMessage resp =
     (case resp of
        None \<Rightarrow> None
      | Some r \<Rightarrow>
          (case resp_Choices r of
             [] \<Rightarrow> None
           | c # cs \<Rightarrow> Some (zero_ChatMessage\<lparr>msg_Role := ''assistant'', msg_Content := msg_Content (ch_Message c),
                              msg_ToolCalls := msg_ToolCalls (ch_Message c)\<rparr>)))"

section \<open>Calling tools\<close>

record ToolContent =
  ct_Type :: string
  ct_Text :: string

record CallToolResult =
  cr_Content :: "ToolContent list"
  cr_IsError :: bool

record ToolLogEntry =
  te_ServerName :: string
  te_ToolName :: string
  te_Arguments :: "(string \<times> json) list option"
  te_Result :: CallToolResult
  te_IsError :: bool
  te_DurationMS :: int

text \<open>The clock, the manager's clients (no manager, no client, a call) and the log of executions, on a state of type \<open>'w\<close>.\<close>

record 'w tool_env =
  xe_now :: "'w \<Rightarrow> gotime \<times> 'w"
  xe_client :: "(string \<Rightarrow> (string \<Rightarrow> (string \<times> json) list option \<Rightarrow> 'w \<Rightarrow> (string + CallToolResult) \<times> 'w) option) option"
  xe_log :: "(ToolLogEntry \<Rightarrow> 'w \<Rightarrow> 'w) option"
  xe_marshal :: "string list \<Rightarrow> string"

definition extractTextContent :: "(string list \<Rightarrow> string) \<Rightarrow> CallToolResult \<Rightarrow> string" where
  "extractTextContent marshal result =
     (case map ct_Text (filter (\<lambda>c. ct_Type c = ''text'' \<and> ct_Text c \<noteq> '''') (cr_Content result)) of
        [] \<Rightarrow> ''{}''
      | [t] \<Rightarrow> t
      | ts \<Rightarrow> marshal ts)"

definition callToolOnServer ::
  "'w tool_env \<Rightarrow> Tool \<Rightarrow> (string \<times> json) list option \<Rightarrow> 'w \<Rightarrow> (string + CallToolResult) \<times> 'w" where
  "callToolOnServer E tool args w =
     (case xe_client E of
        None \<Rightarrow> (Inl ''MCP manager not available'', w)
      | Some clients \<Rightarrow>
          (case clients (tl_ServerName tool) of
             None \<Rightarrow> (Inl (''MCP server '' @ go_quote (tl_ServerName tool) @ '' not connected''), w)
           | Some client \<Rightarrow> client (tl_RawName tool) args w))"

text \<open>\<^verbatim>\<open>json.Unmarshal\<close> of the arguments into a map; its error is dropped, the map is then nil.\<close>

definition call_args :: "raw \<Rightarrow> (string \<times> json) list option" where
  "call_args r = (case r of Some j \<Rightarrow> decode_any_map j | None \<Rightarrow> None)"

definition run_call :: "'w tool_env \<Rightarrow> Registry \<Rightarrow> ToolCallInfo \<Rightarrow> 'w \<Rightarrow> string \<times> 'w" where
  "run_call E reg c w =
     (case ToolByName (tc_Name c) reg of
        None \<Rightarrow> (''Tool '' @ go_quote (tc_Name c) @ '' not found in MCP registry'', w)
      | Some tool \<Rightarrow>
          let args = call_args (tc_Arguments c);
              (start, w) = xe_now E w;
              (result, w) = callToolOnServer E tool args w;
              (now, w) = xe_now E w
          in (case result of
                Inl err \<Rightarrow> (''MCP tool error: '' @ err, w)
              | Inr r \<Rightarrow>
                  (extractTextContent (xe_marshal E) r,
                   case xe_log E of
                     None \<Rightarrow> w
                   | Some record \<Rightarrow> record \<lparr>te_ServerName = tl_ServerName tool, te_ToolName = tl_RawName tool, te_Arguments = args, te_Result = r,
                       te_IsError = cr_IsError r, te_DurationMS = quot_int (time_Sub now start) time_Millisecond\<rparr> w)))"

definition tool_message :: "ToolCallInfo \<Rightarrow> string \<Rightarrow> ChatMessage" where
  "tool_message c content =
     zero_ChatMessage\<lparr>msg_Role := ''tool'', msg_ToolCallID := tc_ID c, msg_Content := Some (JStr content)\<rparr>"

fun executeToolCalls :: "'w tool_env \<Rightarrow> Registry \<Rightarrow> ToolCallInfo list \<Rightarrow> 'w \<Rightarrow> ChatMessage list \<times> 'w" where
  "executeToolCalls E reg [] w = ([], w)"
| "executeToolCalls E reg (c # cs) w =
     (let (content, w) = run_call E reg c w; (ms, w) = executeToolCalls E reg cs w in (tool_message c content # ms, w))"

section \<open>The loop\<close>

datatype 'e round_error = DeadlineExceeded | RoundError 'e

record ExecuteResult =
  xr_Response :: "ChatCompletionResponse option"
  xr_RoundsUsed :: nat
  xr_MaxReached :: bool
  xr_Timeout :: bool

text \<open>A call of the provider may panic, which is \<^term>\<open>None\<close>. It gets its own copy of the request; an input guardrail that redacts in a
  later round would change the shared messages in place, which the model leaves out.\<close>

type_synonym ('e, 'w) provider_call =
  "ChatCompletionRequest \<Rightarrow> 'w \<Rightarrow> (('e round_error + ChatCompletionResponse option) \<times> 'w) option"

definition invokeWithDeadline ::
  "'w tool_env \<Rightarrow> gotime \<Rightarrow> ('e, 'w) provider_call \<Rightarrow> ChatCompletionRequest \<Rightarrow> 'w
   \<Rightarrow> (('e round_error + ChatCompletionResponse option) \<times> 'w) option" where
  "invokeWithDeadline E deadline call req w =
     (if time_IsZero deadline then call req w
      else let (now, w) = xe_now E w
           in if time_Sub deadline now \<le> 0 then Some (Inl DeadlineExceeded, w) else call req w)"

text \<open>The rounds: \<open>left\<close> remain, \<open>used\<close> are done.\<close>

fun execute_rounds ::
  "'w tool_env \<Rightarrow> Registry \<Rightarrow> gotime \<Rightarrow> ('e, 'w) provider_call \<Rightarrow> nat \<Rightarrow> nat \<Rightarrow> ChatCompletionRequest \<Rightarrow> ChatCompletionResponse option \<Rightarrow> 'w
   \<Rightarrow> (('e + ExecuteResult) \<times> ChatCompletionRequest \<times> 'w) option" where
  "execute_rounds E reg deadline call 0 used req resp w =
     Some (Inr \<lparr>xr_Response = resp, xr_RoundsUsed = used, xr_MaxReached = hasToolCalls resp, xr_Timeout = False\<rparr>, req, w)"
| "execute_rounds E reg deadline call (Suc left) used req resp w =
     (case partitionToolCalls reg resp of
        (mcpCalls, nonMCPCalls) \<Rightarrow>
          if mcpCalls = []
          then Some (Inr \<lparr>xr_Response = resp, xr_RoundsUsed = used, xr_MaxReached = False, xr_Timeout = False\<rparr>, req, w)
          else
            let (late, w) = (if time_IsZero deadline then (False, w)
                             else let (now, w) = xe_now E w in (time_After now deadline, w))
            in if late
               then Some (Inr \<lparr>xr_Response = resp, xr_RoundsUsed = used, xr_MaxReached = False, xr_Timeout = True\<rparr>, req, w)
               else
                 let (toolMessages, w) = executeToolCalls E reg mcpCalls w
                 in (case buildAssistantMessage resp of
                       None \<Rightarrow> None
                     | Some assistantMsg \<Rightarrow>
                         let req = req\<lparr>req_Messages := req_Messages req @ assistantMsg # toolMessages\<rparr>
                         in (case invokeWithDeadline E deadline call req w of
                               None \<Rightarrow> None
                             | Some (Inl DeadlineExceeded, w) \<Rightarrow>
                                 Some (Inr \<lparr>xr_Response = resp, xr_RoundsUsed = Suc used, xr_MaxReached = False, xr_Timeout = True\<rparr>, req, w)
                             | Some (Inl (RoundError e), w) \<Rightarrow> Some (Inl e, req, w)
                             | Some (Inr nextResp, w) \<Rightarrow> execute_rounds E reg deadline call left (Suc used) req nextResp w)))"

definition Executor_Execute ::
  "'w tool_env \<Rightarrow> Registry \<Rightarrow> int \<Rightarrow> duration \<Rightarrow> ('e, 'w) provider_call \<Rightarrow> ChatCompletionRequest \<Rightarrow> ChatCompletionResponse option \<Rightarrow> 'w
   \<Rightarrow> (('e + ExecuteResult) \<times> ChatCompletionRequest \<times> 'w) option" where
  "Executor_Execute E reg maxRounds maxTotal call req resp w =
     (let (deadline, w) = (if 0 < maxTotal then let (now, w) = xe_now E w in (time_Add now maxTotal, w) else (time_zero, w))
      in execute_rounds E reg deadline call (nat maxRounds) 0 req resp w)"

section \<open>A refreshed registry\<close>

lemma gm_get_fold_by_name:
  "gm_get (fold (\<lambda>x. gm_set (f x) x) xs m) k = (case find (\<lambda>x. f x = k) (rev xs) of Some x \<Rightarrow> Some x | None \<Rightarrow> gm_get m k)"
proof (induction xs arbitrary: m)
  case Nil
  then show ?case by simp
next
  case (Cons x xs)
  then show ?case by (auto simp: find_append gm_get_set split: option.split)
qed

text \<open>After a refresh of a server's tools, a name is found exactly when it is one of the new tools (the last one, should names repeat)
  or a tool of another server; the old tools of the server are gone.\<close>

theorem refresh_replaces_tools:
  assumes "gm_ok r"
  shows "ToolByName name (ReplaceServerTools server tools r) =
    (case find (\<lambda>t. tl_Name t = name) (rev tools) of
       Some t \<Rightarrow> Some t
     | None \<Rightarrow> (case ToolByName name r of
                  None \<Rightarrow> None
                | Some t \<Rightarrow> if tl_ServerName t = server then None else Some t))"
  using assms by (auto simp: ToolByName_def ReplaceServerTools_def gm_get_fold_by_name gm_get_prune split: option.split)

section \<open>Merged tools\<close>

definition fresh_tools :: "raw \<Rightarrow> Tool list \<Rightarrow> Tool list" where
  "fresh_tools callerTools mcpTools =
     (case parse_caller_tools callerTools of
        None \<Rightarrow> []
      | Some parsed \<Rightarrow> filter (\<lambda>t. tl_Name t \<notin> set (List.map_filter caller_name parsed)) mcpTools)"

lemma merge_loop_fresh:
  assumes "merge_loop strategy names tools js reg ws = Inr (js', reg', ws')" and "strategy \<in> {''skip'', '''', ''error''}"
  shows "js' = js @ map openai_tool (filter (\<lambda>t. tl_Name t \<notin> set names) tools)
    \<and> reg' = fold (\<lambda>t. gm_set (tl_Name t) t) (filter (\<lambda>t. tl_Name t \<notin> set names) tools) reg"
  using assms by (induction strategy names tools js reg ws rule: merge_loop.induct) (auto split: if_splits)

text \<open>No tool of a server hides a tool of the caller: a merged request carries the caller's tools as they were, followed by
  exactly the permitted tools whose names the caller does not use, and those are the tools recorded for interception;
  or nothing is merged and nothing is intercepted.\<close>

theorem merge_keeps_caller_tools:
  assumes "MergeTools callerTools toolChoice mcpTools cfg = Inr res" and "mg_ToolConflictStrategy cfg \<in> {''skip'', '''', ''error''}"
    and "parse_caller_tools callerTools = Some parsed"
  shows "(mr_Tools res = None \<and> mr_MCPToolNames res = [])
    \<or> (mr_Tools res = Some (parsed @ map openai_tool (fresh_tools callerTools mcpTools))
       \<and> ToolByName name (mr_MCPToolNames res) = find (\<lambda>t. tl_Name t = name) (rev (fresh_tools callerTools mcpTools)))"
proof (cases "isToolChoiceNone toolChoice")
  case True
  with assms(1) show ?thesis by (auto simp: MergeTools_def)
next
  case False
  with assms(1,3) obtain js reg ws where
    loop: "merge_loop (mg_ToolConflictStrategy cfg) (List.map_filter caller_name parsed) mcpTools [] [] [] = Inr (js, reg, ws)"
    and res: "res = (if parsed = [] \<and> \<not> mg_AutoInjectTools cfg \<and> js \<noteq> []
       then \<lparr>mr_Tools = None, mr_MCPToolNames = [], mr_Warnings = ws\<rparr>
       else \<lparr>mr_Tools = Some (parsed @ js), mr_MCPToolNames = reg, mr_Warnings = ws\<rparr>)"
    by (auto simp: MergeTools_def split: sum.splits if_splits)
  from merge_loop_fresh [OF loop assms(2)] assms(3) have "js = map openai_tool (fresh_tools callerTools mcpTools)"
    and "reg = fold (\<lambda>t. gm_set (tl_Name t) t) (fresh_tools callerTools mcpTools) []"
    by (simp_all add: fresh_tools_def)
  with res show ?thesis by (simp add: ToolByName_def gm_get_fold_by_name split: option.split)
qed

section \<open>The conversation of the loop\<close>

text \<open>\<open>n\<close> rounds of a conversation: an assistant message that calls tools of the registry, and one answer for each of these calls, in
  their order.\<close>

inductive tool_rounds :: "Registry \<Rightarrow> nat \<Rightarrow> ChatMessage list \<Rightarrow> bool" for reg where
  no_round: "tool_rounds reg 0 []"
| one_more: "tool_rounds reg n before \<Longrightarrow> msg_Role a = ''assistant'' \<Longrightarrow> fst (split_calls reg (msg_ToolCalls a)) = calls \<Longrightarrow> calls \<noteq> []
     \<Longrightarrow> map msg_ToolCallID answers = map tc_ID calls \<Longrightarrow> list_all (\<lambda>m. msg_Role m = ''tool'') answers
     \<Longrightarrow> tool_rounds reg (Suc n) (before @ a # answers)"

lemma executeToolCalls_answers:
  assumes "executeToolCalls E reg calls w = (answers, w')"
  shows "map msg_ToolCallID answers = map tc_ID calls" and "list_all (\<lambda>m. msg_Role m = ''tool'') answers"
  using assms by (induction calls arbitrary: w w' answers) (auto simp: tool_message_def split: prod.splits)

lemma partition_assistant:
  assumes "partitionToolCalls reg resp = (calls, others)" and "calls \<noteq> []"
  obtains a where "buildAssistantMessage resp = Some a" and "msg_Role a = ''assistant''"
    and "fst (split_calls reg (msg_ToolCalls a)) = calls"
  using assms by (cases resp) (auto simp: partitionToolCalls_def buildAssistantMessage_def split: list.splits)

lemma execute_rounds_conversation:
  assumes total: "\<And>q w. call q w \<noteq> None" and "tool_rounds reg used msgs"
  shows "\<exists>r n msgs' w'. execute_rounds E reg deadline call left used (req\<lparr>req_Messages := req_Messages req @ msgs\<rparr>) resp w
      = Some (r, req\<lparr>req_Messages := req_Messages req @ msgs'\<rparr>, w')
    \<and> tool_rounds reg n msgs' \<and> n \<le> used + left \<and> (case r of Inl e \<Rightarrow> True | Inr res \<Rightarrow> xr_RoundsUsed res = n)"
  using assms(2)
proof (induction left arbitrary: used msgs resp w)
  case 0
  then show ?case by auto
next
  case (Suc left)
  obtain calls others where part: "partitionToolCalls reg resp = (calls, others)" by force
  show ?case
  proof (cases "calls = []")
    case True
    with part Suc.prems show ?thesis by (auto intro!: exI [of _ used] exI [of _ msgs])
  next
    case False
    obtain late w1 where late: "(if time_IsZero deadline then (False, w)
        else let (now, w) = xe_now E w in (time_After now deadline, w)) = (late, w1)" by force
    obtain answers w2 where ans: "executeToolCalls E reg calls w1 = (answers, w2)" by force
    obtain a where a: "buildAssistantMessage resp = Some a" "msg_Role a = ''assistant''" "fst (split_calls reg (msg_ToolCalls a)) = calls"
      using partition_assistant [OF part False] by blast
    let ?msgs = "msgs @ a # answers"
    let ?req = "req\<lparr>req_Messages := req_Messages req @ ?msgs\<rparr>"
    have more: "tool_rounds reg (Suc used) ?msgs"
      using one_more [OF Suc.prems a(2,3) False executeToolCalls_answers [OF ans]] .
    have inv: "invokeWithDeadline E deadline call ?req w2 \<noteq> None"
      using total by (simp add: invokeWithDeadline_def split_beta)
    show ?thesis
    proof (cases late)
      case True
      with part False late Suc.prems show ?thesis by (auto intro!: exI [of _ used] exI [of _ msgs])
    next
      case early: False
      obtain q w3 where q: "invokeWithDeadline E deadline call ?req w2 = Some (q, w3)" using inv by force
      have step: "execute_rounds E reg deadline call (Suc left) used (req\<lparr>req_Messages := req_Messages req @ msgs\<rparr>) resp w =
        (case q of
           Inl DeadlineExceeded \<Rightarrow>
             Some (Inr \<lparr>xr_Response = resp, xr_RoundsUsed = Suc used, xr_MaxReached = False, xr_Timeout = True\<rparr>, ?req, w3)
         | Inl (RoundError e) \<Rightarrow> Some (Inl e, ?req, w3)
         | Inr nextResp \<Rightarrow> execute_rounds E reg deadline call left (Suc used) ?req nextResp w3)"
        using part False late early ans a(1) q by (simp split: sum.split round_error.split)
      show ?thesis
      proof (cases q)
        case (Inl e)
        show ?thesis
          unfolding step Inl using more by (cases e) (auto intro!: exI [of _ "Suc used"] exI [of _ ?msgs])
      next
        case (Inr nextResp)
        show ?thesis unfolding step Inr using Suc.IH [OF more, of nextResp w3] by auto
      qed
    qed
  qed
qed

text \<open>C2. The loop over tool calls ends after at most the configured number of rounds, whatever the model and the tools answer, and adds
  a well-formed conversation to the request: in each round the assistant's message and one answer for every call of a
  registered tool, with its identifier.\<close>

theorem tool_loop_conversation:
  fixes call :: "('e, 'w) provider_call"
  assumes "\<And>q w. call q w \<noteq> None"
  shows "\<exists>r n msgs w'. Executor_Execute E reg maxRounds maxTotal call req resp w
      = Some (r, req\<lparr>req_Messages := req_Messages req @ msgs\<rparr>, w')
    \<and> tool_rounds reg n msgs \<and> n \<le> nat maxRounds \<and> (case r of Inl e \<Rightarrow> True | Inr res \<Rightarrow> xr_RoundsUsed res = n)"
proof -
  obtain deadline w1 where d: "(if 0 < maxTotal then let (now, w) = xe_now E w in (time_Add now maxTotal, w) else (time_zero, w)) = (deadline, w1)"
    by force
  from execute_rounds_conversation [where E = E and deadline = deadline and left = "nat maxRounds" and req = req and resp = resp and w = w1,
      OF assms no_round]
  show ?thesis by (simp add: Executor_Execute_def d)
qed

section \<open>Arguments\<close>

text \<open>The arguments of a call in the form of the OpenAI interface, a string that holds JSON, never reach the tool: it is called as if
  there were none.\<close>

theorem string_arguments_lost:
  "run_call E reg (c\<lparr>tc_Arguments := Some (JStr s)\<rparr>) w = run_call E reg (c\<lparr>tc_Arguments := None\<rparr>) w"
  by (simp add: run_call_def call_args_def split: option.split)

section \<open>Examples\<close>

definition example_tool :: "string \<Rightarrow> string \<Rightarrow> Tool" where
  "example_tool name server = \<lparr>tl_Name = name, tl_Title = '''', tl_Description = '''', tl_InputSchema = None, tl_OutputSchema = None,
     tl_ServerName = server, tl_RawName = name\<rparr>"

theorem refresh_replaces_tools_witness:
  "ToolByName ''a'' (ReplaceServerTools ''s'' [example_tool ''b'' ''s''] [(''a'', example_tool ''a'' ''s''), (''c'', example_tool ''c'' ''t'')]) = None
   \<and> ToolByName ''c'' (ReplaceServerTools ''s'' [example_tool ''b'' ''s''] [(''a'', example_tool ''a'' ''s''), (''c'', example_tool ''c'' ''t'')])
     = Some (example_tool ''c'' ''t'')"
proof -
  let ?r = "[(''a'', example_tool ''a'' ''s''), (''c'', example_tool ''c'' ''t'')]"
  have "gm_ok ?r" by (simp add: gm_ok_def)
  from refresh_replaces_tools [OF this, of _ "''s''" "[example_tool ''b'' ''s'']"] show ?thesis
    by (simp add: ToolByName_def gm_get_def example_tool_def)
qed

definition example_caller :: raw where
  "example_caller = Some (JArr [JObj [(''function'', JObj [(''name'', JStr ''a'')])]])"

lemma example_merge:
  "MergeTools example_caller None [example_tool ''a'' ''s'', example_tool ''b'' ''s''] \<lparr>mg_AutoInjectTools = False, mg_ToolConflictStrategy = ''skip''\<rparr>
     = Inr \<lparr>mr_Tools = Some [JObj [(''function'', JObj [(''name'', JStr ''a'')])], openai_tool (example_tool ''b'' ''s'')],
         mr_MCPToolNames = [(''b'', example_tool ''b'' ''s'')],
         mr_Warnings = [''MCP tool '' @ go_quote ''a'' @ '' dropped due to name collision with caller tool (server: s)'']\<rparr>"
  by code_simp

theorem merge_keeps_caller_tools_witness:
  "find (\<lambda>t. tl_Name t = ''a'') (rev (fresh_tools example_caller [example_tool ''a'' ''s'', example_tool ''b'' ''s''])) = None"
  using merge_keeps_caller_tools [OF example_merge, of "[JObj [(''function'', JObj [(''name'', JStr ''a'')])]]" "''a''"]
  by (simp add: example_caller_def parse_caller_tools_def ToolByName_def gm_get_def)

definition example_tools :: "unit tool_env" where
  "example_tools = \<lparr>xe_now = (\<lambda>w. (7, w)), xe_client = None, xe_log = None, xe_marshal = concat\<rparr>"

definition example_calling :: ChatCompletionResponse where
  "example_calling = zero_Response\<lparr>resp_Choices := [zero_Choice\<lparr>ch_Message := zero_ChatMessage\<lparr>msg_ToolCalls := Some (JArr [JObj
     [(''id'', JStr ''1''), (''function'', JObj [(''name'', JStr ''a''), (''arguments'', JStr ''{}'')])]])\<rparr>\<rparr>]\<rparr>"

lemma example_calling_round:
  "map_option (\<lambda>(r, req, w). length (req_Messages req)) (Executor_Execute example_tools [(''a'', example_tool ''a'' ''s'')] 3 0
     (\<lambda>q w. Some (Inr (Some zero_Response), w) :: ((unit round_error + _) \<times> unit) option) zero_Request (Some example_calling) ()) = Some 2"
  by code_simp

theorem tool_loop_conversation_witness:
  "\<exists>(r :: unit + ExecuteResult) n msgs w'. Executor_Execute example_tools [(''a'', example_tool ''a'' ''s'')] 3 0 (\<lambda>q w. Some (Inr (Some zero_Response), w))
      zero_Request (Some example_calling) () = Some (r, zero_Request\<lparr>req_Messages := req_Messages zero_Request @ msgs\<rparr>, w')
    \<and> tool_rounds [(''a'', example_tool ''a'' ''s'')] n msgs \<and> n \<le> nat 3 \<and> (case r of Inl e \<Rightarrow> True | Inr res \<Rightarrow> xr_RoundsUsed res = n)"
  by (rule tool_loop_conversation) simp

end
