(* ===== verification/Chat_Api.thy ===== *)
theory Chat_Api
  imports Governed Mcp_Tools
begin

text \<open>
  The HTTP entry point for chat completions (\<^verbatim>\<open>ChatCompletions\<close> and \<^verbatim>\<open>streamChatCompletions\<close> of
  \<^verbatim>\<open>internal/api/openai/chat_completions.go\<close>) with the end of a stream (\<^verbatim>\<open>postStreamGovernance\<close> of \<^verbatim>\<open>governed.go\<close>). It puts
  routing, residency, tools, the governance pipeline and the tool loop together.

  What is written to the client is a value: a status with a body, or the frames of an event stream. The events of a stream
  come as a list in the order in which the handler's \<^verbatim>\<open>select\<close> takes them; its end is the closing of the channel of
  chunks. The shadow replay after an answer is not modelled. The lemmas show what a stream forwards and bills, that opening one
  is bounded, and where a residency constraint is lost.
\<close>

section \<open>Requests, replies and streams\<close>

datatype stream_event = Chunk ChatCompletionStreamChunk | StreamError provider_error | ErrorsClosed | ContextDone provider_error

datatype sse = SseData ChatCompletionStreamChunk | SseDone | SseError string string string

datatype reply_body = ErrorReply ErrorBody | ChatReply "ChatCompletionResponse option"

datatype reply = Reply int headers reply_body | Stream headers "sse list"

type_synonym 'w stream_adapter =
  "ChatCompletionRequest \<Rightarrow> Target \<Rightarrow> ProviderKey \<Rightarrow> 'w \<Rightarrow> (provider_error + stream_event list) \<times> 'w"

record ('c, 'w) api_env =
  ap_gov :: "('c, 'w) gov_env"
  ap_stream :: "string \<Rightarrow> 'w stream_adapter option"
  ap_flusher :: bool
  ap_registry :: "Registry option"
  ap_executor :: "(int \<times> duration) option"
  ap_tools :: "'w tool_env"
  ap_statusText :: "int \<Rightarrow> string"

record http_request =
  hr_Method :: string
  hr_Body :: "json option"
  hr_Residency :: string
  hr_ctx :: request_ctx

definition error_body :: "string \<Rightarrow> string \<Rightarrow> string \<Rightarrow> ErrorBody" where
  "error_body typ message requestID =
     \<lparr>err_Message = message, err_Type = typ, err_Code = '''', err_Details = [], err_Stage = '''', err_RequestID = requestID,
      err_AvailableModels = []\<rparr>"

definition writeError :: "request_ctx \<Rightarrow> int \<Rightarrow> string \<Rightarrow> string \<Rightarrow> reply" where
  "writeError cx status typ message = Reply status [] (ErrorReply (error_body typ message (cx_requestID cx)))"

definition writeGovernanceError :: "request_ctx \<Rightarrow> GovernanceError \<Rightarrow> reply" where
  "writeGovernanceError cx ge =
     Reply (gv_StatusCode ge) (gv_Headers ge)
       (ErrorReply ((error_body (gv_Type ge) (gv_Message ge) (cx_requestID cx))\<lparr>err_AvailableModels := gv_AvailableModels ge\<rparr>))"

text \<open>The text of an error; \<open>txt\<close> is \<^verbatim>\<open>http.StatusText\<close>.\<close>

fun provider_error_text :: "(int \<Rightarrow> string) \<Rightarrow> provider_error \<Rightarrow> string" where
  "provider_error_text txt (HTTPError status body) = txt status @ '': '' @ body"
| "provider_error_text txt (RetryableError msg) = msg"
| "provider_error_text txt (OtherError msg) = msg"

section \<open>Opening a stream\<close>

fun try_stream ::
  "('c, 'w) gov_env \<Rightarrow> 'w stream_adapter \<Rightarrow> ChatCompletionRequest \<Rightarrow> Target \<Rightarrow> nat \<Rightarrow> nat \<Rightarrow> provider_error \<Rightarrow> int \<Rightarrow> 'c Handler \<Rightarrow> 'w
   \<Rightarrow> (provider_error \<times> bool + stream_event list) \<times> int \<times> 'c Handler \<times> 'w" where
  "try_stream E call req target attempt 0 lastErr tot h w = (Inl (lastErr, False), tot, h, w)"
| "try_stream E call req target attempt (Suc left) lastErr tot h w =
     (case nextProviderKey (tg_Provider target) h of
        (Inl err, h) \<Rightarrow> (Inl (err, False), tot, h, w)
      | (Inr key, h) \<Rightarrow>
          (case call req target key w of
             (Inr stream, w) \<Rightarrow> (Inr stream, tot + 1, h, w)
           | (Inl err, w) \<Rightarrow>
               if \<not> IsRetryable err \<or> left = 0 then (Inl (err, False), tot + 1, h, w)
               else (case ev_wait E (backoff attempt (rdf_Retry (rc_Defaults (cfg_Routing (h_cfg h))))) w of
                       (Some cancel, w) \<Rightarrow> (Inl (cancel, True), tot + 1, h, w)
                     | (None, w) \<Rightarrow> try_stream E call req target (Suc attempt) left err (tot + 1) h w)))"

fun stream_loop ::
  "('c, 'w) api_env \<Rightarrow> ChatCompletionRequest \<Rightarrow> Target list \<Rightarrow> provider_error option \<Rightarrow> int \<Rightarrow> 'c Handler \<Rightarrow> 'w
   \<Rightarrow> ((provider_error + stream_event list) \<times> Target \<times> int) \<times> 'c Handler \<times> 'w" where
  "stream_loop A req [] lastErr tot h w =
     ((Inl (case lastErr of None \<Rightarrow> OtherError ''no provider targets available'' | Some e \<Rightarrow> e), zero_Target, tot), h, w)"
| "stream_loop A req (target # targets) lastErr tot h w =
     (case ap_stream A (tg_Provider target) of
        None \<Rightarrow> stream_loop A req targets (Some (OtherError (''provider adapter is not configured: '' @ tg_Provider target))) tot h w
      | Some call \<Rightarrow>
          (case try_stream (ap_gov A) call req target 1 (attemptsPerTarget h) (OtherError '''') tot h w of
             (Inr stream, tot, h, w) \<Rightarrow> ((Inr stream, target, tot), h, w)
           | (Inl (err, True), tot, h, w) \<Rightarrow> ((Inl err, zero_Target, tot), h, w)
           | (Inl (err, False), tot, h, w) \<Rightarrow> stream_loop A req targets (Some err) tot h w))"

definition openStream ::
  "('c, 'w) api_env \<Rightarrow> ChatCompletionRequest \<Rightarrow> Target list \<Rightarrow> 'c Handler \<Rightarrow> 'w
   \<Rightarrow> ((provider_error + stream_event list) \<times> Target \<times> int) \<times> 'c Handler \<times> 'w" where
  "openStream A req targets h w = stream_loop A req targets None 0 h w"

section \<open>Forwarding a stream\<close>

definition chunk_content :: "ChatCompletionStreamChunk \<Rightarrow> string" where
  "chunk_content chunk = concat (map (\<lambda>c.
     case sd_Content (sc_Delta c) of None \<Rightarrow> '''' | Some j \<Rightarrow> (case decode_string j '''' of None \<Rightarrow> '''' | Some s \<Rightarrow> s)) (chunk_Choices chunk))"

record stream_state =
  ss_prompt :: int
  ss_completion :: int
  ss_content :: string
  ss_sent :: "sse list"

definition empty_stream :: stream_state where
  "empty_stream = \<lparr>ss_prompt = 0, ss_completion = 0, ss_content = '''', ss_sent = []\<rparr>"

definition take_chunk :: "ChatCompletionStreamChunk \<Rightarrow> stream_state \<Rightarrow> stream_state" where
  "take_chunk chunk s =
     (let s = (case chunk_Usage chunk of
                 None \<Rightarrow> s
               | Some u \<Rightarrow> s\<lparr>ss_prompt := us_PromptTokens u, ss_completion := us_CompletionTokens u\<rparr>)
      in s\<lparr>ss_content := ss_content s @ chunk_content chunk, ss_sent := ss_sent s @ [SseData chunk]\<rparr>)"

text \<open>The loop over the events: the error that interrupts the stream, if any, and what was gathered and sent.\<close>

fun forward_stream :: "stream_event list \<Rightarrow> stream_state \<Rightarrow> provider_error option \<times> stream_state" where
  "forward_stream [] s = (None, s)"
| "forward_stream (Chunk c # es) s = forward_stream es (take_chunk c s)"
| "forward_stream (ErrorsClosed # es) s = forward_stream es s"
| "forward_stream (StreamError e # es) s = (Some e, s)"
| "forward_stream (ContextDone e # es) s = (Some e, s)"

section \<open>After a stream\<close>

definition stream_event_log ::
  "request_ctx \<Rightarrow> string \<Rightarrow> Target \<Rightarrow> int \<Rightarrow> int \<Rightarrow> int \<Rightarrow> GovernanceIdentity option \<Rightarrow> int \<Rightarrow> Event" where
  "stream_event_log cx model target attempts promptTokens completionTokens identity ms =
     \<lparr>ae_Timestamp = time_zero, ae_EventType = ''chat.completion'',
      ae_Actor = (case cx_auth cx of None \<Rightarrow> ''anonymous'' | Some a \<Rightarrow>
        if ctx_VirtualKeyID a \<noteq> '''' then ''key:'' @ ctx_VirtualKeyID a else ''anonymous''),
      ae_Action = ''stream'', ae_Resource = ''model:'' @ model, ae_Outcome = ''success'', ae_RequestID = cx_requestID cx,
      ae_Metadata =
        [(''provider'', JStr (tg_Provider target)), (''provider_model'', JStr (tg_Model target)), (''stream'', JBool True),
         (''prompt_tokens'', JInt promptTokens), (''completion_tokens'', JInt completionTokens), (''attempts'', JInt attempts),
         (''duration_ms'', JInt ms)]
        @ (case identity of
             None \<Rightarrow> []
           | Some i \<Rightarrow> (''virtual_key_id'', JStr (gi_VirtualKeyID i))
               # (if gi_ProjectID i \<noteq> '''' then [(''project_id'', JStr (gi_ProjectID i))] else []))\<rparr>"

definition stream_entry :: "'c Handler \<Rightarrow> request_ctx \<Rightarrow> string \<Rightarrow> Target \<Rightarrow> int \<Rightarrow> int \<Rightarrow> int \<Rightarrow> int \<Rightarrow> Entry" where
  "stream_entry h cx model target attempts promptTokens completionTokens ms =
     \<lparr>ue_RequestID = '''', ue_ProjectID = (case cx_auth cx of None \<Rightarrow> '''' | Some a \<Rightarrow> ctx_ProjectID a),
      ue_VirtualKeyID = (case cx_auth cx of None \<Rightarrow> '''' | Some a \<Rightarrow> ctx_VirtualKeyID a), ue_Model = model,
      ue_Provider = tg_Provider target, ue_ProviderModel = tg_Model target, ue_PromptTokens = promptTokens,
      ue_CompletionTokens = completionTokens, ue_TotalTokens = wrap64 (promptTokens + completionTokens),
      ue_CostUSD = (if h_prices h = None then 0
                    else CalculateCost (h_prices h) (tg_Provider target) (tg_Model target) promptTokens completionTokens),
      ue_CacheHit = False, ue_Stream = True, ue_Attempts = attempts, ue_DurationMS = ms, ue_Error = ''''\<rparr>"

definition postStreamGovernance ::
  "('c, 'w) gov_env \<Rightarrow> request_ctx \<Rightarrow> string \<Rightarrow> Target \<Rightarrow> int \<Rightarrow> int \<Rightarrow> int \<Rightarrow> GovernanceIdentity option \<Rightarrow> int \<Rightarrow> 'c Handler \<Rightarrow> 'w
   \<Rightarrow> ('c Handler \<times> 'w) option" where
  "postStreamGovernance E cx model target attempts promptTokens completionTokens identity ms h w = do {
     (h, w) \<leftarrow> (case (h_auditLog h, h_audit h) of
                  (True, Some l) \<Rightarrow>
                    let (now, w) = ev_now E w
                    in map_option (\<lambda>l. (h\<lparr>h_audit := Some l\<rparr>, w))
                         (Logger_Record (now, stream_event_log cx model target attempts promptTokens completionTokens identity ms) l)
                | _ \<Rightarrow> Some (h, w));
     (case (identity, h_usageW h) of
        (Some i, Some uw) \<Rightarrow>
          if gi_SkipUsageLog i then Some (h, w)
          else map_option (\<lambda>uw. (h\<lparr>h_usageW := Some uw\<rparr>, w))
                 (Writer_Record (stream_entry h cx model target attempts promptTokens completionTokens ms) uw)
      | _ \<Rightarrow> Some (h, w))
   }"

text \<open>The end of a complete stream: the output guardrails see the whole content, which has been sent already.\<close>

definition end_stream ::
  "('c, 'w) gov_env \<Rightarrow> request_ctx \<Rightarrow> string \<Rightarrow> Target \<Rightarrow> int \<Rightarrow> GovernanceIdentity option \<Rightarrow> gotime \<Rightarrow> stream_state \<Rightarrow> 'c Handler \<Rightarrow> 'w
   \<Rightarrow> (sse list \<times> 'c Handler \<times> 'w) option" where
  "end_stream E cx model target attempts identity start s h w =
     (let finish = (\<lambda>h w.
            let (now, w) = ev_now E w
            in map_option (\<lambda>(h, w). (ss_sent s @ [SseDone], h, w))
                 (postStreamGovernance E cx model target attempts (ss_prompt s) (ss_completion s) identity (elapsed_ms start now) h w))
      in case (shouldRunOutputGuardrails h model, h_guardrails h) of
           (True, Some g) \<Rightarrow>
             (case CheckOutput (ev_guard E) g (ss_content s) w of
                (result, events, w) \<Rightarrow> do {
                  (h, w) \<leftarrow> emit_events E events h w;
                  (case result of
                     Inl err \<Rightarrow> Some (ss_sent s @ [SseError ''guardrail_error'' ''guardrail check failed'' ''output''], h, w)
                   | Inr r \<Rightarrow>
                       if rs_Action r = Block
                       then Some (ss_sent s @ [SseError ''guardrail_block'' (rs_Message r) (rs_StageName r)], h, w)
                       else finish h w)
                })
         | _ \<Rightarrow> finish h w)"

definition streamChatCompletions ::
  "('c, 'w) api_env \<Rightarrow> request_ctx \<Rightarrow> ChatCompletionRequest \<Rightarrow> Target list \<Rightarrow> GovernanceIdentity option \<Rightarrow> gotime \<Rightarrow> 'c Handler \<Rightarrow> 'w
   \<Rightarrow> (reply \<times> 'c Handler \<times> 'w) option" where
  "streamChatCompletions A cx req targets identity start h w = do {
     (p, h, w) \<leftarrow> preStreamGovernance (ap_gov A) req identity h w;
     (case p of
        Inl ge \<Rightarrow> Some (writeGovernanceError cx ge, h, w)
      | Inr (rateLimitHeaders, req) \<Rightarrow>
          (case openStream A req targets h w of
             ((Inl err, target, attempts), h, w) \<Rightarrow> Some (writeError cx 502 ''provider_error'' (provider_error_text (ap_statusText A) err), h, w)
           | ((Inr events, target, attempts), h, w) \<Rightarrow>
               if \<not> ap_flusher A
               then Some (writeError cx 500 ''streaming_unsupported'' ''response writer does not support streaming'', h, w)
               else
                 let headers = fold (\<lambda>(k, v). gm_set k v) rateLimitHeaders
                       [(''Content-Type'', ''text/event-stream''), (''Cache-Control'', ''no-cache''), (''Connection'', ''keep-alive''),
                        (''X-Accel-Buffering'', ''no''), (''X-Provider'', tg_Provider target), (''X-Model'', tg_Model target)]
                 in (case forward_stream events empty_stream of
                       (Some err, s) \<Rightarrow>
                         Some (Stream headers (ss_sent s @
                                 [SseError ''provider_error'' (EnrichProviderError (tg_Provider target) (extractHTTPStatus err) '''') '''']), h, w)
                     | (None, s) \<Rightarrow> do {
                         (frames, h, w) \<leftarrow> end_stream (ap_gov A) cx (req_Model req) target attempts identity start s h w;
                         Some (Stream headers frames, h, w)
                       })))
   }"

section \<open>The entry point\<close>

definition decode_request :: "json option \<Rightarrow> ChatCompletionRequest option" where
  "decode_request body = (case body of None \<Rightarrow> None | Some j \<Rightarrow> unmarshal_Request j zero_Request)"

text \<open>The tools of the registry that the caller may use are merged into the request.\<close>

definition permitted_tools :: "Context option \<Rightarrow> Registry \<Rightarrow> Tool list" where
  "permitted_tools auth reg = filter (\<lambda>t. case auth of None \<Rightarrow> True | Some ac \<Rightarrow> ToolAllowed ac (tl_Name t)) (AllTools reg)"

definition merge_request ::
  "Registry option \<Rightarrow> Context option \<Rightarrow> Config \<Rightarrow> ChatCompletionRequest \<Rightarrow> string + MergeResult option \<times> ChatCompletionRequest" where
  "merge_request registry auth cfg req =
     (case registry of
        None \<Rightarrow> Inr (None, req)
      | Some reg \<Rightarrow>
          if ToolCount reg = 0 \<or> permitted_tools auth reg = [] then Inr (None, req)
          else (case MergeTools (req_Tools req) (req_ToolChoice req) (permitted_tools auth reg)
                       \<lparr>mg_AutoInjectTools = mcp_AutoInjectTools (cfg_MCP cfg),
                        mg_ToolConflictStrategy = mcp_ToolConflictStrategy (cfg_MCP cfg)\<rparr> of
                  Inl err \<Rightarrow> Inl err
                | Inr res \<Rightarrow> Inr (Some res,
                    case mr_Tools res of None \<Rightarrow> req | Some ts \<Rightarrow> req\<lparr>req_Tools := Some (JArr ts)\<rparr>)))"

definition lift_tools :: "'w tool_env \<Rightarrow> ('h \<times> 'w) tool_env" where
  "lift_tools E =
     \<lparr>xe_now = (\<lambda>(h, w). case xe_now E w of (t, w) \<Rightarrow> (t, (h, w))),
      xe_client = map_option (\<lambda>clients server. map_option (\<lambda>client name args (h, w).
        case client name args w of (r, w) \<Rightarrow> (r, (h, w))) (clients server)) (xe_client E),
      xe_log = map_option (\<lambda>record e (h, w). (h, record e w)) (xe_log E),
      xe_marshal = xe_marshal E\<rparr>"

text \<open>The input guardrails redact the messages in place, so the handler's request is changed by the pipeline: these are the messages
  it holds afterwards.\<close>

definition request_after ::
  "('c, 'w) gov_env \<Rightarrow> ChatCompletionRequest \<Rightarrow> GovernanceIdentity option \<Rightarrow> 'c Handler \<Rightarrow> 'w \<Rightarrow> ChatCompletionRequest" where
  "request_after E req identity h w =
     (case preStreamGovernance E req identity h (snd (ev_now E w)) of
        Some (Inr (hs, req'), h', w') \<Rightarrow> req'
      | _ \<Rightarrow> req)"

text \<open>The closure that asks the model again: it runs the pipeline in the context of the request, which has no plan, for an
  identity that skips rate limit, budget and usage log. Without an identity it dereferences nil.\<close>

definition skip_identity :: "GovernanceIdentity \<Rightarrow> GovernanceIdentity" where
  "skip_identity i = i\<lparr>gi_SkipRateLimit := True, gi_SkipBudget := True, gi_SkipUsageLog := True\<rparr>"

definition reinvoke ::
  "('c, 'w) gov_env \<Rightarrow> request_ctx \<Rightarrow> GovernanceIdentity option \<Rightarrow> (GovernanceError, 'c Handler \<times> 'w) provider_call" where
  "reinvoke E cx identity req = (\<lambda>(h, w).
     case identity of
       None \<Rightarrow> None
     | Some i \<Rightarrow> do {
         (r, h, w) \<leftarrow> ExecuteGoverned E cx req (Some (skip_identity i)) h w;
         Some (case r of Inl e \<Rightarrow> Inl (RoundError e) | Inr res \<Rightarrow> Inr (gd_Response res), (h, w))
       })"

text \<open>The tool loop after a governed answer. The executor wraps an error of the provider, so the handler's type assertion to a
  governance error fails and the reply is an internal error.\<close>

definition run_tools ::
  "('c, 'w) api_env \<Rightarrow> request_ctx \<Rightarrow> GovernanceIdentity option \<Rightarrow> MergeResult option \<Rightarrow> ChatCompletionRequest \<Rightarrow> GovernedResult \<Rightarrow> 'c Handler \<Rightarrow> 'w
   \<Rightarrow> (reply \<times> 'c Handler \<times> 'w) option" where
  "run_tools A cx identity merged req result h w =
     (let done_ok = (\<lambda>hs resp. Reply 200 (fold (\<lambda>(k, v). gm_set k v) (gd_Headers result) hs) (ChatReply resp))
      in case (ap_executor A, ap_registry A, merged) of
           (Some (maxRounds, maxTotal), Some reg, Some m) \<Rightarrow>
             if mr_MCPToolNames m = [] then Some (done_ok [] (gd_Response result), h, w)
             else (case Executor_Execute (lift_tools (ap_tools A)) reg maxRounds maxTotal (reinvoke (ap_gov A) cx identity) req
                          (gd_Response result) (h, w) of
                     None \<Rightarrow> None
                   | Some (Inl ge, req, (h, w)) \<Rightarrow>
                       Some (writeError cx 500 ''mcp_error''
                         (''provider re-invocation failed after tool execution: '' @ GovernanceError_Error ge), h, w)
                   | Some (Inr x, req, (h, w)) \<Rightarrow>
                       Some (done_ok ((if xr_Timeout x then [(''X-MCP-Timeout'', ''true'')] else [])
                         @ (if xr_MaxReached x then [(''X-MCP-Max-Rounds-Reached'', ''true'')] else [])) (xr_Response x), h, w))
         | _ \<Rightarrow> Some (done_ok [] (gd_Response result), h, w))"

definition ChatCompletions :: "('c, 'w) api_env \<Rightarrow> http_request \<Rightarrow> 'c Handler \<Rightarrow> 'w \<Rightarrow> (reply \<times> 'c Handler \<times> 'w) option" where
  "ChatCompletions A r h w =
     (let cx = (hr_ctx r)\<lparr>cx_plan := None\<rparr>
      in if hr_Method r \<noteq> ''POST'' then Some (writeError cx 405 ''method_not_allowed'' ''method not allowed'', h, w)
         else case decode_request (hr_Body r) of
           None \<Rightarrow> Some (writeError cx 400 ''invalid_request'' ''invalid JSON request body'', h, w)
         | Some req \<Rightarrow>
             if req_Model req = '''' then Some (writeError cx 400 ''invalid_request'' ''model is required'', h, w)
             else if req_Messages req = [] then Some (writeError cx 400 ''invalid_request'' ''messages are required'', h, w)
             else
               let (start, w) = ev_now (ap_gov A) w;
                   identity = governanceIdentityFromAuth (cx_auth cx)
               in (case handler_plan (ap_gov A) (req_Model req) h w of
                     None \<Rightarrow> None
                   | Some (Inl err, h, w) \<Rightarrow>
                       Some (Reply 400 [] (ErrorReply ((error_body ''model_not_found'' (plan_error_text err) (cx_requestID cx))
                         \<lparr>err_AvailableModels := ModelNames (h_router h)\<rparr>)), h, w)
                   | Some (Inr planned, h, w) \<Rightarrow>
                       let residency = strings_TrimSpace (hr_Residency r);
                           targets = (if residency = '''' then planned else FilterByResidency planned residency)
                       in if residency \<noteq> '''' \<and> targets = []
                          then Some (writeError cx 403 ''residency_denied''
                                 (''no providers available in data residency region '' @ go_quote residency), h, w)
                          else if req_Stream req \<and> IsToolChoiceRequired (req_ToolChoice req)
                                  \<and> (case ap_registry A of None \<Rightarrow> False | Some reg \<Rightarrow> 0 < ToolCount reg)
                          then Some (writeError cx 400 ''invalid_request''
                                 ''streaming with tool_choice=required and MCP tools is not supported'', h, w)
                          else (case merge_request (ap_registry A) (cx_auth cx) (h_cfg h) req of
                                  Inl err \<Rightarrow> Some (writeError cx 400 ''tool_merge_error'' err, h, w)
                                | Inr (merged, req) \<Rightarrow>
                                    if req_Stream req then streamChatCompletions A cx req targets identity start h w
                                    else (case ExecuteGoverned (ap_gov A) (planWithContext cx targets) req identity h w of
                                            None \<Rightarrow> None
                                          | Some (Inl ge, h', w') \<Rightarrow> Some (writeGovernanceError cx ge, h', w')
                                          | Some (Inr result, h', w') \<Rightarrow>
                                              run_tools A cx identity merged (request_after (ap_gov A) req identity h w) result h' w'))))"

section \<open>What a stream forwards and bills\<close>

fun stream_chunks :: "stream_event list \<Rightarrow> ChatCompletionStreamChunk list" where
  "stream_chunks [] = []"
| "stream_chunks (Chunk c # es) = c # stream_chunks es"
| "stream_chunks (ErrorsClosed # es) = stream_chunks es"
| "stream_chunks (StreamError e # es) = []"
| "stream_chunks (ContextDone e # es) = []"

text \<open>The usage of a stream is that of the last chunk that carries one.\<close>

definition stream_usage :: "ChatCompletionStreamChunk list \<Rightarrow> int \<times> int" where
  "stream_usage cs =
     (case List.map_filter chunk_Usage cs of [] \<Rightarrow> (0, 0) | us \<Rightarrow> (us_PromptTokens (last us), us_CompletionTokens (last us)))"

lemma forward_stream_sent:
  "forward_stream es s = (e, s') \<Longrightarrow> s' = fold take_chunk (stream_chunks es) s"
  by (induction es s rule: forward_stream.induct) auto

lemma fold_take_chunk_sent: "ss_sent (fold take_chunk cs s) = ss_sent s @ map SseData cs"
  by (induction cs arbitrary: s) (auto simp: take_chunk_def Let_def split: option.split)

lemma fold_take_chunk_usage:
  "(ss_prompt (fold take_chunk cs s), ss_completion (fold take_chunk cs s)) =
     (case List.map_filter chunk_Usage cs of
        [] \<Rightarrow> (ss_prompt s, ss_completion s)
      | us \<Rightarrow> (us_PromptTokens (last us), us_CompletionTokens (last us)))"
proof (induction cs arbitrary: s)
  case Nil
  then show ?case by (simp add: map_filter_simps)
next
  case (Cons c cs)
  then show ?case by (auto simp: map_filter_simps take_chunk_def Let_def split: option.split list.split)
qed

lemma forward_stream_result:
  assumes "forward_stream es empty_stream = (e, s)"
  shows "ss_sent s = map SseData (stream_chunks es)" and "(ss_prompt s, ss_completion s) = stream_usage (stream_chunks es)"
  using forward_stream_sent [OF assms] fold_take_chunk_usage [of "stream_chunks es" empty_stream]
  by (simp_all add: fold_take_chunk_sent empty_stream_def stream_usage_def split: list.split)

lemma try_stream_spec:
  assumes "try_stream E call req target attempt n lastErr tot h w = (out, tot', h', w')"
  shows "plan_frame h h' \<and> h_breakers h' = h_breakers h \<and> tot \<le> tot' \<and> tot' \<le> tot + int n
    \<and> (case out of Inl x \<Rightarrow> True | Inr events \<Rightarrow> \<exists>key w1 w2. call req target key w1 = (Inr events, w2))"
  using assms
proof (induction n arbitrary: attempt lastErr tot h w)
  case 0
  then show ?case by auto
next
  case (Suc n)
  obtain r h1 where k: "nextProviderKey (tg_Provider target) h = (r, h1)" by force
  note f1 = nextProviderKey_frame [OF k]
  show ?case
  proof (cases r)
    case (Inl e)
    with Suc.prems k f1 show ?thesis by auto
  next
    case (Inr key)
    obtain a w1 where c: "call req target key w = (a, w1)" by force
    show ?thesis
    proof (cases a)
      case (Inr events)
      with Suc.prems k c \<open>r = Inr key\<close> f1 show ?thesis by auto blast
    next
      case (Inl e)
      obtain d w3 where d: "ev_wait E (backoff attempt (rdf_Retry (rc_Defaults (cfg_Routing (h_cfg h1))))) w1 = (d, w3)" by force
      show ?thesis
      proof (cases "\<not> IsRetryable e \<or> n = 0 \<or> d \<noteq> None")
        case True
        with Suc.prems k c Inl \<open>r = Inr key\<close> d f1 show ?thesis by (auto split: if_splits)
      next
        case False
        with Suc.prems k c Inl \<open>r = Inr key\<close> d
        have "try_stream E call req target (Suc attempt) n e (tot + 1) h1 w3 = (out, tot', h', w')" by simp
        from Suc.IH [OF this] show ?thesis using plan_frame_trans [OF f1(1)] f1(2) by auto
      qed
    qed
  qed
qed

lemma stream_loop_spec:
  assumes "stream_loop A req targets lastErr tot h w = ((res, tg, tot'), h', w')"
  shows "plan_frame h h' \<and> h_breakers h' = h_breakers h \<and> tot \<le> tot' \<and> tot' \<le> tot + int (length targets * attemptsPerTarget h)
    \<and> (case res of Inl e \<Rightarrow> True
       | Inr events \<Rightarrow> tg \<in> set targets \<and> (\<exists>call key w1 w2. ap_stream A (tg_Provider tg) = Some call \<and> call req tg key w1 = (Inr events, w2)))"
  using assms
proof (induction targets arbitrary: lastErr tot h w)
  case Nil
  then show ?case by auto
next
  case (Cons target targets)
  show ?case
  proof (cases "ap_stream A (tg_Provider target)")
    case None
    with Cons.prems obtain le where "stream_loop A req targets le tot h w = ((res, tg, tot'), h', w')" by auto
    from Cons.IH [OF this] show ?thesis by (auto simp: algebra_simps split: sum.splits)
  next
    case (Some call)
    obtain out tot1 h1 w1 where t: "try_stream (ap_gov A) call req target 1 (attemptsPerTarget h) (OtherError '''') tot h w = (out, tot1, h1, w1)"
      by (metis prod_cases4)
    note s = try_stream_spec [OF t]
    have b: "tot1 \<le> tot + int (length (target # targets) * attemptsPerTarget h)"
      by (rule order_trans [of _ "tot + int (attemptsPerTarget h)"]) (use s in simp_all)
    show ?thesis
    proof (cases out)
      case (Inr events)
      with Cons.prems Some t have "res = Inr events" "tg = target" "tot' = tot1" "h' = h1" by simp_all
      with s b Inr Some show ?thesis by simp
    next
      case (Inl x)
      obtain err c where x: "x = (err, c)" by force
      show ?thesis
      proof (cases c)
        case True
        with Cons.prems Some t Inl x have "res = Inl err" "tot' = tot1" "h' = h1" by simp_all
        with s b show ?thesis by simp
      next
        case False
        with Cons.prems Some t Inl x have "stream_loop A req targets (Some err) tot1 h1 w1 = ((res, tg, tot'), h', w')" by simp
        from Cons.IH [OF this] s show ?thesis
          using plan_frame_trans [of h h1 h'] attempts_frame [of h h1] by (auto simp: algebra_simps split: sum.splits)
      qed
    qed
  qed
qed

lemma stream_reply_cases:
  assumes "streamChatCompletions A cx req targets identity start h w = Some (Stream hs frames, h', w')"
  obtains rl req' h1 w1 events target n h2 w2 e s where
    "preStreamGovernance (ap_gov A) req identity h w = Some (Inr (rl, req'), h1, w1)"
    "openStream A req' targets h1 w1 = ((Inr events, target, n), h2, w2)" "forward_stream events empty_stream = (e, s)"
    "case e of
       Some err \<Rightarrow> h' = h2 \<and> frames = ss_sent s @ [SseError ''provider_error'' (EnrichProviderError (tg_Provider target) (extractHTTPStatus err) '''') '''']
     | None \<Rightarrow> end_stream (ap_gov A) cx (req_Model req') target n identity start s h2 w2 = Some (frames, h', w')"
proof -
  from assms obtain p h1 w1 where pre: "preStreamGovernance (ap_gov A) req identity h w = Some (p, h1, w1)"
    by (cases "preStreamGovernance (ap_gov A) req identity h w") (auto simp: streamChatCompletions_def)
  with assms obtain rl req' where p: "p = Inr (rl, req')"
    by (cases p) (auto simp: streamChatCompletions_def writeGovernanceError_def)
  obtain r target n h2 w2 where op: "openStream A req' targets h1 w1 = ((r, target, n), h2, w2)" by (metis prod_cases3 prod.collapse)
  with assms pre p obtain events where r: "r = Inr events"
    by (cases r) (auto simp: streamChatCompletions_def writeError_def)
  obtain e s where fw: "forward_stream events empty_stream = (e, s)" by force
  have "case e of
       Some err \<Rightarrow> h' = h2 \<and> frames = ss_sent s @ [SseError ''provider_error'' (EnrichProviderError (tg_Provider target) (extractHTTPStatus err) '''') '''']
     | None \<Rightarrow> end_stream (ap_gov A) cx (req_Model req') target n identity start s h2 w2 = Some (frames, h', w')"
    using assms pre p op r fw
    by (cases e) (auto simp: streamChatCompletions_def writeError_def Let_def bind_eq_Some_conv split: if_splits)
  with that [OF pre [unfolded p] op [unfolded r] fw] show thesis by blast
qed

lemma postStream_usage:
  assumes "postStreamGovernance E cx model target n p c (Some i) ms h w = Some (h', w')" and "h_usageW h = Some uw"
    and "\<not> gi_SkipUsageLog i"
  shows "h_usageW h' = Writer_Record (stream_entry h cx model target n p c ms) uw"
proof -
  define A where "A = (case (h_auditLog h, h_audit h) of
      (True, Some l) \<Rightarrow>
        let (now, w) = ev_now E w
        in map_option (\<lambda>l. (h\<lparr>h_audit := Some l\<rparr>, w))
             (Logger_Record (now, stream_event_log cx model target n p c (Some i) ms) l)
    | _ \<Rightarrow> Some (h, w))"
  from assms(1) obtain h1 w1 where a: "A = Some (h1, w1)"
    and u: "(case (Some i, h_usageW h1) of
        (Some i, Some uw) \<Rightarrow>
          if gi_SkipUsageLog i then Some (h1, w1)
          else map_option (\<lambda>uw. (h1\<lparr>h_usageW := Some uw\<rparr>, w1)) (Writer_Record (stream_entry h1 cx model target n p c ms) uw)
      | _ \<Rightarrow> Some (h1, w1)) = Some (h', w')"
    unfolding postStreamGovernance_def A_def [symmetric] by (cases A) auto
  from a have "h1 = h \<or> (\<exists>x. h1 = h\<lparr>h_audit := x\<rparr>)"
    unfolding A_def by (auto simp: split_beta split: bool.splits option.splits)
  then have h1: "h_usageW h1 = Some uw" "stream_entry h1 cx model target n p c ms = stream_entry h cx model target n p c ms"
    using assms(2) by (auto simp: stream_entry_def)
  from u obtain uw' where "Writer_Record (stream_entry h1 cx model target n p c ms) uw = Some uw'" "h1\<lparr>h_usageW := Some uw'\<rparr> = h'"
    unfolding h1(1) using assms(3) by (cases "Writer_Record (stream_entry h1 cx model target n p c ms) uw") auto
  with h1(2) show ?thesis by auto
qed

lemma end_stream_result:
  assumes "end_stream E cx model target n (Some i) start s h w = Some (frames, h', w')" and "h_usageW h = Some uw"
    and "\<not> gi_SkipUsageLog i"
  shows "\<exists>final. frames = ss_sent s @ [final]
    \<and> (if final = SseDone then \<exists>ms. h_usageW h' = Writer_Record (stream_entry h cx model target n (ss_prompt s) (ss_completion s) ms) uw
       else h_usageW h' = Some uw)"
proof -
  define post where "post = (\<lambda>h w. postStreamGovernance E cx model target n (ss_prompt s) (ss_completion s) (Some i)
    (elapsed_ms start (fst (ev_now E w))) h (snd (ev_now E w)))"
  have billed: "\<exists>final. frames = ss_sent s @ [final]
      \<and> (if final = SseDone then \<exists>ms. h_usageW h' = Writer_Record (stream_entry h cx model target n (ss_prompt s) (ss_completion s) ms) uw
         else h_usageW h' = Some uw)"
    if "map_option (\<lambda>(h, w). (ss_sent s @ [SseDone], h, w)) (post h1 w1) = Some (frames, h', w')" "check_frame h h1" for h1 w1
  proof -
    from that(1) have f: "frames = ss_sent s @ [SseDone]" and p: "post h1 w1 = Some (h', w')" by auto
    have u: "h_usageW h1 = Some uw" "h_prices h1 = h_prices h" using check_frame_fields [OF that(2)] assms(2) by simp_all
    from postStream_usage [OF p [unfolded post_def] u(1) assms(3)] f u(2) show ?thesis
      by (auto simp: stream_entry_def)
  qed
  show ?thesis
  proof (cases "shouldRunOutputGuardrails h model")
    case False
    with assms(1) have "map_option (\<lambda>(h, w). (ss_sent s @ [SseDone], h, w)) (post h w) = Some (frames, h', w')"
      by (simp add: end_stream_def post_def split_beta)
    with billed show ?thesis by blast
  next
    case True
    then obtain g where g: "h_guardrails h = Some g" by (auto simp: shouldRunOutputGuardrails_def split: option.splits)
    obtain result evs w1 where co: "CheckOutput (ev_guard E) g (ss_content s) w = (result, evs, w1)" by (metis prod_cases3)
    from assms(1) True g co obtain h1 w2 where em: "emit_events E evs h w1 = Some (h1, w2)"
      by (cases "emit_events E evs h w1") (auto simp: end_stream_def)
    note f1 = conjunct1 [OF emit_events_frame [OF em]]
    have u: "h_usageW h1 = Some uw" using check_frame_fields [OF f1] assms(2) by simp
    show ?thesis
    proof (cases "case result of Inl err \<Rightarrow> True | Inr r \<Rightarrow> rs_Action r = Block")
      case True
      with assms(1) \<open>shouldRunOutputGuardrails h model\<close> g co em u show ?thesis
        by (cases result) (auto simp: end_stream_def split: if_splits)
    next
      case False
      with assms(1) True g co em have "map_option (\<lambda>(h, w). (ss_sent s @ [SseDone], h, w)) (post h1 w2) = Some (frames, h', w')"
        by (cases result) (auto simp: end_stream_def post_def split_beta)
      with f1 billed show ?thesis by blast
    qed
  qed
qed

text \<open>C1. A stream forwards the provider's chunks, all that arrive before its end, in their order and unchanged, and then one closing frame. It
  is billed once, for the usage of the last chunk that carries one, exactly when it ends with \<^verbatim>\<open>[DONE]\<close>; a stream that is
  interrupted, or blocked by an output guardrail after its content was sent, is not billed.\<close>

theorem stream_forwards_and_bills:
  assumes "streamChatCompletions A cx req targets (Some i) start h w = Some (Stream hs frames, h', w')"
    and "h_usageW h = Some uw" and "\<not> gi_SkipUsageLog i"
  shows "\<exists>events target n final. target \<in> set targets \<and> n \<le> int (length targets * attemptsPerTarget h)
    \<and> (\<exists>req' call key w1 w2. ap_stream A (tg_Provider target) = Some call \<and> call req' target key w1 = (Inr events, w2))
    \<and> frames = map SseData (stream_chunks events) @ [final]
    \<and> (if final = SseDone
       then \<exists>ms. h_usageW h' = Writer_Record (stream_entry h cx (req_Model req) target n (fst (stream_usage (stream_chunks events)))
                   (snd (stream_usage (stream_chunks events))) ms) uw
       else h_usageW h' = Some uw)"
  using assms(1)
proof (cases rule: stream_reply_cases)
  case (1 rl req' h1 w1 events target n h2 w2 e s)
  note f1 = check_frame_fields [OF preStream_frame [OF 1(1)]] and model = preStream_model [OF 1(1)]
  note o = stream_loop_spec [OF 1(2) [unfolded openStream_def]]
  have "attemptsPerTarget h1 = attemptsPerTarget h" using f1 by (simp add: attemptsPerTarget_def)
  with o have n: "n \<le> int (length targets * attemptsPerTarget h)" and tg: "target \<in> set targets"
    and ad': "\<exists>call key w1 w2. ap_stream A (tg_Provider target) = Some call \<and> call req' target key w1 = (Inr events, w2)"
    by simp_all
  then have ad: "\<exists>req' call key w1 w2. ap_stream A (tg_Provider target) = Some call \<and> call req' target key w1 = (Inr events, w2)"
    by blast
  have u2: "h_usageW h2 = Some uw" "h_prices h2 = h_prices h" using plan_frame_fields [of h1 h2] o f1 assms(2) by simp_all
  note sent = forward_stream_result [OF 1(3)]
  have "\<exists>final. frames = ss_sent s @ [final]
    \<and> (if final = SseDone then \<exists>ms. h_usageW h' = Writer_Record (stream_entry h2 cx (req_Model req') target n (ss_prompt s) (ss_completion s) ms) uw
       else h_usageW h' = Some uw)"
  proof (cases e)
    case None
    with 1(4) have "end_stream (ap_gov A) cx (req_Model req') target n (Some i) start s h2 w2 = Some (frames, h', w')" by simp
    from end_stream_result [OF this u2(1) assms(3)] show ?thesis .
  next
    case (Some err)
    with 1(4) u2 show ?thesis by auto
  qed
  moreover have "stream_entry h2 cx (req_Model req') target n (ss_prompt s) (ss_completion s) ms =
      stream_entry h cx (req_Model req) target n (fst (stream_usage (stream_chunks events))) (snd (stream_usage (stream_chunks events))) ms" for ms
    using u2(2) model sent(2) [symmetric] by (simp add: stream_entry_def)
  ultimately show ?thesis using n tg ad sent(1) by (intro exI [of _ events] exI [of _ target] exI [of _ n]) auto
qed

section \<open>Examples\<close>

definition example_chunk :: "string \<Rightarrow> Usage option \<Rightarrow> ChatCompletionStreamChunk" where
  "example_chunk content usage =
     \<lparr>chunk_ID = ''c'', chunk_Object = '''', chunk_Created = 0, chunk_Model = ''m'',
      chunk_Choices = [\<lparr>sc_Index = 0, sc_Delta = \<lparr>sd_Role = '''', sd_Content = Some (JStr content), sd_ToolCalls = None\<rparr>, sc_FinishReason = None\<rparr>],
      chunk_Usage = usage, chunk_SystemFingerprint = ''''\<rparr>"

definition example_api :: "(ExactLRU, unit) api_env" where
  "example_api =
     \<lparr>ap_gov = example_gov,
      ap_stream = (\<lambda>p. if p = ''a'' then Some (\<lambda>req tg key w. (Inr [Chunk (example_chunk ''he'' None), ErrorsClosed,
        Chunk (example_chunk ''llo'' (Some \<lparr>us_PromptTokens = 3, us_CompletionTokens = 2, us_TotalTokens = 5\<rparr>))], w)) else None),
      ap_flusher = True, ap_registry = None, ap_executor = None, ap_tools = example_tools, ap_statusText = (\<lambda>s. '''')\<rparr>"

lemma example_stream:
  "map_option (\<lambda>(r, h, w). r) (streamChatCompletions example_api example_ctx example_request [example_target] (Some example_identity) 0
     (example_handler (NewWriter (Some []) 5)) ()) =
   Some (Stream [(''Content-Type'', ''text/event-stream''), (''Cache-Control'', ''no-cache''), (''Connection'', ''keep-alive''),
                 (''X-Accel-Buffering'', ''no''), (''X-Provider'', ''a''), (''X-Model'', ''m'')]
      [SseData (example_chunk ''he'' None),
       SseData (example_chunk ''llo'' (Some \<lparr>us_PromptTokens = 3, us_CompletionTokens = 2, us_TotalTokens = 5\<rparr>)), SseDone])"
  by code_simp

theorem stream_forwards_and_bills_witness:
  "\<exists>hs frames h' w' events target n final.
     streamChatCompletions example_api example_ctx example_request [example_target] (Some example_identity) 0
       (example_handler (NewWriter (Some []) 5)) () = Some (Stream hs frames, h', w')
     \<and> target \<in> set [example_target] \<and> frames = map SseData (stream_chunks events) @ [final]"
proof -
  let ?h = "example_handler (NewWriter (Some []) 5)"
  from example_stream obtain hs frames h' w' where
    run: "streamChatCompletions example_api example_ctx example_request [example_target] (Some example_identity) 0 ?h () = Some (Stream hs frames, h', w')"
    by auto
  have "\<not> gi_SkipUsageLog example_identity" by (simp add: example_identity_def)
  from stream_forwards_and_bills [OF run example_handler_fields(1) this] run show ?thesis by blast
qed

text \<open>A gateway with a provider in the \<^verbatim>\<open>us\<close> and a fallback in the \<^verbatim>\<open>eu\<close>; the world is the list of the endpoints called. The
  \<^verbatim>\<open>eu\<close> provider answers with a call of a tool.\<close>

definition example_regions :: "(string, ProviderConfig) gomap" where
  "example_regions = [(''a'', example_provider ''ollama'' [example_region ''west'' ''https://us.a'' ''us'']),
                      (''b'', example_provider ''ollama'' [example_region ''east'' ''https://eu.b'' ''eu''])]"

definition example_world :: "(ExactLRU, string list) gov_env" where
  "example_world =
     \<lparr>ev_now = (\<lambda>w. (5000 * time_Second, w)),
      ev_adapter = (\<lambda>p. Some (\<lambda>req tg key w.
        (Inr (Some (if p = ''b'' then example_calling else example_answer)), w @ [tg_BaseURL tg]))),
      ev_wait = (\<lambda>d w. (None, w)),
      ev_guard = \<lparr>ge_expand = (\<lambda>t m. t), ge_post = (\<lambda>url direction content w. (Body None, w)), ge_validate = (\<lambda>schema content. None)\<rparr>,
      ev_sha = (\<lambda>j. ''sha''), ev_cacheGet = ExactLRU_Get, ev_cacheSet = ExactLRU_Set,
      ev_text = (\<lambda>r. ''''), ev_trunc = (\<lambda>u t. 0), ev_db_fails = (\<lambda>w. False), ev_reader = (\<lambda>p m r. None),
      ev_draw = (\<lambda>w. ((\<lambda>n. 0, \<lambda>n. 0), w))\<rparr>"

definition example_residency :: "(ExactLRU, string list) api_env" where
  "example_residency =
     \<lparr>ap_gov = example_world, ap_stream = (\<lambda>p. None), ap_flusher = True, ap_registry = Some [(''a'', example_tool ''a'' ''s'')],
      ap_executor = Some (3, 0), ap_tools = \<lparr>xe_now = (\<lambda>w. (7, w)), xe_client = None, xe_log = None, xe_marshal = concat\<rparr>,
      ap_statusText = (\<lambda>s. '''')\<rparr>"

definition example_routed :: "ExactLRU Handler" where
  "example_routed =
     NewHandler (Default\<lparr>cfg_Providers := example_regions, cfg_MCP := (cfg_MCP Default)\<lparr>mcp_AutoInjectTools := True\<rparr>\<rparr>)
       (New [(''fast'', \<lparr>mc_Routes = [example_route ''a'' 1], mc_Fallbacks = [example_route ''b'' 1]\<rparr>)] example_regions (cfg_Routing Default) False)
       None [] None None None"

definition example_post :: "string \<Rightarrow> http_request" where
  "example_post residency =
     \<lparr>hr_Method = ''POST'',
      hr_Body = Some (JObj [(''model'', JStr ''fast''), (''messages'', JArr [JObj [(''role'', JStr ''user''), (''content'', JStr ''hi'')]])]),
      hr_Residency = residency,
      hr_ctx = \<lparr>cx_auth = Some \<lparr>ctx_ProjectID = '''', ctx_VirtualKeyID = ''vk'', ctx_KeyPrefix = '''', ctx_Name = '''', ctx_AllowedModels = [],
        ctx_AllowedProviders = [], ctx_AllowedTools = [], ctx_RPMLimit = 0, ctx_TPMLimit = 0, ctx_BudgetLimitUSD = 0, ctx_BudgetPeriod = '''',
        ctx_ExpiresAt = None\<rparr>, cx_plan = None, cx_requestID = ''''\<rparr>\<rparr>"

text \<open>A request that asks for the residency \<^verbatim>\<open>eu\<close> is planned on the \<^verbatim>\<open>eu\<close> provider only; when that provider calls a tool, the conversation goes on
  at the \<^verbatim>\<open>us\<close> provider, since the tool loop asks the pipeline in a context without the plan.\<close>

theorem residency_lost_after_tools:
  "map_option (\<lambda>(r, h, w). w) (ChatCompletions example_residency (example_post ''eu'') example_routed []) = Some [''https://eu.b'', ''https://us.a'']"
  by code_simp

end
