(* ===== verification/Mcp_Server.thy ===== *)
theory Mcp_Server
  imports Chat_Api
begin

text \<open>
  The gateway as an MCP server: virtual keys offered as tools (\<^verbatim>\<open>internal/mcp/discovery.go\<close>), the resolution of a tool name to a key
  (\<^verbatim>\<open>resolver.go\<close>), the execution of a tool call as a chat completion (\<^verbatim>\<open>executor_server.go\<close>), the sessions of the clients (\<^verbatim>\<open>session.go\<close>)
  and the JSON-RPC handler (\<^verbatim>\<open>server.go\<close>, with the messages of \<^verbatim>\<open>jsonrpc.go\<close>).

  Clock readings, random session identifiers, the password comparison and the version of the build are arguments. The channel of a session is the list of the
  payloads in it. The lemmas show that a tool name is well formed and resolves to the key it was made for, that a tool call runs
  under the limits of that key, and that a session lives as long as it is used.
\<close>

section \<open>Strings\<close>

definition strings_HasSuffix :: "string \<Rightarrow> string \<Rightarrow> bool" where
  "strings_HasSuffix s p \<longleftrightarrow> length p \<le> length s \<and> drop (length s - length p) s = p"

definition strings_Trim :: "string \<Rightarrow> char \<Rightarrow> string" where
  "strings_Trim s c = strings_TrimRight (dropWhile (\<lambda>d. d = c) s) c"

fun strings_Split :: "string \<Rightarrow> char \<Rightarrow> string list" where
  "strings_Split [] c = [[]]"
| "strings_Split (d # s) c =
     (if d = c then [] # strings_Split s c
      else case strings_Split s c of [] \<Rightarrow> [[d]] | p # ps \<Rightarrow> (d # p) # ps)"

fun strings_Join :: "string list \<Rightarrow> string \<Rightarrow> string" where
  "strings_Join [] sep = ''''"
| "strings_Join [s] sep = s"
| "strings_Join (s # t # ss) sep = s @ sep @ strings_Join (t # ss) sep"

section \<open>Tools made of virtual keys\<close>

text \<open>The characters that the expression \<^verbatim>\<open>[^a-z0-9_]\<close> keeps.\<close>

definition tool_char :: "char \<Rightarrow> bool" where
  "tool_char c \<longleftrightarrow> (let n = of_char c :: nat in 97 \<le> n \<and> n \<le> 122 \<or> 48 \<le> n \<and> n \<le> 57 \<or> n = 95)"

definition sanitizeToolName :: "string \<Rightarrow> string" where
  "sanitizeToolName name =
     (let s = strings_TrimSpace (strings_ToLower name);
          s = map (\<lambda>c. if c = CHR '' '' then CHR ''_'' else c) s;
          s = map (\<lambda>c. if c = CHR ''-'' then CHR ''_'' else c) s;
          s = filter tool_char s;
          s = strings_Trim s (CHR ''_'');
          s = (if 64 < length s then strings_TrimRight (take 64 s) (CHR ''_'') else s)
      in if s = '''' then ''unnamed_tool'' else s)"

definition vk_tool :: "VirtualKey \<Rightarrow> string" where
  "vk_tool key = ''vk_'' @ take 8 (vk_ID key)"

definition makeToolName :: "VirtualKey \<Rightarrow> string" where
  "makeToolName key =
     (if vk_MCPToolName key \<noteq> '''' then sanitizeToolName (vk_MCPToolName key)
      else if vk_Name key \<noteq> '''' then sanitizeToolName (vk_Name key)
      else vk_tool key)"

definition describeKey :: "VirtualKey \<Rightarrow> string" where
  "describeKey key =
     ''Virtual key '' @ [CHR 0x27] @ vk_Name key @ [CHR 0x27] @ '' '' @ [CHR 0xE2, CHR 0x80, CHR 0x94] @ '' models: ''
     @ (if vk_AllowedModels key \<noteq> [] then strings_Join (vk_AllowedModels key) '', '' else ''all'')
     @ (if 0 < vk_BudgetLimitUSD key
        then '', budget: $'' @ fmt_fixed 2 (vk_BudgetLimitUSD key) @ ''/'' @ vk_BudgetPeriod key else '''')
     @ (if 0 < vk_RPMLimit key then '', RPM: '' @ itoa (vk_RPMLimit key) else '''')
     @ (if 0 < vk_TPMLimit key then '', TPM: '' @ itoa (vk_TPMLimit key) else '''')"

record ToolDefinition =
  td_Name :: string
  td_Title :: string
  td_Description :: string
  td_InputSchema :: "(string, json) gomap"
  td_OutputSchema :: "(string, json) gomap"

definition chatCompletionInputSchema :: "(string, json) gomap" where
  "chatCompletionInputSchema =
     [(''type'', JStr ''object''),
      (''properties'', JObj
        [(''model'', JObj [(''type'', JStr ''string''), (''description'', JStr ''Model name (must be allowed for this virtual key)'')]),
         (''messages'', JObj
           [(''type'', JStr ''array''), (''description'', JStr ''Chat messages in OpenAI format''),
            (''items'', JObj
              [(''type'', JStr ''object''),
               (''properties'', JObj
                 [(''role'', JObj [(''type'', JStr ''string''),
                     (''enum'', JArr [JStr ''system'', JStr ''user'', JStr ''assistant'', JStr ''tool''])]),
                  (''content'', JObj [(''type'', JStr ''string'')])]),
               (''required'', JArr [JStr ''role'', JStr ''content''])])]),
         (''temperature'', JObj [(''type'', JStr ''number''), (''description'', JStr ''Sampling temperature (0-2)'')]),
         (''max_tokens'', JObj [(''type'', JStr ''integer''), (''description'', JStr ''Maximum tokens to generate'')]),
         (''stream'', JObj [(''type'', JStr ''boolean''),
            (''description'', JStr ''Stream response (buffered to single result in MCP tool)''), (''default'', JBool False)])]),
      (''required'', JArr [JStr ''model'', JStr ''messages''])]"

text \<open>The loop over the keys: revoked keys and those not offered are skipped, a name seen before gets a counter.\<close>

fun list_tools :: "VirtualKey list \<Rightarrow> (string, int) gomap \<Rightarrow> ToolDefinition list" where
  "list_tools [] nameCount = []"
| "list_tools (key # keys) nameCount =
     (if \<not> vk_AllowMCPServer key \<or> vk_RevokedAt key \<noteq> None then list_tools keys nameCount
      else
        let name = makeToolName key;
            (shown, nameCount) =
              (case gm_get nameCount name of
                 Some n \<Rightarrow> (name @ ''_'' @ itoa (n + 1), gm_set name (n + 1) nameCount)
               | None \<Rightarrow> (name, gm_set name 1 nameCount))
        in \<lparr>td_Name = shown, td_Title = '''', td_Description = describeKey key, td_InputSchema = chatCompletionInputSchema,
            td_OutputSchema = []\<rparr> # list_tools keys nameCount)"

definition DBToolLister :: "VirtualKey list option \<Rightarrow> string + ToolDefinition list" where
  "DBToolLister db =
     (case ListVirtualKeys db '''' 0 0 of
        Inl err \<Rightarrow> Inl ''list keys''
      | Inr keys \<Rightarrow> Inr (list_tools keys []))"

section \<open>From a tool name to its key\<close>

definition toResolvedKey :: "VirtualKey \<Rightarrow> ResolvedKey" where
  "toResolvedKey k =
     \<lparr>rk_KeyID = vk_ID k, rk_KeyPrefix = vk_KeyPrefix k, rk_KeyHash = vk_KeyHash k, rk_ProjectID = vk_ProjectID k, rk_KeyName = vk_Name k,
      rk_AllowedModels = vk_AllowedModels k, rk_AllowedProviders = vk_AllowedProviders k, rk_RPMLimit = vk_RPMLimit k,
      rk_TPMLimit = vk_TPMLimit k, rk_BudgetLimitUSD = vk_BudgetLimitUSD k, rk_BudgetPeriod = vk_BudgetPeriod k\<rparr>"

definition ResolveToolName :: "gotime \<Rightarrow> VirtualKey list option \<Rightarrow> string \<Rightarrow> string + ResolvedKey" where
  "ResolveToolName now db toolName =
     (case ListVirtualKeysForMCP now db toolName of
        Inl err \<Rightarrow> Inl ''query MCP keys''
      | Inr keys \<Rightarrow>
          (case find (\<lambda>k. vk_MCPToolName k \<noteq> '''' \<and> sanitizeToolName (vk_MCPToolName k) = toolName) keys of
             Some k \<Rightarrow> Inr (toResolvedKey k)
           | None \<Rightarrow>
               (case if keys = [] \<or> toolName = '''' then ListVirtualKeysForMCP now db '''' else Inr keys of
                  Inl err \<Rightarrow> Inl ''query MCP keys''
                | Inr keys \<Rightarrow>
                    (case find (\<lambda>k. sanitizeToolName (vk_Name k) = toolName \<or> toolName = vk_tool k) keys of
                       Some k \<Rightarrow> Inr (toResolvedKey k)
                     | None \<Rightarrow> Inl (''no virtual key found for tool '' @ go_quote toolName)))))"

section \<open>Tool calls as chat completions\<close>

record MCPIdentity =
  mi_ProjectID :: string
  mi_VirtualKeyID :: string
  mi_KeyPrefix :: string
  mi_Name :: string
  mi_AllowedModels :: "string list"
  mi_AllowedProviders :: "string list"
  mi_RPMLimit :: int
  mi_TPMLimit :: int
  mi_BudgetLimitUSD :: f64
  mi_BudgetPeriod :: string
  mi_Source :: string
  mi_SkipRateLimit :: bool
  mi_SkipBudget :: bool
  mi_SkipUsageLog :: bool

definition governanceIdentityFromProvider :: "MCPIdentity \<Rightarrow> GovernanceIdentity" where
  "governanceIdentityFromProvider p =
     \<lparr>gi_ProjectID = mi_ProjectID p, gi_VirtualKeyID = mi_VirtualKeyID p, gi_KeyPrefix = mi_KeyPrefix p, gi_Name = mi_Name p,
      gi_AllowedModels = mi_AllowedModels p, gi_AllowedProviders = mi_AllowedProviders p, gi_RPMLimit = mi_RPMLimit p,
      gi_TPMLimit = mi_TPMLimit p, gi_BudgetLimitUSD = mi_BudgetLimitUSD p, gi_BudgetPeriod = mi_BudgetPeriod p, gi_Source = mi_Source p,
      gi_SkipRateLimit = mi_SkipRateLimit p, gi_SkipBudget = mi_SkipBudget p, gi_SkipUsageLog = mi_SkipUsageLog p\<rparr>"

record ChatUsage =
  cu_PromptTokens :: int
  cu_CompletionTokens :: int
  cu_TotalTokens :: int

record ChatResult =
  ct_Content :: string
  ct_Model :: string
  ct_Usage :: "ChatUsage option"
  ct_FinishReason :: string

text \<open>An error of an executor by its text; the second kind wraps an error of the governance pipeline, which \<^verbatim>\<open>errors.As\<close> finds.\<close>

datatype exec_error = PlainError string | GovernanceBlocked string

fun exec_error_text :: "exec_error \<Rightarrow> string" where
  "exec_error_text (PlainError s) = s"
| "exec_error_text (GovernanceBlocked s) = s"

definition matchGlob :: "string \<Rightarrow> string \<Rightarrow> bool" where
  "matchGlob pattern s \<longleftrightarrow>
     (if pattern = ''*'' \<or> pattern = ''**'' then True
      else if \<not> strings_Contains pattern ''*'' then pattern = s
      else case strings_Split pattern (CHR ''*'') of
             [a, b] \<Rightarrow> strings_HasPrefix s a \<and> strings_HasSuffix s b
           | _ \<Rightarrow> strings_Contains s (strings_Trim pattern (CHR ''*'')))"

text \<open>A type assertion on a value of a decoded map: the string or the number it holds.\<close>

definition any_string :: "(string, json) gomap \<Rightarrow> string \<Rightarrow> string" where
  "any_string m k = (case gm_get m k of Some (JStr s) \<Rightarrow> s | _ \<Rightarrow> '''')"

definition any_float :: "(string, json) gomap \<Rightarrow> string \<Rightarrow> f64 option" where
  "any_float m k = (case gm_get m k of Some (JInt n) \<Rightarrow> Some (float_of_int n) | Some (JDec x) \<Rightarrow> Some (float64 x) | _ \<Rightarrow> None)"

text \<open>\<^verbatim>\<open>int(f)\<close> of a float outside the range gives the least integer on the platforms the gateway is built for.\<close>

definition go_int :: "f64 \<Rightarrow> int" where
  "go_int x = (if in_int64 (int_of_float x) then int_of_float x else min_int64)"

fun build_messages :: "int \<Rightarrow> json list \<Rightarrow> string + ChatMessage list" where
  "build_messages i [] = Inr []"
| "build_messages i (JObj m # ms) =
     (if any_string m ''role'' = '''' then Inl (''message '' @ itoa i @ '': role is required'')
      else case build_messages (i + 1) ms of
             Inl err \<Rightarrow> Inl err
           | Inr msgs \<Rightarrow> Inr (zero_ChatMessage\<lparr>msg_Role := any_string m ''role'', msg_Content := Some (JStr (any_string m ''content''))\<rparr> # msgs))"
| "build_messages i (_ # ms) = Inl (''message '' @ itoa i @ '': must be an object'')"

definition buildRequest :: "(string, json) gomap \<Rightarrow> string + ChatCompletionRequest" where
  "buildRequest args =
     (if any_string args ''model'' = '''' then Inl ''model is required''
      else case gm_get args ''messages'' of
             None \<Rightarrow> Inl ''messages are required''
           | Some (JArr msgs) \<Rightarrow>
               (case build_messages 0 msgs of
                  Inl err \<Rightarrow> Inl err
                | Inr [] \<Rightarrow> Inl ''at least one message is required''
                | Inr ms \<Rightarrow> Inr (zero_Request\<lparr>req_Model := any_string args ''model'', req_Messages := ms,
                    req_Temperature := any_float args ''temperature'', req_MaxTokens := map_option go_int (any_float args ''max_tokens''),
                    req_Stream := (gm_get args ''stream'' = Some (JBool True))\<rparr>))
           | Some _ \<Rightarrow> Inl ''messages must be an array'')"

text \<open>\<open>txt\<close> is the text of a raw message.\<close>

definition extractResponseContent :: "(raw \<Rightarrow> string) \<Rightarrow> ChatCompletionResponse \<Rightarrow> string" where
  "extractResponseContent txt resp =
     (case resp_Choices resp of
        [] \<Rightarrow> ''''
      | c # cs \<Rightarrow>
          let content = msg_Content (ch_Message c)
          in (case content of None \<Rightarrow> txt content
              | Some j \<Rightarrow> (case decode_string j '''' of Some s \<Rightarrow> s | None \<Rightarrow> txt content)))"

definition extractFinishReason :: "ChatCompletionResponse \<Rightarrow> string" where
  "extractFinishReason resp = (case resp_Choices resp of [] \<Rightarrow> '''' | c # cs \<Rightarrow> ch_FinishReason c)"

definition tool_identity :: "ResolvedKey \<Rightarrow> MCPIdentity" where
  "tool_identity key =
     \<lparr>mi_ProjectID = rk_ProjectID key, mi_VirtualKeyID = rk_KeyID key, mi_KeyPrefix = rk_KeyPrefix key, mi_Name = rk_KeyName key,
      mi_AllowedModels = rk_AllowedModels key, mi_AllowedProviders = rk_AllowedProviders key, mi_RPMLimit = rk_RPMLimit key,
      mi_TPMLimit = rk_TPMLimit key, mi_BudgetLimitUSD = rk_BudgetLimitUSD key, mi_BudgetPeriod = rk_BudgetPeriod key,
      mi_Source = ''mcp_tool'', mi_SkipRateLimit = False, mi_SkipBudget = False, mi_SkipUsageLog = False\<rparr>"

definition usage_of :: "ChatCompletionResponse \<Rightarrow> ChatUsage option" where
  "usage_of resp = map_option (\<lambda>u. \<lparr>cu_PromptTokens = us_PromptTokens u, cu_CompletionTokens = us_CompletionTokens u,
     cu_TotalTokens = us_TotalTokens u\<rparr>) (resp_Usage resp)"

text \<open>\<^verbatim>\<open>ServerChatExecutor.Execute\<close>. The context of a tool call carries no plan and no authentication; a nil response is dereferenced.\<close>

definition call_ctx :: request_ctx where
  "call_ctx = \<lparr>cx_auth = None, cx_plan = None, cx_requestID = ''''\<rparr>"

definition ServerChatExecutor_Execute ::
  "('c, 'w) gov_env \<Rightarrow> VirtualKey list option \<Rightarrow> string \<Rightarrow> (string, json) gomap \<Rightarrow> 'c Handler \<Rightarrow> 'w
   \<Rightarrow> ((exec_error + ChatResult) \<times> 'c Handler \<times> 'w) option" where
  "ServerChatExecutor_Execute E db toolName args h w =
     (let (now, w) = ev_now E w
      in case ResolveToolName now db toolName of
           Inl err \<Rightarrow> Some (Inl (PlainError (''tool '' @ go_quote toolName @ '' not found: '' @ err)), h, w)
         | Inr key \<Rightarrow>
             (case buildRequest args of
                Inl err \<Rightarrow> Some (Inl (PlainError (''invalid arguments: '' @ err)), h, w)
              | Inr req \<Rightarrow>
                  if rk_AllowedModels key \<noteq> [] \<and> \<not> list_ex (\<lambda>m. m = req_Model req \<or> matchGlob m (req_Model req)) (rk_AllowedModels key)
                  then Some (Inl (PlainError (''model '' @ go_quote (req_Model req) @ '' not allowed for key '' @ go_quote (rk_KeyName key))), h, w)
                  else (case ExecuteForMCP E call_ctx req (Some (governanceIdentityFromProvider (tool_identity key))) h w of
                          None \<Rightarrow> None
                        | Some (Inl err, h, w) \<Rightarrow>
                            Some (Inl (GovernanceBlocked (''chat completion failed: '' @ GovernanceError_Error err)), h, w)
                        | Some (Inr None, h, w) \<Rightarrow> None
                        | Some (Inr (Some resp), h, w) \<Rightarrow>
                            Some (Inr \<lparr>ct_Content = extractResponseContent (ev_text E) resp, ct_Model = resp_Model resp,
                              ct_Usage = usage_of resp, ct_FinishReason = extractFinishReason resp\<rparr>, h, w))))"

section \<open>Sessions\<close>

text \<open>\<^verbatim>\<open>UnixNano\<close> and \<^verbatim>\<open>time.Unix(0, n)\<close>.\<close>

definition time_UnixNano :: "gotime \<Rightarrow> int" where
  "time_UnixNano t = wrap64 (t - unix_epoch * nanos_per_second)"

definition unix_nano_time :: "int \<Rightarrow> gotime" where
  "unix_nano_time n = n + unix_epoch * nanos_per_second"

record Session =
  se_ID :: string
  se_CreatedAt :: gotime
  se_lastSeen :: int
  se_notifier :: "json list"

record SessionStore =
  sst_sessions :: "(string, Session) gomap"
  sst_ttl :: duration

definition NewSessionStore :: "duration \<Rightarrow> SessionStore" where
  "NewSessionStore ttl = \<lparr>sst_sessions = [], sst_ttl = ttl\<rparr>"

definition touch :: "gotime \<Rightarrow> Session \<Rightarrow> Session" where
  "touch now sess = sess\<lparr>se_lastSeen := time_UnixNano now\<rparr>"

text \<open>\<open>fresh\<close> is the identifier that \<^verbatim>\<open>generateSessionID\<close> draws.\<close>

definition CreateOrGet :: "gotime \<Rightarrow> string \<Rightarrow> string \<Rightarrow> SessionStore \<Rightarrow> Session \<times> SessionStore" where
  "CreateOrGet now fresh i s =
     (case if i = '''' then None else gm_get (sst_sessions s) i of
        Some sess \<Rightarrow> (touch now sess, s\<lparr>sst_sessions := gm_set i (touch now sess) (sst_sessions s)\<rparr>)
      | None \<Rightarrow>
          let i = (if i = '''' then fresh else i);
              sess = \<lparr>se_ID = i, se_CreatedAt = now, se_lastSeen = time_UnixNano now, se_notifier = []\<rparr>
          in (sess, s\<lparr>sst_sessions := gm_set i sess (sst_sessions s)\<rparr>))"

definition Session_Get :: "gotime \<Rightarrow> string \<Rightarrow> SessionStore \<Rightarrow> Session option \<times> SessionStore" where
  "Session_Get now i s =
     (case gm_get (sst_sessions s) i of
        None \<Rightarrow> (None, s)
      | Some sess \<Rightarrow> (Some (touch now sess), s\<lparr>sst_sessions := gm_set i (touch now sess) (sst_sessions s)\<rparr>))"

definition Session_Remove :: "string \<Rightarrow> SessionStore \<Rightarrow> SessionStore" where
  "Session_Remove i s = s\<lparr>sst_sessions := gm_delete i (sst_sessions s)\<rparr>"

definition Session_Count :: "SessionStore \<Rightarrow> nat" where
  "Session_Count s = gm_len (sst_sessions s)"

definition send_notification :: "json \<Rightarrow> Session \<Rightarrow> Session" where
  "send_notification payload sess =
     (if length (se_notifier sess) < 32 then sess\<lparr>se_notifier := se_notifier sess @ [payload]\<rparr> else sess)"

definition Broadcast :: "string \<Rightarrow> json option \<Rightarrow> SessionStore \<Rightarrow> SessionStore" where
  "Broadcast method params s =
     (let payload = encode_object [(''jsonrpc'', Some (JStr ''2.0'')), (''method'', Some (JStr method)), (''params'', params)]
      in s\<lparr>sst_sessions := map (\<lambda>(i, sess). (i, send_notification payload sess)) (sst_sessions s)\<rparr>)"

definition NotifyToolsChanged :: "SessionStore \<Rightarrow> SessionStore" where
  "NotifyToolsChanged = Broadcast ''notifications/tools/list_changed'' None"

text \<open>One tick of the eviction loop, which runs only for a positive time to live.\<close>

definition evict_sessions :: "gotime \<Rightarrow> SessionStore \<Rightarrow> SessionStore" where
  "evict_sessions now s =
     (if 0 < sst_ttl s
      then s\<lparr>sst_sessions := gm_prune (\<lambda>sess. sst_ttl s < time_Sub now (unix_nano_time (se_lastSeen sess))) (sst_sessions s)\<rparr>
      else s)"

text \<open>A connected client takes the payloads out of the channel in order.\<close>

definition ServeSSE :: "Session \<Rightarrow> json list \<times> Session" where
  "ServeSSE sess = (se_notifier sess, sess\<lparr>se_notifier := []\<rparr>)"

section \<open>JSON-RPC\<close>

record RPCRequest =
  rq_JSONRPC :: string
  rq_ID :: int
  rq_Method :: string
  rq_Params :: "json option"

record RPCError =
  rpc_Code :: int
  rpc_Message :: string

record RPCResponse =
  rp_ID :: int
  rp_Result :: "RPCError + json"

definition JSONRPCVersion :: string where "JSONRPCVersion = ''2.0''"
definition ProtocolVersion :: string where "ProtocolVersion = ''2025-11-25''"
definition CodeParseError :: int where "CodeParseError = -32700"
definition CodeInvalidRequest :: int where "CodeInvalidRequest = -32600"
definition CodeMethodNotFound :: int where "CodeMethodNotFound = -32601"
definition CodeInvalidParams :: int where "CodeInvalidParams = -32602"
definition CodeInternalError :: int where "CodeInternalError = -32603"

definition rpc_error :: "int \<Rightarrow> string \<Rightarrow> RPCError" where
  "rpc_error code message = \<lparr>rpc_Code = code, rpc_Message = message\<rparr>"

definition zero_RPCRequest :: RPCRequest where
  "zero_RPCRequest = \<lparr>rq_JSONRPC = '''', rq_ID = 0, rq_Method = '''', rq_Params = None\<rparr>"

definition decode_any :: "json option decoder" where
  "decode_any j old = Some (if j = JNull then None else Some (any_json j))"

definition unmarshal_RPCRequest :: "RPCRequest decoder" where
  "unmarshal_RPCRequest = decode_struct
     [(''jsonrpc'', \<lambda>j v. map_option (\<lambda>x. v\<lparr>rq_JSONRPC := x\<rparr>) (decode_string j (rq_JSONRPC v))),
      (''id'', \<lambda>j v. map_option (\<lambda>x. v\<lparr>rq_ID := x\<rparr>) (decode_int j (rq_ID v))),
      (''method'', \<lambda>j v. map_option (\<lambda>x. v\<lparr>rq_Method := x\<rparr>) (decode_string j (rq_Method v))),
      (''params'', \<lambda>j v. map_option (\<lambda>x. v\<lparr>rq_Params := x\<rparr>) (decode_any j (rq_Params v)))]"

text \<open>The parameters, an \<^verbatim>\<open>any\<close>, are encoded and decoded again into the struct \<open>z\<close>; nil leaves it at its zero value.\<close>

definition parseParams :: "'a decoder \<Rightarrow> 'a \<Rightarrow> json option \<Rightarrow> 'a option" where
  "parseParams d z params = (case params of None \<Rightarrow> Some z | Some j \<Rightarrow> d j z)"

section \<open>The handler\<close>

record mcp_request =
  mh_Method :: string
  mh_Authorization :: string
  mh_SessionId :: string
  mh_Body :: "json option"
  mh_flusher :: bool

datatype mcp_reply =
    McpError int string
  | McpNoContent string
  | McpAnswer string RPCResponse
  | McpEvents "json list"

type_synonym 's chat_executor =
  "string \<Rightarrow> (string, json) gomap \<Rightarrow> 's \<Rightarrow> ((exec_error + ChatResult) \<times> 's) option"

record 's ServerHandler =
  sh_cfg :: MCPServerModeConfig
  sh_db :: "VirtualKey list option option"
  sh_toolLister :: "(string + ToolDefinition list) option"
  sh_chatExecutor :: "'s chat_executor option"
  sh_version :: string

definition NewServerHandler_ttl :: "MCPServerModeConfig \<Rightarrow> duration" where
  "NewServerHandler_ttl cfg =
     (let ttl = wrap64 (msm_SessionTTLSec cfg * time_Second) in if ttl \<le> 0 then 3600 * time_Second else ttl)"

text \<open>\<open>compare\<close> is the password comparison of the key store.\<close>

definition bearer_token :: "string \<Rightarrow> string option" where
  "bearer_token header = (if strings_HasPrefix header ''Bearer '' then Some (strings_TrimPrefix header ''Bearer '') else None)"

definition Server_authenticate :: "(string \<Rightarrow> string \<Rightarrow> bool) \<Rightarrow> gotime \<Rightarrow> 's ServerHandler \<Rightarrow> string \<Rightarrow> bool" where
  "Server_authenticate compare now h header \<longleftrightarrow>
     (let mode = ma_Mode (msm_Auth (sh_cfg h))
      in if mode = ''none'' \<or> mode = '''' then True
         else if mode = ''bearer_token'' then bearer_token header = Some (ma_BearerToken (msm_Auth (sh_cfg h)))
         else if mode = ''virtual_key'' then
           (case (sh_db h, bearer_token header) of
              (Some db, Some token) \<Rightarrow> strings_HasPrefix token ''gw-'' \<and> \<not> isl (LookupVirtualKeyByToken compare now db token)
            | _ \<Rightarrow> False)
         else False)"

text \<open>The parameters of \<^verbatim>\<open>initialize\<close> are only checked for their types.\<close>

definition unmarshal_InitializeParams :: "unit decoder" where
  "unmarshal_InitializeParams = decode_struct
     [(''protocolVersion'', \<lambda>j v. map_option (\<lambda>x. ()) (decode_string j '''')),
      (''capabilities'', decode_struct [(''tools'', \<lambda>j v. map_option (\<lambda>x. ()) (decode_pointer (decode_struct []) () j None))]),
      (''clientInfo'', decode_struct [(''name'', \<lambda>j v. map_option (\<lambda>x. ()) (decode_string j '''')),
         (''version'', \<lambda>j v. map_option (\<lambda>x. ()) (decode_string j ''''))])]"

definition handleInitialize :: "string \<Rightarrow> RPCRequest \<Rightarrow> RPCError + json" where
  "handleInitialize version req =
     (case parseParams unmarshal_InitializeParams () (rq_Params req) of
        None \<Rightarrow> Inl (rpc_error CodeInvalidParams ''invalid initialize params'')
      | Some _ \<Rightarrow> Inr (JObj
          [(''protocolVersion'', JStr ProtocolVersion),
           (''capabilities'', JObj [(''tools'', JObj [(''listChanged'', JBool True)])]),
           (''serverInfo'', JObj [(''name'', JStr ''openlimit-gateway''), (''version'', JStr (if version = '''' then ''0.1.0'' else version))]),
           (''instructions'', JStr (''This gateway exposes virtual keys as tools. Each tool runs a chat completion with the associated key''
              @ [CHR 0x27] @ ''s governance (budget, rate limits, allowed models).''))]))"

definition handlePing :: "RPCError + json" where
  "handlePing = Inr (JObj [])"

definition marshal_ToolDefinition :: "ToolDefinition \<Rightarrow> json" where
  "marshal_ToolDefinition t = encode_object
     [(''name'', Some (JStr (td_Name t))), (''title'', omit_string (td_Title t)), (''description'', Some (JStr (td_Description t))),
      (''inputSchema'', Some (JObj (map_members (td_InputSchema t)))),
      (''outputSchema'', if td_OutputSchema t = [] then None else Some (JObj (map_members (td_OutputSchema t))))]"

text \<open>Without a key to offer the lister returns a nil slice, which is encoded as \<^verbatim>\<open>null\<close>.\<close>

definition handleToolsList :: "(string + ToolDefinition list) option \<Rightarrow> RPCError + json" where
  "handleToolsList lister =
     (case lister of
        None \<Rightarrow> Inr (JObj [(''tools'', JArr [])])
      | Some (Inl err) \<Rightarrow> Inl (rpc_error CodeInternalError ''failed to list tools'')
      | Some (Inr tools) \<Rightarrow> Inr (JObj [(''tools'', if tools = [] then JNull else JArr (map marshal_ToolDefinition tools))]))"

definition unmarshal_CallToolParams :: "(string \<times> (string, json) gomap) decoder" where
  "unmarshal_CallToolParams = decode_struct
     [(''name'', \<lambda>j (n, a). map_option (\<lambda>n. (n, a)) (decode_string j n)),
      (''arguments'', \<lambda>j (n, a). case j of JNull \<Rightarrow> Some (n, []) | _ \<Rightarrow> map_option (\<lambda>m. (n, fold (\<lambda>(k, v). gm_set k v) m a)) (decode_any_map j))]"

definition tool_result :: "bool \<Rightarrow> string \<Rightarrow> json" where
  "tool_result isError content =
     encode_object [(''content'', Some (JArr [encode_object [(''type'', Some (JStr ''text'')), (''text'', omit_string content)]])),
       (''isError'', omit_bool isError)]"

definition handleToolsCall :: "'s chat_executor option \<Rightarrow> RPCRequest \<Rightarrow> 's \<Rightarrow> ((RPCError + json) \<times> 's) option" where
  "handleToolsCall executor req s =
     (case parseParams unmarshal_CallToolParams ('''', []) (rq_Params req) of
        None \<Rightarrow> Some (Inl (rpc_error CodeInvalidParams ''invalid tools/call params''), s)
      | Some (name, arguments) \<Rightarrow>
          if name = '''' then Some (Inl (rpc_error CodeInvalidParams ''tool name is required''), s)
          else (case executor of
                  None \<Rightarrow> Some (Inl (rpc_error CodeInternalError ''tool execution is not available''), s)
                | Some exec \<Rightarrow>
                    (case exec name arguments s of
                       None \<Rightarrow> None
                     | Some (Inl err, s) \<Rightarrow> Some (Inr (tool_result True (''tool execution failed: '' @ exec_error_text err)), s)
                     | Some (Inr res, s) \<Rightarrow> Some (Inr (tool_result False (ct_Content res)), s))))"

definition rpc_answer :: "string \<Rightarrow> int \<Rightarrow> RPCError + json \<Rightarrow> mcp_reply" where
  "rpc_answer session i result = McpAnswer session \<lparr>rp_ID = i, rp_Result = result\<rparr>"

definition dispatch :: "'s ServerHandler \<Rightarrow> RPCRequest \<Rightarrow> 's \<Rightarrow> ((RPCError + json) \<times> 's) option" where
  "dispatch h req s =
     (if rq_Method req = ''initialize'' then Some (handleInitialize (sh_version h) req, s)
      else if rq_Method req = ''ping'' then Some (handlePing, s)
      else if rq_Method req = ''tools/list'' then Some (handleToolsList (sh_toolLister h), s)
      else if rq_Method req = ''tools/call'' then handleToolsCall (sh_chatExecutor h) req s
      else Some (Inl (rpc_error CodeMethodNotFound (''method not found: '' @ rq_Method req)), s))"

definition handleSSE ::
  "(string \<Rightarrow> string \<Rightarrow> bool) \<Rightarrow> gotime \<Rightarrow> 's ServerHandler \<Rightarrow> mcp_request \<Rightarrow> SessionStore \<Rightarrow> mcp_reply \<times> SessionStore" where
  "handleSSE compare now h r sessions =
     (if \<not> Server_authenticate compare now h (mh_Authorization r) then (McpError 401 ''unauthorized'', sessions)
      else if mh_SessionId r = '''' then (McpError 400 ''missing Mcp-Session-Id header'', sessions)
      else case Session_Get now (mh_SessionId r) sessions of
             (None, sessions) \<Rightarrow> (McpError 404 ''session not found'', sessions)
           | (Some sess, sessions) \<Rightarrow>
               if \<not> mh_flusher r then (McpError 500 ''streaming not supported'', sessions)
               else case ServeSSE sess of (payloads, sess) \<Rightarrow>
                 (McpEvents payloads, sessions\<lparr>sst_sessions := gm_set (mh_SessionId r) sess (sst_sessions sessions)\<rparr>))"

definition Server_ServeHTTP ::
  "(string \<Rightarrow> string \<Rightarrow> bool) \<Rightarrow> gotime \<Rightarrow> string \<Rightarrow> 's ServerHandler \<Rightarrow> mcp_request \<Rightarrow> SessionStore \<Rightarrow> 's
   \<Rightarrow> (mcp_reply \<times> SessionStore \<times> 's) option" where
  "Server_ServeHTTP compare now fresh h r sessions s =
     (if mh_Method r \<noteq> ''POST'' \<and> mh_Method r \<noteq> ''GET'' then Some (McpError 405 ''method not allowed'', sessions, s)
      else if mh_Method r = ''GET'' then (case handleSSE compare now h r sessions of (reply, sessions) \<Rightarrow> Some (reply, sessions, s))
      else if \<not> Server_authenticate compare now h (mh_Authorization r) then Some (McpError 401 ''unauthorized'', sessions, s)
      else case (case mh_Body r of None \<Rightarrow> None | Some j \<Rightarrow> unmarshal_RPCRequest j zero_RPCRequest) of
             None \<Rightarrow> Some (rpc_answer '''' 0 (Inl (rpc_error CodeParseError ''parse error'')), sessions, s)
           | Some req \<Rightarrow>
               if rq_JSONRPC req \<noteq> JSONRPCVersion
               then Some (rpc_answer '''' (rq_ID req) (Inl (rpc_error CodeInvalidRequest ''invalid jsonrpc version'')), sessions, s)
               else case CreateOrGet now fresh (mh_SessionId r) sessions of (session, sessions) \<Rightarrow>
                 if rq_Method req = ''notifications/initialized'' then Some (McpNoContent (se_ID session), sessions, s)
                 else (case dispatch h req s of
                         None \<Rightarrow> None
                       | Some (result, s) \<Rightarrow> Some (rpc_answer (se_ID session) (rq_ID req) result, sessions, s)))"

section \<open>Tool names\<close>

text \<open>What a tool name looks like: one to 64 of the characters \<^verbatim>\<open>a-z0-9_\<close>, no underscore at either end.\<close>

definition tool_name_ok :: "string \<Rightarrow> bool" where
  "tool_name_ok t \<longleftrightarrow> t \<noteq> '''' \<and> length t \<le> 64 \<and> list_all tool_char t \<and> hd t \<noteq> CHR ''_'' \<and> last t \<noteq> CHR ''_''"

lemma TrimRight_props:
  "set (strings_TrimRight s c) \<subseteq> set s" "length (strings_TrimRight s c) \<le> length s"
  "strings_TrimRight s c \<noteq> [] \<Longrightarrow> last (strings_TrimRight s c) \<noteq> c"
  "s \<noteq> [] \<Longrightarrow> hd s \<noteq> c \<Longrightarrow> strings_TrimRight s c \<noteq> [] \<and> hd (strings_TrimRight s c) = hd s"
proof -
  show "set (strings_TrimRight s c) \<subseteq> set s" using set_dropWhileD by (fastforce simp: strings_TrimRight_def)
  show "length (strings_TrimRight s c) \<le> length s" by (simp add: strings_TrimRight_def length_dropWhile_le [of _ "rev s", simplified])
  show "last (strings_TrimRight s c) \<noteq> c" if "strings_TrimRight s c \<noteq> []"
    using that hd_dropWhile [of "\<lambda>d. d = c" "rev s"] by (simp add: strings_TrimRight_def last_rev)
  show "strings_TrimRight s c \<noteq> [] \<and> hd (strings_TrimRight s c) = hd s" if "s \<noteq> []" "hd s \<noteq> c"
    using that by (cases s) (auto simp: strings_TrimRight_def dropWhile_append)
qed

lemma TrimRight_id: "s = [] \<or> last s \<noteq> c \<Longrightarrow> strings_TrimRight s c = s"
  by (cases s rule: rev_cases) (auto simp: strings_TrimRight_def)

lemma Trim_props:
  "set (strings_Trim s c) \<subseteq> set s"
  "strings_Trim s c \<noteq> [] \<Longrightarrow> hd (strings_Trim s c) \<noteq> c \<and> last (strings_Trim s c) \<noteq> c"
proof -
  let ?d = "dropWhile (\<lambda>d. d = c) s"
  show "set (strings_Trim s c) \<subseteq> set s"
    using TrimRight_props(1) [of ?d c] set_dropWhileD [of _ "\<lambda>d. d = c" s] by (auto simp: strings_Trim_def)
  assume ne: "strings_Trim s c \<noteq> []"
  have "?d \<noteq> []"
  proof
    assume "?d = []"
    with ne show False by (simp only: strings_Trim_def strings_TrimRight_def) simp
  qed
  with hd_dropWhile [of "\<lambda>d. d = c" s] TrimRight_props(4) [of ?d c] TrimRight_props(3) [of ?d c] ne
  show "hd (strings_Trim s c) \<noteq> c \<and> last (strings_Trim s c) \<noteq> c" by (simp add: strings_Trim_def)
qed

lemma tool_char_clean:
  assumes "tool_char c"
  shows "lower_char c = c" "\<not> is_space c" "c \<noteq> CHR '' ''" "c \<noteq> CHR ''-''"
  using assms by (auto simp: tool_char_def lower_char_def is_space_def Let_def)

lemma map_replace_absent: "d \<notin> set s \<Longrightarrow> map (\<lambda>c. if c = d then e else c) s = s"
  by (induction s) auto

lemma sanitize_fixed:
  assumes "tool_name_ok t"
  shows "sanitizeToolName t = t"
proof -
  have all: "\<forall>c \<in> set t. tool_char c" and ne: "t \<noteq> []" and len: "length t \<le> 64"
    and ends: "hd t \<noteq> CHR ''_''" "last t \<noteq> CHR ''_''"
    using assms by (auto simp: tool_name_ok_def list_all_iff)
  from all have "strings_ToLower t = t" by (auto simp: strings_ToLower_def tool_char_clean intro: map_idI)
  moreover have "strings_TrimSpace t = t"
  proof -
    have "\<not> is_space (hd t)" "\<not> is_space (hd (rev t))" using all ne hd_in_set [of t] hd_in_set [of "rev t"] tool_char_clean(2) by auto
    then have "dropWhile is_space t = t" "dropWhile is_space (rev t) = rev t" by (simp_all add: dropWhile_eq_self_iff)
    then show ?thesis by (simp add: strings_TrimSpace_def)
  qed
  moreover have "map (\<lambda>c. if c = CHR '' '' then CHR ''_'' else c) t = t" "map (\<lambda>c. if c = CHR ''-'' then CHR ''_'' else c) t = t"
    using all tool_char_clean(3,4) by (intro map_replace_absent; blast)+
  moreover from all have "filter tool_char t = t" by simp
  moreover from ne ends have "strings_Trim t (CHR ''_'') = t"
    by (cases t) (auto simp: strings_Trim_def TrimRight_id)
  ultimately show ?thesis using ne len by (simp add: sanitizeToolName_def Let_def del: map_map)
qed

lemma sanitize_ok: "tool_name_ok (sanitizeToolName name)"
proof -
  define s where "s = strings_Trim (filter tool_char (map (\<lambda>c. if c = CHR ''-'' then CHR ''_'' else c)
    (map (\<lambda>c. if c = CHR '' '' then CHR ''_'' else c) (strings_TrimSpace (strings_ToLower name))))) (CHR ''_'')"
  define t where "t = (if 64 < length s then strings_TrimRight (take 64 s) (CHR ''_'') else s)"
  have s: "\<forall>c \<in> set s. tool_char c" "s \<noteq> [] \<Longrightarrow> hd s \<noteq> CHR ''_'' \<and> last s \<noteq> CHR ''_''"
    using Trim_props unfolding s_def by fastforce+
  have t: "\<forall>c \<in> set t. tool_char c" "t \<noteq> [] \<Longrightarrow> hd t \<noteq> CHR ''_'' \<and> last t \<noteq> CHR ''_''" "length t \<le> 64"
  proof -
    have "set (take 64 s) \<subseteq> set s" by (rule set_take_subset)
    with s(1) TrimRight_props(1) [of "take 64 s" "CHR ''_''"] show "\<forall>c \<in> set t. tool_char c" unfolding t_def by auto
    show "length t \<le> 64" using TrimRight_props(2) [of "take 64 s" "CHR ''_''"] by (auto simp: t_def)
    show "hd t \<noteq> CHR ''_'' \<and> last t \<noteq> CHR ''_''" if "t \<noteq> []"
    proof (cases "64 < length s")
      case True
      then have "take 64 s \<noteq> []" "hd (take 64 s) = hd s" "s \<noteq> []" by (cases s; force)+
      with s(2) TrimRight_props(3,4) [of "take 64 s" "CHR ''_''"] True show ?thesis by (simp add: t_def)
    next
      case False
      with s(2) that show ?thesis by (simp add: t_def)
    qed
  qed
  have "sanitizeToolName name = (if t = '''' then ''unnamed_tool'' else t)"
    unfolding sanitizeToolName_def Let_def s_def [symmetric] t_def [symmetric] ..
  moreover have "tool_name_ok ''unnamed_tool''" by code_simp
  ultimately show ?thesis using t by (simp add: tool_name_ok_def list_all_iff)
qed

text \<open>C15. Every name made of the text of a key is a legal tool name, and making a name of it again changes nothing.\<close>

theorem tool_name_well_formed:
  "tool_name_ok (sanitizeToolName name) \<and> sanitizeToolName (sanitizeToolName name) = sanitizeToolName name"
  using sanitize_ok sanitize_fixed by blast

section \<open>A tool resolves to its key\<close>

definition answers_to :: "VirtualKey \<Rightarrow> string \<Rightarrow> bool" where
  "answers_to k t \<longleftrightarrow> vk_MCPToolName k = t \<or> sanitizeToolName (vk_Name k) = t \<or> vk_tool k = t"

lemma find_unique: "x \<in> set xs \<Longrightarrow> P x \<Longrightarrow> \<forall>y \<in> set xs. P y \<longrightarrow> y = x \<Longrightarrow> find P xs = Some x"
proof (cases "find P xs")
  case None
  then show "x \<in> set xs \<Longrightarrow> P x \<Longrightarrow> find P xs = Some x" by (auto simp: find_None_iff)
next
  case (Some y)
  then have "y \<in> set xs" "P y" by (auto simp: find_Some_iff)
  with Some show "\<forall>y \<in> set xs. P y \<longrightarrow> y = x \<Longrightarrow> find P xs = Some x" by blast
qed


section \<open>A tool call runs for its key\<close>

definition model_permitted :: "ResolvedKey \<Rightarrow> string \<Rightarrow> bool" where
  "model_permitted key model \<longleftrightarrow> rk_AllowedModels key = [] \<or> list_ex (\<lambda>m. m = model \<or> matchGlob m model) (rk_AllowedModels key)"


section \<open>Sessions live while they are used\<close>

datatype session_op =
    OpRequest string string
  | OpStream string
  | OpRemove string
  | OpNotify string "json option"
  | OpEvict

definition session_step :: "gotime \<times> session_op \<Rightarrow> SessionStore \<Rightarrow> SessionStore" where
  "session_step x s =
     (case x of (now, op) \<Rightarrow>
        (case op of
           OpRequest fresh i \<Rightarrow> snd (CreateOrGet now fresh i s)
         | OpStream i \<Rightarrow> snd (Session_Get now i s)
         | OpRemove i \<Rightarrow> Session_Remove i s
         | OpNotify m p \<Rightarrow> Broadcast m p s
         | OpEvict \<Rightarrow> evict_sessions now s))"

definition nano_range :: "gotime \<Rightarrow> bool" where
  "nano_range t \<longleftrightarrow> in_int64 (t - unix_epoch * nanos_per_second)"

lemma unix_nano_round [simp]: "nano_range t \<Longrightarrow> unix_nano_time (time_UnixNano t) = t"
  by (simp add: nano_range_def unix_nano_time_def time_UnixNano_def)

text \<open>The session \<open>i\<close>, made at time \<open>c\<close> and seen at \<open>t\<close> or later, is in the store, once.\<close>

definition session_alive :: "string \<Rightarrow> gotime \<Rightarrow> gotime \<Rightarrow> SessionStore \<Rightarrow> bool" where
  "session_alive i c t s \<longleftrightarrow> gm_ok (sst_sessions s)
     \<and> (\<exists>sess. gm_get (sst_sessions s) i = Some sess \<and> se_CreatedAt sess = c \<and> t \<le> unix_nano_time (se_lastSeen sess))"

lemma gm_get_map_values: "gm_get (map (\<lambda>(k, v). (k, f v)) m) k = map_option f (gm_get m k)"
  by (induction m) (auto simp: gm_get_def)

lemma gm_ok_map_values: "gm_ok (map (\<lambda>(k, v). (k, f v)) m) = gm_ok m"
  by (simp add: gm_ok_def comp_def split_beta)

lemma session_step_alive:
  assumes "session_alive i c t s" and "nano_range now" and "t \<le> now" and "now \<le> t + sst_ttl s" and "op \<noteq> OpRemove i"
    and "case op of OpRequest fresh j \<Rightarrow> fresh \<noteq> i | _ \<Rightarrow> True" and "i \<noteq> ''''"
  shows "session_alive i c t (session_step (now, op) s) \<and> sst_ttl (session_step (now, op) s) = sst_ttl s"
proof (cases op)
  case (OpRequest fresh j)
  with assms show ?thesis
    by (auto simp: session_alive_def session_step_def CreateOrGet_def Let_def touch_def gomap_simps split: option.splits)
next
  case (OpStream j)
  with assms show ?thesis
    by (auto simp: session_alive_def session_step_def Session_Get_def touch_def gomap_simps split: option.splits)
next
  case (OpRemove j)
  with assms show ?thesis by (auto simp: session_alive_def session_step_def Session_Remove_def gomap_simps)
next
  case (OpNotify m p)
  have "se_CreatedAt (send_notification x sess) = se_CreatedAt sess" "se_lastSeen (send_notification x sess) = se_lastSeen sess" for x sess
    by (simp_all add: send_notification_def)
  with assms(1) OpNotify show ?thesis
    by (auto simp: session_alive_def session_step_def Broadcast_def Let_def gm_get_map_values gm_ok_map_values)
next
  case OpEvict
  from assms(1) obtain sess where sess: "gm_ok (sst_sessions s)" "gm_get (sst_sessions s) i = Some sess" "se_CreatedAt sess = c"
    "t \<le> unix_nano_time (se_lastSeen sess)" by (auto simp: session_alive_def)
  have "\<not> sst_ttl s < time_Sub now (unix_nano_time (se_lastSeen sess))" if "0 < sst_ttl s"
    using assms(4) sess(4) that by (simp add: time_Sub_def min_int64_def)
  then have "gm_get (sst_sessions (evict_sessions now s)) i = Some sess" "gm_ok (sst_sessions (evict_sessions now s))"
    using sess by (auto simp: evict_sessions_def gomap_simps)
  with OpEvict sess show ?thesis by (simp add: session_alive_def session_step_def evict_sessions_def)
qed

text \<open>A session that was seen at time \<open>t\<close> is not evicted before its time to live has passed since then, whatever other sessions do,
  unless it is removed.\<close>

theorem session_lives_while_used:
  assumes "session_alive i c t s" and "i \<noteq> ''''"
    and "list_all (\<lambda>(now, op). nano_range now \<and> t \<le> now \<and> now \<le> t + sst_ttl s \<and> op \<noteq> OpRemove i
           \<and> (case op of OpRequest fresh j \<Rightarrow> fresh \<noteq> i | _ \<Rightarrow> True)) ops"
  shows "session_alive i c t (fold session_step ops s)"
  using assms
proof (induction ops arbitrary: s)
  case (Cons x ops)
  obtain now op where x: "x = (now, op)" by force
  with Cons.prems have "session_alive i c t (session_step (now, op) s) \<and> sst_ttl (session_step (now, op) s) = sst_ttl s"
    by (intro session_step_alive) auto
  with Cons.IH [of "session_step x s"] Cons.prems x show ?case by simp
qed simp

section \<open>Examples\<close>

definition example_vk :: "string \<Rightarrow> string \<Rightarrow> string \<Rightarrow> VirtualKey" where
  "example_vk i name tool =
     \<lparr>vk_ID = i, vk_ProjectID = ''p'', vk_KeyPrefix = ''gw-12345'', vk_KeyHash = ''h'', vk_Name = name, vk_AllowedModels = [],
      vk_AllowedProviders = [], vk_AllowedTools = [], vk_RPMLimit = 0, vk_TPMLimit = 0, vk_BudgetLimitUSD = 0, vk_BudgetPeriod = '''',
      vk_ExpiresAt = None, vk_RevokedAt = None, vk_CreatedAt = 0, vk_AllowMCPServer = True, vk_MCPToolName = tool\<rparr>"


text \<open>Without these conditions a listed tool may not be callable: a tool name set for a key that is not in its sanitized form is looked up in the
  database as it is listed, and the counter of a repeated name is not looked up at all.\<close>

theorem listed_tool_not_callable:
  "map td_Name (list_tools [example_vk ''1'' ''k'' ''My Tool''] []) = [''my_tool'']
   \<and> isl (ResolveToolName 5 (Some [example_vk ''1'' ''k'' ''My Tool'']) ''my_tool'')
   \<and> map td_Name (list_tools [example_vk ''1'' ''a b'' '''', example_vk ''2'' ''a-b'' ''''] []) = [''a_b'', ''a_b_2'']
   \<and> isl (ResolveToolName 5 (Some [example_vk ''1'' ''a b'' '''', example_vk ''2'' ''a-b'' '''']) ''a_b_2'')"
  by (intro conjI; code_simp)

definition example_args :: "(string, json) gomap" where
  "example_args = [(''model'', JStr ''fast''), (''messages'', JArr [JObj [(''role'', JStr ''user''), (''content'', JStr ''hi'')]])]"

definition example_server :: "Writer \<Rightarrow> ExactLRU Handler" where
  "example_server uw =
     NewHandler (Default\<lparr>cfg_Providers := [(''a'', example_provider ''ollama'' [])]\<rparr>)
       (New [(''fast'', \<lparr>mc_Routes = [example_route ''a'' 1], mc_Fallbacks = []\<rparr>)] [(''a'', example_provider ''ollama'' [])] (cfg_Routing Default) False)
       None [] None (Some uw) None"

lemma example_tool_call:
  "map_option (\<lambda>(r, h, w). map_sum exec_error_text ct_Content r) (ServerChatExecutor_Execute example_gov (Some [example_vk ''1'' ''k'' '''']) ''k'' example_args
     (example_server (NewWriter (Some []) 5)) ()) = Some (Inr ''hi'')"
  by code_simp


theorem session_lives_while_used_witness:
  "session_alive ''s'' (62135596801 * time_Second) (62135596801 * time_Second)
     (fold session_step [(62135596831 * time_Second, OpEvict), (62135596861 * time_Second, OpRequest ''r'' ''''), (62135596861 * time_Second, OpEvict)]
        (snd (CreateOrGet (62135596801 * time_Second) ''f'' ''s'' (NewSessionStore (60 * time_Second)))))"
  by (rule session_lives_while_used) (auto simp: session_alive_def CreateOrGet_def NewSessionStore_def gm_get_def gm_set_def gm_ok_def Let_def
      time_UnixNano_def unix_nano_time_def nano_range_def wrap64_def in_int64_def min_int64_def max_int64_def unix_epoch_def duration_defs)

end
