(* ===== verification/A2A_Store.thy ===== *)
theory A2A_Store
  imports Mcp_Server
begin

text \<open>
  The tasks of the agent-to-agent protocol: their data and its JSON (\<^verbatim>\<open>internal/mcp/a2a_types.go\<close>), the two stores behind the interface
  \<^verbatim>\<open>TaskStore\<close> (\<^verbatim>\<open>MemoryTaskStore\<close> of \<^verbatim>\<open>a2a_taskstore.go\<close> and \<^verbatim>\<open>PersistentTaskStore\<close> of \<^verbatim>\<open>a2a_persistent_store.go\<close>) and the notifier
  (\<^verbatim>\<open>a2a_task_notifier.go\<close>).

  Tasks are shared by pointer, so they live in a heap, a list of task objects whose positions are the addresses. The store in memory maps
  identifiers to addresses and shares its objects with every caller; the persistent one keeps rows of JSON and makes a new object at every
  \<^verbatim>\<open>Get\<close>. What both promise to the handler is the locale \<open>task_store\<close>; both are interpretations of it. The database rounds the times it
  stores by the function \<open>pg\<close>; an unreachable database is \<^term>\<open>None\<close>. A channel of the notifier is the list of the addresses in it.
\<close>

section \<open>Data\<close>

datatype TaskState = Submitted | Working | Completed | Failed | Canceled

fun state_text :: "TaskState \<Rightarrow> string" where
  "state_text Submitted = ''submitted''"
| "state_text Working = ''working''"
| "state_text Completed = ''completed''"
| "state_text Failed = ''failed''"
| "state_text Canceled = ''canceled''"

definition IsTerminal :: "TaskState \<Rightarrow> bool" where
  "IsTerminal s \<longleftrightarrow> s = Completed \<or> s = Failed \<or> s = Canceled"

record A2APart =
  pt_Type :: string
  pt_Text :: string
  pt_FileURI :: string
  pt_FileMIMEType :: string
  pt_FileBytes :: string
  pt_Data :: "(string, json) gomap option"

record A2AMessage =
  am_Role :: string
  am_Parts :: "A2APart list"
  am_MessageID :: string
  am_ContextID :: string
  am_TaskID :: string
  am_ReferenceTaskIDs :: "string list"

record A2AArtifact =
  af_Parts :: "A2APart list"
  af_Index :: int
  af_LastChunk :: bool

record PushConfig =
  pu_URL :: string
  pu_AuthType :: string
  pu_AuthToken :: string

text \<open>The values the handler puts into the metadata of a task, and what a decoded text gives.\<close>

datatype meta_value = MetaJson json | MetaPush PushConfig | MetaIdentity MCPIdentity

record A2ATask =
  at_ID :: string
  at_ContextID :: string
  at_Status :: TaskState
  at_StatusMessage :: "A2AMessage option"
  at_History :: "A2AMessage list"
  at_Artifacts :: "A2AArtifact list"
  at_Metadata :: "(string, meta_value) gomap"
  at_Model :: string
  at_CreatedAt :: gotime
  at_UpdatedAt :: gotime

definition zero_Part :: A2APart where
  "zero_Part = \<lparr>pt_Type = '''', pt_Text = '''', pt_FileURI = '''', pt_FileMIMEType = '''', pt_FileBytes = '''', pt_Data = None\<rparr>"

definition zero_Message :: A2AMessage where
  "zero_Message = \<lparr>am_Role = '''', am_Parts = [], am_MessageID = '''', am_ContextID = '''', am_TaskID = '''', am_ReferenceTaskIDs = []\<rparr>"

definition zero_Artifact :: A2AArtifact where
  "zero_Artifact = \<lparr>af_Parts = [], af_Index = 0, af_LastChunk = False\<rparr>"

section \<open>JSON\<close>

definition omit_empty :: "('a list \<Rightarrow> json) \<Rightarrow> 'a list \<Rightarrow> json option" where
  "omit_empty f xs = (if xs = [] then None else Some (f xs))"

definition marshal_Part :: "A2APart \<Rightarrow> json" where
  "marshal_Part p = encode_object
     [(''type'', Some (JStr (pt_Type p))), (''text'', omit_string (pt_Text p)), (''fileUri'', omit_string (pt_FileURI p)),
      (''mimeType'', omit_string (pt_FileMIMEType p)), (''bytes'', omit_string (pt_FileBytes p)),
      (''data'', case pt_Data p of None \<Rightarrow> None | Some m \<Rightarrow> omit_empty (\<lambda>m. JObj (map_members m)) m)]"

definition fields_Part :: "(string \<times> A2APart decoder) list" where
  "fields_Part =
     [(''type'', \<lambda>j v. map_option (\<lambda>x. v\<lparr>pt_Type := x\<rparr>) (decode_string j (pt_Type v))),
      (''text'', \<lambda>j v. map_option (\<lambda>x. v\<lparr>pt_Text := x\<rparr>) (decode_string j (pt_Text v))),
      (''fileUri'', \<lambda>j v. map_option (\<lambda>x. v\<lparr>pt_FileURI := x\<rparr>) (decode_string j (pt_FileURI v))),
      (''mimeType'', \<lambda>j v. map_option (\<lambda>x. v\<lparr>pt_FileMIMEType := x\<rparr>) (decode_string j (pt_FileMIMEType v))),
      (''bytes'', \<lambda>j v. map_option (\<lambda>x. v\<lparr>pt_FileBytes := x\<rparr>) (decode_string j (pt_FileBytes v))),
      (''data'', \<lambda>j v. case j of JNull \<Rightarrow> Some (v\<lparr>pt_Data := None\<rparr>) | _ \<Rightarrow> map_option (\<lambda>x. v\<lparr>pt_Data := Some x\<rparr>) (decode_any_map j))]"

definition unmarshal_Part :: "A2APart decoder" where
  "unmarshal_Part = decode_struct fields_Part"

definition marshal_Message :: "A2AMessage \<Rightarrow> json" where
  "marshal_Message m = encode_object
     [(''role'', Some (JStr (am_Role m))), (''parts'', Some (JArr (map marshal_Part (am_Parts m)))),
      (''messageId'', Some (JStr (am_MessageID m))), (''contextId'', omit_string (am_ContextID m)), (''taskId'', omit_string (am_TaskID m)),
      (''referenceTaskIds'', omit_empty (\<lambda>xs. JArr (map JStr xs)) (am_ReferenceTaskIDs m))]"

definition fields_Message :: "(string \<times> A2AMessage decoder) list" where
  "fields_Message =
     [(''role'', \<lambda>j v. map_option (\<lambda>x. v\<lparr>am_Role := x\<rparr>) (decode_string j (am_Role v))),
      (''parts'', \<lambda>j v. map_option (\<lambda>x. v\<lparr>am_Parts := x\<rparr>) (decode_slice unmarshal_Part zero_Part j (am_Parts v))),
      (''messageId'', \<lambda>j v. map_option (\<lambda>x. v\<lparr>am_MessageID := x\<rparr>) (decode_string j (am_MessageID v))),
      (''contextId'', \<lambda>j v. map_option (\<lambda>x. v\<lparr>am_ContextID := x\<rparr>) (decode_string j (am_ContextID v))),
      (''taskId'', \<lambda>j v. map_option (\<lambda>x. v\<lparr>am_TaskID := x\<rparr>) (decode_string j (am_TaskID v))),
      (''referenceTaskIds'', \<lambda>j v. map_option (\<lambda>x. v\<lparr>am_ReferenceTaskIDs := x\<rparr>) (decode_slice decode_string '''' j (am_ReferenceTaskIDs v)))]"

definition unmarshal_Message :: "A2AMessage decoder" where
  "unmarshal_Message = decode_struct fields_Message"

definition marshal_Artifact :: "A2AArtifact \<Rightarrow> json" where
  "marshal_Artifact a = encode_object
     [(''parts'', Some (JArr (map marshal_Part (af_Parts a)))), (''index'', Some (JInt (af_Index a))), (''lastChunk'', omit_bool (af_LastChunk a))]"

definition fields_Artifact :: "(string \<times> A2AArtifact decoder) list" where
  "fields_Artifact =
     [(''parts'', \<lambda>j v. map_option (\<lambda>x. v\<lparr>af_Parts := x\<rparr>) (decode_slice unmarshal_Part zero_Part j (af_Parts v))),
      (''index'', \<lambda>j v. map_option (\<lambda>x. v\<lparr>af_Index := x\<rparr>) (decode_int j (af_Index v))),
      (''lastChunk'', \<lambda>j v. map_option (\<lambda>x. v\<lparr>af_LastChunk := x\<rparr>) (decode_bool j (af_LastChunk v)))]"

definition unmarshal_Artifact :: "A2AArtifact decoder" where
  "unmarshal_Artifact = decode_struct fields_Artifact"

definition marshal_Identity :: "MCPIdentity \<Rightarrow> json" where
  "marshal_Identity i = JObj
     [(''ProjectID'', JStr (mi_ProjectID i)), (''VirtualKeyID'', JStr (mi_VirtualKeyID i)), (''KeyPrefix'', JStr (mi_KeyPrefix i)),
      (''Name'', JStr (mi_Name i)), (''AllowedModels'', JArr (map JStr (mi_AllowedModels i))),
      (''AllowedProviders'', JArr (map JStr (mi_AllowedProviders i))), (''RPMLimit'', JInt (mi_RPMLimit i)), (''TPMLimit'', JInt (mi_TPMLimit i)),
      (''BudgetLimitUSD'', json_float (mi_BudgetLimitUSD i)), (''BudgetPeriod'', JStr (mi_BudgetPeriod i)), (''Source'', JStr (mi_Source i)),
      (''SkipRateLimit'', JBool (mi_SkipRateLimit i)), (''SkipBudget'', JBool (mi_SkipBudget i)), (''SkipUsageLog'', JBool (mi_SkipUsageLog i))]"

definition marshal_PushConfig :: "PushConfig \<Rightarrow> json" where
  "marshal_PushConfig c = encode_object
     [(''url'', Some (JStr (pu_URL c))), (''auth_type'', omit_string (pu_AuthType c)), (''auth_token'', omit_string (pu_AuthToken c))]"

definition fields_PushConfig :: "(string \<times> PushConfig decoder) list" where
  "fields_PushConfig =
     [(''url'', \<lambda>j v. map_option (\<lambda>x. v\<lparr>pu_URL := x\<rparr>) (decode_string j (pu_URL v))),
      (''auth_type'', \<lambda>j v. map_option (\<lambda>x. v\<lparr>pu_AuthType := x\<rparr>) (decode_string j (pu_AuthType v))),
      (''auth_token'', \<lambda>j v. map_option (\<lambda>x. v\<lparr>pu_AuthToken := x\<rparr>) (decode_string j (pu_AuthToken v)))]"

definition zero_PushConfig :: PushConfig where
  "zero_PushConfig = \<lparr>pu_URL = '''', pu_AuthType = '''', pu_AuthToken = ''''\<rparr>"

definition unmarshal_PushConfig :: "PushConfig decoder" where
  "unmarshal_PushConfig = decode_struct fields_PushConfig"

fun marshal_meta :: "meta_value \<Rightarrow> json" where
  "marshal_meta (MetaJson j) = j"
| "marshal_meta (MetaPush c) = marshal_PushConfig c"
| "marshal_meta (MetaIdentity i) = marshal_Identity i"

definition marshal_metadata :: "(string, meta_value) gomap \<Rightarrow> json" where
  "marshal_metadata m = JObj (map_members (map (map_prod (\<lambda>k. k) marshal_meta) m))"

fun unmarshal_metadata :: "json \<Rightarrow> (string, meta_value) gomap option" where
  "unmarshal_metadata JNull = Some []"
| "unmarshal_metadata j = map_option (map (map_prod (\<lambda>k. k) MetaJson)) (decode_any_map j)"

section \<open>The stores\<close>

datatype task_error = ErrTaskNotFound | ErrMaxTasksReached | ErrDuplicateTask | StoreError string

fun task_error_text :: "task_error \<Rightarrow> string" where
  "task_error_text ErrTaskNotFound = ''task not found''"
| "task_error_text ErrMaxTasksReached = ''maximum number of tasks reached''"
| "task_error_text ErrDuplicateTask = ''task already exists''"
| "task_error_text (StoreError s) = s"

type_synonym task_heap = "A2ATask list"

definition task_alloc :: "A2ATask \<Rightarrow> task_heap \<Rightarrow> nat \<times> task_heap" where
  "task_alloc t hp = (length hp, hp @ [t])"

definition task_change :: "nat \<Rightarrow> (A2ATask \<Rightarrow> A2ATask) \<Rightarrow> task_heap \<Rightarrow> task_heap" where
  "task_change a f hp = hp[a := f (hp ! a)]"

record TaskListFilter =
  tf_Status :: string
  tf_ContextID :: string
  tf_Limit :: int
  tf_Offset :: int

definition clamp_filter :: "TaskListFilter \<Rightarrow> TaskListFilter" where
  "clamp_filter f =
     (let f = (if tf_Limit f \<le> 0 then f\<lparr>tf_Limit := 50\<rparr> else f);
          f = (if 100 < tf_Limit f then f\<lparr>tf_Limit := 100\<rparr> else f)
      in if tf_Offset f < 0 then f\<lparr>tf_Offset := 0\<rparr> else f)"

subsection \<open>In memory\<close>

record MemoryTaskStore =
  mt_tasks :: "(string, nat) gomap"
  mt_maxTasks :: int
  mt_ttl :: duration

definition NewMemoryTaskStore :: "int \<Rightarrow> duration \<Rightarrow> MemoryTaskStore" where
  "NewMemoryTaskStore maxTasks ttl =
     \<lparr>mt_tasks = [], mt_maxTasks = (if maxTasks \<le> 0 then 10000 else maxTasks), mt_ttl = (if ttl \<le> 0 then 3600 * time_Second else ttl)\<rparr>"

definition Memory_Create :: "nat \<Rightarrow> task_heap \<Rightarrow> MemoryTaskStore \<Rightarrow> task_error option \<times> MemoryTaskStore" where
  "Memory_Create a hp ts =
     (if mt_maxTasks ts \<le> int (gm_len (mt_tasks ts)) then (Some ErrMaxTasksReached, ts)
      else if gm_get (mt_tasks ts) (at_ID (hp ! a)) \<noteq> None then (Some ErrDuplicateTask, ts)
      else (None, ts\<lparr>mt_tasks := gm_set (at_ID (hp ! a)) a (mt_tasks ts)\<rparr>))"

definition Memory_Get :: "string \<Rightarrow> MemoryTaskStore \<Rightarrow> nat option" where
  "Memory_Get i ts = gm_get (mt_tasks ts) i"

definition Memory_Update :: "gotime \<Rightarrow> nat \<Rightarrow> task_heap \<Rightarrow> MemoryTaskStore \<Rightarrow> task_heap \<times> MemoryTaskStore" where
  "Memory_Update now a hp ts =
     (task_change a (\<lambda>t. t\<lparr>at_UpdatedAt := now\<rparr>) hp, ts\<lparr>mt_tasks := gm_set (at_ID (hp ! a)) a (mt_tasks ts)\<rparr>)"

definition task_matches :: "TaskListFilter \<Rightarrow> A2ATask \<Rightarrow> bool" where
  "task_matches f t \<longleftrightarrow> (tf_Status f = '''' \<or> state_text (at_Status t) = tf_Status f) \<and> (tf_ContextID f = '''' \<or> at_ContextID t = tf_ContextID f)"

definition Memory_List :: "TaskListFilter \<Rightarrow> task_heap \<Rightarrow> MemoryTaskStore \<Rightarrow> nat list \<times> nat" where
  "Memory_List f hp ts =
     (let f = clamp_filter f;
          matched = filter (\<lambda>a. task_matches f (hp ! a)) (map snd (mt_tasks ts))
      in (take (nat (tf_Limit f)) (drop (nat (tf_Offset f)) matched), length matched))"

definition Memory_Delete :: "string \<Rightarrow> MemoryTaskStore \<Rightarrow> task_error option \<times> MemoryTaskStore" where
  "Memory_Delete i ts =
     (if gm_get (mt_tasks ts) i = None then (Some ErrTaskNotFound, ts) else (None, ts\<lparr>mt_tasks := gm_delete i (mt_tasks ts)\<rparr>))"

definition Memory_Len :: "MemoryTaskStore \<Rightarrow> nat" where
  "Memory_Len ts = gm_len (mt_tasks ts)"

definition evictExpired :: "gotime \<Rightarrow> task_heap \<Rightarrow> MemoryTaskStore \<Rightarrow> MemoryTaskStore" where
  "evictExpired now hp ts = ts\<lparr>mt_tasks := gm_prune (\<lambda>a. mt_ttl ts < time_Sub now (at_UpdatedAt (hp ! a))) (mt_tasks ts)\<rparr>"

subsection \<open>In the database\<close>

record task_row =
  tr_id :: string
  tr_context_id :: string
  tr_status :: TaskState
  tr_history :: json
  tr_artifacts :: json
  tr_metadata :: json
  tr_status_message :: "json option"
  tr_model :: string
  tr_created_at :: gotime
  tr_updated_at :: gotime

definition task_columns :: "A2ATask \<Rightarrow> task_row \<Rightarrow> task_row" where
  "task_columns t r = r\<lparr>tr_status := at_Status t, tr_history := JArr (map marshal_Message (at_History t)),
     tr_artifacts := JArr (map marshal_Artifact (at_Artifacts t)), tr_metadata := marshal_metadata (at_Metadata t),
     tr_status_message := map_option marshal_Message (at_StatusMessage t), tr_model := at_Model t\<rparr>"

definition Persistent_Create :: "(gotime \<Rightarrow> gotime) \<Rightarrow> A2ATask \<Rightarrow> task_row list option \<Rightarrow> task_error option \<times> task_row list option" where
  "Persistent_Create pg t db =
     (case db of
        None \<Rightarrow> (Some (StoreError ''insert task''), None)
      | Some rows \<Rightarrow>
          if list_ex (\<lambda>r. tr_id r = at_ID t) rows then (Some ErrDuplicateTask, Some rows)
          else (None, Some (rows @ [task_columns t \<lparr>tr_id = at_ID t, tr_context_id = at_ContextID t, tr_status = at_Status t,
            tr_history = JNull, tr_artifacts = JNull, tr_metadata = JNull, tr_status_message = None, tr_model = '''',
            tr_created_at = pg (at_CreatedAt t), tr_updated_at = pg (at_CreatedAt t)\<rparr>])))"

definition scanTask :: "task_row \<Rightarrow> A2ATask option" where
  "scanTask r = do {
     history \<leftarrow> decode_slice unmarshal_Message zero_Message (tr_history r) [];
     artifacts \<leftarrow> decode_slice unmarshal_Artifact zero_Artifact (tr_artifacts r) [];
     metadata \<leftarrow> unmarshal_metadata (tr_metadata r);
     statusMessage \<leftarrow> (case tr_status_message r of None \<Rightarrow> Some None | Some j \<Rightarrow> map_option Some (unmarshal_Message j zero_Message));
     Some \<lparr>at_ID = tr_id r, at_ContextID = tr_context_id r, at_Status = tr_status r, at_StatusMessage = statusMessage, at_History = history,
       at_Artifacts = artifacts, at_Metadata = metadata, at_Model = tr_model r, at_CreatedAt = tr_created_at r, at_UpdatedAt = tr_updated_at r\<rparr>
   }"

definition Persistent_Get :: "string \<Rightarrow> task_row list option \<Rightarrow> A2ATask option" where
  "Persistent_Get i db =
     (case db of None \<Rightarrow> None | Some rows \<Rightarrow> (case find (\<lambda>r. tr_id r = i) rows of None \<Rightarrow> None | Some r \<Rightarrow> scanTask r))"

definition Persistent_Update :: "gotime \<Rightarrow> A2ATask \<Rightarrow> task_row list option \<Rightarrow> task_error option \<times> task_row list option" where
  "Persistent_Update now t db =
     (case db of
        None \<Rightarrow> (Some (StoreError ''update task''), None)
      | Some rows \<Rightarrow>
          if list_ex (\<lambda>r. tr_id r = at_ID t) rows
          then (None, Some (map (\<lambda>r. if tr_id r = at_ID t then (task_columns t r)\<lparr>tr_updated_at := now\<rparr> else r) rows))
          else (Some ErrTaskNotFound, Some rows))"

fun insert_by_update :: "task_row \<Rightarrow> task_row list \<Rightarrow> task_row list" where
  "insert_by_update r [] = [r]"
| "insert_by_update r (x # xs) = (if tr_updated_at x < tr_updated_at r then r # x # xs else x # insert_by_update r xs)"

definition row_matches :: "TaskListFilter \<Rightarrow> task_row \<Rightarrow> bool" where
  "row_matches f r \<longleftrightarrow> (tf_Status f = '''' \<or> state_text (tr_status r) = tf_Status f) \<and> (tf_ContextID f = '''' \<or> tr_context_id r = tf_ContextID f)"

definition Persistent_List :: "TaskListFilter \<Rightarrow> task_row list option \<Rightarrow> task_error + A2ATask list \<times> nat" where
  "Persistent_List f db =
     (case db of
        None \<Rightarrow> Inl (StoreError ''count tasks'')
      | Some rows \<Rightarrow>
          let f = clamp_filter f;
              matched = filter (row_matches f) rows
          in (case those (map scanTask (take (nat (tf_Limit f)) (drop (nat (tf_Offset f)) (fold insert_by_update matched [])))) of
                None \<Rightarrow> Inl (StoreError ''scan task'')
              | Some tasks \<Rightarrow> Inr (tasks, length matched)))"

definition Persistent_Delete :: "string \<Rightarrow> task_row list option \<Rightarrow> task_error option \<times> task_row list option" where
  "Persistent_Delete i db =
     (case db of
        None \<Rightarrow> (Some (StoreError ''delete task''), None)
      | Some rows \<Rightarrow>
          if list_ex (\<lambda>r. tr_id r = i) rows then (None, Some (filter (\<lambda>r. tr_id r \<noteq> i) rows)) else (Some ErrTaskNotFound, Some rows))"

definition Persistent_RecoverStale :: "gotime \<Rightarrow> task_row list option \<Rightarrow> (task_error + nat) \<times> task_row list option" where
  "Persistent_RecoverStale now db =
     (case db of
        None \<Rightarrow> (Inl (StoreError ''recover stale tasks''), None)
      | Some rows \<Rightarrow>
          (Inr (length (filter (\<lambda>r. tr_status r \<in> {Submitted, Working}) rows)),
           Some (map (\<lambda>r. if tr_status r \<in> {Submitted, Working}
             then r\<lparr>tr_status := Failed, tr_status_message := Some (JObj [(''error'', JStr ''server restart'')]), tr_updated_at := now\<rparr>
             else r) rows)))"

section \<open>The notifier\<close>

text \<open>A channel is its buffer and whether it is closed; sending on a closed channel and closing one twice panic.\<close>

record notify_chan =
  nc_buf :: "nat list"
  nc_closed :: bool

record TaskNotifier =
  tn_watchers :: "(string, nat list) gomap"
  tn_chans :: "notify_chan list"
  tn_closed :: bool

definition NewTaskNotifier :: TaskNotifier where
  "NewTaskNotifier = \<lparr>tn_watchers = [], tn_chans = [], tn_closed = False\<rparr>"

definition watchers_of :: "string \<Rightarrow> TaskNotifier \<Rightarrow> nat list" where
  "watchers_of i n = (case gm_get (tn_watchers n) i of None \<Rightarrow> [] | Some chs \<Rightarrow> chs)"

definition Subscribe :: "string \<Rightarrow> TaskNotifier \<Rightarrow> nat \<times> TaskNotifier" where
  "Subscribe taskID n =
     (let ch = length (tn_chans n)
      in if tn_closed n then (ch, n\<lparr>tn_chans := tn_chans n @ [\<lparr>nc_buf = [], nc_closed = True\<rparr>]\<rparr>)
         else (ch, n\<lparr>tn_chans := tn_chans n @ [\<lparr>nc_buf = [], nc_closed = False\<rparr>],
                     tn_watchers := gm_set taskID (watchers_of taskID n @ [ch]) (tn_watchers n)\<rparr>))"

definition send_latest :: "nat \<Rightarrow> notify_chan \<Rightarrow> notify_chan option" where
  "send_latest a ch =
     (if nc_closed ch then None
      else if length (nc_buf ch) < 8 then Some (ch\<lparr>nc_buf := nc_buf ch @ [a]\<rparr>)
      else let ch = ch\<lparr>nc_buf := tl (nc_buf ch)\<rparr>
           in Some (if length (nc_buf ch) < 8 then ch\<lparr>nc_buf := nc_buf ch @ [a]\<rparr> else ch))"

fun send_all :: "nat \<Rightarrow> nat list \<Rightarrow> notify_chan list \<Rightarrow> notify_chan list option" where
  "send_all a [] chans = Some chans"
| "send_all a (c # cs) chans = do { ch \<leftarrow> send_latest a (chans ! c); send_all a cs (chans[c := ch]) }"

definition Notifier_Notify :: "string \<Rightarrow> nat \<Rightarrow> TaskNotifier \<Rightarrow> TaskNotifier option" where
  "Notifier_Notify taskID a n =
     (if tn_closed n then Some n
      else map_option (\<lambda>chans. n\<lparr>tn_chans := chans\<rparr>) (send_all a (watchers_of taskID n) (tn_chans n)))"

definition close_chan :: "nat \<Rightarrow> notify_chan list \<Rightarrow> notify_chan list option" where
  "close_chan c chans = (if nc_closed (chans ! c) then None else Some (chans[c := (chans ! c)\<lparr>nc_closed := True\<rparr>]))"

definition Unsubscribe :: "string \<Rightarrow> nat \<Rightarrow> TaskNotifier \<Rightarrow> TaskNotifier option" where
  "Unsubscribe taskID ch n = do {
     n \<leftarrow> (if ch \<in> set (watchers_of taskID n)
           then map_option (\<lambda>chans. n\<lparr>tn_chans := chans, tn_watchers := gm_set taskID (remove1 ch (watchers_of taskID n)) (tn_watchers n)\<rparr>)
                  (close_chan ch (tn_chans n))
           else Some n);
     Some (if watchers_of taskID n = [] then n\<lparr>tn_watchers := gm_delete taskID (tn_watchers n)\<rparr> else n)
   }"

fun close_all :: "nat list \<Rightarrow> notify_chan list \<Rightarrow> notify_chan list option" where
  "close_all [] chans = Some chans"
| "close_all (c # cs) chans = do { chans \<leftarrow> close_chan c chans; close_all cs chans }"

definition Notifier_Close :: "TaskNotifier \<Rightarrow> TaskNotifier option" where
  "Notifier_Close n =
     map_option (\<lambda>chans. n\<lparr>tn_closed := True, tn_chans := chans, tn_watchers := []\<rparr>)
       (close_all (concat (map snd (tn_watchers n))) (tn_chans n))"

text \<open>A subscriber takes the oldest update out of its channel.\<close>

definition Notifier_Receive :: "nat \<Rightarrow> TaskNotifier \<Rightarrow> nat option \<times> TaskNotifier" where
  "Notifier_Receive c n =
     (case nc_buf (tn_chans n ! c) of
        [] \<Rightarrow> (None, n)
      | a # as \<Rightarrow> (Some a, n\<lparr>tn_chans := (tn_chans n)[c := (tn_chans n ! c)\<lparr>nc_buf := as\<rparr>]\<rparr>))"

section \<open>No send on a closed channel\<close>

definition open_chan :: "notify_chan list \<Rightarrow> nat \<Rightarrow> bool" where
  "open_chan chans c \<longleftrightarrow> c < length chans \<and> \<not> nc_closed (chans ! c)"

text \<open>The channels registered for updates are open, and none is registered twice; no buffer holds more than eight updates.\<close>

definition notifier_inv :: "TaskNotifier \<Rightarrow> bool" where
  "notifier_inv n \<longleftrightarrow> gm_ok (tn_watchers n) \<and> (tn_closed n \<longrightarrow> tn_watchers n = [])
     \<and> (\<forall>i. distinct (watchers_of i n)) \<and> (\<forall>i j. i \<noteq> j \<longrightarrow> set (watchers_of i n) \<inter> set (watchers_of j n) = {})
     \<and> (\<forall>i. \<forall>c \<in> set (watchers_of i n). open_chan (tn_chans n) c)
     \<and> (\<forall>ch \<in> set (tn_chans n). length (nc_buf ch) \<le> 8)"

definition latest :: "nat \<Rightarrow> notify_chan \<Rightarrow> notify_chan" where
  "latest a ch = ch\<lparr>nc_buf := drop (length (nc_buf ch) - 7) (nc_buf ch @ [a])\<rparr>"

lemma send_latest_open:
  "\<not> nc_closed ch \<Longrightarrow> length (nc_buf ch) \<le> 8 \<Longrightarrow> send_latest a ch = Some (latest a ch)"
  by (cases "nc_buf ch") (auto simp: send_latest_def latest_def Let_def)

lemma latest_props [simp]: "nc_closed (latest a ch) = nc_closed ch" "length (nc_buf ch) \<le> 8 \<Longrightarrow> length (nc_buf (latest a ch)) \<le> 8"
  by (auto simp: latest_def)

lemma send_all_open:
  assumes "distinct cs" and "\<forall>c \<in> set cs. open_chan chans c" and "\<forall>ch \<in> set chans. length (nc_buf ch) \<le> 8"
  shows "\<exists>chans'. send_all a cs chans = Some chans' \<and> length chans' = length chans
    \<and> (\<forall>c < length chans. chans' ! c = (if c \<in> set cs then latest a (chans ! c) else chans ! c))"
  using assms
proof (induction cs arbitrary: chans)
  case (Cons c cs)
  have c: "c < length chans" "\<not> nc_closed (chans ! c)" "length (nc_buf (chans ! c)) \<le> 8"
    using Cons.prems by (auto simp: open_chan_def)
  let ?chans = "chans[c := latest a (chans ! c)]"
  have b: "\<forall>ch \<in> set ?chans. length (nc_buf ch) \<le> 8"
    using Cons.prems(3) c(3) set_update_subset_insert [of chans c "latest a (chans ! c)"] by fastforce
  have o: "\<forall>d \<in> set cs. open_chan ?chans d" using Cons.prems(1,2) by (auto simp: open_chan_def nth_list_update)
  from Cons.IH [OF _ o b] Cons.prems(1) obtain chans' where ch: "send_all a cs ?chans = Some chans'" "length chans' = length chans"
    "\<forall>d < length chans. chans' ! d = (if d \<in> set cs then latest a (?chans ! d) else ?chans ! d)" by auto
  moreover have "send_all a (c # cs) chans = Some chans'" using ch(1) send_latest_open [OF c(2,3)] by simp
  ultimately show ?case using Cons.prems(1) c(1) by (intro exI [of _ chans']) (auto simp: nth_list_update)
qed simp

lemma close_all_open:
  assumes "distinct cs" and "\<forall>c \<in> set cs. open_chan chans c"
  shows "\<exists>chans'. close_all cs chans = Some chans' \<and> map nc_buf chans' = map nc_buf chans"
  using assms
proof (induction cs arbitrary: chans)
  case (Cons c cs)
  then have "close_chan c chans = Some (chans[c := (chans ! c)\<lparr>nc_closed := True\<rparr>])" by (simp add: close_chan_def open_chan_def)
  moreover have "\<forall>d \<in> set cs. open_chan (chans[c := (chans ! c)\<lparr>nc_closed := True\<rparr>]) d"
    using Cons.prems by (auto simp: open_chan_def nth_list_update)
  moreover have "map nc_buf (chans[c := (chans ! c)\<lparr>nc_closed := True\<rparr>]) = map nc_buf chans"
    using Cons.prems(2) by (simp add: map_update open_chan_def list_update_same_conv)
  ultimately show ?case using Cons.IH [of "chans[c := (chans ! c)\<lparr>nc_closed := True\<rparr>]"] Cons.prems(1) by auto
qed simp

lemma watchers_mem: "gm_ok (tn_watchers n) \<Longrightarrow> (i, chs) \<in> set (tn_watchers n) \<Longrightarrow> watchers_of i n = chs"
  using map_of_is_SomeI [of "tn_watchers n" i chs] by (simp add: watchers_of_def gm_get_def gm_ok_def)

lemma all_watchers:
  assumes "notifier_inv n"
  shows "distinct (concat (map snd (tn_watchers n)))" and "\<forall>c \<in> set (concat (map snd (tn_watchers n))). open_chan (tn_chans n) c"
proof -
  have ok: "gm_ok (tn_watchers n)" and d: "\<And>i. distinct (watchers_of i n)"
    and x: "\<And>i j. i \<noteq> j \<Longrightarrow> set (watchers_of i n) \<inter> set (watchers_of j n) = {}"
    and o: "\<And>i c. c \<in> set (watchers_of i n) \<Longrightarrow> open_chan (tn_chans n) c"
    using assms unfolding notifier_inv_def by blast+
  show "\<forall>c \<in> set (concat (map snd (tn_watchers n))). open_chan (tn_chans n) c" using watchers_mem [OF ok] o by force
  have "distinct (concat (map snd m))" if "set m \<subseteq> set (tn_watchers n)" "distinct (map fst m)" for m
    using that
  proof (induction m)
    case (Cons p m)
    obtain i chs where p: "p = (i, chs)" by force
    have "chs = watchers_of i n" using Cons.prems(1) p watchers_mem [OF ok] by force
    moreover have "set chs \<inter> set ds = {}" if "(j, ds) \<in> set m" for j ds
    proof -
      have "j \<noteq> i" using Cons.prems(2) p that by force
      moreover have "ds = watchers_of j n" using Cons.prems(1) that watchers_mem [OF ok] by force
      ultimately show ?thesis using x [of i j] \<open>chs = watchers_of i n\<close> by simp
    qed
    ultimately show ?case using Cons p d by fastforce
  qed simp
  with ok show "distinct (concat (map snd (tn_watchers n)))" by (simp add: gm_ok_def)
qed

text \<open>What clients do with a notifier, in any order.\<close>

datatype notify_op = NSubscribe string | NNotify string nat | NUnsubscribe string nat | NReceive nat | NClose

definition notify_step :: "notify_op \<Rightarrow> TaskNotifier \<Rightarrow> TaskNotifier option" where
  "notify_step op n =
     (case op of
        NSubscribe i \<Rightarrow> Some (snd (Subscribe i n))
      | NNotify i a \<Rightarrow> Notifier_Notify i a n
      | NUnsubscribe i c \<Rightarrow> Unsubscribe i c n
      | NReceive c \<Rightarrow> Some (if c < length (tn_chans n) then snd (Notifier_Receive c n) else n)
      | NClose \<Rightarrow> Notifier_Close n)"

fun notify_run :: "notify_op list \<Rightarrow> TaskNotifier \<Rightarrow> TaskNotifier option" where
  "notify_run [] n = Some n"
| "notify_run (op # ops) n = notify_step op n \<bind> notify_run ops"

lemma watchers_of_set: "tn_watchers n' = gm_set i chs (tn_watchers n) \<Longrightarrow> watchers_of j n' = (if j = i then chs else watchers_of j n)"
  by (simp add: watchers_of_def gomap_simps)

lemma watchers_of_frame: "tn_watchers n' = tn_watchers n \<Longrightarrow> watchers_of j n' = watchers_of j n"
  by (simp add: watchers_of_def)

lemma Subscribe_inv: "notifier_inv n \<Longrightarrow> notifier_inv (snd (Subscribe i n))"
proof (cases "tn_closed n")
  case True
  assume inv: "notifier_inv n"
  with True show ?thesis by (auto simp: Subscribe_def Let_def notifier_inv_def watchers_of_def)
next
  case False
  assume inv: "notifier_inv n"
  let ?n = "snd (Subscribe i n)"
  have w: "watchers_of j ?n = (if j = i then watchers_of i n @ [length (tn_chans n)] else watchers_of j n)" for j
    using False by (intro watchers_of_set) (simp add: Subscribe_def Let_def)
  have old: "open_chan (tn_chans n) c" if "c \<in> set (watchers_of j n)" for j c using inv that by (auto simp: notifier_inv_def)
  have fresh: "length (tn_chans n) \<notin> set (watchers_of j n)" for j using old by (auto simp: open_chan_def)
  have grow: "open_chan (tn_chans ?n) c" if "open_chan (tn_chans n) c" for c
    using False that by (auto simp: Subscribe_def Let_def open_chan_def nth_append)
  have "open_chan (tn_chans ?n) (length (tn_chans n))" using False by (simp add: Subscribe_def Let_def open_chan_def)
  with old grow have o: "\<forall>j. \<forall>c \<in> set (watchers_of j ?n). open_chan (tn_chans ?n) c" by (auto simp: w)
  have "\<forall>j. distinct (watchers_of j ?n)" "\<forall>j k. j \<noteq> k \<longrightarrow> set (watchers_of j ?n) \<inter> set (watchers_of k ?n) = {}"
    using inv fresh by (auto simp: w notifier_inv_def)
  with o inv False show ?thesis by (auto simp: notifier_inv_def Subscribe_def Let_def)
qed

lemma chans_inv:
  assumes "notifier_inv n" and "length chans = length (tn_chans n)" and "\<forall>c < length chans. nc_closed (chans ! c) = nc_closed (tn_chans n ! c)"
    and "\<forall>c < length chans. length (nc_buf (chans ! c)) \<le> 8"
  shows "notifier_inv (n\<lparr>tn_chans := chans\<rparr>)"
proof -
  have w: "watchers_of j (n\<lparr>tn_chans := chans\<rparr>) = watchers_of j n" for j by (simp add: watchers_of_def)
  have "open_chan chans c = open_chan (tn_chans n) c" for c using assms(2,3) by (auto simp: open_chan_def)
  with assms(1,4) show ?thesis by (auto simp: notifier_inv_def w in_set_conv_nth)
qed

lemma Notify_inv:
  assumes "notifier_inv n"
  shows "\<exists>n'. Notifier_Notify i a n = Some n' \<and> notifier_inv n'"
proof (cases "tn_closed n")
  case False
  have b: "\<forall>ch \<in> set (tn_chans n). length (nc_buf ch) \<le> 8" using assms by (simp add: notifier_inv_def)
  obtain chans where ch: "send_all a (watchers_of i n) (tn_chans n) = Some chans" "length chans = length (tn_chans n)"
    "\<forall>c < length (tn_chans n). chans ! c = (if c \<in> set (watchers_of i n) then latest a (tn_chans n ! c) else tn_chans n ! c)"
    using send_all_open [of "watchers_of i n" "tn_chans n" a] assms by (auto simp: notifier_inv_def)
  have "notifier_inv (n\<lparr>tn_chans := chans\<rparr>)" using ch b by (intro chans_inv [OF assms]) auto
  with False ch(1) show ?thesis by (simp add: Notifier_Notify_def)
qed (simp add: Notifier_Notify_def assms)

lemma Unsubscribe_inv:
  assumes "notifier_inv n"
  shows "\<exists>n'. Unsubscribe i c n = Some n' \<and> notifier_inv n'"
proof -
  have drop: "notifier_inv (if watchers_of i m = [] then m\<lparr>tn_watchers := gm_delete i (tn_watchers m)\<rparr> else m)" if "notifier_inv m" for m
  proof (cases "watchers_of i m = []")
    case True
    have "watchers_of j (m\<lparr>tn_watchers := gm_delete i (tn_watchers m)\<rparr>) = watchers_of j m" for j
      using True by (auto simp: watchers_of_def gomap_simps)
    moreover have "gm_delete i [] = ([] :: (string, nat list) gomap)" by (simp add: gm_delete_def)
    ultimately show ?thesis using that True by (auto simp: notifier_inv_def)
  qed (use that in simp)
  show ?thesis
  proof (cases "c \<in> set (watchers_of i n)")
    case False
    with assms drop show ?thesis by (simp add: Unsubscribe_def)
  next
    case True
    let ?chans = "(tn_chans n)[c := (tn_chans n ! c)\<lparr>nc_closed := True\<rparr>]"
    let ?m = "n\<lparr>tn_chans := ?chans, tn_watchers := gm_set i (remove1 c (watchers_of i n)) (tn_watchers n)\<rparr>"
    have o: "open_chan (tn_chans n) d" if "d \<in> set (watchers_of j n)" for j d using assms that by (auto simp: notifier_inv_def)
    have dist: "distinct (watchers_of j n)" for j using assms by (simp add: notifier_inv_def)
    have disj: "j \<noteq> i \<Longrightarrow> c \<notin> set (watchers_of j n)" for j using assms True by (auto simp: notifier_inv_def)
    have w: "watchers_of j ?m = (if j = i then remove1 c (watchers_of i n) else watchers_of j n)" for j by (rule watchers_of_set) simp
    have gone: "c \<notin> set (watchers_of j ?m)" for j using dist disj by (auto simp: w)
    have sub: "set (watchers_of j ?m) \<subseteq> set (watchers_of j n)" for j using set_remove1_subset [of c "watchers_of i n"] by (auto simp: w)
    have "\<forall>j. \<forall>d \<in> set (watchers_of j ?m). open_chan ?chans d"
    proof (intro allI ballI)
      fix j d
      assume d: "d \<in> set (watchers_of j ?m)"
      then have "d \<noteq> c" using gone by blast
      moreover have "open_chan (tn_chans n) d" using o sub d by blast
      ultimately show "open_chan ?chans d" by (simp add: open_chan_def)
    qed
    moreover have "\<forall>ch \<in> set ?chans. length (nc_buf ch) \<le> 8"
    proof
      fix ch assume "ch \<in> set ?chans"
      then have "ch \<in> set (tn_chans n) \<or> ch = (tn_chans n ! c)\<lparr>nc_closed := True\<rparr>" using set_update_subset_insert by fastforce
      moreover have "tn_chans n ! c \<in> set (tn_chans n)" using o [OF True] by (simp add: open_chan_def)
      ultimately show "length (nc_buf ch) \<le> 8" using assms by (auto simp: notifier_inv_def)
    qed
    moreover have "\<forall>j. distinct (watchers_of j ?m)" using dist by (simp add: w)
    moreover have "\<forall>j k. j \<noteq> k \<longrightarrow> set (watchers_of j ?m) \<inter> set (watchers_of k ?m) = {}"
      using assms set_remove1_subset [of c "watchers_of i n"] by (auto simp: w notifier_inv_def split: if_splits)
    moreover have "\<not> tn_closed n" using assms True by (auto simp: notifier_inv_def watchers_of_def)
    ultimately have "notifier_inv ?m" using assms by (simp add: notifier_inv_def)
    with drop have "notifier_inv (if watchers_of i ?m = [] then ?m\<lparr>tn_watchers := gm_delete i (tn_watchers ?m)\<rparr> else ?m)" by blast
    moreover have "close_chan c (tn_chans n) = Some ?chans" using o [OF True] by (simp add: close_chan_def open_chan_def)
    ultimately show ?thesis using True unfolding Unsubscribe_def by simp
  qed
qed

lemma Close_inv:
  assumes "notifier_inv n"
  shows "\<exists>n'. Notifier_Close n = Some n' \<and> notifier_inv n'"
proof -
  obtain chans where ch: "close_all (concat (map snd (tn_watchers n))) (tn_chans n) = Some chans" "map nc_buf chans = map nc_buf (tn_chans n)"
    using close_all_open [OF all_watchers [OF assms]] by blast
  have "length (nc_buf c) \<le> 8" if "c \<in> set chans" for c
  proof -
    have "nc_buf c \<in> nc_buf ` set (tn_chans n)" using that ch(2) by (metis image_eqI list.set_map)
    with assms show ?thesis by (auto simp: notifier_inv_def)
  qed
  with ch(1) show ?thesis by (simp add: Notifier_Close_def notifier_inv_def watchers_of_def)
qed

lemma Receive_inv:
  assumes "notifier_inv n" and "c < length (tn_chans n)"
  shows "notifier_inv (snd (Notifier_Receive c n))"
proof (cases "nc_buf (tn_chans n ! c)")
  case (Cons a as)
  have b: "length (nc_buf (tn_chans n ! d)) \<le> 8" if "d < length (tn_chans n)" for d using assms that by (auto simp: notifier_inv_def)
  have "length as \<le> 8" using b [OF assms(2)] Cons by simp
  then have "notifier_inv (n\<lparr>tn_chans := (tn_chans n)[c := (tn_chans n ! c)\<lparr>nc_buf := as\<rparr>]\<rparr>)"
    using b assms(2) by (intro chans_inv [OF assms(1)]) (auto simp: nth_list_update)
  with Cons show ?thesis by (simp add: Notifier_Receive_def)
qed (simp add: Notifier_Receive_def assms)

lemma notify_step_inv: "notifier_inv n \<Longrightarrow> \<exists>n'. notify_step op n = Some n' \<and> notifier_inv n'"
  by (cases op) (simp_all add: notify_step_def Subscribe_inv Notify_inv Unsubscribe_inv Close_inv Receive_inv)

lemma notify_run_inv: "notifier_inv n \<Longrightarrow> \<exists>n'. notify_run ops n = Some n' \<and> notifier_inv n'"
proof (induction ops arbitrary: n)
  case (Cons op ops)
  from notify_step_inv [OF Cons.prems] obtain m where "notify_step op n = Some m" "notifier_inv m" by blast
  with Cons.IH show ?case by simp
qed simp

text \<open>C17. Whatever its clients do, the notifier never sends on a closed channel and never closes one twice, and no channel holds more than eight updates;
  a further update of a task reaches every subscriber, behind the seven before it.\<close>

theorem notifier_safe:
  "\<exists>n. notify_run ops NewTaskNotifier = Some n \<and> list_all (\<lambda>ch. length (nc_buf ch) \<le> 8) (tn_chans n)
     \<and> (\<exists>n'. Notifier_Notify i a n = Some n'
          \<and> list_all (\<lambda>c. tn_chans n' ! c =
                (if \<not> tn_closed n \<and> c \<in> set (watchers_of i n) then latest a (tn_chans n ! c) else tn_chans n ! c)) [0..<length (tn_chans n)])"
proof -
  have "notifier_inv NewTaskNotifier" by (simp add: notifier_inv_def NewTaskNotifier_def watchers_of_def)
  from notify_run_inv [OF this] obtain n where n: "notify_run ops NewTaskNotifier = Some n" and inv: "notifier_inv n" by blast
  have "\<exists>n'. Notifier_Notify i a n = Some n' \<and> (\<forall>c < length (tn_chans n). tn_chans n' ! c =
      (if \<not> tn_closed n \<and> c \<in> set (watchers_of i n) then latest a (tn_chans n ! c) else tn_chans n ! c))"
    using send_all_open [of "watchers_of i n" "tn_chans n" a] inv by (auto simp: Notifier_Notify_def notifier_inv_def)
  then obtain n' where "Notifier_Notify i a n = Some n'" "\<forall>c < length (tn_chans n). tn_chans n' ! c =
      (if \<not> tn_closed n \<and> c \<in> set (watchers_of i n) then latest a (tn_chans n ! c) else tn_chans n ! c)" by blast
  moreover have "list_all (\<lambda>ch. length (nc_buf ch) \<le> 8) (tn_chans n)" using inv by (auto simp: notifier_inv_def list_all_length)
  ultimately show ?thesis using n by (intro exI [of _ n] conjI exI [of _ n']) (simp_all add: list_all_iff)
qed

section \<open>What the database gives back\<close>

text \<open>Data that is the decoding of some JSON text, which is what requests bring in.\<close>

definition data_ok :: "(string, json) gomap \<Rightarrow> bool" where
  "data_ok m \<longleftrightarrow> m \<noteq> [] \<and> map_members m = m \<and> decode_any_map (JObj m) = Some m"

definition part_ok :: "A2APart \<Rightarrow> bool" where
  "part_ok p \<longleftrightarrow> (case pt_Data p of None \<Rightarrow> True | Some m \<Rightarrow> data_ok m)"

definition message_ok :: "A2AMessage \<Rightarrow> bool" where
  "message_ok m \<longleftrightarrow> list_all part_ok (am_Parts m)"

definition artifact_ok :: "A2AArtifact \<Rightarrow> bool" where
  "artifact_ok a \<longleftrightarrow> list_all part_ok (af_Parts a) \<and> in_int64 (af_Index a)"

definition task_ok :: "A2ATask \<Rightarrow> bool" where
  "task_ok t \<longleftrightarrow> list_all message_ok (at_History t) \<and> list_all artifact_ok (at_Artifacts t)
     \<and> (case at_StatusMessage t of None \<Rightarrow> True | Some m \<Rightarrow> message_ok m)"

lemma part_decodes:
  assumes "part_ok p"
  shows "unmarshal_Part (marshal_Part p) zero_Part = Some p"
proof -
  have 1: "decode_member fields_Part ''type'' (Some (JStr x)) v = Some (v\<lparr>pt_Type := x\<rparr>)" for x v
    by (simp add: decode_member_def find_field_def fields_Part_def)
  have 2: "pt_Text v = '''' \<Longrightarrow> decode_member fields_Part ''text'' (omit_string x) v = Some (v\<lparr>pt_Text := x\<rparr>)" for x v
    by (rule member_string [where sel = pt_Text]) (simp_all add: find_field_def fields_Part_def)
  have 3: "pt_FileURI v = '''' \<Longrightarrow> decode_member fields_Part ''fileUri'' (omit_string x) v = Some (v\<lparr>pt_FileURI := x\<rparr>)" for x v
    by (rule member_string [where sel = pt_FileURI]) (simp_all add: find_field_def fields_Part_def)
  have 4: "pt_FileMIMEType v = '''' \<Longrightarrow> decode_member fields_Part ''mimeType'' (omit_string x) v = Some (v\<lparr>pt_FileMIMEType := x\<rparr>)" for x v
    by (rule member_string [where sel = pt_FileMIMEType]) (simp_all add: find_field_def fields_Part_def)
  have 5: "pt_FileBytes v = '''' \<Longrightarrow> decode_member fields_Part ''bytes'' (omit_string x) v = Some (v\<lparr>pt_FileBytes := x\<rparr>)" for x v
    by (rule member_string [where sel = pt_FileBytes]) (simp_all add: find_field_def fields_Part_def)
  have f: "find_field fields_Part ''data'' =
      (\<lambda>j v. case j of JNull \<Rightarrow> Some (v\<lparr>pt_Data := None\<rparr>) | _ \<Rightarrow> map_option (\<lambda>x. v\<lparr>pt_Data := Some x\<rparr>) (decode_any_map j))"
    by (simp add: find_field_def fields_Part_def)
  have 6: "decode_member fields_Part ''data'' (case pt_Data p of None \<Rightarrow> None | Some m \<Rightarrow> omit_empty (\<lambda>m. JObj (map_members m)) m) v
      = Some (v\<lparr>pt_Data := pt_Data p\<rparr>)" if "pt_Data v = None" for v
    using assms that f by (cases "pt_Data p") (simp_all add: decode_member_def part_ok_def data_ok_def omit_empty_def)
  show ?thesis
    unfolding unmarshal_Part_def marshal_Part_def decode_encode_object decode_present_Cons
    by (simp add: 1 2 3 4 5 6 zero_Part_def)
qed

lemma decode_Parts: "list_all part_ok ps \<Longrightarrow> decode_slice unmarshal_Part zero_Part (JArr (map marshal_Part ps)) old = Some ps"
  by (rule decode_slice_enc) (simp add: part_decodes list_all_iff)

lemma message_decodes:
  assumes "message_ok m"
  shows "unmarshal_Message (marshal_Message m) zero_Message = Some m"
proof -
  have 1: "decode_member fields_Message ''role'' (Some (JStr x)) v = Some (v\<lparr>am_Role := x\<rparr>)"
    "decode_member fields_Message ''messageId'' (Some (JStr x)) v = Some (v\<lparr>am_MessageID := x\<rparr>)" for x v
    by (simp_all add: decode_member_def find_field_def fields_Message_def)
  have 2: "decode_member fields_Message ''parts'' (Some (JArr (map marshal_Part (am_Parts m)))) v = Some (v\<lparr>am_Parts := am_Parts m\<rparr>)" for v
    using assms by (simp add: decode_member_def find_field_def fields_Message_def decode_Parts message_ok_def del: decode_slice.simps)
  have 3: "am_ContextID v = '''' \<Longrightarrow> decode_member fields_Message ''contextId'' (omit_string x) v = Some (v\<lparr>am_ContextID := x\<rparr>)" for x v
    by (rule member_string [where sel = am_ContextID]) (simp_all add: find_field_def fields_Message_def)
  have 4: "am_TaskID v = '''' \<Longrightarrow> decode_member fields_Message ''taskId'' (omit_string x) v = Some (v\<lparr>am_TaskID := x\<rparr>)" for x v
    by (rule member_string [where sel = am_TaskID]) (simp_all add: find_field_def fields_Message_def)
  have s: "decode_slice decode_string '''' (JArr (map JStr xs)) old = Some xs" for xs old by (rule decode_slice_enc) simp
  have 5: "am_ReferenceTaskIDs v = [] \<Longrightarrow> decode_member fields_Message ''referenceTaskIds'' (omit_empty (\<lambda>xs. JArr (map JStr xs)) xs) v
      = Some (v\<lparr>am_ReferenceTaskIDs := xs\<rparr>)" for xs v
    using s by (simp add: decode_member_def find_field_def fields_Message_def omit_empty_def del: decode_slice.simps)
  show ?thesis
    unfolding unmarshal_Message_def marshal_Message_def decode_encode_object decode_present_Cons
    by (simp add: 1 2 3 4 5 zero_Message_def)
qed

lemma artifact_decodes:
  assumes "artifact_ok a"
  shows "unmarshal_Artifact (marshal_Artifact a) zero_Artifact = Some a"
proof -
  have 1: "decode_member fields_Artifact ''parts'' (Some (JArr (map marshal_Part (af_Parts a)))) v = Some (v\<lparr>af_Parts := af_Parts a\<rparr>)" for v
    using assms by (simp add: decode_member_def find_field_def fields_Artifact_def decode_Parts artifact_ok_def del: decode_slice.simps)
  have 2: "decode_member fields_Artifact ''index'' (Some (JInt (af_Index a))) v = Some (v\<lparr>af_Index := af_Index a\<rparr>)" for v
    using assms by (simp add: decode_member_def find_field_def fields_Artifact_def artifact_ok_def)
  have 3: "\<not> af_LastChunk v \<Longrightarrow> decode_member fields_Artifact ''lastChunk'' (omit_bool x) v = Some (v\<lparr>af_LastChunk := x\<rparr>)" for x v
    by (simp add: decode_member_def find_field_def fields_Artifact_def omit_bool_def)
  show ?thesis
    unfolding unmarshal_Artifact_def marshal_Artifact_def decode_encode_object decode_present_Cons
    by (simp add: 1 2 3 zero_Artifact_def)
qed

lemma metadata_decodes: "\<exists>m'. unmarshal_metadata (marshal_metadata m) = Some m' \<and> (\<forall>k v. (k, v) \<in> set m' \<longrightarrow> (\<exists>j. v = MetaJson j))"
  by (auto simp: marshal_metadata_def)

text \<open>What a store must not lose of a task.\<close>

record task_core =
  tc_Status :: TaskState
  tc_StatusMessage :: "A2AMessage option"
  tc_History :: "A2AMessage list"
  tc_Artifacts :: "A2AArtifact list"
  tc_Model :: string

definition core_of :: "A2ATask \<Rightarrow> task_core" where
  "core_of t = \<lparr>tc_Status = at_Status t, tc_StatusMessage = at_StatusMessage t, tc_History = at_History t, tc_Artifacts = at_Artifacts t,
     tc_Model = at_Model t\<rparr>"

lemma scan_columns:
  assumes "task_ok t"
  shows "\<exists>t'. scanTask ((task_columns t r)\<lparr>tr_updated_at := u\<rparr>) = Some t' \<and> core_of t' = core_of t \<and> at_ID t' = tr_id r
    \<and> at_ContextID t' = tr_context_id r \<and> at_CreatedAt t' = tr_created_at r"
proof -
  have h: "decode_slice unmarshal_Message zero_Message (JArr (map marshal_Message (at_History t))) [] = Some (at_History t)"
    using assms by (intro decode_slice_enc) (simp add: task_ok_def list_all_iff message_decodes)
  have a: "decode_slice unmarshal_Artifact zero_Artifact (JArr (map marshal_Artifact (at_Artifacts t))) [] = Some (at_Artifacts t)"
    using assms by (intro decode_slice_enc) (simp add: task_ok_def list_all_iff artifact_decodes)
  have s: "(case map_option marshal_Message (at_StatusMessage t) of None \<Rightarrow> Some None
      | Some j \<Rightarrow> map_option Some (unmarshal_Message j zero_Message)) = Some (at_StatusMessage t)"
    using assms by (cases "at_StatusMessage t") (simp_all add: task_ok_def message_decodes)
  obtain m where m: "unmarshal_metadata (marshal_metadata (at_Metadata t)) = Some m" using metadata_decodes by blast
  show ?thesis by (simp add: scanTask_def task_columns_def core_of_def h a s m del: decode_slice.simps case_map_option)
qed

section \<open>What a store promises\<close>

text \<open>The objects of two states are the same but for the time of their last update.\<close>

definition same_objects :: "task_heap \<Rightarrow> task_heap \<Rightarrow> bool" where
  "same_objects hp hp' \<longleftrightarrow> length hp' = length hp \<and> (\<forall>a < length hp. \<exists>u. hp' ! a = (hp ! a)\<lparr>at_UpdatedAt := u\<rparr>)"

lemma same_objects_facts:
  assumes "same_objects hp hp'" and "a < length hp"
  shows "at_ID (hp' ! a) = at_ID (hp ! a)" "core_of (hp' ! a) = core_of (hp ! a)" "task_ok (hp' ! a) = task_ok (hp ! a)"
  using assms by (auto simp: same_objects_def core_of_def task_ok_def)

text \<open>Writing an object makes the store show what the object holds under its identifier, and changes nothing else; a write that fails leaves the
  store as it is.\<close>

locale task_store =
  fixes wf :: "'s \<Rightarrow> bool" and objects :: "'s \<Rightarrow> task_heap" and view :: "'s \<Rightarrow> string \<Rightarrow> task_core option"
    and create :: "nat \<Rightarrow> 's \<Rightarrow> task_error option \<times> 's" and update :: "nat \<Rightarrow> 's \<Rightarrow> task_error option \<times> 's"
  assumes create_ok: "wf s \<Longrightarrow> a < length (objects s) \<Longrightarrow> task_ok (objects s ! a) \<Longrightarrow> create a s = (None, s') \<Longrightarrow>
      wf s' \<and> view s' = (view s)(at_ID (objects s ! a) \<mapsto> core_of (objects s ! a)) \<and> same_objects (objects s) (objects s')"
    and update_ok: "wf s \<Longrightarrow> a < length (objects s) \<Longrightarrow> task_ok (objects s ! a) \<Longrightarrow> update a s = (None, s') \<Longrightarrow>
      wf s' \<and> view s' = (view s)(at_ID (objects s ! a) \<mapsto> core_of (objects s ! a)) \<and> same_objects (objects s) (objects s')"
    and create_failed: "create a s = (Some e, s') \<Longrightarrow> s' = s"
    and update_failed: "update a s = (Some e, s') \<Longrightarrow> s' = s"

text \<open>A sequence of writes, each of a new object or of a known one, until one fails.\<close>

fun run_writes ::
  "(nat \<Rightarrow> 's \<Rightarrow> task_error option \<times> 's) \<Rightarrow> (nat \<Rightarrow> 's \<Rightarrow> task_error option \<times> 's) \<Rightarrow> (bool \<times> nat) list \<Rightarrow> 's \<Rightarrow> 's option" where
  "run_writes create update [] s = Some s"
| "run_writes create update ((new, a) # ws) s =
     (case if new then create a s else update a s of
        (None, s) \<Rightarrow> run_writes create update ws s
      | (Some e, s) \<Rightarrow> None)"

definition written :: "task_heap \<Rightarrow> (bool \<times> nat) list \<Rightarrow> (string \<rightharpoonup> task_core) \<Rightarrow> (string \<rightharpoonup> task_core)" where
  "written hp ws m = fold (\<lambda>(new, a) m. m(at_ID (hp ! a) \<mapsto> core_of (hp ! a))) ws m"

context task_store
begin

lemma write_ok:
  assumes "wf s" and "a < length (objects s)" and "task_ok (objects s ! a)" and "(if new then create a s else update a s) = (None, s')"
  shows "wf s' \<and> view s' = (view s)(at_ID (objects s ! a) \<mapsto> core_of (objects s ! a)) \<and> same_objects (objects s) (objects s')"
  using assms create_ok [of s a s'] update_ok [of s a s'] by (cases new) simp_all

lemma writes_view:
  assumes "run_writes create update ws s = Some s'" and "wf s"
    and "\<forall>(new, a) \<in> set ws. a < length (objects s) \<and> task_ok (objects s ! a)"
  shows "wf s' \<and> view s' = written (objects s) ws (view s)"
  using assms
proof (induction ws arbitrary: s)
  case Nil
  then show ?case by (simp add: written_def)
next
  case (Cons w ws)
  obtain new a where w: "w = (new, a)" by force
  obtain e s1 where x: "(if new then create a s else update a s) = (e, s1)" by force
  from Cons.prems(1) w x have e: "e = None" by (cases e) simp_all
  from Cons.prems(3) w have a: "a < length (objects s)" "task_ok (objects s ! a)" by simp_all
  note s1 = write_ok [OF Cons.prems(2) a x [unfolded e]]
  then have len: "length (objects s1) = length (objects s)" and same: "same_objects (objects s) (objects s1)" by (simp_all add: same_objects_def)
  have f: "at_ID (objects s1 ! b) = at_ID (objects s ! b)" "core_of (objects s1 ! b) = core_of (objects s ! b)"
    "task_ok (objects s1 ! b) = task_ok (objects s ! b)" if "b < length (objects s)" for b
    using same_objects_facts [OF same that] by simp_all
  have "run_writes create update ws s1 = Some s'" using Cons.prems(1) w x e by simp
  moreover have "\<forall>(new, b) \<in> set ws. b < length (objects s1) \<and> task_ok (objects s1 ! b)" using Cons.prems(3) f len by auto
  ultimately have "wf s' \<and> view s' = written (objects s1) ws (view s1)" using Cons.IH s1 by blast
  moreover have "written (objects s1) ws m = written (objects s) ws m" for m
    unfolding written_def using Cons.prems(3) f by (intro fold_cong) auto
  ultimately show ?case using s1 w by (simp add: written_def)
qed

end

text \<open>The store in memory.\<close>

type_synonym memory_state = "task_heap \<times> MemoryTaskStore"

definition memory_wf :: "memory_state \<Rightarrow> bool" where
  "memory_wf s \<longleftrightarrow> gm_ok (mt_tasks (snd s)) \<and> list_all (\<lambda>(i, a). a < length (fst s) \<and> at_ID (fst s ! a) = i) (mt_tasks (snd s))"

definition memory_view :: "memory_state \<Rightarrow> string \<Rightarrow> task_core option" where
  "memory_view s i = map_option (\<lambda>a. core_of (fst s ! a)) (Memory_Get i (snd s))"

definition memory_create :: "nat \<Rightarrow> memory_state \<Rightarrow> task_error option \<times> memory_state" where
  "memory_create a s = (case Memory_Create a (fst s) (snd s) of (e, ts) \<Rightarrow> (e, (fst s, ts)))"

definition memory_update :: "gotime \<Rightarrow> nat \<Rightarrow> memory_state \<Rightarrow> task_error option \<times> memory_state" where
  "memory_update now a s = (None, Memory_Update now a (fst s) (snd s))"

lemma memory_wf_get: "memory_wf s \<Longrightarrow> gm_get (mt_tasks (snd s)) i = Some a \<Longrightarrow> a < length (fst s) \<and> at_ID (fst s ! a) = i"
  by (auto simp: memory_wf_def gm_get_mem list_all_iff)

lemma memory_wf_intro:
  assumes "gm_ok (mt_tasks ts)" and "\<And>i a. gm_get (mt_tasks ts) i = Some a \<Longrightarrow> a < length hp \<and> at_ID (hp ! a) = i"
  shows "memory_wf (hp, ts)"
  using assms by (auto simp: memory_wf_def list_all_iff gm_get_mem)

lemma same_objects_refl [simp]: "same_objects hp hp"
proof -
  have "t = t\<lparr>at_UpdatedAt := at_UpdatedAt t\<rparr>" for t :: A2ATask by simp
  then show ?thesis unfolding same_objects_def by blast
qed

lemma same_objects_touch: "same_objects hp (task_change a (\<lambda>t. t\<lparr>at_UpdatedAt := now\<rparr>) hp)"
proof -
  have "\<exists>u. task_change a (\<lambda>t. t\<lparr>at_UpdatedAt := now\<rparr>) hp ! b = (hp ! b)\<lparr>at_UpdatedAt := u\<rparr>" if "b < length hp" for b
    using that by (cases "b = a") (auto simp: task_change_def intro: exI [of _ now] exI [of _ "at_UpdatedAt (hp ! b)"])
  then show ?thesis by (simp add: same_objects_def task_change_def)
qed

text \<open>Both writes put the address under the identifier of its object.\<close>

lemma memory_put:
  assumes "memory_wf (hp, ts)" and "a < length hp" and "same_objects hp hp'" and "ts' = ts\<lparr>mt_tasks := gm_set (at_ID (hp ! a)) a (mt_tasks ts)\<rparr>"
  shows "memory_wf (hp', ts')" and "memory_view (hp', ts') = (memory_view (hp, ts))(at_ID (hp ! a) \<mapsto> core_of (hp ! a))"
proof -
  note same = same_objects_facts [OF assms(3)]
  have len: "length hp' = length hp" using assms(3) by (simp add: same_objects_def)
  have g: "b < length hp \<and> at_ID (hp ! b) = i" if "gm_get (mt_tasks ts) i = Some b" for i b using memory_wf_get [OF assms(1)] that by simp
  have ok: "gm_ok (mt_tasks ts)" using assms(1) by (simp add: memory_wf_def)
  show "memory_wf (hp', ts')"
    using assms(2,4) ok g same len by (intro memory_wf_intro) (auto simp: gomap_simps split: if_splits)
  show "memory_view (hp', ts') = (memory_view (hp, ts))(at_ID (hp ! a) \<mapsto> core_of (hp ! a))"
  proof
    fix i
    show "memory_view (hp', ts') i = ((memory_view (hp, ts))(at_ID (hp ! a) \<mapsto> core_of (hp ! a))) i"
      using assms(2,4) g same by (cases "gm_get (mt_tasks ts) i") (auto simp: memory_view_def Memory_Get_def gomap_simps)
  qed
qed

interpretation mem: task_store memory_wf fst memory_view memory_create "memory_update now" for now
proof
  fix s a s' and now :: gotime
  assume wf: "memory_wf s" and a: "a < length (fst s)"
  obtain hp ts where s: "s = (hp, ts)" by force
  {
    assume "memory_create a s = (None, s')"
    with s have "s' = (hp, ts\<lparr>mt_tasks := gm_set (at_ID (hp ! a)) a (mt_tasks ts)\<rparr>)"
      by (auto simp: memory_create_def Memory_Create_def split: if_splits)
    with memory_put [of hp ts a hp] wf a s
    show "memory_wf s' \<and> memory_view s' = (memory_view s)(at_ID (fst s ! a) \<mapsto> core_of (fst s ! a)) \<and> same_objects (fst s) (fst s')" by simp
  next
    assume "memory_update now a s = (None, s')"
    with s have "s' = (task_change a (\<lambda>t. t\<lparr>at_UpdatedAt := now\<rparr>) hp, ts\<lparr>mt_tasks := gm_set (at_ID (hp ! a)) a (mt_tasks ts)\<rparr>)"
      by (simp add: memory_update_def Memory_Update_def)
    with memory_put [of hp ts a, OF _ _ same_objects_touch] same_objects_touch [of hp a now] wf a s
    show "memory_wf s' \<and> memory_view s' = (memory_view s)(at_ID (fst s ! a) \<mapsto> core_of (fst s ! a)) \<and> same_objects (fst s) (fst s')" by simp
  }
qed (auto simp: memory_create_def Memory_Create_def memory_update_def split: if_splits prod.splits)

text \<open>The store in the database.\<close>

type_synonym database_state = "task_heap \<times> task_row list option"

definition database_wf :: "database_state \<Rightarrow> bool" where
  "database_wf s \<longleftrightarrow> (case snd s of None \<Rightarrow> False | Some rows \<Rightarrow> distinct (map tr_id rows))"

definition database_view :: "database_state \<Rightarrow> string \<Rightarrow> task_core option" where
  "database_view s i = map_option core_of (Persistent_Get i (snd s))"

definition database_create :: "(gotime \<Rightarrow> gotime) \<Rightarrow> nat \<Rightarrow> database_state \<Rightarrow> task_error option \<times> database_state" where
  "database_create pg a s = (case Persistent_Create pg (fst s ! a) (snd s) of (e, db) \<Rightarrow> (e, (fst s, db)))"

definition database_update :: "gotime \<Rightarrow> nat \<Rightarrow> database_state \<Rightarrow> task_error option \<times> database_state" where
  "database_update now a s = (case Persistent_Update now (fst s ! a) (snd s) of (e, db) \<Rightarrow> (e, (fst s, db)))"

lemma task_columns_id [simp]: "tr_id (task_columns t r) = tr_id r"
  by (simp add: task_columns_def)

lemma find_map_row:
  assumes "\<And>r. tr_id (f r) = tr_id r"
  shows "find (\<lambda>r. tr_id r = i) (map f rows) = map_option f (find (\<lambda>r. tr_id r = i) rows)"
  using assms by (induction rows) auto

lemma database_create_ok:
  assumes "database_wf s" and "task_ok (fst s ! a)" and "database_create pg a s = (None, s')"
  shows "database_wf s' \<and> database_view s' = (database_view s)(at_ID (fst s ! a) \<mapsto> core_of (fst s ! a)) \<and> same_objects (fst s) (fst s')"
proof -
  let ?t = "fst s ! a"
  obtain hp rows where s: "s = (hp, Some rows)" using assms(1) by (cases s) (auto simp: database_wf_def split: option.splits)
  define r where "r = task_columns ?t \<lparr>tr_id = at_ID ?t, tr_context_id = at_ContextID ?t, tr_status = at_Status ?t, tr_history = JNull,
    tr_artifacts = JNull, tr_metadata = JNull, tr_status_message = None, tr_model = '''', tr_created_at = pg (at_CreatedAt ?t),
    tr_updated_at = pg (at_CreatedAt ?t)\<rparr>"
  have new: "\<forall>x \<in> set rows. tr_id x \<noteq> at_ID ?t" and s': "s' = (hp, Some (rows @ [r]))"
    using assms(3) s unfolding r_def by (auto simp: database_create_def Persistent_Create_def list_ex_iff split: if_splits)
  have rid: "tr_id r = at_ID ?t" by (simp add: r_def)
  have "find (\<lambda>x. tr_id x = at_ID ?t) rows = None" using new by (simp add: find_None_iff)
  moreover have "\<exists>t'. scanTask r = Some t' \<and> core_of t' = core_of ?t"
    using scan_columns [OF assms(2)] unfolding r_def by (metis (no_types, lifting) task_row.surjective task_row.update_convs(10))
  ultimately have "database_view s' = (database_view s)(at_ID ?t \<mapsto> core_of ?t)"
    using s s' rid by (auto simp: database_view_def Persistent_Get_def find_append split: option.splits)
  moreover have "database_wf s'" using assms(1) s s' rid new by (auto simp: database_wf_def)
  ultimately show ?thesis using s s' by simp
qed

lemma database_update_ok:
  assumes "database_wf s" and "task_ok (fst s ! a)" and "database_update now a s = (None, s')"
  shows "database_wf s' \<and> database_view s' = (database_view s)(at_ID (fst s ! a) \<mapsto> core_of (fst s ! a)) \<and> same_objects (fst s) (fst s')"
proof -
  let ?t = "fst s ! a"
  define f where "f = (\<lambda>r. if tr_id r = at_ID ?t then (task_columns ?t r)\<lparr>tr_updated_at := now\<rparr> else r)"
  obtain hp rows where s: "s = (hp, Some rows)" using assms(1) by (cases s) (auto simp: database_wf_def split: option.splits)
  have known: "\<exists>x \<in> set rows. tr_id x = at_ID ?t" and s': "s' = (hp, Some (map f rows))"
    using assms(3) s unfolding f_def by (auto simp: database_update_def Persistent_Update_def list_ex_iff split: if_splits)
  have id: "tr_id (f r) = tr_id r" for r by (simp add: f_def)
  from known obtain r where r: "find (\<lambda>x. tr_id x = at_ID ?t) rows = Some r" "tr_id r = at_ID ?t"
    by (cases "find (\<lambda>x. tr_id x = at_ID ?t) rows") (auto simp: find_None_iff find_Some_iff)
  have view: "database_view s' i = ((database_view s)(at_ID ?t \<mapsto> core_of ?t)) i" for i
  proof (cases "i = at_ID ?t")
    case True
    with r obtain t' where "scanTask (f r) = Some t'" "core_of t' = core_of ?t" using scan_columns [OF assms(2), where r = r and u = now] by (auto simp: f_def)
    with True r s' show ?thesis by (simp add: database_view_def Persistent_Get_def find_map_row [OF id])
  next
    case False
    have "f x = x" if "find (\<lambda>r. tr_id r = i) rows = Some x" for x using that False by (auto simp: f_def find_Some_iff)
    with False s s' show ?thesis
      by (auto simp: database_view_def Persistent_Get_def find_map_row [OF id] split: option.split)
  qed
  moreover have "map tr_id (map f rows) = map tr_id rows" by (simp add: id)
  with assms(1) s s' have "database_wf s'" by (simp add: database_wf_def del: map_map)
  ultimately show ?thesis using s s' by auto
qed

interpretation db: task_store database_wf fst database_view "database_create pg" "database_update now" for pg now
proof
  show "database_wf s' \<and> database_view s' = (database_view s)(at_ID (fst s ! a) \<mapsto> core_of (fst s ! a)) \<and> same_objects (fst s) (fst s')"
    if "database_wf s" "task_ok (fst s ! a)" "database_create pg a s = (None, s')" for s a s'
    using database_create_ok [OF that] .
  show "database_wf s' \<and> database_view s' = (database_view s)(at_ID (fst s ! a) \<mapsto> core_of (fst s ! a)) \<and> same_objects (fst s) (fst s')"
    if "database_wf s" "task_ok (fst s ! a)" "database_update now a s = (None, s')" for s a s'
    using database_update_ok [OF that] .
qed (auto simp: database_create_def database_update_def Persistent_Create_def Persistent_Update_def split: option.splits if_splits prod.splits)


text \<open>But not everything is shared: the database gives metadata back as plain JSON, so the identity that a request was authenticated
  with is not one after a task has been stored.\<close>

theorem database_forgets_identity:
  assumes "Persistent_Get i db = Some t"
  shows "gm_get (at_Metadata t) k \<noteq> Some (MetaIdentity identity)"
proof -
  from assms obtain r where "scanTask r = Some t" by (auto simp: Persistent_Get_def split: option.splits)
  then obtain m where m: "unmarshal_metadata (tr_metadata r) = Some m" "at_Metadata t = m"
    by (auto simp: scanTask_def bind_eq_Some_conv)
  have "\<exists>x. m = map (map_prod (\<lambda>k. k) MetaJson) x" using m(1) by (cases "tr_metadata r") auto
  then show ?thesis using m(2) by (auto simp: gm_get_def dest!: map_of_SomeD)
qed

section \<open>Examples\<close>

definition text_part :: "string \<Rightarrow> A2APart" where
  "text_part s = zero_Part\<lparr>pt_Type := ''text'', pt_Text := s\<rparr>"

definition example_message :: "string \<Rightarrow> A2AMessage" where
  "example_message s = zero_Message\<lparr>am_Role := ''user'', am_Parts := [text_part s], am_MessageID := ''m''\<rparr>"

definition example_caller_identity :: MCPIdentity where
  "example_caller_identity =
     \<lparr>mi_ProjectID = ''p'', mi_VirtualKeyID = ''vk'', mi_KeyPrefix = ''gw-12345'', mi_Name = ''n'', mi_AllowedModels = [''m''],
      mi_AllowedProviders = [], mi_RPMLimit = 1, mi_TPMLimit = 0, mi_BudgetLimitUSD = 1, mi_BudgetPeriod = ''daily'', mi_Source = ''a2a'',
      mi_SkipRateLimit = False, mi_SkipBudget = False, mi_SkipUsageLog = False\<rparr>"

definition example_task :: "string \<Rightarrow> A2ATask" where
  "example_task i =
     \<lparr>at_ID = i, at_ContextID = ''c'', at_Status = Submitted, at_StatusMessage = None, at_History = [example_message ''hi''], at_Artifacts = [],
      at_Metadata = [(''governance_identity'', MetaIdentity example_caller_identity)], at_Model = '''', at_CreatedAt = 5, at_UpdatedAt = 5\<rparr>"


theorem database_forgets_identity_witness:
  "\<exists>t. Persistent_Get ''a'' (snd (Persistent_Create (\<lambda>t. t) (example_task ''a'') (Some []))) = Some t
     \<and> gm_get (at_Metadata t) ''governance_identity'' \<noteq> Some (MetaIdentity example_caller_identity)"
proof -
  have "Persistent_Get ''a'' (snd (Persistent_Create (\<lambda>t. t) (example_task ''a'') (Some []))) \<noteq> None" by code_simp
  then obtain t where "Persistent_Get ''a'' (snd (Persistent_Create (\<lambda>t. t) (example_task ''a'') (Some []))) = Some t" by blast
  with database_forgets_identity [OF this] show ?thesis by blast
qed

end
