(* ===== verification/A2A_Handler.thy ===== *)
theory A2A_Handler
  imports A2A_Store "HOL-Library.Sublist"
begin

text \<open>
  The agent-to-agent server (\<^verbatim>\<open>internal/mcp/a2a_handler.go\<close>): the requests \<^verbatim>\<open>message/send\<close>, \<^verbatim>\<open>tasks/get\<close>, \<^verbatim>\<open>tasks/cancel\<close> and \<^verbatim>\<open>tasks/list\<close>, the queue and the
  workers that execute tasks, the stream of the updates of a task, and the resolver of virtual keys it is given (\<^verbatim>\<open>internal/server/server.go\<close>).

  Handlers and workers run concurrently. What one does between two calls of the executor (or, for a new task, between putting it into the queue and storing it) is one
  step here: \<open>start_task\<close> and \<open>finish_task\<close> are the two halves of \<^verbatim>\<open>executeTask\<close>, \<open>blocking_start\<close> and \<open>blocking_finish\<close> those of the blocking send, and
  \<open>enqueue\<close> and \<open>enqueue_store\<close> those of the non-blocking one. The step relation \<open>a2a_step\<close> interleaves them in every order, with
  any outcome of an execution. Clock readings, drawn identifiers, the executor and the resolver are arguments; a context is live, canceled or past its deadline; what is
  published to the bridge or handed to the push notifier is a list. The panic of a channel operation is \<^term>\<open>None\<close>.

  The lemmas show that no channel operation panics, that the data stays well formed in every interleaving, that conversations only grow, and the ways in which
  tasks go wrong. The text of a JSON decoding error is left out of the messages of \<^verbatim>\<open>invalid params\<close> errors.
\<close>

section \<open>The agent card\<close>

record AgentCard =
  ag_Name :: string
  ag_URL :: string
  ag_Version :: string
  ag_Description :: string
  ag_ProtocolVersion :: string
  ag_Streaming :: bool
  ag_PushNotifications :: bool
  ag_Skills :: "(string \<times> string) list"
  ag_Authentication :: "(bool \<times> string \<times> string) option"

definition agent_card :: "A2AConfig \<Rightarrow> AgentCard" where
  "agent_card cfg =
     \<lparr>ag_Name = agc_Name (a2a_AgentCard cfg), ag_URL = a2a_URL cfg, ag_Version = agc_Version (a2a_AgentCard cfg),
      ag_Description = agc_Description (a2a_AgentCard cfg), ag_ProtocolVersion = ''1.0'', ag_Streaming = True, ag_PushNotifications = True,
      ag_Skills = [(''chat'', ''General chat completion via the gateway'')],
      ag_Authentication = (if ma_Mode (a2a_Authentication cfg) \<noteq> ''none'' \<and> ma_Mode (a2a_Authentication cfg) \<noteq> ''''
        then Some (True, ''bearer'', ''Bearer'') else None)\<rparr>"

section \<open>State\<close>

datatype TaskStore = InMemory MemoryTaskStore | InDatabase "task_row list option"

datatype ctx_state = CtxLive | CtxCanceled | CtxDeadline

record A2AHandler =
  ah_cfg :: A2AConfig
  ah_card :: AgentCard
  ah_heap :: task_heap
  ah_store :: TaskStore
  ah_notifier :: TaskNotifier
  ah_bridge :: "A2ATask list option"
  ah_pushed :: "(PushConfig \<times> A2ATask) list"
  ah_queue :: "string list"
  ah_maxWorkers :: nat
  ah_contexts :: "ctx_state list"
  ah_cancelFuncs :: "(string, nat) gomap"
  ah_shuttingDown :: bool

definition CodeTaskNotFound :: int where "CodeTaskNotFound = -32001"
definition CodeTaskNotCancelable :: int where "CodeTaskNotCancelable = -32002"
definition CodeContentTypeNotSupported :: int where "CodeContentTypeNotSupported = -32003"
definition CodeMaxTasksReached :: int where "CodeMaxTasksReached = -32004"

text \<open>The calls of the store, through its interface.\<close>

definition store_Create :: "(gotime \<Rightarrow> gotime) \<Rightarrow> nat \<Rightarrow> A2AHandler \<Rightarrow> task_error option \<times> A2AHandler" where
  "store_Create pg a h =
     (case ah_store h of
        InMemory ts \<Rightarrow> (case Memory_Create a (ah_heap h) ts of (e, ts) \<Rightarrow> (e, h\<lparr>ah_store := InMemory ts\<rparr>))
      | InDatabase db \<Rightarrow> (case Persistent_Create pg (ah_heap h ! a) db of (e, db) \<Rightarrow> (e, h\<lparr>ah_store := InDatabase db\<rparr>)))"

definition store_Get :: "string \<Rightarrow> A2AHandler \<Rightarrow> nat option \<times> A2AHandler" where
  "store_Get i h =
     (case ah_store h of
        InMemory ts \<Rightarrow> (Memory_Get i ts, h)
      | InDatabase db \<Rightarrow>
          (case Persistent_Get i db of
             None \<Rightarrow> (None, h)
           | Some t \<Rightarrow> (case task_alloc t (ah_heap h) of (a, hp) \<Rightarrow> (Some a, h\<lparr>ah_heap := hp\<rparr>))))"

definition store_Update :: "gotime \<Rightarrow> nat \<Rightarrow> A2AHandler \<Rightarrow> task_error option \<times> A2AHandler" where
  "store_Update now a h =
     (case ah_store h of
        InMemory ts \<Rightarrow> (case Memory_Update now a (ah_heap h) ts of (hp, ts) \<Rightarrow> (None, h\<lparr>ah_heap := hp, ah_store := InMemory ts\<rparr>))
      | InDatabase db \<Rightarrow> (case Persistent_Update now (ah_heap h ! a) db of (e, db) \<Rightarrow> (e, h\<lparr>ah_store := InDatabase db\<rparr>)))"

definition store_List :: "TaskListFilter \<Rightarrow> A2AHandler \<Rightarrow> task_error + A2ATask list \<times> nat" where
  "store_List f h =
     (case ah_store h of
        InMemory ts \<Rightarrow> (case Memory_List f (ah_heap h) ts of (as, n) \<Rightarrow> Inr (map (\<lambda>a. ah_heap h ! a) as, n))
      | InDatabase db \<Rightarrow> Persistent_List f db)"

definition store_RecoverStale :: "gotime \<Rightarrow> TaskStore \<Rightarrow> TaskStore" where
  "store_RecoverStale now st =
     (case st of InMemory ts \<Rightarrow> InMemory ts | InDatabase db \<Rightarrow> InDatabase (snd (Persistent_RecoverStale now db)))"

definition change_task :: "nat \<Rightarrow> (A2ATask \<Rightarrow> A2ATask) \<Rightarrow> A2AHandler \<Rightarrow> A2AHandler" where
  "change_task a f h = h\<lparr>ah_heap := task_change a f (ah_heap h)\<rparr>"

section \<open>The handler\<close>

definition NewA2AHandler :: "gotime \<Rightarrow> A2AConfig \<Rightarrow> TaskStore \<Rightarrow> A2AHandler" where
  "NewA2AHandler now cfg store =
     \<lparr>ah_cfg = cfg, ah_card = agent_card cfg, ah_heap = [], ah_store = store_RecoverStale now store, ah_notifier = NewTaskNotifier, ah_bridge = None, ah_pushed = [],
      ah_queue = [], ah_maxWorkers = (if a2a_MaxWorkers cfg \<le> 0 then 10 else nat (a2a_MaxWorkers cfg)), ah_contexts = [], ah_cancelFuncs = [],
      ah_shuttingDown = False\<rparr>"

definition SetAgentCardCapabilities :: "bool \<Rightarrow> bool \<Rightarrow> A2AHandler \<Rightarrow> A2AHandler" where
  "SetAgentCardCapabilities streaming pushNotifications h =
     h\<lparr>ah_card := (ah_card h)\<lparr>ag_Streaming := streaming, ag_PushNotifications := pushNotifications\<rparr>\<rparr>"

definition SetBridge :: "A2AHandler \<Rightarrow> A2AHandler" where
  "SetBridge h = h\<lparr>ah_bridge := Some []\<rparr>"

section \<open>Notifications\<close>

definition extractPushConfig :: "A2ATask \<Rightarrow> PushConfig option" where
  "extractPushConfig t =
     (case gm_get (at_Metadata t) ''pushNotification'' of
        None \<Rightarrow> None
      | Some v \<Rightarrow>
          (case unmarshal_PushConfig (marshal_meta v) zero_PushConfig of
             None \<Rightarrow> None
           | Some c \<Rightarrow> if pu_URL c = '''' then None else Some c))"

definition a2a_notify :: "nat \<Rightarrow> A2AHandler \<Rightarrow> A2AHandler option" where
  "a2a_notify a h =
     (let t = ah_heap h ! a
      in map_option (\<lambda>n. h\<lparr>ah_notifier := n, ah_bridge := map_option (\<lambda>ts. ts @ [t]) (ah_bridge h),
             ah_pushed := ah_pushed h @ (case extractPushConfig t of None \<Rightarrow> [] | Some c \<Rightarrow> [(c, t)])\<rparr>)
           (Notifier_Notify (at_ID t) a (ah_notifier h)))"

section \<open>Executing a task\<close>

text \<open>What the executor is called with: the default model, one user message and the identity the task carries.\<close>

record exec_args =
  ex_Model :: string
  ex_Text :: string
  ex_Identity :: "MCPIdentity option"

record a2a_job =
  jb_addr :: nat
  jb_task :: string
  jb_ctx :: nat

definition message_text :: "A2AMessage \<Rightarrow> string" where
  "message_text m = (case find (\<lambda>p. pt_Type p = ''text'' \<and> pt_Text p \<noteq> '''') (am_Parts m) of None \<Rightarrow> '''' | Some p \<Rightarrow> pt_Text p)"

definition history_text :: "A2AMessage list \<Rightarrow> string" where
  "history_text ms = (case find (\<lambda>m. message_text m \<noteq> '''') ms of None \<Rightarrow> '''' | Some m \<Rightarrow> message_text m)"

definition task_identity :: "A2ATask \<Rightarrow> MCPIdentity option" where
  "task_identity t = (case gm_get (at_Metadata t) ''governance_identity'' of Some (MetaIdentity i) \<Rightarrow> Some i | _ \<Rightarrow> None)"

definition start_task :: "gotime \<Rightarrow> string \<Rightarrow> A2AHandler \<Rightarrow> ((a2a_job \<times> exec_args) option \<times> A2AHandler) option" where
  "start_task now taskID h =
     (case store_Get taskID h of
        (None, h) \<Rightarrow> Some (None, h)
      | (Some a, h) \<Rightarrow>
          let ctx = length (ah_contexts h);
              h = h\<lparr>ah_contexts := ah_contexts h @ [CtxLive], ah_cancelFuncs := gm_set taskID ctx (ah_cancelFuncs h)\<rparr>;
              h = change_task a (\<lambda>t. t\<lparr>at_Status := Working\<rparr>) h;
              h = snd (store_Update now a h)
          in map_option (\<lambda>h.
               (Some (\<lparr>jb_addr = a, jb_task = taskID, jb_ctx = ctx\<rparr>,
                  \<lparr>ex_Model = a2a_DefaultModel (ah_cfg h), ex_Text = history_text (at_History (ah_heap h ! a)),
                   ex_Identity = task_identity (ah_heap h ! a)\<rparr>), h)) (a2a_notify a h))"

definition agent_message :: "string \<Rightarrow> string \<Rightarrow> A2ATask \<Rightarrow> A2AMessage" where
  "agent_message messageID content t =
     zero_Message\<lparr>am_Role := ''agent'', am_Parts := [zero_Part\<lparr>pt_Type := ''text'', pt_Text := content\<rparr>], am_MessageID := messageID,
       am_ContextID := at_ContextID t\<rparr>"

definition fail_task :: "string \<Rightarrow> string \<Rightarrow> A2ATask \<Rightarrow> A2ATask" where
  "fail_task messageID failText t =
     (let m = agent_message messageID failText t
      in t\<lparr>at_Status := Failed, at_StatusMessage := Some m, at_History := at_History t @ [m]\<rparr>)"

definition complete_task :: "gotime \<Rightarrow> string \<Rightarrow> int \<Rightarrow> ChatResult \<Rightarrow> A2ATask \<Rightarrow> A2ATask" where
  "complete_task now messageID index res t =
     (let m = agent_message messageID (ct_Content res) t
      in t\<lparr>at_Artifacts := at_Artifacts t @ [\<lparr>af_Parts = [zero_Part\<lparr>pt_Type := ''text'', pt_Text := ct_Content res\<rparr>], af_Index = index, af_LastChunk = True\<rparr>],
           at_StatusMessage := Some m, at_History := at_History t @ [m], at_Status := Completed, at_Model := ct_Model res, at_UpdatedAt := now\<rparr>)"

definition blocked_text :: "string \<Rightarrow> string" where
  "blocked_text s = ''Request blocked by governance policy: '' @ s"

definition end_state :: "gotime \<Rightarrow> string \<Rightarrow> ctx_state \<Rightarrow> exec_error + ChatResult \<Rightarrow> A2ATask \<Rightarrow> A2ATask" where
  "end_state now messageID ctx outcome t =
     (case outcome of
        Inr res \<Rightarrow> complete_task now messageID (int (length (at_Artifacts t))) res t
      | Inl (GovernanceBlocked s) \<Rightarrow> fail_task messageID (blocked_text s) t
      | Inl (PlainError s) \<Rightarrow>
          if ctx = CtxCanceled then t\<lparr>at_Status := Canceled\<rparr>
          else if s \<noteq> '''' then fail_task messageID s t else t)"

definition cancel_ctx :: "nat \<Rightarrow> ctx_state list \<Rightarrow> ctx_state list" where
  "cancel_ctx c ctxs = (if ctxs ! c = CtxLive then ctxs[c := CtxCanceled] else ctxs)"

definition finish_task :: "gotime \<Rightarrow> string \<Rightarrow> a2a_job \<Rightarrow> exec_error + ChatResult \<Rightarrow> A2AHandler \<Rightarrow> A2AHandler option" where
  "finish_task now messageID job outcome h =
     (let h = change_task (jb_addr job) (end_state now messageID (ah_contexts h ! jb_ctx job) outcome) h;
          h = snd (store_Update now (jb_addr job) h)
      in map_option (\<lambda>h. h\<lparr>ah_contexts := cancel_ctx (jb_ctx job) (ah_contexts h), ah_cancelFuncs := gm_delete (jb_task job) (ah_cancelFuncs h)\<rparr>)
           (a2a_notify (jb_addr job) h))"

type_synonym 'w a2a_executor = "exec_args \<Rightarrow> 'w \<Rightarrow> ((exec_error + ChatResult) \<times> 'w) option"

definition executeTask :: "'w a2a_executor \<Rightarrow> gotime \<Rightarrow> gotime \<Rightarrow> string \<Rightarrow> string \<Rightarrow> A2AHandler \<Rightarrow> 'w \<Rightarrow> (A2AHandler \<times> 'w) option" where
  "executeTask exec now now' messageID taskID h w = do {
     (r, h) \<leftarrow> start_task now taskID h;
     (case r of
        None \<Rightarrow> Some (h, w)
      | Some (job, args) \<Rightarrow> do {
          (outcome, w) \<leftarrow> exec args w;
          h \<leftarrow> finish_task now' messageID job outcome h;
          Some (h, w)
        })
   }"

section \<open>message/send\<close>

record messageSendParams =
  sp_TaskID :: string
  sp_Message :: A2AMessage
  sp_ReturnImmediately :: "bool option"
  sp_PushNotification :: "PushConfig option"

definition zero_SendParams :: messageSendParams where
  "zero_SendParams = \<lparr>sp_TaskID = '''', sp_Message = zero_Message, sp_ReturnImmediately = None, sp_PushNotification = None\<rparr>"

definition unmarshal_SendParams :: "messageSendParams decoder" where
  "unmarshal_SendParams = decode_struct
     [(''taskId'', \<lambda>j v. map_option (\<lambda>x. v\<lparr>sp_TaskID := x\<rparr>) (decode_string j (sp_TaskID v))),
      (''message'', \<lambda>j v. map_option (\<lambda>x. v\<lparr>sp_Message := x\<rparr>) (unmarshal_Message j (sp_Message v))),
      (''returnImmediately'', \<lambda>j v. map_option (\<lambda>x. v\<lparr>sp_ReturnImmediately := x\<rparr>) (decode_pointer decode_bool False j (sp_ReturnImmediately v))),
      (''pushNotification'', \<lambda>j v. map_option (\<lambda>x. v\<lparr>sp_PushNotification := x\<rparr>)
         (decode_pointer unmarshal_PushConfig zero_PushConfig j (sp_PushNotification v)))]"

text \<open>The result of a call, before it is encoded: a task as it is at that moment, its identifier and state only, or a page of tasks.\<close>

datatype a2a_result = TaskResult A2ATask | BriefResult string TaskState | ListResult "A2ATask list" nat

text \<open>What is left to do after a message has been looked at: nothing, to queue the task, or to execute it while the caller waits.\<close>

datatype send_next = SendReply "RPCError + a2a_result" | SendEnqueue nat bool | SendBlock nat bool

definition user_message_of :: "messageSendParams \<Rightarrow> A2AMessage" where
  "user_message_of p =
     (let m = sp_Message p
      in zero_Message\<lparr>am_Role := am_Role m, am_Parts := am_Parts m, am_MessageID := am_MessageID m, am_ContextID := am_ContextID m\<rparr>)"

definition new_task :: "gotime \<Rightarrow> string \<Rightarrow> string \<Rightarrow> messageSendParams \<Rightarrow> MCPIdentity option \<Rightarrow> A2ATask" where
  "new_task now taskID contextID p identity =
     \<lparr>at_ID = taskID, at_ContextID = (if am_ContextID (sp_Message p) = '''' then contextID else am_ContextID (sp_Message p)), at_Status = Submitted,
      at_StatusMessage = None, at_History = [user_message_of p], at_Artifacts = [],
      at_Metadata = (case sp_PushNotification p of Some c \<Rightarrow> if pu_URL c \<noteq> '''' then [(''pushNotification'', MetaPush c)] else [] | None \<Rightarrow> [])
        @ (case identity of Some i \<Rightarrow> [(''governance_identity'', MetaIdentity i)] | None \<Rightarrow> []),
      at_Model = '''', at_CreatedAt = now, at_UpdatedAt = now\<rparr>"

text \<open>\<open>taskID\<close> and \<open>contextID\<close> are the identifiers drawn for a new task.\<close>

definition send_prepare ::
  "gotime \<Rightarrow> string \<Rightarrow> string \<Rightarrow> MCPIdentity option \<Rightarrow> messageSendParams \<Rightarrow> A2AHandler \<Rightarrow> send_next \<times> A2AHandler" where
  "send_prepare now taskID contextID identity p h =
     (let userText = (case find (\<lambda>q. pt_Type q = ''text'') (am_Parts (sp_Message p)) of None \<Rightarrow> '''' | Some q \<Rightarrow> pt_Text q);
          returnImmediately = (case sp_ReturnImmediately p of Some b \<Rightarrow> b | None \<Rightarrow> \<not> a2a_BlockingMode (ah_cfg h));
          go = (\<lambda>a new. if returnImmediately then SendEnqueue a new else SendBlock a new)
      in if userText = '''' then (SendReply (Inl (rpc_error CodeContentTypeNotSupported ''only text parts are supported'')), h)
         else if sp_TaskID p \<noteq> '''' then
           (case store_Get (sp_TaskID p) h of
              (None, h) \<Rightarrow> (SendReply (Inl (rpc_error CodeTaskNotFound (''task not found: '' @ sp_TaskID p))), h)
            | (Some a, h) \<Rightarrow>
                if at_Status (ah_heap h ! a) = Working
                then (SendReply (Inr (BriefResult (at_ID (ah_heap h ! a)) (at_Status (ah_heap h ! a)))), h)
                else (go a False, change_task a (\<lambda>t. t\<lparr>at_Status := Submitted, at_History := at_History t @ [user_message_of p], at_UpdatedAt := now\<rparr>) h))
         else case task_alloc (new_task now taskID contextID p identity) (ah_heap h) of (a, hp) \<Rightarrow> (go a True, h\<lparr>ah_heap := hp\<rparr>))"

definition enqueue :: "nat \<Rightarrow> A2AHandler \<Rightarrow> RPCError option \<times> A2AHandler" where
  "enqueue a h =
     (if ah_shuttingDown h then (Some (rpc_error CodeMaxTasksReached ''server is shutting down''), h)
      else if length (ah_queue h) < 10 * ah_maxWorkers h then (None, h\<lparr>ah_queue := ah_queue h @ [at_ID (ah_heap h ! a)]\<rparr>)
      else (Some (rpc_error CodeMaxTasksReached ''task queue full, try again later''), h))"

definition enqueue_store :: "(gotime \<Rightarrow> gotime) \<Rightarrow> gotime \<Rightarrow> nat \<Rightarrow> bool \<Rightarrow> A2AHandler \<Rightarrow> (RPCError + a2a_result) \<times> A2AHandler" where
  "enqueue_store pg now a isNew h =
     (let h = (if time_IsZero (at_CreatedAt (ah_heap h ! a)) then change_task a (\<lambda>t. t\<lparr>at_CreatedAt := now\<rparr>) h else h)
      in case if isNew then store_Create pg a h else store_Update now a h of
           (Some e, h) \<Rightarrow> (Inl (rpc_error CodeInternalError (''failed to store task: '' @ task_error_text e)), h)
         | (None, h) \<Rightarrow> (Inr (TaskResult (ah_heap h ! a)), h))"

definition enqueueNonBlocking :: "(gotime \<Rightarrow> gotime) \<Rightarrow> gotime \<Rightarrow> nat \<Rightarrow> bool \<Rightarrow> A2AHandler \<Rightarrow> (RPCError + a2a_result) \<times> A2AHandler" where
  "enqueueNonBlocking pg now a isNew h =
     (case enqueue a h of
        (Some err, h) \<Rightarrow> (Inl err, h)
      | (None, h) \<Rightarrow> enqueue_store pg now a isNew h)"

text \<open>\<open>txt\<close> is the text of a JSON object.\<close>

definition part_text :: "((string, json) gomap \<Rightarrow> string) \<Rightarrow> A2APart \<Rightarrow> string option" where
  "part_text txt p =
     (if pt_Type p = ''text'' then (if pt_Text p \<noteq> '''' then Some (pt_Text p) else None)
      else if pt_Type p = ''file'' then
        (if pt_FileURI p \<noteq> '''' then Some (''[file: '' @ pt_FileMIMEType p @ '' '' @ pt_FileURI p @ '']'')
         else if pt_FileBytes p \<noteq> '''' then Some (''[file: '' @ pt_FileMIMEType p @ '' <base64 '' @ itoa (int (length (pt_FileBytes p))) @ '' bytes>]'')
         else None)
      else if pt_Type p = ''data'' then map_option txt (pt_Data p)
      else None)"

definition extractTextFromHistory :: "((string, json) gomap \<Rightarrow> string) \<Rightarrow> A2AMessage list \<Rightarrow> string" where
  "extractTextFromHistory txt ms =
     (case List.map_filter (part_text txt) (concat (map am_Parts ms)) of [] \<Rightarrow> '''' | s # ss \<Rightarrow> s)"

definition blocking_start ::
  "((string, json) gomap \<Rightarrow> string) \<Rightarrow> (gotime \<Rightarrow> gotime) \<Rightarrow> gotime \<Rightarrow> nat \<Rightarrow> bool \<Rightarrow> A2AHandler \<Rightarrow> (RPCError + exec_args) \<times> A2AHandler" where
  "blocking_start txt pg now a isNew h =
     (case if isNew then store_Create pg a h else store_Update now a h of
        (Some e, h) \<Rightarrow> (Inl (rpc_error CodeMaxTasksReached (''failed to store task: '' @ task_error_text e)), h)
      | (None, h) \<Rightarrow>
          let h = change_task a (\<lambda>t. t\<lparr>at_Status := Working\<rparr>) h;
              h = snd (store_Update now a h)
          in (Inr \<lparr>ex_Model = a2a_DefaultModel (ah_cfg h), ex_Text = extractTextFromHistory txt (at_History (ah_heap h ! a)),
                   ex_Identity = task_identity (ah_heap h ! a)\<rparr>, h))"

definition blocking_finish :: "gotime \<Rightarrow> string \<Rightarrow> nat \<Rightarrow> exec_error + ChatResult \<Rightarrow> A2AHandler \<Rightarrow> a2a_result \<times> A2AHandler" where
  "blocking_finish now messageID a outcome h =
     (case outcome of
        Inl e \<Rightarrow>
          let failText = (case e of GovernanceBlocked s \<Rightarrow> blocked_text s | PlainError s \<Rightarrow> s);
              h = change_task a (\<lambda>t. (fail_task messageID failText t)\<lparr>at_UpdatedAt := now\<rparr>) h;
              h = snd (store_Update now a h)
          in (TaskResult (ah_heap h ! a), h)
      | Inr res \<Rightarrow>
          let h = change_task a (complete_task now messageID 0 res) h
          in (TaskResult (ah_heap h ! a), h))"

definition handleMessageSend ::
  "'w a2a_executor \<Rightarrow> ((string, json) gomap \<Rightarrow> string) \<Rightarrow> (gotime \<Rightarrow> gotime) \<Rightarrow> gotime \<Rightarrow> gotime \<Rightarrow> string \<times> string \<times> string
   \<Rightarrow> MCPIdentity option \<Rightarrow> json option \<Rightarrow> A2AHandler \<Rightarrow> 'w \<Rightarrow> ((RPCError + a2a_result) \<times> A2AHandler \<times> 'w) option" where
  "handleMessageSend exec txt pg now now' ids identity params h w =
     (case ids of (taskID, contextID, messageID) \<Rightarrow>
        (case parseParams unmarshal_SendParams zero_SendParams params of
           None \<Rightarrow> Some (Inl (rpc_error CodeInvalidParams ''invalid params''), h, w)
         | Some p \<Rightarrow>
             (case send_prepare now taskID contextID identity p h of
                (SendReply r, h) \<Rightarrow> Some (r, h, w)
              | (SendEnqueue a new, h) \<Rightarrow> (case enqueueNonBlocking pg now a new h of (r, h) \<Rightarrow> Some (r, h, w))
              | (SendBlock a new, h) \<Rightarrow>
                  (case blocking_start txt pg now a new h of
                     (Inl err, h) \<Rightarrow> Some (Inl err, h, w)
                   | (Inr args, h) \<Rightarrow> do {
                       (outcome, w) \<leftarrow> exec args w;
                       (case blocking_finish now' messageID a outcome h of (r, h) \<Rightarrow> Some (Inr r, h, w))
                     }))))"

section \<open>tasks/get, tasks/cancel, tasks/list\<close>

definition unmarshal_ID :: "string decoder" where
  "unmarshal_ID = decode_struct [(''id'', decode_string)]"

definition with_task ::
  "json option \<Rightarrow> (nat \<Rightarrow> A2AHandler \<Rightarrow> ((RPCError + a2a_result) \<times> A2AHandler) option) \<Rightarrow> A2AHandler \<Rightarrow> ((RPCError + a2a_result) \<times> A2AHandler) option" where
  "with_task params f h =
     (case parseParams unmarshal_ID '''' params of
        None \<Rightarrow> Some (Inl (rpc_error CodeInvalidParams ''invalid params''), h)
      | Some i \<Rightarrow>
          if i = '''' then Some (Inl (rpc_error CodeInvalidParams ''id is required''), h)
          else (case store_Get i h of
                  (None, h) \<Rightarrow> Some (Inl (rpc_error CodeTaskNotFound (''task not found: '' @ i)), h)
                | (Some a, h) \<Rightarrow> f a h))"

definition handleTasksGet :: "json option \<Rightarrow> A2AHandler \<Rightarrow> ((RPCError + a2a_result) \<times> A2AHandler) option" where
  "handleTasksGet params = with_task params (\<lambda>a h. Some (Inr (TaskResult (ah_heap h ! a)), h))"

definition cancel_task :: "gotime \<Rightarrow> nat \<Rightarrow> A2AHandler \<Rightarrow> ((RPCError + a2a_result) \<times> A2AHandler) option" where
  "cancel_task now a h =
     (let t = ah_heap h ! a
      in if IsTerminal (at_Status t)
         then Some (Inl (rpc_error CodeTaskNotCancelable (''task not cancelable: state is '' @ state_text (at_Status t))), h)
         else
           let h = (case (at_Status t = Working, gm_get (ah_cancelFuncs h) (at_ID t)) of
                      (True, Some c) \<Rightarrow> h\<lparr>ah_contexts := cancel_ctx c (ah_contexts h)\<rparr>
                    | _ \<Rightarrow> h);
               h = change_task a (\<lambda>t. t\<lparr>at_Status := Canceled\<rparr>) h;
               h = snd (store_Update now a h)
           in map_option (\<lambda>h. (Inr (TaskResult (ah_heap h ! a)), h)) (a2a_notify a h))"

definition handleTasksCancel :: "gotime \<Rightarrow> json option \<Rightarrow> A2AHandler \<Rightarrow> ((RPCError + a2a_result) \<times> A2AHandler) option" where
  "handleTasksCancel now params = with_task params (cancel_task now)"

definition unmarshal_ListParams :: "TaskListFilter decoder" where
  "unmarshal_ListParams = decode_struct
     [(''filter'', decode_struct
        [(''status'', \<lambda>j v. map_option (\<lambda>x. v\<lparr>tf_Status := x\<rparr>) (decode_string j (tf_Status v))),
         (''contextId'', \<lambda>j v. map_option (\<lambda>x. v\<lparr>tf_ContextID := x\<rparr>) (decode_string j (tf_ContextID v)))]),
      (''limit'', \<lambda>j v. map_option (\<lambda>x. v\<lparr>tf_Limit := x\<rparr>) (decode_int j (tf_Limit v))),
      (''offset'', \<lambda>j v. map_option (\<lambda>x. v\<lparr>tf_Offset := x\<rparr>) (decode_int j (tf_Offset v)))]"

definition handleTasksList :: "json option \<Rightarrow> A2AHandler \<Rightarrow> RPCError + a2a_result" where
  "handleTasksList params h =
     (case parseParams unmarshal_ListParams \<lparr>tf_Status = '''', tf_ContextID = '''', tf_Limit = 0, tf_Offset = 0\<rparr> params of
        None \<Rightarrow> Inl (rpc_error CodeInvalidParams ''invalid params'')
      | Some f \<Rightarrow>
          (case store_List f h of
             Inl e \<Rightarrow> Inl (rpc_error CodeInternalError (''list tasks: '' @ task_error_text e))
           | Inr (tasks, n) \<Rightarrow> Inr (ListResult tasks n)))"

section \<open>The entry point\<close>

record a2a_request =
  ar_Method :: string
  ar_Path :: string
  ar_Authorization :: string
  ar_Body :: "json option"

datatype sse_event = TaskUpdate A2ATask | StreamDone

datatype a2a_reply =
    CardReply AgentCard
  | HttpReply int string
  | Unauthorized
  | RpcReply int "RPCError + a2a_result"
  | EventStream "sse_event list"

text \<open>The resolver of virtual keys, when there is one, maps a token to an identity.\<close>

definition a2a_authenticate :: "(string \<Rightarrow> MCPIdentity option) option \<Rightarrow> A2AConfig \<Rightarrow> string \<Rightarrow> MCPIdentity option \<times> bool" where
  "a2a_authenticate resolver cfg header =
     (let mode = ma_Mode (a2a_Authentication cfg)
      in if mode = ''virtual_key'' then
           (case (bearer_token header, resolver) of
              (Some token, Some resolve) \<Rightarrow>
                if strings_HasPrefix token ''gw-'' then (case resolve token of None \<Rightarrow> (None, False) | Some i \<Rightarrow> (Some i, True)) else (None, False)
            | _ \<Rightarrow> (None, False))
         else if mode = ''bearer_token'' then (None, bearer_token header = Some (ma_BearerToken (a2a_Authentication cfg)))
         else (None, True))"

text \<open>The frames a watcher is sent for the updates it receives, up to and including the first final one.\<close>

fun stream_updates :: "A2ATask list \<Rightarrow> sse_event list" where
  "stream_updates [] = []"
| "stream_updates (t # ts) = (if IsTerminal (at_Status t) then [TaskUpdate t, StreamDone] else TaskUpdate t # stream_updates ts)"

text \<open>The stream of a task: the watcher's channel is registered before the task is looked up again; \<open>updates\<close> are the tasks that then
  arrive on it, until the client is gone.\<close>

definition handleTaskStream ::
  "(string \<Rightarrow> MCPIdentity option) option \<Rightarrow> a2a_request \<Rightarrow> A2ATask list \<Rightarrow> A2AHandler \<Rightarrow> (a2a_reply \<times> A2AHandler) option" where
  "handleTaskStream resolver r updates h =
     (if \<not> snd (a2a_authenticate resolver (ah_cfg h) (ar_Authorization r)) then Some (HttpReply 401 ''unauthorized'', h)
      else
        let path = strings_TrimPrefix (ar_Path r) ''/a2a/tasks/'';
            taskID = (if strings_HasSuffix path ''/stream'' then take (length path - 7) path else path)
        in if taskID = '''' then Some (HttpReply 400 ''task id required'', h)
           else (case store_Get taskID h of
                   (None, h) \<Rightarrow> Some (HttpReply 404 ''task not found'', h)
                 | (Some a, h) \<Rightarrow>
                     if IsTerminal (at_Status (ah_heap h ! a)) then Some (EventStream [TaskUpdate (ah_heap h ! a), StreamDone], h)
                     else
                       let (ch, n) = Subscribe taskID (ah_notifier h);
                           h = h\<lparr>ah_notifier := n\<rparr>;
                           leave = (\<lambda>reply h. map_option (\<lambda>n. (reply, h\<lparr>ah_notifier := n\<rparr>)) (Unsubscribe taskID ch (ah_notifier h)))
                       in (case store_Get taskID h of
                             (None, h) \<Rightarrow> leave (HttpReply 404 ''task not found'') h
                           | (Some a, h) \<Rightarrow>
                               if IsTerminal (at_Status (ah_heap h ! a)) then leave (EventStream [TaskUpdate (ah_heap h ! a), StreamDone]) h
                               else leave (EventStream (stream_updates updates)) h)))"

definition A2A_ServeHTTP ::
  "'w a2a_executor \<Rightarrow> ((string, json) gomap \<Rightarrow> string) \<Rightarrow> (gotime \<Rightarrow> gotime) \<Rightarrow> (string \<Rightarrow> MCPIdentity option) option \<Rightarrow> gotime \<Rightarrow> gotime
   \<Rightarrow> string \<times> string \<times> string \<Rightarrow> A2ATask list \<Rightarrow> a2a_request \<Rightarrow> A2AHandler \<Rightarrow> 'w \<Rightarrow> (a2a_reply \<times> A2AHandler \<times> 'w) option" where
  "A2A_ServeHTTP exec txt pg resolver now now' ids updates r h w =
     (if ar_Method r = ''GET'' \<and> ar_Path r = ''/.well-known/agent.json'' then Some (CardReply (ah_card h), h, w)
      else if ar_Method r = ''GET'' \<and> strings_HasPrefix (ar_Path r) ''/a2a/tasks/'' \<and> strings_HasSuffix (ar_Path r) ''/stream''
      then map_option (\<lambda>(reply, h). (reply, h, w)) (handleTaskStream resolver r updates h)
      else if ar_Method r \<noteq> ''POST'' then Some (HttpReply 404 ''404 page not found'', h, w)
      else case a2a_authenticate resolver (ah_cfg h) (ar_Authorization r) of
             (identity, False) \<Rightarrow> Some (Unauthorized, h, w)
           | (identity, True) \<Rightarrow>
               (case (case ar_Body r of None \<Rightarrow> None | Some j \<Rightarrow> unmarshal_RPCRequest j zero_RPCRequest) of
                  None \<Rightarrow> Some (RpcReply 0 (Inl (rpc_error CodeParseError ''parse error'')), h, w)
                | Some req \<Rightarrow>
                    if rq_Method req = ''message/send''
                    then map_option (\<lambda>(x, h, w). (RpcReply (rq_ID req) x, h, w))
                           (handleMessageSend exec txt pg now now' ids identity (rq_Params req) h w)
                    else if rq_Method req = ''tasks/get''
                    then map_option (\<lambda>(x, h). (RpcReply (rq_ID req) x, h, w)) (handleTasksGet (rq_Params req) h)
                    else if rq_Method req = ''tasks/cancel''
                    then map_option (\<lambda>(x, h). (RpcReply (rq_ID req) x, h, w)) (handleTasksCancel now (rq_Params req) h)
                    else if rq_Method req = ''tasks/list'' then Some (RpcReply (rq_ID req) (handleTasksList (rq_Params req) h), h, w)
                    else Some (RpcReply (rq_ID req) (Inl (rpc_error CodeMethodNotFound (''method not found: '' @ rq_Method req))), h, w)))"

text \<open>The first two steps of \<^verbatim>\<open>Shutdown\<close>, before it waits for the workers, and the closing of the notifier after them.\<close>

definition shutdown_begin :: "A2AHandler \<Rightarrow> A2AHandler" where
  "shutdown_begin h = h\<lparr>ah_shuttingDown := True, ah_contexts := fold (\<lambda>(i, c). cancel_ctx c) (ah_cancelFuncs h) (ah_contexts h)\<rparr>"

definition shutdown_end :: "A2AHandler \<Rightarrow> A2AHandler option" where
  "shutdown_end h = map_option (\<lambda>n. h\<lparr>ah_notifier := n\<rparr>) (Notifier_Close (ah_notifier h))"

section \<open>All interleavings\<close>

text \<open>A running server: the handler, the jobs of its workers, the tasks that are queued but not stored yet, and the tasks callers wait for.\<close>

record a2a_sys =
  sy_h :: A2AHandler
  sy_jobs :: "a2a_job list"
  sy_pending :: "(nat \<times> bool) list"
  sy_blocking :: "nat list"

inductive a2a_step :: "((string, json) gomap \<Rightarrow> string) \<Rightarrow> (gotime \<Rightarrow> gotime) \<Rightarrow> a2a_sys \<Rightarrow> a2a_sys \<Rightarrow> bool" for jt and pg where
  replied: "send_prepare now taskID contextID identity p (sy_h S) = (SendReply r, h) \<Longrightarrow> a2a_step jt pg S (S\<lparr>sy_h := h\<rparr>)"
| rejected: "send_prepare now taskID contextID identity p (sy_h S) = (SendEnqueue a new, h) \<Longrightarrow> enqueue a h = (Some err, h') \<Longrightarrow>
    a2a_step jt pg S (S\<lparr>sy_h := h'\<rparr>)"
| queued: "send_prepare now taskID contextID identity p (sy_h S) = (SendEnqueue a new, h) \<Longrightarrow> enqueue a h = (None, h') \<Longrightarrow>
    a2a_step jt pg S (S\<lparr>sy_h := h', sy_pending := (a, new) # sy_pending S\<rparr>)"
| stored: "(a, new) \<in> set (sy_pending S) \<Longrightarrow> enqueue_store pg now a new (sy_h S) = (r, h) \<Longrightarrow>
    a2a_step jt pg S (S\<lparr>sy_h := h, sy_pending := remove1 (a, new) (sy_pending S)\<rparr>)"
| refused: "send_prepare now taskID contextID identity p (sy_h S) = (SendBlock a new, h) \<Longrightarrow> blocking_start jt pg now a new h = (Inl err, h') \<Longrightarrow>
    a2a_step jt pg S (S\<lparr>sy_h := h'\<rparr>)"
| waiting: "send_prepare now taskID contextID identity p (sy_h S) = (SendBlock a new, h) \<Longrightarrow> blocking_start jt pg now a new h = (Inr args, h') \<Longrightarrow>
    a2a_step jt pg S (S\<lparr>sy_h := h', sy_blocking := a # sy_blocking S\<rparr>)"
| answered: "a \<in> set (sy_blocking S) \<Longrightarrow> blocking_finish now messageID a outcome (sy_h S) = (r, h) \<Longrightarrow>
    a2a_step jt pg S (S\<lparr>sy_h := h, sy_blocking := remove1 a (sy_blocking S)\<rparr>)"
| skipped: "ah_queue (sy_h S) = i # q \<Longrightarrow> length (sy_jobs S) < ah_maxWorkers (sy_h S) \<Longrightarrow>
    start_task now i ((sy_h S)\<lparr>ah_queue := q\<rparr>) = Some (None, h) \<Longrightarrow> a2a_step jt pg S (S\<lparr>sy_h := h\<rparr>)"
| started: "ah_queue (sy_h S) = i # q \<Longrightarrow> length (sy_jobs S) < ah_maxWorkers (sy_h S) \<Longrightarrow>
    start_task now i ((sy_h S)\<lparr>ah_queue := q\<rparr>) = Some (Some (job, args), h) \<Longrightarrow>
    a2a_step jt pg S (S\<lparr>sy_h := h, sy_jobs := job # sy_jobs S\<rparr>)"
| finished: "job \<in> set (sy_jobs S) \<Longrightarrow> finish_task now messageID job outcome (sy_h S) = Some h \<Longrightarrow>
    a2a_step jt pg S (S\<lparr>sy_h := h, sy_jobs := remove1 job (sy_jobs S)\<rparr>)"
| canceled: "handleTasksCancel now params (sy_h S) = Some (r, h) \<Longrightarrow> a2a_step jt pg S (S\<lparr>sy_h := h\<rparr>)"
| looked_up: "handleTasksGet params (sy_h S) = Some (r, h) \<Longrightarrow> a2a_step jt pg S (S\<lparr>sy_h := h\<rparr>)"
| watched: "a2a_step jt pg S (S\<lparr>sy_h := (sy_h S)\<lparr>ah_notifier := snd (Subscribe i (ah_notifier (sy_h S)))\<rparr>\<rparr>)"
| received: "c < length (tn_chans (ah_notifier (sy_h S))) \<Longrightarrow>
    a2a_step jt pg S (S\<lparr>sy_h := (sy_h S)\<lparr>ah_notifier := snd (Notifier_Receive c (ah_notifier (sy_h S)))\<rparr>\<rparr>)"
| left: "Unsubscribe i c (ah_notifier (sy_h S)) = Some n \<Longrightarrow> a2a_step jt pg S (S\<lparr>sy_h := (sy_h S)\<lparr>ah_notifier := n\<rparr>\<rparr>)"
| evicted: "ah_store (sy_h S) = InMemory ts \<Longrightarrow>
    a2a_step jt pg S (S\<lparr>sy_h := (sy_h S)\<lparr>ah_store := InMemory (evictExpired now (ah_heap (sy_h S)) ts)\<rparr>\<rparr>)"
| overdue: "c < length (ah_contexts (sy_h S)) \<Longrightarrow> ah_contexts (sy_h S) ! c = CtxLive \<Longrightarrow>
    a2a_step jt pg S (S\<lparr>sy_h := (sy_h S)\<lparr>ah_contexts := (ah_contexts (sy_h S))[c := CtxDeadline]\<rparr>\<rparr>)"
| shutdown: "a2a_step jt pg S (S\<lparr>sy_h := shutdown_begin (sy_h S)\<rparr>)"
| closed: "shutdown_end (sy_h S) = Some h \<Longrightarrow> a2a_step jt pg S (S\<lparr>sy_h := h\<rparr>)"

definition a2a_start :: "gotime \<Rightarrow> A2AConfig \<Rightarrow> TaskStore \<Rightarrow> a2a_sys" where
  "a2a_start now cfg store = \<lparr>sy_h = NewA2AHandler now cfg store, sy_jobs = [], sy_pending = [], sy_blocking = []\<rparr>"

section \<open>What every operation keeps\<close>

definition task_grows :: "A2ATask \<Rightarrow> A2ATask \<Rightarrow> bool" where
  "task_grows t t' \<longleftrightarrow> at_ID t' = at_ID t \<and> at_ContextID t' = at_ContextID t \<and> prefix (at_History t) (at_History t')
     \<and> prefix (at_Artifacts t) (at_Artifacts t')"

definition heap_grows :: "task_heap \<Rightarrow> task_heap \<Rightarrow> bool" where
  "heap_grows hp hp' \<longleftrightarrow> length hp \<le> length hp' \<and> (\<forall>a < length hp. task_grows (hp ! a) (hp' ! a))"

definition store_wf :: "A2AHandler \<Rightarrow> bool" where
  "store_wf h \<longleftrightarrow> (case ah_store h of InMemory ts \<Rightarrow> memory_wf (ah_heap h, ts) | InDatabase db \<Rightarrow> True)"

definition h_inv :: "A2AHandler \<Rightarrow> bool" where
  "h_inv h \<longleftrightarrow> store_wf h \<and> notifier_inv (ah_notifier h) \<and> list_all (\<lambda>(i, c). c < length (ah_contexts h)) (ah_cancelFuncs h)"

text \<open>The rest of what an operation may not change.\<close>

definition h_ext :: "A2AHandler \<Rightarrow> A2AHandler \<Rightarrow> bool" where
  "h_ext h h' \<longleftrightarrow> heap_grows (ah_heap h) (ah_heap h') \<and> length (ah_contexts h) \<le> length (ah_contexts h')
     \<and> ah_maxWorkers h' = ah_maxWorkers h \<and> ah_cfg h' = ah_cfg h"

definition keeps :: "A2AHandler \<Rightarrow> A2AHandler \<Rightarrow> bool" where
  "keeps h h' \<longleftrightarrow> h_inv h' \<and> h_ext h h' \<and> ah_queue h' = ah_queue h"

lemma task_grows_refl [simp]: "task_grows t t"
  by (simp add: task_grows_def)

lemma task_grows_trans: "task_grows t u \<Longrightarrow> task_grows u v \<Longrightarrow> task_grows t v"
  by (auto simp: task_grows_def intro: prefix_order.order_trans)

lemma heap_grows_refl [simp]: "heap_grows hp hp"
  by (simp add: heap_grows_def)

lemma heap_grows_trans: "heap_grows h1 h2 \<Longrightarrow> heap_grows h2 h3 \<Longrightarrow> heap_grows h1 h3"
  unfolding heap_grows_def by (meson task_grows_trans order.strict_trans2 order.trans)

lemma heap_grows_append [simp]: "heap_grows hp (hp @ [t])"
  by (simp add: heap_grows_def nth_append)

lemma heap_grows_change: "(\<And>t. task_grows t (f t)) \<Longrightarrow> heap_grows hp (task_change a f hp)"
proof -
  assume f: "\<And>t. task_grows t (f t)"
  have "task_grows (hp ! b) (hp[a := f (hp ! a)] ! b)" if "b < length hp" for b using f that by (cases "b = a") simp_all
  then show ?thesis by (simp add: heap_grows_def task_change_def)
qed

lemma same_objects_grows:
  assumes "same_objects hp hp'"
  shows "heap_grows hp hp'"
proof -
  have "task_grows (hp ! a) (hp' ! a)" if a: "a < length hp" for a
  proof -
    from assms a obtain u where "hp' ! a = (hp ! a)\<lparr>at_UpdatedAt := u\<rparr>" by (auto simp: same_objects_def)
    then show ?thesis by (simp add: task_grows_def)
  qed
  with assms show ?thesis by (simp add: heap_grows_def same_objects_def)
qed

lemma h_ext_refl [simp]: "h_ext h h"
  by (simp add: h_ext_def)

lemma h_ext_trans: "h_ext h1 h2 \<Longrightarrow> h_ext h2 h3 \<Longrightarrow> h_ext h1 h3"
  by (auto simp: h_ext_def intro: heap_grows_trans)

lemma keeps_trans: "keeps h1 h2 \<Longrightarrow> keeps h2 h3 \<Longrightarrow> keeps h1 h3"
  by (auto simp: keeps_def intro: h_ext_trans)

lemma keeps_refl: "h_inv h \<Longrightarrow> keeps h h"
  by (simp add: keeps_def)

lemma keeps_length: "keeps h h' \<Longrightarrow> a < length (ah_heap h) \<Longrightarrow> a < length (ah_heap h') \<and> at_ID (ah_heap h' ! a) = at_ID (ah_heap h ! a)"
  by (auto simp: keeps_def h_ext_def heap_grows_def task_grows_def)

lemma memory_wf_grows:
  assumes "memory_wf (hp, ts)" and "heap_grows hp hp'"
  shows "memory_wf (hp', ts)"
proof (rule memory_wf_intro)
  show "gm_ok (mt_tasks ts)" using assms(1) by (simp add: memory_wf_def)
  show "a < length hp' \<and> at_ID (hp' ! a) = i" if "gm_get (mt_tasks ts) i = Some a" for i a
    using memory_wf_get [OF assms(1), of i a] assms(2) that by (auto simp: heap_grows_def task_grows_def)
qed

lemma store_wf_grows: "store_wf h \<Longrightarrow> heap_grows (ah_heap h) hp \<Longrightarrow> store_wf (h\<lparr>ah_heap := hp\<rparr>)"
  by (auto simp: store_wf_def memory_wf_grows split: TaskStore.splits)

lemma keeps_heap: "h_inv h \<Longrightarrow> heap_grows (ah_heap h) hp \<Longrightarrow> keeps h (h\<lparr>ah_heap := hp\<rparr>)"
  using store_wf_grows [of h hp] by (simp add: keeps_def h_inv_def h_ext_def)

lemma keeps_frame:
  assumes "h_inv h" and "ah_store h' = ah_store h" "ah_heap h' = ah_heap h" "ah_cfg h' = ah_cfg h" "ah_maxWorkers h' = ah_maxWorkers h"
    "ah_queue h' = ah_queue h" and "notifier_inv (ah_notifier h')" and "length (ah_contexts h) \<le> length (ah_contexts h')"
    and "\<And>i c. (i, c) \<in> set (ah_cancelFuncs h') \<Longrightarrow> c < length (ah_contexts h')"
  shows "keeps h h'"
proof -
  have "store_wf h' = store_wf h" by (cases "ah_store h") (simp_all add: store_wf_def assms)
  with assms show ?thesis by (auto simp: keeps_def h_inv_def h_ext_def list_all_iff)
qed

lemma cancel_valid: "h_inv h \<Longrightarrow> (i, c) \<in> set (ah_cancelFuncs h) \<Longrightarrow> c < length (ah_contexts h)"
  by (auto simp: h_inv_def list_all_iff)

lemma gm_set_mem: "(k', v') \<in> set (gm_set k v m) \<Longrightarrow> (k', v') = (k, v) \<or> (k', v') \<in> set m"
  unfolding gm_set_def by (induction m) (auto split: if_splits)

lemma gm_delete_mem: "(k', v') \<in> set (gm_delete k m) \<Longrightarrow> (k', v') \<in> set m"
  unfolding gm_delete_def by (induction m) (auto split: if_splits)

lemma keeps_change: "h_inv h \<Longrightarrow> (\<And>t. task_grows t (f t)) \<Longrightarrow> keeps h (change_task a f h)"
  unfolding change_task_def by (intro keeps_heap heap_grows_change)

lemma keeps_Get:
  assumes "h_inv h" and "store_Get i h = (r, h')"
  shows "keeps h h'" and "r = Some a \<Longrightarrow> a < length (ah_heap h') \<and> at_ID (ah_heap h' ! a) = i"
proof -
  have "keeps h h' \<and> (r = Some a \<longrightarrow> a < length (ah_heap h') \<and> at_ID (ah_heap h' ! a) = i)"
  proof (cases "ah_store h")
    case (InMemory ts)
    with assms show ?thesis using memory_wf_get [of "(ah_heap h, ts)" i a]
      by (auto simp: store_Get_def Memory_Get_def keeps_refl h_inv_def store_wf_def)
  next
    case (InDatabase db)
    have "at_ID t = i" if "Persistent_Get i db = Some t" for t
      using that by (auto simp: Persistent_Get_def scanTask_def bind_eq_Some_conv find_Some_iff split: option.splits)
    with InDatabase assms show ?thesis
      by (auto simp: store_Get_def task_alloc_def keeps_refl intro: keeps_heap split: option.splits)
  qed
  then show "keeps h h'" and "r = Some a \<Longrightarrow> a < length (ah_heap h') \<and> at_ID (ah_heap h' ! a) = i" by blast+
qed

lemma keeps_Update:
  assumes "h_inv h" and "a < length (ah_heap h)"
  shows "keeps h (snd (store_Update now a h))"
proof (cases "ah_store h")
  case (InMemory ts)
  obtain hp ts' where u: "Memory_Update now a (ah_heap h) ts = (hp, ts')" by force
  then have hp: "hp = task_change a (\<lambda>t. t\<lparr>at_UpdatedAt := now\<rparr>) (ah_heap h)" "ts' = ts\<lparr>mt_tasks := gm_set (at_ID (ah_heap h ! a)) a (mt_tasks ts)\<rparr>"
    by (simp_all add: Memory_Update_def)
  have "memory_wf (hp, ts')" using memory_put(1) [of "ah_heap h" ts a hp ts'] same_objects_touch assms InMemory hp
    by (simp add: h_inv_def store_wf_def)
  moreover have "heap_grows (ah_heap h) hp" using same_objects_grows [OF same_objects_touch] hp by simp
  ultimately show ?thesis using assms(1) InMemory u by (simp add: store_Update_def keeps_def h_inv_def store_wf_def h_ext_def)
next
  case (InDatabase db)
  with assms(1) show ?thesis by (auto simp: store_Update_def keeps_def h_inv_def store_wf_def h_ext_def split: prod.split)
qed

lemma keeps_Create:
  assumes "h_inv h" and "a < length (ah_heap h)"
  shows "keeps h (snd (store_Create pg a h))"
proof (cases "ah_store h")
  case (InMemory ts)
  obtain e ts' where c: "Memory_Create a (ah_heap h) ts = (e, ts')" by force
  then have "ts' = ts \<or> ts' = ts\<lparr>mt_tasks := gm_set (at_ID (ah_heap h ! a)) a (mt_tasks ts)\<rparr>" by (auto simp: Memory_Create_def split: if_splits)
  then have "memory_wf (ah_heap h, ts')" using memory_put(1) [of "ah_heap h" ts a "ah_heap h" ts'] assms InMemory
    by (auto simp: h_inv_def store_wf_def)
  then show ?thesis using assms(1) InMemory c by (simp add: store_Create_def keeps_def h_inv_def store_wf_def h_ext_def)
next
  case (InDatabase db)
  with assms(1) show ?thesis by (auto simp: store_Create_def keeps_def h_inv_def store_wf_def h_ext_def split: prod.split)
qed

lemma keeps_notify:
  assumes "h_inv h"
  shows "\<exists>h'. a2a_notify a h = Some h' \<and> keeps h h' \<and> ah_heap h' = ah_heap h"
proof -
  obtain n where "Notifier_Notify (at_ID (ah_heap h ! a)) a (ah_notifier h) = Some n" "notifier_inv n"
    using Notify_inv [of "ah_notifier h" "at_ID (ah_heap h ! a)" a] assms by (auto simp: h_inv_def)
  moreover from this assms have "keeps h (h\<lparr>ah_notifier := n, ah_bridge := b, ah_pushed := ps\<rparr>)" for b ps
    by (intro keeps_frame) (simp_all add: cancel_valid)
  ultimately show ?thesis by (simp add: a2a_notify_def Let_def)
qed

lemma cancel_ctx_length [simp]: "length (cancel_ctx c ctxs) = length ctxs"
  by (simp add: cancel_ctx_def)

lemma keeps_contexts:
  assumes "h_inv h" and "length ctxs = length (ah_contexts h)"
  shows "keeps h (h\<lparr>ah_contexts := ctxs\<rparr>)"
  using assms cancel_valid [OF assms(1)] by (intro keeps_frame) (simp_all add: h_inv_def)

lemma keeps_forget:
  assumes "h_inv h"
  shows "keeps h (h\<lparr>ah_cancelFuncs := gm_delete i (ah_cancelFuncs h)\<rparr>)"
proof (rule keeps_frame [OF assms])
  fix j c
  assume "(j, c) \<in> set (ah_cancelFuncs (h\<lparr>ah_cancelFuncs := gm_delete i (ah_cancelFuncs h)\<rparr>))"
  then have "(j, c) \<in> set (ah_cancelFuncs h)" using gm_delete_mem by simp
  then show "c < length (ah_contexts (h\<lparr>ah_cancelFuncs := gm_delete i (ah_cancelFuncs h)\<rparr>))" using cancel_valid [OF assms] by simp
qed (use assms in \<open>simp_all add: h_inv_def\<close>)

lemma keeps_new_context:
  assumes "h_inv h"
  shows "keeps h (h\<lparr>ah_contexts := ah_contexts h @ [x], ah_cancelFuncs := gm_set i (length (ah_contexts h)) (ah_cancelFuncs h)\<rparr>)"
proof (rule keeps_frame [OF assms])
  fix j c
  assume "(j, c) \<in> set (ah_cancelFuncs (h\<lparr>ah_contexts := ah_contexts h @ [x], ah_cancelFuncs := gm_set i (length (ah_contexts h)) (ah_cancelFuncs h)\<rparr>))"
  then have "(j, c) = (i, length (ah_contexts h)) \<or> (j, c) \<in> set (ah_cancelFuncs h)" using gm_set_mem by simp
  then show "c < length (ah_contexts (h\<lparr>ah_contexts := ah_contexts h @ [x], ah_cancelFuncs := gm_set i (length (ah_contexts h)) (ah_cancelFuncs h)\<rparr>))"
    using cancel_valid [OF assms] by fastforce
qed (use assms in \<open>simp_all add: h_inv_def\<close>)

text \<open>The changes the handler makes to a task.\<close>

lemma task_changes_grow:
  "task_grows t (t\<lparr>at_Status := s\<rparr>)" "task_grows t (t\<lparr>at_CreatedAt := now\<rparr>)" "task_grows t (end_state now m ctx outcome t)"
  "task_grows t (complete_task now m i res t)" "task_grows t ((fail_task m e t)\<lparr>at_UpdatedAt := now\<rparr>)"
  "task_grows t (t\<lparr>at_Status := s, at_History := at_History t @ [msg], at_UpdatedAt := now\<rparr>)"
  by (auto simp: task_grows_def end_state_def complete_task_def fail_task_def Let_def split: sum.split exec_error.split)

text \<open>A changed task is written back.\<close>

lemma keeps_write:
  assumes "h_inv h" and "a < length (ah_heap h)" and "\<And>t. task_grows t (f t)"
  shows "keeps h (snd (store_Update now a (change_task a f h)))"
proof -
  have 1: "keeps h (change_task a f h)" by (rule keeps_change [OF assms(1,3)])
  then have "h_inv (change_task a f h)" and "a < length (ah_heap (change_task a f h))"
    using keeps_length assms(2) by (auto simp: keeps_def)
  from keeps_trans [OF 1 keeps_Update [OF this]] show ?thesis .
qed

lemma keeps_inv: "keeps h h' \<Longrightarrow> h_inv h'"
  by (simp add: keeps_def)

lemma start_task_keeps:
  assumes "h_inv h"
  shows "\<exists>r h'. start_task now i h = Some (r, h') \<and> keeps h h'
    \<and> (case r of None \<Rightarrow> True | Some (job, args) \<Rightarrow> jb_addr job < length (ah_heap h') \<and> jb_task job = at_ID (ah_heap h' ! jb_addr job)
         \<and> jb_ctx job < length (ah_contexts h') \<and> jb_task job = i)"
proof -
  obtain g h1 where g: "store_Get i h = (g, h1)" by force
  note k1 = keeps_Get [OF assms g]
  show ?thesis
  proof (cases g)
    case None
    with g k1(1) show ?thesis by (simp add: start_task_def)
  next
    case (Some a)
    note a = k1(2) [OF Some]
    let ?h2 = "h1\<lparr>ah_contexts := ah_contexts h1 @ [CtxLive], ah_cancelFuncs := gm_set i (length (ah_contexts h1)) (ah_cancelFuncs h1)\<rparr>"
    have k2: "keeps h1 ?h2" by (rule keeps_new_context [OF keeps_inv [OF k1(1)]])
    let ?h3 = "snd (store_Update now a (change_task a (\<lambda>t. t\<lparr>at_Status := Working\<rparr>) ?h2))"
    have k3: "keeps ?h2 ?h3" using a by (intro keeps_write keeps_inv [OF k2] task_changes_grow) simp
    obtain h4 where n: "a2a_notify a ?h3 = Some h4" "keeps ?h3 h4" using keeps_notify [OF keeps_inv [OF k3]] by blast
    have k24: "keeps ?h2 h4" using keeps_trans [OF k3 n(2)] .
    have k: "keeps h h4" using keeps_trans [OF keeps_trans [OF k1(1) k2] k24] .
    have "length (ah_contexts h1) < length (ah_contexts h4)" using k24 by (auto simp: keeps_def h_ext_def)
    moreover have "a < length (ah_heap h4) \<and> at_ID (ah_heap h4 ! a) = i" using keeps_length [OF k24, of a] a by simp
    ultimately show ?thesis using g Some n(1) k by (simp add: start_task_def Let_def)
  qed
qed

lemma finish_task_keeps:
  assumes "h_inv h" and "jb_addr job < length (ah_heap h)"
  shows "\<exists>h'. finish_task now m job outcome h = Some h' \<and> keeps h h'"
proof -
  let ?h1 = "snd (store_Update now (jb_addr job) (change_task (jb_addr job) (end_state now m (ah_contexts h ! jb_ctx job) outcome) h))"
  have k1: "keeps h ?h1" by (intro keeps_write assms task_changes_grow)
  obtain h2 where n: "a2a_notify (jb_addr job) ?h1 = Some h2" "keeps ?h1 h2" using keeps_notify [OF keeps_inv [OF k1]] by blast
  let ?h3 = "h2\<lparr>ah_contexts := cancel_ctx (jb_ctx job) (ah_contexts h2)\<rparr>"
  have k3: "keeps h2 ?h3" by (rule keeps_contexts [OF keeps_inv [OF n(2)]]) simp
  have k4: "keeps ?h3 (?h3\<lparr>ah_cancelFuncs := gm_delete (jb_task job) (ah_cancelFuncs ?h3)\<rparr>)" by (rule keeps_forget [OF keeps_inv [OF k3]])
  from n(1) have "finish_task now m job outcome h = Some (?h3\<lparr>ah_cancelFuncs := gm_delete (jb_task job) (ah_cancelFuncs ?h3)\<rparr>)"
    by (simp add: finish_task_def Let_def)
  with keeps_trans [OF keeps_trans [OF keeps_trans [OF k1 n(2)] k3] k4] show ?thesis by blast
qed

lemma send_prepare_keeps:
  assumes "h_inv h" and "send_prepare now i c identity p h = (r, h')"
  shows "keeps h h' \<and> (case r of SendReply x \<Rightarrow> True | SendEnqueue a new \<Rightarrow> a < length (ah_heap h') | SendBlock a new \<Rightarrow> a < length (ah_heap h'))"
proof -
  define go where "go = (\<lambda>a new. if case sp_ReturnImmediately p of Some b \<Rightarrow> b | None \<Rightarrow> \<not> a2a_BlockingMode (ah_cfg h) then SendEnqueue a new else SendBlock a new)"
  define ut where "ut = (case find (\<lambda>q. pt_Type q = ''text'') (am_Parts (sp_Message p)) of None \<Rightarrow> '''' | Some q \<Rightarrow> pt_Text q)"
  have go: "(case go a new of SendReply x \<Rightarrow> True | SendEnqueue a new \<Rightarrow> P a | SendBlock a new \<Rightarrow> P a) = P a" for a new P by (simp add: go_def)
  note def = send_prepare_def [of now i c identity p h, unfolded Let_def, folded ut_def go_def]
  show ?thesis
  proof (cases "ut = ''''")
    case True
    with assms show ?thesis by (auto simp: def keeps_refl)
  next
    case ut: False
    show ?thesis
    proof (cases "sp_TaskID p = ''''")
      case True
      with assms ut have "r = go (length (ah_heap h)) True" "h' = h\<lparr>ah_heap := ah_heap h @ [new_task now i c p identity]\<rparr>"
        by (auto simp: def task_alloc_def go_def)
      with assms(1) show ?thesis by (simp add: go keeps_heap)
    next
      case False
      obtain g h1 where g: "store_Get (sp_TaskID p) h = (g, h1)" by force
      note k1 = keeps_Get [OF assms(1) g]
      show ?thesis
      proof (cases "case g of None \<Rightarrow> True | Some a \<Rightarrow> at_Status (ah_heap h1 ! a) = Working")
        case True
        with assms(2) ut False g k1(1) show ?thesis by (auto simp: def split: option.splits if_splits)
      next
        case x: False
        then obtain a where a: "g = Some a" "at_Status (ah_heap h1 ! a) \<noteq> Working" by (auto split: option.splits)
        let ?f = "\<lambda>t. t\<lparr>at_Status := Submitted, at_History := at_History t @ [user_message_of p], at_UpdatedAt := now\<rparr>"
        from assms(2) ut False g a have r: "r = go a False" "h' = change_task a ?f h1" by (auto simp: def go_def)
        have "keeps h1 (change_task a ?f h1)" by (intro keeps_change keeps_inv [OF k1(1)] task_changes_grow)
        with k1 a r show ?thesis by (simp add: go keeps_trans [OF k1(1)] keeps_length)
      qed
    qed
  qed
qed

lemma write_task_keeps:
  assumes "h_inv h" and "a < length (ah_heap h)" and "(if new then store_Create pg a h else store_Update now a h) = (e, h')"
  shows "keeps h h'"
proof -
  have "h' = snd (store_Create pg a h) \<or> h' = snd (store_Update now a h)" using assms(3) by (cases new) simp_all
  with keeps_Create [OF assms(1,2)] keeps_Update [OF assms(1,2)] show ?thesis by metis
qed

lemma enqueue_store_keeps:
  assumes "h_inv h" and "a < length (ah_heap h)" and "enqueue_store pg now a new h = (r, h')"
  shows "keeps h h'"
proof -
  define h1 where "h1 = (if time_IsZero (at_CreatedAt (ah_heap h ! a)) then change_task a (\<lambda>t. t\<lparr>at_CreatedAt := now\<rparr>) h else h)"
  have k1: "keeps h h1" using keeps_change [OF assms(1) task_changes_grow(2)] keeps_refl [OF assms(1)] by (simp add: h1_def)
  obtain e h2 where w: "(if new then store_Create pg a h1 else store_Update now a h1) = (e, h2)" by force
  have "keeps h1 h2" using write_task_keeps [OF keeps_inv [OF k1] _ w] keeps_length [OF k1 assms(2)] by blast
  moreover have "h' = h2" using assms(3) w unfolding enqueue_store_def Let_def h1_def [symmetric] by (cases e) simp_all
  ultimately show ?thesis using keeps_trans [OF k1] by blast
qed

lemma blocking_start_keeps:
  assumes "h_inv h" and "a < length (ah_heap h)" and "blocking_start jt pg now a new h = (r, h')"
  shows "keeps h h'"
proof -
  obtain e h1 where w: "(if new then store_Create pg a h else store_Update now a h) = (e, h1)" by force
  note k1 = write_task_keeps [OF assms(1,2) w]
  have a1: "a < length (ah_heap h1)" using keeps_length [OF k1 assms(2)] by blast
  show ?thesis
  proof (cases e)
    case None
    with assms(3) w have h': "h' = snd (store_Update now a (change_task a (\<lambda>t. t\<lparr>at_Status := Working\<rparr>) h1))"
      by (simp add: blocking_start_def Let_def)
    show ?thesis unfolding h' by (intro keeps_trans [OF k1] keeps_write keeps_inv [OF k1] a1 task_changes_grow)
  next
    case (Some x)
    with assms(3) w k1 show ?thesis by (auto simp: blocking_start_def)
  qed
qed

lemma blocking_finish_keeps:
  assumes "h_inv h" and "a < length (ah_heap h)" and "blocking_finish now m a outcome h = (r, h')"
  shows "keeps h h'"
proof (cases outcome)
  case (Inl e)
  define s where "s = (case e of GovernanceBlocked s \<Rightarrow> blocked_text s | PlainError s \<Rightarrow> s)"
  have h': "h' = snd (store_Update now a (change_task a (\<lambda>t. (fail_task m s t)\<lparr>at_UpdatedAt := now\<rparr>) h))"
    using assms(3) Inl unfolding blocking_finish_def Let_def s_def by simp
  show ?thesis unfolding h' by (intro keeps_write assms task_changes_grow)
next
  case (Inr res)
  with assms(3) have "h' = change_task a (complete_task now m 0 res) h" by (auto simp: blocking_finish_def Let_def)
  with keeps_change [OF assms(1) task_changes_grow(4)] show ?thesis by simp
qed

lemma cancel_task_keeps:
  assumes "h_inv h" and "a < length (ah_heap h)"
  shows "\<exists>r h'. cancel_task now a h = Some (r, h') \<and> keeps h h'"
proof (cases "IsTerminal (at_Status (ah_heap h ! a))")
  case True
  with assms show ?thesis by (simp add: cancel_task_def Let_def keeps_refl)
next
  case False
  define h1 where "h1 = (case (at_Status (ah_heap h ! a) = Working, gm_get (ah_cancelFuncs h) (at_ID (ah_heap h ! a))) of
      (True, Some c) \<Rightarrow> h\<lparr>ah_contexts := cancel_ctx c (ah_contexts h)\<rparr> | _ \<Rightarrow> h)"
  have k1: "keeps h h1" using keeps_contexts [OF assms(1)] keeps_refl [OF assms(1)] by (auto simp: h1_def split: bool.split option.split)
  let ?h2 = "snd (store_Update now a (change_task a (\<lambda>t. t\<lparr>at_Status := Canceled\<rparr>) h1))"
  have k2: "keeps h1 ?h2" using keeps_length [OF k1 assms(2)] by (intro keeps_write keeps_inv [OF k1] task_changes_grow) blast
  obtain h3 where n: "a2a_notify a ?h2 = Some h3" "keeps ?h2 h3" using keeps_notify [OF keeps_inv [OF k2]] by blast
  from False n(1) have "cancel_task now a h = Some (Inr (TaskResult (ah_heap h3 ! a)), h3)"
    unfolding cancel_task_def Let_def h1_def [symmetric] by simp
  with keeps_trans [OF keeps_trans [OF k1 k2] n(2)] show ?thesis by blast
qed

lemma with_task_keeps:
  assumes "h_inv h" and "\<And>a h. h_inv h \<Longrightarrow> a < length (ah_heap h) \<Longrightarrow> \<exists>r h'. f a h = Some (r, h') \<and> keeps h h'"
  shows "\<exists>r h'. with_task params f h = Some (r, h') \<and> keeps h h'"
proof (cases "parseParams unmarshal_ID '''' params")
  case None
  with assms(1) show ?thesis by (simp add: with_task_def keeps_refl)
next
  case (Some i)
  obtain g h1 where g: "store_Get i h = (g, h1)" by force
  note k1 = keeps_Get [OF assms(1) g]
  show ?thesis
  proof (cases g)
    case None
    with Some g k1(1) assms(1) show ?thesis by (simp add: with_task_def keeps_refl)
  next
    case (Some a)
    then obtain r h' where "f a h1 = Some (r, h')" "keeps h1 h'" using assms(2) [of h1 a] keeps_inv [OF k1(1)] k1(2) by blast
    with \<open>parseParams unmarshal_ID '''' params = Some i\<close> Some g keeps_trans [OF k1(1)] assms(1) show ?thesis
      by (cases "i = ''''") (simp_all add: with_task_def keeps_refl)
  qed
qed

lemma enqueue_result:
  assumes "enqueue a h = (e, h')"
  shows "h' = h \<or> (e = None \<and> length (ah_queue h) < 10 * ah_maxWorkers h \<and> h' = h\<lparr>ah_queue := ah_queue h @ [at_ID (ah_heap h ! a)]\<rparr>)"
  using assms by (auto simp: enqueue_def split: if_splits)

section \<open>Every interleaving is well formed\<close>

definition sys_inv :: "a2a_sys \<Rightarrow> bool" where
  "sys_inv S \<longleftrightarrow> h_inv (sy_h S) \<and> length (ah_queue (sy_h S)) \<le> 10 * ah_maxWorkers (sy_h S) \<and> length (sy_jobs S) \<le> ah_maxWorkers (sy_h S)
     \<and> (\<forall>job \<in> set (sy_jobs S). jb_addr job < length (ah_heap (sy_h S)) \<and> jb_task job = at_ID (ah_heap (sy_h S) ! jb_addr job)
          \<and> jb_ctx job < length (ah_contexts (sy_h S)))
     \<and> (\<forall>(a, new) \<in> set (sy_pending S). a < length (ah_heap (sy_h S))) \<and> (\<forall>a \<in> set (sy_blocking S). a < length (ah_heap (sy_h S)))"

text \<open>A step that keeps the handler's invariant and only drops work keeps the invariant of the system.\<close>

lemma sys_inv_keeps:
  assumes "sys_inv S" and "keeps h h'" and "h = sy_h S \<or> h = (sy_h S)\<lparr>ah_queue := q\<rparr>" and "length (ah_queue h) \<le> 10 * ah_maxWorkers h"
    and "set jobs \<subseteq> set (sy_jobs S)" and "length jobs \<le> length (sy_jobs S)" and "set pending \<subseteq> set (sy_pending S)"
    and "set blocking \<subseteq> set (sy_blocking S)"
  shows "sys_inv (S\<lparr>sy_h := h', sy_jobs := jobs, sy_pending := pending, sy_blocking := blocking\<rparr>)"
proof -
  have same: "ah_heap h = ah_heap (sy_h S)" "ah_maxWorkers h = ah_maxWorkers (sy_h S)" "ah_contexts h = ah_contexts (sy_h S)" using assms(3) by auto
  have l: "a < length (ah_heap h')" "at_ID (ah_heap h' ! a) = at_ID (ah_heap (sy_h S) ! a)" if "a < length (ah_heap (sy_h S))" for a
    using keeps_length [OF assms(2), of a] that same by simp_all
  have e: "h_inv h'" "length (ah_contexts (sy_h S)) \<le> length (ah_contexts h')" "ah_maxWorkers h' = ah_maxWorkers (sy_h S)" "ah_queue h' = ah_queue h"
    using assms(2) same by (simp_all add: keeps_def h_ext_def)
  have "\<forall>job \<in> set jobs. jb_addr job < length (ah_heap h') \<and> jb_task job = at_ID (ah_heap h' ! jb_addr job) \<and> jb_ctx job < length (ah_contexts h')"
  proof
    fix job
    assume "job \<in> set jobs"
    with assms(5) have "job \<in> set (sy_jobs S)" by blast
    with assms(1) have j: "jb_addr job < length (ah_heap (sy_h S))" "jb_task job = at_ID (ah_heap (sy_h S) ! jb_addr job)"
      "jb_ctx job < length (ah_contexts (sy_h S))" by (simp_all add: sys_inv_def)
    with l [OF j(1)] e(2) show "jb_addr job < length (ah_heap h') \<and> jb_task job = at_ID (ah_heap h' ! jb_addr job) \<and> jb_ctx job < length (ah_contexts h')"
      by simp
  qed
  moreover have "\<forall>(a, new) \<in> set pending. a < length (ah_heap h')" "\<forall>a \<in> set blocking. a < length (ah_heap h')"
    using assms(1,7,8) l(1) unfolding sys_inv_def by fast+
  moreover have "length jobs \<le> ah_maxWorkers h'" "length (ah_queue h') \<le> 10 * ah_maxWorkers h'"
    using assms(1,4,6) e same unfolding sys_inv_def by auto
  ultimately show ?thesis using e(1) unfolding sys_inv_def by simp
qed

lemma sys_inv_h: "sys_inv S \<Longrightarrow> h_inv (sy_h S)"
  by (simp add: sys_inv_def)

lemma sys_inv_step1:
  assumes "sys_inv S" and "keeps (sy_h S) h'"
  shows "sys_inv (S\<lparr>sy_h := h'\<rparr>)"
  using sys_inv_keeps [OF assms, of "[]" "sy_jobs S" "sy_pending S" "sy_blocking S"] assms(1) by (simp add: sys_inv_def)

lemma dequeue_inv: "h_inv h \<Longrightarrow> h_inv (h\<lparr>ah_queue := q\<rparr>)"
  by (simp add: h_inv_def store_wf_def split: TaskStore.split TaskStore.split_asm)

lemma enqueue_inv:
  assumes "sys_inv S" and "keeps (sy_h S) h" and "enqueue a h = (e, h')"
  shows "sys_inv (S\<lparr>sy_h := h'\<rparr>)" and "heap_grows (ah_heap (sy_h S)) (ah_heap h')" and "ah_heap h' = ah_heap h"
proof -
  have S1: "sys_inv (S\<lparr>sy_h := h\<rparr>)" by (rule sys_inv_step1 [OF assms(1,2)])
  from enqueue_result [OF assms(3)] show h: "ah_heap h' = ah_heap h" by auto
  with assms(2) show "heap_grows (ah_heap (sy_h S)) (ah_heap h')" by (simp add: keeps_def h_ext_def)
  have q: "ah_contexts h' = ah_contexts h" "ah_maxWorkers h' = ah_maxWorkers h" using enqueue_result [OF assms(3)] by auto
  have "h_inv h'" using enqueue_result [OF assms(3)] keeps_inv [OF assms(2)] dequeue_inv by auto
  moreover have "length (ah_queue h') \<le> 10 * ah_maxWorkers h'" using enqueue_result [OF assms(3)] S1 by (auto simp: sys_inv_def)
  ultimately show "sys_inv (S\<lparr>sy_h := h'\<rparr>)" using S1 h q by (simp add: sys_inv_def)
qed

text \<open>What a step does to the objects.\<close>

lemma a2a_step_inv:
  assumes "a2a_step jt pg S S'" and "sys_inv S"
  shows "sys_inv S' \<and> heap_grows (ah_heap (sy_h S)) (ah_heap (sy_h S'))"
  using assms
proof (induction rule: a2a_step.induct)
  case (replied now taskID contextID identity p S r h)
  from send_prepare_keeps [OF sys_inv_h [OF replied.prems] replied.hyps] have "keeps (sy_h S) h" by simp
  with sys_inv_step1 [OF replied.prems] show ?case by (simp add: keeps_def h_ext_def)
next
  case (rejected now taskID contextID identity p S a new h err h')
  from send_prepare_keeps [OF sys_inv_h [OF rejected.prems] rejected.hyps(1)] have "keeps (sy_h S) h" by simp
  with enqueue_inv [OF rejected.prems _ rejected.hyps(2)] show ?case by simp
next
  case (queued now taskID contextID identity p S a new h h')
  from send_prepare_keeps [OF sys_inv_h [OF queued.prems] queued.hyps(1)] have k: "keeps (sy_h S) h" "a < length (ah_heap h)" by simp_all
  note e = enqueue_inv [OF queued.prems k(1) queued.hyps(2)]
  from e(1) k(2) e(3) show ?case using e(2) by (simp add: sys_inv_def)
next
  case (stored a new S now r h)
  then have "a < length (ah_heap (sy_h S))" by (auto simp: sys_inv_def)
  from enqueue_store_keeps [OF sys_inv_h [OF stored.prems] this stored.hyps(2)] have k: "keeps (sy_h S) h" .
  have "sys_inv (S\<lparr>sy_h := h, sy_jobs := sy_jobs S, sy_pending := remove1 (a, new) (sy_pending S), sy_blocking := sy_blocking S\<rparr>)"
    using stored.prems by (intro sys_inv_keeps [OF stored.prems k]) (auto simp: sys_inv_def dest: set_remove1_subset [THEN subsetD])
  with k show ?case by (simp add: keeps_def h_ext_def)
next
  case (refused now taskID contextID identity p S a new h err h')
  from send_prepare_keeps [OF sys_inv_h [OF refused.prems] refused.hyps(1)] have k: "keeps (sy_h S) h" "a < length (ah_heap h)" by simp_all
  from keeps_trans [OF k(1) blocking_start_keeps [OF keeps_inv [OF k(1)] k(2) refused.hyps(2)]] have "keeps (sy_h S) h'" .
  with sys_inv_step1 [OF refused.prems] show ?case by (simp add: keeps_def h_ext_def)
next
  case (waiting now taskID contextID identity p S a new h args h')
  from send_prepare_keeps [OF sys_inv_h [OF waiting.prems] waiting.hyps(1)] have k: "keeps (sy_h S) h" "a < length (ah_heap h)" by simp_all
  have k2: "keeps h h'" by (rule blocking_start_keeps [OF keeps_inv [OF k(1)] k(2) waiting.hyps(2)])
  have "sys_inv (S\<lparr>sy_h := h'\<rparr>)" by (rule sys_inv_step1 [OF waiting.prems keeps_trans [OF k(1) k2]])
  with keeps_length [OF k2 k(2)] keeps_trans [OF k(1) k2] show ?case by (simp add: sys_inv_def keeps_def h_ext_def)
next
  case (answered a S now messageID outcome r h)
  then have "a < length (ah_heap (sy_h S))" by (auto simp: sys_inv_def)
  from blocking_finish_keeps [OF sys_inv_h [OF answered.prems] this answered.hyps(2)] have k: "keeps (sy_h S) h" .
  have "sys_inv (S\<lparr>sy_h := h, sy_jobs := sy_jobs S, sy_pending := sy_pending S, sy_blocking := remove1 a (sy_blocking S)\<rparr>)"
    using answered.prems by (intro sys_inv_keeps [OF answered.prems k]) (auto simp: sys_inv_def dest: set_remove1_subset [THEN subsetD])
  with k show ?case by (simp add: keeps_def h_ext_def)
next
  case (skipped S i q now h)
  let ?h = "(sy_h S)\<lparr>ah_queue := q\<rparr>"
  from start_task_keeps [OF dequeue_inv [OF sys_inv_h [OF skipped.prems]], of now i q] skipped.hyps(3) have k: "keeps ?h h" by auto
  have "sys_inv (S\<lparr>sy_h := h, sy_jobs := sy_jobs S, sy_pending := sy_pending S, sy_blocking := sy_blocking S\<rparr>)"
    using skipped by (intro sys_inv_keeps [OF skipped.prems k]) (auto simp: sys_inv_def)
  with k show ?case by (simp add: keeps_def h_ext_def)
next
  case (started S i q now job args h)
  let ?h = "(sy_h S)\<lparr>ah_queue := q\<rparr>"
  from start_task_keeps [OF dequeue_inv [OF sys_inv_h [OF started.prems]], of now i q] started.hyps(3)
  have k: "keeps ?h h" and job: "jb_addr job < length (ah_heap h)" "jb_task job = at_ID (ah_heap h ! jb_addr job)" "jb_ctx job < length (ah_contexts h)"
    by auto
  have "sys_inv (S\<lparr>sy_h := h, sy_jobs := sy_jobs S, sy_pending := sy_pending S, sy_blocking := sy_blocking S\<rparr>)"
    using started by (intro sys_inv_keeps [OF started.prems k]) (auto simp: sys_inv_def)
  moreover have "ah_maxWorkers h = ah_maxWorkers (sy_h S)" using k by (simp add: keeps_def h_ext_def)
  ultimately show ?case using k job started.hyps(2) by (simp add: sys_inv_def keeps_def h_ext_def)
next
  case (finished job S now messageID outcome h)
  then have "jb_addr job < length (ah_heap (sy_h S))" by (auto simp: sys_inv_def)
  with finish_task_keeps [OF sys_inv_h [OF finished.prems], of job now messageID outcome] finished.hyps(2) have k: "keeps (sy_h S) h" by auto
  have "sys_inv (S\<lparr>sy_h := h, sy_jobs := remove1 job (sy_jobs S), sy_pending := sy_pending S, sy_blocking := sy_blocking S\<rparr>)"
    using finished.prems by (intro sys_inv_keeps [OF finished.prems k]) (auto simp: sys_inv_def length_remove1 dest: set_remove1_subset [THEN subsetD])
  with k show ?case by (simp add: keeps_def h_ext_def)
next
  case (canceled now params S r h)
  have "keeps (sy_h S) h"
    using with_task_keeps [OF sys_inv_h [OF canceled.prems], of "cancel_task now" params] cancel_task_keeps canceled.hyps
    by (auto simp: handleTasksCancel_def)
  with sys_inv_step1 [OF canceled.prems] show ?case by (simp add: keeps_def h_ext_def)
next
  case (looked_up params S r h)
  have "keeps (sy_h S) h"
    using with_task_keeps [OF sys_inv_h [OF looked_up.prems], of "\<lambda>a h. Some (Inr (TaskResult (ah_heap h ! a)), h)" params] keeps_refl looked_up.hyps
    by (auto simp: handleTasksGet_def)
  with sys_inv_step1 [OF looked_up.prems] show ?case by (simp add: keeps_def h_ext_def)
next
  case (watched S i)
  have "keeps (sy_h S) ((sy_h S)\<lparr>ah_notifier := snd (Subscribe i (ah_notifier (sy_h S)))\<rparr>)"
    using watched by (intro keeps_frame) (simp_all add: sys_inv_def Subscribe_inv h_inv_def cancel_valid)
  with sys_inv_step1 [OF watched] show ?case by simp
next
  case (received c S)
  have "keeps (sy_h S) ((sy_h S)\<lparr>ah_notifier := snd (Notifier_Receive c (ah_notifier (sy_h S)))\<rparr>)"
    using received by (intro keeps_frame) (simp_all add: sys_inv_def Receive_inv h_inv_def cancel_valid)
  with sys_inv_step1 [OF received.prems] show ?case by simp
next
  case (left i c S n)
  have "notifier_inv n" using Unsubscribe_inv [of "ah_notifier (sy_h S)" i c] left by (auto simp: sys_inv_def h_inv_def)
  then have "keeps (sy_h S) ((sy_h S)\<lparr>ah_notifier := n\<rparr>)"
    using left by (intro keeps_frame) (simp_all add: sys_inv_def cancel_valid)
  with sys_inv_step1 [OF left.prems] show ?case by simp
next
  case (evicted S ts now)
  let ?ts = "evictExpired now (ah_heap (sy_h S)) ts"
  have wf: "memory_wf (ah_heap (sy_h S), ts)" using evicted by (simp add: sys_inv_def h_inv_def store_wf_def)
  have "memory_wf (ah_heap (sy_h S), ?ts)"
    using wf memory_wf_get [OF wf] by (intro memory_wf_intro)
      (auto simp: memory_wf_def evictExpired_def gomap_simps split: option.splits if_splits)
  with evicted have "keeps (sy_h S) ((sy_h S)\<lparr>ah_store := InMemory ?ts\<rparr>)"
    by (simp add: sys_inv_def keeps_def h_inv_def store_wf_def h_ext_def)
  with sys_inv_step1 [OF evicted.prems] show ?case by simp
next
  case (overdue c S)
  have "keeps (sy_h S) ((sy_h S)\<lparr>ah_contexts := (ah_contexts (sy_h S))[c := CtxDeadline]\<rparr>)"
    by (rule keeps_contexts [OF sys_inv_h [OF overdue.prems]]) simp
  with sys_inv_step1 [OF overdue.prems] show ?case by simp
next
  case (shutdown S)
  have "length (fold (\<lambda>(i, c). cancel_ctx c) m ctxs) = length ctxs" for m :: "(string, nat) gomap" and ctxs
    by (induction m arbitrary: ctxs) auto
  then have "keeps (sy_h S) (shutdown_begin (sy_h S))"
    using shutdown by (intro keeps_frame) (simp_all add: shutdown_begin_def sys_inv_def h_inv_def cancel_valid)
  with sys_inv_step1 [OF shutdown] show ?case by (simp add: shutdown_begin_def)
next
  case (closed S h)
  from closed.hyps Close_inv [of "ah_notifier (sy_h S)"] closed.prems obtain n where n: "h = (sy_h S)\<lparr>ah_notifier := n\<rparr>" "notifier_inv n"
    by (auto simp: shutdown_end_def sys_inv_def h_inv_def)
  then have "keeps (sy_h S) h" using closed.prems by (intro keeps_frame) (simp_all add: sys_inv_def cancel_valid)
  with sys_inv_step1 [OF closed.prems] n show ?case by simp
qed

lemma reach_inv:
  assumes "(a2a_step jt pg)\<^sup>*\<^sup>* S S'" and "sys_inv S"
  shows "sys_inv S' \<and> heap_grows (ah_heap (sy_h S)) (ah_heap (sy_h S'))"
  using assms
proof (induction rule: rtranclp_induct)
  case (step T T')
  then show ?case using a2a_step_inv [of jt pg T T'] heap_grows_trans by blast
qed simp

definition fresh_store :: "TaskStore \<Rightarrow> bool" where
  "fresh_store store \<longleftrightarrow> (case store of InMemory ts \<Rightarrow> mt_tasks ts = [] | InDatabase db \<Rightarrow> True)"

lemma start_inv: "fresh_store store \<Longrightarrow> sys_inv (a2a_start now cfg store)"
  by (auto simp: a2a_start_def sys_inv_def h_inv_def store_wf_def NewA2AHandler_def NewTaskNotifier_def notifier_inv_def watchers_of_def
      fresh_store_def store_RecoverStale_def memory_wf_def split: TaskStore.splits)



section \<open>What goes wrong\<close>

lemma history_text_append: "history_text ms \<noteq> '''' \<Longrightarrow> history_text (ms @ ms') = history_text ms"
  by (cases "find (\<lambda>m. message_text m \<noteq> '''') ms") (simp_all add: history_text_def find_append)

lemma start_task_args:
  assumes "start_task now i h = Some (Some (job, args), h')"
  shows "ex_Text args = history_text (at_History (ah_heap h' ! jb_addr job))" and "ex_Identity args = task_identity (ah_heap h' ! jb_addr job)"
proof -
  from assms obtain a h1 h2 where "a2a_notify a h1 = Some h2"
    and "job = \<lparr>jb_addr = a, jb_task = i, jb_ctx = jb_ctx job\<rparr>" "h' = h2"
    and "args = \<lparr>ex_Model = a2a_DefaultModel (ah_cfg h2), ex_Text = history_text (at_History (ah_heap h2 ! a)), ex_Identity = task_identity (ah_heap h2 ! a)\<rparr>"
    by (auto simp: start_task_def Let_def split: option.splits prod.splits)
  then show "ex_Text args = history_text (at_History (ah_heap h' ! jb_addr job))" and "ex_Identity args = task_identity (ah_heap h' ! jb_addr job)"
    by (metis a2a_job.select_convs(1) exec_args.select_convs(2,3))+
qed

text \<open>The second and every later message of a conversation is ignored: a task is always executed with the first text of its history.\<close>

theorem later_messages_ignored:
  assumes "start_task now i h = Some (Some (job, args), h')" and "at_History (ah_heap h' ! jb_addr job) = m # ms" and "message_text m \<noteq> ''''"
  shows "ex_Text args = message_text m"
  using start_task_args(1) [OF assms(1)] assms(2,3) by (simp add: history_text_def)

lemma database_get_identity: "Persistent_Get i db = Some t \<Longrightarrow> task_identity t = None"
proof -
  assume "Persistent_Get i db = Some t"
  then obtain r where "scanTask r = Some t" by (auto simp: Persistent_Get_def split: option.splits)
  then obtain x where "at_Metadata t = map (map_prod (\<lambda>k. k) MetaJson) x"
    by (cases "tr_metadata r") (auto simp: scanTask_def bind_eq_Some_conv)
  then show ?thesis by (auto simp: task_identity_def gm_get_def split: option.split meta_value.split dest!: map_of_SomeD)
qed

lemma change_task_nth: "a < length (ah_heap h) \<Longrightarrow> ah_heap (change_task a f h) ! a = f (ah_heap h ! a)"
  by (simp add: change_task_def task_change_def)

text \<open>With the tasks in the database a queued task is executed without the identity of its caller, so without the limits of its key.\<close>

theorem database_tasks_ungoverned:
  assumes "ah_store h = InDatabase db" and "start_task now i h = Some (Some (job, args), h')"
  shows "ex_Identity args = None"
proof -
  from assms obtain t where t: "Persistent_Get i db = Some t" by (auto simp: start_task_def store_Get_def split: option.splits)
  let ?a = "length (ah_heap h)"
  define h2 where "h2 = h\<lparr>ah_heap := ah_heap h @ [t], ah_contexts := ah_contexts h @ [CtxLive],
    ah_cancelFuncs := gm_set i (length (ah_contexts h)) (ah_cancelFuncs h)\<rparr>"
  define h3 where "h3 = snd (store_Update now ?a (change_task ?a (\<lambda>t. t\<lparr>at_Status := Working\<rparr>) h2))"
  have "ah_heap h3 = ah_heap (change_task ?a (\<lambda>t. t\<lparr>at_Status := Working\<rparr>) h2)"
    using assms(1) by (simp add: h3_def h2_def change_task_def store_Update_def split: prod.split)
  then have "ah_heap h3 ! ?a = t\<lparr>at_Status := Working\<rparr>" by (simp add: change_task_nth h2_def)
  moreover from assms t have "map_option (\<lambda>h. (Some (\<lparr>jb_addr = ?a, jb_task = i, jb_ctx = length (ah_contexts h2) - 1\<rparr>,
      \<lparr>ex_Model = a2a_DefaultModel (ah_cfg h), ex_Text = history_text (at_History (ah_heap h ! ?a)), ex_Identity = task_identity (ah_heap h ! ?a)\<rparr>), h))
      (a2a_notify ?a h3) = Some (Some (job, args), h')"
    by (simp add: start_task_def store_Get_def task_alloc_def Let_def h2_def h3_def)
  then have "ex_Identity args = task_identity (ah_heap h3 ! ?a)" by (auto simp: a2a_notify_def Let_def)
  ultimately show ?thesis using database_get_identity [OF t] by (simp add: task_identity_def)
qed

section \<open>What the server gives the handler\<close>

definition strip_quotes :: "string \<Rightarrow> string" where
  "strip_quotes s = (if 2 \<le> length s \<and> hd s = CHR 0x22 \<and> last s = CHR 0x22 then butlast (tl s) else s)"

text \<open>The executor of A2A tasks: one user message, under the identity of the task if it has one. The content of the answer is the JSON text of a string without
  its quotes; \<^verbatim>\<open>ev_text\<close> gives that text.\<close>

definition buildA2AExecutor :: "('c, 'w) gov_env \<Rightarrow> A2AConfig \<Rightarrow> ('c Handler \<times> 'w) a2a_executor" where
  "buildA2AExecutor E cfg args = (\<lambda>(h, w).
     let model = (if ex_Model args = '''' then a2a_DefaultModel cfg else ex_Model args);
         req = zero_Request\<lparr>req_Model := model, req_Messages :=
           [zero_ChatMessage\<lparr>msg_Role := ''user'', msg_Content := Some (JStr (ex_Text args))\<rparr>]\<rparr>
     in case ExecuteForMCP E call_ctx req (map_option governanceIdentityFromProvider (ex_Identity args)) h w of
          None \<Rightarrow> None
        | Some (Inl err, h, w) \<Rightarrow> Some (Inl (GovernanceBlocked (GovernanceError_Error err)), (h, w))
        | Some (Inr None, h, w) \<Rightarrow> None
        | Some (Inr (Some resp), h, w) \<Rightarrow>
            Some (Inr \<lparr>ct_Content = (case resp_Choices resp of [] \<Rightarrow> '''' | c # cs \<Rightarrow> strip_quotes (ev_text E (msg_Content (ch_Message c)))),
              ct_Model = resp_Model resp, ct_Usage = usage_of resp, ct_FinishReason = extractFinishReason resp\<rparr>, (h, w)))"

definition buildA2AStore :: "A2AConfig \<Rightarrow> task_row list option option \<Rightarrow> TaskStore" where
  "buildA2AStore cfg db =
     (case db of
        Some rows \<Rightarrow> InDatabase rows
      | None \<Rightarrow> InMemory (NewMemoryTaskStore (if a2a_MaxTasks cfg \<le> 0 then 10000 else a2a_MaxTasks cfg)
          (wrap64 ((if a2a_TaskTTLSec cfg \<le> 0 then 3600 else a2a_TaskTTLSec cfg) * time_Second))))"

record cachedKeyResolver =
  ck_cache :: "(string, MCPIdentity \<times> gotime) gomap"
  ck_ttl :: duration

definition newCachedKeyResolver :: "duration \<Rightarrow> cachedKeyResolver" where
  "newCachedKeyResolver ttl = \<lparr>ck_cache = [], ck_ttl = ttl\<rparr>"

definition dbKeyResolver_Resolve :: "(string \<Rightarrow> string \<Rightarrow> bool) \<Rightarrow> gotime \<Rightarrow> VirtualKey list option \<Rightarrow> string \<Rightarrow> MCPIdentity option" where
  "dbKeyResolver_Resolve compare now db token =
     (case LookupVirtualKeyByToken compare now db token of
        Inl err \<Rightarrow> None
      | Inr vk \<Rightarrow> Some
          \<lparr>mi_ProjectID = vk_ProjectID vk, mi_VirtualKeyID = vk_ID vk, mi_KeyPrefix = vk_KeyPrefix vk, mi_Name = vk_Name vk,
           mi_AllowedModels = vk_AllowedModels vk, mi_AllowedProviders = vk_AllowedProviders vk, mi_RPMLimit = vk_RPMLimit vk,
           mi_TPMLimit = vk_TPMLimit vk, mi_BudgetLimitUSD = vk_BudgetLimitUSD vk, mi_BudgetPeriod = vk_BudgetPeriod vk, mi_Source = ''a2a'',
           mi_SkipRateLimit = False, mi_SkipBudget = False, mi_SkipUsageLog = False\<rparr>)"

definition ResolveVirtualKey ::
  "(string \<Rightarrow> string \<Rightarrow> bool) \<Rightarrow> gotime \<Rightarrow> VirtualKey list option \<Rightarrow> string \<Rightarrow> cachedKeyResolver \<Rightarrow> MCPIdentity option \<times> cachedKeyResolver" where
  "ResolveVirtualKey compare now db token c =
     (case gm_get (ck_cache c) token of
        Some (i, expires) \<Rightarrow> if now < expires then (Some i, c) else
          (case dbKeyResolver_Resolve compare now db token of
             None \<Rightarrow> (None, c)
           | Some i \<Rightarrow> (Some i, c\<lparr>ck_cache := gm_prune (\<lambda>(i, e). e < now) (gm_set token (i, time_Add now (ck_ttl c)) (ck_cache c))\<rparr>))
      | None \<Rightarrow>
          (case dbKeyResolver_Resolve compare now db token of
             None \<Rightarrow> (None, c)
           | Some i \<Rightarrow> (Some i, c\<lparr>ck_cache := gm_prune (\<lambda>(i, e). e < now) (gm_set token (i, time_Add now (ck_ttl c)) (ck_cache c))\<rparr>)))"

text \<open>An identity that the resolver gives out was looked up less than the time to live ago: a run of calls, each at its own time and with the database
  as it is then.\<close>

fun resolve_run ::
  "(string \<Rightarrow> string \<Rightarrow> bool) \<Rightarrow> (gotime \<times> VirtualKey list option \<times> string) list \<Rightarrow> cachedKeyResolver \<Rightarrow> cachedKeyResolver" where
  "resolve_run compare [] c = c"
| "resolve_run compare ((now, db, token) # calls) c = resolve_run compare calls (snd (ResolveVirtualKey compare now db token c))"

definition looked_up_by ::
  "(string \<Rightarrow> string \<Rightarrow> bool) \<Rightarrow> (gotime \<times> VirtualKey list option \<times> string) list \<Rightarrow> duration \<Rightarrow> gotime \<Rightarrow> string \<Rightarrow> MCPIdentity \<Rightarrow> bool" where
  "looked_up_by compare calls ttl limit token i \<longleftrightarrow>
     list_ex (\<lambda>(now, db, tk). tk = token \<and> limit \<le> now + ttl \<and> dbKeyResolver_Resolve compare now db token = Some i) calls"

lemma resolve_entries:
  assumes "gm_ok (ck_cache c)"
    and "\<And>token i e. gm_get (ck_cache c) token = Some (i, e) \<Longrightarrow> looked_up_by compare past (ck_ttl c) e token i"
  shows "gm_ok (ck_cache (resolve_run compare calls c)) \<and> ck_ttl (resolve_run compare calls c) = ck_ttl c
    \<and> (\<forall>token i e. gm_get (ck_cache (resolve_run compare calls c)) token = Some (i, e) \<longrightarrow> looked_up_by compare (past @ calls) (ck_ttl c) e token i)"
  using assms
proof (induction calls arbitrary: c past)
  case (Cons call calls)
  obtain now db tk where call: "call = (now, db, tk)" by (metis prod_cases3)
  define c' where "c' = snd (ResolveVirtualKey compare now db tk c)"
  have "ck_ttl c' = ck_ttl c \<and> gm_ok (ck_cache c')
    \<and> (gm_get (ck_cache c') token = Some (i, e) \<longrightarrow> looked_up_by compare (past @ [call]) (ck_ttl c) e token i)" for token i e
  proof (cases "c' = c")
    case True
    with Cons.prems show ?thesis by (auto simp: looked_up_by_def)
  next
    case False
    then obtain j where j: "dbKeyResolver_Resolve compare now db tk = Some j"
      and c': "c' = c\<lparr>ck_cache := gm_prune (\<lambda>(i, e). e < now) (gm_set tk (j, time_Add now (ck_ttl c)) (ck_cache c))\<rparr>"
      by (auto simp: c'_def ResolveVirtualKey_def split: option.splits if_splits)
    have ok: "gm_ok (gm_set tk (j, time_Add now (ck_ttl c)) (ck_cache c))" using Cons.prems(1) by simp
    show ?thesis using Cons.prems j by (auto simp: c' ok gomap_simps looked_up_by_def call time_Add_def split: if_splits option.splits)
  qed
  then have "gm_ok (ck_cache c')" "ck_ttl c' = ck_ttl c"
    "\<And>token i e. gm_get (ck_cache c') token = Some (i, e) \<Longrightarrow> looked_up_by compare (past @ [call]) (ck_ttl c') e token i" by auto
  from Cons.IH [OF this(1,3)] this(2) show ?case by (simp add: call c'_def)
qed simp

theorem resolved_identity_fresh:
  assumes "ResolveVirtualKey compare now db token (resolve_run compare calls (newCachedKeyResolver ttl)) = (Some i, c)" and "0 < ttl"
  shows "\<exists>t db'. (t, db', token) \<in> set (calls @ [(now, db, token)]) \<and> now < t + ttl \<and> dbKeyResolver_Resolve compare t db' token = Some i"
proof -
  let ?c = "resolve_run compare calls (newCachedKeyResolver ttl)"
  have inv: "gm_ok (ck_cache ?c) \<and> ck_ttl ?c = ttl
    \<and> (\<forall>token i e. gm_get (ck_cache ?c) token = Some (i, e) \<longrightarrow> looked_up_by compare calls ttl e token i)"
    using resolve_entries [of "newCachedKeyResolver ttl" compare "[]" calls] by (simp add: newCachedKeyResolver_def)
  show ?thesis
  proof (cases "dbKeyResolver_Resolve compare now db token = Some i")
    case True
    with assms(2) show ?thesis by (intro exI [of _ now] exI [of _ db]) simp
  next
    case False
    with assms(1) obtain e where e: "gm_get (ck_cache ?c) token = Some (i, e)" "now < e"
      by (auto simp: ResolveVirtualKey_def split: option.splits if_splits)
    with inv have "looked_up_by compare calls ttl e token i" by blast
    then obtain t db' where call: "(t, db', token) \<in> set calls" "e \<le> t + ttl" "dbKeyResolver_Resolve compare t db' token = Some i"
      unfolding looked_up_by_def list_ex_iff by fast
    with e(2) have "now < t + ttl" by linarith
    with call show ?thesis by (intro exI [of _ t] exI [of _ db']) simp
  qed
qed

section \<open>Examples\<close>

text \<open>A server with one worker, a request with one line of text, and an executor that answers \<open>ok\<close>.\<close>

definition example_a2a_cfg :: A2AConfig where
  "example_a2a_cfg =
     \<lparr>a2a_Enabled = True, a2a_Endpoint = ''/a2a'', a2a_URL = '''', a2a_Authentication = \<lparr>ma_Mode = ''virtual_key'', ma_BearerToken = ''''\<rparr>, a2a_DefaultModel = ''m'',
      a2a_TaskTTLSec = 60, a2a_MaxTasks = 10, a2a_MaxWorkers = 1, a2a_BlockingMode = False,
      a2a_AgentCard = \<lparr>agc_Name = ''gw'', agc_Version = ''1'', agc_Description = ''''\<rparr>\<rparr>"

definition example_store :: TaskStore where
  "example_store = buildA2AStore example_a2a_cfg None"

definition example_database :: TaskStore where
  "example_database = buildA2AStore example_a2a_cfg (Some (Some []))"

definition example_send :: "string \<Rightarrow> messageSendParams" where
  "example_send s = zero_SendParams\<lparr>sp_Message := example_message s\<rparr>"

definition example_send_json :: "bool \<Rightarrow> json" where
  "example_send_json immediately =
     JObj [(''message'', JObj [(''role'', JStr ''user''), (''parts'', JArr [JObj [(''type'', JStr ''text''), (''text'', JStr ''hi'')]])]),
           (''returnImmediately'', JBool immediately)]"

definition example_id_json :: json where
  "example_id_json = JObj [(''id'', JStr ''t1'')]"

definition example_answer :: ChatResult where
  "example_answer = \<lparr>ct_Content = ''ok'', ct_Model = ''m'', ct_Usage = None, ct_FinishReason = ''stop''\<rparr>"

definition example_executor :: "exec_args list a2a_executor" where
  "example_executor args w = Some (Inr example_answer, w @ [args])"

definition example_sent :: "TaskStore \<Rightarrow> bool \<Rightarrow> ((RPCError + a2a_result) \<times> A2AHandler \<times> exec_args list) option" where
  "example_sent store immediately =
     handleMessageSend example_executor (\<lambda>m. ''{}'') (\<lambda>t. t) 1 2 (''t1'', ''c1'', ''m1'') (Some example_caller_identity)
       (Some (example_send_json immediately)) (NewA2AHandler 0 example_a2a_cfg store) []"

definition result_state :: "RPCError + a2a_result \<Rightarrow> TaskState option" where
  "result_state r = (case r of Inr (TaskResult t) \<Rightarrow> Some (at_Status t) | Inr (BriefResult i s) \<Rightarrow> Some s | _ \<Rightarrow> None)"

definition state_now :: "A2AHandler \<Rightarrow> TaskState option" where
  "state_now h = (case handleTasksGet (Some example_id_json) h of None \<Rightarrow> None | Some (r, h) \<Rightarrow> result_state r)"

text \<open>A task that is canceled while it is queued is executed all the same, and ends as completed.\<close>

definition cancel_queued :: "(TaskState option \<times> TaskState option \<times> exec_args list) option" where
  "cancel_queued = do {
     (r, h, w) \<leftarrow> example_sent example_store True;
     (r', h) \<leftarrow> handleTasksCancel 2 (Some example_id_json) h;
     (h', w) \<leftarrow> executeTask example_executor 3 4 ''m2'' (hd (ah_queue h)) (h\<lparr>ah_queue := tl (ah_queue h)\<rparr>) w;
     Some (state_now h, state_now h', w)
   }"

theorem canceled_task_still_runs:
  "map_option (\<lambda>(s, s', w). (s, s', length w)) cancel_queued = Some (Some Canceled, Some Completed, 1)"
  by code_simp

text \<open>A worker that takes a new task from the queue before it is stored drops it: the task stays submitted, and nothing is left to execute it.\<close>

definition early_worker :: "((a2a_job \<times> exec_args) option \<times> TaskState option \<times> string list) option" where
  "early_worker =
     (case send_prepare 1 ''t1'' ''c1'' None (example_send ''hi'') (NewA2AHandler 0 example_a2a_cfg example_store) of
        (SendEnqueue a new, h) \<Rightarrow>
          (case enqueue a h of
             (None, h) \<Rightarrow> do {
               (job, h) \<leftarrow> start_task 2 (hd (ah_queue h)) (h\<lparr>ah_queue := tl (ah_queue h)\<rparr>);
               (case enqueue_store (\<lambda>t. t) 3 a new h of (r, h) \<Rightarrow> Some (job, state_now h, ah_queue h))
             }
           | _ \<Rightarrow> None)
      | _ \<Rightarrow> None)"

theorem queued_task_can_be_lost: "early_worker = Some (None, Some Submitted, [])"
  by code_simp

text \<open>With the tasks in the database the answer of a blocking request is never stored: the caller is told that the task is completed, everybody else that it is working.\<close>

theorem blocking_answer_not_stored:
  "map_option (\<lambda>(r, h, w). (result_state r, state_now h)) (example_sent example_database False) = Some (Some Completed, Some Working)"
  by code_simp

text \<open>A first request: the task is put into the queue, then stored, then taken by the worker.\<close>

definition example_prepared :: A2AHandler where
  "example_prepared = snd (send_prepare 1 ''t1'' ''c1'' None (example_send ''hi'') (NewA2AHandler 0 example_a2a_cfg example_store))"

definition example_queued :: a2a_sys where
  "example_queued = (a2a_start 0 example_a2a_cfg example_store)\<lparr>sy_h := snd (enqueue 0 example_prepared), sy_pending := [(0, True)]\<rparr>"

definition example_stored :: a2a_sys where
  "example_stored = example_queued\<lparr>sy_h := snd (enqueue_store (\<lambda>t. t) 2 0 True (sy_h example_queued)), sy_pending := []\<rparr>"

lemma example_steps:
  "a2a_step (\<lambda>m. ''{}'') (\<lambda>t. t) (a2a_start 0 example_a2a_cfg example_store) example_queued"
  "a2a_step (\<lambda>m. ''{}'') (\<lambda>t. t) example_queued example_stored"
proof -
  let ?S = "a2a_start 0 example_a2a_cfg example_store"
  have "fst (send_prepare 1 ''t1'' ''c1'' None (example_send ''hi'') (NewA2AHandler 0 example_a2a_cfg example_store)) = SendEnqueue 0 True" by code_simp
  then have "send_prepare 1 ''t1'' ''c1'' None (example_send ''hi'') (sy_h ?S) = (SendEnqueue 0 True, example_prepared)"
    by (simp add: example_prepared_def a2a_start_def prod_eq_iff)
  moreover have "fst (enqueue 0 example_prepared) = None" by code_simp
  then have "enqueue 0 example_prepared = (None, snd (enqueue 0 example_prepared))" by (simp add: prod_eq_iff)
  ultimately show "a2a_step (\<lambda>m. ''{}'') (\<lambda>t. t) ?S example_queued"
    using a2a_step.queued [of 1 "''t1''" "''c1''" None "example_send ''hi''" ?S 0 True example_prepared "snd (enqueue 0 example_prepared)"]
    by (simp add: example_queued_def a2a_start_def)
  have "enqueue_store (\<lambda>t. t) 2 0 True (sy_h example_queued) = (fst (enqueue_store (\<lambda>t. t) 2 0 True (sy_h example_queued)), sy_h example_stored)"
    by (simp add: example_stored_def)
  from a2a_step.stored [OF _ this] show "a2a_step (\<lambda>m. ''{}'') (\<lambda>t. t) example_queued example_stored"
    by (simp add: example_stored_def example_queued_def)
qed

lemma example_reached: "(a2a_step (\<lambda>m. ''{}'') (\<lambda>t. t))\<^sup>*\<^sup>* (a2a_start 0 example_a2a_cfg example_store) example_stored"
  using example_steps by (meson converse_rtranclp_into_rtranclp rtranclp.rtrancl_refl)

lemma example_store_fresh: "fresh_store example_store"
  by (simp add: fresh_store_def example_store_def buildA2AStore_def NewMemoryTaskStore_def)



definition example_job :: "TaskStore \<Rightarrow> ((a2a_job \<times> exec_args) option \<times> A2AHandler) option" where
  "example_job store = (case example_sent store True of None \<Rightarrow> None | Some (r, h, w) \<Rightarrow> start_task 3 ''t1'' h)"

theorem later_messages_ignored_witness:
  "\<exists>h job args h'. start_task 3 ''t1'' h = Some (Some (job, args), h') \<and> ex_Text args = ''hi''"
proof -
  have "(case example_job example_store of Some (Some (job, args), h) \<Rightarrow> map message_text (at_History (ah_heap h ! jb_addr job)) = [''hi''] | _ \<Rightarrow> False)"
    by code_simp
  then obtain h job args h' where run: "start_task 3 ''t1'' h = Some (Some (job, args), h')"
    and hist: "map message_text (at_History (ah_heap h' ! jb_addr job)) = [''hi'']"
    by (auto simp: example_job_def split: option.splits prod.splits)
  from hist obtain m where "at_History (ah_heap h' ! jb_addr job) = [m]" "message_text m = ''hi''" by auto
  with later_messages_ignored [OF run] run show ?thesis by auto
qed

theorem database_tasks_ungoverned_witness:
  "\<exists>h db job args h'. ah_store h = InDatabase db \<and> start_task 3 ''t1'' h = Some (Some (job, args), h') \<and> ex_Identity args = None"
proof -
  have "(case example_sent example_database True of Some (r, h, w) \<Rightarrow>
      (case ah_store h of InDatabase db \<Rightarrow> True | _ \<Rightarrow> False) \<and> (case start_task 3 ''t1'' h of Some (Some (job, args), h') \<Rightarrow> True | _ \<Rightarrow> False)
    | _ \<Rightarrow> False)" by code_simp
  then obtain h db job args h' where run: "ah_store h = InDatabase db" "start_task 3 ''t1'' h = Some (Some (job, args), h')"
    by (auto split: option.splits prod.splits TaskStore.splits)
  with database_tasks_ungoverned [OF run] show ?thesis by blast
qed

theorem resolved_identity_fresh_witness:
  "\<exists>i t. fst (ResolveVirtualKey (\<lambda>h s. True) 20 None ''gw-12345'' (resolve_run (\<lambda>h s. True) [(5, Some [example_vk ''1'' ''k'' ''''], ''gw-12345'')] (newCachedKeyResolver 30)))
       = Some i \<and> t \<in> {5, 20::gotime} \<and> 20 < t + 30"
proof -
  let ?c = "resolve_run (\<lambda>h s. True) [(5, Some [example_vk ''1'' ''k'' ''''], ''gw-12345'')] (newCachedKeyResolver 30)"
  have "fst (ResolveVirtualKey (\<lambda>h s. True) 20 None ''gw-12345'' ?c) \<noteq> None" by code_simp
  then obtain i c where run: "ResolveVirtualKey (\<lambda>h s. True) 20 None ''gw-12345'' ?c = (Some i, c)" by (metis not_None_eq prod.collapse)
  from resolved_identity_fresh [OF run] obtain t :: gotime and db' where
    "(t, db', ''gw-12345'') \<in> set ([(5, Some [example_vk ''1'' ''k'' ''''], ''gw-12345'')] @ [(20, None, ''gw-12345'')])" "20 < t + 30" by auto
  with run show ?thesis by auto
qed

end
