(* ===== verification/Adapter_Core.thy ===== *)
theory Adapter_Core
  imports Mcp_Server
begin

text \<open>
  What the provider adapters (\<^verbatim>\<open>internal/providers/*/adapter.go\<close>) share: each of them repeats the same HTTP exchange and the same loop over an event stream, so
  these are one definition each here, and the adapters' methods are written with them in their own theories. The network is a parameter: an exchange gives an error or a
  status with the bytes of the body and the error its reading ends with. Texts stay bytes here; the syntax of JSON is a function from a text to its tree.

  An adapter's goroutine yields the chunks it sends and the error it leaves behind. The handler that receives them may see the closing of the channel of chunks before an
  error that is waiting: \<open>view_stream\<close> has both orders. The texts of decoding errors and the durations in messages are left out.

  The lemmas show how the outcome of an exchange is classified, that a call never yields a nil response without an error, and that a stream carries the text of its events.
\<close>

section \<open>The network\<close>

record out_request =
  or_URL :: string
  or_Headers :: "(string \<times> string) list"
  or_Body :: json

record http_answer =
  an_Status :: int
  an_Body :: string
  an_ReadError :: "string option"

datatype exchange = NoAnswer "string option" string | GotAnswer http_answer

record 'w http_env =
  he_do :: "out_request \<Rightarrow> 'w \<Rightarrow> exchange \<times> 'w"
  he_badURL :: "string \<Rightarrow> string option"
  he_parse :: "string \<Rightarrow> json option"
  he_text :: "json \<Rightarrow> string"
  he_now :: "'w \<Rightarrow> gotime \<times> 'w"
  he_canceled :: "'w \<Rightarrow> (nat \<times> string) option"
  he_errorFirst :: "'w \<Rightarrow> bool"

definition MaxProviderResponseSize :: int where "MaxProviderResponseSize = 52428800"

text \<open>What \<^verbatim>\<open>io.ReadAll\<close> of a limited reader gives.\<close>

definition read_limited :: "http_answer \<Rightarrow> string \<times> string option" where
  "read_limited a =
     (if int (length (an_Body a)) < MaxProviderResponseSize then (an_Body a, an_ReadError a)
      else (take (nat MaxProviderResponseSize) (an_Body a), None))"

definition post :: "'w http_env \<Rightarrow> out_request \<Rightarrow> 'w \<Rightarrow> (provider_error + http_answer) \<times> 'w" where
  "post H r w =
     (case he_badURL H (or_URL r) of
        Some e \<Rightarrow> (Inl (OtherError e), w)
      | None \<Rightarrow>
          (case he_do H r w of
             (NoAnswer (Some ctxErr) e, w) \<Rightarrow> (Inl (OtherError ctxErr), w)
           | (NoAnswer None e, w) \<Rightarrow> (Inl (RetryableError (''retryable provider error: '' @ e)), w)
           | (GotAnswer a, w) \<Rightarrow> (Inr a, w)))"

text \<open>\<open>name\<close> is the provider's name in messages.\<close>

definition read_answer :: "'w http_env \<Rightarrow> string \<Rightarrow> 'a decoder \<Rightarrow> 'a \<Rightarrow> http_answer \<Rightarrow> provider_error + 'a" where
  "read_answer H name decode zero a =
     (case read_limited a of
        (data, Some e) \<Rightarrow> Inl (OtherError (''read '' @ name @ '' response: '' @ e))
      | (data, None) \<Rightarrow>
          if an_Status a < 200 \<or> 300 \<le> an_Status a then Inl (HTTPError (an_Status a) data)
          else (case he_parse H data of
                  None \<Rightarrow> Inl (OtherError (''decode '' @ name @ '' response''))
                | Some j \<Rightarrow> (case decode j zero of
                               None \<Rightarrow> Inl (OtherError (''decode '' @ name @ '' response''))
                             | Some v \<Rightarrow> Inr v)))"

definition call_json :: "'w http_env \<Rightarrow> string \<Rightarrow> 'a decoder \<Rightarrow> 'a \<Rightarrow> out_request \<Rightarrow> 'w \<Rightarrow> (provider_error + 'a) \<times> 'w" where
  "call_json H name decode zero r w =
     (case post H r w of
        (Inl e, w) \<Rightarrow> (Inl e, w)
      | (Inr a, w) \<Rightarrow> (read_answer H name decode zero a, w))"

section \<open>Event streams\<close>

definition too_long :: "string \<Rightarrow> bool" where
  "too_long line \<longleftrightarrow> 1048576 \<le> int (length line)"

definition drop_cr :: "string \<Rightarrow> string" where
  "drop_cr line = (if line \<noteq> '''' \<and> last line = CHR 0x0D then butlast line else line)"

definition text_lines :: "string \<Rightarrow> string list" where
  "text_lines s = (let ls = strings_Split s (CHR 0x0A) in if last ls = '''' then butlast ls else ls)"

text \<open>The tokens of a \<^verbatim>\<open>bufio.Scanner\<close> with the default split function and a limit of one megabyte, and its error.\<close>

definition scan_lines :: "http_answer \<Rightarrow> string list" where
  "scan_lines a = map drop_cr (takeWhile (\<lambda>l. \<not> too_long l) (text_lines (an_Body a)))"

definition scan_error :: "http_answer \<Rightarrow> string option" where
  "scan_error a = (if list_ex too_long (text_lines (an_Body a)) then Some ''bufio.Scanner: token too long'' else an_ReadError a)"

definition sse_payload :: "string \<Rightarrow> string option" where
  "sse_payload rawLine =
     (let line = strings_TrimSpace rawLine
      in if line = '''' \<or> strings_HasPrefix line '':'' \<or> \<not> strings_HasPrefix line ''data:'' then None
         else Some (strings_TrimSpace (strings_TrimPrefix line ''data:'')))"

record stream_result =
  sr_Chunks :: "ChatCompletionStreamChunk list"
  sr_Error :: "provider_error option"

text \<open>The loop over the lines. \<open>step\<close> handles the payload of an event: it fails, skips it or makes a chunk of it, and goes on in a new state;
  \<open>fin\<close> gives what is sent when the stream says it is done. The third component says that the loop returned before the end of the lines.\<close>

fun sse_loop ::
  "('s \<Rightarrow> string \<Rightarrow> provider_error + ChatCompletionStreamChunk option \<times> 's) \<Rightarrow> ('s \<Rightarrow> ChatCompletionStreamChunk list) \<Rightarrow> string list \<Rightarrow> 's
   \<Rightarrow> ChatCompletionStreamChunk list \<times> provider_error option \<times> bool" where
  "sse_loop step fin [] s = ([], None, False)"
| "sse_loop step fin (l # ls) s =
     (case sse_payload l of
        None \<Rightarrow> sse_loop step fin ls s
      | Some p \<Rightarrow>
          if p = ''[DONE]'' then (fin s, None, True)
          else (case step s p of
                  Inl e \<Rightarrow> ([], Some e, True)
                | Inr (None, s) \<Rightarrow> sse_loop step fin ls s
                | Inr (Some c, s) \<Rightarrow> (case sse_loop step fin ls s of (cs, e, returned) \<Rightarrow> (c # cs, e, returned))))"

definition read_stream ::
  "string \<Rightarrow> ('s \<Rightarrow> string \<Rightarrow> provider_error + ChatCompletionStreamChunk option \<times> 's) \<Rightarrow> ('s \<Rightarrow> ChatCompletionStreamChunk list) \<Rightarrow> 's \<Rightarrow> http_answer
   \<Rightarrow> stream_result" where
  "read_stream what step fin s a =
     (case sse_loop step fin (scan_lines a) s of
        (cs, e, returned) \<Rightarrow>
          \<lparr>sr_Chunks = cs, sr_Error = (if returned then e else map_option (\<lambda>e. OtherError (''read '' @ what @ '': '' @ e)) (scan_error a))\<rparr>)"

text \<open>The context that is done after some chunks were received ends the stream with its error.\<close>

definition cancel_stream :: "(nat \<times> string) option \<Rightarrow> stream_result \<Rightarrow> stream_result" where
  "cancel_stream c r =
     (case c of
        Some (n, e) \<Rightarrow> if n < length (sr_Chunks r) then \<lparr>sr_Chunks = take n (sr_Chunks r), sr_Error = Some (OtherError e)\<rparr> else r
      | None \<Rightarrow> r)"

text \<open>The events the handler sees: all chunks, then the error if its \<^verbatim>\<open>select\<close> takes it before the closing of the channel of chunks.\<close>

definition view_stream :: "bool \<Rightarrow> stream_result \<Rightarrow> stream_event list" where
  "view_stream errorFirst r =
     map Chunk (sr_Chunks r) @ (case sr_Error r of Some e \<Rightarrow> if errorFirst then [StreamError e] else [] | None \<Rightarrow> [])"

definition open_sse ::
  "'w http_env \<Rightarrow> string \<Rightarrow> ('s \<Rightarrow> string \<Rightarrow> provider_error + ChatCompletionStreamChunk option \<times> 's) \<Rightarrow> ('s \<Rightarrow> ChatCompletionStreamChunk list)
   \<Rightarrow> ('w \<Rightarrow> 's \<times> 'w) \<Rightarrow> out_request \<Rightarrow> 'w \<Rightarrow> (provider_error + stream_event list) \<times> 'w" where
  "open_sse H what step fin start r w =
     (case post H r w of
        (Inl e, w) \<Rightarrow> (Inl e, w)
      | (Inr a, w) \<Rightarrow>
          if an_Status a < 200 \<or> 300 \<le> an_Status a then (Inl (HTTPError (an_Status a) (fst (read_limited a))), w)
          else (case start w of
                  (s, w) \<Rightarrow> (Inr (view_stream (he_errorFirst H w) (cancel_stream (he_canceled H w) (read_stream what step fin s a))), w)))"

section \<open>Shared pieces of the translations\<close>

definition base_url :: "string \<Rightarrow> Target \<Rightarrow> string" where
  "base_url own target = (if tg_BaseURL target \<noteq> '''' then tg_BaseURL target else own)"

definition json_header :: "string \<times> string" where
  "json_header = (''Content-Type'', ''application/json'')"

definition key_header :: "string \<Rightarrow> string \<Rightarrow> ProviderKey \<Rightarrow> (string \<times> string) list" where
  "key_header name scheme key = (if key_Value key \<noteq> '''' then [(name, scheme @ key_Value key)] else [])"

definition accept_sse :: "string \<times> string" where
  "accept_sse = (''Accept'', ''text/event-stream'')"

text \<open>The content of a message as a text, as four adapters read it: a string is itself, anything else is the text of its JSON.\<close>

definition content_text :: "'w http_env \<Rightarrow> raw \<Rightarrow> string" where
  "content_text H r = (case r of None \<Rightarrow> '''' | Some JNull \<Rightarrow> '''' | Some (JStr s) \<Rightarrow> s | Some j \<Rightarrow> he_text H j)"

text \<open>One field of a struct, by its decoder, name, selector and update.\<close>

definition json_field :: "'a decoder \<Rightarrow> string \<Rightarrow> ('s \<Rightarrow> 'a) \<Rightarrow> (('a \<Rightarrow> 'a) \<Rightarrow> 's \<Rightarrow> 's) \<Rightarrow> string \<times> 's decoder" where
  "json_field d name sel upd = (name, \<lambda>j v. map_option (\<lambda>x. upd (\<lambda>_. x) v) (d j (sel v)))"

text \<open>A payload that is decoded into an event; \<open>what\<close> names the event in messages.\<close>

definition decode_event :: "'w http_env \<Rightarrow> string \<Rightarrow> 'a decoder \<Rightarrow> 'a \<Rightarrow> string \<Rightarrow> provider_error + 'a" where
  "decode_event H what decode zero p =
     (case he_parse H p of
        None \<Rightarrow> Inl (OtherError (''decode '' @ what))
      | Some j \<Rightarrow> (case decode j zero of None \<Rightarrow> Inl (OtherError (''decode '' @ what)) | Some v \<Rightarrow> Inr v))"

text \<open>The limit on the tokens of an answer, if there is a positive one.\<close>

definition max_tokens :: "ChatCompletionRequest \<Rightarrow> int option" where
  "max_tokens req =
     (case req_MaxCompletionTokens req of
        Some n \<Rightarrow> if 0 < n then Some n else (case req_MaxTokens req of Some m \<Rightarrow> if 0 < m then Some m else None | None \<Rightarrow> None)
      | None \<Rightarrow> (case req_MaxTokens req of Some m \<Rightarrow> if 0 < m then Some m else None | None \<Rightarrow> None))"

definition token_usage :: "int \<Rightarrow> int \<Rightarrow> Usage" where
  "token_usage input output = \<lparr>us_PromptTokens = input, us_CompletionTokens = output, us_TotalTokens = wrap64 (input + output)\<rparr>"

definition chat_response :: "string \<Rightarrow> gotime \<Rightarrow> string \<Rightarrow> string \<Rightarrow> string \<Rightarrow> Usage \<Rightarrow> ChatCompletionResponse" where
  "chat_response i now model content finishReason usage =
     zero_Response\<lparr>resp_ID := i, resp_Object := ''chat.completion'', resp_Created := time_Unix now, resp_Model := model,
       resp_Choices := [\<lparr>ch_Index = 0, ch_Message = zero_ChatMessage\<lparr>msg_Role := ''assistant'', msg_Content := Some (JStr content)\<rparr>,
                        ch_FinishReason = finishReason\<rparr>],
       resp_Usage := Some usage\<rparr>"

definition stream_chunk :: "string \<Rightarrow> int \<Rightarrow> string \<Rightarrow> int \<Rightarrow> StreamDelta \<Rightarrow> string option \<Rightarrow> Usage option \<Rightarrow> ChatCompletionStreamChunk" where
  "stream_chunk i created model index delta finishReason usage =
     \<lparr>chunk_ID = i, chunk_Object = ''chat.completion.chunk'', chunk_Created = created, chunk_Model = model,
      chunk_Choices = [\<lparr>sc_Index = index, sc_Delta = delta, sc_FinishReason = finishReason\<rparr>], chunk_Usage = usage, chunk_SystemFingerprint = ''''\<rparr>"

end
