(* ===== verification/Adapter_OpenAI.thy ===== *)
theory Adapter_OpenAI
  imports Adapter_Core
begin

text \<open>
  The adapters of the providers that speak the OpenAI protocol: \<^verbatim>\<open>internal/providers/openai\<close>, \<^verbatim>\<open>azure\<close>, \<^verbatim>\<open>groq\<close> and \<^verbatim>\<open>mistral\<close>. They send the request as it is, with
  the model of the target, and pass chunks on as they come.
\<close>

section \<open>Chunks\<close>

definition zero_StreamChoice :: StreamChoice where
  "zero_StreamChoice = \<lparr>sc_Index = 0, sc_Delta = zero_StreamDelta, sc_FinishReason = None\<rparr>"

definition zero_Chunk :: ChatCompletionStreamChunk where
  "zero_Chunk = \<lparr>chunk_ID = '''', chunk_Object = '''', chunk_Created = 0, chunk_Model = '''', chunk_Choices = [], chunk_Usage = None,
     chunk_SystemFingerprint = ''''\<rparr>"

definition unmarshal_StreamDelta :: "StreamDelta decoder" where
  "unmarshal_StreamDelta = decode_struct
     [(''role'', \<lambda>j v. map_option (\<lambda>x. v\<lparr>sd_Role := x\<rparr>) (decode_string j (sd_Role v))),
      (''content'', \<lambda>j v. map_option (\<lambda>x. v\<lparr>sd_Content := x\<rparr>) (decode_raw j (sd_Content v))),
      (''tool_calls'', \<lambda>j v. map_option (\<lambda>x. v\<lparr>sd_ToolCalls := x\<rparr>) (decode_raw j (sd_ToolCalls v)))]"

definition unmarshal_StreamChoice :: "StreamChoice decoder" where
  "unmarshal_StreamChoice = decode_struct
     [(''index'', \<lambda>j v. map_option (\<lambda>x. v\<lparr>sc_Index := x\<rparr>) (decode_int j (sc_Index v))),
      (''delta'', \<lambda>j v. map_option (\<lambda>x. v\<lparr>sc_Delta := x\<rparr>) (unmarshal_StreamDelta j (sc_Delta v))),
      (''finish_reason'', \<lambda>j v. map_option (\<lambda>x. v\<lparr>sc_FinishReason := x\<rparr>) (decode_pointer decode_string '''' j (sc_FinishReason v)))]"

definition unmarshal_Chunk :: "ChatCompletionStreamChunk decoder" where
  "unmarshal_Chunk = decode_struct
     [(''id'', \<lambda>j v. map_option (\<lambda>x. v\<lparr>chunk_ID := x\<rparr>) (decode_string j (chunk_ID v))),
      (''object'', \<lambda>j v. map_option (\<lambda>x. v\<lparr>chunk_Object := x\<rparr>) (decode_string j (chunk_Object v))),
      (''created'', \<lambda>j v. map_option (\<lambda>x. v\<lparr>chunk_Created := x\<rparr>) (decode_int j (chunk_Created v))),
      (''model'', \<lambda>j v. map_option (\<lambda>x. v\<lparr>chunk_Model := x\<rparr>) (decode_string j (chunk_Model v))),
      (''choices'', \<lambda>j v. map_option (\<lambda>x. v\<lparr>chunk_Choices := x\<rparr>) (decode_slice unmarshal_StreamChoice zero_StreamChoice j (chunk_Choices v))),
      (''usage'', \<lambda>j v. map_option (\<lambda>x. v\<lparr>chunk_Usage := x\<rparr>) (decode_pointer unmarshal_Usage zero_Usage j (chunk_Usage v))),
      (''system_fingerprint'', \<lambda>j v. map_option (\<lambda>x. v\<lparr>chunk_SystemFingerprint := x\<rparr>) (decode_string j (chunk_SystemFingerprint v)))]"

section \<open>The exchange\<close>

definition provider_request :: "bool \<Rightarrow> ChatCompletionRequest \<Rightarrow> Target \<Rightarrow> ChatCompletionRequest" where
  "provider_request stream req target = req\<lparr>req_Model := tg_Model target, req_Stream := stream\<rparr>"

definition fill_model :: "ChatCompletionRequest \<Rightarrow> ChatCompletionResponse \<Rightarrow> ChatCompletionResponse" where
  "fill_model req out = (if resp_Model out = '''' then out\<lparr>resp_Model := req_Model req\<rparr> else out)"

definition openai_complete ::
  "'w http_env \<Rightarrow> string \<Rightarrow> (string \<times> string) list \<Rightarrow> ChatCompletionRequest \<Rightarrow> Target \<Rightarrow> 'w \<Rightarrow> (provider_error + ChatCompletionResponse option) \<times> 'w" where
  "openai_complete H url headers req target w =
     (case call_json H ''provider'' unmarshal_Response zero_Response
             \<lparr>or_URL = url, or_Headers = json_header # headers, or_Body = marshal_Request (provider_request False req target)\<rparr> w of
        (Inl e, w) \<Rightarrow> (Inl e, w)
      | (Inr out, w) \<Rightarrow> (Inr (Some (fill_model req out)), w))"

definition openai_event :: "'w http_env \<Rightarrow> string \<Rightarrow> unit \<Rightarrow> string \<Rightarrow> provider_error + ChatCompletionStreamChunk option \<times> unit" where
  "openai_event H model s p =
     (case decode_event H ''stream chunk'' unmarshal_Chunk zero_Chunk p of
        Inl e \<Rightarrow> Inl e
      | Inr c \<Rightarrow> Inr (Some (if chunk_Model c = '''' then c\<lparr>chunk_Model := model\<rparr> else c), ()))"

definition openai_stream ::
  "'w http_env \<Rightarrow> string \<Rightarrow> (string \<times> string) list \<Rightarrow> ChatCompletionRequest \<Rightarrow> Target \<Rightarrow> 'w \<Rightarrow> (provider_error + stream_event list) \<times> 'w" where
  "openai_stream H url headers req target w =
     open_sse H ''stream'' (openai_event H (req_Model req)) (\<lambda>s. []) (\<lambda>w. ((), w))
       \<lparr>or_URL = url, or_Headers = json_header # accept_sse # headers, or_Body = marshal_Request (provider_request True req target)\<rparr> w"

section \<open>The adapters\<close>

record OpenAIAdapter =
  oa_name :: string
  oa_baseURL :: string

definition NewOpenAI :: "string \<Rightarrow> string \<Rightarrow> OpenAIAdapter" where
  "NewOpenAI name baseURL =
     \<lparr>oa_name = name, oa_baseURL = strings_TrimRight (if baseURL = '''' then ''https://api.openai.com/v1'' else baseURL) (CHR ''/'')\<rparr>"

definition bearer_header :: "ProviderKey \<Rightarrow> (string \<times> string) list" where
  "bearer_header key = key_header ''Authorization'' ''Bearer '' key"

definition OpenAI_CompleteChat :: "'w http_env \<Rightarrow> OpenAIAdapter \<Rightarrow> 'w adapter" where
  "OpenAI_CompleteChat H a req target key w =
     openai_complete H (base_url (oa_baseURL a) target @ ''/chat/completions'') (bearer_header key) req target w"

definition OpenAI_StreamChat :: "'w http_env \<Rightarrow> OpenAIAdapter \<Rightarrow> 'w stream_adapter" where
  "OpenAI_StreamChat H a req target key w =
     openai_stream H (base_url (oa_baseURL a) target @ ''/chat/completions'') (bearer_header key) req target w"

record AzureAdapter =
  az_name :: string
  az_resource :: string
  az_apiVersion :: string

definition NewAzure :: "string \<Rightarrow> string \<Rightarrow> string \<Rightarrow> AzureAdapter" where
  "NewAzure name resource apiVersion =
     \<lparr>az_name = name, az_resource = resource, az_apiVersion = (if apiVersion = '''' then ''2025-06-01'' else apiVersion)\<rparr>"

definition buildURL :: "AzureAdapter \<Rightarrow> string \<Rightarrow> string" where
  "buildURL a deployment =
     ''https://'' @ az_resource a @ ''.openai.azure.com/openai/deployments/'' @ deployment @ ''/chat/completions?api-version='' @ az_apiVersion a"

definition Azure_CompleteChat :: "'w http_env \<Rightarrow> AzureAdapter \<Rightarrow> 'w adapter" where
  "Azure_CompleteChat H a req target key w =
     openai_complete H (buildURL a (tg_Model target)) (key_header ''api-key'' '''' key) req target w"

definition Azure_StreamChat :: "'w http_env \<Rightarrow> AzureAdapter \<Rightarrow> 'w stream_adapter" where
  "Azure_StreamChat H a req target key w =
     openai_stream H (buildURL a (tg_Model target)) (key_header ''api-key'' '''' key) req target w"

record GroqAdapter =
  gq_baseURL :: string

definition NewGroq :: "string \<Rightarrow> GroqAdapter" where
  "NewGroq baseURL = \<lparr>gq_baseURL = strings_TrimRight (if baseURL = '''' then ''https://api.groq.com/openai/v1'' else baseURL) (CHR ''/'')\<rparr>"

definition Groq_CompleteChat :: "'w http_env \<Rightarrow> GroqAdapter \<Rightarrow> 'w adapter" where
  "Groq_CompleteChat H a req target key w =
     openai_complete H (base_url (gq_baseURL a) target @ ''/chat/completions'') (bearer_header key) req target w"

definition Groq_StreamChat :: "'w http_env \<Rightarrow> GroqAdapter \<Rightarrow> 'w stream_adapter" where
  "Groq_StreamChat H a req target key w =
     openai_stream H (base_url (gq_baseURL a) target @ ''/chat/completions'') (bearer_header key) req target w"

record MistralAdapter =
  mi_baseURL :: string

definition NewMistral :: "string \<Rightarrow> MistralAdapter" where
  "NewMistral baseURL = \<lparr>mi_baseURL = strings_TrimRight (if baseURL = '''' then ''https://api.mistral.ai/v1'' else baseURL) (CHR ''/'')\<rparr>"

definition Mistral_CompleteChat :: "'w http_env \<Rightarrow> MistralAdapter \<Rightarrow> 'w adapter" where
  "Mistral_CompleteChat H a req target key w =
     openai_complete H (base_url (mi_baseURL a) target @ ''/chat/completions'') (bearer_header key) req target w"

definition Mistral_StreamChat :: "'w http_env \<Rightarrow> MistralAdapter \<Rightarrow> 'w stream_adapter" where
  "Mistral_StreamChat H a req target key w =
     openai_stream H (base_url (mi_baseURL a) target @ ''/chat/completions'') (bearer_header key) req target w"

end
