(* ===== verification/Adapter_Anthropic.thy ===== *)
theory Adapter_Anthropic
  imports Adapter_Core
begin

text \<open>
  The adapter that translates to and from the messages API of Anthropic (\<^verbatim>\<open>internal/providers/anthropic\<close>).
\<close>

section \<open>Anthropic: types\<close>

definition anthropicVersion :: string where "anthropicVersion = ''2023-06-01''"

record anthropicMessage =
  nm_Role :: string
  nm_Content :: json

record messageRequest =
  mq_Model :: string
  mq_Messages :: "anthropicMessage list"
  mq_System :: "json option"
  mq_MaxTokens :: int
  mq_Temperature :: "f64 option"
  mq_TopP :: "f64 option"
  mq_Stream :: bool

record contentBlock =
  cb_Type :: string
  cb_Text :: string

record anthropicUsage =
  au_InputTokens :: int
  au_OutputTokens :: int

record messageResponse =
  mr_ID :: string
  mr_Type :: string
  mr_Role :: string
  mr_Model :: string
  mr_Content :: "contentBlock list"
  mr_StopReason :: string
  mr_StopSequence :: string
  mr_Usage :: anthropicUsage

record anthropicDelta =
  ad_Type :: string
  ad_Text :: string
  ad_StopReason :: string
  ad_StopSequence :: string

record anthropicEvent =
  ae_Type :: string
  ae_Message :: "messageResponse option"
  ae_Index :: int
  ae_Delta :: anthropicDelta
  ae_Usage :: "anthropicUsage option"
  ae_ContentBlock :: "contentBlock option"

definition marshal_messageRequest :: "messageRequest \<Rightarrow> json" where
  "marshal_messageRequest r = encode_object
     [(''model'', Some (JStr (mq_Model r))),
      (''messages'', Some (JArr (map (\<lambda>m. JObj [(''role'', JStr (nm_Role m)), (''content'', nm_Content m)]) (mq_Messages r)))),
      (''system'', mq_System r), (''max_tokens'', Some (JInt (mq_MaxTokens r))),
      (''temperature'', map_option json_float (mq_Temperature r)), (''top_p'', map_option json_float (mq_TopP r)),
      (''stream'', omit_bool (mq_Stream r))]"

definition zero_contentBlock :: contentBlock where
  "zero_contentBlock = \<lparr>cb_Type = '''', cb_Text = ''''\<rparr>"

definition zero_anthropicUsage :: anthropicUsage where
  "zero_anthropicUsage = \<lparr>au_InputTokens = 0, au_OutputTokens = 0\<rparr>"

definition zero_messageResponse :: messageResponse where
  "zero_messageResponse = \<lparr>mr_ID = '''', mr_Type = '''', mr_Role = '''', mr_Model = '''', mr_Content = [], mr_StopReason = '''',
     mr_StopSequence = '''', mr_Usage = zero_anthropicUsage\<rparr>"

definition zero_anthropicDelta :: anthropicDelta where
  "zero_anthropicDelta = \<lparr>ad_Type = '''', ad_Text = '''', ad_StopReason = '''', ad_StopSequence = ''''\<rparr>"

definition zero_anthropicEvent :: anthropicEvent where
  "zero_anthropicEvent = \<lparr>ae_Type = '''', ae_Message = None, ae_Index = 0, ae_Delta = zero_anthropicDelta, ae_Usage = None, ae_ContentBlock = None\<rparr>"

definition unmarshal_contentBlock :: "contentBlock decoder" where
  "unmarshal_contentBlock = decode_struct
     [json_field decode_string ''type'' cb_Type cb_Type_update, json_field decode_string ''text'' cb_Text cb_Text_update]"

definition unmarshal_anthropicUsage :: "anthropicUsage decoder" where
  "unmarshal_anthropicUsage = decode_struct
     [json_field decode_int ''input_tokens'' au_InputTokens au_InputTokens_update,
      json_field decode_int ''output_tokens'' au_OutputTokens au_OutputTokens_update]"

definition unmarshal_messageResponse :: "messageResponse decoder" where
  "unmarshal_messageResponse = decode_struct
     [json_field decode_string ''id'' mr_ID mr_ID_update, json_field decode_string ''type'' mr_Type mr_Type_update,
      json_field decode_string ''role'' mr_Role mr_Role_update, json_field decode_string ''model'' mr_Model mr_Model_update,
      json_field (decode_slice unmarshal_contentBlock zero_contentBlock) ''content'' mr_Content mr_Content_update,
      json_field decode_string ''stop_reason'' mr_StopReason mr_StopReason_update,
      json_field decode_string ''stop_sequence'' mr_StopSequence mr_StopSequence_update,
      json_field unmarshal_anthropicUsage ''usage'' mr_Usage mr_Usage_update]"

definition unmarshal_anthropicDelta :: "anthropicDelta decoder" where
  "unmarshal_anthropicDelta = decode_struct
     [json_field decode_string ''type'' ad_Type ad_Type_update, json_field decode_string ''text'' ad_Text ad_Text_update,
      json_field decode_string ''stop_reason'' ad_StopReason ad_StopReason_update,
      json_field decode_string ''stop_sequence'' ad_StopSequence ad_StopSequence_update]"

definition unmarshal_anthropicEvent :: "anthropicEvent decoder" where
  "unmarshal_anthropicEvent = decode_struct
     [json_field decode_string ''type'' ae_Type ae_Type_update,
      json_field (decode_pointer unmarshal_messageResponse zero_messageResponse) ''message'' ae_Message ae_Message_update,
      json_field decode_int ''index'' ae_Index ae_Index_update,
      json_field unmarshal_anthropicDelta ''delta'' ae_Delta ae_Delta_update,
      json_field (decode_pointer unmarshal_anthropicUsage zero_anthropicUsage) ''usage'' ae_Usage ae_Usage_update,
      json_field (decode_pointer unmarshal_contentBlock zero_contentBlock) ''content_block'' ae_ContentBlock ae_ContentBlock_update]"

section \<open>Anthropic: translation\<close>

definition is_block :: "json \<Rightarrow> bool" where
  "is_block j = (case j of JObj ms \<Rightarrow> True | JNull \<Rightarrow> True | _ \<Rightarrow> False)"

definition rawContentToAnthropic :: "'w http_env \<Rightarrow> raw \<Rightarrow> json" where
  "rawContentToAnthropic H r =
     (case r of
        None \<Rightarrow> JStr ''''
      | Some JNull \<Rightarrow> JStr ''''
      | Some (JStr s) \<Rightarrow> JStr s
      | Some (JArr js) \<Rightarrow> if list_all is_block js then JArr (map any_json js) else JStr (he_text H (JArr js))
      | Some j \<Rightarrow> JStr (he_text H j))"

definition anthropic_role :: "string \<Rightarrow> string" where
  "anthropic_role role = (if role = ''assistant'' then ''assistant'' else ''user'')"

definition toAnthropicRequest :: "'w http_env \<Rightarrow> ChatCompletionRequest \<Rightarrow> Target \<Rightarrow> bool \<Rightarrow> messageRequest" where
  "toAnthropicRequest H req target stream =
     (let systemParts = map (\<lambda>m. rawContentToAnthropic H (msg_Content m)) (filter (\<lambda>m. msg_Role m = ''system'') (req_Messages req));
          messages = map (\<lambda>m. \<lparr>nm_Role = anthropic_role (msg_Role m), nm_Content = rawContentToAnthropic H (msg_Content m)\<rparr>)
                       (filter (\<lambda>m. msg_Role m \<noteq> ''system'') (req_Messages req))
      in \<lparr>mq_Model = tg_Model target, mq_Messages = messages,
          mq_System = (case systemParts of [] \<Rightarrow> None | [p] \<Rightarrow> Some p | ps \<Rightarrow> Some (JArr ps)),
          mq_MaxTokens = (case max_tokens req of Some n \<Rightarrow> n | None \<Rightarrow> 1024),
          mq_Temperature = req_Temperature req, mq_TopP = req_TopP req, mq_Stream = stream\<rparr>)"

definition mapStopReason :: "string \<Rightarrow> string" where
  "mapStopReason reason =
     (if reason = ''end_turn'' \<or> reason = ''stop_sequence'' then ''stop''
      else if reason = ''max_tokens'' then ''length''
      else if reason = ''tool_use'' then ''tool_calls''
      else if reason = '''' then ''stop'' else reason)"

definition block_text :: "contentBlock list \<Rightarrow> string" where
  "block_text bs = concat (map cb_Text (filter (\<lambda>b. cb_Type b = ''text'') bs))"

definition fromAnthropicResponse :: "gotime \<Rightarrow> messageResponse \<Rightarrow> string \<Rightarrow> ChatCompletionResponse" where
  "fromAnthropicResponse now resp logicalModel =
     chat_response (mr_ID resp) now (if logicalModel = '''' then mr_Model resp else logicalModel) (block_text (mr_Content resp))
       (mapStopReason (mr_StopReason resp)) (token_usage (au_InputTokens (mr_Usage resp)) (au_OutputTokens (mr_Usage resp)))"

definition usageFromAnthropic :: "anthropicUsage option \<Rightarrow> Usage option" where
  "usageFromAnthropic u = map_option (\<lambda>u. token_usage (au_InputTokens u) (au_OutputTokens u)) u"

text \<open>The identifier and the model of a stream change with its first event.\<close>

record stream_ids =
  si_ID :: string
  si_Model :: string
  si_Created :: int

definition anthropicEventToOpenAIChunk :: "anthropicEvent \<Rightarrow> stream_ids \<Rightarrow> ChatCompletionStreamChunk option \<times> stream_ids" where
  "anthropicEventToOpenAIChunk event s =
     (if ae_Type event = ''message_start'' then
        let s = (case ae_Message event of
                   None \<Rightarrow> s
                 | Some m \<Rightarrow> s\<lparr>si_ID := mr_ID m, si_Model := (if mr_Model m \<noteq> '''' then mr_Model m else si_Model s)\<rparr>)
        in (Some (stream_chunk (si_ID s) (si_Created s) (si_Model s) 0 (zero_StreamDelta\<lparr>sd_Role := ''assistant''\<rparr>) None None), s)
      else if ae_Type event = ''content_block_delta'' then
        (if ad_Text (ae_Delta event) = '''' then None
         else Some (stream_chunk (si_ID s) (si_Created s) (si_Model s) (ae_Index event)
                (zero_StreamDelta\<lparr>sd_Content := Some (JStr (ad_Text (ae_Delta event)))\<rparr>) None None), s)
      else if ae_Type event = ''message_delta'' then
        (Some (stream_chunk (si_ID s) (si_Created s) (si_Model s) 0 zero_StreamDelta (Some (mapStopReason (ad_StopReason (ae_Delta event))))
           (usageFromAnthropic (ae_Usage event))), s)
      else (None, s))"

section \<open>Anthropic: the adapter\<close>

record AnthropicAdapter =
  na_name :: string
  na_baseURL :: string

definition NewAnthropic :: "string \<Rightarrow> string \<Rightarrow> AnthropicAdapter" where
  "NewAnthropic name baseURL =
     \<lparr>na_name = name, na_baseURL = strings_TrimRight (if baseURL = '''' then ''https://api.anthropic.com/v1'' else baseURL) (CHR ''/'')\<rparr>"

definition anthropic_headers :: "ProviderKey \<Rightarrow> (string \<times> string) list" where
  "anthropic_headers key = [json_header, (''anthropic-version'', anthropicVersion)] @ key_header ''x-api-key'' '''' key"

definition Anthropic_CompleteChat :: "'w http_env \<Rightarrow> AnthropicAdapter \<Rightarrow> 'w adapter" where
  "Anthropic_CompleteChat H a req target key w =
     (case call_json H ''anthropic'' unmarshal_messageResponse zero_messageResponse
             \<lparr>or_URL = base_url (na_baseURL a) target @ ''/messages'', or_Headers = anthropic_headers key,
              or_Body = marshal_messageRequest (toAnthropicRequest H req target False)\<rparr> w of
        (Inl e, w) \<Rightarrow> (Inl e, w)
      | (Inr out, w) \<Rightarrow> (case he_now H w of (now, w) \<Rightarrow> (Inr (Some (fromAnthropicResponse now out (req_Model req))), w)))"

definition anthropic_event :: "'w http_env \<Rightarrow> stream_ids \<Rightarrow> string \<Rightarrow> provider_error + ChatCompletionStreamChunk option \<times> stream_ids" where
  "anthropic_event H s p =
     (case decode_event H ''anthropic stream event'' unmarshal_anthropicEvent zero_anthropicEvent p of
        Inl e \<Rightarrow> Inl e
      | Inr event \<Rightarrow> Inr (anthropicEventToOpenAIChunk event s))"

definition Anthropic_StreamChat :: "'w http_env \<Rightarrow> AnthropicAdapter \<Rightarrow> 'w stream_adapter" where
  "Anthropic_StreamChat H a req target key w =
     open_sse H ''anthropic stream'' (anthropic_event H) (\<lambda>s. [])
       (\<lambda>w. case he_now H w of (now, w) \<Rightarrow> (\<lparr>si_ID = '''', si_Model = req_Model req, si_Created = time_Unix now\<rparr>, w))
       \<lparr>or_URL = base_url (na_baseURL a) target @ ''/messages'', or_Headers = anthropic_headers key @ [accept_sse],
        or_Body = marshal_messageRequest (toAnthropicRequest H req target True)\<rparr> w"

end
