(* ===== verification/Adapter_Bedrock.thy ===== *)
theory Adapter_Bedrock
  imports Adapter_Core
begin

text \<open>
  The adapters that translate to and from the protocols of AWS Bedrock and Cohere (\<^verbatim>\<open>internal/providers/bedrock\<close>, \<^verbatim>\<open>internal/providers/cohere\<close>).
\<close>

section \<open>Bedrock: types\<close>

record bedrockMessage =
  bm_Role :: string
  bm_Content :: "string list"

record inferenceConfig =
  ic_MaxTokens :: int
  ic_Temperature :: "f64 option"
  ic_TopP :: "f64 option"

record converseRequest =
  cq_Messages :: "bedrockMessage list"
  cq_System :: "string list"
  cq_InferenceConfig :: "inferenceConfig option"

record bedrockUsage =
  bu_InputTokens :: int
  bu_OutputTokens :: int

record converseResponse =
  cr_Message :: bedrockMessage
  cr_StopReason :: string
  cr_Usage :: bedrockUsage

record bedrockEvent =
  be_Type :: string
  be_Role :: string
  be_ContentBlockIndex :: int
  be_Delta :: "string option"
  be_StopReason :: string
  be_Usage :: "bedrockUsage option"

text \<open>A nil slice of messages is \<^verbatim>\<open>null\<close>.\<close>

definition json_slice :: "('a \<Rightarrow> json) \<Rightarrow> 'a list \<Rightarrow> json" where
  "json_slice f xs = (if xs = [] then JNull else JArr (map f xs))"

definition marshal_bedrockMessage :: "bedrockMessage \<Rightarrow> json" where
  "marshal_bedrockMessage m =
     JObj [(''role'', JStr (bm_Role m)), (''content'', json_slice (\<lambda>t. encode_object [(''text'', omit_string t)]) (bm_Content m))]"

definition marshal_converseRequest :: "converseRequest \<Rightarrow> json" where
  "marshal_converseRequest r = encode_object
     [(''messages'', Some (json_slice marshal_bedrockMessage (cq_Messages r))),
      (''system'', if cq_System r = [] then None else Some (JArr (map (\<lambda>t. JObj [(''text'', JStr t)]) (cq_System r)))),
      (''inferenceConfig'', map_option (\<lambda>c. encode_object
         [(''maxTokens'', if ic_MaxTokens c = 0 then None else Some (JInt (ic_MaxTokens c))),
          (''temperature'', map_option json_float (ic_Temperature c)), (''topP'', map_option json_float (ic_TopP c))]) (cq_InferenceConfig r))]"

definition unmarshal_text :: "string decoder" where
  "unmarshal_text = decode_struct [(''text'', decode_string)]"

definition unmarshal_bedrockMessage :: "bedrockMessage decoder" where
  "unmarshal_bedrockMessage = decode_struct
     [json_field decode_string ''role'' bm_Role bm_Role_update, json_field (decode_slice unmarshal_text '''') ''content'' bm_Content bm_Content_update]"

definition zero_bedrockUsage :: bedrockUsage where
  "zero_bedrockUsage = \<lparr>bu_InputTokens = 0, bu_OutputTokens = 0\<rparr>"

definition unmarshal_bedrockUsage :: "bedrockUsage decoder" where
  "unmarshal_bedrockUsage = decode_struct
     [json_field decode_int ''inputTokens'' bu_InputTokens bu_InputTokens_update,
      json_field decode_int ''outputTokens'' bu_OutputTokens bu_OutputTokens_update]"

definition zero_converseResponse :: converseResponse where
  "zero_converseResponse = \<lparr>cr_Message = \<lparr>bm_Role = '''', bm_Content = []\<rparr>, cr_StopReason = '''', cr_Usage = zero_bedrockUsage\<rparr>"

definition unmarshal_converseResponse :: "converseResponse decoder" where
  "unmarshal_converseResponse = decode_struct
     [(''output'', decode_struct [json_field unmarshal_bedrockMessage ''message'' cr_Message cr_Message_update]),
      json_field decode_string ''stopReason'' cr_StopReason cr_StopReason_update,
      json_field unmarshal_bedrockUsage ''usage'' cr_Usage cr_Usage_update]"

definition zero_bedrockEvent :: bedrockEvent where
  "zero_bedrockEvent = \<lparr>be_Type = '''', be_Role = '''', be_ContentBlockIndex = 0, be_Delta = None, be_StopReason = '''', be_Usage = None\<rparr>"

definition unmarshal_bedrockEvent :: "bedrockEvent decoder" where
  "unmarshal_bedrockEvent = decode_struct
     [json_field decode_string ''type'' be_Type be_Type_update, json_field decode_string ''role'' be_Role be_Role_update,
      json_field decode_int ''contentBlockIndex'' be_ContentBlockIndex be_ContentBlockIndex_update,
      json_field (decode_pointer unmarshal_text '''') ''delta'' be_Delta be_Delta_update,
      json_field decode_string ''stopReason'' be_StopReason be_StopReason_update,
      json_field (decode_pointer unmarshal_bedrockUsage zero_bedrockUsage) ''usage'' be_Usage be_Usage_update]"

section \<open>Bedrock: translation\<close>

definition bedrock_role :: "string \<Rightarrow> string" where
  "bedrock_role role = (if role \<noteq> ''user'' \<and> role \<noteq> ''assistant'' then ''user'' else role)"

definition toBedrockRequest :: "'w http_env \<Rightarrow> ChatCompletionRequest \<Rightarrow> converseRequest" where
  "toBedrockRequest H req =
     (let maxTokens = (case max_tokens req of Some n \<Rightarrow> n | None \<Rightarrow> 0)
      in \<lparr>cq_Messages = map (\<lambda>m. \<lparr>bm_Role = bedrock_role (msg_Role m), bm_Content = [content_text H (msg_Content m)]\<rparr>)
                          (filter (\<lambda>m. msg_Role m \<noteq> ''system'') (req_Messages req)),
          cq_System = map (\<lambda>m. content_text H (msg_Content m)) (filter (\<lambda>m. msg_Role m = ''system'') (req_Messages req)),
          cq_InferenceConfig =
            (if 0 < maxTokens \<or> req_Temperature req \<noteq> None \<or> req_TopP req \<noteq> None
             then Some \<lparr>ic_MaxTokens = maxTokens, ic_Temperature = req_Temperature req, ic_TopP = req_TopP req\<rparr> else None)\<rparr>)"

definition bedrock_stop_reason :: "string \<Rightarrow> string" where
  "bedrock_stop_reason reason =
     (if reason = ''end_turn'' \<or> reason = ''stop_sequence'' then ''stop''
      else if reason = ''max_tokens'' then ''length''
      else if reason = ''tool_use'' then ''tool_calls''
      else if reason = ''guardrail_intervened'' \<or> reason = ''content_filtered'' then ''content_filter''
      else if reason = '''' then ''stop'' else reason)"

definition time_id :: "string \<Rightarrow> gotime \<Rightarrow> string" where
  "time_id name now = name @ ''-'' @ itoa (time_UnixNano now)"

definition fromBedrockResponse :: "gotime \<Rightarrow> gotime \<Rightarrow> converseResponse \<Rightarrow> string \<Rightarrow> ChatCompletionResponse" where
  "fromBedrockResponse now now' resp logicalModel =
     chat_response (time_id ''bedrock'' now) now' (if logicalModel = '''' then ''bedrock'' else logicalModel) (concat (bm_Content (cr_Message resp)))
       (bedrock_stop_reason (cr_StopReason resp)) (token_usage (bu_InputTokens (cr_Usage resp)) (bu_OutputTokens (cr_Usage resp)))"

definition usageFromBedrock :: "bedrockUsage option \<Rightarrow> Usage option" where
  "usageFromBedrock u = map_option (\<lambda>u. token_usage (bu_InputTokens u) (bu_OutputTokens u)) u"

definition bedrockEventToOpenAIChunk :: "bedrockEvent \<Rightarrow> string \<Rightarrow> string \<Rightarrow> int \<Rightarrow> ChatCompletionStreamChunk option" where
  "bedrockEventToOpenAIChunk event messageID model created =
     (if be_Type event = ''messageStart''
      then Some (stream_chunk messageID created model 0 (zero_StreamDelta\<lparr>sd_Role := ''assistant''\<rparr>) None None)
      else if be_Type event = ''contentBlockDelta'' then
        (case be_Delta event of
           None \<Rightarrow> None
         | Some t \<Rightarrow> if t = '''' then None
             else Some (stream_chunk messageID created model (be_ContentBlockIndex event) (zero_StreamDelta\<lparr>sd_Content := Some (JStr t)\<rparr>) None None))
      else if be_Type event = ''messageStop''
      then Some (stream_chunk messageID created model 0 zero_StreamDelta (Some (bedrock_stop_reason (be_StopReason event))) (usageFromBedrock (be_Usage event)))
      else None)"

section \<open>Bedrock: the adapter\<close>

record BedrockAdapter =
  ba_name :: string
  ba_baseURL :: string

definition NewBedrock :: "string \<Rightarrow> string \<Rightarrow> BedrockAdapter" where
  "NewBedrock name baseURL =
     \<lparr>ba_name = name,
      ba_baseURL = strings_TrimRight (if baseURL = '''' then ''https://bedrock-runtime.us-east-1.amazonaws.com'' else baseURL) (CHR ''/'')\<rparr>"

definition bedrock_headers :: "ProviderKey \<Rightarrow> (string \<times> string) list" where
  "bedrock_headers key = json_header # key_header ''x-api-key'' '''' key"

definition Bedrock_CompleteChat :: "'w http_env \<Rightarrow> BedrockAdapter \<Rightarrow> 'w adapter" where
  "Bedrock_CompleteChat H a req target key w =
     (case call_json H ''bedrock'' unmarshal_converseResponse zero_converseResponse
             \<lparr>or_URL = base_url (ba_baseURL a) target @ ''/model/'' @ tg_Model target @ ''/converse'', or_Headers = bedrock_headers key,
              or_Body = marshal_converseRequest (toBedrockRequest H req)\<rparr> w of
        (Inl e, w) \<Rightarrow> (Inl e, w)
      | (Inr out, w) \<Rightarrow>
          (case he_now H w of (now, w) \<Rightarrow> case he_now H w of (now', w) \<Rightarrow> (Inr (Some (fromBedrockResponse now now' out (req_Model req))), w)))"

definition bedrock_event :: "'w http_env \<Rightarrow> string \<Rightarrow> string \<times> int \<Rightarrow> string \<Rightarrow> provider_error + ChatCompletionStreamChunk option \<times> (string \<times> int)" where
  "bedrock_event H model s p =
     (case decode_event H ''bedrock stream event'' unmarshal_bedrockEvent zero_bedrockEvent p of
        Inl e \<Rightarrow> Inl e
      | Inr event \<Rightarrow> Inr (bedrockEventToOpenAIChunk event (fst s) model (snd s), s))"

definition start_ids :: "'w http_env \<Rightarrow> string \<Rightarrow> 'w \<Rightarrow> (string \<times> int) \<times> 'w" where
  "start_ids H name w = (case he_now H w of (now, w) \<Rightarrow> case he_now H w of (now', w) \<Rightarrow> ((time_id name now, time_Unix now'), w))"

definition Bedrock_StreamChat :: "'w http_env \<Rightarrow> BedrockAdapter \<Rightarrow> 'w stream_adapter" where
  "Bedrock_StreamChat H a req target key w =
     open_sse H ''bedrock stream'' (bedrock_event H (req_Model req)) (\<lambda>s. []) (start_ids H ''bedrock'')
       \<lparr>or_URL = base_url (ba_baseURL a) target @ ''/model/'' @ tg_Model target @ ''/converse-stream'', or_Headers = bedrock_headers key @ [accept_sse],
        or_Body = marshal_converseRequest (toBedrockRequest H req)\<rparr> w"

section \<open>Cohere: types\<close>

record cohereMessage =
  hm_Role :: string
  hm_Content :: string

record cohereRequest =
  hq_Model :: string
  hq_Message :: string
  hq_ChatHistory :: "cohereMessage list"
  hq_Stream :: bool

record cohereResponse =
  hp_ID :: string
  hp_Content :: "(string \<times> string) list"
  hp_Input :: int
  hp_Output :: int

record cohereStreamEvent =
  he_Type :: string
  he_Delta :: "string option option"
  he_Finish :: "string option"

definition marshal_cohereRequest :: "cohereRequest \<Rightarrow> json" where
  "marshal_cohereRequest r = encode_object
     [(''model'', Some (JStr (hq_Model r))), (''message'', Some (JStr (hq_Message r))),
      (''chat_history'', if hq_ChatHistory r = [] then None
         else Some (JArr (map (\<lambda>m. JObj [(''role'', JStr (hm_Role m)), (''content'', JStr (hm_Content m))]) (hq_ChatHistory r)))),
      (''stream'', omit_bool (hq_Stream r))]"

definition unmarshal_cohereBlock :: "(string \<times> string) decoder" where
  "unmarshal_cohereBlock = decode_struct
     [(''type'', \<lambda>j (t, x). map_option (\<lambda>t. (t, x)) (decode_string j t)), (''text'', \<lambda>j (t, x). map_option (\<lambda>x. (t, x)) (decode_string j x))]"

definition zero_cohereResponse :: cohereResponse where
  "zero_cohereResponse = \<lparr>hp_ID = '''', hp_Content = [], hp_Input = 0, hp_Output = 0\<rparr>"

definition unmarshal_cohereResponse :: "cohereResponse decoder" where
  "unmarshal_cohereResponse = decode_struct
     [json_field decode_string ''id'' hp_ID hp_ID_update,
      (''message'', decode_struct [json_field (decode_slice unmarshal_cohereBlock ('''', '''')) ''content'' hp_Content hp_Content_update]),
      (''usage'', decode_struct [(''tokens'', decode_struct
         [json_field decode_int ''input'' hp_Input hp_Input_update, json_field decode_int ''output'' hp_Output hp_Output_update])])]"

definition zero_cohereEvent :: cohereStreamEvent where
  "zero_cohereEvent = \<lparr>he_Type = '''', he_Delta = None, he_Finish = None\<rparr>"

definition unmarshal_cohereEvent :: "cohereStreamEvent decoder" where
  "unmarshal_cohereEvent = decode_struct
     [json_field decode_string ''type'' he_Type he_Type_update,
      json_field (decode_pointer (decode_struct [(''content'', decode_pointer (decode_struct [(''text'', decode_string)]) '''')]) None) ''delta''
        he_Delta he_Delta_update,
      json_field (decode_pointer (decode_struct [(''reason'', decode_string)]) '''') ''finish_reason'' he_Finish he_Finish_update]"

section \<open>Cohere: translation\<close>

definition cohere_message :: "'w http_env \<Rightarrow> ChatMessage \<Rightarrow> cohereMessage" where
  "cohere_message H m =
     \<lparr>hm_Role = (if msg_Role m = ''assistant'' then ''CHATBOT'' else if msg_Role m = ''system'' then ''SYSTEM'' else ''USER''),
      hm_Content = content_text H (msg_Content m)\<rparr>"

text \<open>The last message of a user becomes the message, and the others the history.\<close>

definition is_user :: "cohereMessage \<Rightarrow> bool" where
  "is_user m \<longleftrightarrow> hm_Role m = ''USER''"

fun drop_first_user :: "cohereMessage list \<Rightarrow> cohereMessage list" where
  "drop_first_user [] = []"
| "drop_first_user (m # ms) = (if is_user m then ms else m # drop_first_user ms)"

definition toCohereRequest :: "'w http_env \<Rightarrow> ChatCompletionRequest \<Rightarrow> Target \<Rightarrow> bool \<Rightarrow> cohereRequest" where
  "toCohereRequest H req target stream =
     (let history = map (cohere_message H) (req_Messages req)
      in \<lparr>hq_Model = (if tg_Model target = '''' then req_Model req else tg_Model target),
          hq_Message = (case filter is_user history of [] \<Rightarrow> '''' | us \<Rightarrow> hm_Content (last us)),
          hq_ChatHistory = rev (drop_first_user (rev history)), hq_Stream = stream\<rparr>)"

definition fromCohereResponse :: "gotime \<Rightarrow> cohereResponse \<Rightarrow> string \<Rightarrow> ChatCompletionResponse" where
  "fromCohereResponse now resp logicalModel =
     chat_response (hp_ID resp) now logicalModel (concat (map snd (filter (\<lambda>(t, x). t = ''text'') (hp_Content resp)))) ''stop''
       (token_usage (hp_Input resp) (hp_Output resp))"

definition cohereEventToOpenAIChunk :: "cohereStreamEvent \<Rightarrow> string \<Rightarrow> string \<Rightarrow> int \<Rightarrow> ChatCompletionStreamChunk option" where
  "cohereEventToOpenAIChunk event messageID model created =
     (if he_Type event = ''message-start''
      then Some (stream_chunk messageID created model 0 (zero_StreamDelta\<lparr>sd_Role := ''assistant''\<rparr>) None None)
      else if he_Type event = ''content-delta'' then
        (case he_Delta event of
           Some (Some t) \<Rightarrow> if t = '''' then None
             else Some (stream_chunk messageID created model 0 (zero_StreamDelta\<lparr>sd_Content := Some (JStr t)\<rparr>) None None)
         | _ \<Rightarrow> None)
      else None)"

section \<open>Cohere: the adapter\<close>

record CohereAdapter =
  co_baseURL :: string

definition NewCohere :: "string \<Rightarrow> CohereAdapter" where
  "NewCohere baseURL = \<lparr>co_baseURL = strings_TrimRight (if baseURL = '''' then ''https://api.cohere.com/v2'' else baseURL) (CHR ''/'')\<rparr>"

definition cohere_headers :: "ProviderKey \<Rightarrow> (string \<times> string) list" where
  "cohere_headers key = json_header # key_header ''Authorization'' ''Bearer '' key"

definition Cohere_CompleteChat :: "'w http_env \<Rightarrow> CohereAdapter \<Rightarrow> 'w adapter" where
  "Cohere_CompleteChat H a req target key w =
     (case call_json H ''cohere'' unmarshal_cohereResponse zero_cohereResponse
             \<lparr>or_URL = base_url (co_baseURL a) target @ ''/chat'', or_Headers = cohere_headers key,
              or_Body = marshal_cohereRequest (toCohereRequest H req target False)\<rparr> w of
        (Inl e, w) \<Rightarrow> (Inl e, w)
      | (Inr out, w) \<Rightarrow> (case he_now H w of (now, w) \<Rightarrow> (Inr (Some (fromCohereResponse now out (req_Model req))), w)))"

definition cohere_event :: "'w http_env \<Rightarrow> string \<Rightarrow> int \<Rightarrow> string \<Rightarrow> provider_error + ChatCompletionStreamChunk option \<times> int" where
  "cohere_event H model created p =
     (case decode_event H ''cohere stream event'' unmarshal_cohereEvent zero_cohereEvent p of
        Inl e \<Rightarrow> Inl e
      | Inr event \<Rightarrow> Inr (cohereEventToOpenAIChunk event '''' model created, created))"

definition cohere_end :: "string \<Rightarrow> int \<Rightarrow> ChatCompletionStreamChunk list" where
  "cohere_end model created = [stream_chunk '''' created model 0 zero_StreamDelta (Some ''stop'') None]"

definition Cohere_StreamChat :: "'w http_env \<Rightarrow> CohereAdapter \<Rightarrow> 'w stream_adapter" where
  "Cohere_StreamChat H a req target key w =
     open_sse H ''cohere stream'' (cohere_event H (req_Model req)) (cohere_end (req_Model req))
       (\<lambda>w. case he_now H w of (now, w) \<Rightarrow> (time_Unix now, w))
       \<lparr>or_URL = base_url (co_baseURL a) target @ ''/chat'', or_Headers = cohere_headers key @ [accept_sse],
        or_Body = marshal_cohereRequest (toCohereRequest H req target True)\<rparr> w"

end
