(* ===== verification/Adapter_Google.thy ===== *)
theory Adapter_Google
  imports Adapter_Bedrock
begin

text \<open>
  The adapters of the two Google services (\<^verbatim>\<open>internal/providers/gemini\<close>, \<^verbatim>\<open>internal/providers/vertex\<close>). They have the same types, with the same JSON, under two names; there is
  one record for both here. They differ in the endpoint, in the header of the key and in the names in messages.
\<close>

section \<open>Types\<close>

record geminiFunctionDecl =
  fd_Name :: string
  fd_Description :: string
  fd_Parameters :: "(string, json) gomap"

record geminiContent =
  gc_Role :: string
  gc_Parts :: "string list"

record geminiGenConfig =
  gg_Temperature :: "f64 option"
  gg_TopP :: "f64 option"
  gg_MaxOutputTokens :: "int option"

record geminiRequest =
  gq_Contents :: "geminiContent list"
  gq_SystemInstruction :: "geminiContent option"
  gq_Tools :: "geminiFunctionDecl list"
  gq_GenerationConfig :: "geminiGenConfig option"

record geminiCandidate =
  gd_Content :: geminiContent
  gd_FinishReason :: string
  gd_Index :: int

record geminiUsage =
  gu_PromptTokenCount :: int
  gu_CandidatesTokenCount :: int
  gu_TotalTokenCount :: int

record geminiError =
  ge_Code :: int
  ge_Message :: string
  ge_Status :: string

record geminiResponse =
  gr_Candidates :: "geminiCandidate list"
  gr_UsageMetadata :: "geminiUsage option"
  gr_Error :: "geminiError option"

definition marshal_geminiContent :: "geminiContent \<Rightarrow> json" where
  "marshal_geminiContent c = encode_object
     [(''role'', omit_string (gc_Role c)), (''parts'', Some (json_slice (\<lambda>t. encode_object [(''text'', omit_string t)]) (gc_Parts c)))]"

definition marshal_geminiDecl :: "geminiFunctionDecl \<Rightarrow> json" where
  "marshal_geminiDecl d = encode_object
     [(''name'', Some (JStr (fd_Name d))), (''description'', omit_string (fd_Description d)),
      (''parameters'', if fd_Parameters d = [] then None else Some (JObj (fd_Parameters d)))]"

definition marshal_geminiRequest :: "geminiRequest \<Rightarrow> json" where
  "marshal_geminiRequest r = encode_object
     [(''contents'', Some (json_slice marshal_geminiContent (gq_Contents r))),
      (''systemInstruction'', map_option marshal_geminiContent (gq_SystemInstruction r)),
      (''tools'', if gq_Tools r = [] then None else Some (JArr [JObj [(''functionDeclarations'', JArr (map marshal_geminiDecl (gq_Tools r)))]])),
      (''generationConfig'', map_option (\<lambda>c. encode_object
         [(''temperature'', map_option json_float (gg_Temperature c)), (''topP'', map_option json_float (gg_TopP c)),
          (''maxOutputTokens'', map_option JInt (gg_MaxOutputTokens c))]) (gq_GenerationConfig r))]"

text \<open>A value of type \<^verbatim>\<open>map[string]interface{}\<close> that is decoded into an existing map.\<close>

definition decode_any_members :: "(string, json) gomap decoder" where
  "decode_any_members j old =
     (case j of JNull \<Rightarrow> Some [] | JObj ms \<Rightarrow> Some (map_members (old @ map (map_prod (\<lambda>k. k) any_json) ms)) | _ \<Rightarrow> None)"

definition unmarshal_geminiPart :: "(string \<times> (string \<times> (string, json) gomap) option) decoder" where
  "unmarshal_geminiPart = decode_struct
     [(''text'', \<lambda>j (t, c). map_option (\<lambda>t. (t, c)) (decode_string j t)),
      (''functionCall'', \<lambda>j (t, c). map_option (\<lambda>c. (t, c)) (decode_pointer (decode_struct
         [(''name'', \<lambda>j (n, a). map_option (\<lambda>n. (n, a)) (decode_string j n)),
          (''args'', \<lambda>j (n, a). map_option (\<lambda>a. (n, a)) (decode_any_members j a))]) ('''', []) j c))]"

text \<open>Only the texts of the parts are used.\<close>

definition decode_parts :: "string list decoder" where
  "decode_parts j old = map_option (map fst) (decode_slice unmarshal_geminiPart ('''', None) j [])"

definition unmarshal_geminiContent :: "geminiContent decoder" where
  "unmarshal_geminiContent = decode_struct
     [json_field decode_string ''role'' gc_Role gc_Role_update, json_field decode_parts ''parts'' gc_Parts gc_Parts_update]"

definition zero_geminiCandidate :: geminiCandidate where
  "zero_geminiCandidate = \<lparr>gd_Content = \<lparr>gc_Role = '''', gc_Parts = []\<rparr>, gd_FinishReason = '''', gd_Index = 0\<rparr>"

definition unmarshal_geminiCandidate :: "geminiCandidate decoder" where
  "unmarshal_geminiCandidate = decode_struct
     [json_field unmarshal_geminiContent ''content'' gd_Content gd_Content_update,
      json_field decode_string ''finishReason'' gd_FinishReason gd_FinishReason_update, json_field decode_int ''index'' gd_Index gd_Index_update]"

definition unmarshal_geminiUsage :: "geminiUsage decoder" where
  "unmarshal_geminiUsage = decode_struct
     [json_field decode_int ''promptTokenCount'' gu_PromptTokenCount gu_PromptTokenCount_update,
      json_field decode_int ''candidatesTokenCount'' gu_CandidatesTokenCount gu_CandidatesTokenCount_update,
      json_field decode_int ''totalTokenCount'' gu_TotalTokenCount gu_TotalTokenCount_update]"

definition unmarshal_geminiError :: "geminiError decoder" where
  "unmarshal_geminiError = decode_struct
     [json_field decode_int ''code'' ge_Code ge_Code_update, json_field decode_string ''message'' ge_Message ge_Message_update,
      json_field decode_string ''status'' ge_Status ge_Status_update]"

definition zero_geminiResponse :: geminiResponse where
  "zero_geminiResponse = \<lparr>gr_Candidates = [], gr_UsageMetadata = None, gr_Error = None\<rparr>"

definition unmarshal_geminiResponse :: "geminiResponse decoder" where
  "unmarshal_geminiResponse = decode_struct
     [json_field (decode_slice unmarshal_geminiCandidate zero_geminiCandidate) ''candidates'' gr_Candidates gr_Candidates_update,
      json_field (decode_pointer unmarshal_geminiUsage \<lparr>gu_PromptTokenCount = 0, gu_CandidatesTokenCount = 0, gu_TotalTokenCount = 0\<rparr>)
        ''usageMetadata'' gr_UsageMetadata gr_UsageMetadata_update,
      json_field (decode_pointer unmarshal_geminiError \<lparr>ge_Code = 0, ge_Message = '''', ge_Status = ''''\<rparr>) ''error'' gr_Error gr_Error_update]"

section \<open>Translation\<close>

record openai_tool_def =
  ot_Type :: string
  ot_Function :: geminiFunctionDecl

definition unmarshal_tool_def :: "openai_tool_def decoder" where
  "unmarshal_tool_def = decode_struct
     [json_field decode_string ''type'' ot_Type ot_Type_update,
      json_field (decode_struct
        [json_field decode_string ''name'' fd_Name fd_Name_update, json_field decode_string ''description'' fd_Description fd_Description_update,
         json_field decode_any_members ''parameters'' fd_Parameters fd_Parameters_update]) ''function'' ot_Function ot_Function_update]"

definition mapTools :: "json \<Rightarrow> geminiFunctionDecl list" where
  "mapTools toolsRaw =
     (case decode_slice unmarshal_tool_def \<lparr>ot_Type = '''', ot_Function = \<lparr>fd_Name = '''', fd_Description = '''', fd_Parameters = []\<rparr>\<rparr> toolsRaw [] of
        None \<Rightarrow> []
      | Some tools \<Rightarrow> map ot_Function (filter (\<lambda>t. ot_Type t = ''function'') tools))"

definition gemini_role :: "string \<Rightarrow> string" where
  "gemini_role role = (if role = ''assistant'' then ''model'' else role)"

text \<open>Every system message replaces the one before it.\<close>

definition toGeminiRequest :: "'w http_env \<Rightarrow> ChatCompletionRequest \<Rightarrow> geminiRequest" where
  "toGeminiRequest H req =
     (let systemTexts = map (\<lambda>m. content_text H (msg_Content m)) (filter (\<lambda>m. msg_Role m = ''system'') (req_Messages req));
          maxTokens = max_tokens req
      in \<lparr>gq_Contents = map (\<lambda>m. \<lparr>gc_Role = gemini_role (msg_Role m), gc_Parts = [content_text H (msg_Content m)]\<rparr>)
                          (filter (\<lambda>m. msg_Role m \<noteq> ''system'') (req_Messages req)),
          gq_SystemInstruction = (if systemTexts = [] then None else Some \<lparr>gc_Role = '''', gc_Parts = [last systemTexts]\<rparr>),
          gq_Tools = (case req_Tools req of None \<Rightarrow> [] | Some j \<Rightarrow> mapTools j),
          gq_GenerationConfig =
            (if req_Temperature req \<noteq> None \<or> req_TopP req \<noteq> None \<or> maxTokens \<noteq> None
             then Some \<lparr>gg_Temperature = req_Temperature req, gg_TopP = req_TopP req, gg_MaxOutputTokens = maxTokens\<rparr> else None)\<rparr>)"

definition mapFinishReason :: "string \<Rightarrow> string" where
  "mapFinishReason reason =
     (if reason = ''STOP'' then ''stop''
      else if reason = ''MAX_TOKENS'' then ''length''
      else if reason = ''SAFETY'' \<or> reason = ''RECITATION'' then ''content_filter''
      else if reason = '''' then ''stop'' else reason)"

definition google_response :: "string \<Rightarrow> gotime \<Rightarrow> gotime \<Rightarrow> geminiResponse \<Rightarrow> string \<Rightarrow> string \<Rightarrow> ChatCompletionResponse" where
  "google_response name now now' resp logicalModel providerModel =
     chat_response (time_id name now) now' (if logicalModel = '''' then providerModel else logicalModel)
       (case gr_Candidates resp of [] \<Rightarrow> '''' | c # cs \<Rightarrow> concat (gc_Parts (gd_Content c)))
       (case gr_Candidates resp of [] \<Rightarrow> ''stop'' | c # cs \<Rightarrow> mapFinishReason (gd_FinishReason c))
       (case gr_UsageMetadata resp of
          None \<Rightarrow> zero_Usage
        | Some u \<Rightarrow> \<lparr>us_PromptTokens = gu_PromptTokenCount u, us_CompletionTokens = gu_CandidatesTokenCount u, us_TotalTokens = gu_TotalTokenCount u\<rparr>)"

definition fromGeminiResponse :: "gotime \<Rightarrow> gotime \<Rightarrow> geminiResponse \<Rightarrow> string \<Rightarrow> string \<Rightarrow> ChatCompletionResponse" where
  "fromGeminiResponse now now' resp logicalModel geminiModel = google_response ''gemini'' now now' resp logicalModel geminiModel"

definition geminiEventToOpenAIChunk :: "geminiResponse \<Rightarrow> string \<Rightarrow> string \<Rightarrow> int \<Rightarrow> ChatCompletionStreamChunk option" where
  "geminiEventToOpenAIChunk event messageID model created =
     (case gr_Candidates event of
        [] \<Rightarrow> None
      | cand # cs \<Rightarrow>
          let t = concat (gc_Parts (gd_Content cand))
          in if t \<noteq> '''' then Some (stream_chunk messageID created model (gd_Index cand) (zero_StreamDelta\<lparr>sd_Content := Some (JStr t)\<rparr>) None None)
             else if gd_FinishReason cand \<noteq> ''''
             then Some (stream_chunk messageID created model (gd_Index cand) zero_StreamDelta (Some (mapFinishReason (gd_FinishReason cand))) None)
             else None)"

text \<open>The exchange of both adapters; \<open>name\<close> is the name of the service.\<close>

definition google_complete ::
  "'w http_env \<Rightarrow> string \<Rightarrow> (gotime \<Rightarrow> gotime \<Rightarrow> geminiResponse \<Rightarrow> ChatCompletionResponse) \<Rightarrow> out_request \<Rightarrow> 'w
   \<Rightarrow> (provider_error + ChatCompletionResponse option) \<times> 'w" where
  "google_complete H name from_response r w =
     (case call_json H name unmarshal_geminiResponse zero_geminiResponse r w of
        (Inl e, w) \<Rightarrow> (Inl e, w)
      | (Inr out, w) \<Rightarrow>
          (case gr_Error out of
             Some e \<Rightarrow> (Inl (OtherError (name @ '' error '' @ itoa (ge_Code e) @ '': '' @ ge_Message e)), w)
           | None \<Rightarrow> (case he_now H w of (now, w) \<Rightarrow> case he_now H w of (now', w) \<Rightarrow> (Inr (Some (from_response now now' out)), w))))"

definition google_event ::
  "'w http_env \<Rightarrow> string \<Rightarrow> (geminiResponse \<Rightarrow> string \<Rightarrow> string \<Rightarrow> int \<Rightarrow> ChatCompletionStreamChunk option) \<Rightarrow> string \<Rightarrow> string \<times> int \<Rightarrow> string
   \<Rightarrow> provider_error + ChatCompletionStreamChunk option \<times> (string \<times> int)" where
  "google_event H name to_chunk model s p =
     (case decode_event H (name @ '' stream event'') unmarshal_geminiResponse zero_geminiResponse p of
        Inl e \<Rightarrow> Inl e
      | Inr event \<Rightarrow>
          (case gr_Error event of
             Some e \<Rightarrow> Inl (OtherError (name @ '' stream error '' @ itoa (ge_Code e) @ '': '' @ ge_Message e))
           | None \<Rightarrow> Inr (to_chunk event (fst s) model (snd s), s)))"

section \<open>Gemini\<close>

record GeminiAdapter =
  gm_name :: string
  gm_baseURL :: string
  gm_modelMap :: "(string, string) gomap"

definition NewGemini :: "string \<Rightarrow> string \<Rightarrow> (string, string) gomap \<Rightarrow> GeminiAdapter" where
  "NewGemini name baseURL modelMap =
     \<lparr>gm_name = name, gm_baseURL = strings_TrimRight (if baseURL = '''' then ''https://generativelanguage.googleapis.com'' else baseURL) (CHR ''/''),
      gm_modelMap = modelMap\<rparr>"

definition gemini_resolveModel :: "GeminiAdapter \<Rightarrow> string \<Rightarrow> string" where
  "gemini_resolveModel a model = (case gm_get (gm_modelMap a) model of Some mapped \<Rightarrow> mapped | None \<Rightarrow> model)"

definition gemini_headers :: "ProviderKey \<Rightarrow> (string \<times> string) list" where
  "gemini_headers key = json_header # key_header ''x-goog-api-key'' '''' key"

definition Gemini_CompleteChat :: "'w http_env \<Rightarrow> GeminiAdapter \<Rightarrow> 'w adapter" where
  "Gemini_CompleteChat H a req target key w =
     (let model = gemini_resolveModel a (tg_Model target)
      in google_complete H ''gemini'' (\<lambda>now now' out. fromGeminiResponse now now' out (req_Model req) model)
           \<lparr>or_URL = base_url (gm_baseURL a) target @ ''/v1beta/models/'' @ model @ '':generateContent'', or_Headers = gemini_headers key,
            or_Body = marshal_geminiRequest (toGeminiRequest H req)\<rparr> w)"

definition Gemini_StreamChat :: "'w http_env \<Rightarrow> GeminiAdapter \<Rightarrow> 'w stream_adapter" where
  "Gemini_StreamChat H a req target key w =
     (let model = gemini_resolveModel a (tg_Model target)
      in open_sse H ''gemini stream'' (google_event H ''gemini'' geminiEventToOpenAIChunk (req_Model req)) (\<lambda>s. []) (start_ids H ''gemini'')
           \<lparr>or_URL = base_url (gm_baseURL a) target @ ''/v1beta/models/'' @ model @ '':streamGenerateContent?alt=sse'',
            or_Headers = gemini_headers key @ [accept_sse], or_Body = marshal_geminiRequest (toGeminiRequest H req)\<rparr> w)"

section \<open>Vertex\<close>

record VertexAdapter =
  vx_name :: string
  vx_project :: string
  vx_region :: string
  vx_publisher :: string

definition NewVertex :: "string \<Rightarrow> string \<Rightarrow> string \<Rightarrow> string \<Rightarrow> VertexAdapter" where
  "NewVertex name project region publisher =
     \<lparr>vx_name = name, vx_project = project, vx_region = region, vx_publisher = (if publisher = '''' then ''google'' else publisher)\<rparr>"

definition buildEndpoint :: "VertexAdapter \<Rightarrow> string \<Rightarrow> string \<Rightarrow> string" where
  "buildEndpoint a model action =
     ''https://'' @ vx_region a @ ''-aiplatform.googleapis.com/v1/projects/'' @ vx_project a @ ''/locations/'' @ vx_region a
     @ ''/publishers/'' @ vx_publisher a @ ''/models/'' @ model @ '':'' @ action"

definition vertex_resolveModel :: "string \<Rightarrow> string" where
  "vertex_resolveModel model = rev (takeWhile (\<lambda>c. c \<noteq> CHR ''/'') (rev model))"

definition toVertexRequest :: "'w http_env \<Rightarrow> ChatCompletionRequest \<Rightarrow> geminiRequest" where
  "toVertexRequest H req = toGeminiRequest H req"

definition fromVertexResponse :: "gotime \<Rightarrow> gotime \<Rightarrow> geminiResponse \<Rightarrow> string \<Rightarrow> string \<Rightarrow> ChatCompletionResponse" where
  "fromVertexResponse now now' resp logicalModel vertexModel = google_response ''vertex'' now now' resp logicalModel vertexModel"

definition vertex_headers :: "ProviderKey \<Rightarrow> (string \<times> string) list" where
  "vertex_headers key = json_header # key_header ''Authorization'' ''Bearer '' key"

definition vertexEventToOpenAIChunk :: "geminiResponse \<Rightarrow> string \<Rightarrow> string \<Rightarrow> int \<Rightarrow> ChatCompletionStreamChunk option" where
  "vertexEventToOpenAIChunk event messageID model created = geminiEventToOpenAIChunk event messageID model created"

definition Vertex_CompleteChat :: "'w http_env \<Rightarrow> VertexAdapter \<Rightarrow> 'w adapter" where
  "Vertex_CompleteChat H a req target key w =
     (let model = vertex_resolveModel (tg_Model target)
      in google_complete H ''vertex'' (\<lambda>now now' out. fromVertexResponse now now' out (req_Model req) model)
           \<lparr>or_URL = buildEndpoint a model ''generateContent'', or_Headers = vertex_headers key,
            or_Body = marshal_geminiRequest (toVertexRequest H req)\<rparr> w)"

definition Vertex_StreamChat :: "'w http_env \<Rightarrow> VertexAdapter \<Rightarrow> 'w stream_adapter" where
  "Vertex_StreamChat H a req target key w =
     (let model = vertex_resolveModel (tg_Model target)
      in open_sse H ''vertex stream'' (google_event H ''vertex'' vertexEventToOpenAIChunk (req_Model req)) (\<lambda>s. []) (start_ids H ''vertex'')
           \<lparr>or_URL = buildEndpoint a model ''streamGenerateContent'' @ ''?alt=sse'', or_Headers = vertex_headers key @ [accept_sse],
            or_Body = marshal_geminiRequest (toVertexRequest H req)\<rparr> w)"

end
