(* ===== verification/Adapters.thy ===== *)
theory Adapters
  imports Adapter_OpenAI Adapter_Anthropic Adapter_Google
begin

text \<open>
  The adapters together: the interface \<^verbatim>\<open>providers.Adapter\<close> over all of them, and their construction from the configuration (\<^verbatim>\<open>buildAdapters\<close> in
  \<^verbatim>\<open>internal/server/server.go\<close>).

  The locale \<open>chat_adapter\<close> has what the gateway relies on: how a failed exchange and a status become an error, that a good answer becomes a response or an ordinary error,
  and where the key of the provider goes. It is interpreted on every adapter at once. The locale \<open>event_translator\<close> has what a translation of stream events keeps; it is
  interpreted on the four translations. The lemmas show which errors are retried, that the pipeline with these adapters always answers, that streams carry the text of
  their events, and where regions, usage and errors are lost.
\<close>

section \<open>The interface\<close>

datatype Adapter =
    OpenAI OpenAIAdapter
  | Azure AzureAdapter
  | Groq GroqAdapter
  | Mistral MistralAdapter
  | Anthropic AnthropicAdapter
  | Bedrock BedrockAdapter
  | Cohere CohereAdapter
  | Gemini GeminiAdapter
  | Vertex VertexAdapter

fun Adapter_Name :: "Adapter \<Rightarrow> string" where
  "Adapter_Name (OpenAI a) = oa_name a"
| "Adapter_Name (Azure a) = az_name a"
| "Adapter_Name (Groq a) = ''groq''"
| "Adapter_Name (Mistral a) = ''mistral''"
| "Adapter_Name (Anthropic a) = na_name a"
| "Adapter_Name (Bedrock a) = ba_name a"
| "Adapter_Name (Cohere a) = ''cohere''"
| "Adapter_Name (Gemini a) = gm_name a"
| "Adapter_Name (Vertex a) = vx_name a"

fun CompleteChat :: "'w http_env \<Rightarrow> Adapter \<Rightarrow> 'w adapter" where
  "CompleteChat H (OpenAI a) = OpenAI_CompleteChat H a"
| "CompleteChat H (Azure a) = Azure_CompleteChat H a"
| "CompleteChat H (Groq a) = Groq_CompleteChat H a"
| "CompleteChat H (Mistral a) = Mistral_CompleteChat H a"
| "CompleteChat H (Anthropic a) = Anthropic_CompleteChat H a"
| "CompleteChat H (Bedrock a) = Bedrock_CompleteChat H a"
| "CompleteChat H (Cohere a) = Cohere_CompleteChat H a"
| "CompleteChat H (Gemini a) = Gemini_CompleteChat H a"
| "CompleteChat H (Vertex a) = Vertex_CompleteChat H a"

fun StreamChat :: "'w http_env \<Rightarrow> Adapter \<Rightarrow> 'w stream_adapter" where
  "StreamChat H (OpenAI a) = OpenAI_StreamChat H a"
| "StreamChat H (Azure a) = Azure_StreamChat H a"
| "StreamChat H (Groq a) = Groq_StreamChat H a"
| "StreamChat H (Mistral a) = Mistral_StreamChat H a"
| "StreamChat H (Anthropic a) = Anthropic_StreamChat H a"
| "StreamChat H (Bedrock a) = Bedrock_StreamChat H a"
| "StreamChat H (Cohere a) = Cohere_StreamChat H a"
| "StreamChat H (Gemini a) = Gemini_StreamChat H a"
| "StreamChat H (Vertex a) = Vertex_StreamChat H a"

section \<open>Construction\<close>

definition resolve_provider :: "string \<Rightarrow> ProviderConfig \<Rightarrow> ProviderConfig" where
  "resolve_provider name cfg =
     (let cfg = (if pc_Type cfg = ''''
                 then cfg\<lparr>pc_Type := (case LookupDefault name of
                        Some d \<Rightarrow> if pd_BaseType d = '''' then ''openai-compatible'' else pd_BaseType d | None \<Rightarrow> ''openai-compatible'')\<rparr>
                 else cfg)
      in if pc_BaseURL cfg = '''' then (case LookupDefault name of Some d \<Rightarrow> cfg\<lparr>pc_BaseURL := pd_BaseURL d\<rparr> | None \<Rightarrow> cfg) else cfg)"

definition new_adapter :: "string \<Rightarrow> ProviderConfig \<Rightarrow> Adapter option" where
  "new_adapter name cfg =
     (let t = pc_Type cfg
      in if t = ''openai'' \<or> t = ''openai-compatible'' then Some (OpenAI (NewOpenAI name (pc_BaseURL cfg)))
         else if t = ''anthropic'' then Some (Anthropic (NewAnthropic name (pc_BaseURL cfg)))
         else if t = ''gemini'' then Some (Gemini (NewGemini name (pc_BaseURL cfg) (pc_GeminiModelMap cfg)))
         else if t = ''azure-openai'' then Some (Azure (NewAzure name (pc_AzureResource cfg) (pc_AzureAPIVersion cfg)))
         else if t = ''bedrock'' then Some (Bedrock (NewBedrock name (pc_BaseURL cfg)))
         else if t = ''vertex'' then Some (Vertex (NewVertex name (pc_Project cfg) (pc_Region cfg) (pc_Publisher cfg)))
         else if t = ''groq'' then Some (Groq (NewGroq (pc_BaseURL cfg)))
         else if t = ''cohere'' then Some (Cohere (NewCohere (pc_BaseURL cfg)))
         else if t = ''mistral'' then Some (Mistral (NewMistral (pc_BaseURL cfg)))
         else None)"

fun build_adapters ::
  "(string \<Rightarrow> string) \<Rightarrow> (string \<Rightarrow> 'w \<Rightarrow> string option \<times> 'w) option \<Rightarrow> (string, ProviderConfig) gomap
   \<Rightarrow> (string, Adapter) gomap \<times> (string, KeyRing) gomap \<Rightarrow> 'w \<Rightarrow> ((string, Adapter) gomap \<times> (string, KeyRing) gomap) \<times> 'w" where
  "build_adapters env decrypt [] acc w = (acc, w)"
| "build_adapters env decrypt ((name, cfg) # ps) (adapters, keys) w =
     (let cfg = resolve_provider name cfg
      in if ValidateProvider name (pc_Type cfg) (pc_BaseURL cfg) \<noteq> None then build_adapters env decrypt ps (adapters, keys) w
         else (case NewKeyRing env decrypt cfg w of
                 (ring, w) \<Rightarrow>
                   build_adapters env decrypt ps
                     (case new_adapter name cfg of None \<Rightarrow> adapters | Some a \<Rightarrow> gm_set name a adapters, gm_set name ring keys) w))"

definition buildAdapters ::
  "(string \<Rightarrow> string) \<Rightarrow> (string \<Rightarrow> 'w \<Rightarrow> string option \<times> 'w) option \<Rightarrow> Config \<Rightarrow> 'w
   \<Rightarrow> ((string, Adapter) gomap \<times> (string, KeyRing) gomap) \<times> 'w" where
  "buildAdapters env decrypt cfg w = build_adapters env decrypt (cfg_Providers cfg) ([], []) w"

section \<open>The contract of an adapter\<close>

definition bad_status :: "http_answer \<Rightarrow> bool" where
  "bad_status a \<longleftrightarrow> an_Status a < 200 \<or> 300 \<le> an_Status a"

fun plain_error :: "provider_error + 'a \<Rightarrow> bool" where
  "plain_error (Inl (OtherError s)) = True"
| "plain_error (Inl e) = False"
| "plain_error (Inr x) = True"

locale chat_adapter =
  fixes complete :: "'w adapter" and stream :: "'w stream_adapter" and network :: "'w http_env"
    and outgoing :: "bool \<Rightarrow> ChatCompletionRequest \<Rightarrow> Target \<Rightarrow> ProviderKey \<Rightarrow> out_request"
  assumes complete_failed: "post network (outgoing False req tg key) w = (Inl e, w') \<Longrightarrow> complete req tg key w = (Inl e, w')"
    and complete_read: "post network (outgoing False req tg key) w = (Inr a, w') \<Longrightarrow> snd (read_limited a) \<noteq> None \<Longrightarrow>
      \<exists>s. fst (complete req tg key w) = Inl (OtherError s)"
    and complete_status: "post network (outgoing False req tg key) w = (Inr a, w') \<Longrightarrow> snd (read_limited a) = None \<Longrightarrow> bad_status a \<Longrightarrow>
      complete req tg key w = (Inl (HTTPError (an_Status a) (fst (read_limited a))), w')"
    and complete_good: "post network (outgoing False req tg key) w = (Inr a, w') \<Longrightarrow> \<not> bad_status a \<Longrightarrow> plain_error (fst (complete req tg key w))"
    and complete_not_nil: "fst (complete req tg key w) \<noteq> Inr None"
    and stream_failed: "post network (outgoing True req tg key) w = (Inl e, w') \<Longrightarrow> stream req tg key w = (Inl e, w')"
    and stream_status: "post network (outgoing True req tg key) w = (Inr a, w') \<Longrightarrow> bad_status a \<Longrightarrow>
      stream req tg key w = (Inl (HTTPError (an_Status a) (fst (read_limited a))), w')"
    and stream_good: "post network (outgoing True req tg key) w = (Inr a, w') \<Longrightarrow> \<not> bad_status a \<Longrightarrow> \<exists>es w2. stream req tg key w = (Inr es, w2)"
    and key_in_headers: "or_URL (outgoing b req tg key) = or_URL (outgoing b req tg key') \<and> or_Body (outgoing b req tg key) = or_Body (outgoing b req tg key')"
begin

lemma complete_errors:
  assumes "fst (complete req tg key w) = Inl e"
  shows "IsRetryable e \<longleftrightarrow> he_badURL network (or_URL (outgoing False req tg key)) = None
    \<and> (case fst (he_do network (outgoing False req tg key) w) of
         NoAnswer ctx s \<Rightarrow> ctx = None
       | GotAnswer a \<Rightarrow> snd (read_limited a) = None \<and> (an_Status a = 429 \<or> 500 \<le> an_Status a))"
proof (cases "post network (outgoing False req tg key) w")
  case (Pair r w')
  show ?thesis
  proof (cases r)
    case (Inl e')
    with Pair have "complete req tg key w = (Inl e', w')" by (simp add: complete_failed)
    with assms Pair Inl show ?thesis by (auto simp: post_def split: option.splits prod.splits exchange.splits)
  next
    case (Inr a)
    then have url: "he_badURL network (or_URL (outgoing False req tg key)) = None" and ex: "fst (he_do network (outgoing False req tg key) w) = GotAnswer a"
      using Pair by (auto simp: post_def split: option.splits prod.splits exchange.splits)
    consider "snd (read_limited a) \<noteq> None" | "snd (read_limited a) = None" "bad_status a" | "snd (read_limited a) = None" "\<not> bad_status a" by blast
    then show ?thesis
    proof cases
      case 1
      with complete_read [of req tg key w a w'] Pair Inr obtain s where "fst (complete req tg key w) = Inl (OtherError s)" by auto
      with assms 1 show ?thesis by (auto simp: ex)
    next
      case 2
      with complete_status [of req tg key w a w'] Pair Inr assms have "e = HTTPError (an_Status a) (fst (read_limited a))" by simp
      then show ?thesis using url ex 2 by simp
    next
      case 3
      with complete_good Pair Inr assms have "plain_error (Inl e :: provider_error + ChatCompletionResponse option)" by metis
      then have "\<not> IsRetryable e" by (cases e) auto
      then show ?thesis using url ex 3 by (auto simp: bad_status_def)
    qed
  qed
qed

end

text \<open>What each adapter sends.\<close>

fun adapter_request :: "'w http_env \<Rightarrow> Adapter \<Rightarrow> bool \<Rightarrow> ChatCompletionRequest \<Rightarrow> Target \<Rightarrow> ProviderKey \<Rightarrow> out_request" where
  "adapter_request H (OpenAI a) s req tg key =
     \<lparr>or_URL = base_url (oa_baseURL a) tg @ ''/chat/completions'', or_Headers = json_header # (if s then [accept_sse] else []) @ bearer_header key,
      or_Body = marshal_Request (provider_request s req tg)\<rparr>"
| "adapter_request H (Azure a) s req tg key =
     \<lparr>or_URL = buildURL a (tg_Model tg), or_Headers = json_header # (if s then [accept_sse] else []) @ key_header ''api-key'' '''' key,
      or_Body = marshal_Request (provider_request s req tg)\<rparr>"
| "adapter_request H (Groq a) s req tg key =
     \<lparr>or_URL = base_url (gq_baseURL a) tg @ ''/chat/completions'', or_Headers = json_header # (if s then [accept_sse] else []) @ bearer_header key,
      or_Body = marshal_Request (provider_request s req tg)\<rparr>"
| "adapter_request H (Mistral a) s req tg key =
     \<lparr>or_URL = base_url (mi_baseURL a) tg @ ''/chat/completions'', or_Headers = json_header # (if s then [accept_sse] else []) @ bearer_header key,
      or_Body = marshal_Request (provider_request s req tg)\<rparr>"
| "adapter_request H (Anthropic a) s req tg key =
     \<lparr>or_URL = base_url (na_baseURL a) tg @ ''/messages'', or_Headers = anthropic_headers key @ (if s then [accept_sse] else []),
      or_Body = marshal_messageRequest (toAnthropicRequest H req tg s)\<rparr>"
| "adapter_request H (Bedrock a) s req tg key =
     \<lparr>or_URL = base_url (ba_baseURL a) tg @ ''/model/'' @ tg_Model tg @ (if s then ''/converse-stream'' else ''/converse''),
      or_Headers = bedrock_headers key @ (if s then [accept_sse] else []), or_Body = marshal_converseRequest (toBedrockRequest H req)\<rparr>"
| "adapter_request H (Cohere a) s req tg key =
     \<lparr>or_URL = base_url (co_baseURL a) tg @ ''/chat'', or_Headers = cohere_headers key @ (if s then [accept_sse] else []),
      or_Body = marshal_cohereRequest (toCohereRequest H req tg s)\<rparr>"
| "adapter_request H (Gemini a) s req tg key =
     \<lparr>or_URL = base_url (gm_baseURL a) tg @ ''/v1beta/models/'' @ gemini_resolveModel a (tg_Model tg)
        @ (if s then '':streamGenerateContent?alt=sse'' else '':generateContent''),
      or_Headers = gemini_headers key @ (if s then [accept_sse] else []), or_Body = marshal_geminiRequest (toGeminiRequest H req)\<rparr>"
| "adapter_request H (Vertex a) s req tg key =
     \<lparr>or_URL = buildEndpoint a (vertex_resolveModel (tg_Model tg)) (if s then ''streamGenerateContent'' else ''generateContent'') @ (if s then ''?alt=sse'' else ''''),
      or_Headers = vertex_headers key @ (if s then [accept_sse] else []), or_Body = marshal_geminiRequest (toGeminiRequest H req)\<rparr>"

text \<open>Every completion is one exchange whose answer is read, and then a function that gives a response or an ordinary error; every stream is an event stream.\<close>

definition completes :: "'w http_env \<Rightarrow> out_request \<Rightarrow> ((provider_error + ChatCompletionResponse option) \<times> 'w) \<Rightarrow> 'w \<Rightarrow> bool" where
  "completes H r result w \<longleftrightarrow>
     (case post H r w of
        (Inl e, w') \<Rightarrow> result = (Inl e, w')
      | (Inr a, w') \<Rightarrow>
          if snd (read_limited a) \<noteq> None then (\<exists>s. fst result = Inl (OtherError s))
          else if bad_status a then result = (Inl (HTTPError (an_Status a) (fst (read_limited a))), w')
          else plain_error (fst result) \<and> fst result \<noteq> Inr None)"

definition streams :: "'w http_env \<Rightarrow> out_request \<Rightarrow> ((provider_error + stream_event list) \<times> 'w) \<Rightarrow> 'w \<Rightarrow> bool" where
  "streams H r result w \<longleftrightarrow>
     (case post H r w of
        (Inl e, w') \<Rightarrow> result = (Inl e, w')
      | (Inr a, w') \<Rightarrow>
          if bad_status a then result = (Inl (HTTPError (an_Status a) (fst (read_limited a))), w') else (\<exists>es. fst result = Inr es))"

lemma completes_call:
  assumes "\<And>v w. plain_error (fst (f v w)) \<and> fst (f v w) \<noteq> Inr None"
  shows "completes H r (case call_json H name decode zero r w of (Inl e, w) \<Rightarrow> (Inl e, w) | (Inr v, w) \<Rightarrow> f v w) w"
proof (cases "post H r w")
  case (Pair x w')
  then show ?thesis
  proof (cases x)
    case (Inr a)
    obtain data err where d: "read_limited a = (data, err)" by force
    with Pair Inr assms show ?thesis
      by (auto simp: completes_def call_json_def read_answer_def bad_status_def split: option.splits)
  qed (simp add: completes_def call_json_def)
qed

lemma streams_open: "streams H r (open_sse H what step fin start r w) w"
  by (auto simp: streams_def open_sse_def bad_status_def split: prod.splits sum.splits)

lemma openai_completes:
  "completes H \<lparr>or_URL = url, or_Headers = json_header # headers, or_Body = marshal_Request (provider_request False req tg)\<rparr>
     (openai_complete H url headers req tg w) w"
  unfolding openai_complete_def by (rule completes_call) simp

lemma google_completes: "completes H r (google_complete H name from_response r w) w"
  unfolding google_complete_def by (rule completes_call) (auto split: option.split prod.split)

lemma adapter_completes: "completes H (adapter_request H a False req tg key) (CompleteChat H a req tg key w) w"
proof (cases a)
  case (Anthropic x)
  show ?thesis unfolding Anthropic CompleteChat.simps adapter_request.simps Anthropic_CompleteChat_def if_False append_Nil2
    by (rule completes_call) (simp split: prod.split)
next
  case (Bedrock x)
  show ?thesis unfolding Bedrock CompleteChat.simps adapter_request.simps Bedrock_CompleteChat_def if_False append_Nil2
    by (rule completes_call) (simp split: prod.split)
next
  case (Cohere x)
  show ?thesis unfolding Cohere CompleteChat.simps adapter_request.simps Cohere_CompleteChat_def if_False append_Nil2
    by (rule completes_call) (simp split: prod.split)
next
  case (Gemini x)
  show ?thesis unfolding Gemini CompleteChat.simps adapter_request.simps Gemini_CompleteChat_def if_False append_Nil2 Let_def
    by (rule google_completes)
next
  case (Vertex x)
  show ?thesis unfolding Vertex CompleteChat.simps adapter_request.simps Vertex_CompleteChat_def if_False append_Nil2 Let_def toVertexRequest_def
    by (rule google_completes)
qed (simp_all add: OpenAI_CompleteChat_def Azure_CompleteChat_def Groq_CompleteChat_def Mistral_CompleteChat_def openai_completes)

lemma adapter_streams: "streams H (adapter_request H a True req tg key) (StreamChat H a req tg key w) w"
  by (cases a) (simp_all add: OpenAI_StreamChat_def Azure_StreamChat_def Groq_StreamChat_def Mistral_StreamChat_def openai_stream_def
      Anthropic_StreamChat_def Bedrock_StreamChat_def Cohere_StreamChat_def Gemini_StreamChat_def Vertex_StreamChat_def toVertexRequest_def Let_def
      streams_open)

lemma adapter_request_key:
  "or_URL (adapter_request H a b req tg key) = or_URL (adapter_request H a b req tg key')
   \<and> or_Body (adapter_request H a b req tg key) = or_Body (adapter_request H a b req tg key')"
  by (cases a) simp_all

interpretation gateway_adapter: chat_adapter "CompleteChat H a" "StreamChat H a" H "adapter_request H a" for H a
proof
  fix req tg key w e w' an and key' :: ProviderKey and b
  note c = adapter_completes [of H a req tg key w] and s = adapter_streams [of H a req tg key w]
  show "fst (CompleteChat H a req tg key w) \<noteq> Inr None"
    using c by (auto simp: completes_def split: prod.splits sum.splits if_splits)
  show "or_URL (adapter_request H a b req tg key) = or_URL (adapter_request H a b req tg key')
      \<and> or_Body (adapter_request H a b req tg key) = or_Body (adapter_request H a b req tg key')"
    by (rule adapter_request_key)
  {
    assume "post H (adapter_request H a False req tg key) w = (Inl e, w')"
    then show "CompleteChat H a req tg key w = (Inl e, w')" using c by (simp add: completes_def)
  }
  {
    assume "post H (adapter_request H a True req tg key) w = (Inl e, w')"
    then show "StreamChat H a req tg key w = (Inl e, w')" using s by (simp add: streams_def)
  }
  {
    assume "post H (adapter_request H a False req tg key) w = (Inr an, w')" "snd (read_limited an) \<noteq> None"
    then show "\<exists>s. fst (CompleteChat H a req tg key w) = Inl (OtherError s)" using c by (simp add: completes_def)
  }
  {
    assume "post H (adapter_request H a False req tg key) w = (Inr an, w')" "snd (read_limited an) = None" "bad_status an"
    then show "CompleteChat H a req tg key w = (Inl (HTTPError (an_Status an) (fst (read_limited an))), w')" using c by (simp add: completes_def)
  }
  {
    assume "post H (adapter_request H a False req tg key) w = (Inr an, w')" "\<not> bad_status an"
    then show "plain_error (fst (CompleteChat H a req tg key w))" using c by (auto simp: completes_def split: if_splits)
  }
  {
    assume "post H (adapter_request H a True req tg key) w = (Inr an, w')" "bad_status an"
    then show "StreamChat H a req tg key w = (Inl (HTTPError (an_Status an) (fst (read_limited an))), w')" using s by (simp add: streams_def)
  }
  {
    assume "post H (adapter_request H a True req tg key) w = (Inr an, w')" "\<not> bad_status an"
    then show "\<exists>es w2. StreamChat H a req tg key w = (Inr es, w2)" using s by (simp add: streams_def) (metis prod.collapse)
  }
qed

section \<open>Errors and retries\<close>

text \<open>C4. Whichever adapter is called, its error is retried exactly when the exchange had no answer while the caller still waits, or an answer with a status that asks for a retry. The
  key of the provider is in no address and in no body.\<close>

theorem provider_errors_classified:
  assumes "fst (CompleteChat H a req tg key w) = Inl e"
  shows "(IsRetryable e \<longleftrightarrow> he_badURL H (or_URL (adapter_request H a False req tg key)) = None
    \<and> (case fst (he_do H (adapter_request H a False req tg key) w) of
         NoAnswer ctx s \<Rightarrow> ctx = None
       | GotAnswer an \<Rightarrow> snd (read_limited an) = None \<and> (an_Status an = 429 \<or> 500 \<le> an_Status an)))
    \<and> or_URL (adapter_request H a False req tg key) = or_URL (adapter_request H a False req tg key')
    \<and> or_Body (adapter_request H a False req tg key) = or_Body (adapter_request H a False req tg key')"
  using gateway_adapter.complete_errors [OF assms] gateway_adapter.key_in_headers by blast


section \<open>What a stream carries\<close>

text \<open>The events of a stream up to its end or its first faulty event.\<close>

fun sse_events :: "(string \<Rightarrow> provider_error + 'e) \<Rightarrow> string list \<Rightarrow> 'e list" where
  "sse_events decode [] = []"
| "sse_events decode (l # ls) =
     (case sse_payload l of
        None \<Rightarrow> sse_events decode ls
      | Some p \<Rightarrow> if p = ''[DONE]'' then [] else (case decode p of Inl e \<Rightarrow> [] | Inr ev \<Rightarrow> ev # sse_events decode ls))"

definition chunk_texts :: "ChatCompletionStreamChunk list \<Rightarrow> string" where
  "chunk_texts cs = concat (map chunk_content cs)"

lemma chunk_texts_simps [simp]: "chunk_texts [] = ''''" "chunk_texts (c # cs) = chunk_content c @ chunk_texts cs"
  by (simp_all add: chunk_texts_def)

lemma stream_chunks_append: "stream_chunks (map Chunk cs @ es) = cs @ stream_chunks es"
  by (induction cs) simp_all

lemma view_chunks: "stream_chunks (view_stream b r) = sr_Chunks r"
  by (auto simp: view_stream_def stream_chunks_append split: option.split)

lemma forward_view: "snd (forward_stream (view_stream b r) s) = fold take_chunk (sr_Chunks r) s"
  using forward_stream_sent [of "view_stream b r" s "fst (forward_stream (view_stream b r) s)"] by (simp add: view_chunks)

lemma fold_take_chunk_text: "ss_content (fold take_chunk cs s) = ss_content s @ chunk_texts cs"
  by (induction cs arbitrary: s) (auto simp: take_chunk_def Let_def split: option.split)

lemma read_chunks: "sr_Chunks (read_stream what step fin s a) = fst (sse_loop step fin (scan_lines a) s)"
  by (simp add: read_stream_def split_beta)

locale event_translator =
  fixes step :: "'s \<Rightarrow> string \<Rightarrow> provider_error + ChatCompletionStreamChunk option \<times> 's" and fin :: "'s \<Rightarrow> ChatCompletionStreamChunk list"
    and decode :: "string \<Rightarrow> provider_error + 'e" and event_text :: "'e \<Rightarrow> string"
  assumes step_error: "decode p = Inl e \<Longrightarrow> step s p = Inl e"
    and step_text: "decode p = Inr ev \<Longrightarrow> \<exists>c s'. step s p = Inr (c, s') \<and> (case c of None \<Rightarrow> '''' | Some c \<Rightarrow> chunk_content c) = event_text ev"
    and fin_text: "chunk_texts (fin s) = ''''"
begin

lemma loop_text: "chunk_texts (fst (sse_loop step fin ls s)) = concat (map event_text (sse_events decode ls))"
proof (induction ls arbitrary: s)
  case (Cons l ls)
  show ?case
  proof (cases "sse_payload l")
    case (Some p)
    show ?thesis
    proof (cases "decode p")
      case (Inr ev)
      from step_text [OF this, of s] obtain c s' where "step s p = Inr (c, s')" "(case c of None \<Rightarrow> '''' | Some c \<Rightarrow> chunk_content c) = event_text ev" by blast
      with Some Inr Cons.IH [of s'] show ?thesis by (cases c) (auto simp: fin_text split: prod.split)
    qed (use Some step_error fin_text in \<open>simp\<close>)
  qed (simp add: Cons.IH)
qed simp

lemma forwarded_text:
  "ss_content (snd (forward_stream (view_stream b (read_stream what step fin s a)) empty_stream)) = concat (map event_text (sse_events decode (scan_lines a)))"
  using loop_text [of "scan_lines a" s]
  by (simp add: forward_view fold_take_chunk_text empty_stream_def read_chunks)

end

lemma chunk_content_stream_chunk: "chunk_content (stream_chunk i created model index delta finish usage) =
    (case sd_Content delta of None \<Rightarrow> '''' | Some j \<Rightarrow> (case decode_string j '''' of None \<Rightarrow> '''' | Some s \<Rightarrow> s))"
  by (simp add: chunk_content_def stream_chunk_def)

lemmas chunk_text_simps = chunk_content_stream_chunk zero_StreamDelta_def

definition anthropic_text :: "anthropicEvent \<Rightarrow> string" where
  "anthropic_text ev = (if ae_Type ev = ''content_block_delta'' then ad_Text (ae_Delta ev) else '''')"

definition anthropic_decode :: "'w http_env \<Rightarrow> string \<Rightarrow> provider_error + anthropicEvent" where
  "anthropic_decode H = decode_event H ''anthropic stream event'' unmarshal_anthropicEvent zero_anthropicEvent"

interpretation anthropic_stream: event_translator "anthropic_event H" "\<lambda>s. []" "anthropic_decode H" anthropic_text for H
  by standard (auto simp: anthropic_event_def anthropic_decode_def anthropicEventToOpenAIChunk_def anthropic_text_def chunk_text_simps Let_def split: option.split)

definition bedrock_text :: "bedrockEvent \<Rightarrow> string" where
  "bedrock_text ev = (if be_Type ev = ''contentBlockDelta'' then (case be_Delta ev of None \<Rightarrow> '''' | Some t \<Rightarrow> t) else '''')"

definition bedrock_decode :: "'w http_env \<Rightarrow> string \<Rightarrow> provider_error + bedrockEvent" where
  "bedrock_decode H = decode_event H ''bedrock stream event'' unmarshal_bedrockEvent zero_bedrockEvent"

interpretation bedrock_stream: event_translator "bedrock_event H model" "\<lambda>s. []" "bedrock_decode H" bedrock_text for H model
  by standard (auto simp: bedrock_event_def bedrock_decode_def bedrockEventToOpenAIChunk_def bedrock_text_def chunk_text_simps split: option.split)

definition cohere_text :: "cohereStreamEvent \<Rightarrow> string" where
  "cohere_text ev = (if he_Type ev = ''content-delta'' then (case he_Delta ev of Some (Some t) \<Rightarrow> t | _ \<Rightarrow> '''') else '''')"

definition cohere_decode :: "'w http_env \<Rightarrow> string \<Rightarrow> provider_error + cohereStreamEvent" where
  "cohere_decode H = decode_event H ''cohere stream event'' unmarshal_cohereEvent zero_cohereEvent"

interpretation cohere_stream: event_translator "cohere_event H model" "cohere_end model" "cohere_decode H" cohere_text for H model
  by standard (auto simp: cohere_event_def cohere_decode_def cohereEventToOpenAIChunk_def cohere_text_def cohere_end_def chunk_text_simps split: option.split)

definition google_text :: "geminiResponse \<Rightarrow> string" where
  "google_text ev = (case gr_Candidates ev of [] \<Rightarrow> '''' | c # cs \<Rightarrow> concat (gc_Parts (gd_Content c)))"

definition google_decode :: "'w http_env \<Rightarrow> string \<Rightarrow> string \<Rightarrow> provider_error + geminiResponse" where
  "google_decode H name p =
     (case decode_event H (name @ '' stream event'') unmarshal_geminiResponse zero_geminiResponse p of
        Inl e \<Rightarrow> Inl e
      | Inr ev \<Rightarrow> (case gr_Error ev of
                     Some e \<Rightarrow> Inl (OtherError (name @ '' stream error '' @ itoa (ge_Code e) @ '': '' @ ge_Message e))
                   | None \<Rightarrow> Inr ev))"

interpretation google_stream: event_translator "google_event H name geminiEventToOpenAIChunk model" "\<lambda>s. []" "google_decode H name" google_text for H name model
  by standard (auto simp: google_event_def google_decode_def geminiEventToOpenAIChunk_def google_text_def chunk_text_simps Let_def
      split: option.splits sum.splits list.splits)

text \<open>C5. For each of the protocols that are translated, the text that the handler gathers from a stream, sends to the client and checks is the text of the provider's events, in their
  order and up to the end of the stream or its first faulty event.\<close>

theorem streams_carry_text:
  "ss_content (snd (forward_stream (view_stream b (read_stream what (anthropic_event H) (\<lambda>s. []) ids a)) empty_stream))
     = concat (map anthropic_text (sse_events (anthropic_decode H) (scan_lines a)))
   \<and> ss_content (snd (forward_stream (view_stream b (read_stream what (bedrock_event H model) (\<lambda>s. []) s a)) empty_stream))
     = concat (map bedrock_text (sse_events (bedrock_decode H) (scan_lines a)))
   \<and> ss_content (snd (forward_stream (view_stream b (read_stream what (cohere_event H model) (cohere_end model) created a)) empty_stream))
     = concat (map cohere_text (sse_events (cohere_decode H) (scan_lines a)))
   \<and> ss_content (snd (forward_stream (view_stream b (read_stream what (google_event H name geminiEventToOpenAIChunk model) (\<lambda>s. []) s a)) empty_stream))
     = concat (map google_text (sse_events (google_decode H name) (scan_lines a)))"
  by (intro conjI anthropic_stream.forwarded_text bedrock_stream.forwarded_text cohere_stream.forwarded_text google_stream.forwarded_text)

section \<open>Speaking the protocol of the caller\<close>

text \<open>A provider of the OpenAI protocol gets the request of the caller with the model of the target in it, and its answer is handed on as it is: both survive the encoding.\<close>

theorem openai_passes_through:
  assumes "Request_ok req" and "Response_ok resp" and "resp_Model resp \<noteq> ''''" and "he_badURL H url = None"
    and "he_do H \<lparr>or_URL = url, or_Headers = json_header # headers, or_Body = marshal_Request (provider_request False req tg)\<rparr> w
           = (GotAnswer \<lparr>an_Status = 200, an_Body = body, an_ReadError = None\<rparr>, w')"
    and "he_parse H body = Some (marshal_Response resp)" and "int (length body) < MaxProviderResponseSize"
  shows "unmarshal_Request (marshal_Request (provider_request False req tg)) zero_Request = Some (req\<lparr>req_Model := tg_Model tg, req_Stream := False\<rparr>)
    \<and> openai_complete H url headers req tg w = (Inr (Some resp), w')"
proof -
  have "Request_ok (provider_request False req tg)" using assms(1) by (simp add: Request_ok_def provider_request_def)
  then have "unmarshal_Request (marshal_Request (provider_request False req tg)) zero_Request = Some (provider_request False req tg)" by (rule request_decodes)
  moreover have "openai_complete H url headers req tg w = (Inr (Some resp), w')"
    using assms(3-7) response_round_trip [OF assms(2)]
    by (simp add: openai_complete_def call_json_def post_def read_answer_def read_limited_def fill_model_def)
  ultimately show ?thesis by (simp add: provider_request_def)
qed

section \<open>What goes wrong\<close>

text \<open>The address of a region is not used by two of the adapters: a target that was chosen for its region is served from wherever the adapter points.\<close>

theorem region_address_ignored:
  "CompleteChat H (Azure a) req (tg\<lparr>tg_BaseURL := url\<rparr>) key w = CompleteChat H (Azure a) req tg key w
   \<and> CompleteChat H (Vertex v) req (tg\<lparr>tg_BaseURL := url\<rparr>) key w = CompleteChat H (Vertex v) req tg key w"
  by (simp add: Azure_CompleteChat_def openai_complete_def provider_request_def Vertex_CompleteChat_def Let_def)

text \<open>No chunk of a Google stream has a usage, so the handler bills such a stream for no tokens.\<close>

lemma google_loop_usage: "list_all (\<lambda>c. chunk_Usage c = None) (fst (sse_loop (google_event H name geminiEventToOpenAIChunk model) (\<lambda>s. []) ls s))"
proof (induction ls arbitrary: s)
  case (Cons l ls)
  have "chunk_Usage c = None" if "google_event H name geminiEventToOpenAIChunk model s p = Inr (Some c, s')" for p c s'
    using that by (auto simp: google_event_def geminiEventToOpenAIChunk_def stream_chunk_def Let_def split: sum.splits option.splits list.splits if_splits)
  with Cons.IH show ?case by (auto simp: split_beta split: option.split sum.split)
qed simp

theorem google_streams_unbilled:
  "(ss_prompt (snd (forward_stream (view_stream b (read_stream what (google_event H name geminiEventToOpenAIChunk model) (\<lambda>s. []) s a)) empty_stream)),
    ss_completion (snd (forward_stream (view_stream b (read_stream what (google_event H name geminiEventToOpenAIChunk model) (\<lambda>s. []) s a)) empty_stream)))
   = (0, 0)"
proof -
  have none: "List.map_filter chunk_Usage cs = []" if "list_all (\<lambda>c. chunk_Usage c = None) cs" for cs
    using that by (induction cs) (simp_all add: map_filter_simps)
  from none [OF google_loop_usage, of H name model "scan_lines a" s] show ?thesis
    by (simp add: forward_view fold_take_chunk_usage read_chunks) (simp add: empty_stream_def)
qed

text \<open>An error that a stream leaves behind is lost when the handler sees the closing of the channel of chunks first: it then ends the stream as complete.\<close>

theorem stream_error_lost: "fst (forward_stream (view_stream False \<lparr>sr_Chunks = cs, sr_Error = Some e\<rparr>) s) = None"
proof -
  have "fst (forward_stream (map Chunk cs) s) = None" by (induction cs arbitrary: s) simp_all
  then show ?thesis by (simp add: view_stream_def)
qed

text \<open>A Google event with the last piece of text and the reason for the end becomes a chunk without the reason.\<close>

theorem google_finish_lost:
  "map_option (\<lambda>c. map sc_FinishReason (chunk_Choices c))
     (geminiEventToOpenAIChunk (zero_geminiResponse\<lparr>gr_Candidates := [zero_geminiCandidate\<lparr>gd_Content := \<lparr>gc_Role = ''model'', gc_Parts = [''bye'']\<rparr>,
        gd_FinishReason := ''STOP''\<rparr>]\<rparr>) i model created) = Some [None]"
  by (simp add: geminiEventToOpenAIChunk_def zero_geminiResponse_def zero_geminiCandidate_def stream_chunk_def)

text \<open>The input tokens that Anthropic reports at the start of a stream are not passed on, so that a stream is billed for what its last event says alone.\<close>

theorem anthropic_input_unreported:
  "map_option chunk_Usage (fst (anthropicEventToOpenAIChunk (ev\<lparr>ae_Type := ''message_start''\<rparr>) s)) = Some None"
  by (simp add: anthropicEventToOpenAIChunk_def stream_chunk_def Let_def)

section \<open>Examples\<close>

text \<open>A network that answers every exchange with the same status and body.\<close>

definition example_net :: "int \<Rightarrow> string \<Rightarrow> json option \<Rightarrow> unit http_env" where
  "example_net status body tree =
     \<lparr>he_do = (\<lambda>r w. (GotAnswer \<lparr>an_Status = status, an_Body = body, an_ReadError = None\<rparr>, w)), he_badURL = (\<lambda>u. None), he_parse = (\<lambda>s. tree),
      he_text = (\<lambda>j. ''{}''), he_now = (\<lambda>w. (0, w)), he_canceled = (\<lambda>w. None), he_errorFirst = (\<lambda>w. True)\<rparr>"

definition example_key :: ProviderKey where
  "example_key = \<lparr>key_ID = ''k'', key_Value = ''secret''\<rparr>"

theorem provider_errors_classified_witness:
  "\<exists>e. fst (CompleteChat (example_net 503 ''busy'' None) (Anthropic (NewAnthropic ''a'' '''')) zero_Request zero_Target example_key ()) = Inl e
     \<and> IsRetryable e
     \<and> or_Body (adapter_request (example_net 503 ''busy'' None) (Anthropic (NewAnthropic ''a'' '''')) False zero_Request zero_Target example_key)
       = or_Body (adapter_request (example_net 503 ''busy'' None) (Anthropic (NewAnthropic ''a'' '''')) False zero_Request zero_Target (example_key\<lparr>key_Value := ''other''\<rparr>))"
proof -
  let ?H = "example_net 503 ''busy'' None" and ?a = "Anthropic (NewAnthropic ''a'' '''')"
  have "fst (CompleteChat ?H ?a zero_Request zero_Target example_key ()) = Inl (HTTPError 503 ''busy'')"
    by (simp add: Anthropic_CompleteChat_def call_json_def post_def read_answer_def read_limited_def example_net_def MaxProviderResponseSize_def)
  from this provider_errors_classified [OF this, of "example_key\<lparr>key_Value := ''other''\<rparr>"] show ?thesis by auto
qed

definition example_providers :: "Config \<Rightarrow> Config" where
  "example_providers cfg = cfg\<lparr>cfg_Providers := [(''a'', \<lparr>pc_Type = ''anthropic'', pc_BaseURL = ''https://x'', pc_Keys = [], pc_Regions = [], pc_GeminiModelMap = [],
     pc_AzureResource = '''', pc_AzureAPIVersion = '''', pc_Region = '''', pc_Project = '''', pc_Publisher = ''''\<rparr>)]\<rparr>"


theorem openai_passes_through_witness:
  "openai_complete (example_net 200 ''x'' (Some (marshal_Response (zero_Response\<lparr>resp_Model := ''m''\<rparr>)))) ''u'' [] (zero_Request\<lparr>req_Model := ''alias''\<rparr>)
     (zero_Target\<lparr>tg_Model := ''m''\<rparr>) () = (Inr (Some (zero_Response\<lparr>resp_Model := ''m''\<rparr>)), ())"
proof -
  have "Request_ok (zero_Request\<lparr>req_Model := ''alias''\<rparr>)" by (simp add: Request_ok_def zero_Request_def is_f64_def is_int_def)
  moreover have "Response_ok (zero_Response\<lparr>resp_Model := ''m''\<rparr>)"
    by (simp add: Response_ok_def zero_Response_def in_int64_def min_int64_def max_int64_def)
  ultimately show ?thesis
    using openai_passes_through [of "zero_Request\<lparr>req_Model := ''alias''\<rparr>" "zero_Response\<lparr>resp_Model := ''m''\<rparr>"
        "example_net 200 ''x'' (Some (marshal_Response (zero_Response\<lparr>resp_Model := ''m''\<rparr>)))" "''u''" "[]" "zero_Target\<lparr>tg_Model := ''m''\<rparr>" "()" "''x''" "()"]
    by (simp add: example_net_def MaxProviderResponseSize_def)
qed



end
