(* ===== verification/Admin_Store.thy ===== *)
theory Admin_Store
  imports Auth
begin

text \<open>
  The tables the admin API works on besides the virtual keys: roles and admin users (\<^verbatim>\<open>internal/store/rbac.go\<close>), projects
  (\<^verbatim>\<open>internal/store/projects.go\<close>), prompt templates (\<^verbatim>\<open>internal/store/prompts.go\<close>), and the resolution of a login to a
  role (\<^verbatim>\<open>internal/oidc/oidc.go\<close>). A table is a list of rows and a statement does what its SQL text and the constraints
  of the migrations under \<^verbatim>\<open>internal/migrate/sql\<close> say; a statement that fails changes nothing. The identifier and the time
  the database fills in are arguments, and so are the collation of \<^verbatim>\<open>ORDER BY name\<close> and the verification of a token by the
  OpenID library. Times in answers stay times: their text form is not modelled.
\<close>

section \<open>Roles\<close>

definition RoleAdmin :: string where "RoleAdmin = ''admin''"
definition RoleEditor :: string where "RoleEditor = ''editor''"
definition RoleViewer :: string where "RoleViewer = ''viewer''"

definition validRoles :: "string list" where
  "validRoles = [RoleAdmin, RoleEditor, RoleViewer]"

definition rolePermissions :: "(string, string list) gomap" where
  "rolePermissions =
     [(RoleAdmin, [''project:create'', ''project:delete'', ''project:list'', ''key:create'', ''key:revoke'', ''key:list'',
                   ''usage:read'', ''audit:read'', ''user:manage'']),
      (RoleEditor, [''project:list'', ''key:create'', ''key:revoke'', ''key:list'', ''usage:read'', ''audit:read'']),
      (RoleViewer, [''project:list'', ''key:list'', ''usage:read'', ''audit:read''])]"

fun sort_strings :: "string list \<Rightarrow> string list" where
  "sort_strings [] = []"
| "sort_strings (s # ss) = map fst (insert_member (s, ()) (map (\<lambda>t. (t, ())) (sort_strings ss)))"

definition GetRolePermissions :: "(string, string list) gomap" where
  "GetRolePermissions = map (\<lambda>(role, perms). (role, sort_strings perms)) rolePermissions"

definition RoleAllowed :: "string \<Rightarrow> string \<Rightarrow> bool" where
  "RoleAllowed role action =
     (case gm_get rolePermissions role of None \<Rightarrow> False | Some perms \<Rightarrow> action \<in> set perms)"

definition ValidateRole :: "string \<Rightarrow> bool" where
  "ValidateRole role \<longleftrightarrow> role \<in> set validRoles"

lemmas role_defs = RoleAdmin_def RoleEditor_def RoleViewer_def validRoles_def rolePermissions_def

section \<open>Admin users\<close>

record AdminUser =
  au_ID :: string
  au_Subject :: string
  au_Email :: string
  au_Role :: string
  au_CreatedAt :: gotime

text \<open>A row of \<^verbatim>\<open>admin_users\<close>; the columns \<^verbatim>\<open>subject\<close> and \<^verbatim>\<open>email\<close> may be \<^verbatim>\<open>NULL\<close>.\<close>

record user_row =
  us_id :: string
  us_subject :: "string option"
  us_email :: "string option"
  us_role :: string
  us_created_at :: gotime
  us_deleted_at :: "gotime option"

definition nullIfEmpty :: "string \<Rightarrow> string option" where
  "nullIfEmpty s = (if s = '''' then None else Some s)"

definition scan_user :: "user_row \<Rightarrow> AdminUser" where
  "scan_user r =
     (let text_of = (\<lambda>c. case c of None \<Rightarrow> '''' | Some s \<Rightarrow> s)
      in \<lparr>au_ID = us_id r, au_Subject = text_of (us_subject r), au_Email = text_of (us_email r), au_Role = us_role r,
          au_CreatedAt = us_created_at r\<rparr>)"

definition live_user :: "user_row \<Rightarrow> bool" where
  "live_user r \<longleftrightarrow> us_deleted_at r = None"

text \<open>The column \<^verbatim>\<open>subject\<close> is \<^verbatim>\<open>UNIQUE\<close>, over deleted rows too, and \<^verbatim>\<open>id\<close> is the primary key.\<close>

definition CreateUser ::
  "string \<Rightarrow> gotime \<Rightarrow> string \<Rightarrow> string \<Rightarrow> string \<Rightarrow> user_row list \<Rightarrow> (store_error + AdminUser) \<times> user_row list" where
  "CreateUser newID now subject email role table =
     (if list_ex (\<lambda>r. us_id r = newID \<or> subject \<noteq> '''' \<and> us_subject r = Some subject) table
      then (Inl (DBError ''duplicate key''), table)
      else (Inr \<lparr>au_ID = newID, au_Subject = subject, au_Email = email, au_Role = role, au_CreatedAt = now\<rparr>,
            table @ [\<lparr>us_id = newID, us_subject = nullIfEmpty subject, us_email = nullIfEmpty email, us_role = role,
                      us_created_at = now, us_deleted_at = None\<rparr>]))"

definition one_user :: "user_row option \<Rightarrow> store_error + AdminUser" where
  "one_user row = (case row of None \<Rightarrow> Inl (DBError ''no rows'') | Some r \<Rightarrow> Inr (scan_user r))"

definition LookupUserBySubject :: "user_row list \<Rightarrow> string \<Rightarrow> store_error + AdminUser" where
  "LookupUserBySubject table subject = one_user (find (\<lambda>r. us_subject r = Some subject \<and> live_user r) table)"

text \<open>Several users may have one email; the row that was inserted first is the one the query returns here.\<close>

definition LookupUserByEmail :: "user_row list \<Rightarrow> string \<Rightarrow> store_error + AdminUser" where
  "LookupUserByEmail table email = one_user (find (\<lambda>r. us_email r = Some email \<and> live_user r) table)"

definition LookupUserByID :: "user_row list \<Rightarrow> string \<Rightarrow> store_error + AdminUser" where
  "LookupUserByID table i = one_user (find (\<lambda>r. us_id r = i \<and> live_user r) table)"

fun insert_oldest :: "user_row \<Rightarrow> user_row list \<Rightarrow> user_row list" where
  "insert_oldest r [] = [r]"
| "insert_oldest r (q # qs) = (if us_created_at r < us_created_at q then r # q # qs else q # insert_oldest r qs)"

definition ListUsers :: "user_row list \<Rightarrow> AdminUser list" where
  "ListUsers table = map scan_user (fold insert_oldest (filter live_user table) [])"

definition UpdateUserRole :: "string \<Rightarrow> string \<Rightarrow> user_row list \<Rightarrow> (store_error + unit) \<times> user_row list" where
  "UpdateUserRole i role table =
     (let hit = (\<lambda>r. us_id r = i \<and> live_user r)
      in (if list_ex hit table then Inr () else Inl ErrNotFound,
          map (\<lambda>r. if hit r then r\<lparr>us_role := role\<rparr> else r) table))"

definition SoftDeleteUser :: "gotime \<Rightarrow> string \<Rightarrow> user_row list \<Rightarrow> (store_error + unit) \<times> user_row list" where
  "SoftDeleteUser now i table =
     (let hit = (\<lambda>r. us_id r = i \<and> live_user r)
      in (if list_ex hit table then Inr () else Inl ErrNotFound,
          map (\<lambda>r. if hit r then r\<lparr>us_deleted_at := Some now\<rparr> else r) table))"

section \<open>Projects\<close>

record Project =
  pj_ID :: string
  pj_Name :: string
  pj_CreatedAt :: gotime

definition CreateProject ::
  "string \<Rightarrow> gotime \<Rightarrow> string \<Rightarrow> Project list \<Rightarrow> (store_error + Project) \<times> Project list" where
  "CreateProject newID now name table =
     (if list_ex (\<lambda>p. pj_ID p = newID \<or> pj_Name p = name) table then (Inl (DBError ''duplicate key''), table)
      else let p = \<lparr>pj_ID = newID, pj_Name = name, pj_CreatedAt = now\<rparr> in (Inr p, table @ [p]))"

fun insert_by_name :: "(string \<Rightarrow> string \<Rightarrow> bool) \<Rightarrow> ('a \<Rightarrow> string) \<Rightarrow> 'a \<Rightarrow> 'a list \<Rightarrow> 'a list" where
  "insert_by_name le name p [] = [p]"
| "insert_by_name le name p (q # qs) = (if le (name p) (name q) then p # q # qs else q # insert_by_name le name p qs)"

definition ListProjects :: "(string \<Rightarrow> string \<Rightarrow> bool) \<Rightarrow> Project list \<Rightarrow> Project list" where
  "ListProjects le table = fold (insert_by_name le pj_Name) table []"

text \<open>The keys of a deleted project go with it: \<^verbatim>\<open>ON DELETE CASCADE\<close>.\<close>

definition DeleteProject :: "string \<Rightarrow> Project list \<times> VirtualKey list \<Rightarrow> bool \<times> Project list \<times> VirtualKey list" where
  "DeleteProject i = (\<lambda>(projects, keys).
     (list_ex (\<lambda>p. pj_ID p = i) projects, filter (\<lambda>p. pj_ID p \<noteq> i) projects,
      if list_ex (\<lambda>p. pj_ID p = i) projects then filter (\<lambda>k. vk_ProjectID k \<noteq> i) keys else keys))"

definition GetProject :: "Project list \<Rightarrow> string \<Rightarrow> Project option" where
  "GetProject table i = find (\<lambda>p. pj_ID p = i) table"

definition GetProjectByName :: "Project list \<Rightarrow> string \<Rightarrow> Project option" where
  "GetProjectByName table name = find (\<lambda>p. pj_Name p = name) table"

section \<open>Prompt templates\<close>

record PromptTemplate =
  pt_ID :: string
  pt_Name :: string
  pt_Content :: string
  pt_Description :: string
  pt_CreatedAt :: gotime
  pt_UpdatedAt :: gotime

text \<open>Both keys of \<^verbatim>\<open>prompt_templates\<close>, \<^verbatim>\<open>id\<close> and \<^verbatim>\<open>name\<close>, are unique; \<open>freshID\<close> is the result of \<^verbatim>\<open>generateID\<close>.\<close>

definition CreatePromptTemplate ::
  "string \<Rightarrow> gotime \<Rightarrow> PromptTemplate \<Rightarrow> PromptTemplate list \<Rightarrow> (store_error + PromptTemplate) \<times> PromptTemplate list" where
  "CreatePromptTemplate freshID now pt table =
     (let pt = pt\<lparr>pt_ID := (if pt_ID pt = '''' then freshID else pt_ID pt), pt_CreatedAt := now, pt_UpdatedAt := now\<rparr>
      in if list_ex (\<lambda>q. pt_ID q = pt_ID pt \<or> pt_Name q = pt_Name pt) table then (Inl (DBError ''duplicate key''), table)
         else (Inr pt, table @ [pt]))"

definition ListPromptTemplates :: "(string \<Rightarrow> string \<Rightarrow> bool) \<Rightarrow> PromptTemplate list \<Rightarrow> PromptTemplate list" where
  "ListPromptTemplates le table = fold (insert_by_name le pt_Name) table []"

definition GetPromptTemplate :: "PromptTemplate list \<Rightarrow> string \<Rightarrow> PromptTemplate option" where
  "GetPromptTemplate table i = find (\<lambda>q. pt_ID q = i) table"

definition UpdatePromptTemplate ::
  "gotime \<Rightarrow> PromptTemplate \<Rightarrow> PromptTemplate list \<Rightarrow> (store_error + PromptTemplate) \<times> PromptTemplate list" where
  "UpdatePromptTemplate now pt table =
     (let hit = (\<lambda>q. pt_ID q = pt_ID pt)
      in if \<not> list_ex hit table then (Inl (DBError ''no rows''), table)
         else if list_ex (\<lambda>q. \<not> hit q \<and> pt_Name q = pt_Name pt) table then (Inl (DBError ''duplicate key''), table)
         else (Inr (pt\<lparr>pt_UpdatedAt := now\<rparr>),
               map (\<lambda>q. if hit q then q\<lparr>pt_Name := pt_Name pt, pt_Content := pt_Content pt,
                                        pt_Description := pt_Description pt, pt_UpdatedAt := now\<rparr> else q) table))"

definition DeletePromptTemplate :: "string \<Rightarrow> PromptTemplate list \<Rightarrow> bool \<times> PromptTemplate list" where
  "DeletePromptTemplate i table = (list_ex (\<lambda>q. pt_ID q = i) table, filter (\<lambda>q. pt_ID q \<noteq> i) table)"

section \<open>Logins\<close>

text \<open>The claims of a verified token.\<close>

record Claims =
  cl_Sub :: string
  cl_Email :: string
  cl_Name :: string
  cl_EmailVerified :: bool

record OidcContext =
  oc_Subject :: string
  oc_Email :: string
  oc_Name :: string
  oc_Role :: string

text \<open>\<open>op_verify\<close> stands for \<^verbatim>\<open>IDTokenVerifier.Verify\<close> followed by \<^verbatim>\<open>Claims\<close>.\<close>

record OidcProvider =
  op_verify :: "string \<Rightarrow> Claims option"
  op_defaultRole :: string

definition NewProvider :: "(string \<Rightarrow> Claims option) option \<Rightarrow> string \<Rightarrow> OidcProvider option" where
  "NewProvider discovered defaultRole =
     map_option (\<lambda>verify. \<lparr>op_verify = verify, op_defaultRole = (if defaultRole = '''' then RoleViewer else defaultRole)\<rparr>)
       discovered"

definition ValidateToken ::
  "OidcProvider \<Rightarrow> string \<Rightarrow> (string \<Rightarrow> string \<Rightarrow> string option) option \<Rightarrow> OidcContext option" where
  "ValidateToken p rawToken lookup =
     map_option (\<lambda>claims.
         let role = (case lookup of
                       None \<Rightarrow> op_defaultRole p
                     | Some f \<Rightarrow> (case f (cl_Sub claims) (cl_Email claims) of
                                    Some resolved \<Rightarrow> if resolved \<noteq> '''' then resolved else op_defaultRole p
                                  | None \<Rightarrow> op_defaultRole p))
         in \<lparr>oc_Subject = cl_Sub claims, oc_Email = cl_Email claims, oc_Name = cl_Name claims, oc_Role = role\<rparr>)
       (op_verify p rawToken)"

text \<open>A database that cannot be reached answers neither query, and the default role remains.\<close>

definition DBLookup :: "user_row list option \<Rightarrow> string \<Rightarrow> string \<Rightarrow> string \<Rightarrow> string option" where
  "DBLookup db defaultRole subject email =
     (let table = (case db of None \<Rightarrow> [] | Some t \<Rightarrow> t)
      in case (if subject \<noteq> '''' then LookupUserBySubject table subject else Inl NoMatch) of
           Inr u \<Rightarrow> Some (au_Role u)
         | Inl _ \<Rightarrow>
             (case (if email \<noteq> '''' then LookupUserByEmail table email else Inl NoMatch) of
                Inr u \<Rightarrow> Some (au_Role u)
              | Inl _ \<Rightarrow> Some defaultRole))"

definition AutoProvision ::
  "string \<Rightarrow> gotime \<Rightarrow> string \<Rightarrow> string \<Rightarrow> string \<Rightarrow> user_row list \<Rightarrow> (string \<times> bool) \<times> user_row list" where
  "AutoProvision newID now subject email defaultRole table =
     (case CreateUser newID now subject email defaultRole table of
        (Inl err, table') \<Rightarrow> ((defaultRole, False), table')
      | (Inr u, table') \<Rightarrow> ((defaultRole, True), table'))"

end
