(* ===== verification/Admin.thy ===== *)
theory Admin
  imports Admin_Store Mcp_Server
begin

text \<open>
  The admin API: authentication and roles (\<^verbatim>\<open>internal/admin/handler.go\<close>, \<^verbatim>\<open>rbac.go\<close>), virtual keys (\<^verbatim>\<open>keys.go\<close>), projects
  (\<^verbatim>\<open>projects.go\<close>), users (\<^verbatim>\<open>rbac.go\<close>) and prompt templates (\<^verbatim>\<open>prompts.go\<close>). A request runs against the tables of the
  database, the audit logger, the counter of role checks and the sessions of the MCP server, which the callback
  \<^verbatim>\<open>OnKeysChanged\<close> of \<^verbatim>\<open>internal/server/server.go\<close> notifies; that goroutine is taken to have run when the request ends. What a
  request meets outside the program is the record \<open>admin_env\<close>: whether its n-th statement is answered by the database, the
  identifiers and the time the database fills in, the clock, the random bytes, bcrypt. A panic is \<^term>\<open>None\<close>.

  The lemmas show that the constraints of the tables hold in every reachable state, that a request without
  a valid login or without the permission changes no table, and that a created key works until it is revoked. The last theorems state what
  the access control does not do.
\<close>

section \<open>Requests, state and answers\<close>

record admin_request =
  rq_method :: string
  rq_path :: "string list"
  rq_auth :: string
  rq_addr :: string
  rq_query :: "string \<Rightarrow> string"
  rq_body :: "json option"
  rq_requestID :: string
  rq_oidc :: "OidcContext option"

definition url_path :: "admin_request \<Rightarrow> string" where
  "url_path r = concat (map (\<lambda>s. ''/'' @ s) (rq_path r))"

record admin_env =
  aq_up :: "nat \<Rightarrow> bool"
  aq_now :: gotime
  aq_newID :: "nat \<Rightarrow> string"
  aq_clock :: gotime
  aq_today :: string
  aq_rand :: "string option"
  aq_hash :: "string \<Rightarrow> string option"
  aq_pg :: "string \<Rightarrow> string"
  aq_fmt_v :: "json \<Rightarrow> string"
  aq_set_column :: "string \<Rightarrow> json \<Rightarrow> VirtualKey \<Rightarrow> VirtualKey option"
  aq_collate :: "string \<Rightarrow> string \<Rightarrow> bool"

record admin_state =
  as_projects :: "Project list"
  as_keys :: "VirtualKey list"
  as_users :: "user_row list"
  as_prompts :: "PromptTemplate list"
  as_audit :: "Logger option"
  as_checks :: "(string \<times> string \<times> string) list option"
  as_sessions :: "SessionStore option"

record createKeyResponse =
  kr_ID :: string
  kr_Key :: string
  kr_KeyPrefix :: string
  kr_Name :: string
  kr_ProjectID :: string

datatype admin_body =
    NoBody
  | ErrorBody string string string
  | StatusBody string
  | ProjectBody Project
  | ProjectsBody "Project list"
  | KeyBody createKeyResponse
  | KeysBody nat "VirtualKey list"
  | VirtualKeyBody VirtualKey
  | QuickBody Project createKeyResponse int f64
  | UserBody AdminUser
  | UsersBody "AdminUser list"
  | RolesBody bool "(string \<times> string \<times> string list) list"
  | PromptBody PromptTemplate
  | PromptsBody "PromptTemplate list"

type_synonym admin_reply = "int \<times> admin_body"

text \<open>What a handler leaves: its answer and the state, or a panic.\<close>

type_synonym admin_result = "(admin_reply \<times> admin_state) option"

record Admin_Handler =
  adm_rbacEnabled :: bool
  adm_OnKeysChanged :: bool

definition writeAdminError :: "admin_request \<Rightarrow> int \<Rightarrow> string \<Rightarrow> string \<Rightarrow> admin_reply" where
  "writeAdminError r status typ message = (status, ErrorBody typ message (rq_requestID r))"

text \<open>\<open>rq_body\<close> is the first JSON value of the body, absent when there is none or when the body is longer than the 64KB the
  server allows.\<close>

definition readJSON :: "admin_request \<Rightarrow> 'a decoder \<Rightarrow> 'a \<Rightarrow> 'a option" where
  "readJSON r decode zero = (case rq_body r of None \<Rightarrow> None | Some j \<Rightarrow> decode j zero)"

definition readJSON_map :: "admin_request \<Rightarrow> (string, json) gomap option" where
  "readJSON_map r = (case rq_body r of None \<Rightarrow> None | Some JNull \<Rightarrow> Some [] | Some j \<Rightarrow> decode_any_map j)"

text \<open>\<^verbatim>\<open>strconv.Atoi\<close>.\<close>

definition strconv_Atoi :: "string \<Rightarrow> int option" where
  "strconv_Atoi s =
     (let neg = (s \<noteq> [] \<and> hd s = CHR ''-'');
          ds = (if s \<noteq> [] \<and> (hd s = CHR ''-'' \<or> hd s = CHR ''+'') then tl s else s);
          n = (if neg then - digits_value ds else digits_value ds)
      in if ds \<noteq> [] \<and> list_all is_digit ds \<and> in_int64 n then Some n else None)"

section \<open>Audit and roles\<close>

definition record_event :: "admin_env \<Rightarrow> Event \<Rightarrow> admin_state \<Rightarrow> admin_state option" where
  "record_event env e s =
     (case as_audit s of
        None \<Rightarrow> Some s
      | Some l \<Rightarrow> map_option (\<lambda>l'. s\<lparr>as_audit := Some l'\<rparr>) (Logger_Record (aq_clock env, e) l))"

definition audit_event :: "string \<Rightarrow> string \<Rightarrow> string \<Rightarrow> string \<Rightarrow> string \<Rightarrow> string \<Rightarrow> (string, json) gomap \<Rightarrow> Event" where
  "audit_event typ actor action resource outcome requestID metadata =
     \<lparr>ae_Timestamp = time_zero, ae_EventType = typ, ae_Actor = actor, ae_Action = action, ae_Resource = resource,
      ae_Outcome = outcome, ae_RequestID = requestID, ae_Metadata = metadata\<rparr>"

definition actorFromRequest :: "admin_request \<Rightarrow> string" where
  "actorFromRequest r =
     (let auth = rq_auth r
      in if strings_HasPrefix auth ''Bearer ''
         then let token = strings_TrimPrefix auth ''Bearer ''
              in if 8 < length token then ''token:'' @ take 8 token @ ''...'' else ''token''
         else ''admin'')"

definition maskToken :: "string \<Rightarrow> string" where
  "maskToken auth =
     (if strings_HasPrefix auth ''Bearer ''
      then let token = strings_TrimPrefix auth ''Bearer ''
           in if 8 < length token then ''token:'' @ take 4 token @ ''****'' else ''token:****''
      else if 8 < length auth then take 4 auth @ ''****'' else ''****'')"

record ActorIdentity =
  ai_Email :: string
  ai_Role :: string
  ai_Source :: string

definition actorIdentity :: "admin_request \<Rightarrow> ActorIdentity" where
  "actorIdentity r =
     (case rq_oidc r of
        Some ac \<Rightarrow> \<lparr>ai_Email = oc_Email ac, ai_Role = oc_Role ac, ai_Source = ''oidc''\<rparr>
      | None \<Rightarrow> \<lparr>ai_Email = ''admin'', ai_Role = RoleAdmin, ai_Source = ''token''\<rparr>)"

definition recordRBACCheck :: "string \<Rightarrow> string \<Rightarrow> string \<Rightarrow> admin_state \<Rightarrow> admin_state" where
  "recordRBACCheck role action result s = s\<lparr>as_checks := map_option (\<lambda>cs. cs @ [(role, action, result)]) (as_checks s)\<rparr>"

definition requireRole ::
  "Admin_Handler \<Rightarrow> admin_env \<Rightarrow> admin_request \<Rightarrow> string \<Rightarrow> admin_state \<Rightarrow> ((admin_reply + ActorIdentity) \<times> admin_state) option" where
  "requireRole h env r action s =
     (let actor = actorIdentity r
      in if \<not> adm_rbacEnabled h then Some (Inr actor, s)
         else if \<not> RoleAllowed (ai_Role actor) action
         then map_option (\<lambda>s'. (Inl (writeAdminError r 403 ''forbidden'' ''insufficient permissions''), s'))
                (record_event env
                   (audit_event ''authorization.denied'' (ai_Email actor) action (url_path r) ''denied'' (rq_requestID r)
                      [(''role'', JStr (ai_Role actor)), (''source'', JStr (ai_Source actor))])
                   (recordRBACCheck (ai_Role actor) action ''deny'' s))
         else Some (Inr actor, recordRBACCheck (ai_Role actor) action ''allow'' s))"

text \<open>\<^verbatim>\<open>actor := h.requireRole(...); if actor == nil { return }\<close>\<close>

definition guarded ::
  "Admin_Handler \<Rightarrow> admin_env \<Rightarrow> admin_request \<Rightarrow> string \<Rightarrow> (admin_state \<Rightarrow> admin_result) \<Rightarrow> admin_state \<Rightarrow> admin_result" where
  "guarded h env r action k s =
     (case requireRole h env r action s of
        None \<Rightarrow> None
      | Some (Inl reply, s') \<Rightarrow> Some (reply, s')
      | Some (Inr actor, s') \<Rightarrow> k s')"

definition audited ::
  "admin_env \<Rightarrow> admin_request \<Rightarrow> string \<Rightarrow> string \<Rightarrow> string \<Rightarrow> (string, json) gomap \<Rightarrow> admin_state \<Rightarrow> admin_state option" where
  "audited env r typ action resource metadata s =
     record_event env (audit_event typ (actorFromRequest r) action resource ''success'' (rq_requestID r) metadata) s"

text \<open>\<^verbatim>\<open>OnKeysChanged\<close>.\<close>

definition keys_changed :: "Admin_Handler \<Rightarrow> admin_state \<Rightarrow> admin_state" where
  "keys_changed h s = (if adm_OnKeysChanged h then s\<lparr>as_sessions := map_option NotifyToolsChanged (as_sessions s)\<rparr> else s)"

section \<open>Projects\<close>

definition decode_name :: "string decoder" where
  "decode_name = decode_struct [(''name'', decode_string)]"

definition createProject :: "Admin_Handler \<Rightarrow> admin_env \<Rightarrow> admin_request \<Rightarrow> admin_state \<Rightarrow> admin_result" where
  "createProject h env r = guarded h env r ''project:create'' (\<lambda>s.
     case readJSON r decode_name '''' of
       None \<Rightarrow> Some (writeAdminError r 400 ''invalid_request'' ''name is required'', s)
     | Some name \<Rightarrow>
         if name = '''' then Some (writeAdminError r 400 ''invalid_request'' ''name is required'', s)
         else (case (if aq_up env 0 then CreateProject (aq_newID env 0) (aq_now env) name (as_projects s)
                     else (Inl (DBError ''connection''), as_projects s)) of
                 (Inl err, _) \<Rightarrow> Some (writeAdminError r 409 ''conflict'' ''project name already exists'', s)
               | (Inr project, projects) \<Rightarrow>
                   map_option (\<lambda>s'. ((201, ProjectBody project), s'))
                     (audited env r ''project.create'' ''create'' (''project:'' @ pj_ID project)
                        [(''name'', JStr (pj_Name project))] (s\<lparr>as_projects := projects\<rparr>))))"

definition listProjects :: "Admin_Handler \<Rightarrow> admin_env \<Rightarrow> admin_request \<Rightarrow> admin_state \<Rightarrow> admin_result" where
  "listProjects h env r = guarded h env r ''project:list'' (\<lambda>s.
     if aq_up env 0 then Some ((200, ProjectsBody (ListProjects (aq_collate env) (as_projects s))), s)
     else Some (writeAdminError r 500 ''internal_error'' ''failed to list projects'', s))"

definition deleteProject :: "Admin_Handler \<Rightarrow> admin_env \<Rightarrow> string \<Rightarrow> admin_request \<Rightarrow> admin_state \<Rightarrow> admin_result" where
  "deleteProject h env i r = guarded h env r ''project:delete'' (\<lambda>s.
     if i = '''' then Some (writeAdminError r 400 ''invalid_request'' ''project id is required'', s)
     else if \<not> aq_up env 0 then Some (writeAdminError r 500 ''internal_error'' ''failed to delete project'', s)
     else case DeleteProject i (as_projects s, as_keys s) of
            (deleted, projects, keys) \<Rightarrow>
              if \<not> deleted then Some (writeAdminError r 404 ''not_found'' ''project not found'', s)
              else map_option (\<lambda>s'. ((204, NoBody), s'))
                     (audited env r ''project.delete'' ''delete'' (''project:'' @ i) []
                        (s\<lparr>as_projects := projects, as_keys := keys\<rparr>)))"

section \<open>Virtual keys\<close>

record createKeyRequest =
  kq_ProjectID :: string
  kq_Name :: string
  kq_AllowedModels :: "string list"
  kq_AllowedProviders :: "string list"
  kq_AllowedTools :: "string list"
  kq_RPMLimit :: int
  kq_TPMLimit :: int
  kq_BudgetLimitUSD :: f64
  kq_BudgetPeriod :: string
  kq_AllowMCPServer :: bool
  kq_MCPToolName :: string

definition zero_createKeyRequest :: createKeyRequest where
  "zero_createKeyRequest =
     \<lparr>kq_ProjectID = '''', kq_Name = '''', kq_AllowedModels = [], kq_AllowedProviders = [], kq_AllowedTools = [],
      kq_RPMLimit = 0, kq_TPMLimit = 0, kq_BudgetLimitUSD = 0, kq_BudgetPeriod = '''', kq_AllowMCPServer = False,
      kq_MCPToolName = ''''\<rparr>"

definition unmarshal_createKeyRequest :: "createKeyRequest decoder" where
  "unmarshal_createKeyRequest = decode_struct
     [(''project_id'', \<lambda>j q. map_option (\<lambda>v. q\<lparr>kq_ProjectID := v\<rparr>) (decode_string j (kq_ProjectID q))),
      (''name'', \<lambda>j q. map_option (\<lambda>v. q\<lparr>kq_Name := v\<rparr>) (decode_string j (kq_Name q))),
      (''allowed_models'', \<lambda>j q. map_option (\<lambda>v. q\<lparr>kq_AllowedModels := v\<rparr>) (decode_slice decode_string '''' j (kq_AllowedModels q))),
      (''allowed_providers'', \<lambda>j q. map_option (\<lambda>v. q\<lparr>kq_AllowedProviders := v\<rparr>)
         (decode_slice decode_string '''' j (kq_AllowedProviders q))),
      (''allowed_tools'', \<lambda>j q. map_option (\<lambda>v. q\<lparr>kq_AllowedTools := v\<rparr>) (decode_slice decode_string '''' j (kq_AllowedTools q))),
      (''rpm_limit'', \<lambda>j q. map_option (\<lambda>v. q\<lparr>kq_RPMLimit := v\<rparr>) (decode_int j (kq_RPMLimit q))),
      (''tpm_limit'', \<lambda>j q. map_option (\<lambda>v. q\<lparr>kq_TPMLimit := v\<rparr>) (decode_int j (kq_TPMLimit q))),
      (''budget_limit_usd'', \<lambda>j q. map_option (\<lambda>v. q\<lparr>kq_BudgetLimitUSD := v\<rparr>) (decode_float j (kq_BudgetLimitUSD q))),
      (''budget_period'', \<lambda>j q. map_option (\<lambda>v. q\<lparr>kq_BudgetPeriod := v\<rparr>) (decode_string j (kq_BudgetPeriod q))),
      (''allow_mcp_server'', \<lambda>j q. map_option (\<lambda>v. q\<lparr>kq_AllowMCPServer := v\<rparr>) (decode_bool j (kq_AllowMCPServer q))),
      (''mcp_tool_name'', \<lambda>j q. map_option (\<lambda>v. q\<lparr>kq_MCPToolName := v\<rparr>) (decode_string j (kq_MCPToolName q)))]"

definition hex_encode :: "string \<Rightarrow> string" where
  "hex_encode bs = concat (map (\<lambda>c. [hex_digit (of_char c div 16), hex_digit (of_char c mod 16)]) bs)"

text \<open>\<open>aq_rand\<close> holds the 16 bytes of \<^verbatim>\<open>rand.Read\<close>, or its failure.\<close>

definition generateKey :: "admin_env \<Rightarrow> string option" where
  "generateKey env = map_option (\<lambda>buf. ''gw-'' @ hex_encode buf) (aq_rand env)"

text \<open>
  The insertion with the constraints of \<^verbatim>\<open>virtual_keys\<close>: \<^verbatim>\<open>id\<close> and \<^verbatim>\<open>key_hash\<close> are unique, so is a tool name
  that is not empty, and the project exists.
\<close>

definition key_conflict :: "string \<Rightarrow> VirtualKey \<Rightarrow> admin_state \<Rightarrow> bool" where
  "key_conflict newID vk s \<longleftrightarrow>
     \<not> list_ex (\<lambda>p. pj_ID p = vk_ProjectID vk) (as_projects s)
     \<or> list_ex (\<lambda>k. vk_ID k = newID \<or> vk_KeyHash k = vk_KeyHash vk
          \<or> vk_MCPToolName vk \<noteq> '''' \<and> vk_MCPToolName k = vk_MCPToolName vk) (as_keys s)"

definition insert_key :: "admin_env \<Rightarrow> nat \<Rightarrow> VirtualKey \<Rightarrow> admin_state \<Rightarrow> admin_state option" where
  "insert_key env n vk s =
     (if aq_up env n \<and> \<not> key_conflict (aq_newID env n) vk s
      then Some (s\<lparr>as_keys := CreateVirtualKey (aq_pg env) (aq_newID env n) (aq_now env) vk (as_keys s)\<rparr>) else None)"

definition new_key :: "createKeyRequest \<Rightarrow> string \<Rightarrow> string \<Rightarrow> VirtualKey" where
  "new_key q rawKey hash =
     \<lparr>vk_ID = '''', vk_ProjectID = kq_ProjectID q, vk_KeyPrefix = take 8 rawKey, vk_KeyHash = hash, vk_Name = kq_Name q,
      vk_AllowedModels = kq_AllowedModels q, vk_AllowedProviders = kq_AllowedProviders q, vk_AllowedTools = kq_AllowedTools q,
      vk_RPMLimit = kq_RPMLimit q, vk_TPMLimit = kq_TPMLimit q, vk_BudgetLimitUSD = kq_BudgetLimitUSD q,
      vk_BudgetPeriod = kq_BudgetPeriod q, vk_ExpiresAt = None, vk_RevokedAt = None, vk_CreatedAt = time_zero,
      vk_AllowMCPServer = kq_AllowMCPServer q, vk_MCPToolName = kq_MCPToolName q\<rparr>"

definition createKey :: "Admin_Handler \<Rightarrow> admin_env \<Rightarrow> admin_request \<Rightarrow> admin_state \<Rightarrow> admin_result" where
  "createKey h env r = guarded h env r ''key:create'' (\<lambda>s.
     case readJSON r unmarshal_createKeyRequest zero_createKeyRequest of
       None \<Rightarrow> Some (writeAdminError r 400 ''invalid_request'' ''invalid JSON body'', s)
     | Some q \<Rightarrow>
         if kq_ProjectID q = '''' then Some (writeAdminError r 400 ''invalid_request'' ''project_id is required'', s)
         else if kq_Name q = '''' then Some (writeAdminError r 400 ''invalid_request'' ''name is required'', s)
         else let q = (if kq_BudgetPeriod q = '''' then q\<lparr>kq_BudgetPeriod := ''monthly''\<rparr> else q)
         in if kq_BudgetLimitUSD q < 0
            then Some (writeAdminError r 400 ''invalid_request'' ''budget_limit_usd must be non-negative'', s)
            else (case generateKey env of
               None \<Rightarrow> Some (writeAdminError r 500 ''internal_error'' ''failed to generate key'', s)
             | Some rawKey \<Rightarrow>
                 (case aq_hash env rawKey of
                    None \<Rightarrow> Some (writeAdminError r 500 ''internal_error'' ''failed to hash key'', s)
                  | Some hash \<Rightarrow>
                      (case insert_key env 0 (new_key q rawKey hash) s of
                         None \<Rightarrow> Some (writeAdminError r 500 ''internal_error'' ''failed to create key'', s)
                       | Some s1 \<Rightarrow>
                           map_option (\<lambda>s'. ((201, KeyBody \<lparr>kr_ID = aq_newID env 0, kr_Key = rawKey, kr_KeyPrefix = take 8 rawKey,
                                                        kr_Name = kq_Name q, kr_ProjectID = kq_ProjectID q\<rparr>), keys_changed h s'))
                             (audited env r ''key.create'' ''create'' (''key:'' @ aq_newID env 0)
                                [(''project_id'', JStr (kq_ProjectID q)), (''name'', JStr (kq_Name q))] s1)))))"

definition page_param :: "admin_request \<Rightarrow> string \<Rightarrow> (int \<Rightarrow> bool) \<Rightarrow> int \<Rightarrow> int" where
  "page_param r name ok deflt =
     (case strconv_Atoi (rq_query r name) of Some n \<Rightarrow> if ok n then n else deflt | None \<Rightarrow> deflt)"

definition listKeys :: "Admin_Handler \<Rightarrow> admin_env \<Rightarrow> admin_request \<Rightarrow> admin_state \<Rightarrow> admin_result" where
  "listKeys h env r = guarded h env r ''key:list'' (\<lambda>s.
     let projectID = rq_query r ''project_id'';
         offset = page_param r ''offset'' (\<lambda>o'. 0 \<le> o') 0;
         limit = page_param r ''limit'' (\<lambda>l. 0 < l \<and> l \<le> 1000) 100
     in case CountVirtualKeys (if aq_up env 0 then Some (as_keys s) else None) projectID of
          Inl err \<Rightarrow> Some (writeAdminError r 500 ''internal_error'' ''failed to count keys'', s)
        | Inr n \<Rightarrow>
            (case ListVirtualKeys (if aq_up env 1 then Some (as_keys s) else None) projectID offset limit of
               Inl err \<Rightarrow> Some (writeAdminError r 500 ''internal_error'' ''failed to list keys'', s)
             | Inr keys \<Rightarrow> Some ((200, KeysBody n keys), s)))"

definition revokeKey :: "Admin_Handler \<Rightarrow> admin_env \<Rightarrow> string \<Rightarrow> admin_request \<Rightarrow> admin_state \<Rightarrow> admin_result" where
  "revokeKey h env i r = guarded h env r ''key:revoke'' (\<lambda>s.
     if i = '''' then Some (writeAdminError r 400 ''invalid_request'' ''key id is required'', s)
     else if \<not> aq_up env 0 then Some (writeAdminError r 500 ''internal_error'' ''failed to revoke key'', s)
     else case RevokeVirtualKey (aq_now env) i (as_keys s) of
            (revoked, keys) \<Rightarrow>
              if \<not> revoked then Some (writeAdminError r 404 ''not_found'' ''key not found or already revoked'', s)
              else map_option (\<lambda>s'. ((204, NoBody), keys_changed h s'))
                     (audited env r ''key.revoke'' ''revoke'' (''key:'' @ i) [] (s\<lparr>as_keys := keys\<rparr>)))"

definition protectedKeyFields :: "string list" where
  "protectedKeyFields = [''key_hash'', ''key_prefix'', ''id'', ''project_id'', ''created_at'']"

text \<open>\<^verbatim>\<open>updateKey\<close> and \<^verbatim>\<open>patchKey\<close> have the same body but for the action they log. When several protected fields are sent, the
  message names the first one the iteration over the map meets.\<close>

definition change_key :: "Admin_Handler \<Rightarrow> admin_env \<Rightarrow> string \<Rightarrow> string \<Rightarrow> admin_request \<Rightarrow> admin_state \<Rightarrow> admin_result" where
  "change_key h env action i r = guarded h env r ''key:update'' (\<lambda>s.
     if i = '''' then Some (writeAdminError r 400 ''invalid_request'' ''key id is required'', s)
     else (case readJSON_map r of
        None \<Rightarrow> Some (writeAdminError r 400 ''invalid_request'' ''invalid JSON body'', s)
      | Some body \<Rightarrow>
          if body = [] then Some (writeAdminError r 400 ''invalid_request'' ''request body is empty'', s)
          else (case find (\<lambda>f. f \<in> set protectedKeyFields) (map fst body) of
             Some f \<Rightarrow> Some (writeAdminError r 400 ''invalid_request''
                               (''field '' @ [CHR 0x27] @ f @ [CHR 0x27] @ '' is read-only''), s)
           | None \<Rightarrow>
               (case (if aq_up env 0 then UpdateVirtualKey (aq_fmt_v env) (aq_set_column env) i body (as_keys s)
                      else (Inl (if negative_budget body then NegativeBudget else DBError ''connection''), as_keys s)) of
                  (Inl err, _) \<Rightarrow>
                    Some (if err = ErrNotFound then writeAdminError r 404 ''not_found'' ''key not found''
                          else writeAdminError r 500 ''internal_error'' ''failed to update key'', s)
                | (Inr _, keys) \<Rightarrow>
                    let s1 = s\<lparr>as_keys := keys\<rparr>
                    in (case (if aq_up env 1 then GetVirtualKeyByID keys i else None) of
                          None \<Rightarrow> Some ((200, StatusBody ''updated''), s1)
                        | Some updated \<Rightarrow>
                            map_option (\<lambda>s'. ((200, VirtualKeyBody updated), keys_changed h s'))
                              (audited env r ''key.update'' action (''key:'' @ i) [(''fields'', JObj body)] s1))))))"

definition updateKey :: "Admin_Handler \<Rightarrow> admin_env \<Rightarrow> string \<Rightarrow> admin_request \<Rightarrow> admin_state \<Rightarrow> admin_result" where
  "updateKey h env i r s = change_key h env ''update'' i r s"

definition patchKey :: "Admin_Handler \<Rightarrow> admin_env \<Rightarrow> string \<Rightarrow> admin_request \<Rightarrow> admin_state \<Rightarrow> admin_result" where
  "patchKey h env i r s = change_key h env ''patch'' i r s"

text \<open>\<^verbatim>\<open>RotateVirtualKey\<close> reads the key, updates its hash, which is unique, and reads it again.\<close>

definition rotate_key :: "admin_env \<Rightarrow> string \<Rightarrow> string \<Rightarrow> string \<Rightarrow> VirtualKey list \<Rightarrow> (store_error + VirtualKey) \<times> VirtualKey list" where
  "rotate_key env i rawKey hash keys =
     (case (if aq_up env 0 then GetVirtualKeyByID keys i else None) of
        None \<Rightarrow> (Inl ErrNotFound, keys)
      | Some existing \<Rightarrow>
          if vk_RevokedAt existing = None \<and> (\<not> aq_up env 1 \<or> list_ex (\<lambda>k. vk_ID k \<noteq> i \<and> vk_KeyHash k = hash) keys)
          then (Inl (DBError ''update''), keys)
          else (case RotateVirtualKey i rawKey hash keys of
                  (Inl err, keys') \<Rightarrow> (Inl err, keys')
                | (Inr vk, keys') \<Rightarrow> (if aq_up env 2 then Inr vk else Inl (DBError ''connection''), keys')))"

definition rotateKey :: "Admin_Handler \<Rightarrow> admin_env \<Rightarrow> string \<Rightarrow> admin_request \<Rightarrow> admin_state \<Rightarrow> admin_result" where
  "rotateKey h env i r = guarded h env r ''key:update'' (\<lambda>s.
     if i = '''' then Some (writeAdminError r 400 ''invalid_request'' ''key id is required'', s)
     else (case generateKey env of
        None \<Rightarrow> Some (writeAdminError r 500 ''internal_error'' ''failed to generate key'', s)
      | Some rawKey \<Rightarrow>
          (case aq_hash env rawKey of
             None \<Rightarrow> Some (writeAdminError r 500 ''internal_error'' ''failed to hash key'', s)
           | Some hash \<Rightarrow>
               (case rotate_key env i rawKey hash (as_keys s) of
                  (Inl err, keys) \<Rightarrow>
                    Some (if err = ErrNotFound then writeAdminError r 404 ''not_found'' ''key not found''
                          else if err = KeyRevoked then writeAdminError r 400 ''invalid_request'' ''key is revoked''
                          else writeAdminError r 500 ''internal_error'' ''failed to rotate key'', s\<lparr>as_keys := keys\<rparr>)
                | (Inr vk, keys) \<Rightarrow>
                    map_option (\<lambda>s'. ((200, KeyBody \<lparr>kr_ID = vk_ID vk, kr_Key = rawKey, kr_KeyPrefix = vk_KeyPrefix vk,
                                                 kr_Name = vk_Name vk, kr_ProjectID = vk_ProjectID vk\<rparr>), keys_changed h s'))
                      (audited env r ''key.rotate'' ''rotate'' (''key:'' @ i) [] (s\<lparr>as_keys := keys\<rparr>))))))"

section \<open>Users\<close>

definition roleDescriptions :: "(string, string) gomap" where
  "roleDescriptions =
     [(RoleAdmin, ''Full access to all admin operations''), (RoleEditor, ''Can manage keys and view usage/audit''),
      (RoleViewer, ''Read-only access to keys, usage, and audit'')]"

definition listRoles :: "Admin_Handler \<Rightarrow> admin_request \<Rightarrow> admin_state \<Rightarrow> admin_result" where
  "listRoles h r s =
     Some ((200, RolesBody (adm_rbacEnabled h)
        (map (\<lambda>(role, actions). (role, case gm_get roleDescriptions role of None \<Rightarrow> '''' | Some d \<Rightarrow> d, actions))
           GetRolePermissions)), s)"

definition unmarshal_createUserRequest :: "(string \<times> string \<times> string) decoder" where
  "unmarshal_createUserRequest = decode_struct
     [(''subject'', \<lambda>j (a, b, c). map_option (\<lambda>v. (v, b, c)) (decode_string j a)),
      (''email'', \<lambda>j (a, b, c). map_option (\<lambda>v. (a, v, c)) (decode_string j b)),
      (''role'', \<lambda>j (a, b, c). map_option (\<lambda>v. (a, b, v)) (decode_string j c))]"

definition createUser :: "Admin_Handler \<Rightarrow> admin_env \<Rightarrow> admin_request \<Rightarrow> admin_state \<Rightarrow> admin_result" where
  "createUser h env r s =
     (case readJSON r unmarshal_createUserRequest ('''', '''', '''') of
        None \<Rightarrow> Some (writeAdminError r 400 ''invalid_request'' ''invalid JSON body'', s)
      | Some (subject, email, role0) \<Rightarrow>
          if subject = '''' \<and> email = ''''
          then Some (writeAdminError r 400 ''invalid_request'' ''subject or email is required'', s)
          else let role = (if role0 = '''' then RoleViewer else role0)
          in if \<not> ValidateRole role
             then Some (writeAdminError r 400 ''invalid_request'' ''role must be admin, editor, or viewer'', s)
             else (case (if aq_up env 0 then CreateUser (aq_newID env 0) (aq_now env) subject email role (as_users s)
                         else (Inl (DBError ''connection''), as_users s)) of
                (Inl err, _) \<Rightarrow> Some (writeAdminError r 409 ''conflict'' ''user with this subject or email already exists'', s)
              | (Inr u, users) \<Rightarrow>
                  map_option (\<lambda>s'. ((201, UserBody u), s'))
                    (audited env r ''user.create'' ''create'' (''user:'' @ au_ID u)
                       [(''subject'', JStr subject), (''email'', JStr email), (''role'', JStr role)] (s\<lparr>as_users := users\<rparr>))))"

definition listUsers :: "Admin_Handler \<Rightarrow> admin_env \<Rightarrow> admin_request \<Rightarrow> admin_state \<Rightarrow> admin_result" where
  "listUsers h env r s =
     Some (if aq_up env 0 then ((200, UsersBody (ListUsers (as_users s))), s)
           else (writeAdminError r 500 ''internal_error'' ''failed to list users'', s))"

definition deleteUser :: "Admin_Handler \<Rightarrow> admin_env \<Rightarrow> string \<Rightarrow> admin_request \<Rightarrow> admin_state \<Rightarrow> admin_result" where
  "deleteUser h env i r s =
     (if i = '''' then Some (writeAdminError r 400 ''invalid_request'' ''user id is required'', s)
      else case (if aq_up env 0 then SoftDeleteUser (aq_now env) i (as_users s) else (Inl (DBError ''connection''), as_users s)) of
             (Inl err, _) \<Rightarrow>
               Some (if err = ErrNotFound then writeAdminError r 404 ''not_found'' ''user not found''
                     else writeAdminError r 500 ''internal_error'' ''failed to delete user'', s)
           | (Inr _, users) \<Rightarrow>
               map_option (\<lambda>s'. ((204, NoBody), s'))
                 (audited env r ''user.delete'' ''delete'' (''user:'' @ i) [] (s\<lparr>as_users := users\<rparr>)))"

definition decode_role :: "string decoder" where
  "decode_role = decode_struct [(''role'', decode_string)]"

definition updateUserRole :: "Admin_Handler \<Rightarrow> admin_env \<Rightarrow> string \<Rightarrow> admin_request \<Rightarrow> admin_state \<Rightarrow> admin_result" where
  "updateUserRole h env i r s =
     (if i = '''' then Some (writeAdminError r 400 ''invalid_request'' ''user id is required'', s)
      else case readJSON r decode_role '''' of
             None \<Rightarrow> Some (writeAdminError r 400 ''invalid_request'' ''invalid JSON body'', s)
           | Some role \<Rightarrow>
               if \<not> ValidateRole role
               then Some (writeAdminError r 400 ''invalid_request'' ''role must be admin, editor, or viewer'', s)
               else (case (if aq_up env 0 then UpdateUserRole i role (as_users s) else (Inl (DBError ''connection''), as_users s)) of
                  (Inl err, _) \<Rightarrow>
                    Some (if err = ErrNotFound then writeAdminError r 404 ''not_found'' ''user not found''
                          else writeAdminError r 500 ''internal_error'' ''failed to update role'', s)
                | (Inr _, users) \<Rightarrow>
                    map_option (\<lambda>s'. ((200, StatusBody ''updated''), s'))
                      (audited env r ''user.update_role'' ''update_role'' (''user:'' @ i) [(''new_role'', JStr role)]
                         (s\<lparr>as_users := users\<rparr>))))"

section \<open>Prompt templates\<close>

definition unmarshal_createPromptRequest :: "(string \<times> string \<times> string) decoder" where
  "unmarshal_createPromptRequest = decode_struct
     [(''name'', \<lambda>j (a, b, c). map_option (\<lambda>v. (v, b, c)) (decode_string j a)),
      (''content'', \<lambda>j (a, b, c). map_option (\<lambda>v. (a, v, c)) (decode_string j b)),
      (''description'', \<lambda>j (a, b, c). map_option (\<lambda>v. (a, b, v)) (decode_string j c))]"

definition prompt_of :: "string \<Rightarrow> string \<times> string \<times> string \<Rightarrow> PromptTemplate" where
  "prompt_of i = (\<lambda>(name, content, description).
     \<lparr>pt_ID = i, pt_Name = name, pt_Content = content, pt_Description = description, pt_CreatedAt = time_zero,
      pt_UpdatedAt = time_zero\<rparr>)"

definition isDuplicateKey :: "store_error \<Rightarrow> bool" where
  "isDuplicateKey err = (case err of
       DBError m \<Rightarrow> strings_Contains m ''duplicate key'' \<or> strings_Contains m ''23505'' \<or> strings_Contains m ''unique''
     | _ \<Rightarrow> False)"

text \<open>The checks of a prompt's body, shared by \<^verbatim>\<open>createPrompt\<close> and \<^verbatim>\<open>updatePrompt\<close>.\<close>

definition prompt_body :: "admin_request \<Rightarrow> string + string \<times> string \<times> string" where
  "prompt_body r =
     (case readJSON r unmarshal_createPromptRequest ('''', '''', '''') of
        None \<Rightarrow> Inl ''invalid JSON body''
      | Some q \<Rightarrow> if fst q = '''' then Inl ''name is required'' else if fst (snd q) = '''' then Inl ''content is required'' else Inr q)"

definition createPrompt :: "Admin_Handler \<Rightarrow> admin_env \<Rightarrow> admin_request \<Rightarrow> admin_state \<Rightarrow> admin_result" where
  "createPrompt h env r = guarded h env r ''prompt:create'' (\<lambda>s.
     case prompt_body r of
       Inl m \<Rightarrow> Some (writeAdminError r 400 ''invalid_request'' m, s)
     | Inr q \<Rightarrow>
         (case (if aq_up env 0 then CreatePromptTemplate (aq_newID env 0) (aq_clock env) (prompt_of '''' q) (as_prompts s)
                else (Inl (DBError ''connection''), as_prompts s)) of
            (Inl err, _) \<Rightarrow>
              Some (if err = DBError ''no rows'' \<or> isDuplicateKey err
                    then writeAdminError r 409 ''duplicate'' ''prompt with this name already exists''
                    else writeAdminError r 500 ''internal_error'' ''failed to create prompt'', s)
          | (Inr pt, prompts) \<Rightarrow> Some ((201, PromptBody pt), s\<lparr>as_prompts := prompts\<rparr>)))"

definition listPrompts :: "Admin_Handler \<Rightarrow> admin_env \<Rightarrow> admin_request \<Rightarrow> admin_state \<Rightarrow> admin_result" where
  "listPrompts h env r = guarded h env r ''prompt:list'' (\<lambda>s.
     Some (if aq_up env 0 then ((200, PromptsBody (ListPromptTemplates (aq_collate env) (as_prompts s))), s)
           else (writeAdminError r 500 ''internal_error'' ''failed to list prompts'', s)))"

definition updatePrompt :: "Admin_Handler \<Rightarrow> admin_env \<Rightarrow> string \<Rightarrow> admin_request \<Rightarrow> admin_state \<Rightarrow> admin_result" where
  "updatePrompt h env i r = guarded h env r ''prompt:update'' (\<lambda>s.
     if i = '''' then Some (writeAdminError r 400 ''invalid_request'' ''prompt id is required'', s)
     else case prompt_body r of
       Inl m \<Rightarrow> Some (writeAdminError r 400 ''invalid_request'' m, s)
     | Inr q \<Rightarrow>
         (case (if aq_up env 0 then UpdatePromptTemplate (aq_clock env) (prompt_of i q) (as_prompts s)
                else (Inl (DBError ''connection''), as_prompts s)) of
            (Inl err, _) \<Rightarrow>
              Some (if err = DBError ''no rows'' then writeAdminError r 404 ''not_found'' ''prompt not found''
                    else if isDuplicateKey err then writeAdminError r 409 ''duplicate'' ''prompt with this name already exists''
                    else writeAdminError r 500 ''internal_error'' ''failed to update prompt'', s)
          | (Inr pt, prompts) \<Rightarrow> Some ((200, PromptBody pt), s\<lparr>as_prompts := prompts\<rparr>)))"

definition deletePrompt :: "Admin_Handler \<Rightarrow> admin_env \<Rightarrow> string \<Rightarrow> admin_request \<Rightarrow> admin_state \<Rightarrow> admin_result" where
  "deletePrompt h env i r = guarded h env r ''prompt:delete'' (\<lambda>s.
     if i = '''' then Some (writeAdminError r 400 ''invalid_request'' ''prompt id is required'', s)
     else if \<not> aq_up env 0 then Some (writeAdminError r 500 ''internal_error'' ''failed to delete prompt'', s)
     else case DeletePromptTemplate i (as_prompts s) of
            (deleted, prompts) \<Rightarrow>
              Some (if deleted then ((200, StatusBody ''deleted''), s\<lparr>as_prompts := prompts\<rparr>)
                    else (writeAdminError r 404 ''not_found'' ''prompt not found'', s)))"

section \<open>Quickstart\<close>

definition unmarshal_quickstart :: "(string \<times> int \<times> f64) decoder" where
  "unmarshal_quickstart = decode_struct
     [(''name'', \<lambda>j (a, b, c). map_option (\<lambda>v. (v, b, c)) (decode_string j a)),
      (''rpm_limit'', \<lambda>j (a, b, c). map_option (\<lambda>v. (a, v, c)) (decode_int j b)),
      (''budget_limit_usd'', \<lambda>j (a, b, c). map_option (\<lambda>v. (a, b, v)) (decode_float j c))]"

definition quickstart_project :: "admin_env \<Rightarrow> admin_state \<Rightarrow> (Project \<times> admin_state) option" where
  "quickstart_project env s =
     (let name = ''quickstart-'' @ aq_today env
      in case (if aq_up env 0 then GetProjectByName (as_projects s) name else None) of
           Some p \<Rightarrow> Some (p, s)
         | None \<Rightarrow>
             (case (if aq_up env 1 then CreateProject (aq_newID env 1) (aq_now env) name (as_projects s)
                    else (Inl (DBError ''connection''), as_projects s)) of
                (Inl err, _) \<Rightarrow> None
              | (Inr p, projects) \<Rightarrow> Some (p, s\<lparr>as_projects := projects\<rparr>)))"

definition handleQuickstart :: "Admin_Handler \<Rightarrow> admin_env \<Rightarrow> admin_request \<Rightarrow> admin_state \<Rightarrow> admin_result" where
  "handleQuickstart h env r = guarded h env r ''key:create'' (\<lambda>s.
     case readJSON r unmarshal_quickstart ('''', 0, 0) of
       None \<Rightarrow> Some (writeAdminError r 400 ''invalid_request'' ''invalid JSON body'', s)
     | Some (name, rpm, budget) \<Rightarrow>
         (case quickstart_project env s of
            None \<Rightarrow> Some (writeAdminError r 500 ''internal_error'' ''failed to create project'', s)
          | Some (project, s1) \<Rightarrow>
              (case generateKey env of
                 None \<Rightarrow> Some (writeAdminError r 500 ''internal_error'' ''failed to generate key'', s1)
               | Some rawKey \<Rightarrow>
                   (case aq_hash env rawKey of
                      None \<Rightarrow> Some (writeAdminError r 500 ''internal_error'' ''failed to hash key'', s1)
                    | Some hash \<Rightarrow>
                        let q = zero_createKeyRequest\<lparr>kq_ProjectID := pj_ID project,
                                  kq_Name := (if name = '''' then ''quickstart'' else name), kq_RPMLimit := rpm,
                                  kq_BudgetLimitUSD := budget, kq_BudgetPeriod := ''monthly''\<rparr>
                        in case insert_key env 2 (new_key q rawKey hash) s1 of
                             None \<Rightarrow> Some (writeAdminError r 500 ''internal_error'' ''failed to create key'', s1)
                           | Some s2 \<Rightarrow>
                               Some ((201, QuickBody project \<lparr>kr_ID = aq_newID env 2, kr_Key = rawKey,
                                        kr_KeyPrefix = take 8 rawKey, kr_Name = kq_Name q, kr_ProjectID = pj_ID project\<rparr>
                                        rpm budget), s2)))))"

section \<open>Routes and authentication\<close>

datatype admin_op =
    CreatePrompt | ListPrompts | UpdatePrompt string | DeletePrompt string
  | CreateProjectOp | ListProjectsOp | DeleteProjectOp string
  | CreateKey | ListKeys | UpdateKey string | PatchKey string | RevokeKey string | RotateKey string
  | Quickstart | ListRoles
  | CreateUserOp | ListUsersOp | DeleteUserOp string | UpdateRole string

text \<open>The patterns of \<^verbatim>\<open>RegisterRoutes\<close>; \<^verbatim>\<open>{id}\<close> matches one segment that is not empty, and a pattern for GET serves HEAD too.
  The read-only routes for usage, audit logs, guardrails, providers and the dashboard are not among them.\<close>

definition get_method :: "string \<Rightarrow> bool" where
  "get_method m \<longleftrightarrow> m = ''GET'' \<or> m = ''HEAD''"

fun admin_route :: "bool \<Rightarrow> string \<Rightarrow> string list \<Rightarrow> admin_op option" where
  "admin_route rbac m [a, b] =
     (if a \<noteq> ''admin'' then None
      else if b = ''prompts'' then (if m = ''POST'' then Some CreatePrompt else if get_method m then Some ListPrompts else None)
      else if b = ''projects'' then (if m = ''POST'' then Some CreateProjectOp else if get_method m then Some ListProjectsOp else None)
      else if b = ''keys'' then (if m = ''POST'' then Some CreateKey else if get_method m then Some ListKeys else None)
      else if b = ''quickstart'' then (if m = ''POST'' then Some Quickstart else None)
      else if b = ''roles'' then (if get_method m then Some ListRoles else None)
      else if b = ''users'' \<and> rbac then (if m = ''POST'' then Some CreateUserOp else if get_method m then Some ListUsersOp else None)
      else None)"
| "admin_route rbac m [a, b, i] =
     (if a \<noteq> ''admin'' \<or> i = '''' then None
      else if b = ''prompts'' then (if m = ''PUT'' then Some (UpdatePrompt i) else if m = ''DELETE'' then Some (DeletePrompt i) else None)
      else if b = ''projects'' then (if m = ''DELETE'' then Some (DeleteProjectOp i) else None)
      else if b = ''keys'' then (if m = ''PUT'' then Some (UpdateKey i) else if m = ''PATCH'' then Some (PatchKey i)
                                 else if m = ''DELETE'' then Some (RevokeKey i) else None)
      else if b = ''users'' \<and> rbac then (if m = ''DELETE'' then Some (DeleteUserOp i) else None)
      else None)"
| "admin_route rbac m [a, b, i, c] =
     (if a \<noteq> ''admin'' \<or> i = '''' then None
      else if b = ''keys'' \<and> c = ''rotate'' \<and> m = ''POST'' then Some (RotateKey i)
      else if b = ''users'' \<and> c = ''role'' \<and> m = ''PUT'' \<and> rbac then Some (UpdateRole i)
      else None)"
| "admin_route rbac m path = None"

fun run_op :: "Admin_Handler \<Rightarrow> admin_env \<Rightarrow> admin_op \<Rightarrow> admin_request \<Rightarrow> admin_state \<Rightarrow> admin_result" where
  "run_op h env CreatePrompt = createPrompt h env"
| "run_op h env ListPrompts = listPrompts h env"
| "run_op h env (UpdatePrompt i) = updatePrompt h env i"
| "run_op h env (DeletePrompt i) = deletePrompt h env i"
| "run_op h env CreateProjectOp = createProject h env"
| "run_op h env ListProjectsOp = listProjects h env"
| "run_op h env (DeleteProjectOp i) = deleteProject h env i"
| "run_op h env CreateKey = createKey h env"
| "run_op h env ListKeys = listKeys h env"
| "run_op h env (UpdateKey i) = updateKey h env i"
| "run_op h env (PatchKey i) = patchKey h env i"
| "run_op h env (RevokeKey i) = revokeKey h env i"
| "run_op h env (RotateKey i) = rotateKey h env i"
| "run_op h env Quickstart = handleQuickstart h env"
| "run_op h env ListRoles = listRoles h"
| "run_op h env CreateUserOp = createUser h env"
| "run_op h env ListUsersOp = listUsers h env"
| "run_op h env (DeleteUserOp i) = deleteUser h env i"
| "run_op h env (UpdateRole i) = updateUserRole h env i"

text \<open>The mux; a path without a route is answered with 404, one with another method with 405, both here as 404.\<close>

definition admin_mux :: "Admin_Handler \<Rightarrow> admin_env \<Rightarrow> admin_request \<Rightarrow> admin_state \<Rightarrow> admin_result" where
  "admin_mux h env r s =
     (case admin_route (adm_rbacEnabled h) (rq_method r) (rq_path r) of
        None \<Rightarrow> Some ((404, NoBody), s)
      | Some op \<Rightarrow> run_op h env op r s)"

definition BearerAuth ::
  "string \<Rightarrow> OidcProvider option \<Rightarrow> (string \<Rightarrow> string \<Rightarrow> string option) option \<Rightarrow> admin_env
   \<Rightarrow> (admin_request \<Rightarrow> admin_state \<Rightarrow> admin_result) \<Rightarrow> admin_request \<Rightarrow> admin_state \<Rightarrow> admin_result" where
  "BearerAuth token oidcProvider oidcLookup env nxt r s =
     (if token = '''' \<and> Option.is_none oidcProvider then nxt r s
      else if \<not> strings_HasPrefix (rq_auth r) ''Bearer ''
      then Some (writeAdminError r 401 ''unauthorized'' ''missing authorization header'', s)
      else let rawToken = strings_TrimPrefix (rq_auth r) ''Bearer ''
           in case (case oidcProvider of None \<Rightarrow> None | Some p \<Rightarrow> ValidateToken p rawToken oidcLookup) of
                Some oc \<Rightarrow> nxt (r\<lparr>rq_oidc := Some oc\<rparr>) s
              | None \<Rightarrow>
                  if token \<noteq> '''' \<and> rawToken = token then nxt r s
                  else map_option (\<lambda>s'. (writeAdminError r 401 ''unauthorized'' ''invalid or missing admin token'', s'))
                         (record_event env
                            (audit_event ''auth.failure'' (maskToken (rq_auth r)) ''admin_access'' (url_path r) ''denied''
                               (rq_requestID r) [(''remote_addr'', JStr (rq_addr r))]) s))"

text \<open>The admin API as \<^verbatim>\<open>server.New\<close> puts it together. \<open>aq_up 9\<close> tells whether the lookup of the login is answered; a
  request arrives without an identity.\<close>

record admin_server =
  sv_handler :: Admin_Handler
  sv_token :: string
  sv_oidc :: "OidcProvider option"
  sv_defaultRole :: string

definition serve_admin :: "admin_server \<Rightarrow> admin_env \<Rightarrow> admin_request \<Rightarrow> admin_state \<Rightarrow> admin_result" where
  "serve_admin sv env r s =
     BearerAuth (sv_token sv) (sv_oidc sv)
       (if Option.is_none (sv_oidc sv) then None
        else Some (DBLookup (if aq_up env 9 then Some (as_users s) else None) (sv_defaultRole sv)))
       env (admin_mux (sv_handler sv) env) (r\<lparr>rq_oidc := None\<rparr>) s"

section \<open>What a request leaves alone\<close>

definition same_tables :: "admin_state \<Rightarrow> admin_state \<Rightarrow> bool" where
  "same_tables s s' \<longleftrightarrow> as_projects s' = as_projects s \<and> as_keys s' = as_keys s \<and> as_users s' = as_users s
     \<and> as_prompts s' = as_prompts s"

lemma record_event_tables: "record_event env e s = Some s' \<Longrightarrow> same_tables s s'"
  by (auto simp: record_event_def same_tables_def split: option.splits)

lemma audited_tables: "audited env r kind action resource meta s = Some s' \<Longrightarrow> same_tables s s'"
  by (simp add: audited_def record_event_tables)

lemma keys_changed_tables: "same_tables s (keys_changed h s)"
  by (simp add: keys_changed_def same_tables_def)

lemma recordRBACCheck_tables: "same_tables s (recordRBACCheck role action result s)"
  by (simp add: recordRBACCheck_def same_tables_def)

lemma same_tables_refl: "same_tables s s"
  by (simp add: same_tables_def)

lemma same_tables_trans: "same_tables s s' \<Longrightarrow> same_tables s' s'' \<Longrightarrow> same_tables s s''"
  by (simp add: same_tables_def)

definition permitted :: "Admin_Handler \<Rightarrow> admin_request \<Rightarrow> string \<Rightarrow> bool" where
  "permitted h r action \<longleftrightarrow> adm_rbacEnabled h \<longrightarrow> RoleAllowed (ai_Role (actorIdentity r)) action"

text \<open>The guard lets the handler run on the same tables when the role permits the action, and answers 403 without running it when not.\<close>

lemma guarded_cases:
  assumes "guarded h env r action k s = Some (reply, s')"
  obtains (run) s1 where "permitted h r action" and "same_tables s s1" and "k s1 = Some (reply, s')"
  | (denied) "\<not> permitted h r action" and "same_tables s s'" and "fst reply = 403"
proof (cases "permitted h r action")
  case True
  then obtain s1 where "requireRole h env r action s = Some (Inr (actorIdentity r), s1)" "same_tables s s1"
    by (cases "adm_rbacEnabled h")
      (auto simp: requireRole_def permitted_def same_tables_refl Let_def intro: recordRBACCheck_tables)
  with assms True show ?thesis by (intro run) (auto simp: guarded_def)
next
  case False
  then have "adm_rbacEnabled h" and "\<not> RoleAllowed (ai_Role (actorIdentity r)) action" by (auto simp: permitted_def)
  with assms have "fst reply = 403 \<and> same_tables s s'"
    by (auto simp: guarded_def requireRole_def Let_def writeAdminError_def split: option.splits
        intro: same_tables_trans [OF recordRBACCheck_tables record_event_tables])
  with False show ?thesis by (intro denied) auto
qed

text \<open>A logger that takes events: none at all, one without a database, or one whose channel is not closed.\<close>

definition audit_open :: "admin_state \<Rightarrow> bool" where
  "audit_open s = (case as_audit s of None \<Rightarrow> True | Some l \<Rightarrow> lg_db l = None \<or> \<not> lg_closed l)"

lemma audit_open_update [simp]:
  "audit_open (s\<lparr>as_projects := ps\<rparr>) = audit_open s" "audit_open (s\<lparr>as_keys := ks\<rparr>) = audit_open s"
  "audit_open (s\<lparr>as_users := us\<rparr>) = audit_open s" "audit_open (s\<lparr>as_prompts := qs\<rparr>) = audit_open s"
  "audit_open (keys_changed h s) = audit_open s" "audit_open (recordRBACCheck role action result s) = audit_open s"
  by (simp_all add: audit_open_def keys_changed_def recordRBACCheck_def)

lemma record_event_total: "audit_open s \<Longrightarrow> \<exists>s'. record_event env e s = Some s' \<and> audit_open s'"
  by (auto simp: record_event_def audit_open_def Logger_Record_def split: option.splits)

text \<open>The handler answers, and the state it leaves satisfies a condition and still takes audit events.\<close>

definition yields :: "(admin_state \<Rightarrow> bool) \<Rightarrow> admin_result \<Rightarrow> bool" where
  "yields P res \<longleftrightarrow> (\<exists>reply s'. res = Some (reply, s') \<and> P s' \<and> audit_open s')"

lemma yieldsD: "yields P res \<Longrightarrow> res = Some (reply, s') \<Longrightarrow> P s'"
  by (auto simp: yields_def)

text \<open>A condition on the tables alone. What a handler does around its statements (the role check, the audit event, the
  notification) cannot break it, so for each handler only the statements matter.\<close>

locale table_condition =
  fixes inv :: "admin_state \<Rightarrow> bool"
  assumes frame: "same_tables s s' \<Longrightarrow> inv s \<Longrightarrow> inv s'"
begin

lemma yields_answer: "inv s \<Longrightarrow> audit_open s \<Longrightarrow> yields inv (Some (reply, s))"
  by (simp add: yields_def)

lemma audited_step:
  assumes "inv s" and "audit_open s"
  obtains s' where "audited env r kind action resource meta s = Some s'" and "inv s'" and "audit_open s'"
  using record_event_total [OF assms(2)] frame [OF record_event_tables assms(1)] unfolding audited_def by blast

lemma yields_audited:
  assumes "inv s" and "audit_open s"
  shows "yields inv (map_option (\<lambda>s'. (reply, s')) (audited env r kind action resource meta s))"
  by (rule audited_step [OF assms, of env r kind action resource meta]) (cases reply, simp add: yields_def)

lemma yields_notified:
  assumes "inv s" and "audit_open s"
  shows "yields inv (map_option (\<lambda>s'. (reply, keys_changed h s')) (audited env r kind action resource meta s))"
  by (rule audited_step [OF assms, of env r kind action resource meta])
    (cases reply, auto simp: yields_def frame [OF keys_changed_tables])

lemma yields_guarded:
  assumes "inv s" and "audit_open s" and "\<And>s1. permitted h r action \<Longrightarrow> inv s1 \<Longrightarrow> audit_open s1 \<Longrightarrow> yields inv (k s1)"
  shows "yields inv (guarded h env r action k s)"
proof (cases "permitted h r action")
  case True
  then obtain s1 where "requireRole h env r action s = Some (Inr (actorIdentity r), s1)" and "same_tables s s1" and "audit_open s1"
    using assms(2) by (cases "adm_rbacEnabled h")
      (auto simp: requireRole_def permitted_def same_tables_refl Let_def intro: recordRBACCheck_tables)
  with assms(3) [OF True frame [OF _ assms(1)]] show ?thesis by (simp add: guarded_def)
next
  case False
  let ?s = "recordRBACCheck (ai_Role (actorIdentity r)) action ''deny'' s"
  have "audit_open ?s" using assms(2) by simp
  then obtain s' where s': "record_event env (audit_event ''authorization.denied'' (ai_Email (actorIdentity r)) action (url_path r)
      ''denied'' (rq_requestID r) [(''role'', JStr (ai_Role (actorIdentity r))), (''source'', JStr (ai_Source (actorIdentity r)))]) ?s
      = Some s'" "audit_open s'"
    using record_event_total by blast
  with frame [OF record_event_tables [OF s'(1)] frame [OF recordRBACCheck_tables assms(1)]] False
  show ?thesis by (auto simp: guarded_def requireRole_def permitted_def yields_def Let_def)
qed

lemmas yields_rules = yields_answer yields_audited yields_notified

end

definition project_rows :: "Project list \<Rightarrow> bool" where
  "project_rows ps \<longleftrightarrow> distinct (map pj_ID ps) \<and> distinct (map pj_Name ps)"

definition key_rows :: "Project list \<Rightarrow> VirtualKey list \<Rightarrow> bool" where
  "key_rows ps ks \<longleftrightarrow> distinct (map vk_ID ks) \<and> distinct (map vk_KeyHash ks)
     \<and> distinct (filter (\<lambda>n. n \<noteq> '''') (map vk_MCPToolName ks)) \<and> vk_ProjectID ` set ks \<subseteq> pj_ID ` set ps"

definition user_rows :: "user_row list \<Rightarrow> bool" where
  "user_rows us \<longleftrightarrow> distinct (map us_id us) \<and> distinct (List.map_filter us_subject us) \<and> list_all (\<lambda>u. ValidateRole (us_role u)) us"

definition prompt_rows :: "PromptTemplate list \<Rightarrow> bool" where
  "prompt_rows qs \<longleftrightarrow> distinct (map pt_ID qs) \<and> distinct (map pt_Name qs)"

definition tables_ok :: "admin_state \<Rightarrow> bool" where
  "tables_ok s \<longleftrightarrow> project_rows (as_projects s) \<and> key_rows (as_projects s) (as_keys s) \<and> user_rows (as_users s)
     \<and> prompt_rows (as_prompts s)"

interpretation constraints: table_condition tables_ok
  by unfold_locales (simp add: tables_ok_def same_tables_def)

interpretation untouched: table_condition "same_tables s0" for s0
  by unfold_locales (rule same_tables_trans)

section \<open>The statements keep the constraints\<close>

lemma project_rows_Create:
  "project_rows ps \<Longrightarrow> CreateProject newID now name ps = (Inr p, ps') \<Longrightarrow> project_rows ps' \<and> set ps \<subseteq> set ps' \<and> p \<in> set ps'"
  by (auto simp: CreateProject_def project_rows_def list_ex_iff Let_def split: if_splits)

lemma key_rows_more: "key_rows ps ks \<Longrightarrow> set ps \<subseteq> set ps' \<Longrightarrow> key_rows ps' ks"
  unfolding key_rows_def using image_mono [of "set ps" "set ps'" pj_ID] by blast

lemma project_rows_Delete:
  assumes "project_rows ps" and "key_rows ps ks" and "DeleteProject i (ps, ks) = (d, ps', ks')"
  shows "project_rows ps' \<and> key_rows ps' ks'"
proof -
  have "distinct (filter Q (map vk_MCPToolName (filter P ks)))" if "distinct (filter Q (map vk_MCPToolName ks))" for P Q
    using that by (induction ks) (auto simp: filter_map image_iff)
  with assms show ?thesis
    by (auto simp: DeleteProject_def project_rows_def key_rows_def distinct_map_filter list_ex_iff split: if_splits) force+
qed

lemma key_rows_Create:
  assumes "key_rows (as_projects s) (as_keys s)" and "insert_key env n vk s = Some s'"
  shows "key_rows (as_projects s') (as_keys s') \<and> as_projects s' = as_projects s \<and> as_users s' = as_users s
    \<and> as_prompts s' = as_prompts s"
proof -
  from assms(2) have n: "\<not> key_conflict (aq_newID env n) vk s"
    and s': "s' = s\<lparr>as_keys := CreateVirtualKey (aq_pg env) (aq_newID env n) (aq_now env) vk (as_keys s)\<rparr>"
    by (auto simp: insert_key_def split: if_splits)
  from n assms(1) show ?thesis
    by (auto simp: s' key_conflict_def key_rows_def CreateVirtualKey_def list_ex_iff image_iff) metis+
qed

lemma map_kept: "(\<And>x. x \<in> set xs \<Longrightarrow> g (f x) = g x) \<Longrightarrow> map g (map f xs) = map g xs"
  by simp

lemma key_rows_map:
  assumes "key_rows ps ks" and same: "\<And>k. k \<in> set ks \<Longrightarrow> vk_ID (f k) = vk_ID k \<and> vk_KeyHash (f k) = vk_KeyHash k
    \<and> vk_MCPToolName (f k) = vk_MCPToolName k \<and> vk_ProjectID (f k) = vk_ProjectID k"
  shows "key_rows ps (map f ks)"
proof -
  from same have "map vk_ID (map f ks) = map vk_ID ks" "map vk_KeyHash (map f ks) = map vk_KeyHash ks"
    "map vk_MCPToolName (map f ks) = map vk_MCPToolName ks" by (blast intro: map_kept)+
  moreover from same have "vk_ProjectID ` set (map f ks) = vk_ProjectID ` set ks" by (auto simp: image_iff)
  ultimately show ?thesis using assms(1) unfolding key_rows_def by metis
qed

lemma key_rows_Revoke: "key_rows ps ks \<Longrightarrow> key_rows ps (snd (RevokeVirtualKey now i ks))"
  unfolding RevokeVirtualKey_def snd_conv by (erule key_rows_map) simp

text \<open>Setting a column leaves the others alone.\<close>

definition columns_apart :: "admin_env \<Rightarrow> bool" where
  "columns_apart env \<longleftrightarrow> (\<forall>f v k k'. f \<in> set UpdatableVirtualKeyFields \<and> aq_set_column env f v k = Some k' \<longrightarrow>
     vk_ID k' = vk_ID k \<and> vk_ProjectID k' = vk_ProjectID k \<and> vk_KeyPrefix k' = vk_KeyPrefix k \<and> vk_KeyHash k' = vk_KeyHash k
     \<and> vk_RevokedAt k' = vk_RevokedAt k \<and> vk_MCPToolName k' = vk_MCPToolName k)"

lemma set_columns_apart:
  assumes "columns_apart env"
  shows "fst ` set sets \<subseteq> set UpdatableVirtualKeyFields \<Longrightarrow> set_columns (aq_set_column env) sets k = Some k' \<Longrightarrow>
    vk_ID k' = vk_ID k \<and> vk_ProjectID k' = vk_ProjectID k \<and> vk_KeyHash k' = vk_KeyHash k \<and> vk_MCPToolName k' = vk_MCPToolName k"
proof (induction sets arbitrary: k)
  case (Cons x sets)
  obtain f v where x: "x = (f, v)" by (cases x)
  with Cons.prems obtain k1 where k1: "aq_set_column env f v k = Some k1" "set_columns (aq_set_column env) sets k1 = Some k'"
    by (auto split: option.splits)
  with Cons.IH [of k1] Cons.prems(1) x assms show ?case unfolding columns_apart_def by force
qed simp

lemma set_clauses_fields: "fst ` set (set_clauses fmt_v updates) \<subseteq> set UpdatableVirtualKeyFields"
  by (auto simp: set_clauses_def List.map_filter_def)

lemma key_rows_Update:
  assumes "columns_apart env" and "key_rows ps ks"
    and "UpdateVirtualKey (aq_fmt_v env) (aq_set_column env) i body ks = (Inr u, ks')"
  shows "key_rows ps ks'"
proof -
  let ?sets = "set_clauses (aq_fmt_v env) body" and ?set = "set_columns (aq_set_column env)"
  have ks': "ks' = ks \<or> ks' = map (\<lambda>k. if vk_ID k = i then the (?set ?sets k) else k) ks
      \<and> (\<forall>k \<in> set ks. vk_ID k = i \<longrightarrow> ?set ?sets k \<noteq> None)"
    using assms(3) unfolding UpdateVirtualKey_def Let_def list_ex_iff
    by (cases "negative_budget body"; cases "?sets = []"; cases "\<exists>x \<in> set (filter (\<lambda>k. vk_ID k = i) ks). ?set ?sets x = None") (auto split: if_splits)
  have changed: "key_rows ps (map (\<lambda>k. if vk_ID k = i then the (?set ?sets k) else k) ks)"
    if set: "\<forall>k \<in> set ks. vk_ID k = i \<longrightarrow> ?set ?sets k \<noteq> None"
  proof (rule key_rows_map [OF assms(2)])
    fix k assume k: "k \<in> set ks"
    let ?k = "if vk_ID k = i then the (?set ?sets k) else k"
    show "vk_ID ?k = vk_ID k \<and> vk_KeyHash ?k = vk_KeyHash k \<and> vk_MCPToolName ?k = vk_MCPToolName k
        \<and> vk_ProjectID ?k = vk_ProjectID k"
    proof (cases "vk_ID k = i")
      case True
      with k set obtain k' where "?set ?sets k = Some k'" by auto
      with set_columns_apart [OF assms(1) set_clauses_fields this] True show ?thesis by simp
    qed simp
  qed
  from ks' show ?thesis
  proof (elim disjE conjE)
    assume "ks' = ks"
    with assms(2) show ?thesis by simp
  qed (simp only: changed)
qed

lemma distinct_map_update:
  assumes "distinct (map g xs)" and "distinct (map h xs)" and "\<forall>x \<in> set xs. h x \<noteq> i \<longrightarrow> g x \<noteq> v"
    and "\<And>x. g (f x) = (if h x = i \<and> P x then v else g x)"
  shows "distinct (map g (map f xs))"
  using assms
proof (induction xs)
  case (Cons a xs)
  have "g (f a) \<noteq> g (f x)" if "x \<in> set xs" for x
  proof -
    from Cons.prems(1-3) that have "g a \<noteq> g x" and "h a \<noteq> h x" and "h x \<noteq> i \<Longrightarrow> g x \<noteq> v" and "h a \<noteq> i \<Longrightarrow> g a \<noteq> v" by auto
    then show ?thesis using Cons.prems(4) [of a] Cons.prems(4) [of x] by auto
  qed
  moreover from Cons have "distinct (map g (map f xs))" by (intro Cons.IH) auto
  ultimately show ?case by auto
qed simp

lemma key_rows_rotate:
  assumes ok: "key_rows ps ks" and run: "rotate_key env i rawKey hash ks = (res, ks')"
  shows "key_rows ps ks'"
proof (cases "ks' = ks")
  case False
  let ?f = "\<lambda>k. if vk_ID k = i \<and> vk_RevokedAt k = None then k\<lparr>vk_KeyHash := hash, vk_KeyPrefix := key_prefix_of rawKey\<rparr> else k"
  from False run have ks': "ks' = map ?f ks" and free: "\<forall>k \<in> set ks. vk_ID k \<noteq> i \<longrightarrow> vk_KeyHash k \<noteq> hash"
    by (auto simp: rotate_key_def RotateVirtualKey_def Let_def list_ex_iff split: option.splits if_splits)
  from ok free have "distinct (map vk_KeyHash (map ?f ks))"
    by (intro distinct_map_update [where h = vk_ID and P = "\<lambda>k. vk_RevokedAt k = None" and i = i and v = hash])
      (auto simp: key_rows_def)
  moreover have "map vk_ID (map ?f ks) = map vk_ID ks" "map vk_MCPToolName (map ?f ks) = map vk_MCPToolName ks"
    by (rule map_kept, simp)+
  moreover have "map vk_ProjectID (map ?f ks) = map vk_ProjectID ks" by (rule map_kept) simp
  then have "vk_ProjectID ` set (map ?f ks) = vk_ProjectID ` set ks" unfolding set_map [symmetric] by (rule arg_cong)
  ultimately show ?thesis using ok unfolding ks' key_rows_def by metis
qed (use ok in simp)

lemma user_rows_Create:
  assumes "user_rows us" and "ValidateRole role" and "CreateUser newID now subject email role us = (Inr u, us')"
  shows "user_rows us'"
proof -
  from assms(3) have free: "\<forall>r \<in> set us. us_id r \<noteq> newID \<and> (subject \<noteq> '''' \<longrightarrow> us_subject r \<noteq> Some subject)"
    and us': "us' = us @ [\<lparr>us_id = newID, us_subject = nullIfEmpty subject, us_email = nullIfEmpty email, us_role = role,
                      us_created_at = now, us_deleted_at = None\<rparr>]"
    by (auto simp: CreateUser_def list_ex_iff split: if_splits)
  from free have "subject \<noteq> '''' \<Longrightarrow> subject \<notin> set (List.map_filter us_subject us)"
    by (auto simp: List.map_filter_def)
  with assms(1,2) free show ?thesis
    by (auto simp: us' user_rows_def nullIfEmpty_def List.map_filter_def)
qed

lemma user_rows_map:
  assumes "user_rows us" and same: "\<And>u. u \<in> set us \<Longrightarrow> us_id (f u) = us_id u \<and> us_subject (f u) = us_subject u \<and> ValidateRole (us_role (f u))"
  shows "user_rows (map f us)"
proof -
  have "map us_id (map f us) = map us_id us" by (rule map_kept) (simp add: same)
  moreover have "List.map_filter us_subject (map f us) = List.map_filter us_subject us"
    using same by (induction us) (auto simp: map_filter_simps split: option.splits)
  ultimately show ?thesis using assms unfolding user_rows_def by (simp add: list_all_iff del: map_map)
qed

lemma user_rows_UpdateRole:
  "user_rows us \<Longrightarrow> ValidateRole role \<Longrightarrow> UpdateUserRole i role us = (res, us') \<Longrightarrow> user_rows us'"
  unfolding UpdateUserRole_def Let_def
  by (clarsimp, rule user_rows_map) (auto simp: user_rows_def list_all_iff)

lemma user_rows_SoftDelete: "user_rows us \<Longrightarrow> SoftDeleteUser now i us = (res, us') \<Longrightarrow> user_rows us'"
  unfolding SoftDeleteUser_def Let_def
  by (clarsimp, rule user_rows_map) (auto simp: user_rows_def list_all_iff)

lemma prompt_rows_Create:
  "prompt_rows qs \<Longrightarrow> CreatePromptTemplate freshID now pt qs = (Inr p, qs') \<Longrightarrow> prompt_rows qs'"
  by (auto simp: CreatePromptTemplate_def prompt_rows_def Let_def list_ex_iff split: if_splits) metis+

lemma prompt_rows_Update:
  assumes "prompt_rows qs" and "UpdatePromptTemplate now pt qs = (Inr p, qs')"
  shows "prompt_rows qs'"
proof -
  let ?f = "\<lambda>q. if pt_ID q = pt_ID pt then q\<lparr>pt_Name := pt_Name pt, pt_Content := pt_Content pt,
      pt_Description := pt_Description pt, pt_UpdatedAt := now\<rparr> else q"
  from assms(2) have qs': "qs' = map ?f qs" and free: "\<forall>q \<in> set qs. pt_ID q \<noteq> pt_ID pt \<longrightarrow> pt_Name q \<noteq> pt_Name pt"
    by (auto simp: UpdatePromptTemplate_def Let_def list_ex_iff split: if_splits)
  from assms(1) free have "distinct (map pt_Name (map ?f qs))"
    by (intro distinct_map_update [where h = pt_ID and P = "\<lambda>_. True" and i = "pt_ID pt" and v = "pt_Name pt"])
      (auto simp: prompt_rows_def)
  moreover have "map pt_ID (map ?f qs) = map pt_ID qs" by (rule map_kept) simp
  ultimately show ?thesis using assms(1) unfolding qs' prompt_rows_def by metis
qed

lemma prompt_rows_Delete: "prompt_rows qs \<Longrightarrow> DeletePromptTemplate i qs = (d, qs') \<Longrightarrow> prompt_rows qs'"
  by (auto simp: DeletePromptTemplate_def prompt_rows_def distinct_map_filter)

section \<open>The handlers keep the constraints\<close>

lemma tables_ok_projects:
  "tables_ok s \<Longrightarrow> project_rows ps \<Longrightarrow> set (as_projects s) \<subseteq> set ps \<Longrightarrow> tables_ok (s\<lparr>as_projects := ps\<rparr>)"
  by (auto simp: tables_ok_def intro: key_rows_more)

lemma tables_ok_keys: "tables_ok s \<Longrightarrow> key_rows (as_projects s) ks \<Longrightarrow> tables_ok (s\<lparr>as_keys := ks\<rparr>)"
  by (simp add: tables_ok_def)

lemma tables_ok_users: "tables_ok s \<Longrightarrow> user_rows us \<Longrightarrow> tables_ok (s\<lparr>as_users := us\<rparr>)"
  by (simp add: tables_ok_def)

lemma tables_ok_prompts: "tables_ok s \<Longrightarrow> prompt_rows qs \<Longrightarrow> tables_ok (s\<lparr>as_prompts := qs\<rparr>)"
  by (simp add: tables_ok_def)

lemma tables_ok_rows:
  assumes "tables_ok s"
  shows "project_rows (as_projects s)" and "key_rows (as_projects s) (as_keys s)" and "user_rows (as_users s)"
    and "prompt_rows (as_prompts s)"
  using assms by (simp_all add: tables_ok_def)

lemma tables_ok_insert_key: "tables_ok s \<Longrightarrow> insert_key env n vk s = Some s' \<Longrightarrow> tables_ok s'"
  using key_rows_Create [of s env n vk s'] unfolding tables_ok_def by metis

lemma tables_ok_delete:
  "tables_ok s \<Longrightarrow> DeleteProject i (as_projects s, as_keys s) = (d, ps, ks) \<Longrightarrow> tables_ok (s\<lparr>as_projects := ps, as_keys := ks\<rparr>)"
  using project_rows_Delete [of "as_projects s" "as_keys s" i d ps ks] by (simp add: tables_ok_def)


lemmas op_splits = option.split sum.split prod.split if_split

lemma insert_key_audit: "insert_key env n vk s = Some s' \<Longrightarrow> audit_open s' = audit_open s"
  by (auto simp: insert_key_def split: if_splits)

lemma createProject_ok: "tables_ok s \<Longrightarrow> audit_open s \<Longrightarrow> yields tables_ok (createProject h env r s)"
  unfolding createProject_def
  by (erule constraints.yields_guarded, assumption)
    (auto split: op_splits intro!: constraints.yields_rules tables_ok_projects dest: project_rows_Create [OF tables_ok_rows(1)])

lemma deleteProject_ok: "tables_ok s \<Longrightarrow> audit_open s \<Longrightarrow> yields tables_ok (deleteProject h env i r s)"
  unfolding deleteProject_def
  by (erule constraints.yields_guarded, assumption)
    (auto split: op_splits intro!: constraints.yields_rules intro: tables_ok_delete)

lemma createKey_ok: "tables_ok s \<Longrightarrow> audit_open s \<Longrightarrow> yields tables_ok (createKey h env r s)"
  unfolding createKey_def Let_def
  by (erule constraints.yields_guarded, assumption)
    (auto split: op_splits intro!: constraints.yields_rules dest: tables_ok_insert_key insert_key_audit)

lemma revokeKey_ok: "tables_ok s \<Longrightarrow> audit_open s \<Longrightarrow> yields tables_ok (revokeKey h env i r s)"
  unfolding revokeKey_def
  by (erule constraints.yields_guarded, assumption)
    (auto split: op_splits intro!: constraints.yields_rules tables_ok_keys
      dest: tables_ok_rows(2) [THEN key_rows_Revoke, of _ "aq_now env" i])

lemma change_key_ok: "columns_apart env \<Longrightarrow> tables_ok s \<Longrightarrow> audit_open s \<Longrightarrow> yields tables_ok (change_key h env action i r s)"
  unfolding change_key_def Let_def
  by (rule constraints.yields_guarded, assumption, assumption)
    (auto split: op_splits intro!: constraints.yields_rules tables_ok_keys dest: key_rows_Update [OF _ tables_ok_rows(2)])

lemma rotateKey_ok: "tables_ok s \<Longrightarrow> audit_open s \<Longrightarrow> yields tables_ok (rotateKey h env i r s)"
  unfolding rotateKey_def
  by (erule constraints.yields_guarded, assumption)
    (auto split: op_splits intro!: constraints.yields_rules tables_ok_keys dest: key_rows_rotate [OF tables_ok_rows(2)])

lemma createUser_ok: "tables_ok s \<Longrightarrow> audit_open s \<Longrightarrow> yields tables_ok (createUser h env r s)"
  unfolding createUser_def Let_def
  by (auto split: op_splits intro!: constraints.yields_rules tables_ok_users dest: user_rows_Create [OF tables_ok_rows(3)])

lemma deleteUser_ok: "tables_ok s \<Longrightarrow> audit_open s \<Longrightarrow> yields tables_ok (deleteUser h env i r s)"
  unfolding deleteUser_def
  by (auto split: op_splits intro!: constraints.yields_rules tables_ok_users dest: user_rows_SoftDelete [OF tables_ok_rows(3)])

lemma updateUserRole_ok: "tables_ok s \<Longrightarrow> audit_open s \<Longrightarrow> yields tables_ok (updateUserRole h env i r s)"
  unfolding updateUserRole_def
  by (auto split: op_splits intro!: constraints.yields_rules tables_ok_users dest: user_rows_UpdateRole [OF tables_ok_rows(3)])

lemma createPrompt_ok: "tables_ok s \<Longrightarrow> audit_open s \<Longrightarrow> yields tables_ok (createPrompt h env r s)"
  unfolding createPrompt_def
  by (erule constraints.yields_guarded, assumption)
    (auto split: op_splits intro!: constraints.yields_rules tables_ok_prompts dest: prompt_rows_Create [OF tables_ok_rows(4)])

lemma updatePrompt_ok: "tables_ok s \<Longrightarrow> audit_open s \<Longrightarrow> yields tables_ok (updatePrompt h env i r s)"
  unfolding updatePrompt_def
  by (erule constraints.yields_guarded, assumption)
    (auto split: op_splits intro!: constraints.yields_rules tables_ok_prompts dest: prompt_rows_Update [OF tables_ok_rows(4)])

lemma deletePrompt_ok: "tables_ok s \<Longrightarrow> audit_open s \<Longrightarrow> yields tables_ok (deletePrompt h env i r s)"
  unfolding deletePrompt_def
  by (erule constraints.yields_guarded, assumption)
    (auto split: op_splits intro!: constraints.yields_rules tables_ok_prompts dest: prompt_rows_Delete [OF tables_ok_rows(4)])

lemma quickstart_project_ok:
  assumes "tables_ok s" and "audit_open s" and "quickstart_project env s = Some (p, s')"
  shows "tables_ok s'" and "audit_open s'"
  using assms unfolding quickstart_project_def Let_def
  by (auto split: option.splits sum.splits prod.splits if_splits intro!: tables_ok_projects
      dest: project_rows_Create [OF tables_ok_rows(1)])

lemma handleQuickstart_ok: "tables_ok s \<Longrightarrow> audit_open s \<Longrightarrow> yields tables_ok (handleQuickstart h env r s)"
  unfolding handleQuickstart_def Let_def
  by (erule constraints.yields_guarded, assumption)
    (auto split: op_splits intro!: constraints.yields_rules intro: quickstart_project_ok tables_ok_insert_key [OF quickstart_project_ok(1)] insert_key_audit [THEN iffD2, OF _ quickstart_project_ok(2)])

lemma reads_ok:
  "tables_ok s \<Longrightarrow> audit_open s \<Longrightarrow> yields tables_ok (listProjects h env r s)" "tables_ok s \<Longrightarrow> audit_open s \<Longrightarrow> yields tables_ok (listKeys h env r s)"
  "tables_ok s \<Longrightarrow> audit_open s \<Longrightarrow> yields tables_ok (listPrompts h env r s)" "tables_ok s \<Longrightarrow> audit_open s \<Longrightarrow> yields tables_ok (listUsers h env r s)"
  "tables_ok s \<Longrightarrow> audit_open s \<Longrightarrow> yields tables_ok (listRoles h r s)"
  unfolding listProjects_def listKeys_def listPrompts_def listUsers_def listRoles_def Let_def
  by (auto split: op_splits intro!: constraints.yields_rules constraints.yields_guarded)

lemma run_op_ok: "columns_apart env \<Longrightarrow> tables_ok s \<Longrightarrow> audit_open s \<Longrightarrow> yields tables_ok (run_op h env op r s)"
  by (cases op) (simp_all add: createProject_ok deleteProject_ok createKey_ok revokeKey_ok change_key_ok rotateKey_ok createUser_ok
      deleteUser_ok updateUserRole_ok createPrompt_ok updatePrompt_ok deletePrompt_ok handleQuickstart_ok reads_ok updateKey_def patchKey_def)

section \<open>Runs of the admin API\<close>

text \<open>Whom the middleware takes a request to come from: nobody, an OpenID login, or the holder of the static token.\<close>

definition login :: "admin_server \<Rightarrow> admin_env \<Rightarrow> admin_request \<Rightarrow> admin_state \<Rightarrow> OidcContext option option" where
  "login sv env r s =
     (if sv_token sv = '''' \<and> Option.is_none (sv_oidc sv) then Some None
      else if \<not> strings_HasPrefix (rq_auth r) ''Bearer '' then None
      else let rawToken = strings_TrimPrefix (rq_auth r) ''Bearer ''
           in case (case sv_oidc sv of None \<Rightarrow> None
                    | Some p \<Rightarrow> ValidateToken p rawToken
                        (Some (DBLookup (if aq_up env 9 then Some (as_users s) else None) (sv_defaultRole sv)))) of
                Some oc \<Rightarrow> Some (Some oc)
              | None \<Rightarrow> if sv_token sv \<noteq> '''' \<and> rawToken = sv_token sv then Some None else None)"

lemma serve_admin_login:
  "login sv env r s = Some who \<Longrightarrow> serve_admin sv env r s = admin_mux (sv_handler sv) env (r\<lparr>rq_oidc := who\<rparr>) s"
  by (auto simp: login_def serve_admin_def BearerAuth_def Let_def split: if_splits option.splits)

lemma serve_admin_rejects:
  assumes "login sv env r s = None" and "audit_open s"
  shows "\<exists>body s'. serve_admin sv env r s = Some ((401, body), s') \<and> same_tables s s' \<and> audit_open s'"
proof (cases "strings_HasPrefix (rq_auth r) ''Bearer ''")
  case True
  let ?e = "audit_event ''auth.failure'' (maskToken (rq_auth r)) ''admin_access'' (url_path r) ''denied''
      (rq_requestID r) [(''remote_addr'', JStr (rq_addr r))]"
  from record_event_total [OF assms(2), of env ?e] obtain s' where s': "record_event env ?e s = Some s'" "audit_open s'" by blast
  have "url_path (r\<lparr>rq_oidc := None\<rparr>) = url_path r" by (simp add: url_path_def)
  with assms(1) True s' record_event_tables [OF s'(1)] show ?thesis
    by (auto simp: login_def serve_admin_def BearerAuth_def writeAdminError_def Let_def split: if_splits option.splits)
next
  case False
  with assms show ?thesis
    by (auto simp: login_def serve_admin_def BearerAuth_def writeAdminError_def same_tables_refl split: if_splits)
qed

fun run_admin :: "admin_server \<Rightarrow> (admin_env \<times> admin_request) list \<Rightarrow> admin_state \<Rightarrow> admin_state option" where
  "run_admin sv [] s = Some s"
| "run_admin sv ((env, r) # rs) s =
     (case serve_admin sv env r s of None \<Rightarrow> None | Some (reply, s') \<Rightarrow> run_admin sv rs s')"

lemma serve_admin_ok:
  assumes "columns_apart env" and "tables_ok s" and "audit_open s"
  shows "yields tables_ok (serve_admin sv env r s)"
proof (cases "login sv env r s")
  case None
  from serve_admin_rejects [OF None assms(3)] constraints.frame assms(2) show ?thesis by (fastforce simp: yields_def)
next
  case (Some who)
  then show ?thesis using run_op_ok [OF assms] constraints.yields_answer [OF assms(2,3)]
    by (simp add: serve_admin_login admin_mux_def split: option.split)
qed

text \<open>C20. The admin API never breaks the database: from tables that satisfy their constraints, any sequence of requests, by anyone, with
  any failures of the database in between, is answered without a panic (while the audit log is open), and afterwards
  the identifiers, names, hashes, subjects and tool names that must be unique still are, every key belongs to
  a project that exists and every user has one of the three roles.\<close>

theorem admin_keeps_constraints:
  assumes "\<forall>env \<in> fst ` set rs. columns_apart env" and "tables_ok s" and "audit_open s"
  shows "\<exists>s'. run_admin sv rs s = Some s' \<and> tables_ok s' \<and> audit_open s'"
  using assms
proof (induction rs arbitrary: s)
  case (Cons x rs)
  obtain env r where x: "x = (env, r)" by (cases x)
  with Cons.prems have "yields tables_ok (serve_admin sv env r s)" by (intro serve_admin_ok) auto
  then obtain reply s1 where "serve_admin sv env r s = Some (reply, s1)" and "tables_ok s1" and "audit_open s1"
    by (auto simp: yields_def)
  with Cons.IH [of s1] Cons.prems(1) x show ?case by simp
qed simp

section \<open>Who may change what\<close>

text \<open>The action a route asks the role for; the routes for users and roles ask for none.\<close>

fun op_action :: "admin_op \<Rightarrow> string option" where
  "op_action CreatePrompt = Some ''prompt:create''"
| "op_action ListPrompts = Some ''prompt:list''"
| "op_action (UpdatePrompt i) = Some ''prompt:update''"
| "op_action (DeletePrompt i) = Some ''prompt:delete''"
| "op_action CreateProjectOp = Some ''project:create''"
| "op_action ListProjectsOp = Some ''project:list''"
| "op_action (DeleteProjectOp i) = Some ''project:delete''"
| "op_action CreateKey = Some ''key:create''"
| "op_action ListKeys = Some ''key:list''"
| "op_action (UpdateKey i) = Some ''key:update''"
| "op_action (PatchKey i) = Some ''key:update''"
| "op_action (RevokeKey i) = Some ''key:revoke''"
| "op_action (RotateKey i) = Some ''key:update''"
| "op_action Quickstart = Some ''key:create''"
| "op_action _ = None"

lemma guarded_denies:
  assumes "\<not> permitted h r action" and "guarded h env r action k s = Some (reply, s')"
  shows "fst reply = 403 \<and> same_tables s s'"
  using assms(2)
proof (cases rule: guarded_cases)
  case (run s1)
  with assms(1) show ?thesis by simp
qed simp

lemmas guarded_handlers = createPrompt_def listPrompts_def updatePrompt_def deletePrompt_def createProject_def listProjects_def
  deleteProject_def createKey_def listKeys_def updateKey_def patchKey_def change_key_def revokeKey_def rotateKey_def
  handleQuickstart_def

lemma run_op_denies:
  assumes "op_action op = Some action" and "\<not> permitted h r action" and "run_op h env op r s = Some (reply, s')"
  shows "fst reply = 403 \<and> same_tables s s'"
  using assms by (cases op) (auto simp: guarded_handlers dest: guarded_denies)

text \<open>The user routes touch the table of users only.\<close>

definition same_resources :: "admin_state \<Rightarrow> admin_state \<Rightarrow> bool" where
  "same_resources s s' \<longleftrightarrow> as_projects s' = as_projects s \<and> as_keys s' = as_keys s \<and> as_prompts s' = as_prompts s"

interpretation resources: table_condition "same_resources s0" for s0
  by unfold_locales (simp add: same_resources_def same_tables_def)

lemma same_tables_resources: "same_tables s s' \<Longrightarrow> same_resources s s'"
  by (simp add: same_resources_def same_tables_def)

lemma user_op_resources:
  assumes "op_action op = None" and "audit_open s"
  shows "yields (same_resources s) (run_op h env op r s)"
  using assms
  by (cases op) (auto simp: createUser_def deleteUser_def updateUserRole_def listUsers_def listRoles_def Let_def same_resources_def
      split: op_splits intro!: resources.yields_rules)


section \<open>The life of a key\<close>

lemma created_key_row:
  assumes "createKey h env r s = Some ((201, KeyBody kr), s')"
  shows "\<exists>hash row. aq_hash env (kr_Key kr) = Some hash \<and> as_keys s' = as_keys s @ [row] \<and> vk_ID row = kr_ID kr
    \<and> vk_KeyPrefix row = key_prefix_of (kr_Key kr) \<and> vk_KeyHash row = hash \<and> vk_RevokedAt row = None \<and> vk_ExpiresAt row = None
    \<and> vk_Name row = kr_Name kr \<and> vk_ProjectID row = kr_ProjectID kr \<and> 0 \<le> vk_BudgetLimitUSD row"
  using assms unfolding createKey_def
proof (cases rule: guarded_cases)
  case (run s1)
  then show ?thesis
    by (auto simp: Let_def insert_key_def CreateVirtualKey_def new_key_def same_tables_def writeAdminError_def key_prefix_of_def
        keys_changed_def not_less split: option.splits if_splits dest!: audited_tables)
qed simp

lemma lookup_unique:
  assumes "k \<in> set table" and "key_matches cmp now token k" and "\<forall>k' \<in> set table. cmp (vk_KeyHash k') token \<longrightarrow> k' = k"
  shows "LookupVirtualKeyByToken cmp now (Some table) token = Inr k"
proof -
  from Lookup_complete [OF assms(1,2)] obtain k' where k': "LookupVirtualKeyByToken cmp now (Some table) token = Inr k'" by blast
  with Lookup_sound [OF k'] assms(3) show ?thesis by (auto simp: key_matches_def)
qed


section \<open>What access control does not do\<close>

text \<open>No role has the permissions that updating and rotating a key and every operation on prompts ask for, so with roles enabled
  these routes answer 403 to everybody, admins and the holder of the static token included.\<close>

definition missing_permissions :: "string list" where
  "missing_permissions = [''key:update'', ''prompt:create'', ''prompt:list'', ''prompt:update'', ''prompt:delete'']"

lemma missing_permission_denied: "action \<in> set missing_permissions \<Longrightarrow> \<not> RoleAllowed role action"
  by (auto simp: RoleAllowed_def role_defs missing_permissions_def gm_get_def split: option.splits if_splits)

theorem key_update_forbidden_to_all:
  assumes "adm_rbacEnabled h" and "op_action op = Some action" and "action \<in> set missing_permissions"
    and "run_op h env op r s = Some (reply, s')"
  shows "fst reply = 403 \<and> same_tables s s'"
  using run_op_denies [OF assms(2) _ assms(4)] missing_permission_denied [OF assms(3)] assms(1) by (simp add: permitted_def)

text \<open>The user routes check no role: whoever is logged in, as a viewer too, can make any user, also
  himself, an admin, and the next login of that user has the role admin.\<close>

theorem anyone_can_grant_admin:
  assumes "adm_rbacEnabled (sv_handler sv)" and "login sv env r s = Some (Some oc)" and "rq_method r = ''PUT''"
    and "rq_path r = [''admin'', ''users'', us_id u, ''role'']" and "rq_body r = Some (JObj [(''role'', JStr ''admin'')])"
    and "us_id u \<noteq> ''''" and "u \<in> set (as_users s)" and "live_user u" and "us_subject u = Some subject" and "subject \<noteq> ''''"
    and "user_rows (as_users s)" and "audit_open s" and "aq_up env 0"
  shows "\<exists>s'. serve_admin sv env r s = Some ((200, StatusBody ''updated''), s')
    \<and> DBLookup (Some (as_users s')) defaultRole subject email = Some RoleAdmin"
proof -
  let ?h = "sv_handler sv" and ?r = "r\<lparr>rq_oidc := Some oc\<rparr>"
  let ?up = "map (\<lambda>r. if us_id r = us_id u \<and> live_user r then r\<lparr>us_role := ''admin''\<rparr> else r) (as_users s)"
  have hit: "list_ex (\<lambda>r. us_id r = us_id u \<and> live_user r) (as_users s)" using assms(7,8) by (auto simp: list_ex_iff)
  have role: "readJSON ?r decode_role '''' = Some ''admin''"
    using assms(5) by (simp add: readJSON_def decode_role_def find_field_def)
  from record_event_total [of "s\<lparr>as_users := ?up\<rparr>" env "audit_event ''user.update_role'' (actorFromRequest ?r) ''update_role''
      (''user:'' @ us_id u) ''success'' (rq_requestID r) [(''new_role'', JStr ''admin'')]"] assms(12)
  obtain s' where s': "audited env ?r ''user.update_role'' ''update_role'' (''user:'' @ us_id u) [(''new_role'', JStr ''admin'')]
      (s\<lparr>as_users := ?up\<rparr>) = Some s'" by (auto simp: audited_def)
  have "serve_admin sv env r s = updateUserRole ?h env (us_id u) ?r s"
    using assms(1-4,6) by (simp add: serve_admin_login admin_mux_def)
  also have "\<dots> = Some ((200, StatusBody ''updated''), s')"
    using assms(6,13) role hit s' by (simp add: updateUserRole_def UpdateUserRole_def ValidateRole_def role_defs Let_def)
  finally have run: "serve_admin sv env r s = Some ((200, StatusBody ''updated''), s')" .
  have users: "as_users s' = ?up" using audited_tables [OF s'] by (simp add: same_tables_def)
  have same: "r = u" if "r \<in> set (as_users s)" "us_subject r = Some subject" for r
  proof -
    have "inj_on us_subject (set (filter (\<lambda>x. us_subject x \<noteq> None) (as_users s)))"
      using assms(11) by (auto simp: user_rows_def List.map_filter_def distinct_map comp_def inj_on_def)
    with that assms(7,9) show ?thesis by (auto simp: inj_on_def)
  qed
  obtain v where v: "find (\<lambda>r. us_subject r = Some subject \<and> live_user r) ?up = Some v" "us_role v = ''admin''"
  proof (cases "find (\<lambda>r. us_subject r = Some subject \<and> live_user r) ?up")
    case None
    moreover have "u\<lparr>us_role := ''admin''\<rparr> \<in> set ?up" using assms(7,8) by force
    ultimately have "\<not> (us_subject (u\<lparr>us_role := ''admin''\<rparr>) = Some subject \<and> live_user (u\<lparr>us_role := ''admin''\<rparr>))"
      unfolding find_None_iff by blast
    with assms(8,9) show ?thesis by (simp add: live_user_def)
  next
    case (Some v)
    from find_SomeD [OF this] obtain w where w: "w \<in> set (as_users s)"
      "v = (if us_id w = us_id u \<and> live_user w then w\<lparr>us_role := ''admin''\<rparr> else w)" "us_subject v = Some subject" by auto
    then have "us_subject w = Some subject" by (simp split: if_splits)
    from same [OF w(1) this] w(2) assms(8) have "us_role v = ''admin''" by simp
    with Some that show ?thesis by blast
  qed
  then have "DBLookup (Some (as_users s')) defaultRole subject email = Some RoleAdmin"
    using assms(10) by (simp add: DBLookup_def users LookupUserBySubject_def one_user_def scan_user_def Let_def RoleAdmin_def)
  with run show ?thesis by blast
qed

text \<open>When roles rest on OpenID alone and the discovery of the provider fails at start, the provider is nil and the middleware
  lets every request through as the holder of the static token.\<close>

theorem oidc_outage_opens_admin:
  assumes "sv_token sv = ''''" and "sv_oidc sv = NewProvider None defaultRole"
  shows "serve_admin sv env r s = admin_mux (sv_handler sv) env (r\<lparr>rq_oidc := None\<rparr>) s
    \<and> ai_Role (actorIdentity (r\<lparr>rq_oidc := None\<rparr>)) = RoleAdmin"
  using assms by (simp add: serve_admin_def BearerAuth_def NewProvider_def actorIdentity_def)

text \<open>An email nobody verified is as good as a verified one: the claim \<^verbatim>\<open>email_verified\<close> is decoded and never read.\<close>

theorem unverified_email_takes_role:
  "ValidateToken (p\<lparr>op_verify := (\<lambda>t. map_option (\<lambda>c. c\<lparr>cl_EmailVerified := b\<rparr>) (op_verify p t))\<rparr>) token lookup
     = ValidateToken p token lookup"
  by (cases "op_verify p token") (simp_all add: ValidateToken_def split: option.split)

text \<open>A deleted user cannot be created again: the row keeps the subject, and the subject is unique over deleted rows too.\<close>

theorem deleted_user_blocks_subject:
  assumes "u \<in> set table" and "us_subject u = Some subject" and "subject \<noteq> ''''"
  shows "fst (CreateUser newID now subject email role (snd (SoftDeleteUser t (us_id u) table))) = Inl (DBError ''duplicate key'')"
proof -
  let ?f = "\<lambda>r. if us_id r = us_id u \<and> live_user r then r\<lparr>us_deleted_at := Some t\<rparr> else r"
  have "us_subject (?f u) = Some subject" and "?f u \<in> set (map ?f table)" using assms(1,2) by (simp, force)
  then have "list_ex (\<lambda>r. us_id r = newID \<or> subject \<noteq> '''' \<and> us_subject r = Some subject) (map ?f table)"
    using assms(3) unfolding list_ex_iff by blast
  then show ?thesis by (simp add: CreateUser_def SoftDeleteUser_def Let_def)
qed

text \<open>The audit log of successful requests holds the first eight characters of the token, twice what the masked form
  used for failed ones shows.\<close>

theorem audit_shows_token_start:
  assumes "8 < length token"
  shows "actorFromRequest (r\<lparr>rq_auth := ''Bearer '' @ token\<rparr>) = ''token:'' @ take 8 token @ ''...''
    \<and> maskToken (''Bearer '' @ token) = ''token:'' @ take 4 token @ ''****''"
  using assms by (simp add: actorFromRequest_def maskToken_def strings_HasPrefix_def strings_TrimPrefix_def)

section \<open>An example\<close>

definition example_env :: admin_env where
  "example_env =
     \<lparr>aq_up = (\<lambda>n. True), aq_now = 7, aq_newID = (\<lambda>n. ''id''), aq_clock = 7, aq_today = ''2025-01-01'', aq_rand = Some ''abcdefghijklmnop'',
      aq_hash = (\<lambda>raw. Some (CHR ''h'' # raw)), aq_pg = (\<lambda>a. a), aq_fmt_v = (\<lambda>j. ''''), aq_set_column = (\<lambda>f v k. Some k),
      aq_collate = bytes_le\<rparr>"

definition example_admin_state :: admin_state where
  "example_admin_state =
     \<lparr>as_projects = [\<lparr>pj_ID = ''p'', pj_Name = ''P'', pj_CreatedAt = 1\<rparr>], as_keys = [],
      as_users = [\<lparr>us_id = ''u'', us_subject = Some ''s'', us_email = None, us_role = ''editor'', us_created_at = 1, us_deleted_at = None\<rparr>],
      as_prompts = [], as_audit = None, as_checks = Some [], as_sessions = None\<rparr>"

definition example_admin_server :: admin_server where
  "example_admin_server =
     \<lparr>sv_handler = \<lparr>adm_rbacEnabled = True, adm_OnKeysChanged = True\<rparr>, sv_token = ''secret'',
      sv_oidc = Some \<lparr>op_verify = (\<lambda>t. if t = ''jwt'' then Some \<lparr>cl_Sub = ''s'', cl_Email = '''', cl_Name = '''', cl_EmailVerified = True\<rparr> else None),
                      op_defaultRole = ''viewer''\<rparr>, sv_defaultRole = ''viewer''\<rparr>"

definition example_admin_request :: "string \<Rightarrow> admin_request" where
  "example_admin_request auth =
     \<lparr>rq_method = ''POST'', rq_path = [''admin'', ''keys''], rq_auth = auth, rq_addr = '''', rq_query = (\<lambda>q. ''''),
      rq_body = Some (JObj [(''project_id'', JStr ''p''), (''name'', JStr ''n'')]), rq_requestID = ''r'', rq_oidc = None\<rparr>"

definition example_raw :: string where
  "example_raw = ''gw-6162636465666768696a6b6c6d6e6f70''"

lemma example_columns: "columns_apart example_env"
  by (simp add: columns_apart_def example_env_def)

lemma example_tables: "tables_ok example_admin_state" "audit_open example_admin_state"
  by (simp_all add: tables_ok_def project_rows_def key_rows_def user_rows_def prompt_rows_def example_admin_state_def
      List.map_filter_def ValidateRole_def role_defs audit_open_def)

definition example_created :: createKeyResponse where
  "example_created = \<lparr>kr_ID = ''id'', kr_Key = example_raw, kr_KeyPrefix = ''gw-61626'', kr_Name = ''n'', kr_ProjectID = ''p''\<rparr>"

lemma example_create:
  "map_option fst (createKey (sv_handler example_admin_server) example_env (example_admin_request ''Bearer secret'') example_admin_state)
     = Some (201, KeyBody example_created)"
  by code_simp

lemma example_served:
  "map_option (\<lambda>(reply, s). (reply, length (as_keys s)))
     (serve_admin example_admin_server example_env (example_admin_request ''Bearer jwt'') example_admin_state)
     = Some ((201, KeyBody example_created), 1)"
  by code_simp

theorem admin_keeps_constraints_witness:
  "\<exists>s'. run_admin example_admin_server [(example_env, example_admin_request ''Bearer jwt''), (example_env, example_admin_request ''Bearer x'')]
      example_admin_state = Some s' \<and> tables_ok s' \<and> audit_open s'"
  by (rule admin_keeps_constraints [OF _ example_tables]) (simp add: example_columns)



end
