(* ===== verification/Embeddings.thy ===== *)
theory Embeddings
  imports Adapter_Core
begin

text \<open>
  The embeddings endpoint, \<^verbatim>\<open>internal/api/openai/embeddings.go\<close>, and the list of models, \<^verbatim>\<open>internal/api/openai/models.go\<close>. An
  embeddings request passes the rate limit and the budget of its key, is planned like a chat request and sent to the
  targets of the plan one after the other; the handler talks to the providers itself, over the network of the adapters. The checks of rate and
  budget repeat the statements of the governed pipeline and are its definitions here.

  The lemmas show that every request is answered, within the attempts the configuration allows, and that an answer is
  billed once and a failure not at all. Three theorems state what the endpoint leaves out.
\<close>

section \<open>Requests and answers\<close>

record EmbeddingsRequest =
  eq_Model :: string
  eq_Input :: "json option"
  eq_EncodingFormat :: string
  eq_Dimensions :: int
  eq_User :: string

record EmbeddingData =
  ed_Object :: string
  ed_Embedding :: "json option"
  ed_Index :: int

record EmbeddingsUsage =
  eu_PromptTokens :: int
  eu_TotalTokens :: int

record EmbeddingsResponse =
  er_Object :: string
  er_Data :: "EmbeddingData list"
  er_Model :: string
  er_Usage :: "EmbeddingsUsage option"

definition zero_EmbeddingsRequest :: EmbeddingsRequest where
  "zero_EmbeddingsRequest = \<lparr>eq_Model = '''', eq_Input = None, eq_EncodingFormat = '''', eq_Dimensions = 0, eq_User = ''''\<rparr>"

definition zero_EmbeddingsResponse :: EmbeddingsResponse where
  "zero_EmbeddingsResponse = \<lparr>er_Object = '''', er_Data = [], er_Model = '''', er_Usage = None\<rparr>"

definition unmarshal_EmbeddingsRequest :: "EmbeddingsRequest decoder" where
  "unmarshal_EmbeddingsRequest = decode_struct
     [json_field decode_string ''model'' eq_Model eq_Model_update,
      json_field decode_any ''input'' eq_Input eq_Input_update,
      json_field decode_string ''encoding_format'' eq_EncodingFormat eq_EncodingFormat_update,
      json_field decode_int ''dimensions'' eq_Dimensions eq_Dimensions_update,
      json_field decode_string ''user'' eq_User eq_User_update]"

definition unmarshal_EmbeddingData :: "EmbeddingData decoder" where
  "unmarshal_EmbeddingData = decode_struct
     [json_field decode_string ''object'' ed_Object ed_Object_update,
      json_field decode_any ''embedding'' ed_Embedding ed_Embedding_update,
      json_field decode_int ''index'' ed_Index ed_Index_update]"

definition unmarshal_EmbeddingsUsage :: "EmbeddingsUsage decoder" where
  "unmarshal_EmbeddingsUsage = decode_struct
     [json_field decode_int ''prompt_tokens'' eu_PromptTokens eu_PromptTokens_update,
      json_field decode_int ''total_tokens'' eu_TotalTokens eu_TotalTokens_update]"

definition unmarshal_EmbeddingsResponse :: "EmbeddingsResponse decoder" where
  "unmarshal_EmbeddingsResponse = decode_struct
     [json_field decode_string ''object'' er_Object er_Object_update,
      json_field (decode_slice unmarshal_EmbeddingData \<lparr>ed_Object = '''', ed_Embedding = None, ed_Index = 0\<rparr>) ''data'' er_Data er_Data_update,
      json_field decode_string ''model'' er_Model er_Model_update,
      json_field (decode_pointer unmarshal_EmbeddingsUsage \<lparr>eu_PromptTokens = 0, eu_TotalTokens = 0\<rparr>) ''usage'' er_Usage er_Usage_update]"

section \<open>Calling a provider\<close>

definition getProviderBaseURL :: "'c Handler \<Rightarrow> string \<Rightarrow> string" where
  "getProviderBaseURL h providerName =
     (case gm_get (cfg_Providers (h_cfg h)) providerName of
        Some pc \<Rightarrow> if pc_BaseURL pc \<noteq> '''' then pc_BaseURL pc else ''https://api.openai.com/v1''
      | None \<Rightarrow> ''https://api.openai.com/v1'')"

text \<open>The request a provider gets: the client's own members with the model of the target, in the order of their names.\<close>

definition provider_body :: "json \<Rightarrow> string \<Rightarrow> json option" where
  "provider_body body model = map_option (\<lambda>m. JObj (map_members (gm_set ''model'' (JStr model) m))) (decode_any_map body)"

definition embeddings_request :: "string \<Rightarrow> json \<Rightarrow> ProviderKey \<Rightarrow> out_request" where
  "embeddings_request baseURL body key =
     \<lparr>or_URL = strings_TrimRight baseURL (CHR ''/'') @ ''/embeddings'',
      or_Headers = json_header # key_header ''Authorization'' ''Bearer '' key, or_Body = body\<rparr>"

definition callProviderEmbeddings ::
  "'w http_env \<Rightarrow> string \<Rightarrow> json \<Rightarrow> ProviderKey \<Rightarrow> 'w \<Rightarrow> (provider_error + EmbeddingsResponse) \<times> 'w" where
  "callProviderEmbeddings H baseURL body key =
     call_json H ''provider'' unmarshal_EmbeddingsResponse zero_EmbeddingsResponse (embeddings_request baseURL body key)"

datatype emb_outcome = EmbAnswered EmbeddingsResponse | EmbBroken provider_error | EmbGaveUp provider_error

text \<open>The attempts at one target. \<^verbatim>\<open>time.Sleep\<close> between them does not look at the context.\<close>

fun try_embeddings ::
  "('c, 'w) gov_env \<Rightarrow> 'w http_env \<Rightarrow> json \<Rightarrow> Target \<Rightarrow> nat \<Rightarrow> nat \<Rightarrow> provider_error \<Rightarrow> int \<Rightarrow> 'c Handler \<Rightarrow> 'w
   \<Rightarrow> emb_outcome \<times> int \<times> 'c Handler \<times> 'w" where
  "try_embeddings E H body target attempt 0 lastErr tot h w = (EmbGaveUp lastErr, tot, h, w)"
| "try_embeddings E H body target attempt (Suc left) lastErr tot h w =
     (case nextProviderKey (tg_Provider target) h of
        (Inl err, h) \<Rightarrow> (EmbGaveUp err, tot, h, w)
      | (Inr key, h) \<Rightarrow>
          (case provider_body body (tg_Model target) of
             None \<Rightarrow> (EmbBroken (OtherError ''failed to parse request''), tot + 1, h, w)
           | Some providerBody \<Rightarrow>
               (case callProviderEmbeddings H (base_url (getProviderBaseURL h (tg_Provider target)) target) providerBody key w of
                  (Inr resp, w) \<Rightarrow> (EmbAnswered resp, tot + 1, h, w)
                | (Inl err, w) \<Rightarrow>
                    if \<not> IsRetryable err \<or> left = 0 then (EmbGaveUp err, tot + 1, h, w)
                    else let w = snd (ev_wait E (backoff attempt (rdf_Retry (rc_Defaults (cfg_Routing (h_cfg h))))) w)
                         in try_embeddings E H body target (Suc attempt) left err (tot + 1) h w)))"

type_synonym emb_result = "(provider_error + EmbeddingsResponse) \<times> Target \<times> int"

fun embeddings_loop ::
  "('c, 'w) gov_env \<Rightarrow> 'w http_env \<Rightarrow> json \<Rightarrow> Target list \<Rightarrow> provider_error option \<Rightarrow> int \<Rightarrow> 'c Handler \<Rightarrow> 'w
   \<Rightarrow> (emb_result \<times> 'c Handler \<times> 'w) option" where
  "embeddings_loop E H body [] lastErr tot h w =
     Some ((Inl (case lastErr of None \<Rightarrow> OtherError ''no provider targets available'' | Some e \<Rightarrow> e), zero_Target, tot), h, w)"
| "embeddings_loop E H body (target # targets) lastErr tot h w =
     (case ev_adapter E (tg_Provider target) of
        None \<Rightarrow> embeddings_loop E H body targets
          (Some (OtherError (''provider adapter is not configured: '' @ tg_Provider target))) tot h w
      | Some call \<Rightarrow>
          let (now, w) = ev_now E w
          in (case getBreaker now (tg_Provider target) (tg_Model target) '''' h of
                None \<Rightarrow> None
              | Some (b, h) \<Rightarrow>
                  let (now, w) = ev_now E w;
                      (allowed, b) = localAllow now b;
                      h = set_breaker (breaker_key (tg_Provider target) (tg_Model target) '''') b h
                  in if \<not> allowed
                     then embeddings_loop E H body targets
                       (Some (OtherError (''circuit breaker open for '' @ tg_Provider target @ ''/'' @ tg_Model target))) tot h w
                     else (case try_embeddings E H body target 1 (attemptsPerTarget h) (OtherError '''') tot h w of
                             (EmbAnswered resp, tot, h, w) \<Rightarrow> Some ((Inr resp, target, tot), h, w)
                           | (EmbBroken err, tot, h, w) \<Rightarrow> Some ((Inl err, zero_Target, tot), h, w)
                           | (EmbGaveUp err, tot, h, w) \<Rightarrow> embeddings_loop E H body targets (Some err) tot h w)))"

definition executeEmbeddingsPlan ::
  "('c, 'w) gov_env \<Rightarrow> 'w http_env \<Rightarrow> json \<Rightarrow> Target list \<Rightarrow> 'c Handler \<Rightarrow> 'w \<Rightarrow> (emb_result \<times> 'c Handler \<times> 'w) option" where
  "executeEmbeddingsPlan E H body targets h w = embeddings_loop E H body targets None 0 h w"

section \<open>The endpoint\<close>

datatype emb_reply = EmbError int headers ErrorBody | EmbOK headers EmbeddingsResponse

definition emb_error :: "request_ctx \<Rightarrow> headers \<Rightarrow> int \<Rightarrow> string \<Rightarrow> string \<Rightarrow> emb_reply" where
  "emb_error cx hs status typ message = EmbError status hs (error_body typ message (cx_requestID cx))"

text \<open>The message inside the provider's own error body, if there is one.\<close>

definition provider_message :: "'w http_env \<Rightarrow> string \<Rightarrow> string" where
  "provider_message H body =
     (let decode = decode_struct [(''error'', decode_pointer (decode_struct
            [(''message'', \<lambda>j (m, t). map_option (\<lambda>v. (v, t)) (decode_string j m)),
             (''type'', \<lambda>j (m, t). map_option (\<lambda>v. (m, v)) (decode_string j t))]) ('''', ''''))]
      in case Option.bind (he_parse H body) (\<lambda>j. decode j None) of
           Some (Some (m, t)) \<Rightarrow> if m \<noteq> '''' then m else body
         | _ \<Rightarrow> body)"

definition embeddings_failure :: "'w http_env \<Rightarrow> (int \<Rightarrow> string) \<Rightarrow> request_ctx \<Rightarrow> headers \<Rightarrow> provider_error \<Rightarrow> emb_reply" where
  "embeddings_failure H statusText cx hs err =
     (case err of
        HTTPError status body \<Rightarrow> emb_error cx hs status ''provider_error'' (provider_message H body)
      | _ \<Rightarrow> emb_error cx hs 502 ''provider_error'' (provider_error_text statusText err))"

definition embeddings_entry :: "'c Handler \<Rightarrow> Context \<Rightarrow> string \<Rightarrow> Target \<Rightarrow> EmbeddingsResponse \<Rightarrow> int \<Rightarrow> int \<Rightarrow> Entry" where
  "embeddings_entry h ac model target resp attempts ms =
     (let promptTokens = (case er_Usage resp of None \<Rightarrow> 0 | Some u \<Rightarrow> eu_PromptTokens u);
          totalTokens = (case er_Usage resp of None \<Rightarrow> 0 | Some u \<Rightarrow> eu_TotalTokens u)
      in \<lparr>ue_RequestID = '''', ue_ProjectID = ctx_ProjectID ac, ue_VirtualKeyID = ctx_VirtualKeyID ac, ue_Model = model,
          ue_Provider = tg_Provider target, ue_ProviderModel = tg_Model target, ue_PromptTokens = promptTokens,
          ue_CompletionTokens = 0, ue_TotalTokens = totalTokens,
          ue_CostUSD = CalculateCost (h_prices h) (tg_Provider target) (tg_Model target) promptTokens 0,
          ue_CacheHit = False, ue_Stream = False, ue_Attempts = attempts, ue_DurationMS = ms, ue_Error = ''''\<rparr>)"

definition log_embeddings ::
  "('c, 'w) gov_env \<Rightarrow> Context option \<Rightarrow> string \<Rightarrow> Target \<Rightarrow> EmbeddingsResponse \<Rightarrow> int \<Rightarrow> gotime \<Rightarrow> 'c Handler \<Rightarrow> 'w
   \<Rightarrow> ('c Handler \<times> 'w) option" where
  "log_embeddings E auth model target resp attempts start h w =
     (case (auth, h_usageW h) of
        (Some ac, Some uw) \<Rightarrow>
          let (now, w) = ev_now E w
          in (case Writer_Record (embeddings_entry h ac model target resp attempts (elapsed_ms start now)) uw of
                None \<Rightarrow> None
              | Some uw \<Rightarrow> Some (h\<lparr>h_usageW := Some uw\<rparr>, w))
      | _ \<Rightarrow> Some (h, w))"

text \<open>From the plan on: residency, the targets, the usage log and the answer.\<close>

definition embeddings_run ::
  "('c, 'w) gov_env \<Rightarrow> 'w http_env \<Rightarrow> (int \<Rightarrow> string) \<Rightarrow> request_ctx \<Rightarrow> string \<Rightarrow> json \<Rightarrow> EmbeddingsRequest \<Rightarrow> headers \<Rightarrow> gotime \<Rightarrow> 'c Handler \<Rightarrow> 'w
   \<Rightarrow> (emb_reply \<times> 'c Handler \<times> 'w) option" where
  "embeddings_run E H statusText cx residency body req hs start h w =
     (case handler_plan E (eq_Model req) h w of
        None \<Rightarrow> None
      | Some (Inl err, h, w) \<Rightarrow> Some (emb_error cx hs 400 ''model_not_found'' (plan_error_text err), h, w)
      | Some (Inr planned, h, w) \<Rightarrow>
          let residency = strings_TrimSpace residency;
              targets = (if residency = '''' then planned else FilterByResidency planned residency)
          in if residency \<noteq> '''' \<and> targets = []
             then Some (emb_error cx hs 403 ''residency_denied''
                    (''no providers available in data residency region '' @ go_quote residency), h, w)
             else (case executeEmbeddingsPlan E H body targets h w of
                     None \<Rightarrow> None
                   | Some ((Inl err, target, attempts), h, w) \<Rightarrow> Some (embeddings_failure H statusText cx hs err, h, w)
                   | Some ((Inr resp, target, attempts), h, w) \<Rightarrow>
                       map_option (\<lambda>(h, w). (EmbOK (gm_set ''X-Provider'' (tg_Provider target) hs) resp, h, w))
                         (log_embeddings E (cx_auth cx) (eq_Model req) target resp attempts start h w)))"

definition Embeddings ::
  "('c, 'w) gov_env \<Rightarrow> 'w http_env \<Rightarrow> (int \<Rightarrow> string) \<Rightarrow> http_request \<Rightarrow> 'c Handler \<Rightarrow> 'w \<Rightarrow> (emb_reply \<times> 'c Handler \<times> 'w) option" where
  "Embeddings E H statusText r h w =
     (let cx = hr_ctx r
      in if hr_Method r \<noteq> ''POST'' then Some (emb_error cx [] 405 ''method_not_allowed'' ''method not allowed'', h, w)
         else case hr_Body r of
           None \<Rightarrow> Some (emb_error cx [] 400 ''invalid_request'' ''invalid JSON request body'', h, w)
         | Some body \<Rightarrow>
             (case unmarshal_EmbeddingsRequest body zero_EmbeddingsRequest of
                None \<Rightarrow> Some (emb_error cx [] 400 ''invalid_request'' ''invalid JSON request body'', h, w)
              | Some req \<Rightarrow>
                  if eq_Model req = '''' then Some (emb_error cx [] 400 ''invalid_request'' ''model is required'', h, w)
                  else if eq_Input req = None then Some (emb_error cx [] 400 ''invalid_request'' ''input is required'', h, w)
                  else
                    let (start, w) = ev_now E w;
                        identity = governanceIdentityFromAuth (cx_auth cx)
                    in (case checkRateLimit E identity h w of
                          (Inl ge, h, w) \<Rightarrow> Some (emb_error cx (gv_Headers ge) (gv_StatusCode ge) (gv_Type ge) (gv_Message ge), h, w)
                        | (Inr hs, h, w) \<Rightarrow>
                            (case checkBudget E identity h w of
                               (Some ge, w) \<Rightarrow> Some (emb_error cx hs (gv_StatusCode ge) (gv_Type ge) (gv_Message ge), h, w)
                             | (None, w) \<Rightarrow> embeddings_run E H statusText cx (hr_Residency r) body req hs start h w))))"

section \<open>The list of models\<close>

record ModelInfo =
  mi_ID :: string
  mi_Created :: int
  mi_OwnedBy :: string

definition ownerForModel :: "ModelConfig \<Rightarrow> string" where
  "ownerForModel model = (case mc_Routes model of [] \<Rightarrow> ''openlimit'' | route # _ \<Rightarrow> mr_Provider route)"

definition Models :: "gotime \<Rightarrow> Config \<Rightarrow> string \<Rightarrow> ModelInfo list option" where
  "Models now cfg httpMethod =
     (if httpMethod \<noteq> ''GET'' then None
      else Some (map (\<lambda>(id, mc). \<lparr>mi_ID = id, mi_Created = time_Unix now, mi_OwnedBy = ownerForModel mc\<rparr>)
                   (fold insert_member (cfg_Models cfg) [])))"

section \<open>Every request is answered\<close>

text \<open>The attempts at a target move the key ring only: no breaker learns of their outcome.\<close>

lemma try_embeddings_spec:
  "try_embeddings E H body target attempt n lastErr tot h w = (out, tot', h', w') \<Longrightarrow>
   plan_frame h h' \<and> h_breakers h' = h_breakers h \<and> tot \<le> tot' \<and> tot' \<le> tot + int n
   \<and> (case out of EmbAnswered resp \<Rightarrow> tot < tot' | _ \<Rightarrow> True)"
proof (induction n arbitrary: attempt lastErr tot h w)
  case 0
  then show ?case by auto
next
  case (Suc n)
  obtain r h1 where k: "nextProviderKey (tg_Provider target) h = (r, h1)" by force
  note f1 = nextProviderKey_frame [OF k]
  show ?case
  proof (cases "\<exists>key pb err w1. r = Inr key \<and> provider_body body (tg_Model target) = Some pb
      \<and> callProviderEmbeddings H (base_url (getProviderBaseURL h1 (tg_Provider target)) target) pb key w = (Inl err, w1)
      \<and> IsRetryable err \<and> n \<noteq> 0")
    case False
    with Suc.prems k f1 show ?thesis by (auto split: sum.splits option.splits prod.splits if_splits)
  next
    case True
    then obtain key pb err w1 where c: "r = Inr key" "provider_body body (tg_Model target) = Some pb"
      "callProviderEmbeddings H (base_url (getProviderBaseURL h1 (tg_Provider target)) target) pb key w = (Inl err, w1)"
      "IsRetryable err" "n \<noteq> 0" by blast
    let ?w = "snd (ev_wait E (backoff attempt (rdf_Retry (rc_Defaults (cfg_Routing (h_cfg h1))))) w1)"
    from Suc.prems k c have "try_embeddings E H body target (Suc attempt) n err (tot + 1) h1 ?w = (out, tot', h', w')" by (simp add: Let_def)
    from Suc.IH [OF this] f1 plan_frame_trans [OF f1(1)] show ?thesis by (auto split: emb_outcome.splits)
  qed
qed

definition emb_done :: "Target list \<Rightarrow> emb_result \<Rightarrow> bool" where
  "emb_done targets = (\<lambda>(res, tg, n). case res of Inl e \<Rightarrow> tg = zero_Target | Inr resp \<Rightarrow> tg \<in> set targets \<and> 0 < n)"

lemma embeddings_loop_spec:
  assumes "breakers_ok h" and "0 \<le> tot"
  shows "\<exists>res h' w'. embeddings_loop E H body targets lastErr tot h w = Some (res, h', w') \<and> breakers_ok h' \<and> plan_frame h h'
    \<and> emb_done targets res \<and> snd (snd res) \<le> tot + int (length targets * attemptsPerTarget h)"
  using assms
proof (induction targets arbitrary: lastErr tot h w)
  case Nil
  then show ?case by (auto simp: emb_done_def)
next
  case (Cons target targets)
  let ?N = "attemptsPerTarget h"
  have rest: "\<exists>res h' w'. embeddings_loop E H body targets le tt hh ww = Some (res, h', w') \<and> breakers_ok h' \<and> plan_frame h h'
      \<and> emb_done (target # targets) res \<and> snd (snd res) \<le> tot + int (length (target # targets) * ?N)"
    if hh: "breakers_ok hh" "plan_frame h hh" "0 \<le> tt" "tt \<le> tot + int ?N" for le tt hh ww
  proof -
    from Cons.IH [OF hh(1,3), of le ww] attempts_frame [OF hh(2)] obtain res h' w' where
      p: "embeddings_loop E H body targets le tt hh ww = Some (res, h', w')" "breakers_ok h'" "plan_frame hh h'" "emb_done targets res"
      "snd (snd res) \<le> tt + int (length targets * ?N)" by auto
    from p(5) hh(4) have "snd (snd res) \<le> tot + int (length (target # targets) * ?N)" by (simp add: algebra_simps)
    moreover from p(4) have "emb_done (target # targets) res" by (auto simp: emb_done_def split: sum.splits)
    ultimately show ?thesis using p(1,2) plan_frame_trans [OF hh(2) p(3)] by blast
  qed
  show ?case
  proof (cases "ev_adapter E (tg_Provider target)")
    case None
    with rest [OF Cons.prems(1) plan_frame_refl Cons.prems(2)] show ?thesis by simp
  next
    case (Some call)
    let ?k = "breaker_key (tg_Provider target) (tg_Model target) ''''"
    obtain now w1 where t1: "ev_now E w = (now, w1)" by force
    obtain b h1 where g: "getBreaker now (tg_Provider target) (tg_Model target) '''' h = Some (b, h1)"
      and ok1: "breakers_ok h1" and f1: "plan_frame h h1" by (rule getBreaker_total [OF Cons.prems(1)])
    obtain now2 w2 where t2: "ev_now E w1 = (now2, w2)" by force
    obtain al b2 where al: "localAllow now2 b = (al, b2)" by force
    let ?h2 = "set_breaker ?k b2 h1"
    have ok2: "breakers_ok ?h2" and f2: "plan_frame h ?h2"
      using set_breaker_ok [OF ok1] plan_frame_trans [OF f1 set_breaker_frame(1)] by blast+
    obtain out tot' h' w' where try': "try_embeddings E H body target 1 ?N (OtherError '''') tot ?h2 w2 = (out, tot', h', w')"
      by (metis prod_cases4)
    note spec = try_embeddings_spec [OF try']
    from spec ok2 have ok': "breakers_ok h'" by (simp add: breakers_ok_def)
    from spec have f': "plan_frame h h'" using plan_frame_trans [OF f2] by blast
    have "int ?N \<le> int (length (target # targets) * ?N)" by (simp only: of_nat_le_iff) simp
    with spec have bound: "tot' \<le> tot + int (length (target # targets) * ?N)" by linarith
    have step: "embeddings_loop E H body (target # targets) lastErr tot h w =
      (if \<not> al then embeddings_loop E H body targets
          (Some (OtherError (''circuit breaker open for '' @ tg_Provider target @ ''/'' @ tg_Model target))) tot ?h2 w2
       else case out of EmbAnswered resp \<Rightarrow> Some ((Inr resp, target, tot'), h', w')
          | EmbBroken err \<Rightarrow> Some ((Inl err, zero_Target, tot'), h', w')
          | EmbGaveUp err \<Rightarrow> embeddings_loop E H body targets (Some err) tot' h' w')"
      using try' attempts_frame [OF f2] by (simp add: Some t1 t2 g al split: emb_outcome.split)
    have "0 \<le> tot'" and "tot' \<le> tot + int ?N" using spec Cons.prems(2) by auto
    note later = rest [OF ok' f' this] and denied = rest [OF ok2 f2 Cons.prems(2)]
    show ?thesis
    proof (cases al)
      case False
      with denied step show ?thesis by simp
    next
      case True
      then show ?thesis
        unfolding step using later spec ok' f' bound Cons.prems(2) by (cases out) (auto simp: emb_done_def)
    qed
  qed
qed

text \<open>A router that never panics, whatever the model and the moment.\<close>

definition router_plans :: "('c, 'w) gov_env \<Rightarrow> 'c Handler \<Rightarrow> bool" where
  "router_plans E h \<longleftrightarrow> (\<forall>model h' w. h_router h' = h_router h \<longrightarrow> handler_plan E model h' w \<noteq> None)"

lemma handler_plan_frame:
  "handler_plan E model h w = Some (r, h', w') \<Longrightarrow> h' = h\<lparr>h_router := h_router h'\<rparr>"
  by (auto simp: handler_plan_def Let_def split: prod.splits if_splits)

text \<open>What an embeddings request may do to the usage log.\<close>

definition asked_model :: "http_request \<Rightarrow> string" where
  "asked_model r = (case Option.bind (hr_Body r) (\<lambda>b. unmarshal_EmbeddingsRequest b zero_EmbeddingsRequest) of
     None \<Rightarrow> '''' | Some req \<Rightarrow> eq_Model req)"

definition emb_billed :: "'c Handler \<Rightarrow> http_request \<Rightarrow> emb_reply \<Rightarrow> 'c Handler \<Rightarrow> bool" where
  "emb_billed h r reply h' \<longleftrightarrow>
     (case (reply, cx_auth (hr_ctx r), h_usageW h) of
        (EmbOK hs resp, Some ac, Some uw) \<Rightarrow>
          \<exists>target attempts ms. 0 < attempts \<and> gm_get hs ''X-Provider'' = Some (tg_Provider target)
            \<and> h_usageW h' = Writer_Record (embeddings_entry h ac (asked_model r) target resp attempts ms) uw
      | _ \<Rightarrow> h_usageW h' = h_usageW h)"

lemma embeddings_entry_prices: "h_prices h' = h_prices h \<Longrightarrow> embeddings_entry h' = embeddings_entry h"
  by (intro ext) (simp add: embeddings_entry_def)

lemma embeddings_run_answers:
  assumes "breakers_ok h" and "router_plans E h" and "\<And>uw. h_usageW h = Some uw \<Longrightarrow> \<not> uw_closed uw"
    and "asked_model r = eq_Model req"
  shows "\<exists>reply h' w'. embeddings_run E H st (hr_ctx r) residency body req hs start h w = Some (reply, h', w') \<and> breakers_ok h'
    \<and> emb_billed h r reply h'"
proof -
  from assms(2) obtain p h1 w1 where p: "handler_plan E (eq_Model req) h w = Some (p, h1, w1)"
    unfolding router_plans_def by (metis prod_cases3 option.exhaust)
  have h1: "h1 = h\<lparr>h_router := h_router h1\<rparr>" by (rule handler_plan_frame [OF p])
  have same: "h_usageW h1 = h_usageW h" "h_prices h1 = h_prices h" "h_breakers h1 = h_breakers h" by (subst h1, simp)+
  have ok1: "breakers_ok h1" using assms(1) same by (simp add: breakers_ok_def)
  define targets where "targets = (case p of Inl e \<Rightarrow> [] | Inr planned \<Rightarrow>
      if strings_TrimSpace residency = '''' then planned else FilterByResidency planned (strings_TrimSpace residency))"
  show ?thesis
  proof (cases "isl p \<or> strings_TrimSpace residency \<noteq> '''' \<and> targets = []")
    case True
    then show ?thesis using ok1 same
      by (cases p) (auto simp: embeddings_run_def p targets_def emb_error_def emb_billed_def Let_def split: option.split)
  next
    case False
    then obtain planned where planned: "p = Inr planned" by (cases p) auto
    from embeddings_loop_spec [OF ok1, of 0 E H body targets None w1] obtain res tg n h2 w2 where
      run: "executeEmbeddingsPlan E H body targets h1 w1 = Some ((res, tg, n), h2, w2)" "breakers_ok h2" "plan_frame h1 h2"
      "emb_done targets (res, tg, n)" unfolding executeEmbeddingsPlan_def by (metis order_refl prod_cases3)
    note frame = plan_frame_fields [OF run(3)]
    have eq: "embeddings_run E H st (hr_ctx r) residency body req hs start h w =
      (case res of
         Inl err \<Rightarrow> Some (embeddings_failure H st (hr_ctx r) hs err, h2, w2)
       | Inr resp \<Rightarrow> map_option (\<lambda>(h, w). (EmbOK (gm_set ''X-Provider'' (tg_Provider tg) hs) resp, h, w))
            (log_embeddings E (cx_auth (hr_ctx r)) (eq_Model req) tg resp n start h2 w2))"
      using False run(1) by (cases res) (auto simp: embeddings_run_def p planned targets_def Let_def)
    show ?thesis
    proof (cases res)
      case (Inl err)
      then show ?thesis using eq run(2) frame same
        by (cases err) (auto simp: embeddings_failure_def emb_error_def emb_billed_def split: option.split)
    next
      case (Inr resp)
      show ?thesis
      proof (cases "cx_auth (hr_ctx r) = None \<or> h_usageW h = None")
        case True
        then show ?thesis using eq Inr run(2) frame same
          by (auto simp: log_embeddings_def emb_billed_def split: option.split)
      next
        case False
        then obtain ac uw where ac: "cx_auth (hr_ctx r) = Some ac" "h_usageW h = Some uw" by auto
        obtain now w3 where t: "ev_now E w2 = (now, w3)" by force
        let ?e = "embeddings_entry h ac (asked_model r) tg resp n (elapsed_ms start now)"
        from Writer_Record_open [OF assms(3) [OF ac(2)], of ?e] obtain uw' where uw': "Writer_Record ?e uw = Some uw'" by blast
        have "h_usageW h2 = Some uw" and "embeddings_entry h2 = embeddings_entry h"
          using frame same ac embeddings_entry_prices [of h2 h] by simp_all
        with eq Inr ac t uw' assms(4) have "embeddings_run E H st (hr_ctx r) residency body req hs start h w =
            Some (EmbOK (gm_set ''X-Provider'' (tg_Provider tg) hs) resp, h2\<lparr>h_usageW := Some uw'\<rparr>, w3)"
          by (simp add: log_embeddings_def)
        moreover have "0 < n" using run(4) Inr by (simp add: emb_done_def)
        then have "emb_billed h r (EmbOK (gm_set ''X-Provider'' (tg_Provider tg) hs) resp) (h2\<lparr>h_usageW := Some uw'\<rparr>)"
          using ac uw' unfolding emb_billed_def by (simp add: gm_get_set) metis
        moreover have "breakers_ok (h2\<lparr>h_usageW := Some uw'\<rparr>)" using run(2) by (simp add: breakers_ok_def)
        ultimately show ?thesis by blast
      qed
    qed
  qed
qed


section \<open>What the endpoint leaves out\<close>

text \<open>A key that may use only some models or providers may use any for embeddings: the lists of the key are never read.\<close>

lemma unrestricted_identity:
  "checkRateLimit E (governanceIdentityFromAuth (Some (ac\<lparr>ctx_AllowedModels := ms, ctx_AllowedProviders := ps\<rparr>))) h w
     = checkRateLimit E (governanceIdentityFromAuth (Some ac)) h w"
  "checkBudget E (governanceIdentityFromAuth (Some (ac\<lparr>ctx_AllowedModels := ms, ctx_AllowedProviders := ps\<rparr>))) h w
     = checkBudget E (governanceIdentityFromAuth (Some ac)) h w"
  by (simp_all add: checkRateLimit_def checkBudget_def governanceIdentityFromAuth_def Let_def split_beta split: option.split sum.split)

lemma unrestricted_log:
  "log_embeddings E (Some (ac\<lparr>ctx_AllowedModels := ms, ctx_AllowedProviders := ps\<rparr>)) = log_embeddings E (Some ac)"
  by (intro ext) (simp add: log_embeddings_def embeddings_entry_def Let_def split_beta split: option.split)

lemma emb_error_auth: "emb_error (cx\<lparr>cx_auth := a\<rparr>) = emb_error cx"
  by (intro ext) (simp add: emb_error_def)

lemma embeddings_run_auth:
  "embeddings_run E H st (cx\<lparr>cx_auth := Some (ac\<lparr>ctx_AllowedModels := ms, ctx_AllowedProviders := ps\<rparr>)\<rparr>)
     = embeddings_run E H st (cx\<lparr>cx_auth := Some ac\<rparr>)"
proof -
  have "embeddings_failure H st (cx\<lparr>cx_auth := a\<rparr>) = embeddings_failure H st cx" for a
    by (intro ext) (simp add: embeddings_failure_def emb_error_auth split: provider_error.split)
  then show ?thesis by (intro ext) (simp add: embeddings_run_def Let_def emb_error_auth unrestricted_log split: option.split sum.split prod.split)
qed

theorem embeddings_ignore_allowed_models:
  "Embeddings E H st (r\<lparr>hr_ctx := (hr_ctx r)\<lparr>cx_auth := Some (ac\<lparr>ctx_AllowedModels := ms, ctx_AllowedProviders := ps\<rparr>)\<rparr>\<rparr>) h w
     = Embeddings E H st (r\<lparr>hr_ctx := (hr_ctx r)\<lparr>cx_auth := Some ac\<rparr>\<rparr>) h w"
  by (simp add: Embeddings_def Let_def embeddings_run_auth emb_error_auth unrestricted_identity split: option.split sum.split prod.split)

text \<open>Failures of embeddings calls trip no breaker: the attempts at a target leave the breakers as they are, however often the
  provider failed.\<close>

theorem embeddings_failures_unseen:
  "h_breakers (fst (snd (snd (try_embeddings E H body target attempt n lastErr tot h w)))) = h_breakers h"
  by (cases "try_embeddings E H body target attempt n lastErr tot h w") (auto dest: try_embeddings_spec)

text \<open>A provider configured without an address is asked for embeddings at the address of OpenAI, with its own key.\<close>

theorem embeddings_key_sent_to_openai:
  assumes "gm_get (cfg_Providers (h_cfg h)) provider = Some pc" and "pc_BaseURL pc = ''''" and "tg_BaseURL target = ''''"
    and "key_Value key \<noteq> ''''"
  shows "embeddings_request (base_url (getProviderBaseURL h provider) target) body key =
    \<lparr>or_URL = ''https://api.openai.com/v1/embeddings'', or_Headers = [json_header, (''Authorization'', ''Bearer '' @ key_Value key)], or_Body = body\<rparr>"
proof -
  have "strings_TrimRight ''https://api.openai.com/v1'' (CHR ''/'') = ''https://api.openai.com/v1''" by code_simp
  with assms show ?thesis by (simp add: embeddings_request_def base_url_def getProviderBaseURL_def key_header_def)
qed

section \<open>An example\<close>

definition example_emb :: "string \<Rightarrow> http_request" where
  "example_emb m = \<lparr>hr_Method = ''POST'', hr_Body = Some (JObj [(''model'', JStr m), (''input'', JStr ''x'')]), hr_Residency = '''',
     hr_ctx = \<lparr>cx_auth = None, cx_plan = None, cx_requestID = ''''\<rparr>\<rparr>"

definition example_emb_net :: "unit http_env" where
  "example_emb_net = \<lparr>he_do = (\<lambda>r w. (NoAnswer None ''down'', w)), he_badURL = (\<lambda>u. None), he_parse = (\<lambda>s. None), he_text = (\<lambda>j. ''''),
     he_now = (\<lambda>w. (0, w)), he_canceled = (\<lambda>w. None), he_errorFirst = (\<lambda>w. True)\<rparr>"

lemma example_router_plans: "router_plans example_gov (example_handler uw)"
proof -
  have "ro_models (New [] [] (cfg_Routing Default) False) = []" by (simp add: New_def Let_def)
  then have "fst (Router_Plan rd hl clk rnd model (New [] [] (cfg_Routing Default) False)) \<noteq> Inl PlanPanic" for rd hl clk rnd model
    by (simp add: Router_Plan_def gm_get_def)
  then show ?thesis by (auto simp: router_plans_def handler_plan_def example_handler_def NewHandler_def Let_def split_beta)
qed


end
