(* ===== verification/Replay.thy ===== *)
theory Replay
  imports Mcp_Server
begin

text \<open>
  Shadow replay, \<^verbatim>\<open>internal/replay/manager.go\<close>: after an answered chat request the manager may send a copy to a second provider
  and keep how that went in a ring of fixed size. The random identifier and the key of the shadow provider come from
  outside; a shadow call is \<^verbatim>\<open>ExecuteForReplay\<close> of the handler. The ring is a list that is
  updated by index, as in the code; the interface \<open>recent_log\<close> says what such a ring promises, and the lemmas show that the
  modular arithmetic keeps it.
\<close>

section \<open>The interface\<close>

text \<open>A log of the last entries: \<open>push\<close> adds one at the end and forgets the oldest beyond the capacity.\<close>

definition last_n :: "nat \<Rightarrow> 'a list \<Rightarrow> 'a list" where
  "last_n n xs = drop (length xs - n) xs"

lemma last_n_append: "last_n n (last_n n xs @ ys) = last_n n (xs @ ys)"
  by (cases "n \<le> length xs") (auto simp: last_n_def add.commute)

lemma last_n_all: "length xs \<le> n \<Longrightarrow> last_n n xs = xs"
  by (simp add: last_n_def)

lemma length_last_n: "length (last_n n xs) = min n (length xs)"
  by (simp add: last_n_def)

locale recent_log =
  fixes push :: "'e \<Rightarrow> 's \<Rightarrow> 's"
    and entries :: "'s \<Rightarrow> 'e list"
    and capacity :: "'s \<Rightarrow> nat"
    and inv :: "'s \<Rightarrow> bool"
  assumes push_inv: "inv s \<Longrightarrow> inv (push e s) \<and> capacity (push e s) = capacity s"
    and push_entries: "inv s \<Longrightarrow> entries (push e s) = last_n (capacity s) (entries s @ [e])"
    and entries_bounded: "inv s \<Longrightarrow> length (entries s) \<le> capacity s"
begin

lemma run_entries: "inv s \<Longrightarrow> inv (fold push es s) \<and> entries (fold push es s) = last_n (capacity s) (entries s @ es)"
proof (induction es arbitrary: s)
  case Nil
  then show ?case by (simp add: last_n_all entries_bounded)
next
  case (Cons e es)
  then show ?case using Cons.IH [of "push e s"] by (simp add: push_inv push_entries last_n_append)
qed

end

section \<open>The manager\<close>

record ReplayResult =
  rs_ID :: string
  rs_Timestamp :: gotime
  rs_Model :: string
  rs_PrimaryProvider :: string
  rs_ShadowProvider :: string
  rs_ShadowModel :: string
  rs_PrimaryLatencyMS :: int
  rs_ShadowLatencyMS :: int
  rs_ShadowStatus :: int
  rs_ShadowTokensIn :: int
  rs_ShadowTokensOut :: int
  rs_ShadowError :: string

definition zero_ReplayResult :: ReplayResult where
  "zero_ReplayResult =
     \<lparr>rs_ID = '''', rs_Timestamp = time_zero, rs_Model = '''', rs_PrimaryProvider = '''', rs_ShadowProvider = '''', rs_ShadowModel = '''',
      rs_PrimaryLatencyMS = 0, rs_ShadowLatencyMS = 0, rs_ShadowStatus = 0, rs_ShadowTokensIn = 0, rs_ShadowTokensOut = 0,
      rs_ShadowError = ''''\<rparr>"

record Manager =
  rm_cfg :: ReplayConfig
  rm_ring :: "ReplayResult list"
  rm_head :: nat
  rm_count :: nat
  rm_cap :: nat
  rm_stopped :: bool

definition NewManager :: "ReplayConfig \<Rightarrow> Manager option" where
  "NewManager cfg =
     (if \<not> rpc_Enabled cfg then None
      else Some \<lparr>rm_cfg = cfg, rm_ring = replicate 1000 zero_ReplayResult, rm_head = 0, rm_count = 0, rm_cap = 1000, rm_stopped = False\<rparr>)"

definition store_result :: "ReplayResult \<Rightarrow> Manager \<Rightarrow> Manager" where
  "store_result r m =
     m\<lparr>rm_ring := (rm_ring m)[rm_head m := r], rm_head := (rm_head m + 1) mod rm_cap m,
       rm_count := (if rm_count m < rm_cap m then rm_count m + 1 else rm_count m)\<rparr>"

text \<open>A negative \<open>n\<close> makes the allocation panic.\<close>

definition Recent :: "int \<Rightarrow> Manager \<Rightarrow> ReplayResult list option" where
  "Recent n m =
     (let n = (if int (rm_count m) < n then int (rm_count m) else n)
      in if n < 0 then None
         else let start = (rm_head m + rm_cap m - rm_count m) mod rm_cap m;
                  offset = rm_count m - nat n
              in Some (map (\<lambda>i. rm_ring m ! ((start + offset + i) mod rm_cap m)) [0..<nat n]))"

record ReplaySummary =
  rp_Results :: "ReplayResult list"
  rp_Total :: nat
  rp_AvgPrimaryMS :: f64
  rp_AvgShadowMS :: f64
  rp_ShadowErrorRate :: f64

definition Summary :: "int \<Rightarrow> Manager \<Rightarrow> ReplaySummary option" where
  "Summary n m = map_option (\<lambda>results.
     if results = [] then \<lparr>rp_Results = [], rp_Total = 0, rp_AvgPrimaryMS = 0, rp_AvgShadowMS = 0, rp_ShadowErrorRate = 0\<rparr>
     else let total_of = (\<lambda>f. foldl (\<lambda>acc r. wrap64 (acc + f r)) 0 results);
              errors = length (filter (\<lambda>r. rs_ShadowError r \<noteq> '''') results);
              n = float_of_int (int (length results))
          in \<lparr>rp_Results = results, rp_Total = length results, rp_AvgPrimaryMS = fdiv (float_of_int (total_of rs_PrimaryLatencyMS)) n,
              rp_AvgShadowMS = fdiv (float_of_int (total_of rs_ShadowLatencyMS)) n, rp_ShadowErrorRate = fdiv (float_of_int (int errors)) n\<rparr>)
     (Recent n m)"

text \<open>The rate of a route and the nanoseconds of the clock decide whether a request is replayed.\<close>

definition sampled :: "gotime \<Rightarrow> ReplayRoute \<Rightarrow> bool" where
  "sampled now route \<longleftrightarrow>
     \<not> rr_SampleRate route < 1 \<or> rem_int (time_UnixNano now) 100 < int_of_float (fmul (rr_SampleRate route) 100)"

definition replay_route :: "string \<Rightarrow> Manager \<Rightarrow> ReplayRoute option" where
  "replay_route model m = find (\<lambda>route. rr_Model route = model) (rpc_Routes (rm_cfg m))"

definition genID :: "string \<Rightarrow> string" where
  "genID random = ''rp_'' @ concat (map (\<lambda>c. [hex_digit (of_char c div 16), hex_digit (of_char c mod 16)]) random)"

text \<open>The function \<^verbatim>\<open>server.New\<close> hands the manager: it moves the ring of keys that the handler uses too.\<close>

definition replay_key :: "string \<Rightarrow> 'c Handler \<Rightarrow> (string + ProviderKey) \<times> 'c Handler" where
  "replay_key providerName h =
     (case gm_get (h_keys h) providerName of
        None \<Rightarrow> (Inl (''no keys for '' @ providerName), h)
      | Some kr \<Rightarrow>
          (case KeyRing_Next kr of
             (Some key, kr') \<Rightarrow> (Inr key, h\<lparr>h_keys := gm_set providerName kr' (h_keys h)\<rparr>)
           | (None, kr') \<Rightarrow> (Inl (''no active keys for '' @ providerName), h\<lparr>h_keys := gm_set providerName kr' (h_keys h)\<rparr>)))"

text \<open>What the goroutine of \<^verbatim>\<open>Replay\<close> does; \<open>err_text\<close> is the text of an error. A panic of the adapter is recovered and stores nothing.\<close>

definition shadow_call ::
  "('c, 'w) gov_env \<Rightarrow> (provider_error \<Rightarrow> string) \<Rightarrow> string \<Rightarrow> ReplayRoute \<Rightarrow> ChatCompletionRequest \<Rightarrow> string \<Rightarrow> duration \<Rightarrow> 'c Handler \<Rightarrow> 'w
   \<Rightarrow> ReplayResult \<times> 'c Handler \<times> 'w" where
  "shadow_call E err_text random route req primaryProvider primaryLatency h w =
     (let base = zero_ReplayResult\<lparr>rs_ID := genID random, rs_Model := req_Model req, rs_PrimaryProvider := primaryProvider,
                   rs_ShadowProvider := rr_ShadowProvider route, rs_ShadowModel := rr_ShadowModel route,
                   rs_PrimaryLatencyMS := quot_int primaryLatency time_Millisecond\<rparr>
      in case replay_key (rr_ShadowProvider route) h of
           (Inl err, h) \<Rightarrow>
             let (now, w) = ev_now E w in (base\<lparr>rs_Timestamp := now, rs_ShadowError := ''key error: '' @ err\<rparr>, h, w)
         | (Inr key, h) \<Rightarrow>
             let target = zero_Target\<lparr>tg_Provider := rr_ShadowProvider route, tg_Model := rr_ShadowModel route\<rparr>;
                 (start, w) = ev_now E w;
                 (answer, w) = ExecuteForReplay E (req\<lparr>req_Model := rr_ShadowModel route\<rparr>) target key w;
                 (stop, w) = ev_now E w;
                 (now, w) = ev_now E w;
                 result = base\<lparr>rs_Timestamp := now, rs_ShadowLatencyMS := elapsed_ms start stop\<rparr>
             in (case answer of
                   Inl err \<Rightarrow> result\<lparr>rs_ShadowError := err_text err\<rparr>
                 | Inr None \<Rightarrow> result
                 | Inr (Some resp) \<Rightarrow>
                     (case resp_Usage resp of
                        None \<Rightarrow> result\<lparr>rs_ShadowStatus := 200\<rparr>
                      | Some u \<Rightarrow> result\<lparr>rs_ShadowStatus := 200, rs_ShadowTokensIn := us_PromptTokens u,
                                        rs_ShadowTokensOut := us_CompletionTokens u\<rparr>), h, w))"

definition Replay ::
  "('c, 'w) gov_env \<Rightarrow> (provider_error \<Rightarrow> string) \<Rightarrow> string \<Rightarrow> ChatCompletionRequest \<Rightarrow> string \<Rightarrow> duration \<Rightarrow> Manager option \<Rightarrow> 'c Handler \<Rightarrow> 'w
   \<Rightarrow> Manager option \<times> 'c Handler \<times> 'w" where
  "Replay E err_text random req primaryProvider primaryLatency mgr h w =
     (case mgr of
        None \<Rightarrow> (None, h, w)
      | Some m \<Rightarrow>
          (case replay_route (req_Model req) m of
             None \<Rightarrow> (Some m, h, w)
           | Some route \<Rightarrow>
               let (now, w1) = ev_now E w;
                   w = (if rr_SampleRate route < 1 then w1 else w)
               in if \<not> sampled now route \<or> rm_stopped m then (Some m, h, w)
                  else (case shadow_call E err_text random route req primaryProvider primaryLatency h w of
                          (r, h, w) \<Rightarrow> (Some (store_result r m), h, w))))"

text \<open>Closing twice panics.\<close>

definition Manager_Close :: "Manager option \<Rightarrow> Manager option option" where
  "Manager_Close mgr = (case mgr of None \<Rightarrow> Some None | Some m \<Rightarrow> if rm_stopped m then None else Some (Some (m\<lparr>rm_stopped := True\<rparr>)))"

section \<open>The ring keeps the last results\<close>

definition ring_ok :: "Manager \<Rightarrow> bool" where
  "ring_ok m \<longleftrightarrow> 0 < rm_cap m \<and> length (rm_ring m) = rm_cap m \<and> rm_head m < rm_cap m \<and> rm_count m \<le> rm_cap m
     \<and> (rm_count m < rm_cap m \<longrightarrow> rm_head m = rm_count m)"

definition results :: "Manager \<Rightarrow> ReplayResult list" where
  "results m = (if rm_count m < rm_cap m then take (rm_count m) (rm_ring m) else drop (rm_head m) (rm_ring m) @ take (rm_head m) (rm_ring m))"

lemma NewManager_ok: "NewManager cfg = Some m \<Longrightarrow> ring_ok m \<and> results m = [] \<and> rm_cap m = 1000"
  by (auto simp: NewManager_def ring_ok_def results_def split: if_splits)

lemma store_ok: "ring_ok m \<Longrightarrow> ring_ok (store_result r m) \<and> rm_cap (store_result r m) = rm_cap m"
  by (auto simp: ring_ok_def store_result_def mod_Suc)

lemma length_results: "ring_ok m \<Longrightarrow> length (results m) = rm_count m"
  by (auto simp: ring_ok_def results_def)

lemma store_results:
  assumes ok: "ring_ok m"
  shows "results (store_result r m) = last_n (rm_cap m) (results m @ [r])"
proof (cases "rm_count m < rm_cap m")
  case True
  with ok have m: "rm_head m = rm_count m" "length (rm_ring m) = rm_cap m" by (auto simp: ring_ok_def)
  have upd: "take (Suc (rm_count m)) ((rm_ring m)[rm_count m := r]) = take (rm_count m) (rm_ring m) @ [r]"
    using m True by (simp add: take_Suc_conv_app_nth)
  show ?thesis
  proof (cases "Suc (rm_count m) < rm_cap m")
    case True
    then show ?thesis using m upd \<open>rm_count m < rm_cap m\<close> by (simp add: results_def store_result_def last_n_def)
  next
    case False
    then have c: "Suc (rm_count m) = rm_cap m" using True by simp
    then have "(rm_ring m)[rm_count m := r] = take (rm_count m) (rm_ring m) @ [r]" using upd m by simp
    then show ?thesis using m c True by (simp add: results_def store_result_def last_n_def)
  qed
next
  case False
  with ok have m: "rm_count m = rm_cap m" "length (rm_ring m) = rm_cap m" "rm_head m < rm_cap m" by (auto simp: ring_ok_def)
  let ?ring = "rm_ring m" and ?h = "rm_head m"
  have split: "?ring = take ?h ?ring @ (?ring ! ?h) # drop (Suc ?h) ?ring" using m by (simp add: id_take_nth_drop)
  have "last_n (rm_cap m) (results m @ [r]) = drop (Suc ?h) ?ring @ take ?h ?ring @ [r]"
    using m by (simp add: results_def last_n_def Cons_nth_drop_Suc [symmetric])
  moreover have "results (store_result r m) = drop (Suc ?h) ?ring @ take ?h ?ring @ [r]"
  proof (cases "Suc ?h = rm_cap m")
    case True
    then show ?thesis using m by (simp add: results_def store_result_def upd_conv_take_nth_drop)
  next
    case False
    then have "Suc ?h < rm_cap m" using m by simp
    then show ?thesis using m by (simp add: results_def store_result_def take_Suc_conv_app_nth)
  qed
  ultimately show ?thesis by simp
qed

interpretation replay_ring: recent_log store_result results rm_cap ring_ok
proof unfold_locales
  show "length (results m) \<le> rm_cap m" if "ring_ok m" for m
    using that length_results [OF that] by (simp add: ring_ok_def)
qed (simp_all add: store_ok store_results)

lemma nth_results:
  assumes ok: "ring_ok m" and i: "i < rm_count m"
  shows "results m ! i = rm_ring m ! (((rm_head m + rm_cap m - rm_count m) mod rm_cap m + i) mod rm_cap m)"
proof (cases "rm_count m < rm_cap m")
  case True
  then show ?thesis using ok i by (simp add: ring_ok_def results_def)
next
  case False
  then have m: "rm_count m = rm_cap m" "rm_head m < rm_cap m" "length (rm_ring m) = rm_cap m" using ok by (auto simp: ring_ok_def)
  then show ?thesis using i by (auto simp: results_def nth_append mod_if add.commute)
qed

text \<open>So the modular reads of \<^verbatim>\<open>Recent\<close> return the newest entries in the order they were stored.\<close>

lemma Recent_results:
  assumes ok: "ring_ok m" and n: "0 \<le> n"
  shows "Recent n m = Some (last_n (nat n) (results m))"
proof -
  define k where "k = min (nat n) (rm_count m)"
  have k: "(if int (rm_count m) < n then int (rm_count m) else n) = int k" "k \<le> rm_count m"
    using n by (auto simp: k_def)
  have cap: "0 < rm_cap m" using ok by (simp add: ring_ok_def)
  have "map (\<lambda>i. rm_ring m ! (((rm_head m + rm_cap m - rm_count m) mod rm_cap m + (rm_count m - k) + i) mod rm_cap m)) [0..<k]
      = last_n (nat n) (results m)"
  proof (rule nth_equalityI)
    show "length (map (\<lambda>i. rm_ring m ! (((rm_head m + rm_cap m - rm_count m) mod rm_cap m + (rm_count m - k) + i) mod rm_cap m)) [0..<k])
        = length (last_n (nat n) (results m))"
      by (simp add: length_last_n length_results [OF ok] k_def)
  next
    fix i
    assume "i < length (map (\<lambda>i. rm_ring m ! (((rm_head m + rm_cap m - rm_count m) mod rm_cap m + (rm_count m - k) + i) mod rm_cap m)) [0..<k])"
    then have i: "i < k" by simp
    have "rm_count m - nat n = rm_count m - k" by (simp add: k_def)
    then have "last_n (nat n) (results m) ! i = results m ! (rm_count m - k + i)"
      using i k(2) length_results [OF ok] by (simp add: last_n_def)
    also have "\<dots> = rm_ring m ! (((rm_head m + rm_cap m - rm_count m) mod rm_cap m + (rm_count m - k + i)) mod rm_cap m)"
      using i k(2) by (intro nth_results [OF ok]) simp
    finally show "map (\<lambda>i. rm_ring m ! (((rm_head m + rm_cap m - rm_count m) mod rm_cap m + (rm_count m - k) + i) mod rm_cap m)) [0..<k] ! i
        = last_n (nat n) (results m) ! i"
      using i by (simp add: add.assoc)
  qed
  then show ?thesis using k by (simp add: Recent_def Let_def)
qed

text \<open>A new manager, whatever results are stored in it, reports the newest ones: the last \<open>n\<close> of them in the order in which they
  were stored, and at most the thousand that the ring holds.
\<close>

theorem replay_keeps_latest:
  assumes "NewManager cfg = Some m" and "0 \<le> n"
  shows "Recent n (fold store_result rs m) = Some (last_n (min (nat n) 1000) rs)"
proof -
  have m: "ring_ok m" "results m = []" "rm_cap m = 1000" using NewManager_ok [OF assms(1)] by auto
  have run: "ring_ok (fold store_result rs m)" "results (fold store_result rs m) = last_n 1000 rs"
    using replay_ring.run_entries [OF m(1), of rs] m by auto
  have "last_n (nat n) (last_n 1000 rs) = last_n (min (nat n) 1000) rs"
    by (auto simp: last_n_def min_def intro: arg_cong [where f = "\<lambda>k. drop k rs"])
  then show ?thesis using Recent_results [OF run(1) assms(2)] run(2) by simp
qed

theorem replay_keeps_latest_witness:
  "map_option (map rs_ID) (Recent 2 (fold store_result (map (\<lambda>c. zero_ReplayResult\<lparr>rs_ID := [c]\<rparr>) ''abc'')
     (the (NewManager \<lparr>rpc_Enabled = True, rpc_Routes = []\<rparr>)))) = Some [''b'', ''c'']"
proof -
  have "NewManager \<lparr>rpc_Enabled = True, rpc_Routes = []\<rparr> = Some (the (NewManager \<lparr>rpc_Enabled = True, rpc_Routes = []\<rparr>))"
    by (simp add: NewManager_def)
  from replay_keeps_latest [OF this, of 2 "map (\<lambda>c. zero_ReplayResult\<lparr>rs_ID := [c]\<rparr>) ''abc''"]
  show ?thesis by (simp add: last_n_def)
qed

text \<open>The results of a manager that is disabled or closed do not change.\<close>

lemma closed_manager_replays_nothing:
  "mgr = None \<or> rm_stopped (the mgr) \<Longrightarrow> fst (Replay E err_text random req p l mgr h w) = mgr"
  by (auto simp: Replay_def Let_def split: option.split prod.split)

text \<open>
  A route whose sample rate lies clearly below one per cent never replays while the clock is past 1970: the rate is cut to whole
  per cents.
\<close>

theorem small_rate_never_replays:
  assumes rate: "0 \<le> rr_SampleRate route" "rr_SampleRate route \<le> 99 / 10000" and now: "0 \<le> time_UnixNano now"
  shows "\<not> sampled now route"
proof -
  have "fmul (rr_SampleRate route) 100 \<le> float64 (99 / 100)"
    unfolding fmul_def using rate by (intro float64_mono) simp
  also have "\<dots> < 1" by code_simp
  finally have "int_of_float (fmul (rr_SampleRate route) 100) \<le> 0"
    using rate by (simp add: int_of_float_def fmul_nonneg)
  moreover have "0 \<le> rem_int (time_UnixNano now) 100"
    using now by (simp add: rem_int_nonneg)
  ultimately show ?thesis using rate by (simp add: sampled_def)
qed

end
