(* ===== verification/Mcp_Client.thy ===== *)
theory Mcp_Client
  imports Adapter_Core
begin

text \<open>
  The client of an MCP server: the transport (\<^verbatim>\<open>internal/mcp/transport.go\<close>), the messages it decodes (\<^verbatim>\<open>internal/mcp/jsonrpc.go\<close>) and the calls
  (\<^verbatim>\<open>internal/mcp/client.go\<close>). The network, the syntax of JSON and the clock are parameters; a header list is the sequence of \<^verbatim>\<open>Set\<close> calls, in which a later
  one replaces an earlier one. The map \<^verbatim>\<open>pending\<close> is written but never read, and the channel \<^verbatim>\<open>sseDone\<close> is never made, so both are left out.

  \<^verbatim>\<open>NewStreamableHTTP\<close> does not store its logger: the warning about a full notification channel is a call on a nil pointer, a panic, which is \<^term>\<open>None\<close> here.
  The lemmas show which tools a client lists and under which names, that an answer taken from an event stream has the identifier of the request, and how the identifiers
  and the session of a transport develop.
\<close>

section \<open>Messages\<close>

record Notification =
  nf_JSONRPC :: string
  nf_Method :: string
  nf_Params :: "json option"

definition unmarshal_Notification :: "Notification decoder" where
  "unmarshal_Notification = decode_struct
     [(''jsonrpc'', \<lambda>j v. map_option (\<lambda>x. v\<lparr>nf_JSONRPC := x\<rparr>) (decode_string j (nf_JSONRPC v))),
      (''method'', \<lambda>j v. map_option (\<lambda>x. v\<lparr>nf_Method := x\<rparr>) (decode_string j (nf_Method v))),
      (''params'', \<lambda>j v. map_option (\<lambda>x. v\<lparr>nf_Params := x\<rparr>) (decode_any j (nf_Params v)))]"

definition zero_Notification :: Notification where
  "zero_Notification = \<lparr>nf_JSONRPC = '''', nf_Method = '''', nf_Params = None\<rparr>"

definition unmarshal_RPCError :: "RPCError decoder" where
  "unmarshal_RPCError = decode_struct
     [(''code'', \<lambda>j v. map_option (\<lambda>x. v\<lparr>rpc_Code := x\<rparr>) (decode_int j (rpc_Code v))),
      (''message'', \<lambda>j v. map_option (\<lambda>x. v\<lparr>rpc_Message := x\<rparr>) (decode_string j (rpc_Message v))),
      (''data'', \<lambda>j v. Some v)]"

record Response =
  rsp_JSONRPC :: string
  rsp_ID :: int
  rsp_Result :: raw
  rsp_Error :: "RPCError option"

definition unmarshal_RPCResponse :: "Response decoder" where
  "unmarshal_RPCResponse = decode_struct
     [(''jsonrpc'', \<lambda>j v. map_option (\<lambda>x. v\<lparr>rsp_JSONRPC := x\<rparr>) (decode_string j (rsp_JSONRPC v))),
      (''id'', \<lambda>j v. map_option (\<lambda>x. v\<lparr>rsp_ID := x\<rparr>) (decode_int j (rsp_ID v))),
      (''result'', \<lambda>j v. map_option (\<lambda>x. v\<lparr>rsp_Result := x\<rparr>) (decode_raw j (rsp_Result v))),
      (''error'', \<lambda>j v. map_option (\<lambda>x. v\<lparr>rsp_Error := x\<rparr>) (decode_pointer unmarshal_RPCError (rpc_error 0 '''') j (rsp_Error v)))]"

definition zero_RPCResponse :: Response where
  "zero_RPCResponse = \<lparr>rsp_JSONRPC = '''', rsp_ID = 0, rsp_Result = None, rsp_Error = None\<rparr>"

text \<open>The part of a message that tells responses and notifications apart.\<close>

record message_base =
  mb_JSONRPC :: string
  mb_ID :: "int option"
  mb_Method :: string

definition unmarshal_message_base :: "message_base decoder" where
  "unmarshal_message_base = decode_struct
     [(''jsonrpc'', \<lambda>j v. map_option (\<lambda>x. v\<lparr>mb_JSONRPC := x\<rparr>) (decode_string j (mb_JSONRPC v))),
      (''id'', \<lambda>j v. map_option (\<lambda>x. v\<lparr>mb_ID := x\<rparr>) (decode_pointer decode_int 0 j (mb_ID v))),
      (''method'', \<lambda>j v. map_option (\<lambda>x. v\<lparr>mb_Method := x\<rparr>) (decode_string j (mb_Method v)))]"

definition zero_message_base :: message_base where
  "zero_message_base = \<lparr>mb_JSONRPC = '''', mb_ID = None, mb_Method = ''''\<rparr>"

section \<open>The transport\<close>

text \<open>An answer with the two headers that are read.\<close>

record mcp_http_answer =
  ha_ContentType :: string
  ha_SessionId :: string
  ha_Answer :: http_answer

text \<open>\<open>nt_first\<close> is the first value of a body, what \<^verbatim>\<open>json.Decoder\<close> reads; \<open>nt_canceled\<close> tells after how many lines the context of the call is done.\<close>

record 'w mcp_net =
  nt_do :: "out_request \<Rightarrow> 'w \<Rightarrow> (string + mcp_http_answer) \<times> 'w"
  nt_badURL :: "string \<Rightarrow> string option"
  nt_parse :: "string \<Rightarrow> json option"
  nt_first :: "http_answer \<Rightarrow> json option"
  nt_now :: "'w \<Rightarrow> gotime \<times> 'w"
  nt_canceled :: "'w \<Rightarrow> (nat \<times> string) option"

record StreamableHTTP =
  st_url :: string
  st_headers :: "(string, string) gomap"
  st_timeout :: duration
  st_sessionID :: string
  st_nextID :: int
  st_notifCh :: "Notification list"

definition NewStreamableHTTP :: "string \<Rightarrow> (string, string) gomap \<Rightarrow> duration \<Rightarrow> StreamableHTTP" where
  "NewStreamableHTTP url headers timeout =
     \<lparr>st_url = url, st_headers = headers, st_timeout = (if timeout \<le> 0 then 10 * time_Second else timeout),
      st_sessionID = '''', st_nextID = 0, st_notifCh = []\<rparr>"

definition transport_headers :: "(string \<times> string) list \<Rightarrow> StreamableHTTP \<Rightarrow> (string \<times> string) list" where
  "transport_headers accept t =
     (''Content-Type'', ''application/json'') # accept @ (''MCP-Protocol-Version'', ProtocolVersion)
     # (if st_sessionID t = '''' then [] else [(''MCP-Session-Id'', st_sessionID t)]) @ st_headers t"

text \<open>One event of a stream: our response, a notification for the channel of 64 places, or something to skip.\<close>

definition sse_message ::
  "'w mcp_net \<Rightarrow> int \<Rightarrow> string \<Rightarrow> Notification list \<Rightarrow> ((string + Response) option \<times> Notification list) option" where
  "sse_message N expectedID data ch =
     (case nt_parse N data of
        None \<Rightarrow> Some (None, ch)
      | Some j \<Rightarrow>
          (case unmarshal_message_base j zero_message_base of
             None \<Rightarrow> Some (None, ch)
           | Some base \<Rightarrow>
               if mb_ID base = Some expectedID
               then Some (Some (case unmarshal_RPCResponse j zero_RPCResponse of
                                  None \<Rightarrow> Inl ''decode SSE response''
                                | Some resp \<Rightarrow> Inr resp), ch)
               else if mb_Method base \<noteq> '''' \<and> mb_ID base = None
               then (case unmarshal_Notification j zero_Notification of
                       None \<Rightarrow> Some (None, ch)
                     | Some notif \<Rightarrow> if length ch < 64 then Some (None, ch @ [notif]) else None)
               else Some (None, ch)))"

fun sse_responses ::
  "'w mcp_net \<Rightarrow> int \<Rightarrow> (nat \<times> string) option \<Rightarrow> string list \<Rightarrow> string \<Rightarrow> Notification list \<Rightarrow> ((string + Response) \<times> Notification list) option" where
  "sse_responses N expectedID canceled [] buf ch =
     Some (case (if buf = '''' then None else nt_parse N buf \<bind> (\<lambda>j. unmarshal_RPCResponse j zero_RPCResponse)) of
             Some resp \<Rightarrow> if rsp_ID resp = expectedID then Inr resp
                          else Inl (''SSE stream ended without response for id '' @ itoa expectedID)
           | None \<Rightarrow> Inl (''SSE stream ended without response for id '' @ itoa expectedID), ch)"
| "sse_responses N expectedID canceled (line # ls) buf ch =
     (case canceled of
        Some (0, e) \<Rightarrow> Some (Inl e, ch)
      | _ \<Rightarrow>
          let canceled = map_option (\<lambda>(n, e). (n - 1, e)) canceled
          in if line = '''' then
               (if buf = '''' then sse_responses N expectedID canceled ls '''' ch
                else (case sse_message N expectedID buf ch of
                        None \<Rightarrow> None
                      | Some (Some r, ch) \<Rightarrow> Some (r, ch)
                      | Some (None, ch) \<Rightarrow> sse_responses N expectedID canceled ls '''' ch))
             else if strings_HasPrefix line ''data: '' then sse_responses N expectedID canceled ls (buf @ drop 6 line) ch
             else if strings_HasPrefix line ''data:'' then sse_responses N expectedID canceled ls (buf @ drop 5 line) ch
             else sse_responses N expectedID canceled ls buf ch)"

definition readSSEResponse ::
  "'w mcp_net \<Rightarrow> int \<Rightarrow> http_answer \<Rightarrow> StreamableHTTP \<Rightarrow> 'w \<Rightarrow> ((string + Response) \<times> StreamableHTTP) option" where
  "readSSEResponse N expectedID body t w =
     map_option (\<lambda>(r, ch). (r, t\<lparr>st_notifCh := ch\<rparr>))
       (sse_responses N expectedID (nt_canceled N w) (scan_lines body) '''' (st_notifCh t))"

definition rpc_message :: "int option \<Rightarrow> string \<Rightarrow> json option \<Rightarrow> json" where
  "rpc_message i method params =
     encode_object [(''jsonrpc'', Some (JStr JSONRPCVersion)), (''id'', map_option JInt i), (''method'', Some (JStr method)), (''params'', params)]"

definition decode_body :: "'w mcp_net \<Rightarrow> string \<Rightarrow> http_answer \<Rightarrow> string + Response" where
  "decode_body N err a =
     (case nt_first N a \<bind> (\<lambda>j. unmarshal_RPCResponse j zero_RPCResponse) of None \<Rightarrow> Inl err | Some resp \<Rightarrow> Inr resp)"

definition SendRequest ::
  "'w mcp_net \<Rightarrow> string \<Rightarrow> json option \<Rightarrow> StreamableHTTP \<Rightarrow> 'w \<Rightarrow> ((string + Response) \<times> StreamableHTTP \<times> 'w) option" where
  "SendRequest N method params t w =
     (let i = wrap64 (st_nextID t + 1);
          t = t\<lparr>st_nextID := i\<rparr>
      in case nt_badURL N (st_url t) of
           Some e \<Rightarrow> Some (Inl (''create request: '' @ e), t, w)
         | None \<Rightarrow>
             (case nt_do N \<lparr>or_URL = st_url t,
                     or_Headers = transport_headers [(''Accept'', ''application/json, text/event-stream'')] t,
                     or_Body = rpc_message (Some i) method params\<rparr> w of
                (Inl e, w) \<Rightarrow> Some (Inl (''send request: '' @ e), t, w)
              | (Inr a, w) \<Rightarrow>
                  let t = (if ha_SessionId a = '''' then t else t\<lparr>st_sessionID := ha_SessionId a\<rparr>)
                  in if strings_Contains (ha_ContentType a) ''application/json''
                     then Some (decode_body N ''decode response'' (ha_Answer a), t, w)
                     else if strings_Contains (ha_ContentType a) ''text/event-stream''
                     then map_option (\<lambda>(r, t). (r, t, w)) (readSSEResponse N i (ha_Answer a) t w)
                     else Some (decode_body N (''unexpected content type '' @ go_quote (ha_ContentType a)) (ha_Answer a), t, w)))"

definition SendNotification ::
  "'w mcp_net \<Rightarrow> string \<Rightarrow> json option \<Rightarrow> StreamableHTTP \<Rightarrow> 'w \<Rightarrow> string option \<times> 'w" where
  "SendNotification N method params t w =
     (case nt_badURL N (st_url t) of
        Some e \<Rightarrow> (Some (''create notification request: '' @ e), w)
      | None \<Rightarrow>
          (case nt_do N \<lparr>or_URL = st_url t, or_Headers = transport_headers [] t, or_Body = rpc_message None method params\<rparr> w of
             (Inl e, w) \<Rightarrow> (Some (''send notification: '' @ e), w)
           | (Inr _, w) \<Rightarrow> (None, w)))"

section \<open>The client\<close>

record Client =
  cl_name :: string
  cl_url :: string
  cl_headers :: "(string, string) gomap"
  cl_timeout :: duration
  cl_prefix :: string
  cl_transport :: "StreamableHTTP option"
  cl_tools :: "Tool list"
  cl_ready :: bool

definition NewClient :: "string \<Rightarrow> string \<Rightarrow> (string, string) gomap \<Rightarrow> duration \<Rightarrow> string \<Rightarrow> Client" where
  "NewClient name url headers timeout toolPrefix =
     \<lparr>cl_name = name, cl_url = url, cl_headers = headers, cl_timeout = timeout, cl_prefix = toolPrefix, cl_transport = None,
      cl_tools = [], cl_ready = False\<rparr>"

text \<open>A request over the client's transport, which panics before \<^verbatim>\<open>Initialize\<close>; \<open>what\<close> and \<open>fail\<close> name it in the errors, \<open>finish\<close> reads the result.\<close>

definition client_request ::
  "'w mcp_net \<Rightarrow> string \<Rightarrow> json option \<Rightarrow> Client \<Rightarrow> 'w \<Rightarrow> ((string + Response) \<times> Client \<times> 'w) option" where
  "client_request N method params c w =
     (case cl_transport c of
        None \<Rightarrow> None
      | Some t \<Rightarrow> map_option (\<lambda>(r, t, w). (r, c\<lparr>cl_transport := Some t\<rparr>, w)) (SendRequest N method params t w))"

definition rpc_error_text :: "string \<Rightarrow> RPCError \<Rightarrow> string" where
  "rpc_error_text what e = what @ '' error: ['' @ itoa (rpc_Code e) @ ''] '' @ rpc_Message e"

definition decode_schema :: "(string, json) gomap option decoder" where
  "decode_schema j old =
     (case j of
        JNull \<Rightarrow> Some None
      | JObj ms \<Rightarrow> Some (Some (map_members ((case old of None \<Rightarrow> [] | Some m \<Rightarrow> m) @ map (map_prod (\<lambda>k. k) any_json) ms)))
      | _ \<Rightarrow> None)"

definition zero_Tool :: Tool where
  "zero_Tool = \<lparr>tl_Name = '''', tl_Title = '''', tl_Description = '''', tl_InputSchema = None, tl_OutputSchema = None,
     tl_ServerName = '''', tl_RawName = ''''\<rparr>"

text \<open>A definition of the server's list, decoded into the tool it becomes.\<close>

definition unmarshal_ToolDefinition :: "Tool decoder" where
  "unmarshal_ToolDefinition = decode_struct
     [(''name'', \<lambda>j v. map_option (\<lambda>x. v\<lparr>tl_Name := x\<rparr>) (decode_string j (tl_Name v))),
      (''title'', \<lambda>j v. map_option (\<lambda>x. v\<lparr>tl_Title := x\<rparr>) (decode_string j (tl_Title v))),
      (''description'', \<lambda>j v. map_option (\<lambda>x. v\<lparr>tl_Description := x\<rparr>) (decode_string j (tl_Description v))),
      (''inputSchema'', \<lambda>j v. map_option (\<lambda>x. v\<lparr>tl_InputSchema := x\<rparr>) (decode_schema j (tl_InputSchema v))),
      (''outputSchema'', \<lambda>j v. map_option (\<lambda>x. v\<lparr>tl_OutputSchema := x\<rparr>) (decode_schema j (tl_OutputSchema v)))]"

definition unmarshal_ListToolsResult :: "Tool list decoder" where
  "unmarshal_ListToolsResult = decode_struct
     [(''tools'', \<lambda>j v. decode_slice unmarshal_ToolDefinition zero_Tool j v),
      (''nextCursor'', \<lambda>j v. map_option (\<lambda>x. v) (decode_string j ''''))]"

definition namespaced :: "Client \<Rightarrow> Tool \<Rightarrow> Tool" where
  "namespaced c td =
     td\<lparr>tl_Name := cl_prefix c @ ''.'' @ tl_Name td, tl_ServerName := cl_name c, tl_RawName := tl_Name td\<rparr>"

definition ListTools :: "'w mcp_net \<Rightarrow> Client \<Rightarrow> 'w \<Rightarrow> ((string + Tool list) \<times> Client \<times> 'w) option" where
  "ListTools N c w =
     map_option (\<lambda>(r, c, w).
       (case r of
          Inl e \<Rightarrow> Inl (''tools/list request failed: '' @ e)
        | Inr resp \<Rightarrow>
            (case rsp_Error resp of
               Some e \<Rightarrow> Inl (rpc_error_text ''tools/list'' e)
             | None \<Rightarrow>
                 (case rsp_Result resp \<bind> (\<lambda>j. unmarshal_ListToolsResult j []) of
                    None \<Rightarrow> Inl ''parse tools/list result''
                  | Some tds \<Rightarrow> Inr (map (namespaced c) tds))), c, w))
       (client_request N ''tools/list'' (Some (JObj [])) c w)"

definition RefreshTools :: "'w mcp_net \<Rightarrow> Client \<Rightarrow> 'w \<Rightarrow> (string option \<times> Client \<times> 'w) option" where
  "RefreshTools N c w =
     map_option (\<lambda>(r, c, w). case r of Inl e \<Rightarrow> (Some e, c, w) | Inr tools \<Rightarrow> (None, c\<lparr>cl_tools := tools\<rparr>, w)) (ListTools N c w)"

definition unmarshal_ImplementationInfo :: "unit decoder" where
  "unmarshal_ImplementationInfo = decode_struct
     [(''name'', \<lambda>j v. map_option (\<lambda>x. ()) (decode_string j '''')), (''version'', \<lambda>j v. map_option (\<lambda>x. ()) (decode_string j ''''))]"

text \<open>The result of \<^verbatim>\<open>initialize\<close> is checked for its types and logged.\<close>

definition unmarshal_InitializeResult :: "unit decoder" where
  "unmarshal_InitializeResult = decode_struct
     [(''protocolVersion'', \<lambda>j v. map_option (\<lambda>x. ()) (decode_string j '''')),
      (''capabilities'', decode_struct [(''tools'', \<lambda>j v. map_option (\<lambda>x. ())
         (decode_pointer (decode_struct [(''listChanged'', \<lambda>j v. map_option (\<lambda>x. ()) (decode_bool j False))]) () j None))]),
      (''serverInfo'', unmarshal_ImplementationInfo),
      (''instructions'', \<lambda>j v. map_option (\<lambda>x. ()) (decode_string j ''''))]"

definition initialize_params :: json where
  "initialize_params = JObj
     [(''protocolVersion'', JStr ProtocolVersion), (''capabilities'', JObj [(''tools'', JObj [])]),
      (''clientInfo'', JObj [(''name'', JStr ''openlimit-gateway''), (''version'', JStr ''1.0.0'')])]"

definition Initialize :: "'w mcp_net \<Rightarrow> Client \<Rightarrow> 'w \<Rightarrow> (string option \<times> Client \<times> 'w) option" where
  "Initialize N c w =
     (let c = c\<lparr>cl_transport := Some (NewStreamableHTTP (cl_url c) (cl_headers c) (cl_timeout c))\<rparr>
      in case client_request N ''initialize'' (Some initialize_params) c w of
           None \<Rightarrow> None
         | Some (Inl e, c, w) \<Rightarrow> Some (Some (''initialize request failed: '' @ e), c, w)
         | Some (Inr resp, c, w) \<Rightarrow>
             (case rsp_Error resp of
                Some e \<Rightarrow> Some (Some (rpc_error_text ''initialize'' e), c, w)
              | None \<Rightarrow>
                  (case rsp_Result resp \<bind> (\<lambda>j. unmarshal_InitializeResult j ()) of
                     None \<Rightarrow> Some (Some ''parse initialize result'', c, w)
                   | Some _ \<Rightarrow>
                       (case SendNotification N ''notifications/initialized'' None (the (cl_transport c)) w of
                          (Some e, w) \<Rightarrow> Some (Some (''initialized notification failed: '' @ e), c, w)
                        | (None, w) \<Rightarrow>
                            map_option (\<lambda>(err, c, w). (None, c\<lparr>cl_ready := True\<rparr>, w)) (RefreshTools N c w)))))"

definition unmarshal_ToolContent :: "ToolContent decoder" where
  "unmarshal_ToolContent = decode_struct
     [(''type'', \<lambda>j v. map_option (\<lambda>x. v\<lparr>ct_Type := x\<rparr>) (decode_string j (ct_Type v))),
      (''text'', \<lambda>j v. map_option (\<lambda>x. v\<lparr>ct_Text := x\<rparr>) (decode_string j (ct_Text v))),
      (''data'', \<lambda>j v. map_option (\<lambda>x. v) (decode_string j '''')),
      (''mimeType'', \<lambda>j v. map_option (\<lambda>x. v) (decode_string j ''''))]"

definition unmarshal_CallToolResult :: "CallToolResult decoder" where
  "unmarshal_CallToolResult = decode_struct
     [(''content'', \<lambda>j v. map_option (\<lambda>x. v\<lparr>cr_Content := x\<rparr>)
         (decode_slice unmarshal_ToolContent \<lparr>ct_Type = '''', ct_Text = ''''\<rparr> j (cr_Content v))),
      (''isError'', \<lambda>j v. map_option (\<lambda>x. v\<lparr>cr_IsError := x\<rparr>) (decode_bool j (cr_IsError v)))]"

definition call_params :: "string \<Rightarrow> (string, json) gomap option \<Rightarrow> json" where
  "call_params rawName args =
     encode_object [(''name'', Some (JStr rawName)),
       (''arguments'', if args \<in> {None, Some []} then None else Some (JObj (map_members (the args))))]"

definition CallTool ::
  "'w mcp_net \<Rightarrow> string \<Rightarrow> (string, json) gomap option \<Rightarrow> Client \<Rightarrow> 'w \<Rightarrow> ((string + CallToolResult) \<times> Client \<times> 'w) option" where
  "CallTool N rawName args c w =
     map_option (\<lambda>(r, c, w).
       (case r of
          Inl e \<Rightarrow> Inl e
        | Inr resp \<Rightarrow>
            (case rsp_Error resp of
               Some e \<Rightarrow> Inl (rpc_Message e)
             | None \<Rightarrow>
                 (case rsp_Result resp \<bind> (\<lambda>j. unmarshal_CallToolResult j \<lparr>cr_Content = [], cr_IsError = False\<rparr>) of
                    None \<Rightarrow> Inl ''parse tool result''
                  | Some result \<Rightarrow> Inr result)), c, w))
       (client_request N ''tools/call'' (Some (call_params rawName args)) c w)"

definition Ping :: "'w mcp_net \<Rightarrow> Client \<Rightarrow> 'w \<Rightarrow> (string option \<times> Client \<times> 'w) option" where
  "Ping N c w =
     map_option (\<lambda>(r, c, w).
       (case r of
          Inl e \<Rightarrow> Some (''ping failed: '' @ e)
        | Inr resp \<Rightarrow> map_option (rpc_error_text ''ping'') (rsp_Error resp), c, w))
       (client_request N ''ping'' (Some (JObj [])) c w)"

definition Client_Close :: "Client \<Rightarrow> Client" where
  "Client_Close c = c\<lparr>cl_ready := False\<rparr>"

section \<open>What a call keeps\<close>

text \<open>The parts of a client that no call changes.\<close>

definition same_client :: "Client \<Rightarrow> Client \<Rightarrow> bool" where
  "same_client c c' \<longleftrightarrow> cl_name c' = cl_name c \<and> cl_prefix c' = cl_prefix c \<and> cl_url c' = cl_url c \<and> cl_headers c' = cl_headers c"

lemma same_client_refl [simp]: "same_client c c"
  by (simp add: same_client_def)

lemma same_client_trans: "same_client a b \<Longrightarrow> same_client b c \<Longrightarrow> same_client a c"
  by (simp add: same_client_def)

lemma same_client_update [simp]:
  "same_client c (c'\<lparr>cl_transport := t\<rparr>) = same_client c c'" "same_client c (c'\<lparr>cl_tools := ts\<rparr>) = same_client c c'"
  "same_client c (c'\<lparr>cl_ready := b\<rparr>) = same_client c c'" "same_client (c\<lparr>cl_transport := t\<rparr>) c' = same_client c c'"
  by (simp_all add: same_client_def)

lemma client_request_keeps:
  "client_request N method params c w = Some (r, c', w') \<Longrightarrow> same_client c c' \<and> cl_tools c' = cl_tools c \<and> cl_ready c' = cl_ready c"
  by (auto simp: client_request_def split: option.splits)

lemma Ping_keeps: "Ping N c w = Some (err, c', w') \<Longrightarrow> same_client c c' \<and> cl_tools c' = cl_tools c"
  by (auto simp: Ping_def dest: client_request_keeps)

lemma CallTool_keeps: "CallTool N raw args c w = Some (r, c', w') \<Longrightarrow> same_client c c' \<and> cl_tools c' = cl_tools c"
  by (auto simp: CallTool_def dest: client_request_keeps)

section \<open>The tools of a client\<close>

text \<open>A tool of a client carries the client's name, and its own name is the prefix, a dot and the name at the server.\<close>

definition tool_of :: "string \<Rightarrow> string \<Rightarrow> Tool \<Rightarrow> bool" where
  "tool_of server p t \<longleftrightarrow> tl_ServerName t = server \<and> tl_Name t = p @ ''.'' @ tl_RawName t"

lemma namespaced_tool [simp]: "tool_of (cl_name c) (cl_prefix c) (namespaced c td)"
  by (simp add: tool_of_def namespaced_def)

lemma ListTools_listed:
  assumes "ListTools N c w = Some (r, c', w')"
  shows "same_client c c'" and "cl_tools c' = cl_tools c" and "r = Inr ts \<Longrightarrow> list_all (tool_of (cl_name c) (cl_prefix c)) ts"
proof -
  from assms obtain q where q: "client_request N ''tools/list'' (Some (JObj [])) c w = Some (q, c', w')"
    unfolding ListTools_def by (auto split: prod.splits)
  from client_request_keeps [OF q] show same: "same_client c c'" and "cl_tools c' = cl_tools c" by auto
  show "list_all (tool_of (cl_name c) (cl_prefix c)) ts" if "r = Inr ts"
  proof -
    from that assms obtain tds where "ts = map (namespaced c') tds"
      unfolding ListTools_def by (auto simp: q split: sum.splits option.splits)
    then show ?thesis using same namespaced_tool [of c'] by (auto simp: list_all_iff same_client_def)
  qed
qed

definition client_tools_ok :: "Client \<Rightarrow> bool" where
  "client_tools_ok c \<longleftrightarrow> list_all (tool_of (cl_name c) (cl_prefix c)) (cl_tools c)"

lemma client_tools_ok_ready [simp]: "client_tools_ok (c\<lparr>cl_ready := b\<rparr>) = client_tools_ok c"
  by (simp add: client_tools_ok_def)

lemma RefreshTools_listed:
  assumes "RefreshTools N c w = Some (err, c', w')" and "client_tools_ok c"
  shows "same_client c c'" and "client_tools_ok c'" and "err \<noteq> None \<Longrightarrow> cl_tools c' = cl_tools c"
proof -
  from assms(1) obtain r d v where l: "ListTools N c w = Some (r, d, v)"
    unfolding RefreshTools_def by auto
  then have d: "(err, c') = (case r of Inl e \<Rightarrow> (Some e, d) | Inr ts \<Rightarrow> (None, d\<lparr>cl_tools := ts\<rparr>))"
    using assms(1) by (simp add: RefreshTools_def split: sum.splits)
  show "same_client c c'" using d ListTools_listed(1) [OF l] by (auto split: sum.splits)
  show "client_tools_ok c'"
    using d assms(2) ListTools_listed(1) [OF l] ListTools_listed(2) [OF l] ListTools_listed(3) [OF l]
    by (auto simp: client_tools_ok_def same_client_def split: sum.splits)
  show "cl_tools c' = cl_tools c" if "err \<noteq> None" using that d ListTools_listed(2) [OF l] by (auto split: sum.splits)
qed

lemma Initialize_listed:
  assumes "Initialize N (NewClient name url headers timeout p) w = Some (err, c', w')"
  shows "cl_name c' = name \<and> cl_prefix c' = p \<and> client_tools_ok c'"
proof -
  define c where "c = (NewClient name url headers timeout p)\<lparr>cl_transport := Some (NewStreamableHTTP url headers timeout)\<rparr>"
  have c: "cl_name c = name" "cl_prefix c = p" "cl_tools c = []" by (simp_all add: c_def NewClient_def)
  have init: "Initialize N (NewClient name url headers timeout p) w =
      (case client_request N ''initialize'' (Some initialize_params) c w of
           None \<Rightarrow> None
         | Some (Inl e, c, w) \<Rightarrow> Some (Some (''initialize request failed: '' @ e), c, w)
         | Some (Inr resp, c, w) \<Rightarrow>
             (case rsp_Error resp of
                Some e \<Rightarrow> Some (Some (rpc_error_text ''initialize'' e), c, w)
              | None \<Rightarrow>
                  (case rsp_Result resp \<bind> (\<lambda>j. unmarshal_InitializeResult j ()) of
                     None \<Rightarrow> Some (Some ''parse initialize result'', c, w)
                   | Some _ \<Rightarrow>
                       (case SendNotification N ''notifications/initialized'' None (the (cl_transport c)) w of
                          (Some e, w) \<Rightarrow> Some (Some (''initialized notification failed: '' @ e), c, w)
                        | (None, w) \<Rightarrow>
                            map_option (\<lambda>(err, c, w). (None, c\<lparr>cl_ready := True\<rparr>, w)) (RefreshTools N c w)))))"
    by (simp add: Initialize_def Let_def c_def NewClient_def)
  from assms obtain r d v where d: "client_request N ''initialize'' (Some initialize_params) c w = Some (r, d, v)"
    unfolding init by (auto split: option.splits)
  have dc: "cl_name d = name" "cl_prefix d = p" "client_tools_ok d"
    using client_request_keeps [OF d] c by (auto simp: same_client_def client_tools_ok_def)
  have refreshed: "cl_name e = name \<and> cl_prefix e = p \<and> client_tools_ok e" if "RefreshTools N d u = Some (err', e, u')" for u err' e u'
    using RefreshTools_listed [OF that dc(3)] dc by (simp add: same_client_def)
  show ?thesis
    using assms dc unfolding init d
    by (auto split: sum.splits option.splits prod.splits dest!: refreshed)
qed

section \<open>Answers of an event stream\<close>

text \<open>The two decoders of one message agree on its identifier.\<close>

definition ids_agree :: "message_base \<Rightarrow> Response \<Rightarrow> bool" where
  "ids_agree b r \<longleftrightarrow> (\<forall>x. mb_ID b = Some x \<longrightarrow> rsp_ID r = x)"

definition base_fields :: "(string \<times> message_base decoder) list" where
  "base_fields =
     [(''jsonrpc'', \<lambda>j v. map_option (\<lambda>x. v\<lparr>mb_JSONRPC := x\<rparr>) (decode_string j (mb_JSONRPC v))),
      (''id'', \<lambda>j v. map_option (\<lambda>x. v\<lparr>mb_ID := x\<rparr>) (decode_pointer decode_int 0 j (mb_ID v))),
      (''method'', \<lambda>j v. map_option (\<lambda>x. v\<lparr>mb_Method := x\<rparr>) (decode_string j (mb_Method v)))]"

definition response_fields :: "(string \<times> Response decoder) list" where
  "response_fields =
     [(''jsonrpc'', \<lambda>j v. map_option (\<lambda>x. v\<lparr>rsp_JSONRPC := x\<rparr>) (decode_string j (rsp_JSONRPC v))),
      (''id'', \<lambda>j v. map_option (\<lambda>x. v\<lparr>rsp_ID := x\<rparr>) (decode_int j (rsp_ID v))),
      (''result'', \<lambda>j v. map_option (\<lambda>x. v\<lparr>rsp_Result := x\<rparr>) (decode_raw j (rsp_Result v))),
      (''error'', \<lambda>j v. map_option (\<lambda>x. v\<lparr>rsp_Error := x\<rparr>) (decode_pointer unmarshal_RPCError (rpc_error 0 '''') j (rsp_Error v)))]"

lemma lower_names:
  "strings_ToLower ''jsonrpc'' = ''jsonrpc''" "strings_ToLower ''id'' = ''id''" "strings_ToLower ''method'' = ''method''"
  "strings_ToLower ''result'' = ''result''" "strings_ToLower ''error'' = ''error''"
  by code_simp+

lemma id_member_agrees:
  assumes "find_field base_fields k j b = Some b'" and "find_field response_fields k j r = Some r'"
    and "strings_ToLower k = ''id''"
  shows "ids_agree b' r'"
proof -
  have "k \<notin> {''jsonrpc'', ''method'', ''result'', ''error''}" using assms(3) lower_names by auto
  note k = this assms(3) lower_names
  have "find_field base_fields k j b = map_option (\<lambda>x. b\<lparr>mb_ID := x\<rparr>) (decode_pointer decode_int 0 j (mb_ID b))"
    using k by (simp add: base_fields_def find_field_def strings_EqualFold_def)
  moreover have "find_field response_fields k j r = map_option (\<lambda>x. r\<lparr>rsp_ID := x\<rparr>) (decode_int j (rsp_ID r))"
    using k by (simp add: response_fields_def find_field_def strings_EqualFold_def)
  ultimately show ?thesis using assms(1,2) by (cases j) (auto simp: ids_agree_def split: if_splits)
qed

lemma other_member_keeps:
  assumes "strings_ToLower k \<noteq> ''id''"
  shows "find_field base_fields k j b = Some b' \<Longrightarrow> mb_ID b' = mb_ID b"
    and "find_field response_fields k j r = Some r' \<Longrightarrow> rsp_ID r' = rsp_ID r"
proof -
  have "k \<noteq> ''id''" using assms lower_names by auto
  note k = this assms lower_names
  show "find_field base_fields k j b = Some b' \<Longrightarrow> mb_ID b' = mb_ID b"
    using k by (auto simp: base_fields_def find_field_def strings_EqualFold_def split: if_splits)
  show "find_field response_fields k j r = Some r' \<Longrightarrow> rsp_ID r' = rsp_ID r"
    using k by (auto simp: response_fields_def find_field_def strings_EqualFold_def split: if_splits)
qed

lemma members_agree:
  "decode_members base_fields ms b = Some b' \<Longrightarrow> decode_members response_fields ms r = Some r' \<Longrightarrow> ids_agree b r \<Longrightarrow> ids_agree b' r'"
proof (induction ms arbitrary: b r)
  case Nil
  then show ?case by simp
next
  case (Cons m ms)
  from Cons.prems(1) obtain b1 where b1: "find_field base_fields (fst m) (snd m) b = Some b1" "decode_members base_fields ms b1 = Some b'"
    by (auto simp: bind_eq_Some_conv)
  from Cons.prems(2) obtain r1 where r1: "find_field response_fields (fst m) (snd m) r = Some r1" "decode_members response_fields ms r1 = Some r'"
    by (auto simp: bind_eq_Some_conv)
  have "ids_agree b1 r1"
  proof (cases "strings_ToLower (fst m) = ''id''")
    case True
    then show ?thesis using id_member_agrees b1(1) r1(1) by blast
  next
    case False
    then show ?thesis using other_member_keeps b1(1) r1(1) Cons.prems(3) unfolding ids_agree_def by metis
  qed
  then show ?case using Cons.IH b1(2) r1(2) by blast
qed

lemma message_ids_agree:
  assumes "unmarshal_message_base j zero_message_base = Some b" and "unmarshal_RPCResponse j zero_RPCResponse = Some r"
  shows "ids_agree b r"
  using assms members_agree [of _ zero_message_base b zero_RPCResponse r]
  by (cases j) (auto simp: unmarshal_message_base_def unmarshal_RPCResponse_def base_fields_def [symmetric] response_fields_def [symmetric]
      ids_agree_def zero_message_base_def zero_RPCResponse_def)

lemma sse_message_ours: "sse_message N i data ch = Some (Some (Inr resp), ch') \<Longrightarrow> rsp_ID resp = i"
  by (auto simp: sse_message_def ids_agree_def dest: message_ids_agree split: option.splits if_splits)

lemma sse_answer_ours: "sse_responses N i canceled ls buf ch = Some (Inr resp, ch') \<Longrightarrow> rsp_ID resp = i"
proof (induction N i canceled ls buf ch rule: sse_responses.induct)
  case (1 N i canceled buf ch)
  then show ?case by (auto split: option.splits if_splits)
next
  case (2 N i canceled line ls buf ch)
  then show ?case
    by (auto simp: Let_def split: option.splits if_splits prod.splits nat.splits dest: sse_message_ours)
qed

text \<open>The 65th notification that waits makes the reader of a stream panic.\<close>

theorem notification_overflow_panics:
  assumes "64 \<le> length ch" and "nt_parse N data = Some (JObj [(''method'', JStr (c # cs))])"
  shows "sse_message N i data ch = None"
proof -
  have "unmarshal_message_base (JObj [(''method'', JStr (c # cs))]) zero_message_base = Some (zero_message_base\<lparr>mb_Method := c # cs\<rparr>)"
    by (simp add: unmarshal_message_base_def zero_message_base_def find_field_def)
  moreover have "unmarshal_Notification (JObj [(''method'', JStr (c # cs))]) zero_Notification = Some (zero_Notification\<lparr>nf_Method := c # cs\<rparr>)"
    by (simp add: unmarshal_Notification_def zero_Notification_def find_field_def)
  ultimately show ?thesis using assms by (simp add: sse_message_def zero_message_base_def)
qed

text \<open>The status of an answer is not looked at: an error page in JSON counts as a successful ping.\<close>

theorem error_page_answers_ping:
  assumes "cl_transport c = Some t" and "nt_badURL N (st_url t) = None"
    and "\<And>r. nt_do N r w = (Inr a, w')" and "strings_Contains (ha_ContentType a) ''application/json''"
    and "nt_first N (ha_Answer a) = Some (JObj [(''detail'', JStr s)])"
  shows "\<exists>c'. Ping N c w = Some (None, c', w')"
proof -
  have "unmarshal_RPCResponse (JObj [(''detail'', JStr s)]) zero_RPCResponse = Some zero_RPCResponse"
    using lower_names by (simp add: unmarshal_RPCResponse_def find_field_def strings_EqualFold_def)
      (simp add: strings_ToLower_def lower_char_def)
  then show ?thesis
    using assms by (simp add: Ping_def client_request_def SendRequest_def Let_def decode_body_def zero_RPCResponse_def)
qed

section \<open>Transports\<close>

lemma client_request_transport: "client_request N method params c w = Some (r, c', w') \<Longrightarrow> cl_transport c' \<noteq> None"
  by (auto simp: client_request_def split: option.splits)

lemma RefreshTools_transport: "RefreshTools N c w = Some (err, c', w') \<Longrightarrow> cl_transport c' \<noteq> None"
  unfolding RefreshTools_def ListTools_def
  by (cases "client_request N ''tools/list'' (Some (JObj [])) c w") (auto dest!: client_request_transport split: sum.splits option.splits)

lemma Initialize_transport: "Initialize N c w = Some (err, c', w') \<Longrightarrow> cl_transport c' \<noteq> None"
  unfolding Initialize_def Let_def
  by (auto dest!: client_request_transport RefreshTools_transport split: option.splits sum.splits prod.splits)

lemma Ping_transport: "Ping N c w = Some (err, c', w') \<Longrightarrow> cl_transport c' \<noteq> None"
  by (auto simp: Ping_def dest: client_request_transport)

lemma CallTool_transport: "CallTool N raw args c w = Some (r, c', w') \<Longrightarrow> cl_transport c' \<noteq> None"
  by (auto simp: CallTool_def dest: client_request_transport)

end
