(* ===== verification/Mcp_Manager.thy ===== *)
theory Mcp_Manager
  imports Mcp_Client
begin

text \<open>
  The manager of the MCP servers, \<^verbatim>\<open>internal/mcp/manager.go\<close>: it connects the configured servers, pings them every half minute, connects them again after a failure and
  reads their lists of tools again when they say so; the registry of tools is updated with each of these events. The goroutines are events on one state: a round of
  the health check, a notification that a listener takes, a refresh timer that fires, a call of a tool. The bodies of the check and of the refresh run as one step; the
  two parts of a refresh are definitions of their own, since a ping may fall between them. A panic is \<^term>\<open>None\<close>.

  The interface \<open>owned_registry\<close> says what the manager relies on in the registry. The main theorem: with prefixes that tell the servers apart the registry holds, after
  every event, exactly the tools of the servers that are connected.
\<close>

section \<open>The interface of the registry\<close>

definition last_named :: "string \<Rightarrow> Tool list \<Rightarrow> Tool option" where
  "last_named name tools = find (\<lambda>t. tl_Name t = name) (rev tools)"

text \<open>What each server offers, told apart by names and owners.\<close>

definition told_apart :: "(string \<Rightarrow> Tool list) \<Rightarrow> bool" where
  "told_apart view \<longleftrightarrow>
     (\<forall>s. \<forall>t \<in> set (view s). tl_ServerName t = s) \<and>
     (\<forall>s s'. \<forall>t \<in> set (view s). \<forall>t' \<in> set (view s'). tl_Name t = tl_Name t' \<longrightarrow> s = s')"

lemma last_named_Some: "last_named n ts = Some t \<Longrightarrow> t \<in> set ts \<and> tl_Name t = n"
  by (auto simp: last_named_def dest: find_SomeD)

lemma last_named_None: "last_named n ts = None \<longleftrightarrow> (\<forall>t \<in> set ts. tl_Name t \<noteq> n)"
  by (auto simp: last_named_def find_None_iff)

locale owned_registry =
  fixes lookup :: "string \<Rightarrow> 'r \<Rightarrow> Tool option"
    and replace :: "string \<Rightarrow> Tool list \<Rightarrow> 'r \<Rightarrow> 'r"
    and remove :: "string \<Rightarrow> 'r \<Rightarrow> 'r"
    and ok :: "'r \<Rightarrow> bool"
  assumes replace_ok: "ok r \<Longrightarrow> ok (replace s ts r)"
    and lookup_replace: "ok r \<Longrightarrow> lookup n (replace s ts r) =
      (case last_named n ts of
         Some t \<Rightarrow> Some t
       | None \<Rightarrow> (case lookup n r of None \<Rightarrow> None | Some t \<Rightarrow> if tl_ServerName t = s then None else Some t))"
    and remove_replace: "remove s r = replace s [] r"
begin

text \<open>The registry shows what the servers offer.\<close>

definition shows_view :: "'r \<Rightarrow> (string \<Rightarrow> Tool list) \<Rightarrow> bool" where
  "shows_view r view \<longleftrightarrow> ok r \<and> (\<forall>n t. lookup n r = Some t \<longleftrightarrow> (\<exists>s. last_named n (view s) = Some t))"

lemma shows_viewI: "ok r \<Longrightarrow> (\<And>n t. lookup n r = Some t \<longleftrightarrow> (\<exists>s. last_named n (view s) = Some t)) \<Longrightarrow> shows_view r view"
  by (simp add: shows_view_def)

lemma replace_shows:
  assumes r: "shows_view r view" and old: "told_apart view" and new: "told_apart (view(s := ts))"
  shows "shows_view (replace s ts r) (view(s := ts))"
proof (rule shows_viewI)
  have ok: "ok r" using r by (simp add: shows_view_def)
  then show "ok (replace s ts r)" by (rule replace_ok)
  fix n t
  show "lookup n (replace s ts r) = Some t \<longleftrightarrow> (\<exists>s'. last_named n ((view(s := ts)) s') = Some t)"
  proof (cases "last_named n ts")
    case None
    have "lookup n (replace s ts r) = Some t \<longleftrightarrow> lookup n r = Some t \<and> tl_ServerName t \<noteq> s"
      using lookup_replace [OF ok] None by (auto split: option.splits)
    also have "\<dots> \<longleftrightarrow> (\<exists>s'. last_named n (view s') = Some t \<and> s' \<noteq> s)"
      using r old last_named_Some unfolding shows_view_def told_apart_def by metis
    also have "\<dots> \<longleftrightarrow> (\<exists>s'. last_named n ((view(s := ts)) s') = Some t)"
      using None by auto
    finally show ?thesis .
  next
    case (Some u)
    have "s' = s" if "last_named n ((view(s := ts)) s') = Some t" for s' t
    proof -
      have "t \<in> set ((view(s := ts)) s')" "u \<in> set ((view(s := ts)) s)" "tl_Name t = tl_Name u"
        using last_named_Some [OF that] last_named_Some [OF Some] by auto
      then show ?thesis using new unfolding told_apart_def by blast
    qed
    then have "(\<exists>s'. last_named n ((view(s := ts)) s') = Some t) \<longleftrightarrow> u = t"
      using Some by (metis fun_upd_same option.inject)
    then show ?thesis using lookup_replace [OF ok] Some by simp
  qed
qed

lemma told_apart_empty: "told_apart view \<Longrightarrow> told_apart (view(s := []))"
  unfolding told_apart_def fun_upd_apply by (metis empty_iff empty_set)

lemma remove_shows: "shows_view r view \<Longrightarrow> told_apart view \<Longrightarrow> shows_view (remove s r) (view(s := []))"
  unfolding remove_replace by (rule replace_shows) (simp_all add: told_apart_empty)

end

lemma replace_tools_ok: "gm_ok r \<Longrightarrow> gm_ok (ReplaceServerTools s ts r)"
  unfolding ReplaceServerTools_def by (rule fold_invariant [where Q = "\<lambda>_. True"]) auto

interpretation tool_registry: owned_registry ToolByName ReplaceServerTools RemoveServerTools gm_ok
proof unfold_locales
  fix r :: Registry and s :: string and ts :: "Tool list" and n :: string
  show "gm_ok (ReplaceServerTools s ts r)" if "gm_ok r"
    using that by (rule replace_tools_ok)
  show "ToolByName n (ReplaceServerTools s ts r) =
      (case last_named n ts of
         Some t \<Rightarrow> Some t
       | None \<Rightarrow> (case ToolByName n r of None \<Rightarrow> None | Some t \<Rightarrow> if tl_ServerName t = s then None else Some t))" if "gm_ok r"
    unfolding last_named_def using that by (rule refresh_replaces_tools)
  show "RemoveServerTools s r = ReplaceServerTools s [] r"
    by (simp add: RemoveServerTools_def ReplaceServerTools_def)
qed

section \<open>The manager\<close>

record serverState =
  srv_name :: string
  srv_client :: Client
  srv_config :: MCPServerConfig
  srv_connected :: bool
  srv_lastPing :: gotime
  srv_lastError :: "string option"
  srv_listening :: bool
  srv_refreshTimer :: bool

record McpManager =
  mm_servers :: "(string, serverState) gomap"
  mm_registry :: Registry
  mm_cfg :: MCPConfig
  mm_running :: bool
  mm_done :: "bool option"

definition NewMcpManager :: "MCPConfig \<Rightarrow> Registry \<Rightarrow> McpManager" where
  "NewMcpManager cfg registry =
     \<lparr>mm_servers = [], mm_registry = registry, mm_cfg = cfg, mm_running = False, mm_done = None\<rparr>"

definition tool_prefix :: "MCPServerConfig \<Rightarrow> string" where
  "tool_prefix cfg = (if ms_ToolPrefix cfg = '''' then ms_Name cfg else ms_ToolPrefix cfg)"

definition new_client :: "MCPServerConfig \<Rightarrow> Client" where
  "new_client cfg =
     (let timeout = wrap64 (ms_TimeoutMS cfg * time_Millisecond)
      in NewClient (ms_Name cfg) (ms_URL cfg) (ms_Headers cfg) (if timeout \<le> 0 then 10 * time_Second else timeout) (tool_prefix cfg))"

definition connectServer ::
  "'w mcp_net \<Rightarrow> MCPServerConfig \<Rightarrow> Registry \<Rightarrow> 'w \<Rightarrow> (serverState \<times> Registry \<times> 'w) option" where
  "connectServer N cfg reg w =
     (case Initialize N (new_client cfg) w of
        None \<Rightarrow> None
      | Some (err, client, w) \<Rightarrow>
          let state = \<lparr>srv_name = ms_Name cfg, srv_client = client, srv_config = cfg, srv_connected = False, srv_lastPing = time_zero,
                       srv_lastError = err, srv_listening = False, srv_refreshTimer = False\<rparr>
          in (case err of
                Some e \<Rightarrow> Some (state, reg, w)
              | None \<Rightarrow>
                  let (now, w) = nt_now N w
                  in Some (state\<lparr>srv_connected := True, srv_lastPing := now\<rparr>, ReplaceServerTools (ms_Name cfg) (cl_tools client) reg, w)))"

fun connect_all :: "'w mcp_net \<Rightarrow> MCPServerConfig list \<Rightarrow> McpManager \<Rightarrow> 'w \<Rightarrow> (McpManager \<times> 'w) option" where
  "connect_all N [] m w = Some (m, w)"
| "connect_all N (cfg # cfgs) m w =
     (case connectServer N cfg (mm_registry m) w of
        None \<Rightarrow> None
      | Some (state, reg, w) \<Rightarrow>
          connect_all N cfgs (m\<lparr>mm_servers := gm_set (ms_Name cfg) state (mm_servers m), mm_registry := reg\<rparr>) w)"

definition start_listeners :: "(string, serverState) gomap \<Rightarrow> (string, serverState) gomap" where
  "start_listeners servers = map (\<lambda>(k, s). (k, s\<lparr>srv_listening := srv_connected s\<rparr>)) servers"

definition Manager_Start :: "'w mcp_net \<Rightarrow> McpManager \<Rightarrow> 'w \<Rightarrow> (McpManager \<times> 'w) option" where
  "Manager_Start N m w =
     (if \<not> mcp_Enabled (mm_cfg m) \<or> mcp_Servers (mm_cfg m) = [] then Some (m, w)
      else map_option (\<lambda>(m, w). (m\<lparr>mm_servers := start_listeners (mm_servers m)\<rparr>, w))
             (connect_all N (mcp_Servers (mm_cfg m)) (m\<lparr>mm_running := True, mm_done := Some False\<rparr>) w))"

text \<open>Closing the channel \<^verbatim>\<open>done\<close> a second time panics.\<close>

definition Manager_Stop :: "McpManager \<Rightarrow> McpManager option" where
  "Manager_Stop m =
     (if mm_done m = Some True then None
      else Some (m\<lparr>mm_servers := map (\<lambda>(k, s). (k, s\<lparr>srv_client := Client_Close (srv_client s), srv_listening := False,
                                                     srv_refreshTimer := False\<rparr>)) (mm_servers m),
                   mm_running := False, mm_done := map_option (\<lambda>_. True) (mm_done m)\<rparr>))"

definition GetClient :: "string \<Rightarrow> McpManager \<Rightarrow> Client option" where
  "GetClient serverName m =
     (case gm_get (mm_servers m) serverName of
        None \<Rightarrow> None
      | Some state \<Rightarrow> if srv_connected state then Some (srv_client state) else None)"

record ServerStatusInfo =
  si_Name :: string
  si_Status :: string
  si_Tools :: nat
  si_LastError :: string

definition ServerStatus :: "McpManager \<Rightarrow> ServerStatusInfo list" where
  "ServerStatus m = map (\<lambda>(k, s).
     \<lparr>si_Name = srv_name s, si_Status = (if srv_connected s then ''connected'' else ''disconnected''),
      si_Tools = (if srv_connected s then length (cl_tools (srv_client s)) else 0),
      si_LastError = (case srv_lastError s of None \<Rightarrow> '''' | Some e \<Rightarrow> e)\<rparr>) (mm_servers m)"

definition set_server :: "string \<Rightarrow> serverState \<Rightarrow> Registry \<Rightarrow> McpManager \<Rightarrow> McpManager" where
  "set_server name s reg m = m\<lparr>mm_servers := gm_set name s (mm_servers m), mm_registry := reg\<rparr>"

definition tryReconnect :: "'w mcp_net \<Rightarrow> serverState \<Rightarrow> Registry \<Rightarrow> 'w \<Rightarrow> (serverState \<times> Registry \<times> 'w) option" where
  "tryReconnect N s reg w =
     (case Initialize N (new_client (srv_config s)) w of
        None \<Rightarrow> None
      | Some (Some err, client, w) \<Rightarrow> Some (s\<lparr>srv_lastError := Some err\<rparr>, reg, w)
      | Some (None, client, w) \<Rightarrow>
          let (now, w) = nt_now N w
          in Some (s\<lparr>srv_client := client, srv_connected := True, srv_lastPing := now, srv_lastError := None, srv_listening := True\<rparr>,
                   ReplaceServerTools (ms_Name (srv_config s)) (cl_tools client) reg, w))"

definition ping_server :: "'w mcp_net \<Rightarrow> serverState \<Rightarrow> Registry \<Rightarrow> 'w \<Rightarrow> (serverState \<times> Registry \<times> 'w) option" where
  "ping_server N s reg w =
     (case Ping N (srv_client s) w of
        None \<Rightarrow> None
      | Some (Some err, client, w) \<Rightarrow>
          Some (s\<lparr>srv_client := client, srv_connected := False, srv_lastError := Some err\<rparr>, RemoveServerTools (srv_name s) reg, w)
      | Some (None, client, w) \<Rightarrow>
          let (now, w) = nt_now N w in Some (s\<lparr>srv_client := client, srv_lastPing := now, srv_lastError := None\<rparr>, reg, w))"

definition check_server :: "'w mcp_net \<Rightarrow> string \<Rightarrow> McpManager \<Rightarrow> 'w \<Rightarrow> (McpManager \<times> 'w) option" where
  "check_server N name m w =
     (case gm_get (mm_servers m) name of
        None \<Rightarrow> Some (m, w)
      | Some s \<Rightarrow> map_option (\<lambda>(s, reg, w). (set_server name s reg m, w))
                     ((if srv_connected s then ping_server else tryReconnect) N s (mm_registry m) w))"

fun check_servers :: "'w mcp_net \<Rightarrow> string list \<Rightarrow> McpManager \<Rightarrow> 'w \<Rightarrow> (McpManager \<times> 'w) option" where
  "check_servers N [] m w = Some (m, w)"
| "check_servers N (name # names) m w = (case check_server N name m w of None \<Rightarrow> None | Some (m, w) \<Rightarrow> check_servers N names m w)"

definition checkAllServers :: "'w mcp_net \<Rightarrow> McpManager \<Rightarrow> 'w \<Rightarrow> (McpManager \<times> 'w) option" where
  "checkAllServers N m w = check_servers N (map fst (mm_servers m)) m w"

text \<open>A listener takes the next notification of its client and starts the refresh timer.\<close>

definition listenNotifications :: "string \<Rightarrow> McpManager \<Rightarrow> McpManager" where
  "listenNotifications name m =
     (case gm_get (mm_servers m) name of
        None \<Rightarrow> m
      | Some s \<Rightarrow>
          (case (srv_listening s, cl_transport (srv_client s)) of
             (True, Some t) \<Rightarrow>
               (case st_notifCh t of
                  [] \<Rightarrow> m
                | notif # rest \<Rightarrow>
                    set_server name
                      (s\<lparr>srv_client := (srv_client s)\<lparr>cl_transport := Some (t\<lparr>st_notifCh := rest\<rparr>)\<rparr>,
                         srv_refreshTimer := srv_refreshTimer s \<or> nf_Method notif = ''notifications/tools/list_changed''\<rparr>)
                      (mm_registry m) m)
           | _ \<Rightarrow> m))"

text \<open>The function of the refresh timer, in two parts: it fetches the tools of a connected server, and on success publishes those of the server's client.\<close>

definition refresh_fetch :: "'w mcp_net \<Rightarrow> string \<Rightarrow> McpManager \<Rightarrow> 'w \<Rightarrow> (bool \<times> McpManager \<times> 'w) option" where
  "refresh_fetch N name m w =
     (case gm_get (mm_servers m) name of
        None \<Rightarrow> Some (False, m, w)
      | Some s \<Rightarrow>
          if \<not> srv_refreshTimer s then Some (False, m, w)
          else let s = s\<lparr>srv_refreshTimer := False\<rparr>
               in if \<not> srv_connected s then Some (False, set_server name s (mm_registry m) m, w)
                  else map_option (\<lambda>(err, client, w). (err = None, set_server name (s\<lparr>srv_client := client\<rparr>) (mm_registry m) m, w))
                         (RefreshTools N (srv_client s) w))"

definition refresh_publish :: "string \<Rightarrow> McpManager \<Rightarrow> McpManager" where
  "refresh_publish name m =
     (case gm_get (mm_servers m) name of
        None \<Rightarrow> m
      | Some s \<Rightarrow> m\<lparr>mm_registry := ReplaceServerTools (srv_name s) (cl_tools (srv_client s)) (mm_registry m)\<rparr>)"

definition scheduleRefresh :: "'w mcp_net \<Rightarrow> string \<Rightarrow> McpManager \<Rightarrow> 'w \<Rightarrow> (McpManager \<times> 'w) option" where
  "scheduleRefresh N name m w =
     map_option (\<lambda>(fetched, m, w). (if fetched then refresh_publish name m else m, w)) (refresh_fetch N name m w)"

text \<open>A tool call of the executor over the client of a connected server.\<close>

definition call_tool ::
  "'w mcp_net \<Rightarrow> string \<Rightarrow> string \<Rightarrow> (string, json) gomap option \<Rightarrow> McpManager \<Rightarrow> 'w \<Rightarrow> (McpManager \<times> 'w) option" where
  "call_tool N name rawName args m w =
     (case gm_get (mm_servers m) name of
        None \<Rightarrow> Some (m, w)
      | Some s \<Rightarrow>
          if \<not> srv_connected s then Some (m, w)
          else map_option (\<lambda>(r, client, w). (set_server name (s\<lparr>srv_client := client\<rparr>) (mm_registry m) m, w))
                 (CallTool N rawName args (srv_client s) w))"

datatype manager_event = CheckAll | Listen string | TimerFires string | ToolCall string string "(string, json) gomap option"

fun manager_step :: "'w mcp_net \<Rightarrow> manager_event \<Rightarrow> McpManager \<Rightarrow> 'w \<Rightarrow> (McpManager \<times> 'w) option" where
  "manager_step N CheckAll m w = checkAllServers N m w"
| "manager_step N (Listen name) m w = Some (listenNotifications name m, w)"
| "manager_step N (TimerFires name) m w = scheduleRefresh N name m w"
| "manager_step N (ToolCall name raw args) m w = call_tool N name raw args m w"

fun manager_run :: "'w mcp_net \<Rightarrow> manager_event list \<Rightarrow> McpManager \<Rightarrow> 'w \<Rightarrow> (McpManager \<times> 'w) option" where
  "manager_run N [] m w = Some (m, w)"
| "manager_run N (e # es) m w = (case manager_step N e m w of None \<Rightarrow> None | Some (m, w) \<Rightarrow> manager_run N es m w)"

section \<open>The registry follows the servers\<close>

text \<open>Servers with names and prefixes of their own, and no dot in a prefix.\<close>

definition prefixes_ok :: "MCPServerConfig list \<Rightarrow> bool" where
  "prefixes_ok cfgs \<longleftrightarrow> distinct (map ms_Name cfgs) \<and> distinct (map tool_prefix cfgs) \<and> list_all (\<lambda>c. CHR ''.'' \<notin> set (tool_prefix c)) cfgs"

definition server_ok :: "MCPServerConfig list \<Rightarrow> string \<Rightarrow> serverState \<Rightarrow> bool" where
  "server_ok cfgs k s \<longleftrightarrow> srv_name s = k \<and> srv_config s \<in> set cfgs \<and> ms_Name (srv_config s) = k \<and> cl_name (srv_client s) = k
     \<and> cl_prefix (srv_client s) = tool_prefix (srv_config s) \<and> client_tools_ok (srv_client s) \<and> cl_transport (srv_client s) \<noteq> None"

definition offered :: "serverState \<Rightarrow> Tool list" where
  "offered s = (if srv_connected s then cl_tools (srv_client s) else [])"

definition view :: "(string, serverState) gomap \<Rightarrow> string \<Rightarrow> Tool list" where
  "view servers k = (case gm_get servers k of None \<Rightarrow> [] | Some s \<Rightarrow> offered s)"

definition manager_ok :: "MCPServerConfig list \<Rightarrow> McpManager \<Rightarrow> bool" where
  "manager_ok cfgs m \<longleftrightarrow> (\<forall>k s. gm_get (mm_servers m) k = Some s \<longrightarrow> server_ok cfgs k s)
     \<and> tool_registry.shows_view (mm_registry m) (view (mm_servers m))"

lemma view_set: "view (gm_set k s servers) = (view servers)(k := offered s)"
  by (auto simp: view_def gm_get_set)

lemma dotted_prefix: "CHR ''.'' \<notin> set p \<Longrightarrow> takeWhile (\<lambda>c. c \<noteq> CHR ''.'') (p @ ''.'' @ r) = p"
  by (induction p) auto

lemma offered_tools: "server_ok cfgs k s \<Longrightarrow> t \<in> set (offered s) \<Longrightarrow> tool_of k (tool_prefix (srv_config s)) t"
  by (auto simp: server_ok_def client_tools_ok_def offered_def list_all_iff split: if_splits)

lemma tool_prefixes_differ:
  assumes "prefixes_ok cfgs" and "server_ok cfgs k s" and "server_ok cfgs k' s'"
    and "t \<in> set (offered s)" and "t' \<in> set (offered s')" and "tl_Name t = tl_Name t'"
  shows "k = k'"
proof -
  have cfg: "srv_config s \<in> set cfgs" "srv_config s' \<in> set cfgs" "ms_Name (srv_config s) = k" "ms_Name (srv_config s') = k'"
    using assms(2,3) by (auto simp: server_ok_def)
  have "tool_prefix (srv_config s) = tool_prefix (srv_config s')"
    using offered_tools [OF assms(2,4)] offered_tools [OF assms(3,5)] assms(1,6) cfg
    unfolding tool_of_def prefixes_ok_def list_all_iff by (metis dotted_prefix)
  then have "srv_config s = srv_config s'"
    using assms(1) cfg by (auto simp: prefixes_ok_def distinct_map dest: inj_onD)
  then show ?thesis using cfg by simp
qed

lemma view_told_apart:
  assumes "prefixes_ok cfgs" and servers: "\<And>k s. gm_get servers k = Some s \<Longrightarrow> server_ok cfgs k s"
  shows "told_apart (view servers)"
proof -
  have owner: "\<exists>s. gm_get servers k = Some s \<and> t \<in> set (offered s)" if "t \<in> set (view servers k)" for t k
    using that by (cases "gm_get servers k") (auto simp: view_def)
  have "tl_ServerName t = k" if "t \<in> set (view servers k)" for t k
  proof -
    from owner [OF that] obtain s where "gm_get servers k = Some s" and t: "t \<in> set (offered s)" by blast
    then show ?thesis using offered_tools [OF servers t] by (simp add: tool_of_def)
  qed
  moreover have "k = k'" if "t \<in> set (view servers k)" "t' \<in> set (view servers k')" "tl_Name t = tl_Name t'" for k k' t t'
    using owner [OF that(1)] owner [OF that(2)] tool_prefixes_differ [OF assms(1)] servers that(3) by blast
  ultimately show ?thesis unfolding told_apart_def by blast
qed

text \<open>What one event does to a server and to the registry.\<close>

definition server_step :: "MCPServerConfig list \<Rightarrow> string \<Rightarrow> Tool list \<Rightarrow> serverState \<Rightarrow> Registry \<Rightarrow> Registry \<Rightarrow> bool" where
  "server_step cfgs k old s reg reg' \<longleftrightarrow> server_ok cfgs k s \<and>
     (reg' = reg \<and> offered s = old \<or> reg' = ReplaceServerTools k (offered s) reg)"

lemma set_server_ok:
  assumes ok: "manager_ok cfgs m" and p: "prefixes_ok cfgs" and step: "server_step cfgs k (view (mm_servers m) k) s (mm_registry m) reg"
  shows "manager_ok cfgs (set_server k s reg m)"
proof -
  have servers: "server_ok cfgs k' s'" if "gm_get (gm_set k s (mm_servers m)) k' = Some s'" for k' s'
    using that ok step by (auto simp: gm_get_set manager_ok_def server_step_def split: if_splits)
  have old: "told_apart (view (mm_servers m))" using ok by (intro view_told_apart [OF p]) (auto simp: manager_ok_def)
  have new: "told_apart ((view (mm_servers m))(k := offered s))"
    unfolding view_set [symmetric] by (rule view_told_apart [OF p]) (rule servers)
  have reg: "tool_registry.shows_view (mm_registry m) (view (mm_servers m))" using ok by (simp add: manager_ok_def)
  have "tool_registry.shows_view reg ((view (mm_servers m))(k := offered s))"
    using step tool_registry.replace_shows [OF reg old new] reg by (auto simp: server_step_def)
  then show ?thesis using servers by (auto simp: manager_ok_def set_server_def view_set)
qed

lemma new_client_listed:
  assumes "Initialize N (new_client cfg) w = Some (err, c, w')"
  shows "cl_name c = ms_Name cfg \<and> cl_prefix c = tool_prefix cfg \<and> client_tools_ok c \<and> cl_transport c \<noteq> None"
  using assms Initialize_listed [of N "ms_Name cfg" "ms_URL cfg" "ms_Headers cfg" _ "tool_prefix cfg" w err c w'] Initialize_transport
  by (auto simp: new_client_def Let_def)

lemma connectServer_step:
  assumes "connectServer N cfg reg w = Some (s, reg', w')" and "cfg \<in> set cfgs"
  shows "server_step cfgs (ms_Name cfg) [] s reg reg'"
  using assms new_client_listed [of N cfg w]
  by (auto simp: connectServer_def server_step_def server_ok_def offered_def Let_def split: option.splits prod.splits)

lemma tryReconnect_step:
  assumes "tryReconnect N s reg w = Some (s', reg', w')" and "server_ok cfgs k s" and "\<not> srv_connected s"
  shows "server_step cfgs k (offered s) s' reg reg'"
  using assms new_client_listed [of N "srv_config s" w]
  by (auto simp: tryReconnect_def server_step_def server_ok_def offered_def Let_def split: option.splits prod.splits)

lemma ping_server_step:
  assumes p: "ping_server N s reg w = Some (s', reg', w')" and ok: "server_ok cfgs k s" and "srv_connected s"
  shows "server_step cfgs k (offered s) s' reg reg'"
proof -
  from p obtain err c v where c: "Ping N (srv_client s) w = Some (err, c, v)"
    by (auto simp: ping_server_def split: option.splits)
  have "cl_name c = k" "cl_prefix c = tool_prefix (srv_config s)" "cl_tools c = cl_tools (srv_client s)" "client_tools_ok c" "cl_transport c \<noteq> None"
    using Ping_keeps [OF c] Ping_transport [OF c] ok by (auto simp: server_ok_def same_client_def client_tools_ok_def)
  then show ?thesis
    using p ok assms(3) by (auto simp: ping_server_def c server_step_def server_ok_def offered_def Let_def RemoveServerTools_def ReplaceServerTools_def
        split: option.splits prod.splits)
qed

lemma client_step:
  assumes "server_ok cfgs k s" and "same_client (srv_client s) c" and "client_tools_ok c" and "cl_transport c \<noteq> None"
  shows "server_ok cfgs k (s\<lparr>srv_client := c\<rparr>)"
  using assms by (auto simp: server_ok_def same_client_def)

lemma check_server_ok:
  assumes "check_server N k m w = Some (m', w')" and ok: "manager_ok cfgs m" and p: "prefixes_ok cfgs"
  shows "manager_ok cfgs m'"
proof (cases "gm_get (mm_servers m) k")
  case None
  then show ?thesis using assms by (simp add: check_server_def)
next
  case (Some s)
  then have s: "server_ok cfgs k s" and v: "view (mm_servers m) k = offered s" using ok by (auto simp: manager_ok_def view_def)
  from assms(1) Some obtain s' reg where
    step: "(if srv_connected s then ping_server else tryReconnect) N s (mm_registry m) w = Some (s', reg, w')" and m': "m' = set_server k s' reg m"
    by (auto simp: check_server_def)
  have "server_step cfgs k (offered s) s' (mm_registry m) reg"
    using step ping_server_step [OF _ s] tryReconnect_step [OF _ s] by (auto split: if_splits)
  then show ?thesis unfolding m' using v by (intro set_server_ok [OF ok p]) simp
qed

lemma check_servers_ok:
  "check_servers N ks m w = Some (m', w') \<Longrightarrow> manager_ok cfgs m \<Longrightarrow> prefixes_ok cfgs \<Longrightarrow> manager_ok cfgs m'"
proof (induction ks arbitrary: m w)
  case Nil
  then show ?case by simp
next
  case (Cons k ks)
  from Cons.prems(1) obtain m1 w1 where m1: "check_server N k m w = Some (m1, w1)" and rest: "check_servers N ks m1 w1 = Some (m', w')"
    by (auto split: option.splits)
  show ?case using Cons.IH [OF rest check_server_ok [OF m1 Cons.prems(2,3)] Cons.prems(3)] .
qed

lemma listen_ok:
  assumes ok: "manager_ok cfgs m" and p: "prefixes_ok cfgs"
  shows "manager_ok cfgs (listenNotifications k m)"
proof (cases "gm_get (mm_servers m) k")
  case None
  then show ?thesis using ok by (simp add: listenNotifications_def)
next
  case (Some s)
  then have s: "server_ok cfgs k s" and v: "view (mm_servers m) k = offered s" using ok by (auto simp: manager_ok_def view_def)
  have "server_step cfgs k (offered s) (s\<lparr>srv_client := (srv_client s)\<lparr>cl_transport := Some t\<rparr>, srv_refreshTimer := b\<rparr>) (mm_registry m) (mm_registry m)" for t b
    using s by (auto simp: server_step_def server_ok_def offered_def client_tools_ok_def)
  then have "manager_ok cfgs (set_server k (s\<lparr>srv_client := (srv_client s)\<lparr>cl_transport := Some t\<rparr>, srv_refreshTimer := b\<rparr>) (mm_registry m) m)" for t b
    using v by (intro set_server_ok [OF ok p]) simp
  then show ?thesis using Some ok by (auto simp: listenNotifications_def split: bool.split option.split list.split)
qed

lemma call_tool_ok:
  assumes "call_tool N k raw args m w = Some (m', w')" and ok: "manager_ok cfgs m" and p: "prefixes_ok cfgs"
  shows "manager_ok cfgs m'"
proof (cases "\<exists>s. gm_get (mm_servers m) k = Some s \<and> srv_connected s")
  case False
  then show ?thesis using assms by (auto simp: call_tool_def split: option.splits)
next
  case True
  then obtain s where s: "gm_get (mm_servers m) k = Some s" "srv_connected s" by blast
  from assms(1) s obtain r c v where c: "CallTool N raw args (srv_client s) w = Some (r, c, v)"
    and m': "m' = set_server k (s\<lparr>srv_client := c\<rparr>) (mm_registry m) m"
    by (auto simp: call_tool_def)
  have sok: "server_ok cfgs k s" using ok s by (simp add: manager_ok_def)
  have "server_ok cfgs k (s\<lparr>srv_client := c\<rparr>)"
    using CallTool_keeps [OF c] CallTool_transport [OF c] sok
    by (intro client_step [OF sok]) (auto simp: server_ok_def client_tools_ok_def same_client_def)
  then have "server_step cfgs k (view (mm_servers m) k) (s\<lparr>srv_client := c\<rparr>) (mm_registry m) (mm_registry m)"
    using s CallTool_keeps [OF c] by (auto simp: server_step_def offered_def view_def)
  then show ?thesis unfolding m' by (rule set_server_ok [OF ok p])
qed

text \<open>The two parts of a refresh without anything between them are one update of the server.\<close>

lemma refresh_update:
  assumes "gm_get (mm_servers m) k = Some s" and "srv_name s = k" and "srv_refreshTimer s" and "srv_connected s"
    and "RefreshTools N (srv_client s) w = Some (err, c, w')"
  shows "scheduleRefresh N k m w =
    Some (set_server k (s\<lparr>srv_refreshTimer := False, srv_client := c\<rparr>)
            (if err = None then ReplaceServerTools k (cl_tools c) (mm_registry m) else mm_registry m) m, w')"
  using assms by (simp add: scheduleRefresh_def refresh_fetch_def refresh_publish_def set_server_def gm_get_set)

lemma scheduleRefresh_ok:
  assumes "scheduleRefresh N k m w = Some (m', w')" and ok: "manager_ok cfgs m" and p: "prefixes_ok cfgs"
  shows "manager_ok cfgs m'"
proof (cases "gm_get (mm_servers m) k")
  case None
  then show ?thesis using assms by (simp add: scheduleRefresh_def refresh_fetch_def)
next
  case (Some s)
  then have sok: "server_ok cfgs k s" and v: "view (mm_servers m) k = offered s" using ok by (auto simp: manager_ok_def view_def)
  show ?thesis
  proof (cases "srv_refreshTimer s \<and> srv_connected s")
    case False
    have "server_step cfgs k (offered s) (s\<lparr>srv_refreshTimer := False\<rparr>) (mm_registry m) (mm_registry m)"
      using sok by (simp add: server_step_def server_ok_def offered_def)
    then have "manager_ok cfgs (set_server k (s\<lparr>srv_refreshTimer := False\<rparr>) (mm_registry m) m)"
      using v by (intro set_server_ok [OF ok p]) simp
    then show ?thesis using assms(1) ok Some False by (auto simp: scheduleRefresh_def refresh_fetch_def split: if_splits)
  next
    case True
    from assms(1) Some True obtain err c v' where c: "RefreshTools N (srv_client s) w = Some (err, c, v')"
      by (auto simp: scheduleRefresh_def refresh_fetch_def)
    have client: "same_client (srv_client s) c" "client_tools_ok c" "cl_transport c \<noteq> None" "err \<noteq> None \<Longrightarrow> cl_tools c = cl_tools (srv_client s)"
      using RefreshTools_listed [OF c] RefreshTools_transport [OF c] sok by (auto simp: server_ok_def)
    have "server_step cfgs k (offered s) (s\<lparr>srv_refreshTimer := False, srv_client := c\<rparr>) (mm_registry m)
        (if err = None then ReplaceServerTools k (cl_tools c) (mm_registry m) else mm_registry m)"
      using sok client True by (auto simp: server_step_def server_ok_def offered_def same_client_def)
    moreover have "m' = set_server k (s\<lparr>srv_refreshTimer := False, srv_client := c\<rparr>)
            (if err = None then ReplaceServerTools k (cl_tools c) (mm_registry m) else mm_registry m) m"
      using refresh_update [OF Some _ _ _ c] sok True assms(1) by (simp add: server_ok_def)
    ultimately show ?thesis using v set_server_ok [OF ok p] by metis
  qed
qed

lemma manager_step_ok:
  "manager_step N e m w = Some (m', w') \<Longrightarrow> manager_ok cfgs m \<Longrightarrow> prefixes_ok cfgs \<Longrightarrow> manager_ok cfgs m'"
  by (cases e) (auto simp: checkAllServers_def dest: check_servers_ok listen_ok scheduleRefresh_ok call_tool_ok)

lemma manager_run_ok:
  "manager_run N es m w = Some (m', w') \<Longrightarrow> manager_ok cfgs m \<Longrightarrow> prefixes_ok cfgs \<Longrightarrow> manager_ok cfgs m'"
proof (induction es arbitrary: m w)
  case Nil
  then show ?case by simp
next
  case (Cons e es)
  from Cons.prems(1) obtain m1 w1 where m1: "manager_step N e m w = Some (m1, w1)" and rest: "manager_run N es m1 w1 = Some (m', w')"
    by (auto split: option.splits)
  show ?case using Cons.IH [OF rest manager_step_ok [OF m1 Cons.prems(2,3)] Cons.prems(3)] .
qed

lemma connect_all_ok:
  "connect_all N todo m w = Some (m', w') \<Longrightarrow> manager_ok cfgs m \<Longrightarrow> prefixes_ok cfgs \<Longrightarrow> set todo \<subseteq> set cfgs \<Longrightarrow> distinct (map ms_Name todo) \<Longrightarrow>
   (\<forall>cfg \<in> set todo. gm_get (mm_servers m) (ms_Name cfg) = None) \<Longrightarrow> manager_ok cfgs m'"
proof (induction todo arbitrary: m w)
  case Nil
  then show ?case by simp
next
  case (Cons cfg todo)
  from Cons.prems(1) obtain s reg w1 where s: "connectServer N cfg (mm_registry m) w = Some (s, reg, w1)"
    and rest: "connect_all N todo (set_server (ms_Name cfg) s reg m) w1 = Some (m', w')"
    by (auto simp: set_server_def split: option.splits)
  have "view (mm_servers m) (ms_Name cfg) = []" using Cons.prems(6) by (simp add: view_def)
  then have "server_step cfgs (ms_Name cfg) (view (mm_servers m) (ms_Name cfg)) s (mm_registry m) reg"
    using connectServer_step [OF s, of cfgs] Cons.prems(4) by simp
  then have ok: "manager_ok cfgs (set_server (ms_Name cfg) s reg m)" by (rule set_server_ok [OF Cons.prems(2,3)])
  have fresh: "\<forall>c \<in> set todo. gm_get (mm_servers (set_server (ms_Name cfg) s reg m)) (ms_Name c) = None"
    using Cons.prems(5,6) by (auto simp: set_server_def gm_get_set) (metis imageI)
  show ?case using Cons.IH [OF rest ok Cons.prems(3) _ _ fresh] Cons.prems(4,5) by simp
qed

lemma get_start_listeners: "gm_get (start_listeners servers) k = map_option (\<lambda>s. s\<lparr>srv_listening := srv_connected s\<rparr>) (gm_get servers k)"
  by (simp add: start_listeners_def gm_get_def map_of_map)

lemma Start_ok:
  assumes "Manager_Start N (NewMcpManager cfg NewRegistry) w = Some (m, w')" and p: "prefixes_ok (mcp_Servers cfg)"
  shows "manager_ok (mcp_Servers cfg) m"
proof -
  have new: "manager_ok (mcp_Servers cfg) (NewMcpManager cfg NewRegistry)"
    by (simp add: manager_ok_def NewMcpManager_def tool_registry.shows_view_def NewRegistry_def ToolByName_def view_def last_named_def)
  show ?thesis
  proof (cases "\<not> mcp_Enabled cfg \<or> mcp_Servers cfg = []")
    case True
    then show ?thesis using assms(1) new by (simp add: Manager_Start_def NewMcpManager_def)
  next
    case False
    then obtain m1 where m1: "connect_all N (mcp_Servers cfg) ((NewMcpManager cfg NewRegistry)\<lparr>mm_running := True, mm_done := Some False\<rparr>) w = Some (m1, w')"
      and m: "m = m1\<lparr>mm_servers := start_listeners (mm_servers m1)\<rparr>"
      using assms(1) by (auto simp: Manager_Start_def NewMcpManager_def)
    have "manager_ok (mcp_Servers cfg) m1"
      using new p by (intro connect_all_ok [OF m1]) (auto simp: manager_ok_def NewMcpManager_def prefixes_ok_def)
    moreover have "view (start_listeners (mm_servers m1)) = view (mm_servers m1)"
      by (auto simp: view_def get_start_listeners offered_def split: option.splits)
    ultimately show ?thesis unfolding m by (auto simp: manager_ok_def get_start_listeners server_ok_def)
  qed
qed


section \<open>Panics\<close>

text \<open>Servers that answer in plain JSON and never with an event stream.\<close>

definition plain_answers :: "'w mcp_net \<Rightarrow> bool" where
  "plain_answers N \<longleftrightarrow> (\<forall>r w a w'. nt_do N r w = (Inr a, w') \<longrightarrow> strings_Contains (ha_ContentType a) ''application/json'')"

lemma SendRequest_plain:
  assumes "plain_answers N"
  shows "\<exists>r t' w'. SendRequest N method params t w = Some (r, t', w')"
proof (cases "nt_badURL N (st_url t)")
  case None
  let ?r = "\<lparr>or_URL = st_url t,
     or_Headers = transport_headers [(''Accept'', ''application/json, text/event-stream'')] (t\<lparr>st_nextID := wrap64 (st_nextID t + 1)\<rparr>),
     or_Body = rpc_message (Some (wrap64 (st_nextID t + 1))) method params\<rparr>"
  obtain x w1 where x: "nt_do N ?r w = (x, w1)" by fastforce
  show ?thesis
  proof (cases x)
    case (Inl e)
    then show ?thesis using None x by (simp add: SendRequest_def Let_def)
  next
    case (Inr a)
    then have "strings_Contains (ha_ContentType a) ''application/json''" using assms x unfolding plain_answers_def by blast
    then show ?thesis using None x Inr by (simp add: SendRequest_def Let_def)
  qed
qed (simp add: SendRequest_def Let_def)

lemma client_request_plain:
  assumes "plain_answers N" and "cl_transport c \<noteq> None"
  shows "\<exists>r c' w'. client_request N method params c w = Some (r, c', w') \<and> cl_transport c' \<noteq> None"
proof -
  obtain t where t: "cl_transport c = Some t" using assms(2) by blast
  obtain r t' w' where "SendRequest N method params t w = Some (r, t', w')" using SendRequest_plain [OF assms(1)] by blast
  then show ?thesis using t by (simp add: client_request_def)
qed

lemma RefreshTools_plain:
  assumes "plain_answers N" and "cl_transport c \<noteq> None"
  shows "\<exists>err c' w'. RefreshTools N c w = Some (err, c', w')"
proof -
  obtain r c' w' where "client_request N ''tools/list'' (Some (JObj [])) c w = Some (r, c', w')"
    using client_request_plain [OF assms] by blast
  then show ?thesis by (simp add: RefreshTools_def ListTools_def split: sum.split)
qed

lemma Initialize_plain:
  assumes "plain_answers N"
  shows "\<exists>err c' w'. Initialize N c w = Some (err, c', w')"
proof -
  let ?c = "c\<lparr>cl_transport := Some (NewStreamableHTTP (cl_url c) (cl_headers c) (cl_timeout c))\<rparr>"
  have "cl_transport ?c \<noteq> None" by simp
  from client_request_plain [OF assms this]
  obtain r c1 w1 where c1: "client_request N ''initialize'' (Some initialize_params) ?c w = Some (r, c1, w1)" "cl_transport c1 \<noteq> None"
    by blast
  have "\<exists>err c' w'. RefreshTools N c1 v = Some (err, c', w')" for v using RefreshTools_plain [OF assms c1(2)] .
  then have "\<exists>err c' w'. map_option (\<lambda>(err, c, w). (None :: string option, c\<lparr>cl_ready := True\<rparr>, w)) (RefreshTools N c1 v) = Some (err, c', w')" for v
    by (metis (no_types, lifting) case_prod_conv option.map(2))
  then show ?thesis
    using c1(1) by (auto simp: Initialize_def Let_def split: option.split sum.split prod.split)
qed

lemma check_server_plain:
  assumes "plain_answers N" and "manager_ok cfgs m"
  shows "\<exists>m' w'. check_server N k m w = Some (m', w')"
proof (cases "gm_get (mm_servers m) k")
  case None
  then show ?thesis by (simp add: check_server_def)
next
  case (Some s)
  then have t: "cl_transport (srv_client s) \<noteq> None" using assms(2) by (auto simp: manager_ok_def server_ok_def)
  obtain r c w1 where "client_request N ''ping'' (Some (JObj [])) (srv_client s) w = Some (r, c, w1)"
    using client_request_plain [OF assms(1) t] by blast
  then have "\<exists>s' reg' w'. ping_server N s reg w = Some (s', reg', w')" for reg
    by (simp add: ping_server_def Ping_def Let_def split: sum.split option.split prod.split)
  moreover obtain err c w1 where "Initialize N (new_client (srv_config s)) w = Some (err, c, w1)"
    using Initialize_plain [OF assms(1)] by blast
  then have "\<exists>s' reg' w'. tryReconnect N s reg w = Some (s', reg', w')" for reg
    by (simp add: tryReconnect_def Let_def split: option.split prod.split)
  ultimately obtain s' reg w' where "(if srv_connected s then ping_server else tryReconnect) N s (mm_registry m) w = Some (s', reg, w')"
    by (cases "srv_connected s") (simp, blast)+
  then show ?thesis using Some by (simp add: check_server_def)
qed

lemma check_servers_plain:
  "plain_answers N \<Longrightarrow> manager_ok cfgs m \<Longrightarrow> prefixes_ok cfgs \<Longrightarrow> check_servers N ks m w \<noteq> None"
proof (induction ks arbitrary: m w)
  case Nil
  then show ?case by simp
next
  case (Cons k ks)
  obtain m1 w1 where m1: "check_server N k m w = Some (m1, w1)" using check_server_plain [OF Cons.prems(1,2)] by blast
  show ?case using Cons.IH [OF Cons.prems(1) check_server_ok [OF m1 Cons.prems(2,3)] Cons.prems(3)] m1 by simp
qed

lemma manager_step_plain:
  assumes "plain_answers N" and "manager_ok cfgs m" and "prefixes_ok cfgs"
  shows "manager_step N e m w \<noteq> None"
proof (cases e)
  case CheckAll
  then show ?thesis using check_servers_plain [OF assms] by (simp add: checkAllServers_def)
next
  case (Listen k)
  then show ?thesis by simp
next
  case (TimerFires k)
  show ?thesis
  proof (cases "gm_get (mm_servers m) k")
    case (Some s)
    then have "cl_transport (srv_client s) \<noteq> None" using assms(2) by (auto simp: manager_ok_def server_ok_def)
    then obtain err c w1 where "RefreshTools N (srv_client s) w = Some (err, c, w1)" using RefreshTools_plain [OF assms(1)] by blast
    then show ?thesis using TimerFires Some by (cases "srv_refreshTimer s"; cases "srv_connected s") (simp_all add: scheduleRefresh_def refresh_fetch_def Let_def)
  qed (simp add: TimerFires scheduleRefresh_def refresh_fetch_def)
next
  case (ToolCall k raw args)
  show ?thesis
  proof (cases "gm_get (mm_servers m) k")
    case (Some s)
    then have "cl_transport (srv_client s) \<noteq> None" using assms(2) by (auto simp: manager_ok_def server_ok_def)
    then obtain r c w1 where "client_request N ''tools/call'' (Some (call_params raw args)) (srv_client s) w = Some (r, c, w1)"
      using client_request_plain [OF assms(1)] by blast
    then show ?thesis using ToolCall Some by (simp add: call_tool_def CallTool_def)
  qed (simp add: ToolCall call_tool_def)
qed

theorem plain_servers_never_panic:
  assumes "plain_answers N" and "manager_ok cfgs m" and "prefixes_ok cfgs"
  shows "manager_run N es m w \<noteq> None"
  using assms(2)
proof (induction es arbitrary: m w)
  case Nil
  then show ?case by simp
next
  case (Cons e es)
  obtain m1 w1 where m1: "manager_step N e m w = Some (m1, w1)" using manager_step_plain [OF assms(1) Cons.prems assms(3)] by fastforce
  show ?case using Cons.IH [OF manager_step_ok [OF m1 Cons.prems assms(3)]] m1 by simp
qed

section \<open>Where the registry goes wrong\<close>

text \<open>A ping that fails while a refresh fetches its list removes the tools, and the refresh then registers them again although the server is lost.\<close>

theorem late_refresh_registers_lost_tools:
  assumes "refresh_fetch N k m w = Some (True, m1, w1)" and "check_server N k m1 w1 = Some (m2, w2)"
    and "gm_get (mm_servers m2) k = Some s" and "\<not> srv_connected s" and "gm_ok (mm_registry m2)"
    and "last_named n (cl_tools (srv_client s)) = Some t"
  shows "ToolByName n (mm_registry (refresh_publish k m2)) = Some t \<and> GetClient k (refresh_publish k m2) = None"
  using assms(3-) by (simp add: refresh_publish_def refresh_replaces_tools last_named_def GetClient_def)

text \<open>Two servers may have the same prefix. A tool that both have is the second one's, and when that server is lost the first one's tool is not found either.\<close>

theorem shared_prefix_loses_tool:
  assumes "tl_Name t = n" and "tl_Name t' = n" and "tl_ServerName t' = b"
  shows "validateServers_from 0 []
           [\<lparr>ms_Name = ''a'', ms_URL = ''http://a'', ms_Headers = [], ms_TimeoutMS = 0, ms_ToolPrefix = ''tools''\<rparr>,
            \<lparr>ms_Name = ''b'', ms_URL = ''http://b'', ms_Headers = [], ms_TimeoutMS = 0, ms_ToolPrefix = ''tools''\<rparr>] = []
    \<and> ToolByName n (RemoveServerTools b (ReplaceServerTools b [t'] (ReplaceServerTools a [t] NewRegistry))) = None"
proof
  show "validateServers_from 0 []
           [\<lparr>ms_Name = ''a'', ms_URL = ''http://a'', ms_Headers = [], ms_TimeoutMS = 0, ms_ToolPrefix = ''tools''\<rparr>,
            \<lparr>ms_Name = ''b'', ms_URL = ''http://b'', ms_Headers = [], ms_TimeoutMS = 0, ms_ToolPrefix = ''tools''\<rparr>] = []"
    by code_simp
  have "gm_ok (ReplaceServerTools b [t'] (ReplaceServerTools a [t] NewRegistry))" "gm_ok (ReplaceServerTools a [t] NewRegistry)"
    by (simp_all add: replace_tools_ok NewRegistry_def)
  then show "ToolByName n (RemoveServerTools b (ReplaceServerTools b [t'] (ReplaceServerTools a [t] NewRegistry))) = None"
    using assms by (simp add: tool_registry.remove_replace tool_registry.lookup_replace last_named_def)
qed

section \<open>A run\<close>

text \<open>A server that answers five requests and is then lost.\<close>

definition example_reply :: "string \<Rightarrow> json" where
  "example_reply method =
     (if method = ''tools/list'' then JObj [(''result'', JObj [(''tools'', JArr [JObj [(''name'', JStr ''x'')]])])]
      else JObj [(''result'', JObj [])])"

definition example_net :: "nat mcp_net" where
  "example_net =
     \<lparr>nt_do = \<lambda>r n. (if n < 5
         then Inr \<lparr>ha_ContentType = ''application/json'', ha_SessionId = '''',
           ha_Answer = \<lparr>an_Status = 200, an_Body = (case or_Body r of JObj ms \<Rightarrow> (case map_of ms ''method'' of Some (JStr m) \<Rightarrow> m | _ \<Rightarrow> '''') | _ \<Rightarrow> ''''),
                        an_ReadError = None\<rparr>\<rparr>
         else Inl ''connection refused'', n + 1),
      nt_badURL = \<lambda>_. None, nt_parse = \<lambda>_. None, nt_first = \<lambda>a. Some (example_reply (an_Body a)), nt_now = \<lambda>n. (0, n), nt_canceled = \<lambda>_. None\<rparr>"

definition example_mcp :: MCPConfig where
  "example_mcp = \<lparr>mcp_Enabled = True, mcp_MaxToolRounds = 5, mcp_ToolTimeoutMS = 0, mcp_MaxTotalDurationSec = 0, mcp_MaxResultBytes = 0,
     mcp_AutoInjectTools = True, mcp_ToolConflictStrategy = '''',
     mcp_Servers = [\<lparr>ms_Name = ''a'', ms_URL = ''http://a'', ms_Headers = [], ms_TimeoutMS = 0, ms_ToolPrefix = ''tools''\<rparr>]\<rparr>"

definition example_registry :: "manager_event list \<Rightarrow> Registry option" where
  "example_registry es =
     (case Manager_Start example_net (NewMcpManager example_mcp NewRegistry) 0 of
        None \<Rightarrow> None
      | Some (m, w) \<Rightarrow> map_option (\<lambda>(m, w). mm_registry m) (manager_run example_net es m w))"

lemma example_registry_run:
  "map_option (map_option tl_RawName \<circ> ToolByName ''tools.x'') (example_registry [CheckAll]) = Some (Some ''x'')"
  "map_option (map_option tl_RawName \<circ> ToolByName ''tools.x'') (example_registry [CheckAll, CheckAll, CheckAll]) = Some None"
  by code_simp+


end
