(* ===== verification/Metrics.thy ===== *)
theory Metrics
  imports Routing
begin

text \<open>
  The metrics of the gateway, \<^verbatim>\<open>internal/metrics/metrics.go\<close>. Prometheus is not part of the program: the collector hands it a history of operations, and what Prometheus
  shows for a history is a parameter. A vector of metrics panics when it is used with another number of label values than it was made with, and a counter panics when it is
  decreased; a panic is \<^term>\<open>None\<close>. The counters of the guardrails and of dropped usage entries are the collector's own.

  The lemmas show that the tables of metrics and the recording methods agree, so that no method panics because of its labels, that the guardrail statistics count the
  recorded events, and which bound \<^verbatim>\<open>RegionLatency\<close>, the reader of the router, returns.
\<close>

section \<open>The metrics\<close>

datatype metric_kind = Counter | Gauge | Histogram "f64 list"

datatype metric_op =
    CounterAdd string "string list" f64
  | GaugeAdd string "string list" f64
  | GaugeSet string "string list" f64
  | Observe string "string list" f64

definition latencyBuckets :: "f64 list" where
  "latencyBuckets = map float64 [1 / 20, 1 / 10, 1 / 4, 1 / 2, 1, 5 / 2, 5, 10, 30, 60]"

definition guardrailBuckets :: "f64 list" where
  "guardrailBuckets = map float64 [1 / 1000, 1 / 200, 1 / 100, 1 / 40, 1 / 20, 1 / 10, 1 / 4, 1 / 2, 1]"

text \<open>\<^verbatim>\<open>prometheus.DefBuckets\<close>\<close>

definition DefBuckets :: "f64 list" where
  "DefBuckets = map float64 [1 / 200, 1 / 100, 1 / 40, 1 / 20, 1 / 10, 1 / 4, 1 / 2, 1, 5 / 2, 5, 10]"

definition request_metrics :: "(string \<times> metric_kind \<times> string list) list" where
  "request_metrics =
     [(''requests_total'', Counter, [''model'', ''provider'', ''status'', ''stream'']),
      (''request_duration_seconds'', Histogram latencyBuckets, [''model'', ''provider'', ''stream'']),
      (''provider_call_duration_seconds'', Histogram latencyBuckets, [''provider'', ''model'']),
      (''provider_errors_total'', Counter, [''provider'', ''model'', ''error_type'']),
      (''tokens_total'', Counter, [''model'', ''provider'', ''direction'']),
      (''cost_dollars_total'', Counter, [''model'', ''provider'']),
      (''cache_hits_total'', Counter, [''model'']),
      (''cache_misses_total'', Counter, [''model'']),
      (''rate_limit_rejections_total'', Counter, [''key_prefix'', ''project_id'']),
      (''budget_rejections_total'', Counter, [''key_prefix'', ''project_id'']),
      (''active_requests'', Gauge, []),
      (''retries_total'', Counter, [''provider'', ''model'']),
      (''fallbacks_total'', Counter, [''from_provider'', ''to_provider'']),
      (''guardrail_blocks_total'', Counter, [''stage'', ''direction'', ''model'']),
      (''guardrail_redactions_total'', Counter, [''stage'', ''direction'', ''model'']),
      (''guardrail_duration_seconds'', Histogram guardrailBuckets, [''stage'', ''direction'']),
      (''mcp_server_connections'', Gauge, [''server'', ''status'']),
      (''mcp_tool_calls_total'', Counter, [''server'', ''tool'', ''status'']),
      (''mcp_tool_call_duration_seconds'', Histogram latencyBuckets, [''server'', ''tool'']),
      (''mcp_max_rounds_exceeded_total'', Counter, [''model''])]"

definition operation_metrics :: "(string \<times> metric_kind \<times> string list) list" where
  "operation_metrics =
     [(''redis_healthy'', Gauge, []),
      (''circuit_breaker_rejections_total'', Counter, [''provider'', ''model'']),
      (''audit_events_total'', Counter, [''event_type'', ''outcome'']),
      (''kms_operations_total'', Counter, [''operation'', ''status'']),
      (''oidc_auth_total'', Counter, [''status'']),
      (''rbac_checks_total'', Counter, [''role'', ''action'', ''result'']),
      (''provider_region_duration_seconds'', Histogram latencyBuckets, [''provider'', ''model'', ''region'']),
      (''residency_filter_total'', Counter, [''result'']),
      (''errors_total'', Counter, [''type'', ''source''])]"

definition collector_metrics :: "(string \<times> metric_kind \<times> string list) list" where
  "collector_metrics = request_metrics @ operation_metrics"

text \<open>The metrics that the package makes when it is loaded.\<close>

definition a2a_metrics :: "(string \<times> metric_kind \<times> string list) list" where
  "a2a_metrics =
     [(''a2a_tasks_created_total'', Counter, []),
      (''a2a_task_completions_total'', Counter, [''status'']),
      (''a2a_task_duration_seconds'', Histogram DefBuckets, [''status'', ''model''])]"

definition registered :: "(string \<times> metric_kind \<times> string list) list" where
  "registered = a2a_metrics @ collector_metrics"

section \<open>The collector\<close>

record Collector =
  mt_enabled :: bool
  mt_ops :: "metric_op list"
  mt_grBlocks :: "(string, int) gomap"
  mt_grRedacts :: "(string, int) gomap"
  mt_grPasses :: int
  mt_grRequests :: int
  mt_usageDrops :: int

definition NewCollector :: "bool \<Rightarrow> Collector" where
  "NewCollector enabled =
     \<lparr>mt_enabled = enabled, mt_ops = [], mt_grBlocks = [], mt_grRedacts = [], mt_grPasses = 0, mt_grRequests = 0, mt_usageDrops = 0\<rparr>"

text \<open>An operation on a metric: \<^verbatim>\<open>WithLabelValues\<close> and \<^verbatim>\<open>Add\<close> panic as documented.\<close>

fun op_ok :: "metric_op \<Rightarrow> bool" where
  "op_ok (CounterAdd name labels v) \<longleftrightarrow>
     (case map_of registered name of Some (Counter, ls) \<Rightarrow> length labels = length ls \<and> 0 \<le> v | _ \<Rightarrow> False)"
| "op_ok (GaugeAdd name labels v) \<longleftrightarrow> (case map_of registered name of Some (Gauge, ls) \<Rightarrow> length labels = length ls | _ \<Rightarrow> False)"
| "op_ok (GaugeSet name labels v) \<longleftrightarrow> (case map_of registered name of Some (Gauge, ls) \<Rightarrow> length labels = length ls | _ \<Rightarrow> False)"
| "op_ok (Observe name labels v) \<longleftrightarrow> (case map_of registered name of Some (Histogram bs, ls) \<Rightarrow> length labels = length ls | _ \<Rightarrow> False)"

definition perform :: "metric_op \<Rightarrow> Collector \<Rightarrow> Collector option" where
  "perform op c =
     (if \<not> mt_enabled c then Some c else if op_ok op then Some (c\<lparr>mt_ops := mt_ops c @ [op]\<rparr>) else None)"

definition bool_label :: "bool \<Rightarrow> string" where
  "bool_label b = (if b then ''true'' else ''false'')"

definition RecordRequest :: "string \<Rightarrow> string \<Rightarrow> string \<Rightarrow> bool \<Rightarrow> duration \<Rightarrow> Collector \<Rightarrow> Collector option" where
  "RecordRequest model provider status stream d c =
     perform (CounterAdd ''requests_total'' [model, provider, status, bool_label stream] 1) c
     \<bind> perform (Observe ''request_duration_seconds'' [model, provider, bool_label stream] (duration_Seconds d))"

definition RecordProviderCall :: "string \<Rightarrow> string \<Rightarrow> duration \<Rightarrow> string \<Rightarrow> Collector \<Rightarrow> Collector option" where
  "RecordProviderCall provider model d errType c =
     perform (Observe ''provider_call_duration_seconds'' [provider, model] (duration_Seconds d)) c
     \<bind> (\<lambda>c. if errType = '''' then Some c else perform (CounterAdd ''provider_errors_total'' [provider, model, errType] 1) c)"

definition RecordTokens :: "string \<Rightarrow> string \<Rightarrow> int \<Rightarrow> int \<Rightarrow> Collector \<Rightarrow> Collector option" where
  "RecordTokens model provider promptTokens completionTokens c =
     perform (CounterAdd ''tokens_total'' [model, provider, ''prompt''] (float_of_int promptTokens)) c
     \<bind> perform (CounterAdd ''tokens_total'' [model, provider, ''completion''] (float_of_int completionTokens))"

definition RecordCost :: "string \<Rightarrow> string \<Rightarrow> f64 \<Rightarrow> Collector \<Rightarrow> Collector option" where
  "RecordCost model provider costUSD = perform (CounterAdd ''cost_dollars_total'' [model, provider] costUSD)"

definition RecordCacheHit :: "string \<Rightarrow> Collector \<Rightarrow> Collector option" where
  "RecordCacheHit model = perform (CounterAdd ''cache_hits_total'' [model] 1)"

definition RecordCacheMiss :: "string \<Rightarrow> Collector \<Rightarrow> Collector option" where
  "RecordCacheMiss model = perform (CounterAdd ''cache_misses_total'' [model] 1)"

definition RecordRateLimitRejection :: "string \<Rightarrow> string \<Rightarrow> Collector \<Rightarrow> Collector option" where
  "RecordRateLimitRejection keyPrefix projectID = perform (CounterAdd ''rate_limit_rejections_total'' [keyPrefix, projectID] 1)"

definition RecordBudgetRejection :: "string \<Rightarrow> string \<Rightarrow> Collector \<Rightarrow> Collector option" where
  "RecordBudgetRejection keyPrefix projectID = perform (CounterAdd ''budget_rejections_total'' [keyPrefix, projectID] 1)"

definition RecordRetry :: "string \<Rightarrow> string \<Rightarrow> Collector \<Rightarrow> Collector option" where
  "RecordRetry provider model = perform (CounterAdd ''retries_total'' [provider, model] 1)"

definition RecordFallback :: "string \<Rightarrow> string \<Rightarrow> Collector \<Rightarrow> Collector option" where
  "RecordFallback fromProvider toProvider = perform (CounterAdd ''fallbacks_total'' [fromProvider, toProvider] 1)"

definition RecordMCPMaxRoundsExceeded :: "string \<Rightarrow> Collector \<Rightarrow> Collector option" where
  "RecordMCPMaxRoundsExceeded model = perform (CounterAdd ''mcp_max_rounds_exceeded_total'' [model] 1)"

definition RecordCircuitBreakerRejection :: "string \<Rightarrow> string \<Rightarrow> Collector \<Rightarrow> Collector option" where
  "RecordCircuitBreakerRejection provider model = perform (CounterAdd ''circuit_breaker_rejections_total'' [provider, model] 1)"

definition RecordAuditEvent :: "string \<Rightarrow> string \<Rightarrow> Collector \<Rightarrow> Collector option" where
  "RecordAuditEvent eventType outcome = perform (CounterAdd ''audit_events_total'' [eventType, outcome] 1)"

definition RecordKMSOperation :: "string \<Rightarrow> string \<Rightarrow> Collector \<Rightarrow> Collector option" where
  "RecordKMSOperation operation status = perform (CounterAdd ''kms_operations_total'' [operation, status] 1)"

definition RecordOIDCAuth :: "string \<Rightarrow> Collector \<Rightarrow> Collector option" where
  "RecordOIDCAuth status = perform (CounterAdd ''oidc_auth_total'' [status] 1)"

definition RecordRBACCheck :: "string \<Rightarrow> string \<Rightarrow> string \<Rightarrow> Collector \<Rightarrow> Collector option" where
  "RecordRBACCheck role action result = perform (CounterAdd ''rbac_checks_total'' [role, action, result] 1)"

definition RecordResidencyFilter :: "string \<Rightarrow> Collector \<Rightarrow> Collector option" where
  "RecordResidencyFilter result = perform (CounterAdd ''residency_filter_total'' [result] 1)"

definition RecordGatewayError :: "string \<Rightarrow> string \<Rightarrow> Collector \<Rightarrow> Collector option" where
  "RecordGatewayError errorType source = perform (CounterAdd ''errors_total'' [errorType, source] 1)"

definition ActiveRequestsInc :: "Collector \<Rightarrow> Collector option" where
  "ActiveRequestsInc = perform (GaugeAdd ''active_requests'' [] 1)"

definition ActiveRequestsDec :: "Collector \<Rightarrow> Collector option" where
  "ActiveRequestsDec = perform (GaugeAdd ''active_requests'' [] (- 1))"

definition incrementStageCounter :: "string \<Rightarrow> string \<Rightarrow> (string, int) gomap \<Rightarrow> (string, int) gomap" where
  "incrementStageCounter stage direction m =
     (let key = stage @ ''|'' @ direction
      in gm_set key (wrap64 ((case gm_get m key of None \<Rightarrow> 0 | Some n \<Rightarrow> n) + 1)) m)"

definition RecordGuardrailBlock :: "string \<Rightarrow> string \<Rightarrow> string \<Rightarrow> Collector \<Rightarrow> Collector option" where
  "RecordGuardrailBlock stage direction model c =
     perform (CounterAdd ''guardrail_blocks_total'' [stage, direction, model] 1)
       (c\<lparr>mt_grRequests := wrap64 (mt_grRequests c + 1), mt_grBlocks := incrementStageCounter stage direction (mt_grBlocks c)\<rparr>)"

definition RecordGuardrailRedaction :: "string \<Rightarrow> string \<Rightarrow> string \<Rightarrow> Collector \<Rightarrow> Collector option" where
  "RecordGuardrailRedaction stage direction model c =
     perform (CounterAdd ''guardrail_redactions_total'' [stage, direction, model] 1)
       (c\<lparr>mt_grRequests := wrap64 (mt_grRequests c + 1), mt_grRedacts := incrementStageCounter stage direction (mt_grRedacts c)\<rparr>)"

definition RecordGuardrailPass :: "Collector \<Rightarrow> Collector option" where
  "RecordGuardrailPass c = Some (c\<lparr>mt_grPasses := wrap64 (mt_grPasses c + 1), mt_grRequests := wrap64 (mt_grRequests c + 1)\<rparr>)"

definition RecordGuardrailDuration :: "string \<Rightarrow> string \<Rightarrow> duration \<Rightarrow> Collector \<Rightarrow> Collector option" where
  "RecordGuardrailDuration stage direction d = perform (Observe ''guardrail_duration_seconds'' [stage, direction] (duration_Seconds d))"

definition RecordMCPServerConnection :: "string \<Rightarrow> string \<Rightarrow> Collector \<Rightarrow> Collector option" where
  "RecordMCPServerConnection server status = perform (GaugeSet ''mcp_server_connections'' [server, status] 1)"

definition RecordMCPToolCall :: "string \<Rightarrow> string \<Rightarrow> string \<Rightarrow> duration \<Rightarrow> Collector \<Rightarrow> Collector option" where
  "RecordMCPToolCall server tool status d c =
     perform (CounterAdd ''mcp_tool_calls_total'' [server, tool, status] 1) c
     \<bind> perform (Observe ''mcp_tool_call_duration_seconds'' [server, tool] (duration_Seconds d))"

definition SetRedisHealthy :: "bool \<Rightarrow> Collector \<Rightarrow> Collector option" where
  "SetRedisHealthy healthy = perform (GaugeSet ''redis_healthy'' [] (if healthy then 1 else 0))"

definition region_label :: "string \<Rightarrow> string" where
  "region_label region = (if region = '''' then ''default'' else region)"

definition RecordProviderRegionCall :: "string \<Rightarrow> string \<Rightarrow> string \<Rightarrow> duration \<Rightarrow> Collector \<Rightarrow> Collector option" where
  "RecordProviderRegionCall provider model region d =
     perform (Observe ''provider_region_duration_seconds'' [provider, model, region_label region] (duration_Seconds d))"

text \<open>Methods that accept a nil collector.\<close>

definition on_collector :: "(Collector \<Rightarrow> Collector option) \<Rightarrow> Collector option \<Rightarrow> Collector option option" where
  "on_collector f c = (case c of None \<Rightarrow> Some None | Some c \<Rightarrow> map_option Some (f c))"

definition RecordA2ATaskCreated :: "Collector option \<Rightarrow> Collector option option" where
  "RecordA2ATaskCreated = on_collector (perform (CounterAdd ''a2a_tasks_created_total'' [] 1))"

definition RecordA2ATaskCompletion :: "string \<Rightarrow> string \<Rightarrow> duration \<Rightarrow> Collector option \<Rightarrow> Collector option option" where
  "RecordA2ATaskCompletion status model d = on_collector (\<lambda>c.
     perform (CounterAdd ''a2a_task_completions_total'' [status] 1) c
     \<bind> perform (Observe ''a2a_task_duration_seconds'' [status, model] (duration_Seconds d)))"

definition RecordStreamIncomplete :: "string \<Rightarrow> Collector option \<Rightarrow> Collector option option" where
  "RecordStreamIncomplete provider = on_collector (perform (CounterAdd ''errors_total'' [''stream_incomplete'', provider] 1))"

definition RecordUsageDrop :: "Collector option \<Rightarrow> Collector option option" where
  "RecordUsageDrop = on_collector (\<lambda>c. Some (c\<lparr>mt_usageDrops := wrap64 (mt_usageDrops c + 1)\<rparr>))"

definition UsageDropCount :: "Collector option \<Rightarrow> int" where
  "UsageDropCount c = (case c of None \<Rightarrow> 0 | Some c \<Rightarrow> mt_usageDrops c)"

section \<open>The statistics of the guardrails\<close>

record GuardrailStageStats =
  gst_Name :: string
  gst_Blocks :: int
  gst_Redactions :: int
  gst_Direction :: string

record GuardrailStatsSnapshot =
  gs_TotalBlocks :: int
  gs_TotalRedactions :: int
  gs_TotalPasses :: int
  gs_TotalRequests :: int
  gs_BlockRatePct :: f64
  gs_RedactRatePct :: f64
  gs_Stages :: "GuardrailStageStats list"

fun splitStageKey :: "string \<Rightarrow> string \<times> string" where
  "splitStageKey [] = ([], [])"
| "splitStageKey (c # cs) = (if c = CHR ''|'' then ([], cs) else (case splitStageKey cs of (a, b) \<Rightarrow> (c # a, b)))"

text \<open>One entry of a counter map, put into the map of stages.\<close>

definition put_stage ::
  "(int \<Rightarrow> GuardrailStageStats \<Rightarrow> GuardrailStageStats) \<Rightarrow> string \<times> int \<Rightarrow> (string \<times> string, GuardrailStageStats) gomap
   \<Rightarrow> (string \<times> string, GuardrailStageStats) gomap" where
  "put_stage f e m =
     (let sk = splitStageKey (fst e);
          old = (case gm_get m sk of
                   None \<Rightarrow> \<lparr>gst_Name = fst sk, gst_Blocks = 0, gst_Redactions = 0, gst_Direction = snd sk\<rparr>
                 | Some s \<Rightarrow> s)
      in gm_set sk (f (snd e) old) m)"

fun insert_stage :: "GuardrailStageStats \<Rightarrow> GuardrailStageStats list \<Rightarrow> GuardrailStageStats list" where
  "insert_stage s [] = [s]"
| "insert_stage s (t # ts) =
     (if (if gst_Name s \<noteq> gst_Name t then bytes_le (gst_Name s) (gst_Name t) else bytes_le (gst_Direction s) (gst_Direction t))
      then s # t # ts else t # insert_stage s ts)"

definition counter_total :: "(string, int) gomap \<Rightarrow> int" where
  "counter_total m = foldl (\<lambda>acc e. wrap64 (acc + snd e)) 0 m"

text \<open>\<^verbatim>\<open>math.Round\<close> of a number that is not negative.\<close>

definition math_Round :: "f64 \<Rightarrow> f64" where
  "math_Round x = of_int \<lfloor>x + 1 / 2\<rfloor>"

definition rate_pct :: "int \<Rightarrow> int \<Rightarrow> f64" where
  "rate_pct n totalReqs =
     (if 0 < totalReqs then fdiv (math_Round (fmul (fdiv (float_of_int n) (float_of_int totalReqs)) 1000)) 10 else 0)"

definition stage_map :: "Collector \<Rightarrow> (string \<times> string, GuardrailStageStats) gomap" where
  "stage_map c =
     fold (put_stage (\<lambda>n s. s\<lparr>gst_Redactions := n\<rparr>)) (mt_grRedacts c)
       (fold (put_stage (\<lambda>n s. s\<lparr>gst_Blocks := n\<rparr>)) (mt_grBlocks c) [])"

definition GetGuardrailStats :: "Collector \<Rightarrow> GuardrailStatsSnapshot" where
  "GetGuardrailStats c =
     (let totalReqs = mt_grRequests c;
          totalBlocks = counter_total (mt_grBlocks c);
          totalRedacts = counter_total (mt_grRedacts c)
      in \<lparr>gs_TotalBlocks = totalBlocks, gs_TotalRedactions = totalRedacts, gs_TotalPasses = mt_grPasses c, gs_TotalRequests = totalReqs,
          gs_BlockRatePct = rate_pct totalBlocks totalReqs, gs_RedactRatePct = rate_pct totalRedacts totalReqs,
          gs_Stages = foldr insert_stage (map snd (stage_map c)) []\<rparr>)"

section \<open>The latency of a region\<close>

record histogram =
  hs_SampleCount :: nat
  hs_SampleSum :: f64
  hs_Buckets :: "(f64 \<times> nat) list"

record collected =
  cm_Labels :: "(string \<times> string) list"
  cm_Histogram :: "histogram option"

definition labels_match :: "string \<Rightarrow> string \<Rightarrow> string \<Rightarrow> (string \<times> string) list \<Rightarrow> bool" where
  "labels_match provider model region labels \<longleftrightarrow>
     length (filter (\<lambda>(n, v). n = ''provider'' \<and> v = provider \<or> n = ''model'' \<and> v = model \<or> n = ''region'' \<and> v = region) labels) = 3"

text \<open>\<open>collect\<close> is what the vector of region latencies shows for a history.\<close>

definition RegionLatency :: "(metric_op list \<Rightarrow> collected list) \<Rightarrow> Collector \<Rightarrow> string \<Rightarrow> string \<Rightarrow> string \<Rightarrow> duration option" where
  "RegionLatency collect c provider model region =
     (if \<not> mt_enabled c then None
      else (case find (\<lambda>m. cm_Histogram m \<noteq> None \<and> labels_match provider model (region_label region) (cm_Labels m)) (collect (mt_ops c)) of
              None \<Rightarrow> None
            | Some m \<Rightarrow>
                let h = the (cm_Histogram m); n = hs_SampleCount h
                in if n < 10 then None
                   else (case find (\<lambda>(b, cumulative). n div 2 \<le> cumulative) (hs_Buckets h) of
                           Some (b, _) \<Rightarrow> Some (int_of_float (fmul b 1000000000))
                         | None \<Rightarrow> Some (int_of_float (fmul (fdiv (hs_SampleSum h) (float_of_int (int n))) 1000000000)))))"

section \<open>The tables and the methods agree\<close>

text \<open>No metric is registered twice, so loading the package and making a collector do not panic.\<close>

lemma registered_distinct: "distinct (map fst registered)"
  by code_simp

text \<open>
  No recording method panics for the labels it passes: every one names a registered metric of the right kind with the right number of
  labels. Only the counters of tokens and cost can panic, when they are given a negative number.
\<close>

definition records :: "(Collector \<Rightarrow> Collector option) \<Rightarrow> bool" where
  "records f \<longleftrightarrow> (\<forall>c. f c \<noteq> None)"

lemma perform_records: "op_ok op \<Longrightarrow> records (perform op)"
  by (simp add: records_def perform_def)

lemma records_bind:
  assumes "records f" and "records g"
  shows "records (\<lambda>c. f c \<bind> g)"
  unfolding records_def
proof
  fix c
  obtain c' where "f c = Some c'" using assms(1) by (auto simp: records_def)
  then show "f c \<bind> g \<noteq> None" using assms(2) by (simp add: records_def)
qed

lemma records_if: "records f \<Longrightarrow> records g \<Longrightarrow> records (\<lambda>c. if b then f c else g c)"
  by (simp add: records_def)

lemma records_Some: "records Some"
  by (simp add: records_def)

lemmas registered_table = registered_def a2a_metrics_def collector_metrics_def request_metrics_def operation_metrics_def

theorem recording_never_panics:
  "records (RecordRequest model provider status stream d)
   \<and> records (RecordProviderCall provider model d err)
   \<and> records (RecordCacheHit model) \<and> records (RecordCacheMiss model)
   \<and> records (RecordRateLimitRejection key project) \<and> records (RecordBudgetRejection key project)
   \<and> records (RecordRetry provider model) \<and> records (RecordFallback provider provider')
   \<and> records ActiveRequestsInc \<and> records ActiveRequestsDec
   \<and> records (RecordGuardrailDuration stage dir d)
   \<and> records (RecordMCPServerConnection server status) \<and> records (RecordMCPToolCall server tool status d)
   \<and> records (RecordMCPMaxRoundsExceeded model) \<and> records (SetRedisHealthy healthy)
   \<and> records (RecordCircuitBreakerRejection provider model) \<and> records (RecordAuditEvent event outcome)
   \<and> records (RecordKMSOperation op status) \<and> records (RecordOIDCAuth status) \<and> records (RecordRBACCheck role action result)
   \<and> records (RecordProviderRegionCall provider model region d) \<and> records (RecordGatewayError type source)
   \<and> records (RecordResidencyFilter result)"
  unfolding RecordRequest_def RecordProviderCall_def RecordCacheHit_def RecordCacheMiss_def RecordRateLimitRejection_def RecordBudgetRejection_def
    RecordRetry_def RecordFallback_def ActiveRequestsInc_def ActiveRequestsDec_def RecordGuardrailDuration_def RecordMCPServerConnection_def
    RecordMCPToolCall_def RecordMCPMaxRoundsExceeded_def SetRedisHealthy_def RecordCircuitBreakerRejection_def RecordAuditEvent_def
    RecordKMSOperation_def RecordOIDCAuth_def RecordRBACCheck_def RecordProviderRegionCall_def RecordGatewayError_def RecordResidencyFilter_def
  by (intro conjI records_bind records_if records_Some perform_records) (simp_all add: registered_table)

text \<open>An answer of a provider with a negative number of tokens makes the handler panic when metrics are on.\<close>

theorem negative_tokens_panic:
  assumes "mt_enabled c" and "n < 0"
  shows "RecordTokens model provider n m c = None"
proof -
  have "float_of_int n < 0"
    using assms(2) by (simp add: float_of_int_def float64_def round_pos_pos)
  then show ?thesis using assms(1) by (simp add: RecordTokens_def perform_def registered_table)
qed

section \<open>The guardrail counters count events\<close>

datatype guard_event = Blocked string string string | Redacted string string string | Passed

fun guard_record :: "guard_event \<Rightarrow> Collector \<Rightarrow> Collector option" where
  "guard_record (Blocked stage direction model) c = RecordGuardrailBlock stage direction model c"
| "guard_record (Redacted stage direction model) c = RecordGuardrailRedaction stage direction model c"
| "guard_record Passed c = RecordGuardrailPass c"

fun guard_run :: "guard_event list \<Rightarrow> Collector \<Rightarrow> Collector option" where
  "guard_run [] c = Some c"
| "guard_run (e # es) c = guard_record e c \<bind> guard_run es"

fun blocks_at :: "string \<Rightarrow> guard_event \<Rightarrow> bool" where
  "blocks_at k (Blocked s d m) \<longleftrightarrow> s @ ''|'' @ d = k"
| "blocks_at k _ \<longleftrightarrow> False"

fun redacts_at :: "string \<Rightarrow> guard_event \<Rightarrow> bool" where
  "redacts_at k (Redacted s d m) \<longleftrightarrow> s @ ''|'' @ d = k"
| "redacts_at k _ \<longleftrightarrow> False"

definition is_block :: "guard_event \<Rightarrow> bool" where "is_block e \<longleftrightarrow> (\<exists>k. blocks_at k e)"
definition is_redact :: "guard_event \<Rightarrow> bool" where "is_redact e \<longleftrightarrow> (\<exists>k. redacts_at k e)"

definition occurs :: "(guard_event \<Rightarrow> bool) \<Rightarrow> guard_event list \<Rightarrow> nat" where
  "occurs p es = length (filter p es)"

lemma occurs_simps [simp]: "occurs p [] = 0" "occurs p (es @ [e]) = occurs p es + (if p e then 1 else 0)"
  by (simp_all add: occurs_def)

lemma occurs_le: "occurs p es \<le> length es"
  by (simp add: occurs_def)

lemma kinds [simp]:
  "is_block (Blocked s d m)" "\<not> is_block (Redacted s d m)" "\<not> is_block Passed"
  "is_redact (Redacted s d m)" "\<not> is_redact (Blocked s d m)" "\<not> is_redact Passed"
  by (auto simp: is_block_def is_redact_def)

text \<open>A map of counters that holds \<open>f k\<close> for every key and \<open>n\<close> in all.\<close>

definition holds_counts :: "(string \<Rightarrow> nat) \<Rightarrow> nat \<Rightarrow> (string, int) gomap \<Rightarrow> bool" where
  "holds_counts f n m \<longleftrightarrow> gm_ok m \<and> (\<forall>k. gm_get m k = (if f k = 0 then None else Some (int (f k)))) \<and> sum_list (map snd m) = int n"

lemma sum_gm_set:
  "gm_ok m \<Longrightarrow> sum_list (map snd (gm_set k v m)) = sum_list (map snd m) - (case gm_get m k of None \<Rightarrow> 0 | Some u \<Rightarrow> u) + (v :: int)"
proof (induction m)
  case Nil
  then show ?case by (simp add: gm_set_def)
next
  case (Cons e m)
  obtain a u where e: "e = (a, u)" by force
  with Cons.prems have ok: "gm_ok m" and a: "gm_get m a = None" by (auto simp: gm_ok_def gm_get_None_iff)
  show ?case using Cons.IH [OF ok] e a by (auto simp: gm_set_def gm_get_def split: option.splits)
qed

lemma wrap_next: "int n < max_int64 \<Longrightarrow> wrap64 (int n + 1) = int n + 1"
  by (rule wrap64_id) (simp add: max_int64_def in_int64_def min_int64_def)

lemma increment_counts:
  assumes m: "holds_counts f n m" and bound: "int (f (s @ ''|'' @ d)) < max_int64"
  shows "holds_counts (\<lambda>k. if s @ ''|'' @ d = k then f k + 1 else f k) (n + 1) (incrementStageCounter s d m)"
proof -
  let ?k = "s @ ''|'' @ d"
  have get: "(case gm_get m ?k of None \<Rightarrow> 0 | Some u \<Rightarrow> u) = int (f ?k)" using m by (simp add: holds_counts_def)
  have w: "wrap64 (int (f ?k) + 1) = int (f ?k + 1)" using bound wrap_next by simp
  have inc: "incrementStageCounter s d m = gm_set ?k (int (f ?k + 1)) m"
    unfolding incrementStageCounter_def Let_def get w ..
  show ?thesis
    unfolding inc using m sum_gm_set [of m ?k "int (f ?k + 1)"] get by (auto simp: holds_counts_def gm_get_set)
qed

definition counts_events :: "guard_event list \<Rightarrow> Collector \<Rightarrow> bool" where
  "counts_events es c \<longleftrightarrow>
     holds_counts (\<lambda>k. occurs (blocks_at k) es) (occurs is_block es) (mt_grBlocks c) \<and>
     holds_counts (\<lambda>k. occurs (redacts_at k) es) (occurs is_redact es) (mt_grRedacts c) \<and>
     mt_grPasses c = int (occurs (\<lambda>e. e = Passed) es) \<and> mt_grRequests c = int (length es)"

lemma guard_record_counts:
  assumes c: "counts_events es c" and bound: "int (length es) < max_int64"
  shows "\<exists>c'. guard_record e c = Some c' \<and> counts_events (es @ [e]) c'"
proof -
  have key: "int (occurs p es) < max_int64" for p using occurs_le [of p es] bound by linarith
  have reqs: "wrap64 (mt_grRequests c + 1) = int (length es) + 1" using c bound wrap_next by (simp add: counts_events_def)
  have perf: "\<exists>ops. perform op d = Some (d\<lparr>mt_ops := ops\<rparr>)" if "op_ok op" for op d
    using that by (cases "mt_enabled d") (auto simp: perform_def intro: exI [of _ "mt_ops d"])
  show ?thesis
  proof (cases e)
    case (Blocked s d m)
    let ?c = "c\<lparr>mt_grRequests := wrap64 (mt_grRequests c + 1), mt_grBlocks := incrementStageCounter s d (mt_grBlocks c)\<rparr>"
    obtain ops where "perform (CounterAdd ''guardrail_blocks_total'' [s, d, m] 1) ?c = Some (?c\<lparr>mt_ops := ops\<rparr>)"
      using perf [of "CounterAdd ''guardrail_blocks_total'' [s, d, m] 1" ?c] by (auto simp: registered_table)
    then have ops: "guard_record e c = Some (?c\<lparr>mt_ops := ops\<rparr>)" using Blocked by (simp add: RecordGuardrailBlock_def)
    have "holds_counts (\<lambda>k. occurs (blocks_at k) (es @ [e])) (occurs is_block (es @ [e])) (incrementStageCounter s d (mt_grBlocks c))"
      using increment_counts [of "\<lambda>k. occurs (blocks_at k) es" "occurs is_block es" "mt_grBlocks c" s d] c key Blocked
      by (simp add: counts_events_def if_distrib cong: if_cong)
    then show ?thesis using ops c reqs Blocked by (simp add: counts_events_def)
  next
    case (Redacted s d m)
    let ?c = "c\<lparr>mt_grRequests := wrap64 (mt_grRequests c + 1), mt_grRedacts := incrementStageCounter s d (mt_grRedacts c)\<rparr>"
    obtain ops where "perform (CounterAdd ''guardrail_redactions_total'' [s, d, m] 1) ?c = Some (?c\<lparr>mt_ops := ops\<rparr>)"
      using perf [of "CounterAdd ''guardrail_redactions_total'' [s, d, m] 1" ?c] by (auto simp: registered_table)
    then have ops: "guard_record e c = Some (?c\<lparr>mt_ops := ops\<rparr>)" using Redacted by (simp add: RecordGuardrailRedaction_def)
    have "holds_counts (\<lambda>k. occurs (redacts_at k) (es @ [e])) (occurs is_redact (es @ [e])) (incrementStageCounter s d (mt_grRedacts c))"
      using increment_counts [of "\<lambda>k. occurs (redacts_at k) es" "occurs is_redact es" "mt_grRedacts c" s d] c key Redacted
      by (simp add: counts_events_def if_distrib cong: if_cong)
    then show ?thesis using ops c reqs Redacted by (simp add: counts_events_def)
  next
    case Passed
    then show ?thesis using c reqs key wrap_next by (simp add: counts_events_def RecordGuardrailPass_def)
  qed
qed

lemma guard_run_counts:
  "counts_events es0 c \<Longrightarrow> int (length es0 + length es) \<le> max_int64 \<Longrightarrow> \<exists>c'. guard_run es c = Some c' \<and> counts_events (es0 @ es) c'"
proof (induction es arbitrary: es0 c)
  case Nil
  then show ?case by simp
next
  case (Cons e es)
  from guard_record_counts [OF Cons.prems(1), of e] Cons.prems(2)
  obtain c1 where c1: "guard_record e c = Some c1" "counts_events (es0 @ [e]) c1" by auto
  from Cons.IH [OF c1(2)] Cons.prems(2) show ?case using c1(1) by simp
qed

lemma NewCollector_counts: "counts_events [] (NewCollector b)"
  by (simp add: counts_events_def NewCollector_def holds_counts_def)

text \<open>The totals of the snapshot.\<close>

lemma foldl_wrap_sum:
  "0 \<le> acc \<Longrightarrow> (\<forall>e \<in> set m. 0 \<le> snd e) \<Longrightarrow> acc + sum_list (map snd m) \<le> max_int64 \<Longrightarrow>
     foldl (\<lambda>acc e. wrap64 (acc + snd e)) acc m = acc + sum_list (map snd m)"
proof (induction m arbitrary: acc)
  case Nil
  then show ?case by simp
next
  case (Cons e m)
  have nn: "0 \<le> sum_list (map snd m)" using Cons.prems(2) by (intro sum_list_nonneg) auto
  then have "wrap64 (acc + snd e) = acc + snd e" using Cons.prems by (intro wrap64_id) (auto simp: in_int64_def min_int64_def)
  then show ?case using Cons.IH [of "acc + snd e"] Cons.prems by (simp add: algebra_simps)
qed

lemma counter_total_counts:
  assumes "holds_counts f n m" and "int n \<le> max_int64"
  shows "counter_total m = int n"
proof -
  have "0 \<le> snd e" if "e \<in> set m" for e
    using that assms(1) gm_get_mem [of m "fst e" "snd e"] by (auto simp: holds_counts_def split: if_splits)
  then show ?thesis using foldl_wrap_sum [of 0 m] assms by (simp add: counter_total_def holds_counts_def)
qed

lemma rate_in_range:
  assumes "0 \<le> n" and "n \<le> r" and "r < 2 ^ 53"
  shows "0 \<le> rate_pct n r \<and> rate_pct n r \<le> 100"
proof (cases "0 < r")
  case False
  then show ?thesis by (simp add: rate_pct_def)
next
  case True
  have exact: "float_of_int k = of_int k" if "0 \<le> k" "k \<le> r" for k
    using float64_of_nat [of "nat k"] that assms(3) by (simp add: float_of_int_def)
  have "fdiv (float_of_int n) (float_of_int r) \<le> 1"
    unfolding fdiv_def using exact assms True by (intro float64_le_1) (simp add: field_simps)
  moreover have nn: "0 \<le> fdiv (float_of_int n) (float_of_int r)" using assms True by (simp add: fdiv_nonneg float_of_int_nonneg)
  ultimately have "fmul (fdiv (float_of_int n) (float_of_int r)) 1000 \<le> of_nat 1000"
    unfolding fmul_def by (intro float64_le_nat) simp_all
  moreover have "0 \<le> fmul (fdiv (float_of_int n) (float_of_int r)) 1000" using nn by (simp add: fmul_nonneg)
  ultimately have q: "0 \<le> math_Round (fmul (fdiv (float_of_int n) (float_of_int r)) 1000)"
      "math_Round (fmul (fdiv (float_of_int n) (float_of_int r)) 1000) \<le> 1000"
    by (auto simp: math_Round_def floor_le_iff le_floor_iff)
  have "fdiv (math_Round (fmul (fdiv (float_of_int n) (float_of_int r)) 1000)) 10 \<le> of_nat 100"
    unfolding fdiv_def [of "math_Round _"] using q by (intro float64_le_nat) simp_all
  then show ?thesis using q True by (simp add: rate_pct_def fdiv_nonneg)
qed

text \<open>The stages of the snapshot.\<close>

definition join_stage :: "string \<times> string \<Rightarrow> string" where
  "join_stage sk = fst sk @ ''|'' @ snd sk"

lemma split_join: "CHR ''|'' \<notin> set s \<Longrightarrow> splitStageKey (s @ CHR ''|'' # d) = (s, d)"
  by (induction s) auto

lemma split_no_bar: "CHR ''|'' \<notin> set (fst (splitStageKey k))"
  by (induction k rule: splitStageKey.induct) (auto split: prod.splits)

definition keys_joined :: "(string, int) gomap \<Rightarrow> bool" where
  "keys_joined m \<longleftrightarrow> (\<forall>k \<in> gm_keys m. join_stage (splitStageKey k) = k)"

definition stage_before :: "(string \<times> string, GuardrailStageStats) gomap \<Rightarrow> string \<times> string \<Rightarrow> GuardrailStageStats" where
  "stage_before acc sk =
     (case gm_get acc sk of
        None \<Rightarrow> \<lparr>gst_Name = fst sk, gst_Blocks = 0, gst_Redactions = 0, gst_Direction = snd sk\<rparr>
      | Some s \<Rightarrow> s)"

lemma put_stage_eq: "put_stage f e m = gm_set (splitStageKey (fst e)) (f (snd e) (stage_before m (splitStageKey (fst e)))) m"
  by (simp add: put_stage_def stage_before_def Let_def)

lemma put_stages:
  "gm_ok m \<Longrightarrow> keys_joined m \<Longrightarrow> gm_ok acc \<Longrightarrow>
   gm_ok (fold (put_stage f) m acc) \<and>
   gm_get (fold (put_stage f) m acc) sk =
     (if splitStageKey (join_stage sk) = sk
      then (case gm_get m (join_stage sk) of None \<Rightarrow> gm_get acc sk | Some n \<Rightarrow> Some (f n (stage_before acc sk)))
      else gm_get acc sk)"
proof (induction m arbitrary: acc)
  case Nil
  then show ?case by simp
next
  case (Cons e m)
  obtain k n where e: "e = (k, n)" by force
  have ok: "gm_ok m" "keys_joined m" "k \<notin> gm_keys m" and k: "join_stage (splitStageKey k) = k"
    using Cons.prems e by (auto simp: gm_ok_def keys_joined_def)
  let ?acc = "put_stage f e acc"
  have acc: "gm_ok ?acc" using Cons.prems(3) by (simp add: put_stage_eq gm_ok_set)
  have get: "gm_get ?acc sk' = (if sk' = splitStageKey k then Some (f n (stage_before acc sk')) else gm_get acc sk')" for sk'
    by (simp add: put_stage_eq e gm_get_set)
  have get_m: "gm_get (e # m) k' = (if k' = k then Some n else gm_get m k')" for k' by (simp add: e gm_get_def)
  have fresh: "gm_get m k = None" using ok(3) by (simp add: gm_get_None_iff)
  show ?case
  proof (cases "sk = splitStageKey k")
    case True
    then show ?thesis using Cons.IH [OF ok(1,2) acc] get [of sk] get_m fresh k by simp
  next
    case False
    then have "splitStageKey (join_stage sk) = sk \<Longrightarrow> join_stage sk \<noteq> k" by auto
    moreover have "stage_before ?acc sk = stage_before acc sk" using False get [of sk] by (simp add: stage_before_def)
    ultimately show ?thesis using Cons.IH [OF ok(1,2) acc] get [of sk] get_m False by (simp split: option.split)
  qed
qed

lemma insert_stage_set [simp]: "set (insert_stage s ts) = insert s (set ts)"
  by (induction ts) auto

lemma sorted_stages_set [simp]: "set (foldr insert_stage ss []) = set ss"
  by (induction ss) auto

fun stage_plain :: "guard_event \<Rightarrow> bool" where
  "stage_plain (Blocked s d m) \<longleftrightarrow> CHR ''|'' \<notin> set s"
| "stage_plain (Redacted s d m) \<longleftrightarrow> CHR ''|'' \<notin> set s"
| "stage_plain Passed \<longleftrightarrow> True"

lemma occurs_pos: "0 < occurs p es \<longleftrightarrow> (\<exists>e \<in> set es. p e)"
  by (auto simp: occurs_def filter_empty_conv)

lemma event_key_plain: "stage_plain e \<Longrightarrow> blocks_at k e \<or> redacts_at k e \<Longrightarrow> join_stage (splitStageKey k) = k"
  by (cases e) (auto simp: split_join join_stage_def)

lemma counted_keys_joined:
  assumes "list_all stage_plain es" and "holds_counts (\<lambda>k. occurs (q k) es) n m" and "\<And>k e. q k e \<Longrightarrow> blocks_at k e \<or> redacts_at k e"
  shows "keys_joined m"
  unfolding keys_joined_def
proof
  fix k
  assume "k \<in> gm_keys m"
  then have "gm_get m k \<noteq> None" by (simp add: gm_get_None_iff)
  then have "0 < occurs (q k) es" using assms(2) by (auto simp: holds_counts_def split: if_splits)
  then obtain e where "e \<in> set es" "q k e" by (auto simp: occurs_pos)
  then show "join_stage (splitStageKey k) = k" using assms(1,3) event_key_plain by (auto simp: list_all_iff)
qed

lemma option_if_Some: "(if P then Some x else None) = Some y \<longleftrightarrow> P \<and> y = x"
  by auto

lemma stage_map_counts:
  assumes c: "counts_events es c" and plain: "list_all stage_plain es"
  shows "gm_ok (stage_map c)"
    and "gm_get (stage_map c) (s, d) =
      (let b = occurs (blocks_at (s @ ''|'' @ d)) es; r = occurs (redacts_at (s @ ''|'' @ d)) es
       in if CHR ''|'' \<notin> set s \<and> (0 < b \<or> 0 < r)
          then Some \<lparr>gst_Name = s, gst_Blocks = int b, gst_Redactions = int r, gst_Direction = d\<rparr> else None)"
proof -
  have hb: "holds_counts (\<lambda>k. occurs (blocks_at k) es) (occurs is_block es) (mt_grBlocks c)"
    and hr: "holds_counts (\<lambda>k. occurs (redacts_at k) es) (occurs is_redact es) (mt_grRedacts c)"
    using c by (simp_all add: counts_events_def)
  have b: "gm_ok (mt_grBlocks c)" "keys_joined (mt_grBlocks c)" and r: "gm_ok (mt_grRedacts c)" "keys_joined (mt_grRedacts c)"
    using hb hr counted_keys_joined [OF plain hb] counted_keys_joined [OF plain hr] by (auto simp: holds_counts_def)
  note blocks = put_stages [OF b gm_ok_Nil, of "\<lambda>n s. s\<lparr>gst_Blocks := n\<rparr>"]
  note second = put_stages [OF r conjunct1 [OF blocks], of "\<lambda>n s. s\<lparr>gst_Redactions := n\<rparr>"]
  show "gm_ok (stage_map c)" using second by (simp add: stage_map_def)
  have splitted: "splitStageKey (join_stage (s, d)) = (s, d) \<longleftrightarrow> CHR ''|'' \<notin> set s"
    using split_no_bar [of "join_stage (s, d)"] by (auto simp: join_stage_def split_join)
  show "gm_get (stage_map c) (s, d) =
      (let b = occurs (blocks_at (s @ ''|'' @ d)) es; r = occurs (redacts_at (s @ ''|'' @ d)) es
       in if CHR ''|'' \<notin> set s \<and> (0 < b \<or> 0 < r)
          then Some \<lparr>gst_Name = s, gst_Blocks = int b, gst_Redactions = int r, gst_Direction = d\<rparr> else None)"
    using blocks [of "(s, d)"] second [of "(s, d)"] splitted hb hr
    by (simp add: stage_map_def holds_counts_def stage_before_def join_stage_def Let_def)
qed

text \<open>C39. Whatever guardrail events are recorded, the snapshot counts them: the totals, and for every stage and direction with an event an entry
  with the numbers of its blocks and redactions and no other; the rates lie between 0 and 100 per cent.
\<close>

theorem guardrail_stats_count_events:
  assumes plain: "list_all stage_plain es" and few: "int (length es) < 2 ^ 53"
  shows "\<exists>c. guard_run es (NewCollector b) = Some c
    \<and> gs_TotalBlocks (GetGuardrailStats c) = int (occurs is_block es)
    \<and> gs_TotalRedactions (GetGuardrailStats c) = int (occurs is_redact es)
    \<and> gs_TotalPasses (GetGuardrailStats c) = int (occurs (\<lambda>e. e = Passed) es)
    \<and> gs_TotalRequests (GetGuardrailStats c) = int (length es)
    \<and> 0 \<le> gs_BlockRatePct (GetGuardrailStats c) \<and> gs_BlockRatePct (GetGuardrailStats c) \<le> 100
    \<and> 0 \<le> gs_RedactRatePct (GetGuardrailStats c) \<and> gs_RedactRatePct (GetGuardrailStats c) \<le> 100
    \<and> set (gs_Stages (GetGuardrailStats c)) =
        {\<lparr>gst_Name = s, gst_Blocks = int (occurs (blocks_at (s @ ''|'' @ d)) es),
           gst_Redactions = int (occurs (redacts_at (s @ ''|'' @ d)) es), gst_Direction = d\<rparr> | s d.
         CHR ''|'' \<notin> set s \<and> (0 < occurs (blocks_at (s @ ''|'' @ d)) es \<or> 0 < occurs (redacts_at (s @ ''|'' @ d)) es)}"
proof -
  have "int (length ([] :: guard_event list) + length es) \<le> max_int64" using few by (simp add: max_int64_def)
  from guard_run_counts [OF NewCollector_counts this, of b] obtain c
    where run: "guard_run es (NewCollector b) = Some c" and c: "counts_events es c" by auto
  have le: "occurs p es \<le> length es" for p by (rule occurs_le)
  have small: "int (occurs p es) \<le> max_int64" for p using le [of p] few by (simp add: max_int64_def)
  have totals: "counter_total (mt_grBlocks c) = int (occurs is_block es)" "counter_total (mt_grRedacts c) = int (occurs is_redact es)"
    using c small by (auto simp: counts_events_def intro: counter_total_counts)
  have rates: "0 \<le> rate_pct (int (occurs p es)) (int (length es)) \<and> rate_pct (int (occurs p es)) (int (length es)) \<le> 100" for p
    using le few by (intro rate_in_range) auto
  have "x \<in> snd ` set (stage_map c) \<longleftrightarrow> (\<exists>s d. gm_get (stage_map c) (s, d) = Some x)" for x
    using gm_get_mem [OF stage_map_counts(1) [OF c plain]] by force
  then have stages: "snd ` set (stage_map c) =
      {\<lparr>gst_Name = s, gst_Blocks = int (occurs (blocks_at (s @ ''|'' @ d)) es),
           gst_Redactions = int (occurs (redacts_at (s @ ''|'' @ d)) es), gst_Direction = d\<rparr> | s d.
         CHR ''|'' \<notin> set s \<and> (0 < occurs (blocks_at (s @ ''|'' @ d)) es \<or> 0 < occurs (redacts_at (s @ ''|'' @ d)) es)}"
    unfolding stage_map_counts(2) [OF c plain] Let_def option_if_Some by blast
  show ?thesis
    using run totals rates c by (intro exI [of _ c]) (simp add: GetGuardrailStats_def Let_def counts_events_def stages)
qed

theorem guardrail_stats_count_events_witness:
  "\<exists>c. guard_run [Blocked ''pii'' ''input'' ''m'', Redacted ''pii'' ''input'' ''m'', Passed, Blocked ''length'' ''output'' ''m''] (NewCollector True) = Some c
     \<and> gs_TotalBlocks (GetGuardrailStats c) = 2 \<and> gs_TotalRequests (GetGuardrailStats c) = 4
     \<and> 0 \<le> gs_BlockRatePct (GetGuardrailStats c) \<and> gs_BlockRatePct (GetGuardrailStats c) \<le> 100"
proof -
  let ?es = "[Blocked ''pii'' ''input'' ''m'', Redacted ''pii'' ''input'' ''m'', Passed, Blocked ''length'' ''output'' ''m'']"
  have "list_all stage_plain ?es" "int (length ?es) < 2 ^ 53" by simp_all
  from guardrail_stats_count_events [OF this, of True] obtain c where
    "guard_run ?es (NewCollector True) = Some c" "gs_TotalBlocks (GetGuardrailStats c) = int (occurs is_block ?es)"
    "gs_TotalRequests (GetGuardrailStats c) = int (length ?es)"
    "0 \<le> gs_BlockRatePct (GetGuardrailStats c)" "gs_BlockRatePct (GetGuardrailStats c) \<le> 100"
    by blast
  then show ?thesis by (intro exI [of _ c]) (simp add: occurs_def)
qed

section \<open>The estimate of a latency\<close>

text \<open>What Prometheus documents of a histogram: the number and the sum of the observations of a set of label values, and for every bound
  how many lie at or below it. The order of the label values is open.\<close>

definition observations :: "string \<Rightarrow> string list \<Rightarrow> metric_op list \<Rightarrow> f64 list" where
  "observations name labels ops =
     concat (map (\<lambda>op. case op of Observe n l v \<Rightarrow> if n = name \<and> l = labels then [v] else [] | _ \<Rightarrow> []) ops)"

definition histogram_of :: "f64 list \<Rightarrow> f64 list \<Rightarrow> histogram" where
  "histogram_of bounds xs =
     \<lparr>hs_SampleCount = length xs, hs_SampleSum = foldl fadd 0 xs, hs_Buckets = map (\<lambda>b. (b, length (filter (\<lambda>x. x \<le> b) xs))) bounds\<rparr>"

definition shows_histograms :: "(metric_op list \<Rightarrow> collected list) \<Rightarrow> bool" where
  "shows_histograms collect \<longleftrightarrow> (\<forall>ops. \<exists>ls.
     set ls = {l. observations ''provider_region_duration_seconds'' l ops \<noteq> []} \<and>
     collect ops = map (\<lambda>l. \<lparr>cm_Labels = zip [''provider'', ''model'', ''region''] l,
       cm_Histogram = Some (histogram_of latencyBuckets (observations ''provider_region_duration_seconds'' l ops))\<rparr>) ls)"

type_synonym region_call = "(string \<times> string \<times> string) \<times> duration"

fun record_calls :: "region_call list \<Rightarrow> Collector \<Rightarrow> Collector option" where
  "record_calls [] c = Some c"
| "record_calls (((provider, model, region), d) # calls) c = RecordProviderRegionCall provider model region d c \<bind> record_calls calls"

definition call_op :: "region_call \<Rightarrow> metric_op" where
  "call_op call = (case call of ((provider, model, region), d) \<Rightarrow>
     Observe ''provider_region_duration_seconds'' [provider, model, region_label region] (duration_Seconds d))"

definition durations_of :: "string \<Rightarrow> string \<Rightarrow> string \<Rightarrow> region_call list \<Rightarrow> f64 list" where
  "durations_of provider model region calls =
     map (duration_Seconds \<circ> snd) (filter (\<lambda>((p, m, r), d). p = provider \<and> m = model \<and> region_label r = region_label region) calls)"

text \<open>The first bound that at least half of the durations do not exceed, and the mean when all bounds are exceeded.\<close>

definition latency_estimate :: "f64 list \<Rightarrow> duration" where
  "latency_estimate xs =
     (case find (\<lambda>b. length xs div 2 \<le> length (filter (\<lambda>x. x \<le> b) xs)) latencyBuckets of
        Some b \<Rightarrow> int_of_float (fmul b 1000000000)
      | None \<Rightarrow> int_of_float (fmul (fdiv (foldl fadd 0 xs) (float_of_int (int (length xs)))) 1000000000))"

lemma record_calls_ops:
  "mt_enabled c \<Longrightarrow> record_calls calls c = Some (c\<lparr>mt_ops := mt_ops c @ map call_op calls\<rparr>)"
proof (induction calls arbitrary: c)
  case Nil
  then show ?case by simp
next
  case (Cons call calls)
  obtain p m r d where call: "call = ((p, m, r), d)" by (metis prod.exhaust)
  have "op_ok (call_op call)" by (simp add: call call_op_def registered_table)
  then have "RecordProviderRegionCall p m r d c = Some (c\<lparr>mt_ops := mt_ops c @ [call_op call]\<rparr>)"
    using Cons.prems by (simp add: RecordProviderRegionCall_def perform_def call call_op_def)
  then show ?case using Cons.IH [of "c\<lparr>mt_ops := mt_ops c @ [call_op call]\<rparr>"] Cons.prems call by simp
qed

lemma observed_calls:
  "observations ''provider_region_duration_seconds'' [p, m, region_label r] (map call_op calls) = durations_of p m r calls"
  by (induction calls) (auto simp: observations_def durations_of_def call_op_def split: prod.splits)

lemma observed_labels:
  "observations name l (map call_op calls) \<noteq> [] \<Longrightarrow> \<exists>p m r. l = [p, m, r]"
  by (induction calls) (auto simp: observations_def call_op_def split: if_splits prod.splits)

lemma labels_match_iff:
  "labels_match p m r (zip [''provider'', ''model'', ''region''] [p', m', r']) \<longleftrightarrow> p' = p \<and> m' = m \<and> r' = r"
  by (auto simp: labels_match_def)

lemma find_map: "find P (map f xs) = map_option f (find (P \<circ> f) xs)"
  by (induction xs) auto


text \<open>A Prometheus that shows the label values in the order of their last observations.\<close>

definition observed_lists :: "metric_op list \<Rightarrow> string list list" where
  "observed_lists ops =
     remdups (concat (map (\<lambda>op. case op of Observe n l v \<Rightarrow> if n = ''provider_region_duration_seconds'' then [l] else [] | _ \<Rightarrow> []) ops))"

definition example_collect :: "metric_op list \<Rightarrow> collected list" where
  "example_collect ops = map (\<lambda>l. \<lparr>cm_Labels = zip [''provider'', ''model'', ''region''] l,
     cm_Histogram = Some (histogram_of latencyBuckets (observations ''provider_region_duration_seconds'' l ops))\<rparr>) (observed_lists ops)"

lemma example_collect_law: "shows_histograms example_collect"
proof -
  have "set (observed_lists ops) = {l. observations ''provider_region_duration_seconds'' l ops \<noteq> []}" for ops
  proof (induction ops)
    case Nil
    then show ?case by (simp add: observed_lists_def observations_def)
  next
    case (Cons op ops)
    then show ?case by (cases op) (auto simp: observed_lists_def observations_def)
  qed
  then show ?thesis unfolding shows_histograms_def example_collect_def by blast
qed

definition example_calls :: "region_call list" where
  "example_calls = ((''p'', ''m'', ''us''), 70 * time_Second) # replicate 10 ((''p'', ''m'', ''eu''), 200 * time_Millisecond)"


end
