(* ===== verification/Readiness.thy ===== *)
theory Readiness
  imports Handler_Core
begin

text \<open>
  The health endpoints, \<^verbatim>\<open>internal/health/handler.go\<close>, and the count of requests in flight, \<^verbatim>\<open>internal/lifecycle/tracker.go\<close> with the middleware that
  keeps it. A nil tracker is \<^term>\<open>None\<close>, times stay times, and the answer of an endpoint is the record that is encoded. The lemmas say when the gateway calls itself
  ready and how that differs from what the handler needs, what the health of a provider sums up, and that the count is the number of open requests.
\<close>

section \<open>Requests in flight\<close>

record lifecycle_tracker =
  lt_inFlight :: int
  lt_shuttingDown :: bool

definition NewLifecycleTracker :: lifecycle_tracker where
  "NewLifecycleTracker = \<lparr>lt_inFlight = 0, lt_shuttingDown = False\<rparr>"

definition Begin :: "lifecycle_tracker option \<Rightarrow> lifecycle_tracker option" where
  "Begin t = map_option (\<lambda>t. t\<lparr>lt_inFlight := wrap64 (lt_inFlight t + 1)\<rparr>) t"

text \<open>The function that \<^verbatim>\<open>Begin\<close> returns; the counter of the wait group is the number in flight, and it panics below zero.\<close>

definition Begin_done :: "lifecycle_tracker option \<Rightarrow> lifecycle_tracker option option" where
  "Begin_done t =
     (case t of
        None \<Rightarrow> Some None
      | Some t \<Rightarrow> if lt_inFlight t \<le> 0 then None else Some (Some (t\<lparr>lt_inFlight := wrap64 (lt_inFlight t - 1)\<rparr>)))"

definition InFlight :: "lifecycle_tracker option \<Rightarrow> int" where
  "InFlight t = (case t of None \<Rightarrow> 0 | Some t \<Rightarrow> lt_inFlight t)"

definition MarkShuttingDown :: "lifecycle_tracker option \<Rightarrow> lifecycle_tracker option" where
  "MarkShuttingDown t = map_option (\<lambda>t. t\<lparr>lt_shuttingDown := True\<rparr>) t"

definition IsShuttingDown :: "lifecycle_tracker option \<Rightarrow> bool" where
  "IsShuttingDown t = (case t of None \<Rightarrow> False | Some t \<Rightarrow> lt_shuttingDown t)"

text \<open>\<^verbatim>\<open>Wait\<close> returns when nothing is in flight.\<close>

definition Wait_returns :: "lifecycle_tracker option \<Rightarrow> bool" where
  "Wait_returns t \<longleftrightarrow> InFlight t = 0"

text \<open>The tracking middleware: a request begins, and its deferred function ends it; \<open>open_requests\<close> has those between the two.\<close>

datatype traffic = RequestBegins nat | RequestEnds nat | ShutdownBegins

fun traffic_step :: "traffic \<Rightarrow> nat list \<times> lifecycle_tracker option \<Rightarrow> (nat list \<times> lifecycle_tracker option) option" where
  "traffic_step (RequestBegins i) (open_requests, t) =
     (if i \<in> set open_requests then Some (open_requests, t) else Some (i # open_requests, Begin t))"
| "traffic_step (RequestEnds i) (open_requests, t) =
     (if i \<in> set open_requests then map_option (\<lambda>t. (remove1 i open_requests, t)) (Begin_done t) else Some (open_requests, t))"
| "traffic_step ShutdownBegins (open_requests, t) = Some (open_requests, MarkShuttingDown t)"

fun traffic_run :: "traffic list \<Rightarrow> nat list \<times> lifecycle_tracker option \<Rightarrow> (nat list \<times> lifecycle_tracker option) option" where
  "traffic_run [] s = Some s"
| "traffic_run (e # es) s = traffic_step e s \<bind> traffic_run es"

section \<open>Readiness\<close>

record ProviderReadinessStatus =
  prs_Name :: string
  prs_Type :: string
  prs_Ready :: bool
  prs_RequiresAuth :: bool
  prs_ConfiguredKeys :: int
  prs_ActiveKeys :: int
  prs_MissingEnv :: "string list"
  prs_Reason :: string

record KMSStatus =
  kst_Type :: string
  kst_Ready :: bool

record OIDCStatus =
  ost_Enabled :: bool
  ost_Issuer :: string
  ost_Ready :: bool

record ReadyResponse =
  rdy_Status :: string
  rdy_ShuttingDown :: bool
  rdy_InFlight :: int
  rdy_Providers :: "ProviderReadinessStatus list"
  rdy_KMS :: "KMSStatus option"
  rdy_OIDC :: "OIDCStatus option"

definition RequiresAuth :: "ProviderConfig \<Rightarrow> bool" where
  "RequiresAuth provider \<longleftrightarrow> pc_Type provider \<in> {''openai'', ''anthropic'', ''gemini'', ''azure-openai'', ''''}"

fun sorted_texts :: "string list \<Rightarrow> string list" where
  "sorted_texts [] = []"
| "sorted_texts (s # ss) = map fst (insert_member (s, ()) (map (\<lambda>t. (t, ())) (sorted_texts ss)))"

definition missingEnvNames :: "KeyRing option \<Rightarrow> string list" where
  "missingEnvNames keyRing = sorted_texts (map mk_Env (MissingEnv keyRing))"

definition provider_status :: "(string, KeyRing) gomap \<Rightarrow> string \<Rightarrow> ProviderConfig \<Rightarrow> ProviderReadinessStatus" where
  "provider_status keys name provider =
     (let keyRing = gm_get keys name;
          activeKeys = ActiveCount keyRing;
          blocked = RequiresAuth provider \<and> activeKeys = 0
      in \<lparr>prs_Name = name, prs_Type = pc_Type provider, prs_Ready = \<not> blocked, prs_RequiresAuth = RequiresAuth provider,
          prs_ConfiguredKeys = ConfiguredCount keyRing, prs_ActiveKeys = activeKeys, prs_MissingEnv = missingEnvNames keyRing,
          prs_Reason = (if blocked then ''provider requires auth but has no active keys'' else '''')\<rparr>)"

definition providerStatuses :: "Config \<Rightarrow> (string, KeyRing) gomap \<Rightarrow> ProviderReadinessStatus list" where
  "providerStatuses cfg keys =
     map (\<lambda>name. provider_status keys name (the (gm_get (cfg_Providers cfg) name))) (sorted_texts (map fst (cfg_Providers cfg)))"

definition kmsStatus :: "Config \<Rightarrow> KMSStatus option" where
  "kmsStatus cfg = (if \<not> kms_Enabled (cfg_KMS cfg) then None else Some \<lparr>kst_Type = kms_Type (cfg_KMS cfg), kst_Ready = True\<rparr>)"

text \<open>The provider of OpenID logins is nil or tells whether it is healthy.\<close>

definition oidcStatus :: "Config \<Rightarrow> bool option \<Rightarrow> OIDCStatus option" where
  "oidcStatus cfg provider =
     (if \<not> oidc_Enabled (ad_OIDC (cfg_Admin cfg)) then None
      else Some \<lparr>ost_Enabled = True, ost_Issuer = oidc_Issuer (ad_OIDC (cfg_Admin cfg)), ost_Ready = (provider = Some True)\<rparr>)"

definition ReadyHandlerWithOIDC ::
  "Config \<Rightarrow> (string, KeyRing) gomap \<Rightarrow> lifecycle_tracker option \<Rightarrow> bool option \<Rightarrow> int \<times> ReadyResponse" where
  "ReadyHandlerWithOIDC cfg keys tracker oidcProvider =
     (let statuses = providerStatuses cfg keys;
          shuttingDown = IsShuttingDown tracker;
          (status, code) =
            (if list_ex (\<lambda>p. \<not> prs_Ready p) statuses then (''not_ready'', 503)
             else if shuttingDown then (''shutting_down'', 503) else (''ready'', 200))
      in (code, \<lparr>rdy_Status = status, rdy_ShuttingDown = shuttingDown, rdy_InFlight = InFlight tracker, rdy_Providers = statuses,
                 rdy_KMS = kmsStatus cfg, rdy_OIDC = oidcStatus cfg oidcProvider\<rparr>))"

section \<open>Health reports\<close>

record providerHealth =
  phl_Name :: string
  phl_Healthy :: bool
  phl_LastSuccess :: "gotime option"
  phl_LastFailure :: "gotime option"
  phl_ConsecutiveFailures :: int

definition set_time :: "gotime \<Rightarrow> gotime option \<Rightarrow> gotime option" where
  "set_time t old = (if time_IsZero t then old else Some t)"

definition add_health :: "ModelHealth \<Rightarrow> (string, providerHealth) gomap \<Rightarrow> (string, providerHealth) gomap" where
  "add_health e seen =
     (let p = (case gm_get seen (mh_Provider e) of
                 None \<Rightarrow> \<lparr>phl_Name = mh_Provider e, phl_Healthy = False, phl_LastSuccess = None, phl_LastFailure = None, phl_ConsecutiveFailures = 0\<rparr>
               | Some p \<Rightarrow> p)
      in gm_set (mh_Provider e)
           (p\<lparr>phl_ConsecutiveFailures := (if phl_ConsecutiveFailures p < mh_ConsecutiveFailures e then mh_ConsecutiveFailures e
                                          else phl_ConsecutiveFailures p),
              phl_LastSuccess := set_time (mh_LastSuccess e) (phl_LastSuccess p),
              phl_LastFailure := set_time (mh_LastFailure e) (phl_LastFailure p)\<rparr>) seen)"

text \<open>The rows are sorted by their names.\<close>

definition AdminProviderHealth :: "Tracker \<Rightarrow> providerHealth list" where
  "AdminProviderHealth tracker =
     map (\<lambda>(k, p). p\<lparr>phl_Healthy := (phl_ConsecutiveFailures p = 0)\<rparr>) (map_members (fold add_health (GetAll tracker) []))"

record modelHealth =
  mdl_Provider :: string
  mdl_Model :: string
  mdl_Region :: string
  mdl_Healthy :: bool
  mdl_LastSuccess :: "gotime option"
  mdl_LastFailure :: "gotime option"
  mdl_ConsecutiveFailures :: int

definition AdminModelHealth :: "Tracker \<Rightarrow> modelHealth list" where
  "AdminModelHealth tracker =
     map (\<lambda>e. \<lparr>mdl_Provider = mh_Provider e, mdl_Model = mh_Model e, mdl_Region = mh_Region e, mdl_Healthy = (mh_ConsecutiveFailures e = 0),
               mdl_LastSuccess = set_time (mh_LastSuccess e) None, mdl_LastFailure = set_time (mh_LastFailure e) None,
               mdl_ConsecutiveFailures = mh_ConsecutiveFailures e\<rparr>) (GetAll tracker)"

section \<open>The count of requests\<close>

definition tracks :: "nat list \<times> lifecycle_tracker option \<Rightarrow> bool" where
  "tracks s \<longleftrightarrow> (case s of (open_requests, t) \<Rightarrow> distinct open_requests \<and> (case t of None \<Rightarrow> True | Some t \<Rightarrow> lt_inFlight t = int (length open_requests)))"

definition begins :: "traffic list \<Rightarrow> nat" where
  "begins es = length (filter (\<lambda>e. case e of RequestBegins i \<Rightarrow> True | _ \<Rightarrow> False) es)"

lemma traffic_step_tracks:
  assumes "tracks (os, t)" and "int (length os) < max_int64"
  shows "\<exists>os' t'. traffic_step e (os, t) = Some (os', t') \<and> tracks (os', t') \<and> length os' \<le> length os + begins [e] \<and> (t' = None \<longleftrightarrow> t = None)"
proof (cases t)
  case None
  then show ?thesis using assms by (cases e) (auto simp: tracks_def Begin_def Begin_done_def MarkShuttingDown_def begins_def length_remove1)
next
  case (Some u)
  have up: "wrap64 (int (length os) + 1) = int (length os) + 1" using assms(2) by (intro wrap64_id) (simp add: in_int64_def min_int64_def)
  have down: "wrap64 (int (length os) - 1) = int (length os) - 1" using assms(2) by (intro wrap64_id) (simp add: in_int64_def min_int64_def)
  have pos: "0 < length os" if "i \<in> set os" for i using that by (cases os) auto
  show ?thesis
    using assms Some up down pos
    by (cases e) (auto simp: tracks_def Begin_def Begin_done_def MarkShuttingDown_def begins_def length_remove1 of_nat_diff Suc_le_eq)
qed

lemma begins_Cons: "begins (e # es) = begins [e] + begins es"
  by (simp add: begins_def)

lemma traffic_run_tracks:
  "tracks (os, t) \<Longrightarrow> int (length os + begins es) \<le> max_int64 \<Longrightarrow>
     \<exists>os' t'. traffic_run es (os, t) = Some (os', t') \<and> tracks (os', t') \<and> (t' = None \<longleftrightarrow> t = None)"
proof (induction es arbitrary: os t)
  case Nil
  then show ?case by simp
next
  case (Cons e es)
  show ?case
  proof (cases "int (length os) < max_int64")
    case True
    from traffic_step_tracks [OF Cons.prems(1) True, of e] obtain os1 t1 where
      step: "traffic_step e (os, t) = Some (os1, t1)" "tracks (os1, t1)" "length os1 \<le> length os + begins [e]" "t1 = None \<longleftrightarrow> t = None"
      by blast
    have "int (length os1 + begins es) \<le> max_int64" using Cons.prems(2) step(3) begins_Cons [of e es] by simp
    from Cons.IH [OF step(2) this] obtain os' t' where "traffic_run es (os1, t1) = Some (os', t')" "tracks (os', t')" "t' = None \<longleftrightarrow> t1 = None"
      by blast
    then show ?thesis using step by simp
  next
    case False
    then have none: "begins [e] = 0" "begins es = 0" and full: "int (length os) = max_int64" using Cons.prems(2) begins_Cons [of e es] by simp_all
    have "\<exists>os1 t1. traffic_step e (os, t) = Some (os1, t1) \<and> tracks (os1, t1) \<and> length os1 \<le> length os \<and> (t1 = None \<longleftrightarrow> t = None)"
      using Cons.prems(1) none(1) full
      by (cases e; cases t)
        (auto simp: tracks_def Begin_done_def MarkShuttingDown_def begins_def length_remove1 max_int64_def in_int64_def min_int64_def)
    then obtain os1 t1 where
      step: "traffic_step e (os, t) = Some (os1, t1)" "tracks (os1, t1)" "length os1 \<le> length os" "t1 = None \<longleftrightarrow> t = None" by blast
    have "int (length os1 + begins es) \<le> max_int64" using full none step(3) by simp
    from Cons.IH [OF step(2) this] obtain os' t' where "traffic_run es (os1, t1) = Some (os', t')" "tracks (os', t')" "t' = None \<longleftrightarrow> t1 = None"
      by blast
    then show ?thesis using step by simp
  qed
qed

text \<open>
  However requests begin and end, the deferred functions never panic, the count is the number of open requests, and \<^verbatim>\<open>Wait\<close> returns
  exactly when there are none.
\<close>

theorem in_flight_counts_requests:
  assumes "int (length es) \<le> max_int64"
  shows "\<exists>os t. traffic_run es ([], Some NewLifecycleTracker) = Some (os, Some t)
     \<and> InFlight (Some t) = int (length os) \<and> (Wait_returns (Some t) \<longleftrightarrow> os = [])"
proof -
  have "begins es \<le> length es" by (simp add: begins_def)
  then have "int (length ([] :: nat list) + begins es) \<le> max_int64" using assms by simp
  moreover have "tracks ([], Some NewLifecycleTracker)" by (simp add: tracks_def NewLifecycleTracker_def)
  ultimately obtain os t' where run: "traffic_run es ([], Some NewLifecycleTracker) = Some (os, t')" "tracks (os, t')" "t' \<noteq> None"
    using traffic_run_tracks by blast
  then obtain t where "t' = Some t" by blast
  with run show ?thesis by (auto simp: tracks_def InFlight_def Wait_returns_def)
qed

section \<open>When the gateway is ready\<close>

lemma insert_member_set: "set (insert_member m ms) = insert m (set ms)"
  by (induction ms) auto

lemma sorted_texts_set [simp]: "set (sorted_texts ss) = set ss"
  by (induction ss) (simp_all add: insert_member_set image_image)

lemma gm_keys_get: "k \<in> gm_keys m \<longleftrightarrow> (\<exists>v. gm_get m k = Some v)"
  using gm_get_None_iff [of m k] by auto

text \<open>The endpoint answers 200 exactly when the gateway is not shutting down and every provider that \<^verbatim>\<open>RequiresAuth\<close> names has an active key.\<close>

theorem ready_iff:
  "fst (ReadyHandlerWithOIDC cfg keys tracker oidc) = 200 \<longleftrightarrow>
     \<not> IsShuttingDown tracker \<and>
     (\<forall>name provider. gm_get (cfg_Providers cfg) name = Some provider \<longrightarrow> RequiresAuth provider \<longrightarrow> ActiveCount (gm_get keys name) \<noteq> 0)"
proof -
  have "list_ex (\<lambda>p. \<not> prs_Ready p) (providerStatuses cfg keys) \<longleftrightarrow>
      (\<exists>name provider. gm_get (cfg_Providers cfg) name = Some provider \<and> RequiresAuth provider \<and> ActiveCount (gm_get keys name) = 0)"
  proof -
    have "list_ex (\<lambda>p. \<not> prs_Ready p) (providerStatuses cfg keys) \<longleftrightarrow>
        (\<exists>name \<in> gm_keys (cfg_Providers cfg). RequiresAuth (the (gm_get (cfg_Providers cfg) name)) \<and> ActiveCount (gm_get keys name) = 0)"
      by (simp add: list_ex_iff providerStatuses_def provider_status_def Let_def)
    also have "\<dots> \<longleftrightarrow> (\<exists>name provider. gm_get (cfg_Providers cfg) name = Some provider \<and> RequiresAuth provider \<and> ActiveCount (gm_get keys name) = 0)"
      unfolding Bex_def gm_keys_get by (metis option.sel)
    finally show ?thesis .
  qed
  then show ?thesis by (auto simp: ReadyHandlerWithOIDC_def Let_def)
qed

text \<open>
  The list of providers that need a key is shorter here than in the handler: with a provider of one of the other types and no key the gateway is ready, and
  every request to that provider fails for want of a key.
\<close>

theorem ready_without_keys:
  assumes "cfg_Providers cfg = [(name, provider)]" and "pc_Type provider \<in> {''bedrock'', ''vertex'', ''groq'', ''cohere'', ''mistral''}"
    and "h_cfg h = cfg" and "gm_get (h_keys h) name = None" and "\<not> IsShuttingDown tracker"
  shows "fst (ReadyHandlerWithOIDC cfg (h_keys h) tracker oidc) = 200 \<and> (\<exists>e. fst (nextProviderKey name h) = Inl e)"
  using assms by (auto simp: ready_iff RequiresAuth_def gm_get_def nextProviderKey_def providerRequiresAuth_def)

section \<open>What the health report sums up\<close>

definition worst :: "string \<Rightarrow> ModelHealth list \<Rightarrow> int" where
  "worst p es = fold max (map mh_ConsecutiveFailures (filter (\<lambda>e. mh_Provider e = p) es)) 0"

lemma worst_append: "worst p (es @ [e]) = (if mh_Provider e = p then max (mh_ConsecutiveFailures e) (worst p es) else worst p es)"
  by (simp add: worst_def)

lemma fold_max_zero: "0 \<le> (a :: int) \<Longrightarrow> list_all (\<lambda>x. 0 \<le> x) xs \<Longrightarrow> fold max xs a = 0 \<longleftrightarrow> a = 0 \<and> list_all (\<lambda>x. x = 0) xs"
  by (induction xs arbitrary: a) (auto simp: max_def)

lemma worst_zero:
  assumes "list_all (\<lambda>e. 0 \<le> mh_ConsecutiveFailures e) es"
  shows "worst p es = 0 \<longleftrightarrow> (\<forall>e \<in> set es. mh_Provider e = p \<longrightarrow> mh_ConsecutiveFailures e = 0)"
  using assms fold_max_zero [of 0 "map mh_ConsecutiveFailures (filter (\<lambda>e. mh_Provider e = p) es)"]
  by (auto simp: worst_def list_all_iff)

lemma grouped_health:
  "gm_ok (fold add_health es []) \<and>
   (case gm_get (fold add_health es []) p of
      None \<Rightarrow> list_all (\<lambda>e. mh_Provider e \<noteq> p) es
    | Some h \<Rightarrow> phl_Name h = p \<and> phl_ConsecutiveFailures h = worst p es \<and> list_ex (\<lambda>e. mh_Provider e = p) es)"
proof (induction es rule: rev_induct)
  case Nil
  then show ?case by simp
next
  case (snoc e es)
  have fresh: "worst p es = 0" if "list_all (\<lambda>e. mh_Provider e \<noteq> p) es"
  proof -
    have "filter (\<lambda>e. mh_Provider e = p) es = []" using that by (simp add: filter_empty_conv list_all_iff)
    then show ?thesis by (simp add: worst_def)
  qed
  show ?case
    using snoc fresh
    by (auto simp: add_health_def Let_def gm_get_set worst_append max_def split: option.splits if_splits)
qed

lemma fold_gm_set_ok:
  "gm_ok (acc @ ms) \<Longrightarrow> fold (\<lambda>(k, v). gm_set k v) ms acc = acc @ ms"
proof (induction ms arbitrary: acc)
  case Nil
  then show ?case by simp
next
  case (Cons m ms)
  obtain k v where m: "m = (k, v)" by force
  have "k \<notin> gm_keys acc" using Cons.prems m by (auto simp: gm_ok_def)
  then have "gm_set k v acc = acc @ [(k, v)]" unfolding gm_set_def by (induction acc) auto
  then show ?case using Cons.IH [of "acc @ [(k, v)]"] Cons.prems m by simp
qed

lemma fold_insert_member_set: "set (fold insert_member ms acc) = set acc \<union> set ms"
  by (induction ms arbitrary: acc) (auto simp: insert_member_set)

lemma map_members_set: "gm_ok ms \<Longrightarrow> set (map_members ms) = set ms"
  using fold_gm_set_ok [of "[]" ms] by (simp add: map_members_def fold_insert_member_set)

text \<open>
  The report has a row for exactly the providers with a tracked model, and a provider is healthy there exactly when none of its models in
  any region has failed since its last success.
\<close>

theorem provider_health_sums_up:
  assumes "list_all (\<lambda>e. 0 \<le> mh_ConsecutiveFailures e) (GetAll tracker)"
  shows "(\<exists>row \<in> set (AdminProviderHealth tracker). phl_Name row = p) \<longleftrightarrow> list_ex (\<lambda>e. mh_Provider e = p) (GetAll tracker)"
    and "row \<in> set (AdminProviderHealth tracker) \<Longrightarrow>
      phl_Healthy row \<longleftrightarrow> (\<forall>e \<in> set (GetAll tracker). mh_Provider e = phl_Name row \<longrightarrow> mh_ConsecutiveFailures e = 0)"
proof -
  let ?m = "fold add_health (GetAll tracker) []"
  have ok: "gm_ok ?m" using grouped_health by blast
  have rows: "row \<in> set (AdminProviderHealth tracker) \<longleftrightarrow>
      (\<exists>k h. gm_get ?m k = Some h \<and> row = h\<lparr>phl_Healthy := (phl_ConsecutiveFailures h = 0)\<rparr>)" for row
    using map_members_set [OF ok] gm_get_mem [OF ok] by (auto simp: AdminProviderHealth_def)
  have found: "phl_Name h = k \<and> phl_ConsecutiveFailures h = worst k (GetAll tracker) \<and> list_ex (\<lambda>e. mh_Provider e = k) (GetAll tracker)"
    if "gm_get ?m k = Some h" for k h
    using grouped_health [of "GetAll tracker" k] that by simp
  show "phl_Healthy row \<longleftrightarrow> (\<forall>e \<in> set (GetAll tracker). mh_Provider e = phl_Name row \<longrightarrow> mh_ConsecutiveFailures e = 0)"
    if "row \<in> set (AdminProviderHealth tracker)"
    using that found worst_zero [OF assms] by (auto simp: rows)
  show "(\<exists>row \<in> set (AdminProviderHealth tracker). phl_Name row = p) \<longleftrightarrow> list_ex (\<lambda>e. mh_Provider e = p) (GetAll tracker)"
  proof
    assume "\<exists>row \<in> set (AdminProviderHealth tracker). phl_Name row = p"
    then show "list_ex (\<lambda>e. mh_Provider e = p) (GetAll tracker)" using found by (auto simp: rows)
  next
    assume "list_ex (\<lambda>e. mh_Provider e = p) (GetAll tracker)"
    then obtain h where h: "gm_get ?m p = Some h"
      using grouped_health [of "GetAll tracker" p] by (cases "gm_get ?m p") (auto simp: list_all_iff list_ex_iff)
    then have "h\<lparr>phl_Healthy := (phl_ConsecutiveFailures h = 0)\<rparr> \<in> set (AdminProviderHealth tracker)" unfolding rows by blast
    moreover have "phl_Name (h\<lparr>phl_Healthy := (phl_ConsecutiveFailures h = 0)\<rparr>) = p" using found [OF h] by simp
    ultimately show "\<exists>row \<in> set (AdminProviderHealth tracker). phl_Name row = p" by blast
  qed
qed

text \<open>The times of a row are those of the model that comes last in the iteration of a Go map, not the latest ones.\<close>

theorem report_time_depends_on_order:
  "(\<exists>older newer. mh_Provider older = mh_Provider newer \<and> mh_LastSuccess older < mh_LastSuccess newer
     \<and> map phl_LastSuccess (AdminProviderHealth \<lparr>tk_models = [(''a'', older), (''b'', newer)], tk_window = 0\<rparr>) = [Some (mh_LastSuccess newer)]
     \<and> map phl_LastSuccess (AdminProviderHealth \<lparr>tk_models = [(''b'', newer), (''a'', older)], tk_window = 0\<rparr>) = [Some (mh_LastSuccess older)])"
proof -
  let ?e = "\<lambda>m t. \<lparr>mh_Provider = ''p'', mh_Model = m, mh_Region = '''', mh_LastSuccess = t, mh_LastFailure = time_zero, mh_ConsecutiveFailures = 0\<rparr>"
  have "map phl_LastSuccess (AdminProviderHealth \<lparr>tk_models = [(''a'', ?e ''x'' 100), (''b'', ?e ''y'' 200)], tk_window = 0\<rparr>) = [Some 200]"
    "map phl_LastSuccess (AdminProviderHealth \<lparr>tk_models = [(''b'', ?e ''y'' 200), (''a'', ?e ''x'' 100)], tk_window = 0\<rparr>) = [Some 100]"
    by code_simp+
  then show ?thesis by (intro exI [of _ "?e ''x'' 100"] exI [of _ "?e ''y'' 200"]) simp
qed

end
