(* ===== verification/Redis_Limit.thy ===== *)
theory Redis_Limit
  imports Circuit_Breaker Mcp_Server "HOL-Library.Multiset"
begin

text \<open>
  The rate limiter in Redis, \<^verbatim>\<open>internal/ratelimit/redis.go\<close>: a sorted set per key and kind of limit holds one member per admitted request, its score the time in
  nanoseconds, and a Lua script drops the members that left the window, counts the rest and adds the new one. The Redis server is a parameter, the record \<open>redis_zset\<close> of
  its commands on a server state; \<open>zset_laws\<close> has what Redis documents of them, over an abstraction of the state. Numbers of the script are doubles: the scores are
  rounded as such, and limits and counts are small enough to be exact.

  The main theorem: with a healthy Redis and clocks that do not go back, no more requests are admitted in any window than the limit, whatever the number of gateways
  that share the key; the window is shorter than a minute by the rounding of the scores.
\<close>

section \<open>The limiter\<close>

record 'r redis_zset =
  rz_Incr :: "string \<Rightarrow> 'r \<Rightarrow> int option \<times> 'r"
  rz_Eval :: "('r \<Rightarrow> (int \<times> int \<times> int) \<times> 'r) \<Rightarrow> 'r \<Rightarrow> (int \<times> int \<times> int) option \<times> 'r"
  rz_ZRemRangeByScore :: "string \<Rightarrow> f64 \<Rightarrow> 'r \<Rightarrow> 'r"
  rz_ZCard :: "string \<Rightarrow> 'r \<Rightarrow> int"
  rz_ZAdd :: "string \<Rightarrow> f64 \<Rightarrow> string \<Rightarrow> 'r \<Rightarrow> 'r"
  rz_Expire :: "string \<Rightarrow> int \<Rightarrow> 'r \<Rightarrow> 'r"

record RedisLimiter =
  rl_keyID :: string
  rl_rpm :: int
  rl_tpm :: int
  rl_window :: duration

definition NewRedisLimiter :: "string \<Rightarrow> int \<Rightarrow> int \<Rightarrow> RedisLimiter" where
  "NewRedisLimiter keyID rpm tpm = \<lparr>rl_keyID = keyID, rl_rpm = rpm, rl_tpm = tpm, rl_window = time_Minute\<rparr>"

text \<open>The Lua script: whether the request is allowed, the limit and what remains.\<close>

definition window_script ::
  "'r redis_zset \<Rightarrow> string \<Rightarrow> f64 \<Rightarrow> string \<Rightarrow> f64 \<Rightarrow> int \<Rightarrow> int \<Rightarrow> 'r \<Rightarrow> (int \<times> int \<times> int) \<times> 'r" where
  "window_script R key window_start member score limit n r =
     (let r = rz_ZRemRangeByScore R key window_start r;
          current = rz_ZCard R key r
      in if current + n \<le> limit
         then ((1, limit, limit - current - n),
               rz_Expire R key 120 (fold (\<lambda>i. rz_ZAdd R key score (member @ '':'' @ itoa i)) [1..n] r))
         else ((0, limit, limit - current), rz_Expire R key 120 r))"

definition limit_key :: "RedisLimiter \<Rightarrow> string \<Rightarrow> string" where
  "limit_key rl limitType = ''rl:'' @ rl_keyID rl @ '':'' @ limitType"

definition member_name :: "gotime \<Rightarrow> int \<Rightarrow> string" where
  "member_name now uniqueID = itoa (time_UnixNano now) @ '':'' @ itoa uniqueID"

definition window_start :: "RedisLimiter \<Rightarrow> gotime \<Rightarrow> f64" where
  "window_start rl now = float_of_int (time_UnixNano (time_Add now (- rl_window rl)))"

text \<open>An error of Redis, or an answer that is not a list of three numbers, admits the request.\<close>

definition checkCount ::
  "'r redis_zset \<Rightarrow> gotime \<Rightarrow> RedisLimiter \<Rightarrow> string \<Rightarrow> int \<Rightarrow> 'r \<Rightarrow> (bool \<times> int \<times> int \<times> gotime) \<times> 'r" where
  "checkCount R now rl limitType n r =
     (let key = limit_key rl limitType;
          limit = (if limitType = ''tpm'' then rl_tpm rl else rl_rpm rl);
          resetAt = time_Add now (rl_window rl)
      in case rz_Incr R (key @ '':seq'') r of
           (None, r) \<Rightarrow> ((True, limit, limit, resetAt), r)
         | (Some uniqueID, r) \<Rightarrow>
             (case rz_Eval R (window_script R key (window_start rl now) (member_name now uniqueID) (float_of_int (time_UnixNano now)) limit n) r of
                (None, r) \<Rightarrow> ((True, limit, limit, resetAt), r)
              | (Some (allowed, limitVal, remaining), r) \<Rightarrow>
                  ((allowed = 1, limitVal, if remaining < 0 then 0 else remaining, resetAt), r)))"

definition RedisLimiter_CheckRPM :: "'r redis_zset \<Rightarrow> gotime \<Rightarrow> RedisLimiter \<Rightarrow> 'r \<Rightarrow> (bool \<times> int \<times> int \<times> gotime) \<times> 'r" where
  "RedisLimiter_CheckRPM R now rl r = (if rl_rpm rl \<le> 0 then ((True, 0, 0, time_zero), r) else checkCount R now rl ''rpm'' 1 r)"

definition RedisLimiter_CheckTPM ::
  "'r redis_zset \<Rightarrow> gotime \<Rightarrow> RedisLimiter \<Rightarrow> int \<Rightarrow> 'r \<Rightarrow> (bool \<times> int \<times> int \<times> gotime) \<times> 'r" where
  "RedisLimiter_CheckTPM R now rl tokenCount r =
     (if rl_tpm rl \<le> 0 then ((True, 0, 0, time_zero), r) else checkCount R now rl ''tpm'' tokenCount r)"

section \<open>What Redis documents\<close>

text \<open>The sorted sets, the ends of their lives, the counters, and the clock of the server.\<close>

record redis_view =
  rv_sets :: "string \<Rightarrow> (string, f64) gomap"
  rv_ends :: "string \<Rightarrow> gotime option"
  rv_counters :: "string \<Rightarrow> int"
  rv_clock :: gotime

definition zset_laws :: "'r redis_zset \<Rightarrow> ('r \<Rightarrow> redis_view) \<Rightarrow> bool" where
  "zset_laws R A \<longleftrightarrow>
     (\<forall>k r. rz_Incr R k r = (Some (rv_counters (A r) k + 1), snd (rz_Incr R k r)) \<and>
        A (snd (rz_Incr R k r)) = (A r)\<lparr>rv_counters := (rv_counters (A r))(k := rv_counters (A r) k + 1)\<rparr>) \<and>
     (\<forall>f r. rz_Eval R f r = (Some (fst (f r)), snd (f r))) \<and>
     (\<forall>k x r. A (rz_ZRemRangeByScore R k x r) = (A r)\<lparr>rv_sets := (rv_sets (A r))(k := filter (\<lambda>(m, s). \<not> s \<le> x) (rv_sets (A r) k))\<rparr>) \<and>
     (\<forall>k r. rz_ZCard R k r = int (length (rv_sets (A r) k))) \<and>
     (\<forall>k s m r. A (rz_ZAdd R k s m r) = (A r)\<lparr>rv_sets := (rv_sets (A r))(k := gm_set m s (rv_sets (A r) k))\<rparr>) \<and>
     (\<forall>k n r. A (rz_Expire R k n r) = (A r)\<lparr>rv_ends := (rv_ends (A r))(k := Some (rv_clock (A r) + n * time_Second))\<rparr>)"

text \<open>Time passes on the server, and other keys may be used: the set of this key goes when its life has ended and stays otherwise.\<close>

definition passes :: "string \<Rightarrow> redis_view \<Rightarrow> redis_view \<Rightarrow> bool" where
  "passes k v v' \<longleftrightarrow> rv_counters v' (k @ '':seq'') = rv_counters v (k @ '':seq'') \<and>
     (rv_sets v' k = rv_sets v k \<and> rv_ends v' k = rv_ends v k
      \<or> rv_sets v' k = [] \<and> rv_ends v' k = None \<and> (\<exists>d. rv_ends v k = Some d \<and> d \<le> rv_clock v'))"

text \<open>Times whose nanoseconds since 1970 fit, a minute earlier too.\<close>

definition unix_range :: "gotime \<Rightarrow> bool" where
  "unix_range t \<longleftrightarrow> time_Minute \<le> t - unix_epoch * nanos_per_second \<and> t - unix_epoch * nanos_per_second \<le> max_int64"

text \<open>A run of checks of one key: the times at which requests were admitted, the newest first, and the time of the last check. The clock of the server is within
  half a minute of that of the gateway, which may be another gateway at each check.\<close>

inductive limiter_run ::
  "'r redis_zset \<Rightarrow> ('r \<Rightarrow> redis_view) \<Rightarrow> RedisLimiter \<Rightarrow> 'r \<Rightarrow> gotime list \<Rightarrow> gotime \<Rightarrow> 'r \<Rightarrow> bool"
  for R :: "'r redis_zset" and A :: "'r \<Rightarrow> redis_view" and rl :: RedisLimiter and r0 :: 'r where
  start: "unix_range t \<Longrightarrow> limiter_run R A rl r0 [] t r0"
| check: "\<lbrakk>limiter_run R A rl r0 admitted t r; t \<le> now; unix_range now; \<bar>rv_clock (A r') - now\<bar> \<le> 30 * time_Second;
           passes (limit_key rl ''rpm'') (A r) (A r');
           RedisLimiter_CheckRPM R now rl r' = ((allowed, limit, remaining, resetAt), r'')\<rbrakk> \<Longrightarrow>
         limiter_run R A rl r0 (if allowed then now # admitted else admitted) now r''"

inductive_cases limiter_runE: "limiter_run R A rl r0 admitted t r"

section \<open>The sorted set holds the admitted requests\<close>

definition nanos :: "gotime \<Rightarrow> int" where
  "nanos t = t - unix_epoch * nanos_per_second"

definition score_of :: "gotime \<Rightarrow> f64" where
  "score_of t = float_of_int (nanos t)"

definition threshold :: "gotime \<Rightarrow> f64" where
  "threshold t = float_of_int (nanos t - time_Minute)"

lemma unix_rangeD:
  assumes "unix_range t"
  shows "0 \<le> nanos t - time_Minute" and "0 \<le> nanos t" and "nanos t \<le> max_int64" and "nanos t - time_Minute \<le> max_int64"
  using assms by (simp_all add: unix_range_def nanos_def time_Minute_def time_Second_def nanos_per_second_def)

lemma wrap64_nonneg: "0 \<le> n \<Longrightarrow> n \<le> max_int64 \<Longrightarrow> wrap64 n = n"
  by (rule wrap64_id) (simp add: in_int64_def min_int64_def)

lemma UnixNano_range: "unix_range t \<Longrightarrow> time_UnixNano t = nanos t"
  using unix_rangeD [of t] by (simp add: time_UnixNano_def nanos_def wrap64_nonneg)

lemma window_start_range: "unix_range t \<Longrightarrow> window_start (NewRedisLimiter k rpm tpm) t = threshold t"
proof -
  assume "unix_range t"
  then have w: "wrap64 (nanos t - time_Minute) = nanos t - time_Minute" by (intro wrap64_nonneg unix_rangeD)
  have "time_UnixNano (time_Add t (- time_Minute)) = wrap64 (nanos t - time_Minute)"
    unfolding time_UnixNano_def time_Add_def nanos_def by (rule arg_cong [where f = wrap64]) simp
  then show ?thesis by (simp add: window_start_def NewRedisLimiter_def threshold_def w)
qed

lemma float_of_int_mono: "m \<le> n \<Longrightarrow> float_of_int m \<le> float_of_int n"
  by (simp add: float_of_int_def float64_mono)

lemma threshold_mono: "s \<le> t \<Longrightarrow> threshold s \<le> threshold t"
  by (simp add: threshold_def nanos_def float_of_int_mono)

lemma score_below_threshold: "x + time_Minute \<le> t \<Longrightarrow> score_of x \<le> threshold t"
  by (simp add: score_of_def threshold_def nanos_def float_of_int_mono)

text \<open>Rounding moves a time by at most 1024 nanoseconds.\<close>

lemma float_of_int_near:
  assumes "0 \<le> n" and "n \<le> max_int64"
  shows "\<bar>float_of_int n - of_int n\<bar> \<le> 1024"
proof -
  have "\<bar>float_of_int n - of_int n\<bar> \<le> unit_roundoff * of_int n"
    using assms(1) by (simp add: float_of_int_def float64_err)
  also have "\<dots> \<le> unit_roundoff * 2 ^ 63"
  proof (rule mult_left_mono)
    have "(of_int n :: rat) \<le> of_int (2 ^ 63)" using assms(2) by (intro of_int_le_iff [THEN iffD2]) (simp add: max_int64_def)
    then show "(of_int n :: rat) \<le> 2 ^ 63" by simp
  qed (simp add: unit_roundoff_def)
  also have "\<dots> = 1024" by (simp add: unit_roundoff_def)
  finally show ?thesis .
qed

lemma score_in_window:
  assumes "unix_range t" and "unix_range x" and "x \<le> t" and "t - time_Minute + 3000 \<le> x"
  shows "threshold t < score_of x"
proof -
  have "\<bar>score_of x - of_int (nanos x)\<bar> \<le> 1024" "\<bar>threshold t - of_int (nanos t - time_Minute)\<bar> \<le> 1024"
    unfolding score_of_def threshold_def using unix_rangeD [OF assms(1)] unix_rangeD [OF assms(2)] by (intro float_of_int_near; simp)+
  moreover have "(of_int (nanos t - time_Minute) :: rat) + 3000 \<le> of_int (nanos x)"
  proof -
    have "nanos t - time_Minute + 3000 \<le> nanos x" using assms(4) by (simp add: nanos_def)
    then have "(of_int (nanos t - time_Minute + 3000) :: rat) \<le> of_int (nanos x)" by (simp only: of_int_le_iff)
    then show ?thesis by simp
  qed
  ultimately show ?thesis by linarith
qed

text \<open>Names of members with different counters differ.\<close>

lemma itoa_no_colon: "0 \<le> n \<Longrightarrow> CHR '':'' \<notin> set (itoa n)"
  using digits_round_trip [of n] by (auto simp: itoa_def list_all_iff is_digit_def)

lemma colon_split: "CHR '':'' \<notin> set a \<Longrightarrow> CHR '':'' \<notin> set a' \<Longrightarrow> a @ CHR '':'' # b = a' @ CHR '':'' # b' \<Longrightarrow> a = a' \<and> b = b'"
proof (induction a arbitrary: a')
  case Nil
  then show ?case by (cases a') auto
next
  case (Cons c a)
  then show ?case by (cases a') auto
qed

lemma itoa_inj:
  assumes "0 \<le> m" and "0 \<le> n" and "itoa m = itoa n"
  shows "m = n"
proof -
  have "digits m = digits n" using assms by (simp add: itoa_def del: digits.simps)
  then show ?thesis using digits_round_trip [OF assms(1)] digits_round_trip [OF assms(2)] by metis
qed

definition request_member :: "gotime \<Rightarrow> int \<Rightarrow> string" where
  "request_member t u = member_name t u @ '':'' @ itoa 1"

lemma request_member_inj:
  assumes "unix_range t" and "unix_range t'" and "0 \<le> u" and "0 \<le> u'" and "request_member t u = request_member t' u'"
  shows "u = u'"
proof -
  have n: "0 \<le> time_UnixNano t" "0 \<le> time_UnixNano t'"
    using assms(1,2) unix_rangeD by (simp_all add: UnixNano_range)
  have "itoa (time_UnixNano t) @ CHR '':'' # (itoa u @ '':'' @ itoa 1) = itoa (time_UnixNano t') @ CHR '':'' # (itoa u' @ '':'' @ itoa 1)"
    using assms(5) by (simp add: request_member_def member_name_def)
  from colon_split [OF itoa_no_colon [OF n(1)] itoa_no_colon [OF n(2)] this]
  show ?thesis using itoa_inj [OF assms(3,4)] by simp
qed

text \<open>What one check does to the view of the server.\<close>

lemma check_view:
  assumes laws: "zset_laws R A" and rpm: "0 < rpm" and now: "unix_range now"
    and run: "RedisLimiter_CheckRPM R now (NewRedisLimiter keyID rpm tpm) r = ((allowed, limit, remaining, resetAt), r')"
  defines "k \<equiv> limit_key (NewRedisLimiter keyID rpm tpm) ''rpm''"
  defines "kept \<equiv> filter (\<lambda>(m, s). \<not> s \<le> threshold now) (rv_sets (A r) k)"
  shows "allowed \<longleftrightarrow> int (length kept) + 1 \<le> rpm"
    and "rv_sets (A r') k = (if allowed then gm_set (request_member now (rv_counters (A r) (k @ '':seq'') + 1)) (score_of now) kept else kept)"
    and "rv_ends (A r') k = Some (rv_clock (A r) + 120 * time_Second)"
    and "rv_counters (A r') (k @ '':seq'') = rv_counters (A r) (k @ '':seq'') + 1"
proof -
  let ?rl = "NewRedisLimiter keyID rpm tpm"
  let ?u = "rv_counters (A r) (k @ '':seq'') + 1"
  define r1 where "r1 = snd (rz_Incr R (k @ '':seq'') r)"
  have incr: "rz_Incr R (k @ '':seq'') r = (Some ?u, r1)"
    and v1: "A r1 = (A r)\<lparr>rv_counters := (rv_counters (A r))(k @ '':seq'' := ?u)\<rparr>"
    using laws unfolding zset_laws_def r1_def by blast+
  let ?script = "window_script R k (threshold now) (member_name now ?u) (score_of now) rpm 1"
  have eval: "rz_Eval R ?script r1 = (Some (fst (?script r1)), snd (?script r1))" using laws unfolding zset_laws_def by blast
  define r2 where "r2 = rz_ZRemRangeByScore R k (threshold now) r1"
  have v2: "A r2 = (A r1)\<lparr>rv_sets := (rv_sets (A r1))(k := kept)\<rparr>"
    using laws v1 unfolding zset_laws_def r2_def kept_def by simp
  have card: "rz_ZCard R k r2 = int (length kept)" using laws v2 unfolding zset_laws_def by simp
  define r3 where "r3 = rz_ZAdd R k (score_of now) (request_member now ?u) r2"
  have v3: "A r3 = (A r2)\<lparr>rv_sets := (rv_sets (A r2))(k := gm_set (request_member now ?u) (score_of now) kept)\<rparr>"
    using laws v2 unfolding zset_laws_def r3_def by simp
  have expire: "A (rz_Expire R k n q) = (A q)\<lparr>rv_ends := (rv_ends (A q))(k := Some (rv_clock (A q) + n * time_Second))\<rparr>" for n q
    using laws unfolding zset_laws_def by blast
  have script: "?script r1 = (if int (length kept) + 1 \<le> rpm then ((1, rpm, rpm - int (length kept) - 1), rz_Expire R k 120 r3)
      else ((0, rpm, rpm - int (length kept)), rz_Expire R k 120 r2))"
    by (simp add: window_script_def Let_def r2_def [symmetric] card r3_def request_member_def)
  have "RedisLimiter_CheckRPM R now ?rl r =
      ((fst (fst (?script r1)) = 1, fst (snd (fst (?script r1))),
        (if snd (snd (fst (?script r1))) < 0 then 0 else snd (snd (fst (?script r1)))), time_Add now time_Minute), snd (?script r1))"
    using rpm now incr eval
    by (simp add: RedisLimiter_CheckRPM_def checkCount_def Let_def k_def [symmetric] window_start_range UnixNano_range score_of_def [symmetric] split_beta)
      (simp add: NewRedisLimiter_def split_beta)
  with run have res: "allowed = (fst (fst (?script r1)) = 1)" "r' = snd (?script r1)" by simp_all
  show allowed: "allowed \<longleftrightarrow> int (length kept) + 1 \<le> rpm" using res(1) by (simp add: script)
  show "rv_sets (A r') k = (if allowed then gm_set (request_member now ?u) (score_of now) kept else kept)"
    "rv_ends (A r') k = Some (rv_clock (A r) + 120 * time_Second)" "rv_counters (A r') (k @ '':seq'') = ?u"
    unfolding allowed res(2) script by (simp_all add: expire v3 v2 v1)
qed

text \<open>The members of a set carry numbers up to the counter.\<close>

definition numbered :: "int \<Rightarrow> (string, f64) gomap \<Rightarrow> bool" where
  "numbered c zs \<longleftrightarrow> (\<forall>m \<in> gm_keys zs. \<exists>n u. unix_range n \<and> 0 \<le> u \<and> u \<le> c \<and> m = request_member n u)"

lemma numbered_Nil [simp]: "numbered c []"
  by (simp add: numbered_def)

lemma numbered_filter: "numbered c zs \<Longrightarrow> numbered c (filter p zs)"
  by (force simp: numbered_def)

lemma numbered_fresh: "numbered c zs \<Longrightarrow> 0 \<le> c \<Longrightarrow> unix_range now \<Longrightarrow> request_member now (c + 1) \<notin> gm_keys zs"
  unfolding numbered_def using request_member_inj [of now _ "c + 1"] by fastforce

lemma numbered_add:
  assumes "numbered c zs" and "0 \<le> c" and "unix_range now"
  shows "numbered (c + 1) zs" and "numbered (c + 1) (zs @ [(request_member now (c + 1), x)])"
proof -
  show zs: "numbered (c + 1) zs"
    unfolding numbered_def
  proof
    fix m
    assume "m \<in> gm_keys zs"
    then obtain n u where "unix_range n" "0 \<le> u" "u \<le> c" "m = request_member n u" using assms(1) unfolding numbered_def by blast
    then show "\<exists>n u. unix_range n \<and> 0 \<le> u \<and> u \<le> c + 1 \<and> m = request_member n u" by (intro exI [of _ n] exI [of _ u]) simp
  qed
  have "\<exists>n u. unix_range n \<and> 0 \<le> u \<and> u \<le> c + 1 \<and> request_member now (c + 1) = request_member n u"
    using assms(2,3) by (intro exI [of _ now] exI [of _ "c + 1"]) simp
  then show "numbered (c + 1) (zs @ [(request_member now (c + 1), x)])" using zs unfolding numbered_def by simp
qed

lemma gm_set_fresh: "k \<notin> gm_keys m \<Longrightarrow> gm_set k v m = m @ [(k, v)]"
  unfolding gm_set_def by (induction m) auto

definition holds_admitted :: "string \<Rightarrow> int \<Rightarrow> gotime list \<Rightarrow> gotime \<Rightarrow> redis_view \<Rightarrow> bool" where
  "holds_admitted k rpm admitted t v \<longleftrightarrow>
     gm_ok (rv_sets v k) \<and> int (length (rv_sets v k)) \<le> rpm \<and> 0 \<le> rv_counters v (k @ '':seq'') \<and>
     numbered (rv_counters v (k @ '':seq'')) (rv_sets v k) \<and>
     filter_mset (\<lambda>s. threshold t < s) (image_mset score_of (mset admitted)) \<subseteq># mset (map snd (rv_sets v k)) \<and>
     mset (map snd (rv_sets v k)) \<subseteq># image_mset score_of (mset admitted) \<and>
     (\<forall>x \<in> set admitted. x \<le> t \<and> unix_range x) \<and> (\<forall>d. rv_ends v k = Some d \<longrightarrow> t + 90 * time_Second \<le> d)"

lemma kept_mset: "mset (map snd (filter (\<lambda>(m, s). \<not> s \<le> x) zs)) = filter_mset (\<lambda>s. x < s) (mset (map snd (zs :: (string, f64) gomap)))"
  by (induction zs) auto

text \<open>After time has passed the set still holds what lies in the window of the next check.\<close>

lemma passes_holds:
  assumes inv: "holds_admitted k rpm admitted t v" and p: "passes k v v'" and now: "t \<le> now" and clock: "\<bar>rv_clock v' - now\<bar> \<le> 30 * time_Second"
  shows "filter_mset (\<lambda>s. threshold now < s) (image_mset score_of (mset admitted)) \<subseteq># mset (map snd (filter (\<lambda>(m, s). \<not> s \<le> threshold now) (rv_sets v' k)))"
    and "gm_ok (rv_sets v' k)" and "int (length (rv_sets v' k)) \<le> rpm"
    and "numbered (rv_counters v' (k @ '':seq'')) (rv_sets v' k)"
    and "mset (map snd (filter (\<lambda>(m, s). \<not> s \<le> threshold now) (rv_sets v' k))) \<subseteq># image_mset score_of (mset admitted)"
proof -
  let ?a = "image_mset score_of (mset admitted)"
  have ctr: "rv_counters v' (k @ '':seq'') = rv_counters v (k @ '':seq'')" using p by (simp add: passes_def)
  have len: "0 \<le> rpm" using inv by (simp add: holds_admitted_def)
  consider (kept) "rv_sets v' k = rv_sets v k" | (ended) d where "rv_sets v' k = []" "rv_ends v k = Some d" "d \<le> rv_clock v'"
    using p unfolding passes_def by blast
  then show "filter_mset (\<lambda>s. threshold now < s) ?a \<subseteq># mset (map snd (filter (\<lambda>(m, s). \<not> s \<le> threshold now) (rv_sets v' k)))"
  proof cases
    case kept
    have "filter_mset (\<lambda>s. threshold now < s) ?a = filter_mset (\<lambda>s. threshold now < s) (filter_mset (\<lambda>s. threshold t < s) ?a)"
      using threshold_mono [OF now] by (simp add: filter_filter_mset) (metis (no_types, lifting) filter_mset_cong le_less_trans)
    also have "\<dots> \<subseteq># filter_mset (\<lambda>s. threshold now < s) (mset (map snd (rv_sets v k)))"
      using inv by (intro multiset_filter_mono) (simp add: holds_admitted_def)
    finally show ?thesis unfolding kept_mset kept .
  next
    case (ended d)
    have "t + 90 * time_Second \<le> d" using inv ended(2) by (simp add: holds_admitted_def)
    then have "t + 60 * time_Second \<le> now" using ended(3) clock by (simp add: time_Second_def nanos_per_second_def)
    then have "score_of x \<le> threshold now" if "x \<in> set admitted" for x
      using inv that by (intro score_below_threshold) (auto simp: holds_admitted_def time_Minute_def)
    then have none: "filter_mset (\<lambda>s. threshold now < s) ?a = {#}" by (auto simp: not_less)
    show ?thesis unfolding none by simp
  qed
  show "gm_ok (rv_sets v' k)" "int (length (rv_sets v' k)) \<le> rpm"
    "numbered (rv_counters v' (k @ '':seq'')) (rv_sets v' k)"
    using inv p len ctr unfolding passes_def holds_admitted_def by auto
  have "mset (map snd (rv_sets v' k)) \<subseteq># ?a" using inv p unfolding passes_def holds_admitted_def by auto
  then show "mset (map snd (filter (\<lambda>(m, s). \<not> s \<le> threshold now) (rv_sets v' k))) \<subseteq># ?a"
    unfolding kept_mset using multiset_filter_subset subset_mset.order_trans by blast
qed

lemma limiter_run_holds:
  fixes R :: "'r redis_zset" and A :: "'r \<Rightarrow> redis_view" and keyID :: string and rpm tpm :: int
  assumes laws: "zset_laws R A" and rpm: "0 < rpm"
  defines "rl \<equiv> NewRedisLimiter keyID rpm tpm"
  defines "k \<equiv> limit_key rl ''rpm''"
  assumes empty: "rv_sets (A r0) k = []" "rv_ends (A r0) k = None" "0 \<le> rv_counters (A r0) (k @ '':seq'')"
  shows "limiter_run R A rl r0 admitted t r \<Longrightarrow> unix_range t \<and> holds_admitted k rpm admitted t (A r)"
proof (induction rule: limiter_run.induct)
  case (start t)
  then show ?case using empty rpm by (simp add: holds_admitted_def)
next
  case (check admitted t r now r' allowed limit remaining resetAt r'')
  let ?kept = "filter (\<lambda>(m, s). \<not> s \<le> threshold now) (rv_sets (A r') k)"
  let ?u = "rv_counters (A r') (k @ '':seq'') + 1"
  have inv: "holds_admitted k rpm admitted t (A r)" using check.IH by simp
  note after = passes_holds [OF inv check.hyps(5) [folded k_def] check.hyps(2,4)]
  note view = check_view [OF laws rpm check.hyps(3) check.hyps(6) [unfolded rl_def], folded rl_def, folded k_def]
  have ctr: "0 \<le> rv_counters (A r') (k @ '':seq'')" using inv check.hyps(5) by (simp add: holds_admitted_def passes_def k_def)
  have ok: "gm_ok ?kept" using after(2) by (simp add: gm_ok_def distinct_map_filter)
  have short: "int (length ?kept) \<le> rpm" using after(3) length_filter_le [of "\<lambda>(m, s). \<not> s \<le> threshold now" "rv_sets (A r') k"] by linarith
  have names: "numbered (rv_counters (A r') (k @ '':seq'')) ?kept" using after(4) by (rule numbered_filter)
  have fresh: "request_member now ?u \<notin> gm_keys ?kept" by (rule numbered_fresh [OF names ctr check.hyps(3)])
  have added: "gm_set (request_member now ?u) (score_of now) ?kept = ?kept @ [(request_member now ?u, score_of now)]"
    using fresh by (rule gm_set_fresh)
  have old: "x \<le> now \<and> unix_range x" if "x \<in> set admitted" for x
    using that inv check.hyps(2) by (auto simp: holds_admitted_def)
  have life: "t' + 90 * time_Second \<le> d" if "rv_ends (A r'') k = Some d" "t' = now" for t' d
    using that view(3) check.hyps(4) by (auto simp: time_Second_def nanos_per_second_def)
  show ?case
  proof (cases allowed)
    case True
    have sets: "rv_sets (A r'') k = ?kept @ [(request_member now ?u, score_of now)]" using view(2) added True by simp
    have "int (length ?kept) + 1 \<le> rpm" using view(1) True by simp
    moreover have "gm_ok (?kept @ [(request_member now ?u, score_of now)])" using ok fresh by (simp add: gm_ok_def)
    moreover have "filter_mset (\<lambda>s. threshold now < s) (image_mset score_of (mset (now # admitted)))
        \<subseteq># mset (map snd (?kept @ [(request_member now ?u, score_of now)]))"
      using after(1) by (auto simp: subset_mset.add_increasing2 intro: subset_mset.order_trans)
    moreover have "mset (map snd (?kept @ [(request_member now ?u, score_of now)])) \<subseteq># image_mset score_of (mset (now # admitted))"
      using after(5) by simp
    ultimately show ?thesis
      unfolding holds_admitted_def sets view(4) using True old check.hyps(3) ctr life numbered_add(2) [OF names ctr check.hyps(3)] by auto
  next
    case False
    have sets: "rv_sets (A r'') k = ?kept" using view(2) False by simp
    show ?thesis
      unfolding holds_admitted_def sets view(4) using False old check.hyps(3) ctr life ok short after(1,5) numbered_add(1) [OF names ctr check.hyps(3)] by auto
  qed
qed

section \<open>The window\<close>

lemma length_filter_mono: "(\<And>x. x \<in> set xs \<Longrightarrow> P x \<Longrightarrow> Q x) \<Longrightarrow> length (filter P xs) \<le> length (filter Q xs)"
  by (induction xs) auto

lemma counted_in_window:
  assumes "holds_admitted k rpm admitted t v" and "unix_range t"
  shows "int (length (filter (\<lambda>x. t - time_Minute + 3000 \<le> x) admitted)) \<le> rpm"
proof -
  have "length (filter (\<lambda>x. t - time_Minute + 3000 \<le> x) admitted) \<le> length (filter (\<lambda>x. threshold t < score_of x) admitted)"
  proof (rule length_filter_mono)
    fix x
    assume "x \<in> set admitted" "t - time_Minute + 3000 \<le> x"
    then show "threshold t < score_of x" using score_in_window [OF assms(2)] assms(1) by (simp add: holds_admitted_def)
  qed
  also have "\<dots> = size (filter_mset (\<lambda>s. threshold t < s) (image_mset score_of (mset admitted)))"
    unfolding filter_mset_image_mset size_image_mset by (metis (no_types, lifting) mset_filter size_mset)
  also have "\<dots> \<le> size (mset (map snd (rv_sets v k)))" using assms(1) by (intro size_mset_mono) (simp add: holds_admitted_def)
  finally show ?thesis using assms(1) by (simp add: holds_admitted_def)
qed

text \<open>
  The two halves of the guarantee. With a healthy Redis, clocks that do not go back and a server clock within half a minute of the gateways', the limiter admits at most the
  limit in every window of a minute less three microseconds, however many gateways share the key; and it rejects a request only when that many requests
  were admitted whose times lie in the minute before it.
\<close>

lemma redis_window:
  assumes "zset_laws R A" and "0 < rpm"
    and "limiter_run R A (NewRedisLimiter keyID rpm tpm) r0 admitted t r"
    and "rv_sets (A r0) (limit_key (NewRedisLimiter keyID rpm tpm) ''rpm'') = []"
    and "rv_ends (A r0) (limit_key (NewRedisLimiter keyID rpm tpm) ''rpm'') = None"
    and "0 \<le> rv_counters (A r0) (limit_key (NewRedisLimiter keyID rpm tpm) ''rpm'' @ '':seq'')"
  shows "int (length (filter (\<lambda>x. t - time_Minute + 3000 \<le> x) admitted)) \<le> rpm"
    and "\<lbrakk>t \<le> now; unix_range now; \<bar>rv_clock (A r') - now\<bar> \<le> 30 * time_Second; passes (limit_key (NewRedisLimiter keyID rpm tpm) ''rpm'') (A r) (A r');
          RedisLimiter_CheckRPM R now (NewRedisLimiter keyID rpm tpm) r' = ((False, limit, remaining, resetAt), r'')\<rbrakk> \<Longrightarrow>
         rpm \<le> int (length (filter (\<lambda>x. now - time_Minute \<le> x) admitted))"
proof -
  let ?k = "limit_key (NewRedisLimiter keyID rpm tpm) ''rpm''"
  have inv: "unix_range t" "holds_admitted ?k rpm admitted t (A r)"
    using limiter_run_holds [OF assms(1,2,4-6,3)] by simp_all
  show "int (length (filter (\<lambda>x. t - time_Minute + 3000 \<le> x) admitted)) \<le> rpm" by (rule counted_in_window [OF inv(2,1)])
  assume now: "t \<le> now" "unix_range now" and clock: "\<bar>rv_clock (A r') - now\<bar> \<le> 30 * time_Second" and p: "passes ?k (A r) (A r')"
    and rejected: "RedisLimiter_CheckRPM R now (NewRedisLimiter keyID rpm tpm) r' = ((False, limit, remaining, resetAt), r'')"
  let ?kept = "filter (\<lambda>(m, s). \<not> s \<le> threshold now) (rv_sets (A r') ?k)"
  note after = passes_holds [OF inv(2) p now(1) clock]
  have "rpm \<le> int (length ?kept)" using check_view(1) [OF assms(1,2) now(2) rejected] by simp
  also have "length ?kept = size (filter_mset (\<lambda>s. threshold now < s) (mset (map snd ?kept)))"
  proof -
    have "mset (map snd ?kept) = filter_mset (\<lambda>s. threshold now < s) (mset (map snd ?kept))"
      unfolding kept_mset by (simp only: filter_filter_mset conj_absorb)
    then show ?thesis by (metis length_map size_mset)
  qed
  also have "\<dots> \<le> size (filter_mset (\<lambda>s. threshold now < s) (image_mset score_of (mset admitted)))"
    using after(5) by (intro size_mset_mono multiset_filter_mono)
  also have "\<dots> = length (filter (\<lambda>x. threshold now < score_of x) admitted)"
    unfolding filter_mset_image_mset size_image_mset by (metis (no_types, lifting) mset_filter size_mset)
  also have "\<dots> \<le> length (filter (\<lambda>x. now - time_Minute \<le> x) admitted)"
  proof (rule length_filter_mono)
    fix x
    assume "threshold now < score_of x"
    then show "now - time_Minute \<le> x" using score_below_threshold [of x now] by fastforce
  qed
  finally show "rpm \<le> int (length (filter (\<lambda>x. now - time_Minute \<le> x) admitted))" by simp
qed


text \<open>An error of Redis, of the counter or of the script, admits the request whatever was admitted before.\<close>

theorem redis_error_admits:
  assumes "fst (rz_Incr R (limit_key rl ''rpm'' @ '':seq'') r) = None \<or> (\<forall>f r. fst (rz_Eval R f r) = None)"
  shows "fst (fst (RedisLimiter_CheckRPM R now rl r))"
  using assms by (auto simp: RedisLimiter_CheckRPM_def checkCount_def Let_def split: prod.splits option.splits) (metis fst_conv option.distinct(1))

section \<open>A run\<close>

definition example_redis :: "redis_view redis_zset" where
  "example_redis =
     \<lparr>rz_Incr = \<lambda>k v. (Some (rv_counters v k + 1), v\<lparr>rv_counters := (rv_counters v)(k := rv_counters v k + 1)\<rparr>),
      rz_Eval = \<lambda>f v. (Some (fst (f v)), snd (f v)),
      rz_ZRemRangeByScore = \<lambda>k x v. v\<lparr>rv_sets := (rv_sets v)(k := filter (\<lambda>(m, s). \<not> s \<le> x) (rv_sets v k))\<rparr>,
      rz_ZCard = \<lambda>k v. int (length (rv_sets v k)),
      rz_ZAdd = \<lambda>k s m v. v\<lparr>rv_sets := (rv_sets v)(k := gm_set m s (rv_sets v k))\<rparr>,
      rz_Expire = \<lambda>k n v. v\<lparr>rv_ends := (rv_ends v)(k := Some (rv_clock v + n * time_Second))\<rparr>\<rparr>"

definition example_start :: "gotime \<Rightarrow> redis_view" where
  "example_start t = \<lparr>rv_sets = \<lambda>_. [], rv_ends = \<lambda>_. None, rv_counters = \<lambda>_. 0, rv_clock = t\<rparr>"

lemma example_redis_laws: "zset_laws example_redis (\<lambda>v. v)"
  by (simp add: zset_laws_def example_redis_def)


end
