(* ===== verification/Admin_Reports.thy ===== *)
theory Admin_Reports
  imports Admin Metrics Mcp_Manager Replay
begin

text \<open>
  What the admin API reports: the usage rows, their summary and the spending per key (\<^verbatim>\<open>internal/admin/usage.go\<close>), the audit trail
  (\<^verbatim>\<open>audit.go\<close>), the catalog, the test and the statistics of the guardrails (\<^verbatim>\<open>guardrails.go\<close>), the tools and servers of the MCP manager
  (\<^verbatim>\<open>tools.go\<close>, \<^verbatim>\<open>mcp_servers.go\<close>, \<^verbatim>\<open>mcp_tools.go\<close>), the costs and the replays (\<^verbatim>\<open>routing_costs.go\<close>, \<^verbatim>\<open>replay.go\<close>), and the wiring of these routes
  in \<^verbatim>\<open>internal/server/server.go\<close>. A report reads the tables of the database; the environment of a report says which of its queries are
  answered, what happens to each row while it is read, and how the database and the time package treat times. Rows with equal times
  keep the order of the table.

  The lemmas show that the pages of the usage report partition the matching rows, that the test of a guardrail runs the stage the pipeline
  would run, that a key the budget check rejects is reported as critical, and what the reports get wrong.
\<close>

section \<open>Queries\<close>

datatype row_event = RowRead | RowLost | ScanFails

record report_env =
  rv_db :: bool
  rv_up :: "nat \<Rightarrow> bool"
  rv_row :: "nat \<Rightarrow> row_event"
  rv_parse :: "string \<Rightarrow> gotime option"
  rv_format :: "gotime \<Rightarrow> string"
  rv_trunc :: "string \<Rightarrow> gotime \<Rightarrow> gotime"
  rv_now :: gotime
  rv_collate :: "string \<Rightarrow> string \<Rightarrow> bool"

record report_tables =
  rt_usage :: "(int \<times> usage_row) list"
  rt_audit :: "(int \<times> Event) list"

text \<open>The loop over \<^verbatim>\<open>rows.Next\<close>. It ends without an error when the connection is lost, since \<^verbatim>\<open>rows.Err\<close> is not asked.\<close>

fun scan_rows :: "(nat \<Rightarrow> row_event) \<Rightarrow> nat \<Rightarrow> 'a list \<Rightarrow> 'a list option" where
  "scan_rows ev i [] = Some []"
| "scan_rows ev i (x # xs) =
     (case ev i of
        RowLost \<Rightarrow> Some []
      | ScanFails \<Rightarrow> None
      | RowRead \<Rightarrow> map_option (Cons x) (scan_rows ev (Suc i) xs))"

text \<open>\<^verbatim>\<open>ORDER BY\<close>.\<close>

fun insert_by :: "('a \<Rightarrow> 'a \<Rightarrow> bool) \<Rightarrow> 'a \<Rightarrow> 'a list \<Rightarrow> 'a list" where
  "insert_by le x [] = [x]"
| "insert_by le x (y # ys) = (if le x y then x # y # ys else y # insert_by le x ys)"

definition order_by :: "('a \<Rightarrow> 'a \<Rightarrow> bool) \<Rightarrow> 'a list \<Rightarrow> 'a list" where
  "order_by le xs = foldr (insert_by le) xs []"

definition time_clause :: "report_env \<Rightarrow> string \<Rightarrow> (gotime \<Rightarrow> 'a \<Rightarrow> bool) \<Rightarrow> ('a \<Rightarrow> bool) list" where
  "time_clause rv s clause = (if s = '''' then [] else case rv_parse rv s of None \<Rightarrow> [] | Some t \<Rightarrow> [clause t])"

definition text_clause :: "string \<Rightarrow> (string \<Rightarrow> 'a \<Rightarrow> bool) \<Rightarrow> ('a \<Rightarrow> bool) list" where
  "text_clause s clause = (if s = '''' then [] else [clause s])"

definition where_all :: "('a \<Rightarrow> bool) list \<Rightarrow> 'a list \<Rightarrow> 'a list" where
  "where_all clauses rows = filter (\<lambda>x. list_all (\<lambda>c. c x) clauses) rows"

section \<open>Answers\<close>

record usageRow =
  ul_ID :: int
  ul_RequestID :: string
  ul_ProjectID :: "string option"
  ul_VirtualKeyID :: "string option"
  ul_Model :: string
  ul_Provider :: string
  ul_ProviderModel :: string
  ul_PromptTokens :: int
  ul_CompletionTokens :: int
  ul_TotalTokens :: int
  ul_CostUSD :: f64
  ul_CacheHit :: bool
  ul_Stream :: bool
  ul_Attempts :: int
  ul_DurationMS :: int
  ul_Error :: string
  ul_CreatedAt :: string

record summaryRow =
  sm_Period :: string
  sm_Model :: string
  sm_Provider :: string
  sm_RequestCount :: int
  sm_PromptTokens :: int
  sm_CompletionTokens :: int
  sm_TotalTokens :: int
  sm_CostUSD :: f64

record keySpend =
  kd_KeyID :: string
  kd_KeyName :: string
  kd_KeyPrefix :: string
  kd_SpendUSD :: f64
  kd_BudgetLimitUSD :: f64
  kd_BudgetPeriod :: string
  kd_UtilizationPct :: f64
  kd_Status :: string

record AuditRow =
  ar_ID :: int
  ar_Timestamp :: string
  ar_EventType :: string
  ar_Actor :: string
  ar_Action :: string
  ar_Resource :: string
  ar_Outcome :: string
  ar_RequestID :: string
  ar_Metadata :: "(string, json) gomap"

record catalogConfigField =
  cg_Name :: string
  cg_Type :: string
  cg_Description :: string
  cg_Default :: string

record catalogEntry =
  ct_Type :: string
  ct_Name :: string
  ct_Description :: string
  ct_ConfigFields :: "catalogConfigField list"
  ct_ExampleConfig :: "(string, json) gomap"
  ct_Testable :: bool

record ToolDetail =
  tx_Name :: string
  tx_Description :: string
  tx_InputSchema :: "(string \<times> json) list option"

record ToolServerInfo =
  ts_Name :: string
  ts_Status :: string
  ts_ToolCount :: nat
  ts_Tools :: "ToolDetail list"

record MCPServerEntry =
  me_Name :: string
  me_Status :: string
  me_Tools :: nat
  me_ToolList :: "string list"
  me_LastError :: string

record RoutingCostsResponse =
  rr_Models :: "CostEntry list"
  rr_Strategy :: string
  rr_Weights :: CostWeights

datatype report_body =
    AdminBody admin_body
  | EmptyReport
  | UsageBody int "usageRow list"
  | SummaryBody "summaryRow list"
  | SpendBody string "keySpend list" f64 f64
  | AuditBody "AuditRow list"
  | CatalogBody "catalogEntry list"
  | StatsBody GuardrailStatsSnapshot
  | TestBody string string string string
  | ToolsBody "(ToolDetail \<times> string) list" "ToolServerInfo list"
  | ServersBody "MCPServerEntry list" nat nat
  | McpToolsBody "(string \<times> string \<times> (string, json) gomap) list"
  | CostsBody RoutingCostsResponse
  | ReplayBody ReplaySummary

type_synonym report_reply = "int \<times> report_body"

definition report_error :: "admin_request \<Rightarrow> int \<Rightarrow> string \<Rightarrow> string \<Rightarrow> report_reply" where
  "report_error r status typ message = apsnd AdminBody (writeAdminError r status typ message)"

text \<open>A report behind a role check; it reads the state and changes only what the role check records.\<close>

definition report_guard ::
  "Admin_Handler \<Rightarrow> admin_env \<Rightarrow> admin_request \<Rightarrow> string \<Rightarrow> (admin_state \<Rightarrow> report_reply option) \<Rightarrow> admin_state
   \<Rightarrow> (report_reply \<times> admin_state) option" where
  "report_guard h env r action k s =
     (case requireRole h env r action s of
        None \<Rightarrow> None
      | Some (Inl reply, s') \<Rightarrow> Some (apsnd AdminBody reply, s')
      | Some (Inr actor, s') \<Rightarrow> map_option (\<lambda>reply. (reply, s')) (k s'))"

section \<open>Usage\<close>

definition usage_clauses :: "report_env \<Rightarrow> admin_request \<Rightarrow> (int \<times> usage_row \<Rightarrow> bool) list" where
  "usage_clauses rv r =
     text_clause (rq_query r ''project_id'') (\<lambda>v x. ur_project (snd x) = Some v)
     @ text_clause (rq_query r ''key_id'') (\<lambda>v x. ur_key (snd x) = Some v)
     @ text_clause (rq_query r ''model'') (\<lambda>v x. ue_Model (ur_entry (snd x)) = v)
     @ time_clause rv (rq_query r ''from'') (\<lambda>t x. t \<le> ur_created (snd x))
     @ time_clause rv (rq_query r ''to'') (\<lambda>t x. ur_created (snd x) \<le> t)"

definition usage_line :: "report_env \<Rightarrow> int \<times> usage_row \<Rightarrow> usageRow" where
  "usage_line rv = (\<lambda>(i, u). let e = ur_entry u in
     \<lparr>ul_ID = i, ul_RequestID = ue_RequestID e, ul_ProjectID = ur_project u, ul_VirtualKeyID = ur_key u, ul_Model = ue_Model e,
      ul_Provider = ue_Provider e, ul_ProviderModel = ue_ProviderModel e, ul_PromptTokens = ue_PromptTokens e,
      ul_CompletionTokens = ue_CompletionTokens e, ul_TotalTokens = ue_TotalTokens e, ul_CostUSD = float64 (ur_cost u),
      ul_CacheHit = ue_CacheHit e, ul_Stream = ue_Stream e, ul_Attempts = ue_Attempts e, ul_DurationMS = ue_DurationMS e,
      ul_Error = ue_Error e, ul_CreatedAt = rv_format rv (ur_created u)\<rparr>)"

definition newest_usage :: "(int \<times> usage_row) list \<Rightarrow> (int \<times> usage_row) list" where
  "newest_usage = order_by (\<lambda>a b. ur_created (snd b) \<le> ur_created (snd a))"

definition usage_report :: "report_env \<Rightarrow> report_tables \<Rightarrow> admin_request \<Rightarrow> report_reply" where
  "usage_report rv t r =
     (if \<not> rv_db rv then (200, EmptyReport)
      else let limit = page_param r ''limit'' (\<lambda>l. 0 < l \<and> l \<le> 1000) 100;
               offset = page_param r ''offset'' (\<lambda>o'. 0 \<le> o') 0;
               matching = where_all (usage_clauses rv r) (rt_usage t);
               totalCount = (if rv_up rv 0 then int (length matching) else 0)
           in if \<not> rv_up rv 1 then report_error r 500 ''internal_error'' ''failed to query usage''
              else case scan_rows (rv_row rv) 0 (take (nat limit) (drop (nat offset) (newest_usage matching))) of
                     None \<Rightarrow> report_error r 500 ''internal_error'' ''failed to scan usage''
                   | Some rows \<Rightarrow> (200, UsageBody totalCount (map (usage_line rv) rows)))"

definition usage ::
  "report_env \<Rightarrow> report_tables \<Rightarrow> Admin_Handler \<Rightarrow> admin_env \<Rightarrow> admin_request \<Rightarrow> admin_state \<Rightarrow> (report_reply \<times> admin_state) option" where
  "usage rv t h env r = report_guard h env r ''usage:read'' (\<lambda>s. Some (usage_report rv t r))"

text \<open>\<^verbatim>\<open>GROUP BY 1, 2, 3\<close>, ordered by the period and the model.\<close>

definition group_key :: "report_env \<Rightarrow> string \<Rightarrow> usage_row \<Rightarrow> gotime \<times> string \<times> string" where
  "group_key rv trunc u = (rv_trunc rv trunc (ur_created u), ue_Model (ur_entry u), ue_Provider (ur_entry u))"

definition summary_line :: "report_env \<Rightarrow> string \<Rightarrow> usage_row list \<Rightarrow> gotime \<times> string \<times> string \<Rightarrow> summaryRow" where
  "summary_line rv trunc rows k =
     (let us = filter (\<lambda>u. group_key rv trunc u = k) rows; sum_of = (\<lambda>f. sum_list (map (\<lambda>u. f (ur_entry u)) us))
      in \<lparr>sm_Period = rv_format rv (fst k), sm_Model = fst (snd k), sm_Provider = snd (snd k), sm_RequestCount = int (length us),
          sm_PromptTokens = sum_of ue_PromptTokens, sm_CompletionTokens = sum_of ue_CompletionTokens,
          sm_TotalTokens = sum_of ue_TotalTokens, sm_CostUSD = float64 (sum_list (map ur_cost us))\<rparr>)"

definition summary_before :: "report_env \<Rightarrow> gotime \<times> string \<times> string \<Rightarrow> gotime \<times> string \<times> string \<Rightarrow> bool" where
  "summary_before rv a b \<longleftrightarrow> fst b < fst a \<or> fst a = fst b \<and> rv_collate rv (fst (snd a)) (fst (snd b))"

definition summary_trunc :: "admin_request \<Rightarrow> string" where
  "summary_trunc r = (if rq_query r ''period'' = ''monthly'' then ''month'' else ''day'')"

definition summary_report :: "report_env \<Rightarrow> report_tables \<Rightarrow> admin_request \<Rightarrow> report_reply" where
  "summary_report rv t r =
     (if \<not> rv_db rv then (200, EmptyReport)
      else let trunc = summary_trunc r;
               rows = map snd (where_all (text_clause (rq_query r ''project_id'') (\<lambda>v x. ur_project (snd x) = Some v)) (rt_usage t));
               groups = take 1000 (order_by (summary_before rv) (remdups (map (group_key rv trunc) rows)))
           in if \<not> rv_up rv 0 then report_error r 500 ''internal_error'' ''failed to query usage summary''
              else case scan_rows (rv_row rv) 0 groups of
                     None \<Rightarrow> report_error r 500 ''internal_error'' ''failed to scan summary''
                   | Some ks \<Rightarrow> (200, SummaryBody (map (summary_line rv trunc rows) ks)))"

definition usageSummary ::
  "report_env \<Rightarrow> report_tables \<Rightarrow> Admin_Handler \<Rightarrow> admin_env \<Rightarrow> admin_request \<Rightarrow> admin_state \<Rightarrow> (report_reply \<times> admin_state) option" where
  "usageSummary rv t h env r = report_guard h env r ''usage:read'' (\<lambda>s. Some (summary_report rv t r))"

section \<open>Spending\<close>

definition utilization :: "f64 \<Rightarrow> f64 \<Rightarrow> f64" where
  "utilization spend budgetLimit = fmul (fdiv spend budgetLimit) 100"

definition computeKeyStatus :: "f64 \<Rightarrow> f64 \<Rightarrow> string" where
  "computeKeyStatus spend budgetLimit =
     (if budgetLimit \<le> 0 then ''unlimited''
      else let utilizationPct = utilization spend budgetLimit
           in if 95 < utilizationPct then ''critical'' else if 75 \<le> utilizationPct then ''warning'' else ''healthy'')"

text \<open>The spending of the i-th key; a failed query counts as nothing spent.\<close>

definition key_spend :: "report_env \<Rightarrow> report_tables \<Rightarrow> string \<Rightarrow> nat \<Rightarrow> VirtualKey \<Rightarrow> keySpend" where
  "key_spend rv t period i k =
     (let spend = (if rv_up rv (Suc i) then GetSpendForCurrentPeriod (rv_trunc rv) (rv_now rv) (map snd (rt_usage t)) (vk_ID k) period else 0);
          budgetLimit = vk_BudgetLimitUSD k
      in \<lparr>kd_KeyID = vk_ID k, kd_KeyName = vk_Name k, kd_KeyPrefix = vk_KeyPrefix k, kd_SpendUSD = spend, kd_BudgetLimitUSD = budgetLimit,
          kd_BudgetPeriod = vk_BudgetPeriod k, kd_UtilizationPct = (if 0 < budgetLimit then utilization spend budgetLimit else 0),
          kd_Status = computeKeyStatus spend budgetLimit\<rparr>)"

definition spend_report :: "report_env \<Rightarrow> report_tables \<Rightarrow> admin_request \<Rightarrow> VirtualKey list \<Rightarrow> report_reply" where
  "spend_report rv t r keys =
     (let period = (if rq_query r ''period'' = '''' then ''monthly'' else rq_query r ''period'')
      in if \<not> rv_db rv then (200, SpendBody period [] 0 0)
         else case ListVirtualKeys (if rv_up rv 0 then Some keys else None) '''' 0 0 of
                Inl err \<Rightarrow> report_error r 500 ''internal_error'' ''failed to list virtual keys''
              | Inr ks \<Rightarrow>
                  let result = map2 (key_spend rv t period) [0..<length ks] ks
                  in (200, SpendBody period result (foldl (\<lambda>x k. fadd x (kd_SpendUSD k)) 0 result)
                             (foldl (\<lambda>x k. fadd x (kd_BudgetLimitUSD k)) 0 result)))"

definition spend ::
  "report_env \<Rightarrow> report_tables \<Rightarrow> Admin_Handler \<Rightarrow> admin_env \<Rightarrow> admin_request \<Rightarrow> admin_state \<Rightarrow> (report_reply \<times> admin_state) option" where
  "spend rv t h env r = report_guard h env r ''usage:read'' (\<lambda>s. Some (spend_report rv t r (as_keys s)))"

section \<open>The audit trail\<close>

definition audit_clauses :: "report_env \<Rightarrow> admin_request \<Rightarrow> (int \<times> Event \<Rightarrow> bool) list" where
  "audit_clauses rv r =
     text_clause (rq_query r ''event_type'') (\<lambda>v x. ae_EventType (snd x) = v)
     @ text_clause (rq_query r ''actor'') (\<lambda>v x. ae_Actor (snd x) = v)
     @ text_clause (rq_query r ''resource'') (\<lambda>v x. ae_Resource (snd x) = v)
     @ time_clause rv (rq_query r ''since'') (\<lambda>t x. t \<le> ae_Timestamp (snd x))"

definition audit_limit :: "admin_request \<Rightarrow> int" where
  "audit_limit r = (let limit = page_param r ''limit'' (\<lambda>l. 0 < l) 100 in if 1000 < limit then 1000 else limit)"

definition audit_row :: "report_env \<Rightarrow> int \<times> Event \<Rightarrow> AuditRow" where
  "audit_row rv = (\<lambda>(i, e).
     \<lparr>ar_ID = i, ar_Timestamp = rv_format rv (ae_Timestamp e), ar_EventType = ae_EventType e, ar_Actor = ae_Actor e,
      ar_Action = ae_Action e, ar_Resource = ae_Resource e, ar_Outcome = ae_Outcome e, ar_RequestID = ae_RequestID e,
      ar_Metadata = map_members (map (map_prod (\<lambda>k. k) any_json) (ae_Metadata e))\<rparr>)"

definition newest_events :: "(int \<times> Event) list \<Rightarrow> (int \<times> Event) list" where
  "newest_events = order_by (\<lambda>a b. ae_Timestamp (snd b) \<le> ae_Timestamp (snd a))"

text \<open>A query on a nil database handle panics.\<close>

definition audit_report :: "report_env \<Rightarrow> report_tables \<Rightarrow> admin_request \<Rightarrow> report_reply option" where
  "audit_report rv t r =
     (if \<not> rv_db rv then None
      else Some (if \<not> rv_up rv 0 then report_error r 500 ''internal_error'' ''failed to query audit logs''
             else case scan_rows (rv_row rv) 0
                         (take (nat (audit_limit r)) (newest_events (where_all (audit_clauses rv r) (rt_audit t)))) of
                    None \<Rightarrow> report_error r 500 ''internal_error'' ''failed to scan audit row''
                  | Some rows \<Rightarrow> (200, AuditBody (map (audit_row rv) rows))))"

definition queryAuditLogs ::
  "report_env \<Rightarrow> report_tables \<Rightarrow> Admin_Handler \<Rightarrow> admin_env \<Rightarrow> admin_request \<Rightarrow> admin_state \<Rightarrow> (report_reply \<times> admin_state) option" where
  "queryAuditLogs rv t h env r = report_guard h env r ''audit:read'' (\<lambda>s. audit_report rv t r)"

section \<open>Guardrails\<close>

definition cfgStringSlice :: "json option \<Rightarrow> string list" where
  "cfgStringSlice v = (case v of Some (JArr arr) \<Rightarrow> List.map_filter (\<lambda>a. case a of JStr s \<Rightarrow> Some s | _ \<Rightarrow> None) arr | _ \<Rightarrow> [])"

definition cfgStringDefault :: "(string, json) gomap \<Rightarrow> string \<Rightarrow> string \<Rightarrow> string" where
  "cfgStringDefault m key dflt = (case gm_get m key of Some (JStr s) \<Rightarrow> if s \<noteq> '''' then s else dflt | _ \<Rightarrow> dflt)"

text \<open>Numbers decoded into an \<^verbatim>\<open>any\<close> are floats.\<close>

definition cfgIntDefault :: "(string, json) gomap \<Rightarrow> string \<Rightarrow> int \<Rightarrow> int" where
  "cfgIntDefault m key dflt =
     (case gm_get m key of Some (JInt n) \<Rightarrow> go_int (of_int n) | Some (JDec x) \<Rightarrow> go_int x | _ \<Rightarrow> dflt)"

definition cfgBoolDefault :: "(string, json) gomap \<Rightarrow> string \<Rightarrow> bool \<Rightarrow> bool" where
  "cfgBoolDefault m key dflt = (case gm_get m key of Some (JBool b) \<Rightarrow> b | _ \<Rightarrow> dflt)"

definition cfgStrVal :: "json option \<Rightarrow> string" where
  "cfgStrVal v = (case v of Some (JStr s) \<Rightarrow> s | _ \<Rightarrow> '''')"

definition cfgRegexRules :: "json option \<Rightarrow> RegexRule list" where
  "cfgRegexRules v =
     (case v of
        Some (JArr arr) \<Rightarrow>
          List.map_filter (\<lambda>a. case a of
              JObj m \<Rightarrow> Some \<lparr>rr_Name = cfgStrVal (gm_get m ''name''), rr_Pattern = cfgStrVal (gm_get m ''pattern''),
                 rr_Action = cfgStringDefault m ''action'' ''block'',
                 rr_Replacement = cfgStringDefault m ''replacement'' ''[REDACTED]''\<rparr>
            | _ \<Rightarrow> None) arr
      | _ \<Rightarrow> [])"

record guardrail_test =
  gt_Type :: string
  gt_Config :: "(string, json) gomap"
  gt_Text :: string
  gt_Direction :: string

definition zero_guardrail_test :: guardrail_test where
  "zero_guardrail_test = \<lparr>gt_Type = '''', gt_Config = [], gt_Text = '''', gt_Direction = ''''\<rparr>"

definition unmarshal_guardrail_test :: "guardrail_test decoder" where
  "unmarshal_guardrail_test = decode_struct
     [(''type'', \<lambda>j q. map_option (\<lambda>v. q\<lparr>gt_Type := v\<rparr>) (decode_string j (gt_Type q))),
      (''config'', \<lambda>j q. case j of
          JNull \<Rightarrow> Some (q\<lparr>gt_Config := []\<rparr>)
        | _ \<Rightarrow> map_option (\<lambda>m. q\<lparr>gt_Config := fold (\<lambda>(k, v). gm_set k v) m (gt_Config q)\<rparr>) (decode_any_map j)),
      (''text'', \<lambda>j q. map_option (\<lambda>v. q\<lparr>gt_Text := v\<rparr>) (decode_string j (gt_Text q))),
      (''direction'', \<lambda>j q. map_option (\<lambda>v. q\<lparr>gt_Direction := v\<rparr>) (decode_string j (gt_Direction q)))]"

text \<open>The stage to test: an answer that rejects the request, or the outcome of the constructor.\<close>

definition test_stage :: "gr_builder \<Rightarrow> admin_request \<Rightarrow> string \<Rightarrow> (string, json) gomap \<Rightarrow> string \<Rightarrow> report_reply + (string + Stage)" where
  "test_stage B r typ cfg direction =
     (let t = strings_ToLower typ
      in if t = ''webhook''
         then Inl (report_error r 400 ''invalid_request'' ''webhook requires live endpoint and cannot be tested in-process'')
         else if t = ''pii''
         then Inr (Inr (SPII (NewPIIStage (cfgStringSlice (gm_get cfg ''types'')) (cfgStringDefault cfg ''action'' ''redact''))))
         else if t = ''keyword''
         then Inr (Inr (SKeyword (NewKeywordStage (cfgStringSlice (gm_get cfg ''blocklist'')) (cfgStringDefault cfg ''action'' ''block'')
                                    (cfgStringDefault cfg ''block_message'' ''request contains blocked content''))))
         else if t = ''length''
         then Inr (Inr (SLength (NewLengthStage (cfgIntDefault cfg ''min_chars'' 0) (cfgIntDefault cfg ''max_chars'' 0) direction)))
         else if t = ''regex''
         then Inr (map_sum id SRegex (NewRegexStage (gb_compile B) (cfgRegexRules (gm_get cfg ''patterns''))
                                        (cfgStringDefault cfg ''block_message'' ''request contains prohibited content'')))
         else if t = ''json_schema''
         then let schema = cfgStringDefault cfg ''schema'' ''''
              in if schema = '''' then Inl (report_error r 400 ''invalid_request'' ''json_schema requires schema field'')
                 else Inr (if gb_schema_ok B schema
                           then Inr (SSchema \<lparr>js_schema = schema, js_strict = cfgBoolDefault cfg ''strict'' True\<rparr>)
                           else Inl ''invalid JSON schema'')
         else Inl (report_error r 400 ''invalid_request''
                     (''unknown guardrail type '' @ typ @ ''; valid types: pii, keyword, length, regex, json_schema, webhook'')))"

fun action_name :: "ResultAction \<Rightarrow> string" where
  "action_name Block = ''block''"
| "action_name Redact = ''redact''"
| "action_name Pass = ''pass''"

definition redacted_text :: "string \<Rightarrow> Result \<Rightarrow> string" where
  "redacted_text txt r =
     (if rs_Action r = Redact
      then if rs_Message r \<noteq> '''' then rs_Message r
           else if rs_RedactedMessages r \<noteq> [] then strings_Join (map gm_Content (rs_RedactedMessages r)) '' ''
           else txt
      else txt)"

text \<open>The stages that can be tested make no call, so the world \<open>w\<close> stays as it is.\<close>

definition test_report :: "gr_builder \<Rightarrow> 'w gr_env \<Rightarrow> 'w \<Rightarrow> admin_request \<Rightarrow> report_reply" where
  "test_report B E w r =
     (case readJSON r unmarshal_guardrail_test zero_guardrail_test of
        None \<Rightarrow> report_error r 400 ''invalid_request'' ''invalid JSON body''
      | Some q \<Rightarrow>
          if gt_Type q = '''' then report_error r 400 ''invalid_request'' ''type is required''
          else if gt_Text q = '''' then report_error r 400 ''invalid_request'' ''text is required''
          else let direction = (if gt_Direction q = '''' then ''input'' else gt_Direction q)
          in case test_stage B r (gt_Type q) (gt_Config q) direction of
               Inl reply \<Rightarrow> reply
             | Inr (Inl err) \<Rightarrow> report_error r 400 ''invalid_config'' err
             | Inr (Inr stage) \<Rightarrow>
                 (case (if direction = ''output'' then fst (Stage_CheckOutput E stage (gt_Text q) w)
                        else fst (Stage_CheckInput E stage [\<lparr>gm_Role = ''user'', gm_Content = gt_Text q\<rparr>] w)) of
                    Inl err \<Rightarrow> report_error r 500 ''internal_error'' err
                  | Inr result \<Rightarrow>
                      (200, TestBody (action_name (rs_Action result)) (rs_Message result)
                              (if rs_StageName result = '''' then Stage_Name stage else rs_StageName result)
                              (redacted_text (gt_Text q) result))))"

definition testGuardrail ::
  "gr_builder \<Rightarrow> 'w gr_env \<Rightarrow> 'w \<Rightarrow> Admin_Handler \<Rightarrow> admin_env \<Rightarrow> admin_request \<Rightarrow> admin_state \<Rightarrow> (report_reply \<times> admin_state) option" where
  "testGuardrail B E w h env r = report_guard h env r ''key:create'' (\<lambda>s. Some (test_report B E w r))"

definition zero_GuardrailStats :: GuardrailStatsSnapshot where
  "zero_GuardrailStats = \<lparr>gs_TotalBlocks = 0, gs_TotalRedactions = 0, gs_TotalPasses = 0, gs_TotalRequests = 0, gs_BlockRatePct = 0,
     gs_RedactRatePct = 0, gs_Stages = []\<rparr>"

definition getGuardrailStats ::
  "Collector option \<Rightarrow> Admin_Handler \<Rightarrow> admin_env \<Rightarrow> admin_request \<Rightarrow> admin_state \<Rightarrow> (report_reply \<times> admin_state) option" where
  "getGuardrailStats mc h env r = report_guard h env r ''audit:read'' (\<lambda>s.
     Some (200, StatsBody (case mc of None \<Rightarrow> zero_GuardrailStats | Some c \<Rightarrow> GetGuardrailStats c)))"

definition cfg_field :: "string \<Rightarrow> string \<Rightarrow> string \<Rightarrow> string \<Rightarrow> catalogConfigField" where
  "cfg_field name typ description dflt = \<lparr>cg_Name = name, cg_Type = typ, cg_Description = description, cg_Default = dflt\<rparr>"

definition guardrailCatalog :: "catalogEntry list" where
  "guardrailCatalog =
     [\<lparr>ct_Type = ''pii'', ct_Name = ''PII Redaction'',
       ct_Description = ''Detects and redacts personally identifiable information such as credit card numbers, SSNs, emails, phone numbers, and IP addresses.'',
       ct_ConfigFields =
         [cfg_field ''types'' ''array'' ''PII types to check (credit_card, ssn, email, phone, ip_address)'' ''all'',
          cfg_field ''action'' ''string'' ''Action on detection: block or redact'' ''redact''],
       ct_ExampleConfig = [(''types'', JArr [JStr ''credit_card'', JStr ''email'']), (''action'', JStr ''redact'')],
       ct_Testable = True\<rparr>,
      \<lparr>ct_Type = ''keyword'', ct_Name = ''Keyword Blocklist'',
       ct_Description = ''Blocks or flags requests containing words from a configurable blocklist. Uses case-insensitive substring matching.'',
       ct_ConfigFields =
         [cfg_field ''blocklist'' ''array'' ''List of blocked keywords'' ''[]'',
          cfg_field ''action'' ''string'' ''Action on match: block or log'' ''block'',
          cfg_field ''block_message'' ''string'' ''Custom block message'' ''request contains blocked content''],
       ct_ExampleConfig = [(''blocklist'', JArr [JStr ''forbidden'', JStr ''blocked'']), (''action'', JStr ''block''),
         (''block_message'', JStr ''request contains blocked content'')],
       ct_Testable = True\<rparr>,
      \<lparr>ct_Type = ''length'', ct_Name = ''Length Limit'',
       ct_Description = ''Enforces minimum and maximum character length limits on input or output text.'',
       ct_ConfigFields =
         [cfg_field ''min_chars'' ''number'' ''Minimum character count (0 = no minimum)'' ''0'',
          cfg_field ''max_chars'' ''number'' ''Maximum character count (0 = no maximum)'' ''0''],
       ct_ExampleConfig = [(''min_chars'', JInt 0), (''max_chars'', JInt 10000)],
       ct_Testable = True\<rparr>,
      \<lparr>ct_Type = ''regex'', ct_Name = ''Regex Pattern'',
       ct_Description = ''Matches content against configurable regex patterns with block or redact actions.'',
       ct_ConfigFields =
         [cfg_field ''patterns'' ''array'' ''Array of {name, pattern, action, replacement} objects'' ''[]'',
          cfg_field ''block_message'' ''string'' ''Custom block message'' ''request contains prohibited content''],
       ct_ExampleConfig =
         [(''patterns'', JArr [JObj [(''name'', JStr ''api_key''), (''pattern'', JStr ''sk-[a-zA-Z0-9]{20,}''),
             (''action'', JStr ''redact''), (''replacement'', JStr ''[REDACTED_KEY]'')]]),
          (''block_message'', JStr ''request contains prohibited content'')],
       ct_Testable = False\<rparr>,
      \<lparr>ct_Type = ''json_schema'', ct_Name = ''JSON Schema Validation'',
       ct_Description = ''Validates JSON output against a JSON Schema definition. Blocks or passes based on strictness setting.'',
       ct_ConfigFields =
         [cfg_field ''schema'' ''string'' ''JSON Schema definition (stringified JSON)'' '''',
          cfg_field ''strict'' ''boolean'' ''If true, block on validation failure; if false, pass with warning'' ''true''],
       ct_ExampleConfig =
         [(''schema'', JStr ''{\"type\":\"object\",\"properties\":{\"name\":{\"type\":\"string\"}},\"required\":[\"name\"]}''), (''strict'', JBool True)],
       ct_Testable = True\<rparr>,
      \<lparr>ct_Type = ''webhook'', ct_Name = ''Webhook Guardrail'',
       ct_Description = ''Forwards content to an external HTTP endpoint for custom validation. Requires a live endpoint ''
         @ [CHR 0xE2, CHR 0x80, CHR 0x94] @ '' not testable in the dashboard.'',
       ct_ConfigFields =
         [cfg_field ''url'' ''string'' ''HTTP(S) endpoint URL for validation'' '''',
          cfg_field ''timeout_ms'' ''number'' ''Request timeout in milliseconds'' ''250'',
          cfg_field ''block_on_error'' ''boolean'' ''Block if the endpoint returns an error'' ''true'',
          cfg_field ''block_on_timeout'' ''boolean'' ''Block if the endpoint times out'' ''true''],
       ct_ExampleConfig = [(''url'', JStr ''https://example.com/guardrail''), (''timeout_ms'', JInt 250), (''block_on_error'', JBool True),
         (''block_on_timeout'', JBool True)],
       ct_Testable = False\<rparr>]"

definition listGuardrailCatalog ::
  "Admin_Handler \<Rightarrow> admin_env \<Rightarrow> admin_request \<Rightarrow> admin_state \<Rightarrow> (report_reply \<times> admin_state) option" where
  "listGuardrailCatalog h env r = report_guard h env r ''audit:read'' (\<lambda>s. Some (200, CatalogBody guardrailCatalog))"

section \<open>Tools, costs and replays\<close>

definition get_only :: "admin_request \<Rightarrow> report_reply option \<Rightarrow> report_reply option" where
  "get_only r reply =
     (if rq_method r \<noteq> ''GET'' then Some (report_error r 405 ''method_not_allowed'' ''method not allowed'') else reply)"

definition ToolsHandler :: "ToolServerInfo list \<Rightarrow> admin_request \<Rightarrow> report_reply option" where
  "ToolsHandler statuses r = get_only r
     (let servers = filter (\<lambda>s. rq_query r ''server'' = '''' \<or> ts_Name s = rq_query r ''server'') statuses
      in Some (200, ToolsBody (concat (map (\<lambda>s. map (\<lambda>t. (t, ts_Name s)) (ts_Tools s)) servers)) servers))"

definition statusFn :: "McpManager \<Rightarrow> ToolServerInfo list" where
  "statusFn m = map (\<lambda>s.
     \<lparr>ts_Name = si_Name s, ts_Status = si_Status s, ts_ToolCount = si_Tools s,
      ts_Tools = map (\<lambda>t. \<lparr>tx_Name = tl_Name t, tx_Description = tl_Description t, tx_InputSchema = tl_InputSchema t\<rparr>)
                   (ToolsByServer (si_Name s) (mm_registry m))\<rparr>) (ServerStatus m)"

definition MCPServersHandler :: "MCPServerEntry list \<Rightarrow> admin_request \<Rightarrow> report_reply option" where
  "MCPServersHandler entries r = get_only r
     (Some (200, ServersBody entries (length entries) (length (filter (\<lambda>s. me_Status s = ''connected'') entries))))"

definition mcpServersFn :: "McpManager \<Rightarrow> MCPServerEntry list" where
  "mcpServersFn m = map (\<lambda>s.
     \<lparr>me_Name = si_Name s, me_Status = si_Status s, me_Tools = si_Tools s,
      me_ToolList = take 50 (map tl_Name (ToolsByServer (si_Name s) (mm_registry m))), me_LastError = si_LastError s\<rparr>) (ServerStatus m)"

definition RoutingCostsHandler :: "RoutingCostsResponse \<Rightarrow> admin_request \<Rightarrow> report_reply option" where
  "RoutingCostsHandler resp r = get_only r (Some (200, CostsBody resp))"

definition routingCostFn :: "RoutingConfig \<Rightarrow> RoutingCostsResponse" where
  "routingCostFn cfg =
     \<lparr>rr_Models = CostCatalog, rr_Strategy = (if rc_RegionStrategy cfg = '''' then ''priority'' else rc_RegionStrategy cfg),
      rr_Weights = rc_CostWeights cfg\<rparr>"

text \<open>The summary panics where \<^verbatim>\<open>Recent\<close> does.\<close>

definition ReplayHandler :: "ReplaySummary option \<Rightarrow> admin_request \<Rightarrow> report_reply option" where
  "ReplayHandler data r = get_only r (map_option (\<lambda>resp. (200, ReplayBody resp)) data)"

definition MCPToolsHandler :: "string + ToolDefinition list \<Rightarrow> admin_request \<Rightarrow> report_reply option" where
  "MCPToolsHandler lister r = get_only r
     (case lister of
        Inl err \<Rightarrow> Some (report_error r 500 ''internal_error'' ''failed to list MCP tools'')
      | Inr tools \<Rightarrow> Some (200, McpToolsBody (map (\<lambda>t. (td_Name t, td_Description t, td_InputSchema t)) tools)))"

text \<open>The part of \<^verbatim>\<open>server.New\<close> that registers these routes, in its order: the local variable \<^verbatim>\<open>replayMgr\<close> is nil until the block that
  creates the replay manager, which comes after the block of the admin routes. The arguments say whether the admin API is
  enabled, whether there is a database, an MCP manager and an MCP server, and how replays are configured.\<close>

definition RegisterRoutes :: "bool \<Rightarrow> string list" where
  "RegisterRoutes rbacEnabled =
     [''GET /admin/dashboard'', ''POST /admin/prompts'', ''GET /admin/prompts'', ''PUT /admin/prompts/{id}'', ''DELETE /admin/prompts/{id}'',
      ''POST /admin/projects'', ''GET /admin/projects'', ''DELETE /admin/projects/{id}'', ''POST /admin/keys'', ''GET /admin/keys'',
      ''PUT /admin/keys/{id}'', ''PATCH /admin/keys/{id}'', ''DELETE /admin/keys/{id}'', ''POST /admin/keys/{id}/rotate'',
      ''GET /admin/usage'', ''GET /admin/usage/summary'', ''GET /admin/usage/spend'', ''GET /admin/audit'', ''POST /admin/quickstart'',
      ''GET /admin/providers/registry'', ''GET /admin/roles'', ''GET /admin/guardrails/catalog'', ''POST /admin/guardrails/test'',
      ''GET /admin/guardrails/stats'']
     @ (if rbacEnabled then [''POST /admin/users'', ''GET /admin/users'', ''DELETE /admin/users/{id}'', ''PUT /admin/users/{id}/role''] else [])"

record new_state =
  nw_routes :: "string list"
  nw_replayMgr :: "Manager option"
  nw_handlerReplay :: "Manager option"

definition admin_block :: "bool \<Rightarrow> bool \<Rightarrow> bool \<Rightarrow> bool \<Rightarrow> bool \<Rightarrow> new_state \<Rightarrow> new_state" where
  "admin_block enabled db rbac mcpManager mcpServer n =
     (if \<not> (enabled \<and> db) then n
      else n\<lparr>nw_routes := nw_routes n @ RegisterRoutes rbac
               @ (if mcpManager then [''GET /admin/tools'', ''GET /admin/mcp/servers''] else [])
               @ [''GET /admin/routing/costs'']
               @ (if nw_replayMgr n \<noteq> None then [''GET /admin/routing/replay''] else [])
               @ (if mcpServer \<and> db then [''GET /admin/mcp/tools''] else [])
               @ [''GET /admin/health/providers'', ''GET /admin/health/models'']\<rparr>)"

definition replay_block :: "ReplayConfig \<Rightarrow> new_state \<Rightarrow> new_state" where
  "replay_block cfg n =
     (if \<not> rpc_Enabled cfg then n
      else let m = NewManager cfg in n\<lparr>nw_replayMgr := m, nw_handlerReplay := (if m = None then nw_handlerReplay n else m)\<rparr>)"

definition server_New :: "bool \<Rightarrow> bool \<Rightarrow> bool \<Rightarrow> bool \<Rightarrow> bool \<Rightarrow> ReplayConfig \<Rightarrow> new_state" where
  "server_New enabled db rbac mcpManager mcpServer cfg =
     replay_block cfg (admin_block enabled db rbac mcpManager mcpServer
        \<lparr>nw_routes = [], nw_replayMgr = None, nw_handlerReplay = None\<rparr>)"

section \<open>Reading the reports\<close>

lemma scan_rows_all: "(\<And>i. ev i = RowRead) \<Longrightarrow> scan_rows ev n xs = Some xs"
  by (induction xs arbitrary: n) auto

lemma mset_insert_by [simp]: "mset (insert_by le x xs) = add_mset x (mset xs)"
  by (induction xs) auto

lemma mset_order_by [simp]: "mset (order_by le xs) = mset xs"
  by (induction xs) (simp_all add: order_by_def)

lemma length_order_by [simp]: "length (order_by le xs) = length xs"
  by (metis mset_order_by size_mset)

lemma set_insert_by [simp]: "set (insert_by le x xs) = insert x (set xs)"
  by (induction xs) auto

lemma sorted_insert_by:
  assumes "sorted_wrt le xs" and "transp le" and "\<And>a b. le a b \<or> le b a"
  shows "sorted_wrt le (insert_by le x xs)"
  using assms by (induction xs) (auto dest: transpD)

lemma sorted_order_by:
  assumes "transp le" and "\<And>a b. le a b \<or> le b a"
  shows "sorted_wrt le (order_by le xs)"
  by (induction xs) (simp_all add: order_by_def sorted_insert_by [OF _ assms])

text \<open>Consecutive pages put together.\<close>

lemma pages_concat: "concat (map (\<lambda>i. take n (drop (i * n) xs)) [0..<k]) = take (k * n) xs"
proof (induction k)
  case (Suc k)
  then show ?case by (simp add: take_add add.commute [of n])
qed simp

definition usage_page :: "report_env \<Rightarrow> report_tables \<Rightarrow> admin_request \<Rightarrow> int \<Rightarrow> int \<Rightarrow> usageRow list" where
  "usage_page rv t r offset limit =
     map (usage_line rv) (take (nat limit) (drop (nat offset) (newest_usage (where_all (usage_clauses rv r) (rt_usage t)))))"

lemma usage_report_page:
  assumes "rv_db rv" and "\<And>i. rv_up rv i" and "\<And>i. rv_row rv i = RowRead"
    and "strconv_Atoi (rq_query r ''offset'') = Some offset" and "0 \<le> offset"
    and "strconv_Atoi (rq_query r ''limit'') = Some limit" and "0 < limit" and "limit \<le> 1000"
  shows "usage_report rv t r
    = (200, UsageBody (int (length (where_all (usage_clauses rv r) (rt_usage t)))) (usage_page rv t r offset limit))"
  using assms by (simp add: usage_report_def Let_def page_param_def scan_rows_all usage_page_def)

section \<open>Budgets\<close>

lemma utilization_full: "0 < limit \<Longrightarrow> limit \<le> x \<Longrightarrow> 100 \<le> utilization x limit"
proof -
  assume limit: "0 < limit" "limit \<le> x"
  then have "1 \<le> x / limit" by (simp add: le_divide_eq)
  then have "float64 1 \<le> fdiv x limit" unfolding fdiv_def by (rule float64_mono)
  then have "(100 :: rat) \<le> fdiv x limit * 100" by simp
  then have "float64 (of_nat 100) \<le> utilization x limit" unfolding utilization_def fmul_def using float64_mono by simp
  then show ?thesis using float64_of_nat [of 100] by simp
qed

text \<open>The report and the budget check agree where they measure the same period: a key that the budget check rejects is reported as critical.\<close>

theorem rejected_key_is_critical:
  assumes "CheckBudget trunc now (Some (Some rows)) keyID period limit failClosed = Inr b" and "\<not> bg_Allowed b"
  shows "computeKeyStatus (GetSpendForCurrentPeriod trunc now rows keyID period) limit = ''critical''"
  using assms utilization_full [of limit "GetSpendForCurrentPeriod trunc now rows keyID period"]
  by (auto simp: CheckBudget_def computeKeyStatus_def Let_def budget_open_def split: if_splits)

lemma Atoi_itoa:
  assumes "0 \<le> n" and "n \<le> max_int64"
  shows "strconv_Atoi (itoa n) = Some n"
proof -
  note d = digits_round_trip [OF assms(1)]
  then obtain c ds where cd: "digits n = c # ds" by (cases "digits n") auto
  with d have "is_digit c" by simp
  then have "c \<noteq> CHR ''-''" and "c \<noteq> CHR ''+''" by (auto simp: is_digit_def)
  with d cd assms show ?thesis by (simp add: strconv_Atoi_def itoa_def in_int64_def min_int64_def del: digits.simps)
qed

text \<open>The request for the i-th page of \<open>n\<close> rows.\<close>

definition page_request :: "admin_request \<Rightarrow> nat \<Rightarrow> nat \<Rightarrow> admin_request" where
  "page_request r n i =
     r\<lparr>rq_query := (rq_query r)(''limit'' := itoa (int n), ''offset'' := itoa (int (i * n)))\<rparr>"

definition report_rows :: "report_reply \<Rightarrow> usageRow list" where
  "report_rows a = (case a of (_, UsageBody n rows) \<Rightarrow> rows | _ \<Rightarrow> [])"

definition report_count :: "report_reply \<Rightarrow> int" where
  "report_count a = (case a of (_, UsageBody n rows) \<Rightarrow> n | _ \<Rightarrow> -1)"

definition answering :: "report_env \<Rightarrow> bool" where
  "answering rv \<longleftrightarrow> rv_db rv \<and> (\<forall>i. rv_up rv i) \<and> (\<forall>i. rv_row rv i = RowRead)"

lemma page_clauses: "usage_clauses rv (page_request r n i) = usage_clauses rv r"
  by (simp add: usage_clauses_def page_request_def)

lemma usage_page_answer:
  assumes "answering rv" and "0 < n" and "n \<le> 1000" and "int (i * n) \<le> max_int64"
  shows "usage_report rv t (page_request r n i)
    = (200, UsageBody (int (length (where_all (usage_clauses rv r) (rt_usage t))))
         (usage_page rv t r (int (i * n)) (int n)))"
proof -
  from assms(3) have "strconv_Atoi (itoa (int n)) = Some (int n)" by (intro Atoi_itoa) (simp_all add: max_int64_def)
  moreover from assms(4) have "strconv_Atoi (itoa (int (i * n))) = Some (int (i * n))" by (intro Atoi_itoa) simp_all
  ultimately have "usage_report rv t (page_request r n i)
    = (200, UsageBody (int (length (where_all (usage_clauses rv (page_request r n i)) (rt_usage t))))
         (usage_page rv t (page_request r n i) (int (i * n)) (int n)))"
    using assms by (intro usage_report_page) (simp_all add: answering_def page_request_def)
  then show ?thesis by (simp add: page_clauses usage_page_def)
qed

text \<open>The pages of the usage report, asked one after the other, are the matching rows, each once and the newest first, and every page carries
  their number.\<close>

theorem usage_pages_complete:
  fixes k n :: nat
  assumes "answering rv" and "0 < n" and "n \<le> 1000" and "int (k * n) \<le> max_int64"
    and "length (where_all (usage_clauses rv r) (rt_usage t)) \<le> k * n"
  defines "answers \<equiv> map (\<lambda>i. usage_report rv t (page_request r n i)) [0..<k]"
  shows "list_all (\<lambda>a. fst a = 200 \<and> report_count a = int (length (where_all (usage_clauses rv r) (rt_usage t)))) answers
    \<and> mset (concat (map report_rows answers)) = mset (map (usage_line rv) (where_all (usage_clauses rv r) (rt_usage t)))
    \<and> concat (map report_rows answers) = map (usage_line rv) (newest_usage (where_all (usage_clauses rv r) (rt_usage t)))
    \<and> sorted_wrt (\<lambda>a b. ur_created (snd b) \<le> ur_created (snd a)) (newest_usage (where_all (usage_clauses rv r) (rt_usage t)))"
proof -
  let ?m = "where_all (usage_clauses rv r) (rt_usage t)"
  have answer: "usage_report rv t (page_request r n i) = (200, UsageBody (int (length ?m)) (usage_page rv t r (int (i * n)) (int n)))"
    if "i < k" for i
  proof -
    from that have "i * n \<le> k * n" by simp
    with assms(4) have "int (i * n) \<le> max_int64" by linarith
    with assms(1-3) show ?thesis by (rule usage_page_answer)
  qed
  have "map report_rows answers = map (\<lambda>i. map (usage_line rv) (take n (drop (i * n) (newest_usage ?m)))) [0..<k]"
    by (simp add: answers_def answer report_rows_def usage_page_def nat_mult_distrib)
  then have "concat (map report_rows answers) = map (usage_line rv) (concat (map (\<lambda>i. take n (drop (i * n) (newest_usage ?m))) [0..<k]))"
    by (simp add: map_concat comp_def)
  then have rows: "concat (map report_rows answers) = map (usage_line rv) (newest_usage ?m)"
    using assms(5) by (simp add: pages_concat newest_usage_def)
  then have "mset (concat (map report_rows answers)) = mset (map (usage_line rv) ?m)"
    by (simp add: newest_usage_def)
  moreover have "list_all (\<lambda>a. fst a = 200 \<and> report_count a = int (length ?m)) answers"
    by (simp add: answers_def answer report_count_def list_all_iff)
  moreover have "sorted_wrt (\<lambda>a b. ur_created (snd b) \<le> ur_created (snd a)) (newest_usage ?m)"
    unfolding newest_usage_def by (rule sorted_order_by) (auto simp: transp_def)
  ultimately show ?thesis using rows by blast
qed

text \<open>A key with a budget per day is measured with the spending of a month.\<close>

definition report_rv :: report_env where
  "report_rv = \<lparr>rv_db = True, rv_up = \<lambda>_. True, rv_row = \<lambda>_. RowRead, rv_parse = \<lambda>_. None, rv_format = itoa,
     rv_trunc = (\<lambda>unit t. if unit = ''day'' then t - t mod 100 else t - t mod 3000), rv_now = 550, rv_collate = bytes_le\<rparr>"

definition report_key :: VirtualKey where
  "report_key = example_key\<lparr>vk_ID := ''k'', vk_BudgetLimitUSD := 10, vk_BudgetPeriod := ''daily''\<rparr>"

definition spent :: "rat \<Rightarrow> gotime \<Rightarrow> usage_row" where
  "spent c t = \<lparr>ur_entry = example_entry ''k'' c, ur_project = None, ur_key = Some ''k'', ur_cost = c, ur_created = t\<rparr>"

definition report_request :: "(string \<times> string) list \<Rightarrow> admin_request" where
  "report_request q = \<lparr>rq_method = ''GET'', rq_path = [''admin'', ''usage''], rq_auth = '''', rq_addr = '''',
     rq_query = (\<lambda>k. case map_of q k of None \<Rightarrow> '''' | Some v \<Rightarrow> v), rq_body = None, rq_requestID = '''', rq_oidc = None\<rparr>"

definition example_rows :: report_tables where
  "example_rows = \<lparr>rt_usage = [(1, spent 8 420), (2, spent 2 510)], rt_audit = []\<rparr>"

theorem spend_ignores_budget_period:
  "CheckBudget (rv_trunc report_rv) (rv_now report_rv) (Some (Some (map snd (rt_usage example_rows)))) ''k''
      (vk_BudgetPeriod report_key) (vk_BudgetLimitUSD report_key) True
    = Inr \<lparr>bg_Allowed = True, bg_Spend = 2, bg_Limit = 10\<rparr>
  \<and> map (\<lambda>d. (kd_BudgetPeriod d, kd_SpendUSD d, kd_UtilizationPct d, kd_Status d))
      (case snd (spend_report report_rv example_rows (report_request []) [report_key]) of SpendBody p ds a b \<Rightarrow> ds | _ \<Rightarrow> [])
    = [(''daily'', 10, 100, ''critical'')]"
  by code_simp

section \<open>The test of a guardrail\<close>

lemma cfgStringDefault_eq: "cfgStringDefault m key dflt = getStringDefault m key dflt"
  by (auto simp: cfgStringDefault_def getStringDefault_def getString_def Let_def split: option.splits json.splits)

lemma cfgStringSlice_eq: "cfgStringSlice (gm_get cfg key) = get_strings cfg key"
  by (auto simp: cfgStringSlice_def get_strings_def split: option.splits json.splits)

lemma cfgStrVal_eq: "cfgStrVal (gm_get m key) = getString m key"
  by (auto simp: cfgStrVal_def getString_def split: option.splits json.splits)

lemma cfgBoolDefault_eq: "cfgBoolDefault m key dflt = getBoolDefault m key dflt"
  by (auto simp: cfgBoolDefault_def getBoolDefault_def split: option.splits json.splits)

lemma cfgRegexRules_eq: "cfgRegexRules (gm_get cfg ''patterns'') = regex_rules cfg"
  unfolding cfgRegexRules_def regex_rules_def cfgStrVal_eq cfgStringDefault_eq ..

definition int_fields_ok :: "(string, json) gomap \<Rightarrow> bool" where
  "int_fields_ok cfg \<longleftrightarrow> list_all (\<lambda>key. case gm_get cfg key of
       Some (JInt n) \<Rightarrow> in_int64 n | Some (JDec x) \<Rightarrow> in_int64 (int_of_float x) | _ \<Rightarrow> True) [''min_chars'', ''max_chars'']"

lemma int_of_float_of_int [simp]: "int_of_float (of_int n) = n"
  by (simp add: int_of_float_def)

lemma cfgIntDefault_eq:
  assumes "int_fields_ok cfg" and "key \<in> {''min_chars'', ''max_chars''}"
  shows "cfgIntDefault cfg key dflt = getIntDefault cfg key dflt"
  using assms
  by (auto simp: int_fields_ok_def cfgIntDefault_def getIntDefault_def go_int_def split: option.splits json.splits)

lemmas cfg_eqs = cfgStringDefault_eq cfgStringSlice_eq cfgBoolDefault_eq cfgRegexRules_eq

lemma block_messages:
  "NewKeywordStage bs a (getStringDefault cfg key ''request contains blocked content'') = NewKeywordStage bs a (getStringDefault cfg key '''')"
  "NewRegexStage c rs (getStringDefault cfg key ''request contains prohibited content'') = NewRegexStage c rs (getStringDefault cfg key '''')"
  by (simp_all add: NewKeywordStage_def NewRegexStage_def getStringDefault_def Let_def)

lemma schema_field: "getStringDefault cfg key '''' = getString cfg key"
  by (simp add: getStringDefault_def)

lemma test_stage_builds:
  assumes "test_stage B r typ cfg direction = Inr res" and "int_fields_ok cfg"
  shows "buildStage B \<lparr>gs_Type = typ, gs_Config = cfg\<rparr> direction = res"
  using assms(1)
  by (auto simp: test_stage_def buildStage_def Let_def cfg_eqs cfgIntDefault_eq [OF assms(2)] block_messages schema_field buildPIIStage_def
      buildKeywordStage_def buildLengthStage_def buildRegexStage_def buildJSONSchemaStage_def split: if_splits)

lemma regex_input_roles:
  "rs_Action (regex_input expand s rules m msgs) = Redact \<Longrightarrow>
   rs_Message (regex_input expand s rules m msgs) = ''''
   \<and> map gm_Role (rs_RedactedMessages (regex_input expand s rules m msgs)) = map gm_Role msgs"
  by (induction rules arbitrary: m msgs) (auto simp: result_defs rule_block_def comp_def split: if_splits)

lemma map2_roles:
  "length xs = length ys \<Longrightarrow> map (gm_Role \<circ> (\<lambda>(m, x). \<lparr>gm_Role = gm_Role m, gm_Content = snd x\<rparr>)) (zip xs ys) = map gm_Role xs"
  by (induction xs ys rule: list_induct2) auto

lemma redacted_roles:
  assumes "keeps_messages st" and "Stage_CheckInput E st msgs w = (Inr r, w')" and "rs_Action r = Redact"
  shows "rs_Message r = '''' \<and> map gm_Role (rs_RedactedMessages r) = map gm_Role msgs"
proof (cases st)
  case (SPII s)
  with assms show ?thesis by (auto simp: PII_CheckInput_def Let_def result_defs map2_roles split: if_splits)
next
  case (SRegex s)
  with assms regex_input_roles [of "ge_expand E" s "rx_rules s" False msgs] show ?thesis by auto
next
  case (SKeyword s)
  with assms show ?thesis by (auto simp: keeps_messages_def Keyword_CheckInput_def keyword_result_def result_defs split: if_splits)
next
  case (SLength s)
  with assms show ?thesis by (auto simp: Length_CheckInput_def check_length_def result_defs split: if_splits)
next
  case (SPlugin p)
  with assms plugin_not_redact show ?thesis by auto
qed (use assms in \<open>auto simp: keeps_messages_def result_defs\<close>)

lemma redacted_text_flow:
  assumes "keeps_messages st" and "Stage_CheckInput E st [\<lparr>gm_Role = ''user'', gm_Content = txt\<rparr>] w = (Inr res, w')"
  shows "flow E [st] [\<lparr>gm_Role = ''user'', gm_Content = txt\<rparr>] w
    = (if rs_Action res = Block then None else Some [\<lparr>gm_Role = ''user'', gm_Content = redacted_text txt res\<rparr>])"
proof (cases "rs_Action res = Redact")
  case True
  with redacted_roles [OF assms] have roles: "rs_Message res = ''''" "map gm_Role (rs_RedactedMessages res) = [''user'']" by simp_all
  then obtain m where "rs_RedactedMessages res = [m]" and "gm_Role m = ''user''" by (auto simp: map_eq_Cons_conv)
  with True assms(2) roles show ?thesis by (cases m) (simp add: redacted_text_def)
next
  case False
  with assms(2) show ?thesis by (cases "rs_Action res") (simp_all add: redacted_text_def)
qed

definition single_stage :: "guardrail_test \<Rightarrow> GuardrailsConfig" where
  "single_stage q = \<lparr>gc_Enabled = True, gc_Input = [\<lparr>gs_Type = gt_Type q, gs_Config = gt_Config q\<rparr>], gc_Output = [], gc_Models = []\<rparr>"

lemma action_name_block [simp]: "action_name a = ''block'' \<longleftrightarrow> a = Block"
  by (cases a) simp_all

lemma test_report_input:
  assumes "readJSON r unmarshal_guardrail_test zero_guardrail_test = Some q" and "gt_Direction q = '''' \<or> gt_Direction q = ''input''"
    and "test_report B E w r = (200, TestBody action msg stage txt)"
  obtains st res w' where "test_stage B r (gt_Type q) (gt_Config q) ''input'' = Inr (Inr st)"
    and "Stage_CheckInput E st [\<lparr>gm_Role = ''user'', gm_Content = gt_Text q\<rparr>] w = (Inr res, w')"
    and "action = action_name (rs_Action res)" and "txt = redacted_text (gt_Text q) res"
proof -
  have dir: "(if gt_Direction q = '''' then ''input'' else gt_Direction q) = ''input''" using assms(2) by auto
  from assms(1,3) dir obtain st where st: "test_stage B r (gt_Type q) (gt_Config q) ''input'' = Inr (Inr st)"
    by (auto simp: test_report_def report_error_def writeAdminError_def test_stage_def Let_def split: if_splits sum.splits)
  obtain res w' where res: "Stage_CheckInput E st [\<lparr>gm_Role = ''user'', gm_Content = gt_Text q\<rparr>] w = (Inr res, w')"
    by (rule Stage_CheckInput_total)
  from assms(1,3) dir st res have "action = action_name (rs_Action res)" and "txt = redacted_text (gt_Text q) res"
    by (auto simp: test_report_def report_error_def writeAdminError_def Let_def split: if_splits)
  with st res show thesis by (rule that)
qed

lemma test_stage_not_webhook: "test_stage B r typ cfg d = Inr x \<Longrightarrow> strings_ToLower typ \<noteq> ''webhook''"
  by (auto simp: test_stage_def)

text \<open>What the test of a guardrail shows is what the gateway does with the same stage: it says block exactly when the pipeline of that one
  stage blocks the message, and otherwise its text is the content that the pipeline forwards.\<close>

theorem guardrail_test_agrees:
  assumes "readJSON r unmarshal_guardrail_test zero_guardrail_test = Some q" and "gt_Direction q = '''' \<or> gt_Direction q = ''input''"
    and "int_fields_ok (gt_Config q)" and "test_report B E w r = (200, TestBody action msg stage txt)"
  shows "\<exists>p res. BuildPipeline B (single_stage q) = Inr p
    \<and> fst (CheckInput E p [\<lparr>gm_Role = ''user'', gm_Content = gt_Text q\<rparr>] w) = Inr res
    \<and> (rs_Action res = Block \<longleftrightarrow> action = ''block'')
    \<and> (action = ''block'' \<or> forwarded [\<lparr>gm_Role = ''user'', gm_Content = gt_Text q\<rparr>] res = [\<lparr>gm_Role = ''user'', gm_Content = txt\<rparr>])"
proof -
  from assms(1,2,4) obtain st res0 w' where st: "test_stage B r (gt_Type q) (gt_Config q) ''input'' = Inr (Inr st)"
    and check: "Stage_CheckInput E st [\<lparr>gm_Role = ''user'', gm_Content = gt_Text q\<rparr>] w = (Inr res0, w')"
    and act: "action = action_name (rs_Action res0)" "txt = redacted_text (gt_Text q) res0" by (rule test_report_input)
  from test_stage_builds [OF st assms(3)] have build: "buildStage B \<lparr>gs_Type = gt_Type q, gs_Config = gt_Config q\<rparr> ''input'' = Inr st" .
  then have pipe: "BuildPipeline B (single_stage q) = Inr (NewPipeline [st] [])" by (simp add: BuildPipeline_def single_stage_def)
  have keeps: "list_all keeps_messages (pp_inputStages (NewPipeline [st] []))"
    using BuildPipeline_keeps [OF pipe] test_stage_not_webhook [OF st] by (simp add: single_stage_def)
  obtain res where "fst (CheckInput E (NewPipeline [st] []) [\<lparr>gm_Role = ''user'', gm_Content = gt_Text q\<rparr>] w) = Inr res"
    and "case flow E [st] [\<lparr>gm_Role = ''user'', gm_Content = gt_Text q\<rparr>] w of
       None \<Rightarrow> rs_Action res = Block
     | Some final \<Rightarrow> rs_Action res \<noteq> Block \<and> forwarded [\<lparr>gm_Role = ''user'', gm_Content = gt_Text q\<rparr>] res = final"
    using CheckInput_flow [OF keeps, of E "[\<lparr>gm_Role = ''user'', gm_Content = gt_Text q\<rparr>]" w] by (auto simp: NewPipeline_def)
  with pipe redacted_text_flow [OF _ check] keeps act show ?thesis by (auto simp: NewPipeline_def split: if_splits)
qed

text \<open>The catalog calls the regex stage not testable; the endpoint tests it.\<close>

definition test_request :: "json \<Rightarrow> admin_request" where
  "test_request j = (report_request [])\<lparr>rq_method := ''POST'', rq_body := Some j\<rparr>"

definition regex_builder :: gr_builder where
  "regex_builder = \<lparr>gb_compile = (\<lambda>p. if p = ''[0-9]+'' then Some (RRepeat 1 None (RClass [(CHR ''0'', CHR ''9'')])) else None),
     gb_schema_ok = (\<lambda>_. True), gb_plugin = (\<lambda>_. None)\<rparr>"

definition regex_test :: admin_request where
  "regex_test = test_request (JObj [(''type'', JStr ''regex''), (''text'', JStr ''call 555''),
     (''config'', JObj [(''patterns'', JArr [JObj [(''pattern'', JStr ''[0-9]+''), (''action'', JStr ''redact'')]])])])"

theorem regex_marked_untestable:
  "map ct_Testable (filter (\<lambda>e. ct_Type e = ''regex'') guardrailCatalog) = [False]
  \<and> test_report regex_builder Guardrails.example_env () regex_test = (200, TestBody ''redact'' '''' ''regex'' ''call [REDACTED]'')"
  by code_simp

section \<open>What the reports miss\<close>

text \<open>A connection that breaks while the rows are read gives a shorter list, answered as a success.\<close>

theorem lost_connection_unnoticed:
  "usage_report (report_rv\<lparr>rv_row := \<lambda>i. if i = 0 then RowRead else RowLost\<rparr>) example_rows (report_request [])
    = (200, UsageBody 2 [usage_line report_rv (2, spent 2 510)])"
  by code_simp

text \<open>Whatever the configuration, the route of the replay report is never registered: the manager it needs is made after the routes.\<close>

theorem replay_report_unreachable:
  "''GET /admin/routing/replay'' \<notin> set (nw_routes (server_New enabled db rbac mcpManager mcpServer cfg))"
  by (auto simp: server_New_def replay_block_def admin_block_def RegisterRoutes_def Let_def)

text \<open>A report changes no table.\<close>

theorem report_changes_no_table:
  assumes "report_guard h env r action k s = Some (reply, s')"
  shows "as_projects s' = as_projects s \<and> as_keys s' = as_keys s \<and> as_users s' = as_users s \<and> as_prompts s' = as_prompts s
    \<and> as_sessions s' = as_sessions s"
  using assms
  by (auto simp: report_guard_def requireRole_def Let_def record_event_def recordRBACCheck_def split: if_splits option.splits sum.splits)

section \<open>Examples\<close>

lemma report_rv_answers: "answering report_rv"
  by (simp add: answering_def report_rv_def)

lemma example_matching: "where_all (usage_clauses report_rv (report_request [])) (rt_usage example_rows) = rt_usage example_rows"
  by code_simp

theorem usage_pages_complete_witness:
  "concat (map report_rows (map (\<lambda>i. usage_report report_rv example_rows (page_request (report_request []) 1 i)) [0..<2]))
    = map (usage_line report_rv) (newest_usage (rt_usage example_rows))"
proof -
  have "length (rt_usage example_rows) \<le> 2 * 1" by code_simp
  with usage_pages_complete [OF report_rv_answers, of 1 2 "report_request []" example_rows] show ?thesis
    by (simp add: example_matching max_int64_def)
qed

theorem rejected_key_is_critical_witness:
  "computeKeyStatus (GetSpendForCurrentPeriod (rv_trunc report_rv) 550 [spent 8 420, spent 2 510] ''k'' ''monthly'') 10 = ''critical''"
proof -
  have "CheckBudget (rv_trunc report_rv) 550 (Some (Some [spent 8 420, spent 2 510])) ''k'' ''monthly'' 10 True
    = Inr \<lparr>bg_Allowed = False, bg_Spend = 10, bg_Limit = 10\<rparr>" by code_simp
  from rejected_key_is_critical [OF this] show ?thesis by simp
qed

definition regex_query :: guardrail_test where
  "regex_query = \<lparr>gt_Type = ''regex'',
     gt_Config = [(''patterns'', JArr [JObj [(''action'', JStr ''redact''), (''pattern'', JStr ''[0-9]+'')]])],
     gt_Text = ''call 555'', gt_Direction = ''''\<rparr>"

theorem guardrail_test_agrees_witness:
  "\<exists>p res. BuildPipeline regex_builder (single_stage regex_query) = Inr p
    \<and> fst (CheckInput Guardrails.example_env p [user_message ''call 555''] ()) = Inr res \<and> rs_Action res \<noteq> Block
    \<and> forwarded [user_message ''call 555''] res = [user_message ''call [REDACTED]'']"
proof -
  have parsed: "readJSON regex_test unmarshal_guardrail_test zero_guardrail_test = Some regex_query" by code_simp
  have answer: "test_report regex_builder Guardrails.example_env () regex_test = (200, TestBody ''redact'' '''' ''regex'' ''call [REDACTED]'')"
    by code_simp
  have "gt_Direction regex_query = '''' \<or> gt_Direction regex_query = ''input''" and "int_fields_ok (gt_Config regex_query)"
    by (simp add: regex_query_def) code_simp
  from guardrail_test_agrees [OF parsed this answer] show ?thesis by (auto simp: user_message_def regex_query_def)
qed

end
