(* ===== verification/Spec2Isabelle.thy ===== *)
theory Spec2Isabelle
  imports Semantic_Cache Config_Watcher Kms A2A_Handler Adapters Admin Embeddings Replay Mcp_Manager Metrics Readiness Redis_Limit Admin_Reports
begin

text \<open>The gateway.\<close>

end
